(* ===== verification/Prelude.thy ===== *)
theory Prelude
  imports Main "HOL-Library.Word"
begin

text \<open>
  Shared vocabulary of the development: faults and fallible results, the fixed-width
  integers of the Rust sources, little-endian byte encodings, the QS trace log every
  component appends to, and the generic lemmas the component theories rely on.
\<close>

section \<open>Collections of facts\<close>

named_theorems res_simps \<open>equations and inversions of the fallible-result combinators\<close>
named_theorems word_bytes \<open>byte-wise encodings of words\<close>
named_theorems ring_simps \<open>unfolding of queue operations\<close>

section \<open>Machine integers\<close>

type_synonym u8 = "8 word"
type_synonym u16 = "16 word"
type_synonym u32 = "32 word"
type_synonym u64 = "64 word"

section \<open>Faults and results\<close>

text \<open>
  \<open>OnError\<close> is the crash-only \<open>fusa::on_error\<close>; \<open>Panic\<close> is a failed \<open>assert!\<close>,
  an index or slice out of range, an \<open>unwrap\<close> of \<open>None\<close> or an arithmetic overflow
  in a checked build. Both end the computation.
\<close>

datatype fault = OnError | Panic

type_synonym 'a result = "fault + 'a"

definition rbind :: "'e + 'a \<Rightarrow> ('a \<Rightarrow> 'e + 'b) \<Rightarrow> 'e + 'b" where
  "rbind m f = (case m of Inl e \<Rightarrow> Inl e | Inr x \<Rightarrow> f x)"

definition ensure :: "'e \<Rightarrow> bool \<Rightarrow> 'e + unit" where
  "ensure e b = (if b then Inr () else Inl e)"

lemma rbind_simps [simp, res_simps]:
  "rbind (Inl e) f = Inl e"
  "rbind (Inr x) f = f x"
  by (simp_all add: rbind_def)

lemma rbind_Inr_iff [res_simps]:
  "rbind m f = Inr y \<longleftrightarrow> (\<exists>x. m = Inr x \<and> f x = Inr y)"
  by (cases m) simp_all

lemma Inr_rbind_iff [res_simps]:
  "Inr y = rbind m f \<longleftrightarrow> (\<exists>x. m = Inr x \<and> f x = Inr y)"
  by (cases m) auto

lemma rbind_Inl_iff [res_simps]:
  "rbind m f = Inl e \<longleftrightarrow> m = Inl e \<or> (\<exists>x. m = Inr x \<and> f x = Inl e)"
  by (cases m) simp_all

lemma rbind_assoc: "rbind (rbind m f) g = rbind m (\<lambda>x. rbind (f x) g)"
  by (cases m) simp_all

lemma ensure_iff [simp, res_simps]:
  "ensure e b = Inr u \<longleftrightarrow> b"
  "ensure e b = Inl e' \<longleftrightarrow> \<not> b \<and> e' = e"
  by (auto simp: ensure_def)

lemma ensure_True [simp]: "ensure e True = Inr ()"
  and ensure_False [simp]: "ensure e False = Inl e"
  by (simp_all add: ensure_def)

text \<open>
  Computations that may also run forever (or out of fuel, \<open>None\<close>): \<open>orbind\<close> sequences them and
  \<open>olift\<close> embeds a result.
\<close>

definition orbind :: "('e + 'a) option \<Rightarrow> ('a \<Rightarrow> ('e + 'b) option) \<Rightarrow> ('e + 'b) option" where
  "orbind m f = (case m of None \<Rightarrow> None | Some (Inl e) \<Rightarrow> Some (Inl e) | Some (Inr x) \<Rightarrow> f x)"

lemma orbind_simps [simp, res_simps]:
  "orbind None f = None"
  "orbind (Some (Inl e)) f = Some (Inl e)"
  "orbind (Some (Inr x)) f = f x"
  by (simp_all add: orbind_def)

lemma orbind_Inr_iff [res_simps]:
  "orbind m f = Some (Inr y) \<longleftrightarrow> (\<exists>x. m = Some (Inr x) \<and> f x = Some (Inr y))"
  by (auto simp: orbind_def split: option.splits sum.splits)

lemma orbind_Inl_iff [res_simps]:
  "orbind m f = Some (Inl e) \<longleftrightarrow> m = Some (Inl e) \<or> (\<exists>x. m = Some (Inr x) \<and> f x = Some (Inl e))"
  by (auto simp: orbind_def split: option.splits sum.splits)

lemma returns_okD:
  assumes "map_option (map_sum id (\<lambda>_. ())) r = Some (Inr ())"
  shows "\<exists>x. r = Some (Inr x)"
proof (cases r)
  case (Some z)
  with assms show ?thesis by (cases z) auto
qed (use assms in simp)

section \<open>The QS trace log\<close>

text \<open>
  A trace hook receives a record identifier, a payload and whether the record is time
  stamped; its result is ignored by every caller. \<open>None\<close> is the absence of a hook,
  \<open>Some log\<close> the records a hook has received, oldest first.
\<close>

type_synonym trace_rec = "u8 \<times> u8 list \<times> bool"
type_synonym trace = "trace_rec list option"

definition emit :: "u8 \<Rightarrow> u8 list \<Rightarrow> bool \<Rightarrow> trace \<Rightarrow> trace" where
  "emit r p ts t = map_option (\<lambda>log. log @ [(r, p, ts)]) t"

lemma emit_None [simp]: "emit r p ts None = None"
  and emit_Some [simp]: "emit r p ts (Some log) = Some (log @ [(r, p, ts)])"
  by (simp_all add: emit_def)

lemma emit_eq_None [simp]: "emit r p ts t = None \<longleftrightarrow> t = None"
  by (cases t) simp_all

section \<open>Little-endian encodings\<close>

definition le16 :: "u16 \<Rightarrow> u8 list" where
  "le16 w = [ucast w, ucast (drop_bit 8 w)]"

definition le32 :: "u32 \<Rightarrow> u8 list" where
  "le32 w = [ucast w, ucast (drop_bit 8 w), ucast (drop_bit 16 w), ucast (drop_bit 24 w)]"

definition le64 :: "u64 \<Rightarrow> u8 list" where
  "le64 w = map (\<lambda>i. ucast (drop_bit (8 * i) w)) [0..<8]"

fun of_le :: "u8 list \<Rightarrow> 'a::len word" where
  "of_le [] = 0"
| "of_le (b # bs) = or (ucast b) (push_bit 8 (of_le bs))"

lemma length_le [simp]: "length (le16 w) = 2" "length (le32 v) = 4" "length (le64 x) = 8"
  by (simp_all add: le16_def le32_def le64_def)

lemma of_le_le16 [simp, word_bytes]: "of_le (le16 w) = w"
proof (rule bit_word_eqI)
  fix n assume "n < LENGTH(16)"
  then show "bit (of_le (le16 w) :: u16) n = bit w n"
    by (cases "n < 8") (auto simp: le16_def bit_simps)
qed

lemma of_le_le32 [simp, word_bytes]: "of_le (le32 w) = w"
proof (rule bit_word_eqI)
  fix n assume "n < LENGTH(32)"
  then consider "n < 8" | "8 \<le> n" "n < 16" | "16 \<le> n" "n < 24" | "24 \<le> n" "n < 32"
    by fastforce
  then show "bit (of_le (le32 w) :: u32) n = bit w n"
    by cases (auto simp: le32_def bit_simps)
qed

lemma bit_of_le:
  "bit (of_le bs :: 'a::len word) n \<longleftrightarrow>
     n < LENGTH('a) \<and> n div 8 < length bs \<and> bit (bs ! (n div 8)) (n mod 8)"
proof (induction bs arbitrary: n)
  case Nil
  then show ?case by simp
next
  case (Cons b bs)
  show ?case
  proof (cases "n < 8")
    case True
    then show ?thesis by (auto simp: bit_simps dest: bit_imp_le_length)
  next
    case False
    then have d: "n div 8 = Suc ((n - 8) div 8)" and m: "n mod 8 = (n - 8) mod 8"
      by (auto simp: le_div_geq mod_if)
    have "\<not> bit b n" using False bit_imp_le_length [of b n] by auto
    with False Cons.IH [of "n - 8"] d m show ?thesis by (auto simp: bit_simps)
  qed
qed

lemma of_le_le64 [simp, word_bytes]: "of_le (le64 w) = w"
proof (rule bit_word_eqI)
  fix n assume n: "n < LENGTH(64)"
  then have "n div 8 < 8" by simp
  moreover have "8 * (n div 8) + n mod 8 = n" by simp
  ultimately show "bit (of_le (le64 w) :: u64) n = bit w n"
    using n by (simp add: bit_of_le le64_def bit_simps)
qed

section \<open>Lists and words\<close>

lemma Min_insert_min:
  assumes "finite S" "f \<in> S"
  shows "Min (insert (min a f) S) = Min (insert (a :: 'a::linorder) S)"
proof -
  have ne: "S \<noteq> {}" using assms(2) by blast
  have "Min S \<le> f" using assms by simp
  then have "min (min a f) (Min S) = min a (Min S)" by (simp add: min.assoc min.absorb2)
  then show ?thesis by (simp only: Min_insert [OF assms(1) ne])
qed

lemma sorted_last_max:
  "sorted xs \<Longrightarrow> x \<in> set xs \<Longrightarrow> x \<le> (last xs :: 'a::linorder)"
  by (induction xs) auto

lemma find_SomeD: "find P xs = Some x \<Longrightarrow> x \<in> set xs \<and> P x"
  by (auto simp: find_Some_iff)

lemma find_rev_last:
  "find P (rev xs) = (if \<exists>x\<in>set xs. P x then Some (last (filter P xs)) else None)"
  by (induction xs rule: rev_induct) auto

lemma sum_list_update_nat:
  "i < length xs \<Longrightarrow> sum_list (map f (xs[i := x])) + f (xs ! i) = sum_list (map f xs) + (f x :: nat)"
proof (induction xs arbitrary: i)
  case (Cons a xs)
  then show ?case by (cases i) (auto simp: algebra_simps)
qed simp

lemma unat_Suc_le: "unat (x + 1 :: 'a::len word) \<le> Suc (unat x)"
proof -
  have "unat (x + 1) = (unat x + unat (1 :: 'a word)) mod 2 ^ LENGTH('a)" by (simp add: unat_word_ariths)
  also have "\<dots> \<le> unat x + 1" using mod_less_eq_dividend [of "unat x + 1" "2 ^ LENGTH('a)"] by simp
  finally show ?thesis by simp
qed

lemma u32_bound: "unat (x :: u32) < 4294967296"
  using unsigned_less [of x] by simp

lemma unat_clear_low:
  fixes x :: u32
  shows "unat (and x (not (mask n))) = unat x div 2 ^ n * 2 ^ n"
proof -
  have "and x (not (mask n)) = push_bit n (drop_bit n x)"
    by (rule bit_word_eqI) (auto simp: bit_simps)
  moreover have "unat x div 2 ^ n * 2 ^ n < 2 ^ 32"
    using u32_bound [of x] order.strict_trans1 [OF div_times_less_eq_dividend [of "unat x" "2 ^ n"]] by simp
  moreover have "unat (drop_bit n x) = unat x div 2 ^ n"
    using u32_bound [of x] by (simp only: unsigned_drop_bit_eq) (simp add: drop_bit_eq_div take_bit_nat_eq_self)
  ultimately show ?thesis
    by (simp only: unsigned_push_bit_eq) (simp add: push_bit_eq_mult take_bit_nat_eq_self)
qed

end
