(* ===== verification/Dis.thy ===== *)
theory Dis
  imports Prelude
begin

text \<open>
  Error-detecting storage (\<open>crates/qf/src/dis.rs\<close>): a scalar beside its bitwise
  complement (\<open>Dis\<close>), a value stored twice (\<open>Dup\<close>), and a reference count packed with
  its complement into one atomic word (\<open>DisAtomicU16\<close>). A verified read either returns
  the value last written or faults.
\<close>

section \<open>Duplicate inverse storage\<close>

record 'a dis =
  dis_value :: 'a
  dis_inverse :: 'a

definition Dis_new :: "'a::len word \<Rightarrow> 'a word dis" where
  "Dis_new v = \<lparr>dis_value = v, dis_inverse = not v\<rparr>"

definition Dis_is_intact :: "'a::len word dis \<Rightarrow> bool" where
  "Dis_is_intact d \<longleftrightarrow> dis_value d = not (dis_inverse d)"

definition Dis_get :: "'a::len word dis \<Rightarrow> 'a word result" where
  "Dis_get d = (if dis_value d \<noteq> not (dis_inverse d) then Inl OnError else Inr (dis_value d))"

definition Dis_set :: "'a::len word \<Rightarrow> 'a word dis \<Rightarrow> 'a word dis" where
  "Dis_set v d = d\<lparr>dis_value := v, dis_inverse := not v\<rparr>"

section \<open>Duplicate storage\<close>

record 'a dup =
  dup_a :: 'a
  dup_b :: 'a

definition Dup_new :: "'a \<Rightarrow> 'a dup" where
  "Dup_new v = \<lparr>dup_a = v, dup_b = v\<rparr>"

definition Dup_get :: "'a dup \<Rightarrow> 'a result" where
  "Dup_get d = (if dup_a d \<noteq> dup_b d then Inl OnError else Inr (dup_a d))"

definition Dup_set :: "'a \<Rightarrow> 'a dup \<Rightarrow> 'a dup" where
  "Dup_set v d = d\<lparr>dup_a := v, dup_b := v\<rparr>"

definition Dup_is_intact :: "'a dup \<Rightarrow> bool" where
  "Dup_is_intact d \<longleftrightarrow> dup_a d = dup_b d"

section \<open>The packed reference count\<close>

text \<open>
  The compare-exchange loops of \<open>increment\<close> and \<open>decrement\<close> retry on interference; the
  model is the successful iteration, which reads and replaces the word in one atomic step.
\<close>

definition DisAtomicU16_pack :: "u16 \<Rightarrow> u32" where
  "DisAtomicU16_pack v = or (ucast v) (push_bit 16 (ucast (not v)))"

definition DisAtomicU16_verify :: "u32 \<Rightarrow> u16 result" where
  "DisAtomicU16_verify w =
     (let lo = ucast w; hi = ucast (drop_bit 16 w)
      in if lo \<noteq> not hi then Inl OnError else Inr lo)"

definition DisAtomicU16_load :: "u32 \<Rightarrow> u16 result" where
  "DisAtomicU16_load w = DisAtomicU16_verify w"

definition DisAtomicU16_increment :: "u32 \<Rightarrow> u32 result" where
  "DisAtomicU16_increment w =
     rbind (DisAtomicU16_verify w) (\<lambda>v.
       if v = - 1 then Inl OnError else Inr (DisAtomicU16_pack (v + 1)))"

definition DisAtomicU16_decrement :: "u32 \<Rightarrow> (u16 \<times> u32) result" where
  "DisAtomicU16_decrement w =
     rbind (DisAtomicU16_verify w) (\<lambda>v.
       if v = 0 then Inl OnError else Inr (v, DisAtomicU16_pack (v - 1)))"

section \<open>Lemmas\<close>

lemma Dis_get_new [simp]: "Dis_get (Dis_new v) = Inr v"
  by (simp add: Dis_get_def Dis_new_def)

lemma Dis_get_set [simp]: "Dis_get (Dis_set v d) = Inr v"
  by (simp add: Dis_get_def Dis_set_def)

lemma Dis_is_intact_iff: "Dis_is_intact d \<longleftrightarrow> Dis_get d = Inr (dis_value d)"
  by (auto simp: Dis_is_intact_def Dis_get_def)

lemma Dis_intact_new [simp]: "Dis_is_intact (Dis_new v)"
  and Dis_intact_set [simp]: "Dis_is_intact (Dis_set v d)"
  by (simp_all add: Dis_is_intact_iff Dis_new_def Dis_set_def Dis_get_def)

lemma Dup_get_new [simp]: "Dup_get (Dup_new v) = Inr v"
  and Dup_get_set [simp]: "Dup_get (Dup_set v d) = Inr v"
  by (simp_all add: Dup_get_def Dup_new_def Dup_set_def)

lemma DisAtomicU16_lo: "ucast (DisAtomicU16_pack v) = v"
  by (rule bit_word_eqI) (auto simp: DisAtomicU16_pack_def bit_simps)

lemma DisAtomicU16_hi: "ucast (drop_bit 16 (DisAtomicU16_pack v)) = (not v :: u16)"
  by (rule bit_word_eqI) (auto simp: DisAtomicU16_pack_def bit_simps dest: bit_imp_le_length)

lemma DisAtomicU16_verify_pack [simp]: "DisAtomicU16_verify (DisAtomicU16_pack v) = Inr v"
  by (simp add: DisAtomicU16_verify_def DisAtomicU16_lo DisAtomicU16_hi)

lemma DisAtomicU16_verify_inj:
  assumes "DisAtomicU16_verify w = Inr v"
  shows "w = DisAtomicU16_pack v"
proof (rule bit_word_eqI)
  fix n assume n: "n < LENGTH(32)"
  from assms have lo: "ucast w = v" and hi: "ucast (drop_bit 16 w) = (not v :: u16)"
    by (auto simp: DisAtomicU16_verify_def Let_def split: if_splits dest: arg_cong [where f = "not"])
  show "bit w n = bit (DisAtomicU16_pack v) n"
  proof (cases "n < 16")
    case True
    then have "bit w n = bit (ucast w :: u16) n" by (simp add: bit_simps)
    with True lo show ?thesis by (auto simp: DisAtomicU16_pack_def bit_simps)
  next
    case False
    with n have "bit w n = bit (ucast (drop_bit 16 w) :: u16) (n - 16)" by (auto simp: bit_simps)
    then have "bit w n = bit (not v) (n - 16)" by (simp only: hi)
    with False n show ?thesis
      by (auto simp: DisAtomicU16_pack_def bit_simps dest: bit_imp_le_length)
  qed
qed

end
