(* ===== verification/EQueue.thy ===== *)
theory EQueue
  imports Prelude
begin

text \<open>
  The event queues of \<open>crates/qf/src/equeue.rs\<close> and the queue inside an active object
  (\<open>EventQueue\<close> of \<open>crates/qf/src/active.rs\<close>). \<open>QEQueue\<close> is the heap-backed queue,
  \<open>StaticEQueue\<close> the inline one, whose deque can refuse a push; both keep a sticky
  low-water mark and shed normal traffic to preserve a safety margin. Lengths and
  capacities (\<open>usize\<close>) are natural numbers.
\<close>

section \<open>QEQueue\<close>

datatype PostStatus = Accepted | AcceptedDegraded | Shed

record 'e QEQueue =
  q_buffer :: "'e list"
  q_capacity :: nat
  q_min_free :: nat
  q_safety_margin :: nat
  q_shed_count :: nat

definition QEQueue_with_safety_margin :: "nat \<Rightarrow> nat \<Rightarrow> 'e QEQueue" where
  "QEQueue_with_safety_margin cap margin =
     \<lparr>q_buffer = [], q_capacity = cap, q_min_free = cap,
      q_safety_margin = min margin cap, q_shed_count = 0\<rparr>"

definition QEQueue_new :: "nat \<Rightarrow> 'e QEQueue" where
  "QEQueue_new cap = QEQueue_with_safety_margin cap 0"

definition QEQueue_free :: "'e QEQueue \<Rightarrow> nat" where
  "QEQueue_free q = q_capacity q - length (q_buffer q)"

definition QEQueue_update_watermark :: "'e QEQueue \<Rightarrow> 'e QEQueue" where
  "QEQueue_update_watermark q =
     (let free = q_capacity q - length (q_buffer q)
      in if free < q_min_free q then q\<lparr>q_min_free := free\<rparr> else q)"

definition QEQueue_set_safety_margin :: "nat \<Rightarrow> 'e QEQueue \<Rightarrow> 'e QEQueue" where
  "QEQueue_set_safety_margin margin q = q\<lparr>q_safety_margin := min margin (q_capacity q)\<rparr>"

definition QEQueue_is_degraded :: "'e QEQueue \<Rightarrow> bool" where
  "QEQueue_is_degraded q \<longleftrightarrow> QEQueue_free q \<le> q_safety_margin q"

definition QEQueue_post_normal :: "'e \<Rightarrow> 'e QEQueue \<Rightarrow> PostStatus \<times> 'e QEQueue" where
  "QEQueue_post_normal e q =
     (if QEQueue_free q > q_safety_margin q
      then let q' = QEQueue_update_watermark (q\<lparr>q_buffer := q_buffer q @ [e]\<rparr>)
           in (if QEQueue_free q' \<le> q_safety_margin q' then AcceptedDegraded else Accepted, q')
      else (Shed, q\<lparr>q_shed_count := q_shed_count q + 1\<rparr>))"

definition QEQueue_post :: "'e \<Rightarrow> nat \<Rightarrow> 'e QEQueue \<Rightarrow> bool \<times> 'e QEQueue" where
  "QEQueue_post e margin q =
     (let free = q_capacity q - length (q_buffer q)
      in if free > margin
         then (True, QEQueue_update_watermark (q\<lparr>q_buffer := q_buffer q @ [e]\<rparr>))
         else (False, q))"

definition QEQueue_post_critical :: "'e \<Rightarrow> 'e QEQueue \<Rightarrow> bool \<times> 'e QEQueue" where
  "QEQueue_post_critical e q = QEQueue_post e 0 q"

definition QEQueue_post_lifo :: "'e \<Rightarrow> 'e QEQueue \<Rightarrow> bool \<times> 'e QEQueue" where
  "QEQueue_post_lifo e q =
     (if length (q_buffer q) < q_capacity q
      then (True, QEQueue_update_watermark (q\<lparr>q_buffer := e # q_buffer q\<rparr>))
      else (False, q))"

definition QEQueue_get :: "'e QEQueue \<Rightarrow> 'e option \<times> 'e QEQueue" where
  "QEQueue_get q =
     (case q_buffer q of [] \<Rightarrow> (None, q) | e # es \<Rightarrow> (Some e, q\<lparr>q_buffer := es\<rparr>))"

definition QEQueue_peek_front :: "'e QEQueue \<Rightarrow> bool" where
  "QEQueue_peek_front q \<longleftrightarrow> q_buffer q \<noteq> []"

definition QEQueue_is_empty :: "'e QEQueue \<Rightarrow> bool" where
  "QEQueue_is_empty q \<longleftrightarrow> q_buffer q = []"

definition QEQueue_get_free :: "'e QEQueue \<Rightarrow> nat" where
  "QEQueue_get_free q = q_capacity q - length (q_buffer q)"

definition QEQueue_get_min :: "'e QEQueue \<Rightarrow> nat" where
  "QEQueue_get_min q = q_min_free q"

definition QEQueue_len :: "'e QEQueue \<Rightarrow> nat" where
  "QEQueue_len q = length (q_buffer q)"

section \<open>StaticEQueue\<close>

text \<open>
  The const generic \<open>N\<close> is a field. \<open>deque_push_back\<close> and \<open>deque_push_front\<close> are the
  fallible pushes of a deque with inline capacity \<open>N\<close>.
\<close>

record 'e StaticEQueue =
  s_N :: nat
  s_buffer :: "'e list"
  s_min_free :: nat
  s_safety_margin :: nat
  s_shed_count :: nat

definition deque_push_back :: "nat \<Rightarrow> 'e \<Rightarrow> 'e list \<Rightarrow> 'e list option" where
  "deque_push_back n e xs = (if length xs < n then Some (xs @ [e]) else None)"

definition deque_push_front :: "nat \<Rightarrow> 'e \<Rightarrow> 'e list \<Rightarrow> 'e list option" where
  "deque_push_front n e xs = (if length xs < n then Some (e # xs) else None)"

definition StaticEQueue_with_safety_margin :: "nat \<Rightarrow> nat \<Rightarrow> 'e StaticEQueue" where
  "StaticEQueue_with_safety_margin n margin =
     \<lparr>s_N = n, s_buffer = [], s_min_free = n, s_safety_margin = margin, s_shed_count = 0\<rparr>"

definition StaticEQueue_new :: "nat \<Rightarrow> 'e StaticEQueue" where
  "StaticEQueue_new n = StaticEQueue_with_safety_margin n 0"

definition StaticEQueue_free :: "'e StaticEQueue \<Rightarrow> nat" where
  "StaticEQueue_free q = s_N q - length (s_buffer q)"

definition StaticEQueue_update_watermark :: "'e StaticEQueue \<Rightarrow> 'e StaticEQueue" where
  "StaticEQueue_update_watermark q =
     (let free = s_N q - length (s_buffer q)
      in if free < s_min_free q then q\<lparr>s_min_free := free\<rparr> else q)"

definition StaticEQueue_set_safety_margin :: "nat \<Rightarrow> 'e StaticEQueue \<Rightarrow> 'e StaticEQueue" where
  "StaticEQueue_set_safety_margin margin q =
     q\<lparr>s_safety_margin := (if margin > s_N q then s_N q else margin)\<rparr>"

definition StaticEQueue_is_degraded :: "'e StaticEQueue \<Rightarrow> bool" where
  "StaticEQueue_is_degraded q \<longleftrightarrow> StaticEQueue_free q \<le> s_safety_margin q"

definition StaticEQueue_post_normal ::
    "'e \<Rightarrow> 'e StaticEQueue \<Rightarrow> (PostStatus \<times> 'e StaticEQueue) result" where
  "StaticEQueue_post_normal e q =
     (if StaticEQueue_free q > s_safety_margin q
      then (case deque_push_back (s_N q) e (s_buffer q) of
              None \<Rightarrow> Inl OnError
            | Some b \<Rightarrow>
                let q' = StaticEQueue_update_watermark (q\<lparr>s_buffer := b\<rparr>)
                in Inr (if StaticEQueue_free q' \<le> s_safety_margin q'
                        then AcceptedDegraded else Accepted, q'))
      else Inr (Shed, q\<lparr>s_shed_count := s_shed_count q + 1\<rparr>))"

definition StaticEQueue_post ::
    "'e \<Rightarrow> nat \<Rightarrow> 'e StaticEQueue \<Rightarrow> (bool \<times> 'e StaticEQueue) result" where
  "StaticEQueue_post e margin q =
     (let free = s_N q - length (s_buffer q)
      in if free > margin
         then (case deque_push_back (s_N q) e (s_buffer q) of
                 None \<Rightarrow> Inl OnError
               | Some b \<Rightarrow> Inr (True, StaticEQueue_update_watermark (q\<lparr>s_buffer := b\<rparr>)))
         else Inr (False, q))"

definition StaticEQueue_post_critical ::
    "'e \<Rightarrow> 'e StaticEQueue \<Rightarrow> (bool \<times> 'e StaticEQueue) result" where
  "StaticEQueue_post_critical e q = StaticEQueue_post e 0 q"

definition StaticEQueue_post_lifo ::
    "'e \<Rightarrow> 'e StaticEQueue \<Rightarrow> (bool \<times> 'e StaticEQueue) result" where
  "StaticEQueue_post_lifo e q =
     (if length (s_buffer q) < s_N q
      then (case deque_push_front (s_N q) e (s_buffer q) of
              None \<Rightarrow> Inl OnError
            | Some b \<Rightarrow> Inr (True, StaticEQueue_update_watermark (q\<lparr>s_buffer := b\<rparr>)))
      else Inr (False, q))"

definition StaticEQueue_get :: "'e StaticEQueue \<Rightarrow> 'e option \<times> 'e StaticEQueue" where
  "StaticEQueue_get q =
     (case s_buffer q of [] \<Rightarrow> (None, q) | e # es \<Rightarrow> (Some e, q\<lparr>s_buffer := es\<rparr>))"

section \<open>The queue of an active object\<close>

text \<open>
  The default build backs \<open>EventQueue\<close> by an unbounded deque (\<open>None\<close>); the
  \<open>static-alloc\<close> build by one of fixed capacity (\<open>Some AO_QUEUE_CAPACITY\<close>), where an
  overflow is a fault.
\<close>

record 'e EventQueue =
  eq_buf :: "'e list"
  eq_high_watermark :: nat

definition AO_QUEUE_CAPACITY :: nat where
  "AO_QUEUE_CAPACITY = 16"

definition EventQueue_new :: "'e EventQueue" where
  "EventQueue_new = \<lparr>eq_buf = [], eq_high_watermark = 0\<rparr>"

definition EventQueue_touch_watermark :: "'e EventQueue \<Rightarrow> 'e EventQueue" where
  "EventQueue_touch_watermark q =
     (if length (eq_buf q) > eq_high_watermark q
      then q\<lparr>eq_high_watermark := length (eq_buf q)\<rparr> else q)"

definition EventQueue_push_back :: "nat option \<Rightarrow> 'e \<Rightarrow> 'e EventQueue \<Rightarrow> 'e EventQueue result" where
  "EventQueue_push_back cap e q =
     (case cap of
        None \<Rightarrow> Inr (EventQueue_touch_watermark (q\<lparr>eq_buf := eq_buf q @ [e]\<rparr>))
      | Some n \<Rightarrow>
          (case deque_push_back n e (eq_buf q) of
             None \<Rightarrow> Inl OnError
           | Some b \<Rightarrow> Inr (EventQueue_touch_watermark (q\<lparr>eq_buf := b\<rparr>))))"

definition EventQueue_push_front :: "nat option \<Rightarrow> 'e \<Rightarrow> 'e EventQueue \<Rightarrow> 'e EventQueue result" where
  "EventQueue_push_front cap e q =
     (case cap of
        None \<Rightarrow> Inr (EventQueue_touch_watermark (q\<lparr>eq_buf := e # eq_buf q\<rparr>))
      | Some n \<Rightarrow>
          (case deque_push_front n e (eq_buf q) of
             None \<Rightarrow> Inl OnError
           | Some b \<Rightarrow> Inr (EventQueue_touch_watermark (q\<lparr>eq_buf := b\<rparr>))))"

definition EventQueue_pop_front :: "'e EventQueue \<Rightarrow> 'e option \<times> 'e EventQueue" where
  "EventQueue_pop_front q =
     (case eq_buf q of [] \<Rightarrow> (None, q) | e # es \<Rightarrow> (Some e, q\<lparr>eq_buf := es\<rparr>))"

definition EventQueue_len :: "'e EventQueue \<Rightarrow> nat" where
  "EventQueue_len q = length (eq_buf q)"

definition EventQueue_is_empty :: "'e EventQueue \<Rightarrow> bool" where
  "EventQueue_is_empty q \<longleftrightarrow> eq_buf q = []"

section \<open>Defer, recall, flush\<close>

definition defer_ev :: "'e \<Rightarrow> 'e QEQueue \<Rightarrow> bool \<times> 'e QEQueue" where
  "defer_ev e q = QEQueue_post e 0 q"

definition recall ::
    "nat option \<Rightarrow> 'e EventQueue \<Rightarrow> 'e QEQueue \<Rightarrow> (bool \<times> 'e EventQueue \<times> 'e QEQueue) result" where
  "recall cap ao q =
     (case QEQueue_get q of
        (Some e, q') \<Rightarrow> rbind (EventQueue_push_front cap e ao) (\<lambda>ao'. Inr (True, ao', q'))
      | (None, q') \<Rightarrow> Inr (False, ao, q'))"

text \<open>The loop of \<open>flush_deferred\<close>; \<open>num\<close> counts the iterations still allowed.\<close>

fun flush_deferred :: "nat \<Rightarrow> 'e QEQueue \<Rightarrow> nat \<times> 'e QEQueue" where
  "flush_deferred 0 q = (0, q)"
| "flush_deferred (Suc num) q =
     (case QEQueue_get q of
        (None, q') \<Rightarrow> (0, q')
      | (Some _, q') \<Rightarrow> let (n, q'') = flush_deferred num q' in (n + 1, q''))"

section \<open>Histories and the refinement map\<close>

text \<open>
  The operations that change a \<open>QEQueue\<close>, the states a sequence of them visits, and the
  heap-backed queue a static one stands for.
\<close>

datatype 'e qop = OpPost 'e nat | OpPostNormal 'e | OpPostLifo 'e | OpGet | OpSetMargin nat

fun qstep :: "'e qop \<Rightarrow> 'e QEQueue \<Rightarrow> 'e QEQueue" where
  "qstep (OpPost e m) q = snd (QEQueue_post e m q)"
| "qstep (OpPostNormal e) q = snd (QEQueue_post_normal e q)"
| "qstep (OpPostLifo e) q = snd (QEQueue_post_lifo e q)"
| "qstep OpGet q = snd (QEQueue_get q)"
| "qstep (OpSetMargin m) q = QEQueue_set_safety_margin m q"

fun qstates :: "'e qop list \<Rightarrow> 'e QEQueue \<Rightarrow> 'e QEQueue list" where
  "qstates [] q = [q]"
| "qstates (op # ops) q = q # qstates ops (qstep op q)"

definition StaticEQueue_abs :: "'e StaticEQueue \<Rightarrow> 'e QEQueue" where
  "StaticEQueue_abs q =
     \<lparr>q_buffer = s_buffer q, q_capacity = s_N q, q_min_free = s_min_free q,
      q_safety_margin = s_safety_margin q, q_shed_count = s_shed_count q\<rparr>"

section \<open>The bounded-queue interface\<close>

text \<open>
  \<open>post\<close> returns \<open>Inr\<close> with whether the event was taken. The laws are those of a list of
  bounded length: FIFO posts go to the back when more than \<open>margin\<close> slots are free, LIFO
  posts to the front when a slot is free, \<open>get\<close> takes the front. \<open>drain\<close> empties a queue.
\<close>

fun drain :: "('q \<Rightarrow> 'e option \<times> 'q) \<Rightarrow> nat \<Rightarrow> 'q \<Rightarrow> 'e list \<times> 'q" where
  "drain get 0 q = ([], q)"
| "drain get (Suc n) q =
     (case get q of
        (None, q') \<Rightarrow> ([], q')
      | (Some e, q') \<Rightarrow> let (es, q'') = drain get n q' in (e # es, q''))"

fun post_all :: "('e \<Rightarrow> 'q \<Rightarrow> (bool \<times> 'q) result) \<Rightarrow> 'e list \<Rightarrow> 'q \<Rightarrow> 'q result" where
  "post_all post [] q = Inr q"
| "post_all post (e # es) q = rbind (post e q) (\<lambda>(_, q'). post_all post es q')"

locale bounded_queue =
  fixes contents :: "'q \<Rightarrow> 'e list"
    and room :: "'q \<Rightarrow> nat"
    and invar :: "'q \<Rightarrow> bool"
    and post :: "'e \<Rightarrow> nat \<Rightarrow> 'q \<Rightarrow> (bool \<times> 'q) result"
    and post_lifo :: "'e \<Rightarrow> 'q \<Rightarrow> (bool \<times> 'q) result"
    and get :: "'q \<Rightarrow> 'e option \<times> 'q"
  assumes bounded: "invar q \<Longrightarrow> length (contents q) \<le> room q"
    and post_room: "invar q \<Longrightarrow> length (contents q) + m < room q \<Longrightarrow>
      \<exists>q'. post e m q = Inr (True, q') \<and> contents q' = contents q @ [e] \<and>
           room q' = room q \<and> invar q'"
    and post_full: "invar q \<Longrightarrow> room q \<le> length (contents q) + m \<Longrightarrow>
      post e m q = Inr (False, q)"
    and lifo_room: "invar q \<Longrightarrow> length (contents q) < room q \<Longrightarrow>
      \<exists>q'. post_lifo e q = Inr (True, q') \<and> contents q' = e # contents q \<and>
           room q' = room q \<and> invar q'"
    and lifo_full: "invar q \<Longrightarrow> room q \<le> length (contents q) \<Longrightarrow>
      post_lifo e q = Inr (False, q)"
    and get_empty: "contents q = [] \<Longrightarrow> get q = (None, q)"
    and get_cons: "invar q \<Longrightarrow> contents q = e # es \<Longrightarrow>
      \<exists>q'. get q = (Some e, q') \<and> contents q' = es \<and> room q' = room q \<and> invar q'"
begin

lemma post_total: "invar q \<Longrightarrow> \<exists>b q'. post e m q = Inr (b, q') \<and> invar q'"
  by (cases "length (contents q) + m < room q") (metis post_room, metis post_full not_less)

lemma post_all_contents:
  assumes "invar q" "length (contents q) + length es \<le> room q"
  shows "\<exists>q'. post_all (\<lambda>e. post e 0) es q = Inr q' \<and> contents q' = contents q @ es \<and>
    room q' = room q \<and> invar q'"
  using assms
proof (induction es arbitrary: q)
  case (Cons e es)
  then obtain q1 where q1: "post e 0 q = Inr (True, q1)" "contents q1 = contents q @ [e]"
    "room q1 = room q" "invar q1"
    using post_room [of q 0 e] by auto
  with Cons.prems have "length (contents q1) + length es \<le> room q1" by simp
  with Cons.IH [OF q1(4)] q1 show ?case by auto
qed simp

lemma drain_contents:
  assumes "invar q" "length (contents q) \<le> n"
  shows "\<exists>q'. drain get n q = (contents q, q') \<and> contents q' = [] \<and> invar q'"
  using assms
proof (induction n arbitrary: q)
  case (Suc n)
  show ?case
  proof (cases "contents q")
    case Nil
    with Suc.prems show ?thesis by (simp add: get_empty)
  next
    case (Cons e es)
    then obtain q1 where q1: "get q = (Some e, q1)" "contents q1 = es" "invar q1"
      using get_cons [OF Suc.prems(1)] by blast
    with Suc.prems Cons have "length (contents q1) \<le> n" by simp
    from Suc.IH [OF q1(3) this] q1 Cons show ?thesis by auto
  qed
qed simp

lemma fifo_order:
  assumes "invar q" "length (contents q) + length es \<le> room q"
  shows "\<exists>q1 q2. post_all (\<lambda>e. post e 0) es q = Inr q1 \<and>
    drain get (room q) q1 = (contents q @ es, q2) \<and> contents q2 = []"
proof -
  obtain q1 where q1: "post_all (\<lambda>e. post e 0) es q = Inr q1" "contents q1 = contents q @ es"
    "room q1 = room q" "invar q1"
    using post_all_contents [OF assms] by blast
  moreover have "length (contents q1) \<le> room q" using assms(2) q1(2) by simp
  ultimately show ?thesis using drain_contents by metis
qed

lemma lifo_get:
  assumes "invar q" "length (contents q) < room q"
  shows "\<exists>q1 q2. post_lifo e q = Inr (True, q1) \<and> get q1 = (Some e, q2) \<and>
    contents q2 = contents q"
  using lifo_room [OF assms, of e] get_cons by metis

end

section \<open>Both queues implement the interface\<close>

definition QEQueue_inv :: "'e QEQueue \<Rightarrow> bool" where
  "QEQueue_inv q \<longleftrightarrow> length (q_buffer q) \<le> q_capacity q \<and>
     q_min_free q \<le> q_capacity q - length (q_buffer q) \<and> q_safety_margin q \<le> q_capacity q"

definition StaticEQueue_inv :: "'e StaticEQueue \<Rightarrow> bool" where
  "StaticEQueue_inv q \<longleftrightarrow> length (s_buffer q) \<le> s_N q \<and>
     s_min_free q \<le> s_N q - length (s_buffer q)"

lemmas QEQueue_defs [ring_simps] =
  QEQueue_post_def QEQueue_post_lifo_def QEQueue_get_def QEQueue_post_normal_def
  QEQueue_update_watermark_def QEQueue_free_def QEQueue_inv_def Let_def

lemmas StaticEQueue_defs [ring_simps] =
  StaticEQueue_post_def StaticEQueue_post_lifo_def StaticEQueue_get_def
  StaticEQueue_post_normal_def StaticEQueue_update_watermark_def StaticEQueue_free_def
  StaticEQueue_inv_def deque_push_back_def deque_push_front_def

interpretation qeq: bounded_queue q_buffer q_capacity QEQueue_inv
  "\<lambda>e m q. Inr (QEQueue_post e m q)" "\<lambda>e q. Inr (QEQueue_post_lifo e q)" QEQueue_get
  by unfold_locales (auto simp: ring_simps)

interpretation seq: bounded_queue s_buffer s_N StaticEQueue_inv
  StaticEQueue_post StaticEQueue_post_lifo StaticEQueue_get
  by unfold_locales (auto simp: ring_simps)

section \<open>Invariants, shedding and the water mark\<close>

lemma QEQueue_inv_new [simp]: "QEQueue_inv (QEQueue_with_safety_margin cap margin)"
  by (simp add: QEQueue_inv_def QEQueue_with_safety_margin_def)

lemma QEQueue_inv_ops:
  assumes "QEQueue_inv q"
  shows "QEQueue_inv (snd (QEQueue_post e m q))"
    and "QEQueue_inv (snd (QEQueue_post_normal e q))"
    and "QEQueue_inv (snd (QEQueue_post_lifo e q))"
    and "QEQueue_inv (snd (QEQueue_get q))"
    and "QEQueue_inv (QEQueue_set_safety_margin m q)"
  using assms
  by (auto simp: ring_simps QEQueue_set_safety_margin_def split: list.splits)

lemma flush_deferred_spec:
  "flush_deferred num q =
     (min num (length (q_buffer q)), q\<lparr>q_buffer := drop num (q_buffer q)\<rparr>)"
  by (induction num q rule: flush_deferred.induct)
    (auto simp: QEQueue_get_def Let_def split: list.splits)

lemma qstep_inv: "QEQueue_inv q \<Longrightarrow> QEQueue_inv (qstep op q)"
  by (cases op) (simp_all add: QEQueue_inv_ops)

lemma qstep_capacity [simp]: "q_capacity (qstep op q) = q_capacity q"
  by (cases op) (auto simp: ring_simps QEQueue_set_safety_margin_def split: list.splits)

lemma qstep_watermark:
  "QEQueue_inv q \<Longrightarrow> q_min_free (qstep op q) = min (q_min_free q) (QEQueue_free (qstep op q))"
  by (cases op) (auto simp: ring_simps QEQueue_set_safety_margin_def min_def split: list.splits)

lemma qstates_nonempty [simp]: "qstates ops q \<noteq> []"
  by (cases ops) simp_all

lemma qstates_watermark:
  "QEQueue_inv q \<Longrightarrow>
   q_min_free (last (qstates ops q)) = Min (insert (q_min_free q) (QEQueue_free ` set (qstates ops q)))"
proof (induction ops q rule: qstates.induct)
  case (1 q)
  then show ?case by (simp add: QEQueue_inv_def QEQueue_free_def min_def)
next
  case (2 op ops q)
  let ?S = "QEQueue_free ` set (qstates ops (qstep op q))"
  have "q_min_free (last (qstates (op # ops) q)) = Min (insert (q_min_free (qstep op q)) ?S)"
    using 2 by (simp add: qstep_inv)
  also have "\<dots> = Min (insert (q_min_free q) ?S)"
  proof -
    have "QEQueue_free (qstep op q) \<in> ?S"
      by (rule imageI) (cases ops, simp_all)
    with 2(2) show ?thesis by (simp only: qstep_watermark Min_insert_min finite_imageI finite_set)
  qed
  also have "\<dots> = Min (insert (q_min_free q) (QEQueue_free ` set (qstates (op # ops) q)))"
    using 2(2) by (auto simp: QEQueue_inv_def QEQueue_free_def min_def)
  finally show ?case .
qed

section \<open>Properties\<close>

text \<open>
  (watermark) For every sequence of posts (plain, normal, LIFO), gets and margin changes
  on a fresh \<open>QEQueue\<close>, the value \<open>get_min\<close> reports is exactly the minimum number of free
  slots over all the states the queue went through: the low-water mark is sticky and exact.
\<close>

theorem QEQueue_min_free_is_history_minimum:
  "QEQueue_get_min (last (qstates ops (QEQueue_with_safety_margin cap margin))) =
   Min (QEQueue_free ` set (qstates ops (QEQueue_with_safety_margin cap margin :: 'e QEQueue)))"
proof -
  let ?q = "QEQueue_with_safety_margin cap margin :: 'e QEQueue"
  have "?q \<in> set (qstates ops ?q)" by (cases ops) simp_all
  moreover have "QEQueue_free ?q = q_min_free ?q"
    by (simp add: QEQueue_free_def QEQueue_with_safety_margin_def)
  ultimately have "q_min_free ?q \<in> QEQueue_free ` set (qstates ops ?q)" by (metis imageI)
  then show ?thesis
    using qstates_watermark [of ?q ops] by (simp add: QEQueue_get_min_def insert_absorb)
qed

text \<open>
  (shedding) A normal post to a well-formed queue is accepted exactly when more than the
  safety margin is free; it then goes to the back, leaves at least the margin free and reports
  degradation exactly when the queue is now degraded. Otherwise nothing is queued and the shed
  count grows by one.
\<close>

theorem QEQueue_post_normal_preserves_margin:
  assumes "QEQueue_inv q" and "QEQueue_post_normal e q = (st, q')"
  shows "if QEQueue_free q > q_safety_margin q
         then q_buffer q' = q_buffer q @ [e] \<and> QEQueue_free q' \<ge> q_safety_margin q' \<and>
              q_safety_margin q' = q_safety_margin q \<and> q_shed_count q' = q_shed_count q \<and>
              st = (if QEQueue_is_degraded q' then AcceptedDegraded else Accepted)
         else st = Shed \<and> q' = q\<lparr>q_shed_count := q_shed_count q + 1\<rparr>"
  using assms by (auto simp: ring_simps QEQueue_is_degraded_def split: if_splits)

text \<open>
  C35: (refinement) On states satisfying its invariant the inline \<open>StaticEQueue\<close> never takes
  its integrity-fault branch, and every operation is the operation of the heap-backed
  \<open>QEQueue\<close> of the same capacity under the abstraction that forgets the inline storage.
\<close>

theorem StaticEQueue_refines_QEQueue:
  assumes "StaticEQueue_inv s"
  shows "map_sum id (map_prod id StaticEQueue_abs) (StaticEQueue_post e m s) =
           Inr (QEQueue_post e m (StaticEQueue_abs s)) \<and>
         map_sum id (map_prod id StaticEQueue_abs) (StaticEQueue_post_normal e s) =
           Inr (QEQueue_post_normal e (StaticEQueue_abs s)) \<and>
         map_sum id (map_prod id StaticEQueue_abs) (StaticEQueue_post_lifo e s) =
           Inr (QEQueue_post_lifo e (StaticEQueue_abs s)) \<and>
         map_prod id StaticEQueue_abs (StaticEQueue_get s) = QEQueue_get (StaticEQueue_abs s) \<and>
         StaticEQueue_abs (StaticEQueue_set_safety_margin k s) =
           QEQueue_set_safety_margin k (StaticEQueue_abs s)"
  using assms
  by (intro conjI) (auto simp: ring_simps StaticEQueue_abs_def StaticEQueue_set_safety_margin_def
      QEQueue_set_safety_margin_def min_def split: list.splits)

section \<open>Witnesses\<close>

theorem QEQueue_post_normal_preserves_margin_witness:
  "(let q = QEQueue_with_safety_margin 3 1 :: nat QEQueue; (st, q') = QEQueue_post_normal 7 q
    in QEQueue_inv q \<and> st = Accepted \<and> q_buffer q' = [7] \<and> QEQueue_free q' \<ge> q_safety_margin q')"
  using QEQueue_post_normal_preserves_margin
    [OF QEQueue_inv_new, of 7 3 1, OF prod.collapse [symmetric]]
  by (simp add: ring_simps QEQueue_with_safety_margin_def QEQueue_is_degraded_def)

theorem StaticEQueue_refines_QEQueue_witness:
  "map_sum id (map_prod id StaticEQueue_abs) (StaticEQueue_post (1::nat) 0 (StaticEQueue_new 2)) =
     Inr (QEQueue_post 1 0 (StaticEQueue_abs (StaticEQueue_new 2))) \<and>
   StaticEQueue_inv (StaticEQueue_new 2 :: nat StaticEQueue)"
  using StaticEQueue_refines_QEQueue [of "StaticEQueue_new 2 :: nat StaticEQueue" 1 0]
  by (simp add: StaticEQueue_inv_def StaticEQueue_new_def StaticEQueue_with_safety_margin_def)

end
