(* ===== verification/ReadySet.thy ===== *)
theory ReadySet
  imports Prelude
begin

text \<open>
  Priorities: the packed priority/threshold specification (\<open>crates/qf/src/priospec.rs\<close>)
  and the 64-bit ready set of the preemptive schedulers (\<open>ReadySet\<close> of
  \<open>crates/qk/src/scheduler.rs\<close> and, with the same body, of \<open>crates/qxk/src/scheduler.rs\<close>).
  The bitmap refines a finite set of priorities, and its \<open>max\<close> is the maximum of that set.
\<close>

section \<open>Priority specifications\<close>

definition QPrioSpec_new :: "u8 \<Rightarrow> u8 \<Rightarrow> u16" where
  "QPrioSpec_new p t = or (ucast p) (push_bit 8 (ucast t))"

definition QPrioSpec_priority_only :: "u8 \<Rightarrow> u16" where
  "QPrioSpec_priority_only p = QPrioSpec_new p p"

definition QPrioSpec_priority :: "u16 \<Rightarrow> u8" where
  "QPrioSpec_priority s = ucast (and s 0xFF)"

definition QPrioSpec_threshold :: "u16 \<Rightarrow> u8" where
  "QPrioSpec_threshold s =
     (let th = ucast (drop_bit 8 s) in if th = 0 then QPrioSpec_priority s else th)"

definition q_prio :: "u8 \<Rightarrow> u8 \<Rightarrow> u16" where
  "q_prio p t = QPrioSpec_new p t"

section \<open>The ready set\<close>

type_synonym ready_set = u64

definition u64_bit :: "u8 \<Rightarrow> u64" where
  "u64_bit p = push_bit (unat p) 1"

definition leading_zeros :: "u64 \<Rightarrow> nat" where
  "leading_zeros w = length (takeWhile (\<lambda>i. \<not> bit w i) (rev [0..<64]))"

definition ReadySet_assert_range :: "u8 \<Rightarrow> unit result" where
  "ReadySet_assert_range p = ensure Panic (p < 64)"

definition ReadySet_insert :: "u8 \<Rightarrow> ready_set \<Rightarrow> ready_set result" where
  "ReadySet_insert p s = rbind (ReadySet_assert_range p) (\<lambda>_. Inr (or s (u64_bit p)))"

definition ReadySet_remove :: "u8 \<Rightarrow> ready_set \<Rightarrow> ready_set result" where
  "ReadySet_remove p s = rbind (ReadySet_assert_range p) (\<lambda>_. Inr (and s (not (u64_bit p))))"

definition ReadySet_contains :: "u8 \<Rightarrow> ready_set \<Rightarrow> bool result" where
  "ReadySet_contains p s = rbind (ReadySet_assert_range p) (\<lambda>_. Inr (and s (u64_bit p) \<noteq> 0))"

definition ReadySet_max :: "ready_set \<Rightarrow> u8 option" where
  "ReadySet_max s = (if s = 0 then None else Some (63 - of_nat (leading_zeros s)))"

definition ReadySet_clear :: "ready_set \<Rightarrow> ready_set" where
  "ReadySet_clear s = 0"

text \<open>The set of priorities a bitmap stands for.\<close>

definition prios :: "ready_set \<Rightarrow> u8 set" where
  "prios s = {p. p < 64 \<and> bit s (unat p)}"

section \<open>Lemmas\<close>

lemma and_FF_take_bit: "and (s :: u16) 0xFF = take_bit 8 s"
  by (simp add: take_bit_eq_mask mask_eq_exp_minus_1)

lemma QPrioSpec_priority_new [simp]: "QPrioSpec_priority (QPrioSpec_new p t) = p"
  by (rule bit_word_eqI)
    (auto simp: QPrioSpec_priority_def QPrioSpec_new_def and_FF_take_bit bit_simps)

lemma QPrioSpec_high [simp]: "ucast (drop_bit 8 (QPrioSpec_new p t)) = t"
  by (rule bit_word_eqI) (auto simp: QPrioSpec_new_def bit_simps dest: bit_imp_le_length)

lemma QPrioSpec_threshold_new [simp]:
  "QPrioSpec_threshold (QPrioSpec_new p t) = (if t = 0 then p else t)"
  by (simp add: QPrioSpec_threshold_def)

lemma unat_eq_iff: "unat x = unat y \<longleftrightarrow> x = y"
  by (simp add: word_unat_eq_iff)

lemma u8_lt_64_iff: "(p :: u8) < 64 \<longleftrightarrow> unat p < 64"
  by (simp add: word_less_nat_alt)

lemma bit_u64_bit: "p < 64 \<Longrightarrow> bit (u64_bit p) n \<longleftrightarrow> n = unat p"
  by (auto simp: u64_bit_def bit_simps u8_lt_64_iff)

lemma prios_empty [simp]: "prios 0 = {}"
  by (simp add: prios_def)

lemma finite_prios [simp]: "finite (prios s)"
  by (rule finite_subset [OF subset_UNIV]) simp

lemma prios_zero_iff: "prios s = {} \<longleftrightarrow> s = 0"
proof
  assume empty: "prios s = {}"
  show "s = 0"
  proof (rule bit_word_eqI)
    fix n assume n: "n < LENGTH(64)"
    then have "unat (of_nat n :: u8) = n" by (simp add: unat_of_nat)
    with n empty show "bit s n = bit 0 n"
      by (auto simp: prios_def u8_lt_64_iff dest: spec [of _ "of_nat n"])
  qed
qed simp

lemma prios_insert: "p < 64 \<Longrightarrow> prios (or s (u64_bit p)) = insert p (prios s)"
  by (auto simp: prios_def bit_simps bit_u64_bit unat_eq_iff)

lemma prios_remove: "p < 64 \<Longrightarrow> prios (and s (not (u64_bit p))) = prios s - {p}"
  by (auto simp: prios_def bit_simps bit_u64_bit u8_lt_64_iff unat_eq_iff)

lemma prios_contains: "p < 64 \<Longrightarrow> and s (u64_bit p) \<noteq> 0 \<longleftrightarrow> p \<in> prios s"
  by (auto simp: prios_def bit_eq_iff [of "and s (u64_bit p)"] bit_simps bit_u64_bit u8_lt_64_iff)

lemma ReadySet_insert_ok [simp]:
  "p < 64 \<Longrightarrow> ReadySet_insert p s = Inr (or s (u64_bit p))"
  "\<not> p < 64 \<Longrightarrow> ReadySet_insert p s = Inl Panic"
  by (simp_all add: ReadySet_insert_def ReadySet_assert_range_def)

lemma ReadySet_remove_ok [simp]:
  "p < 64 \<Longrightarrow> ReadySet_remove p s = Inr (and s (not (u64_bit p)))"
  "\<not> p < 64 \<Longrightarrow> ReadySet_remove p s = Inl Panic"
  by (simp_all add: ReadySet_remove_def ReadySet_assert_range_def)

lemma ReadySet_contains_ok [simp]:
  "p < 64 \<Longrightarrow> ReadySet_contains p s = Inr (p \<in> prios s)"
  "\<not> p < 64 \<Longrightarrow> ReadySet_contains p s = Inl Panic"
  by (simp_all add: ReadySet_contains_def ReadySet_assert_range_def prios_contains)

lemma takeWhile_rev_upt:
  assumes "\<exists>i<n. P i"
  shows "\<exists>m<n. P m \<and> (\<forall>i<n. P i \<longrightarrow> i \<le> m) \<and> length (takeWhile (\<lambda>i. \<not> P i) (rev [0..<n])) = n - 1 - m"
  using assms
proof (induction n)
  case (Suc n)
  show ?case
  proof (cases "P n")
    case True
    then show ?thesis by (intro exI [of _ n]) auto
  next
    case False
    with Suc.prems have "\<exists>i<n. P i" using less_Suc_eq by auto
    from Suc.IH [OF this] obtain m where m: "m < n" "P m" "\<forall>i<n. P i \<longrightarrow> i \<le> m"
      "length (takeWhile (\<lambda>i. \<not> P i) (rev [0..<n])) = n - 1 - m" by blast
    with False show ?thesis by (intro exI [of _ m]) (auto simp: less_Suc_eq)
  qed
qed simp

lemma ReadySet_max_Max:
  "ReadySet_max s = (if prios s = {} then None else Some (Max (prios s)))"
proof (cases "s = 0")
  case False
  then obtain p :: u8 where p: "p < 64" "bit s (unat p)"
    using prios_zero_iff [of s] unfolding prios_def by blast
  then have "\<exists>i<64. bit s i" by (auto simp: u8_lt_64_iff)
  from takeWhile_rev_upt [OF this] obtain m where m: "m < 64" "bit s m"
    "\<forall>i<64. bit s i \<longrightarrow> i \<le> m" and lz: "leading_zeros s = 63 - m"
    unfolding leading_zeros_def by fastforce
  have um: "unat (of_nat m :: u8) = m" using m(1) by (simp add: unat_of_nat)
  have "63 - of_nat (63 - m) = (of_nat m :: u8)"
    using m(1) by (simp add: of_nat_diff)
  moreover have "Max (prios s) = of_nat m"
    using m um by (intro Max_eqI) (auto simp: prios_def u8_lt_64_iff word_le_nat_alt)
  ultimately show ?thesis
    using False by (simp add: ReadySet_max_def prios_zero_iff lz)
qed (simp add: ReadySet_max_def)

lemma ReadySet_max_in: "ReadySet_max s = Some p \<Longrightarrow> p \<in> prios s"
  by (metis Max_in ReadySet_max_Max finite_prios option.distinct(1) option.inject)

lemma ReadySet_max_ge: "ReadySet_max s = Some p \<Longrightarrow> q \<in> prios s \<Longrightarrow> q \<le> p"
  by (auto simp: ReadySet_max_Max split: if_splits)

lemma ReadySet_max_None: "ReadySet_max s = None \<longleftrightarrow> prios s = {}"
  by (simp add: ReadySet_max_Max)

lemma prios_lt: "p \<in> prios s \<Longrightarrow> p < 64"
  by (simp add: prios_def)

lemma bit_or_u64_bit: "i < 64 \<Longrightarrow> bit (or r (u64_bit (of_nat i))) n \<longleftrightarrow> bit r n \<or> n = i"
  by (auto simp: bit_simps bit_u64_bit u8_lt_64_iff unat_of_nat)

lemma bit_and_not_u64_bit: "i < 64 \<Longrightarrow> n < 64 \<Longrightarrow> bit (and r (not (u64_bit (of_nat i)))) n \<longleftrightarrow> bit r n \<and> n \<noteq> i"
  by (auto simp: bit_simps bit_u64_bit u8_lt_64_iff unat_of_nat)

section \<open>The priority-set interface\<close>

text \<open>
  What the schedulers rely on: a fallible bitmap that behaves as a finite set of
  priorities below 64 and finds its greatest element.
\<close>

locale priority_set =
  fixes abs :: "'s \<Rightarrow> u8 set"
    and ins :: "u8 \<Rightarrow> 's \<Rightarrow> 's result"
    and rem :: "u8 \<Rightarrow> 's \<Rightarrow> 's result"
    and top :: "'s \<Rightarrow> u8 option"
  assumes fin: "finite (abs s)"
    and ins_ok: "p < 64 \<Longrightarrow> \<exists>s'. ins p s = Inr s' \<and> abs s' = insert p (abs s)"
    and ins_bad: "\<not> p < 64 \<Longrightarrow> ins p s = Inl Panic"
    and rem_ok: "p < 64 \<Longrightarrow> \<exists>s'. rem p s = Inr s' \<and> abs s' = abs s - {p}"
    and rem_bad: "\<not> p < 64 \<Longrightarrow> rem p s = Inl Panic"
    and top_spec: "top s = (if abs s = {} then None else Some (Max (abs s)))"
begin

lemma top_after_insert:
  assumes "p < 64"
  shows "\<exists>s'. ins p s = Inr s' \<and>
    top s' = Some (case top s of None \<Rightarrow> p | Some q \<Rightarrow> max p q)"
proof -
  obtain s' where s': "ins p s = Inr s'" "abs s' = insert p (abs s)"
    using ins_ok [OF assms] by blast
  have "top s' = Some (case top s of None \<Rightarrow> p | Some q \<Rightarrow> max p q)"
    using fin [of s] by (simp add: top_spec s' Max_insert)
  with s' show ?thesis by blast
qed

lemma top_after_remove:
  assumes "p < 64" "top s = Some q" "p \<noteq> q"
  shows "\<exists>s'. rem p s = Inr s' \<and> top s' = Some q"
proof -
  obtain s' where s': "rem p s = Inr s'" "abs s' = abs s - {p}"
    using rem_ok [OF assms(1)] by blast
  from assms(2) have q: "abs s \<noteq> {}" "q = Max (abs s)"
    by (auto simp: top_spec split: if_splits)
  with fin [of s] have "q \<in> abs s" by simp
  with assms(3) s' have q': "q \<in> abs s'" by auto
  moreover have "Max (abs s') = q"
    using fin [of s] q q' s' by (intro Max_eqI) auto
  ultimately have "top s' = Some q" by (auto simp: top_spec)
  with s' show ?thesis by blast
qed

end

interpretation rs: priority_set prios ReadySet_insert ReadySet_remove ReadySet_max
proof
  fix s :: ready_set and p :: u8
  show "finite (prios s)" by simp
  show "p < 64 \<Longrightarrow> \<exists>s'. ReadySet_insert p s = Inr s' \<and> prios s' = insert p (prios s)"
    by (simp add: prios_insert)
  show "p < 64 \<Longrightarrow> \<exists>s'. ReadySet_remove p s = Inr s' \<and> prios s' = prios s - {p}"
    by (simp add: prios_remove)
  show "ReadySet_max s = (if prios s = {} then None else Some (Max (prios s)))"
    by (rule ReadySet_max_Max)
qed simp_all

end
