(* ===== verification/Active.thy ===== *)
theory Active
  imports Dis EQueue ReadySet
begin

text \<open>
  Events (\<open>crates/qf/src/event.rs\<close>), the publish-subscribe table
  (\<open>crates/qf/src/pubsub.rs\<close>), the interrupt nesting counter (\<open>crates/qf/src/isr.rs\<close>) and
  active objects (\<open>crates/qf/src/active.rs\<close>) of the default build, in which an object's
  queue is unbounded. The application's \<open>ActiveBehavior\<close> is a parameter: a start handler
  and an event handler that return the new behaviour state and the sequence of effects (trace
  records and framework calls) of the handler.
\<close>

section \<open>Events\<close>

type_synonym signal = u16

record EventHeader =
  hdr_signal :: signal
  hdr_pool_id :: "u8 option"
  hdr_ref_count :: u8

record 'p Event =
  ev_header :: EventHeader
  ev_payload :: 'p

definition EventHeader_new :: "signal \<Rightarrow> EventHeader" where
  "EventHeader_new s = \<lparr>hdr_signal = s, hdr_pool_id = None, hdr_ref_count = 1\<rparr>"

definition EventHeader_with_pool :: "u8 \<Rightarrow> EventHeader \<Rightarrow> EventHeader" where
  "EventHeader_with_pool pid h = h\<lparr>hdr_pool_id := Some pid\<rparr>"

definition EventHeader_with_ref_count :: "u8 \<Rightarrow> EventHeader \<Rightarrow> EventHeader" where
  "EventHeader_with_ref_count n h = h\<lparr>hdr_ref_count := n\<rparr>"

definition Event_new :: "signal \<Rightarrow> 'p \<Rightarrow> 'p Event" where
  "Event_new s p = \<lparr>ev_header = EventHeader_new s, ev_payload = p\<rparr>"

definition Event_signal :: "'p Event \<Rightarrow> signal" where
  "Event_signal e = hdr_signal (ev_header e)"

text \<open>A published copy carries the published signal.\<close>

definition Event_for_signal :: "signal \<Rightarrow> 'p Event \<Rightarrow> 'p Event" where
  "Event_for_signal s e = e\<lparr>ev_header := (ev_header e)\<lparr>hdr_signal := s\<rparr>\<rparr>"

section \<open>Publish-subscribe table\<close>

record PubSubTable =
  ps_subscriptions :: "u64 list"
  ps_max_signal :: u16

definition PubSubTable_new :: "u16 \<Rightarrow> PubSubTable" where
  "PubSubTable_new m = \<lparr>ps_subscriptions = replicate (unat m + 1) 0, ps_max_signal = m\<rparr>"

definition PubSubTable_idx :: "PubSubTable \<Rightarrow> signal \<Rightarrow> nat result" where
  "PubSubTable_idx t s = (if unat s \<le> unat (ps_max_signal t) then Inr (unat s) else Inl Panic)"

text \<open>\<open>1u64 << priority\<close> overflows, a panic of checked builds, from 64 on.\<close>

definition prio_bit :: "u8 \<Rightarrow> u64 result" where
  "prio_bit p = (if p < 64 then Inr (u64_bit p) else Inl Panic)"

definition PubSubTable_subscribe :: "signal \<Rightarrow> u8 \<Rightarrow> PubSubTable \<Rightarrow> PubSubTable result" where
  "PubSubTable_subscribe s p t =
     rbind (PubSubTable_idx t s) (\<lambda>i. rbind (prio_bit p) (\<lambda>b.
       Inr (t\<lparr>ps_subscriptions := (ps_subscriptions t)[i := or (ps_subscriptions t ! i) b]\<rparr>)))"

definition PubSubTable_unsubscribe :: "signal \<Rightarrow> u8 \<Rightarrow> PubSubTable \<Rightarrow> PubSubTable result" where
  "PubSubTable_unsubscribe s p t =
     rbind (PubSubTable_idx t s) (\<lambda>i. rbind (prio_bit p) (\<lambda>b.
       Inr (t\<lparr>ps_subscriptions := (ps_subscriptions t)[i := and (ps_subscriptions t ! i) (not b)]\<rparr>)))"

definition PubSubTable_unsubscribe_all :: "u8 \<Rightarrow> PubSubTable \<Rightarrow> PubSubTable result" where
  "PubSubTable_unsubscribe_all p t =
     rbind (prio_bit p) (\<lambda>b.
       Inr (t\<lparr>ps_subscriptions := map (\<lambda>bits. and bits (not b)) (ps_subscriptions t)\<rparr>))"

definition PubSubTable_subscribers :: "signal \<Rightarrow> PubSubTable \<Rightarrow> u64 result" where
  "PubSubTable_subscribers s t =
     rbind (PubSubTable_idx t s) (\<lambda>i. Inr (ps_subscriptions t ! i))"

section \<open>Interrupt nesting\<close>

text \<open>\<open>fetch_add\<close> wraps at eight bits; an exit without an entry fails a debug assertion.\<close>

definition isr_enter :: "u8 \<Rightarrow> u8" where
  "isr_enter n = n + 1"

definition isr_exit :: "u8 \<Rightarrow> u8 result" where
  "isr_exit n = (if n > 0 then Inr (n - 1) else Inl Panic)"

definition in_isr :: "u8 \<Rightarrow> bool" where
  "in_isr n \<longleftrightarrow> n > 0"

section \<open>Active objects\<close>

text \<open>
  What a handler does to the world outside its object: trace records emitted through its
  context, and calls of the kernel it runs under (\<open>'c\<close>, a datatype of each kernel).
\<close>

datatype 'c effect = Trace u8 "u8 list" bool | Call 'c

record ('p, 'b, 'c) Behavior =
  on_start :: "u8 \<Rightarrow> 'b \<Rightarrow> 'b \<times> 'c effect list"
  on_event :: "u8 \<Rightarrow> 'b \<Rightarrow> 'p Event \<Rightarrow> 'b \<times> 'c effect list"

record ('p, 'b) ActiveObject =
  ao_id :: u8
  ao_priority :: "u8 dis"
  ao_queue :: "'p Event EventQueue"
  ao_behavior :: 'b
  ao_trace_hook :: bool

definition ActiveObject_new :: "u8 \<Rightarrow> u8 \<Rightarrow> 'b \<Rightarrow> ('p, 'b) ActiveObject" where
  "ActiveObject_new i prio b =
     \<lparr>ao_id = i, ao_priority = Dis_new prio, ao_queue = EventQueue_new,
      ao_behavior = b, ao_trace_hook = False\<rparr>"

definition ActiveObject_priority :: "('p, 'b) ActiveObject \<Rightarrow> u8 result" where
  "ActiveObject_priority ao = Dis_get (ao_priority ao)"

text \<open>Trace records of a handler are dropped when its context carries no hook.\<close>

definition visible_calls :: "bool \<Rightarrow> 'c effect list \<Rightarrow> 'c effect list" where
  "visible_calls hook cs =
     filter (\<lambda>c. case c of Trace _ _ _ \<Rightarrow> hook | Call _ \<Rightarrow> True) cs"

definition ActiveObject_start ::
    "('p, 'b, 'c) Behavior \<Rightarrow> bool \<Rightarrow> ('p, 'b) ActiveObject \<Rightarrow> ('p, 'b) ActiveObject \<times> 'c effect list" where
  "ActiveObject_start bh hook ao =
     (let (b', cs) = on_start bh (ao_id ao) (ao_behavior ao)
      in (ao\<lparr>ao_trace_hook := hook, ao_behavior := b'\<rparr>, visible_calls hook cs))"

definition ActiveObject_dispatch_one ::
    "('p, 'b, 'c) Behavior \<Rightarrow> ('p, 'b) ActiveObject \<Rightarrow> bool \<times> ('p, 'b) ActiveObject \<times> 'c effect list" where
  "ActiveObject_dispatch_one bh ao =
     (case EventQueue_pop_front (ao_queue ao) of
        (Some e, q') \<Rightarrow>
          let (b', cs) = on_event bh (ao_id ao) (ao_behavior ao) e
          in (True, ao\<lparr>ao_queue := q', ao_behavior := b'\<rparr>, visible_calls (ao_trace_hook ao) cs)
      | (None, q') \<Rightarrow> (False, ao\<lparr>ao_queue := q'\<rparr>, []))"

definition ActiveObject_post ::
    "nat option \<Rightarrow> 'p Event \<Rightarrow> ('p, 'b) ActiveObject \<Rightarrow> ('p, 'b) ActiveObject result" where
  "ActiveObject_post cap e ao =
     rbind (EventQueue_push_back cap e (ao_queue ao)) (\<lambda>q. Inr (ao\<lparr>ao_queue := q\<rparr>))"

definition ActiveObject_post_lifo ::
    "nat option \<Rightarrow> 'p Event \<Rightarrow> ('p, 'b) ActiveObject \<Rightarrow> ('p, 'b) ActiveObject result" where
  "ActiveObject_post_lifo cap e ao =
     rbind (EventQueue_push_front cap e (ao_queue ao)) (\<lambda>q. Inr (ao\<lparr>ao_queue := q\<rparr>))"

definition ActiveObject_has_events :: "('p, 'b) ActiveObject \<Rightarrow> bool" where
  "ActiveObject_has_events ao \<longleftrightarrow> \<not> EventQueue_is_empty (ao_queue ao)"

section \<open>Lemmas\<close>

abbreviation ao_prio :: "('p, 'b) ActiveObject \<Rightarrow> u8" where
  "ao_prio ao \<equiv> dis_value (ao_priority ao)"

abbreviation ao_events :: "('p, 'b) ActiveObject \<Rightarrow> 'p Event list" where
  "ao_events ao \<equiv> eq_buf (ao_queue ao)"

definition ActiveObject_inv :: "('p, 'b) ActiveObject \<Rightarrow> bool" where
  "ActiveObject_inv ao \<longleftrightarrow> Dis_is_intact (ao_priority ao) \<and>
     length (ao_events ao) \<le> eq_high_watermark (ao_queue ao)"

lemma ActiveObject_priority_intact [simp]:
  "Dis_is_intact (ao_priority ao) \<Longrightarrow> ActiveObject_priority ao = Inr (ao_prio ao)"
  by (simp add: ActiveObject_priority_def Dis_is_intact_iff)

lemma ActiveObject_inv_new [simp]: "ActiveObject_inv (ActiveObject_new i p b)"
  by (simp add: ActiveObject_inv_def ActiveObject_new_def EventQueue_new_def)

lemma EventQueue_push_back_None [simp]:
  "EventQueue_push_back None e q =
     Inr \<lparr>eq_buf = eq_buf q @ [e], eq_high_watermark = max (eq_high_watermark q) (Suc (length (eq_buf q)))\<rparr>"
  by (simp add: EventQueue_push_back_def EventQueue_touch_watermark_def)

lemma ActiveObject_post_None:
  "\<exists>ao'. ActiveObject_post None e ao = Inr ao' \<and> ao_events ao' = ao_events ao @ [e] \<and>
     ao_id ao' = ao_id ao \<and> ao_priority ao' = ao_priority ao \<and> ao_behavior ao' = ao_behavior ao \<and>
     ao_trace_hook ao' = ao_trace_hook ao \<and> (ActiveObject_inv ao \<longrightarrow> ActiveObject_inv ao')"
  by (simp add: ActiveObject_post_def ActiveObject_inv_def)

lemma ActiveObject_has_events_iff [simp]: "ActiveObject_has_events ao \<longleftrightarrow> ao_events ao \<noteq> []"
  by (simp add: ActiveObject_has_events_def EventQueue_is_empty_def)

lemma PubSubTable_wf_subscribe:
  assumes "length (ps_subscriptions t) = unat (ps_max_signal t) + 1" "PubSubTable_subscribe s p t = Inr t'"
  shows "length (ps_subscriptions t') = unat (ps_max_signal t') + 1"
  using assms by (auto simp: PubSubTable_subscribe_def res_simps)

end
