(* ===== verification/QvKernel.thy ===== *)
theory QvKernel
  imports Active
begin

text \<open>
  The cooperative kernel (\<open>QvKernel\<close> of \<open>crates/qf/src/kernel.rs\<close>, single core, default
  build): registration, posting, publishing, the scheduler ceiling, dispatching and the run
  loops. An object is named by its position in the priority-sorted registry, so the shared
  references of the registry and of the id map denote the same object.
\<close>

section \<open>State and construction\<close>

definition QS_SCHED_LOCK :: u8 where "QS_SCHED_LOCK = 50"
definition QS_SCHED_UNLOCK :: u8 where "QS_SCHED_UNLOCK = 51"
definition QS_SCHED_NEXT :: u8 where "QS_SCHED_NEXT = 52"
definition QS_SCHED_IDLE :: u8 where "QS_SCHED_IDLE = 53"

datatype KernelError = NotFound u8

text \<open>The calls a handler can make to its kernel.\<close>

datatype 'p call =
    CPost u8 "'p Event"
  | CPublish signal "'p Event"
  | CSubscribe signal u8
  | CUnsubscribe signal u8
  | CUnsubscribeAll u8
  | CLock u8
  | CUnlock
  | CStop

type_synonym ('p, 'b) QvBehavior = "('p, 'b, 'p call) Behavior"

record ('p, 'b) QvKernel =
  k_objects :: "('p, 'b) ActiveObject list"
  k_by_id :: "u8 \<rightharpoonup> nat"
  k_trace :: trace
  k_prev_prio :: u8
  k_sched_ceiling :: u8
  k_stop_flag :: bool
  k_pubsub :: "PubSubTable option"
  k_idle_callback :: bool
  k_idle_calls :: nat

record ('p, 'b) KernelBuilder =
  kb_objects :: "('p, 'b) ActiveObject list"
  kb_trace :: trace
  kb_pubsub :: "PubSubTable option"
  kb_idle_callback :: bool

definition KernelBuilder_new :: "bool \<Rightarrow> ('p, 'b) KernelBuilder" where
  "KernelBuilder_new idle_cb =
     \<lparr>kb_objects = [], kb_trace = None, kb_pubsub = None, kb_idle_callback = idle_cb\<rparr>"

definition KernelBuilder_ps_init :: "u16 \<Rightarrow> ('p, 'b) KernelBuilder \<Rightarrow> ('p, 'b) KernelBuilder" where
  "KernelBuilder_ps_init m b = b\<lparr>kb_pubsub := Some (PubSubTable_new m)\<rparr>"

definition KernelBuilder_register ::
    "('p, 'b) ActiveObject \<Rightarrow> ('p, 'b) KernelBuilder \<Rightarrow> ('p, 'b) KernelBuilder" where
  "KernelBuilder_register ao b = b\<lparr>kb_objects := kb_objects b @ [ao]\<rparr>"

definition KernelBuilder_with_trace_hook :: "('p, 'b) KernelBuilder \<Rightarrow> ('p, 'b) KernelBuilder" where
  "KernelBuilder_with_trace_hook b = b\<lparr>kb_trace := Some []\<rparr>"

text \<open>\<open>by_id.insert\<close> in registry order: the last object of an id wins.\<close>

definition index_by_id :: "('p, 'b) ActiveObject list \<Rightarrow> u8 \<rightharpoonup> nat" where
  "index_by_id aos = fold (\<lambda>i m. m(ao_id (aos ! i) \<mapsto> i)) [0..<length aos] Map.empty"

definition QvKernel_new ::
    "('p, 'b) ActiveObject list \<Rightarrow> trace \<Rightarrow> PubSubTable option \<Rightarrow> bool \<Rightarrow> ('p, 'b) QvKernel" where
  "QvKernel_new aos t ps idle_cb =
     \<lparr>k_objects = aos, k_by_id = index_by_id aos, k_trace = t, k_prev_prio = 0,
      k_sched_ceiling = 0, k_stop_flag = False, k_pubsub = ps, k_idle_callback = idle_cb,
      k_idle_calls = 0\<rparr>"

text \<open>
  The sort reads the priority of every object (each read may fault) as soon as there is
  something to compare; on the unique priorities the builder expects, an unstable sort and
  the stable one coincide.
\<close>

fun read_priorities :: "('p, 'b) ActiveObject list \<Rightarrow> unit result" where
  "read_priorities [] = Inr ()"
| "read_priorities (ao # aos) = rbind (ActiveObject_priority ao) (\<lambda>_. read_priorities aos)"

definition sort_objects :: "('p, 'b) ActiveObject list \<Rightarrow> ('p, 'b) ActiveObject list result" where
  "sort_objects aos =
     (if length aos < 2 then Inr aos
      else rbind (read_priorities aos) (\<lambda>_. Inr (sort_key ao_prio aos)))"

definition KernelBuilder_build :: "('p, 'b) KernelBuilder \<Rightarrow> ('p, 'b) QvKernel result" where
  "KernelBuilder_build b =
     rbind (sort_objects (kb_objects b)) (\<lambda>aos.
       Inr (QvKernel_new aos (kb_trace b) (kb_pubsub b) (kb_idle_callback b)))"

section \<open>Operations\<close>

definition k_emit :: "u8 \<Rightarrow> u8 list \<Rightarrow> ('p, 'b) QvKernel \<Rightarrow> ('p, 'b) QvKernel" where
  "k_emit r p k = k\<lparr>k_trace := emit r p True (k_trace k)\<rparr>"

definition QvKernel_post ::
    "u8 \<Rightarrow> 'p Event \<Rightarrow> ('p, 'b) QvKernel \<Rightarrow> ((KernelError + unit) \<times> ('p, 'b) QvKernel) result" where
  "QvKernel_post target e k =
     (case k_by_id k target of
        Some i \<Rightarrow>
          rbind (ActiveObject_post None e (k_objects k ! i)) (\<lambda>ao.
            Inr (Inr (), k\<lparr>k_objects := (k_objects k)[i := ao]\<rparr>))
      | None \<Rightarrow> Inr (Inl (NotFound target), k))"

fun publish_subscribed ::
    "u64 \<Rightarrow> 'p Event \<Rightarrow> ('p, 'b) ActiveObject list \<Rightarrow> ('p, 'b) ActiveObject list result" where
  "publish_subscribed subs e [] = Inr []"
| "publish_subscribed subs e (ao # aos) =
     rbind (ActiveObject_priority ao) (\<lambda>p. rbind (prio_bit p) (\<lambda>b.
       rbind (if and subs b \<noteq> 0 then ActiveObject_post None e ao else Inr ao) (\<lambda>ao'.
         rbind (publish_subscribed subs e aos) (\<lambda>aos'. Inr (ao' # aos')))))"

fun publish_to_all ::
    "'p Event \<Rightarrow> ('p, 'b) ActiveObject list \<Rightarrow> ('p, 'b) ActiveObject list result" where
  "publish_to_all e [] = Inr []"
| "publish_to_all e (ao # aos) =
     rbind (ActiveObject_post None e ao) (\<lambda>ao'.
       rbind (publish_to_all e aos) (\<lambda>aos'. Inr (ao' # aos')))"

definition QvKernel_publish ::
    "signal \<Rightarrow> 'p Event \<Rightarrow> ('p, 'b) QvKernel \<Rightarrow> ('p, 'b) QvKernel result" where
  "QvKernel_publish s e k =
     (case k_pubsub k of
        Some ps \<Rightarrow>
          let k = k_emit 26 (le16 s) k
          in rbind (PubSubTable_subscribers s ps) (\<lambda>subs.
               rbind (publish_subscribed subs (Event_for_signal s e) (k_objects k)) (\<lambda>aos.
                 Inr (k\<lparr>k_objects := aos\<rparr>)))
      | None \<Rightarrow>
          rbind (publish_to_all (Event_for_signal s e) (k_objects k)) (\<lambda>aos.
            Inr (k\<lparr>k_objects := aos\<rparr>)))"

definition QvKernel_subscribe :: "signal \<Rightarrow> u8 \<Rightarrow> ('p, 'b) QvKernel \<Rightarrow> ('p, 'b) QvKernel result" where
  "QvKernel_subscribe s p k =
     (case k_pubsub k of
        Some ps \<Rightarrow> rbind (PubSubTable_subscribe s p ps) (\<lambda>ps'.
          Inr (k_emit 12 (p # le16 s) (k\<lparr>k_pubsub := Some ps'\<rparr>)))
      | None \<Rightarrow> Inr k)"

definition QvKernel_unsubscribe :: "signal \<Rightarrow> u8 \<Rightarrow> ('p, 'b) QvKernel \<Rightarrow> ('p, 'b) QvKernel result" where
  "QvKernel_unsubscribe s p k =
     (case k_pubsub k of
        Some ps \<Rightarrow> rbind (PubSubTable_unsubscribe s p ps) (\<lambda>ps'.
          Inr (k_emit 13 (p # le16 s) (k\<lparr>k_pubsub := Some ps'\<rparr>)))
      | None \<Rightarrow> Inr k)"

definition QvKernel_unsubscribe_all :: "u8 \<Rightarrow> ('p, 'b) QvKernel \<Rightarrow> ('p, 'b) QvKernel result" where
  "QvKernel_unsubscribe_all p k =
     (case k_pubsub k of
        Some ps \<Rightarrow> rbind (PubSubTable_unsubscribe_all p ps) (\<lambda>ps'. Inr (k\<lparr>k_pubsub := Some ps'\<rparr>))
      | None \<Rightarrow> Inr k)"

definition QvKernel_lock_scheduler :: "u8 \<Rightarrow> ('p, 'b) QvKernel \<Rightarrow> ('p, 'b) QvKernel" where
  "QvKernel_lock_scheduler ceiling k =
     (if ceiling > k_sched_ceiling k
      then k_emit QS_SCHED_LOCK [k_sched_ceiling k, ceiling] (k\<lparr>k_sched_ceiling := ceiling\<rparr>)
      else k)"

definition QvKernel_unlock_scheduler :: "('p, 'b) QvKernel \<Rightarrow> ('p, 'b) QvKernel" where
  "QvKernel_unlock_scheduler k =
     (if k_sched_ceiling k \<noteq> 0
      then k_emit QS_SCHED_UNLOCK [k_sched_ceiling k, 0] (k\<lparr>k_sched_ceiling := 0\<rparr>)
      else k)"

definition QvKernel_stop :: "('p, 'b) QvKernel \<Rightarrow> ('p, 'b) QvKernel" where
  "QvKernel_stop k = k\<lparr>k_stop_flag := True\<rparr>"

definition QvKernel_has_pending_work :: "('p, 'b) QvKernel \<Rightarrow> bool" where
  "QvKernel_has_pending_work k \<longleftrightarrow> list_ex ActiveObject_has_events (k_objects k)"

definition QvKernel_post_from_isr ::
    "u8 \<Rightarrow> u8 \<Rightarrow> 'p Event \<Rightarrow> ('p, 'b) QvKernel \<Rightarrow> ((KernelError + unit) \<times> ('p, 'b) QvKernel) result" where
  "QvKernel_post_from_isr nesting target e k =
     rbind (ensure Panic (in_isr nesting)) (\<lambda>_. QvKernel_post target e k)"

definition QvKernel_publish_from_isr ::
    "u8 \<Rightarrow> signal \<Rightarrow> 'p Event \<Rightarrow> ('p, 'b) QvKernel \<Rightarrow> ('p, 'b) QvKernel result" where
  "QvKernel_publish_from_isr nesting s e k =
     rbind (ensure Panic (in_isr nesting)) (\<lambda>_. QvKernel_publish s e k)"

text \<open>The effects of a handler, in order.\<close>

fun QvKernel_call :: "'p call effect \<Rightarrow> ('p, 'b) QvKernel \<Rightarrow> ('p, 'b) QvKernel result" where
  "QvKernel_call (Trace r p ts) k = Inr (k\<lparr>k_trace := emit r p ts (k_trace k)\<rparr>)"
| "QvKernel_call (Call (CPost t e)) k = rbind (QvKernel_post t e k) (\<lambda>(_, k'). Inr k')"
| "QvKernel_call (Call (CPublish s e)) k = QvKernel_publish s e k"
| "QvKernel_call (Call (CSubscribe s p)) k = QvKernel_subscribe s p k"
| "QvKernel_call (Call (CUnsubscribe s p)) k = QvKernel_unsubscribe s p k"
| "QvKernel_call (Call (CUnsubscribeAll p)) k = QvKernel_unsubscribe_all p k"
| "QvKernel_call (Call (CLock c)) k = Inr (QvKernel_lock_scheduler c k)"
| "QvKernel_call (Call CUnlock) k = Inr (QvKernel_unlock_scheduler k)"
| "QvKernel_call (Call CStop) k = Inr (QvKernel_stop k)"

fun QvKernel_calls :: "'p call effect list \<Rightarrow> ('p, 'b) QvKernel \<Rightarrow> ('p, 'b) QvKernel result" where
  "QvKernel_calls [] k = Inr k"
| "QvKernel_calls (c # cs) k = rbind (QvKernel_call c k) (QvKernel_calls cs)"

fun QvKernel_start_each ::
    "('p, 'b) QvBehavior \<Rightarrow> nat list \<Rightarrow> ('p, 'b) QvKernel \<Rightarrow> ('p, 'b) QvKernel result" where
  "QvKernel_start_each bh [] k = Inr k"
| "QvKernel_start_each bh (i # is) k =
     (let (ao, cs) = ActiveObject_start bh (k_trace k \<noteq> None) (k_objects k ! i)
      in rbind (QvKernel_calls cs (k\<lparr>k_objects := (k_objects k)[i := ao]\<rparr>))
           (QvKernel_start_each bh is))"

definition QvKernel_start :: "('p, 'b) QvBehavior \<Rightarrow> ('p, 'b) QvKernel \<Rightarrow> ('p, 'b) QvKernel result" where
  "QvKernel_start bh k = QvKernel_start_each bh [0..<length (k_objects k)] k"

definition QvKernel_note_idle :: "('p, 'b) QvKernel \<Rightarrow> ('p, 'b) QvKernel" where
  "QvKernel_note_idle k =
     (if k_prev_prio k \<noteq> 0
      then k_emit QS_SCHED_IDLE [k_prev_prio k] (k\<lparr>k_prev_prio := 0\<rparr>) else k)"

definition QvKernel_candidate :: "('p, 'b) QvKernel \<Rightarrow> nat option" where
  "QvKernel_candidate k =
     find (\<lambda>i. ActiveObject_has_events (k_objects k ! i)) (rev [0..<length (k_objects k)])"

definition QvKernel_note_next :: "u8 \<Rightarrow> ('p, 'b) QvKernel \<Rightarrow> ('p, 'b) QvKernel" where
  "QvKernel_note_next prio k =
     (let k' = k\<lparr>k_prev_prio := prio\<rparr>
      in if prio \<noteq> k_prev_prio k then k_emit QS_SCHED_NEXT [prio, k_prev_prio k] k' else k')"

definition QvKernel_dispatch_once ::
    "('p, 'b) QvBehavior \<Rightarrow> ('p, 'b) QvKernel \<Rightarrow> (bool \<times> ('p, 'b) QvKernel) result" where
  "QvKernel_dispatch_once bh k =
     (case QvKernel_candidate k of
        None \<Rightarrow> Inr (False, QvKernel_note_idle k)
      | Some i \<Rightarrow>
          rbind (ActiveObject_priority (k_objects k ! i)) (\<lambda>prio.
            if prio \<le> k_sched_ceiling k then Inr (False, QvKernel_note_idle k)
            else
              let k = QvKernel_note_next prio k;
                  (handled, ao, cs) = ActiveObject_dispatch_one bh (k_objects k ! i)
              in rbind (QvKernel_calls cs (k\<lparr>k_objects := (k_objects k)[i := ao]\<rparr>)) (\<lambda>k'.
                   Inr (handled, k'))))"

text \<open>The dispatch loop may run forever when handlers keep posting: \<open>None\<close> is divergence.\<close>

partial_function (option) QvKernel_dispatch_all ::
    "('p, 'b) QvBehavior \<Rightarrow> ('p, 'b) QvKernel \<Rightarrow> ('p, 'b) QvKernel result option" where
  "QvKernel_dispatch_all bh k =
     (case QvKernel_dispatch_once bh k of
        Inl f \<Rightarrow> Some (Inl f)
      | Inr (handled, k') \<Rightarrow> if handled then QvKernel_dispatch_all bh k' else Some (Inr k'))"

definition QvKernel_run_until_idle ::
    "('p, 'b) QvBehavior \<Rightarrow> ('p, 'b) QvKernel \<Rightarrow> ('p, 'b) QvKernel result option" where
  "QvKernel_run_until_idle bh k =
     map_option (\<lambda>r. rbind r (\<lambda>k'.
       Inr (if k_idle_callback k' then k'\<lparr>k_idle_calls := k_idle_calls k' + 1\<rparr> else k')))
       (QvKernel_dispatch_all bh k)"

partial_function (option) QvKernel_loop ::
    "('p, 'b) QvBehavior \<Rightarrow> (('p, 'b) QvKernel \<Rightarrow> ('p, 'b) QvKernel result) \<Rightarrow>
     ('p, 'b) QvKernel \<Rightarrow> ('p, 'b) QvKernel result option" where
  "QvKernel_loop bh tick k =
     (if k_stop_flag k then Some (Inr k)
      else case tick k of
             Inl f \<Rightarrow> Some (Inl f)
           | Inr k1 \<Rightarrow>
               Option.bind (QvKernel_run_until_idle bh k1) (\<lambda>r.
                 case r of Inl f \<Rightarrow> Some (Inl f) | Inr k2 \<Rightarrow> QvKernel_loop bh tick k2))"

definition QvKernel_run ::
    "('p, 'b) QvBehavior \<Rightarrow> (('p, 'b) QvKernel \<Rightarrow> ('p, 'b) QvKernel result) \<Rightarrow>
     ('p, 'b) QvKernel \<Rightarrow> ('p, 'b) QvKernel result option" where
  "QvKernel_run bh tick k =
     (case QvKernel_start bh k of
        Inl f \<Rightarrow> Some (Inl f)
      | Inr k1 \<Rightarrow> QvKernel_loop bh tick (k1\<lparr>k_stop_flag := False\<rparr>))"

section \<open>A small system\<close>

text \<open>
  Two objects used by the witnesses: object 1 (priority 5) has a pending event of signal 4,
  whose handler posts an event of signal 5 to object 2 (priority 1).
\<close>

definition demo_bh :: "(unit, nat) QvBehavior" where
  "demo_bh = \<lparr>on_start = \<lambda>_ b. (b, []),
     on_event = \<lambda>_ b e. (b + 1, if Event_signal e = 4 then [Call (CPost 2 (Event_new 5 ()))] else [])\<rparr>"

definition demo_ao :: "u8 \<Rightarrow> u8 \<Rightarrow> unit Event list \<Rightarrow> (unit, nat) ActiveObject" where
  "demo_ao i p es = (ActiveObject_new i p 0)\<lparr>ao_queue := \<lparr>eq_buf = es, eq_high_watermark = length es\<rparr>\<rparr>"

definition demo_builder :: "(unit, nat) KernelBuilder" where
  "demo_builder =
     KernelBuilder_with_trace_hook (KernelBuilder_register (demo_ao 1 5 [Event_new 4 ()])
       (KernelBuilder_register (demo_ao 2 1 []) (KernelBuilder_new True)))"

definition demo_kernel :: "(unit, nat) QvKernel" where
  "demo_kernel = QvKernel_new [demo_ao 2 1 [], demo_ao 1 5 [Event_new 4 ()]] (Some []) None True"

section \<open>Invariant\<close>

definition PubSubTable_inv :: "PubSubTable \<Rightarrow> bool" where
  "PubSubTable_inv t \<longleftrightarrow> length (ps_subscriptions t) = unat (ps_max_signal t) + 1"

definition QvKernel_inv :: "('p, 'b) QvKernel \<Rightarrow> bool" where
  "QvKernel_inv k \<longleftrightarrow>
     sorted (map ao_prio (k_objects k)) \<and>
     list_all ActiveObject_inv (k_objects k) \<and>
     (\<forall>t i. k_by_id k t = Some i \<longrightarrow> i < length (k_objects k) \<and> ao_id (k_objects k ! i) = t) \<and>
     (\<forall>ao\<in>set (k_objects k). k_by_id k (ao_id ao) \<noteq> None) \<and>
     (\<forall>ps. k_pubsub k = Some ps \<longrightarrow> PubSubTable_inv ps)"

text \<open>
  What no operation changes: the identities and priorities in the registry and the id map;
  and what every operation keeps.
\<close>

definition ao_shape :: "('p, 'b) ActiveObject \<Rightarrow> u8 \<times> u8 dis" where
  "ao_shape ao = (ao_id ao, ao_priority ao)"

definition qv_ext :: "('p, 'b) QvKernel \<Rightarrow> ('p, 'b) QvKernel \<Rightarrow> bool" where
  "qv_ext k k' \<longleftrightarrow>
     map ao_shape (k_objects k') = map ao_shape (k_objects k) \<and> k_by_id k' = k_by_id k \<and>
     (list_all ActiveObject_inv (k_objects k) \<longrightarrow> list_all ActiveObject_inv (k_objects k')) \<and>
     ((\<forall>ps. k_pubsub k = Some ps \<longrightarrow> PubSubTable_inv ps) \<longrightarrow>
      (\<forall>ps. k_pubsub k' = Some ps \<longrightarrow> PubSubTable_inv ps))"

definition queue_weight :: "('p Event \<Rightarrow> nat) \<Rightarrow> ('p, 'b) ActiveObject list \<Rightarrow> nat" where
  "queue_weight w aos = sum_list (map (\<lambda>ao. sum_list (map w (ao_events ao))) aos)"

fun call_weight :: "nat \<Rightarrow> ('p Event \<Rightarrow> nat) \<Rightarrow> 'p call effect \<Rightarrow> nat" where
  "call_weight n w (Call (CPost t e)) = w e"
| "call_weight n w (Call (CPublish s e)) = n * w (Event_for_signal s e)"
| "call_weight n w c = 0"

text \<open>
  The states a kernel can reach: built from intact objects, then changed by calls of the
  application or of interrupts, by starting the objects and by dispatching.
\<close>

inductive qv_reach :: "('p, 'b) QvBehavior \<Rightarrow> ('p, 'b) KernelBuilder \<Rightarrow> ('p, 'b) QvKernel \<Rightarrow> bool"
  for bh b where
  built: "KernelBuilder_build b = Inr k \<Longrightarrow> qv_reach bh b k"
| called: "qv_reach bh b k \<Longrightarrow> QvKernel_call c k = Inr k' \<Longrightarrow> qv_reach bh b k'"
| started: "qv_reach bh b k \<Longrightarrow> QvKernel_start bh k = Inr k' \<Longrightarrow> qv_reach bh b k'"
| dispatched: "qv_reach bh b k \<Longrightarrow> QvKernel_dispatch_once bh k = Inr (h, k') \<Longrightarrow> qv_reach bh b k'"

section \<open>Lemmas\<close>

lemma qv_ext_refl [simp]: "qv_ext k k"
  by (simp add: qv_ext_def)

lemma qv_ext_trans: "qv_ext k1 k2 \<Longrightarrow> qv_ext k2 k3 \<Longrightarrow> qv_ext k1 k3"
  unfolding qv_ext_def by metis

lemma qv_ext_length: "qv_ext k k' \<Longrightarrow> length (k_objects k') = length (k_objects k)"
  unfolding qv_ext_def by (metis length_map)

lemma qv_ext_nth:
  assumes "qv_ext k k'" "i < length (k_objects k)"
  shows "ao_id (k_objects k' ! i) = ao_id (k_objects k ! i)"
    and "ao_priority (k_objects k' ! i) = ao_priority (k_objects k ! i)"
proof -
  have "ao_shape (k_objects k' ! i) = ao_shape (k_objects k ! i)"
    using assms qv_ext_length [OF assms(1)] unfolding qv_ext_def by (metis nth_map)
  then show "ao_id (k_objects k' ! i) = ao_id (k_objects k ! i)"
    and "ao_priority (k_objects k' ! i) = ao_priority (k_objects k ! i)"
    by (simp_all add: ao_shape_def)
qed

lemma map_ao_shape_prio:
  "map ao_shape aos' = map ao_shape aos \<Longrightarrow> map ao_prio aos' = map ao_prio aos"
  by (induction aos arbitrary: aos') (auto simp: ao_shape_def Cons_eq_map_conv)

lemma qv_ext_inv:
  assumes "qv_ext k k'" "QvKernel_inv k"
  shows "QvKernel_inv k'"
proof -
  have 1: "map ao_prio (k_objects k') = map ao_prio (k_objects k)"
    using assms(1) by (intro map_ao_shape_prio) (simp add: qv_ext_def)
  have 2: "k_by_id k' = k_by_id k" "length (k_objects k') = length (k_objects k)"
    using assms(1) qv_ext_length [OF assms(1)] unfolding qv_ext_def by blast+
  have 3: "ao_id (k_objects k' ! i) = ao_id (k_objects k ! i)" if "i < length (k_objects k)" for i
    using qv_ext_nth(1) [OF assms(1) that] .
  have 4: "\<forall>ao\<in>set (k_objects k'). k_by_id k' (ao_id ao) \<noteq> None"
  proof
    fix ao assume "ao \<in> set (k_objects k')"
    then obtain i where "i < length (k_objects k)" "ao = k_objects k' ! i"
      using 2(2) by (metis in_set_conv_nth)
    then show "k_by_id k' (ao_id ao) \<noteq> None"
      using assms(2) 2 3 nth_mem unfolding QvKernel_inv_def by metis
  qed
  have 5: "list_all ActiveObject_inv (k_objects k')"
    "\<forall>ps. k_pubsub k' = Some ps \<longrightarrow> PubSubTable_inv ps"
    using assms unfolding QvKernel_inv_def qv_ext_def by blast+
  have 6: "\<forall>t i. k_by_id k' t = Some i \<longrightarrow> i < length (k_objects k') \<and> ao_id (k_objects k' ! i) = t"
    using assms(2) 2 3 by (simp add: QvKernel_inv_def)
  have 7: "sorted (map ao_prio (k_objects k'))"
    using assms(2) unfolding 1 QvKernel_inv_def by blast
  show ?thesis
    unfolding QvKernel_inv_def using 4 5 6 7 by blast
qed

lemma queue_weight_update:
  "i < length aos \<Longrightarrow>
   queue_weight w (aos[i := ao]) + sum_list (map w (ao_events (aos ! i))) =
   queue_weight w aos + sum_list (map w (ao_events ao))"
proof (induction aos arbitrary: i)
  case (Cons a aos)
  then show ?case by (cases i) (auto simp: queue_weight_def algebra_simps)
qed simp

lemma qv_ext_update:
  assumes "i < length (k_objects k)" "ao_shape ao = ao_shape (k_objects k ! i)"
    "ActiveObject_inv (k_objects k ! i) \<Longrightarrow> ActiveObject_inv ao"
  shows "qv_ext k (k\<lparr>k_objects := (k_objects k)[i := ao]\<rparr>)"
  using assms
  by (auto simp: qv_ext_def map_update list_all_length nth_list_update list_update_same_conv
      nth_map)

lemma k_emit_simps [simp]:
  "k_objects (k_emit r p k) = k_objects k" "k_by_id (k_emit r p k) = k_by_id k"
  "k_pubsub (k_emit r p k) = k_pubsub k" "k_sched_ceiling (k_emit r p k) = k_sched_ceiling k"
  "k_prev_prio (k_emit r p k) = k_prev_prio k"
  by (simp_all add: k_emit_def)

lemma ActiveObject_post_shape:
  "ActiveObject_post None e ao = Inr ao' \<Longrightarrow>
   ao_shape ao' = ao_shape ao \<and> (ActiveObject_inv ao \<longrightarrow> ActiveObject_inv ao') \<and>
   ao_events ao' = ao_events ao @ [e]"
  using ActiveObject_post_None [of e ao] by (auto simp: ao_shape_def)

lemma QvKernel_post_spec:
  assumes "QvKernel_inv k" "QvKernel_post t e k = Inr (r, k')"
  shows "qv_ext k k'" and "queue_weight w (k_objects k') \<le> queue_weight w (k_objects k) + w e"
proof -
  show "qv_ext k k'"
    using assms ActiveObject_post_shape
    by (auto simp: QvKernel_post_def res_simps QvKernel_inv_def split: option.splits
        intro!: qv_ext_update)
  show "queue_weight w (k_objects k') \<le> queue_weight w (k_objects k) + w e"
  proof (cases "k_by_id k t")
    case (Some i)
    with assms obtain ao where ao: "ActiveObject_post None e (k_objects k ! i) = Inr ao"
      "k_objects k' = (k_objects k)[i := ao]" "i < length (k_objects k)"
      by (auto simp: QvKernel_post_def res_simps QvKernel_inv_def)
    with queue_weight_update [OF ao(3), of w ao] ActiveObject_post_shape [OF ao(1)]
    show ?thesis by simp
  qed (use assms in \<open>auto simp: QvKernel_post_def\<close>)
qed

lemma publish_subscribed_spec:
  "publish_subscribed subs e aos = Inr aos' \<Longrightarrow>
   map ao_shape aos' = map ao_shape aos \<and>
   (list_all ActiveObject_inv aos \<longrightarrow> list_all ActiveObject_inv aos') \<and>
   queue_weight w aos' \<le> queue_weight w aos + length aos * w e"
proof (induction subs e aos arbitrary: aos' rule: publish_subscribed.induct)
  case (2 subs e ao aos)
  then obtain ao1 aos1 where *: "aos' = ao1 # aos1" "publish_subscribed subs e aos = Inr aos1"
    "ao1 = ao \<or> ActiveObject_post None e ao = Inr ao1"
    by (auto simp: res_simps split: if_splits)
  have "ao_shape ao1 = ao_shape ao \<and> (ActiveObject_inv ao \<longrightarrow> ActiveObject_inv ao1) \<and>
    sum_list (map w (ao_events ao1)) \<le> sum_list (map w (ao_events ao)) + w e"
    using *(3) ActiveObject_post_shape by fastforce
  moreover have "map ao_shape aos1 = map ao_shape aos \<and>
    (list_all ActiveObject_inv aos \<longrightarrow> list_all ActiveObject_inv aos1) \<and>
    queue_weight w aos1 \<le> queue_weight w aos + length aos * w e"
    using 2 * by (auto simp: res_simps split: if_splits)
  ultimately show ?case using *(1) by (auto simp: queue_weight_def)
qed simp

lemma publish_to_all_spec:
  "publish_to_all e aos = Inr aos' \<Longrightarrow>
   map ao_shape aos' = map ao_shape aos \<and>
   (list_all ActiveObject_inv aos \<longrightarrow> list_all ActiveObject_inv aos') \<and>
   queue_weight w aos' \<le> queue_weight w aos + length aos * w e"
proof (induction e aos arbitrary: aos' rule: publish_to_all.induct)
  case (2 e ao aos)
  then obtain ao1 aos1 where *: "aos' = ao1 # aos1" "publish_to_all e aos = Inr aos1"
    "ActiveObject_post None e ao = Inr ao1"
    by (auto simp: res_simps)
  with 2 ActiveObject_post_shape [OF *(3)] show ?case by (auto simp: queue_weight_def)
qed simp

lemma PubSubTable_inv_ops:
  assumes "PubSubTable_inv t"
  shows "PubSubTable_subscribe s p t = Inr t' \<Longrightarrow> PubSubTable_inv t'"
    and "PubSubTable_unsubscribe s p t = Inr t' \<Longrightarrow> PubSubTable_inv t'"
    and "PubSubTable_unsubscribe_all p t = Inr t' \<Longrightarrow> PubSubTable_inv t'"
  using assms
  by (auto simp: PubSubTable_inv_def PubSubTable_subscribe_def PubSubTable_unsubscribe_def
      PubSubTable_unsubscribe_all_def res_simps)

lemma qv_ext_same_objects:
  assumes "k_objects k' = k_objects k" "k_by_id k' = k_by_id k"
    "\<And>ps. k_pubsub k' = Some ps \<Longrightarrow> (\<forall>ps. k_pubsub k = Some ps \<longrightarrow> PubSubTable_inv ps) \<Longrightarrow> PubSubTable_inv ps"
  shows "qv_ext k k'"
  using assms unfolding qv_ext_def by metis

lemma qv_ext_pubsub:
  assumes "k_pubsub k = Some ps" "PubSubTable_inv ps \<Longrightarrow> PubSubTable_inv ps'"
    "k_objects k' = k_objects k" "k_by_id k' = k_by_id k" "k_pubsub k' = Some ps'"
  shows "qv_ext k k' \<and> k_objects k' = k_objects k"
  using assms by (intro conjI qv_ext_same_objects) simp_all

lemma QvKernel_subscribe_ext:
  assumes "QvKernel_subscribe s p k = Inr k'"
  shows "qv_ext k k' \<and> k_objects k' = k_objects k"
proof (cases "k_pubsub k")
  case (Some ps)
  with assms obtain ps' where "PubSubTable_subscribe s p ps = Inr ps'"
    "k_objects k' = k_objects k" "k_by_id k' = k_by_id k" "k_pubsub k' = Some ps'"
    by (auto simp: QvKernel_subscribe_def res_simps)
  with Some PubSubTable_inv_ops(1) [of ps] show ?thesis by (intro qv_ext_pubsub)
qed (use assms in \<open>simp add: QvKernel_subscribe_def\<close>)

lemma QvKernel_unsubscribe_ext:
  assumes "QvKernel_unsubscribe s p k = Inr k'"
  shows "qv_ext k k' \<and> k_objects k' = k_objects k"
proof (cases "k_pubsub k")
  case (Some ps)
  with assms obtain ps' where "PubSubTable_unsubscribe s p ps = Inr ps'"
    "k_objects k' = k_objects k" "k_by_id k' = k_by_id k" "k_pubsub k' = Some ps'"
    by (auto simp: QvKernel_unsubscribe_def res_simps)
  with Some PubSubTable_inv_ops(2) [of ps] show ?thesis by (intro qv_ext_pubsub)
qed (use assms in \<open>simp add: QvKernel_unsubscribe_def\<close>)

lemma QvKernel_unsubscribe_all_ext:
  assumes "QvKernel_unsubscribe_all p k = Inr k'"
  shows "qv_ext k k' \<and> k_objects k' = k_objects k"
proof (cases "k_pubsub k")
  case (Some ps)
  with assms obtain ps' where "PubSubTable_unsubscribe_all p ps = Inr ps'"
    "k_objects k' = k_objects k" "k_by_id k' = k_by_id k" "k_pubsub k' = Some ps'"
    by (auto simp: QvKernel_unsubscribe_all_def res_simps)
  with Some PubSubTable_inv_ops(3) [of ps] show ?thesis by (intro qv_ext_pubsub)
qed (use assms in \<open>simp add: QvKernel_unsubscribe_all_def\<close>)

lemma QvKernel_lock_ext [simp]:
  "qv_ext k (QvKernel_lock_scheduler c k)" "qv_ext k (QvKernel_unlock_scheduler k)"
  "qv_ext k (QvKernel_note_idle k)" "qv_ext k (QvKernel_note_next p k)"
  "qv_ext k (QvKernel_stop k)" "qv_ext k (k\<lparr>k_trace := t\<rparr>)"
  by (rule qv_ext_same_objects;
      simp add: QvKernel_lock_scheduler_def QvKernel_unlock_scheduler_def QvKernel_note_idle_def
        QvKernel_note_next_def QvKernel_stop_def Let_def split: if_splits)+

lemma QvKernel_lock_objects [simp]:
  "k_objects (QvKernel_lock_scheduler c k) = k_objects k"
  "k_objects (QvKernel_unlock_scheduler k) = k_objects k"
  "k_objects (QvKernel_note_idle k) = k_objects k"
  "k_objects (QvKernel_note_next p k) = k_objects k"
  "k_objects (QvKernel_stop k) = k_objects k"
  "k_sched_ceiling (QvKernel_note_idle k) = k_sched_ceiling k"
  "k_sched_ceiling (QvKernel_note_next p k) = k_sched_ceiling k"
  by (simp_all add: QvKernel_lock_scheduler_def QvKernel_unlock_scheduler_def
      QvKernel_note_idle_def QvKernel_note_next_def QvKernel_stop_def Let_def)

lemma QvKernel_publish_spec:
  assumes "QvKernel_publish s e k = Inr k'"
  shows "qv_ext k k' \<and> queue_weight w (k_objects k') \<le>
    queue_weight w (k_objects k) + length (k_objects k) * w (Event_for_signal s e)"
proof (cases "k_pubsub k")
  case None
  with assms obtain aos where aos: "publish_to_all (Event_for_signal s e) (k_objects k) = Inr aos"
    "k' = k\<lparr>k_objects := aos\<rparr>"
    by (auto simp: QvKernel_publish_def res_simps)
  from publish_to_all_spec [OF aos(1), of w] aos(2) show ?thesis by (simp add: qv_ext_def)
next
  case (Some ps)
  with assms obtain subs aos where
    aos: "publish_subscribed subs (Event_for_signal s e) (k_objects k) = Inr aos"
    "k' = (k_emit 26 (le16 s) k)\<lparr>k_objects := aos\<rparr>"
    by (auto simp: QvKernel_publish_def res_simps Let_def)
  from publish_subscribed_spec [OF aos(1), of w] aos(2) show ?thesis by (simp add: qv_ext_def)
qed

lemma QvKernel_call_spec:
  assumes "QvKernel_inv k" "QvKernel_call c k = Inr k'"
  shows "qv_ext k k' \<and> queue_weight w (k_objects k') \<le>
    queue_weight w (k_objects k) + call_weight (length (k_objects k)) w c"
proof (cases "(c, k)" rule: QvKernel_call.cases)
  case (2 t e k1)
  with assms(2) obtain r where "QvKernel_post t e k = Inr (r, k')" by (auto simp: res_simps)
  from QvKernel_post_spec [OF assms(1) this] 2 show ?thesis by simp
next
  case (3 s e k1)
  with assms(2) QvKernel_publish_spec [of s e k k' w] show ?thesis by simp
next
  case (4 s p k1)
  with assms(2) QvKernel_subscribe_ext [of s p k k'] show ?thesis by simp
next
  case (5 s p k1)
  with assms(2) QvKernel_unsubscribe_ext [of s p k k'] show ?thesis by simp
next
  case (6 p k1)
  with assms(2) QvKernel_unsubscribe_all_ext [of p k k'] show ?thesis by simp
qed (use assms(2) in auto)

lemma QvKernel_calls_spec:
  "QvKernel_inv k \<Longrightarrow> QvKernel_calls cs k = Inr k' \<Longrightarrow>
   qv_ext k k' \<and> queue_weight w (k_objects k') \<le>
   queue_weight w (k_objects k) + sum_list (map (call_weight (length (k_objects k)) w) cs)"
proof (induction cs k rule: QvKernel_calls.induct)
  case (2 c cs k)
  then obtain k1 where k1: "QvKernel_call c k = Inr k1" "QvKernel_calls cs k1 = Inr k'"
    by (auto simp: res_simps)
  note s1 = QvKernel_call_spec [OF 2(2) k1(1), of w]
  then have i1: "QvKernel_inv k1" using 2(2) qv_ext_inv by blast
  have s2: "qv_ext k1 k' \<and> queue_weight w (k_objects k') \<le>
    queue_weight w (k_objects k1) + sum_list (map (call_weight (length (k_objects k1)) w) cs)"
    by (rule "2.IH" [OF i1 k1(2)])
  with s1 have "qv_ext k k'" using qv_ext_trans by blast
  moreover from s1 have "length (k_objects k1) = length (k_objects k)" by (simp add: qv_ext_length)
  ultimately show ?case using s1 s2 by simp
qed simp

lemma visible_calls_weight:
  "sum_list (map f (visible_calls h cs)) \<le> sum_list (map (f :: _ \<Rightarrow> nat) cs)"
  by (induction cs) (auto simp: visible_calls_def)

lemma QvKernel_candidate_cases:
  "case QvKernel_candidate k of
     None \<Rightarrow> \<forall>ao\<in>set (k_objects k). ao_events ao = []
   | Some i \<Rightarrow> i < length (k_objects k) \<and> ao_events (k_objects k ! i) \<noteq> [] \<and>
       (\<forall>j < length (k_objects k). ao_events (k_objects k ! j) \<noteq> [] \<longrightarrow> j \<le> i)"
proof (cases "QvKernel_candidate k")
  case None
  then have "\<forall>ao\<in>set (k_objects k). ao_events ao = []"
    by (auto simp: QvKernel_candidate_def find_None_iff in_set_conv_nth)
  with None show ?thesis by simp
next
  case (Some i)
  let ?P = "\<lambda>i. ao_events (k_objects k ! i) \<noteq> []"
  from Some have f: "filter ?P [0..<length (k_objects k)] \<noteq> []"
    and i: "i = last (filter ?P [0..<length (k_objects k)])"
    by (auto simp: QvKernel_candidate_def find_rev_last filter_empty_conv split: if_splits)
  then have "i \<in> set (filter ?P [0..<length (k_objects k)])" using last_in_set by metis
  moreover have "j \<le> i" if "j < length (k_objects k)" "?P j" for j
    unfolding i using that by (intro sorted_last_max sorted_wrt_filter) auto
  ultimately show ?thesis using Some by auto
qed

lemma QvKernel_inv_nth_le:
  assumes "QvKernel_inv k" "j \<le> i" "i < length (k_objects k)"
  shows "ao_prio (k_objects k ! j) \<le> ao_prio (k_objects k ! i)"
proof -
  have "sorted (map ao_prio (k_objects k))" using assms(1) by (simp add: QvKernel_inv_def)
  from sorted_nth_mono [OF this assms(2)] assms(2,3) show ?thesis by simp
qed

lemma QvKernel_inv_ActiveObject:
  "QvKernel_inv k \<Longrightarrow> i < length (k_objects k) \<Longrightarrow> ActiveObject_inv (k_objects k ! i)"
  by (simp add: QvKernel_inv_def list_all_length)

lemma ActiveObject_dispatch_one_Cons:
  assumes "ao_events ao = e # es" "on_event bh (ao_id ao) (ao_behavior ao) e = (b', cs)"
  shows "ActiveObject_dispatch_one bh ao =
    (True, ao\<lparr>ao_queue := (ao_queue ao)\<lparr>eq_buf := es\<rparr>, ao_behavior := b'\<rparr>,
     visible_calls (ao_trace_hook ao) cs)"
  using assms by (simp add: ActiveObject_dispatch_one_def EventQueue_pop_front_def)

text \<open>One dispatch, on a well-formed kernel, by cases on the candidate.\<close>

lemma QvKernel_dispatch_once_cases:
  assumes "QvKernel_inv k"
  obtains (idle) "QvKernel_candidate k = None" "QvKernel_dispatch_once bh k = Inr (False, QvKernel_note_idle k)"
  | (blocked) i where "QvKernel_candidate k = Some i" "ao_prio (k_objects k ! i) \<le> k_sched_ceiling k"
      "QvKernel_dispatch_once bh k = Inr (False, QvKernel_note_idle k)"
  | (run) i e es b' cs where "QvKernel_candidate k = Some i" "i < length (k_objects k)"
      "ao_events (k_objects k ! i) = e # es" "k_sched_ceiling k < ao_prio (k_objects k ! i)"
      "on_event bh (ao_id (k_objects k ! i)) (ao_behavior (k_objects k ! i)) e = (b', cs)"
      "QvKernel_dispatch_once bh k =
        rbind (QvKernel_calls (visible_calls (ao_trace_hook (k_objects k ! i)) cs)
          ((QvKernel_note_next (ao_prio (k_objects k ! i)) k)\<lparr>k_objects := (k_objects k)[i :=
            (k_objects k ! i)\<lparr>ao_queue := (ao_queue (k_objects k ! i))\<lparr>eq_buf := es\<rparr>,
              ao_behavior := b'\<rparr>]\<rparr>)) (\<lambda>k'. Inr (True, k'))"
proof (cases "QvKernel_candidate k")
  case None
  then show ?thesis using idle by (simp add: QvKernel_dispatch_once_def)
next
  case (Some i)
  with QvKernel_candidate_cases [of k] have i: "i < length (k_objects k)"
    "ao_events (k_objects k ! i) \<noteq> []" by auto
  then obtain e es where ev: "ao_events (k_objects k ! i) = e # es" by (cases "ao_events (k_objects k ! i)") auto
  obtain b' cs where bh: "on_event bh (ao_id (k_objects k ! i)) (ao_behavior (k_objects k ! i)) e = (b', cs)"
    by fastforce
  have p: "ActiveObject_priority (k_objects k ! i) = Inr (ao_prio (k_objects k ! i))"
    using QvKernel_inv_ActiveObject [OF assms i(1)] by (simp add: ActiveObject_inv_def)
  show ?thesis
  proof (cases "ao_prio (k_objects k ! i) \<le> k_sched_ceiling k")
    case True
    with Some p show ?thesis by (intro blocked) (simp_all add: QvKernel_dispatch_once_def)
  next
    case False
    with Some i(1) ev bh show ?thesis
      by (intro run) (simp_all add: QvKernel_dispatch_once_def p ActiveObject_dispatch_one_Cons)
  qed
qed

lemma index_by_id_upto:
  "fold (\<lambda>i m. m(ao_id (aos ! i) \<mapsto> i)) [0..<n] Map.empty t = Some i \<longleftrightarrow>
   i < n \<and> ao_id (aos ! i) = t \<and> (\<forall>j. i < j \<longrightarrow> j < n \<longrightarrow> ao_id (aos ! j) \<noteq> t)"
  by (induction n) (auto simp: less_Suc_eq)

lemma index_by_id_defined:
  "j < n \<Longrightarrow> fold (\<lambda>i m. m(ao_id (aos ! i) \<mapsto> i)) [0..<n] Map.empty (ao_id (aos ! j)) \<noteq> None"
  by (induction n) (auto simp: less_Suc_eq)

lemma sorted_short: "length xs < 2 \<Longrightarrow> sorted (map f xs)"
  by (cases xs; cases "tl xs") auto

lemma KernelBuilder_build_inv:
  assumes "KernelBuilder_build b = Inr k" "list_all ActiveObject_inv (kb_objects b)"
    "\<forall>ps. kb_pubsub b = Some ps \<longrightarrow> PubSubTable_inv ps"
  shows "QvKernel_inv k"
proof -
  from assms(1) obtain aos where aos: "sort_objects (kb_objects b) = Inr aos"
    "k = QvKernel_new aos (kb_trace b) (kb_pubsub b) (kb_idle_callback b)"
    by (auto simp: KernelBuilder_build_def res_simps)
  then have "sorted (map ao_prio aos)" "set aos = set (kb_objects b)"
    by (auto simp: sort_objects_def res_simps sorted_short split: if_splits)
  moreover have "\<forall>ao\<in>set aos. index_by_id aos (ao_id ao) \<noteq> None"
    using index_by_id_defined [of _ "length aos" aos] unfolding index_by_id_def all_set_conv_all_nth
    by blast
  moreover have "\<forall>t i. index_by_id aos t = Some i \<longrightarrow> i < length aos \<and> ao_id (aos ! i) = t"
    by (simp add: index_by_id_def index_by_id_upto)
  ultimately show ?thesis
    using assms(2,3) by (simp add: QvKernel_inv_def aos(2) QvKernel_new_def list_all_iff)
qed

lemma ActiveObject_start_shape:
  assumes "ActiveObject_start bh h ao = (ao', cs)"
  shows "ao_shape ao' = ao_shape ao" "ActiveObject_inv ao \<Longrightarrow> ActiveObject_inv ao'"
  using assms by (auto simp: ActiveObject_start_def ao_shape_def ActiveObject_inv_def split: prod.splits)

lemma QvKernel_start_each_ext:
  "QvKernel_inv k \<Longrightarrow> \<forall>i\<in>set is. i < length (k_objects k) \<Longrightarrow>
   QvKernel_start_each bh is k = Inr k' \<Longrightarrow> qv_ext k k'"
proof (induction "is" arbitrary: k)
  case (Cons i "is")
  obtain ao cs where st: "ActiveObject_start bh (k_trace k \<noteq> None) (k_objects k ! i) = (ao, cs)"
    by fastforce
  let ?k1 = "k\<lparr>k_objects := (k_objects k)[i := ao]\<rparr>"
  from Cons.prems st obtain k2 where k2: "QvKernel_calls cs ?k1 = Inr k2"
    "QvKernel_start_each bh is k2 = Inr k'"
    by (auto simp: res_simps)
  have e1: "qv_ext k ?k1"
    using Cons.prems(2) ActiveObject_start_shape [OF st] by (intro qv_ext_update) simp_all
  then have e2: "qv_ext k k2"
    using QvKernel_calls_spec [OF qv_ext_inv [OF e1 Cons.prems(1)] k2(1)] qv_ext_trans by blast
  moreover have "qv_ext k2 k'"
    using Cons.IH [OF qv_ext_inv [OF e2 Cons.prems(1)] _ k2(2)] Cons.prems(2) qv_ext_length [OF e2]
    by simp
  ultimately show ?case by (rule qv_ext_trans)
qed simp

lemma QvKernel_pop_ext:
  assumes "i < length (k_objects k)" "ao_events (k_objects k ! i) = e # es"
  shows "qv_ext k ((QvKernel_note_next p k)\<lparr>k_objects := (k_objects k)[i :=
    (k_objects k ! i)\<lparr>ao_queue := (ao_queue (k_objects k ! i))\<lparr>eq_buf := es\<rparr>, ao_behavior := b\<rparr>]\<rparr>)"
proof -
  let ?k0 = "QvKernel_note_next p k"
  let ?ao = "(k_objects k ! i)\<lparr>ao_queue := (ao_queue (k_objects k ! i))\<lparr>eq_buf := es\<rparr>, ao_behavior := b\<rparr>"
  have "qv_ext ?k0 (?k0\<lparr>k_objects := (k_objects ?k0)[i := ?ao]\<rparr>)"
    using assms by (intro qv_ext_update) (simp_all add: ao_shape_def ActiveObject_inv_def)
  from qv_ext_trans [OF QvKernel_lock_ext(4) this] show ?thesis by simp
qed

lemma QvKernel_dispatch_once_ext:
  fixes bh :: "('p, 'b) QvBehavior"
  assumes "QvKernel_inv k" "QvKernel_dispatch_once bh k = Inr (h, k')"
  shows "qv_ext k k'"
proof (rule QvKernel_dispatch_once_cases [OF assms(1), of bh])
  fix i e es b' and cs :: "'p call effect list"
  let ?ao = "(k_objects k ! i)\<lparr>ao_queue := (ao_queue (k_objects k ! i))\<lparr>eq_buf := es\<rparr>, ao_behavior := b'\<rparr>"
  let ?k0 = "QvKernel_note_next (ao_prio (k_objects k ! i)) k"
  let ?k1 = "?k0\<lparr>k_objects := (k_objects k)[i := ?ao]\<rparr>"
  assume i: "i < length (k_objects k)" "ao_events (k_objects k ! i) = e # es"
    and eq: "QvKernel_dispatch_once bh k =
      rbind (QvKernel_calls (visible_calls (ao_trace_hook (k_objects k ! i)) cs) ?k1) (\<lambda>k'. Inr (True, k'))"
  note e1 = QvKernel_pop_ext [OF i, where p = "ao_prio (k_objects k ! i)" and b = b']
  from assms(2) [unfolded eq] have "QvKernel_calls (visible_calls (ao_trace_hook (k_objects k ! i)) cs) ?k1 = Inr k'"
    by (simp add: res_simps)
  from QvKernel_calls_spec [OF qv_ext_inv [OF e1 assms(1)] this] e1 show ?thesis
    using qv_ext_trans by blast
qed (use assms(2) in auto)

lemma QvKernel_dispatch_once_weight:
  fixes bh :: "('p, 'b) QvBehavior"
  assumes "QvKernel_inv k" "QvKernel_dispatch_once bh k = Inr (True, k')"
    and dec: "\<And>i b e. sum_list (map (call_weight (length (k_objects k)) w) (snd (on_event bh i b e))) < w e"
  shows "queue_weight w (k_objects k') < queue_weight w (k_objects k)"
proof (rule QvKernel_dispatch_once_cases [OF assms(1), of bh])
  fix i e es b' and cs :: "'p call effect list"
  let ?ao = "(k_objects k ! i)\<lparr>ao_queue := (ao_queue (k_objects k ! i))\<lparr>eq_buf := es\<rparr>, ao_behavior := b'\<rparr>"
  let ?k0 = "QvKernel_note_next (ao_prio (k_objects k ! i)) k"
  let ?k1 = "?k0\<lparr>k_objects := (k_objects k)[i := ?ao]\<rparr>"
  let ?cs = "visible_calls (ao_trace_hook (k_objects k ! i)) cs"
  assume i: "i < length (k_objects k)" "ao_events (k_objects k ! i) = e # es"
    and ev: "on_event bh (ao_id (k_objects k ! i)) (ao_behavior (k_objects k ! i)) e = (b', cs)"
    and eq: "QvKernel_dispatch_once bh k = rbind (QvKernel_calls ?cs ?k1) (\<lambda>k'. Inr (True, k'))"
  note e1 = QvKernel_pop_ext [OF i, where p = "ao_prio (k_objects k ! i)" and b = b']
  from assms(2) [unfolded eq] have "QvKernel_calls ?cs ?k1 = Inr k'" by (simp add: res_simps)
  from QvKernel_calls_spec [OF qv_ext_inv [OF e1 assms(1)] this, of w]
  have "queue_weight w (k_objects k') \<le> queue_weight w ((k_objects k)[i := ?ao]) +
      sum_list (map (call_weight (length (k_objects k)) w) ?cs)" by simp
  also have "\<dots> \<le> queue_weight w ((k_objects k)[i := ?ao]) +
      sum_list (map (call_weight (length (k_objects k)) w) cs)"
    using visible_calls_weight by (rule add_left_mono)
  also have "\<dots> < queue_weight w ((k_objects k)[i := ?ao]) + w e"
    using dec [of "ao_id (k_objects k ! i)" "ao_behavior (k_objects k ! i)" e] ev by simp
  also have "\<dots> = queue_weight w (k_objects k)"
    using queue_weight_update [OF i(1), of w ?ao] i(2) by simp
  finally show ?thesis .
qed (use assms(2) in auto)

lemma qv_reach_inv:
  assumes "qv_reach bh b k" "list_all ActiveObject_inv (kb_objects b)"
    "\<forall>ps. kb_pubsub b = Some ps \<longrightarrow> PubSubTable_inv ps"
  shows "QvKernel_inv k"
  using assms(1)
proof induction
  case (built k)
  then show ?case using KernelBuilder_build_inv assms(2,3) by blast
next
  case (called k c k')
  then show ?case using QvKernel_call_spec qv_ext_inv by blast
next
  case (started k k')
  then have "qv_ext k k'" unfolding QvKernel_start_def by (intro QvKernel_start_each_ext) auto
  with started show ?case using qv_ext_inv by blast
next
  case (dispatched k h k')
  then show ?case using QvKernel_dispatch_once_ext qv_ext_inv by blast
qed

lemma QvKernel_candidate_maximal:
  assumes "QvKernel_inv k" "QvKernel_candidate k = Some i"
  shows "\<forall>ao\<in>set (k_objects k). ao_events ao \<noteq> [] \<longrightarrow> ao_prio ao \<le> ao_prio (k_objects k ! i)"
proof (intro ballI impI)
  fix ao assume ao: "ao \<in> set (k_objects k)" "ao_events ao \<noteq> []"
  then obtain j where "j < length (k_objects k)" "ao = k_objects k ! j" by (metis in_set_conv_nth)
  with ao assms(2) QvKernel_candidate_cases [of k] QvKernel_inv_nth_le [OF assms(1), of j i]
  show "ao_prio ao \<le> ao_prio (k_objects k ! i)" by auto
qed

lemma QvKernel_idle_means_blocked:
  assumes "QvKernel_inv k" "QvKernel_dispatch_once bh k = Inr (False, k')"
  shows "k' = QvKernel_note_idle k \<and>
    (\<forall>ao\<in>set (k_objects k). ao_events ao \<noteq> [] \<longrightarrow> ao_prio ao \<le> k_sched_ceiling k)"
proof (rule QvKernel_dispatch_once_cases [OF assms(1), of bh])
  assume "QvKernel_candidate k = None" "QvKernel_dispatch_once bh k = Inr (False, QvKernel_note_idle k)"
  with assms(2) QvKernel_candidate_cases [of k] show ?thesis by auto
next
  fix i assume "QvKernel_candidate k = Some i" "ao_prio (k_objects k ! i) \<le> k_sched_ceiling k"
    "QvKernel_dispatch_once bh k = Inr (False, QvKernel_note_idle k)"
  with assms(2) QvKernel_candidate_maximal [OF assms(1), of i] show ?thesis by fastforce
qed (use assms(2) in \<open>auto simp: res_simps\<close>)

lemma QvKernel_dispatch_all_terminates:
  assumes "QvKernel_inv k"
    and "\<And>i b e. sum_list (map (call_weight (length (k_objects k)) w) (snd (on_event bh i b e))) < w e"
  shows "\<exists>r. QvKernel_dispatch_all bh k = Some r \<and>
    (\<forall>k'. r = Inr k' \<longrightarrow> qv_ext k k' \<and>
      (\<forall>ao\<in>set (k_objects k'). ao_events ao \<noteq> [] \<longrightarrow> ao_prio ao \<le> k_sched_ceiling k'))"
  using assms
proof (induction "queue_weight w (k_objects k)" arbitrary: k rule: less_induct)
  case less
  show ?case
  proof (cases "QvKernel_dispatch_once bh k")
    case (Inl f)
    then show ?thesis by (subst QvKernel_dispatch_all.simps) simp
  next
    case (Inr hk)
    then obtain h k1 where d: "QvKernel_dispatch_once bh k = Inr (h, k1)" by (cases hk) simp
    note e1 = QvKernel_dispatch_once_ext [OF less.prems(1) d]
    show ?thesis
    proof (cases h)
      case True
      with d have d': "QvKernel_dispatch_once bh k = Inr (True, k1)" by simp
      have "queue_weight w (k_objects k1) < queue_weight w (k_objects k)"
        by (rule QvKernel_dispatch_once_weight [OF less.prems(1) d' less.prems(2)])
      from less.hyps [OF this qv_ext_inv [OF e1 less.prems(1)]] less.prems(2) qv_ext_length [OF e1]
      obtain r where r: "QvKernel_dispatch_all bh k1 = Some r"
        "\<forall>k'. r = Inr k' \<longrightarrow> qv_ext k1 k' \<and>
          (\<forall>ao\<in>set (k_objects k'). ao_events ao \<noteq> [] \<longrightarrow> ao_prio ao \<le> k_sched_ceiling k')"
        by auto
      with d' e1 qv_ext_trans show ?thesis
        by (subst QvKernel_dispatch_all.simps) (simp, blast)
    next
      case False
      with d have d': "QvKernel_dispatch_once bh k = Inr (False, k1)" by simp
      then have k1: "k1 = QvKernel_note_idle k" and
        idle: "\<forall>ao\<in>set (k_objects k). ao_events ao \<noteq> [] \<longrightarrow> ao_prio ao \<le> k_sched_ceiling k"
        using QvKernel_idle_means_blocked [OF less.prems(1) d'] by auto
      with d' e1 show ?thesis by (subst QvKernel_dispatch_all.simps) simp
    qed
  qed
qed

section \<open>Properties\<close>

text \<open>
  (kernel invariant) Every state reachable by building a kernel from intact objects, calling
  its API, starting it and dispatching keeps the registry sorted by priority, every priority
  intact, every high-water mark at least the queue length, the id map exact and the subscription
  table of the right size.
\<close>

theorem QvKernel_invariant:
  assumes "qv_reach bh b k" "list_all ActiveObject_inv (kb_objects b)"
    "case kb_pubsub b of None \<Rightarrow> True | Some ps \<Rightarrow> PubSubTable_inv ps"
  shows "QvKernel_inv k"
  using qv_reach_inv [OF assms(1,2)] assms(3) by (auto split: option.splits)

text \<open>
  C7: (priority dispatch) When \<open>dispatch_once\<close> handles an event on a well-formed kernel, it takes
  the oldest event of an object whose priority is above the scheduler ceiling and at least that
  of every other object with pending events, and the resulting state is exactly the handler's
  framework calls run, in order, on the kernel with that one event removed.
\<close>

theorem QvKernel_dispatch_highest_priority:
  assumes "QvKernel_inv k" "QvKernel_dispatch_once bh k = Inr (True, k')"
  shows "\<exists>i e es b' cs. i < length (k_objects k) \<and> ao_events (k_objects k ! i) = e # es \<and>
    k_sched_ceiling k < ao_prio (k_objects k ! i) \<and>
    (\<forall>ao\<in>set (k_objects k). ao_events ao \<noteq> [] \<longrightarrow> ao_prio ao \<le> ao_prio (k_objects k ! i)) \<and>
    on_event bh (ao_id (k_objects k ! i)) (ao_behavior (k_objects k ! i)) e = (b', cs) \<and>
    QvKernel_calls (visible_calls (ao_trace_hook (k_objects k ! i)) cs)
      ((QvKernel_note_next (ao_prio (k_objects k ! i)) k)\<lparr>k_objects := (k_objects k)[i :=
        (k_objects k ! i)\<lparr>ao_queue := (ao_queue (k_objects k ! i))\<lparr>eq_buf := es\<rparr>,
          ao_behavior := b'\<rparr>]\<rparr>) = Inr k'"
proof (rule QvKernel_dispatch_once_cases [OF assms(1), of bh])
  fix i e es b' cs
  assume c: "QvKernel_candidate k = Some i" and i: "i < length (k_objects k)"
    "ao_events (k_objects k ! i) = e # es" "k_sched_ceiling k < ao_prio (k_objects k ! i)"
    "on_event bh (ao_id (k_objects k ! i)) (ao_behavior (k_objects k ! i)) e = (b', cs)"
    and eq: "QvKernel_dispatch_once bh k =
        rbind (QvKernel_calls (visible_calls (ao_trace_hook (k_objects k ! i)) cs)
          ((QvKernel_note_next (ao_prio (k_objects k ! i)) k)\<lparr>k_objects := (k_objects k)[i :=
            (k_objects k ! i)\<lparr>ao_queue := (ao_queue (k_objects k ! i))\<lparr>eq_buf := es\<rparr>,
              ao_behavior := b'\<rparr>]\<rparr>)) (\<lambda>k'. Inr (True, k'))"
  note top = QvKernel_candidate_maximal [OF assms(1) c]
  from assms(2) [unfolded eq] show ?thesis
    by (intro exI [of _ i] exI [of _ e] exI [of _ es] exI [of _ b'] exI [of _ cs])
      (use i top in \<open>auto simp: res_simps\<close>)
qed (use assms(2) in auto)

text \<open>
  (run to idle) If handling any event produces strictly less work than the event was worth,
  for some weighting of events (a post counts its event once, a publish once per object), then
  \<open>run_until_idle\<close> returns; and unless a handler's call faulted, every object that still has
  events has a priority at or below the scheduler ceiling.
\<close>

theorem QvKernel_run_until_idle_returns:
  assumes "QvKernel_inv k"
    and "\<And>i b e. sum_list (map (call_weight (length (k_objects k)) w) (snd (on_event bh i b e))) < w e"
  shows "\<exists>r. QvKernel_run_until_idle bh k = Some r \<and>
    (\<forall>k'. r = Inr k' \<longrightarrow> QvKernel_inv k' \<and>
      (\<forall>ao\<in>set (k_objects k'). ao_events ao \<noteq> [] \<longrightarrow> ao_prio ao \<le> k_sched_ceiling k'))"
proof -
  obtain r where r: "QvKernel_dispatch_all bh k = Some r"
    "\<forall>k'. r = Inr k' \<longrightarrow> qv_ext k k' \<and>
      (\<forall>ao\<in>set (k_objects k'). ao_events ao \<noteq> [] \<longrightarrow> ao_prio ao \<le> k_sched_ceiling k')"
    using QvKernel_dispatch_all_terminates [OF assms] by blast
  then show ?thesis
    using qv_ext_inv [OF _ assms(1)]
    by (auto simp: QvKernel_run_until_idle_def res_simps QvKernel_inv_def)
qed

section \<open>Witnesses\<close>

lemmas demo_defs = demo_builder_def demo_ao_def ActiveObject_new_def KernelBuilder_new_def
  KernelBuilder_register_def KernelBuilder_with_trace_hook_def EventQueue_new_def demo_kernel_def

lemma demo_build: "KernelBuilder_build demo_builder = Inr demo_kernel"
  by (simp add: demo_defs KernelBuilder_build_def sort_objects_def ActiveObject_priority_def
      Dis_new_def Dis_get_def)

lemma demo_objects_inv: "list_all ActiveObject_inv (kb_objects demo_builder)"
  by (simp add: demo_defs ActiveObject_inv_def)

lemma demo_inv: "QvKernel_inv demo_kernel"
  by (rule KernelBuilder_build_inv [OF demo_build demo_objects_inv]) (simp add: demo_defs)

lemma demo_dispatch:
  "\<exists>k'. QvKernel_dispatch_once demo_bh demo_kernel = Inr (True, k')"
  by (simp add: demo_defs QvKernel_dispatch_once_def QvKernel_candidate_def QvKernel_new_def
      ActiveObject_priority_def Dis_new_def Dis_get_def QvKernel_note_next_def Let_def
      ActiveObject_dispatch_one_def EventQueue_pop_front_def demo_bh_def Event_signal_def Event_new_def
      EventHeader_new_def visible_calls_def QvKernel_post_def index_by_id_def k_emit_def
      ActiveObject_post_def upt_conv_Cons)

theorem QvKernel_invariant_witness:
  "qv_reach demo_bh demo_builder demo_kernel \<and> QvKernel_inv demo_kernel"
  using QvKernel_invariant [of demo_bh demo_builder demo_kernel] demo_objects_inv
    qv_reach.built [OF demo_build]
  by (simp add: demo_builder_def KernelBuilder_new_def KernelBuilder_register_def
      KernelBuilder_with_trace_hook_def)

theorem QvKernel_dispatch_highest_priority_witness:
  "\<exists>k' i. QvKernel_dispatch_once demo_bh demo_kernel = Inr (True, k') \<and>
     i < length (k_objects demo_kernel) \<and> ao_events (k_objects demo_kernel ! i) \<noteq> []"
proof -
  obtain k' where k': "QvKernel_dispatch_once demo_bh demo_kernel = Inr (True, k')"
    using demo_dispatch by blast
  from QvKernel_dispatch_highest_priority [OF demo_inv this] k' show ?thesis by auto
qed

theorem QvKernel_run_until_idle_returns_witness:
  "\<exists>r. QvKernel_run_until_idle demo_bh demo_kernel = Some r \<and>
    (\<forall>k'. r = Inr k' \<longrightarrow> QvKernel_inv k' \<and>
      (\<forall>ao\<in>set (k_objects k'). ao_events ao \<noteq> [] \<longrightarrow> ao_prio ao \<le> k_sched_ceiling k'))"
  by (rule QvKernel_run_until_idle_returns
      [OF demo_inv, where w = "\<lambda>e. if Event_signal e = 4 then 2 else 1"])
    (simp add: demo_bh_def Event_signal_def Event_new_def EventHeader_new_def)

end
