(* ===== verification/QvSmp.thy ===== *)
theory QvSmp
  imports QvKernel
begin

text \<open>
  The multi-core (\<open>smp\<close>) build of the cooperative kernel (\<open>crates/qf/src/kernel.rs\<close>): every object has a slot with
  the core that is executing it, claimed by a compare-and-exchange. Registry, posting, publishing, subscriptions and the
  ceiling (whose compare-and-exchange loops are their successful iteration) are those of the single-core build. No object
  is ever executed by two cores, and a core that runs alone does what the single-core build does.
\<close>

section \<open>Slots\<close>

definition CORE_ID_NONE :: u8 where "CORE_ID_NONE = 0xFF"

record ('p, 'b) QvSmpKernel =
  qs_kernel :: "('p, 'b) QvKernel"
  qs_executing_core :: "u8 list"

definition QvSmpKernel_new ::
    "('p, 'b) ActiveObject list \<Rightarrow> trace \<Rightarrow> PubSubTable option \<Rightarrow> bool \<Rightarrow> ('p, 'b) QvSmpKernel" where
  "QvSmpKernel_new aos t ps idle_cb =
     \<lparr>qs_kernel = QvKernel_new aos t ps idle_cb, qs_executing_core = replicate (length aos) CORE_ID_NONE\<rparr>"

definition QvSmpKernel_build :: "('p, 'b) KernelBuilder \<Rightarrow> ('p, 'b) QvSmpKernel result" where
  "QvSmpKernel_build b =
     rbind (sort_objects (kb_objects b)) (\<lambda>aos.
       Inr (QvSmpKernel_new aos (kb_trace b) (kb_pubsub b) (kb_idle_callback b)))"

section \<open>One dispatch\<close>

text \<open>What the search tests of one slot: priority above the loaded ceiling, events, unclaimed.\<close>

definition qs_test :: "u8 \<Rightarrow> nat \<Rightarrow> ('p, 'b) QvSmpKernel \<Rightarrow> bool result" where
  "qs_test ceiling i y =
     rbind (ActiveObject_priority (k_objects (qs_kernel y) ! i)) (\<lambda>prio.
       Inr (prio > ceiling \<and> ActiveObject_has_events (k_objects (qs_kernel y) ! i) \<and>
         qs_executing_core y ! i = CORE_ID_NONE))"

fun qs_find :: "u8 \<Rightarrow> nat list \<Rightarrow> ('p, 'b) QvSmpKernel \<Rightarrow> nat option result" where
  "qs_find ceiling [] y = Inr None"
| "qs_find ceiling (i # is) y =
     rbind (qs_test ceiling i y) (\<lambda>b. if b then Inr (Some i) else qs_find ceiling is y)"

definition qs_claim :: "u8 \<Rightarrow> nat \<Rightarrow> ('p, 'b) QvSmpKernel \<Rightarrow> bool \<times> ('p, 'b) QvSmpKernel" where
  "qs_claim core i y =
     (if qs_executing_core y ! i = CORE_ID_NONE
      then (True, y\<lparr>qs_executing_core := (qs_executing_core y)[i := core]\<rparr>) else (False, y))"

text \<open>The second test for events, the trace record and the event taken from the queue, with the calls of its handler.\<close>

definition qs_take ::
    "('p, 'b) QvBehavior \<Rightarrow> nat \<Rightarrow> ('p, 'b) QvSmpKernel \<Rightarrow> (bool \<times> 'p call effect list \<times> ('p, 'b) QvSmpKernel) result" where
  "qs_take bh i y =
     (if ActiveObject_has_events (k_objects (qs_kernel y) ! i)
      then rbind (ActiveObject_priority (k_objects (qs_kernel y) ! i)) (\<lambda>prio.
        let k = k_emit QS_SCHED_NEXT [prio, 0] (qs_kernel y);
            (handled, ao, cs) = ActiveObject_dispatch_one bh (k_objects k ! i)
        in Inr (handled, cs, y\<lparr>qs_kernel := k\<lparr>k_objects := (k_objects k)[i := ao]\<rparr>\<rparr>))
      else Inr (False, [], y))"

definition qs_release :: "nat \<Rightarrow> ('p, 'b) QvSmpKernel \<Rightarrow> ('p, 'b) QvSmpKernel" where
  "qs_release i y = y\<lparr>qs_executing_core := (qs_executing_core y)[i := CORE_ID_NONE]\<rparr>"

definition QvSmpKernel_dispatch_once ::
    "u8 \<Rightarrow> ('p, 'b) QvBehavior \<Rightarrow> ('p, 'b) QvSmpKernel \<Rightarrow> (bool \<times> ('p, 'b) QvSmpKernel) result" where
  "QvSmpKernel_dispatch_once core bh y =
     rbind (qs_find (k_sched_ceiling (qs_kernel y)) (rev [0..<length (k_objects (qs_kernel y))]) y) (\<lambda>candidate.
       case candidate of
         None \<Rightarrow> Inr (False, y)
       | Some i \<Rightarrow>
           (case qs_claim core i y of
              (False, y1) \<Rightarrow> Inr (False, y1)
            | (True, y1) \<Rightarrow>
                rbind (qs_take bh i y1) (\<lambda>(dispatched, cs, y2).
                  rbind (QvKernel_calls cs (qs_kernel y2)) (\<lambda>k.
                    Inr (dispatched, qs_release i (y2\<lparr>qs_kernel := k\<rparr>))))))"

section \<open>Cores side by side\<close>

text \<open>
  Where a core is in its dispatch: not in one, searching the remaining slots with the ceiling it has loaded, about to claim a
  slot, holding a claimed slot, running a handler with the calls still to make.
\<close>

datatype 'p core_phase =
    Out
  | Searching u8 "nat list"
  | Found nat
  | Claimed nat
  | Handling nat "'p call effect list"

type_synonym ('p, 'b) qs_system = "('p, 'b) QvSmpKernel \<times> (nat \<Rightarrow> 'p core_phase)"

text \<open>
  Between two atomic accesses of one core the others may move; interrupts and other threads may call the kernel at
  any time. Core numbers are below the reserved one.
\<close>

inductive qs_step :: "('p, 'b) QvBehavior \<Rightarrow> ('p, 'b) qs_system \<Rightarrow> ('p, 'b) qs_system \<Rightarrow> bool" for bh where
  load: "c < 255 \<Longrightarrow> ph c = Out \<Longrightarrow>
    qs_step bh (y, ph) (y, ph(c := Searching (k_sched_ceiling (qs_kernel y)) (rev [0..<length (k_objects (qs_kernel y))])))"
| test: "c < 255 \<Longrightarrow> ph c = Searching l (i # is) \<Longrightarrow> qs_test l i y = Inr b \<Longrightarrow>
    qs_step bh (y, ph) (y, ph(c := (if b then Found i else Searching l is)))"
| none: "c < 255 \<Longrightarrow> ph c = Searching l [] \<Longrightarrow> qs_step bh (y, ph) (y, ph(c := Out))"
| claim: "c < 255 \<Longrightarrow> ph c = Found i \<Longrightarrow> qs_claim (of_nat c) i y = (ok, y') \<Longrightarrow>
    qs_step bh (y, ph) (y', ph(c := (if ok then Claimed i else Out)))"
| take: "c < 255 \<Longrightarrow> ph c = Claimed i \<Longrightarrow> qs_take bh i y = Inr (dispatched, cs, y') \<Longrightarrow>
    qs_step bh (y, ph) (y', ph(c := Handling i cs))"
| call: "c < 255 \<Longrightarrow> ph c = Handling i (e # es) \<Longrightarrow> QvKernel_call e (qs_kernel y) = Inr k \<Longrightarrow>
    qs_step bh (y, ph) (y\<lparr>qs_kernel := k\<rparr>, ph(c := Handling i es))"
| release: "c < 255 \<Longrightarrow> ph c = Handling i [] \<Longrightarrow> qs_step bh (y, ph) (qs_release i y, ph(c := Out))"
| environment: "QvKernel_call e (qs_kernel y) = Inr k \<Longrightarrow> qs_step bh (y, ph) (y\<lparr>qs_kernel := k\<rparr>, ph)"

text \<open>The slot a core holds.\<close>

fun held :: "'p core_phase \<Rightarrow> nat option" where
  "held (Claimed i) = Some i"
| "held (Handling i _) = Some i"
| "held _ = None"

fun in_range :: "nat \<Rightarrow> 'p core_phase \<Rightarrow> bool" where
  "in_range n (Searching l is) \<longleftrightarrow> (\<forall>i\<in>set is. i < n)"
| "in_range n (Found i) \<longleftrightarrow> i < n"
| "in_range n (Claimed i) \<longleftrightarrow> i < n"
| "in_range n (Handling i _) \<longleftrightarrow> i < n"
| "in_range n Out \<longleftrightarrow> True"

definition qs_inv :: "('p, 'b) qs_system \<Rightarrow> bool" where
  "qs_inv = (\<lambda>(y, ph). QvKernel_inv (qs_kernel y) \<and>
     length (qs_executing_core y) = length (k_objects (qs_kernel y)) \<and>
     (\<forall>c < 255. in_range (length (k_objects (qs_kernel y))) (ph c)) \<and>
     (\<forall>c < 255. \<forall>i < length (k_objects (qs_kernel y)). held (ph c) = Some i \<longleftrightarrow> qs_executing_core y ! i = of_nat c))"

lemmas qs_inv_simps = qs_inv_def prod.case

lemma core_of_nat [simp]:
  "c < 255 \<Longrightarrow> (of_nat c :: u8) \<noteq> CORE_ID_NONE" "c < 255 \<Longrightarrow> CORE_ID_NONE \<noteq> of_nat c" "c < 255 \<Longrightarrow> d < 255 \<Longrightarrow> (of_nat c :: u8) = of_nat d \<longleftrightarrow> c = d"
  by (auto simp: CORE_ID_NONE_def word_unat_eq_iff unat_of_nat)

section \<open>Every step keeps the invariant\<close>

text \<open>A step that claims and releases nothing.\<close>

lemma qs_inv_move:
  assumes "qs_inv (y, ph)" "qv_ext (qs_kernel y) (qs_kernel y')" "qs_executing_core y' = qs_executing_core y"
    "held p = held (ph c)" "in_range (length (k_objects (qs_kernel y))) p"
  shows "qs_inv (y', ph(c := p))"
  using assms qv_ext_inv [OF assms(2)] qv_ext_length [OF assms(2)] by (auto simp: qs_inv_simps)

lemma qs_take_spec:
  assumes "qs_take bh i y = Inr (dispatched, cs, y')" "i < length (k_objects (qs_kernel y))"
  shows "qv_ext (qs_kernel y) (qs_kernel y')" "qs_executing_core y' = qs_executing_core y"
proof -
  let ?k = "qs_kernel y"
  obtain h ao cs' where d: "ActiveObject_dispatch_one bh (k_objects ?k ! i) = (h, ao, cs')" by (metis prod_cases3)
  show "qs_executing_core y' = qs_executing_core y"
    using assms(1) d by (auto simp: qs_take_def res_simps split: if_splits)
  show "qv_ext ?k (qs_kernel y')"
  proof (cases "ActiveObject_has_events (k_objects ?k ! i)")
    case False
    with assms show ?thesis by (simp add: qs_take_def)
  next
    case True
    from d have "ao_shape ao = ao_shape (k_objects ?k ! i)" "ActiveObject_inv (k_objects ?k ! i) \<Longrightarrow> ActiveObject_inv ao"
      by (auto simp: ActiveObject_dispatch_one_def EventQueue_pop_front_def ao_shape_def ActiveObject_inv_def Let_def
          split: list.splits prod.splits)
    then have "qv_ext ?k ((k_emit r p ?k)\<lparr>k_objects := (k_objects ?k)[i := ao]\<rparr>)" for r p
      using qv_ext_update [of i "k_emit r p ?k" ao] assms(2) by (simp add: qv_ext_def)
    with True assms(1) d show ?thesis by (auto simp: qs_take_def res_simps)
  qed
qed

lemma qs_inv_claim:
  assumes inv: "qs_inv (y, ph)" and c: "c < 255" "ph c = Found i" and cl: "qs_claim (of_nat c) i y = (ok, y')"
  shows "qs_inv (y', ph(c := (if ok then Claimed i else Out)))"
proof (cases ok)
  case False
  with cl c have "y' = y" by (simp add: qs_claim_def split: if_splits)
  with False c inv show ?thesis by (auto intro!: qs_inv_move)
next
  case True
  with cl have y': "qs_executing_core y ! i = CORE_ID_NONE" "y' = y\<lparr>qs_executing_core := (qs_executing_core y)[i := of_nat c]\<rparr>"
    by (auto simp: qs_claim_def split: if_splits)
  from inv c have i: "i < length (k_objects (qs_kernel y))" by (fastforce simp: qs_inv_simps)
  show ?thesis using inv c i True
    by (auto simp: qs_inv_simps y' nth_list_update)
qed

lemma qs_inv_release:
  assumes inv: "qs_inv (y, ph)" and c: "c < 255" "ph c = Handling i []"
  shows "qs_inv (qs_release i y, ph(c := Out))"
proof -
  from inv c have i: "i < length (k_objects (qs_kernel y))" "qs_executing_core y ! i = of_nat c" by (fastforce simp: qs_inv_simps)+
  show ?thesis using inv c i
    by (auto simp: qs_inv_simps qs_release_def nth_list_update)
qed

lemma qs_inv_range:
  "qs_inv (y, ph) \<Longrightarrow> c < 255 \<Longrightarrow> in_range (length (k_objects (qs_kernel y))) (ph c)"
  by (simp add: qs_inv_simps)

lemma qs_inv_step:
  assumes "qs_step bh x x'" "qs_inv x"
  shows "qs_inv x'"
  using assms
proof (induction rule: qs_step.induct)
  case (test c ph l i "is" y b)
  then show ?case using qs_inv_range [of y ph c] by (auto intro!: qs_inv_move)
next
  case (take c ph i y dispatched cs y')
  then have "i < length (k_objects (qs_kernel y))" using qs_inv_range [of y ph c] by simp
  from qs_take_spec [OF take.hyps(3) this] take.hyps(2) this show ?case
    by (intro qs_inv_move [OF take.prems]) simp_all
next
  case (call c ph i e es y k)
  then have "qv_ext (qs_kernel y) k" by (auto simp: qs_inv_simps dest: QvKernel_call_spec)
  with call qs_inv_range [of y ph c] show ?case by (intro qs_inv_move) simp_all
next
  case (environment e y k ph)
  then have "qv_ext (qs_kernel y) k" by (auto simp: qs_inv_simps dest: QvKernel_call_spec)
  with environment qs_inv_move [of y ph "y\<lparr>qs_kernel := k\<rparr>" "ph 0" 0] show ?case
    by (fastforce dest: qs_inv_range [of y ph 0])
next
  case (claim c ph i y ok y')
  then show ?case by (intro qs_inv_claim)
next
  case (release c ph i y)
  then show ?case by (intro qs_inv_release)
qed (auto intro!: qs_inv_move)

section \<open>Run to completion on many cores\<close>

text \<open>
  C11: in every state of the multi-core cooperative kernel that its cores, interrupts and other threads can reach, whatever the
  interleaving of their atomic accesses, no object is held by two cores, every claimed slot is held by exactly the core it
  names, so no claim is ever leaked, and the registry keeps its invariant.
\<close>

theorem qv_smp_run_to_completion:
  assumes "QvSmpKernel_build b = Inr y0" "list_all ActiveObject_inv (kb_objects b)"
    "\<forall>ps. kb_pubsub b = Some ps \<longrightarrow> PubSubTable_inv ps" "(qs_step bh)\<^sup>*\<^sup>* (y0, \<lambda>_. Out) (y, ph)"
  shows "QvKernel_inv (qs_kernel y) \<and>
    (\<forall>c < 255. \<forall>d < 255. \<forall>i. held (ph c) = Some i \<and> held (ph d) = Some i \<longrightarrow> c = d) \<and>
    (\<forall>i < length (k_objects (qs_kernel y)). qs_executing_core y ! i \<noteq> CORE_ID_NONE \<longrightarrow>
       (\<exists>c < 255. held (ph c) = Some i \<and> qs_executing_core y ! i = of_nat c))"
proof -
  from assms(1) obtain k where k: "KernelBuilder_build b = Inr k" "qs_kernel y0 = k"
    "qs_executing_core y0 = replicate (length (k_objects k)) CORE_ID_NONE"
    by (auto simp: QvSmpKernel_build_def KernelBuilder_build_def QvSmpKernel_new_def QvKernel_new_def res_simps)
  from KernelBuilder_build_inv [OF k(1) assms(2,3)] k have "qs_inv (y0, \<lambda>_. Out)" by (simp add: qs_inv_simps)
  with assms(4) have inv: "qs_inv (y, ph)" by (induction rule: rtranclp_induct) (auto intro: qs_inv_step)
  have "c = d" if "c < 255" "d < 255" "held (ph c) = Some i" "held (ph d) = Some i" for c d i
  proof -
    have "i < length (k_objects (qs_kernel y))"
      using qs_inv_range [OF inv that(1)] that(3) by (cases "ph c") auto
    with inv that have "qs_executing_core y ! i = of_nat c" "qs_executing_core y ! i = of_nat d" by (simp_all add: qs_inv_simps)
    with that show ?thesis by simp
  qed
  moreover have "\<exists>c < 255. held (ph c) = Some i \<and> qs_executing_core y ! i = of_nat c"
    if i: "i < length (k_objects (qs_kernel y))" "qs_executing_core y ! i \<noteq> CORE_ID_NONE" for i
  proof -
    let ?v = "qs_executing_core y ! i"
    have "unat ?v \<noteq> unat CORE_ID_NONE" using i(2) by (simp only: word_unat_eq_iff [symmetric] not_False_eq_True)
    then have "unat ?v < 255" using unsigned_less [of ?v, where ?'a = nat] by (simp add: CORE_ID_NONE_def)
    moreover have "?v = of_nat (unat ?v)" by simp
    ultimately show ?thesis using inv i(1) by (intro exI [of _ "unat ?v"]) (simp add: qs_inv_simps)
  qed
  ultimately show ?thesis using inv by (auto simp: qs_inv_simps)
qed

text \<open>Two cores search the small system of the single-core kernel; core 3 has claimed the object of priority 5, core 4 is about to.\<close>

definition demo_smp :: "(unit, nat) QvSmpKernel" where
  "demo_smp = \<lparr>qs_kernel = demo_kernel, qs_executing_core = [CORE_ID_NONE, CORE_ID_NONE]\<rparr>"

definition demo_claimed :: "(unit, nat) QvSmpKernel" where
  "demo_claimed = demo_smp\<lparr>qs_executing_core := [CORE_ID_NONE, 3]\<rparr>"

lemma demo_smp_build: "QvSmpKernel_build demo_builder = Inr demo_smp"
  by (simp add: QvSmpKernel_build_def demo_builder_def KernelBuilder_with_trace_hook_def KernelBuilder_register_def
      KernelBuilder_new_def sort_objects_def QvSmpKernel_new_def demo_smp_def demo_kernel_def demo_ao_def ActiveObject_new_def
      ActiveObject_priority_def Dis_new_def Dis_get_def word_le_nat_alt)

lemma demo_smp_test: "qs_test l 1 demo_smp = Inr (l < 5)"
  by (simp add: qs_test_def demo_smp_def demo_kernel_def QvKernel_new_def demo_ao_def ActiveObject_new_def ActiveObject_priority_def)

lemma demo_smp_run:
  "(qs_step bh)\<^sup>*\<^sup>* (demo_smp, \<lambda>_. Out) (demo_claimed, (\<lambda>_. Out)(3 := Claimed 1, 4 := Found 1))"
proof -
  have n: "length (k_objects (qs_kernel demo_smp)) = 2" "k_sched_ceiling (qs_kernel demo_smp) = 0"
    by (simp_all add: demo_smp_def demo_kernel_def QvKernel_new_def)
  have r: "rev [0..<2] = [1, 0]" by code_simp
  let ?s = "Searching 0 [1, 0]"
  have "qs_step bh (demo_smp, \<lambda>_. Out) (demo_smp, (\<lambda>_. Out)(3 := ?s))"
    using qs_step.load [of 3 "\<lambda>_. Out" bh demo_smp] by (simp add: n r)
  moreover have "qs_step bh (demo_smp, (\<lambda>_. Out)(3 := ?s)) (demo_smp, (\<lambda>_. Out)(3 := ?s, 4 := ?s))"
    using qs_step.load [of 4 "(\<lambda>_. Out)(3 := ?s)" bh demo_smp] by (simp add: n r)
  moreover have "qs_step bh (demo_smp, (\<lambda>_. Out)(3 := ?s, 4 := ?s)) (demo_smp, (\<lambda>_. Out)(3 := Found 1, 4 := ?s))"
    using qs_step.test [of 3 "(\<lambda>_. Out)(3 := ?s, 4 := ?s)" 0 1 "[0]" demo_smp True bh] by (simp add: demo_smp_test [simplified] fun_upd_twist)
  moreover have "qs_step bh (demo_smp, (\<lambda>_. Out)(3 := Found 1, 4 := ?s)) (demo_smp, (\<lambda>_. Out)(3 := Found 1, 4 := Found 1))"
    using qs_step.test [of 4 "(\<lambda>_. Out)(3 := Found 1, 4 := ?s)" 0 1 "[0]" demo_smp True bh] by (simp add: demo_smp_test [simplified])
  moreover have "qs_step bh (demo_smp, (\<lambda>_. Out)(3 := Found 1, 4 := Found 1)) (demo_claimed, (\<lambda>_. Out)(3 := Claimed 1, 4 := Found 1))"
    using qs_step.claim [of 3 "(\<lambda>_. Out)(3 := Found 1, 4 := Found 1)" 1 demo_smp True demo_claimed bh]
    by (simp add: qs_claim_def demo_claimed_def demo_smp_def fun_upd_twist)
  ultimately show ?thesis by (metis (no_types, lifting) r_into_rtranclp rtranclp_trans)
qed

lemma demo_builder_ok:
  "list_all ActiveObject_inv (kb_objects demo_builder)" "\<forall>ps. kb_pubsub demo_builder = Some ps \<longrightarrow> PubSubTable_inv ps"
  by (simp_all add: demo_builder_def KernelBuilder_with_trace_hook_def KernelBuilder_register_def KernelBuilder_new_def
      demo_ao_def ActiveObject_new_def ActiveObject_inv_def)

lemma qv_smp_run_to_completion_witness:
  "QvKernel_inv (qs_kernel demo_claimed) \<and> held (((\<lambda>_. Out)(3 := Claimed 1, 4 := Found 1) :: nat \<Rightarrow> unit core_phase) 3) = Some 1 \<and>
   (\<exists>c < 255. held (((\<lambda>_. Out)(3 := Claimed 1, 4 := Found 1) :: nat \<Rightarrow> unit core_phase) c) = Some 1 \<and> qs_executing_core demo_claimed ! 1 = of_nat c)"
  using qv_smp_run_to_completion [OF demo_smp_build demo_builder_ok demo_smp_run [of demo_bh]]
  by (simp add: demo_claimed_def demo_smp_def demo_kernel_def QvKernel_new_def CORE_ID_NONE_def)

section \<open>One core alone\<close>

text \<open>The state apart from the trace records, which the two builds write differently.\<close>

definition untraced :: "('p, 'b) QvKernel \<Rightarrow> ('p, 'b) QvKernel" where
  "untraced k = k\<lparr>k_trace := None, k_prev_prio := 0\<rparr>"

lemma untraced_simps [simp]:
  "k_objects (untraced k) = k_objects k" "k_by_id (untraced k) = k_by_id k" "k_pubsub (untraced k) = k_pubsub k"
  "k_sched_ceiling (untraced k) = k_sched_ceiling k" "untraced (k_emit r p k) = untraced k" "k_emit r p (untraced k) = untraced k"
  "untraced (k\<lparr>k_objects := aos\<rparr>) = (untraced k)\<lparr>k_objects := aos\<rparr>"
  "untraced (k\<lparr>k_pubsub := ps\<rparr>) = (untraced k)\<lparr>k_pubsub := ps\<rparr>"
  "untraced (k\<lparr>k_sched_ceiling := l\<rparr>) = (untraced k)\<lparr>k_sched_ceiling := l\<rparr>"
  "untraced (k\<lparr>k_stop_flag := b\<rparr>) = (untraced k)\<lparr>k_stop_flag := b\<rparr>"
  "untraced (QvKernel_note_idle k) = untraced k" "untraced (QvKernel_note_next q k) = untraced k"
  by (simp_all add: untraced_def k_emit_def QvKernel_note_idle_def QvKernel_note_next_def Let_def)

lemma untraced_update [simp]:
  "k_emit r p ((untraced k)\<lparr>k_pubsub := ps\<rparr>) = (untraced k)\<lparr>k_pubsub := ps\<rparr>"
  "k_emit r p ((untraced k)\<lparr>k_sched_ceiling := l\<rparr>) = (untraced k)\<lparr>k_sched_ceiling := l\<rparr>"
  by (simp_all add: untraced_def k_emit_def)

lemma untraced_call: "rbind (QvKernel_call c k) (\<lambda>k'. Inr (untraced k')) = QvKernel_call c (untraced k)"
proof (cases "(c, k)" rule: QvKernel_call.cases)
  case (1 r p ts k1)
  then show ?thesis by (simp add: untraced_def)
qed (auto simp: QvKernel_post_def QvKernel_publish_def QvKernel_subscribe_def QvKernel_unsubscribe_def QvKernel_unsubscribe_all_def
    QvKernel_lock_scheduler_def QvKernel_unlock_scheduler_def QvKernel_stop_def rbind_def Let_def split: option.splits sum.splits)

lemma untraced_calls: "rbind (QvKernel_calls cs k) (\<lambda>k'. Inr (untraced k')) = QvKernel_calls cs (untraced k)"
proof (induction cs arbitrary: k)
  case (Cons c cs)
  then show ?case unfolding QvKernel_calls.simps untraced_call [symmetric] by (cases "QvKernel_call c k") simp_all
qed simp

lemma find_rev_upt:
  "i < n \<Longrightarrow> P i \<Longrightarrow> (\<And>j. i < j \<Longrightarrow> j < n \<Longrightarrow> \<not> P j) \<Longrightarrow> find P (rev [0..<n]) = Some i"
  by (induction n) (auto simp: less_Suc_eq)

lemma qs_find_alone:
  assumes "QvKernel_inv (qs_kernel y)" "qs_executing_core y = replicate (length (k_objects (qs_kernel y))) CORE_ID_NONE"
    "\<forall>i\<in>set is. i < length (k_objects (qs_kernel y))"
  shows "qs_find l is y = Inr (find (\<lambda>i. l < ao_prio (k_objects (qs_kernel y) ! i) \<and> ao_events (k_objects (qs_kernel y) ! i) \<noteq> []) is)"
  using assms(3)
proof (induction "is")
  case (Cons i "is")
  then have "ActiveObject_priority (k_objects (qs_kernel y) ! i) = Inr (ao_prio (k_objects (qs_kernel y) ! i))"
    using QvKernel_inv_ActiveObject [OF assms(1), of i] by (simp add: ActiveObject_inv_def)
  with Cons assms(2) show ?case by (simp add: qs_test_def)
qed simp

text \<open>
  C12: on a kernel whose slots are all free, one dispatch of a core of the multi-core build does what the single-core build
  does: it handles an event exactly if that one does, the same event of the same object, with the same result (faults of the
  handler's calls included), differs in the trace records only, and leaves every slot free.
\<close>

theorem QvSmpKernel_dispatch_once_alone:
  assumes inv: "QvKernel_inv (qs_kernel y)"
    and free: "qs_executing_core y = replicate (length (k_objects (qs_kernel y))) CORE_ID_NONE"
  shows "rbind (QvSmpKernel_dispatch_once core bh y) (\<lambda>(h, y'). Inr (h, untraced (qs_kernel y'), qs_executing_core y')) =
    rbind (QvKernel_dispatch_once bh (qs_kernel y)) (\<lambda>(h, k'). Inr (h, untraced k', qs_executing_core y))"
proof -
  let ?k = "qs_kernel y" and ?n = "length (k_objects (qs_kernel y))"
  let ?P = "\<lambda>i. k_sched_ceiling ?k < ao_prio (k_objects ?k ! i) \<and> ao_events (k_objects ?k ! i) \<noteq> []"
  have f: "qs_find (k_sched_ceiling ?k) (rev [0..<?n]) y = Inr (find ?P (rev [0..<?n]))"
    by (rule qs_find_alone [OF inv free]) simp
  show ?thesis using inv
  proof (cases rule: QvKernel_dispatch_once_cases [where bh = bh])
    case idle
    with QvKernel_candidate_cases [of ?k] have "find ?P (rev [0..<?n]) = None" by (auto simp: find_None_iff)
    with idle f show ?thesis by (simp add: QvSmpKernel_dispatch_once_def)
  next
    case (blocked i)
    with QvKernel_candidate_cases [of ?k] have i: "i < ?n" "\<And>j. j < ?n \<Longrightarrow> ao_events (k_objects ?k ! j) \<noteq> [] \<Longrightarrow> j \<le> i" by auto
    have "\<not> ?P j" if "j < ?n" for j
      using i(2) [OF that] QvKernel_inv_nth_le [OF inv _ i(1), of j] blocked(2) by (auto simp: not_less intro: order_trans)
    then have "find ?P (rev [0..<?n]) = None" by (auto simp: find_None_iff)
    with blocked f show ?thesis by (simp add: QvSmpKernel_dispatch_once_def)
  next
    case (run i e es b' cs)
    from run(1) QvKernel_candidate_cases [of ?k] have le: "j \<le> i" if "j < ?n" "ao_events (k_objects ?k ! j) \<noteq> []" for j
      using that by auto
    have fi: "find ?P (rev [0..<?n]) = Some i"
    proof (rule find_rev_upt)
      show "\<not> ?P j" if "i < j" "j < ?n" for j using le [of j] that by auto
    qed (use run(2-4) in simp_all)
    let ?ao = "(k_objects ?k ! i)\<lparr>ao_queue := (ao_queue (k_objects ?k ! i))\<lparr>eq_buf := es\<rparr>, ao_behavior := b'\<rparr>"
    let ?cs = "visible_calls (ao_trace_hook (k_objects ?k ! i)) cs"
    let ?k1 = "(k_emit QS_SCHED_NEXT [ao_prio (k_objects ?k ! i), 0] ?k)\<lparr>k_objects := (k_objects ?k)[i := ?ao]\<rparr>"
    let ?k2 = "(QvKernel_note_next (ao_prio (k_objects ?k ! i)) ?k)\<lparr>k_objects := (k_objects ?k)[i := ?ao]\<rparr>"
    have p: "ActiveObject_priority (k_objects ?k ! i) = Inr (ao_prio (k_objects ?k ! i))"
      using QvKernel_inv_ActiveObject [OF inv run(2)] by (simp add: ActiveObject_inv_def)
    have r: "(replicate ?n CORE_ID_NONE)[i := CORE_ID_NONE] = replicate ?n CORE_ID_NONE"
      by (simp add: list_update_same_conv run(2))
    have "QvSmpKernel_dispatch_once core bh y = rbind (QvKernel_calls ?cs ?k1) (\<lambda>k. Inr (True,
        y\<lparr>qs_kernel := k, qs_executing_core := replicate ?n CORE_ID_NONE\<rparr>))"
      using run(2,3) r free
      by (simp add: QvSmpKernel_dispatch_once_def f fi qs_claim_def qs_take_def p qs_release_def
          ActiveObject_dispatch_one_Cons [OF run(3,5)])
    moreover have "rbind (QvKernel_calls ?cs ?k1) (\<lambda>k'. Inr (untraced k')) = rbind (QvKernel_calls ?cs ?k2) (\<lambda>k'. Inr (untraced k'))"
      unfolding untraced_calls by simp
    ultimately show ?thesis unfolding run(6) using free by (auto simp: rbind_def split: sum.splits)
  qed
qed

lemma QvSmpKernel_dispatch_once_alone_witness:
  "rbind (QvSmpKernel_dispatch_once 0 demo_bh demo_smp) (\<lambda>(h, y'). Inr (h, untraced (qs_kernel y'), qs_executing_core y')) =
    rbind (QvKernel_dispatch_once demo_bh demo_kernel) (\<lambda>(h, k'). Inr (h, untraced k', [CORE_ID_NONE, CORE_ID_NONE]))"
proof -
  have "KernelBuilder_build demo_builder = Inr demo_kernel"
    using demo_smp_build by (auto simp: QvSmpKernel_build_def KernelBuilder_build_def QvSmpKernel_new_def demo_smp_def res_simps)
  then have "QvKernel_inv demo_kernel" using KernelBuilder_build_inv demo_builder_ok by blast
  with QvSmpKernel_dispatch_once_alone [of demo_smp 0 demo_bh] show ?thesis
    by (simp add: demo_smp_def demo_kernel_def QvKernel_new_def numeral_2_eq_2)
qed

section \<open>A lock that comes too late\<close>

text \<open>
  The ceiling is loaded once at the start of the search: an object at or below a ceiling that is raised meanwhile is
  still claimed and its handler run.
\<close>

lemma qv_smp_lock_too_late:
  "\<exists>y ph es. (qs_step demo_bh)\<^sup>*\<^sup>* (demo_smp, \<lambda>_. Out) (y, ph) \<and> k_sched_ceiling (qs_kernel y) = 63 \<and>
     ao_prio (k_objects (qs_kernel y) ! 1) = 5 \<and> ph 3 = Handling 1 es"
proof -
  let ?k = "QvKernel_lock_scheduler 63 demo_kernel" and ?ph = "(\<lambda>_. Out)(3 := Claimed 1, 4 := Found 1) :: nat \<Rightarrow> unit core_phase"
  let ?y = "demo_claimed\<lparr>qs_kernel := ?k\<rparr>"
  have "qs_step demo_bh (demo_claimed, ?ph) (?y, ?ph)"
    by (rule qs_step.environment [of "Call (CLock 63)"]) (simp add: demo_claimed_def demo_smp_def)
  moreover obtain d cs y' where t: "qs_take demo_bh 1 ?y = Inr (d, cs, y')" "k_sched_ceiling (qs_kernel y') = 63"
      "ao_prio (k_objects (qs_kernel y') ! 1) = 5"
    by (simp add: qs_take_def demo_kernel_def QvKernel_new_def demo_ao_def ActiveObject_new_def ActiveObject_priority_def
        QvKernel_lock_scheduler_def ActiveObject_dispatch_one_def EventQueue_pop_front_def demo_bh_def Let_def Dis_new_def Dis_get_def)
  moreover have "qs_step demo_bh (?y, ?ph) (y', ?ph(3 := Handling 1 cs))"
    by (rule qs_step.take [OF _ _ t(1)]) simp_all
  ultimately have "(qs_step demo_bh)\<^sup>*\<^sup>* (demo_smp, \<lambda>_. Out) (y', ?ph(3 := Handling 1 cs))"
    using demo_smp_run [of demo_bh] by (metis (no_types, lifting) rtranclp.rtrancl_into_rtrancl)
  with t show ?thesis by (intro exI [of _ y'] exI [of _ "?ph(3 := Handling 1 cs)"] exI [of _ cs]) simp
qed

end
