(* ===== verification/QkScheduler.thy ===== *)
theory QkScheduler
  imports ReadySet
begin

text \<open>
  The preemptive scheduler (\<open>crates/qk/src/scheduler.rs\<close>): lock ceiling, active priority and
  preemption threshold over the ready set, in the single-core build, and the multi-core
  (\<open>smp\<close>) variant with eight cores. The mutex around the state makes each operation atomic;
  trace records and context-switch notifications are appended to logs.
\<close>

section \<open>Lock status\<close>

datatype SchedStatus = Locked u8 | Unlocked

definition SCHED_UNLOCKED :: u8 where
  "SCHED_UNLOCKED = 0xFF"

definition SchedStatus_from_raw :: "u8 \<Rightarrow> SchedStatus" where
  "SchedStatus_from_raw raw = (if raw = SCHED_UNLOCKED then Unlocked else Locked raw)"

definition SchedStatus_to_raw :: "SchedStatus \<Rightarrow> u8" where
  "SchedStatus_to_raw s = (case s of Locked v \<Rightarrow> v | Unlocked \<Rightarrow> SCHED_UNLOCKED)"

definition SchedStatus_is_locked :: "SchedStatus \<Rightarrow> bool" where
  "SchedStatus_is_locked s = (case s of Locked _ \<Rightarrow> True | Unlocked \<Rightarrow> False)"

section \<open>Single-core scheduler\<close>

definition SCHED_LOCK :: u8 where "SCHED_LOCK = 50"
definition SCHED_UNLOCK :: u8 where "SCHED_UNLOCK = 51"
definition SCHED_NEXT :: u8 where "SCHED_NEXT = 52"
definition SCHED_IDLE :: u8 where "SCHED_IDLE = 53"

record ScheduleDecision =
  next_prio :: u8
  previous_prio :: u8

record QkScheduler =
  sc_lock_ceiling :: u8
  sc_active_prio :: u8
  sc_active_threshold :: u8
  sc_next_prio :: u8
  sc_ready :: ready_set
  sc_trace :: trace
  sc_context_sw :: "(u8 \<times> u8) list option"

definition QkScheduler_new :: "trace \<Rightarrow> QkScheduler" where
  "QkScheduler_new t =
     \<lparr>sc_lock_ceiling = 0, sc_active_prio = 0, sc_active_threshold = 0, sc_next_prio = 0,
      sc_ready = 0, sc_trace = t, sc_context_sw = None\<rparr>"

definition QkScheduler_set_context_switch_hook ::
    "(u8 \<times> u8) list option \<Rightarrow> QkScheduler \<Rightarrow> QkScheduler" where
  "QkScheduler_set_context_switch_hook hook s = s\<lparr>sc_context_sw := hook\<rparr>"

definition QkScheduler_emit_record :: "u8 \<Rightarrow> u8 list \<Rightarrow> QkScheduler \<Rightarrow> QkScheduler" where
  "QkScheduler_emit_record r p s = s\<lparr>sc_trace := emit r p True (sc_trace s)\<rparr>"

definition QkScheduler_emit_context_sw :: "u8 \<Rightarrow> u8 \<Rightarrow> QkScheduler \<Rightarrow> QkScheduler" where
  "QkScheduler_emit_context_sw prev nxt s =
     s\<lparr>sc_context_sw := map_option (\<lambda>l. l @ [(prev, nxt)]) (sc_context_sw s)\<rparr>"

definition QkScheduler_lock :: "u8 \<Rightarrow> QkScheduler \<Rightarrow> SchedStatus \<times> QkScheduler" where
  "QkScheduler_lock ceiling s =
     (if ceiling > sc_lock_ceiling s
      then (Locked (sc_lock_ceiling s),
            QkScheduler_emit_record SCHED_LOCK [sc_lock_ceiling s, ceiling]
              (s\<lparr>sc_lock_ceiling := ceiling\<rparr>))
      else (Unlocked, s))"

definition QkScheduler_unlock :: "SchedStatus \<Rightarrow> QkScheduler \<Rightarrow> QkScheduler" where
  "QkScheduler_unlock prev s =
     (case prev of
        Locked v \<Rightarrow>
          (if sc_lock_ceiling s > v
           then QkScheduler_emit_record SCHED_UNLOCK [sc_lock_ceiling s, v] (s\<lparr>sc_lock_ceiling := v\<rparr>)
           else s)
      | Unlocked \<Rightarrow> s)"

definition QkScheduler_mark_ready :: "u8 \<Rightarrow> QkScheduler \<Rightarrow> QkScheduler result" where
  "QkScheduler_mark_ready p s =
     rbind (ReadySet_insert p (sc_ready s)) (\<lambda>r. Inr (s\<lparr>sc_ready := r\<rparr>))"

definition QkScheduler_mark_not_ready :: "u8 \<Rightarrow> QkScheduler \<Rightarrow> QkScheduler result" where
  "QkScheduler_mark_not_ready p s =
     rbind (ReadySet_remove p (sc_ready s)) (\<lambda>r. Inr (s\<lparr>sc_ready := r\<rparr>))"

definition QkScheduler_is_ready :: "u8 \<Rightarrow> QkScheduler \<Rightarrow> bool result" where
  "QkScheduler_is_ready p s = ReadySet_contains p (sc_ready s)"

definition QkScheduler_reset_ready :: "QkScheduler \<Rightarrow> QkScheduler" where
  "QkScheduler_reset_ready s = s\<lparr>sc_ready := ReadySet_clear (sc_ready s)\<rparr>"

definition QkScheduler_configure_active :: "u8 \<Rightarrow> u8 \<Rightarrow> QkScheduler \<Rightarrow> QkScheduler" where
  "QkScheduler_configure_active p th s = s\<lparr>sc_active_prio := p, sc_active_threshold := th\<rparr>"

text \<open>The shared body of \<open>plan_activation\<close> and \<open>next_after_dispatch\<close>.\<close>

definition plan_above :: "u8 \<Rightarrow> QkScheduler \<Rightarrow> ScheduleDecision option \<times> QkScheduler" where
  "plan_above th s =
     (case ReadySet_max (sc_ready s) of
        Some p \<Rightarrow>
          (if p > th \<and> p > sc_lock_ceiling s
           then (Some \<lparr>next_prio = p, previous_prio = sc_active_prio s\<rparr>, s\<lparr>sc_next_prio := p\<rparr>)
           else (None, s\<lparr>sc_next_prio := 0\<rparr>))
      | None \<Rightarrow> (None, s\<lparr>sc_next_prio := 0\<rparr>))"

definition QkScheduler_plan_activation :: "QkScheduler \<Rightarrow> ScheduleDecision option \<times> QkScheduler" where
  "QkScheduler_plan_activation s = plan_above (sc_active_threshold s) s"

definition QkScheduler_next_after_dispatch ::
    "u8 \<Rightarrow> QkScheduler \<Rightarrow> ScheduleDecision option \<times> QkScheduler" where
  "QkScheduler_next_after_dispatch th s = plan_above th s"

definition QkScheduler_has_ready_to_run :: "QkScheduler \<Rightarrow> bool" where
  "QkScheduler_has_ready_to_run s =
     (case ReadySet_max (sc_ready s) of
        Some p \<Rightarrow> p > sc_active_threshold s \<and> p > sc_lock_ceiling s
      | None \<Rightarrow> False)"

definition QkScheduler_commit_activation ::
    "ScheduleDecision \<Rightarrow> u8 \<Rightarrow> QkScheduler \<Rightarrow> QkScheduler result" where
  "QkScheduler_commit_activation d th s =
     rbind (ensure Panic (sc_next_prio s = next_prio d)) (\<lambda>_.
       let previous = sc_active_prio s;
           s' = s\<lparr>sc_active_prio := next_prio d, sc_active_threshold := th, sc_next_prio := 0\<rparr>
       in Inr (if next_prio d \<noteq> previous
               then QkScheduler_emit_context_sw previous (next_prio d)
                      (QkScheduler_emit_record SCHED_NEXT [next_prio d, previous] s')
               else s'))"

definition QkScheduler_restore_active :: "u8 \<Rightarrow> u8 \<Rightarrow> QkScheduler \<Rightarrow> QkScheduler" where
  "QkScheduler_restore_active p th s =
     (let previous = sc_active_prio s;
          s' = s\<lparr>sc_active_prio := p, sc_active_threshold := th, sc_next_prio := 0\<rparr>
      in if p = 0
         then (if previous \<noteq> 0
               then QkScheduler_emit_context_sw previous 0
                      (QkScheduler_emit_record SCHED_IDLE [previous] s')
               else s')
         else if p \<noteq> previous
         then QkScheduler_emit_context_sw previous p
                (QkScheduler_emit_record SCHED_NEXT [p, previous] s')
         else s')"

definition QkScheduler_preemption_candidate :: "QkScheduler \<Rightarrow> u8 option \<times> QkScheduler" where
  "QkScheduler_preemption_candidate s =
     (let (d, s') = QkScheduler_plan_activation s in (map_option next_prio d, s'))"

section \<open>Multi-core scheduler\<close>

record CoreState =
  core_active_prio :: u8
  core_active_threshold :: u8
  core_next_prio :: u8

record SmpState =
  smp_lock_ceiling :: u8
  smp_cores :: "CoreState list"
  smp_ready :: ready_set
  smp_executing :: "u8 list"

definition CoreState_default :: CoreState where
  "CoreState_default = \<lparr>core_active_prio = 0, core_active_threshold = 0, core_next_prio = 0\<rparr>"

definition SmpState_default :: SmpState where
  "SmpState_default =
     \<lparr>smp_lock_ceiling = 0, smp_cores = replicate 8 CoreState_default, smp_ready = 0,
      smp_executing = replicate 64 0xFF\<rparr>"

definition smp_set_core :: "nat \<Rightarrow> (CoreState \<Rightarrow> CoreState) \<Rightarrow> SmpState \<Rightarrow> SmpState" where
  "smp_set_core c f s = s\<lparr>smp_cores := (smp_cores s)[c := f (smp_cores s ! c)]\<rparr>"

definition smp_mark_executing :: "u8 \<Rightarrow> u8 \<Rightarrow> SmpState \<Rightarrow> SmpState" where
  "smp_mark_executing p v s =
     (if p > 0 \<and> unat p < 64 then s\<lparr>smp_executing := (smp_executing s)[unat p := v]\<rparr> else s)"

definition smp_configure_active :: "nat \<Rightarrow> u8 \<Rightarrow> u8 \<Rightarrow> SmpState \<Rightarrow> SmpState" where
  "smp_configure_active c p th s =
     smp_mark_executing p (of_nat c)
       (smp_set_core c (\<lambda>k. k\<lparr>core_active_prio := p, core_active_threshold := th\<rparr>) s)"

definition smp_already_running :: "nat \<Rightarrow> u8 \<Rightarrow> SmpState \<Rightarrow> bool" where
  "smp_already_running c p s \<longleftrightarrow>
     list_ex (\<lambda>c'. c' \<noteq> c \<and>
       (core_active_prio (smp_cores s ! c') = p \<or> core_next_prio (smp_cores s ! c') = p)) [0..<8] \<or>
     smp_executing s ! unat p \<noteq> 0xFF"

text \<open>The scan \<open>(1..64).rev()\<close>; every priority scanned is in the range of the ready set.\<close>

definition smp_eligible :: "nat \<Rightarrow> u8 \<Rightarrow> SmpState \<Rightarrow> u8 \<Rightarrow> bool" where
  "smp_eligible c th s p \<longleftrightarrow>
     and (smp_ready s) (u64_bit p) \<noteq> 0 \<and> p > th \<and> p > smp_lock_ceiling s \<and>
     \<not> smp_already_running c p s"

definition smp_scan :: "nat \<Rightarrow> u8 \<Rightarrow> SmpState \<Rightarrow> u8 option" where
  "smp_scan c th s = find (smp_eligible c th s) (map of_nat (rev [1..<64]))"

definition smp_plan_above :: "nat \<Rightarrow> u8 \<Rightarrow> SmpState \<Rightarrow> ScheduleDecision option \<times> SmpState" where
  "smp_plan_above c th s =
     (case smp_scan c th s of
        Some p \<Rightarrow> (Some \<lparr>next_prio = p, previous_prio = core_active_prio (smp_cores s ! c)\<rparr>,
                   smp_set_core c (\<lambda>k. k\<lparr>core_next_prio := p\<rparr>) s)
      | None \<Rightarrow> (None, smp_set_core c (\<lambda>k. k\<lparr>core_next_prio := 0\<rparr>) s))"

definition smp_plan_activation :: "nat \<Rightarrow> SmpState \<Rightarrow> ScheduleDecision option \<times> SmpState" where
  "smp_plan_activation c s = smp_plan_above c (core_active_threshold (smp_cores s ! c)) s"

definition smp_has_ready_to_run :: "nat \<Rightarrow> SmpState \<Rightarrow> bool" where
  "smp_has_ready_to_run c s \<longleftrightarrow> smp_scan c (core_active_threshold (smp_cores s ! c)) s \<noteq> None"

definition smp_next_after_dispatch ::
    "nat \<Rightarrow> u8 \<Rightarrow> SmpState \<Rightarrow> ScheduleDecision option \<times> SmpState" where
  "smp_next_after_dispatch c th s = smp_plan_above c th s"

definition smp_commit_activation ::
    "nat \<Rightarrow> ScheduleDecision \<Rightarrow> u8 \<Rightarrow> SmpState \<Rightarrow> SmpState result" where
  "smp_commit_activation c d th s =
     rbind (ensure Panic (core_next_prio (smp_cores s ! c) = next_prio d)) (\<lambda>_.
       Inr (smp_mark_executing (next_prio d) (of_nat c)
         (smp_set_core c (\<lambda>k. k\<lparr>core_active_prio := next_prio d, core_active_threshold := th,
            core_next_prio := 0\<rparr>) s)))"

definition smp_restore_active :: "nat \<Rightarrow> u8 \<Rightarrow> u8 \<Rightarrow> SmpState \<Rightarrow> SmpState" where
  "smp_restore_active c p th s =
     smp_set_core c (\<lambda>k. k\<lparr>core_active_prio := p, core_active_threshold := th, core_next_prio := 0\<rparr>) s"

definition smp_complete_execution :: "u8 \<Rightarrow> SmpState \<Rightarrow> SmpState" where
  "smp_complete_execution p s = smp_mark_executing p 0xFF s"

text \<open>
  The multi-core system: each core keeps the stack of priorities whose handlers it is
  executing, innermost first. \<open>plan\<close> stands for \<open>plan_activation\<close> and
  \<open>next_after_dispatch\<close> under any threshold, \<open>commit\<close> starts the planned handler,
  \<open>finish\<close> ends the innermost one.
\<close>

type_synonym smp_system = "SmpState \<times> (nat \<Rightarrow> u8 list)"

inductive smp_step :: "smp_system \<Rightarrow> smp_system \<Rightarrow> bool" where
  plan: "c < 8 \<Longrightarrow> smp_plan_above c th s = (d, s') \<Longrightarrow> smp_step (s, st) (s', st)"
| commit: "c < 8 \<Longrightarrow> next_prio d \<noteq> 0 \<Longrightarrow> smp_commit_activation c d th s = Inr s' \<Longrightarrow>
    smp_step (s, st) (s', st(c := next_prio d # st c))"
| finish: "c < 8 \<Longrightarrow> st c = p # ps \<Longrightarrow> smp_complete_execution p s = s' \<Longrightarrow>
    smp_step (s, st) (s', st(c := ps))"
| restore: "c < 8 \<Longrightarrow> smp_restore_active c p th s = s' \<Longrightarrow> smp_step (s, st) (s', st)"
| ready: "smp_step (s, st) (s\<lparr>smp_ready := r, smp_lock_ceiling := l\<rparr>, st)"

definition smp_init :: smp_system where
  "smp_init = (SmpState_default, \<lambda>_. [])"

text \<open>A reachable state for the witness: core 2 executes priority 5.\<close>

definition smp_demo_ready :: SmpState where
  "smp_demo_ready = SmpState_default\<lparr>smp_ready := u64_bit 5, smp_lock_ceiling := 0\<rparr>"

definition smp_demo_planned :: SmpState where
  "smp_demo_planned = snd (smp_plan_above 2 0 smp_demo_ready)"

definition smp_demo_running :: SmpState where
  "smp_demo_running =
     projr (smp_commit_activation 2 \<lparr>next_prio = 5, previous_prio = 0\<rparr> 5 smp_demo_planned)"

section \<open>Lemmas\<close>

lemma QkScheduler_emit_simps [simp]:
  "sc_lock_ceiling (QkScheduler_emit_record r p s) = sc_lock_ceiling s"
  "sc_active_prio (QkScheduler_emit_record r p s) = sc_active_prio s"
  "sc_active_threshold (QkScheduler_emit_record r p s) = sc_active_threshold s"
  "sc_next_prio (QkScheduler_emit_record r p s) = sc_next_prio s"
  "sc_ready (QkScheduler_emit_record r p s) = sc_ready s"
  "sc_lock_ceiling (QkScheduler_emit_context_sw a b s) = sc_lock_ceiling s"
  "sc_active_prio (QkScheduler_emit_context_sw a b s) = sc_active_prio s"
  "sc_active_threshold (QkScheduler_emit_context_sw a b s) = sc_active_threshold s"
  "sc_next_prio (QkScheduler_emit_context_sw a b s) = sc_next_prio s"
  "sc_ready (QkScheduler_emit_context_sw a b s) = sc_ready s"
  by (simp_all add: QkScheduler_emit_record_def QkScheduler_emit_context_sw_def)

lemma plan_above_simps [simp]:
  "sc_ready (snd (plan_above th s)) = sc_ready s"
  "sc_lock_ceiling (snd (plan_above th s)) = sc_lock_ceiling s"
  "sc_active_prio (snd (plan_above th s)) = sc_active_prio s"
  "sc_active_threshold (snd (plan_above th s)) = sc_active_threshold s"
  by (auto simp: plan_above_def split: option.splits)

lemma plan_above_Some:
  assumes "plan_above th s = (Some d, s')"
  shows "next_prio d \<in> prios (sc_ready s)" "th < next_prio d" "sc_lock_ceiling s < next_prio d"
    "previous_prio d = sc_active_prio s" "s' = s\<lparr>sc_next_prio := next_prio d\<rparr>"
    "\<And>q. q \<in> prios (sc_ready s) \<Longrightarrow> q \<le> next_prio d"
  using assms ReadySet_max_in ReadySet_max_ge
  by (auto simp: plan_above_def split: option.splits if_splits)

lemma plan_above_None:
  assumes "plan_above th s = (None, s')"
  shows "s' = s\<lparr>sc_next_prio := 0\<rparr>"
    and "q \<in> prios (sc_ready s) \<Longrightarrow> q \<le> th \<or> q \<le> sc_lock_ceiling s"
proof -
  show "s' = s\<lparr>sc_next_prio := 0\<rparr>"
    using assms by (auto simp: plan_above_def split: option.splits if_splits)
  assume q: "q \<in> prios (sc_ready s)"
  then obtain m where m: "ReadySet_max (sc_ready s) = Some m"
    using ReadySet_max_None [of "sc_ready s"] by (cases "ReadySet_max (sc_ready s)") auto
  with assms have "m \<le> th \<or> m \<le> sc_lock_ceiling s"
    by (auto simp: plan_above_def not_less split: if_splits)
  with ReadySet_max_ge [OF m q] show "q \<le> th \<or> q \<le> sc_lock_ceiling s" by auto
qed

text \<open>Lock and unlock calls, nested as brackets, as a client issues them.\<close>

lemma lock_unlock_ceiling:
  "QkScheduler_lock c s = (st, s') \<Longrightarrow> sc_lock_ceiling s'' = sc_lock_ceiling s' \<Longrightarrow>
   sc_lock_ceiling (QkScheduler_unlock st s'') = sc_lock_ceiling s"
  by (auto simp: QkScheduler_lock_def QkScheduler_unlock_def split: if_splits SchedStatus.splits)

lemma lock_raises: "QkScheduler_lock c s = (st, s') \<Longrightarrow> sc_lock_ceiling s' = max c (sc_lock_ceiling s)"
  by (auto simp: QkScheduler_lock_def max_def split: if_splits)

section \<open>Multi-core invariant\<close>

definition smp_inv :: "smp_system \<Rightarrow> bool" where
  "smp_inv sys \<longleftrightarrow> (case sys of (s, st) \<Rightarrow>
     length (smp_cores s) = 8 \<and> length (smp_executing s) = 64 \<and>
     (\<forall>c<8. distinct (st c) \<and>
        (\<forall>p\<in>set (st c). 0 < p \<and> p < 64 \<and> smp_executing s ! unat p = of_nat c)) \<and>
     (\<forall>c<8. let p = core_next_prio (smp_cores s ! c) in p \<noteq> 0 \<longrightarrow>
        p < 64 \<and> smp_executing s ! unat p = 0xFF \<and>
        (\<forall>c'<8. c' \<noteq> c \<longrightarrow> core_next_prio (smp_cores s ! c') \<noteq> p)))"

lemma of_nat_core_inj: "a < 8 \<Longrightarrow> b < 8 \<Longrightarrow> (of_nat a :: u8) = of_nat b \<longleftrightarrow> a = b"
  by (auto simp: word_unat_eq_iff unat_of_nat)

lemma of_nat_core_ne: "a < 8 \<Longrightarrow> (of_nat a :: u8) \<noteq> 0xFF"
  by (auto simp: word_unat_eq_iff unat_of_nat)

lemma smp_scan_Some:
  assumes "smp_scan c th s = Some p"
  shows "smp_eligible c th s p" "0 < p" "p < 64"
proof -
  from find_SomeD [OF assms [unfolded smp_scan_def]] obtain i where
    "1 \<le> i" "i < 64" "p = of_nat i" "smp_eligible c th s p"
    by auto
  then show "smp_eligible c th s p" "0 < p" "p < 64"
    by (auto simp: word_less_nat_alt unat_of_nat)
qed

lemma smp_set_core_simps [simp]:
  "smp_executing (smp_set_core c f s) = smp_executing s"
  "length (smp_cores (smp_set_core c f s)) = length (smp_cores s)"
  "c < length (smp_cores s) \<Longrightarrow> smp_cores (smp_set_core c f s) ! c = f (smp_cores s ! c)"
  "c' \<noteq> c \<Longrightarrow> smp_cores (smp_set_core c f s) ! c' = smp_cores s ! c'"
  by (simp_all add: smp_set_core_def)

lemma smp_mark_executing_simps [simp]:
  "smp_cores (smp_mark_executing p v s) = smp_cores s"
  "length (smp_executing (smp_mark_executing p v s)) = length (smp_executing s)"
  by (simp_all add: smp_mark_executing_def)

lemma smp_mark_executing_nth:
  "0 < p \<Longrightarrow> p < 64 \<Longrightarrow> length (smp_executing s) = 64 \<Longrightarrow> q < 64 \<Longrightarrow>
   smp_executing (smp_mark_executing p v s) ! unat q = (if q = p then v else smp_executing s ! unat q)"
  by (auto simp: smp_mark_executing_def u8_lt_64_iff unat_eq_iff nth_list_update)

lemma smp_inv_init: "smp_inv smp_init"
  by (auto simp: smp_inv_def smp_init_def SmpState_default_def CoreState_default_def Let_def)

lemma smp_inv_plan:
  assumes "smp_inv (s, st)" "c < 8" "smp_plan_above c th s = (d, s')"
  shows "smp_inv (s', st)"
proof (cases "smp_scan c th s")
  case None
  with assms have s': "s' = smp_set_core c (\<lambda>k. k\<lparr>core_next_prio := 0\<rparr>) s"
    by (simp add: smp_plan_above_def)
  have n: "core_next_prio (smp_cores s' ! c') = (if c' = c then 0 else core_next_prio (smp_cores s ! c'))" for c'
    using assms(1,2) by (simp add: s' smp_inv_def)
  from assms(1) show ?thesis by (auto simp: smp_inv_def n Let_def) (simp_all add: s')
next
  case (Some p)
  with assms have s': "s' = smp_set_core c (\<lambda>k. k\<lparr>core_next_prio := p\<rparr>) s"
    by (simp add: smp_plan_above_def)
  have n: "core_next_prio (smp_cores s' ! c') = (if c' = c then p else core_next_prio (smp_cores s ! c'))" for c'
    using assms(1,2) by (simp add: s' smp_inv_def)
  have e: "smp_executing s' = smp_executing s" "length (smp_cores s') = length (smp_cores s)"
    by (simp_all add: s')
  note p = smp_scan_Some [OF Some]
  then have free: "smp_executing s ! unat p = 0xFF"
    "\<And>c'. c' < 8 \<Longrightarrow> c' \<noteq> c \<Longrightarrow> core_next_prio (smp_cores s ! c') \<noteq> p"
    by (auto simp: smp_eligible_def smp_already_running_def list_ex_iff)
  from assms(1) p free show ?thesis by (auto simp: smp_inv_def n e Let_def)
qed

lemma smp_inv_commit:
  assumes "smp_inv (s, st)" "c < 8" "next_prio d \<noteq> 0" "smp_commit_activation c d th s = Inr s'"
  shows "smp_inv (s', st(c := next_prio d # st c))"
proof -
  let ?p = "next_prio d"
  from assms(4) have np: "core_next_prio (smp_cores s ! c) = ?p"
    and s': "s' = smp_mark_executing ?p (of_nat c) (smp_set_core c
      (\<lambda>k. k\<lparr>core_active_prio := ?p, core_active_threshold := th, core_next_prio := 0\<rparr>) s)"
    by (auto simp: smp_commit_activation_def res_simps)
  have len: "length (smp_cores s) = 8" "length (smp_executing s) = 64"
    using assms(1) by (simp_all add: smp_inv_def)
  have p: "0 < ?p" "?p < 64" "smp_executing s ! unat ?p = 0xFF"
    "\<And>c'. c' < 8 \<Longrightarrow> c' \<noteq> c \<Longrightarrow> core_next_prio (smp_cores s ! c') \<noteq> ?p"
    using assms(1-3) np by (auto simp: smp_inv_def Let_def word_gt_0)
  have n: "core_next_prio (smp_cores s' ! c') = (if c' = c then 0 else core_next_prio (smp_cores s ! c'))" for c'
    using assms(2) len by (simp add: s')
  have e: "smp_executing s' ! unat q = (if q = ?p then of_nat c else smp_executing s ! unat q)" if "q < 64" for q
    using that p len by (simp add: s' smp_mark_executing_nth)
  have fresh: "?p \<notin> set (st c')" if "c' < 8" for c'
    using assms(1) that p(3) of_nat_core_ne [OF that] by (auto simp: smp_inv_def)
  have l': "length (smp_cores s') = 8" "length (smp_executing s') = 64"
    using len by (simp_all add: s')
  show ?thesis
    using assms(1,2) l' p fresh by (auto simp: smp_inv_def n e Let_def)
qed

lemma smp_inv_finish:
  assumes "smp_inv (s, st)" "c < 8" "st c = p # ps"
  shows "smp_inv (smp_complete_execution p s, st(c := ps))"
proof -
  let ?s' = "smp_complete_execution p s"
  have len: "length (smp_cores s) = 8" "length (smp_executing s) = 64"
    using assms(1) by (simp_all add: smp_inv_def)
  have p: "0 < p" "p < 64" "smp_executing s ! unat p = of_nat c" "p \<notin> set ps" "distinct ps"
    using assms by (auto simp: smp_inv_def)
  have e: "smp_executing ?s' ! unat q = (if q = p then 0xFF else smp_executing s ! unat q)" if "q < 64" for q
    using that p len by (simp add: smp_complete_execution_def smp_mark_executing_nth)
  have other: "p \<notin> set (st c')" if "c' < 8" "c' \<noteq> c" for c'
    using assms(1,2) that p(3) of_nat_core_inj [of c' c] by (auto simp: smp_inv_def)
  have k: "smp_cores ?s' = smp_cores s" "length (smp_executing ?s') = 64"
    using len by (simp_all add: smp_complete_execution_def)
  have "\<forall>q\<in>set ps. 0 < q \<and> q < 64 \<and> smp_executing s ! unat q = of_nat c"
    using assms by (auto simp: smp_inv_def)
  then show ?thesis
    using assms(1) len k p other by (auto simp: smp_inv_def e Let_def)
qed

lemma smp_inv_restore:
  assumes "smp_inv (s, st)" "c < 8"
  shows "smp_inv (smp_restore_active c p th s, st)"
proof -
  let ?s' = "smp_restore_active c p th s"
  have n: "core_next_prio (smp_cores ?s' ! c') = (if c' = c then 0 else core_next_prio (smp_cores s ! c'))" for c'
    using assms by (simp add: smp_restore_active_def smp_inv_def)
  have "smp_executing ?s' = smp_executing s" "length (smp_cores ?s') = length (smp_cores s)"
    by (simp_all add: smp_restore_active_def)
  with assms(1) show ?thesis by (auto simp: smp_inv_def n Let_def)
qed

lemma smp_step_inv: "smp_step x y \<Longrightarrow> smp_inv x \<Longrightarrow> smp_inv y"
proof (induction rule: smp_step.induct)
  case (ready s st r l)
  then show ?case by (simp add: smp_inv_def)
qed (auto intro: smp_inv_plan smp_inv_commit smp_inv_finish smp_inv_restore)

lemma smp_inv_executing:
  "smp_inv (s, st) \<Longrightarrow> c < 8 \<Longrightarrow> p \<in> set (st c) \<Longrightarrow> smp_executing s ! unat p = of_nat c"
  by (simp add: smp_inv_def)

lemma smp_reach_inv: "smp_step\<^sup>*\<^sup>* smp_init x \<Longrightarrow> smp_inv x"
  by (induction rule: rtranclp_induct) (auto simp: smp_inv_init intro: smp_step_inv)

section \<open>Properties\<close>

text \<open>
  (preemption rule) \<open>plan_activation\<close> proposes a priority exactly when some ready priority is
  above both the preemption threshold of the running object and the lock ceiling, and then
  proposes the greatest ready one; it never disturbs the ready set, the ceiling or the active
  object, and \<open>has_ready_to_run\<close> answers the same question.
\<close>

theorem QkScheduler_plan_activation_spec:
  "case QkScheduler_plan_activation s of (d, s') \<Rightarrow>
     (d = None \<longleftrightarrow> \<not> (\<exists>p\<in>prios (sc_ready s). sc_active_threshold s < p \<and> sc_lock_ceiling s < p)) \<and>
     (case d of None \<Rightarrow> True | Some x \<Rightarrow>
        next_prio x = Max (prios (sc_ready s)) \<and> previous_prio x = sc_active_prio s \<and>
        sc_active_threshold s < next_prio x \<and> sc_lock_ceiling s < next_prio x) \<and>
     QkScheduler_has_ready_to_run s = (d \<noteq> None) \<and>
     s' = s\<lparr>sc_next_prio := (case d of None \<Rightarrow> 0 | Some x \<Rightarrow> next_prio x)\<rparr>"
proof -
  obtain d s' where e: "plan_above (sc_active_threshold s) s = (d, s')" by fastforce
  have h: "QkScheduler_has_ready_to_run s = (d \<noteq> None)"
    using e by (auto simp: plan_above_def QkScheduler_has_ready_to_run_def split: option.splits if_splits)
  show ?thesis
  proof (cases d)
    case None
    note N = plan_above_None [OF e [unfolded None]]
    have "\<not> (\<exists>p\<in>prios (sc_ready s). sc_active_threshold s < p \<and> sc_lock_ceiling s < p)"
      using N(2) leD by blast
    with None N(1) e h show ?thesis by (simp add: QkScheduler_plan_activation_def)
  next
    case (Some x)
    note S = plan_above_Some [OF e [unfolded Some]]
    from S(1,6) have "Max (prios (sc_ready s)) = next_prio x" by (intro Max_eqI) auto
    with Some S(1-5) e h show ?thesis by (auto simp: QkScheduler_plan_activation_def)
  qed
qed

text \<open>
  (lock bracketing) Unlocking with the status that \<open>lock\<close> returned restores the ceiling that
  was in force before the lock, whatever balanced work happened in between; while locked the
  ceiling is the maximum of the requested and the previous one.
\<close>

theorem QkScheduler_lock_unlock:
  assumes "QkScheduler_lock c s = (st, s1)" "sc_lock_ceiling s2 = sc_lock_ceiling s1"
  shows "sc_lock_ceiling s1 = max c (sc_lock_ceiling s) \<and>
    sc_lock_ceiling (QkScheduler_unlock st s2) = sc_lock_ceiling s"
  using lock_raises [OF assms(1)] lock_unlock_ceiling [OF assms] by simp

theorem QkScheduler_lock_unlock_witness:
  "let s = QkScheduler_new (Some []); (st, s1) = QkScheduler_lock 7 s
   in sc_lock_ceiling s1 = 7 \<and> sc_lock_ceiling (QkScheduler_unlock st s1) = 0"
  using QkScheduler_lock_unlock
    [of 7 "QkScheduler_new (Some [])" "fst (QkScheduler_lock 7 (QkScheduler_new (Some [])))"
      "snd (QkScheduler_lock 7 (QkScheduler_new (Some [])))"
      "snd (QkScheduler_lock 7 (QkScheduler_new (Some [])))"]
  by (simp add: QkScheduler_new_def split_def Let_def)

text \<open>
  C6: (multi-core exclusion) In every state the multi-core scheduler can reach, under any
  interleaving of planning, committing, finishing and restoring on the eight cores, no priority
  is being executed twice: not on two cores, and not twice in the preemption stack of one.
\<close>

theorem smp_no_double_execution:
  assumes "smp_step\<^sup>*\<^sup>* smp_init (s, st)" "c < 8" "c' < 8"
  shows "distinct (st c) \<and> (c \<noteq> c' \<longrightarrow> set (st c) \<inter> set (st c') = {})"
proof -
  have i: "smp_inv (s, st)" using smp_reach_inv [OF assms(1)] .
  have "c = c'" if "p \<in> set (st c)" "p \<in> set (st c')" for p
  proof -
    from smp_inv_executing [OF i assms(2) that(1)] smp_inv_executing [OF i assms(3) that(2)]
    show ?thesis using assms(2,3) of_nat_core_inj by metis
  qed
  with i assms(2) show ?thesis by (auto simp: smp_inv_def)
qed

lemma smp_demo_scan: "smp_scan 2 0 smp_demo_ready = Some 5"
  by code_simp

lemma smp_demo_cores: "length (smp_cores smp_demo_ready) = 8"
  by (simp add: smp_demo_ready_def SmpState_default_def)

lemma smp_demo_commit:
  "smp_commit_activation 2 \<lparr>next_prio = 5, previous_prio = 0\<rparr> 5 smp_demo_planned = Inr smp_demo_running"
  by (simp add: smp_demo_running_def smp_demo_planned_def smp_commit_activation_def smp_plan_above_def
      smp_demo_scan smp_demo_cores ensure_def)

lemma smp_demo_reach: "smp_step\<^sup>*\<^sup>* smp_init (smp_demo_running, (\<lambda>_. [])(2 := [5]))"
proof -
  have 1: "smp_step smp_init (smp_demo_ready, \<lambda>_. [])"
    unfolding smp_init_def smp_demo_ready_def by (rule smp_step.ready)
  have 2: "smp_step (smp_demo_ready, \<lambda>_. []) (smp_demo_planned, \<lambda>_. [])"
    unfolding smp_demo_planned_def by (rule smp_step.plan [of 2 0, OF _ prod.collapse [symmetric]]) simp
  have 3: "smp_step (smp_demo_planned, \<lambda>_. []) (smp_demo_running, (\<lambda>_. [])(2 := [5]))"
    using smp_step.commit [OF _ _ smp_demo_commit, where st = "\<lambda>_. []"] by simp
  from 1 2 3 show ?thesis by (meson converse_rtranclp_into_rtranclp rtranclp.rtrancl_refl)
qed

theorem smp_no_double_execution_witness:
  "smp_step\<^sup>*\<^sup>* smp_init (smp_demo_running, (\<lambda>_. [])(2 := [5])) \<and>
   set (((\<lambda>_. [])(2 := [5 :: u8])) 2) \<inter> set (((\<lambda>_. [])(2 := [5 :: u8])) (3 :: nat)) = {}"
  using smp_no_double_execution [OF smp_demo_reach, of 2 3] smp_demo_reach by simp

end
