(* ===== verification/QkKernel.thy ===== *)
theory QkKernel
  imports Active QkScheduler
begin

text \<open>
  The preemptive kernel (\<open>crates/qk/src/kernel.rs\<close>, single core, default build): the builder
  with its validation, posting and publishing, nested activation, and the run loops. A handler
  may itself drive the scheduler (\<open>post_and_run\<close>, \<open>run_until_idle\<close>, \<open>unlock_scheduler\<close>), which
  nests activations on the same stack; activation carries fuel, and \<open>None\<close> is its exhaustion.
\<close>

section \<open>State and construction\<close>

definition MAX_PRIORITY :: nat where
  "MAX_PRIORITY = 63"

datatype QkKernelError =
    DuplicatePriority u8
  | QkNotFound u8
  | InvalidPriority u8
  | InvalidThreshold u8 u8

datatype 'p qk_call =
    KPost u8 "'p Event"
  | KPostAndRun u8 "'p Event"
  | KPublish signal "'p Event"
  | KPublishAndRun signal "'p Event"
  | KSubscribe signal u8
  | KUnsubscribe signal u8
  | KUnsubscribeAll u8
  | KLock u8
  | KUnlock SchedStatus
  | KDispatchOnce
  | KRunUntilIdle

type_synonym ('p, 'b) QkBehavior = "('p, 'b, 'p qk_call) Behavior"

record ('p, 'b) Registration =
  rg_object :: "('p, 'b) ActiveObject"
  rg_priority :: u8
  rg_threshold :: u8
  rg_id :: u8

record ('p, 'b) ActiveSlot =
  slot_object :: "('p, 'b) ActiveObject"
  slot_threshold :: u8

record ('p, 'b) QkKernelBuilder =
  qb_registrations :: "('p, 'b) Registration list"
  qb_trace :: trace
  qb_context_sw :: "(u8 \<times> u8) list option"
  qb_pubsub :: "PubSubTable option"

record ('p, 'b) QkKernel =
  qk_sched :: QkScheduler
  qk_slots :: "('p, 'b) ActiveSlot option list"
  qk_id_to_prio :: "u8 \<rightharpoonup> u8"
  qk_pubsub :: "PubSubTable option"

definition QkKernelBuilder_new :: "('p, 'b) QkKernelBuilder" where
  "QkKernelBuilder_new =
     \<lparr>qb_registrations = [], qb_trace = None, qb_context_sw = None, qb_pubsub = None\<rparr>"

definition QkKernelBuilder_ps_init :: "u16 \<Rightarrow> ('p, 'b) QkKernelBuilder \<Rightarrow> ('p, 'b) QkKernelBuilder" where
  "QkKernelBuilder_ps_init m b = b\<lparr>qb_pubsub := Some (PubSubTable_new m)\<rparr>"

definition QkKernelBuilder_with_trace_hook :: "('p, 'b) QkKernelBuilder \<Rightarrow> ('p, 'b) QkKernelBuilder" where
  "QkKernelBuilder_with_trace_hook b = b\<lparr>qb_trace := Some []\<rparr>"

definition QkKernelBuilder_with_context_switch_hook ::
    "('p, 'b) QkKernelBuilder \<Rightarrow> ('p, 'b) QkKernelBuilder" where
  "QkKernelBuilder_with_context_switch_hook b = b\<lparr>qb_context_sw := Some []\<rparr>"

definition validate_priority :: "u8 \<Rightarrow> QkKernelError + unit" where
  "validate_priority p =
     (if p = 0 then Inl (InvalidPriority p)
      else if unat p > MAX_PRIORITY then Inl (InvalidPriority p)
      else Inr ())"

definition validate_threshold :: "u8 \<Rightarrow> u8 \<Rightarrow> QkKernelError + unit" where
  "validate_threshold th p =
     (if th < p then Inl (InvalidThreshold th p)
      else if unat th > MAX_PRIORITY then Inl (InvalidPriority th)
      else Inr ())"

definition push_registration ::
    "('p, 'b) ActiveObject \<Rightarrow> u8 \<Rightarrow> u8 \<Rightarrow> ('p, 'b) QkKernelBuilder \<Rightarrow> ('p, 'b) QkKernelBuilder" where
  "push_registration ao p th b = b\<lparr>qb_registrations := qb_registrations b @
     [\<lparr>rg_object = ao, rg_priority = p, rg_threshold = th, rg_id = ao_id ao\<rparr>]\<rparr>"

definition QkKernelBuilder_register ::
    "('p, 'b) ActiveObject \<Rightarrow> ('p, 'b) QkKernelBuilder \<Rightarrow> (QkKernelError + ('p, 'b) QkKernelBuilder) result" where
  "QkKernelBuilder_register ao b =
     rbind (ActiveObject_priority ao) (\<lambda>p.
       Inr (rbind (validate_priority p) (\<lambda>_. Inr (push_registration ao p p b))))"

definition QkKernelBuilder_register_with_threshold ::
    "('p, 'b) ActiveObject \<Rightarrow> u8 \<Rightarrow> ('p, 'b) QkKernelBuilder \<Rightarrow>
     (QkKernelError + ('p, 'b) QkKernelBuilder) result" where
  "QkKernelBuilder_register_with_threshold ao th b =
     rbind (ActiveObject_priority ao) (\<lambda>p.
       Inr (rbind (validate_priority p) (\<lambda>_.
         rbind (validate_threshold th p) (\<lambda>_. Inr (push_registration ao p th b)))))"

definition QkKernelBuilder_register_prio ::
    "('p, 'b) ActiveObject \<Rightarrow> u16 \<Rightarrow> ('p, 'b) QkKernelBuilder \<Rightarrow>
     (QkKernelError + ('p, 'b) QkKernelBuilder) result" where
  "QkKernelBuilder_register_prio ao spec b =
     QkKernelBuilder_register_with_threshold ao (QPrioSpec_threshold spec) b"

fun fill_slots ::
    "('p, 'b) Registration list \<Rightarrow> ('p, 'b) ActiveSlot option list \<Rightarrow> (u8 \<rightharpoonup> u8) \<Rightarrow>
     (QkKernelError + ('p, 'b) ActiveSlot option list \<times> (u8 \<rightharpoonup> u8)) result" where
  "fill_slots [] slots ids = Inr (Inr (slots, ids))"
| "fill_slots (r # rs) slots ids =
     (let p = unat (rg_priority r)
      in if \<not> p < length slots then Inl Panic
         else if slots ! p \<noteq> None then Inr (Inl (DuplicatePriority (rg_priority r)))
         else fill_slots rs
                (slots[p := Some \<lparr>slot_object = rg_object r, slot_threshold = rg_threshold r\<rparr>])
                (ids(rg_id r \<mapsto> rg_priority r)))"

definition QkKernel_new ::
    "('p, 'b) QkKernelBuilder \<Rightarrow> (QkKernelError + ('p, 'b) QkKernel) result" where
  "QkKernel_new b =
     rbind (fill_slots (qb_registrations b) (replicate (MAX_PRIORITY + 1) None) Map.empty) (\<lambda>r.
       Inr (rbind r (\<lambda>(slots, ids).
         Inr \<lparr>qk_sched = QkScheduler_set_context_switch_hook (qb_context_sw b)
                (QkScheduler_configure_active 0 0 (QkScheduler_new (qb_trace b))),
              qk_slots = slots, qk_id_to_prio = ids, qk_pubsub = qb_pubsub b\<rparr>)))"

definition QkKernelBuilder_build ::
    "('p, 'b) QkKernelBuilder \<Rightarrow> (QkKernelError + ('p, 'b) QkKernel) result" where
  "QkKernelBuilder_build b = QkKernel_new b"

section \<open>Posting, publishing, subscribing\<close>

definition qk_emit :: "u8 \<Rightarrow> u8 list \<Rightarrow> bool \<Rightarrow> ('p, 'b) QkKernel \<Rightarrow> ('p, 'b) QkKernel" where
  "qk_emit r p ts k =
     k\<lparr>qk_sched := (qk_sched k)\<lparr>sc_trace := emit r p ts (sc_trace (qk_sched k))\<rparr>\<rparr>"

definition qk_slot :: "u8 \<Rightarrow> ('p, 'b) QkKernel \<Rightarrow> ('p, 'b) ActiveSlot result" where
  "qk_slot p k =
     (if unat p < length (qk_slots k)
      then case qk_slots k ! unat p of None \<Rightarrow> Inl OnError | Some s \<Rightarrow> Inr s
      else Inl Panic)"

definition qk_set_object ::
    "nat \<Rightarrow> ('p, 'b) ActiveObject \<Rightarrow> ('p, 'b) QkKernel \<Rightarrow> ('p, 'b) QkKernel" where
  "qk_set_object i ao k =
     k\<lparr>qk_slots := (qk_slots k)[i := map_option (\<lambda>s. s\<lparr>slot_object := ao\<rparr>) (qk_slots k ! i)]\<rparr>"

text \<open>Queue the event on the object of a slot and mark it ready if its queue was empty.\<close>

definition post_to_slot ::
    "nat \<Rightarrow> ('p, 'b) ActiveSlot \<Rightarrow> 'p Event \<Rightarrow> ('p, 'b) QkKernel \<Rightarrow> ('p, 'b) QkKernel result" where
  "post_to_slot i slot e k =
     (let was_empty = \<not> ActiveObject_has_events (slot_object slot)
      in rbind (ActiveObject_post None e (slot_object slot)) (\<lambda>ao.
           let k' = qk_set_object i ao k
           in if was_empty
              then rbind (QkScheduler_mark_ready (of_nat i) (qk_sched k')) (\<lambda>sc.
                     Inr (k'\<lparr>qk_sched := sc\<rparr>))
              else Inr k'))"

definition QkKernel_post ::
    "u8 \<Rightarrow> 'p Event \<Rightarrow> ('p, 'b) QkKernel \<Rightarrow> ((QkKernelError + unit) \<times> ('p, 'b) QkKernel) result" where
  "QkKernel_post target e k =
     (case qk_id_to_prio k target of
        None \<Rightarrow> Inr (Inl (QkNotFound target), k)
      | Some p \<Rightarrow>
          rbind (qk_slot p k) (\<lambda>slot.
            rbind (post_to_slot (unat p) slot e k) (\<lambda>k'. Inr (Inr (), k'))))"

fun publish_slots ::
    "u64 option \<Rightarrow> 'p Event \<Rightarrow> nat list \<Rightarrow> ('p, 'b) QkKernel \<Rightarrow> ('p, 'b) QkKernel result" where
  "publish_slots subs e [] k = Inr k"
| "publish_slots subs e (i # is) k =
     (case qk_slots k ! i of
        None \<Rightarrow> publish_slots subs e is k
      | Some slot \<Rightarrow>
          if (case subs of None \<Rightarrow> True | Some b \<Rightarrow> and b (push_bit i 1) \<noteq> 0)
          then rbind (post_to_slot i slot e k) (publish_slots subs e is)
          else publish_slots subs e is k)"

definition QkKernel_publish ::
    "signal \<Rightarrow> 'p Event \<Rightarrow> ('p, 'b) QkKernel \<Rightarrow> ('p, 'b) QkKernel result" where
  "QkKernel_publish s e k =
     (case qk_pubsub k of
        Some ps \<Rightarrow>
          let k = qk_emit 26 (le16 s) True k
          in rbind (PubSubTable_subscribers s ps) (\<lambda>subs.
               publish_slots (Some subs) (Event_for_signal s e) [0..<length (qk_slots k)] k)
      | None \<Rightarrow> publish_slots None (Event_for_signal s e) [0..<length (qk_slots k)] k)"

definition QkKernel_subscribe :: "signal \<Rightarrow> u8 \<Rightarrow> ('p, 'b) QkKernel \<Rightarrow> ('p, 'b) QkKernel result" where
  "QkKernel_subscribe s p k =
     (case qk_pubsub k of
        Some ps \<Rightarrow> rbind (PubSubTable_subscribe s p ps) (\<lambda>ps'.
          Inr (qk_emit 12 (p # le16 s) True (k\<lparr>qk_pubsub := Some ps'\<rparr>)))
      | None \<Rightarrow> Inr k)"

definition QkKernel_unsubscribe :: "signal \<Rightarrow> u8 \<Rightarrow> ('p, 'b) QkKernel \<Rightarrow> ('p, 'b) QkKernel result" where
  "QkKernel_unsubscribe s p k =
     (case qk_pubsub k of
        Some ps \<Rightarrow> rbind (PubSubTable_unsubscribe s p ps) (\<lambda>ps'.
          Inr (qk_emit 13 (p # le16 s) True (k\<lparr>qk_pubsub := Some ps'\<rparr>)))
      | None \<Rightarrow> Inr k)"

definition QkKernel_unsubscribe_all :: "u8 \<Rightarrow> ('p, 'b) QkKernel \<Rightarrow> ('p, 'b) QkKernel result" where
  "QkKernel_unsubscribe_all p k =
     (case qk_pubsub k of
        Some ps \<Rightarrow> rbind (PubSubTable_unsubscribe_all p ps) (\<lambda>ps'. Inr (k\<lparr>qk_pubsub := Some ps'\<rparr>))
      | None \<Rightarrow> Inr k)"

definition QkKernel_lock_scheduler ::
    "u8 \<Rightarrow> ('p, 'b) QkKernel \<Rightarrow> SchedStatus \<times> ('p, 'b) QkKernel" where
  "QkKernel_lock_scheduler c k =
     (let (st, sc) = QkScheduler_lock c (qk_sched k) in (st, k\<lparr>qk_sched := sc\<rparr>))"

definition QkKernel_has_pending_work :: "('p, 'b) QkKernel \<Rightarrow> bool" where
  "QkKernel_has_pending_work k = QkScheduler_has_ready_to_run (qk_sched k)"

definition QkKernel_threshold_for :: "u8 \<Rightarrow> ('p, 'b) QkKernel \<Rightarrow> u8 result" where
  "QkKernel_threshold_for p k =
     (if p = 0 then Inr 0 else rbind (qk_slot p k) (\<lambda>slot. Inr (slot_threshold slot)))"

section \<open>Activation\<close>

definition qk_plan :: "('p, 'b) QkKernel \<Rightarrow> ScheduleDecision option \<times> ('p, 'b) QkKernel" where
  "qk_plan k = (let (d, sc) = QkScheduler_plan_activation (qk_sched k) in (d, k\<lparr>qk_sched := sc\<rparr>))"

text \<open>The end of one iteration of the activation loop, after the handler has returned.\<close>

definition qk_after_dispatch ::
    "u8 \<Rightarrow> u8 \<Rightarrow> ('p, 'b) QkKernel \<Rightarrow> (ScheduleDecision option \<times> ('p, 'b) QkKernel) result" where
  "qk_after_dispatch p rt k =
     rbind (qk_slot p k) (\<lambda>slot.
       rbind (if \<not> ActiveObject_has_events (slot_object slot)
              then QkScheduler_mark_not_ready p (qk_sched k) else Inr (qk_sched k)) (\<lambda>sc.
         let (d, sc') = QkScheduler_next_after_dispatch rt sc in Inr (d, k\<lparr>qk_sched := sc'\<rparr>)))"

text \<open>
  Everything a handler can do that runs other objects goes through \<open>activate\<close>; the functions
  up to \<open>QkKernel_activate_loop\<close> take the (shallower) activation as the argument \<open>act\<close>, and
  \<open>QkKernel_activate\<close> ties the knot by recursion on fuel, which bounds both the nesting depth
  and the iterations of each loop.
\<close>

definition dispatch_with ::
    "(ScheduleDecision \<Rightarrow> ('p, 'b) QkKernel \<Rightarrow> ('p, 'b) QkKernel result option) \<Rightarrow>
     ('p, 'b) QkKernel \<Rightarrow> (bool \<times> ('p, 'b) QkKernel) result option" where
  "dispatch_with act k =
     (case qk_plan k of
        (Some d, k') \<Rightarrow> orbind (act d k') (\<lambda>k''. Some (Inr (True, k'')))
      | (None, k') \<Rightarrow> Some (Inr (False, k')))"

primrec run_with ::
    "nat \<Rightarrow> (ScheduleDecision \<Rightarrow> ('p, 'b) QkKernel \<Rightarrow> ('p, 'b) QkKernel result option) \<Rightarrow>
     ('p, 'b) QkKernel \<Rightarrow> ('p, 'b) QkKernel result option" where
  "run_with 0 act k = None"
| "run_with (Suc n) act k =
     orbind (dispatch_with act k) (\<lambda>(ran, k').
       if ran then run_with n act k' else Some (Inr k'))"

definition unlock_with ::
    "(ScheduleDecision \<Rightarrow> ('p, 'b) QkKernel \<Rightarrow> ('p, 'b) QkKernel result option) \<Rightarrow>
     SchedStatus \<Rightarrow> ('p, 'b) QkKernel \<Rightarrow> ('p, 'b) QkKernel result option" where
  "unlock_with act st k =
     (let k' = k\<lparr>qk_sched := QkScheduler_unlock st (qk_sched k)\<rparr>
      in if SchedStatus_is_locked st
         then (case qk_plan k' of
                 (Some d, k'') \<Rightarrow> act d k''
               | (None, k'') \<Rightarrow> Some (Inr k''))
         else Some (Inr k'))"

definition post_and_run_with ::
    "nat \<Rightarrow> (ScheduleDecision \<Rightarrow> ('p, 'b) QkKernel \<Rightarrow> ('p, 'b) QkKernel result option) \<Rightarrow>
     u8 \<Rightarrow> 'p Event \<Rightarrow> ('p, 'b) QkKernel \<Rightarrow> ((QkKernelError + unit) \<times> ('p, 'b) QkKernel) result option" where
  "post_and_run_with n act t e k =
     orbind (Some (QkKernel_post t e k)) (\<lambda>(r, k').
       case r of
         Inl err \<Rightarrow> Some (Inr (Inl err, k'))
       | Inr _ \<Rightarrow> orbind (run_with n act k') (\<lambda>k''. Some (Inr (Inr (), k''))))"

fun effect_with ::
    "nat \<Rightarrow> (ScheduleDecision \<Rightarrow> ('p, 'b) QkKernel \<Rightarrow> ('p, 'b) QkKernel result option) \<Rightarrow>
     'p qk_call effect \<Rightarrow> ('p, 'b) QkKernel \<Rightarrow> ('p, 'b) QkKernel result option" where
  "effect_with n act (Trace r p ts) k = Some (Inr (qk_emit r p ts k))"
| "effect_with n act (Call (KPost t e)) k = Some (rbind (QkKernel_post t e k) (\<lambda>(_, k'). Inr k'))"
| "effect_with n act (Call (KPostAndRun t e)) k =
     orbind (post_and_run_with n act t e k) (\<lambda>(_, k'). Some (Inr k'))"
| "effect_with n act (Call (KPublish s e)) k = Some (QkKernel_publish s e k)"
| "effect_with n act (Call (KPublishAndRun s e)) k =
     orbind (Some (QkKernel_publish s e k)) (run_with n act)"
| "effect_with n act (Call (KSubscribe s p)) k = Some (QkKernel_subscribe s p k)"
| "effect_with n act (Call (KUnsubscribe s p)) k = Some (QkKernel_unsubscribe s p k)"
| "effect_with n act (Call (KUnsubscribeAll p)) k = Some (QkKernel_unsubscribe_all p k)"
| "effect_with n act (Call (KLock c)) k = Some (Inr (snd (QkKernel_lock_scheduler c k)))"
| "effect_with n act (Call (KUnlock st)) k = unlock_with act st k"
| "effect_with n act (Call KDispatchOnce) k =
     orbind (dispatch_with act k) (\<lambda>(_, k'). Some (Inr k'))"
| "effect_with n act (Call KRunUntilIdle) k = run_with n act k"

fun effects_with ::
    "nat \<Rightarrow> (ScheduleDecision \<Rightarrow> ('p, 'b) QkKernel \<Rightarrow> ('p, 'b) QkKernel result option) \<Rightarrow>
     'p qk_call effect list \<Rightarrow> ('p, 'b) QkKernel \<Rightarrow> ('p, 'b) QkKernel result option" where
  "effects_with n act [] k = Some (Inr k)"
| "effects_with n act (c # cs) k = orbind (effect_with n act c k) (effects_with n act cs)"

text \<open>One iteration: commit, dispatch one event with its effects, plan the next.\<close>

definition activate_step ::
    "('p qk_call effect list \<Rightarrow> ('p, 'b) QkKernel \<Rightarrow> ('p, 'b) QkKernel result option) \<Rightarrow>
     ('p, 'b) QkBehavior \<Rightarrow> u8 \<Rightarrow> ScheduleDecision \<Rightarrow> ('p, 'b) QkKernel \<Rightarrow>
     (ScheduleDecision option \<times> ('p, 'b) QkKernel) result option" where
  "activate_step eff bh rt d k =
     orbind (Some (qk_slot (next_prio d) k)) (\<lambda>slot.
       orbind (Some (QkScheduler_commit_activation d (slot_threshold slot) (qk_sched k))) (\<lambda>sc.
         let (processed, ao, cs) = ActiveObject_dispatch_one bh (slot_object slot);
             k1 = qk_set_object (unat (next_prio d)) ao (k\<lparr>qk_sched := sc\<rparr>)
         in orbind (eff cs k1) (\<lambda>k2.
              orbind (Some (ensure Panic processed)) (\<lambda>_.
                Some (qk_after_dispatch (next_prio d) rt k2)))))"

primrec QkKernel_activate_loop ::
    "nat \<Rightarrow> ('p qk_call effect list \<Rightarrow> ('p, 'b) QkKernel \<Rightarrow> ('p, 'b) QkKernel result option) \<Rightarrow>
     ('p, 'b) QkBehavior \<Rightarrow> u8 \<Rightarrow> u8 \<Rightarrow> ScheduleDecision \<Rightarrow> ('p, 'b) QkKernel \<Rightarrow>
     ('p, 'b) QkKernel result option" where
  "QkKernel_activate_loop 0 eff bh rp rt d k = None"
| "QkKernel_activate_loop (Suc n) eff bh rp rt d k =
     orbind (activate_step eff bh rt d k) (\<lambda>(nxt, k').
       case nxt of
         Some d' \<Rightarrow> QkKernel_activate_loop n eff bh rp rt d' k'
       | None \<Rightarrow> Some (Inr (k'\<lparr>qk_sched := QkScheduler_restore_active rp rt (qk_sched k')\<rparr>)))"

primrec QkKernel_activate ::
    "nat \<Rightarrow> ('p, 'b) QkBehavior \<Rightarrow> ScheduleDecision \<Rightarrow> ('p, 'b) QkKernel \<Rightarrow>
     ('p, 'b) QkKernel result option" where
  "QkKernel_activate 0 bh = (\<lambda>d k. None)"
| "QkKernel_activate (Suc n) bh = (\<lambda>d k.
     orbind (Some (QkKernel_threshold_for (previous_prio d) k)) (\<lambda>rt.
       QkKernel_activate_loop n (effects_with n (QkKernel_activate n bh)) bh (previous_prio d) rt d k))"

definition QkKernel_dispatch_once ::
    "nat \<Rightarrow> ('p, 'b) QkBehavior \<Rightarrow> ('p, 'b) QkKernel \<Rightarrow> (bool \<times> ('p, 'b) QkKernel) result option" where
  "QkKernel_dispatch_once n bh k = dispatch_with (QkKernel_activate n bh) k"

definition QkKernel_run_until_idle ::
    "nat \<Rightarrow> ('p, 'b) QkBehavior \<Rightarrow> ('p, 'b) QkKernel \<Rightarrow> ('p, 'b) QkKernel result option" where
  "QkKernel_run_until_idle n bh k = run_with n (QkKernel_activate n bh) k"

definition QkKernel_unlock_scheduler ::
    "nat \<Rightarrow> ('p, 'b) QkBehavior \<Rightarrow> SchedStatus \<Rightarrow> ('p, 'b) QkKernel \<Rightarrow> ('p, 'b) QkKernel result option" where
  "QkKernel_unlock_scheduler n bh st k = unlock_with (QkKernel_activate n bh) st k"

definition QkKernel_post_and_run ::
    "nat \<Rightarrow> ('p, 'b) QkBehavior \<Rightarrow> u8 \<Rightarrow> 'p Event \<Rightarrow> ('p, 'b) QkKernel \<Rightarrow>
     ((QkKernelError + unit) \<times> ('p, 'b) QkKernel) result option" where
  "QkKernel_post_and_run n bh t e k = post_and_run_with n (QkKernel_activate n bh) t e k"

definition QkKernel_publish_and_run ::
    "nat \<Rightarrow> ('p, 'b) QkBehavior \<Rightarrow> signal \<Rightarrow> 'p Event \<Rightarrow> ('p, 'b) QkKernel \<Rightarrow> ('p, 'b) QkKernel result option" where
  "QkKernel_publish_and_run n bh s e k =
     orbind (Some (QkKernel_publish s e k)) (QkKernel_run_until_idle n bh)"

fun QkKernel_start_each ::
    "nat \<Rightarrow> ('p, 'b) QkBehavior \<Rightarrow> nat list \<Rightarrow> ('p, 'b) QkKernel \<Rightarrow> ('p, 'b) QkKernel result option" where
  "QkKernel_start_each n bh [] k = Some (Inr k)"
| "QkKernel_start_each n bh (i # is) k =
     (case qk_slots k ! i of
        None \<Rightarrow> QkKernel_start_each n bh is k
      | Some slot \<Rightarrow>
          let (ao, cs) = ActiveObject_start bh (sc_trace (qk_sched k) \<noteq> None) (slot_object slot)
          in orbind (effects_with n (QkKernel_activate n bh) cs (qk_set_object i ao k)) (\<lambda>k1.
               orbind (Some (qk_slot (of_nat i) k1)) (\<lambda>slot1.
                 if ActiveObject_has_events (slot_object slot1)
                 then orbind (Some (ActiveObject_priority (slot_object slot1))) (\<lambda>p.
                        orbind (Some (QkScheduler_mark_ready p (qk_sched k1))) (\<lambda>sc.
                          QkKernel_start_each n bh is (k1\<lparr>qk_sched := sc\<rparr>)))
                 else QkKernel_start_each n bh is k1)))"

definition QkKernel_start ::
    "nat \<Rightarrow> ('p, 'b) QkBehavior \<Rightarrow> ('p, 'b) QkKernel \<Rightarrow> ('p, 'b) QkKernel result option" where
  "QkKernel_start n bh k = QkKernel_start_each n bh [0..<length (qk_slots k)] k"

section \<open>Interleaved posting\<close>

text \<open>
  \<open>activate\<close> reads \<open>has_events\<close> and then clears the ready bit in two separate critical sections;
  a post of another thread or interrupt can fall in between. \<open>qk_race\<close> is that order of the
  steps: the queue of priority \<open>p\<close> is seen empty, the event is posted, the bit is cleared.
\<close>

definition qk_clear_ready :: "u8 \<Rightarrow> ('p, 'b) QkKernel \<Rightarrow> ('p, 'b) QkKernel result" where
  "qk_clear_ready p k =
     rbind (QkScheduler_mark_not_ready p (qk_sched k)) (\<lambda>sc. Inr (k\<lparr>qk_sched := sc\<rparr>))"

definition qk_race ::
    "u8 \<Rightarrow> u8 \<Rightarrow> 'p Event \<Rightarrow> ('p, 'b) QkKernel \<Rightarrow> ('p, 'b) QkKernel result" where
  "qk_race p t e k =
     rbind (qk_slot p k) (\<lambda>slot.
       let seen_empty = \<not> ActiveObject_has_events (slot_object slot)
       in rbind (QkKernel_post t e k) (\<lambda>(_, k1).
            if seen_empty then qk_clear_ready p k1 else Inr k1))"

fun QkKernel_posts :: "u8 \<Rightarrow> 'p Event list \<Rightarrow> ('p, 'b) QkKernel \<Rightarrow> ('p, 'b) QkKernel result" where
  "QkKernel_posts t [] k = Inr k"
| "QkKernel_posts t (e # es) k = rbind (QkKernel_post t e k) (\<lambda>(_, k'). QkKernel_posts t es k')"

section \<open>A small system\<close>

text \<open>
  Objects 1 (priority 2) and 2 (priority 5). On signal 4, object 1 posts signal 5 to object 2
  and runs the scheduler from its handler, so object 2 preempts it.
\<close>

definition qk_demo_bh :: "(unit, nat) QkBehavior" where
  "qk_demo_bh = \<lparr>on_start = \<lambda>_ b. (b, []),
     on_event = \<lambda>_ b e. (b + 1, if Event_signal e = 4 then [Call (KPostAndRun 2 (Event_new 5 ()))] else [])\<rparr>"

definition qk_demo_regs :: "(unit, nat) Registration list" where
  "qk_demo_regs =
     [\<lparr>rg_object = ActiveObject_new 1 2 0, rg_priority = 2, rg_threshold = 2, rg_id = 1\<rparr>,
      \<lparr>rg_object = ActiveObject_new 2 5 0, rg_priority = 5, rg_threshold = 7, rg_id = 2\<rparr>]"

definition qk_demo_builder :: "(unit, nat) QkKernelBuilder" where
  "qk_demo_builder = QkKernelBuilder_new\<lparr>qb_registrations := qk_demo_regs\<rparr>"

definition qk_demo_kernel :: "(unit, nat) QkKernel" where
  "qk_demo_kernel = projr (projr (QkKernelBuilder_build qk_demo_builder))"

definition qk_demo_posted :: "(unit, nat) QkKernel" where
  "qk_demo_posted = snd (projr (QkKernel_post 1 (Event_new 4 ()) qk_demo_kernel))"

section \<open>Invariant\<close>

definition slot_events :: "('p, 'b) ActiveSlot option \<Rightarrow> 'p Event list" where
  "slot_events s = (case s of None \<Rightarrow> [] | Some x \<Rightarrow> ao_events (slot_object x))"

definition slot_shape :: "('p, 'b) ActiveSlot \<Rightarrow> u8 \<times> u8 dis \<times> u8" where
  "slot_shape s = (ao_id (slot_object s), ao_priority (slot_object s), slot_threshold s)"

definition slot_ok :: "nat \<Rightarrow> ('p, 'b) ActiveSlot \<Rightarrow> bool" where
  "slot_ok i s \<longleftrightarrow> 0 < i \<and> i < 64 \<and> ActiveObject_inv (slot_object s) \<and>
     ao_prio (slot_object s) = of_nat i \<and> of_nat i \<le> slot_threshold s"

definition qk_wf :: "('p, 'b) QkKernel \<Rightarrow> bool" where
  "qk_wf k \<longleftrightarrow> length (qk_slots k) = 64 \<and>
     (\<forall>i<64. \<forall>s. qk_slots k ! i = Some s \<longrightarrow> slot_ok i s) \<and>
     (\<forall>t p. qk_id_to_prio k t = Some p \<longrightarrow> unat p < 64 \<and>
        (\<exists>s. qk_slots k ! unat p = Some s \<and> ao_id (slot_object s) = t)) \<and>
     (\<forall>ps. qk_pubsub k = Some ps \<longrightarrow> length (ps_subscriptions ps) = unat (ps_max_signal ps) + 1)"

text \<open>
  \<open>R\<close> is the set of priorities whose handlers are on the stack. Off the stack, a priority is
  ready exactly when its queue is not empty; on it, at least when its queue is not empty.
\<close>

definition qk_ready_ok :: "u8 set \<Rightarrow> ('p, 'b) QkKernel \<Rightarrow> bool" where
  "qk_ready_ok R k \<longleftrightarrow> (\<forall>i<64.
     (of_nat i \<notin> R \<longrightarrow> bit (sc_ready (qk_sched k)) i = (slot_events (qk_slots k ! i) \<noteq> [])) \<and>
     (slot_events (qk_slots k ! i) \<noteq> [] \<longrightarrow> bit (sc_ready (qk_sched k)) i))"

definition qk_active_ok :: "u8 list \<Rightarrow> ('p, 'b) QkKernel \<Rightarrow> bool" where
  "qk_active_ok R k \<longleftrightarrow>
     sc_active_prio (qk_sched k) = (case R of [] \<Rightarrow> 0 | p # _ \<Rightarrow> p) \<and>
     QkKernel_threshold_for (sc_active_prio (qk_sched k)) k = Inr (sc_active_threshold (qk_sched k)) \<and>
     (\<forall>q\<in>set R. q \<noteq> 0 \<and> q \<le> sc_active_threshold (qk_sched k))"

definition qk_inv :: "u8 list \<Rightarrow> ('p, 'b) QkKernel \<Rightarrow> bool" where
  "qk_inv R k \<longleftrightarrow> qk_wf k \<and> qk_ready_ok (set R) k \<and> qk_active_ok R k"

text \<open>What a balanced piece of execution leaves unchanged.\<close>

definition qk_frame :: "('p, 'b) QkKernel \<Rightarrow> ('p, 'b) QkKernel \<Rightarrow> bool" where
  "qk_frame k k' \<longleftrightarrow>
     map (map_option slot_shape) (qk_slots k') = map (map_option slot_shape) (qk_slots k) \<and>
     sc_active_prio (qk_sched k') = sc_active_prio (qk_sched k) \<and>
     sc_active_threshold (qk_sched k') = sc_active_threshold (qk_sched k) \<and>
     qk_id_to_prio k' = qk_id_to_prio k \<and>
     map_option ps_max_signal (qk_pubsub k') = map_option ps_max_signal (qk_pubsub k)"

text \<open>Calls whose signals and priorities are in the range of the subscription table.\<close>

fun qk_call_ok :: "u16 option \<Rightarrow> 'p qk_call effect \<Rightarrow> bool" where
  "qk_call_ok (Some m) (Call (KPublish s e)) \<longleftrightarrow> s \<le> m"
| "qk_call_ok (Some m) (Call (KPublishAndRun s e)) \<longleftrightarrow> s \<le> m"
| "qk_call_ok (Some m) (Call (KSubscribe s p)) \<longleftrightarrow> s \<le> m \<and> p < 64"
| "qk_call_ok (Some m) (Call (KUnsubscribe s p)) \<longleftrightarrow> s \<le> m \<and> p < 64"
| "qk_call_ok (Some m) (Call (KUnsubscribeAll p)) \<longleftrightarrow> p < 64"
| "qk_call_ok _ _ \<longleftrightarrow> True"

definition qk_weight :: "('p Event \<Rightarrow> nat) \<Rightarrow> ('p, 'b) QkKernel \<Rightarrow> nat" where
  "qk_weight w k = sum_list (map (\<lambda>s. sum_list (map w (slot_events s))) (qk_slots k))"

fun qk_call_weight :: "('p Event \<Rightarrow> nat) \<Rightarrow> 'p qk_call effect \<Rightarrow> nat" where
  "qk_call_weight w (Call (KPost t e)) = w e"
| "qk_call_weight w (Call (KPostAndRun t e)) = w e"
| "qk_call_weight w (Call (KPublish s e)) = 64 * w (Event_for_signal s e)"
| "qk_call_weight w (Call (KPublishAndRun s e)) = 64 * w (Event_for_signal s e)"
| "qk_call_weight w c = 0"

definition qk_effects_weight :: "('p Event \<Rightarrow> nat) \<Rightarrow> 'p qk_call effect list \<Rightarrow> nat" where
  "qk_effects_weight w cs = sum_list (map (qk_call_weight w) cs)"

section \<open>Lemmas on posting\<close>

lemma qk_frame_refl [simp]: "qk_frame k k"
  by (simp add: qk_frame_def)

lemma qk_frame_trans: "qk_frame a b \<Longrightarrow> qk_frame b c \<Longrightarrow> qk_frame a c"
  by (simp add: qk_frame_def)

lemma qk_frame_length: "qk_frame k k' \<Longrightarrow> length (qk_slots k') = length (qk_slots k)"
  unfolding qk_frame_def by (metis length_map)

lemma qk_frame_slot:
  assumes "qk_frame k k'" "i < length (qk_slots k)"
  shows "map_option slot_shape (qk_slots k' ! i) = map_option slot_shape (qk_slots k ! i)"
  using assms qk_frame_length [OF assms(1)] unfolding qk_frame_def by (metis nth_map)

lemma qk_set_object_slots:
  "qk_slots k ! i = Some s \<Longrightarrow>
   qk_set_object i ao k = k\<lparr>qk_slots := (qk_slots k)[i := Some (s\<lparr>slot_object := ao\<rparr>)]\<rparr>"
  by (simp add: qk_set_object_def)

lemma qk_set_object_id [simp]: "qk_id_to_prio (qk_set_object i ao k) = qk_id_to_prio k"
  by (simp add: qk_set_object_def)

lemma qk_wf_set_slot:
  assumes "qk_wf k" "i < 64" "qk_slots k ! i = Some s" "slot_shape s' = slot_shape s"
    "ActiveObject_inv (slot_object s) \<Longrightarrow> ActiveObject_inv (slot_object s')"
  shows "qk_wf (k\<lparr>qk_slots := (qk_slots k)[i := Some s'], qk_sched := sc\<rparr>)"
proof -
  let ?k = "k\<lparr>qk_slots := (qk_slots k)[i := Some s'], qk_sched := sc\<rparr>"
  have sh: "ao_id (slot_object s') = ao_id (slot_object s)" "slot_threshold s' = slot_threshold s"
    "ao_priority (slot_object s') = ao_priority (slot_object s)"
    using assms(4) by (simp_all add: slot_shape_def)
  have len: "length (qk_slots k) = 64" using assms(1) by (simp add: qk_wf_def)
  have "slot_ok i s" using assms(1-3) by (simp add: qk_wf_def)
  then have ok': "slot_ok i s'" using sh assms(5) by (simp add: slot_ok_def)
  have slots: "\<forall>j<64. \<forall>x. qk_slots ?k ! j = Some x \<longrightarrow> slot_ok j x"
    using assms(1,2) ok' len by (auto simp: qk_wf_def nth_list_update split: if_splits)
  have ids: "\<forall>t p. qk_id_to_prio k t = Some p \<longrightarrow> unat p < 64 \<and>
      (\<exists>x. qk_slots ?k ! unat p = Some x \<and> ao_id (slot_object x) = t)"
    using assms(1-3) sh(1) len by (fastforce simp: qk_wf_def nth_list_update)
  show ?thesis using assms(1) slots ids len by (simp add: qk_wf_def)
qed

lemma qk_frame_set_slot:
  assumes "i < length (qk_slots k)" "qk_slots k ! i = Some s" "slot_shape s' = slot_shape s"
    "sc_active_prio sc = sc_active_prio (qk_sched k)"
    "sc_active_threshold sc = sc_active_threshold (qk_sched k)"
  shows "qk_frame k (k\<lparr>qk_slots := (qk_slots k)[i := Some s'], qk_sched := sc\<rparr>)"
  using assms by (auto simp: qk_frame_def map_update list_update_same_conv nth_map)

lemma qk_weight_set_slot:
  assumes "i < length (qk_slots k)" "qk_slots k ! i = Some s"
  shows "qk_weight w (k\<lparr>qk_slots := (qk_slots k)[i := Some s'], qk_sched := sc\<rparr>) +
      sum_list (map w (ao_events (slot_object s))) =
    qk_weight w k + sum_list (map w (ao_events (slot_object s')))"
  using sum_list_update_nat [OF assms(1), of "\<lambda>s. sum_list (map w (slot_events s))" "Some s'"] assms(2)
  by (simp add: qk_weight_def slot_events_def)

lemma post_to_slot_ok:
  assumes "qk_wf k" "qk_ready_ok R k" "i < 64" "qk_slots k ! i = Some s"
  shows "\<exists>k'. post_to_slot i s e k = Inr k' \<and> qk_wf k' \<and> qk_ready_ok R k' \<and> qk_frame k k' \<and>
    qk_weight w k' = qk_weight w k + w e \<and> qk_id_to_prio k' = qk_id_to_prio k \<and>
    slot_events (qk_slots k' ! i) = slot_events (qk_slots k ! i) @ [e]"
proof -
  obtain ao where ao: "ActiveObject_post None e (slot_object s) = Inr ao"
    "ao_events ao = ao_events (slot_object s) @ [e]" "ao_id ao = ao_id (slot_object s)"
    "ao_priority ao = ao_priority (slot_object s)"
    "ActiveObject_inv (slot_object s) \<longrightarrow> ActiveObject_inv ao"
    using ActiveObject_post_None by blast
  let ?s' = "s\<lparr>slot_object := ao\<rparr>"
  let ?r = "if ao_events (slot_object s) = [] then or (sc_ready (qk_sched k)) (u64_bit (of_nat i))
    else sc_ready (qk_sched k)"
  let ?k' = "k\<lparr>qk_slots := (qk_slots k)[i := Some ?s'], qk_sched := (qk_sched k)\<lparr>sc_ready := ?r\<rparr>\<rparr>"
  have len: "length (qk_slots k) = 64" using assms(1) by (simp add: qk_wf_def)
  have lt: "(of_nat i :: u8) < 64" using assms(3) by (simp add: u8_lt_64_iff unat_of_nat)
  have p: "post_to_slot i s e k = Inr ?k'"
    using lt by (auto simp: post_to_slot_def ao(1) qk_set_object_slots [OF assms(4)]
        QkScheduler_mark_ready_def Let_def)
  have sh: "slot_shape ?s' = slot_shape s" using ao by (simp add: slot_shape_def)
  have wf: "qk_wf ?k'" using qk_wf_set_slot [OF assms(1,3,4) sh] ao(5) by simp
  have fr: "qk_frame k ?k'" using qk_frame_set_slot [OF _ assms(4) sh] assms(3) len by simp
  have we: "qk_weight w ?k' = qk_weight w k + w e"
    using qk_weight_set_slot [of i k s, where s' = ?s' and w = w and sc = "(qk_sched k)\<lparr>sc_ready := ?r\<rparr>"]
      assms(3,4) len ao(2) by simp
  have ro: "qk_ready_ok R ?k'"
    using assms(2-4) len ao(2)
    by (auto simp: qk_ready_ok_def nth_list_update slot_events_def bit_or_u64_bit)
  show ?thesis
    using p wf fr we ro assms(3,4) len ao(2) by (simp add: slot_events_def)
qed

lemma publish_slots_ok:
  assumes "qk_wf k" "qk_ready_ok R k" "\<forall>i\<in>set is. i < 64"
  shows "\<exists>k'. publish_slots subs e is k = Inr k' \<and> qk_wf k' \<and> qk_ready_ok R k' \<and> qk_frame k k' \<and>
    qk_weight w k' \<le> qk_weight w k + length is * w e"
  using assms
proof (induction "is" arbitrary: k)
  case (Cons i "is")
  show ?case
  proof (cases "qk_slots k ! i")
    case None
    with Cons.IH [OF Cons.prems(1,2)] Cons.prems(3) show ?thesis by fastforce
  next
    case (Some s)
    obtain k1 where k1: "post_to_slot i s e k = Inr k1" "qk_wf k1" "qk_ready_ok R k1" "qk_frame k k1"
      "qk_weight w k1 = qk_weight w k + w e"
      using post_to_slot_ok [OF Cons.prems(1,2) _ Some] Cons.prems(3) by fastforce
    obtain k2 where k2: "publish_slots subs e is k1 = Inr k2" "qk_wf k2" "qk_ready_ok R k2"
      "qk_frame k1 k2" "qk_weight w k2 \<le> qk_weight w k1 + length is * w e"
      using Cons.IH [OF k1(2,3)] Cons.prems(3) by fastforce
    obtain k3 where k3: "publish_slots subs e is k = Inr k3" "qk_wf k3" "qk_ready_ok R k3"
      "qk_frame k k3" "qk_weight w k3 \<le> qk_weight w k + length is * w e"
      using Cons.IH [OF Cons.prems(1,2)] Cons.prems(3) by fastforce
    show ?thesis
      using Some k1 k2 k3 qk_frame_trans [OF k1(4) k2(4)] by simp
  qed
qed simp

lemma QkKernel_post_ok:
  assumes "qk_wf k" "qk_ready_ok R k"
  shows "\<exists>r k'. QkKernel_post t e k = Inr (r, k') \<and> qk_wf k' \<and> qk_ready_ok R k' \<and> qk_frame k k' \<and>
    qk_weight w k' \<le> qk_weight w k + w e"
proof (cases "qk_id_to_prio k t")
  case None
  with assms show ?thesis by (simp add: QkKernel_post_def)
next
  case (Some p)
  with assms(1) obtain s where s: "unat p < 64" "qk_slots k ! unat p = Some s" "length (qk_slots k) = 64"
    unfolding qk_wf_def by blast
  with post_to_slot_ok [OF assms s(1,2), of e w] Some show ?thesis
    by (auto simp: QkKernel_post_def qk_slot_def)
qed

lemma qk_emit_simps [simp]:
  "qk_slots (qk_emit r p ts k) = qk_slots k" "qk_id_to_prio (qk_emit r p ts k) = qk_id_to_prio k"
  "qk_pubsub (qk_emit r p ts k) = qk_pubsub k"
  "sc_ready (qk_sched (qk_emit r p ts k)) = sc_ready (qk_sched k)"
  "sc_active_prio (qk_sched (qk_emit r p ts k)) = sc_active_prio (qk_sched k)"
  "sc_active_threshold (qk_sched (qk_emit r p ts k)) = sc_active_threshold (qk_sched k)"
  "sc_next_prio (qk_sched (qk_emit r p ts k)) = sc_next_prio (qk_sched k)"
  "sc_lock_ceiling (qk_sched (qk_emit r p ts k)) = sc_lock_ceiling (qk_sched k)"
  by (simp_all add: qk_emit_def)

text \<open>States that differ only in the scheduler's bookkeeping or the subscriptions.\<close>

lemma qk_same_ok:
  assumes "qk_slots k' = qk_slots k" "qk_id_to_prio k' = qk_id_to_prio k"
    "sc_ready (qk_sched k') = sc_ready (qk_sched k)" "qk_wf k" "qk_ready_ok R k"
    "\<And>ps. qk_pubsub k' = Some ps \<Longrightarrow> length (ps_subscriptions ps) = unat (ps_max_signal ps) + 1"
  shows "qk_wf k' \<and> qk_ready_ok R k' \<and> qk_weight w k' = qk_weight w k"
  using assms by (simp add: qk_wf_def qk_ready_ok_def qk_weight_def)

lemma qk_pubsub_len:
  "qk_wf k \<Longrightarrow> qk_pubsub k = Some ps \<Longrightarrow> length (ps_subscriptions ps) = unat (ps_max_signal ps) + 1"
  by (simp add: qk_wf_def)

lemma prio_bit_ok [simp]: "p < 64 \<Longrightarrow> prio_bit p = Inr (u64_bit p)"
  by (simp add: prio_bit_def)

lemma PubSubTable_idx_ok [simp]: "s \<le> ps_max_signal t \<Longrightarrow> PubSubTable_idx t s = Inr (unat s)"
  by (simp add: PubSubTable_idx_def word_le_nat_alt)

lemma QkKernel_publish_ok:
  assumes "qk_wf k" "qk_ready_ok R k" "\<And>ps. qk_pubsub k = Some ps \<Longrightarrow> s \<le> ps_max_signal ps"
  shows "\<exists>k'. QkKernel_publish s e k = Inr k' \<and> qk_wf k' \<and> qk_ready_ok R k' \<and> qk_frame k k' \<and>
    qk_weight w k' \<le> qk_weight w k + 64 * w (Event_for_signal s e)"
proof -
  have len: "length (qk_slots k) = 64" using assms(1) by (simp add: qk_wf_def)
  show ?thesis
  proof (cases "qk_pubsub k")
    case None
    with publish_slots_ok [OF assms(1,2), of "[0..<64]" None "Event_for_signal s e" w] len show ?thesis
      by (auto simp: QkKernel_publish_def)
  next
    case (Some ps)
    let ?k = "qk_emit 26 (le16 s) True k"
    have w: "qk_wf ?k \<and> qk_ready_ok R ?k \<and> qk_weight w ?k = qk_weight w k"
      using assms(1,2) qk_pubsub_len [OF assms(1)] by (intro qk_same_ok) simp_all
    have f: "qk_frame k ?k" by (simp add: qk_frame_def)
    obtain k' where k': "publish_slots (Some (ps_subscriptions ps ! unat s)) (Event_for_signal s e) [0..<64] ?k = Inr k'"
      "qk_wf k'" "qk_ready_ok R k'" "qk_frame ?k k'"
      "qk_weight w k' \<le> qk_weight w ?k + 64 * w (Event_for_signal s e)"
      using publish_slots_ok [of ?k R "[0..<64]" "Some (ps_subscriptions ps ! unat s)" "Event_for_signal s e" w] w
      by auto
    with Some len w assms(3) qk_frame_trans [OF f k'(4)] show ?thesis
      by (simp add: QkKernel_publish_def PubSubTable_subscribers_def)
  qed
qed

definition qk_keeps :: "u8 set \<Rightarrow> ('p Event \<Rightarrow> nat) \<Rightarrow> nat \<Rightarrow> ('p, 'b) QkKernel \<Rightarrow> ('p, 'b) QkKernel \<Rightarrow> bool" where
  "qk_keeps R w n k k' \<longleftrightarrow> qk_wf k' \<and> qk_ready_ok R k' \<and> qk_frame k k' \<and> qk_weight w k' \<le> qk_weight w k + n"

lemma QkKernel_subscription_ok:
  assumes "qk_wf k" "qk_ready_ok R k" "\<And>ps. qk_pubsub k = Some ps \<Longrightarrow> s \<le> ps_max_signal ps \<and> p < 64"
  shows "\<exists>k'. QkKernel_subscribe s p k = Inr k' \<and> qk_keeps R w 0 k k'"
    and "\<exists>k'. QkKernel_unsubscribe s p k = Inr k' \<and> qk_keeps R w 0 k k'"
  using assms
  by (auto simp: QkKernel_subscribe_def QkKernel_unsubscribe_def PubSubTable_subscribe_def
      PubSubTable_unsubscribe_def qk_keeps_def qk_wf_def qk_ready_ok_def qk_frame_def qk_weight_def
      split: option.splits)

lemma QkKernel_unsubscribe_all_ok:
  assumes "qk_wf k" "qk_ready_ok R k" "\<And>ps. qk_pubsub k = Some ps \<Longrightarrow> p < 64"
  shows "\<exists>k'. QkKernel_unsubscribe_all p k = Inr k' \<and> qk_keeps R w 0 k k'"
  using assms
  by (auto simp: QkKernel_unsubscribe_all_def PubSubTable_unsubscribe_all_def
      qk_keeps_def qk_wf_def qk_ready_ok_def qk_frame_def qk_weight_def split: option.splits)

section \<open>Activation keeps the invariant\<close>

text \<open>
  \<open>okres T Q r\<close>: \<open>r\<close> is no fault, satisfies \<open>Q\<close> if it is a value, and is a value unless \<open>T\<close>.
  With \<open>T\<close> the lemmas below speak of any fuel; without it they also give termination, when fuel
  exceeds the weight of the queued events.
\<close>

definition okres :: "bool \<Rightarrow> ('a \<Rightarrow> bool) \<Rightarrow> 'a result option \<Rightarrow> bool" where
  "okres T Q r = (case r of None \<Rightarrow> T | Some (Inl f) \<Rightarrow> False | Some (Inr x) \<Rightarrow> Q x)"

lemma okres_simps [simp]:
  "okres T Q None = T" "okres T Q (Some (Inl f)) = False" "okres T Q (Some (Inr x)) = Q x"
  by (simp_all add: okres_def)

lemma okres_orbind:
  "okres T P m \<Longrightarrow> (\<And>x. P x \<Longrightarrow> okres T Q (f x)) \<Longrightarrow> okres T Q (orbind m f)"
  by (auto simp: okres_def [of T P m] orbind_def split: option.splits sum.splits)

lemma okres_mono: "okres T P m \<Longrightarrow> (\<And>x. P x \<Longrightarrow> Q x) \<Longrightarrow> okres T Q m"
  by (auto simp: okres_def [of T P m] split: option.splits sum.splits)

lemma okres_Some_Inr: "\<exists>x. m = Inr x \<and> Q x \<Longrightarrow> okres T Q (Some m)"
  by auto

text \<open>The context of an activation: the decision comes from planning above the stack.\<close>

definition qk_planned :: "u8 list \<Rightarrow> u8 \<Rightarrow> ScheduleDecision \<Rightarrow> ('p, 'b) QkKernel \<Rightarrow> bool" where
  "qk_planned R rt d k \<longleftrightarrow> next_prio d \<in> prios (sc_ready (qk_sched k)) \<and> rt < next_prio d \<and>
     sc_next_prio (qk_sched k) = next_prio d \<and> (\<forall>q\<in>set R. q \<noteq> 0 \<and> q \<le> rt)"

definition qk_ret :: "bool \<Rightarrow> u8 list \<Rightarrow> ('p Event \<Rightarrow> nat) \<Rightarrow> nat \<Rightarrow> ('p, 'b) QkKernel \<Rightarrow> ('p, 'b) QkKernel \<Rightarrow> bool" where
  "qk_ret T R w n k k' \<longleftrightarrow> qk_inv R k' \<and> qk_frame k k' \<and> (T \<or> qk_weight w k' \<le> qk_weight w k + n)"

definition qk_act_ok ::
    "bool \<Rightarrow> ('p Event \<Rightarrow> nat) \<Rightarrow> nat \<Rightarrow>
     (ScheduleDecision \<Rightarrow> ('p, 'b) QkKernel \<Rightarrow> ('p, 'b) QkKernel result option) \<Rightarrow> u16 option \<Rightarrow> bool" where
  "qk_act_ok T w n act ms \<longleftrightarrow> (\<forall>R d k. qk_inv R k \<longrightarrow> previous_prio d = sc_active_prio (qk_sched k) \<longrightarrow>
     map_option ps_max_signal (qk_pubsub k) = ms \<longrightarrow>
     qk_planned R (sc_active_threshold (qk_sched k)) d k \<longrightarrow> (T \<or> qk_weight w k < n) \<longrightarrow>
     okres T (\<lambda>k'. qk_ret T R w 0 k k' \<and> (T \<or> qk_weight w k' < qk_weight w k)) (act d k))"

lemma qk_threshold_for_frame:
  assumes "qk_frame k k'"
  shows "QkKernel_threshold_for p k' = QkKernel_threshold_for p k"
proof (cases "unat p < length (qk_slots k)")
  case True
  from qk_frame_slot [OF assms True] show ?thesis
    using True qk_frame_length [OF assms]
    by (auto simp: QkKernel_threshold_for_def qk_slot_def slot_shape_def split: option.splits)
next
  case False
  then show ?thesis using qk_frame_length [OF assms] by (simp add: QkKernel_threshold_for_def qk_slot_def)
qed

lemma qk_active_ok_frame:
  assumes "qk_frame k k'" "qk_active_ok R k"
  shows "qk_active_ok R k'"
proof -
  have a: "sc_active_prio (qk_sched k') = sc_active_prio (qk_sched k)"
    "sc_active_threshold (qk_sched k') = sc_active_threshold (qk_sched k)"
    using assms(1) by (simp_all add: qk_frame_def)
  show ?thesis
    using assms(2) unfolding qk_active_ok_def a qk_threshold_for_frame [OF assms(1)] .
qed

lemma qk_act_okD:
  "qk_act_ok T w n act ms \<Longrightarrow> qk_inv R k \<Longrightarrow> previous_prio d = sc_active_prio (qk_sched k) \<Longrightarrow>
   map_option ps_max_signal (qk_pubsub k) = ms \<Longrightarrow>
   qk_planned R (sc_active_threshold (qk_sched k)) d k \<Longrightarrow> T \<or> qk_weight w k < n \<Longrightarrow>
   okres T (\<lambda>k'. qk_ret T R w 0 k k' \<and> (T \<or> qk_weight w k' < qk_weight w k)) (act d k)"
  unfolding qk_act_ok_def by blast

lemma qk_keeps_ret: "qk_active_ok R k \<Longrightarrow> qk_keeps (set R) w n k k' \<Longrightarrow> qk_ret T R w n k k'"
  using qk_active_ok_frame by (auto simp: qk_keeps_def qk_ret_def qk_inv_def)

lemma qk_ret_refl: "qk_inv R k \<Longrightarrow> qk_ret T R w n k k"
  by (simp add: qk_ret_def)

lemma qk_ret_trans:
  "qk_ret T R w m k k1 \<Longrightarrow> qk_ret T R w n k1 k2 \<Longrightarrow> qk_ret T R w (m + n) k k2"
  by (auto simp: qk_ret_def intro: qk_frame_trans)

lemma qk_ret_trans0: "qk_ret T R w m k k1 \<Longrightarrow> qk_ret T R w 0 k1 k2 \<Longrightarrow> qk_ret T R w m k k2"
  using qk_ret_trans [of T R w m k k1 0 k2] by simp

lemma qk_ret_mono: "qk_ret T R w m k k1 \<Longrightarrow> m \<le> n \<Longrightarrow> qk_ret T R w n k k1"
  by (auto simp: qk_ret_def)

lemma qk_sched_update_ret:
  assumes "qk_inv R k" "sc_ready sc = sc_ready (qk_sched k)"
    "sc_active_prio sc = sc_active_prio (qk_sched k)"
    "sc_active_threshold sc = sc_active_threshold (qk_sched k)"
  shows "qk_ret T R w 0 k (k\<lparr>qk_sched := sc\<rparr>)"
proof -
  have "qk_frame k (k\<lparr>qk_sched := sc\<rparr>)" using assms by (simp add: qk_frame_def)
  with assms qk_active_ok_frame [OF this, of R] show ?thesis
    by (simp add: qk_ret_def qk_inv_def qk_wf_def qk_ready_ok_def qk_weight_def)
qed

lemma qk_plan_None:
  assumes "qk_inv R k" "qk_plan k = (None, k')"
  shows "qk_ret T R w 0 k k'"
proof -
  from assms(2) obtain sc where sc: "plan_above (sc_active_threshold (qk_sched k)) (qk_sched k) = (None, sc)"
    "k' = k\<lparr>qk_sched := sc\<rparr>"
    by (auto simp: qk_plan_def QkScheduler_plan_activation_def split: prod.splits)
  have "qk_ret T R w 0 k (k\<lparr>qk_sched := sc\<rparr>)"
    using plan_above_None(1) [OF sc(1)] by (intro qk_sched_update_ret [OF assms(1)]) simp_all
  then show ?thesis using sc(2) by simp
qed

lemma qk_plan_Some:
  assumes "qk_inv R k" "qk_plan k = (Some d, k')"
  shows "qk_ret T R w 0 k k'" "qk_planned R (sc_active_threshold (qk_sched k')) d k'"
    "previous_prio d = sc_active_prio (qk_sched k')" "qk_pubsub k' = qk_pubsub k"
    "qk_weight w k' = qk_weight w k"
proof -
  from assms(2) obtain sc where sc: "plan_above (sc_active_threshold (qk_sched k)) (qk_sched k) = (Some d, sc)"
    and k': "k' = k\<lparr>qk_sched := sc\<rparr>"
    by (auto simp: qk_plan_def QkScheduler_plan_activation_def split: prod.splits)
  note P = plan_above_Some [OF sc]
  have "qk_ret T R w 0 k (k\<lparr>qk_sched := sc\<rparr>)"
    using P(5) by (intro qk_sched_update_ret [OF assms(1)]) simp_all
  then show "qk_ret T R w 0 k k'" using k' by simp
  show "qk_planned R (sc_active_threshold (qk_sched k')) d k'"
    using P assms(1) k' by (simp add: qk_planned_def qk_inv_def qk_active_ok_def)
  show "previous_prio d = sc_active_prio (qk_sched k')" "qk_pubsub k' = qk_pubsub k"
    "qk_weight w k' = qk_weight w k"
    using P k' by (simp_all add: qk_weight_def)
qed

lemma dispatch_with_ok:
  assumes "qk_act_ok T w n act ms" "qk_inv R k" "map_option ps_max_signal (qk_pubsub k) = ms"
    "T \<or> qk_weight w k < n"
  shows "okres T (\<lambda>(ran, k'). qk_ret T R w 0 k k' \<and> (T \<or> \<not> ran \<or> qk_weight w k' < qk_weight w k))
    (dispatch_with act k)"
proof (cases "qk_plan k")
  case (Pair d k')
  show ?thesis
  proof (cases d)
    case None
    with Pair qk_plan_None [OF assms(2)] show ?thesis by (simp add: dispatch_with_def)
  next
    case (Some x)
    with Pair have p: "qk_plan k = (Some x, k')" by simp
    note P = qk_plan_Some [OF assms(2) p]
    have "qk_inv R k'" using P(1) [of True w] by (simp add: qk_ret_def)
    then have "okres T (\<lambda>k''. qk_ret T R w 0 k' k'' \<and> (T \<or> qk_weight w k'' < qk_weight w k')) (act x k')"
      using assms(3,4) P(2-) by (intro qk_act_okD [OF assms(1)]) simp_all
    then have "okres T (\<lambda>(ran, k''). qk_ret T R w 0 k k'' \<and> (T \<or> \<not> ran \<or> qk_weight w k'' < qk_weight w k))
        (orbind (act x k') (\<lambda>k''. Some (Inr (True, k''))))"
      by (rule okres_orbind) (use P(1) [of T w] P(5) in \<open>auto dest: qk_ret_trans\<close>)
    with p show ?thesis by (simp add: dispatch_with_def)
  qed
qed

lemma run_with_ok:
  assumes "qk_act_ok T w n act ms" "qk_inv R k" "map_option ps_max_signal (qk_pubsub k) = ms"
    "T \<or> qk_weight w k < n" "T \<or> qk_weight w k < m"
  shows "okres T (qk_ret T R w 0 k) (run_with m act k)"
  using assms(2-)
proof (induction m arbitrary: k)
  case (Suc m)
  have "okres T (\<lambda>(ran, k'). qk_ret T R w 0 k k' \<and> (T \<or> \<not> ran \<or> qk_weight w k' < qk_weight w k))
    (dispatch_with act k)"
    using dispatch_with_ok [OF assms(1) Suc.prems(1-3)] .
  then show ?case
    unfolding run_with.simps
  proof (rule okres_orbind, clarify)
    fix ran k'
    assume r: "qk_ret T R w 0 k k'" and w: "T \<or> \<not> ran \<or> qk_weight w k' < qk_weight w k"
    have i: "qk_inv R k'" "map_option ps_max_signal (qk_pubsub k') = ms"
      using r Suc.prems(2) by (simp_all add: qk_ret_def qk_frame_def)
    show "okres T (qk_ret T R w 0 k) (if ran then run_with m act k' else Some (Inr k'))"
    proof (cases ran)
      case True
      then have "okres T (qk_ret T R w 0 k') (run_with m act k')"
        using Suc.prems(3,4) w by (intro Suc.IH [OF i]) auto
      then show ?thesis using True qk_ret_trans [OF r] by (auto elim: okres_mono)
    qed (use r in simp)
  qed
qed simp

lemma unlock_with_ok:
  assumes "qk_act_ok T w n act ms" "qk_inv R k" "map_option ps_max_signal (qk_pubsub k) = ms"
    "T \<or> qk_weight w k < n"
  shows "okres T (qk_ret T R w 0 k) (unlock_with act st k)"
proof -
  let ?k = "k\<lparr>qk_sched := QkScheduler_unlock st (qk_sched k)\<rparr>"
  have r: "qk_ret T R w 0 k ?k" and w: "qk_weight w ?k = qk_weight w k"
    by (rule qk_sched_update_ret [OF assms(2)])
      (simp_all add: QkScheduler_unlock_def qk_weight_def split: SchedStatus.splits)
  then have i: "qk_inv R ?k" by (simp add: qk_ret_def)
  show ?thesis
  proof (cases "SchedStatus_is_locked st")
    case True
    have "okres T (\<lambda>(ran, k'). qk_ret T R w 0 ?k k') (dispatch_with act ?k)"
      using dispatch_with_ok [OF assms(1) i] assms(3,4) w by (auto elim!: okres_mono)
    then have "okres T (qk_ret T R w 0 ?k) (unlock_with act st k)"
      using True by (auto simp: unlock_with_def dispatch_with_def okres_def orbind_def Let_def
          split: prod.splits option.splits sum.splits)
    then show ?thesis using qk_ret_trans [OF r] by (auto elim: okres_mono)
  qed (use r in \<open>simp add: unlock_with_def\<close>)
qed

lemma post_and_run_with_ok:
  assumes "qk_act_ok T w n act ms" "qk_inv R k" "map_option ps_max_signal (qk_pubsub k) = ms"
    "T \<or> qk_weight w k + w e < n"
  shows "okres T (\<lambda>(_, k'). qk_ret T R w (w e) k k') (post_and_run_with n act t e k)"
proof -
  obtain r k1 where k1: "QkKernel_post t e k = Inr (r, k1)" "qk_keeps (set R) w (w e) k k1"
    using QkKernel_post_ok [of k "set R" t e w] assms(2) by (auto simp: qk_inv_def qk_keeps_def)
  then have ret: "qk_ret T R w (w e) k k1" using assms(2) qk_keeps_ret by (auto simp: qk_inv_def)
  show ?thesis
  proof (cases r)
    case (Inr u)
    have "okres T (qk_ret T R w 0 k1) (run_with n act k1)"
      using ret k1(2) assms(3,4)
      by (intro run_with_ok [OF assms(1)]) (auto simp: qk_ret_def qk_keeps_def qk_frame_def)
    then have "okres T (\<lambda>(_, k'). qk_ret T R w (w e) k k')
        (orbind (run_with n act k1) (\<lambda>k''. Some (Inr (Inr () :: QkKernelError + unit, k''))))"
      by (rule okres_orbind) (use qk_ret_trans0 [OF ret] in auto)
    then show ?thesis by (simp add: post_and_run_with_def k1(1) Inr)
  qed (use ret in \<open>simp add: post_and_run_with_def k1(1)\<close>)
qed

lemma effect_with_ok:
  assumes "qk_act_ok T w n act ms" "qk_inv R k" "map_option ps_max_signal (qk_pubsub k) = ms"
    "qk_call_ok ms c" "T \<or> qk_weight w k + qk_call_weight w c < n"
  shows "okres T (qk_ret T R w (qk_call_weight w c) k) (effect_with n act c k)"
proof -
  have i: "qk_wf k" "qk_ready_ok (set R) k" "qk_active_ok R k" using assms(2) by (simp_all add: qk_inv_def)
  note keep = qk_keeps_ret [OF i(3), of w _ _ T]
  show ?thesis
  proof (cases "(n, act, c, k)" rule: effect_with.cases)
    case (1 _ _ r p ts)
    have "qk_ret T R w 0 k (qk_emit r p ts k)"
      unfolding qk_emit_def by (rule qk_sched_update_ret [OF assms(2)]) simp_all
    with 1 show ?thesis by simp
  next
    case (2 _ _ t e)
    obtain r k' where "QkKernel_post t e k = Inr (r, k')" "qk_keeps (set R) w (w e) k k'"
      using QkKernel_post_ok [OF i(1,2), of t e w] by (auto simp: qk_keeps_def)
    with 2 keep show ?thesis by simp
  next
    case (3 _ _ t e)
    have "okres T (\<lambda>(_, k'). qk_ret T R w (w e) k k') (post_and_run_with n act t e k)"
      using 3 assms(5) by (intro post_and_run_with_ok [OF assms(1-3)]) simp
    with 3 show ?thesis by (auto elim!: okres_orbind)
  next
    case (4 _ _ s e)
    then obtain k' where "QkKernel_publish s e k = Inr k'"
      "qk_keeps (set R) w (64 * w (Event_for_signal s e)) k k'"
      using assms(3,4) QkKernel_publish_ok [OF i(1,2), of s e w]
      by (cases ms) (auto simp: qk_keeps_def)
    with 4 keep show ?thesis by simp
  next
    case (5 _ _ s e)
    have "\<exists>k1. QkKernel_publish s e k = Inr k1 \<and> qk_keeps (set R) w (64 * w (Event_for_signal s e)) k k1"
      using 5 assms(3,4) QkKernel_publish_ok [OF i(1,2), of s e w]
      by (cases ms) (auto simp: qk_keeps_def)
    then obtain k1 where k1: "QkKernel_publish s e k = Inr k1"
      "qk_keeps (set R) w (64 * w (Event_for_signal s e)) k k1" by blast
    note r1 = keep [OF k1(2)]
    have "okres T (qk_ret T R w 0 k1) (run_with n act k1)"
      using r1 k1(2) assms(3,5) 5
      by (intro run_with_ok [OF assms(1)]) (auto simp: qk_ret_def qk_keeps_def qk_frame_def)
    then show ?thesis using 5 k1(1) qk_ret_trans0 [OF r1] by (auto elim: okres_mono)
  next
    case (6 _ _ s p)
    then obtain k' where "QkKernel_subscribe s p k = Inr k'" "qk_keeps (set R) w 0 k k'"
      using assms(3,4) QkKernel_subscription_ok(1) [OF i(1,2), of s p w] by (cases ms) auto
    with 6 keep show ?thesis by simp
  next
    case (7 _ _ s p)
    then obtain k' where "QkKernel_unsubscribe s p k = Inr k'" "qk_keeps (set R) w 0 k k'"
      using assms(3,4) QkKernel_subscription_ok(2) [OF i(1,2), of s p w] by (cases ms) auto
    with 7 keep show ?thesis by simp
  next
    case (8 _ _ p)
    then obtain k' where "QkKernel_unsubscribe_all p k = Inr k'" "qk_keeps (set R) w 0 k k'"
      using assms(3,4) QkKernel_unsubscribe_all_ok [OF i(1,2), of p w] by (cases ms) auto
    with 8 keep show ?thesis by simp
  next
    case (9 _ _ c')
    have "qk_ret T R w 0 k (k\<lparr>qk_sched := snd (QkScheduler_lock c' (qk_sched k))\<rparr>)"
      by (rule qk_sched_update_ret [OF assms(2)]) (simp_all add: QkScheduler_lock_def)
    with 9 show ?thesis by (simp add: QkKernel_lock_scheduler_def split_def Let_def)
  next
    case (10 _ _ st)
    with assms(5) unlock_with_ok [OF assms(1-3)] show ?thesis by simp
  next
    case 11
    have "okres T (\<lambda>(_, k'). qk_ret T R w 0 k k') (dispatch_with act k)"
      using dispatch_with_ok [OF assms(1-3)] assms(5) 11 by (auto elim!: okres_mono)
    with 11 show ?thesis by (auto elim!: okres_orbind)
  next
    case 12
    with assms(5) run_with_ok [OF assms(1-3), of n] show ?thesis by simp
  qed
qed

lemma effects_with_ok:
  assumes "qk_act_ok T w n act ms" "qk_inv R k" "map_option ps_max_signal (qk_pubsub k) = ms"
    "list_all (qk_call_ok ms) cs" "T \<or> qk_weight w k + qk_effects_weight w cs < n"
  shows "okres T (qk_ret T R w (qk_effects_weight w cs) k) (effects_with n act cs k)"
  using assms(2-)
proof (induction cs arbitrary: k)
  case Nil
  then show ?case by (simp add: qk_ret_def)
next
  case (Cons c cs)
  have "okres T (qk_ret T R w (qk_call_weight w c) k) (effect_with n act c k)"
    using Cons.prems by (intro effect_with_ok [OF assms(1)]) (auto simp: qk_effects_weight_def)
  then show ?case
    unfolding effects_with.simps
  proof (rule okres_orbind)
    fix k1 assume r: "qk_ret T R w (qk_call_weight w c) k k1"
    have "okres T (qk_ret T R w (qk_effects_weight w cs) k1) (effects_with n act cs k1)"
      using Cons.prems r by (intro Cons.IH) (auto simp: qk_ret_def qk_frame_def qk_effects_weight_def)
    then show "okres T (qk_ret T R w (qk_effects_weight w (c # cs)) k) (effects_with n act cs k1)"
      using qk_ret_trans [OF r] by (auto simp: qk_effects_weight_def elim: okres_mono)
  qed
qed

text \<open>The state between two iterations: the handler of the last one has left the stack.\<close>

definition qk_between :: "u8 list \<Rightarrow> u16 option \<Rightarrow> ('p, 'b) QkKernel \<Rightarrow> ('p, 'b) QkKernel \<Rightarrow> bool" where
  "qk_between R ms k k' \<longleftrightarrow> qk_wf k' \<and> qk_ready_ok (set R) k' \<and>
     map (map_option slot_shape) (qk_slots k') = map (map_option slot_shape) (qk_slots k) \<and>
     qk_id_to_prio k' = qk_id_to_prio k \<and> map_option ps_max_signal (qk_pubsub k') = ms"

lemma qk_planned_slot:
  assumes "qk_wf k" "qk_ready_ok (set R) k" "qk_planned R rt d k"
  obtains s e es where "qk_slots k ! unat (next_prio d) = Some s" "ao_events (slot_object s) = e # es"
    "next_prio d < 64" "next_prio d \<notin> set R" "slot_ok (unat (next_prio d)) s"
    "qk_slot (next_prio d) k = Inr s"
proof -
  let ?p = "next_prio d"
  have p: "?p < 64" "bit (sc_ready (qk_sched k)) (unat ?p)" "?p \<notin> set R"
    using assms(3) by (auto simp: qk_planned_def prios_def)
  then have u: "unat ?p < 64" by (simp add: u8_lt_64_iff)
  have "of_nat (unat ?p) = ?p" by simp
  then have "slot_events (qk_slots k ! unat ?p) \<noteq> []"
    using assms(2) p u unfolding qk_ready_ok_def by metis
  then obtain s e es where s: "qk_slots k ! unat ?p = Some s" "ao_events (slot_object s) = e # es"
    by (auto simp: slot_events_def neq_Nil_conv split: option.splits)
  moreover have "slot_ok (unat ?p) s" "qk_slot ?p k = Inr s"
    using assms(1) s u by (simp_all add: qk_wf_def qk_slot_def)
  ultimately show ?thesis using that p by blast
qed

lemma qk_commit:
  assumes "qk_planned R rt d k"
  shows "\<exists>sc. QkScheduler_commit_activation d th (qk_sched k) = Inr sc \<and>
    sc_ready sc = sc_ready (qk_sched k) \<and> sc_active_prio sc = next_prio d \<and> sc_active_threshold sc = th"
  using assms by (simp add: QkScheduler_commit_activation_def qk_planned_def Let_def)

lemma qk_enter_handler:
  fixes k :: "('p, 'b) QkKernel" and b :: 'b
  assumes "qk_wf k" "qk_ready_ok (set R) k" "qk_planned R rt d k"
    "qk_slots k ! unat (next_prio d) = Some s" "ao_events (slot_object s) = e # es"
    "sc_ready sc = sc_ready (qk_sched k)" "sc_active_prio sc = next_prio d"
    "sc_active_threshold sc = slot_threshold s"
  defines "ao \<equiv> (slot_object s)\<lparr>ao_queue := (ao_queue (slot_object s))\<lparr>eq_buf := es\<rparr>, ao_behavior := b\<rparr>"
  shows "qk_inv (next_prio d # R) (qk_set_object (unat (next_prio d)) ao (k\<lparr>qk_sched := sc\<rparr>)) \<and>
    map (map_option slot_shape) (qk_slots (qk_set_object (unat (next_prio d)) ao (k\<lparr>qk_sched := sc\<rparr>))) =
      map (map_option slot_shape) (qk_slots k) \<and>
    qk_weight w (qk_set_object (unat (next_prio d)) ao (k\<lparr>qk_sched := sc\<rparr>)) + w e = qk_weight w k"
proof -
  let ?p = "next_prio d" and ?s = "s\<lparr>slot_object := ao\<rparr>"
  let ?k = "k\<lparr>qk_slots := (qk_slots k)[unat ?p := Some ?s], qk_sched := sc\<rparr>"
  have len: "length (qk_slots k) = 64" using assms(1) by (simp add: qk_wf_def)
  have p: "?p < 64" "bit (sc_ready (qk_sched k)) (unat ?p)"
    using assms(3) by (auto simp: qk_planned_def prios_def)
  have u: "unat ?p < 64" using p(1) by (simp add: u8_lt_64_iff)
  have ok: "slot_ok (unat ?p) s" using assms(1,4) u by (simp add: qk_wf_def)
  have eq: "qk_set_object (unat ?p) ao (k\<lparr>qk_sched := sc\<rparr>) = ?k"
    using assms(4) by (simp add: qk_set_object_def)
  have sh: "slot_shape ?s = slot_shape s" by (simp add: slot_shape_def ao_def)
  have "qk_wf ?k"
    using assms(5) by (intro qk_wf_set_slot [OF assms(1) u assms(4) sh])
      (simp add: ActiveObject_inv_def ao_def)
  moreover have "qk_ready_ok (set (?p # R)) ?k"
    using assms(2,6) len p(2) u
    by (auto simp: qk_ready_ok_def nth_list_update split: if_splits)
  moreover have "qk_active_ok (?p # R) ?k"
  proof -
    have pos: "?p \<noteq> 0" "?p \<le> slot_threshold s" using ok by (auto simp: slot_ok_def)
    moreover have "QkKernel_threshold_for ?p ?k = Inr (slot_threshold s)"
      using pos(1) u len by (simp add: QkKernel_threshold_for_def qk_slot_def)
    moreover have "\<forall>q\<in>set R. q \<noteq> 0 \<and> q \<le> slot_threshold s"
      using assms(3) pos(2) by (fastforce simp: qk_planned_def)
    ultimately show ?thesis using assms(7,8) by (simp add: qk_active_ok_def)
  qed
  moreover have "map (map_option slot_shape) (qk_slots ?k) = map (map_option slot_shape) (qk_slots k)"
    using assms(4) u len sh by (simp add: map_update list_update_same_conv)
  moreover have "qk_weight w ?k + w e = qk_weight w k"
    using qk_weight_set_slot [of "unat ?p" k s, where s' = ?s and w = w and sc = sc] assms(4,5) u len
    by (simp add: ao_def)
  ultimately show ?thesis unfolding eq qk_inv_def by blast
qed

lemma qk_after_dispatch_ok:
  assumes "qk_inv (p # R) k" "p \<notin> set R" "p < 64" "\<forall>q\<in>set R. q \<noteq> 0 \<and> q \<le> rt"
    "qk_slots k ! unat p = Some s" "map_option ps_max_signal (qk_pubsub k) = ms"
  shows "\<exists>nxt k'. qk_after_dispatch p rt k = Inr (nxt, k') \<and> qk_between R ms k k' \<and>
    qk_weight w k' = qk_weight w k \<and> (\<forall>d'. nxt = Some d' \<longrightarrow> qk_planned R rt d' k')"
proof -
  have len: "length (qk_slots k) = 64" using assms(1) by (simp add: qk_inv_def qk_wf_def)
  have u: "unat p < 64" using assms(3) by (simp add: u8_lt_64_iff)
  let ?sc = "if ao_events (slot_object s) = []
    then (qk_sched k)\<lparr>sc_ready := and (sc_ready (qk_sched k)) (not (u64_bit p))\<rparr> else qk_sched k"
  obtain nxt sc where pl: "plan_above rt ?sc = (nxt, sc)" by fastforce
  have sc: "sc_ready sc = sc_ready ?sc" using plan_above_simps(1) [of rt ?sc] pl by simp
  have e: "qk_after_dispatch p rt k = Inr (nxt, k\<lparr>qk_sched := sc\<rparr>)"
    using assms(3,5) u len pl
    by (auto simp: qk_after_dispatch_def qk_slot_def QkScheduler_mark_not_ready_def
        QkScheduler_next_after_dispatch_def split: if_splits)
  have "qk_ready_ok (set R) (k\<lparr>qk_sched := sc\<rparr>)"
    unfolding qk_ready_ok_def
  proof (intro allI impI)
    fix i :: nat assume i: "i < 64"
    have r: "(of_nat i \<notin> set (p # R) \<longrightarrow> bit (sc_ready (qk_sched k)) i = (slot_events (qk_slots k ! i) \<noteq> [])) \<and>
      (slot_events (qk_slots k ! i) \<noteq> [] \<longrightarrow> bit (sc_ready (qk_sched k)) i)"
      using assms(1) i unfolding qk_inv_def qk_ready_ok_def by blast
    have pi: "of_nat i = p \<longleftrightarrow> i = unat p"
      using i by (auto simp: unat_of_nat word_unat_eq_iff)
    show "(of_nat i \<notin> set R \<longrightarrow> bit (sc_ready (qk_sched (k\<lparr>qk_sched := sc\<rparr>))) i =
        (slot_events (qk_slots (k\<lparr>qk_sched := sc\<rparr>) ! i) \<noteq> [])) \<and>
      (slot_events (qk_slots (k\<lparr>qk_sched := sc\<rparr>) ! i) \<noteq> [] \<longrightarrow>
        bit (sc_ready (qk_sched (k\<lparr>qk_sched := sc\<rparr>))) i)"
      using r pi i u assms(2,3,5)
      by (auto simp: sc slot_events_def bit_simps bit_u64_bit split: if_splits)
  qed
  moreover have "qk_wf (k\<lparr>qk_sched := sc\<rparr>)" using assms(1) by (simp add: qk_inv_def qk_wf_def)
  moreover have "qk_planned R rt d' (k\<lparr>qk_sched := sc\<rparr>)" if "nxt = Some d'" for d'
    using plan_above_Some [OF pl [unfolded that]] assms(4) sc by (simp add: qk_planned_def)
  ultimately show ?thesis
    using e assms(6) by (simp add: qk_between_def qk_weight_def)
qed

text \<open>What is assumed of the application's handlers.\<close>

definition qk_bh_ok :: "bool \<Rightarrow> ('p Event \<Rightarrow> nat) \<Rightarrow> u16 option \<Rightarrow> ('p, 'b) QkBehavior \<Rightarrow> bool" where
  "qk_bh_ok T w ms bh \<longleftrightarrow>
     (\<forall>i b e. list_all (qk_call_ok ms) (snd (on_event bh i b e))) \<and>
     (T \<or> (\<forall>i b e. qk_effects_weight w (snd (on_event bh i b e)) < w e))"

definition qk_eff_ok ::
    "bool \<Rightarrow> ('p Event \<Rightarrow> nat) \<Rightarrow> nat \<Rightarrow> u8 list \<Rightarrow> u16 option \<Rightarrow>
     ('p qk_call effect list \<Rightarrow> ('p, 'b) QkKernel \<Rightarrow> ('p, 'b) QkKernel result option) \<Rightarrow> bool" where
  "qk_eff_ok T w n R ms eff \<longleftrightarrow> (\<forall>cs k. qk_inv R k \<longrightarrow>
     map_option ps_max_signal (qk_pubsub k) = ms \<longrightarrow> list_all (qk_call_ok ms) cs \<longrightarrow>
     (T \<or> qk_weight w k + qk_effects_weight w cs < n) \<longrightarrow>
     okres T (qk_ret T R w (qk_effects_weight w cs) k) (eff cs k))"

lemma visible_calls_ok:
  "list_all P cs \<Longrightarrow> list_all P (visible_calls h cs)"
  "qk_effects_weight w (visible_calls h cs) \<le> qk_effects_weight w cs"
  by (induction cs) (auto simp: visible_calls_def qk_effects_weight_def)

lemma activate_step_ok:
  fixes k :: "('p, 'b) QkKernel"
  assumes "qk_bh_ok T w ms bh" "\<And>p. qk_eff_ok T w n (p # R) ms eff"
    "qk_wf k" "qk_ready_ok (set R) k" "qk_planned R rt d k"
    "map_option ps_max_signal (qk_pubsub k) = ms" "T \<or> qk_weight w k \<le> n"
  shows "okres T (\<lambda>(nxt, k'). qk_between R ms k k' \<and> (T \<or> qk_weight w k' < qk_weight w k) \<and>
    (\<forall>d'. nxt = Some d' \<longrightarrow> qk_planned R rt d' k')) (activate_step eff bh rt d k)"
proof -
  let ?p = "next_prio d"
  obtain s e es where s: "qk_slots k ! unat ?p = Some s" "ao_events (slot_object s) = e # es"
    "?p < 64" "?p \<notin> set R" "slot_ok (unat ?p) s" "qk_slot ?p k = Inr s"
    using qk_planned_slot [OF assms(3-5)] .
  obtain sc where sc: "QkScheduler_commit_activation d (slot_threshold s) (qk_sched k) = Inr sc"
    "sc_ready sc = sc_ready (qk_sched k)" "sc_active_prio sc = ?p" "sc_active_threshold sc = slot_threshold s"
    using qk_commit [OF assms(5)] by blast
  obtain b cs where h: "on_event bh (ao_id (slot_object s)) (ao_behavior (slot_object s)) e = (b, cs)"
    by fastforce
  let ?ao = "(slot_object s)\<lparr>ao_queue := (ao_queue (slot_object s))\<lparr>eq_buf := es\<rparr>, ao_behavior := b\<rparr>"
  let ?k1 = "qk_set_object (unat ?p) ?ao (k\<lparr>qk_sched := sc\<rparr>)"
  let ?cs = "visible_calls (ao_trace_hook (slot_object s)) cs"
  have disp: "ActiveObject_dispatch_one bh (slot_object s) = (True, ?ao, ?cs)"
    using s(2) h by (simp add: ActiveObject_dispatch_one_def EventQueue_pop_front_def)
  note enter = qk_enter_handler [OF assms(3-5) s(1,2) sc(2-4), of b w]
  have k1: "qk_inv (?p # R) ?k1" "qk_weight w ?k1 + w e = qk_weight w k"
    "map (map_option slot_shape) (qk_slots ?k1) = map (map_option slot_shape) (qk_slots k)"
    "map_option ps_max_signal (qk_pubsub ?k1) = ms"
    using enter assms(6) by (simp_all add: qk_set_object_def)
  have cs: "list_all (qk_call_ok ms) ?cs" "T \<or> qk_effects_weight w ?cs < w e"
    using assms(1) h visible_calls_ok(1) [of "qk_call_ok ms" cs] visible_calls_ok(2) [of w "ao_trace_hook (slot_object s)" cs]
    unfolding qk_bh_ok_def by (metis snd_conv, metis le_less_trans snd_conv)
  have "okres T (qk_ret T (?p # R) w (qk_effects_weight w ?cs) ?k1) (eff ?cs ?k1)"
    using assms(2) [of ?p] assms(7) k1(1,2,4) cs unfolding qk_eff_ok_def by auto
  then have "okres T (\<lambda>(nxt, k'). qk_between R ms k k' \<and> (T \<or> qk_weight w k' < qk_weight w k) \<and>
      (\<forall>d'. nxt = Some d' \<longrightarrow> qk_planned R rt d' k'))
      (orbind (eff ?cs ?k1) (\<lambda>k2. Some (qk_after_dispatch ?p rt k2)))"
  proof (rule okres_orbind)
    fix k2 assume r: "qk_ret T (?p # R) w (qk_effects_weight w ?cs) ?k1 k2"
    then have f: "qk_frame ?k1 k2" and i2: "qk_inv (?p # R) k2" by (simp_all add: qk_ret_def)
    have u: "unat ?p < length (qk_slots ?k1)" using s(3) k1(1) by (simp add: u8_lt_64_iff qk_inv_def qk_wf_def)
    then obtain s2 where s2: "qk_slots k2 ! unat ?p = Some s2"
      using qk_frame_slot [OF f u] s(1) by (auto simp: qk_set_object_def)
    have rt: "\<forall>q\<in>set R. q \<noteq> 0 \<and> q \<le> rt" using assms(5) by (simp add: qk_planned_def)
    have ms: "map_option ps_max_signal (qk_pubsub k2) = ms" using f k1(4) by (simp add: qk_frame_def)
    obtain nxt k3 where k3: "qk_after_dispatch ?p rt k2 = Inr (nxt, k3)" "qk_between R ms k2 k3"
      "qk_weight w k3 = qk_weight w k2" "\<forall>d'. nxt = Some d' \<longrightarrow> qk_planned R rt d' k3"
      using qk_after_dispatch_ok [OF i2 s(4,3) rt s2 ms, of w] by blast
    moreover have "qk_between R ms k k3" using k3(2) f k1(3) by (simp add: qk_between_def qk_frame_def)
    moreover have "T \<or> qk_weight w k3 < qk_weight w k"
      using r cs(2) k1(2) k3(3) by (auto simp: qk_ret_def)
    ultimately show "okres T (\<lambda>(nxt, k'). qk_between R ms k k' \<and> (T \<or> qk_weight w k' < qk_weight w k) \<and>
      (\<forall>d'. nxt = Some d' \<longrightarrow> qk_planned R rt d' k')) (Some (qk_after_dispatch ?p rt k2))" by simp
  qed
  then show ?thesis using s(6) sc(1) disp by (simp add: activate_step_def Let_def)
qed

lemma qk_restore:
  assumes "qk_between R ms k k'" "qk_active_ok R k" "rt = sc_active_threshold (qk_sched k)"
    "rp = sc_active_prio (qk_sched k)" "map_option ps_max_signal (qk_pubsub k) = ms" "qk_wf k"
  shows "qk_inv R (k'\<lparr>qk_sched := QkScheduler_restore_active rp rt (qk_sched k')\<rparr>) \<and>
    qk_frame k (k'\<lparr>qk_sched := QkScheduler_restore_active rp rt (qk_sched k')\<rparr>)"
proof -
  let ?sc = "QkScheduler_restore_active rp rt (qk_sched k')"
  let ?k = "k'\<lparr>qk_sched := ?sc\<rparr>"
  have sc: "sc_ready ?sc = sc_ready (qk_sched k')" "sc_active_prio ?sc = rp" "sc_active_threshold ?sc = rt"
    by (simp_all add: QkScheduler_restore_active_def Let_def)
  have f: "qk_frame k ?k" using assms sc by (simp add: qk_frame_def qk_between_def)
  have "qk_active_ok R ?k" by (rule qk_active_ok_frame [OF f assms(2)])
  moreover have "qk_wf ?k" "qk_ready_ok (set R) ?k"
    using assms(1) sc(1) by (simp_all add: qk_between_def qk_wf_def qk_ready_ok_def)
  ultimately show ?thesis using f by (simp add: qk_inv_def)
qed

lemma activate_loop_ok:
  assumes "qk_bh_ok T w ms bh" "\<And>p. qk_eff_ok T w n (p # R) ms eff"
    and "qk_wf k0" "qk_active_ok R k0" "rp = sc_active_prio (qk_sched k0)"
      "rt = sc_active_threshold (qk_sched k0)" "map_option ps_max_signal (qk_pubsub k0) = ms"
    and "qk_between R ms k0 k" "qk_planned R rt d k" "T \<or> qk_weight w k \<le> n" "T \<or> qk_weight w k \<le> m"
  shows "okres T (\<lambda>k'. qk_inv R k' \<and> qk_frame k0 k' \<and> (T \<or> qk_weight w k' < qk_weight w k))
    (QkKernel_activate_loop m eff bh rp rt d k)"
  using assms(8-)
proof (induction m arbitrary: k d)
  case 0
  show ?case
  proof (cases T)
    case False
    have wf: "qk_wf k" "qk_ready_ok (set R) k" using 0 by (simp_all add: qk_between_def)
    obtain s e es where s: "qk_slots k ! unat (next_prio d) = Some s" "ao_events (slot_object s) = e # es"
      "next_prio d < 64" using qk_planned_slot [OF wf 0(2)] by metis
    have "w e > 0" using assms(1) False unfolding qk_bh_ok_def by (metis gr_zeroI not_less_zero)
    have "unat (next_prio d) < length (qk_slots k)"
      using s(3) wf(1) by (simp add: u8_lt_64_iff qk_wf_def)
    then have "sum_list (map w (slot_events (qk_slots k ! unat (next_prio d)))) \<le> qk_weight w k"
      unfolding qk_weight_def by (intro member_le_sum_list) simp_all
    with s \<open>w e > 0\<close> 0(4) False show ?thesis by (simp add: slot_events_def)
  qed simp
next
  case (Suc m)
  have wf: "qk_wf k" "qk_ready_ok (set R) k" "map_option ps_max_signal (qk_pubsub k) = ms"
    using Suc.prems(1) by (simp_all add: qk_between_def)
  have "okres T (\<lambda>(nxt, k'). qk_between R ms k k' \<and> (T \<or> qk_weight w k' < qk_weight w k) \<and>
    (\<forall>d'. nxt = Some d' \<longrightarrow> qk_planned R rt d' k')) (activate_step eff bh rt d k)"
    by (rule activate_step_ok [OF assms(1,2) wf(1,2) Suc.prems(2) wf(3) Suc.prems(3)])
  then show ?case
    unfolding QkKernel_activate_loop.simps
  proof (rule okres_orbind, clarify)
    fix nxt k'
    assume b: "qk_between R ms k k'" and w: "T \<or> qk_weight w k' < qk_weight w k"
      and pl: "\<forall>d'. nxt = Some d' \<longrightarrow> qk_planned R rt d' k'"
    have b0: "qk_between R ms k0 k'" using b Suc.prems(1) by (simp add: qk_between_def)
    show "okres T (\<lambda>k'. qk_inv R k' \<and> qk_frame k0 k' \<and> (T \<or> qk_weight w k' < qk_weight w k))
      (case nxt of None \<Rightarrow> Some (Inr (k'\<lparr>qk_sched := QkScheduler_restore_active rp rt (qk_sched k')\<rparr>))
       | Some d' \<Rightarrow> QkKernel_activate_loop m eff bh rp rt d' k')"
    proof (cases nxt)
      case None
      with qk_restore [OF b0 assms(4,6,5,7,3)] w show ?thesis by (simp add: qk_weight_def)
    next
      case (Some d')
      have "okres T (\<lambda>k''. qk_inv R k'' \<and> qk_frame k0 k'' \<and> (T \<or> qk_weight w k'' < qk_weight w k'))
        (QkKernel_activate_loop m eff bh rp rt d' k')"
        using Some pl w Suc.prems(3,4) by (intro Suc.IH [OF b0]) auto
      with Some w show ?thesis by (auto elim!: okres_mono)
    qed
  qed
qed

lemma activate_ok:
  assumes "qk_bh_ok T w ms bh"
  shows "qk_act_ok T w n (QkKernel_activate n bh) ms"
proof (induction n)
  case 0
  show ?case unfolding qk_act_ok_def by auto
next
  case (Suc n)
  have eff: "qk_eff_ok T w n R ms (effects_with n (QkKernel_activate n bh))" for R
    unfolding qk_eff_ok_def using effects_with_ok [OF Suc.IH] by blast
  show ?case
    unfolding qk_act_ok_def
  proof (intro allI impI)
    fix R d and k :: "('a, 'b) QkKernel"
    assume i: "qk_inv R k" and pr: "previous_prio d = sc_active_prio (qk_sched k)"
      and ms: "map_option ps_max_signal (qk_pubsub k) = ms"
      and pl: "qk_planned R (sc_active_threshold (qk_sched k)) d k" and w: "T \<or> qk_weight w k < Suc n"
    have th: "QkKernel_threshold_for (previous_prio d) k = Inr (sc_active_threshold (qk_sched k))"
      using i unfolding pr qk_inv_def qk_active_ok_def by blast
    have b: "qk_between R ms k k" using i ms by (simp add: qk_between_def qk_inv_def)
    have "okres T (\<lambda>k'. qk_inv R k' \<and> qk_frame k k' \<and> (T \<or> qk_weight w k' < qk_weight w k))
      (QkKernel_activate_loop n (effects_with n (QkKernel_activate n bh)) bh (previous_prio d)
        (sc_active_threshold (qk_sched k)) d k)"
      using i w by (intro activate_loop_ok [OF assms eff _ _ pr refl ms b pl]) (auto simp: qk_inv_def)
    then show "okres T (\<lambda>k'. qk_ret T R w 0 k k' \<and> (T \<or> qk_weight w k' < qk_weight w k))
      (QkKernel_activate (Suc n) bh d k)"
      using th by (auto simp: qk_ret_def elim!: okres_mono)
  qed
qed

lemma fill_slots_ok:
  assumes "fill_slots rs slots ids = Inr (Inr (slots', ids'))"
    "\<forall>r\<in>set rs. rg_priority r \<noteq> 0 \<and> rg_priority r \<le> rg_threshold r \<and> ActiveObject_inv (rg_object r) \<and>
       ao_prio (rg_object r) = rg_priority r \<and> rg_id r = ao_id (rg_object r)"
    "length slots = 64" "\<forall>i<64. \<forall>s. slots ! i = Some s \<longrightarrow> slot_ok i s"
    "\<forall>t p. ids t = Some p \<longrightarrow> unat p < 64 \<and> (\<exists>s. slots ! unat p = Some s \<and> ao_id (slot_object s) = t)"
  shows "length slots' = 64 \<and> (\<forall>i<64. \<forall>s. slots' ! i = Some s \<longrightarrow> slot_ok i s) \<and>
    (\<forall>t p. ids' t = Some p \<longrightarrow> unat p < 64 \<and> (\<exists>s. slots' ! unat p = Some s \<and> ao_id (slot_object s) = t))"
  using assms
proof (induction rs arbitrary: slots ids)
  case (Cons r rs)
  let ?p = "unat (rg_priority r)"
  let ?s = "\<lparr>slot_object = rg_object r, slot_threshold = rg_threshold r\<rparr>"
  have p: "?p < 64" "slots ! ?p = None" and
    f: "fill_slots rs (slots[?p := Some ?s]) (ids(rg_id r \<mapsto> rg_priority r)) = Inr (Inr (slots', ids'))"
    using Cons.prems(1,3) by (auto simp: Let_def split: if_splits)
  have r: "rg_priority r \<noteq> 0" "rg_priority r \<le> rg_threshold r" "ActiveObject_inv (rg_object r)"
    "ao_prio (rg_object r) = rg_priority r" "rg_id r = ao_id (rg_object r)"
    using Cons.prems(2) by auto
  have ok: "slot_ok ?p ?s" using r p by (simp add: slot_ok_def unat_gt_0)
  have 1: "\<forall>i<64. \<forall>s. slots[?p := Some ?s] ! i = Some s \<longrightarrow> slot_ok i s"
    using Cons.prems(3,4) ok p(1) by (auto simp: nth_list_update)
  have 2: "\<forall>t p. (ids(rg_id r \<mapsto> rg_priority r)) t = Some p \<longrightarrow> unat p < 64 \<and>
      (\<exists>s. slots[?p := Some ?s] ! unat p = Some s \<and> ao_id (slot_object s) = t)"
  proof (intro allI impI)
    fix t q assume q: "(ids(rg_id r \<mapsto> rg_priority r)) t = Some q"
    show "unat q < 64 \<and> (\<exists>s. slots[?p := Some ?s] ! unat q = Some s \<and> ao_id (slot_object s) = t)"
    proof (cases "t = rg_id r")
      case True
      with q p(1) r(5) Cons.prems(3) show ?thesis by simp
    next
      case False
      with q Cons.prems(5) obtain s where "unat q < 64" "slots ! unat q = Some s" "ao_id (slot_object s) = t"
        by auto
      with p(2) show ?thesis by (cases "unat q = ?p") auto
    qed
  qed
  show ?case by (rule Cons.IH [OF f _ _ 1 2]) (use Cons.prems(2,3) in auto)
qed simp

lemma fill_slots_empty:
  "fill_slots rs slots ids = Inr (Inr (slots', ids')) \<Longrightarrow>
   \<forall>r\<in>set rs. ao_events (rg_object r) = [] \<Longrightarrow> \<forall>i<length slots. slot_events (slots ! i) = [] \<Longrightarrow>
   \<forall>i<length slots. slot_events (slots' ! i) = []"
proof (induction rs arbitrary: slots ids)
  case (Cons r rs)
  let ?slots = "slots[unat (rg_priority r) := Some \<lparr>slot_object = rg_object r, slot_threshold = rg_threshold r\<rparr>]"
  have f: "fill_slots rs ?slots (ids(rg_id r \<mapsto> rg_priority r)) = Inr (Inr (slots', ids'))"
    and p: "unat (rg_priority r) < length slots"
    using Cons.prems(1) by (auto simp: Let_def split: if_splits)
  have "\<forall>i<length ?slots. slot_events (slots' ! i) = []"
    using Cons.prems(2,3) p by (intro Cons.IH [OF f]) (auto simp: nth_list_update slot_events_def)
  then show ?case by simp
qed simp

text \<open>The builder only holds validated registrations.\<close>

definition QkKernelBuilder_inv :: "('p, 'b) QkKernelBuilder \<Rightarrow> bool" where
  "QkKernelBuilder_inv b \<longleftrightarrow>
     (\<forall>r\<in>set (qb_registrations b). rg_priority r \<noteq> 0 \<and> rg_priority r < 64 \<and>
        rg_priority r \<le> rg_threshold r \<and> ActiveObject_inv (rg_object r) \<and>
        ao_prio (rg_object r) = rg_priority r \<and> rg_id r = ao_id (rg_object r)) \<and>
     (\<forall>ps. qb_pubsub b = Some ps \<longrightarrow> length (ps_subscriptions ps) = unat (ps_max_signal ps) + 1)"

lemma QkKernelBuilder_register_inv:
  assumes "QkKernelBuilder_inv b" "ActiveObject_inv ao"
    "QkKernelBuilder_register_with_threshold ao th b = Inr (Inr b')"
  shows "QkKernelBuilder_inv b'"
  using assms
  by (auto simp: QkKernelBuilder_inv_def QkKernelBuilder_register_with_threshold_def
      push_registration_def validate_priority_def validate_threshold_def res_simps MAX_PRIORITY_def
      ActiveObject_inv_def u8_lt_64_iff not_less split: if_splits)

lemma QkKernel_build_inv:
  assumes "QkKernelBuilder_inv b" "QkKernelBuilder_build b = Inr (Inr k)"
    "\<forall>r\<in>set (qb_registrations b). ao_events (rg_object r) = []"
  shows "qk_inv [] k"
proof -
  from assms(2) obtain slots ids where
    f: "fill_slots (qb_registrations b) (replicate 64 None) Map.empty = Inr (Inr (slots, ids))"
    and k: "k = \<lparr>qk_sched = QkScheduler_set_context_switch_hook (qb_context_sw b)
                (QkScheduler_configure_active 0 0 (QkScheduler_new (qb_trace b))),
              qk_slots = slots, qk_id_to_prio = ids, qk_pubsub = qb_pubsub b\<rparr>"
    by (auto simp: QkKernelBuilder_build_def QkKernel_new_def MAX_PRIORITY_def res_simps)
  have "length slots = 64 \<and> (\<forall>i<64. \<forall>s. slots ! i = Some s \<longrightarrow> slot_ok i s) \<and>
    (\<forall>t p. ids t = Some p \<longrightarrow> unat p < 64 \<and> (\<exists>s. slots ! unat p = Some s \<and> ao_id (slot_object s) = t))"
    using assms(1) by (intro fill_slots_ok [OF f]) (auto simp: QkKernelBuilder_inv_def)
  then have wf: "qk_wf k" using assms(1) by (simp add: qk_wf_def k QkKernelBuilder_inv_def)
  have "\<forall>i<64. slot_events (slots ! i) = []"
    using fill_slots_empty [OF f assms(3)] by (simp add: slot_events_def)
  then have "qk_ready_ok (set []) k"
    by (simp add: qk_ready_ok_def k QkScheduler_set_context_switch_hook_def
        QkScheduler_configure_active_def QkScheduler_new_def)
  moreover have "qk_active_ok [] k"
    by (simp add: qk_active_ok_def k QkScheduler_set_context_switch_hook_def QkKernel_threshold_for_def
        QkScheduler_configure_active_def QkScheduler_new_def)
  ultimately show ?thesis using wf by (simp add: qk_inv_def)
qed

section \<open>The result does not depend on the fuel\<close>

definition act_le ::
    "(ScheduleDecision \<Rightarrow> ('p, 'b) QkKernel \<Rightarrow> ('p, 'b) QkKernel result option) \<Rightarrow>
     (ScheduleDecision \<Rightarrow> ('p, 'b) QkKernel \<Rightarrow> ('p, 'b) QkKernel result option) \<Rightarrow> bool" where
  "act_le a b \<longleftrightarrow> (\<forall>d k r. a d k = Some r \<longrightarrow> b d k = Some r)"

lemma orbind_Some_iff:
  "orbind m f = Some r \<longleftrightarrow> (\<exists>e. m = Some (Inl e) \<and> r = Inl e) \<or> (\<exists>x. m = Some (Inr x) \<and> f x = Some r)"
  by (auto simp: orbind_def split: option.splits sum.splits)

lemma orbind_mono:
  assumes "orbind m f = Some r" "\<And>r. m = Some r \<Longrightarrow> m' = Some r"
    "\<And>x r. f x = Some r \<Longrightarrow> f' x = Some r"
  shows "orbind m' f' = Some r"
  using assms unfolding orbind_Some_iff by blast

lemma dispatch_with_mono: "act_le a b \<Longrightarrow> dispatch_with a k = Some r \<Longrightarrow> dispatch_with b k = Some r"
  by (auto simp: dispatch_with_def act_le_def orbind_Some_iff split: prod.splits option.splits)

lemma run_with_mono: "act_le a b \<Longrightarrow> run_with m a k = Some r \<Longrightarrow> m \<le> m' \<Longrightarrow> run_with m' b k = Some r"
proof (induction m arbitrary: k r m')
  case (Suc m)
  then obtain m'' where m': "m' = Suc m''" "m \<le> m''" by (cases m') auto
  from Suc.prems(2) show ?case
    unfolding m' run_with.simps
    by (rule orbind_mono)
      (use dispatch_with_mono [OF Suc.prems(1)] Suc.IH [OF Suc.prems(1) _ m'(2)] in \<open>auto split: if_splits\<close>)
qed simp

lemma unlock_with_mono: "act_le a b \<Longrightarrow> unlock_with a st k = Some r \<Longrightarrow> unlock_with b st k = Some r"
  by (auto simp: unlock_with_def act_le_def Let_def split: prod.splits option.splits if_splits)

lemma post_and_run_with_mono:
  assumes "act_le a b" "post_and_run_with m a t e k = Some r" "m \<le> m'"
  shows "post_and_run_with m' b t e k = Some r"
  using assms(2) unfolding post_and_run_with_def
  by (rule orbind_mono)
    (auto split: sum.splits elim!: orbind_mono dest: run_with_mono [OF assms(1) _ assms(3)])

lemma effect_with_mono:
  assumes "act_le a b" "effect_with m a c k = Some r" "m \<le> m'"
  shows "effect_with m' b c k = Some r"
  using assms(2)
  by (cases "(m, a, c, k)" rule: effect_with.cases)
    (auto elim!: orbind_mono dest: run_with_mono [OF assms(1) _ assms(3)] dispatch_with_mono [OF assms(1)]
      unlock_with_mono [OF assms(1)] post_and_run_with_mono [OF assms(1) _ assms(3)])

lemma effects_with_mono:
  "act_le a b \<Longrightarrow> effects_with m a cs k = Some r \<Longrightarrow> m \<le> m' \<Longrightarrow> effects_with m' b cs k = Some r"
  by (induction cs arbitrary: k r) (auto elim!: orbind_mono dest: effect_with_mono)

lemma activate_step_mono:
  assumes "activate_step eff bh rt d k = Some r" "\<And>cs k r. eff cs k = Some r \<Longrightarrow> eff' cs k = Some r"
  shows "activate_step eff' bh rt d k = Some r"
  using assms(1) unfolding activate_step_def
  by (rule orbind_mono) (auto split: prod.splits elim!: orbind_mono assms(2))

lemma activate_loop_mono:
  assumes "QkKernel_activate_loop m eff bh rp rt d k = Some r" "m \<le> m'"
    "\<And>cs k r. eff cs k = Some r \<Longrightarrow> eff' cs k = Some r"
  shows "QkKernel_activate_loop m' eff' bh rp rt d k = Some r"
  using assms(1,2)
proof (induction m arbitrary: d k r m')
  case (Suc m)
  then obtain m'' where m': "m' = Suc m''" "m \<le> m''" by (cases m') auto
  from Suc.prems(1) show ?case
    unfolding m' QkKernel_activate_loop.simps
    by (rule orbind_mono)
      (auto split: option.splits elim!: activate_step_mono assms(3) dest: Suc.IH [OF _ m'(2)])
qed simp

lemma activate_mono: "act_le (QkKernel_activate n bh) (QkKernel_activate (Suc n) bh)"
proof (induction n)
  case 0
  show ?case by (simp add: act_le_def)
next
  case (Suc n)
  have "QkKernel_activate (Suc (Suc n)) bh d k = Some r" if "QkKernel_activate (Suc n) bh d k = Some r" for d k r
    unfolding QkKernel_activate.simps(2) [of "Suc n"]
  proof (rule orbind_mono [OF that [unfolded QkKernel_activate.simps(2)]])
    fix rt r
    assume "QkKernel_activate_loop n (effects_with n (QkKernel_activate n bh)) bh (previous_prio d) rt d k = Some r"
    then show "QkKernel_activate_loop (Suc n) (effects_with (Suc n) (QkKernel_activate (Suc n) bh)) bh
        (previous_prio d) rt d k = Some r"
      by (rule activate_loop_mono) (simp, erule effects_with_mono [OF Suc.IH], simp)
  qed
  then show ?case unfolding act_le_def by blast
qed

lemma activate_mono_le: "n \<le> n' \<Longrightarrow> act_le (QkKernel_activate n bh) (QkKernel_activate n' bh)"
proof (induction rule: dec_induct)
  case base
  show ?case by (simp add: act_le_def)
next
  case (step m)
  then show ?case using activate_mono [of m bh] unfolding act_le_def by blast
qed

lemma run_until_idle_mono:
  "QkKernel_run_until_idle n bh k = Some r \<Longrightarrow> n \<le> n' \<Longrightarrow> QkKernel_run_until_idle n' bh k = Some r"
  unfolding QkKernel_run_until_idle_def using run_with_mono [OF activate_mono_le] by blast

section \<open>Quiescence\<close>

lemma run_with_idle:
  "run_with m act k = Some (Inr k') \<Longrightarrow> q \<in> prios (sc_ready (qk_sched k')) \<Longrightarrow>
   q \<le> sc_active_threshold (qk_sched k') \<or> q \<le> sc_lock_ceiling (qk_sched k')"
proof (induction m arbitrary: k)
  case (Suc m)
  then obtain ran k1 where k1: "dispatch_with act k = Some (Inr (ran, k1))"
    "(if ran then run_with m act k1 else Some (Inr k1)) = Some (Inr k')"
    by (auto simp: res_simps)
  show ?case
  proof (cases ran)
    case False
    with k1 have "qk_plan k = (None, k')"
      by (auto simp: dispatch_with_def res_simps split: prod.splits option.splits)
    then obtain sc where "plan_above (sc_active_threshold (qk_sched k)) (qk_sched k) = (None, sc)"
      "k' = k\<lparr>qk_sched := sc\<rparr>"
      by (auto simp: qk_plan_def QkScheduler_plan_activation_def split: prod.splits)
    with plan_above_None(1) plan_above_None(2) [of _ "qk_sched k" sc q] Suc.prems(2) show ?thesis
      by fastforce
  qed (use k1 Suc in auto)
qed simp

section \<open>Properties\<close>

text \<open>
  C2: (no fault, invariant) Whatever the nesting of handlers, and whatever the fuel, running a
  well-formed preemptive kernel to idle never faults: no activated object lacks an event, no
  slot is missing, no committed decision is stale, provided handlers only use signals and
  priorities in the range of the subscription table. The invariant is kept: off the preemption
  stack a priority is marked ready exactly when its queue is not empty.
\<close>

theorem QkKernel_run_until_idle_safe:
  assumes "qk_inv R k" "\<forall>i b e. list_all (qk_call_ok (map_option ps_max_signal (qk_pubsub k))) (snd (on_event bh i b e))"
  shows "case QkKernel_run_until_idle n bh k of
      None \<Rightarrow> True | Some (Inl f) \<Rightarrow> False | Some (Inr k') \<Rightarrow> qk_inv R k' \<and> qk_frame k k'"
proof -
  have "qk_bh_ok True (\<lambda>_. 0) (map_option ps_max_signal (qk_pubsub k)) bh"
    using assms(2) by (simp add: qk_bh_ok_def)
  from run_with_ok [OF activate_ok [OF this, of n] assms(1) refl, of n]
  show ?thesis
    by (auto simp: QkKernel_run_until_idle_def okres_def qk_ret_def split: option.splits sum.splits)
qed

text \<open>
  C1: (termination and quiescence) If handling any event causes less work than the event was
  worth (a post counts its event, a publish 64 times), then fuel above the total worth of the
  queued events is enough: \<open>run_until_idle\<close> returns, the same for every such fuel, and every
  object that still has events has a priority at most the ceiling of the scheduler lock.
\<close>

theorem QkKernel_run_until_idle_terminates:
  assumes "qk_inv [] k" "\<forall>i b e. list_all (qk_call_ok (map_option ps_max_signal (qk_pubsub k))) (snd (on_event bh i b e))"
    "\<forall>i b e. qk_effects_weight w (snd (on_event bh i b e)) < w e"
  shows "\<exists>k'. (\<forall>n>qk_weight w k. QkKernel_run_until_idle n bh k = Some (Inr k')) \<and> qk_inv [] k' \<and>
    (\<forall>p<64. slot_events (qk_slots k' ! p) \<noteq> [] \<longrightarrow> of_nat p \<le> sc_lock_ceiling (qk_sched k'))"
proof -
  let ?n = "Suc (qk_weight w k)"
  have "qk_bh_ok False w (map_option ps_max_signal (qk_pubsub k)) bh"
    using assms(2,3) by (simp add: qk_bh_ok_def)
  from run_with_ok [OF activate_ok [OF this, of ?n] assms(1) refl, of ?n]
  obtain k' where k': "QkKernel_run_until_idle ?n bh k = Some (Inr k')" "qk_inv [] k'"
    by (auto simp: QkKernel_run_until_idle_def okres_def qk_ret_def split: option.splits sum.splits)
  have all: "\<forall>n>qk_weight w k. QkKernel_run_until_idle n bh k = Some (Inr k')"
    using run_until_idle_mono [OF k'(1)] by simp
  have "of_nat p \<le> sc_lock_ceiling (qk_sched k')" if p: "p < 64" "slot_events (qk_slots k' ! p) \<noteq> []" for p
  proof -
    have "bit (sc_ready (qk_sched k')) p" using k'(2) p by (simp add: qk_inv_def qk_ready_ok_def)
    then have "of_nat p \<in> prios (sc_ready (qk_sched k'))"
      using p(1) by (simp add: prios_def u8_lt_64_iff unat_of_nat)
    from run_with_idle [OF k'(1) [unfolded QkKernel_run_until_idle_def] this]
    have "of_nat p \<le> sc_active_threshold (qk_sched k') \<or> of_nat p \<le> sc_lock_ceiling (qk_sched k')" .
    moreover have "sc_active_threshold (qk_sched k') = 0"
      using k'(2) by (auto simp: qk_inv_def qk_active_ok_def QkKernel_threshold_for_def)
    ultimately show ?thesis by auto
  qed
  with all k'(2) show ?thesis by blast
qed

section \<open>Lost wake-up\<close>

lemma QkKernel_post_nonempty:
  assumes "qk_wf k" "qk_id_to_prio k t = Some p" "qk_slots k ! unat p = Some s"
    "ao_events (slot_object s) = x # xs"
  shows "\<exists>k' s'. QkKernel_post t e k = Inr (Inr (), k') \<and> qk_wf k' \<and> qk_id_to_prio k' t = Some p \<and>
    qk_slots k' ! unat p = Some s' \<and> ao_events (slot_object s') = ao_events (slot_object s) @ [e] \<and>
    sc_ready (qk_sched k') = sc_ready (qk_sched k)"
proof -
  have u: "unat p < 64" "length (qk_slots k) = 64" using assms(1,2) by (auto simp: qk_wf_def)
  obtain ao where ao: "ActiveObject_post None e (slot_object s) = Inr ao"
    "ao_events ao = ao_events (slot_object s) @ [e]" "ao_id ao = ao_id (slot_object s)"
    "ao_priority ao = ao_priority (slot_object s)"
    "ActiveObject_inv (slot_object s) \<longrightarrow> ActiveObject_inv ao"
    using ActiveObject_post_None by blast
  let ?k = "k\<lparr>qk_slots := (qk_slots k)[unat p := Some (s\<lparr>slot_object := ao\<rparr>)]\<rparr>"
  have "QkKernel_post t e k = Inr (Inr (), ?k)"
    using assms(2-) u ao(1)
    by (simp add: QkKernel_post_def qk_slot_def post_to_slot_def qk_set_object_def)
  moreover have "qk_wf ?k"
    using qk_wf_set_slot [OF assms(1) u(1) assms(3), of "s\<lparr>slot_object := ao\<rparr>" "qk_sched k"] ao
    by (simp add: slot_shape_def)
  ultimately show ?thesis using assms(2) u ao(2) by auto
qed

lemma QkKernel_posts_not_ready:
  assumes "qk_wf k" "qk_id_to_prio k t = Some p" "qk_slots k ! unat p = Some s"
    "ao_events (slot_object s) \<noteq> []" "p \<notin> prios (sc_ready (qk_sched k))"
  shows "\<exists>k'. QkKernel_posts t es k = Inr k' \<and> p \<notin> prios (sc_ready (qk_sched k')) \<and>
    slot_events (qk_slots k' ! unat p) = ao_events (slot_object s) @ es"
  using assms
proof (induction es arbitrary: k s)
  case Nil
  then show ?case by (simp add: slot_events_def)
next
  case (Cons e es)
  obtain x xs where "ao_events (slot_object s) = x # xs" using Cons.prems(4) by (cases "ao_events (slot_object s)") auto
  from QkKernel_post_nonempty [OF Cons.prems(1-3) this, of e]
  obtain k1 s1 where k1: "QkKernel_post t e k = Inr (Inr (), k1)" "qk_wf k1" "qk_id_to_prio k1 t = Some p"
    "qk_slots k1 ! unat p = Some s1" "ao_events (slot_object s1) = ao_events (slot_object s) @ [e]"
    "sc_ready (qk_sched k1) = sc_ready (qk_sched k)" by blast
  from Cons.IH [OF k1(2-4)] k1 Cons.prems(5) show ?case by simp
qed

text \<open>
  (lost wake-up) The two-step end of \<open>activate\<close> can lose an event: when a post falls between
  reading \<open>has_events\<close> and clearing the ready bit, the event stays queued while its object is not
  ready, and no number of later posts to the object makes it ready again, since a post marks the
  object ready only when it finds the queue empty.
\<close>

theorem QkKernel_lost_wakeup:
  assumes "qk_wf k" "qk_ready_ok R k" "qk_id_to_prio k t = Some p" "slot_events (qk_slots k ! unat p) = []"
  shows "\<exists>k'. qk_race p t e k = Inr k' \<and> slot_events (qk_slots k' ! unat p) = [e] \<and>
    (\<forall>es. \<exists>k''. QkKernel_posts t es k' = Inr k'' \<and> p \<notin> prios (sc_ready (qk_sched k'')) \<and>
      slot_events (qk_slots k'' ! unat p) = e # es)"
proof -
  obtain s where s: "unat p < 64" "qk_slots k ! unat p = Some s" using assms(1,3) unfolding qk_wf_def by blast
  have len: "length (qk_slots k) = 64" using assms(1) by (simp add: qk_wf_def)
  have p: "p < 64" using s(1) by (simp add: u8_lt_64_iff)
  obtain k1 where k1: "post_to_slot (unat p) s e k = Inr k1" "qk_wf k1" "qk_id_to_prio k1 = qk_id_to_prio k"
    "slot_events (qk_slots k1 ! unat p) = [e]"
    using post_to_slot_ok [OF assms(1,2) s, of e "\<lambda>_. 0"] assms(4) by auto
  obtain s1 where s1: "qk_slots k1 ! unat p = Some s1" "ao_events (slot_object s1) = [e]"
    using k1(4) by (auto simp: slot_events_def split: option.splits)
  let ?k' = "k1\<lparr>qk_sched := (qk_sched k1)\<lparr>sc_ready := and (sc_ready (qk_sched k1)) (not (u64_bit p))\<rparr>\<rparr>"
  have r: "qk_race p t e k = Inr ?k'"
    using assms(3,4) s len k1(1) p
    by (simp add: qk_race_def qk_slot_def QkKernel_post_def slot_events_def qk_clear_ready_def
        QkScheduler_mark_not_ready_def)
  have wf: "qk_wf ?k'" using k1(2) by (simp add: qk_wf_def)
  have np: "p \<notin> prios (sc_ready (qk_sched ?k'))" using p by (simp add: prios_remove)
  have ids: "qk_id_to_prio ?k' t = Some p" using k1(3) assms(3) by simp
  have sl: "qk_slots ?k' ! unat p = Some s1" "ao_events (slot_object s1) \<noteq> []" using s1 by simp_all
  have "\<exists>k''. QkKernel_posts t es ?k' = Inr k'' \<and> p \<notin> prios (sc_ready (qk_sched k'')) \<and>
      slot_events (qk_slots k'' ! unat p) = e # es" for es
    using QkKernel_posts_not_ready [OF wf ids sl np, of es] s1(2) by simp
  with r k1(4) show ?thesis by simp
qed

section \<open>Witnesses\<close>

lemmas qk_demo_defs = qk_demo_builder_def qk_demo_regs_def QkKernelBuilder_new_def

lemma qk_demo_build: "QkKernelBuilder_build qk_demo_builder = Inr (Inr qk_demo_kernel)"
  unfolding qk_demo_kernel_def
  by (simp add: qk_demo_defs QkKernelBuilder_build_def QkKernel_new_def MAX_PRIORITY_def Let_def)

lemma qk_demo_inv: "qk_inv [] qk_demo_kernel"
  by (rule QkKernel_build_inv [OF _ qk_demo_build])
    (auto simp: QkKernelBuilder_inv_def qk_demo_defs ActiveObject_new_def EventQueue_new_def
      ActiveObject_inv_def Dis_new_def Dis_is_intact_def)

lemma qk_demo_id: "qk_id_to_prio qk_demo_kernel 1 = Some 2" "qk_pubsub qk_demo_kernel = None"
  by (simp_all add: qk_demo_kernel_def qk_demo_defs QkKernelBuilder_build_def QkKernel_new_def
      MAX_PRIORITY_def Let_def)

lemma qk_demo_posted: "qk_inv [] qk_demo_posted" "qk_pubsub qk_demo_posted = None"
proof -
  have i: "qk_wf qk_demo_kernel" "qk_ready_ok (set []) qk_demo_kernel" "qk_active_ok [] qk_demo_kernel"
    using qk_demo_inv by (simp_all add: qk_inv_def)
  obtain r k' where k': "QkKernel_post 1 (Event_new 4 ()) qk_demo_kernel = Inr (r, k')" "qk_wf k'"
    "qk_ready_ok (set []) k'" "qk_frame qk_demo_kernel k'"
    using QkKernel_post_ok [OF i(1,2), of 1 "Event_new 4 ()" "\<lambda>_. 0"] by blast
  then have "qk_demo_posted = k'" by (simp add: qk_demo_posted_def)
  with k' qk_active_ok_frame [OF k'(4) i(3)] qk_demo_id(2)
  show "qk_inv [] qk_demo_posted" "qk_pubsub qk_demo_posted = None"
    by (simp_all add: qk_inv_def qk_frame_def)
qed

lemma qk_demo_bh_ok:
  "list_all (qk_call_ok None) (snd (on_event qk_demo_bh i b e))"
  "qk_effects_weight (\<lambda>e. if Event_signal e = 4 then 2 else 1) (snd (on_event qk_demo_bh i b e)) <
     (if Event_signal e = 4 then 2 else 1)"
  by (simp_all add: qk_demo_bh_def qk_effects_weight_def Event_signal_def Event_new_def EventHeader_new_def)

theorem QkKernel_run_until_idle_safe_witness:
  "case QkKernel_run_until_idle 9 qk_demo_bh qk_demo_posted of
     None \<Rightarrow> True | Some (Inl f) \<Rightarrow> False | Some (Inr k') \<Rightarrow> qk_inv [] k' \<and> qk_frame qk_demo_posted k'"
  using QkKernel_run_until_idle_safe [OF qk_demo_posted(1), of qk_demo_bh 9] qk_demo_posted(2)
  by (simp add: qk_demo_bh_ok)

theorem QkKernel_run_until_idle_terminates_witness:
  "\<exists>k'. (\<forall>n > qk_weight (\<lambda>e. if Event_signal e = 4 then 2 else 1) qk_demo_posted.
     QkKernel_run_until_idle n qk_demo_bh qk_demo_posted = Some (Inr k')) \<and> qk_inv [] k'"
  using QkKernel_run_until_idle_terminates [OF qk_demo_posted(1), of qk_demo_bh
      "\<lambda>e. if Event_signal e = 4 then 2 else 1"] qk_demo_posted(2) qk_demo_bh_ok
  by (auto simp del: split_paired_All) 

theorem QkKernel_lost_wakeup_witness:
  "\<exists>k'. qk_race 2 1 (Event_new 9 ()) qk_demo_kernel = Inr k' \<and>
     slot_events (qk_slots k' ! 2) = [Event_new 9 ()]"
proof -
  have i: "qk_wf qk_demo_kernel" "qk_ready_ok {} qk_demo_kernel" using qk_demo_inv by (simp_all add: qk_inv_def)
  have "slot_events (qk_slots qk_demo_kernel ! unat 2) = []"
    by (simp add: qk_demo_kernel_def qk_demo_defs QkKernelBuilder_build_def QkKernel_new_def
        MAX_PRIORITY_def Let_def slot_events_def ActiveObject_new_def EventQueue_new_def)
  from QkKernel_lost_wakeup [OF i qk_demo_id(1) this, of "Event_new 9 ()"] show ?thesis by auto
qed

end
