(* ===== verification/QxkSched.thy ===== *)
theory QxkSched
  imports ReadySet "HOL-Library.Multiset"
begin

text \<open>
  The dual-mode scheduler of the QXK kernel (\<open>crates/qxk/src/scheduler.rs\<close>): a lock ceiling, the
  ready set of the active objects and the ready queue of the extended threads, in the single-core
  build, and the multi-core (\<open>smp\<close>) variant with eight cores. The mutex around the state makes
  each operation atomic. The ready queue is kept in order by \<open>sort_unstable_by_key\<close>, whose
  result is not determined for equal priorities: it is the argument \<open>srt\<close>, and the theorems rely
  on what the library documents of it, \<open>sorts_by_priority\<close>.
\<close>

section \<open>Thread ready queue\<close>

type_synonym ready_thread = "u8 \<times> u8"
type_synonym ready_queue = "ready_thread list"

definition sorts_by_priority :: "(ready_queue \<Rightarrow> ready_queue) \<Rightarrow> bool" where
  "sorts_by_priority srt \<longleftrightarrow>
     (\<forall>q. mset (srt q) = mset q \<and> sorted_wrt (\<lambda>a b. snd b \<le> snd a) (srt q))"

text \<open>An admissible sort: insertion, which keeps the order of equal priorities.\<close>

definition ready_sort :: "ready_queue \<Rightarrow> ready_queue" where
  "ready_sort q = sort_key (\<lambda>t. 255 - unat (snd t)) q"

definition ThreadReadyQueue_insert ::
    "(ready_queue \<Rightarrow> ready_queue) \<Rightarrow> u8 \<Rightarrow> u8 \<Rightarrow> ready_queue \<Rightarrow> ready_queue" where
  "ThreadReadyQueue_insert srt tid prio q =
     (if \<not> list_ex (\<lambda>t. fst t = tid) q then srt (q @ [(tid, prio)]) else q)"

definition ThreadReadyQueue_remove :: "u8 \<Rightarrow> ready_queue \<Rightarrow> ready_queue" where
  "ThreadReadyQueue_remove tid q = filter (\<lambda>t. fst t \<noteq> tid) q"

definition ThreadReadyQueue_max :: "ready_queue \<Rightarrow> ready_thread option" where
  "ThreadReadyQueue_max q = (case q of [] \<Rightarrow> None | t # _ \<Rightarrow> Some t)"

definition ThreadReadyQueue_is_empty :: "ready_queue \<Rightarrow> bool" where
  "ThreadReadyQueue_is_empty q \<longleftrightarrow> q = []"

definition ThreadReadyQueue_clear :: "ready_queue \<Rightarrow> ready_queue" where
  "ThreadReadyQueue_clear q = []"

section \<open>Single-core scheduler\<close>

datatype ScheduleMode = ActiveObjectMode u8 | ExtendedThreadMode u8 u8 | IdleMode

datatype QxkSchedStatus = QxkUnlocked | QxkLocked u8

definition QxkSchedStatus_is_locked :: "QxkSchedStatus \<Rightarrow> bool" where
  "QxkSchedStatus_is_locked st = (case st of QxkLocked _ \<Rightarrow> True | QxkUnlocked \<Rightarrow> False)"

definition QXK_SCHED_LOCK :: u8 where "QXK_SCHED_LOCK = 50"
definition QXK_SCHED_UNLOCK :: u8 where "QXK_SCHED_UNLOCK = 51"
definition QXK_SCHED_NEXT :: u8 where "QXK_SCHED_NEXT = 52"
definition QXK_SCHED_IDLE :: u8 where "QXK_SCHED_IDLE = 53"
definition THREAD_NEXT :: u8 where "THREAD_NEXT = 100"

record QxkScheduler =
  xs_lock_ceiling :: u8
  xs_ao_ready :: ready_set
  xs_thread_ready :: ready_queue
  xs_active_prio :: u8
  xs_active_thread :: "u8 option"
  xs_trace :: trace

definition QxkScheduler_new :: "trace \<Rightarrow> QxkScheduler" where
  "QxkScheduler_new t =
     \<lparr>xs_lock_ceiling = 0, xs_ao_ready = 0, xs_thread_ready = [], xs_active_prio = 0,
      xs_active_thread = None, xs_trace = t\<rparr>"

definition QxkScheduler_set_trace_hook :: "trace \<Rightarrow> QxkScheduler \<Rightarrow> QxkScheduler" where
  "QxkScheduler_set_trace_hook t s = s\<lparr>xs_trace := t\<rparr>"

definition QxkScheduler_emit_trace :: "u8 \<Rightarrow> u8 list \<Rightarrow> QxkScheduler \<Rightarrow> QxkScheduler" where
  "QxkScheduler_emit_trace r p s = s\<lparr>xs_trace := emit r p True (xs_trace s)\<rparr>"

definition QxkScheduler_lock :: "u8 \<Rightarrow> QxkScheduler \<Rightarrow> QxkSchedStatus \<times> QxkScheduler" where
  "QxkScheduler_lock ceiling s =
     (if ceiling > xs_lock_ceiling s
      then (QxkLocked (xs_lock_ceiling s),
            QxkScheduler_emit_trace QXK_SCHED_LOCK [ceiling] (s\<lparr>xs_lock_ceiling := ceiling\<rparr>))
      else (QxkUnlocked, s))"

definition QxkScheduler_unlock :: "QxkSchedStatus \<Rightarrow> QxkScheduler \<Rightarrow> QxkScheduler" where
  "QxkScheduler_unlock prev s =
     (case prev of
        QxkLocked v \<Rightarrow>
          (if xs_lock_ceiling s > v
           then QxkScheduler_emit_trace QXK_SCHED_UNLOCK [xs_lock_ceiling s, v] (s\<lparr>xs_lock_ceiling := v\<rparr>)
           else s)
      | QxkUnlocked \<Rightarrow> s)"

definition QxkScheduler_mark_ao_ready :: "u8 \<Rightarrow> QxkScheduler \<Rightarrow> QxkScheduler result" where
  "QxkScheduler_mark_ao_ready p s =
     rbind (ReadySet_insert p (xs_ao_ready s)) (\<lambda>r. Inr (s\<lparr>xs_ao_ready := r\<rparr>))"

definition QxkScheduler_mark_ao_not_ready :: "u8 \<Rightarrow> QxkScheduler \<Rightarrow> QxkScheduler result" where
  "QxkScheduler_mark_ao_not_ready p s =
     rbind (ReadySet_remove p (xs_ao_ready s)) (\<lambda>r. Inr (s\<lparr>xs_ao_ready := r\<rparr>))"

definition QxkScheduler_is_ao_ready :: "u8 \<Rightarrow> QxkScheduler \<Rightarrow> bool result" where
  "QxkScheduler_is_ao_ready p s = ReadySet_contains p (xs_ao_ready s)"

definition QxkScheduler_mark_thread_ready ::
    "(ready_queue \<Rightarrow> ready_queue) \<Rightarrow> u8 \<Rightarrow> u8 \<Rightarrow> QxkScheduler \<Rightarrow> QxkScheduler" where
  "QxkScheduler_mark_thread_ready srt tid prio s =
     s\<lparr>xs_thread_ready := ThreadReadyQueue_insert srt tid prio (xs_thread_ready s)\<rparr>"

definition QxkScheduler_mark_thread_not_ready :: "u8 \<Rightarrow> QxkScheduler \<Rightarrow> QxkScheduler" where
  "QxkScheduler_mark_thread_not_ready tid s =
     s\<lparr>xs_thread_ready := ThreadReadyQueue_remove tid (xs_thread_ready s)\<rparr>"

text \<open>The planner of the single-core build; the ceiling applies to active objects only.\<close>

definition plan_thread :: "QxkScheduler \<Rightarrow> ScheduleMode \<times> QxkScheduler" where
  "plan_thread s =
     (case ThreadReadyQueue_max (xs_thread_ready s) of
        Some (tid, prio) \<Rightarrow> (ExtendedThreadMode tid prio, QxkScheduler_emit_trace THREAD_NEXT [tid, prio] s)
      | None \<Rightarrow> (IdleMode, QxkScheduler_emit_trace QXK_SCHED_IDLE [] s))"

definition QxkScheduler_plan_next :: "QxkScheduler \<Rightarrow> ScheduleMode \<times> QxkScheduler" where
  "QxkScheduler_plan_next s =
     (case ReadySet_max (xs_ao_ready s) of
        Some p \<Rightarrow>
          (if p > xs_lock_ceiling s
           then (ActiveObjectMode p, QxkScheduler_emit_trace QXK_SCHED_NEXT [p] s)
           else plan_thread s)
      | None \<Rightarrow> plan_thread s)"

definition QxkScheduler_has_work :: "QxkScheduler \<Rightarrow> bool" where
  "QxkScheduler_has_work s \<longleftrightarrow>
     ReadySet_max (xs_ao_ready s) \<noteq> None \<or> \<not> ThreadReadyQueue_is_empty (xs_thread_ready s)"

definition QxkScheduler_set_active :: "ScheduleMode \<Rightarrow> QxkScheduler \<Rightarrow> QxkScheduler" where
  "QxkScheduler_set_active mode s =
     (case mode of
        ActiveObjectMode p \<Rightarrow> s\<lparr>xs_active_prio := p, xs_active_thread := None\<rparr>
      | ExtendedThreadMode tid _ \<Rightarrow> s\<lparr>xs_active_prio := 0, xs_active_thread := Some tid\<rparr>
      | IdleMode \<Rightarrow> s\<lparr>xs_active_prio := 0, xs_active_thread := None\<rparr>)"

definition QxkScheduler_reset :: "QxkScheduler \<Rightarrow> QxkScheduler" where
  "QxkScheduler_reset s =
     s\<lparr>xs_ao_ready := ReadySet_clear (xs_ao_ready s),
       xs_thread_ready := ThreadReadyQueue_clear (xs_thread_ready s),
       xs_active_prio := 0, xs_active_thread := None\<rparr>"

definition QxkScheduler_complete_execution :: "ScheduleMode \<Rightarrow> QxkScheduler \<Rightarrow> QxkScheduler" where
  "QxkScheduler_complete_execution mode s = s"

definition QxkScheduler_block_thread :: "u8 \<Rightarrow> QxkScheduler \<Rightarrow> QxkScheduler" where
  "QxkScheduler_block_thread tid s =
     s\<lparr>xs_thread_ready := ThreadReadyQueue_remove tid (xs_thread_ready s)\<rparr>"

definition QxkScheduler_unblock_thread ::
    "(ready_queue \<Rightarrow> ready_queue) \<Rightarrow> u8 \<Rightarrow> u8 \<Rightarrow> QxkScheduler \<Rightarrow> QxkScheduler" where
  "QxkScheduler_unblock_thread srt tid prio s =
     s\<lparr>xs_thread_ready := ThreadReadyQueue_insert srt tid prio (xs_thread_ready s)\<rparr>"

section \<open>Lemmas on the ready queue\<close>

text \<open>At most one entry per thread, highest priority first.\<close>

definition queue_ok :: "ready_queue \<Rightarrow> bool" where
  "queue_ok q \<longleftrightarrow> distinct (map fst q) \<and> sorted_wrt (\<lambda>a b. snd b \<le> snd a) q"

lemma sorts_by_priorityD:
  assumes "sorts_by_priority srt"
  shows "mset (srt q) = mset q" "set (srt q) = set q" "sorted_wrt (\<lambda>a b. snd b \<le> snd a) (srt q)"
    "distinct (map fst (srt q)) \<longleftrightarrow> distinct (map fst q)"
proof -
  show m: "mset (srt q) = mset q" and "sorted_wrt (\<lambda>a b. snd b \<le> snd a) (srt q)"
    using assms by (simp_all add: sorts_by_priority_def)
  then show "set (srt q) = set q" by (metis mset_eq_setD)
  from m have "mset (map fst (srt q)) = mset (map fst q)" by simp
  then show "distinct (map fst (srt q)) \<longleftrightarrow> distinct (map fst q)" by (rule mset_eq_imp_distinct_iff)
qed

lemma ready_sort_sorts: "sorts_by_priority ready_sort"
proof -
  have le: "255 - unat a \<le> 255 - unat b \<longleftrightarrow> b \<le> a" for a b :: u8
    using unsigned_less [of a, where ?'a = nat] unsigned_less [of b, where ?'a = nat]
    by (auto simp: word_le_nat_alt)
  have "sorted (map (\<lambda>t. 255 - unat (snd t)) (ready_sort q))" for q
    by (simp add: ready_sort_def)
  then have "sorted_wrt (\<lambda>a b. snd b \<le> snd a) (ready_sort q)" for q
    by (simp add: sorted_map le)
  then show ?thesis by (simp add: sorts_by_priority_def ready_sort_def)
qed

lemma queue_ok_Nil [simp]: "queue_ok []"
  by (simp add: queue_ok_def)

lemma queue_ok_insert:
  assumes "sorts_by_priority srt" "queue_ok q"
  shows "queue_ok (ThreadReadyQueue_insert srt tid prio q)"
  using assms(2) sorts_by_priorityD(3,4) [OF assms(1)]
  by (auto simp: queue_ok_def ThreadReadyQueue_insert_def list_ex_iff)

lemma queue_ok_remove: "queue_ok q \<Longrightarrow> queue_ok (ThreadReadyQueue_remove tid q)"
  by (simp add: queue_ok_def ThreadReadyQueue_remove_def distinct_map_filter sorted_wrt_filter)

lemma ThreadReadyQueue_insert_set:
  assumes "sorts_by_priority srt"
  shows "set (ThreadReadyQueue_insert srt tid prio q) =
    (if tid \<in> fst ` set q then set q else insert (tid, prio) (set q))"
  using sorts_by_priorityD(2) [OF assms]
  by (auto simp: ThreadReadyQueue_insert_def list_ex_iff)

lemma ThreadReadyQueue_insert_ids:
  assumes "sorts_by_priority srt"
  shows "fst ` set (ThreadReadyQueue_insert srt tid prio q) = insert tid (fst ` set q)"
  by (auto simp: ThreadReadyQueue_insert_set [OF assms])

lemma ThreadReadyQueue_remove_ids [simp]:
  "fst ` set (ThreadReadyQueue_remove tid q) = fst ` set q - {tid}"
  by (auto simp: ThreadReadyQueue_remove_def)

lemma ThreadReadyQueue_max_highest:
  assumes "queue_ok q" "ThreadReadyQueue_max q = Some (tid, prio)"
  shows "(tid, prio) \<in> set q" "\<And>t. t \<in> set q \<Longrightarrow> snd t \<le> prio"
  using assms by (auto simp: ThreadReadyQueue_max_def queue_ok_def split: list.splits)

lemma QxkScheduler_emit_trace_simps [simp]:
  "xs_lock_ceiling (QxkScheduler_emit_trace r p s) = xs_lock_ceiling s"
  "xs_ao_ready (QxkScheduler_emit_trace r p s) = xs_ao_ready s"
  "xs_thread_ready (QxkScheduler_emit_trace r p s) = xs_thread_ready s"
  by (simp_all add: QxkScheduler_emit_trace_def)

text \<open>The three outcomes of the planner.\<close>

lemma plan_thread_cases:
  assumes "queue_ok (xs_thread_ready s)"
  obtains (thread) tid prio where
      "plan_thread s = (ExtendedThreadMode tid prio, QxkScheduler_emit_trace THREAD_NEXT [tid, prio] s)"
      "(tid, prio) \<in> set (xs_thread_ready s)" "\<And>t. t \<in> set (xs_thread_ready s) \<Longrightarrow> snd t \<le> prio"
    | (idle) "plan_thread s = (IdleMode, QxkScheduler_emit_trace QXK_SCHED_IDLE [] s)"
      "xs_thread_ready s = []"
proof (cases "ThreadReadyQueue_max (xs_thread_ready s)")
  case None
  then show thesis
    by (intro idle) (auto simp: plan_thread_def ThreadReadyQueue_max_def split: list.splits)
next
  case (Some t)
  obtain tid prio where t: "t = (tid, prio)" by (cases t)
  note top = ThreadReadyQueue_max_highest [OF assms Some [unfolded t]]
  show thesis by (rule thread [of tid prio]) (use Some t top in \<open>auto simp: plan_thread_def\<close>)
qed

lemma plan_next_cases:
  assumes "queue_ok (xs_thread_ready s)"
  obtains (object) p where
      "QxkScheduler_plan_next s = (ActiveObjectMode p, QxkScheduler_emit_trace QXK_SCHED_NEXT [p] s)"
      "p \<in> prios (xs_ao_ready s)" "xs_lock_ceiling s < p" "\<And>q. q \<in> prios (xs_ao_ready s) \<Longrightarrow> q \<le> p"
    | (thread) tid prio where
      "QxkScheduler_plan_next s =
         (ExtendedThreadMode tid prio, QxkScheduler_emit_trace THREAD_NEXT [tid, prio] s)"
      "\<And>q. q \<in> prios (xs_ao_ready s) \<Longrightarrow> q \<le> xs_lock_ceiling s"
      "(tid, prio) \<in> set (xs_thread_ready s)" "\<And>t. t \<in> set (xs_thread_ready s) \<Longrightarrow> snd t \<le> prio"
    | (idle) "QxkScheduler_plan_next s = (IdleMode, QxkScheduler_emit_trace QXK_SCHED_IDLE [] s)"
      "\<And>q. q \<in> prios (xs_ao_ready s) \<Longrightarrow> q \<le> xs_lock_ceiling s" "xs_thread_ready s = []"
proof (cases "\<exists>p. ReadySet_max (xs_ao_ready s) = Some p \<and> xs_lock_ceiling s < p")
  case True
  then obtain p where p: "ReadySet_max (xs_ao_ready s) = Some p" "xs_lock_ceiling s < p" by blast
  show thesis
    by (rule object [of p])
      (use p ReadySet_max_in [OF p(1)] ReadySet_max_ge [OF p(1)] in \<open>auto simp: QxkScheduler_plan_next_def\<close>)
next
  case False
  then have t: "QxkScheduler_plan_next s = plan_thread s"
    by (auto simp: QxkScheduler_plan_next_def split: option.splits)
  have low: "q \<le> xs_lock_ceiling s" if q: "q \<in> prios (xs_ao_ready s)" for q
  proof -
    obtain p where p: "ReadySet_max (xs_ao_ready s) = Some p"
      using q ReadySet_max_None [of "xs_ao_ready s"] by (cases "ReadySet_max (xs_ao_ready s)") auto
    with False have "p \<le> xs_lock_ceiling s" by (simp add: not_less)
    with ReadySet_max_ge [OF p q] show ?thesis by simp
  qed
  show thesis
    by (rule plan_thread_cases [OF assms]) (use t low thread idle in auto)
qed

end
