(* ===== verification/QxkPrims.thy ===== *)
theory QxkPrims
  imports QxkSched Active
begin

text \<open>
  The synchronisation primitives of the extended threads (\<open>crates/qxk/src/primitives.rs\<close>):
  counting semaphores, mutexes with an optional priority ceiling, bounded message queues and
  condition variables, each operating on its own state and on the scheduler. A primitive's shared
  state is the value the operations update; its address, which only trace records show, is a field.
  The mutex around the state is released before the scheduler is told to block or unblock a thread,
  so an operation that blocks has two atomic steps: \<open>\<dots>_enter\<close> and the blocking.
\<close>

section \<open>Waiting threads\<close>

datatype SyncError = Timeout | Overflow | QueueFull | QueueEmpty | InvalidOperation | WouldBlock

record WaitingThread =
  wt_id :: u8
  wt_priority :: u8

definition WaitingThread_new :: "u8 \<Rightarrow> u8 \<Rightarrow> WaitingThread" where
  "WaitingThread_new tid prio = \<lparr>wt_id = tid, wt_priority = prio\<rparr>"

definition push_waiter :: "WaitingThread \<Rightarrow> WaitingThread list \<Rightarrow> WaitingThread list" where
  "push_waiter w v = v @ [w]"

definition best_waiter :: "WaitingThread list \<Rightarrow> nat" where
  "best_waiter v =
     fold (\<lambda>i best. if wt_priority (v ! i) > wt_priority (v ! best) then i else best) [1..<length v] 0"

text \<open>\<open>Vec::swap_remove\<close>: the last element takes the place of the removed one.\<close>

definition swap_remove :: "nat \<Rightarrow> 'a list \<Rightarrow> 'a \<times> 'a list" where
  "swap_remove i xs = (xs ! i, butlast (xs[i := last xs]))"

definition take_highest :: "WaitingThread list \<Rightarrow> WaitingThread option \<times> WaitingThread list" where
  "take_highest v =
     (if v = [] then (None, v)
      else let (w, v') = swap_remove (best_waiter v) v in (Some w, v'))"

text \<open>The end of every waking operation.\<close>

definition wake ::
    "(ready_queue \<Rightarrow> ready_queue) \<Rightarrow> WaitingThread option \<Rightarrow> QxkScheduler \<Rightarrow> QxkScheduler" where
  "wake srt woken sch =
     (case woken of
        Some w \<Rightarrow> QxkScheduler_unblock_thread srt (wt_id w) (wt_priority w) sch
      | None \<Rightarrow> sch)"

section \<open>Semaphores\<close>

definition SEM_TAKE :: u8 where "SEM_TAKE = 71"
definition SEM_BLOCK :: u8 where "SEM_BLOCK = 72"
definition SEM_SIGNAL :: u8 where "SEM_SIGNAL = 73"

record Semaphore =
  sem_count :: nat
  sem_max_count :: nat
  sem_waiting :: "WaitingThread list"
  sem_ptr :: u64
  sem_trace :: trace

definition Semaphore_with_max :: "u64 \<Rightarrow> nat \<Rightarrow> nat \<Rightarrow> Semaphore" where
  "Semaphore_with_max ptr initial_count max_count =
     \<lparr>sem_count = initial_count, sem_max_count = max_count, sem_waiting = [], sem_ptr = ptr,
      sem_trace = None\<rparr>"

definition Semaphore_new :: "u64 \<Rightarrow> nat \<Rightarrow> Semaphore" where
  "Semaphore_new ptr initial_count = Semaphore_with_max ptr initial_count (2 ^ 64 - 1)"

definition Semaphore_binary :: "u64 \<Rightarrow> Semaphore" where
  "Semaphore_binary ptr = Semaphore_with_max ptr 0 1"

definition Semaphore_set_trace :: "trace \<Rightarrow> Semaphore \<Rightarrow> Semaphore" where
  "Semaphore_set_trace t s = s\<lparr>sem_trace := t\<rparr>"

definition Semaphore_emit :: "u8 \<Rightarrow> u8 \<Rightarrow> nat \<Rightarrow> Semaphore \<Rightarrow> Semaphore" where
  "Semaphore_emit r prio cnt s =
     s\<lparr>sem_trace := emit r (le64 (sem_ptr s) @ [prio] @ le16 (of_nat (min cnt 65535))) True (sem_trace s)\<rparr>"

definition Semaphore_try_wait :: "Semaphore \<Rightarrow> bool \<times> Semaphore" where
  "Semaphore_try_wait s =
     (if sem_count s > 0 then (True, s\<lparr>sem_count := sem_count s - 1\<rparr>) else (False, s))"

definition Semaphore_wait_enter :: "u8 \<Rightarrow> u8 \<Rightarrow> Semaphore \<Rightarrow> (bool \<times> nat) \<times> Semaphore" where
  "Semaphore_wait_enter tid prio s =
     (if sem_count s > 0 then ((True, sem_count s - 1), s\<lparr>sem_count := sem_count s - 1\<rparr>)
      else ((False, sem_count s),
            s\<lparr>sem_waiting := push_waiter (WaitingThread_new tid prio) (sem_waiting s)\<rparr>))"

definition Semaphore_wait ::
    "u8 \<Rightarrow> u8 \<Rightarrow> Semaphore \<times> QxkScheduler \<Rightarrow> (SyncError + unit) \<times> Semaphore \<times> QxkScheduler" where
  "Semaphore_wait tid prio x =
     (let ((acquired, cnt), s) = Semaphore_wait_enter tid prio (fst x)
      in if acquired then (Inr (), Semaphore_emit SEM_TAKE prio cnt s, snd x)
         else (Inl WouldBlock, Semaphore_emit SEM_BLOCK prio cnt s,
               QxkScheduler_block_thread tid (snd x)))"

definition Semaphore_wait_timeout :: "Semaphore \<Rightarrow> (SyncError + unit) \<times> Semaphore" where
  "Semaphore_wait_timeout s =
     (let (ok, s') = Semaphore_try_wait s in (if ok then Inr () else Inl Timeout, s'))"

definition Semaphore_signal ::
    "(ready_queue \<Rightarrow> ready_queue) \<Rightarrow> Semaphore \<times> QxkScheduler \<Rightarrow>
     (SyncError + unit) \<times> Semaphore \<times> QxkScheduler" where
  "Semaphore_signal srt x =
     (let s = fst x
      in if sem_count s \<ge> sem_max_count s then (Inl Overflow, x)
         else let cnt = sem_count s + 1; (woken, waiting) = take_highest (sem_waiting s);
                  s' = s\<lparr>sem_count := cnt, sem_waiting := waiting\<rparr>
              in (Inr (), Semaphore_emit SEM_SIGNAL 0 cnt s', wake srt woken (snd x)))"

definition Semaphore_signal_from_isr ::
    "(ready_queue \<Rightarrow> ready_queue) \<Rightarrow> u8 \<Rightarrow> Semaphore \<times> QxkScheduler \<Rightarrow>
     ((SyncError + unit) \<times> Semaphore \<times> QxkScheduler) result" where
  "Semaphore_signal_from_isr srt nesting x =
     rbind (ensure Panic (in_isr nesting)) (\<lambda>_. Inr (Semaphore_signal srt x))"

definition Semaphore_register_waiter :: "u8 \<Rightarrow> u8 \<Rightarrow> Semaphore \<Rightarrow> Semaphore" where
  "Semaphore_register_waiter tid prio s =
     s\<lparr>sem_waiting := push_waiter (WaitingThread_new tid prio) (sem_waiting s)\<rparr>"

section \<open>Mutexes\<close>

definition MTX_LOCK :: u8 where "MTX_LOCK = 75"
definition MTX_BLOCK :: u8 where "MTX_BLOCK = 76"
definition MTX_UNLOCK :: u8 where "MTX_UNLOCK = 77"

record MutexPrim =
  mx_locked :: bool
  mx_owner :: "u8 option"
  mx_original_priority :: "u8 option"
  mx_ceiling :: "u8 option"
  mx_ceiling_sched_status :: "QxkSchedStatus option"
  mx_waiting :: "WaitingThread list"
  mx_ptr :: u64
  mx_trace :: trace

definition MutexPrim_new :: "u64 \<Rightarrow> MutexPrim" where
  "MutexPrim_new ptr =
     \<lparr>mx_locked = False, mx_owner = None, mx_original_priority = None, mx_ceiling = None,
      mx_ceiling_sched_status = None, mx_waiting = [], mx_ptr = ptr, mx_trace = None\<rparr>"

definition MutexPrim_with_ceiling :: "u64 \<Rightarrow> u8 \<Rightarrow> MutexPrim" where
  "MutexPrim_with_ceiling ptr ceiling =
     \<lparr>mx_locked = False, mx_owner = None, mx_original_priority = None, mx_ceiling = Some ceiling,
      mx_ceiling_sched_status = None, mx_waiting = [], mx_ptr = ptr, mx_trace = None\<rparr>"

definition MutexPrim_set_trace :: "trace \<Rightarrow> MutexPrim \<Rightarrow> MutexPrim" where
  "MutexPrim_set_trace t m = m\<lparr>mx_trace := t\<rparr>"

definition MutexPrim_emit :: "u8 \<Rightarrow> u8 \<Rightarrow> MutexPrim \<Rightarrow> MutexPrim" where
  "MutexPrim_emit r prio m = m\<lparr>mx_trace := emit r (le64 (mx_ptr m) @ [prio]) True (mx_trace m)\<rparr>"

definition MutexPrim_try_lock :: "u8 \<Rightarrow> MutexPrim \<Rightarrow> bool \<times> MutexPrim" where
  "MutexPrim_try_lock tid m =
     (if \<not> mx_locked m then (True, m\<lparr>mx_locked := True, mx_owner := Some tid\<rparr>) else (False, m))"

definition MutexPrim_lock_enter :: "u8 \<Rightarrow> u8 \<Rightarrow> MutexPrim \<Rightarrow> (bool \<times> u8 option) \<times> MutexPrim" where
  "MutexPrim_lock_enter tid prio m =
     (if \<not> mx_locked m
      then ((True, mx_ceiling m),
            m\<lparr>mx_locked := True, mx_owner := Some tid, mx_original_priority := Some prio\<rparr>)
      else ((False, None), m\<lparr>mx_waiting := push_waiter (WaitingThread_new tid prio) (mx_waiting m)\<rparr>))"

definition MutexPrim_lock ::
    "u8 \<Rightarrow> u8 \<Rightarrow> MutexPrim \<times> QxkScheduler \<Rightarrow> (SyncError + unit) \<times> MutexPrim \<times> QxkScheduler" where
  "MutexPrim_lock tid prio x =
     (let ((acquired, ceiling), m) = MutexPrim_lock_enter tid prio (fst x)
      in if acquired
         then let (m', sch) = (case ceiling of
                      Some c \<Rightarrow> let (status, sch) = QxkScheduler_lock c (snd x)
                                in (m\<lparr>mx_ceiling_sched_status := Some status\<rparr>, sch)
                    | None \<Rightarrow> (m, snd x))
              in (Inr (), MutexPrim_emit MTX_LOCK prio m', sch)
         else (Inl WouldBlock, MutexPrim_emit MTX_BLOCK prio m, QxkScheduler_block_thread tid (snd x)))"

definition MutexPrim_unlock ::
    "(ready_queue \<Rightarrow> ready_queue) \<Rightarrow> u8 \<Rightarrow> MutexPrim \<times> QxkScheduler \<Rightarrow>
     (SyncError + unit) \<times> MutexPrim \<times> QxkScheduler" where
  "MutexPrim_unlock srt tid x =
     (let m = fst x
      in if mx_owner m \<noteq> Some tid then (Inl InvalidOperation, x)
         else let thread_prio = (case mx_original_priority m of Some p \<Rightarrow> p | None \<Rightarrow> 0);
                  (woken, waiting) = take_highest (mx_waiting m);
                  m' = m\<lparr>mx_ceiling_sched_status := None, mx_locked := False, mx_owner := None,
                         mx_original_priority := None, mx_waiting := waiting\<rparr>;
                  sch = (case mx_ceiling_sched_status m of
                           Some status \<Rightarrow> QxkScheduler_unlock status (snd x) | None \<Rightarrow> snd x)
              in (Inr (), MutexPrim_emit MTX_UNLOCK thread_prio m', wake srt woken sch))"

definition MutexPrim_unlock_from_isr ::
    "(ready_queue \<Rightarrow> ready_queue) \<Rightarrow> u8 \<Rightarrow> u8 \<Rightarrow> MutexPrim \<times> QxkScheduler \<Rightarrow>
     ((SyncError + unit) \<times> MutexPrim \<times> QxkScheduler) result" where
  "MutexPrim_unlock_from_isr srt nesting tid x =
     rbind (ensure Panic (in_isr nesting)) (\<lambda>_. Inr (MutexPrim_unlock srt tid x))"

definition MutexPrim_register_waiter :: "u8 \<Rightarrow> u8 \<Rightarrow> MutexPrim \<Rightarrow> MutexPrim" where
  "MutexPrim_register_waiter tid prio m =
     m\<lparr>mx_waiting := push_waiter (WaitingThread_new tid prio) (mx_waiting m)\<rparr>"

section \<open>Message queues\<close>

text \<open>The capacity is the constant generic parameter \<open>N\<close> of the type.\<close>

record 'a MessageQueue =
  mq_queue :: "'a list"
  mq_waiting_receivers :: "WaitingThread list"
  mq_waiting_senders :: "WaitingThread list"

definition MessageQueue_new :: "'a MessageQueue" where
  "MessageQueue_new = \<lparr>mq_queue = [], mq_waiting_receivers = [], mq_waiting_senders = []\<rparr>"

definition MessageQueue_is_full :: "nat \<Rightarrow> 'a MessageQueue \<Rightarrow> bool" where
  "MessageQueue_is_full N q \<longleftrightarrow> length (mq_queue q) \<ge> N"

definition MessageQueue_is_empty :: "'a MessageQueue \<Rightarrow> bool" where
  "MessageQueue_is_empty q \<longleftrightarrow> length (mq_queue q) = 0"

definition MessageQueue_try_push :: "nat \<Rightarrow> 'a \<Rightarrow> 'a MessageQueue \<Rightarrow> ('a + unit) \<times> 'a MessageQueue" where
  "MessageQueue_try_push N msg q =
     (if length (mq_queue q) \<ge> N then (Inl msg, q) else (Inr (), q\<lparr>mq_queue := mq_queue q @ [msg]\<rparr>))"

definition MessageQueue_pop :: "'a MessageQueue \<Rightarrow> 'a option \<times> 'a MessageQueue" where
  "MessageQueue_pop q =
     (case mq_queue q of [] \<Rightarrow> (None, q) | m # ms \<Rightarrow> (Some m, q\<lparr>mq_queue := ms\<rparr>))"

definition MessageQueue_try_send ::
    "(ready_queue \<Rightarrow> ready_queue) \<Rightarrow> nat \<Rightarrow> 'a \<Rightarrow> 'a MessageQueue \<times> QxkScheduler \<Rightarrow>
     (SyncError + unit) \<times> 'a MessageQueue \<times> QxkScheduler" where
  "MessageQueue_try_send srt N msg x =
     (case MessageQueue_try_push N msg (fst x) of
        (Inl _, q) \<Rightarrow> (Inl QueueFull, q, snd x)
      | (Inr _, q) \<Rightarrow>
          let (woken, waiting) = take_highest (mq_waiting_receivers q)
          in (Inr (), q\<lparr>mq_waiting_receivers := waiting\<rparr>, wake srt woken (snd x)))"

definition MessageQueue_try_receive :: "'a MessageQueue \<Rightarrow> (SyncError + 'a) \<times> 'a MessageQueue" where
  "MessageQueue_try_receive q =
     (case MessageQueue_pop q of (Some m, q') \<Rightarrow> (Inr m, q') | (None, q') \<Rightarrow> (Inl QueueEmpty, q'))"

definition MessageQueue_send ::
    "(ready_queue \<Rightarrow> ready_queue) \<Rightarrow> nat \<Rightarrow> 'a \<Rightarrow> u8 \<Rightarrow> u8 \<Rightarrow> 'a MessageQueue \<times> QxkScheduler \<Rightarrow>
     (SyncError + unit) \<times> 'a MessageQueue \<times> QxkScheduler" where
  "MessageQueue_send srt N msg tid prio x =
     (case MessageQueue_try_push N msg (fst x) of
        (Inr _, q) \<Rightarrow>
          let (woken, waiting) = take_highest (mq_waiting_receivers q)
          in (Inr (), q\<lparr>mq_waiting_receivers := waiting\<rparr>, wake srt woken (snd x))
      | (Inl _, q) \<Rightarrow>
          (Inl WouldBlock,
           q\<lparr>mq_waiting_senders := push_waiter (WaitingThread_new tid prio) (mq_waiting_senders q)\<rparr>,
           QxkScheduler_block_thread tid (snd x)))"

definition MessageQueue_receive ::
    "(ready_queue \<Rightarrow> ready_queue) \<Rightarrow> u8 \<Rightarrow> u8 \<Rightarrow> 'a MessageQueue \<times> QxkScheduler \<Rightarrow>
     (SyncError + 'a) \<times> 'a MessageQueue \<times> QxkScheduler" where
  "MessageQueue_receive srt tid prio x =
     (case MessageQueue_pop (fst x) of
        (Some m, q) \<Rightarrow>
          let (woken, waiting) = take_highest (mq_waiting_senders q)
          in (Inr m, q\<lparr>mq_waiting_senders := waiting\<rparr>, wake srt woken (snd x))
      | (None, q) \<Rightarrow>
          (Inl WouldBlock,
           q\<lparr>mq_waiting_receivers := push_waiter (WaitingThread_new tid prio) (mq_waiting_receivers q)\<rparr>,
           QxkScheduler_block_thread tid (snd x)))"

section \<open>Condition variables\<close>

type_synonym CondVar = "WaitingThread list"

definition CondVar_new :: CondVar where
  "CondVar_new = []"

definition CondVar_wait ::
    "u8 \<Rightarrow> u8 \<Rightarrow> CondVar \<times> QxkScheduler \<Rightarrow> (SyncError + unit) \<times> CondVar \<times> QxkScheduler" where
  "CondVar_wait tid prio x =
     (Inl WouldBlock, push_waiter (WaitingThread_new tid prio) (fst x), QxkScheduler_block_thread tid (snd x))"

definition CondVar_notify_one ::
    "(ready_queue \<Rightarrow> ready_queue) \<Rightarrow> CondVar \<times> QxkScheduler \<Rightarrow> CondVar \<times> QxkScheduler" where
  "CondVar_notify_one srt x =
     (let (woken, waiting) = take_highest (fst x) in (waiting, wake srt woken (snd x)))"

definition CondVar_notify_all ::
    "(ready_queue \<Rightarrow> ready_queue) \<Rightarrow> CondVar \<times> QxkScheduler \<Rightarrow> CondVar \<times> QxkScheduler" where
  "CondVar_notify_all srt x =
     ([], fold (\<lambda>w sch. QxkScheduler_unblock_thread srt (wt_id w) (wt_priority w) sch) (fst x) (snd x))"

definition CondVar_waiting_count :: "CondVar \<Rightarrow> nat" where
  "CondVar_waiting_count c = length c"

section \<open>The waiter interface\<close>

text \<open>
  What the primitives rely on: taking from a waiting list yields a waiter of highest priority and
  keeps the others.
\<close>

locale priority_waiters =
  fixes take_top :: "'w list \<Rightarrow> 'w option \<times> 'w list"
    and prio_of :: "'w \<Rightarrow> 'k::linorder"
  assumes take_Nil: "take_top [] = (None, [])"
    and take_Cons: "v \<noteq> [] \<Longrightarrow> \<exists>w v'. take_top v = (Some w, v') \<and> mset v = add_mset w (mset v') \<and>
      (\<forall>x\<in>set v. prio_of x \<le> prio_of w)"
begin

lemma take_cases:
  obtains (none) "v = []" "take_top v = (None, [])"
    | (some) w v' where "take_top v = (Some w, v')" "mset v = add_mset w (mset v')"
      "set v = insert w (set v')" "\<And>x. x \<in> set v \<Longrightarrow> prio_of x \<le> prio_of w"
proof (cases "v = []")
  case True
  with take_Nil none show thesis by simp
next
  case False
  then obtain w v' where w: "take_top v = (Some w, v')" "mset v = add_mset w (mset v')"
    "\<forall>x\<in>set v. prio_of x \<le> prio_of w" using take_Cons by blast
  from w(2) have "set v = insert w (set v')" by (metis set_mset_add_mset_insert set_mset_mset)
  with w some show thesis by blast
qed

text \<open>Taking again and again serves every waiter once, in descending order of priority.\<close>

primrec drain :: "nat \<Rightarrow> 'w list \<Rightarrow> 'w list" where
  "drain 0 v = []"
| "drain (Suc n) v = (case take_top v of (None, _) \<Rightarrow> [] | (Some w, v') \<Rightarrow> w # drain n v')"

lemma drain_serves_all:
  "length v \<le> n \<Longrightarrow> mset (drain n v) = mset v \<and> sorted_wrt (\<lambda>a b. prio_of b \<le> prio_of a) (drain n v)"
proof (induction n arbitrary: v)
  case (Suc n)
  show ?case
  proof (rule take_cases [of v])
    fix w v' assume w: "take_top v = (Some w, v')" "mset v = add_mset w (mset v')"
      "set v = insert w (set v')" "\<And>x. x \<in> set v \<Longrightarrow> prio_of x \<le> prio_of w"
    have "length v = Suc (length v')" using w(2) by (metis size_add_mset size_mset)
    with Suc.IH [of v'] Suc.prems have ih: "mset (drain n v') = mset v'"
      "sorted_wrt (\<lambda>a b. prio_of b \<le> prio_of a) (drain n v')" by auto
    then have "set (drain n v') = set v'" by (metis mset_eq_setD)
    with ih w show ?thesis by auto
  qed (use Suc.prems in simp)
qed simp

end

lemma best_waiter_scan:
  assumes "n \<le> length v" "0 < n"
  shows "fold (\<lambda>i best. if wt_priority (v ! i) > wt_priority (v ! best) then i else best) [1..<n] 0 < n \<and>
    (\<forall>i<n. wt_priority (v ! i) \<le> wt_priority (v !
      fold (\<lambda>i best. if wt_priority (v ! i) > wt_priority (v ! best) then i else best) [1..<n] 0))"
  using assms
proof (induction n)
  case (Suc n)
  show ?case
  proof (cases "n = 0")
    case False
    with Suc show ?thesis by (auto simp: less_Suc_eq not_less)
  qed simp
qed simp

lemma swap_remove_mset:
  assumes "i < length xs" "swap_remove i xs = (x, ys)"
  shows "mset xs = add_mset x (mset ys)" "x = xs ! i"
proof -
  from assms show x: "x = xs ! i" by (simp add: swap_remove_def)
  obtain zs z where xs: "xs = zs @ [z]" using assms(1) by (cases xs rule: rev_cases) auto
  show "mset xs = add_mset x (mset ys)"
  proof (cases "i = length zs")
    case True
    with assms xs x show ?thesis by (simp add: swap_remove_def list_update_append)
  next
    case False
    with assms(1) xs have i: "i < length zs" by simp
    with assms(2) xs have "ys = zs[i := z]" by (simp add: swap_remove_def list_update_append butlast_append)
    with i x xs show ?thesis by (simp add: mset_update nth_append)
  qed
qed

lemma best_waiter_ok:
  "v \<noteq> [] \<Longrightarrow> best_waiter v < length v"
  "i < length v \<Longrightarrow> wt_priority (v ! i) \<le> wt_priority (v ! best_waiter v)"
  using best_waiter_scan [of "length v" v] by (cases "v = []"; auto simp: best_waiter_def)+

interpretation tw: priority_waiters take_highest wt_priority
proof
  show "take_highest [] = (None, [])" by (simp add: take_highest_def)
next
  fix v :: "WaitingThread list" assume "v \<noteq> []"
  obtain w v' where sr: "swap_remove (best_waiter v) v = (w, v')" by (cases "swap_remove (best_waiter v) v")
  note w = swap_remove_mset [OF best_waiter_ok(1) [OF \<open>v \<noteq> []\<close>] sr]
  have "\<forall>x\<in>set v. wt_priority x \<le> wt_priority w"
    using best_waiter_ok(2) w(2) by (auto simp: in_set_conv_nth)
  with \<open>v \<noteq> []\<close> sr w(1) show "\<exists>w v'. take_highest v = (Some w, v') \<and> mset v = add_mset w (mset v') \<and>
      (\<forall>x\<in>set v. wt_priority x \<le> wt_priority w)"
    by (auto simp: take_highest_def)
qed

lemma wake_simps [simp]:
  "xs_lock_ceiling (wake srt w sch) = xs_lock_ceiling sch"
  "xs_ao_ready (wake srt w sch) = xs_ao_ready sch"
  by (simp_all add: wake_def QxkScheduler_unblock_thread_def split: option.splits)

definition ready_ids :: "QxkScheduler \<Rightarrow> u8 set" where
  "ready_ids sch = fst ` set (xs_thread_ready sch)"

definition waiter_ids :: "WaitingThread list \<Rightarrow> u8 set" where
  "waiter_ids v = wt_id ` set v"

lemma ready_ids_wake:
  "sorts_by_priority srt \<Longrightarrow>
   ready_ids (wake srt w sch) = (case w of None \<Rightarrow> ready_ids sch | Some t \<Rightarrow> insert (wt_id t) (ready_ids sch))"
  by (simp add: wake_def ready_ids_def QxkScheduler_unblock_thread_def ThreadReadyQueue_insert_ids
      split: option.splits)

lemma ready_ids_block [simp]: "ready_ids (QxkScheduler_block_thread tid sch) = ready_ids sch - {tid}"
  by (simp add: ready_ids_def QxkScheduler_block_thread_def)

lemma waiter_ids_simps [simp]:
  "waiter_ids [] = {}"
  "waiter_ids (push_waiter (WaitingThread_new tid prio) v) = insert tid (waiter_ids v)"
  by (auto simp: waiter_ids_def push_waiter_def WaitingThread_new_def)

text \<open>A waking operation moves one thread from the waiting list to the ready queue, or nobody waits.\<close>

lemma wake_take_ids:
  assumes "sorts_by_priority srt" "take_highest v = (w, v')"
  shows "ready_ids (wake srt w sch) \<union> waiter_ids v' = ready_ids sch \<union> waiter_ids v"
  by (rule tw.take_cases [of v]) (use assms ready_ids_wake [OF assms(1)] in \<open>auto simp: waiter_ids_def\<close>)

section \<open>Runs of operations on a semaphore\<close>

datatype sem_op = SWait u8 u8 | STryWait | SWaitTimeout | SSignal

text \<open>
  The result of an operation as permits taken and given back; runs add them up.
\<close>

fun sem_step ::
    "(ready_queue \<Rightarrow> ready_queue) \<Rightarrow> sem_op \<Rightarrow> Semaphore \<times> QxkScheduler \<Rightarrow>
     (nat \<times> nat) \<times> Semaphore \<times> QxkScheduler" where
  "sem_step srt (SWait tid prio) x =
     (let (r, x') = Semaphore_wait tid prio x in ((if r = Inr () then 1 else 0, 0), x'))"
| "sem_step srt STryWait x =
     (let (ok, s) = Semaphore_try_wait (fst x) in ((if ok then 1 else 0, 0), s, snd x))"
| "sem_step srt SWaitTimeout x =
     (let (r, s) = Semaphore_wait_timeout (fst x) in ((if r = Inr () then 1 else 0, 0), s, snd x))"
| "sem_step srt SSignal x =
     (let (r, x') = Semaphore_signal srt x in ((0, if r = Inr () then 1 else 0), x'))"

fun sem_run ::
    "(ready_queue \<Rightarrow> ready_queue) \<Rightarrow> sem_op list \<Rightarrow> Semaphore \<times> QxkScheduler \<Rightarrow>
     (nat \<times> nat) \<times> Semaphore \<times> QxkScheduler" where
  "sem_run srt [] x = ((0, 0), x)"
| "sem_run srt (op # ops) x =
     (let ((t1, g1), x1) = sem_step srt op x; ((t2, g2), x2) = sem_run srt ops x1
      in ((t1 + t2, g1 + g2), x2))"

lemma Semaphore_emit_simps [simp]:
  "sem_count (Semaphore_emit r p n s) = sem_count s"
  "sem_max_count (Semaphore_emit r p n s) = sem_max_count s"
  "sem_waiting (Semaphore_emit r p n s) = sem_waiting s"
  by (simp_all add: Semaphore_emit_def)

lemmas Semaphore_defs =
  Semaphore_wait_def Semaphore_wait_enter_def Semaphore_try_wait_def Semaphore_wait_timeout_def

lemma sem_step_permits:
  assumes "sem_step srt op (s, sch) = ((t, g), s', sch')"
  shows "t + sem_count s' = sem_count s + g" "sem_max_count s' = sem_max_count s"
    "sem_count s' \<le> max (sem_count s) (sem_max_count s)"
  using assms
  by (cases op; auto simp: Semaphore_defs Semaphore_signal_def Let_def split: prod.splits if_splits)+

lemma sem_step_ids:
  assumes "sorts_by_priority srt" "sem_step srt op (s, sch) = (r, s', sch')"
  shows "ready_ids sch \<union> waiter_ids (sem_waiting s) \<subseteq> ready_ids sch' \<union> waiter_ids (sem_waiting s')"
proof (cases op)
  case SSignal
  obtain w v where w: "take_highest (sem_waiting s) = (w, v)" by (cases "take_highest (sem_waiting s)")
  with SSignal assms(2) wake_take_ids [OF assms(1) w, of sch] show ?thesis
    by (auto simp: Semaphore_signal_def Let_def split: if_splits)
qed (use assms(2) in \<open>auto simp: Semaphore_defs Let_def split: prod.splits if_splits\<close>)

lemma sem_run_inv:
  assumes "sorts_by_priority srt" "sem_run srt ops (s, sch) = ((t, g), s', sch')"
  shows "t + sem_count s' = sem_count s + g \<and> sem_count s' \<le> max (sem_count s) (sem_max_count s) \<and>
    ready_ids sch \<union> waiter_ids (sem_waiting s) \<subseteq> ready_ids sch' \<union> waiter_ids (sem_waiting s')"
  using assms(2)
proof (induction ops arbitrary: s sch t g)
  case (Cons op ops)
  obtain t1 g1 s1 sch1 where step: "sem_step srt op (s, sch) = ((t1, g1), s1, sch1)"
    by (metis prod.collapse)
  obtain t2 g2 where rest: "sem_run srt ops (s1, sch1) = ((t2, g2), s', sch')"
    and t: "t = t1 + t2" "g = g1 + g2"
    using Cons.prems step by (auto split: prod.splits)
  note ih = Cons.IH [OF rest] and st = sem_step_permits [OF step]
  have "t + sem_count s' = sem_count s + g" "sem_count s' \<le> max (sem_count s) (sem_max_count s)"
    using ih st t by auto
  with ih sem_step_ids [OF assms(1) step] show ?case by blast
qed simp

section \<open>Runs of operations on a mutex\<close>

datatype mtx_op = MLock u8 u8 | MTryLock u8 | MUnlock u8

text \<open>
  A run keeps the threads that hold the mutex according to the results they were given, each with
  whether it went through \<open>lock\<close> (and not \<open>try_lock\<close>).
\<close>

fun mtx_step ::
    "(ready_queue \<Rightarrow> ready_queue) \<Rightarrow> mtx_op \<Rightarrow> (u8 \<times> bool) list \<times> MutexPrim \<times> QxkScheduler \<Rightarrow>
     (u8 \<times> bool) list \<times> MutexPrim \<times> QxkScheduler" where
  "mtx_step srt (MLock tid prio) (hs, x) =
     (let (r, x') = MutexPrim_lock tid prio x in (if r = Inr () then (tid, True) # hs else hs, x'))"
| "mtx_step srt (MTryLock tid) (hs, m, sch) =
     (let (ok, m') = MutexPrim_try_lock tid m in (if ok then (tid, False) # hs else hs, m', sch))"
| "mtx_step srt (MUnlock tid) (hs, x) =
     (let (r, x') = MutexPrim_unlock srt tid x
      in (if r = Inr () then filter (\<lambda>h. fst h \<noteq> tid) hs else hs, x'))"

definition mtx_run ::
    "(ready_queue \<Rightarrow> ready_queue) \<Rightarrow> mtx_op list \<Rightarrow> (u8 \<times> bool) list \<times> MutexPrim \<times> QxkScheduler \<Rightarrow>
     (u8 \<times> bool) list \<times> MutexPrim \<times> QxkScheduler" where
  "mtx_run srt = fold (mtx_step srt)"

definition mtx_inv :: "u8 option \<Rightarrow> u8 \<Rightarrow> (u8 \<times> bool) list \<times> MutexPrim \<times> QxkScheduler \<Rightarrow> bool" where
  "mtx_inv c base st = (case st of (hs, m, sch) \<Rightarrow>
     mx_ceiling m = c \<and> (mx_locked m \<longleftrightarrow> mx_owner m \<noteq> None) \<and>
     (case hs of
        [] \<Rightarrow> mx_owner m = None \<and> mx_ceiling_sched_status m = None \<and> xs_lock_ceiling sch = base
      | [(tid, via_lock)] \<Rightarrow> mx_owner m = Some tid \<and>
          (case c of
             Some v \<Rightarrow>
               (if via_lock
                then mx_ceiling_sched_status m = Some (if v > base then QxkLocked base else QxkUnlocked) \<and>
                     xs_lock_ceiling sch = max v base
                else mx_ceiling_sched_status m = None \<and> xs_lock_ceiling sch = base)
           | None \<Rightarrow> mx_ceiling_sched_status m = None \<and> xs_lock_ceiling sch = base)
      | _ \<Rightarrow> False))"

lemma MutexPrim_emit_simps [simp]:
  "mx_ceiling (MutexPrim_emit r p m) = mx_ceiling m"
  "mx_locked (MutexPrim_emit r p m) = mx_locked m"
  "mx_owner (MutexPrim_emit r p m) = mx_owner m"
  "mx_ceiling_sched_status (MutexPrim_emit r p m) = mx_ceiling_sched_status m"
  "mx_waiting (MutexPrim_emit r p m) = mx_waiting m"
  by (simp_all add: MutexPrim_emit_def)

lemma xs_lock_ceiling_block [simp]:
  "xs_lock_ceiling (QxkScheduler_block_thread tid sch) = xs_lock_ceiling sch"
  by (simp add: QxkScheduler_block_thread_def)

lemma mtx_inv_simps:
  "mtx_inv c base ([], m, sch) \<longleftrightarrow> mx_ceiling m = c \<and> \<not> mx_locked m \<and> mx_owner m = None \<and>
     mx_ceiling_sched_status m = None \<and> xs_lock_ceiling sch = base"
  "mtx_inv c base ([(tid, via_lock)], m, sch) \<longleftrightarrow> mx_ceiling m = c \<and> mx_locked m \<and> mx_owner m = Some tid \<and>
     (mx_ceiling_sched_status m, xs_lock_ceiling sch) =
       (case c of
          Some v \<Rightarrow> if via_lock then (Some (if v > base then QxkLocked base else QxkUnlocked), max v base)
                    else (None, base)
        | None \<Rightarrow> (None, base))"
  "\<not> mtx_inv c base (h1 # h2 # hs, m, sch)"
  by (auto simp: mtx_inv_def split: option.splits)

lemma mtx_inv_cases:
  assumes "mtx_inv c base (hs, m, sch)"
  obtains (free) "hs = []" "mtx_inv c base ([], m, sch)"
    | (held) tid via_lock where "hs = [(tid, via_lock)]" "mtx_inv c base ([(tid, via_lock)], m, sch)"
proof (cases hs)
  case (Cons h hs')
  with assms have "hs' = []" by (cases hs') (auto simp: mtx_inv_simps)
  with Cons assms held show thesis by (cases h) auto
qed (use assms free in simp)

lemma mtx_inv_lock:
  assumes "mtx_inv c base (hs, m, sch)"
  shows "mtx_inv c base (mtx_step srt (MLock tid prio) (hs, m, sch))"
  using assms
proof (cases rule: mtx_inv_cases)
  case free
  then show ?thesis
    by (cases c) (auto simp: mtx_inv_simps MutexPrim_lock_def MutexPrim_lock_enter_def QxkScheduler_lock_def)
next
  case held
  then show ?thesis by (simp add: mtx_inv_simps MutexPrim_lock_def MutexPrim_lock_enter_def)
qed

lemma mtx_inv_unlock:
  assumes "mtx_inv c base (hs, m, sch)"
  shows "mtx_inv c base (mtx_step srt (MUnlock tid) (hs, m, sch))"
  using assms
proof (cases rule: mtx_inv_cases)
  case free
  then show ?thesis by (simp add: mtx_inv_simps MutexPrim_unlock_def)
next
  case (held owner via_lock)
  obtain w v where w: "take_highest (mx_waiting m) = (w, v)" by (cases "take_highest (mx_waiting m)")
  show ?thesis
  proof (cases "owner = tid")
    case True
    with held w show ?thesis
      by (cases c; cases via_lock) (auto simp: mtx_inv_simps MutexPrim_unlock_def QxkScheduler_unlock_def max_def)
  next
    case False
    with held show ?thesis by (simp add: mtx_inv_simps MutexPrim_unlock_def)
  qed
qed

lemma mtx_inv_try_lock:
  assumes "mtx_inv c base (hs, m, sch)"
  shows "mtx_inv c base (mtx_step srt (MTryLock tid) (hs, m, sch))"
  using assms
  by (cases rule: mtx_inv_cases) (cases c; simp add: mtx_inv_simps MutexPrim_try_lock_def)+

lemma mtx_inv_run: "mtx_inv c base st \<Longrightarrow> mtx_inv c base (mtx_run srt ops st)"
  unfolding mtx_run_def
proof (induction ops arbitrary: st)
  case (Cons op ops)
  obtain hs m sch where st: "st = (hs, m, sch)" by (cases st)
  have "mtx_inv c base (mtx_step srt op st)"
    using Cons.prems unfolding st
    by (cases op) (simp_all only: mtx_inv_lock mtx_inv_unlock mtx_inv_try_lock)
  with Cons.IH show ?case by simp
qed simp

section \<open>Runs of operations on a message queue\<close>

datatype 'a mq_op = QSend 'a u8 u8 | QTrySend 'a | QReceive u8 u8 | QTryReceive

text \<open>The messages accepted and delivered by an operation.\<close>

fun mq_step ::
    "(ready_queue \<Rightarrow> ready_queue) \<Rightarrow> nat \<Rightarrow> 'a mq_op \<Rightarrow> 'a MessageQueue \<times> QxkScheduler \<Rightarrow>
     ('a list \<times> 'a list) \<times> 'a MessageQueue \<times> QxkScheduler" where
  "mq_step srt N (QSend msg tid prio) x =
     (let (r, x') = MessageQueue_send srt N msg tid prio x in ((if r = Inr () then [msg] else [], []), x'))"
| "mq_step srt N (QTrySend msg) x =
     (let (r, x') = MessageQueue_try_send srt N msg x in ((if r = Inr () then [msg] else [], []), x'))"
| "mq_step srt N (QReceive tid prio) x =
     (let (r, x') = MessageQueue_receive srt tid prio x
      in (([], case r of Inr m \<Rightarrow> [m] | Inl _ \<Rightarrow> []), x'))"
| "mq_step srt N QTryReceive x =
     (let (r, q) = MessageQueue_try_receive (fst x)
      in (([], case r of Inr m \<Rightarrow> [m] | Inl _ \<Rightarrow> []), q, snd x))"

fun mq_run ::
    "(ready_queue \<Rightarrow> ready_queue) \<Rightarrow> nat \<Rightarrow> 'a mq_op list \<Rightarrow> 'a MessageQueue \<times> QxkScheduler \<Rightarrow>
     ('a list \<times> 'a list) \<times> 'a MessageQueue \<times> QxkScheduler" where
  "mq_run srt N [] x = (([], []), x)"
| "mq_run srt N (op # ops) x =
     (let ((a1, d1), x1) = mq_step srt N op x; ((a2, d2), x2) = mq_run srt N ops x1
      in ((a1 @ a2, d1 @ d2), x2))"

lemmas MessageQueue_defs =
  MessageQueue_send_def MessageQueue_try_send_def MessageQueue_receive_def MessageQueue_try_receive_def
  MessageQueue_try_push_def MessageQueue_pop_def

lemma mq_step_fifo:
  assumes "mq_step srt N op (q, sch) = ((a, d), q', sch')"
  shows "mq_queue q @ a = d @ mq_queue q'" "length (mq_queue q') \<le> max N (length (mq_queue q))"
  using assms
  by (cases op; auto simp: MessageQueue_defs Let_def split: prod.splits if_splits list.splits)+

lemma mq_run_fifo:
  assumes "mq_run srt N ops (q, sch) = ((a, d), q', sch')"
  shows "mq_queue q @ a = d @ mq_queue q' \<and> length (mq_queue q') \<le> max N (length (mq_queue q))"
  using assms
proof (induction ops arbitrary: q sch a d)
  case (Cons op ops)
  obtain a1 d1 q1 sch1 where step: "mq_step srt N op (q, sch) = ((a1, d1), q1, sch1)"
    by (metis prod.collapse)
  obtain a2 d2 where rest: "mq_run srt N ops (q1, sch1) = ((a2, d2), q', sch')"
    and a: "a = a1 @ a2" "d = d1 @ d2"
    using Cons.prems step by (auto split: prod.splits)
  note st = mq_step_fifo [OF step] and ih = Cons.IH [OF rest]
  have "mq_queue q @ a = d @ mq_queue q'"
    using st(1) ih a by (metis append.assoc)
  with st(2) ih show ?case by auto
qed simp

section \<open>Condition variables\<close>

lemma CondVar_notify_all_wakes:
  assumes "sorts_by_priority srt"
  shows "ready_ids (snd (CondVar_notify_all srt (c, sch))) = ready_ids sch \<union> waiter_ids c"
proof (induction c arbitrary: sch)
  case (Cons w c)
  have "ready_ids (QxkScheduler_unblock_thread srt (wt_id w) (wt_priority w) sch) =
    insert (wt_id w) (ready_ids sch)"
    using ready_ids_wake [OF assms, of "Some w" sch] by (simp add: wake_def)
  with Cons.IH show ?case by (auto simp: CondVar_notify_all_def waiter_ids_def)
qed (simp add: CondVar_notify_all_def)

section \<open>Properties\<close>

text \<open>
  C16: (permits) Over every sequence of \<open>wait\<close>, \<open>try_wait\<close>, \<open>wait_timeout\<close> and \<open>signal\<close> calls on a
  semaphore that starts with \<open>n\<close> permits, the permits taken and left are the initial ones and those
  signalled, the count never exceeds its maximum, and every thread that was ready is still ready or
  registered as a waiter.
\<close>

theorem Semaphore_run_conserves:
  assumes "sorts_by_priority srt" "n \<le> m"
  shows "case sem_run srt ops (Semaphore_with_max ptr n m, sch) of ((taken, given), s, sch') \<Rightarrow>
    taken + sem_count s = n + given \<and> sem_count s \<le> m \<and>
    ready_ids sch \<subseteq> ready_ids sch' \<union> waiter_ids (sem_waiting s)"
proof -
  obtain t g s' sch' where r: "sem_run srt ops (Semaphore_with_max ptr n m, sch) = ((t, g), s', sch')"
    by (metis prod.collapse)
  from sem_run_inv [OF assms(1) r] assms(2) show ?thesis
    unfolding r by (simp add: Semaphore_with_max_def)
qed

text \<open>
  (lost wake-up) \<open>wait\<close> registers the thread and blocks it in the scheduler in two steps. A
  \<open>signal\<close> between them, from an interrupt or another core, gives its permit and takes the thread off
  the waiting list, and the late blocking then removes it from the ready queue: the thread is
  neither ready nor waiting although a permit is available.
\<close>

theorem Semaphore_lost_wakeup:
  assumes "sorts_by_priority srt" "sem_count s = 0" "sem_max_count s > 0" "sem_waiting s = []"
  shows "case Semaphore_wait_enter tid prio s of ((acquired, cnt), s1) \<Rightarrow>
    (case Semaphore_signal srt (Semaphore_emit SEM_BLOCK prio cnt s1, sch) of (r, s2, sch2) \<Rightarrow>
      \<not> acquired \<and> r = Inr () \<and> sem_count s2 = 1 \<and> tid \<notin> waiter_ids (sem_waiting s2) \<and>
      tid \<in> ready_ids sch2 \<and> tid \<notin> ready_ids (QxkScheduler_block_thread tid sch2))"
proof -
  have t: "take_highest [WaitingThread_new tid prio] = (Some (WaitingThread_new tid prio), [])"
    by (simp add: take_highest_def swap_remove_def best_waiter_def)
  show ?thesis
    using assms t ready_ids_wake [OF assms(1), of "Some (WaitingThread_new tid prio)" sch]
    by (simp add: Semaphore_wait_enter_def Semaphore_signal_def push_waiter_def WaitingThread_new_def)
qed

text \<open>One thread of priority 2 on a fresh scheduler, and a binary semaphore.\<close>

definition prim_demo_sched :: QxkScheduler where
  "prim_demo_sched = QxkScheduler_mark_thread_ready ready_sort 4 2 (QxkScheduler_new None)"

theorem Semaphore_run_conserves_witness:
  "case sem_run ready_sort [SWait 4 2, SSignal, STryWait] (Semaphore_with_max 16 0 1, prim_demo_sched) of
     ((taken, given), s, sch') \<Rightarrow> taken + sem_count s = 0 + given \<and> sem_count s \<le> 1 \<and>
       ready_ids prim_demo_sched \<subseteq> ready_ids sch' \<union> waiter_ids (sem_waiting s)"
  by (rule Semaphore_run_conserves [OF ready_sort_sorts]) simp

theorem Semaphore_lost_wakeup_witness:
  "case Semaphore_wait_enter 4 2 (Semaphore_binary 16) of ((acquired, cnt), s1) \<Rightarrow>
    (case Semaphore_signal ready_sort (Semaphore_emit SEM_BLOCK 2 cnt s1, prim_demo_sched) of (r, s2, sch2) \<Rightarrow>
      \<not> acquired \<and> r = Inr () \<and> sem_count s2 = 1 \<and> 4 \<notin> waiter_ids (sem_waiting s2) \<and>
      4 \<in> ready_ids sch2 \<and> 4 \<notin> ready_ids (QxkScheduler_block_thread 4 sch2))"
  by (rule Semaphore_lost_wakeup [OF ready_sort_sorts])
    (simp_all add: Semaphore_binary_def Semaphore_with_max_def)

text \<open>
  C17: (mutual exclusion and ceiling) Over every sequence of \<open>lock\<close>, \<open>try_lock\<close> and \<open>unlock\<close> calls by
  any threads on a mutex with ceiling \<open>c\<close>, at most one thread holds the mutex, it is the recorded
  owner, and the scheduler's ceiling is raised to \<open>c\<close> exactly while a holder that called \<open>lock\<close> has
  it; a holder that called \<open>try_lock\<close> runs without the ceiling.
\<close>

theorem MutexPrim_exclusive:
  "case mtx_run srt ops ([], MutexPrim_with_ceiling ptr c, sch) of (hs, m, sch') \<Rightarrow>
     map fst hs = (case mx_owner m of None \<Rightarrow> [] | Some tid \<Rightarrow> [tid]) \<and>
     (mx_locked m \<longleftrightarrow> hs \<noteq> []) \<and>
     xs_lock_ceiling sch' = (if list_ex snd hs then max c (xs_lock_ceiling sch) else xs_lock_ceiling sch)"
proof -
  obtain hs m sch' where r: "mtx_run srt ops ([], MutexPrim_with_ceiling ptr c, sch) = (hs, m, sch')"
    by (cases "mtx_run srt ops ([], MutexPrim_with_ceiling ptr c, sch)")
  have "mtx_inv (Some c) (xs_lock_ceiling sch) ([], MutexPrim_with_ceiling ptr c, sch)"
    by (simp add: mtx_inv_def MutexPrim_with_ceiling_def)
  from mtx_inv_run [OF this, of srt ops] have i: "mtx_inv (Some c) (xs_lock_ceiling sch) (hs, m, sch')"
    by (simp only: r)
  then show ?thesis unfolding r by (cases rule: mtx_inv_cases) (auto simp: mtx_inv_simps)
qed

text \<open>
  C18: (bounded FIFO) Over every sequence of blocking and non-blocking sends and receives on a message
  queue of capacity \<open>N\<close>, the accepted messages are the delivered ones followed by the queued ones, in
  order, none lost or duplicated, and never more than \<open>N\<close> are queued.
\<close>

theorem MessageQueue_run_fifo:
  "case mq_run srt N ops (MessageQueue_new, sch) of ((accepted, delivered), q, sch') \<Rightarrow>
     accepted = delivered @ mq_queue q \<and> length (mq_queue q) \<le> N"
proof -
  obtain a d q sch' where r: "mq_run srt N ops (MessageQueue_new, sch) = ((a, d), q, sch')"
    by (metis prod.collapse)
  from mq_run_fifo [OF r] show ?thesis unfolding r by (simp add: MessageQueue_new_def)
qed

text \<open>A non-blocking receive makes room but leaves the blocked senders waiting.\<close>

lemma MessageQueue_try_receive_strands_sender:
  "case mq_run srt 1 [QTrySend a, QSend b 7 3, QTryReceive] (MessageQueue_new, sch) of (_, q, sch') \<Rightarrow>
     mq_queue q = [] \<and> mq_waiting_senders q = [WaitingThread_new 7 3] \<and> 7 \<notin> ready_ids sch'"
  by (simp add: MessageQueue_defs MessageQueue_new_def take_highest_def wake_def push_waiter_def)

end
