(* ===== verification/QxkKernel.thy ===== *)
theory QxkKernel
  imports QxkPrims
begin

text \<open>
  Extended threads (\<open>crates/qxk/src/thread.rs\<close>) and the dual-mode kernel
  (\<open>crates/qxk/src/kernel.rs\<close>, single core, default build). Thread handlers are closures over
  application state shared with other threads and with active objects, semaphores and mutexes
  included: that state is \<open>'w\<close>, and a poll is a function of it and of the scheduler. A handler of
  an active object is a list of effects; \<open>XShared\<close> is its access to the shared state. Handlers
  post, publish and use the scheduler; they do not call the dispatcher themselves.
\<close>

section \<open>Extended threads\<close>

datatype ThreadAction = Continue | Yield | ActionBlocked | ActionTerminated
datatype ThreadState = Ready | Running | Blocked | Terminated

record ThreadConfig =
  tc_id :: u8
  tc_priority :: u8
  tc_stack_size :: nat

record ExtendedThread =
  xt_id :: u8
  xt_priority :: u8
  xt_state :: ThreadState
  xt_stack_size :: nat
  xt_handler :: bool
  xt_iteration :: u64

text \<open>
  \<open>ThreadContext\<close>: identity, priority and iteration, beside the scheduler. The handler of thread
  \<open>i\<close> is the value of the kernel's \<open>poll\<close> argument at \<open>i\<close>; \<open>xt_handler\<close> says whether the closure is
  still there.
\<close>

record ThreadContext =
  cx_thread_id :: u8
  cx_priority :: u8
  cx_iteration :: u64

datatype 'p post_call = TPost u8 "'p Event" | TPublish signal "'p Event"

type_synonym ('p, 'w) thread_fn =
  "ThreadContext \<Rightarrow> 'w \<times> QxkScheduler \<Rightarrow> ThreadAction \<times> ('w \<times> QxkScheduler) \<times> 'p post_call list"

definition ThreadConfig_new :: "u8 \<Rightarrow> u8 \<Rightarrow> ThreadConfig" where
  "ThreadConfig_new tid prio = \<lparr>tc_id = tid, tc_priority = prio, tc_stack_size = 4096\<rparr>"

definition ThreadConfig_with_stack_size :: "nat \<Rightarrow> ThreadConfig \<Rightarrow> ThreadConfig" where
  "ThreadConfig_with_stack_size n c = c\<lparr>tc_stack_size := n\<rparr>"

definition ExtendedThread_new :: "ThreadConfig \<Rightarrow> ExtendedThread" where
  "ExtendedThread_new c =
     \<lparr>xt_id = tc_id c, xt_priority = tc_priority c, xt_state = Ready, xt_stack_size = tc_stack_size c,
      xt_handler = True, xt_iteration = 0\<rparr>"

definition ExtendedThread_is_ready :: "ExtendedThread \<Rightarrow> bool" where
  "ExtendedThread_is_ready t \<longleftrightarrow> xt_state t = Ready"

definition ExtendedThread_is_blocked :: "ExtendedThread \<Rightarrow> bool" where
  "ExtendedThread_is_blocked t \<longleftrightarrow> xt_state t = Blocked"

definition ExtendedThread_is_terminated :: "ExtendedThread \<Rightarrow> bool" where
  "ExtendedThread_is_terminated t \<longleftrightarrow> xt_state t = Terminated"

definition ExtendedThread_after :: "ThreadAction \<Rightarrow> ExtendedThread \<Rightarrow> ExtendedThread" where
  "ExtendedThread_after action t =
     (case action of
        ActionTerminated \<Rightarrow> t\<lparr>xt_state := Terminated, xt_handler := False\<rparr>
      | ActionBlocked \<Rightarrow> t\<lparr>xt_state := Blocked\<rparr>
      | _ \<Rightarrow> t\<lparr>xt_state := Ready\<rparr>)"

definition ExtendedThread_poll ::
    "('p, 'w) thread_fn \<Rightarrow> ExtendedThread \<Rightarrow> 'w \<times> QxkScheduler \<Rightarrow>
     (ThreadAction \<times> ExtendedThread \<times> ('w \<times> QxkScheduler) \<times> 'p post_call list) result" where
  "ExtendedThread_poll handler t x =
     (if xt_handler t
      then rbind (ensure Panic (xt_iteration t \<noteq> - 1)) (\<lambda>_.
             let ctx = \<lparr>cx_thread_id = xt_id t, cx_priority = xt_priority t, cx_iteration = xt_iteration t\<rparr>;
                 t1 = t\<lparr>xt_state := Running, xt_iteration := xt_iteration t + 1\<rparr>;
                 (action, x', ps) = handler ctx x
             in Inr (action, ExtendedThread_after action t1, x', ps))
      else Inr (ActionTerminated, t\<lparr>xt_state := Terminated\<rparr>, x, []))"

section \<open>State and construction\<close>

definition MAX_AO_PRIORITY :: nat where
  "MAX_AO_PRIORITY = 63"

datatype QxkKernelError =
    DuplicateAoPriority u8
  | DuplicateThreadId u8
  | AoNotFound u8
  | ThreadNotFound u8
  | InvalidAoPriority u8
  | InvalidThreadPriority u8

datatype ('p, 'w) qxk_call =
    XPost u8 "'p Event"
  | XPublish signal "'p Event"
  | XShared "'w \<times> QxkScheduler \<Rightarrow> 'w \<times> QxkScheduler"

type_synonym ('p, 'b, 'w) QxkBehavior = "('p, 'b, ('p, 'w) qxk_call) Behavior"

record ('p, 'b) AoRegistration =
  ar_object :: "('p, 'b) ActiveObject"
  ar_priority :: u8
  ar_id :: u8

record ('p, 'b) QxkKernelBuilder =
  xb_ao_registrations :: "('p, 'b) AoRegistration list"
  xb_thread_configs :: "ThreadConfig list"
  xb_trace :: trace

record ('p, 'b, 'w) QxkKernel =
  xk_sched :: QxkScheduler
  xk_slots :: "('p, 'b) ActiveObject option list"
  xk_id_to_prio :: "u8 \<rightharpoonup> u8"
  xk_threads :: "u8 \<rightharpoonup> ExtendedThread"
  xk_world :: 'w

definition QxkKernelBuilder_new :: "('p, 'b) QxkKernelBuilder" where
  "QxkKernelBuilder_new = \<lparr>xb_ao_registrations = [], xb_thread_configs = [], xb_trace = None\<rparr>"

definition QxkKernelBuilder_validate_ao_priority :: "u8 \<Rightarrow> QxkKernelError + unit" where
  "QxkKernelBuilder_validate_ao_priority p =
     (if p = 0 then Inl (InvalidAoPriority p)
      else if unat p > MAX_AO_PRIORITY then Inl (InvalidAoPriority p)
      else Inr ())"

definition QxkKernelBuilder_register_ao ::
    "('p, 'b) ActiveObject \<Rightarrow> ('p, 'b) QxkKernelBuilder \<Rightarrow> (QxkKernelError + ('p, 'b) QxkKernelBuilder) result" where
  "QxkKernelBuilder_register_ao ao b =
     rbind (ActiveObject_priority ao) (\<lambda>p.
       Inr (rbind (QxkKernelBuilder_validate_ao_priority p) (\<lambda>_.
         Inr (b\<lparr>xb_ao_registrations := xb_ao_registrations b @
           [\<lparr>ar_object = ao, ar_priority = p, ar_id = ao_id ao\<rparr>]\<rparr>))))"

definition QxkKernelBuilder_register_thread ::
    "ThreadConfig \<Rightarrow> ('p, 'b) QxkKernelBuilder \<Rightarrow> QxkKernelError + ('p, 'b) QxkKernelBuilder" where
  "QxkKernelBuilder_register_thread c b =
     (if list_ex (\<lambda>d. tc_id d = tc_id c) (xb_thread_configs b) then Inl (DuplicateThreadId (tc_id c))
      else Inr (b\<lparr>xb_thread_configs := xb_thread_configs b @ [c]\<rparr>))"

definition QxkKernelBuilder_with_trace_hook :: "('p, 'b) QxkKernelBuilder \<Rightarrow> ('p, 'b) QxkKernelBuilder" where
  "QxkKernelBuilder_with_trace_hook b = b\<lparr>xb_trace := Some []\<rparr>"

fun qxk_fill_slots ::
    "('p, 'b) AoRegistration list \<Rightarrow> ('p, 'b) ActiveObject option list \<Rightarrow> (u8 \<rightharpoonup> u8) \<Rightarrow>
     (QxkKernelError + ('p, 'b) ActiveObject option list \<times> (u8 \<rightharpoonup> u8)) result" where
  "qxk_fill_slots [] slots ids = Inr (Inr (slots, ids))"
| "qxk_fill_slots (r # rs) slots ids =
     (let p = unat (ar_priority r)
      in if \<not> p < length slots then Inl Panic
         else if slots ! p \<noteq> None then Inr (Inl (DuplicateAoPriority (ar_priority r)))
         else qxk_fill_slots rs (slots[p := Some (ar_object r)]) (ids(ar_id r \<mapsto> ar_priority r)))"

definition insert_thread :: "u8 \<Rightarrow> ExtendedThread \<Rightarrow> (u8 \<rightharpoonup> ExtendedThread) \<Rightarrow> (u8 \<rightharpoonup> ExtendedThread)" where
  "insert_thread tid t s = s(tid \<mapsto> t)"

definition QxkKernel_new ::
    "'w \<Rightarrow> ('p, 'b) QxkKernelBuilder \<Rightarrow> (QxkKernelError + ('p, 'b, 'w) QxkKernel) result" where
  "QxkKernel_new w b =
     rbind (qxk_fill_slots (xb_ao_registrations b) (replicate (MAX_AO_PRIORITY + 1) None) Map.empty) (\<lambda>r.
       Inr (rbind r (\<lambda>(slots, ids).
         Inr \<lparr>xk_sched = QxkScheduler_new (xb_trace b), xk_slots = slots, xk_id_to_prio = ids,
              xk_threads = fold (\<lambda>c. insert_thread (tc_id c) (ExtendedThread_new c))
                (xb_thread_configs b) Map.empty,
              xk_world = w\<rparr>)))"

definition QxkKernelBuilder_build ::
    "'w \<Rightarrow> ('p, 'b) QxkKernelBuilder \<Rightarrow> (QxkKernelError + ('p, 'b, 'w) QxkKernel) result" where
  "QxkKernelBuilder_build w b = QxkKernel_new w b"

section \<open>Posting and publishing\<close>

definition QxkKernel_find_thread :: "u8 \<Rightarrow> ('p, 'b, 'w) QxkKernel \<Rightarrow> ExtendedThread option" where
  "QxkKernel_find_thread tid k = xk_threads k tid"

definition qxk_post_to :: "nat \<Rightarrow> ('p, 'b) ActiveObject \<Rightarrow> 'p Event \<Rightarrow> ('p, 'b, 'w) QxkKernel \<Rightarrow>
    ('p, 'b, 'w) QxkKernel result" where
  "qxk_post_to i ao e k =
     (let was_empty = \<not> ActiveObject_has_events ao
      in rbind (ActiveObject_post None e ao) (\<lambda>ao'.
           let k' = k\<lparr>xk_slots := (xk_slots k)[i := Some ao']\<rparr>
           in if was_empty
              then rbind (QxkScheduler_mark_ao_ready (of_nat i) (xk_sched k')) (\<lambda>sc. Inr (k'\<lparr>xk_sched := sc\<rparr>))
              else Inr k'))"

definition QxkKernel_post_ao ::
    "u8 \<Rightarrow> 'p Event \<Rightarrow> ('p, 'b, 'w) QxkKernel \<Rightarrow> ((QxkKernelError + unit) \<times> ('p, 'b, 'w) QxkKernel) result" where
  "QxkKernel_post_ao target e k =
     (case xk_id_to_prio k target of
        None \<Rightarrow> Inr (Inl (AoNotFound target), k)
      | Some p \<Rightarrow>
          if \<not> unat p < length (xk_slots k) then Inl Panic
          else (case xk_slots k ! unat p of
                  None \<Rightarrow> Inl OnError
                | Some ao \<Rightarrow> rbind (qxk_post_to (unat p) ao e k) (\<lambda>k'. Inr (Inr (), k'))))"

fun qxk_publish_slots ::
    "'p Event \<Rightarrow> nat list \<Rightarrow> ('p, 'b, 'w) QxkKernel \<Rightarrow> ('p, 'b, 'w) QxkKernel result" where
  "qxk_publish_slots e [] k = Inr k"
| "qxk_publish_slots e (i # is) k =
     (case xk_slots k ! i of
        None \<Rightarrow> qxk_publish_slots e is k
      | Some ao \<Rightarrow> rbind (qxk_post_to i ao e k) (qxk_publish_slots e is))"

definition QxkKernel_publish_ao ::
    "signal \<Rightarrow> 'p Event \<Rightarrow> ('p, 'b, 'w) QxkKernel \<Rightarrow> ('p, 'b, 'w) QxkKernel result" where
  "QxkKernel_publish_ao s e k = qxk_publish_slots (Event_for_signal s e) [0..<length (xk_slots k)] k"

definition qxk_emit :: "u8 \<Rightarrow> u8 list \<Rightarrow> bool \<Rightarrow> ('p, 'b, 'w) QxkKernel \<Rightarrow> ('p, 'b, 'w) QxkKernel" where
  "qxk_emit r p ts k = k\<lparr>xk_sched := (xk_sched k)\<lparr>xs_trace := emit r p ts (xs_trace (xk_sched k))\<rparr>\<rparr>"

fun qxk_effect ::
    "('p, 'w) qxk_call effect \<Rightarrow> ('p, 'b, 'w) QxkKernel \<Rightarrow> ('p, 'b, 'w) QxkKernel result" where
  "qxk_effect (Trace r p ts) k = Inr (qxk_emit r p ts k)"
| "qxk_effect (Call (XPost t e)) k = rbind (QxkKernel_post_ao t e k) (\<lambda>(_, k'). Inr k')"
| "qxk_effect (Call (XPublish s e)) k = QxkKernel_publish_ao s e k"
| "qxk_effect (Call (XShared f)) k =
     (let (w, sc) = f (xk_world k, xk_sched k) in Inr (k\<lparr>xk_world := w, xk_sched := sc\<rparr>))"

fun qxk_effects ::
    "('p, 'w) qxk_call effect list \<Rightarrow> ('p, 'b, 'w) QxkKernel \<Rightarrow> ('p, 'b, 'w) QxkKernel result" where
  "qxk_effects [] k = Inr k"
| "qxk_effects (c # cs) k = rbind (qxk_effect c k) (qxk_effects cs)"

text \<open>The posts of a thread are effects too.\<close>

fun post_effect :: "'p post_call \<Rightarrow> ('p, 'w) qxk_call effect" where
  "post_effect (TPost t e) = Call (XPost t e)"
| "post_effect (TPublish s e) = Call (XPublish s e)"

section \<open>Dispatching\<close>

definition QxkKernel_dispatch_ao ::
    "('p, 'b, 'w) QxkBehavior \<Rightarrow> u8 \<Rightarrow> ('p, 'b, 'w) QxkKernel \<Rightarrow> ('p, 'b, 'w) QxkKernel result" where
  "QxkKernel_dispatch_ao bh p k =
     (if \<not> unat p < length (xk_slots k) then Inl Panic
      else case xk_slots k ! unat p of
             None \<Rightarrow> Inr k
           | Some ao \<Rightarrow>
               let (processed, ao', cs) = ActiveObject_dispatch_one bh ao
               in rbind (qxk_effects cs (k\<lparr>xk_slots := (xk_slots k)[unat p := Some ao']\<rparr>)) (\<lambda>k1.
                    rbind (ensure Panic processed) (\<lambda>_.
                      if (case xk_slots k1 ! unat p of None \<Rightarrow> False | Some ao1 \<Rightarrow> \<not> ActiveObject_has_events ao1)
                      then rbind (QxkScheduler_mark_ao_not_ready p (xk_sched k1)) (\<lambda>sc.
                             Inr (k1\<lparr>xk_sched := sc\<rparr>))
                      else Inr k1)))"

definition qxk_after_poll :: "(ready_queue \<Rightarrow> ready_queue) \<Rightarrow> ThreadAction \<Rightarrow> u8 \<Rightarrow> u8 \<Rightarrow> QxkScheduler \<Rightarrow> QxkScheduler" where
  "qxk_after_poll srt action tid prio sc =
     (case action of
        Continue \<Rightarrow> sc
      | Yield \<Rightarrow> QxkScheduler_mark_thread_ready srt tid prio sc
      | ActionBlocked \<Rightarrow> sc
      | ActionTerminated \<Rightarrow> QxkScheduler_mark_thread_not_ready tid sc)"

definition qxk_dispatch_thread ::
    "(ready_queue \<Rightarrow> ready_queue) \<Rightarrow> (u8 \<Rightarrow> ('p, 'w) thread_fn) \<Rightarrow> u8 \<Rightarrow> u8 \<Rightarrow> ('p, 'b, 'w) QxkKernel \<Rightarrow>
     (bool \<times> ('p, 'b, 'w) QxkKernel) result" where
  "qxk_dispatch_thread srt poll tid prio k =
     (let mode = ExtendedThreadMode tid prio
      in case QxkKernel_find_thread tid k of
           Some t \<Rightarrow>
             rbind (ExtendedThread_poll (poll tid) t (xk_world k, xk_sched k)) (\<lambda>(action, t', (w, sc), ps).
               rbind (qxk_effects (map post_effect ps)
                        (k\<lparr>xk_world := w, xk_sched := sc, xk_threads := (xk_threads k)(tid \<mapsto> t')\<rparr>)) (\<lambda>k1.
                 let sc1 = QxkScheduler_complete_execution mode (xk_sched k1)
                 in Inr (True, k1\<lparr>xk_sched := qxk_after_poll srt action tid prio sc1\<rparr>)))
         | None \<Rightarrow>
             let sc1 = QxkScheduler_complete_execution mode (xk_sched k)
             in Inr (False, k\<lparr>xk_sched := QxkScheduler_mark_thread_not_ready tid sc1\<rparr>))"

definition QxkKernel_dispatch_once ::
    "(ready_queue \<Rightarrow> ready_queue) \<Rightarrow> ('p, 'b, 'w) QxkBehavior \<Rightarrow> (u8 \<Rightarrow> ('p, 'w) thread_fn) \<Rightarrow>
     ('p, 'b, 'w) QxkKernel \<Rightarrow> (bool \<times> ('p, 'b, 'w) QxkKernel) result" where
  "QxkKernel_dispatch_once srt bh poll k =
     (let (mode, sc) = QxkScheduler_plan_next (xk_sched k);
          k0 = k\<lparr>xk_sched := QxkScheduler_set_active mode sc\<rparr>
      in case mode of
           ActiveObjectMode p \<Rightarrow>
             rbind (QxkKernel_dispatch_ao bh p k0) (\<lambda>k1.
               Inr (True, k1\<lparr>xk_sched := QxkScheduler_complete_execution mode (xk_sched k1)\<rparr>))
         | ExtendedThreadMode tid prio \<Rightarrow> qxk_dispatch_thread srt poll tid prio k0
         | IdleMode \<Rightarrow> Inr (False, k0\<lparr>xk_sched := QxkScheduler_complete_execution mode (xk_sched k0)\<rparr>))"

partial_function (option) QxkKernel_run_until_idle ::
    "(ready_queue \<Rightarrow> ready_queue) \<Rightarrow> ('p, 'b, 'w) QxkBehavior \<Rightarrow> (u8 \<Rightarrow> ('p, 'w) thread_fn) \<Rightarrow>
     ('p, 'b, 'w) QxkKernel \<Rightarrow> ('p, 'b, 'w) QxkKernel result option" where
  "QxkKernel_run_until_idle srt bh poll k =
     (case QxkKernel_dispatch_once srt bh poll k of
        Inl f \<Rightarrow> Some (Inl f)
      | Inr (busy, k') \<Rightarrow> if busy then QxkKernel_run_until_idle srt bh poll k' else Some (Inr k'))"

declare QxkKernel_run_until_idle.simps [code]

definition QxkKernel_has_pending_work :: "('p, 'b, 'w) QxkKernel \<Rightarrow> bool" where
  "QxkKernel_has_pending_work k = QxkScheduler_has_work (xk_sched k)"

definition QxkKernel_lock_scheduler ::
    "u8 \<Rightarrow> ('p, 'b, 'w) QxkKernel \<Rightarrow> QxkSchedStatus \<times> ('p, 'b, 'w) QxkKernel" where
  "QxkKernel_lock_scheduler c k =
     (let (st, sc) = QxkScheduler_lock c (xk_sched k) in (st, k\<lparr>xk_sched := sc\<rparr>))"

definition QxkKernel_unlock_scheduler ::
    "(ready_queue \<Rightarrow> ready_queue) \<Rightarrow> ('p, 'b, 'w) QxkBehavior \<Rightarrow> (u8 \<Rightarrow> ('p, 'w) thread_fn) \<Rightarrow>
     QxkSchedStatus \<Rightarrow> ('p, 'b, 'w) QxkKernel \<Rightarrow> ('p, 'b, 'w) QxkKernel result" where
  "QxkKernel_unlock_scheduler srt bh poll st k =
     (let k' = k\<lparr>xk_sched := QxkScheduler_unlock st (xk_sched k)\<rparr>
      in if QxkSchedStatus_is_locked st \<and> QxkScheduler_has_work (xk_sched k')
         then rbind (QxkKernel_dispatch_once srt bh poll k') (\<lambda>(_, k''). Inr k'')
         else Inr k')"

definition QxkKernel_post_ao_and_run ::
    "(ready_queue \<Rightarrow> ready_queue) \<Rightarrow> ('p, 'b, 'w) QxkBehavior \<Rightarrow> (u8 \<Rightarrow> ('p, 'w) thread_fn) \<Rightarrow>
     u8 \<Rightarrow> 'p Event \<Rightarrow> ('p, 'b, 'w) QxkKernel \<Rightarrow> ((QxkKernelError + unit) \<times> ('p, 'b, 'w) QxkKernel) result option" where
  "QxkKernel_post_ao_and_run srt bh poll target e k =
     orbind (Some (QxkKernel_post_ao target e k)) (\<lambda>(r, k1).
       case r of
         Inl err \<Rightarrow> Some (Inr (Inl err, k1))
       | Inr _ \<Rightarrow> orbind (QxkKernel_run_until_idle srt bh poll k1) (\<lambda>k2. Some (Inr (Inr (), k2))))"

fun qxk_start_objects ::
    "('p, 'b, 'w) QxkBehavior \<Rightarrow> nat list \<Rightarrow> ('p, 'b, 'w) QxkKernel \<Rightarrow> ('p, 'b, 'w) QxkKernel result" where
  "qxk_start_objects bh [] k = Inr k"
| "qxk_start_objects bh (i # is) k =
     (case xk_slots k ! i of
        None \<Rightarrow> qxk_start_objects bh is k
      | Some ao \<Rightarrow>
          let (ao', cs) = ActiveObject_start bh (xs_trace (xk_sched k) \<noteq> None) ao
          in rbind (qxk_effects cs (k\<lparr>xk_slots := (xk_slots k)[i := Some ao']\<rparr>)) (\<lambda>k1.
               case xk_slots k1 ! i of
                 None \<Rightarrow> Inl Panic
               | Some ao1 \<Rightarrow>
                   if ActiveObject_has_events ao1
                   then rbind (ActiveObject_priority ao1) (\<lambda>p.
                          rbind (QxkScheduler_mark_ao_ready p (xk_sched k1)) (\<lambda>sc.
                            qxk_start_objects bh is (k1\<lparr>xk_sched := sc\<rparr>)))
                   else qxk_start_objects bh is k1))"

text \<open>The thread store is ordered by identifier.\<close>

definition qxk_start_threads ::
    "(ready_queue \<Rightarrow> ready_queue) \<Rightarrow> ('p, 'b, 'w) QxkKernel \<Rightarrow> ('p, 'b, 'w) QxkKernel" where
  "qxk_start_threads srt k =
     k\<lparr>xk_sched := fold (\<lambda>tid sc. case xk_threads k tid of
         Some t \<Rightarrow> if ExtendedThread_is_ready t
                   then QxkScheduler_mark_thread_ready srt (xt_id t) (xt_priority t) sc else sc
       | None \<Rightarrow> sc) (map of_nat [0..<256]) (xk_sched k)\<rparr>"

definition QxkKernel_start ::
    "(ready_queue \<Rightarrow> ready_queue) \<Rightarrow> ('p, 'b, 'w) QxkBehavior \<Rightarrow> ('p, 'b, 'w) QxkKernel \<Rightarrow>
     ('p, 'b, 'w) QxkKernel result" where
  "QxkKernel_start srt bh k =
     rbind (qxk_start_objects bh [0..<length (xk_slots k)] k) (\<lambda>k1. Inr (qxk_start_threads srt k1))"

section \<open>Invariant and potential\<close>

definition slot_evs :: "('p, 'b) ActiveObject option \<Rightarrow> 'p Event list" where
  "slot_evs s = (case s of None \<Rightarrow> [] | Some ao \<Rightarrow> ao_events ao)"

definition qxk_slots_ok :: "('p, 'b, 'w) QxkKernel \<Rightarrow> bool" where
  "qxk_slots_ok k \<longleftrightarrow> length (xk_slots k) = 64 \<and>
     (\<forall>i<64. \<forall>ao. xk_slots k ! i = Some ao \<longrightarrow> ActiveObject_inv ao \<and> unat (ao_prio ao) = i) \<and>
     (\<forall>t p. xk_id_to_prio k t = Some p \<longrightarrow> unat p < 64 \<and> xk_slots k ! unat p \<noteq> None)"

text \<open>
  What every use of the scheduler by application code respects, for thread identifiers \<open>D\<close>; the
  application's own invariant on the shared state is \<open>I\<close>.
\<close>

definition sched_ok :: "u8 set \<Rightarrow> QxkScheduler \<Rightarrow> bool" where
  "sched_ok D sc \<longleftrightarrow> queue_ok (xs_thread_ready sc) \<and> ready_ids sc \<subseteq> D"

text \<open>
  A priority outside \<open>X\<close> is ready exactly when its object has events; one in \<open>X\<close>, whose object is
  being dispatched, at least when it has.
\<close>

definition qxk_ready_ok :: "nat set \<Rightarrow> ('p, 'b, 'w) QxkKernel \<Rightarrow> bool" where
  "qxk_ready_ok X k \<longleftrightarrow> (\<forall>i<64.
     (i \<notin> X \<longrightarrow> bit (xs_ao_ready (xk_sched k)) i = (slot_evs (xk_slots k ! i) \<noteq> [])) \<and>
     (slot_evs (xk_slots k ! i) \<noteq> [] \<longrightarrow> bit (xs_ao_ready (xk_sched k)) i))"

definition qxk_ok :: "('w \<Rightarrow> bool) \<Rightarrow> nat set \<Rightarrow> ('p, 'b, 'w) QxkKernel \<Rightarrow> bool" where
  "qxk_ok I X k \<longleftrightarrow> qxk_slots_ok k \<and> qxk_ready_ok X k \<and> sched_ok (dom (xk_threads k)) (xk_sched k) \<and> I (xk_world k)"

text \<open>
  Work: queued events weighted by \<open>w\<close>, the potential \<open>u\<close> of the shared state, and the length of the
  thread ready queue, of which there are at most 256 entries.
\<close>

definition qxk_weight :: "('p Event \<Rightarrow> nat) \<Rightarrow> ('p, 'b, 'w) QxkKernel \<Rightarrow> nat" where
  "qxk_weight w k = sum_list (map (\<lambda>s. sum_list (map w (slot_evs s))) (xk_slots k))"

fun qxk_effect_weight :: "('p Event \<Rightarrow> nat) \<Rightarrow> ('p, 'w) qxk_call effect \<Rightarrow> nat" where
  "qxk_effect_weight w (Call (XPost t e)) = w e"
| "qxk_effect_weight w (Call (XPublish s e)) = 64 * w (Event_for_signal s e)"
| "qxk_effect_weight w c = 0"

definition qxk_effects_weight :: "('p Event \<Rightarrow> nat) \<Rightarrow> ('p, 'w) qxk_call effect list \<Rightarrow> nat" where
  "qxk_effects_weight w cs = sum_list (map (qxk_effect_weight w) cs)"

definition posts_weight :: "('p Event \<Rightarrow> nat) \<Rightarrow> 'p post_call list \<Rightarrow> nat" where
  "posts_weight w ps =
     sum_list (map (\<lambda>c. case c of TPost t e \<Rightarrow> w e | TPublish s e \<Rightarrow> 64 * w (Event_for_signal s e)) ps)"

definition qxk_work :: "('p Event \<Rightarrow> nat) \<Rightarrow> ('w \<Rightarrow> nat) \<Rightarrow> ('p, 'b, 'w) QxkKernel \<Rightarrow> nat" where
  "qxk_work w u k = 257 * (qxk_weight w k + u (xk_world k)) + length (xs_thread_ready (xk_sched k))"

definition qxk_inv :: "('w \<Rightarrow> bool) \<Rightarrow> ('p Event \<Rightarrow> nat) \<Rightarrow> ('w \<Rightarrow> nat) \<Rightarrow> ('p, 'b, 'w) QxkKernel \<Rightarrow> bool" where
  "qxk_inv I w u k \<longleftrightarrow> qxk_ok I {} k \<and>
     (\<forall>t\<in>ran (xk_threads k). unat (xt_iteration t) + qxk_work w u k < 2 ^ 64)"

text \<open>
  Applications that do a finite amount of work: handling an event causes less work than the event is
  worth, and a poll of a thread uses up potential or leaves the ready queue without causing work.
\<close>

fun qxk_effect_ok :: "u8 set \<Rightarrow> ('w \<Rightarrow> bool) \<Rightarrow> ('w \<Rightarrow> nat) \<Rightarrow> ('p, 'w) qxk_call effect \<Rightarrow> bool" where
  "qxk_effect_ok D I u (Call (XShared f)) \<longleftrightarrow> (\<forall>x. sched_ok D (snd x) \<longrightarrow> I (fst x) \<longrightarrow>
     sched_ok D (snd (f x)) \<and> I (fst (f x)) \<and> xs_ao_ready (snd (f x)) = xs_ao_ready (snd x) \<and> u (fst (f x)) \<le> u (fst x))"
| "qxk_effect_ok D I u c \<longleftrightarrow> True"

definition qxk_bh_ok :: "u8 set \<Rightarrow> ('w \<Rightarrow> bool) \<Rightarrow> ('p Event \<Rightarrow> nat) \<Rightarrow> ('w \<Rightarrow> nat) \<Rightarrow> ('p, 'b, 'w) QxkBehavior \<Rightarrow> bool" where
  "qxk_bh_ok D I w u bh \<longleftrightarrow> (\<forall>i b e. list_all (qxk_effect_ok D I u) (snd (on_event bh i b e)) \<and>
     qxk_effects_weight w (snd (on_event bh i b e)) < w e)"

definition qxk_poll_ok ::
    "(ready_queue \<Rightarrow> ready_queue) \<Rightarrow> u8 set \<Rightarrow> ('w \<Rightarrow> bool) \<Rightarrow> ('p Event \<Rightarrow> nat) \<Rightarrow> ('w \<Rightarrow> nat) \<Rightarrow> (u8 \<Rightarrow> ('p, 'w) thread_fn) \<Rightarrow> bool" where
  "qxk_poll_ok srt D I w u poll \<longleftrightarrow> (\<forall>tid ctx x. sched_ok D (snd x) \<longrightarrow> I (fst x) \<longrightarrow> tid \<in> ready_ids (snd x) \<longrightarrow>
     (case poll tid ctx x of (action, y, ps) \<Rightarrow>
        sched_ok D (snd y) \<and> I (fst y) \<and> xs_ao_ready (snd y) = xs_ao_ready (snd x) \<and>
        (u (fst y) + posts_weight w ps < u (fst x) \<or>
         u (fst y) \<le> u (fst x) \<and> ps = [] \<and>
         length (xs_thread_ready (qxk_after_poll srt action tid (cx_priority ctx) (snd y))) <
           length (xs_thread_ready (snd x)))))"

section \<open>Posting keeps the invariant\<close>

definition qxk_keeps ::
    "('w \<Rightarrow> bool) \<Rightarrow> nat set \<Rightarrow> ('p Event \<Rightarrow> nat) \<Rightarrow> ('w \<Rightarrow> nat) \<Rightarrow> nat \<Rightarrow> ('p, 'b, 'w) QxkKernel \<Rightarrow> ('p, 'b, 'w) QxkKernel \<Rightarrow> bool" where
  "qxk_keeps I X w u n k k' \<longleftrightarrow> qxk_ok I X k' \<and> xk_threads k' = xk_threads k \<and>
     (\<forall>i. xk_slots k' ! i = None \<longleftrightarrow> xk_slots k ! i = None) \<and>
     qxk_weight w k' + u (xk_world k') \<le> qxk_weight w k + u (xk_world k) + n"

lemma qxk_keeps_refl: "qxk_ok I X k \<Longrightarrow> qxk_keeps I X w u n k k"
  by (simp add: qxk_keeps_def)

lemma qxk_keeps_trans:
  "qxk_keeps I X w u m k k1 \<Longrightarrow> qxk_keeps I X w u n k1 k2 \<Longrightarrow> qxk_keeps I X w u (m + n) k k2"
  by (auto simp: qxk_keeps_def)

lemma qxk_slots_ok_set:
  assumes "qxk_slots_ok k" "i < 64" "xk_slots k ! i = Some ao" "ao_priority ao' = ao_priority ao"
    "ActiveObject_inv ao'"
  shows "qxk_slots_ok (k\<lparr>xk_slots := (xk_slots k)[i := Some ao'], xk_sched := sc\<rparr>)"
  using assms unfolding qxk_slots_ok_def by (auto simp: nth_list_update)

lemma qxk_weight_set:
  assumes "i < length (xk_slots k)" "xk_slots k ! i = Some ao"
  shows "qxk_weight w (k\<lparr>xk_slots := (xk_slots k)[i := Some ao'], xk_sched := sc\<rparr>) + sum_list (map w (ao_events ao)) =
    qxk_weight w k + sum_list (map w (ao_events ao'))"
  using sum_list_update_nat [OF assms(1), of "\<lambda>s. sum_list (map w (slot_evs s))" "Some ao'"] assms(2)
  by (simp add: qxk_weight_def slot_evs_def)

lemma sched_ok_ao_ready [simp]: "sched_ok D (sc\<lparr>xs_ao_ready := r\<rparr>) \<longleftrightarrow> sched_ok D sc"
  by (simp add: sched_ok_def ready_ids_def)

lemma qxk_post_to_ok:
  assumes "qxk_ok I X k" "i < 64" "xk_slots k ! i = Some ao"
  shows "\<exists>k'. qxk_post_to i ao e k = Inr k' \<and> qxk_keeps I X w u (w e) k k'"
proof -
  obtain ao' where ao': "ActiveObject_post None e ao = Inr ao'" "ao_events ao' = ao_events ao @ [e]"
    "ao_priority ao' = ao_priority ao" "ActiveObject_inv ao \<longrightarrow> ActiveObject_inv ao'"
    using ActiveObject_post_None by blast
  have so: "qxk_slots_ok k" "qxk_ready_ok X k" and sc: "sched_ok (dom (xk_threads k)) (xk_sched k)" "I (xk_world k)"
    using assms(1) by (simp_all add: qxk_ok_def)
  have len: "length (xk_slots k) = 64" and inv: "ActiveObject_inv ao"
    using so(1) assms(2,3) by (simp_all add: qxk_slots_ok_def)
  have lt: "(of_nat i :: u8) < 64" using assms(2) by (simp add: u8_lt_64_iff unat_of_nat)
  let ?r = "if ao_events ao = [] then or (xs_ao_ready (xk_sched k)) (u64_bit (of_nat i))
    else xs_ao_ready (xk_sched k)"
  let ?k' = "k\<lparr>xk_slots := (xk_slots k)[i := Some ao'], xk_sched := (xk_sched k)\<lparr>xs_ao_ready := ?r\<rparr>\<rparr>"
  have p: "qxk_post_to i ao e k = Inr ?k'"
    using lt by (auto simp: qxk_post_to_def ao'(1) QxkScheduler_mark_ao_ready_def Let_def)
  have "qxk_slots_ok ?k'" by (rule qxk_slots_ok_set [OF so(1) assms(2,3) ao'(3)]) (use ao'(4) inv in simp)
  moreover have "qxk_ready_ok X ?k'"
    using so(2) assms(2,3) len ao'(2)
    by (auto simp: qxk_ready_ok_def nth_list_update slot_evs_def bit_or_u64_bit)
  moreover have "qxk_weight w ?k' = qxk_weight w k + w e"
    using qxk_weight_set [of i k ao, where ao' = ao' and w = w and sc = "(xk_sched k)\<lparr>xs_ao_ready := ?r\<rparr>"]
      assms(2,3) len ao'(2) by simp
  ultimately show ?thesis
    using p sc assms(2,3) len by (auto simp: qxk_keeps_def qxk_ok_def nth_list_update)
qed

lemma qxk_publish_slots_ok:
  assumes "qxk_ok I X k" "\<forall>i\<in>set is. i < 64"
  shows "\<exists>k'. qxk_publish_slots e is k = Inr k' \<and> qxk_keeps I X w u (length is * w e) k k'"
  using assms
proof (induction "is" arbitrary: k)
  case Nil
  then show ?case by (simp add: qxk_keeps_refl)
next
  case (Cons i "is")
  show ?case
  proof (cases "xk_slots k ! i")
    case None
    with Cons.IH [OF Cons.prems(1)] Cons.prems(2) show ?thesis by (fastforce simp: qxk_keeps_def)
  next
    case (Some ao)
    obtain k1 where k1: "qxk_post_to i ao e k = Inr k1" "qxk_keeps I X w u (w e) k k1"
      using qxk_post_to_ok [OF Cons.prems(1) _ Some] Cons.prems(2) by fastforce
    obtain k2 where k2: "qxk_publish_slots e is k1 = Inr k2" "qxk_keeps I X w u (length is * w e) k1 k2"
      using Cons.IH [of k1] Cons.prems(2) k1(2) by (fastforce simp: qxk_keeps_def)
    from qxk_keeps_trans [OF k1(2) k2(2)] Some k1 k2 show ?thesis by simp
  qed
qed

lemma QxkKernel_post_ao_ok:
  assumes "qxk_ok I X k"
  shows "\<exists>r k'. QxkKernel_post_ao t e k = Inr (r, k') \<and> qxk_keeps I X w u (w e) k k'"
proof (cases "xk_id_to_prio k t")
  case None
  with assms show ?thesis by (simp add: QxkKernel_post_ao_def qxk_keeps_refl)
next
  case (Some p)
  have "qxk_slots_ok k" using assms by (simp add: qxk_ok_def)
  with Some obtain ao where ao: "unat p < 64" "xk_slots k ! unat p = Some ao" "length (xk_slots k) = 64"
    unfolding qxk_slots_ok_def by blast
  with qxk_post_to_ok [OF assms ao(1,2), of e w u] Some show ?thesis
    by (auto simp: QxkKernel_post_ao_def)
qed

lemma qxk_effect_keeps:
  assumes "qxk_ok I X k" "qxk_effect_ok (dom (xk_threads k)) I u c"
  shows "\<exists>k'. qxk_effect c k = Inr k' \<and> qxk_keeps I X w u (qxk_effect_weight w c) k k'"
proof (cases c)
  case (Trace r p ts)
  with assms(1) show ?thesis
    by (auto simp: qxk_emit_def qxk_keeps_def qxk_ok_def qxk_slots_ok_def qxk_ready_ok_def sched_ok_def
        ready_ids_def qxk_weight_def)
next
  case (Call d)
  have len: "length (xk_slots k) = 64" using assms(1) by (simp add: qxk_ok_def qxk_slots_ok_def)
  show ?thesis
  proof (cases d)
    case (XPost t e)
    with QxkKernel_post_ao_ok [OF assms(1), of t e w u] Call show ?thesis by auto
  next
    case (XPublish s e)
    with qxk_publish_slots_ok [OF assms(1), of "[0..<64]" "Event_for_signal s e" w u] Call len show ?thesis
      by (simp add: QxkKernel_publish_ao_def)
  next
    case (XShared f)
    obtain y sc where f: "f (xk_world k, xk_sched k) = (y, sc)" by (cases "f (xk_world k, xk_sched k)")
    have s: "sched_ok (dom (xk_threads k)) (xk_sched k)" "I (xk_world k)"
      using assms(1) by (simp_all add: qxk_ok_def)
    with assms(2) f Call XShared have "sched_ok (dom (xk_threads k)) sc" "I y"
      "xs_ao_ready sc = xs_ao_ready (xk_sched k)" "u y \<le> u (xk_world k)"
      by (auto dest!: spec [of _ "xk_world k"] spec [of _ "xk_sched k"])
    with assms(1) f Call XShared show ?thesis
      by (simp add: qxk_keeps_def qxk_ok_def qxk_slots_ok_def qxk_ready_ok_def qxk_weight_def)
  qed
qed

lemma qxk_effects_keep:
  assumes "qxk_ok I X k" "list_all (qxk_effect_ok (dom (xk_threads k)) I u) cs"
  shows "\<exists>k'. qxk_effects cs k = Inr k' \<and> qxk_keeps I X w u (qxk_effects_weight w cs) k k'"
  using assms
proof (induction cs arbitrary: k)
  case Nil
  then show ?case by (simp add: qxk_keeps_refl)
next
  case (Cons c cs)
  obtain k1 where k1: "qxk_effect c k = Inr k1" "qxk_keeps I X w u (qxk_effect_weight w c) k k1"
    using qxk_effect_keeps [OF Cons.prems(1)] Cons.prems(2) by fastforce
  obtain k2 where k2: "qxk_effects cs k1 = Inr k2" "qxk_keeps I X w u (qxk_effects_weight w cs) k1 k2"
    using Cons.IH [of k1] Cons.prems(2) k1(2) by (auto simp: qxk_keeps_def)
  from qxk_keeps_trans [OF k1(2) k2(2)] k1(1) k2(1) show ?case by (simp add: qxk_effects_weight_def)
qed

section \<open>Dispatching keeps the invariant and does work\<close>

lemma qxk_ok_set_events:
  assumes "qxk_ok I X k" "i < 64" "xk_slots k ! i = Some ao" "ao_priority ao' = ao_priority ao"
    "ActiveObject_inv ao'" "bit (xs_ao_ready (xk_sched k)) i"
  shows "qxk_ok I (insert i X) (k\<lparr>xk_slots := (xk_slots k)[i := Some ao']\<rparr>)"
proof -
  let ?k = "k\<lparr>xk_slots := (xk_slots k)[i := Some ao']\<rparr>"
  have so: "qxk_slots_ok k" using assms(1) by (simp add: qxk_ok_def)
  have "k\<lparr>xk_slots := (xk_slots k)[i := Some ao'], xk_sched := xk_sched k\<rparr> = ?k" by (cases k) simp
  with qxk_slots_ok_set [OF so assms(2-5), of "xk_sched k"] have "qxk_slots_ok ?k" by (simp only:)
  moreover have "qxk_ready_ok (insert i X) ?k"
    using assms(1,2,6) so by (auto simp: qxk_ok_def qxk_ready_ok_def qxk_slots_ok_def nth_list_update)
  ultimately show ?thesis using assms(1) by (simp add: qxk_ok_def)
qed

lemma qxk_visible_calls_ok:
  "list_all P cs \<Longrightarrow> list_all P (visible_calls hook cs)"
  "qxk_effects_weight w (visible_calls hook cs) = qxk_effects_weight w cs"
proof -
  show "list_all P cs \<Longrightarrow> list_all P (visible_calls hook cs)" by (simp add: visible_calls_def list_all_iff)
  show "qxk_effects_weight w (visible_calls hook cs) = qxk_effects_weight w cs"
    by (induction cs) (auto simp: visible_calls_def qxk_effects_weight_def split: effect.splits)
qed

lemma dispatch_one_ok:
  assumes "ao_events ao = e # es" "ActiveObject_inv ao"
    "ActiveObject_dispatch_one bh ao = (processed, ao', cs)"
  shows "processed" "ao_events ao' = es" "ao_priority ao' = ao_priority ao" "ActiveObject_inv ao'"
    "cs = visible_calls (ao_trace_hook ao) (snd (on_event bh (ao_id ao) (ao_behavior ao) e))"
  using assms
  by (auto simp: ActiveObject_dispatch_one_def EventQueue_pop_front_def ActiveObject_inv_def
      split: prod.splits)

lemma QxkKernel_dispatch_ao_ok:
  assumes "qxk_ok I {} k" "p \<in> prios (xs_ao_ready (xk_sched k))" "qxk_bh_ok (dom (xk_threads k)) I w u bh"
  shows "\<exists>k'. QxkKernel_dispatch_ao bh p k = Inr k' \<and> qxk_ok I {} k' \<and> xk_threads k' = xk_threads k \<and>
    qxk_weight w k' + u (xk_world k') < qxk_weight w k + u (xk_world k)"
proof -
  let ?i = "unat p"
  have i: "?i < 64" and bit: "bit (xs_ao_ready (xk_sched k)) ?i"
    using assms(2) by (simp_all add: prios_def u8_lt_64_iff)
  have so: "qxk_slots_ok k" "qxk_ready_ok {} k" using assms(1) by (simp_all add: qxk_ok_def)
  then have len: "length (xk_slots k) = 64" by (simp add: qxk_slots_ok_def)
  have "slot_evs (xk_slots k ! ?i) \<noteq> []" using so(2) i bit by (simp add: qxk_ready_ok_def)
  then obtain ao e es where ao: "xk_slots k ! ?i = Some ao" "ao_events ao = e # es"
    by (auto simp: slot_evs_def neq_Nil_conv split: option.splits)
  have ai: "ActiveObject_inv ao" using so(1) i ao(1) by (simp add: qxk_slots_ok_def)
  obtain processed ao' cs where d: "ActiveObject_dispatch_one bh ao = (processed, ao', cs)"
    by (metis prod.collapse)
  note d' = dispatch_one_ok [OF ao(2) ai d]
  let ?k1 = "k\<lparr>xk_slots := (xk_slots k)[?i := Some ao']\<rparr>"
  have k1: "qxk_ok I {?i} ?k1" using qxk_ok_set_events [OF assms(1) i ao(1) d'(3,4) bit] by simp
  have "list_all (qxk_effect_ok (dom (xk_threads ?k1)) I u) cs" "qxk_effects_weight w cs < w e"
    using assms(3) d'(5) by (auto simp: qxk_bh_ok_def qxk_visible_calls_ok)
  with qxk_effects_keep [OF k1, of u cs w] obtain k2 where k2: "qxk_effects cs ?k1 = Inr k2"
    "qxk_keeps I {?i} w u (qxk_effects_weight w cs) ?k1 k2" "qxk_effects_weight w cs < w e" by blast
  have "k\<lparr>xk_slots := (xk_slots k)[?i := Some ao'], xk_sched := xk_sched k\<rparr> = ?k1" by (cases k) simp
  with qxk_weight_set [of ?i k ao, where w = w and ao' = ao' and sc = "xk_sched k"] i len ao d'(2)
  have "qxk_weight w ?k1 + w e = qxk_weight w k" by simp
  with k2(2,3) have work: "qxk_weight w k2 + u (xk_world k2) < qxk_weight w k + u (xk_world k)"
    by (simp add: qxk_keeps_def)
  have k2': "qxk_ok I {?i} k2" "xk_threads k2 = xk_threads k" "xk_slots k2 ! ?i \<noteq> None"
    using k2(2) i len by (simp_all add: qxk_keeps_def)
  then obtain ao2 where ao2: "xk_slots k2 ! ?i = Some ao2" by blast
  have p: "(of_nat ?i :: u8) = p" "p < 64" using assms(2) by (simp_all add: prios_def)
  define k3 where "k3 = (if ao_events ao2 = []
    then k2\<lparr>xk_sched := (xk_sched k2)\<lparr>xs_ao_ready := and (xs_ao_ready (xk_sched k2)) (not (u64_bit p))\<rparr>\<rparr> else k2)"
  have "QxkKernel_dispatch_ao bh p k = Inr k3"
    using i len ao d d'(1) k2(1) ao2 p(2)
    by (simp add: QxkKernel_dispatch_ao_def k3_def QxkScheduler_mark_ao_not_ready_def)
  moreover have "qxk_ok I {} k3"
    using k2'(1) ao2 i bit_and_not_u64_bit [OF i] p(1)
    by (auto simp: k3_def qxk_ok_def qxk_slots_ok_def qxk_ready_ok_def slot_evs_def)
  moreover have "xk_threads k3 = xk_threads k" "qxk_weight w k3 = qxk_weight w k2" "xk_world k3 = xk_world k2"
    using k2'(2) by (simp_all add: k3_def qxk_weight_def)
  ultimately show ?thesis using work by auto
qed

lemma length_ready_queue: "queue_ok q \<Longrightarrow> length q \<le> 256"
proof -
  assume "queue_ok q"
  then have "length q = card (fst ` set q)" by (metis distinct_card length_map list.set_map queue_ok_def)
  also have "\<dots> \<le> card (UNIV :: u8 set)" by (rule card_mono) simp_all
  also have "\<dots> = 256" by (simp add: card_word)
  finally show ?thesis .
qed

lemma sched_ok_length: "sched_ok D sc \<Longrightarrow> length (xs_thread_ready sc) \<le> 256"
  by (simp add: sched_ok_def length_ready_queue)

lemma sched_ok_after_poll:
  assumes "sorts_by_priority srt" "sched_ok D sc" "tid \<in> D"
  shows "sched_ok D (qxk_after_poll srt action tid prio sc)"
    and "xs_ao_ready (qxk_after_poll srt action tid prio sc) = xs_ao_ready sc"
    and "length (xs_thread_ready (qxk_after_poll srt action tid prio sc)) =
      length (xs_thread_ready (qxk_after_poll srt action tid prio' sc))"
proof -
  have ids: "fst ` set (ThreadReadyQueue_insert srt tid prio (xs_thread_ready sc)) =
      insert tid (fst ` set (xs_thread_ready sc))"
    by (rule ThreadReadyQueue_insert_ids [OF assms(1)])
  have "size (mset (srt q)) = size (mset q)" for q
    using sorts_by_priorityD(1) [OF assms(1)] by simp
  then have len: "length (srt q) = length q" for q by simp
  show "length (xs_thread_ready (qxk_after_poll srt action tid prio sc)) =
      length (xs_thread_ready (qxk_after_poll srt action tid prio' sc))"
    by (cases action) (auto simp: qxk_after_poll_def QxkScheduler_mark_thread_ready_def
      QxkScheduler_mark_thread_not_ready_def ThreadReadyQueue_insert_def len)
  show "xs_ao_ready (qxk_after_poll srt action tid prio sc) = xs_ao_ready sc"
    by (cases action) (simp_all add: qxk_after_poll_def QxkScheduler_mark_thread_ready_def
      QxkScheduler_mark_thread_not_ready_def)
  show "sched_ok D (qxk_after_poll srt action tid prio sc)"
    using assms(2,3) ids queue_ok_insert [OF assms(1)] queue_ok_remove
    by (cases action) (auto simp: qxk_after_poll_def QxkScheduler_mark_thread_ready_def
      QxkScheduler_mark_thread_not_ready_def sched_ok_def ready_ids_def)
qed

lemma qxk_ok_sched:
  assumes "qxk_ok I X k" "sched_ok (dom (xk_threads k')) sc" "xs_ao_ready sc = xs_ao_ready (xk_sched k)"
    "xk_slots k' = xk_slots k" "xk_id_to_prio k' = xk_id_to_prio k" "xk_sched k' = sc" "I (xk_world k')"
  shows "qxk_ok I X k'"
  using assms by (simp add: qxk_ok_def qxk_slots_ok_def qxk_ready_ok_def)

lemma ThreadReadyQueue_remove_shorter:
  "tid \<in> fst ` set q \<Longrightarrow> length (ThreadReadyQueue_remove tid q) < length q"
  by (auto simp: ThreadReadyQueue_remove_def intro!: length_filter_less)

lemma qxk_work_less:
  "A' < A \<Longrightarrow> l' \<le> 256 \<Longrightarrow> 257 * A' + l' < 257 * A + (l :: nat)"
  "A' \<le> A \<Longrightarrow> l' < l \<Longrightarrow> 257 * A' + l' < 257 * A + (l :: nat)"
  by linarith+

lemma qxk_iterations_step:
  assumes "\<forall>t\<in>ran ts. unat (xt_iteration t) + m < 2 ^ 64" "ts tid = Some t" "n < m"
    "unat (xt_iteration t') \<le> Suc (unat (xt_iteration t))"
  shows "\<forall>t\<in>ran (ts(tid \<mapsto> t')). unat (xt_iteration t) + n < 2 ^ 64"
proof -
  have "t \<in> ran ts" using assms(2) by (rule ranI)
  with assms(1) have t: "unat (xt_iteration t) + m < 2 ^ 64" by blast
  have "ran (ts(tid \<mapsto> t')) \<subseteq> insert t' (ran ts)" by (auto simp: ran_def split: if_splits)
  moreover have "unat (xt_iteration t') + n < 2 ^ 64" using t assms(3,4) by linarith
  moreover have "unat (xt_iteration s) + n < 2 ^ 64" if "s \<in> ran ts" for s
    using assms(1,3) that by fastforce
  ultimately show ?thesis by blast
qed

lemma qxk_finish_thread:
  assumes srt: "sorts_by_priority srt" and k: "qxk_inv I w u k" and t: "xk_threads k tid = Some t"
    and k1: "qxk_ok I {} k1" "xk_threads k1 = (xk_threads k)(tid \<mapsto> t')"
    and it: "unat (xt_iteration t') \<le> Suc (unat (xt_iteration t))"
    and work: "qxk_weight w k1 + u (xk_world k1) < qxk_weight w k + u (xk_world k) \<or>
      qxk_weight w k1 + u (xk_world k1) \<le> qxk_weight w k + u (xk_world k) \<and>
      length (xs_thread_ready (qxk_after_poll srt action tid prio (xk_sched k1))) <
        length (xs_thread_ready (xk_sched k))"
  shows "qxk_inv I w u (k1\<lparr>xk_sched := qxk_after_poll srt action tid prio (xk_sched k1)\<rparr>) \<and>
    qxk_work w u (k1\<lparr>xk_sched := qxk_after_poll srt action tid prio (xk_sched k1)\<rparr>) < qxk_work w u k"
proof -
  let ?sc = "qxk_after_poll srt action tid prio (xk_sched k1)" and ?k' = "k1\<lparr>xk_sched := qxk_after_poll srt action tid prio (xk_sched k1)\<rparr>"
  have s1: "sched_ok (dom (xk_threads k1)) (xk_sched k1)" using k1(1) by (simp add: qxk_ok_def)
  have tid: "tid \<in> dom (xk_threads k1)" using k1(2) by simp
  note sc = sched_ok_after_poll [OF srt s1 tid, of action prio]
  have "I (xk_world k1)" using k1(1) by (simp add: qxk_ok_def)
  then have ok: "qxk_ok I {} ?k'" by (intro qxk_ok_sched [OF k1(1)]) (use sc in simp_all)
  have l: "length (xs_thread_ready ?sc) \<le> 256" by (rule sched_ok_length [OF sc(1)])
  have wk: "qxk_work w u ?k' = 257 * (qxk_weight w k1 + u (xk_world k1)) + length (xs_thread_ready ?sc)"
    by (simp add: qxk_work_def qxk_weight_def)
  have less: "qxk_work w u ?k' < qxk_work w u k"
    using work qxk_work_less(1) [OF _ l] qxk_work_less(2) unfolding wk qxk_work_def [of w u k] by blast
  have "\<forall>t\<in>ran (xk_threads ?k'). unat (xt_iteration t) + qxk_work w u ?k' < 2 ^ 64"
    using qxk_iterations_step [where ts = "xk_threads k" and tid = tid, OF _ t less it] k k1(2) by (simp add: qxk_inv_def)
  with ok less show ?thesis by (simp add: qxk_inv_def)
qed

lemma qxk_poll_okD:
  assumes "qxk_poll_ok srt D I w u poll" "sched_ok D (snd x)" "I (fst x)" "tid \<in> ready_ids (snd x)"
    "poll tid ctx x = (action, y, ps)"
  shows "sched_ok D (snd y)" "I (fst y)" "xs_ao_ready (snd y) = xs_ao_ready (snd x)"
    "u (fst y) + posts_weight w ps < u (fst x) \<or>
       u (fst y) \<le> u (fst x) \<and> ps = [] \<and>
       length (xs_thread_ready (qxk_after_poll srt action tid (cx_priority ctx) (snd y))) <
         length (xs_thread_ready (snd x))"
  using assms(1) [unfolded qxk_poll_ok_def, rule_format, OF assms(2-4), of ctx] assms(5) by simp_all

lemma post_effects_ok:
  "list_all (qxk_effect_ok D I u) (map post_effect ps)"
  "qxk_effects_weight w (map post_effect ps) = posts_weight w ps"
proof -
  have "qxk_effect_ok D I u (post_effect x)" for x :: "'a post_call" by (cases x) simp_all
  then show "list_all (qxk_effect_ok D I u) (map post_effect ps)" by (simp add: list_all_iff)
  show "qxk_effects_weight w (map post_effect ps) = posts_weight w ps"
    by (induction ps) (auto simp: posts_weight_def qxk_effects_weight_def split: post_call.splits)
qed

lemma qxk_dispatch_thread_ok:
  assumes srt: "sorts_by_priority srt" and k: "qxk_inv I w u k" and r: "(tid, prio) \<in> set (xs_thread_ready (xk_sched k))"
    and poll: "qxk_poll_ok srt (dom (xk_threads k)) I w u poll"
  shows "\<exists>k'. qxk_dispatch_thread srt poll tid prio k = Inr (True, k') \<and> qxk_inv I w u k' \<and>
    qxk_work w u k' < qxk_work w u k \<and> dom (xk_threads k') = dom (xk_threads k)"
proof -
  have ok: "qxk_ok I {} k" and s: "sched_ok (dom (xk_threads k)) (xk_sched k)" and I: "I (xk_world k)"
    using k by (simp_all add: qxk_inv_def qxk_ok_def)
  have tid: "tid \<in> ready_ids (xk_sched k)" using r by (force simp: ready_ids_def)
  with s obtain t where t: "xk_threads k tid = Some t" by (auto simp: sched_ok_def dom_def)
  then have dom': "insert tid (dom (xk_threads k)) = dom (xk_threads k)" by auto
  show ?thesis
  proof (cases "xt_handler t")
    case False
    let ?k1 = "k\<lparr>xk_threads := (xk_threads k)(tid \<mapsto> t\<lparr>xt_state := Terminated\<rparr>)\<rparr>"
    have k1: "qxk_ok I {} ?k1" by (rule qxk_ok_sched [OF ok]) (use s I dom' in simp_all)
    have "length (xs_thread_ready (qxk_after_poll srt ActionTerminated tid prio (xk_sched k))) <
        length (xs_thread_ready (xk_sched k))"
      using ThreadReadyQueue_remove_shorter tid
      by (simp add: qxk_after_poll_def QxkScheduler_mark_thread_not_ready_def ready_ids_def)
    then have "qxk_inv I w u (?k1\<lparr>xk_sched := qxk_after_poll srt ActionTerminated tid prio (xk_sched ?k1)\<rparr>) \<and>
      qxk_work w u (?k1\<lparr>xk_sched := qxk_after_poll srt ActionTerminated tid prio (xk_sched ?k1)\<rparr>) < qxk_work w u k"
      by (intro qxk_finish_thread [OF srt k t k1, where t' = "t\<lparr>xt_state := Terminated\<rparr>"])
        (simp_all add: qxk_weight_def)
    with t False dom' show ?thesis
      by (simp add: qxk_dispatch_thread_def QxkKernel_find_thread_def ExtendedThread_poll_def
          QxkScheduler_complete_execution_def)
  next
    case True
    let ?ctx = "\<lparr>cx_thread_id = xt_id t, cx_priority = xt_priority t, cx_iteration = xt_iteration t\<rparr>"
    let ?x = "(xk_world k, xk_sched k)"
    obtain action y ps where p: "poll tid ?ctx ?x = (action, y, ps)" by (metis prod.collapse)
    note po = qxk_poll_okD [OF poll _ _ _ p, simplified, OF s I tid]
    define t' where "t' = ExtendedThread_after action (t\<lparr>xt_state := Running, xt_iteration := xt_iteration t + 1\<rparr>)"
    have "qxk_work w u k > 0" using r by (auto simp: qxk_work_def)
    moreover have "unat (xt_iteration t) + qxk_work w u k < 2 ^ 64"
      using k ranI [of "xk_threads k" tid t, OF t] unfolding qxk_inv_def by blast
    ultimately have "unat (xt_iteration t) + 1 < 2 ^ 64" by linarith
    then have it: "xt_iteration t \<noteq> - 1" "unat (xt_iteration t') \<le> Suc (unat (xt_iteration t))"
      using unat_Suc_le [of "xt_iteration t"]
      by (auto simp: t'_def ExtendedThread_after_def unsigned_minus_1_eq_mask mask_eq_exp_minus_1
          split: ThreadAction.splits)
    let ?k1 = "k\<lparr>xk_world := fst y, xk_sched := snd y, xk_threads := (xk_threads k)(tid \<mapsto> t')\<rparr>"
    have k1: "qxk_ok I {} ?k1" by (rule qxk_ok_sched [OF ok]) (use po dom' in simp_all)
    obtain k2 where k2: "qxk_effects (map post_effect ps) ?k1 = Inr k2"
      "qxk_keeps I {} w u (posts_weight w ps) ?k1 k2"
      using qxk_effects_keep [OF k1 post_effects_ok(1), of ps w u] by (auto simp: post_effects_ok)
    have t2: "qxk_ok I {} k2" "xk_threads k2 = (xk_threads k)(tid \<mapsto> t')"
      using k2(2) by (simp_all add: qxk_keeps_def)
    have wk: "qxk_weight w k2 + u (xk_world k2) \<le>
        qxk_weight w k + u (fst y) + posts_weight w ps"
      using k2(2) by (simp add: qxk_keeps_def qxk_weight_def)
    have "qxk_weight w k2 + u (xk_world k2) < qxk_weight w k + u (xk_world k) \<or>
      qxk_weight w k2 + u (xk_world k2) \<le> qxk_weight w k + u (xk_world k) \<and>
      length (xs_thread_ready (qxk_after_poll srt action tid prio (xk_sched k2))) <
        length (xs_thread_ready (xk_sched k))"
      using po(4)
    proof
      assume a: "u (fst y) \<le> u (xk_world k) \<and> ps = [] \<and>
        length (xs_thread_ready (qxk_after_poll srt action tid (xt_priority t) (snd y))) <
          length (xs_thread_ready (xk_sched k))"
      then have "xk_sched k2 = snd y" using k2(1) by auto
      with a sched_ok_after_poll(3) [OF srt po(1) domI [where m = "xk_threads k", OF t], of action prio "xt_priority t"] wk show ?thesis
        by (auto simp: posts_weight_def)
    qed (use wk in linarith)
    from qxk_finish_thread [OF srt k t t2 it(2) this] t True p it(1) k2(1) t2(2) dom' show ?thesis
      by (auto simp: qxk_dispatch_thread_def QxkKernel_find_thread_def ExtendedThread_poll_def
          QxkScheduler_complete_execution_def t'_def ensure_def split: prod.splits)
  qed
qed

lemma set_active_simps [simp]:
  "xs_ao_ready (QxkScheduler_set_active m sc) = xs_ao_ready sc"
  "xs_thread_ready (QxkScheduler_set_active m sc) = xs_thread_ready sc"
  "xs_lock_ceiling (QxkScheduler_set_active m sc) = xs_lock_ceiling sc"
  by (simp_all add: QxkScheduler_set_active_def split: ScheduleMode.splits)

lemma qxk_inv_planned:
  assumes "qxk_inv I w u k" "xs_ao_ready sc = xs_ao_ready (xk_sched k)"
    "xs_thread_ready sc = xs_thread_ready (xk_sched k)"
  shows "qxk_inv I w u (k\<lparr>xk_sched := sc\<rparr>)" "qxk_work w u (k\<lparr>xk_sched := sc\<rparr>) = qxk_work w u k"
  using assms
  by (simp_all add: qxk_inv_def qxk_ok_def qxk_slots_ok_def qxk_ready_ok_def sched_ok_def ready_ids_def
      qxk_work_def qxk_weight_def)

lemma qxk_queue_ok: "qxk_inv I w u k \<Longrightarrow> queue_ok (xs_thread_ready (xk_sched k))"
  by (simp add: qxk_inv_def qxk_ok_def sched_ok_def)

lemma qxk_ready_events:
  assumes "qxk_inv I w u k" "i < 64"
  shows "(of_nat i :: u8) \<in> prios (xs_ao_ready (xk_sched k)) \<longleftrightarrow> slot_evs (xk_slots k ! i) \<noteq> []"
proof -
  have "unat (of_nat i :: u8) = i" "(of_nat i :: u8) < 64"
    using assms(2) by (simp_all add: u8_lt_64_iff unat_of_nat)
  then show ?thesis using assms by (simp add: qxk_inv_def qxk_ok_def qxk_ready_ok_def prios_def)
qed

definition qxk_quiescent :: "('p, 'b, 'w) QxkKernel \<Rightarrow> bool" where
  "qxk_quiescent k \<longleftrightarrow> xs_thread_ready (xk_sched k) = [] \<and>
     (\<forall>i<64. slot_evs (xk_slots k ! i) \<noteq> [] \<longrightarrow> of_nat i \<le> xs_lock_ceiling (xk_sched k))"

definition qxk_app_ok ::
    "(ready_queue \<Rightarrow> ready_queue) \<Rightarrow> u8 set \<Rightarrow> ('w \<Rightarrow> bool) \<Rightarrow> ('p Event \<Rightarrow> nat) \<Rightarrow> ('w \<Rightarrow> nat) \<Rightarrow> ('p, 'b, 'w) QxkBehavior \<Rightarrow>
     (u8 \<Rightarrow> ('p, 'w) thread_fn) \<Rightarrow> bool" where
  "qxk_app_ok srt D I w u bh poll \<longleftrightarrow>
     sorts_by_priority srt \<and> qxk_bh_ok D I w u bh \<and> qxk_poll_ok srt D I w u poll"

lemma QxkKernel_dispatch_once_ok:
  assumes k: "qxk_inv I w u k" and app: "qxk_app_ok srt (dom (xk_threads k)) I w u bh poll"
  shows "\<exists>busy k'. QxkKernel_dispatch_once srt bh poll k = Inr (busy, k') \<and> qxk_inv I w u k' \<and>
    dom (xk_threads k') = dom (xk_threads k) \<and>
    (if busy then qxk_work w u k' < qxk_work w u k else qxk_quiescent k')"
  using qxk_queue_ok [OF k]
proof (cases rule: plan_next_cases)
  case (object p)
  let ?k0 = "k\<lparr>xk_sched := QxkScheduler_set_active (ActiveObjectMode p) (QxkScheduler_emit_trace QXK_SCHED_NEXT [p] (xk_sched k))\<rparr>"
  have k0: "qxk_inv I w u ?k0" "qxk_work w u ?k0 = qxk_work w u k"
    by (rule qxk_inv_planned [OF k]; simp)+
  have "qxk_ok I {} ?k0" "p \<in> prios (xs_ao_ready (xk_sched ?k0))" "qxk_bh_ok (dom (xk_threads ?k0)) I w u bh"
    using k0(1) object(2) app by (simp_all add: qxk_inv_def qxk_app_ok_def)
  from QxkKernel_dispatch_ao_ok [OF this] obtain k' where k': "QxkKernel_dispatch_ao bh p ?k0 = Inr k'"
    "qxk_ok I {} k'" "xk_threads k' = xk_threads k"
    "qxk_weight w k' + u (xk_world k') < qxk_weight w ?k0 + u (xk_world ?k0)" by auto
  have l: "length (xs_thread_ready (xk_sched k')) \<le> 256"
    using k'(2) by (auto simp: qxk_ok_def intro: sched_ok_length)
  have less: "qxk_work w u k' < qxk_work w u k"
    using qxk_work_less(1) [OF k'(4) l] k0(2) by (simp add: qxk_work_def)
  have "\<forall>t\<in>ran (xk_threads k'). unat (xt_iteration t) + qxk_work w u k' < 2 ^ 64"
    using k less k'(3) by (fastforce simp: qxk_inv_def)
  moreover have "QxkKernel_dispatch_once srt bh poll k = Inr (True, k')"
    using object(1) k'(1)
    by (simp add: QxkKernel_dispatch_once_def QxkScheduler_complete_execution_def)
  ultimately show ?thesis
    using k'(2,3) less by (intro exI [of _ True] exI [of _ k']) (simp add: qxk_inv_def)
next
  case (thread tid prio)
  let ?sc = "QxkScheduler_set_active (ExtendedThreadMode tid prio) (QxkScheduler_emit_trace THREAD_NEXT [tid, prio] (xk_sched k))"
  have k0: "qxk_inv I w u (k\<lparr>xk_sched := ?sc\<rparr>)" "qxk_work w u (k\<lparr>xk_sched := ?sc\<rparr>) = qxk_work w u k"
    by (rule qxk_inv_planned [OF k]; simp)+
  have "sorts_by_priority srt" "qxk_poll_ok srt (dom (xk_threads (k\<lparr>xk_sched := ?sc\<rparr>))) I w u poll"
    using app by (simp_all add: qxk_app_ok_def)
  with qxk_dispatch_thread_ok [OF _ k0(1), of srt tid prio poll] thread(1,3) k0(2) show ?thesis
    by (auto simp: QxkKernel_dispatch_once_def)
next
  case idle
  let ?sc = "QxkScheduler_set_active IdleMode (QxkScheduler_emit_trace QXK_SCHED_IDLE [] (xk_sched k))"
  have "qxk_inv I w u (k\<lparr>xk_sched := ?sc\<rparr>)" by (rule qxk_inv_planned [OF k]) simp_all
  moreover have "qxk_quiescent (k\<lparr>xk_sched := ?sc\<rparr>)"
    using idle(2,3) qxk_ready_events [OF k] by (simp add: qxk_quiescent_def)
  ultimately show ?thesis
    using idle(1)
    by (intro exI [of _ False] exI [of _ "k\<lparr>xk_sched := ?sc\<rparr>"])
      (simp add: QxkKernel_dispatch_once_def QxkScheduler_complete_execution_def)
qed

section \<open>Construction establishes the invariant\<close>

definition qxk_builder_ok :: "('p, 'b) QxkKernelBuilder \<Rightarrow> bool" where
  "qxk_builder_ok b \<longleftrightarrow> (\<forall>r\<in>set (xb_ao_registrations b). ActiveObject_inv (ar_object r) \<and>
     ao_prio (ar_object r) = ar_priority r \<and> ar_priority r < 64 \<and> ao_events (ar_object r) = [])"

lemma qxk_builder_ok_register:
  assumes "qxk_builder_ok b" "QxkKernelBuilder_register_ao ao b = Inr (Inr b')" "ActiveObject_inv ao"
    "ao_events ao = []"
  shows "qxk_builder_ok b'"
proof -
  have p: "ActiveObject_priority ao = Inr (ao_prio ao)"
    using assms(3) by (intro ActiveObject_priority_intact) (simp add: ActiveObject_inv_def)
  with assms(2) have "unat (ao_prio ao) \<le> 63"
    "b' = b\<lparr>xb_ao_registrations := xb_ao_registrations b @ [\<lparr>ar_object = ao, ar_priority = ao_prio ao, ar_id = ao_id ao\<rparr>]\<rparr>"
    by (auto simp: QxkKernelBuilder_register_ao_def QxkKernelBuilder_validate_ao_priority_def
        MAX_AO_PRIORITY_def split: if_splits)
  with assms show ?thesis by (auto simp: qxk_builder_ok_def u8_lt_64_iff)
qed

lemma qxk_fill_slots_ok:
  assumes "\<forall>r\<in>set rs. ActiveObject_inv (ar_object r) \<and> ao_prio (ar_object r) = ar_priority r \<and>
      ar_priority r < 64 \<and> ao_events (ar_object r) = []"
    "length slots = 64"
    "\<forall>i<64. \<forall>ao. slots ! i = Some ao \<longrightarrow> ActiveObject_inv ao \<and> unat (ao_prio ao) = i \<and> ao_events ao = []"
    "\<forall>t p. ids t = Some p \<longrightarrow> unat p < 64 \<and> slots ! unat p \<noteq> None"
  shows "case qxk_fill_slots rs slots ids of Inl f \<Rightarrow> False | Inr (Inl e) \<Rightarrow> True | Inr (Inr (slots', ids')) \<Rightarrow>
    length slots' = 64 \<and>
    (\<forall>i<64. \<forall>ao. slots' ! i = Some ao \<longrightarrow> ActiveObject_inv ao \<and> unat (ao_prio ao) = i \<and> ao_events ao = []) \<and>
    (\<forall>t p. ids' t = Some p \<longrightarrow> unat p < 64 \<and> slots' ! unat p \<noteq> None)"
  using assms
proof (induction rs arbitrary: slots ids)
  case (Cons r rs)
  let ?p = "unat (ar_priority r)"
  have p: "?p < 64" using Cons.prems(1) by (simp add: u8_lt_64_iff)
  show ?case
  proof (cases "slots ! ?p")
    case None
    let ?s = "slots[?p := Some (ar_object r)]" and ?i = "ids(ar_id r \<mapsto> ar_priority r)"
    have eq: "qxk_fill_slots (r # rs) slots ids = qxk_fill_slots rs ?s ?i"
      using p None Cons.prems(2) by simp
    have s: "\<forall>i<64. \<forall>ao. ?s ! i = Some ao \<longrightarrow> ActiveObject_inv ao \<and> unat (ao_prio ao) = i \<and> ao_events ao = []"
      using Cons.prems(1-3) p by (auto simp: nth_list_update split: if_splits)
    have t: "\<forall>t p. ?i t = Some p \<longrightarrow> unat p < 64 \<and> ?s ! unat p \<noteq> None"
      using Cons.prems(2,4) p by (auto simp: nth_list_update)
    have rs: "\<forall>r\<in>set rs. ActiveObject_inv (ar_object r) \<and> ao_prio (ar_object r) = ar_priority r \<and>
      ar_priority r < 64 \<and> ao_events (ar_object r) = []" and l: "length ?s = 64"
      using Cons.prems(1,2) by simp_all
    show ?thesis unfolding eq by (rule Cons.IH [OF rs l s t])
  next
    case (Some ao)
    with p Cons.prems(2) show ?thesis by simp
  qed
qed simp

lemma qxk_threads_of:
  assumes "fold (\<lambda>c. insert_thread (tc_id c) (ExtendedThread_new c)) cs m tid = Some t"
    "\<forall>tid t. m tid = Some t \<longrightarrow> xt_id t = tid \<and> xt_iteration t = 0"
  shows "xt_id t = tid \<and> xt_iteration t = 0"
  using assms
proof (induction cs arbitrary: m)
  case (Cons c cs)
  have "\<forall>tid t. insert_thread (tc_id c) (ExtendedThread_new c) m tid = Some t \<longrightarrow> xt_id t = tid \<and> xt_iteration t = 0"
    using Cons.prems(2) by (auto simp: insert_thread_def ExtendedThread_new_def split: if_splits)
  with Cons show ?case by simp
qed simp

lemma QxkKernel_new_ok:
  assumes "qxk_builder_ok b" "I w0" "QxkKernel_new w0 b = Inr (Inr k)"
  shows "qxk_ok I {} k" "\<And>tid t. xk_threads k tid = Some t \<Longrightarrow> xt_id t = tid \<and> xt_iteration t = 0"
    "qxk_weight w k = 0" "xk_world k = w0"
proof -
  let ?fill = "qxk_fill_slots (xb_ao_registrations b) (replicate 64 None) Map.empty"
  have r: "(replicate 64 None :: ('a, 'b) ActiveObject option list) ! i = None" if "i < 64" for i
    using that by simp
  from assms(3) obtain slots ids where f: "?fill = Inr (Inr (slots, ids))"
    and k: "k = \<lparr>xk_sched = QxkScheduler_new (xb_trace b), xk_slots = slots, xk_id_to_prio = ids,
       xk_threads = fold (\<lambda>c. insert_thread (tc_id c) (ExtendedThread_new c)) (xb_thread_configs b) Map.empty,
       xk_world = w0\<rparr>"
    by (auto simp: QxkKernel_new_def MAX_AO_PRIORITY_def res_simps)
  from assms(1) have ok: "length slots = 64"
    "\<forall>i<64. \<forall>ao. slots ! i = Some ao \<longrightarrow> ActiveObject_inv ao \<and> unat (ao_prio ao) = i \<and> ao_events ao = []"
    "\<forall>t p. ids t = Some p \<longrightarrow> unat p < 64 \<and> slots ! unat p \<noteq> None"
    using qxk_fill_slots_ok [of "xb_ao_registrations b" "replicate 64 None" Map.empty] f r
    by (simp_all add: qxk_builder_ok_def)
  have "qxk_ready_ok {} k"
    using ok(2) by (auto simp: k qxk_ready_ok_def slot_evs_def QxkScheduler_new_def split: option.splits)
  with ok assms(2) show "qxk_ok I {} k"
    by (simp add: qxk_ok_def qxk_slots_ok_def k QxkScheduler_new_def sched_ok_def ready_ids_def)
  have "slot_evs x = []" if "x \<in> set slots" for x
    using that ok(1,2) by (auto simp: slot_evs_def in_set_conv_nth split: option.splits)
  then show "qxk_weight w k = 0" "xk_world k = w0" by (auto simp: k qxk_weight_def)
  show "xt_id t = tid \<and> xt_iteration t = 0" if "xk_threads k tid = Some t" for tid t
    using qxk_threads_of [of "xb_thread_configs b" Map.empty tid t] that by (simp add: k)
qed

lemma qxk_start_objects_ok:
  assumes "qxk_ok I {} k" "\<forall>i\<in>set is. i < 64"
    "\<And>i b. list_all (qxk_effect_ok (dom (xk_threads k)) I u) (snd (on_start bh i b))"
    "\<And>i b. qxk_effects_weight w (snd (on_start bh i b)) \<le> n"
  shows "\<exists>k'. qxk_start_objects bh is k = Inr k' \<and> qxk_ok I {} k' \<and> xk_threads k' = xk_threads k \<and>
    qxk_weight w k' + u (xk_world k') \<le> qxk_weight w k + u (xk_world k) + length is * n"
  using assms
proof (induction "is" arbitrary: k)
  case (Cons i "is")
  have so: "qxk_slots_ok k" using Cons.prems(1) by (simp add: qxk_ok_def)
  show ?case
  proof (cases "xk_slots k ! i")
    case None
    with Cons.IH [OF Cons.prems(1) _ Cons.prems(3,4)] Cons.prems(2) show ?thesis by fastforce
  next
    case (Some ao)
    let ?hook = "xs_trace (xk_sched k) \<noteq> None"
    obtain b' cs where st: "on_start bh (ao_id ao) (ao_behavior ao) = (b', cs)" by (metis prod.collapse)
    let ?ao = "ao\<lparr>ao_trace_hook := ?hook, ao_behavior := b'\<rparr>"
    let ?k1 = "k\<lparr>xk_slots := (xk_slots k)[i := Some ?ao]\<rparr>"
    have i: "i < 64" using Cons.prems(2) by simp
    with so Some have ai: "ActiveObject_inv ao" and len: "length (xk_slots k) = 64"
      unfolding qxk_slots_ok_def by blast+
    have "qxk_slots_ok ?k1" "qxk_ready_ok {} ?k1"
      using Cons.prems(1) i len Some ai
      by (auto simp: qxk_ok_def qxk_slots_ok_def qxk_ready_ok_def nth_list_update slot_evs_def
          ActiveObject_inv_def split: if_splits)
    then have k1: "qxk_ok I {} ?k1" using Cons.prems(1) by (simp add: qxk_ok_def)
    have "list_all (qxk_effect_ok (dom (xk_threads ?k1)) I u) (visible_calls ?hook cs)"
      using Cons.prems(3) [of "ao_id ao" "ao_behavior ao"] st by (simp add: qxk_visible_calls_ok)
    from qxk_effects_keep [OF k1 this, of w] obtain k2 where
      e2: "qxk_effects (visible_calls ?hook cs) ?k1 = Inr k2"
      and keeps: "qxk_keeps I {} w u (qxk_effects_weight w cs) ?k1 k2" by (auto simp: qxk_visible_calls_ok)
    have "map (\<lambda>s. sum_list (map w (slot_evs s))) (xk_slots ?k1) = map (\<lambda>s. sum_list (map w (slot_evs s))) (xk_slots k)"
      using i len Some by (simp add: map_update slot_evs_def list_update_same_conv)
    then have "qxk_weight w ?k1 = qxk_weight w k" by (simp only: qxk_weight_def)
    moreover have "qxk_effects_weight w cs \<le> n" using Cons.prems(4) [of "ao_id ao" "ao_behavior ao"] st by simp
    ultimately have wk: "qxk_weight w k2 + u (xk_world k2) \<le> qxk_weight w k + u (xk_world k) + n"
      using keeps by (simp add: qxk_keeps_def)
    have k2: "qxk_ok I {} k2" "xk_threads k2 = xk_threads k" "xk_slots k2 ! i \<noteq> None"
      using keeps i len by (simp_all add: qxk_keeps_def)
    then obtain ao2 where ao2: "xk_slots k2 ! i = Some ao2" by blast
    have p2: "ActiveObject_priority ao2 = Inr (of_nat i)" "(of_nat i :: u8) < 64"
    proof -
      have "ActiveObject_inv ao2" "unat (ao_prio ao2) = i"
        using k2(1) ao2 i by (simp_all add: qxk_ok_def qxk_slots_ok_def)
      then show "ActiveObject_priority ao2 = Inr (of_nat i)" by (auto simp: ActiveObject_inv_def)
      show "(of_nat i :: u8) < 64" using i by (simp add: u8_lt_64_iff unat_of_nat)
    qed
    define k3 where "k3 = (if ao_events ao2 = [] then k2 else k2\<lparr>xk_sched := (xk_sched k2)\<lparr>xs_ao_ready :=
      or (xs_ao_ready (xk_sched k2)) (u64_bit (of_nat i))\<rparr>\<rparr>)"
    have k3: "qxk_ok I {} k3" "xk_threads k3 = xk_threads k"
      using k2(1,2) ao2 i
      by (auto simp: k3_def qxk_ok_def qxk_slots_ok_def qxk_ready_ok_def slot_evs_def bit_or_u64_bit)
    have w3: "qxk_weight w k3 + u (xk_world k3) \<le> qxk_weight w k + u (xk_world k) + n"
      using wk by (simp add: k3_def qxk_weight_def)
    have "qxk_start_objects bh (i # is) k = qxk_start_objects bh is k3"
      using Some st e2 ao2 p2
      by (simp add: ActiveObject_start_def k3_def QxkScheduler_mark_ao_ready_def)
    with Cons.IH [OF k3(1) _ _ Cons.prems(4)] Cons.prems(2,3) k3(2) w3 show ?thesis by fastforce
  qed
qed simp

lemma sched_ok_unblock:
  assumes "sorts_by_priority srt" "sched_ok D sc" "tid \<in> D"
  shows "sched_ok D (QxkScheduler_unblock_thread srt tid prio sc)"
  using assms queue_ok_insert [OF assms(1)] ThreadReadyQueue_insert_ids [OF assms(1)]
  by (simp add: sched_ok_def ready_ids_def QxkScheduler_unblock_thread_def)

lemma qxk_start_threads_ok:
  assumes "sorts_by_priority srt" "qxk_ok I {} k" "\<And>tid t. xk_threads k tid = Some t \<Longrightarrow> xt_id t = tid"
  shows "qxk_ok I {} (qxk_start_threads srt k)"
proof -
  let ?f = "\<lambda>tid sc. case xk_threads k tid of
      Some t \<Rightarrow> if ExtendedThread_is_ready t
                then QxkScheduler_mark_thread_ready srt (xt_id t) (xt_priority t) sc else sc
    | None \<Rightarrow> sc"
  let ?D = "dom (xk_threads k)"
  have step: "sched_ok ?D (?f tid sc)" "xs_ao_ready (?f tid sc) = xs_ao_ready sc"
    if "sched_ok ?D sc" for tid sc
    using sched_ok_unblock [OF assms(1) that, of tid] that assms(3)
    by (auto simp: QxkScheduler_unblock_thread_def QxkScheduler_mark_thread_ready_def split: option.splits)
  have "sched_ok ?D (fold ?f ts sc) \<and> xs_ao_ready (fold ?f ts sc) = xs_ao_ready sc" if "sched_ok ?D sc" for ts sc
    using that by (induction ts arbitrary: sc) (use step in auto)
  moreover have "sched_ok ?D (xk_sched k)" "I (xk_world k)" using assms(2) by (simp_all add: qxk_ok_def)
  ultimately show ?thesis
    by (intro qxk_ok_sched [OF assms(2)]) (simp_all add: qxk_start_threads_def)
qed

lemma QxkKernel_start_ok:
  assumes "sorts_by_priority srt" "qxk_ok I {} k" "\<And>tid t. xk_threads k tid = Some t \<Longrightarrow> xt_id t = tid"
    "\<And>i b. list_all (qxk_effect_ok (dom (xk_threads k)) I u) (snd (on_start bh i b))"
    "\<And>i b. qxk_effects_weight w (snd (on_start bh i b)) \<le> n"
  shows "\<exists>k'. QxkKernel_start srt bh k = Inr k' \<and> qxk_ok I {} k' \<and> xk_threads k' = xk_threads k \<and>
    qxk_work w u k' \<le> 257 * (qxk_weight w k + u (xk_world k) + 64 * n) + 256"
proof -
  have len: "length (xk_slots k) = 64" using assms(2) by (simp add: qxk_ok_def qxk_slots_ok_def)
  obtain k1 where k1: "qxk_start_objects bh [0..<64] k = Inr k1" "qxk_ok I {} k1" "xk_threads k1 = xk_threads k"
    "qxk_weight w k1 + u (xk_world k1) \<le> qxk_weight w k + u (xk_world k) + 64 * n"
    using qxk_start_objects_ok [OF assms(2) _ assms(4,5), of "[0..<64]"] by auto
  let ?k2 = "qxk_start_threads srt k1"
  have k2: "qxk_ok I {} ?k2"
    using k1(3) assms(3) by (intro qxk_start_threads_ok [OF assms(1) k1(2)]) simp
  then have "length (xs_thread_ready (xk_sched ?k2)) \<le> 256"
    by (auto simp: qxk_ok_def intro: sched_ok_length)
  moreover have "qxk_weight w ?k2 + u (xk_world ?k2) = qxk_weight w k1 + u (xk_world k1)" "xk_threads ?k2 = xk_threads k"
    using k1(3) by (simp_all add: qxk_start_threads_def qxk_weight_def)
  ultimately show ?thesis using k1 k2 len by (simp add: QxkKernel_start_def qxk_work_def)
qed

section \<open>Properties\<close>

text \<open>
  C14: (dual-mode policy) In every state that satisfies the kernel's invariant the scheduler picks an
  active object if one above the lock ceiling has events, and then the one of highest priority;
  otherwise a registered thread of highest priority among the ready ones, whatever the ceiling; and
  it is idle only if neither exists.
\<close>

theorem QxkKernel_dual_mode_policy:
  assumes "qxk_inv I w u k"
  shows "case fst (QxkScheduler_plan_next (xk_sched k)) of
      ActiveObjectMode p \<Rightarrow> slot_evs (xk_slots k ! unat p) \<noteq> [] \<and> xs_lock_ceiling (xk_sched k) < p \<and>
        (\<forall>i<64. slot_evs (xk_slots k ! i) \<noteq> [] \<longrightarrow> of_nat i \<le> p)
    | ExtendedThreadMode tid prio \<Rightarrow>
        (\<forall>i<64. slot_evs (xk_slots k ! i) \<noteq> [] \<longrightarrow> of_nat i \<le> xs_lock_ceiling (xk_sched k)) \<and>
        tid \<in> dom (xk_threads k) \<and> (tid, prio) \<in> set (xs_thread_ready (xk_sched k)) \<and>
        (\<forall>t\<in>set (xs_thread_ready (xk_sched k)). snd t \<le> prio)
    | IdleMode \<Rightarrow> qxk_quiescent k"
  using qxk_queue_ok [OF assms]
proof (cases rule: plan_next_cases)
  case (object p)
  then have "unat p < 64" by (simp add: prios_def u8_lt_64_iff)
  with qxk_ready_events [OF assms this] object(2) have "slot_evs (xk_slots k ! unat p) \<noteq> []" by simp
  with object qxk_ready_events [OF assms] show ?thesis by simp
next
  case (thread tid prio)
  have "tid \<in> ready_ids (xk_sched k)" using thread(3) by (force simp: ready_ids_def)
  then have "tid \<in> dom (xk_threads k)" using assms by (auto simp: qxk_inv_def qxk_ok_def sched_ok_def)
  with thread qxk_ready_events [OF assms] show ?thesis by simp
next
  case idle
  with qxk_ready_events [OF assms] show ?thesis by (simp add: qxk_quiescent_def)
qed

text \<open>
  C13: (termination and quiescence) For an application that does a finite amount of work,
  \<open>run_until_idle\<close> returns without a fault, keeps the invariant, and leaves no thread ready and no
  active object above the lock ceiling with events.
\<close>

theorem QxkKernel_run_until_idle_returns:
  assumes "qxk_inv I w u k" "qxk_app_ok srt (dom (xk_threads k)) I w u bh poll"
  shows "\<exists>k'. QxkKernel_run_until_idle srt bh poll k = Some (Inr k') \<and> qxk_inv I w u k' \<and> qxk_quiescent k'"
  using assms
proof (induction "qxk_work w u k" arbitrary: k rule: less_induct)
  case less
  obtain busy k1 where k1: "QxkKernel_dispatch_once srt bh poll k = Inr (busy, k1)" "qxk_inv I w u k1"
    "dom (xk_threads k1) = dom (xk_threads k)"
    "if busy then qxk_work w u k1 < qxk_work w u k else qxk_quiescent k1"
    using QxkKernel_dispatch_once_ok [OF less.prems] by blast
  show ?case
  proof (cases busy)
    case True
    with k1(4) have "qxk_work w u k1 < qxk_work w u k" by simp
    from less.hyps [OF this k1(2)] less.prems(2) k1(3) show ?thesis
      using True k1(1) by (simp add: QxkKernel_run_until_idle.simps [of srt bh poll k])
  next
    case False
    with k1 show ?thesis by (simp add: QxkKernel_run_until_idle.simps [of srt bh poll k])
  qed
qed

text \<open>A thread that yields keeps its place: the queue is the same as if it had continued.\<close>

lemma qxk_yield_is_continue:
  "tid \<in> ready_ids sc \<Longrightarrow> qxk_after_poll srt Yield tid prio sc = qxk_after_poll srt Continue tid prio sc"
  by (auto simp: qxk_after_poll_def QxkScheduler_mark_thread_ready_def ThreadReadyQueue_insert_def
      ready_ids_def list_ex_iff)

section \<open>A concrete application\<close>

text \<open>
  A thread that takes a bounded number of permits from a semaphore, blocking when there is none, and
  an active object that signals the semaphore for every event.
\<close>

lemma sched_ok_block: "sched_ok D sc \<Longrightarrow> sched_ok D (QxkScheduler_block_thread tid sc)"
  by (auto simp: sched_ok_def ready_ids_def QxkScheduler_block_thread_def queue_ok_remove)

lemma Semaphore_wait_sched_ok:
  assumes "sched_ok D sch" "waiter_ids (sem_waiting s) \<subseteq> D" "tid \<in> D"
    "Semaphore_wait tid prio (s, sch) = (r, s', sch')"
  shows "sched_ok D sch' \<and> waiter_ids (sem_waiting s') \<subseteq> D \<and> xs_ao_ready sch' = xs_ao_ready sch \<and>
    xs_thread_ready sch' = (case r of Inl _ \<Rightarrow> ThreadReadyQueue_remove tid (xs_thread_ready sch)
      | Inr _ \<Rightarrow> xs_thread_ready sch)"
  using assms sched_ok_block [OF assms(1), of tid]
  by (auto simp: Semaphore_wait_def Semaphore_wait_enter_def QxkScheduler_block_thread_def split: if_splits)

lemma Semaphore_signal_sched_ok:
  assumes "sorts_by_priority srt" "sched_ok D sch" "waiter_ids (sem_waiting s) \<subseteq> D"
    "Semaphore_signal srt (s, sch) = (r, s', sch')"
  shows "sched_ok D sch' \<and> waiter_ids (sem_waiting s') \<subseteq> D \<and> xs_ao_ready sch' = xs_ao_ready sch"
proof (cases "sem_count s \<ge> sem_max_count s")
  case True
  with assms show ?thesis by (simp add: Semaphore_signal_def)
next
  case False
  obtain w v where w: "take_highest (sem_waiting s) = (w, v)" by (cases "take_highest (sem_waiting s)")
  have s': "sch' = wake srt w sch" "sem_waiting s' = v"
    using assms(4) False w by (auto simp: Semaphore_signal_def)
  have "waiter_ids v \<subseteq> D" "\<And>t. w = Some t \<Longrightarrow> wt_id t \<in> D"
    by (rule tw.take_cases [of "sem_waiting s"]; use w assms(3) in \<open>auto simp: waiter_ids_def\<close>)+
  with s' assms(2) sched_ok_unblock [OF assms(1,2)] show ?thesis
    by (auto simp: wake_def split: option.splits) (auto simp: QxkScheduler_unblock_thread_def)
qed

type_synonym demo_world = "Semaphore \<times> nat"

definition qxk_demo_poll :: "u8 \<Rightarrow> (unit, demo_world) thread_fn" where
  "qxk_demo_poll tid ctx x =
     (case x of ((s, n), sc) \<Rightarrow>
        if n = 0 then (ActionTerminated, x, [])
        else (case Semaphore_wait tid (cx_priority ctx) (s, sc) of
                (Inr _, s', sc') \<Rightarrow> (Continue, ((s', n - 1), sc'), [])
              | (Inl _, s', sc') \<Rightarrow> (ActionBlocked, ((s', n), sc'), [])))"

definition qxk_demo_signal :: "demo_world \<times> QxkScheduler \<Rightarrow> demo_world \<times> QxkScheduler" where
  "qxk_demo_signal x = (case x of ((s, n), sc) \<Rightarrow>
     (case Semaphore_signal ready_sort (s, sc) of (_, s', sc') \<Rightarrow> ((s', n), sc')))"

definition qxk_demo_bh :: "(unit, unit, demo_world) QxkBehavior" where
  "qxk_demo_bh = \<lparr>on_start = \<lambda>i b. (b, []), on_event = \<lambda>i b e. (b, [Call (XShared qxk_demo_signal)])\<rparr>"

definition qxk_demo_I :: "u8 set \<Rightarrow> demo_world \<Rightarrow> bool" where
  "qxk_demo_I D x \<longleftrightarrow> waiter_ids (sem_waiting (fst x)) \<subseteq> D"

lemma qxk_demo_signal_ok:
  assumes "sched_ok D (snd x)" "qxk_demo_I D (fst x)"
  shows "sched_ok D (snd (qxk_demo_signal x)) \<and> qxk_demo_I D (fst (qxk_demo_signal x)) \<and>
    xs_ao_ready (snd (qxk_demo_signal x)) = xs_ao_ready (snd x) \<and>
    snd (fst (qxk_demo_signal x)) \<le> snd (fst x)"
proof -
  obtain s n sc where x: "x = ((s, n), sc)" by (metis prod.collapse)
  obtain r s' sc' where w: "Semaphore_signal ready_sort (s, sc) = (r, s', sc')" by (metis prod.collapse)
  have "sched_ok D sc' \<and> waiter_ids (sem_waiting s') \<subseteq> D \<and> xs_ao_ready sc' = xs_ao_ready sc"
    using assms x by (intro Semaphore_signal_sched_ok [OF ready_sort_sorts _ _ w]) (simp_all add: qxk_demo_I_def)
  with x w show ?thesis by (simp add: qxk_demo_signal_def qxk_demo_I_def)
qed

lemma qxk_demo_app: "qxk_app_ok ready_sort D (qxk_demo_I D) (\<lambda>_. 1) snd qxk_demo_bh qxk_demo_poll"
proof -
  have "qxk_effect_ok D (qxk_demo_I D) snd (Call (XShared qxk_demo_signal))"
    unfolding qxk_effect_ok.simps using qxk_demo_signal_ok by blast
  then have "qxk_bh_ok D (qxk_demo_I D) (\<lambda>_. 1) snd qxk_demo_bh"
    by (simp add: qxk_bh_ok_def qxk_demo_bh_def qxk_effects_weight_def)
  moreover have "qxk_poll_ok ready_sort D (qxk_demo_I D) (\<lambda>_. 1) snd qxk_demo_poll"
    unfolding qxk_poll_ok_def
  proof (intro allI impI)
    fix tid and ctx :: ThreadContext and x :: "demo_world \<times> QxkScheduler"
    assume x: "sched_ok D (snd x)" "qxk_demo_I D (fst x)" "tid \<in> ready_ids (snd x)"
    obtain s n sc where xx: "x = ((s, n), sc)" by (metis prod.collapse)
    have tid: "tid \<in> D" "tid \<in> fst ` set (xs_thread_ready sc)"
      using x(1,3) xx by (auto simp: sched_ok_def ready_ids_def)
    obtain r s' sc' where w: "Semaphore_wait tid (cx_priority ctx) (s, sc) = (r, s', sc')"
      by (metis prod.collapse)
    have ok: "sched_ok D sc' \<and> waiter_ids (sem_waiting s') \<subseteq> D \<and> xs_ao_ready sc' = xs_ao_ready sc \<and>
      xs_thread_ready sc' = (case r of Inl _ \<Rightarrow> ThreadReadyQueue_remove tid (xs_thread_ready sc)
        | Inr _ \<Rightarrow> xs_thread_ready sc)"
      using x(1,2) xx by (intro Semaphore_wait_sched_ok [OF _ _ tid(1) w]) (simp_all add: qxk_demo_I_def)
    note defs = qxk_demo_poll_def qxk_demo_I_def posts_weight_def qxk_after_poll_def
      QxkScheduler_mark_thread_not_ready_def
    note less = ThreadReadyQueue_remove_shorter [OF tid(2)]
    show "case qxk_demo_poll tid ctx x of (action, y, ps) \<Rightarrow>
        sched_ok D (snd y) \<and> qxk_demo_I D (fst y) \<and> xs_ao_ready (snd y) = xs_ao_ready (snd x) \<and>
        (snd (fst y) + posts_weight (\<lambda>_. 1) ps < snd (fst x) \<or>
         snd (fst y) \<le> snd (fst x) \<and> ps = [] \<and>
         length (xs_thread_ready (qxk_after_poll ready_sort action tid (cx_priority ctx) (snd y)))
           < length (xs_thread_ready (snd x)))"
    proof (cases "n = 0")
      case True
      with x(1,2) xx less show ?thesis by (simp add: defs)
    next
      case False
      with xx w ok less show ?thesis by (cases r) (simp_all add: defs)
    qed
  qed
  ultimately show ?thesis using ready_sort_sorts by (simp add: qxk_app_ok_def)
qed

definition qxk_demo_builder :: "(unit, unit) QxkKernelBuilder" where
  "qxk_demo_builder = QxkKernelBuilder_new\<lparr>
     xb_ao_registrations := [\<lparr>ar_object = ActiveObject_new 1 5 (), ar_priority = 5, ar_id = 1\<rparr>],
     xb_thread_configs := [ThreadConfig_new 7 3]\<rparr>"

definition qxk_demo_kernel :: "(unit, unit, demo_world) QxkKernel" where
  "qxk_demo_kernel = projr (projr (QxkKernel_new (Semaphore_binary 16, 2) qxk_demo_builder))"

definition qxk_demo_started :: "(unit, unit, demo_world) QxkKernel" where
  "qxk_demo_started = projr (QxkKernel_start ready_sort qxk_demo_bh qxk_demo_kernel)"

definition qxk_demo_posted :: "(unit, unit, demo_world) QxkKernel" where
  "qxk_demo_posted = snd (projr (QxkKernel_post_ao 1 (Event_new 4 ()) qxk_demo_started))"

lemma qxk_demo_kernel_ok:
  "qxk_ok (qxk_demo_I (dom (xk_threads qxk_demo_kernel))) {} qxk_demo_kernel"
  "xk_threads qxk_demo_kernel tid = Some t \<Longrightarrow> xt_id t = tid \<and> xt_iteration t = 0"
  "qxk_weight w qxk_demo_kernel = 0" "snd (xk_world qxk_demo_kernel) = 2"
proof -
  have "map_sum id (map_sum id (\<lambda>_. ())) (QxkKernel_new (Semaphore_binary 16, 2 :: nat) qxk_demo_builder) = Inr (Inr ())"
    by code_simp
  then obtain k where k: "QxkKernel_new (Semaphore_binary 16, 2 :: nat) qxk_demo_builder = Inr (Inr k)"
    by (cases "QxkKernel_new (Semaphore_binary 16, 2 :: nat) qxk_demo_builder") (auto simp: map_sum_def split: sum.splits)
  have "dis_value (Dis_new 5 :: u8 dis) = 5" by (simp add: Dis_new_def)
  then have b: "qxk_builder_ok qxk_demo_builder"
    by (simp add: qxk_builder_ok_def qxk_demo_builder_def ActiveObject_inv_def ActiveObject_new_def
        EventQueue_new_def)
  have I: "qxk_demo_I D (Semaphore_binary 16, 2)" for D
    by (simp add: qxk_demo_I_def Semaphore_binary_def Semaphore_with_max_def)
  note ok = QxkKernel_new_ok [where I = "qxk_demo_I D" for D, OF b I k]
  have "k = qxk_demo_kernel" by (simp add: qxk_demo_kernel_def k)
  with ok show "qxk_ok (qxk_demo_I (dom (xk_threads qxk_demo_kernel))) {} qxk_demo_kernel"
    "xk_threads qxk_demo_kernel tid = Some t \<Longrightarrow> xt_id t = tid \<and> xt_iteration t = 0"
    "qxk_weight w qxk_demo_kernel = 0" "snd (xk_world qxk_demo_kernel) = 2" by auto
qed

lemma qxk_demo_inv: "qxk_inv (qxk_demo_I (dom (xk_threads qxk_demo_posted))) (\<lambda>_. 1) snd qxk_demo_posted"
proof -
  let ?D = "dom (xk_threads qxk_demo_kernel)"
  have "\<exists>k'. QxkKernel_start ready_sort qxk_demo_bh qxk_demo_kernel = Inr k' \<and> qxk_ok (qxk_demo_I ?D) {} k' \<and>
      xk_threads k' = xk_threads qxk_demo_kernel \<and>
      qxk_work (\<lambda>_. 1) snd k' \<le> 257 * (qxk_weight (\<lambda>_. 1) qxk_demo_kernel + snd (xk_world qxk_demo_kernel) + 64 * 0) + 256"
    using qxk_demo_kernel_ok
    by (intro QxkKernel_start_ok [OF ready_sort_sorts]) (simp_all add: qxk_demo_bh_def qxk_effects_weight_def)
  then have st: "qxk_ok (qxk_demo_I ?D) {} qxk_demo_started" "xk_threads qxk_demo_started = xk_threads qxk_demo_kernel"
    "qxk_work (\<lambda>_. 1) snd qxk_demo_started \<le> 770"
    by (auto simp: qxk_demo_started_def qxk_demo_kernel_ok)
  from QxkKernel_post_ao_ok [OF st(1), of 1 "Event_new 4 ()" "\<lambda>_. 1" snd] obtain r k' where
    k': "QxkKernel_post_ao 1 (Event_new 4 ()) qxk_demo_started = Inr (r, k')"
    "qxk_keeps (qxk_demo_I ?D) {} (\<lambda>_. 1) snd 1 qxk_demo_started k'" by blast
  then have eq: "k' = qxk_demo_posted" by (simp add: qxk_demo_posted_def)
  with k'(2) have po: "qxk_ok (qxk_demo_I ?D) {} qxk_demo_posted" "xk_threads qxk_demo_posted = xk_threads qxk_demo_kernel"
    "qxk_weight (\<lambda>_. 1) qxk_demo_posted + snd (xk_world qxk_demo_posted) \<le>
       qxk_weight (\<lambda>_. 1) qxk_demo_started + snd (xk_world qxk_demo_started) + 1"
    using st(2) by (simp_all add: qxk_keeps_def)
  have l: "length (xs_thread_ready (xk_sched qxk_demo_posted)) \<le> 256"
    using po(1) by (auto simp: qxk_ok_def intro: sched_ok_length)
  have "A' \<le> A + 1 \<Longrightarrow> l' \<le> 256 \<Longrightarrow> 257 * A + l \<le> 770 \<Longrightarrow> 257 * A' + l' \<le> 1283" for A A' l l' :: nat
    by linarith
  from this [OF po(3) l st(3) [unfolded qxk_work_def]]
  have "qxk_work (\<lambda>_. 1) snd qxk_demo_posted \<le> 1283" by (simp only: qxk_work_def)
  then have "qxk_work (\<lambda>_. 1) snd qxk_demo_posted < 2 ^ 64" by simp
  moreover have "xt_iteration t = 0" if "t \<in> ran (xk_threads qxk_demo_kernel)" for t
    using that qxk_demo_kernel_ok(2) by (auto simp: ran_def)
  ultimately show ?thesis using po by (simp add: qxk_inv_def)
qed

theorem QxkKernel_dual_mode_policy_witness:
  "case fst (QxkScheduler_plan_next (xk_sched qxk_demo_posted)) of
      ActiveObjectMode p \<Rightarrow> slot_evs (xk_slots qxk_demo_posted ! unat p) \<noteq> [] \<and>
        xs_lock_ceiling (xk_sched qxk_demo_posted) < p \<and>
        (\<forall>i<64. slot_evs (xk_slots qxk_demo_posted ! i) \<noteq> [] \<longrightarrow> of_nat i \<le> p)
    | ExtendedThreadMode tid prio \<Rightarrow> tid \<in> dom (xk_threads qxk_demo_posted)
    | IdleMode \<Rightarrow> qxk_quiescent qxk_demo_posted"
  using QxkKernel_dual_mode_policy [OF qxk_demo_inv] by (simp split: ScheduleMode.splits)

theorem QxkKernel_run_until_idle_returns_witness:
  "\<exists>k'. QxkKernel_run_until_idle ready_sort qxk_demo_bh qxk_demo_poll qxk_demo_posted = Some (Inr k') \<and>
     qxk_quiescent k'"
  using QxkKernel_run_until_idle_returns [OF qxk_demo_inv qxk_demo_app] by blast

end
