(* ===== verification/QxkSmp.thy ===== *)
theory QxkSmp
  imports QxkSched
begin

text \<open>
  The multi-core (\<open>smp\<close>) build of the dual-mode scheduler (\<open>crates/qxk/src/scheduler.rs\<close>): eight
  cores plan, start and complete units of execution (active objects and threads) over one shared
  state. The current core is the argument \<open>c\<close>. No unit is ever executed by two cores.
\<close>

section \<open>State\<close>

record QxkCoreState =
  qc_active_prio :: u8
  qc_active_thread :: "u8 option"
  qc_next_prio :: u8
  qc_next_thread :: "u8 option"

record QxkSmpState =
  qx_lock_ceiling :: u8
  qx_ao_ready :: ready_set
  qx_thread_ready :: ready_queue
  qx_cores :: "QxkCoreState list"
  qx_executing_aos :: "u8 list"
  qx_executing_threads :: "u8 list"

definition QxkCoreState_default :: QxkCoreState where
  "QxkCoreState_default =
     \<lparr>qc_active_prio = 0, qc_active_thread = None, qc_next_prio = 0, qc_next_thread = None\<rparr>"

definition QxkSmpState_default :: QxkSmpState where
  "QxkSmpState_default =
     \<lparr>qx_lock_ceiling = 0, qx_ao_ready = 0, qx_thread_ready = [],
      qx_cores = replicate 8 QxkCoreState_default, qx_executing_aos = replicate 64 0xFF,
      qx_executing_threads = replicate 256 0xFF\<rparr>"

definition qx_set_core :: "nat \<Rightarrow> (QxkCoreState \<Rightarrow> QxkCoreState) \<Rightarrow> QxkSmpState \<Rightarrow> QxkSmpState" where
  "qx_set_core c f s = s\<lparr>qx_cores := (qx_cores s)[c := f (qx_cores s ! c)]\<rparr>"

section \<open>Operations\<close>

definition qx_ao_running :: "nat \<Rightarrow> u8 \<Rightarrow> QxkSmpState \<Rightarrow> bool" where
  "qx_ao_running c p s \<longleftrightarrow>
     list_ex (\<lambda>d. d \<noteq> c \<and> (qc_active_prio (qx_cores s ! d) = p \<or> qc_next_prio (qx_cores s ! d) = p)) [0..<8] \<or>
     qx_executing_aos s ! unat p \<noteq> 0xFF"

definition qx_thread_running :: "nat \<Rightarrow> u8 \<Rightarrow> QxkSmpState \<Rightarrow> bool" where
  "qx_thread_running c tid s \<longleftrightarrow>
     list_ex (\<lambda>d. d \<noteq> c \<and> (qc_active_thread (qx_cores s ! d) = Some tid \<or>
       qc_next_thread (qx_cores s ! d) = Some tid)) [0..<8] \<or>
     qx_executing_threads s ! unat tid \<noteq> 0xFF"

definition qx_find_ao :: "nat \<Rightarrow> QxkSmpState \<Rightarrow> u8 option" where
  "qx_find_ao c s =
     find (\<lambda>p. and (qx_ao_ready s) (u64_bit p) \<noteq> 0 \<and> p > qx_lock_ceiling s \<and> \<not> qx_ao_running c p s)
       (map of_nat (rev [1..<64]))"

definition qx_find_thread :: "nat \<Rightarrow> QxkSmpState \<Rightarrow> ready_thread option" where
  "qx_find_thread c s = find (\<lambda>t. \<not> qx_thread_running c (fst t) s) (qx_thread_ready s)"

definition qx_plan_next :: "nat \<Rightarrow> QxkSmpState \<Rightarrow> ScheduleMode \<times> QxkSmpState" where
  "qx_plan_next c s =
     (case qx_find_ao c s of
        Some p \<Rightarrow>
          (ActiveObjectMode p, qx_set_core c (\<lambda>k. k\<lparr>qc_next_prio := p, qc_next_thread := None\<rparr>) s)
      | None \<Rightarrow>
          (case qx_find_thread c s of
             Some (tid, prio) \<Rightarrow>
               (ExtendedThreadMode tid prio,
                qx_set_core c (\<lambda>k. k\<lparr>qc_next_prio := 0, qc_next_thread := Some tid\<rparr>) s)
           | None \<Rightarrow>
               (IdleMode, qx_set_core c (\<lambda>k. k\<lparr>qc_next_prio := 0, qc_next_thread := None\<rparr>) s)))"

definition qx_has_work :: "nat \<Rightarrow> QxkSmpState \<Rightarrow> bool" where
  "qx_has_work c s \<longleftrightarrow> qx_find_ao c s \<noteq> None \<or> qx_find_thread c s \<noteq> None"

text \<open>A priority above 63 is an index out of range.\<close>

definition qx_set_active :: "nat \<Rightarrow> ScheduleMode \<Rightarrow> QxkSmpState \<Rightarrow> QxkSmpState result" where
  "qx_set_active c mode s =
     (case mode of
        ActiveObjectMode p \<Rightarrow>
          let s' = qx_set_core c (\<lambda>k. k\<lparr>qc_active_prio := p, qc_active_thread := None,
                     qc_next_prio := 0, qc_next_thread := None\<rparr>) s
          in if p > 0
             then rbind (ensure Panic (unat p < 64)) (\<lambda>_.
                    Inr (s'\<lparr>qx_executing_aos := (qx_executing_aos s')[unat p := of_nat c]\<rparr>))
             else Inr s'
      | ExtendedThreadMode tid _ \<Rightarrow>
          let s' = qx_set_core c (\<lambda>k. k\<lparr>qc_active_prio := 0, qc_active_thread := Some tid,
                     qc_next_prio := 0, qc_next_thread := None\<rparr>) s
          in Inr (s'\<lparr>qx_executing_threads := (qx_executing_threads s')[unat tid := of_nat c]\<rparr>)
      | IdleMode \<Rightarrow>
          Inr (qx_set_core c (\<lambda>k. k\<lparr>qc_active_prio := 0, qc_active_thread := None,
                 qc_next_prio := 0, qc_next_thread := None\<rparr>) s))"

definition qx_complete_execution :: "nat \<Rightarrow> ScheduleMode \<Rightarrow> QxkSmpState \<Rightarrow> QxkSmpState" where
  "qx_complete_execution c mode s =
     (case mode of
        ActiveObjectMode p \<Rightarrow>
          let s' = (if p > 0 \<and> unat p < 64
                    then s\<lparr>qx_executing_aos := (qx_executing_aos s)[unat p := 0xFF]\<rparr> else s)
          in qx_set_core c (\<lambda>k. if qc_active_prio k = p then k\<lparr>qc_active_prio := 0\<rparr> else k) s'
      | ExtendedThreadMode tid _ \<Rightarrow>
          let s' = s\<lparr>qx_executing_threads := (qx_executing_threads s)[unat tid := 0xFF]\<rparr>
          in qx_set_core c (\<lambda>k. if qc_active_thread k = Some tid then k\<lparr>qc_active_thread := None\<rparr> else k) s'
      | IdleMode \<Rightarrow> s)"

definition qx_reset :: "QxkSmpState \<Rightarrow> QxkSmpState" where
  "qx_reset s =
     s\<lparr>qx_ao_ready := ReadySet_clear (qx_ao_ready s), qx_thread_ready := ThreadReadyQueue_clear (qx_thread_ready s),
       qx_cores := replicate 8 QxkCoreState_default, qx_executing_aos := replicate 64 0xFF,
       qx_executing_threads := replicate 256 0xFF\<rparr>"

section \<open>The multi-core system\<close>

text \<open>
  Every core runs \<open>dispatch_once\<close>: plan, start what was planned, complete it. Between the atomic
  operations of one core those of the others may take place; a handler may dispatch again, so a core
  has a stack of units, innermost first. \<open>pend c\<close> is the decision core \<open>c\<close> has planned and not yet
  started. Between these steps the ready state and the ceiling may change in any way.
\<close>

record qx_system =
  sys_state :: QxkSmpState
  sys_pend :: "nat \<Rightarrow> ScheduleMode option"
  sys_stack :: "nat \<Rightarrow> ScheduleMode list"

inductive qx_step :: "qx_system \<Rightarrow> qx_system \<Rightarrow> bool" where
  plan: "c < 8 \<Longrightarrow> sys_pend y c = None \<Longrightarrow> qx_plan_next c (sys_state y) = (mode, s') \<Longrightarrow>
    qx_step y (y\<lparr>sys_state := s', sys_pend := (sys_pend y)(c \<mapsto> mode)\<rparr>)"
| start: "c < 8 \<Longrightarrow> sys_pend y c = Some mode \<Longrightarrow> qx_set_active c mode (sys_state y) = Inr s' \<Longrightarrow>
    qx_step y (y\<lparr>sys_state := s', sys_pend := (sys_pend y)(c := None),
      sys_stack := (sys_stack y)(c := mode # sys_stack y c)\<rparr>)"
| complete: "c < 8 \<Longrightarrow> sys_stack y c = mode # ms \<Longrightarrow>
    qx_step y (y\<lparr>sys_state := qx_complete_execution c mode (sys_state y),
      sys_stack := (sys_stack y)(c := ms)\<rparr>)"
| environment: "qx_step y (y\<lparr>sys_state := (sys_state y)\<lparr>qx_lock_ceiling := l, qx_ao_ready := r,
    qx_thread_ready := q\<rparr>\<rparr>)"

definition qx_init :: qx_system where
  "qx_init = \<lparr>sys_state = QxkSmpState_default, sys_pend = \<lambda>_. None, sys_stack = \<lambda>_. []\<rparr>"

text \<open>The object or thread a decision stands for.\<close>

fun unit_of :: "ScheduleMode \<Rightarrow> (u8 + u8) option" where
  "unit_of (ActiveObjectMode p) = Some (Inl p)"
| "unit_of (ExtendedThreadMode tid _) = Some (Inr tid)"
| "unit_of IdleMode = None"

definition executing :: "qx_system \<Rightarrow> nat \<Rightarrow> (u8 + u8) list" where
  "executing y c = List.map_filter unit_of (sys_stack y c)"

section \<open>Invariant\<close>

fun owner :: "QxkSmpState \<Rightarrow> u8 + u8 \<Rightarrow> u8" where
  "owner s (Inl p) = qx_executing_aos s ! unat p"
| "owner s (Inr tid) = qx_executing_threads s ! unat tid"

fun next_is :: "QxkCoreState \<Rightarrow> u8 + u8 \<Rightarrow> bool" where
  "next_is k (Inl p) \<longleftrightarrow> qc_next_prio k = p"
| "next_is k (Inr tid) \<longleftrightarrow> qc_next_thread k = Some tid"

fun valid_unit :: "u8 + u8 \<Rightarrow> bool" where
  "valid_unit (Inl p) \<longleftrightarrow> 0 < p \<and> p < 64"
| "valid_unit (Inr tid) \<longleftrightarrow> True"

definition pend_unit :: "qx_system \<Rightarrow> nat \<Rightarrow> (u8 + u8) option" where
  "pend_unit y c = Option.bind (sys_pend y c) unit_of"

definition qx_sized :: "QxkSmpState \<Rightarrow> bool" where
  "qx_sized s \<longleftrightarrow> length (qx_cores s) = 8 \<and> length (qx_executing_aos s) = 64 \<and>
     length (qx_executing_threads s) = 256"

definition qx_inv :: "qx_system \<Rightarrow> bool" where
  "qx_inv y \<longleftrightarrow> qx_sized (sys_state y) \<and>
     (\<forall>c<8. distinct (executing y c)) \<and>
     (\<forall>c<8. \<forall>v\<in>set (executing y c). valid_unit v \<and> owner (sys_state y) v = of_nat c) \<and>
     (\<forall>c<8. \<forall>v. pend_unit y c = Some v \<longrightarrow> valid_unit v \<and> owner (sys_state y) v = 0xFF \<and>
        next_is (qx_cores (sys_state y) ! c) v \<and> (\<forall>d<8. d \<noteq> c \<longrightarrow> pend_unit y d \<noteq> Some v))"

lemma qx_set_core_simps [simp]:
  "owner (qx_set_core c f s) v = owner s v"
  "qx_sized (qx_set_core c f s) = qx_sized s"
  "c < length (qx_cores s) \<Longrightarrow> qx_cores (qx_set_core c f s) ! c = f (qx_cores s ! c)"
  "d \<noteq> c \<Longrightarrow> qx_cores (qx_set_core c f s) ! d = qx_cores s ! d"
  by (cases v; simp add: qx_set_core_def qx_sized_def)+

lemma qx_set_core_next:
  assumes "\<And>k. qc_next_prio (f k) = qc_next_prio k" "\<And>k. qc_next_thread (f k) = qc_next_thread k"
  shows "d < length (qx_cores s) \<Longrightarrow> next_is (qx_cores (qx_set_core c f s) ! d) v = next_is (qx_cores s ! d) v"
  using assms by (cases "d = c"; cases v) simp_all

lemma core_number [simp]: "c < 8 \<Longrightarrow> (of_nat c :: u8) \<noteq> 0xFF" "c < 8 \<Longrightarrow> d < 8 \<Longrightarrow> (of_nat c :: u8) = of_nat d \<longleftrightarrow> c = d"
  by (auto simp: word_unat_eq_iff unat_of_nat)

lemma qx_find_ao_Some:
  assumes "qx_find_ao c s = Some p"
  shows "0 < p" "p < 64" "owner s (Inl p) = 0xFF" "\<And>d. d < 8 \<Longrightarrow> d \<noteq> c \<Longrightarrow> \<not> next_is (qx_cores s ! d) (Inl p)"
  using find_SomeD [OF assms [unfolded qx_find_ao_def]]
  by (auto simp: qx_ao_running_def list_ex_iff word_less_nat_alt unat_of_nat)

lemma qx_find_thread_Some:
  assumes "qx_find_thread c s = Some (tid, prio)"
  shows "owner s (Inr tid) = 0xFF" "\<And>d. d < 8 \<Longrightarrow> d \<noteq> c \<Longrightarrow> \<not> next_is (qx_cores s ! d) (Inr tid)"
  using find_SomeD [OF assms [unfolded qx_find_thread_def]]
  by (auto simp: qx_thread_running_def list_ex_iff)

lemma qx_plan_next_spec:
  assumes "qx_plan_next c s = (mode, s')" "qx_sized s" "c < 8"
  shows "qx_sized s'" "\<And>v. owner s' v = owner s v" "\<And>d. d \<noteq> c \<Longrightarrow> qx_cores s' ! d = qx_cores s ! d"
    "\<And>v. unit_of mode = Some v \<Longrightarrow> valid_unit v \<and> owner s v = 0xFF \<and> next_is (qx_cores s' ! c) v \<and>
       (\<forall>d<8. d \<noteq> c \<longrightarrow> \<not> next_is (qx_cores s ! d) v)"
proof -
  have c: "c < length (qx_cores s)" using assms(2,3) by (simp add: qx_sized_def)
  show "qx_sized s'" "\<And>v. owner s' v = owner s v" "\<And>d. d \<noteq> c \<Longrightarrow> qx_cores s' ! d = qx_cores s ! d"
    "\<And>v. unit_of mode = Some v \<Longrightarrow> valid_unit v \<and> owner s v = 0xFF \<and> next_is (qx_cores s' ! c) v \<and>
       (\<forall>d<8. d \<noteq> c \<longrightarrow> \<not> next_is (qx_cores s ! d) v)"
    using assms(1,2) c qx_find_ao_Some [of c s] qx_find_thread_Some [of c s]
    by (auto simp: qx_plan_next_def split: option.splits)
qed

lemma qx_set_active_spec:
  assumes "qx_set_active c mode s = Inr s'" "qx_sized s"
  shows "qx_sized s'" "\<And>d. d \<noteq> c \<Longrightarrow> qx_cores s' ! d = qx_cores s ! d"
    "\<And>v. valid_unit v \<Longrightarrow> (case unit_of mode of None \<Rightarrow> True | Some u \<Rightarrow> valid_unit u) \<Longrightarrow>
       owner s' v = (if unit_of mode = Some v then of_nat c else owner s v)"
proof -
  show "qx_sized s'" "\<And>d. d \<noteq> c \<Longrightarrow> qx_cores s' ! d = qx_cores s ! d"
    using assms by (auto simp: qx_set_active_def qx_sized_def qx_set_core_def Let_def res_simps
        split: ScheduleMode.splits if_splits)
  fix v assume v: "valid_unit v" "case unit_of mode of None \<Rightarrow> True | Some u \<Rightarrow> valid_unit u"
  show "owner s' v = (if unit_of mode = Some v then of_nat c else owner s v)"
    using assms v unsigned_less [where ?'a = nat and ?'b = 8]
    by (cases mode; cases v)
      (auto simp: qx_set_active_def qx_sized_def qx_set_core_def Let_def nth_list_update unat_eq_iff u8_lt_64_iff
        res_simps)
qed

lemma qx_complete_spec:
  assumes "qx_sized s"
  shows "qx_sized (qx_complete_execution c mode s)"
    "d < 8 \<Longrightarrow> next_is (qx_cores (qx_complete_execution c mode s) ! d) v = next_is (qx_cores s ! d) v"
    "valid_unit v \<Longrightarrow> owner (qx_complete_execution c mode s) v = (if unit_of mode = Some v then 0xFF else owner s v)"
proof -
  show "qx_sized (qx_complete_execution c mode s)"
    using assms by (auto simp: qx_complete_execution_def qx_sized_def qx_set_core_def Let_def split: ScheduleMode.splits)
  show "next_is (qx_cores (qx_complete_execution c mode s) ! d) v = next_is (qx_cores s ! d) v" if "d < 8"
    using assms that by (cases mode) (auto simp: qx_complete_execution_def qx_sized_def Let_def qx_set_core_next)
  show "owner (qx_complete_execution c mode s) v = (if unit_of mode = Some v then 0xFF else owner s v)" if "valid_unit v"
    using assms that unsigned_less [where ?'a = nat and ?'b = 8]
    by (cases mode; cases v)
      (auto simp: qx_complete_execution_def qx_set_core_def qx_sized_def nth_list_update Let_def unat_eq_iff u8_lt_64_iff)
qed

lemma executing_simps:
  "executing (y\<lparr>sys_state := s', sys_pend := pd\<rparr>) = executing y"
  "executing (y\<lparr>sys_state := s'\<rparr>) = executing y"
  "executing (y\<lparr>sys_state := s', sys_pend := pd, sys_stack := (sys_stack y)(c := mode # sys_stack y c)\<rparr>) d =
     (if d = c then (case unit_of mode of None \<Rightarrow> executing y c | Some v \<Rightarrow> v # executing y c) else executing y d)"
  by (auto simp: executing_def fun_eq_iff List.map_filter_simps split: option.splits)

lemma executing_pop:
  assumes "sys_stack y c = mode # ms"
  shows "executing y c = (case unit_of mode of None \<Rightarrow> [] | Some v \<Rightarrow> [v]) @
      executing (y\<lparr>sys_state := s', sys_stack := (sys_stack y)(c := ms)\<rparr>) c"
    and "d \<noteq> c \<Longrightarrow> executing (y\<lparr>sys_state := s', sys_stack := (sys_stack y)(c := ms)\<rparr>) d = executing y d"
  using assms by (simp_all add: executing_def List.map_filter_simps split: option.splits)

lemma pend_unit_simps:
  "pend_unit (y\<lparr>sys_state := s', sys_pend := (sys_pend y)(c := m)\<rparr>) d =
     (if d = c then Option.bind m unit_of else pend_unit y d)"
  "pend_unit (y\<lparr>sys_state := s', sys_pend := (sys_pend y)(c := m), sys_stack := st\<rparr>) d =
     (if d = c then Option.bind m unit_of else pend_unit y d)"
  "pend_unit (y\<lparr>sys_state := s', sys_stack := st\<rparr>) d = pend_unit y d"
  "pend_unit (y\<lparr>sys_state := s'\<rparr>) d = pend_unit y d"
  by (simp_all add: pend_unit_def)

lemma qx_invD:
  assumes "qx_inv y"
  shows "qx_sized (sys_state y)" "c < 8 \<Longrightarrow> distinct (executing y c)"
    "c < 8 \<Longrightarrow> v \<in> set (executing y c) \<Longrightarrow> valid_unit v \<and> owner (sys_state y) v = of_nat c"
    "c < 8 \<Longrightarrow> pend_unit y c = Some v \<Longrightarrow> valid_unit v \<and> owner (sys_state y) v = 0xFF \<and>
       next_is (qx_cores (sys_state y) ! c) v"
    "c < 8 \<Longrightarrow> d < 8 \<Longrightarrow> d \<noteq> c \<Longrightarrow> pend_unit y c = Some v \<Longrightarrow> pend_unit y d \<noteq> Some v"
  using assms unfolding qx_inv_def by blast+

lemma qx_invI:
  assumes "qx_sized (sys_state y)" "\<And>c. c < 8 \<Longrightarrow> distinct (executing y c)"
    "\<And>c v. c < 8 \<Longrightarrow> v \<in> set (executing y c) \<Longrightarrow> valid_unit v \<and> owner (sys_state y) v = of_nat c"
    "\<And>c v. c < 8 \<Longrightarrow> pend_unit y c = Some v \<Longrightarrow> valid_unit v \<and> owner (sys_state y) v = 0xFF \<and>
       next_is (qx_cores (sys_state y) ! c) v"
    "\<And>c d v. c < 8 \<Longrightarrow> d < 8 \<Longrightarrow> d \<noteq> c \<Longrightarrow> pend_unit y c = Some v \<Longrightarrow> pend_unit y d \<noteq> Some v"
  shows "qx_inv y"
  using assms unfolding qx_inv_def by blast

lemma qx_inv_plan:
  assumes "qx_inv y" "c < 8" "qx_plan_next c (sys_state y) = (mode, s')"
  shows "qx_inv (y\<lparr>sys_state := s', sys_pend := (sys_pend y)(c \<mapsto> mode)\<rparr>)"
proof -
  note p = qx_plan_next_spec [OF assms(3) qx_invD(1) [OF assms(1)] assms(2)] and i = qx_invD [OF assms(1)]
  have fresh: "pend_unit y d \<noteq> Some v" if "d < 8" "d \<noteq> c" "unit_of mode = Some v" for d v
    using that p(4) i(4) by blast
  have pend: "valid_unit v \<and> owner s' v = 0xFF \<and> next_is (qx_cores s' ! d) v"
    if "d < 8" "(if d = c then Option.bind (Some mode) unit_of else pend_unit y d) = Some v" for d v
  proof (cases "d = c")
    case True
    with that p(2,4) show ?thesis by auto
  next
    case False
    with that i(4) [OF that(1)] p(2,3) show ?thesis by auto
  qed
  show ?thesis
  proof (rule qx_invI)
    show "pend_unit (y\<lparr>sys_state := s', sys_pend := (sys_pend y)(c \<mapsto> mode)\<rparr>) e \<noteq> Some v"
      if "d < 8" "e < 8" "e \<noteq> d" "pend_unit (y\<lparr>sys_state := s', sys_pend := (sys_pend y)(c \<mapsto> mode)\<rparr>) d = Some v" for d e v
      using that fresh i(5) [OF that(1-3)] by (auto simp: pend_unit_simps split: if_splits)
    show "valid_unit v \<and> owner (sys_state (y\<lparr>sys_state := s', sys_pend := (sys_pend y)(c \<mapsto> mode)\<rparr>)) v = 0xFF \<and>
        next_is (qx_cores (sys_state (y\<lparr>sys_state := s', sys_pend := (sys_pend y)(c \<mapsto> mode)\<rparr>)) ! d) v"
      if "d < 8" "pend_unit (y\<lparr>sys_state := s', sys_pend := (sys_pend y)(c \<mapsto> mode)\<rparr>) d = Some v" for d v
      using pend [OF that(1)] that(2) by (simp only: pend_unit_simps) simp
  qed (use p(1,2) i(2,3) in \<open>simp_all add: executing_simps\<close>)
qed

lemma qx_inv_start:
  assumes "qx_inv y" "c < 8" "sys_pend y c = Some mode" "qx_set_active c mode (sys_state y) = Inr s'"
  shows "qx_inv (y\<lparr>sys_state := s', sys_pend := (sys_pend y)(c := None),
      sys_stack := (sys_stack y)(c := mode # sys_stack y c)\<rparr>)"
proof -
  note i = qx_invD [OF assms(1)]
  note a = qx_set_active_spec [OF assms(4) i(1)]
  have pu: "pend_unit y c = unit_of mode" using assms(3) by (simp add: pend_unit_def)
  have ok: "case unit_of mode of None \<Rightarrow> True | Some u \<Rightarrow> valid_unit u"
    using i(4) [OF assms(2)] pu by (auto split: option.splits)
  have fresh: "v \<notin> set (executing y d)" if "d < 8" "unit_of mode = Some v" for d v
    using i(3) [OF that(1)] i(4) [OF assms(2)] pu that by auto
  have own: "owner s' v = (if unit_of mode = Some v then of_nat c else owner (sys_state y) v)" if "valid_unit v" for v
    by (rule a(3) [OF that ok])
  have ex: "executing (y\<lparr>sys_state := s', sys_pend := (sys_pend y)(c := None),
      sys_stack := (sys_stack y)(c := mode # sys_stack y c)\<rparr>) d =
     (if d = c then (case unit_of mode of None \<Rightarrow> executing y c | Some v \<Rightarrow> v # executing y c) else executing y d)" for d
    by (rule executing_simps)
  have dis: "distinct (case unit_of mode of None \<Rightarrow> executing y c | Some v \<Rightarrow> v # executing y c)"
    using i(2) [OF assms(2)] fresh [OF assms(2)] by (auto split: option.splits)
  have old: "valid_unit v \<and> owner s' v = of_nat d" if "d < 8" "v \<in> set (executing y d)" for d v
    using i(3) [OF that] own fresh [OF that(1)] that(2) by auto
  have new: "valid_unit v \<and> owner s' v = of_nat c" if "unit_of mode = Some v" for v
    using ok that own by simp
  have pend: "valid_unit v \<and> owner s' v = 0xFF \<and> next_is (qx_cores s' ! d) v"
    if "d < 8" "d \<noteq> c" "pend_unit y d = Some v" for d v
    using i(4) [OF that(1,3)] i(5) [OF that(1) assms(2) _ that(3)] that(2) own pu a(2) by auto
  let ?y = "y\<lparr>sys_state := s', sys_pend := (sys_pend y)(c := None),
      sys_stack := (sys_stack y)(c := mode # sys_stack y c)\<rparr>"
  have pd: "pend_unit ?y d = (if d = c then None else pend_unit y d)" for d by (simp add: pend_unit_simps)
  show ?thesis
  proof (rule qx_invI)
    show "qx_sized (sys_state ?y)" using a(1) by simp
    show "distinct (executing ?y d)" if "d < 8" for d
      using i(2) [OF that] dis unfolding ex by simp
    show "valid_unit v \<and> owner (sys_state ?y) v = of_nat d" if "d < 8" "v \<in> set (executing ?y d)" for d v
      using that(2) old [OF that(1), of v] new [of v] unfolding ex
      by (cases "d = c"; cases "unit_of mode") auto
    show "valid_unit v \<and> owner (sys_state ?y) v = 0xFF \<and> next_is (qx_cores (sys_state ?y) ! d) v"
      if "d < 8" "pend_unit ?y d = Some v" for d v
      using that pend [of d v] unfolding pd by (cases "d = c") simp_all
    show "pend_unit ?y e \<noteq> Some v" if "d < 8" "e < 8" "e \<noteq> d" "pend_unit ?y d = Some v" for d e v
      using that(4) i(5) [OF that(1-3), of v] unfolding pd by (cases "d = c"; cases "e = c") simp_all
  qed
qed

lemma qx_inv_complete:
  assumes "qx_inv y" "c < 8" "sys_stack y c = mode # ms"
  shows "qx_inv (y\<lparr>sys_state := qx_complete_execution c mode (sys_state y), sys_stack := (sys_stack y)(c := ms)\<rparr>)"
    (is "qx_inv ?y")
proof -
  note i = qx_invD [OF assms(1)]
  note a = qx_complete_spec [OF i(1)]
  note e = executing_pop [OF assms(3), where s' = "qx_complete_execution c mode (sys_state y)"]
  have sub: "set (executing ?y d) \<subseteq> set (executing y d)" for d using e by (cases "d = c") auto
  have gone: "v \<notin> set (executing ?y d)" if "d < 8" "unit_of mode = Some v" for d v
  proof (cases "d = c")
    case True
    then show ?thesis using e(1) that(2) i(2) [OF assms(2)] by auto
  next
    case False
    have "v \<in> set (executing y c)" using e(1) that(2) by simp
    then have "owner (sys_state y) v = of_nat c" using i(3) [OF assms(2)] by blast
    moreover have "owner (sys_state y) v = of_nat d" if "v \<in> set (executing y d)"
      using i(3) [OF \<open>d < 8\<close> that] by blast
    ultimately show ?thesis using core_number(2) [OF assms(2) \<open>d < 8\<close>] False e(2) by auto
  qed
  have dis: "distinct (executing ?y d)" if "d < 8" for d
    using i(2) [OF that] e by (cases "d = c") auto
  have own: "valid_unit v \<and> owner (qx_complete_execution c mode (sys_state y)) v = of_nat d"
    if "d < 8" "v \<in> set (executing ?y d)" for d v
  proof -
    have "v \<in> set (executing y d)" "unit_of mode \<noteq> Some v" using sub that(2) gone [OF that(1)] by auto
    with i(3) [OF that(1)] a(3) [of v c mode] show ?thesis by auto
  qed
  have pend: "valid_unit v \<and> owner (qx_complete_execution c mode (sys_state y)) v = 0xFF \<and>
      next_is (qx_cores (qx_complete_execution c mode (sys_state y)) ! d) v"
    if "d < 8" "pend_unit y d = Some v" for d v
    using i(4) [OF that] a(2) [OF that(1)] a(3) by auto
  show ?thesis
    unfolding qx_inv_def pend_unit_simps using a(1) dis own pend i(5) by auto
qed

lemma qx_inv_environment:
  "qx_inv y \<Longrightarrow> qx_inv (y\<lparr>sys_state := (sys_state y)\<lparr>qx_lock_ceiling := l, qx_ao_ready := r, qx_thread_ready := q\<rparr>\<rparr>)"
proof -
  have "owner ((sys_state y)\<lparr>qx_lock_ceiling := l, qx_ao_ready := r, qx_thread_ready := q\<rparr>) v = owner (sys_state y) v" for v
    by (cases v) simp_all
  then show "qx_inv y \<Longrightarrow> ?thesis"
    unfolding qx_inv_def executing_simps pend_unit_simps by (simp add: qx_sized_def)
qed

lemma qx_inv_step: "qx_step y z \<Longrightarrow> qx_inv y \<Longrightarrow> qx_inv z"
  by (induction rule: qx_step.induct)
    (simp_all only: qx_inv_plan qx_inv_start qx_inv_complete qx_inv_environment)

lemma qx_inv_init: "qx_inv qx_init"
  by (simp add: qx_inv_def qx_init_def executing_def pend_unit_def QxkSmpState_default_def qx_sized_def
      List.map_filter_simps)

section \<open>Properties\<close>

text \<open>
  C15: (no unit on two cores) In every state the eight cores can reach, whatever the interleaving of
  planning, starting and completing and however the ready state changes in between, no active object
  and no extended thread is being executed by two cores, nor twice by one core.
\<close>

theorem qxk_smp_no_double_execution:
  assumes "qx_step\<^sup>*\<^sup>* qx_init y" "c < 8" "d < 8"
  shows "distinct (executing y c) \<and> (c \<noteq> d \<longrightarrow> set (executing y c) \<inter> set (executing y d) = {})"
proof -
  from assms(1) have "qx_inv y"
    by (induction rule: rtranclp_induct) (auto intro: qx_inv_init qx_inv_step)
  note i = qx_invD [OF this]
  show ?thesis using i(2,3) assms(2,3) by (auto dest: i(3) [OF assms(2)] i(3) [OF assms(3)])
qed

text \<open>Core 2 plans and starts thread 9 while the ready queue holds it.\<close>

definition qx_demo_ready :: qx_system where
  "qx_demo_ready = qx_init\<lparr>sys_state := (sys_state qx_init)\<lparr>qx_lock_ceiling := 0, qx_ao_ready := 0,
     qx_thread_ready := [(9, 4)]\<rparr>\<rparr>"

definition qx_demo_planned :: qx_system where
  "qx_demo_planned = (let (m, s) = qx_plan_next 2 (sys_state qx_demo_ready)
     in qx_demo_ready\<lparr>sys_state := s, sys_pend := (sys_pend qx_demo_ready)(2 \<mapsto> m)\<rparr>)"

theorem qxk_smp_no_double_execution_witness:
  "qx_step\<^sup>*\<^sup>* qx_init qx_demo_planned \<and>
   distinct (executing qx_demo_planned 2) \<and>
   set (executing qx_demo_planned 2) \<inter> set (executing qx_demo_planned 5) = {}"
proof -
  have 1: "qx_step qx_init qx_demo_ready" unfolding qx_demo_ready_def by (rule environment)
  have "sys_pend qx_demo_ready 2 = None" by (simp add: qx_demo_ready_def qx_init_def)
  then have 2: "qx_step qx_demo_ready qx_demo_planned"
    unfolding qx_demo_planned_def by (auto split: prod.splits intro!: plan)
  from 1 2 have r: "qx_step\<^sup>*\<^sup>* qx_init qx_demo_planned" by auto
  from r qxk_smp_no_double_execution [OF r, of 2 5] show ?thesis by simp
qed

end
