(* ===== verification/TimeEvents.thy ===== *)
theory TimeEvents
  imports Active
begin

text \<open>
  Time events (\<open>crates/qf/src/time.rs\<close>, default build): arming, disarming, rearming and polling. An
  operation returns the QS records it emits. The timer wheels that own time events follow in
  \<open>TimeEvt\<close>; the radio stack's active object keeps one of its own.
\<close>

section \<open>Time events\<close>

definition QS_QF_TIMEEVT_ARM :: u8 where "QS_QF_TIMEEVT_ARM = 32"
definition QS_QF_TIMEEVT_AUTO_DISARM :: u8 where "QS_QF_TIMEEVT_AUTO_DISARM = 33"
definition QS_QF_TIMEEVT_DISARM_ATTEMPT :: u8 where "QS_QF_TIMEEVT_DISARM_ATTEMPT = 34"
definition QS_QF_TIMEEVT_DISARM :: u8 where "QS_QF_TIMEEVT_DISARM = 35"
definition QS_QF_TIMEEVT_REARM :: u8 where "QS_QF_TIMEEVT_REARM = 36"
definition QS_QF_TIMEEVT_POST :: u8 where "QS_QF_TIMEEVT_POST = 37"

record TimeEventConfig =
  tc_signal :: signal
  tc_interval_ticks :: "u64 option"
  tc_tick_rate :: u8

record TimeEventTraceInfo =
  ti_time_event_addr :: u64
  ti_target_addr :: u64
  ti_tick_rate :: u8

record TimeEvent =
  te_target :: u8
  te_cfg :: TimeEventConfig
  te_remaining :: u64
  te_armed :: bool
  te_disarmed_flag :: bool
  te_trace :: bool
  te_meta :: "TimeEventTraceInfo option"

definition TimeEventConfig_new :: "signal \<Rightarrow> TimeEventConfig" where
  "TimeEventConfig_new s = \<lparr>tc_signal = s, tc_interval_ticks = None, tc_tick_rate = 0\<rparr>"

definition TimeEventConfig_with_period :: "u64 \<Rightarrow> TimeEventConfig \<Rightarrow> TimeEventConfig" where
  "TimeEventConfig_with_period p c = c\<lparr>tc_interval_ticks := Some p\<rparr>"

definition TimeEventConfig_with_tick_rate :: "u8 \<Rightarrow> TimeEventConfig \<Rightarrow> TimeEventConfig" where
  "TimeEventConfig_with_tick_rate r c = c\<lparr>tc_tick_rate := r\<rparr>"

definition TimeEvent_new :: "u8 \<Rightarrow> TimeEventConfig \<Rightarrow> TimeEvent" where
  "TimeEvent_new target c =
     \<lparr>te_target = target, te_cfg = c, te_remaining = 0, te_armed = False,
      te_disarmed_flag = False, te_trace = False, te_meta = None\<rparr>"

definition TimeEvent_set_trace :: "bool \<Rightarrow> TimeEvent \<Rightarrow> TimeEvent" where
  "TimeEvent_set_trace h t = t\<lparr>te_trace := h\<rparr>"

definition TimeEvent_set_trace_meta :: "TimeEventTraceInfo \<Rightarrow> TimeEvent \<Rightarrow> TimeEvent" where
  "TimeEvent_set_trace_meta i t = t\<lparr>te_meta := Some i\<rparr>"

definition TimeEvent_obtain_trace :: "TimeEvent \<Rightarrow> TimeEventTraceInfo option" where
  "TimeEvent_obtain_trace t =
     (if te_trace t then map_option (\<lambda>i. i\<lparr>ti_tick_rate := tc_tick_rate (te_cfg t)\<rparr>) (te_meta t)
      else None)"

definition truncate_u16 :: "u64 \<Rightarrow> u16" where
  "truncate_u16 v = ucast (min v 0xFFFF)"

definition emit_timed :: "u8 \<Rightarrow> u64 \<Rightarrow> u64 \<Rightarrow> TimeEvent \<Rightarrow> trace_rec list" where
  "emit_timed r n interval t =
     (case TimeEvent_obtain_trace t of
        None \<Rightarrow> []
      | Some i \<Rightarrow> [(r, le64 (ti_time_event_addr i) @ le64 (ti_target_addr i) @ le16 (truncate_u16 n) @
           le16 (truncate_u16 interval) @ [ti_tick_rate i], True)])"

definition emit_arm :: "u64 \<Rightarrow> u64 \<Rightarrow> TimeEvent \<Rightarrow> trace_rec list" where
  "emit_arm n interval t = emit_timed QS_QF_TIMEEVT_ARM n interval t"

definition emit_disarm :: "u64 \<Rightarrow> u64 \<Rightarrow> TimeEvent \<Rightarrow> trace_rec list" where
  "emit_disarm n interval t = emit_timed QS_QF_TIMEEVT_DISARM n interval t"

definition emit_rearm :: "u64 \<Rightarrow> u64 \<Rightarrow> TimeEvent \<Rightarrow> trace_rec list" where
  "emit_rearm n interval t = emit_timed QS_QF_TIMEEVT_REARM n interval t"

definition emit_disarm_attempt :: "TimeEvent \<Rightarrow> trace_rec list" where
  "emit_disarm_attempt t =
     (case TimeEvent_obtain_trace t of
        None \<Rightarrow> []
      | Some i \<Rightarrow> [(QS_QF_TIMEEVT_DISARM_ATTEMPT,
           le64 (ti_time_event_addr i) @ le64 (ti_target_addr i) @ [ti_tick_rate i], True)])"

definition emit_auto_disarm :: "TimeEvent \<Rightarrow> trace_rec list" where
  "emit_auto_disarm t =
     (case TimeEvent_obtain_trace t of
        None \<Rightarrow> []
      | Some i \<Rightarrow> [(QS_QF_TIMEEVT_AUTO_DISARM,
           le64 (ti_time_event_addr i) @ le64 (ti_target_addr i) @ [ti_tick_rate i], False)])"

definition emit_post :: "signal \<Rightarrow> TimeEvent \<Rightarrow> trace_rec list" where
  "emit_post s t =
     (case TimeEvent_obtain_trace t of
        None \<Rightarrow> []
      | Some i \<Rightarrow> [(QS_QF_TIMEEVT_POST,
           le64 (ti_time_event_addr i) @ le16 s @ le64 (ti_target_addr i) @ [ti_tick_rate i], True)])"

definition interval_or_0 :: "TimeEvent \<Rightarrow> u64" where
  "interval_or_0 t = (case tc_interval_ticks (te_cfg t) of None \<Rightarrow> 0 | Some p \<Rightarrow> p)"

definition TimeEvent_arm :: "u64 \<Rightarrow> u64 option \<Rightarrow> TimeEvent \<Rightarrow> TimeEvent \<times> trace_rec list" where
  "TimeEvent_arm n interval t =
     (let t' = t\<lparr>te_remaining := n, te_cfg := (te_cfg t)\<lparr>tc_interval_ticks := interval\<rparr>, te_armed := True\<rparr>
      in (t', emit_arm n (case interval of None \<Rightarrow> 0 | Some p \<Rightarrow> p) t'))"

definition TimeEvent_disarm :: "TimeEvent \<Rightarrow> TimeEvent \<times> trace_rec list" where
  "TimeEvent_disarm t =
     (if te_armed t
      then let t' = t\<lparr>te_armed := False, te_remaining := 0, te_disarmed_flag := True\<rparr>
           in (t', emit_disarm (te_remaining t) (interval_or_0 t) t')
      else (t, emit_disarm_attempt t))"

definition TimeEvent_rearm :: "u64 \<Rightarrow> TimeEvent \<Rightarrow> bool \<times> TimeEvent \<times> trace_rec list" where
  "TimeEvent_rearm n t =
     (let t' = t\<lparr>te_remaining := n, te_armed := True\<rparr>
      in (te_armed t, t', emit_rearm n (interval_or_0 t) t'))"

definition TimeEvent_was_disarmed :: "TimeEvent \<Rightarrow> bool \<times> TimeEvent" where
  "TimeEvent_was_disarmed t = (te_disarmed_flag t, t\<lparr>te_disarmed_flag := False\<rparr>)"

definition TimeEvent_is_armed :: "TimeEvent \<Rightarrow> bool" where
  "TimeEvent_is_armed t = te_armed t"

text \<open>The target and signal of an event that expires at this tick.\<close>

definition TimeEvent_poll :: "TimeEvent \<Rightarrow> (u8 \<times> signal) option \<times> TimeEvent \<times> trace_rec list" where
  "TimeEvent_poll t =
     (if \<not> te_armed t then (None, t, [])
      else
        let t1 = (if te_remaining t > 0 then t\<lparr>te_remaining := te_remaining t - 1\<rparr> else t)
        in if te_remaining t1 = 0
           then (let periodic = tc_interval_ticks (te_cfg t1) \<noteq> None;
                     t2 = t1\<lparr>te_armed := periodic\<rparr>;
                     t3 = (case tc_interval_ticks (te_cfg t2) of
                             Some p \<Rightarrow> t2\<lparr>te_remaining := p\<rparr> | None \<Rightarrow> t2);
                     t4 = (if \<not> periodic then t3\<lparr>te_disarmed_flag := True\<rparr> else t3);
                     sig = tc_signal (te_cfg t4)
                 in (Some (te_target t1, sig), t4,
                     (if \<not> periodic then emit_auto_disarm t4 else []) @ emit_post sig t4))
           else (None, t1, []))"

end
