(* ===== verification/TimeEvt.thy ===== *)
theory TimeEvt
  imports QvKernel QkKernel TimeEvents
begin

text \<open>
  Timer wheels (\<open>crates/qf/src/time.rs\<close>, \<open>crates/qk/src/time.rs\<close>, default
  build) and the schedule of a time event. Time events are shared objects: a wheel holds, per tick rate, the names of the events
  registered with it, and a store maps names to events. An operation on a time event returns the
  QS records it emits. The cooperative wheel posts to its kernel, the preemptive one posts and
  runs the scheduler.
\<close>

section \<open>Timer wheels\<close>

record TimerWheel =
  tw_events :: "nat list list"
  tw_trace :: bool

definition TimerWheel_new :: "u8 \<Rightarrow> bool \<Rightarrow> TimerWheel" where
  "TimerWheel_new max_tick_rate hook =
     \<lparr>tw_events = replicate (max (unat max_tick_rate) 1) [], tw_trace = hook\<rparr>"

definition QkTimerWheel_new :: "bool \<Rightarrow> TimerWheel" where
  "QkTimerWheel_new hook = \<lparr>tw_events = replicate 4 [], tw_trace = hook\<rparr>"

definition TimerWheel_register ::
    "nat \<Rightarrow> (nat \<Rightarrow> TimeEvent) \<Rightarrow> TimerWheel \<Rightarrow> (nat \<Rightarrow> TimeEvent) \<times> TimerWheel" where
  "TimerWheel_register x st w =
     (let st' = st(x := TimeEvent_set_trace (tw_trace w) (st x));
          rate = unat (tc_tick_rate (te_cfg (st' x)));
          evs = (if rate < length (tw_events w) then tw_events w
                 else tw_events w @ replicate (rate + 1 - length (tw_events w)) [])
      in (st', w\<lparr>tw_events := evs[rate := evs ! rate @ [x]]\<rparr>))"

text \<open>
  One bucket: poll each event; post what expired, with the payload \<open>pl\<close> of a signal-only event;
  an error of the post ends the loop. \<open>log\<close> puts the records of a poll into the trace.
\<close>

fun tick_bucket ::
    "(u8 \<Rightarrow> 'p Event \<Rightarrow> 'k \<Rightarrow> (('err + unit) \<times> 'k) result option) \<Rightarrow> (trace_rec list \<Rightarrow> 'k \<Rightarrow> 'k) \<Rightarrow> 'p \<Rightarrow>
     nat list \<Rightarrow> (nat \<Rightarrow> TimeEvent) \<Rightarrow> 'k \<Rightarrow> (('err + unit) \<times> (nat \<Rightarrow> TimeEvent) \<times> 'k) result option" where
  "tick_bucket post log pl [] st k = Some (Inr (Inr (), st, k))"
| "tick_bucket post log pl (x # xs) st k =
     (let (exp, t, recs) = TimeEvent_poll (st x); st' = st(x := t); k' = log recs k
      in case exp of
           None \<Rightarrow> tick_bucket post log pl xs st' k'
         | Some (target, sig) \<Rightarrow>
             orbind (post target (Event_new sig pl) k') (\<lambda>(r, k'').
               case r of
                 Inl err \<Rightarrow> Some (Inr (Inl err, st', k''))
               | Inr _ \<Rightarrow> tick_bucket post log pl xs st' k''))"

definition qv_log :: "trace_rec list \<Rightarrow> ('p, 'b) QvKernel \<Rightarrow> ('p, 'b) QvKernel" where
  "qv_log recs k = k\<lparr>k_trace := map_option (\<lambda>l. l @ recs) (k_trace k)\<rparr>"

definition qk_log :: "trace_rec list \<Rightarrow> ('p, 'b) QkKernel \<Rightarrow> ('p, 'b) QkKernel" where
  "qk_log recs k =
     k\<lparr>qk_sched := (qk_sched k)\<lparr>sc_trace := map_option (\<lambda>l. l @ recs) (sc_trace (qk_sched k))\<rparr>\<rparr>"

definition TimerWheel_tick_rate ::
    "'p \<Rightarrow> u8 \<Rightarrow> TimerWheel \<Rightarrow> (nat \<Rightarrow> TimeEvent) \<Rightarrow> ('p, 'b) QvKernel \<Rightarrow>
     ((KernelError + unit) \<times> (nat \<Rightarrow> TimeEvent) \<times> ('p, 'b) QvKernel) result option" where
  "TimerWheel_tick_rate pl rate w st k =
     (if unat rate < length (tw_events w)
      then tick_bucket (\<lambda>t e k. Some (QvKernel_post t e k)) qv_log pl (tw_events w ! unat rate) st k
      else Some (Inr (Inr (), st, k)))"

definition TimerWheel_tick ::
    "'p \<Rightarrow> TimerWheel \<Rightarrow> (nat \<Rightarrow> TimeEvent) \<Rightarrow> ('p, 'b) QvKernel \<Rightarrow>
     ((KernelError + unit) \<times> (nat \<Rightarrow> TimeEvent) \<times> ('p, 'b) QvKernel) result option" where
  "TimerWheel_tick pl w st k = TimerWheel_tick_rate pl 0 w st k"

definition TimerWheel_tick_rate_from_isr ::
    "u8 \<Rightarrow> 'p \<Rightarrow> u8 \<Rightarrow> TimerWheel \<Rightarrow> (nat \<Rightarrow> TimeEvent) \<Rightarrow> ('p, 'b) QvKernel \<Rightarrow>
     ((KernelError + unit) \<times> (nat \<Rightarrow> TimeEvent) \<times> ('p, 'b) QvKernel) result option" where
  "TimerWheel_tick_rate_from_isr nesting pl rate w st k =
     orbind (Some (ensure Panic (in_isr nesting))) (\<lambda>_. TimerWheel_tick_rate pl rate w st k)"

definition TimerWheel_no_active :: "u8 \<Rightarrow> TimerWheel \<Rightarrow> (nat \<Rightarrow> TimeEvent) \<Rightarrow> bool" where
  "TimerWheel_no_active rate w st \<longleftrightarrow>
     (if unat rate < length (tw_events w)
      then \<not> list_ex (\<lambda>x. TimeEvent_is_armed (st x)) (tw_events w ! unat rate)
      else True)"

definition QkTimerWheel_tick_rate ::
    "nat \<Rightarrow> ('p, 'b) QkBehavior \<Rightarrow> 'p \<Rightarrow> u8 \<Rightarrow> TimerWheel \<Rightarrow> (nat \<Rightarrow> TimeEvent) \<Rightarrow> ('p, 'b) QkKernel \<Rightarrow>
     ((QkKernelError + unit) \<times> (nat \<Rightarrow> TimeEvent) \<times> ('p, 'b) QkKernel) result option" where
  "QkTimerWheel_tick_rate n bh pl rate w st k =
     (if unat rate < length (tw_events w)
      then tick_bucket (QkKernel_post_and_run n bh) qk_log pl (tw_events w ! unat rate) st k
      else Some (Inr (Inr (), st, k)))"

section \<open>Histories of polls\<close>

text \<open>Whether each of the next \<open>n\<close> polls expires, and the reference schedule.\<close>

fun polls :: "nat \<Rightarrow> TimeEvent \<Rightarrow> bool list" where
  "polls 0 t = []"
| "polls (Suc n) t = (let (e, t', _) = TimeEvent_poll t in (e \<noteq> None) # polls n t')"

definition fires_at :: "nat \<Rightarrow> nat option \<Rightarrow> nat \<Rightarrow> bool" where
  "fires_at n interval j \<longleftrightarrow>
     (case interval of
        None \<Rightarrow> j = max 1 n
      | Some p \<Rightarrow> max 1 n \<le> j \<and> max 1 p dvd (j - max 1 n))"

fun expired :: "nat list \<Rightarrow> (nat \<Rightarrow> TimeEvent) \<Rightarrow> (u8 \<times> signal) list" where
  "expired [] st = []"
| "expired (x # xs) st =
     (let (e, t, _) = TimeEvent_poll (st x)
      in (case e of None \<Rightarrow> [] | Some y \<Rightarrow> [y]) @ expired xs (st(x := t)))"

fun poll_all :: "nat list \<Rightarrow> (nat \<Rightarrow> TimeEvent) \<Rightarrow> nat \<Rightarrow> TimeEvent" where
  "poll_all [] st = st"
| "poll_all (x # xs) st = poll_all xs (st(x := fst (snd (TimeEvent_poll (st x)))))"

section \<open>A small wheel\<close>

text \<open>Event 0 aims at object 2, event 1 at object 1, event 2 at an unregistered object.\<close>

definition te_demo :: "nat \<Rightarrow> TimeEvent" where
  "te_demo = (\<lambda>x. fst (TimeEvent_arm 1 None
     (TimeEvent_new (if x = 0 then 2 else if x = 1 then 1 else 9) (TimeEventConfig_new 7))))"

definition tw_demo :: "nat list \<Rightarrow> TimerWheel" where
  "tw_demo xs = \<lparr>tw_events = [xs], tw_trace = False\<rparr>"

section \<open>Lemmas on time events\<close>

lemma poll_disarmed: "\<not> te_armed t \<Longrightarrow> TimeEvent_poll t = (None, t, [])"
  by (simp add: TimeEvent_poll_def)

lemma polls_disarmed: "\<not> te_armed t \<Longrightarrow> polls n t = replicate n False"
  by (induction n) (simp_all add: poll_disarmed)

lemma poll_counting:
  assumes "te_armed t" "1 < unat (te_remaining t)"
  shows "\<exists>t'. TimeEvent_poll t = (None, t', []) \<and> te_armed t' \<and>
    unat (te_remaining t') = unat (te_remaining t) - 1 \<and> te_cfg t' = te_cfg t"
proof -
  have pos: "te_remaining t > 0" using assms(2) by (simp add: word_less_nat_alt)
  then have u: "unat (te_remaining t - 1) = unat (te_remaining t) - 1" by (simp add: unat_minus_one word_gt_0)
  have "te_remaining t - 1 \<noteq> 0"
  proof
    assume "te_remaining t - 1 = 0"
    then have "unat (te_remaining t - 1) = 0" by (simp only: unat_0)
    with u assms(2) show False by linarith
  qed
  with pos u assms(1) show ?thesis by (simp add: TimeEvent_poll_def Let_def)
qed

lemma poll_expiring:
  assumes "te_armed t" "unat (te_remaining t) \<le> 1"
  shows "\<exists>t' r. TimeEvent_poll t = (Some (te_target t, tc_signal (te_cfg t)), t', r) \<and>
    te_armed t' = (tc_interval_ticks (te_cfg t) \<noteq> None) \<and> te_cfg t' = te_cfg t \<and>
    (\<forall>p. tc_interval_ticks (te_cfg t) = Some p \<longrightarrow> te_remaining t' = p) \<and>
    te_disarmed_flag t' = (te_disarmed_flag t \<or> tc_interval_ticks (te_cfg t) = None)"
proof -
  have "te_remaining t = 0 \<or> te_remaining t = 1"
  proof (cases "unat (te_remaining t)")
    case (Suc m)
    with assms(2) have "unat (te_remaining t) = unat (1 :: u64)" by simp
    then have "te_remaining t = 1" by (simp only: unat_eq_iff)
    then show ?thesis by blast
  qed (simp add: unat_eq_zero)
  with assms(1) show ?thesis
    by (cases "tc_interval_ticks (te_cfg t)") (auto simp: TimeEvent_poll_def Let_def)
qed

lemma fires_at_Suc: "1 < n \<Longrightarrow> fires_at n iv (Suc (Suc j)) = fires_at (n - 1) iv (Suc j)"
  by (auto simp: fires_at_def max_def split: option.splits)

lemma fires_at_first: "n \<le> 1 \<Longrightarrow> fires_at n iv (Suc 0)"
  by (auto simp: fires_at_def max_def split: option.splits)

lemma fires_at_period:
  "n \<le> 1 \<Longrightarrow> fires_at n (Some p) (Suc (Suc j)) = fires_at p (Some p) (Suc j)"
proof -
  assume n: "n \<le> 1"
  let ?P = "max 1 p"
  have "?P dvd Suc j \<longleftrightarrow> ?P \<le> Suc j \<and> ?P dvd (Suc j - ?P)"
    by (metis dvd_diff_nat dvd_imp_le dvd_minus_self dvd_refl le_add_diff_inverse2 dvd_add zero_less_Suc)
  with n show ?thesis by (simp add: fires_at_def max_def split: if_splits)
qed

lemma polls_Suc: "polls (Suc n) t = (fst (TimeEvent_poll t) \<noteq> None) # polls n (fst (snd (TimeEvent_poll t)))"
  by (simp add: split_def Let_def)

lemma polls_armed:
  "te_armed t \<Longrightarrow> polls n t =
   map (\<lambda>j. fires_at (unat (te_remaining t)) (map_option unat (tc_interval_ticks (te_cfg t))) (Suc j)) [0..<n]"
proof (induction n arbitrary: t)
  case (Suc n)
  let ?r = "unat (te_remaining t)" and ?iv = "map_option unat (tc_interval_ticks (te_cfg t))"
  have up: "[0..<Suc n] = 0 # map Suc [0..<n]" by (simp add: upt_conv_Cons map_Suc_upt del: upt_Suc)
  show ?case
  proof (cases "1 < ?r")
    case True
    obtain t' where t': "TimeEvent_poll t = (None, t', [])" "te_armed t'"
      "unat (te_remaining t') = ?r - 1" "te_cfg t' = te_cfg t"
      using poll_counting [OF Suc.prems True] by blast
    have "\<not> fires_at ?r ?iv (Suc 0)" using True by (auto simp: fires_at_def split: option.splits)
    then show ?thesis
      using True t' Suc.IH [OF t'(2)] unfolding up polls_Suc by (simp add: fires_at_Suc)
  next
    case False
    then have r: "?r \<le> 1" by simp
    obtain t' recs where t': "TimeEvent_poll t = (Some (te_target t, tc_signal (te_cfg t)), t', recs)"
      "te_armed t' = (tc_interval_ticks (te_cfg t) \<noteq> None)" "te_cfg t' = te_cfg t"
      "\<forall>p. tc_interval_ticks (te_cfg t) = Some p \<longrightarrow> te_remaining t' = p"
      using poll_expiring [OF Suc.prems r] by blast
    show ?thesis
    proof (cases "tc_interval_ticks (te_cfg t)")
      case None
      then have "\<not> te_armed t'" using t'(2) by simp
      moreover have "\<not> fires_at ?r None (Suc (Suc j))" for j using r by (simp add: fires_at_def)
      ultimately have "polls n t' = map (\<lambda>j. fires_at ?r None (Suc (Suc j))) [0..<n]"
        by (simp add: polls_disarmed map_replicate_const)
      then show ?thesis
        using None t'(1) fires_at_first [OF r, of None] unfolding up polls_Suc by (simp add: o_def)
    next
      case (Some p)
      then have "te_armed t'" using t'(2) by simp
      from Suc.IH [OF this] Some t' r show ?thesis
        unfolding up polls_Suc by (simp add: fires_at_first fires_at_period)
    qed
  qed
qed simp

section \<open>What a wheel relies on\<close>

text \<open>
  A post to a known target succeeds, if it returns, and keeps the known targets; a post to an
  unknown one is an error that changes nothing. A target that only queues also says where the
  event goes.
\<close>

locale expiry_target =
  fixes post :: "u8 \<Rightarrow> 'p Event \<Rightarrow> 'k \<Rightarrow> (('err + unit) \<times> 'k) result option"
    and log :: "trace_rec list \<Rightarrow> 'k \<Rightarrow> 'k"
    and ok :: "'k \<Rightarrow> bool"
    and known :: "u8 \<Rightarrow> 'k \<Rightarrow> bool"
  assumes post_known: "ok k \<Longrightarrow> known t k \<Longrightarrow> post t e k = Some res \<Longrightarrow>
      \<exists>k'. res = Inr (Inr (), k') \<and> ok k' \<and> (\<forall>s. known s k' = known s k)"
    and post_unknown: "ok k \<Longrightarrow> \<not> known t k \<Longrightarrow> \<exists>err. post t e k = Some (Inr (Inl err, k))"
    and log_ok: "ok k \<Longrightarrow> ok (log r k)" "known s (log r k) = known s k"
begin

lemma tick_all:
  assumes "ok k" "\<forall>(t, s)\<in>set (expired xs st). known t k" "tick_bucket post log pl xs st k = Some res"
  shows "\<exists>k'. res = Inr (Inr (), poll_all xs st, k') \<and> ok k'"
  using assms
proof (induction xs arbitrary: st k)
  case (Cons x xs)
  obtain e t recs where p: "TimeEvent_poll (st x) = (e, t, recs)" by (metis prod_cases3)
  let ?st = "st(x := t)" and ?k = "log recs k"
  show ?case
  proof (cases e)
    case None
    have "\<forall>(t, s)\<in>set (expired xs ?st). known t ?k" "tick_bucket post log pl xs ?st ?k = Some res"
      using Cons.prems(2,3) p None log_ok(2) by simp_all
    from Cons.IH [OF log_ok(1) [OF Cons.prems(1)] this] p show ?thesis by (simp del: fun_upd_apply)
  next
    case (Some y)
    obtain tg sg where y: "y = (tg, sg)" by fastforce
    have kn: "known tg ?k" using Cons.prems(2) p Some y log_ok(2) by simp
    from Cons.prems(3) p Some y obtain r where r: "post tg (Event_new sg pl) ?k = Some r"
      by (cases "post tg (Event_new sg pl) ?k") simp_all
    obtain k' where k': "r = Inr (Inr (), k')" "ok k'" "\<forall>s. known s k' = known s ?k"
      using post_known [OF log_ok(1) [OF Cons.prems(1)] kn r] by blast
    have "tick_bucket post log pl xs ?st k' = Some res" using Cons.prems(3) p Some y r k'(1) by simp
    moreover have "\<forall>(t, s)\<in>set (expired xs ?st). known t k'"
      using Cons.prems(2) p Some y k'(3) log_ok(2) by auto
    ultimately show ?thesis using Cons.IH [OF k'(2)] p by (simp del: fun_upd_apply)
  qed
qed auto

lemma tick_stops_at_unknown:
  assumes "ok k" "TimeEvent_poll (st x) = (Some (t, s), te, recs)" "\<not> known t k"
  shows "\<exists>err. tick_bucket post log pl (x # xs) st k = Some (Inr (Inl err, st(x := te), log recs k))"
proof -
  have "\<not> known t (log recs k)" using assms(3) log_ok(2) by simp
  then obtain err where "post t (Event_new s pl) (log recs k) = Some (Inr (Inl err, log recs k))"
    using post_unknown [OF log_ok(1) [OF assms(1)]] by blast
  with assms(2) show ?thesis by simp
qed

end

locale queueing_target = expiry_target post log ok known
  for post :: "u8 \<Rightarrow> 'p Event \<Rightarrow> 'k \<Rightarrow> (('err + unit) \<times> 'k) result option"
    and log :: "trace_rec list \<Rightarrow> 'k \<Rightarrow> 'k" and ok :: "'k \<Rightarrow> bool" and known :: "u8 \<Rightarrow> 'k \<Rightarrow> bool" +
  fixes pending :: "u8 \<Rightarrow> 'k \<Rightarrow> 'p Event list"
  assumes pending_post: "ok k \<Longrightarrow> known t k \<Longrightarrow> \<exists>k'. post t e k = Some (Inr (Inr (), k')) \<and>
      (\<forall>s. pending s k' = pending s k @ (if s = t then [e] else []))"
    and pending_log: "pending s (log r k) = pending s k"
begin

lemma tick_delivers:
  assumes "ok k" "\<forall>(t, s)\<in>set (expired xs st). known t k"
  shows "\<exists>k'. tick_bucket post log pl xs st k = Some (Inr (Inr (), poll_all xs st, k')) \<and>
    (\<forall>t. pending t k' = pending t k @
      map (\<lambda>(_, s). Event_new s pl) (filter (\<lambda>(t', _). t' = t) (expired xs st)))"
  using assms
proof (induction xs arbitrary: st k)
  case (Cons x xs)
  obtain e t recs where p: "TimeEvent_poll (st x) = (e, t, recs)" by (metis prod_cases3)
  let ?st = "st(x := t)" and ?k = "log recs k"
  show ?case
  proof (cases e)
    case None
    have "\<forall>(t, s)\<in>set (expired xs ?st). known t ?k" using Cons.prems(2) p None log_ok(2) by simp
    from Cons.IH [OF log_ok(1) [OF Cons.prems(1)] this] p None pending_log show ?thesis
      by (simp del: fun_upd_apply)
  next
    case (Some y)
    obtain tg sg where y: "y = (tg, sg)" by fastforce
    have kn: "known tg ?k" using Cons.prems(2) p Some y log_ok(2) by simp
    note ok = log_ok(1) [OF Cons.prems(1)]
    obtain k' where k': "post tg (Event_new sg pl) ?k = Some (Inr (Inr (), k'))"
      "\<forall>s. pending s k' = pending s ?k @ (if s = tg then [Event_new sg pl] else [])"
      using pending_post [OF ok kn] by blast
    have k'': "ok k'" "\<forall>s. known s k' = known s ?k" using post_known [OF ok kn k'(1)] by auto
    have "\<forall>(t, s)\<in>set (expired xs ?st). known t k'"
      using Cons.prems(2) p Some y k''(2) log_ok(2) by auto
    from Cons.IH [OF k''(1) this] obtain k2 where
      "tick_bucket post log pl xs ?st k' = Some (Inr (Inr (), poll_all xs ?st, k2))"
      "\<forall>t. pending t k2 = pending t k' @
        map (\<lambda>(_, s). Event_new s pl) (filter (\<lambda>(t', _). t' = t) (expired xs ?st))" by blast
    with p Some y k' pending_log show ?thesis by (auto simp del: fun_upd_apply)
  qed
qed simp

end

section \<open>Both kernels are targets\<close>

definition qv_pending :: "u8 \<Rightarrow> ('p, 'b) QvKernel \<Rightarrow> 'p Event list" where
  "qv_pending t k = (case k_by_id k t of None \<Rightarrow> [] | Some i \<Rightarrow> ao_events (k_objects k ! i))"

definition qk_ok :: "('p, 'b) QkBehavior \<Rightarrow> ('p, 'b) QkKernel \<Rightarrow> bool" where
  "qk_ok bh k \<longleftrightarrow> qk_inv [] k \<and>
     (\<forall>i b e. list_all (qk_call_ok (map_option ps_max_signal (qk_pubsub k))) (snd (on_event bh i b e)))"

lemma qv_log_ext: "qv_ext k (qv_log r k)"
  by (rule qv_ext_same_objects) (simp_all add: qv_log_def)

lemma qv_post_pending:
  assumes "QvKernel_inv k" "k_by_id k t = Some i"
  shows "\<exists>k'. QvKernel_post t e k = Inr (Inr (), k') \<and> QvKernel_inv k' \<and> k_by_id k' = k_by_id k \<and>
    (\<forall>s. qv_pending s k' = qv_pending s k @ (if s = t then [e] else []))"
proof -
  have i: "i < length (k_objects k)" "ao_id (k_objects k ! i) = t" using assms by (auto simp: QvKernel_inv_def)
  obtain ao where ao: "ActiveObject_post None e (k_objects k ! i) = Inr ao"
    "ao_events ao = ao_events (k_objects k ! i) @ [e]"
    using ActiveObject_post_None by blast
  let ?k = "k\<lparr>k_objects := (k_objects k)[i := ao]\<rparr>"
  have p: "QvKernel_post t e k = Inr (Inr (), ?k)" using assms(2) ao(1) by (simp add: QvKernel_post_def)
  have "j \<noteq> i" if "k_by_id k s = Some j" "s \<noteq> t" for s j
    using assms(1) i(2) that by (auto simp: QvKernel_inv_def)
  then have "qv_pending s ?k = qv_pending s k @ (if s = t then [e] else [])" for s
    using assms(2) i(1) ao(2)
    by (cases "s = t") (fastforce simp: qv_pending_def split: option.splits)+
  moreover have "QvKernel_inv ?k" using QvKernel_post_spec(1) [OF assms(1) p] assms(1) qv_ext_inv by blast
  ultimately show ?thesis using p by auto
qed

interpretation qvw: queueing_target "\<lambda>t e k. Some (QvKernel_post t e k)" qv_log QvKernel_inv
  "\<lambda>t k. k_by_id k t \<noteq> None" qv_pending
proof
  fix k :: "('p, 'b) QvKernel" and t e r s
  show "QvKernel_inv k \<Longrightarrow> k_by_id k t \<noteq> None \<Longrightarrow> Some (QvKernel_post t e k) = Some r \<Longrightarrow>
    \<exists>k'. r = Inr (Inr (), k') \<and> QvKernel_inv k' \<and> (\<forall>s. (k_by_id k' s \<noteq> None) = (k_by_id k s \<noteq> None))"
    using qv_post_pending [of k t _ e] by fastforce
  show "QvKernel_inv k \<Longrightarrow> \<not> k_by_id k t \<noteq> None \<Longrightarrow> \<exists>err. Some (QvKernel_post t e k) = Some (Inr (Inl err, k))"
    by (simp add: QvKernel_post_def)
  show "QvKernel_inv k \<Longrightarrow> k_by_id k t \<noteq> None \<Longrightarrow> \<exists>k'. Some (QvKernel_post t e k) = Some (Inr (Inr (), k')) \<and>
      (\<forall>s. qv_pending s k' = qv_pending s k @ (if s = t then [e] else []))"
    using qv_post_pending [of k t _ e] by fastforce
next
  fix k :: "('p, 'b) QvKernel" and r s
  show "QvKernel_inv k \<Longrightarrow> QvKernel_inv (qv_log r k)" using qv_ext_inv [OF qv_log_ext] .
  show "(k_by_id (qv_log r k) s \<noteq> None) = (k_by_id k s \<noteq> None)" by (simp add: qv_log_def)
  show "qv_pending s (qv_log r k) = qv_pending s k" by (simp add: qv_pending_def qv_log_def split: option.splits)
qed

lemma qk_post_and_run_known:
  assumes "qk_ok bh k" "qk_id_to_prio k t = Some p" "QkKernel_post_and_run n bh t e k = Some res"
  shows "\<exists>k'. res = Inr (Inr (), k') \<and> qk_ok bh k' \<and> qk_id_to_prio k' = qk_id_to_prio k"
proof -
  have i: "qk_wf k" "qk_ready_ok (set []) k" "qk_active_ok [] k" using assms(1) by (simp_all add: qk_ok_def qk_inv_def)
  obtain r k1 where k1: "QkKernel_post t e k = Inr (r, k1)" "qk_wf k1" "qk_ready_ok (set []) k1" "qk_frame k k1"
    using QkKernel_post_ok [OF i(1,2), of t e "\<lambda>_. 0"] by blast
  have r: "r = Inr ()" using k1(1) assms(2) by (auto simp: QkKernel_post_def res_simps)
  have i1: "qk_inv [] k1" using k1 qk_active_ok_frame [OF k1(4) i(3)] by (simp add: qk_inv_def)
  let ?ms = "map_option ps_max_signal (qk_pubsub k1)"
  have "?ms = map_option ps_max_signal (qk_pubsub k)" using k1(4) by (simp add: qk_frame_def)
  then have bh: "qk_bh_ok True (\<lambda>_. 0) ?ms bh" using assms(1) by (simp add: qk_bh_ok_def qk_ok_def)
  from run_with_ok [OF activate_ok [OF bh, of n] i1 refl, of n] assms(3) k1(1) r
  obtain k2 where k2: "res = Inr (Inr (), k2)" "qk_inv [] k2" "qk_frame k1 k2"
    by (auto simp: QkKernel_post_and_run_def post_and_run_with_def okres_def qk_ret_def orbind_Some_iff
        split: option.splits sum.splits)
  with qk_frame_trans [OF k1(4) k2(3)] assms(1) show ?thesis by (simp add: qk_ok_def qk_frame_def)
qed

interpretation qkw: expiry_target "QkKernel_post_and_run n bh" qk_log "qk_ok bh" "\<lambda>t k. qk_id_to_prio k t \<noteq> None"
  for n bh
proof
  fix k :: "('a, 'b) QkKernel" and t e r
  show "qk_ok bh k \<Longrightarrow> qk_id_to_prio k t \<noteq> None \<Longrightarrow> QkKernel_post_and_run n bh t e k = Some r \<Longrightarrow>
    \<exists>k'. r = Inr (Inr (), k') \<and> qk_ok bh k' \<and> (\<forall>s. (qk_id_to_prio k' s \<noteq> None) = (qk_id_to_prio k s \<noteq> None))"
    using qk_post_and_run_known by fastforce
  show "qk_ok bh k \<Longrightarrow> \<not> qk_id_to_prio k t \<noteq> None \<Longrightarrow>
    \<exists>err. QkKernel_post_and_run n bh t e k = Some (Inr (Inl err, k))"
    by (simp add: QkKernel_post_and_run_def post_and_run_with_def QkKernel_post_def)
next
  fix k :: "('a, 'b) QkKernel" and r s
  show "qk_ok bh k \<Longrightarrow> qk_ok bh (qk_log r k)"
    using qk_sched_update_ret [of "[]" k "(qk_sched k)\<lparr>sc_trace := map_option (\<lambda>l. l @ r) (sc_trace (qk_sched k))\<rparr>"
        True "\<lambda>_. 0"]
    by (simp add: qk_ok_def qk_ret_def qk_log_def)
  show "(qk_id_to_prio (qk_log r k) s \<noteq> None) = (qk_id_to_prio k s \<noteq> None)" by (simp add: qk_log_def)
qed

section \<open>Properties\<close>

text \<open>
  C33: (expiry schedule) After \<open>arm n interval\<close> the time event expires at the polls a reference
  schedule names: a one-shot event exactly at poll \<open>max 1 n\<close> and never again, a periodic one at
  poll \<open>max 1 n\<close> and then every \<open>max 1 period\<close> polls; a timeout or period of zero counts as one.
\<close>

theorem TimeEvent_arm_schedule:
  "polls m (fst (TimeEvent_arm n interval t)) =
   map (\<lambda>j. fires_at (unat n) (map_option unat interval) (Suc j)) [0..<m]"
  using polls_armed [of "fst (TimeEvent_arm n interval t)" m] by (simp add: TimeEvent_arm_def Let_def)

text \<open>
  C34: (tick delivery) A tick of the cooperative wheel whose expiring events all have registered
  targets succeeds, advances every event of the rate by exactly one poll, and appends to each
  object's queue exactly the expired events aimed at it, in registration order.
\<close>

theorem TimerWheel_tick_delivers:
  assumes "QvKernel_inv k" "unat rate < length (tw_events w)"
    "\<forall>(t, s)\<in>set (expired (tw_events w ! unat rate) st). k_by_id k t \<noteq> None"
  shows "\<exists>k'. TimerWheel_tick_rate pl rate w st k =
      Some (Inr (Inr (), poll_all (tw_events w ! unat rate) st, k')) \<and>
    (\<forall>t. qv_pending t k' = qv_pending t k @
      map (\<lambda>(_, s). Event_new s pl) (filter (\<lambda>(t', _). t' = t) (expired (tw_events w ! unat rate) st)))"
  using qvw.tick_delivers [OF assms(1,3), of pl] assms(2) by (simp add: TimerWheel_tick_rate_def)

text \<open>
  (aborted tick) When an expiring event's target is not registered, the tick returns the error
  at once: the events registered after it in the bucket are not advanced at all by that tick, so
  they run one tick late.
\<close>

theorem TimerWheel_tick_aborts:
  assumes "QvKernel_inv k" "unat rate < length (tw_events w)" "tw_events w ! unat rate = x # xs"
    "TimeEvent_poll (st x) = (Some (t, s), te, recs)" "k_by_id k t = None"
  shows "\<exists>err k'. TimerWheel_tick_rate pl rate w st k = Some (Inr (Inl err, st(x := te), k')) \<and>
    (\<forall>y. y \<noteq> x \<longrightarrow> (st(x := te)) y = st y) \<and> (\<forall>t. qv_pending t k' = qv_pending t k)"
proof -
  from qvw.tick_stops_at_unknown [of k st x t s te recs pl xs, OF assms(1,4)] assms(5)
  obtain err where "tick_bucket (\<lambda>t e k. Some (QvKernel_post t e k)) qv_log pl (x # xs) st k =
      Some (Inr (Inl err, st(x := te), qv_log recs k))" by auto
  with assms(2,3) qvw.pending_log [of _ recs k] show ?thesis by (simp add: TimerWheel_tick_rate_def)
qed

text \<open>
  C: (preemptive tick) A tick of the preemptive wheel with registered targets, if the handlers it
  runs return, succeeds, advances every event of the rate by exactly one poll and leaves the
  kernel well formed.
\<close>

theorem QkTimerWheel_tick_ok:
  assumes "qk_ok bh k" "unat rate < length (tw_events w)"
    "\<forall>(t, s)\<in>set (expired (tw_events w ! unat rate) st). qk_id_to_prio k t \<noteq> None"
    "QkTimerWheel_tick_rate n bh pl rate w st k = Some res"
  shows "\<exists>k'. res = Inr (Inr (), poll_all (tw_events w ! unat rate) st, k') \<and> qk_ok bh k'"
  using qkw.tick_all [OF assms(1,3), of n pl res] assms(2,4) by (simp add: QkTimerWheel_tick_rate_def)

section \<open>Witnesses\<close>

lemma te_demo_poll: "\<exists>te. TimeEvent_poll (te_demo x) =
    (Some (if x = 0 then 2 else if x = 1 then 1 else 9, 7), te, [])"
  by (simp add: te_demo_def TimeEvent_arm_def TimeEvent_poll_def TimeEvent_new_def TimeEventConfig_new_def
      Let_def emit_auto_disarm_def emit_post_def TimeEvent_obtain_trace_def)

lemma te_demo_expired: "expired [0, 1] te_demo = [(2, 7), (1, 7)]"
  by (simp add: te_demo_def TimeEvent_arm_def TimeEvent_poll_def TimeEvent_new_def TimeEventConfig_new_def
      Let_def)

lemma demo_kernel_ids: "k_by_id demo_kernel 1 \<noteq> None" "k_by_id demo_kernel 2 \<noteq> None" "k_by_id demo_kernel 9 = None"
  by (simp_all add: demo_kernel_def QvKernel_new_def index_by_id_def demo_ao_def ActiveObject_new_def upt_conv_Cons)

lemma tw_demo_bucket [simp]: "tw_events (tw_demo xs) ! unat (0 :: u8) = xs" "unat (0 :: u8) < length (tw_events (tw_demo xs))"
  by (simp_all add: tw_demo_def)

theorem TimerWheel_tick_delivers_witness:
  "\<exists>k'. TimerWheel_tick_rate () 0 (tw_demo [0, 1]) te_demo demo_kernel =
      Some (Inr (Inr (), poll_all [0, 1] te_demo, k')) \<and>
    qv_pending 2 k' = qv_pending 2 demo_kernel @ [Event_new 7 ()]"
proof -
  have "\<forall>(t, s)\<in>set (expired (tw_events (tw_demo [0, 1]) ! unat (0 :: u8)) te_demo). k_by_id demo_kernel t \<noteq> None"
    unfolding tw_demo_bucket te_demo_expired using demo_kernel_ids by simp
  from TimerWheel_tick_delivers [OF demo_inv tw_demo_bucket(2) this, of "()"] obtain k' where
    "TimerWheel_tick_rate () 0 (tw_demo [0, 1]) te_demo demo_kernel = Some (Inr (Inr (), poll_all [0, 1] te_demo, k'))"
    "qv_pending 2 k' = qv_pending 2 demo_kernel @ [Event_new 7 ()]"
    unfolding tw_demo_bucket te_demo_expired by auto
  then show ?thesis by blast
qed

theorem TimerWheel_tick_aborts_witness:
  "\<exists>err k' te. TimerWheel_tick_rate () 0 (tw_demo [2, 0]) te_demo demo_kernel =
     Some (Inr (Inl err, te_demo(2 := te), k'))"
proof -
  obtain te where te: "TimeEvent_poll (te_demo 2) = (Some (9, 7), te, [])"
    using te_demo_poll [of 2] by auto
  from TimerWheel_tick_aborts [of demo_kernel 0 "tw_demo [2, 0]" 2 "[0]" te_demo,
      OF demo_inv tw_demo_bucket(2) tw_demo_bucket(1) te demo_kernel_ids(3), of "()"]
  show ?thesis by blast
qed

lemma qk_demo_ok: "qk_ok qk_demo_bh qk_demo_kernel"
  using qk_demo_inv qk_demo_id(2) by (simp add: qk_ok_def qk_demo_bh_ok)

lemma qk_demo_id2: "qk_id_to_prio qk_demo_kernel 2 = Some 5"
  by (simp add: qk_demo_kernel_def qk_demo_defs QkKernelBuilder_build_def QkKernel_new_def
      MAX_PRIORITY_def Let_def)

theorem QkTimerWheel_tick_ok_witness:
  "qk_ok qk_demo_bh qk_demo_kernel \<and>
   (\<forall>res. QkTimerWheel_tick_rate 9 qk_demo_bh () 0 (tw_demo [0, 1]) te_demo qk_demo_kernel = Some res \<longrightarrow>
      (\<exists>k'. res = Inr (Inr (), poll_all [0, 1] te_demo, k') \<and> qk_ok qk_demo_bh k'))"
proof -
  have "\<forall>(t, s)\<in>set (expired (tw_events (tw_demo [0, 1]) ! unat (0 :: u8)) te_demo). qk_id_to_prio qk_demo_kernel t \<noteq> None"
    unfolding tw_demo_bucket te_demo_expired using qk_demo_id(1) qk_demo_id2 by simp
  from QkTimerWheel_tick_ok [OF qk_demo_ok tw_demo_bucket(2) this, of 9 "()"] qk_demo_ok
  show ?thesis unfolding tw_demo_bucket by blast
qed

end
