(* ===== verification/StateTree.thy ===== *)
theory StateTree
  imports Active
begin

text \<open>
  What the two hierarchical state machine engines share: the reserved signals
  (\<open>crates/qf/src/hsm/common.rs\<close>), the trace records of the event processors
  (\<open>crates/qf/src/hsm/trace.rs\<close>), the search for the lowest common ancestor, and the
  reference semantics of a transition. The reference is a tree of states given by the direct
  superstate of each state; the active configuration is the chain of superstates of the current
  state, innermost first, and a sequence of exits and entries is meaningful when each exit
  leaves the innermost active state and each entry enters a direct substate of it.
\<close>

section \<open>Reserved signals and trace records\<close>

definition Q_EMPTY_SIG :: signal where "Q_EMPTY_SIG = 0"
definition Q_ENTRY_SIG :: signal where "Q_ENTRY_SIG = 1"
definition Q_EXIT_SIG :: signal where "Q_EXIT_SIG = 2"
definition Q_INIT_SIG :: signal where "Q_INIT_SIG = 3"

definition QS_QEP_STATE_ENTRY :: u8 where "QS_QEP_STATE_ENTRY = 1"
definition QS_QEP_STATE_EXIT :: u8 where "QS_QEP_STATE_EXIT = 2"
definition QS_QEP_STATE_INIT :: u8 where "QS_QEP_STATE_INIT = 3"
definition QS_QEP_INIT_TRAN :: u8 where "QS_QEP_INIT_TRAN = 4"
definition QS_QEP_INTERN_TRAN :: u8 where "QS_QEP_INTERN_TRAN = 5"
definition QS_QEP_TRAN :: u8 where "QS_QEP_TRAN = 6"
definition QS_QEP_IGNORED :: u8 where "QS_QEP_IGNORED = 7"
definition QS_QEP_DISPATCH :: u8 where "QS_QEP_DISPATCH = 8"
definition QS_QEP_TRAN_HIST :: u8 where "QS_QEP_TRAN_HIST = 55"

lemmas qep_records =
  QS_QEP_STATE_ENTRY_def QS_QEP_STATE_EXIT_def QS_QEP_STATE_INIT_def QS_QEP_INIT_TRAN_def
  QS_QEP_INTERN_TRAN_def QS_QEP_TRAN_def QS_QEP_IGNORED_def QS_QEP_DISPATCH_def
  QS_QEP_TRAN_HIST_def

text \<open>A state is identified by an address; \<open>usize\<close> is 64 bits wide.\<close>

definition emit_state_entry :: "u64 \<Rightarrow> trace \<Rightarrow> trace" where
  "emit_state_entry s = emit QS_QEP_STATE_ENTRY (le64 s) False"

definition emit_state_exit :: "u64 \<Rightarrow> trace \<Rightarrow> trace" where
  "emit_state_exit s = emit QS_QEP_STATE_EXIT (le64 s) False"

definition emit_state_init :: "u64 \<Rightarrow> trace \<Rightarrow> trace" where
  "emit_state_init s = emit QS_QEP_STATE_INIT (le64 s) False"

definition emit_init_tran :: "u64 \<Rightarrow> trace \<Rightarrow> trace" where
  "emit_init_tran s = emit QS_QEP_INIT_TRAN (le64 s) False"

definition emit_dispatch :: "signal \<Rightarrow> u64 \<Rightarrow> trace \<Rightarrow> trace" where
  "emit_dispatch sig s = emit QS_QEP_DISPATCH (le16 sig @ le64 s) True"

definition emit_intern_tran :: "signal \<Rightarrow> u64 \<Rightarrow> trace \<Rightarrow> trace" where
  "emit_intern_tran sig s = emit QS_QEP_INTERN_TRAN (le16 sig @ le64 s) True"

definition emit_ignored :: "signal \<Rightarrow> u64 \<Rightarrow> trace \<Rightarrow> trace" where
  "emit_ignored sig s = emit QS_QEP_IGNORED (le16 sig @ le64 s) True"

definition emit_tran :: "signal \<Rightarrow> u64 \<Rightarrow> u64 \<Rightarrow> trace \<Rightarrow> trace" where
  "emit_tran sig s t = emit QS_QEP_TRAN (le16 sig @ le64 s @ le64 t) True"

definition emit_tran_hist :: "signal \<Rightarrow> u64 \<Rightarrow> u64 \<Rightarrow> trace \<Rightarrow> trace" where
  "emit_tran_hist sig s t = emit QS_QEP_TRAN_HIST (le16 sig @ le64 s @ le64 t) True"

lemmas emit_defs =
  emit_state_entry_def emit_state_exit_def emit_state_init_def emit_init_tran_def
  emit_dispatch_def emit_intern_tran_def emit_ignored_def emit_tran_def emit_tran_hist_def

section \<open>Lowest common ancestor of two paths\<close>

text \<open>
  Both engines scan the first path against the second and stop at the first state they share.
  The entry chain is the part of the target's path before the common ancestor, the whole path
  when there is none.
\<close>

fun first_common :: "u64 list \<Rightarrow> u64 list \<Rightarrow> u64 option" where
  "first_common [] ys = None"
| "first_common (a # xs) ys = (if a \<in> set ys then Some a else first_common xs ys)"

definition before :: "u64 option \<Rightarrow> u64 list \<Rightarrow> u64 list" where
  "before l xs = (case l of None \<Rightarrow> xs | Some a \<Rightarrow> takeWhile (\<lambda>t. t \<noteq> a) xs)"

section \<open>Reference: configurations of a state tree\<close>

type_synonym state_up = "u64 \<Rightarrow> u64 option"

definition tree :: "state_up \<Rightarrow> (u64 \<Rightarrow> nat) \<Rightarrow> bool" where
  "tree up rank \<longleftrightarrow> (\<forall>s p. up s = Some p \<longrightarrow> rank p < rank s)"

primrec chain :: "state_up \<Rightarrow> nat \<Rightarrow> u64 \<Rightarrow> u64 list" where
  "chain up 0 s = [s]"
| "chain up (Suc n) s = s # (case up s of None \<Rightarrow> [] | Some p \<Rightarrow> chain up n p)"

definition anc :: "state_up \<Rightarrow> (u64 \<Rightarrow> nat) \<Rightarrow> u64 \<Rightarrow> u64 list" where
  "anc up rank s = chain up (rank s) s"

datatype act = Enter u64 | Exit u64

fun replay :: "state_up \<Rightarrow> act list \<Rightarrow> u64 list \<Rightarrow> u64 list option" where
  "replay up [] conf = Some conf"
| "replay up (Exit s # as) [] = None"
| "replay up (Exit s # as) (c # conf) = (if c = s then replay up as conf else None)"
| "replay up (Enter s # as) conf =
     (if up s = (case conf of [] \<Rightarrow> None | c # _ \<Rightarrow> Some c) then replay up as (s # conf) else None)"

text \<open>The exits and entries a trace log reports.\<close>

definition acts_of_rec :: "trace_rec \<Rightarrow> act list" where
  "acts_of_rec r = (case r of (i, p, _) \<Rightarrow>
     if i = QS_QEP_STATE_ENTRY then [Enter (of_le p)]
     else if i = QS_QEP_STATE_EXIT then [Exit (of_le p)] else [])"

definition acts_of :: "trace_rec list \<Rightarrow> act list" where
  "acts_of log = concat (map acts_of_rec log)"

section \<open>Lemmas\<close>

lemma chain_stable: "tree up rank \<Longrightarrow> rank s \<le> n \<Longrightarrow> chain up n s = chain up (rank s) s"
proof (induction n arbitrary: s rule: less_induct)
  case (less n)
  show ?case
  proof (cases "up s")
    case None
    then show ?thesis by (cases n; cases "rank s") auto
  next
    case (Some p)
    with less.prems have r: "rank p < rank s" by (auto simp: tree_def)
    then obtain k where k: "rank s = Suc k" by (cases "rank s") auto
    with less.prems obtain j where j: "n = Suc j" "k \<le> j" by (cases n) auto
    have "chain up j p = chain up (rank p) p" using less.IH [of j p] less.prems(1) j r k by auto
    moreover have "chain up k p = chain up (rank p) p"
      using less.IH [of k p] less.prems(1) j r k by auto
    ultimately show ?thesis using Some k j by simp
  qed
qed

lemma anc_unfold:
  assumes "tree up rank"
  shows "anc up rank s = s # (case up s of None \<Rightarrow> [] | Some p \<Rightarrow> anc up rank p)"
proof (cases "up s")
  case None
  then show ?thesis by (cases "rank s") (auto simp: anc_def)
next
  case (Some p)
  with assms have r: "rank p < rank s" by (auto simp: tree_def)
  then obtain k where k: "rank s = Suc k" by (cases "rank s") auto
  with r have "chain up k p = chain up (rank p) p" using chain_stable [OF assms, of p k] by simp
  with Some k show ?thesis by (simp add: anc_def)
qed

lemma anc_Cons:
  assumes "tree up rank"
  obtains xs where "anc up rank s = s # xs"
  using anc_unfold [OF assms, of s] by blast

lemma anc_self [simp]:
  assumes "tree up rank"
  shows "s \<in> set (anc up rank s)"
  using anc_unfold [OF assms, of s] by simp

lemma anc_rank: "tree up rank \<Longrightarrow> t \<in> set (anc up rank s) \<Longrightarrow> t = s \<or> rank t < rank s"
proof (induction "rank s" arbitrary: s rule: less_induct)
  case less
  show ?case
  proof (cases "up s")
    case None
    then show ?thesis using less.prems(2) anc_unfold [OF less.prems(1), of s] by simp
  next
    case (Some p)
    with less.prems have "rank p < rank s" by (auto simp: tree_def)
    then show ?thesis
      using less.hyps [of p] less.prems anc_unfold [OF less.prems(1), of s] Some by fastforce
  qed
qed

lemma anc_split:
  assumes "tree up rank" "t \<in> set (anc up rank s)"
  shows "anc up rank s = takeWhile (\<lambda>x. x \<noteq> t) (anc up rank s) @ anc up rank t"
  using assms
proof (induction "rank s" arbitrary: s rule: less_induct)
  case less
  show ?case
  proof (cases "t = s")
    case True
    then show ?thesis using anc_unfold [OF less.prems(1), of s] by simp
  next
    case False
    then obtain p where p: "up s = Some p" "t \<in> set (anc up rank p)"
      using less.prems anc_unfold [OF less.prems(1), of s] by (cases "up s") auto
    then have "rank p < rank s" using less.prems by (auto simp: tree_def)
    from less.hyps [OF this less.prems(1) p(2)] p(1) False show ?thesis
      using anc_unfold [OF less.prems(1), of s] by simp
  qed
qed

lemma anc_trans:
  "tree up rank \<Longrightarrow> t \<in> set (anc up rank s) \<Longrightarrow> u \<in> set (anc up rank t) \<Longrightarrow> u \<in> set (anc up rank s)"
  by (subst anc_split [of up rank t s]) simp_all

lemma replay_append:
  "replay up (as @ bs) conf = Option.bind (replay up as conf) (replay up bs)"
  by (induction up as conf rule: replay.induct) auto

lemma replay_exits: "replay up (map Exit xs) (xs @ ys) = Some ys"
  by (induction xs) auto

text \<open>Leaving everything below \<open>l\<close>, from the chain of a state that has \<open>l\<close> as an ancestor.\<close>

definition conf_of :: "state_up \<Rightarrow> (u64 \<Rightarrow> nat) \<Rightarrow> u64 option \<Rightarrow> u64 list" where
  "conf_of up rank l = (case l of None \<Rightarrow> [] | Some s \<Rightarrow> anc up rank s)"

lemma replay_exit_chain:
  assumes "tree up rank" "\<And>a. l = Some a \<Longrightarrow> a \<in> set (anc up rank s)"
  shows "replay up (map Exit (before l (anc up rank s))) (anc up rank s) = Some (conf_of up rank l)"
proof (cases l)
  case None
  then show ?thesis using replay_exits [of up "anc up rank s" "[]"] by (simp add: before_def conf_of_def)
next
  case (Some a)
  with assms anc_split have "anc up rank s = before l (anc up rank s) @ conf_of up rank l"
    by (simp add: before_def conf_of_def)
  then show ?thesis using replay_exits [of up "before l (anc up rank s)" "conf_of up rank l"] by simp
qed

lemma replay_entries:
  assumes "tree up rank" "anc up rank t = xs @ conf_of up rank l" "conf_of up rank l = [] \<Longrightarrow> l = None"
  shows "replay up (map Enter (rev xs)) (conf_of up rank l) = Some (anc up rank t)"
  using assms
proof (induction xs arbitrary: t)
  case Nil
  then show ?case by simp
next
  case (Cons x xs)
  from Cons.prems(1,2) have x: "x = t" and tl: "xs @ conf_of up rank l = (case up t of None \<Rightarrow> [] | Some p \<Rightarrow> anc up rank p)"
    using anc_unfold [OF Cons.prems(1), of t] by auto
  show ?case
  proof (cases "up t")
    case None
    then show ?thesis using tl x Cons.prems by (auto simp: conf_of_def split: option.splits)
  next
    case (Some p)
    then have "replay up (map Enter (rev xs)) (conf_of up rank l) = Some (anc up rank p)"
      using Cons.IH [of p] Cons.prems tl by simp
    moreover obtain ys where "anc up rank p = p # ys" using anc_Cons [OF Cons.prems(1)] by blast
    then have "(case anc up rank p of [] \<Rightarrow> None | c # _ \<Rightarrow> Some c) = Some p" by simp
    ultimately show ?thesis using Some tl x Cons.prems(2) by (simp add: replay_append)
  qed
qed

lemma replay_entry_chain:
  assumes "tree up rank" "\<And>a. l = Some a \<Longrightarrow> a \<in> set (anc up rank t)"
  shows "replay up (map Enter (rev (before l (anc up rank t)))) (conf_of up rank l) = Some (anc up rank t)"
proof (rule replay_entries [OF assms(1)])
  show "anc up rank t = before l (anc up rank t) @ conf_of up rank l"
    using assms anc_split by (auto simp: before_def conf_of_def split: option.splits)
  show "conf_of up rank l = [] \<Longrightarrow> l = None"
    using anc_unfold [OF assms(1)] by (auto simp: conf_of_def split: option.splits)
qed

lemma first_common_SomeD: "first_common xs ys = Some a \<Longrightarrow> a \<in> set xs \<and> a \<in> set ys"
  by (induction xs) (auto split: if_splits)

lemma first_common_None_iff: "first_common xs ys = None \<longleftrightarrow> set xs \<inter> set ys = {}"
  by (induction xs) auto

lemma before_Some_notin: "a \<notin> set xs \<Longrightarrow> before (Some a) xs = xs"
  by (induction xs) (auto simp: before_def)

lemma acts_of_simps [simp]:
  "acts_of [] = []" "acts_of (r # rs) = acts_of_rec r @ acts_of rs" "acts_of (xs @ ys) = acts_of xs @ acts_of ys"
  by (simp_all add: acts_of_def)

lemma acts_of_enters [simp]: "acts_of (map (\<lambda>s. (QS_QEP_STATE_ENTRY, le64 s, False)) xs) = map Enter xs"
  by (induction xs) (simp_all add: acts_of_rec_def)

lemma acts_of_exits [simp]: "acts_of (map (\<lambda>s. (QS_QEP_STATE_EXIT, le64 s, False)) xs) = map Exit xs"
  by (induction xs) (simp_all add: acts_of_rec_def qep_records)

lemma acts_of_rec_none [simp]:
  "acts_of_rec (QS_QEP_STATE_INIT, p, ts) = []" "acts_of_rec (QS_QEP_INIT_TRAN, p, ts) = []"
  "acts_of_rec (QS_QEP_INTERN_TRAN, p, ts) = []" "acts_of_rec (QS_QEP_TRAN, p, ts) = []"
  "acts_of_rec (QS_QEP_IGNORED, p, ts) = []" "acts_of_rec (QS_QEP_DISPATCH, p, ts) = []"
  "acts_of_rec (QS_QEP_TRAN_HIST, p, ts) = []"
  by (simp_all add: acts_of_rec_def qep_records)

end
