(* ===== verification/QHsm.thy ===== *)
theory QHsm
  imports StateTree
begin

text \<open>
  The code-based hierarchical state machine, \<open>crates/qf/src/hsm/qhsm.rs\<close>. State handlers are
  application code: a handler maps the machine's data and an event to a result and new data, and
  is a parameter indexed by its address. The top state is the framework's own handler. Loops that
  follow what handlers return (bubbling, exiting, nested initial transitions) need not end, and
  are partial functions.
\<close>

section \<open>Model\<close>

definition MAX_NEST_DEPTH :: nat where "MAX_NEST_DEPTH = 6"

datatype QHsmResult = Handled | Super u64 | Tran u64 | TranHist u64 | Ignored | Unhandled

text \<open>
  The application: the address of \<open>top_state\<close>, the handlers by address, and the unit payload of
  \<open>Event::empty_dyn\<close>.
\<close>

record ('s, 'p) hsm_code =
  hc_top :: u64
  hc_handler :: "u64 \<Rightarrow> 's \<Rightarrow> 'p Event \<Rightarrow> QHsmResult \<times> 's"
  hc_unit :: 'p

record ('s, 'p) QHsm =
  hs_state :: "u64 dup"
  hs_temp :: "'s \<Rightarrow> 'p Event \<Rightarrow> QHsmResult \<times> 's"
  hs_sm :: 's
  hs_history :: "u64 \<rightharpoonup> u64"

text \<open>The initial pseudo-state is only called, never compared, so it is the handler itself.\<close>

type_synonym ('s, 'p) hsm_run = "('s, 'p) QHsm \<times> trace"

definition top_state :: "'s \<Rightarrow> 'p Event \<Rightarrow> QHsmResult \<times> 's" where
  "top_state sm e = (Ignored, sm)"

definition call_state :: "('s, 'p) hsm_code \<Rightarrow> u64 \<Rightarrow> 's \<Rightarrow> 'p Event \<Rightarrow> QHsmResult \<times> 's" where
  "call_state c s = (if s = hc_top c then top_state else hc_handler c s)"

definition reserved_event :: "('s, 'p) hsm_code \<Rightarrow> signal \<Rightarrow> 'p Event" where
  "reserved_event c sig = Event_new sig (hc_unit c)"

definition QHsm_new ::
    "('s, 'p) hsm_code \<Rightarrow> 's \<Rightarrow> ('s \<Rightarrow> 'p Event \<Rightarrow> QHsmResult \<times> 's) \<Rightarrow> ('s, 'p) QHsm" where
  "QHsm_new c sm initial =
     \<lparr>hs_state = Dup_new (hc_top c), hs_temp = initial, hs_sm = sm, hs_history = Map.empty\<rparr>"

definition QHsm_get_super :: "('s, 'p) hsm_code \<Rightarrow> u64 \<Rightarrow> 's \<Rightarrow> u64 \<times> 's" where
  "QHsm_get_super c s sm =
     (case call_state c s sm (reserved_event c Q_EMPTY_SIG) of
        (Super parent, sm') \<Rightarrow> (parent, sm')
      | (_, sm') \<Rightarrow> (hc_top c, sm'))"

definition QHsm_call_entry :: "('s, 'p) hsm_code \<Rightarrow> u64 \<Rightarrow> 's \<Rightarrow> 's" where
  "QHsm_call_entry c s sm = snd (call_state c s sm (reserved_event c Q_ENTRY_SIG))"

definition QHsm_call_exit :: "('s, 'p) hsm_code \<Rightarrow> u64 \<Rightarrow> 's \<Rightarrow> 's" where
  "QHsm_call_exit c s sm = snd (call_state c s sm (reserved_event c Q_EXIT_SIG))"

text \<open>The path stops before the top state, or when the array of \<open>MAX_NEST_DEPTH\<close> states is full.\<close>

primrec path_up :: "('s, 'p) hsm_code \<Rightarrow> nat \<Rightarrow> u64 \<Rightarrow> 's \<Rightarrow> u64 list \<times> 's" where
  "path_up c 0 cur sm = ([], sm)"
| "path_up c (Suc n) cur sm =
     (if cur = hc_top c then ([], sm)
      else let (parent, sm1) = QHsm_get_super c cur sm; (rest, sm2) = path_up c n parent sm1
           in (cur # rest, sm2))"

definition QHsm_path_to_top :: "('s, 'p) hsm_code \<Rightarrow> u64 \<Rightarrow> 's \<Rightarrow> u64 list \<times> 's" where
  "QHsm_path_to_top c s sm = path_up c MAX_NEST_DEPTH s sm"

definition QHsm_find_lca :: "('s, 'p) hsm_code \<Rightarrow> u64 list \<Rightarrow> u64 list \<Rightarrow> u64" where
  "QHsm_find_lca c p1 p2 = (case first_common p1 p2 of Some a \<Rightarrow> a | None \<Rightarrow> hc_top c)"

text \<open>Enters the states of a path, outermost first.\<close>

definition enter_path :: "('s, 'p) hsm_code \<Rightarrow> u64 list \<Rightarrow> 's \<times> trace \<Rightarrow> 's \<times> trace" where
  "enter_path c path = fold (\<lambda>s (sm, tr). (QHsm_call_entry c s sm, emit_state_entry s tr)) (rev path)"

partial_function (option) exit_loop ::
    "('s, 'p) hsm_code \<Rightarrow> u64 \<Rightarrow> u64 \<Rightarrow> ('s, 'p) hsm_run \<Rightarrow> ('s, 'p) hsm_run option" where
  "exit_loop c lca s r =
     (if s = lca then Some r
      else let (m, tr) = r; (parent, sm1) = QHsm_get_super c s (hs_sm m);
               hist = (if parent = hc_top c then hs_history m else (hs_history m)(parent \<mapsto> s));
               r' = (m\<lparr>hs_sm := QHsm_call_exit c s sm1, hs_history := hist\<rparr>, emit_state_exit s tr)
           in if parent = hc_top c then Some r' else exit_loop c lca parent r')"

partial_function (option) QHsm_handle_nested_init ::
    "('s, 'p) hsm_code \<Rightarrow> ('s, 'p) hsm_run \<Rightarrow> ('s, 'p) hsm_run result option" where
  "QHsm_handle_nested_init c r =
     (case Dup_get (hs_state (fst r)) of
        Inl f \<Rightarrow> Some (Inl f)
      | Inr cur \<Rightarrow>
          (case call_state c cur (hs_sm (fst r)) (reserved_event c Q_INIT_SIG) of (res, sm1) \<Rightarrow>
            (case res of
               Tran next \<Rightarrow>
                 let (path, sm2) = QHsm_path_to_top c next sm1;
                     (sm3, tr1) = enter_path c (takeWhile (\<lambda>t. t \<noteq> cur) path) (sm2, snd r)
                 in QHsm_handle_nested_init c
                      ((fst r)\<lparr>hs_sm := sm3, hs_state := Dup_set next (hs_state (fst r))\<rparr>,
                       emit_state_init cur tr1)
             | _ \<Rightarrow> Some (Inr ((fst r)\<lparr>hs_sm := sm1\<rparr>, snd r)))))"

definition QHsm_execute_tran ::
    "('s, 'p) hsm_code \<Rightarrow> u64 \<Rightarrow> u64 \<Rightarrow> ('s, 'p) hsm_run \<Rightarrow> ('s, 'p) hsm_run result option" where
  "QHsm_execute_tran c source target r =
     (case Dup_get (hs_state (fst r)) of
        Inl f \<Rightarrow> Some (Inl f)
      | Inr current \<Rightarrow>
          let (target_path, sm1) = QHsm_path_to_top c target (hs_sm (fst r));
              (lca_source, sm2) = (if source = target then QHsm_get_super c source sm1 else (source, sm1));
              (lca_source_path, sm3) = QHsm_path_to_top c lca_source sm2;
              lca = QHsm_find_lca c lca_source_path target_path
          in case exit_loop c lca current ((fst r)\<lparr>hs_sm := sm3\<rparr>, snd r) of
               None \<Rightarrow> None
             | Some (m4, tr4) \<Rightarrow>
                 let (sm5, tr5) = enter_path c (takeWhile (\<lambda>t. t \<noteq> lca) target_path) (hs_sm m4, tr4)
                 in QHsm_handle_nested_init c
                      (m4\<lparr>hs_sm := sm5, hs_state := Dup_set target (hs_state m4)\<rparr>, tr5))"

definition QHsm_init_traced ::
    "('s, 'p) hsm_code \<Rightarrow> ('s, 'p) hsm_run \<Rightarrow> ('s, 'p) hsm_run result option" where
  "QHsm_init_traced c r =
     (case hs_temp (fst r) (hs_sm (fst r)) (reserved_event c Q_INIT_SIG) of (res, sm1) \<Rightarrow>
       (case res of
          Tran target \<Rightarrow>
            let (path, sm2) = QHsm_path_to_top c target sm1;
                (sm3, tr1) = enter_path c path (sm2, snd r)
            in QHsm_handle_nested_init c
                 ((fst r)\<lparr>hs_sm := sm3, hs_state := Dup_set target (hs_state (fst r))\<rparr>,
                  emit_init_tran target tr1)
        | _ \<Rightarrow> Some (Inl OnError)))"

text \<open>Bubbling: the state whose handler does not defer to a superstate, and its result.\<close>

partial_function (option) bubble ::
    "('s, 'p) hsm_code \<Rightarrow> 'p Event \<Rightarrow> u64 \<Rightarrow> 's \<Rightarrow> (u64 \<times> QHsmResult \<times> 's) option" where
  "bubble c e s sm =
     (case call_state c s sm e of (res, sm1) \<Rightarrow>
       (case res of Super parent \<Rightarrow> bubble c e parent sm1 | _ \<Rightarrow> Some (s, res, sm1)))"

definition QHsm_dispatch_traced ::
    "('s, 'p) hsm_code \<Rightarrow> 'p Event \<Rightarrow> ('s, 'p) hsm_run \<Rightarrow> ('s, 'p) hsm_run result option" where
  "QHsm_dispatch_traced c e r =
     (case Dup_get (hs_state (fst r)) of
        Inl f \<Rightarrow> Some (Inl f)
      | Inr cur \<Rightarrow>
          let sig = Event_signal e; tr0 = emit_dispatch sig cur (snd r)
          in case bubble c e cur (hs_sm (fst r)) of
               None \<Rightarrow> None
             | Some (source, res, sm1) \<Rightarrow>
                 let m1 = (fst r)\<lparr>hs_sm := sm1\<rparr>
                 in (case res of
                       Handled \<Rightarrow> Some (Inr (m1, emit_intern_tran sig source tr0))
                     | Ignored \<Rightarrow> Some (Inr (m1, emit_ignored sig source tr0))
                     | Unhandled \<Rightarrow> Some (Inr (m1, emit_ignored sig source tr0))
                     | Tran target \<Rightarrow> QHsm_execute_tran c source target (m1, emit_tran sig source target tr0)
                     | TranHist parent \<Rightarrow>
                         let target = (case hs_history m1 parent of Some t \<Rightarrow> t | None \<Rightarrow> parent)
                         in QHsm_execute_tran c source target (m1, emit_tran_hist sig source target tr0)
                     | Super _ \<Rightarrow> Some (Inr (m1, tr0))))"

definition QHsm_init :: "('s, 'p) hsm_code \<Rightarrow> ('s, 'p) QHsm \<Rightarrow> ('s, 'p) QHsm result option" where
  "QHsm_init c m = map_option (\<lambda>r. rbind r (\<lambda>(m', _). Inr m')) (QHsm_init_traced c (m, None))"

definition QHsm_dispatch :: "('s, 'p) hsm_code \<Rightarrow> 'p Event \<Rightarrow> ('s, 'p) QHsm \<Rightarrow> ('s, 'p) QHsm result option" where
  "QHsm_dispatch c e m =
     map_option (\<lambda>r. rbind r (\<lambda>(m', _). Inr m')) (QHsm_dispatch_traced c e (m, None))"

partial_function (option) is_in_loop ::
    "('s, 'p) hsm_code \<Rightarrow> u64 \<Rightarrow> u64 \<Rightarrow> 's \<Rightarrow> (bool \<times> 's) option" where
  "is_in_loop c st cur sm =
     (if cur = st then Some (True, sm)
      else if cur = hc_top c then Some (False, sm)
      else case QHsm_get_super c cur sm of (parent, sm1) \<Rightarrow> is_in_loop c st parent sm1)"

definition QHsm_is_in :: "('s, 'p) hsm_code \<Rightarrow> u64 \<Rightarrow> ('s, 'p) QHsm \<Rightarrow> (bool \<times> ('s, 'p) QHsm) result option" where
  "QHsm_is_in c st m =
     (case Dup_get (hs_state m) of
        Inl f \<Rightarrow> Some (Inl f)
      | Inr cur \<Rightarrow> map_option (\<lambda>(b, sm). Inr (b, m\<lparr>hs_sm := sm\<rparr>)) (is_in_loop c st cur (hs_sm m)))"

definition QHsm_state_handler :: "('s, 'p) QHsm \<Rightarrow> u64 result" where
  "QHsm_state_handler m = Dup_get (hs_state m)"

declare exit_loop.simps [code] QHsm_handle_nested_init.simps [code] bubble.simps [code] is_in_loop.simps [code]

section \<open>Well-formed applications and reference transitions\<close>

text \<open>
  The contract of application handlers: every state answers the empty signal with its direct
  superstate and without touching the data, defers unhandled events to that superstate only, its
  nested initial transition goes to a proper substate, and no chain of states is longer than
  \<open>MAX_NEST_DEPTH\<close>. Entry, exit and event handlers are otherwise arbitrary.
\<close>

definition super_of :: "('s, 'p) hsm_code \<Rightarrow> state_up \<Rightarrow> u64 \<Rightarrow> u64" where
  "super_of c up s = (case up s of Some p \<Rightarrow> p | None \<Rightarrow> hc_top c)"

definition state_opt :: "('s, 'p) hsm_code \<Rightarrow> u64 \<Rightarrow> u64 option" where
  "state_opt c s = (if s = hc_top c then None else Some s)"

definition conf :: "('s, 'p) hsm_code \<Rightarrow> state_up \<Rightarrow> (u64 \<Rightarrow> nat) \<Rightarrow> u64 \<Rightarrow> u64 list" where
  "conf c up rank s = conf_of up rank (state_opt c s)"

definition hsm_tree :: "('s, 'p) hsm_code \<Rightarrow> state_up \<Rightarrow> (u64 \<Rightarrow> nat) \<Rightarrow> bool" where
  "hsm_tree c up rank \<longleftrightarrow> tree up rank \<and> up (hc_top c) = None \<and> (\<forall>s. up s \<noteq> Some (hc_top c)) \<and>
     (\<forall>s sm. s \<noteq> hc_top c \<longrightarrow>
        hc_handler c s sm (reserved_event c Q_EMPTY_SIG) = (Super (super_of c up s), sm))"

definition hsm_wf :: "('s, 'p) hsm_code \<Rightarrow> state_up \<Rightarrow> (u64 \<Rightarrow> nat) \<Rightarrow> bool" where
  "hsm_wf c up rank \<longleftrightarrow> hsm_tree c up rank \<and>
     (\<forall>s. length (conf c up rank s) \<le> MAX_NEST_DEPTH) \<and>
     (\<forall>s sm e t sm'. s \<noteq> hc_top c \<longrightarrow> hc_handler c s sm e = (Super t, sm') \<longrightarrow> t = super_of c up s) \<and>
     (\<forall>s sm t sm'. s \<noteq> hc_top c \<longrightarrow> hc_handler c s sm (reserved_event c Q_INIT_SIG) = (Tran t, sm') \<longrightarrow>
        t \<noteq> s \<and> t \<noteq> hc_top c \<and> s \<in> set (anc up rank t))"

text \<open>
  The reference transition: leave the current configuration up to the lowest common ancestor of
  source and target (of the source's superstate for a self-transition), remember each left state
  as the history of its superstate, and enter the target's chain below that ancestor.
\<close>

definition tran_lca :: "('s, 'p) hsm_code \<Rightarrow> state_up \<Rightarrow> (u64 \<Rightarrow> nat) \<Rightarrow> u64 \<Rightarrow> u64 \<Rightarrow> u64 option" where
  "tran_lca c up rank source target =
     first_common (conf c up rank (if source = target then super_of c up source else source))
       (conf c up rank target)"

definition tran_exits where
  "tran_exits c up rank current source target =
     before (tran_lca c up rank source target) (conf c up rank current)"

definition tran_entries where
  "tran_entries c up rank source target =
     rev (before (tran_lca c up rank source target) (conf c up rank target))"

definition remember :: "state_up \<Rightarrow> u64 \<Rightarrow> (u64 \<rightharpoonup> u64) \<Rightarrow> (u64 \<rightharpoonup> u64)" where
  "remember up s h = (case up s of None \<Rightarrow> h | Some p \<Rightarrow> h(p \<mapsto> s))"

definition tr_add :: "trace_rec list \<Rightarrow> trace \<Rightarrow> trace" where
  "tr_add new tr = map_option (\<lambda>log. log @ new) tr"

abbreviation entry_recs :: "u64 list \<Rightarrow> trace_rec list" where
  "entry_recs \<equiv> map (\<lambda>s. (QS_QEP_STATE_ENTRY, le64 s, False))"

abbreviation exit_recs :: "u64 list \<Rightarrow> trace_rec list" where
  "exit_recs \<equiv> map (\<lambda>s. (QS_QEP_STATE_EXIT, le64 s, False))"

section \<open>Lemmas\<close>

lemma tr_add_Nil [simp]: "tr_add [] tr = tr"
  and tr_add_add [simp]: "tr_add b (tr_add a tr) = tr_add (a @ b) tr"
  and tr_add_Some [simp]: "tr_add new (Some log) = Some (log @ new)"
  and emit_tr_add: "emit i p ts tr = tr_add [(i, p, ts)] tr"
  by (cases tr; simp add: tr_add_def)+

lemmas emit_tr = emit_defs emit_tr_add

lemma hsm_tree_tree: "hsm_tree c up rank \<Longrightarrow> tree up rank"
  by (simp add: hsm_tree_def)

lemma conf_top [simp]: "conf c up rank (hc_top c) = []"
  by (simp add: conf_def state_opt_def conf_of_def)

lemma conf_state: "s \<noteq> hc_top c \<Longrightarrow> conf c up rank s = anc up rank s"
  by (simp add: conf_def state_opt_def conf_of_def)

lemma conf_step:
  assumes "hsm_tree c up rank" "s \<noteq> hc_top c"
  shows "conf c up rank s = s # conf c up rank (super_of c up s)"
proof (cases "up s")
  case None
  then show ?thesis using assms anc_unfold [of up rank s] by (simp add: conf_state super_of_def hsm_tree_def)
next
  case (Some p)
  then have "p \<noteq> hc_top c" using assms by (auto simp: hsm_tree_def)
  then show ?thesis
    using assms Some anc_unfold [of up rank s] by (simp add: conf_state super_of_def hsm_tree_def)
qed

lemma top_notin_conf: "hsm_tree c up rank \<Longrightarrow> hc_top c \<notin> set (conf c up rank s)"
proof (induction "rank s" arbitrary: s rule: less_induct)
  case less
  show ?case
  proof (cases "s = hc_top c")
    case True
    then show ?thesis by simp
  next
    case False
    have "hc_top c \<notin> set (conf c up rank (super_of c up s))"
    proof (cases "up s")
      case None
      then show ?thesis by (simp add: super_of_def)
    next
      case (Some p)
      with less.prems have "rank p < rank s" by (auto simp: hsm_tree_def tree_def)
      with less Some show ?thesis by (simp add: super_of_def)
    qed
    with False less.prems show ?thesis by (simp add: conf_step)
  qed
qed

lemma get_super_tree:
  "hsm_tree c up rank \<Longrightarrow> QHsm_get_super c s sm = (super_of c up s, sm)"
  by (cases "s = hc_top c")
    (auto simp: QHsm_get_super_def call_state_def top_state_def hsm_tree_def super_of_def)

lemma path_up_tree:
  "hsm_tree c up rank \<Longrightarrow> path_up c n s sm = (take n (conf c up rank s), sm)"
  by (induction n arbitrary: s) (simp_all add: get_super_tree conf_step)

lemma path_to_top_wf:
  "hsm_wf c up rank \<Longrightarrow> QHsm_path_to_top c s sm = (conf c up rank s, sm)"
  using path_up_tree [of c up rank MAX_NEST_DEPTH s sm] by (simp add: QHsm_path_to_top_def hsm_wf_def)

lemma enter_path_eq:
  "enter_path c path (sm, tr) = (fold (QHsm_call_entry c) (rev path) sm, tr_add (entry_recs (rev path)) tr)"
proof -
  have "fold (\<lambda>s (sm, tr). (QHsm_call_entry c s sm, emit_state_entry s tr)) xs (sm, tr) =
          (fold (QHsm_call_entry c) xs sm, tr_add (entry_recs xs) tr)" for xs
    by (induction xs arbitrary: sm tr) (simp_all add: emit_tr)
  then show ?thesis by (simp add: enter_path_def)
qed

lemma exit_loop_tree:
  assumes "hsm_tree c up rank" "\<And>a. l = Some a \<Longrightarrow> a \<in> set (conf c up rank s)"
  shows "exit_loop c (case l of Some a \<Rightarrow> a | None \<Rightarrow> hc_top c) s (m, tr) =
     (let xs = before l (conf c up rank s) in
      Some (m\<lparr>hs_sm := fold (QHsm_call_exit c) xs (hs_sm m), hs_history := fold (remember up) xs (hs_history m)\<rparr>,
            tr_add (exit_recs xs) tr))"
  using assms
proof (induction "rank s" arbitrary: s m tr rule: less_induct)
  case less
  let ?l = "case l of Some a \<Rightarrow> a | None \<Rightarrow> hc_top c"
  show ?case
  proof (cases "s = ?l")
    case True
    then have "before l (conf c up rank s) = []"
    proof (cases l)
      case None
      with True show ?thesis by (simp add: before_def)
    next
      case (Some a)
      with True less.prems have "s \<noteq> hc_top c" by auto
      with Some True less.prems show ?thesis by (simp add: before_def conf_step)
    qed
    with True show ?thesis by (subst exit_loop.simps) simp
  next
    case False
    have top: "s \<noteq> hc_top c"
      using False less.prems(2) by (cases l) auto
    let ?m = "m\<lparr>hs_sm := QHsm_call_exit c s (hs_sm m), hs_history := remember up s (hs_history m)\<rparr>"
    let ?tr = "tr_add (exit_recs [s]) tr"
    have b: "before l (conf c up rank s) = s # before l (conf c up rank (super_of c up s))"
      using False conf_step [OF less.prems(1) top] by (cases l) (simp_all add: before_def)
    show ?thesis
    proof (cases "up s")
      case None
      have "before l [] = []" by (cases l) (simp_all add: before_def)
      with None False b show ?thesis
        by (subst exit_loop.simps)
          (simp add: get_super_tree [OF less.prems(1)] super_of_def emit_tr remember_def)
    next
      case (Some p)
      with less.prems have p: "rank p < rank s" "p \<noteq> hc_top c" by (auto simp: hsm_tree_def tree_def)
      have in_p: "a \<in> set (conf c up rank p)" if "l = Some a" for a
        using less.prems(2) [OF that] that False Some conf_step [OF less.prems(1) top]
        by (auto simp: super_of_def)
      have "exit_loop c ?l s (m, tr) = exit_loop c ?l p (?m, ?tr)"
        using False Some p
        by (subst exit_loop.simps)
          (simp add: get_super_tree [OF less.prems(1)] super_of_def emit_tr remember_def)
      with less.hyps [OF p(1) less.prems(1) in_p] b Some show ?thesis
        by (simp add: super_of_def Let_def)
    qed
  qed
qed

lemma wf_tree: "hsm_wf c up rank \<Longrightarrow> hsm_tree c up rank"
  by (simp add: hsm_wf_def)

lemma super_in_conf:
  assumes "hsm_tree c up rank" "t \<in> set (conf c up rank s) \<or> t = hc_top c"
  shows "super_of c up t \<in> set (conf c up rank s) \<or> super_of c up t = hc_top c"
proof (cases "t = hc_top c")
  case True
  with assms show ?thesis by (auto simp: hsm_tree_def super_of_def)
next
  case False
  with assms have t: "t \<in> set (conf c up rank s)" by simp
  then have s: "s \<noteq> hc_top c" by auto
  show ?thesis
  proof (cases "super_of c up t = hc_top c")
    case nt: False
    have "super_of c up t \<in> set (conf c up rank (super_of c up t))" using nt assms(1) by (simp add: conf_step)
    then have "super_of c up t \<in> set (anc up rank t)"
      using False nt conf_step [OF assms(1) False] by (simp add: conf_state)
    then show ?thesis using anc_trans [OF hsm_tree_tree [OF assms(1)]] t s by (simp add: conf_state)
  qed simp
qed

lemma conf_sub:
  assumes "hsm_tree c up rank" "t \<in> set (conf c up rank s) \<or> t = hc_top c" "a \<in> set (conf c up rank t)"
  shows "a \<in> set (conf c up rank s)"
proof -
  from assms have t: "t \<noteq> hc_top c" "t \<in> set (conf c up rank s)" by auto
  then have "s \<noteq> hc_top c" by auto
  with t assms show ?thesis using anc_trans [OF hsm_tree_tree [OF assms(1)]] by (simp add: conf_state)
qed

lemma tran_lca_in:
  assumes "hsm_tree c up rank" "source \<in> set (conf c up rank current) \<or> source = hc_top c"
    "tran_lca c up rank source target = Some a"
  shows "a \<in> set (conf c up rank current) \<and> a \<in> set (conf c up rank target)"
proof -
  let ?ls = "if source = target then super_of c up source else source"
  have "a \<in> set (conf c up rank ?ls)" "a \<in> set (conf c up rank target)"
    using first_common_SomeD [OF assms(3) [unfolded tran_lca_def]] by blast+
  moreover have "?ls \<in> set (conf c up rank current) \<or> ?ls = hc_top c"
    using super_in_conf [OF assms(1,2)] assms(2) by auto
  ultimately show ?thesis using conf_sub [OF assms(1)] by blast
qed

lemma execute_tran_wf:
  fixes target :: u64
  assumes wf: "hsm_wf c up rank" and cur: "Dup_get (hs_state m) = Inr current"
    and src: "source \<in> set (conf c up rank current) \<or> source = hc_top c"
  defines "xs \<equiv> tran_exits c up rank current source target"
    and "ys \<equiv> tran_entries c up rank source target"
  shows "QHsm_execute_tran c source target (m, tr) =
     QHsm_handle_nested_init c
       (m\<lparr>hs_history := fold (remember up) xs (hs_history m),
          hs_sm := fold (QHsm_call_entry c) ys (fold (QHsm_call_exit c) xs (hs_sm m)), hs_state := Dup_set target (hs_state m)\<rparr>,
        tr_add (exit_recs xs @ entry_recs ys) tr)"
proof -
  note t = wf_tree [OF wf]
  let ?l = "tran_lca c up rank source target"
  let ?a = "case ?l of Some a \<Rightarrow> a | None \<Rightarrow> hc_top c"
  let ?ls = "if source = target then super_of c up source else source"
  have paths: "(if source = target then QHsm_get_super c source sm else (source, sm)) = (?ls, sm)" for sm
    by (simp add: get_super_tree [OF t])
  have lca: "QHsm_find_lca c (conf c up rank ?ls) (conf c up rank target) = ?a"
    by (auto simp: QHsm_find_lca_def tran_lca_def)
  have ex: "exit_loop c ?a current (m, tr) =
      Some (m\<lparr>hs_sm := fold (QHsm_call_exit c) xs (hs_sm m), hs_history := fold (remember up) xs (hs_history m)\<rparr>,
            tr_add (exit_recs xs) tr)"
    using exit_loop_tree [OF t, of ?l current m tr] tran_lca_in [OF t src]
    by (simp add: xs_def tran_exits_def Let_def)
  have en: "takeWhile (\<lambda>t. t \<noteq> ?a) (conf c up rank target) = rev ys"
    using top_notin_conf [OF t, of target]
    by (cases ?l) (auto simp: ys_def tran_entries_def before_def takeWhile_eq_all_conv)
  show ?thesis
    by (simp add: QHsm_execute_tran_def cur path_to_top_wf [OF wf] paths lca ex en enter_path_eq)
qed

lemma replay_tran:
  assumes "hsm_tree c up rank" "source \<in> set (conf c up rank current) \<or> source = hc_top c"
  shows "replay up (map Exit (tran_exits c up rank current source target) @
      map Enter (tran_entries c up rank source target)) (conf c up rank current) = Some (conf c up rank target)"
proof -
  let ?l = "tran_lca c up rank source target"
  note tr = hsm_tree_tree [OF assms(1)]
  have in_c: "a \<in> set (conf c up rank current)" "a \<in> set (conf c up rank target)" if "?l = Some a" for a
    using tran_lca_in [OF assms that] by auto
  have "replay up (map Exit (before ?l (conf c up rank current))) (conf c up rank current) =
      Some (conf_of up rank ?l)"
  proof (cases "current = hc_top c")
    case True
    then have "?l = None" using in_c(1) by (cases ?l) auto
    with True show ?thesis by (simp add: before_def conf_of_def)
  next
    case False
    then show ?thesis using replay_exit_chain [OF tr] in_c(1) by (simp add: conf_state)
  qed
  moreover have "replay up (map Enter (rev (before ?l (conf c up rank target)))) (conf_of up rank ?l) =
      Some (conf c up rank target)"
  proof (cases "target = hc_top c")
    case True
    then have "?l = None" using in_c(2) by (cases ?l) auto
    with True show ?thesis by (simp add: before_def conf_of_def)
  next
    case False
    then show ?thesis using replay_entry_chain [OF tr] in_c(2) by (simp add: conf_state)
  qed
  ultimately show ?thesis by (simp add: tran_exits_def tran_entries_def replay_append)
qed

text \<open>Nested initial transitions descend to a state without one.\<close>

definition settled :: "('s, 'p) hsm_code \<Rightarrow> ('s, 'p) QHsm \<Rightarrow> bool" where
  "settled c m \<longleftrightarrow> (\<exists>s sm. Dup_get (hs_state m) = Inr s \<and>
     snd (call_state c s sm (reserved_event c Q_INIT_SIG)) = hs_sm m \<and>
     (\<forall>t. fst (call_state c s sm (reserved_event c Q_INIT_SIG)) \<noteq> Tran t))"

definition reaches where
  "reaches c up rank s h tr r \<longleftrightarrow> (\<exists>m' new s'. r = Some (Inr (m', tr_add new tr)) \<and>
     Dup_get (hs_state m') = Inr s' \<and> s \<in> set (conf c up rank s') \<union> {hc_top c} \<and> hs_history m' = h \<and>
     settled c m' \<and> replay up (acts_of new) (conf c up rank s) = Some (conf c up rank s'))"

lemma reaches_pre:
  assumes "reaches c up rank t h (tr_add pre tr) r"
    "replay up (acts_of pre) (conf c up rank s) = Some (conf c up rank t)"
  obtains m' new s' where "r = Some (Inr (m', tr_add new tr))" "Dup_get (hs_state m') = Inr s'"
    "settled c m'" "hs_history m' = h" "t \<in> set (conf c up rank s') \<union> {hc_top c}"
    "replay up (acts_of new) (conf c up rank s) = Some (conf c up rank s')"
proof -
  from assms(1) obtain m' new s' where r: "r = Some (Inr (m', tr_add (pre @ new) tr))"
    "Dup_get (hs_state m') = Inr s'" "settled c m'" "hs_history m' = h"
    "t \<in> set (conf c up rank s') \<union> {hc_top c}"
    "replay up (acts_of new) (conf c up rank t) = Some (conf c up rank s')"
    unfolding reaches_def by auto
  from r assms(2) show thesis by (intro that [of m' "pre @ new" s']) (simp_all add: replay_append)
qed

lemma nested_init_wf:
  assumes "hsm_wf c up rank" "Dup_get (hs_state m) = Inr s"
  shows "reaches c up rank s (hs_history m) tr (QHsm_handle_nested_init c (m, tr))"
  using assms
proof (induction "MAX_NEST_DEPTH - length (conf c up rank s)" arbitrary: s m tr rule: less_induct)
  case less
  note t = wf_tree [OF less.prems(1)]
  have self: "s \<in> set (conf c up rank s) \<union> {hc_top c}"
    by (cases "s = hc_top c") (simp_all add: conf_step [OF t])
  obtain res sm1 where call: "call_state c s (hs_sm m) (reserved_event c Q_INIT_SIG) = (res, sm1)"
    by fastforce
  show ?case
  proof (cases "\<exists>next. res = Tran next")
    case False
    then have eq: "QHsm_handle_nested_init c (m, tr) = Some (Inr (m\<lparr>hs_sm := sm1\<rparr>, tr_add [] tr))"
      using call less.prems by (subst QHsm_handle_nested_init.simps) (simp split: QHsmResult.splits)
    have "settled c (m\<lparr>hs_sm := sm1\<rparr>)"
      unfolding settled_def using False less.prems call
      by (intro exI [of _ s] exI [of _ "hs_sm m"]) auto
    with eq self less.prems(2) show ?thesis
      unfolding reaches_def by (intro exI [of _ "m\<lparr>hs_sm := sm1\<rparr>"] exI [of _ "[]"] exI [of _ s]) simp
  next
    case True
    then obtain u where u: "res = Tran u" by blast
    then have s: "s \<noteq> hc_top c" using call by (auto simp: call_state_def top_state_def)
    with call u have "hc_handler c s (hs_sm m) (reserved_event c Q_INIT_SIG) = (Tran u, sm1)"
      by (simp add: call_state_def)
    with less.prems(1) s have sub: "u \<noteq> s" "u \<noteq> hc_top c" "s \<in> set (anc up rank u)"
      unfolding hsm_wf_def by blast+
    let ?xs = "takeWhile (\<lambda>t. t \<noteq> s) (anc up rank u)"
    let ?m = "m\<lparr>hs_sm := fold (QHsm_call_entry c) (rev ?xs) sm1, hs_state := Dup_set u (hs_state m)\<rparr>"
    let ?pre = "entry_recs (rev ?xs) @ [(QS_QEP_STATE_INIT, le64 s, False)]"
    have eq: "QHsm_handle_nested_init c (m, tr) = QHsm_handle_nested_init c (?m, tr_add ?pre tr)"
      using call u less.prems sub
      by (subst QHsm_handle_nested_init.simps)
        (simp add: path_to_top_wf enter_path_eq emit_tr conf_state)
    have sp: "anc up rank u = ?xs @ anc up rank s" using anc_split [OF hsm_tree_tree [OF t] sub(3)] .
    have "?xs \<noteq> []" using sub(1) anc_unfold [OF hsm_tree_tree [OF t], of u] by simp
    then have "0 < length ?xs" by (rule length_greater_0_conv [THEN iffD2])
    moreover have "length (anc up rank u) = length ?xs + length (anc up rank s)"
      using arg_cong [OF sp, of length] by (simp only: length_append)
    moreover have "length (anc up rank u) \<le> MAX_NEST_DEPTH"
      using less.prems(1) sub(2) unfolding hsm_wf_def by (metis conf_state)
    ultimately have dec: "MAX_NEST_DEPTH - length (conf c up rank u) < MAX_NEST_DEPTH - length (conf c up rank s)"
      unfolding conf_state [OF sub(2)] conf_state [OF s] by linarith
    have r: "reaches c up rank u (hs_history m) (tr_add ?pre tr) (QHsm_handle_nested_init c (?m, tr_add ?pre tr))"
      using less.hyps [OF dec less.prems(1), of ?m "tr_add ?pre tr"] by simp
    have rp: "replay up (acts_of ?pre) (conf c up rank s) = Some (conf c up rank u)"
      using replay_entry_chain [OF hsm_tree_tree [OF t], of "Some s" u] sub s
      by (simp add: before_def conf_of_def conf_state)
    from reaches_pre [OF r rp] obtain m' new s' where *:
      "QHsm_handle_nested_init c (?m, tr_add ?pre tr) = Some (Inr (m', tr_add new tr))"
      "Dup_get (hs_state m') = Inr s'" "settled c m'" "hs_history m' = hs_history m"
      "u \<in> set (conf c up rank s') \<union> {hc_top c}"
      "replay up (acts_of new) (conf c up rank s) = Some (conf c up rank s')" by metis
    have "s \<in> set (conf c up rank s')"
      using conf_sub [OF t, of u s' s] * sub by (simp add: conf_state)
    with * eq show ?thesis
      unfolding reaches_def by (intro exI [of _ m'] exI [of _ new] exI [of _ s']) simp
  qed
qed

lemma bubble_wf:
  assumes "hsm_wf c up rank"
  obtains src res sm' where "bubble c e s sm = Some (src, res, sm')" "\<forall>t. res \<noteq> Super t"
    "src \<in> set (conf c up rank s) \<or> src = hc_top c"
    "\<exists>sm0. call_state c src sm0 e = (res, sm')"
proof -
  have "\<exists>src res sm' sm0. bubble c e s sm = Some (src, res, sm') \<and> (\<forall>t. res \<noteq> Super t) \<and>
      (src \<in> set (conf c up rank s) \<or> src = hc_top c) \<and> call_state c src sm0 e = (res, sm')"
  proof (induction "length (conf c up rank s)" arbitrary: s sm rule: less_induct)
    case less
    note t = wf_tree [OF assms]
    obtain r sm1 where call: "call_state c s sm e = (r, sm1)" by fastforce
    have self: "s \<in> set (conf c up rank s) \<or> s = hc_top c"
      by (cases "s = hc_top c") (simp_all add: conf_step [OF t])
    show ?case
    proof (cases "\<exists>u. r = Super u")
      case False
      then have "bubble c e s sm = Some (s, r, sm1)"
        using call by (subst bubble.simps) (auto split: QHsmResult.splits)
      with False self call show ?thesis by blast
    next
      case True
      then obtain u where u: "r = Super u" by blast
      with call have s: "s \<noteq> hc_top c" by (auto simp: call_state_def top_state_def)
      with call u have u': "u = super_of c up s"
        using assms unfolding hsm_wf_def by (fastforce simp: call_state_def)
      have cs: "conf c up rank s = s # conf c up rank u" using conf_step [OF t s] u' by simp
      have eq: "bubble c e s sm = bubble c e u sm1" using call u by (subst bubble.simps) simp
      have "length (conf c up rank u) < length (conf c up rank s)" using cs by simp
      from less [OF this, of sm1] show ?thesis unfolding eq using cs by auto
    qed
  qed
  then show thesis using that by blast
qed

lemma is_in_loop_tree:
  assumes "hsm_tree c up rank"
  shows "is_in_loop c st s sm = Some (st \<in> set (conf c up rank s) \<or> st = hc_top c, sm)"
proof (induction "length (conf c up rank s)" arbitrary: s rule: less_induct)
  case less
  show ?case
  proof (cases "s = hc_top c")
    case True
    then show ?thesis by (subst is_in_loop.simps) auto
  next
    case False
    then have cs: "conf c up rank s = s # conf c up rank (super_of c up s)" by (rule conf_step [OF assms])
    then have "length (conf c up rank (super_of c up s)) < length (conf c up rank s)" by simp
    from less [OF this] False cs show ?thesis
      by (subst is_in_loop.simps) (auto simp: get_super_tree [OF assms])
  qed
qed

lemma remember_other: "\<forall>s\<in>set xs. up s \<noteq> Some p \<Longrightarrow> fold (remember up) xs h p = h p"
  by (induction xs arbitrary: h) (auto simp: remember_def split: option.splits)

lemma remember_chain:
  assumes "tree up rank" "xs @ ys = anc up rank t" "s \<in> set xs" "up s = Some p"
  shows "fold (remember up) xs h p = Some s"
  using assms
proof (induction xs arbitrary: t h)
  case Nil
  then show ?case by simp
next
  case (Cons x xs)
  have x: "x = t" and tl: "xs @ ys = (case up t of None \<Rightarrow> [] | Some q \<Rightarrow> anc up rank q)"
    using Cons.prems(1,2) anc_unfold [OF Cons.prems(1), of t] by auto
  show ?case
  proof (cases "s = t")
    case True
    have "up u \<noteq> Some p" if "u \<in> set xs" for u
    proof
      assume u: "up u = Some p"
      have "u \<in> set (anc up rank p)"
        using that tl Cons.prems(4) True by (metis UnCI option.simps(5) set_append)
      then have "rank u \<le> rank p" using anc_rank [OF Cons.prems(1), of u p] by auto
      moreover have "rank p < rank u" using u Cons.prems(1) by (auto simp: tree_def)
      ultimately show False by simp
    qed
    then have "fold (remember up) xs (remember up t h) p = remember up t h p"
      by (intro remember_other) blast
    moreover have "remember up t h p = Some t" using True Cons.prems(4) by (simp add: remember_def)
    ultimately show ?thesis using True x by simp
  next
    case False
    with Cons.prems x have s: "s \<in> set xs" by auto
    then obtain q where "up t = Some q" using tl by (cases "up t") auto
    with Cons.IH [of q] Cons.prems s tl show ?thesis by simp
  qed
qed

lemma before_prefix: "\<exists>ys. before l xs @ ys = xs"
proof (cases l)
  case (Some a)
  then show ?thesis 
    by (intro exI [of _ "dropWhile (\<lambda>t. t \<noteq> a) xs"]) (simp add: before_def)
qed (simp add: before_def)

lemma chain_length: "length (chain up n s) \<le> Suc n"
  by (induction n arbitrary: s) (auto split: option.splits)

section \<open>Demonstration machine\<close>

text \<open>
  State 1 is composite with substates 2 (its initial one) and 3; state 4 is its sibling and
  returns to its history. Entering state 2 counts.
\<close>

definition hsm_demo_handler :: "u64 \<Rightarrow> nat \<Rightarrow> unit Event \<Rightarrow> QHsmResult \<times> nat" where
  "hsm_demo_handler s n e =
     (let sig = Event_signal e in
      if s = 1 then (if sig = 3 then (Tran 2, n) else if sig = 4 then (Tran 4, n) else (Super 0, n))
      else if s = 2 then (if sig = 1 then (Handled, n + 1) else if sig = 6 then (Tran 3, n) else (Super 1, n))
      else if s = 3 then (Super 1, n)
      else if s = 4 then (if sig = 5 then (TranHist 1, n) else (Super 0, n))
      else (Super 0, n))"

definition hsm_demo :: "(nat, unit) hsm_code" where
  "hsm_demo = \<lparr>hc_top = 0, hc_handler = hsm_demo_handler, hc_unit = ()\<rparr>"

definition hsm_demo_up :: state_up where
  "hsm_demo_up s = (if s = 2 \<or> s = 3 then Some 1 else None)"

definition hsm_demo_rank :: "u64 \<Rightarrow> nat" where
  "hsm_demo_rank s = (if s = 2 \<or> s = 3 then 1 else 0)"

definition hsm_demo_machine :: "(nat, unit) QHsm" where
  "hsm_demo_machine = (QHsm_new hsm_demo 0 (\<lambda>n e. (Tran 1, n)))\<lparr>hs_state := Dup_new 2\<rparr>"

text \<open>Seven nested states 1 to 7.\<close>

definition hsm_deep_up :: state_up where
  "hsm_deep_up s = (if 2 \<le> s \<and> s \<le> 7 then Some (s - 1) else None)"

definition hsm_deep :: "(unit, unit) hsm_code" where
  "hsm_deep = \<lparr>hc_top = 0, hc_handler = (\<lambda>s u e.
     (Super (case hsm_deep_up s of Some p \<Rightarrow> p | None \<Rightarrow> 0), u)), hc_unit = ()\<rparr>"

lemma hsm_demo_tree: "hsm_tree hsm_demo hsm_demo_up hsm_demo_rank"
  by (auto simp: hsm_tree_def tree_def hsm_demo_def hsm_demo_up_def hsm_demo_rank_def super_of_def
      hsm_demo_handler_def Event_signal_def reserved_event_def Event_new_def EventHeader_new_def Q_EMPTY_SIG_def)

lemma hsm_demo_wf: "hsm_wf hsm_demo hsm_demo_up hsm_demo_rank"
proof -
  have "length (conf hsm_demo hsm_demo_up hsm_demo_rank s) \<le> MAX_NEST_DEPTH" for s
    using chain_length [of hsm_demo_up "hsm_demo_rank s" s]
    by (cases "s = hc_top hsm_demo") (auto simp: conf_state anc_def hsm_demo_rank_def MAX_NEST_DEPTH_def)
  moreover have "t = super_of hsm_demo hsm_demo_up s"
    if "s \<noteq> hc_top hsm_demo" "hc_handler hsm_demo s sm e = (Super t, sm')" for s sm e t sm'
    using that by (auto simp: hsm_demo_def hsm_demo_handler_def super_of_def hsm_demo_up_def Let_def split: if_splits)
  moreover have "t \<noteq> s \<and> t \<noteq> hc_top hsm_demo \<and> s \<in> set (anc hsm_demo_up hsm_demo_rank t)"
    if "hc_handler hsm_demo s sm (reserved_event hsm_demo Q_INIT_SIG) = (Tran t, sm')" for s sm t sm'
    using that by (auto simp: hsm_demo_def hsm_demo_handler_def anc_def hsm_demo_rank_def hsm_demo_up_def Let_def
        Event_signal_def reserved_event_def Event_new_def EventHeader_new_def Q_INIT_SIG_def split: if_splits)
  ultimately show ?thesis using hsm_demo_tree unfolding hsm_wf_def by blast
qed

lemma hsm_deep_tree: "hsm_tree hsm_deep hsm_deep_up unat"
proof -
  have "s - 1 < s" if "2 \<le> s" for s :: u64 using that by (simp add: word_less_nat_alt word_le_nat_alt unat_sub_if')
  moreover have "s - 1 \<noteq> 0" if "2 \<le> s" for s :: u64
    using that by (auto simp: word_le_nat_alt)
  ultimately show ?thesis
    by (auto simp: hsm_tree_def tree_def hsm_deep_def hsm_deep_up_def super_of_def unat_mono split: if_splits)
qed

section \<open>Properties\<close>

text \<open>
  C4: Executing a transition of a well-formed machine, whose source is the current state, one of
  its superstates or top, returns, and is the reference transition followed by the nested initial
  transitions of the target: the states below the lowest common ancestor are exited innermost
  first, each remembered as the history of its superstate, then the target's chain is entered
  outermost first; the handlers' effects on the data and the trace records come in that order.
\<close>

theorem QHsm_execute_tran_reference:
  assumes "hsm_wf c up rank" "Dup_get (hs_state m) = Inr current"
    "source \<in> set (conf c up rank current) \<or> source = hc_top c"
  shows "QHsm_execute_tran c source target (m, Some log) =
      QHsm_handle_nested_init c
        (m\<lparr>hs_history := fold (remember up) (tran_exits c up rank current source target) (hs_history m),
           hs_sm := fold (QHsm_call_entry c) (tran_entries c up rank source target)
              (fold (QHsm_call_exit c) (tran_exits c up rank current source target) (hs_sm m)),
           hs_state := Dup_set target (hs_state m)\<rparr>,
         Some (log @ exit_recs (tran_exits c up rank current source target) @
                entry_recs (tran_entries c up rank source target))) \<and>
    (\<exists>m' log'. QHsm_execute_tran c source target (m, Some log) = Some (Inr (m', Some log')) \<and> settled c m')"
proof (intro conjI)
  let ?xs = "tran_exits c up rank current source target"
  let ?ys = "tran_entries c up rank source target"
  let ?m = "m\<lparr>hs_history := fold (remember up) ?xs (hs_history m),
      hs_sm := fold (QHsm_call_entry c) ?ys (fold (QHsm_call_exit c) ?xs (hs_sm m)),
      hs_state := Dup_set target (hs_state m)\<rparr>"
  let ?log = "log @ exit_recs ?xs @ entry_recs ?ys"
  show eq: "QHsm_execute_tran c source target (m, Some log) = QHsm_handle_nested_init c (?m, Some ?log)"
    using execute_tran_wf [OF assms, of target "Some log"] by simp
  have "reaches c up rank target (hs_history ?m) (Some ?log) (QHsm_handle_nested_init c (?m, Some ?log))"
    by (rule nested_init_wf [OF assms(1)]) simp
  then show "\<exists>m' log'. QHsm_execute_tran c source target (m, Some log) = Some (Inr (m', Some log')) \<and> settled c m'"
    unfolding eq reaches_def by (elim exE conjE) (metis tr_add_Some)
qed

text \<open>
  C3: Dispatching any event to a well-formed machine returns without a fault, with an intact state
  variable, and the exits and entries its trace log reports are a meaningful sequence: each exit
  leaves the innermost active state, each entry enters a direct substate of it, and they lead from
  the configuration of the old current state exactly to that of the new one.
\<close>

theorem QHsm_dispatch_configuration:
  assumes "hsm_wf c up rank" "Dup_get (hs_state m) = Inr s"
  shows "\<exists>m' new s'. QHsm_dispatch_traced c e (m, Some log) = Some (Inr (m', Some (log @ new))) \<and>
    Dup_get (hs_state m') = Inr s' \<and>
    replay up (acts_of new) (conf c up rank s) = Some (conf c up rank s')"
proof -
  obtain src res sm' where b: "bubble c e s (hs_sm m) = Some (src, res, sm')" "\<forall>t. res \<noteq> Super t"
    "src \<in> set (conf c up rank s) \<or> src = hc_top c" by (rule bubble_wf [OF assms(1)])
  let ?m = "m\<lparr>hs_sm := sm'\<rparr>"
  have tran: "\<exists>m' new s'. QHsm_execute_tran c src target (?m, Some (log @ pre)) = Some (Inr (m', Some (log @ new))) \<and>
      Dup_get (hs_state m') = Inr s' \<and> replay up (acts_of new) (conf c up rank s) = Some (conf c up rank s')"
    if pre: "acts_of pre = []" for target pre
  proof -
    let ?xs = "tran_exits c up rank s src target" and ?ys = "tran_entries c up rank src target"
    let ?m1 = "?m\<lparr>hs_history := fold (remember up) ?xs (hs_history ?m),
        hs_sm := fold (QHsm_call_entry c) ?ys (fold (QHsm_call_exit c) ?xs (hs_sm ?m)),
        hs_state := Dup_set target (hs_state ?m)\<rparr>"
    let ?pre = "pre @ exit_recs ?xs @ entry_recs ?ys"
    have eq: "QHsm_execute_tran c src target (?m, Some (log @ pre)) =
        QHsm_handle_nested_init c (?m1, tr_add ?pre (Some log))"
      using execute_tran_wf [OF assms(1) _ b(3), of ?m target "Some (log @ pre)"] assms(2) by simp
    have r: "reaches c up rank target (hs_history ?m1) (tr_add ?pre (Some log))
        (QHsm_handle_nested_init c (?m1, tr_add ?pre (Some log)))"
      by (rule nested_init_wf [OF assms(1)]) simp
    have rp: "replay up (acts_of ?pre) (conf c up rank s) = Some (conf c up rank target)"
      using replay_tran [OF wf_tree [OF assms(1)] b(3)] pre by simp
    show ?thesis unfolding eq by (rule reaches_pre [OF r rp]) (metis tr_add_Some)
  qed
  show ?thesis
    using b assms(2) tran
    by (cases res) (simp_all add: QHsm_dispatch_traced_def emit_defs Let_def)
qed

theorem QHsm_execute_tran_reference_witness:
  "\<exists>m' log'. QHsm_execute_tran hsm_demo 1 4 (hsm_demo_machine, Some []) = Some (Inr (m', Some log')) \<and>
     settled hsm_demo m'"
proof (rule QHsm_execute_tran_reference [OF hsm_demo_wf, THEN conjunct2])
  show "Dup_get (hs_state hsm_demo_machine) = Inr 2" by (simp add: hsm_demo_machine_def)
  show "1 \<in> set (conf hsm_demo hsm_demo_up hsm_demo_rank 2) \<or> 1 = hc_top hsm_demo" by code_simp
qed

theorem QHsm_dispatch_configuration_witness:
  "\<exists>m' new s'. QHsm_dispatch_traced hsm_demo (Event_new 4 ()) (hsm_demo_machine, Some []) =
       Some (Inr (m', Some ([] @ new))) \<and> Dup_get (hs_state m') = Inr s' \<and>
     replay hsm_demo_up (acts_of new) [2, 1] = Some (conf hsm_demo hsm_demo_up hsm_demo_rank s')"
proof -
  have "conf hsm_demo hsm_demo_up hsm_demo_rank 2 = [2, 1]" by code_simp
  then show ?thesis
    using QHsm_dispatch_configuration [OF hsm_demo_wf, of hsm_demo_machine 2 "Event_new 4 ()" "[]"]
    by (simp add: hsm_demo_machine_def)
qed

text \<open>
  Shallow history: a transition of a well-formed machine records every exited state as the
  history of its direct superstate, leaves the history of states without an exited substate
  alone, and nested initial transitions do not change it.
\<close>

theorem QHsm_history_records_exits:
  assumes "hsm_wf c up rank" "Dup_get (hs_state m) = Inr current"
    "source \<in> set (conf c up rank current) \<or> source = hc_top c"
    "QHsm_execute_tran c source target (m, tr) = Some (Inr (m', tr'))"
  shows "hs_history m' p =
    (case find (\<lambda>s. up s = Some p) (tran_exits c up rank current source target) of
       Some s \<Rightarrow> Some s | None \<Rightarrow> hs_history m p)"
proof -
  let ?xs = "tran_exits c up rank current source target"
  let ?ys = "tran_entries c up rank source target"
  let ?m = "m\<lparr>hs_history := fold (remember up) ?xs (hs_history m),
      hs_sm := fold (QHsm_call_entry c) ?ys (fold (QHsm_call_exit c) ?xs (hs_sm m)),
      hs_state := Dup_set target (hs_state m)\<rparr>"
  let ?tr = "tr_add (exit_recs ?xs @ entry_recs ?ys) tr"
  have "reaches c up rank target (hs_history ?m) ?tr (QHsm_handle_nested_init c (?m, ?tr))"
    by (rule nested_init_wf [OF assms(1)]) simp
  then have h: "hs_history m' = fold (remember up) ?xs (hs_history m)"
    using assms(4) unfolding execute_tran_wf [OF assms(1-3)] reaches_def by auto
  show ?thesis
  proof (cases "find (\<lambda>s. up s = Some p) ?xs")
    case None
    then have "\<forall>s\<in>set ?xs. up s \<noteq> Some p" by (auto simp: find_None_iff)
    with None show ?thesis by (simp add: h remember_other)
  next
    case (Some s)
    from find_SomeD [OF this] have s: "s \<in> set ?xs" "up s = Some p" by auto
    then have cur: "current \<noteq> hc_top c" by (auto simp: tran_exits_def before_def split: option.splits dest: set_takeWhileD)
    obtain ys where "?xs @ ys = anc up rank current"
      using before_prefix cur unfolding tran_exits_def by (metis conf_state)
    then show ?thesis
      using remember_chain [OF hsm_tree_tree [OF wf_tree [OF assms(1)]] _ s] Some by (simp add: h)
  qed
qed

theorem QHsm_history_records_exits_witness:
  "\<exists>m' tr'. QHsm_execute_tran hsm_demo 1 4 (hsm_demo_machine, None) = Some (Inr (m', tr')) \<and>
     hs_history m' 1 = Some 2"
proof -
  have ex: "map_option (map_sum id (\<lambda>_. ())) (QHsm_execute_tran hsm_demo 1 4 (hsm_demo_machine, None)) = Some (Inr ())"
    by code_simp
  obtain m' tr' where r: "QHsm_execute_tran hsm_demo 1 4 (hsm_demo_machine, None) = Some (Inr (m', tr'))"
    using returns_okD [OF ex] by auto
  have "find (\<lambda>s. hsm_demo_up s = Some 1) (tran_exits hsm_demo hsm_demo_up hsm_demo_rank 2 1 4) = Some 2"
    by code_simp
  moreover have "1 \<in> set (conf hsm_demo hsm_demo_up hsm_demo_rank 2) \<or> 1 = hc_top hsm_demo" by code_simp
  ultimately show ?thesis
    using QHsm_history_records_exits [OF hsm_demo_wf _ _ r, of 2 1] r by (simp add: hsm_demo_machine_def)
qed

text \<open>
  \<open>is_in\<close> answers whether a state is the current one or one of its superstates, and leaves the
  machine as it was.
\<close>

theorem QHsm_is_in_iff:
  assumes "hsm_tree c up rank" "Dup_get (hs_state m) = Inr s"
  shows "QHsm_is_in c st m = Some (Inr (st \<in> set (conf c up rank s) \<or> st = hc_top c, m))"
  using assms by (simp add: QHsm_is_in_def is_in_loop_tree)

theorem QHsm_is_in_iff_witness:
  "QHsm_is_in hsm_demo 1 hsm_demo_machine = Some (Inr (True, hsm_demo_machine))"
proof -
  have "1 \<in> set (conf hsm_demo hsm_demo_up hsm_demo_rank 2)" by code_simp
  then show ?thesis
    using QHsm_is_in_iff [OF hsm_demo_tree, of hsm_demo_machine 2 1] by (simp add: hsm_demo_machine_def)
qed

text \<open>
  Initialisation enters, outermost first, the innermost \<open>MAX_NEST_DEPTH\<close> states of the target's
  chain, whatever its length: in a machine nested deeper the outermost states become active
  without their entry actions.
\<close>

theorem QHsm_init_enters_innermost:
  assumes "hsm_tree c up rank" "hs_temp m (hs_sm m) (reserved_event c Q_INIT_SIG) = (Tran t, sm1)"
  shows "QHsm_init_traced c (m, Some log) =
    QHsm_handle_nested_init c
      (m\<lparr>hs_sm := fold (QHsm_call_entry c) (rev (take MAX_NEST_DEPTH (conf c up rank t))) sm1,
         hs_state := Dup_set t (hs_state m)\<rparr>,
       Some (log @ entry_recs (rev (take MAX_NEST_DEPTH (conf c up rank t))) @ [(QS_QEP_INIT_TRAN, le64 t, False)]))"
  using assms
  by (simp add: QHsm_init_traced_def QHsm_path_to_top_def path_up_tree [OF assms(1)] enter_path_eq emit_defs)

theorem QHsm_init_enters_innermost_witness:
  "QHsm_init_traced hsm_deep (QHsm_new hsm_deep () (\<lambda>u e. (Tran 7, u)), Some []) =
     QHsm_handle_nested_init hsm_deep
       ((QHsm_new hsm_deep () (\<lambda>u e. (Tran 7, u)))\<lparr>hs_state := Dup_set 7 (Dup_new 0)\<rparr>,
        Some (entry_recs [2, 3, 4, 5, 6, 7] @ [(QS_QEP_INIT_TRAN, le64 7, False)]))"
proof -
  have "rev (take MAX_NEST_DEPTH (conf hsm_deep hsm_deep_up unat 7)) = [2, 3, 4, 5, 6, 7]" by code_simp
  then show ?thesis
    using QHsm_init_enters_innermost [OF hsm_deep_tree,
        of "QHsm_new hsm_deep () (\<lambda>u e. (Tran 7, u))" 7 "()" "[]"]
    by (simp add: QHsm_new_def hsm_deep_def)
qed

end
