(* ===== verification/QMsm.thy ===== *)
theory QMsm
  imports QHsm
begin

text \<open>
  The table-driven hierarchical state machine, \<open>crates/qf/src/hsm/qmsm.rs\<close> (default build).
  States are static records; a reference to one is its address, and the program's static tables
  are a parameter from addresses to records. As in the code-based engine, actions and handlers
  are application code.
\<close>

section \<open>Model\<close>

datatype QMsmResult = QMHandled | QMSuper u64 | QMTran u64 | QMTranHist u64 | QMIgnored | QMUnhandled

record ('s, 'p) QMState =
  superstate :: "u64 option"
  state_handler :: "'s \<Rightarrow> 'p Event \<Rightarrow> QMsmResult \<times> 's"
  entry_action :: "('s \<Rightarrow> 's) option"
  exit_action :: "('s \<Rightarrow> 's) option"
  init_action :: "('s \<Rightarrow> u64 option \<times> 's) option"

type_synonym ('s, 'p) qm_table = "u64 \<Rightarrow> ('s, 'p) QMState"

record 's QMsm =
  qm_state :: u64
  qm_temp :: u64
  qm_sm :: 's
  qm_history :: "u64 \<rightharpoonup> u64"

type_synonym 's qm_run = "'s QMsm \<times> trace"

definition QMsm_new :: "'s \<Rightarrow> u64 \<Rightarrow> 's QMsm" where
  "QMsm_new sm initial = \<lparr>qm_state = initial, qm_temp = initial, qm_sm = sm, qm_history = Map.empty\<rparr>"

partial_function (option) qm_path_to_top :: "('s, 'p) qm_table \<Rightarrow> u64 \<Rightarrow> u64 list option" where
  "qm_path_to_top tbl s =
     (case superstate (tbl s) of
        None \<Rightarrow> Some [s]
      | Some p \<Rightarrow> Option.bind (qm_path_to_top tbl p) (\<lambda>path. Some (s # path)))"

definition qm_find_lca :: "u64 list \<Rightarrow> u64 list \<Rightarrow> u64 option" where
  "qm_find_lca p1 p2 = first_common p1 p2"

definition run_action :: "('s \<Rightarrow> 's) option \<Rightarrow> 's \<Rightarrow> 's" where
  "run_action a sm = (case a of Some f \<Rightarrow> f sm | None \<Rightarrow> sm)"

definition qm_enter_path :: "('s, 'p) qm_table \<Rightarrow> u64 list \<Rightarrow> 's \<times> trace \<Rightarrow> 's \<times> trace" where
  "qm_enter_path tbl path =
     fold (\<lambda>s (sm, tr). (run_action (entry_action (tbl s)) sm, emit_state_entry s tr)) (rev path)"

partial_function (option) qm_exit_loop ::
    "('s, 'p) qm_table \<Rightarrow> u64 option \<Rightarrow> u64 \<Rightarrow> 's qm_run \<Rightarrow> 's qm_run option" where
  "qm_exit_loop tbl lca s r =
     (if lca = Some s then Some r
      else let (m, tr) = r;
               hist = (case superstate (tbl s) of Some p \<Rightarrow> (qm_history m)(p \<mapsto> s) | None \<Rightarrow> qm_history m);
               r' = (m\<lparr>qm_sm := run_action (exit_action (tbl s)) (qm_sm m), qm_history := hist\<rparr>,
                     emit_state_exit s tr)
           in case superstate (tbl s) of Some p \<Rightarrow> qm_exit_loop tbl lca p r' | None \<Rightarrow> Some r')"

partial_function (option) QMsm_handle_nested_init ::
    "('s, 'p) qm_table \<Rightarrow> 's qm_run \<Rightarrow> 's qm_run option" where
  "QMsm_handle_nested_init tbl r =
     (case init_action (tbl (qm_state (fst r))) of
        None \<Rightarrow> Some r
      | Some act \<Rightarrow>
          (case act (qm_sm (fst r)) of (nxt, sm1) \<Rightarrow>
            (case nxt of
               None \<Rightarrow> Some ((fst r)\<lparr>qm_sm := sm1\<rparr>, snd r)
             | Some next \<Rightarrow>
                 (case qm_path_to_top tbl next of
                    None \<Rightarrow> None
                  | Some path \<Rightarrow>
                      let (sm2, tr1) =
                            qm_enter_path tbl (takeWhile (\<lambda>t. t \<noteq> qm_state (fst r)) path) (sm1, snd r)
                      in QMsm_handle_nested_init tbl
                           ((fst r)\<lparr>qm_sm := sm2, qm_state := next\<rparr>,
                            emit_state_init (qm_state (fst r)) tr1)))))"

definition QMsm_execute_tran ::
    "('s, 'p) qm_table \<Rightarrow> u64 \<Rightarrow> u64 \<Rightarrow> 's qm_run \<Rightarrow> 's qm_run option" where
  "QMsm_execute_tran tbl source target r =
     Option.bind (qm_path_to_top tbl target) (\<lambda>target_path.
       let lca_source = (if source = target
             then (case superstate (tbl source) of Some p \<Rightarrow> p | None \<Rightarrow> source) else source)
       in Option.bind (qm_path_to_top tbl lca_source) (\<lambda>lca_source_path.
            let lca = qm_find_lca lca_source_path target_path
            in Option.bind (qm_exit_loop tbl lca (qm_state (fst r)) r) (\<lambda>(m1, tr1).
                 let (sm2, tr2) = qm_enter_path tbl (before lca target_path) (qm_sm m1, tr1)
                 in QMsm_handle_nested_init tbl (m1\<lparr>qm_sm := sm2, qm_state := target\<rparr>, tr2))))"

definition QMsm_init_traced :: "('s, 'p) qm_table \<Rightarrow> 's qm_run \<Rightarrow> 's qm_run option" where
  "QMsm_init_traced tbl r =
     Option.bind (qm_path_to_top tbl (qm_temp (fst r))) (\<lambda>path.
       let (sm1, tr1) = qm_enter_path tbl path (qm_sm (fst r), snd r)
       in QMsm_handle_nested_init tbl
            ((fst r)\<lparr>qm_sm := sm1, qm_state := qm_temp (fst r)\<rparr>, emit_init_tran (qm_temp (fst r)) tr1))"

partial_function (option) qm_bubble ::
    "('s, 'p) qm_table \<Rightarrow> 'p Event \<Rightarrow> u64 \<Rightarrow> 's \<Rightarrow> (u64 \<times> QMsmResult \<times> 's) option" where
  "qm_bubble tbl e s sm =
     (case state_handler (tbl s) sm e of (res, sm1) \<Rightarrow>
       (case res of QMSuper p \<Rightarrow> qm_bubble tbl e p sm1 | _ \<Rightarrow> Some (s, res, sm1)))"

definition QMsm_dispatch_traced ::
    "('s, 'p) qm_table \<Rightarrow> 'p Event \<Rightarrow> 's qm_run \<Rightarrow> 's qm_run option" where
  "QMsm_dispatch_traced tbl e r =
     (let sig = Event_signal e; cur = qm_state (fst r); tr0 = emit_dispatch sig cur (snd r)
      in Option.bind (qm_bubble tbl e cur (qm_sm (fst r))) (\<lambda>(source, res, sm1).
           let m1 = (fst r)\<lparr>qm_sm := sm1\<rparr>
           in (case res of
                 QMHandled \<Rightarrow> Some (m1, emit_intern_tran sig source tr0)
               | QMIgnored \<Rightarrow> Some (m1, emit_ignored sig source tr0)
               | QMUnhandled \<Rightarrow> Some (m1, emit_ignored sig source tr0)
               | QMTran target \<Rightarrow> QMsm_execute_tran tbl source target (m1, emit_tran sig source target tr0)
               | QMTranHist parent \<Rightarrow>
                   let target = (case qm_history m1 parent of Some t \<Rightarrow> t | None \<Rightarrow> parent)
                   in QMsm_execute_tran tbl source target (m1, emit_tran_hist sig source target tr0)
               | QMSuper _ \<Rightarrow> Some (m1, tr0))))"

definition QMsm_init :: "('s, 'p) qm_table \<Rightarrow> 's QMsm \<Rightarrow> 's QMsm option" where
  "QMsm_init tbl m = map_option fst (QMsm_init_traced tbl (m, None))"

definition QMsm_dispatch :: "('s, 'p) qm_table \<Rightarrow> 'p Event \<Rightarrow> 's QMsm \<Rightarrow> 's QMsm option" where
  "QMsm_dispatch tbl e m = map_option fst (QMsm_dispatch_traced tbl e (m, None))"

partial_function (option) qm_is_in_loop :: "('s, 'p) qm_table \<Rightarrow> u64 \<Rightarrow> u64 \<Rightarrow> bool option" where
  "qm_is_in_loop tbl st s =
     (if s = st then Some True
      else case superstate (tbl s) of None \<Rightarrow> Some False | Some p \<Rightarrow> qm_is_in_loop tbl st p)"

definition QMsm_is_in :: "('s, 'p) qm_table \<Rightarrow> u64 \<Rightarrow> 's QMsm \<Rightarrow> bool option" where
  "QMsm_is_in tbl st m = qm_is_in_loop tbl st (qm_state m)"

declare qm_path_to_top.simps [code] qm_exit_loop.simps [code] QMsm_handle_nested_init.simps [code]
  qm_bubble.simps [code] qm_is_in_loop.simps [code]

section \<open>Well-formed tables and reference transitions\<close>

text \<open>
  The superstate links end at a top-level state, handlers defer to the superstate only (a
  top-level handler does not defer), and initial actions name proper substates; \<open>bound\<close> limits
  the nesting.
\<close>

abbreviation qm_up :: "('s, 'p) qm_table \<Rightarrow> state_up" where
  "qm_up tbl \<equiv> \<lambda>s. superstate (tbl s)"

definition qm_wf :: "('s, 'p) qm_table \<Rightarrow> (u64 \<Rightarrow> nat) \<Rightarrow> nat \<Rightarrow> bool" where
  "qm_wf tbl rank bound \<longleftrightarrow> tree (qm_up tbl) rank \<and> (\<forall>s. rank s < bound) \<and>
     (\<forall>s sm e t sm'. state_handler (tbl s) sm e = (QMSuper t, sm') \<longrightarrow> superstate (tbl s) = Some t) \<and>
     (\<forall>s f sm t sm'. init_action (tbl s) = Some f \<longrightarrow> f sm = (Some t, sm') \<longrightarrow>
        t \<noteq> s \<and> s \<in> set (anc (qm_up tbl) rank t))"

definition qm_lca :: "('s, 'p) qm_table \<Rightarrow> (u64 \<Rightarrow> nat) \<Rightarrow> u64 \<Rightarrow> u64 \<Rightarrow> u64 option" where
  "qm_lca tbl rank source target =
     first_common (anc (qm_up tbl) rank (if source = target
        then (case superstate (tbl source) of Some p \<Rightarrow> p | None \<Rightarrow> source) else source))
       (anc (qm_up tbl) rank target)"

definition qm_exits where
  "qm_exits tbl rank current source target = before (qm_lca tbl rank source target) (anc (qm_up tbl) rank current)"

definition qm_entries where
  "qm_entries tbl rank source target = rev (before (qm_lca tbl rank source target) (anc (qm_up tbl) rank target))"

definition do_exit :: "('s, 'p) qm_table \<Rightarrow> u64 \<Rightarrow> 's \<Rightarrow> 's" where
  "do_exit tbl s = run_action (exit_action (tbl s))"

definition do_entry :: "('s, 'p) qm_table \<Rightarrow> u64 \<Rightarrow> 's \<Rightarrow> 's" where
  "do_entry tbl s = run_action (entry_action (tbl s))"

section \<open>Lemmas\<close>

lemma qm_path_tree:
  assumes "tree (qm_up tbl) rank"
  shows "qm_path_to_top tbl s = Some (anc (qm_up tbl) rank s)"
proof (induction "rank s" arbitrary: s rule: less_induct)
  case less
  show ?case
  proof (cases "superstate (tbl s)")
    case None
    then show ?thesis using anc_unfold [OF assms, of s] by (subst qm_path_to_top.simps) simp
  next
    case (Some p)
    with assms have "rank p < rank s" by (auto simp: tree_def)
    from less [OF this] Some show ?thesis
      using anc_unfold [OF assms, of s] by (subst qm_path_to_top.simps) simp
  qed
qed

lemma qm_enter_path_eq:
  "qm_enter_path tbl path (sm, tr) = (fold (do_entry tbl) (rev path) sm, tr_add (entry_recs (rev path)) tr)"
proof -
  have "fold (\<lambda>s (sm, tr). (run_action (entry_action (tbl s)) sm, emit_state_entry s tr)) xs (sm, tr) =
          (fold (do_entry tbl) xs sm, tr_add (entry_recs xs) tr)" for xs
    by (induction xs arbitrary: sm tr) (simp_all add: emit_tr do_entry_def)
  then show ?thesis by (simp add: qm_enter_path_def)
qed

lemma qm_exit_loop_tree:
  assumes "tree (qm_up tbl) rank" "\<And>a. l = Some a \<Longrightarrow> a \<in> set (anc (qm_up tbl) rank s)"
  shows "qm_exit_loop tbl l s (m, tr) =
     (let xs = before l (anc (qm_up tbl) rank s) in
      Some (m\<lparr>qm_sm := fold (do_exit tbl) xs (qm_sm m), qm_history := fold (remember (qm_up tbl)) xs (qm_history m)\<rparr>,
            tr_add (exit_recs xs) tr))"
  using assms
proof (induction "rank s" arbitrary: s m tr rule: less_induct)
  case less
  show ?case
  proof (cases "l = Some s")
    case True
    then have "before l (anc (qm_up tbl) rank s) = []"
      using anc_unfold [OF less.prems(1), of s] by (simp add: before_def)
    with True show ?thesis by (subst qm_exit_loop.simps) simp
  next
    case False
    have ne: "before l [] = []" by (cases l) (simp_all add: before_def)
    have b: "before l (anc (qm_up tbl) rank s) =
        s # before l (case superstate (tbl s) of None \<Rightarrow> [] | Some p \<Rightarrow> anc (qm_up tbl) rank p)"
      using False anc_unfold [OF less.prems(1), of s] by (cases l) (simp_all add: before_def)
    show ?thesis
    proof (cases "superstate (tbl s)")
      case None
      with False b ne show ?thesis
        by (subst qm_exit_loop.simps) (simp add: emit_tr remember_def do_exit_def)
    next
      case (Some p)
      with less.prems(1) have p: "rank p < rank s" by (auto simp: tree_def)
      have in_p: "a \<in> set (anc (qm_up tbl) rank p)" if "l = Some a" for a
        using less.prems(2) [OF that] that False Some anc_unfold [OF less.prems(1), of s] by auto
      have "qm_exit_loop tbl l s (m, tr) =
          qm_exit_loop tbl l p (m\<lparr>qm_sm := do_exit tbl s (qm_sm m), qm_history := remember (qm_up tbl) s (qm_history m)\<rparr>,
            tr_add (exit_recs [s]) tr)"
        using False Some by (subst qm_exit_loop.simps) (simp add: emit_tr remember_def do_exit_def)
      with less.hyps [OF p less.prems(1) in_p] b Some show ?thesis by (simp add: Let_def)
    qed
  qed
qed

lemma qm_lca_in:
  assumes "tree (qm_up tbl) rank" "source \<in> set (anc (qm_up tbl) rank current)"
    "qm_lca tbl rank source target = Some a"
  shows "a \<in> set (anc (qm_up tbl) rank current)" "a \<in> set (anc (qm_up tbl) rank target)"
proof -
  let ?ls = "if source = target then (case superstate (tbl source) of Some p \<Rightarrow> p | None \<Rightarrow> source) else source"
  have a: "a \<in> set (anc (qm_up tbl) rank ?ls)" "a \<in> set (anc (qm_up tbl) rank target)"
    using first_common_SomeD [OF assms(3) [unfolded qm_lca_def]] by blast+
  have "?ls \<in> set (anc (qm_up tbl) rank source)"
    using anc_unfold [OF assms(1), of source] anc_self [OF assms(1)] by (auto split: option.splits)
  then show "a \<in> set (anc (qm_up tbl) rank current)"
    using a(1) assms(2) anc_trans [OF assms(1)] by blast
  show "a \<in> set (anc (qm_up tbl) rank target)" by (rule a(2))
qed

lemma qm_execute_tran_tree:
  fixes target :: u64
  assumes t: "tree (qm_up tbl) rank" and src: "source \<in> set (anc (qm_up tbl) rank (qm_state m))"
  defines "xs \<equiv> qm_exits tbl rank (qm_state m) source target"
    and "ys \<equiv> qm_entries tbl rank source target"
  shows "QMsm_execute_tran tbl source target (m, tr) =
     QMsm_handle_nested_init tbl
       (m\<lparr>qm_history := fold (remember (qm_up tbl)) xs (qm_history m),
          qm_sm := fold (do_entry tbl) ys (fold (do_exit tbl) xs (qm_sm m)), qm_state := target\<rparr>,
        tr_add (exit_recs xs @ entry_recs ys) tr)"
proof -
  let ?l = "qm_lca tbl rank source target"
  have ex: "qm_exit_loop tbl ?l (qm_state m) (m, tr) =
      Some (m\<lparr>qm_sm := fold (do_exit tbl) xs (qm_sm m), qm_history := fold (remember (qm_up tbl)) xs (qm_history m)\<rparr>,
            tr_add (exit_recs xs) tr)"
    using qm_exit_loop_tree [OF t qm_lca_in(1) [OF t src]] by (simp add: xs_def qm_exits_def Let_def)
  have en: "before ?l (anc (qm_up tbl) rank target) = rev ys" by (simp add: ys_def qm_entries_def)
  show ?thesis
    using ex en
    by (simp add: QMsm_execute_tran_def qm_path_tree [OF t] qm_find_lca_def qm_lca_def [symmetric] qm_enter_path_eq)
qed

lemma qm_replay_tran:
  assumes "tree (qm_up tbl) rank" "source \<in> set (anc (qm_up tbl) rank current)"
  shows "replay (qm_up tbl) (map Exit (qm_exits tbl rank current source target) @
      map Enter (qm_entries tbl rank source target)) (anc (qm_up tbl) rank current) =
    Some (anc (qm_up tbl) rank target)"
  using replay_exit_chain [OF assms(1) qm_lca_in(1) [OF assms]]
    replay_entry_chain [OF assms(1) qm_lca_in(2) [OF assms]]
  by (simp add: qm_exits_def qm_entries_def replay_append)

text \<open>
  The outcome of a run that started with the configuration of \<open>s\<close>: it returns, and its new trace
  records lead to the configuration of the state it ends in.
\<close>

definition qm_reaches where
  "qm_reaches tbl rank s tr r \<longleftrightarrow> (\<exists>m' new. r = Some (m', tr_add new tr) \<and>
     replay (qm_up tbl) (acts_of new) (anc (qm_up tbl) rank s) = Some (anc (qm_up tbl) rank (qm_state m')))"

lemma qm_reaches_pre:
  assumes "qm_reaches tbl rank t (tr_add pre tr) r"
    "replay (qm_up tbl) (acts_of pre) (anc (qm_up tbl) rank s) = Some (anc (qm_up tbl) rank t)"
  shows "qm_reaches tbl rank s tr r"
proof -
  from assms(1) obtain m' new where "r = Some (m', tr_add (pre @ new) tr)"
    "replay (qm_up tbl) (acts_of new) (anc (qm_up tbl) rank t) = Some (anc (qm_up tbl) rank (qm_state m'))"
    unfolding qm_reaches_def by auto
  then show ?thesis unfolding qm_reaches_def using assms(2)
    by (intro exI [of _ m'] exI [of _ "pre @ new"]) (simp add: replay_append)
qed

lemma qm_nested_init_wf:
  assumes "qm_wf tbl rank bound"
  shows "qm_reaches tbl rank (qm_state m) tr (QMsm_handle_nested_init tbl (m, tr))"
proof (induction "bound - rank (qm_state m)" arbitrary: m tr rule: less_induct)
  case less
  let ?up = "qm_up tbl" and ?s = "qm_state m"
  have t: "tree ?up rank" using assms by (simp add: qm_wf_def)
  have stop: ?case if "QMsm_handle_nested_init tbl (m, tr) = Some (m', tr)" "qm_state m' = ?s" for m'
    using that unfolding qm_reaches_def by (intro exI [of _ m'] exI [of _ "[]"]) simp
  show ?case
  proof (cases "init_action (tbl ?s)")
    case None
    then show ?thesis by (intro stop [of m]) (subst QMsm_handle_nested_init.simps, simp_all)
  next
    case (Some f)
    obtain nxt sm1 where f: "f (qm_sm m) = (nxt, sm1)" by fastforce
    show ?thesis
    proof (cases nxt)
      case None
      with Some f show ?thesis
        by (intro stop [of "m\<lparr>qm_sm := sm1\<rparr>"]) (subst QMsm_handle_nested_init.simps, simp_all)
    next
      case (Some u)
      with f assms \<open>init_action (tbl ?s) = Some f\<close> have sub: "u \<noteq> ?s" "?s \<in> set (anc ?up rank u)"
        unfolding qm_wf_def by blast+
      let ?xs = "takeWhile (\<lambda>t. t \<noteq> ?s) (anc ?up rank u)"
      let ?m = "m\<lparr>qm_sm := fold (do_entry tbl) (rev ?xs) sm1, qm_state := u\<rparr>"
      let ?pre = "entry_recs (rev ?xs) @ [(QS_QEP_STATE_INIT, le64 ?s, False)]"
      have eq: "QMsm_handle_nested_init tbl (m, tr) = QMsm_handle_nested_init tbl (?m, tr_add ?pre tr)"
        using Some f \<open>init_action (tbl ?s) = Some f\<close>
        by (subst QMsm_handle_nested_init.simps) (simp add: qm_path_tree [OF t] qm_enter_path_eq emit_tr)
      have "rank ?s < rank u" using anc_rank [OF t sub(2)] sub(1) by auto
      moreover have "rank u < bound" using assms by (simp add: qm_wf_def)
      ultimately have "bound - rank (qm_state ?m) < bound - rank ?s" by simp
      from less [OF this, of "tr_add ?pre tr"]
      have r: "qm_reaches tbl rank u (tr_add ?pre tr) (QMsm_handle_nested_init tbl (?m, tr_add ?pre tr))" by simp
      have "replay ?up (acts_of ?pre) (anc ?up rank ?s) = Some (anc ?up rank u)"
        using replay_entry_chain [OF t, of "Some ?s" u] sub by (simp add: before_def conf_of_def)
      from qm_reaches_pre [OF r this] show ?thesis unfolding eq .
    qed
  qed
qed

lemma qm_bubble_wf:
  assumes "qm_wf tbl rank bound"
  shows "\<exists>src res sm'. qm_bubble tbl e s sm = Some (src, res, sm') \<and> (\<forall>t. res \<noteq> QMSuper t) \<and>
      src \<in> set (anc (qm_up tbl) rank s)"
proof (induction "rank s" arbitrary: s sm rule: less_induct)
  case less
  have t: "tree (qm_up tbl) rank" using assms by (simp add: qm_wf_def)
  obtain r sm1 where call: "state_handler (tbl s) sm e = (r, sm1)" by fastforce
  show ?case
  proof (cases "\<exists>u. r = QMSuper u")
    case False
    then have "qm_bubble tbl e s sm = Some (s, r, sm1)"
      using call by (subst qm_bubble.simps) (auto split: QMsmResult.splits)
    with False t show ?thesis by auto
  next
    case True
    then obtain u where u: "r = QMSuper u" by blast
    with call assms have up: "superstate (tbl s) = Some u" unfolding qm_wf_def by blast
    with t have "rank u < rank s" by (auto simp: tree_def)
    from less [OF this, of sm1] u call up show ?thesis
      using anc_unfold [OF t, of s] by (subst qm_bubble.simps) auto
  qed
qed

section \<open>Demonstration table\<close>

text \<open>State 1 is composite with initial substate 2; on signal 4 state 1 transitions to itself.\<close>

definition qm_demo_table :: "(nat, unit) qm_table" where
  "qm_demo_table s =
     (if s = 1 then \<lparr>superstate = None,
          state_handler = (\<lambda>n e. if Event_signal e = 4 then (QMTran 1, n) else (QMIgnored, n)),
          entry_action = Some (\<lambda>n. n + 1), exit_action = None, init_action = Some (\<lambda>n. (Some 2, n))\<rparr>
      else if s = 2 then \<lparr>superstate = Some 1,
          state_handler = (\<lambda>n e. if Event_signal e = 5 then (QMTran 2, n) else (QMSuper 1, n)),
          entry_action = Some (\<lambda>n. n + 10), exit_action = None, init_action = None\<rparr>
      else \<lparr>superstate = None, state_handler = (\<lambda>n e. (QMIgnored, n)), entry_action = None,
          exit_action = None, init_action = None\<rparr>)"

definition qm_demo_rank :: "u64 \<Rightarrow> nat" where
  "qm_demo_rank s = (if s = 2 then 1 else 0)"

lemma qm_demo_wf: "qm_wf qm_demo_table qm_demo_rank 2"
proof -
  have "tree (qm_up qm_demo_table) qm_demo_rank"
    by (auto simp: tree_def qm_demo_table_def qm_demo_rank_def split: if_splits)
  moreover have "qm_demo_rank s < 2" for s by (simp add: qm_demo_rank_def)
  moreover have "superstate (qm_demo_table s) = Some t"
    if "state_handler (qm_demo_table s) sm e = (QMSuper t, sm')" for s sm e t sm'
    using that by (auto simp: qm_demo_table_def split: if_splits)
  moreover have "t \<noteq> s \<and> s \<in> set (anc (qm_up qm_demo_table) qm_demo_rank t)"
    if "init_action (qm_demo_table s) = Some f" "f sm = (Some t, sm')" for s f sm t sm'
    using that by (auto simp: qm_demo_table_def anc_def qm_demo_rank_def split: if_splits)
  ultimately show ?thesis unfolding qm_wf_def by blast
qed

section \<open>Properties\<close>

text \<open>
  Dispatching any event to a machine with a well-formed state table returns, and the exits and
  entries its trace log reports form a meaningful sequence that leads from the configuration of
  the old current state exactly to the configuration of the new one.
\<close>

theorem QMsm_dispatch_configuration:
  assumes "qm_wf tbl rank bound"
  shows "\<exists>m' new. QMsm_dispatch_traced tbl e (m, Some log) = Some (m', Some (log @ new)) \<and>
    replay (qm_up tbl) (acts_of new) (anc (qm_up tbl) rank (qm_state m)) =
      Some (anc (qm_up tbl) rank (qm_state m'))"
proof -
  have t: "tree (qm_up tbl) rank" using assms by (simp add: qm_wf_def)
  obtain src res sm' where b: "qm_bubble tbl e (qm_state m) (qm_sm m) = Some (src, res, sm')"
    "\<forall>t. res \<noteq> QMSuper t" "src \<in> set (anc (qm_up tbl) rank (qm_state m))"
    using qm_bubble_wf [OF assms] by metis
  let ?m = "m\<lparr>qm_sm := sm'\<rparr>"
  have tran: "\<exists>m' new. QMsm_execute_tran tbl src target (?m, Some (log @ pre)) = Some (m', Some (log @ new)) \<and>
      replay (qm_up tbl) (acts_of new) (anc (qm_up tbl) rank (qm_state m)) = Some (anc (qm_up tbl) rank (qm_state m'))"
    if pre: "acts_of pre = []" for target pre
  proof -
    let ?xs = "qm_exits tbl rank (qm_state m) src target" and ?ys = "qm_entries tbl rank src target"
    let ?m1 = "?m\<lparr>qm_history := fold (remember (qm_up tbl)) ?xs (qm_history ?m),
        qm_sm := fold (do_entry tbl) ?ys (fold (do_exit tbl) ?xs (qm_sm ?m)), qm_state := target\<rparr>"
    let ?pre = "pre @ exit_recs ?xs @ entry_recs ?ys"
    have eq: "QMsm_execute_tran tbl src target (?m, Some (log @ pre)) =
        QMsm_handle_nested_init tbl (?m1, tr_add ?pre (Some log))"
      using qm_execute_tran_tree [OF t, of src ?m target "Some (log @ pre)"] b(3) by simp
    have r: "qm_reaches tbl rank target (tr_add ?pre (Some log))
        (QMsm_handle_nested_init tbl (?m1, tr_add ?pre (Some log)))"
      using qm_nested_init_wf [OF assms, of ?m1] by simp
    have rp: "replay (qm_up tbl) (acts_of ?pre) (anc (qm_up tbl) rank (qm_state m)) = Some (anc (qm_up tbl) rank target)"
      using qm_replay_tran [OF t b(3)] pre by simp
    from qm_reaches_pre [OF r rp] show ?thesis unfolding eq qm_reaches_def by auto
  qed
  show ?thesis
    using b tran by (cases res) (simp_all add: QMsm_dispatch_traced_def emit_defs Let_def)
qed

theorem QMsm_dispatch_configuration_witness:
  "\<exists>m' new. QMsm_dispatch_traced qm_demo_table (Event_new 5 ()) (QMsm_new 0 2, Some []) = Some (m', Some ([] @ new)) \<and>
     replay (qm_up qm_demo_table) (acts_of new) (anc (qm_up qm_demo_table) qm_demo_rank (qm_state (QMsm_new (0::nat) 2))) =
       Some (anc (qm_up qm_demo_table) qm_demo_rank (qm_state m'))"
  by (rule QMsm_dispatch_configuration [OF qm_demo_wf])

text \<open>
  A self-transition of the current state: below the top level the state is exited and entered
  again, but a top-level state is neither exited nor entered; only its nested initial transition
  runs again.
\<close>

theorem QMsm_self_transition:
  assumes "tree (qm_up tbl) rank"
  shows "QMsm_execute_tran tbl (qm_state m) (qm_state m) (m, tr) =
    (case superstate (tbl (qm_state m)) of
       None \<Rightarrow> QMsm_handle_nested_init tbl (m, tr)
     | Some p \<Rightarrow> QMsm_handle_nested_init tbl
         (m\<lparr>qm_history := (qm_history m)(p \<mapsto> qm_state m),
            qm_sm := do_entry tbl (qm_state m) (do_exit tbl (qm_state m) (qm_sm m))\<rparr>,
          tr_add (exit_recs [qm_state m] @ entry_recs [qm_state m]) tr))"
proof (cases "superstate (tbl (qm_state m))")
  case None
  then have "qm_lca tbl rank (qm_state m) (qm_state m) = Some (qm_state m)"
    using anc_unfold [OF assms, of "qm_state m"] by (simp add: qm_lca_def)
  with None show ?thesis
    using qm_execute_tran_tree [OF assms, of "qm_state m" m "qm_state m" tr] anc_unfold [OF assms, of "qm_state m"]
    by (simp add: qm_exits_def qm_entries_def before_def)
next
  case (Some p)
  obtain ps where p: "anc (qm_up tbl) rank p = p # ps" by (rule anc_Cons [OF assms])
  have ne: "qm_state m \<noteq> p" using Some assms by (auto simp: tree_def)
  have a: "anc (qm_up tbl) rank (qm_state m) = qm_state m # p # ps"
    using anc_unfold [OF assms, of "qm_state m"] Some p by simp
  then have "qm_lca tbl rank (qm_state m) (qm_state m) = Some p" using Some p by (simp add: qm_lca_def)
  with Some show ?thesis
    using qm_execute_tran_tree [OF assms, of "qm_state m" m "qm_state m" tr] a ne
    by (simp add: qm_exits_def qm_entries_def before_def remember_def)
qed

theorem QMsm_self_transition_witness:
  "QMsm_execute_tran qm_demo_table 1 1 (QMsm_new 0 1, Some []) =
     QMsm_handle_nested_init qm_demo_table (QMsm_new 0 1, Some [])"
proof -
  have "tree (qm_up qm_demo_table) qm_demo_rank" using qm_demo_wf by (simp add: qm_wf_def)
  from QMsm_self_transition [OF this, of "QMsm_new 0 1" "Some []"] show ?thesis
    by (simp add: QMsm_new_def qm_demo_table_def [of 1])
qed

end
