(* ===== verification/MPool.thy ===== *)
theory MPool
  imports Dis
begin

text \<open>
  The fixed-size block pool, \<open>crates/qf/src/pool.rs\<close>. Memory is a map from byte addresses of
  aligned \<open>usize\<close> words to their contents; pointers are addresses, 0 the null pointer. Each free
  block holds the index of the next one in its first two words. Callers own the blocks they were
  given and may write anything there, so the pool is studied as a step relation in which calls of
  \<open>get\<close> and \<open>put\<close> interleave with arbitrary client writes.
\<close>

section \<open>Model\<close>

type_synonym memory = "nat \<Rightarrow> u64"

definition SENTINEL :: u64 where "SENTINEL = - 1"

definition align_up :: "nat \<Rightarrow> nat" where
  "align_up n = (n + 7) div 8 * 8"

record QMPool =
  mp_storage :: nat
  mp_storage_len :: nat
  mp_block_size :: nat
  mp_num_blocks :: nat
  mp_free_head :: "u64 dis"
  mp_free_cnt :: "u64 dis"
  mp_free_min :: "u64 dis"

definition QMPool_uninit :: QMPool where
  "QMPool_uninit = \<lparr>mp_storage = 0, mp_storage_len = 0, mp_block_size = 0, mp_num_blocks = 0,
     mp_free_head = Dis_new SENTINEL, mp_free_cnt = Dis_new 0, mp_free_min = Dis_new 0\<rparr>"

definition block_link :: "nat \<Rightarrow> nat \<Rightarrow> u64" where
  "block_link n i = (if i + 1 < n then of_nat (i + 1) else SENTINEL)"

definition write_links :: "nat \<Rightarrow> nat \<Rightarrow> nat \<Rightarrow> memory \<Rightarrow> memory" where
  "write_links start blk n mem =
     fold (\<lambda>i m. m(start + i * blk := block_link n i, start + i * blk + 8 := block_link n i)) [0..<n] mem"

text \<open>\<open>raw\<close> and \<open>len\<close> are the address and length of the storage slice.\<close>

definition QMPool_init ::
    "nat \<Rightarrow> nat \<Rightarrow> nat \<Rightarrow> memory \<Rightarrow> QMPool \<Rightarrow> (nat \<times> memory \<times> QMPool) result" where
  "QMPool_init raw len block_size mem p =
     rbind (ensure Panic (block_size > 0)) (\<lambda>_.
       let blk = max (align_up block_size) 16; start = align_up raw; offset = start - raw;
           total = len - offset; n = total div blk
       in rbind (ensure Panic (n > 0)) (\<lambda>_.
            Inr (n, write_links start blk n mem,
              p\<lparr>mp_storage := start, mp_storage_len := total, mp_block_size := blk, mp_num_blocks := n,
                mp_free_head := Dis_new 0, mp_free_cnt := Dis_new (of_nat n), mp_free_min := Dis_new (of_nat n)\<rparr>)))"

definition QMPool_get :: "nat \<Rightarrow> memory \<Rightarrow> QMPool \<Rightarrow> (nat option \<times> QMPool) result" where
  "QMPool_get margin mem p =
     rbind (Dis_get (mp_free_cnt p)) (\<lambda>free_cnt.
       if free_cnt = 0 \<or> unat free_cnt - 1 < margin then Inr (None, p)
       else rbind (Dis_get (mp_free_head p)) (\<lambda>head.
         if head = SENTINEL then Inr (None, p)
         else
           let ptr = mp_storage p + unat head * mp_block_size p; next = mem ptr
           in if next \<noteq> mem (ptr + 8) then Inl OnError
              else
                let new_free = free_cnt - 1;
                    p1 = p\<lparr>mp_free_head := Dis_new next, mp_free_cnt := Dis_new new_free\<rparr>
                in rbind (Dis_get (mp_free_min p)) (\<lambda>free_min.
                     Inr (Some ptr, if new_free < free_min then p1\<lparr>mp_free_min := Dis_new new_free\<rparr> else p1))))"

text \<open>
  \<open>offset_from\<close> cast to \<open>usize\<close> wraps for a pointer below the storage. The debug assertions of
  the checked build are faults; so is the division by the block size of a pool that was never
  initialised.
\<close>

definition QMPool_put :: "nat \<Rightarrow> memory \<Rightarrow> QMPool \<Rightarrow> (memory \<times> QMPool) result" where
  "QMPool_put block mem p =
     (let offset = (if mp_storage p \<le> block then block - mp_storage p else 2 ^ 64 - (mp_storage p - block));
          idx = offset div mp_block_size p
      in rbind (ensure Panic (mp_block_size p \<noteq> 0 \<and> idx < mp_num_blocks p \<and> offset mod mp_block_size p = 0)) (\<lambda>_.
           rbind (Dis_get (mp_free_head p)) (\<lambda>old_head.
             rbind (Dis_get (mp_free_cnt p)) (\<lambda>cnt.
               rbind (ensure Panic (cnt \<noteq> - 1)) (\<lambda>_.
                 Inr (mem(block := old_head, block + 8 := old_head),
                      p\<lparr>mp_free_head := Dis_new (of_nat idx), mp_free_cnt := Dis_new (cnt + 1)\<rparr>))))))"

definition QMPool_get_free :: "QMPool \<Rightarrow> nat result" where
  "QMPool_get_free p = rbind (Dis_get (mp_free_cnt p)) (\<lambda>c. Inr (unat c))"

definition QMPool_get_use :: "QMPool \<Rightarrow> nat result" where
  "QMPool_get_use p = rbind (QMPool_get_free p) (\<lambda>c.
     if c \<le> mp_num_blocks p then Inr (mp_num_blocks p - c) else Inl Panic)"

definition QMPool_get_min :: "QMPool \<Rightarrow> nat result" where
  "QMPool_get_min p = rbind (Dis_get (mp_free_min p)) (\<lambda>c. Inr (unat c))"

definition QMPool_can_serve :: "nat \<Rightarrow> QMPool \<Rightarrow> bool" where
  "QMPool_can_serve sz p \<longleftrightarrow> sz \<le> mp_block_size p"

definition QMPool_is_init :: "QMPool \<Rightarrow> bool" where
  "QMPool_is_init p \<longleftrightarrow> mp_storage p \<noteq> 0"

section \<open>Pools in use\<close>

text \<open>The blocks \<open>U\<close> a pool's clients own, and what the clients may do to memory.\<close>

definition in_block :: "QMPool \<Rightarrow> nat \<Rightarrow> nat \<Rightarrow> bool" where
  "in_block p a x \<longleftrightarrow> a \<le> x \<and> x < a + mp_block_size p"

definition client_write :: "QMPool \<Rightarrow> nat set \<Rightarrow> memory \<Rightarrow> memory \<Rightarrow> bool" where
  "client_write p U mem mem' \<longleftrightarrow> (\<forall>x. mem' x \<noteq> mem x \<longrightarrow>
     (\<exists>a\<in>U. in_block p a x) \<or> x < mp_storage p \<or> mp_storage p + mp_num_blocks p * mp_block_size p \<le> x)"

inductive mp_reach :: "QMPool \<Rightarrow> memory \<Rightarrow> nat set \<Rightarrow> bool" where
  mp_start: "0 < raw \<Longrightarrow> raw + len \<le> 2 ^ 64 \<Longrightarrow> QMPool_init raw len bs mem0 p0 = Inr (n, mem, p) \<Longrightarrow> mp_reach p mem {}"
| mp_get: "mp_reach p mem U \<Longrightarrow> QMPool_get margin mem p = Inr (Some a, p') \<Longrightarrow> mp_reach p' mem (insert a U)"
| mp_miss: "mp_reach p mem U \<Longrightarrow> QMPool_get margin mem p = Inr (None, p') \<Longrightarrow> mp_reach p' mem U"
| mp_put: "mp_reach p mem U \<Longrightarrow> a \<in> U \<Longrightarrow> QMPool_put a mem p = Inr (mem', p') \<Longrightarrow> mp_reach p' mem' (U - {a})"
| mp_write: "mp_reach p mem U \<Longrightarrow> client_write p U mem mem' \<Longrightarrow> mp_reach p mem' U"

section \<open>Invariant\<close>

abbreviation mp_addr :: "QMPool \<Rightarrow> nat \<Rightarrow> nat" where
  "mp_addr p i \<equiv> mp_storage p + i * mp_block_size p"

fun linked :: "QMPool \<Rightarrow> memory \<Rightarrow> u64 \<Rightarrow> nat list \<Rightarrow> bool" where
  "linked p mem h [] \<longleftrightarrow> h = SENTINEL"
| "linked p mem h (i # is) \<longleftrightarrow> h = of_nat i \<and> mem (mp_addr p i + 8) = mem (mp_addr p i) \<and>
     linked p mem (mem (mp_addr p i)) is"

definition mp_shape :: "QMPool \<Rightarrow> bool" where
  "mp_shape p \<longleftrightarrow> 16 \<le> mp_block_size p \<and> 8 dvd mp_block_size p \<and> 0 < mp_storage p \<and> 8 dvd mp_storage p \<and>
     0 < mp_num_blocks p \<and> mp_num_blocks p * mp_block_size p \<le> mp_storage_len p \<and> mp_num_blocks p < 2 ^ 63"

definition mp_inv :: "QMPool \<Rightarrow> memory \<Rightarrow> nat list \<Rightarrow> bool" where
  "mp_inv p mem free \<longleftrightarrow> mp_shape p \<and> distinct free \<and> set free \<subseteq> {..<mp_num_blocks p} \<and>
     Dis_is_intact (mp_free_head p) \<and> Dis_is_intact (mp_free_cnt p) \<and> Dis_is_intact (mp_free_min p) \<and>
     dis_value (mp_free_cnt p) = of_nat (length free) \<and>
     dis_value (mp_free_min p) \<le> dis_value (mp_free_cnt p) \<and>
     linked p mem (dis_value (mp_free_head p)) free"

section \<open>Lemmas\<close>

lemma Dis_get_intact [simp]: "Dis_is_intact d \<Longrightarrow> Dis_get d = Inr (dis_value d)"
  by (simp add: Dis_is_intact_iff)

lemma mp_free_length: "mp_inv p mem free \<Longrightarrow> length free \<le> mp_num_blocks p"
  unfolding mp_inv_def by (metis card_lessThan card_mono distinct_card finite_lessThan)

lemma mp_free_unat: "mp_inv p mem free \<Longrightarrow> unat (of_nat (length free) :: u64) = length free"
  using mp_free_length [of p mem free] by (auto simp: unat_of_nat mp_inv_def mp_shape_def)

lemma mp_index_unat: "mp_shape p \<Longrightarrow> i < mp_num_blocks p \<Longrightarrow> unat (of_nat i :: u64) = i"
  by (simp add: unat_of_nat mp_shape_def)

lemma mp_index_not_sentinel:
  assumes "mp_shape p" "i < mp_num_blocks p"
  shows "(of_nat i :: u64) \<noteq> SENTINEL"
proof
  assume "(of_nat i :: u64) = SENTINEL"
  then have "(of_nat (i + 1) :: u64) = 0" by (simp add: SENTINEL_def)
  then have "2 ^ 64 dvd i + 1" by (simp only: word_of_nat_eq_0_iff) simp
  with assms show False by (auto simp: mp_shape_def dest: dvd_imp_le)
qed

lemma linked_cong:
  "(\<And>i. i \<in> set is \<Longrightarrow> mem' (mp_addr p i) = mem (mp_addr p i) \<and> mem' (mp_addr p i + 8) = mem (mp_addr p i + 8)) \<Longrightarrow>
   linked p mem' h is = linked p mem h is"
  by (induction "is" arbitrary: h) auto

lemma linked_pool_cong:
  "mp_storage p' = mp_storage p \<Longrightarrow> mp_block_size p' = mp_block_size p \<Longrightarrow> linked p' mem h is = linked p mem h is"
  by (induction "is" arbitrary: h) auto

lemma mp_addr_sep:
  assumes "mp_shape p" "i \<noteq> j"
  shows "mp_addr p i + mp_block_size p \<le> mp_addr p j \<or> mp_addr p j + mp_block_size p \<le> mp_addr p i"
proof (cases "i < j")
  case True
  then have "(i + 1) * mp_block_size p \<le> j * mp_block_size p" by (intro mult_right_mono) auto
  then show ?thesis by simp
next
  case False
  with assms have "(j + 1) * mp_block_size p \<le> i * mp_block_size p" by (intro mult_right_mono) auto
  then show ?thesis by simp
qed

lemma mp_addr_inj: "mp_shape p \<Longrightarrow> inj (mp_addr p)"
  by (auto simp: inj_def mp_shape_def)

lemma mp_block_in_storage:
  assumes "mp_shape p" "i < mp_num_blocks p"
  shows "mp_addr p i + mp_block_size p \<le> mp_storage p + mp_num_blocks p * mp_block_size p"
proof -
  have "(i + 1) * mp_block_size p \<le> mp_num_blocks p * mp_block_size p" using assms by (intro mult_right_mono) auto
  then show ?thesis by simp
qed

lemma stride_sep:
  assumes "16 \<le> (blk :: nat)"
  shows "st + j * blk \<noteq> st + k * blk + 8"
proof (cases "j \<le> k")
  case True
  then have "j * blk \<le> k * blk" by (intro mult_right_mono) auto
  then show ?thesis by linarith
next
  case False
  then have "(k + 1) * blk \<le> j * blk" by (intro mult_right_mono) auto
  with assms show ?thesis by simp
qed

lemma write_links_upto:
  fixes mem :: memory and n st :: nat
  assumes "16 \<le> blk"
  defines "w \<equiv> \<lambda>k. fold (\<lambda>i m. m(st + i * blk := block_link n i, st + i * blk + 8 := block_link n i)) [0..<k] mem"
  shows "j < k \<Longrightarrow> w k (st + j * blk) = block_link n j \<and> w k (st + j * blk + 8) = block_link n j"
proof (induction k)
  case 0
  then show ?case by simp
next
  case (Suc k)
  have "w (Suc k) = (w k)(st + k * blk := block_link n k, st + k * blk + 8 := block_link n k)"
    by (simp add: w_def)
  moreover have "st + j * blk \<noteq> st + k * blk + 8" by (rule stride_sep [OF assms(1)])
  moreover have "st + j * blk + 8 \<noteq> st + k * blk" by (rule stride_sep [OF assms(1), symmetric])
  moreover have "st + j * blk = st + k * blk \<longleftrightarrow> j = k" using assms(1) by simp
  ultimately show ?case using Suc by (auto simp: less_Suc_eq)
qed

lemma write_links_read:
  "16 \<le> blk \<Longrightarrow> j < n \<Longrightarrow> write_links st blk n mem (st + j * blk) = block_link n j \<and>
     write_links st blk n mem (st + j * blk + 8) = block_link n j"
  unfolding write_links_def by (rule write_links_upto)

lemma mp_init_inv:
  assumes "0 < raw" "raw + len \<le> 2 ^ 64" "QMPool_init raw len bs mem0 p0 = Inr (n, mem, p)"
  shows "mp_inv p mem [0..<mp_num_blocks p]"
proof -
  let ?blk = "max (align_up bs) 16" and ?st = "align_up raw"
  let ?total = "len - (?st - raw)"
  from assms(3) have n: "n = ?total div ?blk" "0 < n" and mem: "mem = write_links ?st ?blk n mem0"
    and p: "p = p0\<lparr>mp_storage := ?st, mp_storage_len := ?total, mp_block_size := ?blk, mp_num_blocks := n,
      mp_free_head := Dis_new 0, mp_free_cnt := Dis_new (of_nat n), mp_free_min := Dis_new (of_nat n)\<rparr>"
    by (auto simp: QMPool_init_def res_simps Let_def)
  have "n * 16 \<le> n * ?blk" by (intro mult_left_mono) simp_all
  also have "n * ?blk \<le> ?total" unfolding n(1) by (rule div_times_less_eq_dividend)
  finally have "n * 16 \<le> 2 ^ 64" using assms(2) by linarith
  then have "n < 2 ^ 63" by simp
  moreover have "8 dvd ?blk" by (auto simp: align_up_def max_def)
  moreover have "8 dvd ?st" "raw \<le> ?st" by (auto simp: align_up_def)
  moreover have "n * ?blk \<le> ?total" unfolding n(1) by (rule div_times_less_eq_dividend)
  ultimately have shape: "mp_shape p"
    using n(2) assms(1) unfolding p mp_shape_def by (auto simp del: max_def)
  have link: "mem (mp_addr p j) = block_link n j" "mem (mp_addr p j + 8) = block_link n j" if "j < n" for j
    using write_links_read [of ?blk j n ?st mem0] that unfolding mem p by simp_all
  have "linked p mem (if j < n then of_nat j else SENTINEL) [j..<n]" if "j \<le> n" for j
    using that
  proof (induction "n - j" arbitrary: j)
    case 0
    then show ?case by simp
  next
    case (Suc x)
    then have "linked p mem (if Suc j < n then of_nat (Suc j) else SENTINEL) [Suc j..<n]" by auto
    moreover have j: "j < n" using Suc.hyps(2) by simp
    ultimately have "linked p mem (of_nat j) (j # [Suc j..<n])"
      using link [OF j] unfolding linked.simps block_link_def by (simp only: Suc_eq_plus1)
    then show ?case using j by (simp only: upt_conv_Cons if_True)
  qed
  from this [of 0] n(2) have "linked p mem 0 [0..<n]" by simp
  then show ?thesis using shape by (auto simp: mp_inv_def p Dis_new_def Dis_is_intact_def)
qed

lemma mp_get_inv:
  assumes "mp_inv p mem free"
  shows "QMPool_get margin mem p =
    (if length free \<le> margin then Inr (None, p)
     else Inr (Some (mp_addr p (hd free)),
       p\<lparr>mp_free_head := Dis_new (mem (mp_addr p (hd free))), mp_free_cnt := Dis_new (of_nat (length free) - 1),
         mp_free_min := (if of_nat (length free) - 1 < dis_value (mp_free_min p)
            then Dis_new (of_nat (length free) - 1) else mp_free_min p)\<rparr>))"
proof (cases "length free \<le> margin")
  case True
  have "of_nat (length free) = (0 :: u64) \<or> unat (of_nat (length free) :: u64) - 1 < margin"
    using True mp_free_unat [OF assms] by (cases "length free") auto
  then show ?thesis using True assms by (simp add: QMPool_get_def mp_inv_def)
next
  case False
  then obtain i "is" where free: "free = i # is" by (cases free) auto
  have i: "i < mp_num_blocks p" and shape: "mp_shape p" using assms free by (auto simp: mp_inv_def)
  have u: "unat (of_nat (length free) :: u64) = length free" by (rule mp_free_unat [OF assms])
  then have "of_nat (length free) \<noteq> (0 :: u64)" using free by (metis length_0_conv list.distinct(1) unat_0)
  moreover have "\<not> unat (of_nat (length free) :: u64) - 1 < margin" using u False by linarith
  ultimately show ?thesis
    using False assms free mp_index_unat [OF shape i] mp_index_not_sentinel [OF shape i]
    by (simp add: QMPool_get_def mp_inv_def Let_def)
qed

definition mp_used :: "QMPool \<Rightarrow> nat list \<Rightarrow> nat set" where
  "mp_used p free = mp_addr p ` ({..<mp_num_blocks p} - set free)"

lemma mp_used_Cons:
  assumes "mp_shape p"
  shows "mp_used p (i # free) = mp_used p free - {mp_addr p i}"
proof -
  have "{..<mp_num_blocks p} - set (i # free) = ({..<mp_num_blocks p} - set free) - {i}" by auto
  then have "mp_used p (i # free) = mp_addr p ` (({..<mp_num_blocks p} - set free) - {i})"
    by (simp only: mp_used_def)
  also have "\<dots> = mp_used p free - mp_addr p ` {i}"
    unfolding mp_used_def by (rule image_set_diff [OF mp_addr_inj [OF assms]])
  finally show ?thesis by simp
qed

lemma mp_used_cong:
  "mp_storage p' = mp_storage p \<Longrightarrow> mp_block_size p' = mp_block_size p \<Longrightarrow> mp_num_blocks p' = mp_num_blocks p \<Longrightarrow>
   mp_used p' free = mp_used p free"
  by (simp add: mp_used_def)

lemma of_nat_Suc_minus [simp]: "of_nat (Suc n) - 1 = (of_nat n :: u64)"
  by simp

lemma mp_get_step:
  assumes "mp_inv p mem free" "QMPool_get margin mem p = Inr (Some a, p')"
  obtains i free' where "free = i # free'" "a = mp_addr p i" "mp_inv p' mem free'"
    "mp_storage p' = mp_storage p" "mp_block_size p' = mp_block_size p" "mp_num_blocks p' = mp_num_blocks p"
proof -
  from assms have m: "\<not> length free \<le> margin" by (auto simp: mp_get_inv [OF assms(1)])
  then obtain i free' where free: "free = i # free'" by (cases free) auto
  let ?p = "p\<lparr>mp_free_head := Dis_new (mem (mp_addr p i)), mp_free_cnt := Dis_new (of_nat (length free')),
      mp_free_min := (if of_nat (length free') < dis_value (mp_free_min p)
        then Dis_new (of_nat (length free')) else mp_free_min p)\<rparr>"
  have eq: "a = mp_addr p i" "p' = ?p"
    using assms(2) m unfolding mp_get_inv [OF assms(1)] by (auto simp: free)
  have "linked p mem (mem (mp_addr p i)) free'" using assms(1) free by (simp add: mp_inv_def)
  then have "linked ?p mem (mem (mp_addr p i)) free'" by (simp add: linked_pool_cong [of ?p p])
  then have "mp_inv ?p mem free'" using assms(1) free by (auto simp: mp_inv_def mp_shape_def Dis_new_def Dis_is_intact_def not_less)
  with eq free show thesis by (intro that [of i free']) simp_all
qed

lemma mp_put_step:
  assumes inv: "mp_inv p mem free" and i: "i < mp_num_blocks p" "i \<notin> set free"
  obtains mem' p' where "QMPool_put (mp_addr p i) mem p = Inr (mem', p')" "mp_inv p' mem' (i # free)"
    "mp_storage p' = mp_storage p" "mp_block_size p' = mp_block_size p" "mp_num_blocks p' = mp_num_blocks p"
proof -
  have sh: "mp_shape p" and b: "mp_block_size p \<noteq> 0" using inv by (auto simp: mp_inv_def mp_shape_def)
  let ?h = "dis_value (mp_free_head p)"
  let ?mem = "mem(mp_addr p i := ?h, mp_addr p i + 8 := ?h)"
  let ?p = "p\<lparr>mp_free_head := Dis_new (of_nat i), mp_free_cnt := Dis_new (of_nat (length free) + 1)\<rparr>"
  have "insert i (set free) \<subseteq> {..<mp_num_blocks p}" using inv i by (auto simp: mp_inv_def)
  then have len: "Suc (length free) \<le> mp_num_blocks p"
    using card_mono [of "{..<mp_num_blocks p}" "insert i (set free)"] inv i
    by (simp add: mp_inv_def distinct_card)
  have "length free < mp_num_blocks p" using len by simp
  from mp_index_not_sentinel [OF sh this] have cnt: "(of_nat (length free) :: u64) \<noteq> - 1"
    by (simp add: SENTINEL_def)
  have put: "QMPool_put (mp_addr p i) mem p = Inr (?mem, ?p)"
    using inv i b cnt by (simp add: QMPool_put_def mp_inv_def Let_def)
  have "linked p ?mem ?h free = linked p mem ?h free"
  proof (rule linked_cong)
    fix j assume "j \<in> set free"
    then have "mp_addr p j + mp_block_size p \<le> mp_addr p i \<or> mp_addr p i + mp_block_size p \<le> mp_addr p j"
      using mp_addr_sep [OF sh, of j i] i by auto
    then show "?mem (mp_addr p j) = mem (mp_addr p j) \<and> ?mem (mp_addr p j + 8) = mem (mp_addr p j + 8)"
      using sh by (auto simp: mp_shape_def)
  qed
  then have "linked ?p ?mem ?h free" using inv by (simp add: mp_inv_def linked_pool_cong [of ?p p])
  then have l: "linked ?p ?mem (of_nat i) (i # free)" by simp
  have "(of_nat (length free) :: u64) \<le> 1 + of_nat (length free)" 
    using len sh mp_free_unat [OF inv] unfolding of_nat_Suc [symmetric] word_le_nat_alt
    by (simp add: unat_of_nat mp_shape_def del: of_nat_Suc)
  then have mn: "dis_value (mp_free_min p) \<le> of_nat (length free) + 1"
    using inv by (auto simp: mp_inv_def add.commute intro: order_trans)
  have "mp_inv ?p ?mem (i # free)"
    using inv i l mn by (simp add: mp_inv_def mp_shape_def Dis_new_def Dis_is_intact_def add.commute)
  then show thesis by (intro that [of ?mem ?p] put) simp_all
qed

lemma mp_write_step:
  assumes inv: "mp_inv p mem free" and w: "client_write p (mp_used p free) mem mem'"
  shows "mp_inv p mem' free"
proof -
  have sh: "mp_shape p" using inv by (simp add: mp_inv_def)
  have same: "mem' x = mem x" if i: "i \<in> set free" and x: "in_block p (mp_addr p i) x" for i x
  proof (rule ccontr)
    assume "mem' x \<noteq> mem x"
    with w consider (used) a where "a \<in> mp_used p free" "in_block p a x"
      | (out) "x < mp_storage p \<or> mp_storage p + mp_num_blocks p * mp_block_size p \<le> x"
      unfolding client_write_def by blast
    then show False
    proof cases
      case used
      then obtain j where j: "a = mp_addr p j" "j \<notin> set free" by (auto simp: mp_used_def)
      with i have "j \<noteq> i" by auto
      from mp_addr_sep [OF sh this] used(2) x j(1) show False by (auto simp: in_block_def)
    next
      case out
      have "i < mp_num_blocks p" using inv i by (auto simp: mp_inv_def)
      from mp_block_in_storage [OF sh this] out x show False by (auto simp: in_block_def)
    qed
  qed
  have "linked p mem' (dis_value (mp_free_head p)) free = linked p mem (dis_value (mp_free_head p)) free"
    by (rule linked_cong) (use same sh in \<open>auto simp: in_block_def mp_shape_def\<close>)
  with inv show ?thesis by (auto simp: mp_inv_def)
qed

lemma mp_reach_inv:
  assumes "mp_reach p mem U"
  shows "\<exists>free. mp_inv p mem free \<and> U = mp_used p free"
  using assms
proof (induction rule: mp_reach.induct)
  case (mp_start raw len bs mem0 p0 n mem p)
  from mp_init_inv [OF this] show ?case by (intro exI [of _ "[0..<mp_num_blocks p]"]) (auto simp: mp_used_def)
next
  case (mp_get p mem U margin a p')
  then obtain free where inv: "mp_inv p mem free" and U: "U = mp_used p free" by blast
  obtain i free' where i: "free = i # free'" "a = mp_addr p i" "mp_inv p' mem free'"
    and f: "mp_storage p' = mp_storage p" "mp_block_size p' = mp_block_size p" "mp_num_blocks p' = mp_num_blocks p"
    using mp_get_step [OF inv mp_get.hyps(2)] by metis
  have "i \<notin> set free'" "i < mp_num_blocks p" using inv i by (auto simp: mp_inv_def)
  then have "{..<mp_num_blocks p} - set free' = insert i ({..<mp_num_blocks p} - set free)" using i by auto
  with i f U show ?case by (intro exI [of _ free']) (simp add: mp_used_def)
next
  case (mp_miss p mem U margin p')
  then obtain free where "mp_inv p mem free" "U = mp_used p free" by blast
  with mp_miss.hyps show ?case by (auto simp: mp_get_inv split: if_splits)
next
  case (mp_put p mem U a mem' p')
  then obtain free where inv: "mp_inv p mem free" and U: "U = mp_used p free" by blast
  with mp_put.hyps obtain i where i: "a = mp_addr p i" "i < mp_num_blocks p" "i \<notin> set free" by (auto simp: mp_used_def)
  obtain m q where q: "QMPool_put (mp_addr p i) mem p = Inr (m, q)" "mp_inv q m (i # free)"
    and f: "mp_storage q = mp_storage p" "mp_block_size q = mp_block_size p" "mp_num_blocks q = mp_num_blocks p"
    using mp_put_step [OF inv i(2,3)] by metis
  have "mp_used q (i # free) = U - {a}"
    using mp_used_Cons [of p i free] inv mp_used_cong [OF f] by (simp add: U i(1) mp_inv_def)
  with q mp_put.hyps i show ?case by (intro exI [of _ "i # free"]) simp
next
  case (mp_write p mem U mem')
  then show ?case using mp_write_step by blast
qed

lemma mp_used_card:
  assumes "mp_inv p mem free"
  shows "card (mp_used p free) = mp_num_blocks p - length free"
proof -
  have "card (mp_used p free) = card ({..<mp_num_blocks p} - set free)"
    unfolding mp_used_def
    by (rule card_image) (use assms mp_addr_inj in \<open>auto simp: mp_inv_def intro: inj_on_subset\<close>)
  also have "\<dots> = mp_num_blocks p - length free"
    using assms by (simp add: mp_inv_def card_Diff_subset distinct_card)
  finally show ?thesis .
qed

section \<open>Demonstration pool\<close>

text \<open>Two blocks of 16 bytes in 40 bytes of storage at address 1001.\<close>

definition mp_demo :: "(nat \<times> memory \<times> QMPool) result" where
  "mp_demo = QMPool_init 1001 40 10 (\<lambda>_. 0) QMPool_uninit"

definition mp_demo_pool :: QMPool where
  "mp_demo_pool = snd (snd (projr mp_demo))"

definition mp_demo_mem :: memory where
  "mp_demo_mem = fst (snd (projr mp_demo))"

lemma mp_demo_eq: "mp_demo = Inr (2, mp_demo_mem, mp_demo_pool)"
  by (simp add: mp_demo_mem_def mp_demo_pool_def mp_demo_def QMPool_init_def align_up_def)

lemma mp_demo_reach: "mp_reach mp_demo_pool mp_demo_mem {}"
  using mp_demo_eq unfolding mp_demo_def by (intro mp_start [of 1001 40]) simp_all

lemma mp_demo_get:
  "QMPool_get 0 mp_demo_mem mp_demo_pool =
     Inr (Some 1008, snd (projr (QMPool_get 0 mp_demo_mem mp_demo_pool)))"
  by code_simp

definition mp_demo_pool1 :: QMPool where
  "mp_demo_pool1 = snd (projr (QMPool_get 0 mp_demo_mem mp_demo_pool))"

lemma mp_demo_reach1: "mp_reach mp_demo_pool1 mp_demo_mem {1008}"
  using mp_get [OF mp_demo_reach mp_demo_get] by (simp add: mp_demo_pool1_def)

section \<open>Properties\<close>

text \<open>
  C5: In every state a pool can reach, with clients writing whatever they like into the blocks they
  own, \<open>get\<close> does not fault; it returns no block exactly when no more than \<open>margin\<close> blocks are
  free, and otherwise an aligned block inside the storage that overlaps no block in use.
\<close>

theorem QMPool_get_safe:
  assumes "mp_reach p mem U"
  shows "\<exists>r p'. QMPool_get margin mem p = Inr (r, p') \<and>
    (case r of
       None \<Rightarrow> mp_num_blocks p - card U \<le> margin \<and> p' = p
     | Some a \<Rightarrow> margin < mp_num_blocks p - card U \<and> 8 dvd a \<and> mp_storage p \<le> a \<and>
         a + mp_block_size p \<le> mp_storage p + mp_storage_len p \<and>
         (\<forall>b\<in>U. a + mp_block_size p \<le> b \<or> b + mp_block_size p \<le> a))"
proof -
  from mp_reach_inv [OF assms] obtain free where inv: "mp_inv p mem free" and U: "U = mp_used p free" by blast
  have card: "mp_num_blocks p - card U = length free"
    using mp_used_card [OF inv] mp_free_length [OF inv] U by simp
  show ?thesis
  proof (cases "length free \<le> margin")
    case True
    then show ?thesis by (simp add: mp_get_inv [OF inv] card)
  next
    case False
    then obtain i free' where free: "free = i # free'" by (cases free) auto
    have sh: "mp_shape p" and i: "i < mp_num_blocks p" using inv free by (auto simp: mp_inv_def)
    have "mp_addr p i + mp_block_size p \<le> b \<or> b + mp_block_size p \<le> mp_addr p i" if b: "b \<in> U" for b
    proof -
      obtain j where "b = mp_addr p j" "j \<noteq> i" using b free by (auto simp: U mp_used_def)
      then show ?thesis using mp_addr_sep [OF sh, of i j] by simp
    qed
    moreover have "mp_addr p i + mp_block_size p \<le> mp_storage p + mp_storage_len p"
      using mp_block_in_storage [OF sh i] sh unfolding mp_shape_def by linarith
    moreover have "8 dvd mp_addr p i" using sh by (simp add: mp_shape_def)
    ultimately show ?thesis using False by (simp add: mp_get_inv [OF inv] card free)
  qed
qed

theorem QMPool_get_safe_witness:
  "\<exists>r p'. QMPool_get 1 mp_demo_mem mp_demo_pool1 = Inr (r, p') \<and> (r = None \<or> r = Some 1024)"
proof -
  have v: "mp_num_blocks mp_demo_pool1 = 2" "mp_block_size mp_demo_pool1 = 16" "mp_storage mp_demo_pool1 = 1008"
    by code_simp+
  from QMPool_get_safe [OF mp_demo_reach1, of 1] obtain r p' where
    r: "QMPool_get 1 mp_demo_mem mp_demo_pool1 = Inr (r, p')"
    "case r of None \<Rightarrow> mp_num_blocks mp_demo_pool1 - card {1008 :: nat} \<le> 1 \<and> p' = mp_demo_pool1
     | Some a \<Rightarrow> 1 < mp_num_blocks mp_demo_pool1 - card {1008 :: nat} \<and> 8 dvd a \<and> mp_storage mp_demo_pool1 \<le> a \<and>
         a + mp_block_size mp_demo_pool1 \<le> mp_storage mp_demo_pool1 + mp_storage_len mp_demo_pool1 \<and>
         (\<forall>b\<in>{1008}. a + mp_block_size mp_demo_pool1 \<le> b \<or> b + mp_block_size mp_demo_pool1 \<le> a)"
    by blast
  then show ?thesis using v by (cases r) auto
qed

text \<open>
  Returning a block in use succeeds, and an immediate \<open>get\<close> hands out the same block; the
  counters report the blocks in use and the low-water mark never exceeds the free count.
\<close>

theorem QMPool_put_get:
  assumes "mp_reach p mem U" "a \<in> U"
  shows "\<exists>mem' p' p''. QMPool_put a mem p = Inr (mem', p') \<and> QMPool_get 0 mem' p' = Inr (Some a, p'') \<and>
    QMPool_get_free p' = Inr (mp_num_blocks p - card U + 1) \<and> QMPool_get_use p' = Inr (card U - 1) \<and>
    (\<exists>lo. QMPool_get_min p' = Inr lo \<and> lo \<le> mp_num_blocks p - card U)"
proof -
  from mp_reach_inv [OF assms(1)] obtain free where inv: "mp_inv p mem free" and U: "U = mp_used p free" by blast
  with assms obtain i where i: "a = mp_addr p i" "i < mp_num_blocks p" "i \<notin> set free" by (auto simp: mp_used_def)
  obtain mem' p' where put: "QMPool_put (mp_addr p i) mem p = Inr (mem', p')" "mp_inv p' mem' (i # free)"
    and f: "mp_storage p' = mp_storage p" "mp_block_size p' = mp_block_size p" "mp_num_blocks p' = mp_num_blocks p"
    using mp_put_step [OF inv i(2,3)] by metis
  have min_same: "mp_free_min p' = mp_free_min p"
    using put(1) by (auto simp: QMPool_put_def Let_def res_simps)
  have cnt: "unat (dis_value (mp_free_cnt p')) = length free + 1"
    using mp_free_unat [OF put(2)] put(2) by (simp add: mp_inv_def del: of_nat_Suc)
  have len: "length free + 1 \<le> mp_num_blocks p" using mp_free_length [OF put(2)] f by simp
  have card: "mp_num_blocks p - card U = length free" "card U = mp_num_blocks p - length free"
    using mp_used_card [OF inv] mp_free_length [OF inv] U by simp_all
  have lo: "unat (dis_value (mp_free_min p)) \<le> length free"
    using inv mp_free_unat [OF inv] by (auto simp: mp_inv_def word_le_nat_alt)
  have "QMPool_get 0 mem' p' = Inr (Some a, snd (projr (QMPool_get 0 mem' p')))"
    by (simp add: mp_get_inv [OF put(2)] f i)
  moreover have "QMPool_get_free p' = Inr (length free + 1)"
    using put(2) cnt by (simp add: QMPool_get_free_def mp_inv_def)
  moreover from this have "QMPool_get_use p' = Inr (card U - 1)"
    using len f card by (simp add: QMPool_get_use_def)
  moreover have "QMPool_get_min p' = Inr (unat (dis_value (mp_free_min p)))"
    using inv by (simp add: QMPool_get_min_def min_same mp_inv_def)
  ultimately show ?thesis using put(1) i(1) card(1) lo by auto
qed

theorem QMPool_put_get_witness:
  "\<exists>mem' p' p''. QMPool_put 1008 mp_demo_mem mp_demo_pool1 = Inr (mem', p') \<and>
     QMPool_get 0 mem' p' = Inr (Some 1008, p'')"
  using QMPool_put_get [OF mp_demo_reach1, of 1008] by blast

end
