(* ===== verification/EventPool.thy ===== *)
theory EventPool
  imports MPool Active
begin

text \<open>
  The registry of event pools and pool-allocated events, \<open>crates/qf/src/event_pool.rs\<close>, and the
  reference-counted payload handle of the heap-free build, \<open>crates/qf/src/pool_arc.rs\<close>. The
  per-slot spin lock makes each operation on a slot atomic; a registry is driven by one thread of
  calls here. Sizes and alignments of Rust types are parameters.
\<close>

section \<open>Trace records\<close>

definition QS_QF_NEW :: u8 where "QS_QF_NEW = 28"
definition QS_QF_GC :: u8 where "QS_QF_GC = 30"
definition QS_QF_MPOOL_GET :: u8 where "QS_QF_MPOOL_GET = 24"
definition QS_QF_MPOOL_PUT :: u8 where "QS_QF_MPOOL_PUT = 25"
definition QS_QF_NEW_ATTEMPT :: u8 where "QS_QF_NEW_ATTEMPT = 23"

definition emit_new :: "u16 \<Rightarrow> u8 \<Rightarrow> trace \<Rightarrow> trace" where
  "emit_new sz pid = emit QS_QF_NEW (le16 sz @ [pid]) True"

definition emit_new_attempt :: "u16 \<Rightarrow> u8 \<Rightarrow> u16 \<Rightarrow> u16 \<Rightarrow> trace \<Rightarrow> trace" where
  "emit_new_attempt sz pid free tot = emit QS_QF_NEW_ATTEMPT (le16 sz @ [pid] @ le16 free @ le16 tot) True"

definition emit_gc :: "u8 \<Rightarrow> trace \<Rightarrow> trace" where
  "emit_gc pid = emit QS_QF_GC [pid] True"

definition emit_mpool_get :: "u8 \<Rightarrow> u16 \<Rightarrow> u16 \<Rightarrow> trace \<Rightarrow> trace" where
  "emit_mpool_get pid free tot = emit QS_QF_MPOOL_GET ([pid] @ le16 free @ le16 tot) True"

definition emit_mpool_put :: "u8 \<Rightarrow> u16 \<Rightarrow> u16 \<Rightarrow> trace \<Rightarrow> trace" where
  "emit_mpool_put pid free tot = emit QS_QF_MPOOL_PUT ([pid] @ le16 free @ le16 tot) True"

section \<open>The registry\<close>

definition MAX_POOLS :: nat where "MAX_POOLS = 15"

record PoolRegistry =
  pr_slots :: "QMPool list"
  pr_count :: nat

definition PoolRegistry_new :: PoolRegistry where
  "PoolRegistry_new = \<lparr>pr_slots = replicate MAX_POOLS QMPool_uninit, pr_count = 0\<rparr>"

text \<open>
  The counter is incremented before the registration is checked, and keeps its new value when the
  registration panics, so the registry is returned beside the result.
\<close>

definition PoolRegistry_init_pool ::
    "nat \<Rightarrow> nat \<Rightarrow> nat \<Rightarrow> memory \<Rightarrow> PoolRegistry \<Rightarrow> PoolRegistry \<times> (u8 \<times> memory) result" where
  "PoolRegistry_init_pool raw len bs mem r =
     (let idx = pr_count r; r1 = r\<lparr>pr_count := idx + 1\<rparr>
      in if \<not> idx < MAX_POOLS then (r1, Inl Panic)
         else case QMPool_init raw len bs mem (pr_slots r ! idx) of
                Inl f \<Rightarrow> (r1, Inl f)
              | Inr (_, mem', p) \<Rightarrow>
                  (r1\<lparr>pr_slots := (pr_slots r)[idx := p]\<rparr>, Inr (of_nat (idx + 1), mem')))"

primrec alloc_scan ::
    "nat \<Rightarrow> nat \<Rightarrow> nat \<Rightarrow> nat \<Rightarrow> memory \<Rightarrow> trace \<Rightarrow> PoolRegistry \<Rightarrow> ((u8 \<times> nat) option \<times> trace \<times> PoolRegistry) result" where
  "alloc_scan 0 i sz margin mem tr r = Inr (None, tr, r)"
| "alloc_scan (Suc k) i sz margin mem tr r =
     (if \<not> i < length (pr_slots r) then Inl Panic
      else let p = pr_slots r ! i
           in if \<not> QMPool_can_serve sz p then alloc_scan k (i + 1) sz margin mem tr r
              else rbind (QMPool_get margin mem p) (\<lambda>(o', p').
                     rbind (QMPool_get_free p') (\<lambda>free.
                       case o' of
                         Some ptr \<Rightarrow>
                           Inr (Some (of_nat (i + 1), ptr),
                             emit_new (of_nat sz) (of_nat (i + 1))
                               (emit_mpool_get (of_nat (i + 1)) (of_nat free) (of_nat (mp_num_blocks p')) tr),
                             r\<lparr>pr_slots := (pr_slots r)[i := p']\<rparr>)
                       | None \<Rightarrow>
                           alloc_scan k (i + 1) sz margin mem
                             (emit_new_attempt (of_nat sz) (of_nat (i + 1)) (of_nat free) (of_nat (mp_num_blocks p')) tr)
                             r)))"

definition PoolRegistry_alloc ::
    "nat \<Rightarrow> nat \<Rightarrow> memory \<Rightarrow> trace \<Rightarrow> PoolRegistry \<Rightarrow> ((u8 \<times> nat) option \<times> trace \<times> PoolRegistry) result" where
  "PoolRegistry_alloc sz margin mem tr r = alloc_scan (pr_count r) 0 sz margin mem tr r"

definition PoolRegistry_free ::
    "u8 \<Rightarrow> nat \<Rightarrow> memory \<Rightarrow> trace \<Rightarrow> PoolRegistry \<Rightarrow> (memory \<times> trace \<times> PoolRegistry) result" where
  "PoolRegistry_free pid block mem tr r =
     (let idx = unat pid - 1
      in if idx \<ge> MAX_POOLS \<or> \<not> QMPool_is_init (pr_slots r ! idx) then Inr (mem, tr, r)
         else rbind (QMPool_put block mem (pr_slots r ! idx)) (\<lambda>(mem', p').
                rbind (QMPool_get_free p') (\<lambda>free.
                  Inr (mem',
                    emit_gc pid (emit_mpool_put pid (of_nat free) (of_nat (mp_num_blocks p')) tr),
                    r\<lparr>pr_slots := (pr_slots r)[idx := p']\<rparr>))))"

definition pool_query :: "(QMPool \<Rightarrow> nat result) \<Rightarrow> u8 \<Rightarrow> PoolRegistry \<Rightarrow> nat option result" where
  "pool_query q pid r =
     (let idx = unat pid - 1
      in if idx \<ge> MAX_POOLS \<or> \<not> QMPool_is_init (pr_slots r ! idx) then Inr None
         else rbind (q (pr_slots r ! idx)) (\<lambda>n. Inr (Some n)))"

definition PoolRegistry_get_free :: "u8 \<Rightarrow> PoolRegistry \<Rightarrow> nat option result" where
  "PoolRegistry_get_free = pool_query QMPool_get_free"

definition PoolRegistry_get_min :: "u8 \<Rightarrow> PoolRegistry \<Rightarrow> nat option result" where
  "PoolRegistry_get_min = pool_query QMPool_get_min"

definition PoolRegistry_get_use :: "u8 \<Rightarrow> PoolRegistry \<Rightarrow> nat option result" where
  "PoolRegistry_get_use = pool_query QMPool_get_use"

section \<open>Pool-allocated events\<close>

record 'p EventBox =
  eb_ptr :: nat
  eb_pool_id :: u8
  eb_event :: "'p Event"

text \<open>\<open>sz\<close> is \<open>size_of::<Event<T>>()\<close>.\<close>

definition q_new_x ::
    "nat \<Rightarrow> signal \<Rightarrow> 'p \<Rightarrow> nat \<Rightarrow> memory \<Rightarrow> trace \<Rightarrow> PoolRegistry \<Rightarrow> ('p EventBox option \<times> trace \<times> PoolRegistry) result" where
  "q_new_x sz sig payload margin mem tr r =
     rbind (PoolRegistry_alloc sz margin mem tr r) (\<lambda>(o', tr', r').
       Inr (map_option (\<lambda>(pid, raw). \<lparr>eb_ptr = raw, eb_pool_id = pid,
              eb_event = \<lparr>ev_header = EventHeader_with_pool pid (EventHeader_new sig), ev_payload = payload\<rparr>\<rparr>) o', tr', r'))"

definition q_new ::
    "nat \<Rightarrow> signal \<Rightarrow> 'p \<Rightarrow> memory \<Rightarrow> trace \<Rightarrow> PoolRegistry \<Rightarrow> ('p EventBox option \<times> trace \<times> PoolRegistry) result" where
  "q_new sz sig payload = q_new_x sz sig payload 0"

definition EventBox_drop :: "'p EventBox \<Rightarrow> memory \<Rightarrow> PoolRegistry \<Rightarrow> (memory \<times> PoolRegistry) result" where
  "EventBox_drop b mem r =
     (if eb_ptr b \<noteq> 0 \<and> eb_pool_id b \<noteq> 0
      then rbind (PoolRegistry_free (eb_pool_id b) (eb_ptr b) mem None r) (\<lambda>(mem', _, r'). Inr (mem', r'))
      else Inr (mem, r))"

definition gc :: "'p Event \<Rightarrow> trace \<Rightarrow> trace" where
  "gc e tr = (case hdr_pool_id (ev_header e) of Some pid \<Rightarrow> emit_gc pid tr | None \<Rightarrow> tr)"

section \<open>Reference-counted payloads\<close>

datatype PoolArc = Empty | Pooled nat

record 'v CtrlHeader =
  ch_ref_count :: u32
  ch_pool_id :: "u8 dis"
  ch_value :: 'v

text \<open>The control blocks that live in pool blocks, by address.\<close>

type_synonym 'v arc_heap = "nat \<rightharpoonup> 'v CtrlHeader"

text \<open>
  Parameters: the allocator of a block of a size, and the layout of the block. \<open>al\<close> is the block
  type's alignment.
\<close>

definition PoolArc_try_from_value ::
    "(nat \<Rightarrow> 'w \<Rightarrow> ((u8 \<times> nat) option \<times> 'w) result) \<Rightarrow> nat \<Rightarrow> nat \<Rightarrow> 'v \<Rightarrow> 'v arc_heap \<times> 'w \<Rightarrow>
     (PoolArc option \<times> 'v arc_heap \<times> 'w) result" where
  "PoolArc_try_from_value alloc sz al v hw =
     rbind (ensure OnError (al \<le> 8)) (\<lambda>_.
       rbind (alloc sz (snd hw)) (\<lambda>(o', w').
         case o' of
           None \<Rightarrow> Inr (None, fst hw, w')
         | Some (pid, raw) \<Rightarrow>
             Inr (Some (Pooled raw),
               (fst hw)(raw \<mapsto> \<lparr>ch_ref_count = DisAtomicU16_pack 1, ch_pool_id = Dis_new pid, ch_value = v\<rparr>), w')))"

definition PoolArc_from_value ::
    "(nat \<Rightarrow> 'w \<Rightarrow> ((u8 \<times> nat) option \<times> 'w) result) \<Rightarrow> nat \<Rightarrow> nat \<Rightarrow> 'v \<Rightarrow> 'v arc_heap \<times> 'w \<Rightarrow>
     (PoolArc \<times> 'v arc_heap \<times> 'w) result" where
  "PoolArc_from_value alloc sz al v hw =
     rbind (PoolArc_try_from_value alloc sz al v hw) (\<lambda>(o', hw').
       case o' of Some a \<Rightarrow> Inr (a, hw') | None \<Rightarrow> Inl OnError)"

text \<open>
  A handle to a block without a control block cannot be formed in safe code; the operations fault
  on one in the model.
\<close>

definition PoolArc_clone :: "PoolArc \<Rightarrow> 'v arc_heap \<Rightarrow> (PoolArc \<times> 'v arc_heap) result" where
  "PoolArc_clone a h =
     (case a of
        Empty \<Rightarrow> Inr (Empty, h)
      | Pooled p \<Rightarrow>
          (case h p of
             None \<Rightarrow> Inl Panic
           | Some c \<Rightarrow> rbind (DisAtomicU16_increment (ch_ref_count c)) (\<lambda>n.
               Inr (Pooled p, h(p \<mapsto> c\<lparr>ch_ref_count := n\<rparr>)))))"

text \<open>The result says which value was dropped, if any.\<close>

definition PoolArc_drop ::
    "(u8 \<Rightarrow> nat \<Rightarrow> 'w \<Rightarrow> 'w result) \<Rightarrow> PoolArc \<Rightarrow> 'v arc_heap \<times> 'w \<Rightarrow> ('v option \<times> 'v arc_heap \<times> 'w) result" where
  "PoolArc_drop free a hw =
     (case a of
        Empty \<Rightarrow> Inr (None, hw)
      | Pooled p \<Rightarrow>
          (case fst hw p of
             None \<Rightarrow> Inl Panic
           | Some c \<Rightarrow> rbind (DisAtomicU16_decrement (ch_ref_count c)) (\<lambda>(old, n).
               if old \<noteq> 1 then Inr (None, (fst hw)(p \<mapsto> c\<lparr>ch_ref_count := n\<rparr>), snd hw)
               else rbind (Dis_get (ch_pool_id c)) (\<lambda>pid.
                      rbind (free pid p (snd hw)) (\<lambda>w'.
                        Inr (Some (ch_value c), (fst hw)(p := None), w'))))))"

definition PoolArc_as_any :: "PoolArc \<Rightarrow> 'v arc_heap \<Rightarrow> 'v option result" where
  "PoolArc_as_any a h =
     (case a of
        Empty \<Rightarrow> Inr None
      | Pooled p \<Rightarrow> (case h p of None \<Rightarrow> Inl Panic | Some c \<Rightarrow> Inr (Some (ch_value c))))"

text \<open>The allocator of the registry, as the payload handle calls it.\<close>

definition reg_alloc :: "nat \<Rightarrow> memory \<times> PoolRegistry \<Rightarrow> ((u8 \<times> nat) option \<times> memory \<times> PoolRegistry) result" where
  "reg_alloc sz w = rbind (PoolRegistry_alloc sz 0 (fst w) None (snd w)) (\<lambda>(o', _, r'). Inr (o', fst w, r'))"

definition reg_free :: "u8 \<Rightarrow> nat \<Rightarrow> memory \<times> PoolRegistry \<Rightarrow> (memory \<times> PoolRegistry) result" where
  "reg_free pid a w = rbind (PoolRegistry_free pid a (fst w) None (snd w)) (\<lambda>(mem', _, r'). Inr (mem', r'))"

section \<open>Registered pools\<close>

text \<open>
  \<open>F\<close> gives the free blocks of each registered pool. The storage regions of different pools are
  disjoint, as \<open>&'static mut\<close> slices are.
\<close>

definition reg_ok :: "memory \<Rightarrow> PoolRegistry \<Rightarrow> (nat \<Rightarrow> nat list) \<Rightarrow> bool" where
  "reg_ok mem r F \<longleftrightarrow> pr_count r \<le> MAX_POOLS \<and> length (pr_slots r) = MAX_POOLS \<and>
     (\<forall>i<pr_count r. mp_inv (pr_slots r ! i) mem (F i)) \<and>
     (\<forall>i<pr_count r. \<forall>j<pr_count r. i \<noteq> j \<longrightarrow>
        mp_storage (pr_slots r ! i) + mp_num_blocks (pr_slots r ! i) * mp_block_size (pr_slots r ! i) \<le> mp_storage (pr_slots r ! j) \<or>
        mp_storage (pr_slots r ! j) + mp_num_blocks (pr_slots r ! j) * mp_block_size (pr_slots r ! j) \<le> mp_storage (pr_slots r ! i))"

definition reg_used :: "PoolRegistry \<Rightarrow> (nat \<Rightarrow> nat list) \<Rightarrow> (u8 \<times> nat) set" where
  "reg_used r F = {(of_nat (i + 1), a) | i a. i < pr_count r \<and> a \<in> mp_used (pr_slots r ! i) (F i)}"

definition reg_inv :: "memory \<times> PoolRegistry \<Rightarrow> (u8 \<times> nat) set \<Rightarrow> bool" where
  "reg_inv w U \<longleftrightarrow> (\<exists>F. reg_ok (fst w) (snd w) F \<and> U = reg_used (snd w) F)"

text \<open>The first registered pool that fits and keeps the margin.\<close>

definition first_fit :: "nat \<Rightarrow> nat \<Rightarrow> PoolRegistry \<Rightarrow> (nat \<Rightarrow> nat list) \<Rightarrow> nat \<Rightarrow> nat option" where
  "first_fit sz margin r F i =
     find (\<lambda>j. sz \<le> mp_block_size (pr_slots r ! j) \<and> margin < length (F j)) [i..<pr_count r]"

lemma QMPool_get_free_inv:
  "mp_inv p mem free \<Longrightarrow> QMPool_get_free p = Inr (length free)"
  by (frule mp_free_unat) (auto simp: QMPool_get_free_def mp_inv_def)

lemma alloc_scan_first_fit:
  assumes "reg_ok mem r F" "i + k = pr_count r"
  shows "\<exists>tr'. alloc_scan k i sz margin mem tr r = Inr (case first_fit sz margin r F i of
      None \<Rightarrow> (None, tr', r)
    | Some j \<Rightarrow> (Some (of_nat (j + 1), mp_addr (pr_slots r ! j) (hd (F j))), tr',
        r\<lparr>pr_slots := (pr_slots r)[j := snd (projr (QMPool_get margin mem (pr_slots r ! j)))]\<rparr>))"
  using assms(2)
proof (induction k arbitrary: i tr)
  case 0
  then show ?case by (simp add: first_fit_def)
next
  case (Suc k)
  let ?p = "pr_slots r ! i"
  from Suc.prems have i: "i < pr_count r" by simp
  then have len: "i < length (pr_slots r)" and inv: "mp_inv ?p mem (F i)" using assms(1) by (auto simp: reg_ok_def)
  have ff: "first_fit sz margin r F i =
      (if sz \<le> mp_block_size ?p \<and> margin < length (F i) then Some i else first_fit sz margin r F (i + 1))"
    using i by (simp add: first_fit_def upt_conv_Cons)
  have IH: "\<exists>tr'. alloc_scan k (i + 1) sz margin mem tr r = Inr (case first_fit sz margin r F (i + 1) of
      None \<Rightarrow> (None, tr', r)
    | Some j \<Rightarrow> (Some (of_nat (j + 1), mp_addr (pr_slots r ! j) (hd (F j))), tr',
        r\<lparr>pr_slots := (pr_slots r)[j := snd (projr (QMPool_get margin mem (pr_slots r ! j)))]\<rparr>))" for tr
    using Suc.IH [of "i + 1" tr] Suc.prems by simp
  show ?case
  proof (cases "sz \<le> mp_block_size ?p")
    case False
    then show ?thesis using len ff IH [of tr] by (simp add: QMPool_can_serve_def)
  next
    case True
    show ?thesis
    proof (cases "margin < length (F i)")
      case False
      then have "QMPool_get margin mem ?p = Inr (None, ?p)" by (simp add: mp_get_inv [OF inv])
      then show ?thesis using True False len ff IH
        by (simp add: QMPool_can_serve_def QMPool_get_free_inv [OF inv])
    next
      case m: True
      obtain p' where get: "QMPool_get margin mem ?p = Inr (Some (mp_addr ?p (hd (F i))), p')"
        using m by (simp add: mp_get_inv [OF inv])
      obtain j free' where "mp_inv p' mem free'" using mp_get_step [OF inv get] by metis
      from QMPool_get_free_inv [OF this] get m True len ff show ?thesis
        by (simp add: QMPool_can_serve_def Let_def)
    qed
  qed
qed

lemma first_fit_SomeD:
  "first_fit sz margin r F i = Some j \<Longrightarrow> j < pr_count r \<and> i \<le> j \<and> sz \<le> mp_block_size (pr_slots r ! j) \<and> margin < length (F j)"
  unfolding first_fit_def using find_SomeD [of _ "[i..<pr_count r]" j] by auto

text \<open>Replacing one pool by a pool with the same storage.\<close>

lemma reg_ok_update:
  assumes "reg_ok mem r F" "j < pr_count r" "mp_inv p' mem' free'"
    "mp_storage p' = mp_storage (pr_slots r ! j)" "mp_block_size p' = mp_block_size (pr_slots r ! j)"
    "mp_num_blocks p' = mp_num_blocks (pr_slots r ! j)"
    "\<And>i. i < pr_count r \<Longrightarrow> i \<noteq> j \<Longrightarrow> mp_inv (pr_slots r ! i) mem' (F i)"
  shows "reg_ok mem' (r\<lparr>pr_slots := (pr_slots r)[j := p']\<rparr>) (F(j := free'))"
  using assms by (auto simp: reg_ok_def nth_list_update)

lemma reg_used_update:
  assumes "length (pr_slots r) = MAX_POOLS" "j < pr_count r" "pr_count r \<le> MAX_POOLS"
  shows "reg_used (r\<lparr>pr_slots := (pr_slots r)[j := p']\<rparr>) (F(j := free')) =
    {(of_nat (i + 1), a) | i a. i < pr_count r \<and> i \<noteq> j \<and> a \<in> mp_used (pr_slots r ! i) (F i)} \<union>
    Pair (of_nat (j + 1)) ` mp_used p' free'"
  using assms by (auto simp: reg_used_def nth_list_update)

lemma pool_id_inj:
  assumes "i < MAX_POOLS" "j < MAX_POOLS" "(of_nat (i + 1) :: u8) = of_nat (j + 1)"
  shows "i = j"
proof -
  have "unat (of_nat (i + 1) :: u8) = unat (of_nat (j + 1) :: u8)" using assms(3) by (rule arg_cong)
  then show ?thesis using assms(1,2) by (simp add: unat_of_nat MAX_POOLS_def del: of_nat_Suc of_nat_add)
qed

lemma pool_id_unat: "i < MAX_POOLS \<Longrightarrow> unat (of_nat (i + 1) :: u8) = i + 1"
  by (simp add: unat_of_nat MAX_POOLS_def del: of_nat_Suc of_nat_add)

lemma mp_used_region:
  assumes "mp_inv p mem free" "a \<in> mp_used p free"
  shows "mp_storage p \<le> a \<and> a + mp_block_size p \<le> mp_storage p + mp_num_blocks p * mp_block_size p"
  using assms mp_block_in_storage [of p] by (auto simp: mp_used_def mp_inv_def)

lemma mp_inv_other:
  assumes "mp_inv p mem free"
    "\<And>x. mem' x \<noteq> mem x \<Longrightarrow> x < mp_storage p \<or> mp_storage p + mp_num_blocks p * mp_block_size p \<le> x"
  shows "mp_inv p mem' free"
  by (rule mp_write_step [OF assms(1)]) (use assms(2) in \<open>auto simp: client_write_def\<close>)

lemma reg_alloc_step:
  assumes ok: "reg_ok mem r F" and alloc: "PoolRegistry_alloc sz margin mem tr r = Inr (Some (pid, a), tr', r')"
  obtains j F' where "first_fit sz margin r F 0 = Some j" "pid = of_nat (j + 1)"
    "reg_ok mem r' F'" "reg_used r' F' = insert (pid, a) (reg_used r F)" "\<forall>c\<in>reg_used r F. snd c \<noteq> a"
    "length (F' j) + 1 = length (F j)" "pr_count r' = pr_count r"
proof -
  from alloc_scan_first_fit [OF ok, of 0 "pr_count r" sz margin tr] alloc
  obtain j where ff: "first_fit sz margin r F 0 = Some j" and a: "pid = of_nat (j + 1)"
      "a = mp_addr (pr_slots r ! j) (hd (F j))"
      "r' = r\<lparr>pr_slots := (pr_slots r)[j := snd (projr (QMPool_get margin mem (pr_slots r ! j)))]\<rparr>"
    unfolding PoolRegistry_alloc_def by (auto split: option.splits)
  let ?p = "pr_slots r ! j"
  from first_fit_SomeD [OF ff] have j: "j < pr_count r" "margin < length (F j)" by auto
  have inv: "mp_inv ?p mem (F j)" and lens: "length (pr_slots r) = MAX_POOLS" "pr_count r \<le> MAX_POOLS"
    using ok j by (auto simp: reg_ok_def)
  obtain p' where get: "QMPool_get margin mem ?p = Inr (Some a, p')"
    using j(2) by (simp add: mp_get_inv [OF inv] a)
  obtain i free' where i: "F j = i # free'" "a = mp_addr ?p i" "mp_inv p' mem free'"
    and f: "mp_storage p' = mp_storage ?p" "mp_block_size p' = mp_block_size ?p" "mp_num_blocks p' = mp_num_blocks ?p"
    using mp_get_step [OF inv get] by metis
  have r': "r' = r\<lparr>pr_slots := (pr_slots r)[j := p']\<rparr>" using a get by simp
  have ok': "reg_ok mem r' (F(j := free'))"
    unfolding r' using ok j i f by (intro reg_ok_update) (auto simp: reg_ok_def)
  have "i < mp_num_blocks ?p" "i \<notin> set free'" using inv i by (auto simp: mp_inv_def)
  then have u: "mp_used p' free' = insert a (mp_used ?p (F j))" using i f by (auto simp: mp_used_def)
  have "reg_used r' (F(j := free')) = insert (pid, a) (reg_used r F)"
    unfolding r' reg_used_update [OF lens(1) j(1) lens(2)] u a(1) using j by (auto simp: reg_used_def)
  moreover have "snd c \<noteq> a" if c: "c \<in> reg_used r F" for c
  proof -
    from c obtain k b where k: "k < pr_count r" "b \<in> mp_used (pr_slots r ! k) (F k)" "snd c = b"
      by (auto simp: reg_used_def)
    have ik: "mp_inv (pr_slots r ! k) mem (F k)" using ok k by (simp add: reg_ok_def)
    show ?thesis
    proof (cases "k = j")
      case True
      have "a \<notin> mp_used ?p (F j)"
        using i inv mp_addr_inj [of ?p] by (auto simp: mp_used_def mp_inv_def inj_def mp_shape_def)
      then show ?thesis using k True by auto
    next
      case False
      have reg: "mp_storage ?p \<le> a \<and> a + mp_block_size ?p \<le> mp_storage ?p + mp_num_blocks ?p * mp_block_size ?p"
        using mp_block_in_storage [of ?p i] inv i \<open>i < mp_num_blocks ?p\<close> by (simp add: mp_inv_def)
      have "0 < mp_block_size ?p" "0 < mp_block_size (pr_slots r ! k)"
        using inv ik by (auto simp: mp_inv_def mp_shape_def)
      with reg mp_used_region [OF ik k(2)] ok False j k show ?thesis unfolding reg_ok_def by fastforce
    qed
  qed
  ultimately show thesis using ff a(1) ok' i(1) r' by (intro that [of j "F(j := free')"]) simp_all
qed

lemma put_writes:
  assumes "QMPool_put a mem p = Inr (mem', p')" "mem' x \<noteq> mem x"
  shows "x = a \<or> x = a + 8"
  using assms by (auto simp: QMPool_put_def Let_def res_simps split: if_splits)

lemma reg_free_step:
  assumes ok: "reg_ok mem r F" and u: "(pid, a) \<in> reg_used r F"
  obtains mem' tr' r' F' j where "PoolRegistry_free pid a mem tr r = Inr (mem', tr', r')"
    "reg_ok mem' r' F'" "reg_used r' F' = reg_used r F - {(pid, a)}" "pid = of_nat (j + 1)" "j < pr_count r"
    "length (F' j) = length (F j) + 1" "pr_count r' = pr_count r"
proof -
  from u obtain j where j: "j < pr_count r" "pid = of_nat (j + 1)" "a \<in> mp_used (pr_slots r ! j) (F j)"
    by (auto simp: reg_used_def)
  let ?p = "pr_slots r ! j"
  have lens: "length (pr_slots r) = MAX_POOLS" "pr_count r \<le> MAX_POOLS" and inv: "mp_inv ?p mem (F j)"
    using ok j by (auto simp: reg_ok_def)
  then have jm: "j < MAX_POOLS" using j by simp
  from j(3) obtain i where i: "a = mp_addr ?p i" "i < mp_num_blocks ?p" "i \<notin> set (F j)" by (auto simp: mp_used_def)
  obtain mem' p' where put: "QMPool_put (mp_addr ?p i) mem ?p = Inr (mem', p')" "mp_inv p' mem' (i # F j)"
    and f: "mp_storage p' = mp_storage ?p" "mp_block_size p' = mp_block_size ?p" "mp_num_blocks p' = mp_num_blocks ?p"
    using mp_put_step [OF inv i(2,3)] by metis
  let ?r = "r\<lparr>pr_slots := (pr_slots r)[j := p']\<rparr>"
  have idx: "unat pid - 1 = j" using pool_id_unat [OF jm] j(2) by simp
  have init: "QMPool_is_init ?p" using inv by (simp add: QMPool_is_init_def mp_inv_def mp_shape_def)
  have free: "PoolRegistry_free pid a mem tr r = Inr (mem',
      emit_gc pid (emit_mpool_put pid (of_nat (length (i # F j))) (of_nat (mp_num_blocks p')) tr), ?r)"
    using put i(1) idx init jm QMPool_get_free_inv [OF put(2)] by (simp add: PoolRegistry_free_def Let_def del: length_Cons)
  have other: "mp_inv (pr_slots r ! k) mem' (F k)" if k: "k < pr_count r" "k \<noteq> j" for k
  proof (rule mp_inv_other)
    show "mp_inv (pr_slots r ! k) mem (F k)" using ok k by (simp add: reg_ok_def)
    fix x assume "mem' x \<noteq> mem x"
    then have "x = a \<or> x = a + 8" using put_writes put(1) i(1) by blast
    then have "mp_storage ?p \<le> x \<and> x < mp_storage ?p + mp_num_blocks ?p * mp_block_size ?p"
      using mp_used_region [OF inv j(3)] inv by (auto simp: mp_inv_def mp_shape_def)
    then show "x < mp_storage (pr_slots r ! k) \<or>
        mp_storage (pr_slots r ! k) + mp_num_blocks (pr_slots r ! k) * mp_block_size (pr_slots r ! k) \<le> x"
      using ok k j(1) unfolding reg_ok_def by (meson le_trans less_le_trans)
  qed
  have ok': "reg_ok mem' ?r (F(j := i # F j))" using reg_ok_update [OF ok j(1) put(2) f other] .
  have used: "mp_used p' (i # F j) = mp_used ?p (F j) - {a}"
    using mp_used_Cons [of ?p i "F j"] inv mp_used_cong [OF f] by (simp add: i(1) mp_inv_def)
  have "of_nat (k + 1) \<noteq> pid" if "k < pr_count r" "k \<noteq> j" for k
    using pool_id_inj [of k j] that jm lens j(2) by (metis order_less_le_trans)
  then have "reg_used ?r (F(j := i # F j)) = reg_used r F - {(pid, a)}"
    unfolding reg_used_update [OF lens(1) j(1) lens(2)] used j(2) using j(1)
    by (fastforce simp: reg_used_def)
  with free ok' j show thesis by (intro that [of mem' _ ?r "F(j := i # F j)" j]) simp_all
qed

section \<open>Handles and their control blocks\<close>

text \<open>\<open>n p\<close> counts the live handles to the block at \<open>p\<close>; \<open>B\<close> is the set of blocks in use.\<close>

definition arc_ok :: "'v arc_heap \<Rightarrow> (u8 \<times> nat) set \<Rightarrow> (nat \<Rightarrow> nat) \<Rightarrow> bool" where
  "arc_ok h B n \<longleftrightarrow> (\<forall>p. case h p of
      None \<Rightarrow> n p = 0
    | Some c \<Rightarrow> 0 < n p \<and> n p < 2 ^ 16 \<and> ch_ref_count c = DisAtomicU16_pack (of_nat (n p)) \<and>
        (\<exists>pid. ch_pool_id c = Dis_new pid \<and> (pid, p) \<in> B))"

type_synonym ('v, 'w) arc_state = "'v arc_heap \<times> 'w \<times> (nat \<Rightarrow> nat)"

inductive arc_step ::
    "(nat \<Rightarrow> 'w \<Rightarrow> ((u8 \<times> nat) option \<times> 'w) result) \<Rightarrow> (u8 \<Rightarrow> nat \<Rightarrow> 'w \<Rightarrow> 'w result) \<Rightarrow>
     ('v, 'w) arc_state \<Rightarrow> ('v, 'w) arc_state \<Rightarrow> bool"
  for alloc free where
  arc_new: "PoolArc_try_from_value alloc sz al v (h, w) = Inr (Some (Pooled p), h', w') \<Longrightarrow>
     arc_step alloc free (h, w, n) (h', w', n(p := n p + 1))"
| arc_none: "PoolArc_try_from_value alloc sz al v (h, w) = Inr (None, h', w') \<Longrightarrow>
     arc_step alloc free (h, w, n) (h', w', n)"
| arc_clone: "0 < n p \<Longrightarrow> PoolArc_clone (Pooled p) h = Inr (a, h') \<Longrightarrow>
     arc_step alloc free (h, w, n) (h', w, n(p := n p + 1))"
| arc_drop: "0 < n p \<Longrightarrow> PoolArc_drop free (Pooled p) (h, w) = Inr (v, h', w') \<Longrightarrow>
     arc_step alloc free (h, w, n) (h', w', n(p := n p - 1))"

text \<open>What payload handles rely on of a block allocator.\<close>

locale block_allocator =
  fixes alloc :: "nat \<Rightarrow> 'w \<Rightarrow> ((u8 \<times> nat) option \<times> 'w) result"
    and free :: "u8 \<Rightarrow> nat \<Rightarrow> 'w \<Rightarrow> 'w result"
    and inv :: "'w \<Rightarrow> (u8 \<times> nat) set \<Rightarrow> bool"
  assumes alloc_none: "inv w U \<Longrightarrow> alloc sz w = Inr (None, w') \<Longrightarrow> inv w' U"
    and alloc_some: "inv w U \<Longrightarrow> alloc sz w = Inr (Some b, w') \<Longrightarrow>
      inv w' (insert b U) \<and> (\<forall>c\<in>U. snd c \<noteq> snd b)"
    and free_ok: "inv w U \<Longrightarrow> (pid, a) \<in> U \<Longrightarrow> \<exists>w'. free pid a w = Inr w' \<and> inv w' (U - {(pid, a)})"
begin

lemma arc_ok_SomeD:
  assumes "arc_ok h U n" "0 < n p"
  obtains c pid where "h p = Some c" "n p < 2 ^ 16" "ch_ref_count c = DisAtomicU16_pack (of_nat (n p))"
    "ch_pool_id c = Dis_new pid" "(pid, p) \<in> U"
proof -
  from assms(1) have *: "case h p of None \<Rightarrow> n p = 0
    | Some c \<Rightarrow> 0 < n p \<and> n p < 2 ^ 16 \<and> ch_ref_count c = DisAtomicU16_pack (of_nat (n p)) \<and>
        (\<exists>pid. ch_pool_id c = Dis_new pid \<and> (pid, p) \<in> U)" unfolding arc_ok_def by blast
  show thesis
  proof (cases "h p")
    case None
    with * assms(2) show ?thesis by simp
  next
    case (Some c)
    with * that show ?thesis by auto
  qed
qed

lemma arc_ok_update:
  assumes "arc_ok h U n" "0 < k" "k < 2 ^ 16" "ch_ref_count c = DisAtomicU16_pack (of_nat k)"
    "ch_pool_id c = Dis_new pid" "(pid, p) \<in> V" "U \<subseteq> V"
  shows "arc_ok (h(p \<mapsto> c)) V (n(p := k))"
proof -
  have "case (h(p \<mapsto> c)) q of None \<Rightarrow> (n(p := k)) q = 0
    | Some c \<Rightarrow> 0 < (n(p := k)) q \<and> (n(p := k)) q < 2 ^ 16 \<and>
        ch_ref_count c = DisAtomicU16_pack (of_nat ((n(p := k)) q)) \<and>
        (\<exists>pid. ch_pool_id c = Dis_new pid \<and> (pid, q) \<in> V)" for q
    using assms spec [OF assms(1) [unfolded arc_ok_def], of q]
    by (cases "q = p") (auto split: option.splits)
  then show ?thesis unfolding arc_ok_def by blast
qed

lemma drop_outcome:
  assumes inv: "inv w U" and ok: "arc_ok h U n" and n: "0 < n p"
  shows "\<exists>v h' w'. PoolArc_drop free (Pooled p) (h, w) = Inr (v, h', w') \<and> (v \<noteq> None \<longleftrightarrow> n p = 1) \<and>
    (\<exists>V\<subseteq>U. inv w' V \<and> arc_ok h' V (n(p := n p - 1)) \<and> (n p = 1 \<longleftrightarrow> V \<noteq> U))"
proof -
  obtain c pid where c: "h p = Some c" "n p < 2 ^ 16" "ch_ref_count c = DisAtomicU16_pack (of_nat (n p))"
    "ch_pool_id c = Dis_new pid" "(pid, p) \<in> U" by (rule arc_ok_SomeD [OF ok n])
  have u: "unat (of_nat (n p) :: u16) = n p" using c(2) by (simp add: unat_of_nat)
  have nz: "(of_nat (n p) :: u16) \<noteq> 0" using u n by (metis less_numeral_extra(3) unat_0)
  have one: "(of_nat (n p) :: u16) = 1 \<longleftrightarrow> n p = 1" using u by (metis of_nat_1 unat_1)
  have dec: "DisAtomicU16_decrement (ch_ref_count c) =
      Inr (of_nat (n p), DisAtomicU16_pack (of_nat (n p - 1)))"
    using nz n c(3) by (simp add: DisAtomicU16_decrement_def of_nat_diff)
  show ?thesis
  proof (cases "n p = 1")
    case False
    then have "arc_ok (h(p \<mapsto> c\<lparr>ch_ref_count := DisAtomicU16_pack (of_nat (n p - 1))\<rparr>)) U (n(p := n p - 1))"
      using n c by (intro arc_ok_update [OF ok]) auto
    with False inv c one dec show ?thesis by (auto simp: PoolArc_drop_def)
  next
    case True
    obtain w' where w': "free pid p w = Inr w'" "inv w' (U - {(pid, p)})" using free_ok [OF inv c(5)] by blast
    have "case (h(p := None)) q of None \<Rightarrow> (n(p := n p - 1)) q = 0
      | Some c \<Rightarrow> 0 < (n(p := n p - 1)) q \<and> (n(p := n p - 1)) q < 2 ^ 16 \<and>
          ch_ref_count c = DisAtomicU16_pack (of_nat ((n(p := n p - 1)) q)) \<and>
          (\<exists>pid'. ch_pool_id c = Dis_new pid' \<and> (pid', q) \<in> U - {(pid, p)})" for q
      using True spec [OF ok [unfolded arc_ok_def], of q] by (cases "q = p") (auto split: option.splits)
    then have "arc_ok (h(p := None)) (U - {(pid, p)}) (n(p := n p - 1))" unfolding arc_ok_def by blast
    with True w' c one dec show ?thesis
      by (auto simp: PoolArc_drop_def intro!: exI [of _ "U - {(pid, p)}"])
  qed
qed

lemma step_inv:
  assumes "arc_step alloc free (h, w, n) (h', w', n')" "inv w U" "arc_ok h U n"
  shows "\<exists>V. inv w' V \<and> arc_ok h' V n'"
  using assms(1)
proof cases
  case (arc_new sz al v p)
  then obtain pid where a: "alloc sz w = Inr (Some (pid, p), w')"
    "h' = h(p \<mapsto> \<lparr>ch_ref_count = DisAtomicU16_pack 1, ch_pool_id = Dis_new pid, ch_value = v\<rparr>)"
    by (auto simp: PoolArc_try_from_value_def res_simps split: option.splits)
  from alloc_some [OF assms(2) a(1)] have v: "inv w' (insert (pid, p) U)" "\<forall>c\<in>U. snd c \<noteq> p" by auto
  have "n p = 0"
  proof (rule ccontr)
    assume "n p \<noteq> 0"
    then show False using arc_ok_SomeD [OF assms(3), of p] v(2) by (metis bot_nat_0.not_eq_extremum snd_conv)
  qed
  then have "arc_ok h' (insert (pid, p) U) n'"
    unfolding a(2) arc_new(1) by (intro arc_ok_update [OF assms(3)]) auto
  with v show ?thesis by blast
next
  case (arc_none sz al v)
  then obtain o' where "alloc sz w = Inr (o', w')" "\<forall>x. o' \<noteq> Some x" "h' = h"
    by (auto simp: PoolArc_try_from_value_def res_simps split: option.splits)
  then have "alloc sz w = Inr (None, w')" "h' = h" by (cases o'; simp)+
  with alloc_none [OF assms(2)] assms(3) arc_none show ?thesis by blast
next
  case (arc_clone p a)
  obtain c pid where c: "h p = Some c" "n p < 2 ^ 16" "ch_ref_count c = DisAtomicU16_pack (of_nat (n p))"
    "ch_pool_id c = Dis_new pid" "(pid, p) \<in> U" by (rule arc_ok_SomeD [OF assms(3) arc_clone(3)])
  with arc_clone(4) have m: "(of_nat (n p) :: u16) \<noteq> - 1"
    and h': "h' = h(p \<mapsto> c\<lparr>ch_ref_count := DisAtomicU16_pack (of_nat (n p) + 1)\<rparr>)"
    by (auto simp: PoolArc_clone_def DisAtomicU16_increment_def split: if_splits)
  have "n p + 1 \<noteq> 2 ^ 16"
  proof
    assume "n p + 1 = 2 ^ 16"
    then have "(of_nat (n p + 1) :: u16) = of_nat (2 ^ 16)" by (rule arg_cong)
    then have "(of_nat (n p) :: u16) + 1 = 0" by simp
    then have "(of_nat (n p) :: u16) = - 1" by (simp add: eq_neg_iff_add_eq_0)
    with m show False by simp
  qed
  then have "arc_ok h' U n'"
    unfolding h' arc_clone(2) using c(2,4,5) by (intro arc_ok_update [OF assms(3)]) (auto simp: add.commute)
  with assms(2) arc_clone show ?thesis by blast
next
  case (arc_drop p v)
  from drop_outcome [OF assms(2,3) arc_drop(2)] arc_drop show ?thesis by auto
qed

lemma run_inv:
  assumes "(arc_step alloc free)\<^sup>*\<^sup>* (Map.empty, w0, \<lambda>_. 0) s" "inv w0 U0"
  shows "\<exists>U. inv (fst (snd s)) U \<and> arc_ok (fst s) U (snd (snd s))"
  using assms(1)
proof (induction rule: rtranclp_induct)
  case base
  then show ?case using assms(2) by (auto simp: arc_ok_def)
next
  case (step s t)
  then obtain U where "inv (fst (snd s)) U" "arc_ok (fst s) U (snd (snd s))" by blast
  with step_inv [of "fst s" "fst (snd s)" "snd (snd s)" "fst t" "fst (snd t)" "snd (snd t)" U] step.hyps(2)
  show ?case by simp
qed

lemma drop_reachable:
  assumes "(arc_step alloc free)\<^sup>*\<^sup>* (Map.empty, w0, \<lambda>_. 0) (h, w, n)" "inv w0 U0" "0 < n p"
  shows "\<exists>U v h' w'. inv w U \<and> PoolArc_drop free (Pooled p) (h, w) = Inr (v, h', w') \<and> (v \<noteq> None \<longleftrightarrow> n p = 1) \<and>
    (\<exists>V\<subseteq>U. inv w' V \<and> (n p = 1 \<longleftrightarrow> V \<noteq> U))"
proof -
  from run_inv [OF assms(1,2)] obtain U where "inv w U" "arc_ok h U n" by auto
  with drop_outcome [OF this assms(3)] show ?thesis by blast
qed

end

interpretation reg: block_allocator reg_alloc reg_free reg_inv
proof
  fix w U sz w'
  assume "reg_inv w U" and a: "reg_alloc sz w = Inr (None, w')"
  then obtain F where F: "reg_ok (fst w) (snd w) F" "U = reg_used (snd w) F" by (auto simp: reg_inv_def)
  from alloc_scan_first_fit [OF F(1), of 0 "pr_count (snd w)" sz 0 None] a have "w' = w"
    by (auto simp: reg_alloc_def PoolRegistry_alloc_def res_simps split: option.splits)
  with F show "reg_inv w' U" by (auto simp: reg_inv_def)
next
  fix w U sz b w'
  assume "reg_inv w U" and a: "reg_alloc sz w = Inr (Some b, w')"
  then obtain F where F: "reg_ok (fst w) (snd w) F" "U = reg_used (snd w) F" by (auto simp: reg_inv_def)
  from a obtain pid p tr' where p: "b = (pid, p)" "fst w' = fst w"
    "PoolRegistry_alloc sz 0 (fst w) None (snd w) = Inr (Some (pid, p), tr', snd w')"
    by (cases b) (auto simp: reg_alloc_def res_simps)
  obtain F' where "reg_ok (fst w) (snd w') F'" "reg_used (snd w') F' = insert (pid, p) (reg_used (snd w) F)"
    "\<forall>c\<in>reg_used (snd w) F. snd c \<noteq> p" using reg_alloc_step [OF F(1) p(3)] by metis
  then show "reg_inv w' (insert b U) \<and> (\<forall>c\<in>U. snd c \<noteq> snd b)"
    using p F(2) by (auto simp: reg_inv_def intro!: exI [of _ F'])
next
  fix w U pid a
  assume "reg_inv w U" and u: "(pid, a) \<in> U"
  then obtain F where F: "reg_ok (fst w) (snd w) F" "U = reg_used (snd w) F" by (auto simp: reg_inv_def)
  obtain mem' tr' r' F' where "PoolRegistry_free pid a (fst w) None (snd w) = Inr (mem', tr', r')"
    "reg_ok mem' r' F'" "reg_used r' F' = reg_used (snd w) F - {(pid, a)}"
    using reg_free_step [OF F(1), of pid a None] u F(2) by metis
  then show "\<exists>w'. reg_free pid a w = Inr w' \<and> reg_inv w' (U - {(pid, a)})"
    using F(2) by (auto simp: reg_free_def reg_inv_def intro!: exI [of _ F'])
qed

section \<open>Demonstration registry\<close>

definition ep_demo :: "PoolRegistry \<times> (u8 \<times> memory) result" where
  "ep_demo = PoolRegistry_init_pool 1001 40 10 (\<lambda>_. 0) PoolRegistry_new"

definition ep_demo_world :: "memory \<times> PoolRegistry" where
  "ep_demo_world = (snd (projr (snd ep_demo)), fst ep_demo)"

lemma ep_demo_ok: "reg_ok (fst ep_demo_world) (snd ep_demo_world) (\<lambda>_. [0, 1])"
proof -
  have i: "QMPool_init 1001 40 10 (\<lambda>_. 0) QMPool_uninit = Inr (2, mp_demo_mem, mp_demo_pool)"
    using mp_demo_eq by (simp add: mp_demo_def)
  then have w: "ep_demo_world = (mp_demo_mem, \<lparr>pr_slots = (replicate MAX_POOLS QMPool_uninit)[0 := mp_demo_pool], pr_count = 1\<rparr>)"
    by (simp add: ep_demo_world_def ep_demo_def PoolRegistry_init_pool_def PoolRegistry_new_def MAX_POOLS_def)
  have "mp_num_blocks mp_demo_pool = 2" by code_simp
  with mp_init_inv [OF _ _ i] have "mp_inv mp_demo_pool mp_demo_mem [0, 1]" by (simp add: upt_rec)
  then show ?thesis by (simp add: w reg_ok_def MAX_POOLS_def)
qed

lemma ep_demo_inv: "reg_inv ep_demo_world {}"
proof -
  have "mp_num_blocks (pr_slots (snd ep_demo_world) ! 0) = 2" "pr_count (snd ep_demo_world) = 1" by code_simp+
  then have "reg_used (snd ep_demo_world) (\<lambda>_. [0, 1]) = {}"
    by (auto simp: reg_used_def mp_used_def less_2_cases_iff)
  then show ?thesis using ep_demo_ok unfolding reg_inv_def by metis
qed

section \<open>Properties\<close>

text \<open>
  Allocation is first fit: it takes a block of the first registered pool whose blocks are large
  enough and whose free count exceeds the margin, a block not in use, and fails exactly when there
  is no such pool; a failed allocation leaves the registry unchanged.
\<close>

theorem PoolRegistry_alloc_first_fit:
  assumes "reg_ok mem r F"
  shows "\<exists>tr' r'. PoolRegistry_alloc sz margin mem tr r =
      Inr (map_option (\<lambda>j. (of_nat (j + 1), mp_addr (pr_slots r ! j) (hd (F j)))) (first_fit sz margin r F 0), tr', r') \<and>
    (case first_fit sz margin r F 0 of
       None \<Rightarrow> r' = r
     | Some j \<Rightarrow> (of_nat (j + 1), mp_addr (pr_slots r ! j) (hd (F j))) \<notin> reg_used r F \<and>
         (\<exists>F'. reg_ok mem r' F' \<and>
            reg_used r' F' = insert (of_nat (j + 1), mp_addr (pr_slots r ! j) (hd (F j))) (reg_used r F)))"
proof -
  obtain tr' where a: "PoolRegistry_alloc sz margin mem tr r = Inr (case first_fit sz margin r F 0 of
      None \<Rightarrow> (None, tr', r)
    | Some j \<Rightarrow> (Some (of_nat (j + 1), mp_addr (pr_slots r ! j) (hd (F j))), tr',
        r\<lparr>pr_slots := (pr_slots r)[j := snd (projr (QMPool_get margin mem (pr_slots r ! j)))]\<rparr>))"
    using alloc_scan_first_fit [OF assms, of 0 "pr_count r" sz margin tr] unfolding PoolRegistry_alloc_def by auto
  show ?thesis
  proof (cases "first_fit sz margin r F 0")
    case None
    with a show ?thesis by auto
  next
    case (Some j)
    with a obtain r' where r': "PoolRegistry_alloc sz margin mem tr r =
        Inr (Some (of_nat (j + 1), mp_addr (pr_slots r ! j) (hd (F j))), tr', r')" by auto
    obtain F' where F': "reg_ok mem r' F'"
      "reg_used r' F' = insert (of_nat (j + 1), mp_addr (pr_slots r ! j) (hd (F j))) (reg_used r F)"
      "\<forall>c\<in>reg_used r F. snd c \<noteq> mp_addr (pr_slots r ! j) (hd (F j))"
      using reg_alloc_step [OF assms r'] by metis
    then have "(of_nat (j + 1), mp_addr (pr_slots r ! j) (hd (F j))) \<notin> reg_used r F" by force
    with F' r' Some show ?thesis by auto
  qed
qed

theorem PoolRegistry_alloc_first_fit_witness:
  "\<exists>tr' r'. PoolRegistry_alloc 12 1 (fst ep_demo_world) (Some []) (snd ep_demo_world) = Inr (Some (1, 1008), tr', r')"
proof -
  have "first_fit 12 1 (snd ep_demo_world) (\<lambda>_. [0, 1]) 0 = Some 0"
    "mp_addr (pr_slots (snd ep_demo_world) ! 0) (hd [0, 1]) = 1008" by code_simp+
  then show ?thesis
    using PoolRegistry_alloc_first_fit [OF ep_demo_ok, of 12 1 "Some []"] by auto
qed

text \<open>
  Dropping a freshly allocated event returns its block: no operation faults, the event carries
  its pool's id, and afterwards exactly the blocks in use before are in use again.
\<close>

theorem EventBox_drop_returns_block:
  assumes "reg_ok mem r F" "q_new_x sz sig payload margin mem tr r = Inr (Some b, tr', r')"
  shows "hdr_pool_id (ev_header (eb_event b)) = Some (eb_pool_id b) \<and> Event_signal (eb_event b) = sig \<and>
    (\<exists>mem'' r'' F''. EventBox_drop b mem r' = Inr (mem'', r'') \<and> reg_ok mem'' r'' F'' \<and>
       reg_used r'' F'' = reg_used r F)"
proof -
  from assms(2) obtain pid raw where al: "PoolRegistry_alloc sz margin mem tr r = Inr (Some (pid, raw), tr', r')"
    and b: "b = \<lparr>eb_ptr = raw, eb_pool_id = pid,
      eb_event = \<lparr>ev_header = EventHeader_with_pool pid (EventHeader_new sig), ev_payload = payload\<rparr>\<rparr>"
    by (auto simp: q_new_x_def res_simps)
  obtain F' where F': "reg_ok mem r' F'" "reg_used r' F' = insert (pid, raw) (reg_used r F)"
    "\<forall>c\<in>reg_used r F. snd c \<noteq> raw" using reg_alloc_step [OF assms(1) al] by metis
  have u: "(pid, raw) \<in> reg_used r' F'" using F'(2) by simp
  obtain mem'' tr'' r'' F'' j where fr: "PoolRegistry_free pid raw mem None r' = Inr (mem'', tr'', r'')"
    "reg_ok mem'' r'' F''" "reg_used r'' F'' = reg_used r' F' - {(pid, raw)}" and j: "pid = of_nat (j + 1)" "j < pr_count r'"
    using reg_free_step [OF F'(1) u, of None] by metis
  have "j < MAX_POOLS" using F'(1) j by (simp add: reg_ok_def)
  then have "pid \<noteq> 0" using pool_id_unat [of j] j by (metis add_is_0 unat_0 zero_neq_one)
  moreover have "raw \<noteq> 0"
  proof -
    obtain i where i: "i < pr_count r'" "raw \<in> mp_used (pr_slots r' ! i) (F' i)"
      using u by (auto simp: reg_used_def)
    then have "mp_inv (pr_slots r' ! i) mem (F' i)" using F'(1) by (simp add: reg_ok_def)
    from this mp_used_region [OF this i(2)] show ?thesis by (auto simp: mp_inv_def mp_shape_def)
  qed
  moreover have "reg_used r' F' - {(pid, raw)} = reg_used r F" using F' by force
  ultimately show ?thesis using fr
    by (auto simp: b EventBox_drop_def EventHeader_with_pool_def EventHeader_new_def Event_signal_def)
qed

theorem EventBox_drop_returns_block_witness:
  "\<exists>b tr' r'. q_new_x 12 7 () 1 (fst ep_demo_world) None (snd ep_demo_world) = Inr (Some b, tr', r') \<and>
     (\<exists>mem'' r''. EventBox_drop b (fst ep_demo_world) r' = Inr (mem'', r''))"
proof -
  have "map_sum id (\<lambda>(b, _). b \<noteq> None) (q_new_x 12 7 () 1 (fst ep_demo_world) None (snd ep_demo_world)) = Inr True"
    by code_simp
  then obtain b tr' r' where q: "q_new_x 12 7 () 1 (fst ep_demo_world) None (snd ep_demo_world) = Inr (Some b, tr', r')"
    by (cases "q_new_x 12 7 () 1 (fst ep_demo_world) None (snd ep_demo_world)") auto
  from EventBox_drop_returns_block [OF ep_demo_ok q] q show ?thesis by blast
qed

text \<open>
  C8: Along every sequence of creations, clones and drops of payload handles over the pool
  registry, dropping a live handle never faults; the value is destroyed and its block returned to
  the pool exactly when the handle is the last one.
\<close>

theorem PoolArc_last_drop_frees:
  assumes "(arc_step reg_alloc reg_free)\<^sup>*\<^sup>* (Map.empty, w0, \<lambda>_. 0) (h, w, n)" "reg_inv w0 U0" "0 < n p"
  shows "\<exists>U v h' w'. reg_inv w U \<and> PoolArc_drop reg_free (Pooled p) (h, w) = Inr (v, h', w') \<and>
    (v \<noteq> None \<longleftrightarrow> n p = 1) \<and> (\<exists>V\<subseteq>U. reg_inv w' V \<and> (n p = 1 \<longleftrightarrow> V \<noteq> U))"
  using assms by (rule reg.drop_reachable)

theorem PoolArc_last_drop_frees_witness:
  "\<exists>p h w v h' w'. PoolArc_try_from_value reg_alloc 12 8 () (Map.empty, ep_demo_world) = Inr (Some (Pooled p), h, w) \<and>
     PoolArc_drop reg_free (Pooled p) (h, w) = Inr (v, h', w') \<and> v \<noteq> None"
proof -
  have "map_sum id fst (PoolArc_try_from_value reg_alloc 12 8 () (Map.empty, ep_demo_world)) = Inr (Some (Pooled 1008))"
    by code_simp
  then obtain h w where t: "PoolArc_try_from_value reg_alloc 12 8 () (Map.empty, ep_demo_world) = Inr (Some (Pooled 1008), h, w)"
    by (cases "PoolArc_try_from_value reg_alloc 12 8 () (Map.empty, ep_demo_world)") auto
  let ?n = "(\<lambda>_. 0)(1008 := (\<lambda>_. 0) 1008 + 1) :: nat \<Rightarrow> nat"
  have "(arc_step reg_alloc reg_free)\<^sup>*\<^sup>* (Map.empty, ep_demo_world, \<lambda>_. 0) (h, w, ?n)"
    by (rule r_into_rtranclp, rule arc_new [OF t])
  from PoolArc_last_drop_frees [OF this ep_demo_inv, of 1008] obtain v h' w' where
    "PoolArc_drop reg_free (Pooled 1008) (h, w) = Inr (v, h', w')" "v \<noteq> None \<longleftrightarrow> ?n 1008 = 1" by auto
  with t show ?thesis by auto
qed

text \<open>
  A registration that is refused (too many pools, an empty block size, or storage too small)
  still counts as a pool: after sixteen registrations every allocation that no registered pool can
  serve panics on the slot index instead of failing.
\<close>

theorem PoolRegistry_refused_registration_counts:
  "snd (PoolRegistry_init_pool raw len 0 mem r) = Inl Panic \<and>
   pr_count (fst (PoolRegistry_init_pool raw len bs mem r)) = pr_count r + 1 \<and>
   (length (pr_slots r) = MAX_POOLS \<and> MAX_POOLS < pr_count r \<and> (\<forall>p\<in>set (pr_slots r). mp_block_size p < sz) \<longrightarrow>
      PoolRegistry_alloc sz margin mem tr r = Inl Panic)"
proof (intro conjI impI)
  show "snd (PoolRegistry_init_pool raw len 0 mem r) = Inl Panic"
    by (simp add: PoolRegistry_init_pool_def QMPool_init_def Let_def)
  show "pr_count (fst (PoolRegistry_init_pool raw len bs mem r)) = pr_count r + 1"
    by (simp add: PoolRegistry_init_pool_def Let_def split: sum.splits)
  assume a: "length (pr_slots r) = MAX_POOLS \<and> MAX_POOLS < pr_count r \<and> (\<forall>p\<in>set (pr_slots r). mp_block_size p < sz)"
  have "MAX_POOLS < i + k \<Longrightarrow> i \<le> MAX_POOLS \<Longrightarrow> alloc_scan k i sz margin mem tr r = Inl Panic" for k i
  proof (induction k arbitrary: i)
    case (Suc k)
    show ?case
    proof (cases "i < MAX_POOLS")
      case True
      then have "\<not> sz \<le> mp_block_size (pr_slots r ! i)" using a by (simp add: not_le)
      with True Suc a show ?thesis by (simp add: QMPool_can_serve_def Let_def)
    qed (use a in simp)
  qed simp
  from this [of 0 "pr_count r"] a show "PoolRegistry_alloc sz margin mem tr r = Inl Panic"
    by (simp add: PoolRegistry_alloc_def)
qed

theorem PoolRegistry_refused_registration_counts_witness:
  "PoolRegistry_alloc 8 0 (\<lambda>_. 0) None (PoolRegistry_new\<lparr>pr_count := 16\<rparr>) = Inl Panic"
  using PoolRegistry_refused_registration_counts [of 0 0 "\<lambda>_. 0" "PoolRegistry_new\<lparr>pr_count := 16\<rparr>" 0 8 0 None]
  by (simp add: PoolRegistry_new_def MAX_POOLS_def QMPool_uninit_def)

end
