(* ===== verification/Hdlc.thy ===== *)
theory Hdlc
  imports Prelude
begin

text \<open>
  The HDLC-style framing that the target's trace encoder (\<open>crates/qs/src/lib.rs\<close>), its command
  parser (\<open>crates/qs/src/rx.rs\<close>) and the host tool (\<open>tools/qspy/src/decoder.rs\<close>,
  \<open>commands.rs\<close>) share: byte stuffing, the complemented checksum, and what an incremental decoder
  of stuffed bytes does, stated once as an interface.
\<close>

section \<open>Byte stuffing and checksum\<close>

definition FLAG :: u8 where "FLAG = 0x7E"
definition ESC :: u8 where "ESC = 0x7D"
definition ESC_XOR :: u8 where "ESC_XOR = 0x20"

definition stuff_byte :: "u8 \<Rightarrow> u8 list" where
  "stuff_byte b = (if b = FLAG \<or> b = ESC then [ESC, xor b ESC_XOR] else [b])"

definition stuff :: "u8 list \<Rightarrow> u8 list" where
  "stuff bs = concat (map stuff_byte bs)"

definition wrapping_sum :: "u8 list \<Rightarrow> u8" where
  "wrapping_sum bs = fold (\<lambda>b s. s + b) bs 0"

text \<open>Feeding a byte sequence to an incremental decoder, collecting what it yields.\<close>

fun feed_all :: "(u8 \<Rightarrow> 's \<Rightarrow> 's \<times> 'r list) \<Rightarrow> u8 list \<Rightarrow> 's \<Rightarrow> 's \<times> 'r list" where
  "feed_all f [] s = (s, [])"
| "feed_all f (b # bs) s =
     (let (s1, r1) = f b s; (s2, r2) = feed_all f bs s1 in (s2, r1 @ r2))"

section \<open>Lemmas\<close>

lemma stuff_simps [simp]:
  "stuff [] = []" "stuff (b # bs) = stuff_byte b @ stuff bs" "stuff (xs @ ys) = stuff xs @ stuff ys"
  by (simp_all add: stuff_def)

lemma stuff_byte_no_flag: "FLAG \<notin> set (stuff_byte b)"
  by (auto simp: stuff_byte_def FLAG_def ESC_def ESC_XOR_def)

lemma stuff_no_flag: "FLAG \<notin> set (stuff bs)"
  using stuff_byte_no_flag by (auto simp: stuff_def)

lemma flag_not_esc [simp]: "FLAG \<noteq> ESC" "ESC \<noteq> FLAG"
  by (simp_all add: FLAG_def ESC_def)

lemma xor_esc_esc [simp]: "xor (xor b ESC_XOR) ESC_XOR = b"
  by (simp add: xor.assoc)

lemma wrapping_sum_eq: "wrapping_sum bs = sum_list bs"
proof -
  have "fold (\<lambda>b s. s + b) bs a = a + sum_list bs" for a
    by (induction bs arbitrary: a) (simp_all add: add.assoc)
  from this [of 0] show ?thesis by (simp add: wrapping_sum_def)
qed

lemma wrapping_sum_simps [simp]:
  "wrapping_sum [] = 0" "wrapping_sum (b # bs) = b + wrapping_sum bs"
  "wrapping_sum (xs @ ys) = wrapping_sum xs + wrapping_sum ys"
  by (simp_all add: wrapping_sum_eq)

lemma checksum_total: "s + not s = (0xFF :: u8)"
proof -
  have "not s = - s - (1 :: u8)" by (simp add: not_eq_complement)
  then show ?thesis by simp
qed

text \<open>Replacing one byte changes the sum.\<close>

lemma wrapping_sum_update:
  assumes "i < length bs"
  shows "wrapping_sum (bs[i := b]) = wrapping_sum bs - bs ! i + b"
  using assms
proof (induction bs arbitrary: i)
  case (Cons x xs)
  then show ?case by (cases i) (simp_all add: algebra_simps)
qed simp

lemma feed_all_append:
  "feed_all f (xs @ ys) s =
     (let (s1, r1) = feed_all f xs s; (s2, r2) = feed_all f ys s1 in (s2, r1 @ r2))"
  by (induction xs arbitrary: s) (simp_all add: Let_def split_def)

section \<open>Decoders of stuffed bytes\<close>

text \<open>
  A decoder with a state \<open>within buf\<close> for every partial frame: an ordinary byte is appended, and
  an escape pair appends the restored byte.
\<close>

locale destuffer =
  fixes feed :: "u8 \<Rightarrow> 's \<Rightarrow> 's \<times> 'r list"
    and within :: "u8 list \<Rightarrow> 's"
  assumes feed_plain: "b \<noteq> FLAG \<Longrightarrow> b \<noteq> ESC \<Longrightarrow> feed b (within buf) = (within (buf @ [b]), [])"
    and feed_escaped: "b \<noteq> FLAG \<Longrightarrow> feed_all feed [ESC, b] (within buf) = (within (buf @ [xor b ESC_XOR]), [])"
begin

lemma feed_stuff_byte: "feed_all feed (stuff_byte b) (within buf) = (within (buf @ [b]), [])"
proof (cases "b = FLAG \<or> b = ESC")
  case True
  then have "xor b ESC_XOR \<noteq> FLAG" by (auto simp: FLAG_def ESC_def ESC_XOR_def)
  from feed_escaped [OF this, of buf] True show ?thesis
    unfolding stuff_byte_def xor_esc_esc by (simp only: if_True)
next
  case False
  then show ?thesis using feed_plain [of b buf] by (simp add: stuff_byte_def)
qed

lemma feed_stuff: "feed_all feed (stuff bs) (within buf) = (within (buf @ bs), [])"
  by (induction bs arbitrary: buf) (simp_all add: feed_all_append feed_stuff_byte)

end

end
