(* ===== verification/QsTx.thy ===== *)
theory QsTx
  imports Hdlc
begin

text \<open>
  The QS trace encoder of the target: filters, frames and sequence numbers
  (\<open>crates/qs/src/lib.rs\<close>), user record payloads (\<open>record.rs\<close>), predefined records
  (\<open>predefined.rs\<close>) and the test probe registry (\<open>qutest.rs\<close>). The backend and the clock are
  outside the crate: the backend is a parameter that consumes a frame and may fail, the clock
  reading a microsecond count.
\<close>

section \<open>Filters\<close>

record GlbFilter =
  gf_bits :: "u64 list"

definition GlbFilter_allow_all :: GlbFilter where
  "GlbFilter_allow_all = \<lparr>gf_bits = replicate 4 (- 1)\<rparr>"

definition GlbFilter_deny_all :: GlbFilter where
  "GlbFilter_deny_all = \<lparr>gf_bits = replicate 4 0\<rparr>"

definition GlbFilter_from_bits :: "u8 list \<Rightarrow> GlbFilter" where
  "GlbFilter_from_bits bytes = \<lparr>gf_bits = [of_le (take 8 bytes), of_le (take 8 (drop 8 bytes)), - 1, - 1]\<rparr>"

definition GlbFilter_from_bytes :: "u8 list \<Rightarrow> GlbFilter" where
  "GlbFilter_from_bytes bytes = \<lparr>gf_bits = [of_le (take 8 bytes), of_le (take 8 (drop 8 bytes)), - 1, - 1]\<rparr>"

definition GlbFilter_addr :: "u8 \<Rightarrow> nat \<times> nat" where
  "GlbFilter_addr r = (unat r div 64, unat r mod 64)"

definition GlbFilter_allow :: "u8 \<Rightarrow> GlbFilter \<Rightarrow> GlbFilter" where
  "GlbFilter_allow r g = (let (w, b) = GlbFilter_addr r in
     g\<lparr>gf_bits := (gf_bits g)[w := or (gf_bits g ! w) (push_bit b 1)]\<rparr>)"

definition GlbFilter_block :: "u8 \<Rightarrow> GlbFilter \<Rightarrow> GlbFilter" where
  "GlbFilter_block r g = (let (w, b) = GlbFilter_addr r in
     g\<lparr>gf_bits := (gf_bits g)[w := and (gf_bits g ! w) (not (push_bit b 1))]\<rparr>)"

definition GlbFilter_is_allowed :: "u8 \<Rightarrow> GlbFilter \<Rightarrow> bool" where
  "GlbFilter_is_allowed r g \<longleftrightarrow> (let (w, b) = GlbFilter_addr r in and (drop_bit b (gf_bits g ! w)) 1 \<noteq> 0)"

section \<open>The tracer\<close>

record QsConfig =
  max_record_len :: nat
  include_timestamp :: bool

definition QsConfig_default :: QsConfig where
  "QsConfig_default = \<lparr>max_record_len = 64, include_timestamp = True\<rparr>"

record QsRecord =
  qr_seq :: u8
  qr_record_type :: u8
  qr_timestamp :: "nat option"
  qr_payload :: "u8 list"

datatype TraceError = PayloadTooLarge nat | Backend

record 'b Tracer =
  tr_backend :: 'b
  tr_cfg :: QsConfig
  tr_seq :: u8
  tr_filter :: GlbFilter

definition Tracer_new :: "QsConfig \<Rightarrow> 'b \<Rightarrow> 'b Tracer" where
  "Tracer_new cfg b = \<lparr>tr_backend = b, tr_cfg = cfg, tr_seq = 0, tr_filter = GlbFilter_allow_all\<rparr>"

definition Tracer_set_filter :: "GlbFilter \<Rightarrow> 'b Tracer \<Rightarrow> 'b Tracer" where
  "Tracer_set_filter g t = t\<lparr>tr_filter := g\<rparr>"

text \<open>The frame body: bytes are stuffed and summed as they are pushed.\<close>

definition push_escaped :: "u8 \<Rightarrow> u8 list \<times> u8 \<Rightarrow> u8 list \<times> u8" where
  "push_escaped b p = (fst p @ (if b = FLAG \<or> b = ESC then [ESC, xor b ESC_XOR] else [b]), snd p + b)"

definition push_literal :: "u8 \<Rightarrow> u8 list \<Rightarrow> u8 list" where
  "push_literal b dest = dest @ (if b = FLAG \<or> b = ESC then [ESC, xor b ESC_XOR] else [b])"

definition timestamp_bytes :: "nat option \<Rightarrow> u8 list" where
  "timestamp_bytes ts = (case ts of None \<Rightarrow> [] | Some us \<Rightarrow> le32 (of_nat us))"

definition build_frame :: "QsRecord \<Rightarrow> u8 list" where
  "build_frame r =
     (let p0 = push_escaped (qr_record_type r) (push_escaped (qr_seq r) ([], 0));
          p1 = fold push_escaped (timestamp_bytes (qr_timestamp r)) p0;
          p2 = fold push_escaped (qr_payload r) p1
      in push_literal (not (snd p2)) (fst p2) @ [FLAG])"

definition Tracer_record ::
    "(u8 list \<Rightarrow> 'b \<Rightarrow> bool \<times> 'b) \<Rightarrow> nat \<Rightarrow> u8 \<Rightarrow> u8 list \<Rightarrow> bool \<Rightarrow> 'b Tracer \<Rightarrow> (TraceError + QsRecord) \<times> 'b Tracer" where
  "Tracer_record write_frame elapsed record_type payload with_timestamp t =
     (if \<not> GlbFilter_is_allowed record_type (tr_filter t)
      then (Inr \<lparr>qr_seq = tr_seq t, qr_record_type = record_type, qr_timestamp = None, qr_payload = []\<rparr>, t)
      else if length payload > max_record_len (tr_cfg t) then (Inl (PayloadTooLarge (length payload)), t)
      else
        let timestamp = (if include_timestamp (tr_cfg t) \<and> with_timestamp then Some elapsed else None);
            seq = tr_seq t + 1;
            r = \<lparr>qr_seq = seq, qr_record_type = record_type, qr_timestamp = timestamp, qr_payload = payload\<rparr>;
            (ok, b') = write_frame (build_frame r) (tr_backend t)
        in (if ok then Inr r else Inl Backend, t\<lparr>tr_seq := seq, tr_backend := b'\<rparr>))"

section \<open>Predefined records\<close>

record TargetInfo =
  ti_is_reset :: u8
  ti_version :: u16
  ti_signal_size :: u8
  ti_event_size :: u8
  ti_equeue_ctr_size :: u8
  ti_time_evt_ctr_size :: u8
  ti_mpool_size_size :: u8
  ti_mpool_ctr_size :: u8
  ti_obj_ptr_size :: u8
  ti_fun_ptr_size :: u8
  ti_time_size :: u8
  ti_max_active :: u8
  ti_max_event_pools :: u8
  ti_max_tick_rate :: u8
  ti_build_time :: "u8 \<times> u8 \<times> u8"
  ti_build_date :: "u8 \<times> u8 \<times> u8"

definition TargetInfo_default :: TargetInfo where
  "TargetInfo_default = \<lparr>ti_is_reset = 0xFF, ti_version = 740, ti_signal_size = 2, ti_event_size = 2,
     ti_equeue_ctr_size = 2, ti_time_evt_ctr_size = 2, ti_mpool_size_size = 2, ti_mpool_ctr_size = 2,
     ti_obj_ptr_size = 8, ti_fun_ptr_size = 8, ti_time_size = 4, ti_max_active = 16, ti_max_event_pools = 3,
     ti_max_tick_rate = 4, ti_build_time = (11, 13, 21), ti_build_date = (18, 10, 25)\<rparr>"

definition target_info_payload :: "TargetInfo \<Rightarrow> u8 list" where
  "target_info_payload i =
     [ti_is_reset i] @ le16 (ti_version i) @
     [or (ti_signal_size i) (push_bit 4 (ti_event_size i)),
      or (ti_equeue_ctr_size i) (push_bit 4 (ti_time_evt_ctr_size i)),
      or (ti_mpool_size_size i) (push_bit 4 (ti_mpool_ctr_size i)),
      or (ti_obj_ptr_size i) (push_bit 4 (ti_fun_ptr_size i)),
      ti_time_size i, ti_max_active i,
      or (ti_max_event_pools i) (push_bit 4 (ti_max_tick_rate i))] @
     (let (hour, minute, second) = ti_build_time i in [second, minute, hour]) @
     (let (day, month, year) = ti_build_date i in [day, month, year])"

text \<open>Names are the bytes of their UTF-8 encoding; \<open>usize\<close> is eight bytes.\<close>

definition push_c_string :: "u8 list \<Rightarrow> u8 list \<Rightarrow> u8 list" where
  "push_c_string target name = target @ name @ [0]"

definition obj_dict_payload :: "u64 \<Rightarrow> u8 list \<Rightarrow> u8 list" where
  "obj_dict_payload address name = push_c_string (take 8 (le64 address)) name"

definition fun_dict_payload :: "u64 \<Rightarrow> u8 list \<Rightarrow> u8 list" where
  "fun_dict_payload address name = obj_dict_payload address name"

definition usr_dict_payload :: "u8 \<Rightarrow> u8 list \<Rightarrow> u8 list" where
  "usr_dict_payload record_id name = push_c_string [record_id] name"

definition sig_dict_payload :: "u16 \<Rightarrow> u64 \<Rightarrow> u8 list \<Rightarrow> u8 list" where
  "sig_dict_payload sig object name = push_c_string (le16 sig @ take 8 (le64 object)) name"

section \<open>User records\<close>

definition FMT_I8_ENUM :: u8 where "FMT_I8_ENUM = 0x0"
definition FMT_U8 :: u8 where "FMT_U8 = 0x1"
definition FMT_I16 :: u8 where "FMT_I16 = 0x2"
definition FMT_U16 :: u8 where "FMT_U16 = 0x3"
definition FMT_I32 :: u8 where "FMT_I32 = 0x4"
definition FMT_U32 :: u8 where "FMT_U32 = 0x5"
definition FMT_F32 :: u8 where "FMT_F32 = 0x6"
definition FMT_F64 :: u8 where "FMT_F64 = 0x7"
definition FMT_STR :: u8 where "FMT_STR = 0x8"
definition FMT_MEM :: u8 where "FMT_MEM = 0x9"
definition FMT_SIG :: u8 where "FMT_SIG = 0xA"
definition FMT_OBJ :: u8 where "FMT_OBJ = 0xB"
definition FMT_FUN :: u8 where "FMT_FUN = 0xC"
definition FMT_I64 :: u8 where "FMT_I64 = 0xD"
definition FMT_U64 :: u8 where "FMT_U64 = 0xE"
definition FMT_HEX :: u8 where "FMT_HEX = 0xF"

lemmas format_codes = FMT_I8_ENUM_def FMT_U8_def FMT_I16_def FMT_U16_def FMT_I32_def FMT_U32_def FMT_F32_def
  FMT_F64_def FMT_STR_def FMT_MEM_def FMT_SIG_def FMT_OBJ_def FMT_FUN_def FMT_I64_def FMT_U64_def FMT_HEX_def

definition make_format :: "u8 \<Rightarrow> u8 \<Rightarrow> u8" where
  "make_format width base = or (push_bit 4 (and width 0x0F)) (and base 0x0F)"

text \<open>A builder is the bytes pushed so far; signed values are their two's complement words,
  floats the words of their IEEE 754 encoding.\<close>

definition push_u8 :: "u8 \<Rightarrow> u8 \<Rightarrow> u8 list \<Rightarrow> u8 list" where
  "push_u8 width v bs = bs @ [make_format width FMT_U8, v]"

definition push_u16 :: "u8 \<Rightarrow> u16 \<Rightarrow> u8 list \<Rightarrow> u8 list" where
  "push_u16 width v bs = bs @ [make_format width FMT_U16] @ le16 v"

definition push_u32 :: "u8 \<Rightarrow> u32 \<Rightarrow> u8 list \<Rightarrow> u8 list" where
  "push_u32 width v bs = bs @ [make_format width FMT_U32] @ le32 v"

definition push_u64 :: "u8 \<Rightarrow> u64 \<Rightarrow> u8 list \<Rightarrow> u8 list" where
  "push_u64 width v bs = bs @ [make_format width FMT_U64] @ le64 v"

definition push_mem :: "u8 list \<Rightarrow> u8 list \<Rightarrow> u8 list result" where
  "push_mem data bs =
     (if length data \<le> 255 then Inr (bs @ [make_format 0 FMT_MEM, of_nat (length data)] @ data) else Inl Panic)"

definition push_i8_enum :: "u8 \<Rightarrow> u8 list \<Rightarrow> u8 list" where
  "push_i8_enum v bs = bs @ [make_format 0 FMT_I8_ENUM, v]"

definition push_i16 :: "u8 \<Rightarrow> u16 \<Rightarrow> u8 list \<Rightarrow> u8 list" where
  "push_i16 width v bs = bs @ [make_format width FMT_I16] @ le16 v"

definition push_i32 :: "u8 \<Rightarrow> u32 \<Rightarrow> u8 list \<Rightarrow> u8 list" where
  "push_i32 width v bs = bs @ [make_format width FMT_I32] @ le32 v"

definition push_i64 :: "u8 \<Rightarrow> u64 \<Rightarrow> u8 list \<Rightarrow> u8 list" where
  "push_i64 width v bs = bs @ [make_format width FMT_I64] @ le64 v"

definition push_f32 :: "u32 \<Rightarrow> u8 list \<Rightarrow> u8 list" where
  "push_f32 v bs = bs @ [make_format 0 FMT_F32] @ le32 v"

definition push_f64 :: "u64 \<Rightarrow> u8 list \<Rightarrow> u8 list" where
  "push_f64 v bs = bs @ [make_format 0 FMT_F64] @ le64 v"

definition push_raw :: "u8 \<Rightarrow> u8 list \<Rightarrow> u8 list \<Rightarrow> u8 list" where
  "push_raw format bytes bs = bs @ [format] @ bytes"

definition push_str :: "u8 list \<Rightarrow> u8 list \<Rightarrow> u8 list" where
  "push_str v bs = bs @ [make_format 0 FMT_STR] @ v @ [0]"

section \<open>Test probes\<close>

definition MAX_TEST_PROBES :: nat where "MAX_TEST_PROBES = 8"

record Probe =
  pb_fn_ptr :: u64
  pb_data :: u32

type_synonym ProbeRegistry = "Probe option list"

definition ProbeRegistry_new :: ProbeRegistry where
  "ProbeRegistry_new = replicate MAX_TEST_PROBES None"

fun set_existing :: "u64 \<Rightarrow> u32 \<Rightarrow> ProbeRegistry \<Rightarrow> ProbeRegistry option" where
  "set_existing f d [] = None"
| "set_existing f d (None # s) = map_option ((#) None) (set_existing f d s)"
| "set_existing f d (Some p # s) =
     (if pb_fn_ptr p = f then Some (Some (p\<lparr>pb_data := d\<rparr>) # s)
      else map_option ((#) (Some p)) (set_existing f d s))"

fun set_empty :: "Probe \<Rightarrow> ProbeRegistry \<Rightarrow> ProbeRegistry option" where
  "set_empty p [] = None"
| "set_empty p (None # s) = Some (Some p # s)"
| "set_empty p (Some q # s) = map_option ((#) (Some q)) (set_empty p s)"

definition ProbeRegistry_set :: "u64 \<Rightarrow> u32 \<Rightarrow> ProbeRegistry \<Rightarrow> ProbeRegistry" where
  "ProbeRegistry_set f d s =
     (case set_existing f d s of
        Some s' \<Rightarrow> s'
      | None \<Rightarrow>
          (case set_empty \<lparr>pb_fn_ptr = f, pb_data = d\<rparr> s of
             Some s' \<Rightarrow> s'
           | None \<Rightarrow> s[0 := Some \<lparr>pb_fn_ptr = f, pb_data = d\<rparr>]))"

fun ProbeRegistry_take :: "u64 \<Rightarrow> ProbeRegistry \<Rightarrow> u32 option \<times> ProbeRegistry" where
  "ProbeRegistry_take f [] = (None, [])"
| "ProbeRegistry_take f (None # s) = (let (r, s') = ProbeRegistry_take f s in (r, None # s'))"
| "ProbeRegistry_take f (Some p # s) =
     (if pb_fn_ptr p = f then (Some (pb_data p), None # s)
      else let (r, s') = ProbeRegistry_take f s in (r, Some p # s'))"

definition ProbeRegistry_clear :: "ProbeRegistry \<Rightarrow> ProbeRegistry" where
  "ProbeRegistry_clear s = replicate MAX_TEST_PROBES None"

section \<open>Lemmas\<close>

text \<open>A frame is the stuffed record and checksum, then a flag.\<close>

definition record_bytes :: "QsRecord \<Rightarrow> u8 list" where
  "record_bytes r = [qr_seq r, qr_record_type r] @ timestamp_bytes (qr_timestamp r) @ qr_payload r"

lemma push_escaped_fold:
  "fold push_escaped bs p = (fst p @ stuff bs, snd p + wrapping_sum bs)"
  by (induction bs arbitrary: p) (simp_all add: push_escaped_def stuff_byte_def add.assoc)

lemma build_frame_eq:
  "build_frame r = stuff (record_bytes r @ [not (wrapping_sum (record_bytes r))]) @ [FLAG]"
  by (simp add: build_frame_def Let_def push_escaped_fold push_escaped_def push_literal_def stuff_byte_def
      record_bytes_def add.assoc add.commute add.left_commute)

lemma GlbFilter_is_allowed_bit:
  "GlbFilter_is_allowed r g \<longleftrightarrow> bit (gf_bits g ! (unat r div 64)) (unat r mod 64)"
  by (simp add: GlbFilter_is_allowed_def GlbFilter_addr_def and_one_eq bit_iff_odd_drop_bit mod_2_eq_odd)

lemma GlbFilter_allows_all: "GlbFilter_is_allowed r GlbFilter_allow_all"
proof -
  have "unat r < 2 ^ LENGTH(8)" by (rule unsigned_less)
  then have "unat r div 64 < 4" by simp
  then show ?thesis by (simp add: GlbFilter_is_allowed_bit GlbFilter_allow_all_def bit_minus_1_iff)
qed

end
