(* ===== verification/QsRx.thy ===== *)
theory QsRx
  imports Hdlc
begin

text \<open>
  The target's command parser, \<open>crates/qs/src/rx.rs\<close>: a byte-at-a-time state machine that yields a
  typed command for each frame with a correct checksum.
\<close>

section \<open>Commands\<close>

datatype RxCmd =
    RxInfo
  | RxCommand u8 u32 u32 u32
  | RxReset
  | RxTick u8
  | RxPeek u64 u16 u8 u8
  | RxPoke u64 u16 u8 u8 "u8 list"
  | RxFill u64 u16 u8 u8 "u8 list"
  | RxTestSetup
  | RxTestTeardown
  | RxTestContinue
  | RxTestProbe u64 u32
  | RxGlbFilter "u8 list"
  | RxLocFilter u8 u64
  | RxAoFilter u8
  | RxCurrObj u8 u64
  | RxQueryCurr u8
  | RxEvent u8 u16 "u8 list"
  | RxUnknown u8 "u8 list"

text \<open>\<open>slice i j\<close> is \<open>payload[i..j]\<close>, within bounds wherever it is used.\<close>

definition slice :: "nat \<Rightarrow> nat \<Rightarrow> u8 list \<Rightarrow> u8 list" where
  "slice i j bs = take (j - i) (drop i bs)"

definition decode_cmd :: "u8 \<Rightarrow> u8 list \<Rightarrow> RxCmd" where
  "decode_cmd c p =
     (if c = 0 then RxInfo
      else if c = 2 then RxReset
      else if c = 7 then RxTestSetup
      else if c = 8 then RxTestTeardown
      else if c = 14 then RxTestContinue
      else if c = 3 \<and> p \<noteq> [] then RxTick (p ! 0)
      else if c = 12 \<and> p \<noteq> [] then RxAoFilter (p ! 0)
      else if c = 15 \<and> p \<noteq> [] then RxQueryCurr (p ! 0)
      else if c = 10 \<and> length p \<ge> 16 then RxGlbFilter (slice 0 16 p)
      else if c = 11 \<and> length p \<ge> 9 then RxLocFilter (p ! 0) (of_le (slice 1 9 p))
      else if c = 13 \<and> length p \<ge> 9 then RxCurrObj (p ! 0) (of_le (slice 1 9 p))
      else if c = 9 \<and> length p \<ge> 12 then RxTestProbe (of_le (slice 0 8 p)) (of_le (slice 8 12 p))
      else if c = 1 \<and> length p \<ge> 13
        then RxCommand (p ! 0) (of_le (slice 1 5 p)) (of_le (slice 5 9 p)) (of_le (slice 9 13 p))
      else if c = 4 \<and> length p \<ge> 12 then RxPeek (of_le (slice 0 8 p)) (of_le (slice 8 10 p)) (p ! 10) (p ! 11)
      else if c = 5 \<and> length p \<ge> 12
        then RxPoke (of_le (slice 0 8 p)) (of_le (slice 8 10 p)) (p ! 10) (p ! 11) (drop 12 p)
      else if c = 6 \<and> length p \<ge> 12
        then RxFill (of_le (slice 0 8 p)) (of_le (slice 8 10 p)) (p ! 10) (p ! 11) (drop 12 p)
      else if c = 16 \<and> length p \<ge> 3 then RxEvent (p ! 0) (of_le (slice 1 3 p)) (drop 3 p)
      else RxUnknown c p)"

section \<open>The parser\<close>

datatype RxState = Idle | InFrame | Escaped

record RxParser =
  rx_state :: RxState
  rx_buf :: "u8 list"
  rx_checksum :: u8

definition RxParser_new :: RxParser where
  "RxParser_new = \<lparr>rx_state = Idle, rx_buf = [], rx_checksum = 0\<rparr>"

definition RxParser_accept :: "u8 \<Rightarrow> RxParser \<Rightarrow> RxParser" where
  "RxParser_accept b p = p\<lparr>rx_checksum := rx_checksum p + b, rx_buf := rx_buf p @ [b]\<rparr>"

definition RxParser_try_decode :: "RxParser \<Rightarrow> RxCmd option" where
  "RxParser_try_decode p =
     (if length (rx_buf p) < 3 then None
      else if wrapping_sum (rx_buf p) \<noteq> 0xFF then None
      else Some (decode_cmd (rx_buf p ! 1) (slice 2 (length (rx_buf p) - 1) (rx_buf p))))"

definition RxParser_push :: "u8 \<Rightarrow> RxParser \<Rightarrow> RxParser \<times> RxCmd option" where
  "RxParser_push b p =
     (case rx_state p of
        Idle \<Rightarrow>
          (if b = FLAG then p\<lparr>rx_buf := [], rx_checksum := 0, rx_state := InFrame\<rparr> else p, None)
      | InFrame \<Rightarrow>
          (if b = FLAG
           then (p\<lparr>rx_buf := [], rx_checksum := 0, rx_state := Idle\<rparr>, RxParser_try_decode p)
           else if b = ESC then (p\<lparr>rx_state := Escaped\<rparr>, None)
           else (RxParser_accept b p, None))
      | Escaped \<Rightarrow> (RxParser_accept (xor b ESC_XOR) (p\<lparr>rx_state := InFrame\<rparr>), None))"

definition rx_feed :: "u8 \<Rightarrow> RxParser \<Rightarrow> RxParser \<times> RxCmd list" where
  "rx_feed b p = (let (p', c) = RxParser_push b p in (p', case c of None \<Rightarrow> [] | Some x \<Rightarrow> [x]))"

definition RxParser_push_slice :: "u8 list \<Rightarrow> RxParser \<Rightarrow> RxParser \<times> RxCmd list" where
  "RxParser_push_slice bs p = feed_all rx_feed bs p"

section \<open>Lemmas\<close>

definition rx_within :: "u8 list \<Rightarrow> RxParser" where
  "rx_within buf = \<lparr>rx_state = InFrame, rx_buf = buf, rx_checksum = wrapping_sum buf\<rparr>"

interpretation rx: destuffer rx_feed rx_within
proof
  fix b :: u8 and buf
  show "rx_feed b (rx_within buf) = (rx_within (buf @ [b]), [])" if "b \<noteq> FLAG" "b \<noteq> ESC"
    using that by (simp add: rx_feed_def rx_within_def RxParser_push_def RxParser_accept_def)
  show "feed_all rx_feed [ESC, b] (rx_within buf) = (rx_within (buf @ [xor b ESC_XOR]), [])" if "b \<noteq> FLAG"
    by (simp add: rx_feed_def rx_within_def RxParser_push_def RxParser_accept_def)
qed

lemma rx_open: "rx_feed FLAG RxParser_new = (rx_within [], [])"
  by (simp add: rx_feed_def RxParser_new_def RxParser_push_def rx_within_def)

lemma rx_close:
  "rx_feed FLAG (rx_within buf) =
     (RxParser_new, case RxParser_try_decode (rx_within buf) of None \<Rightarrow> [] | Some x \<Rightarrow> [x])"
  by (simp add: rx_feed_def RxParser_new_def RxParser_push_def rx_within_def)

lemma rx_try_decode_checked:
  "RxParser_try_decode (rx_within ([sq, c] @ p @ [not (wrapping_sum ([sq, c] @ p))])) = Some (decode_cmd c p)"
proof -
  have "wrapping_sum ([sq, c] @ p @ [not (wrapping_sum ([sq, c] @ p))]) = 0xFF"
    using checksum_total [of "wrapping_sum ([sq, c] @ p)"]
    by (simp only: wrapping_sum_simps append_Cons append_Nil add.assoc add_0_right)
  then show ?thesis by (simp add: RxParser_try_decode_def rx_within_def slice_def numeral_2_eq_2)
qed

text \<open>Outside a frame everything but a flag is skipped.\<close>

lemma rx_idle_skip: "FLAG \<notin> set bs \<Longrightarrow> feed_all rx_feed bs RxParser_new = (RxParser_new, [])"
  by (induction bs) (auto simp: rx_feed_def RxParser_new_def RxParser_push_def)

end
