(* ===== verification/Qspy.thy ===== *)
theory Qspy
  imports Hdlc
begin

text \<open>
  The host tool: the trace decoder (\<open>tools/qspy/src/decoder.rs\<close>), the command sender
  (\<open>commands.rs\<close>), the payload cursor (\<open>cursor.rs\<close>) and the target's type widths
  (\<open>sizes.rs\<close>).
\<close>

section \<open>Decoding frames\<close>

record QsFrame =
  qf_seq :: u8
  qf_record_type :: u8
  qf_payload :: "u8 list"

datatype DecodeError = FrameTooShort nat | InvalidChecksum u8 u8

definition decode_frame :: "u8 list \<Rightarrow> DecodeError + QsFrame" where
  "decode_frame data =
     (if length data < 3 then Inl (FrameTooShort (length data))
      else let payload = butlast data; checksum = last data; expected = not (wrapping_sum payload)
           in if checksum \<noteq> expected then Inl (InvalidChecksum expected checksum)
              else Inr \<lparr>qf_seq = payload ! 0, qf_record_type = payload ! 1, qf_payload = drop 2 payload\<rparr>)"

record HdlcDecoder =
  hd_buffer :: "u8 list"
  hd_escape_next :: bool

definition HdlcDecoder_new :: HdlcDecoder where
  "HdlcDecoder_new = \<lparr>hd_buffer = [], hd_escape_next = False\<rparr>"

definition HdlcDecoder_reset :: "HdlcDecoder \<Rightarrow> HdlcDecoder" where
  "HdlcDecoder_reset d = d\<lparr>hd_buffer := [], hd_escape_next := False\<rparr>"

definition hdlc_feed :: "u8 \<Rightarrow> HdlcDecoder \<Rightarrow> HdlcDecoder \<times> (DecodeError + QsFrame) list" where
  "hdlc_feed b d =
     (if b = FLAG
      then (if hd_buffer d \<noteq> []
            then (d\<lparr>hd_escape_next := False, hd_buffer := []\<rparr>, [decode_frame (hd_buffer d)])
            else (d\<lparr>hd_escape_next := False\<rparr>, []))
      else if hd_escape_next d
      then (d\<lparr>hd_buffer := hd_buffer d @ [xor b ESC_XOR], hd_escape_next := False\<rparr>, [])
      else if b = ESC then (d\<lparr>hd_escape_next := True\<rparr>, [])
      else (d\<lparr>hd_buffer := hd_buffer d @ [b]\<rparr>, []))"

definition HdlcDecoder_push_bytes ::
    "u8 list \<Rightarrow> HdlcDecoder \<Rightarrow> HdlcDecoder \<times> (DecodeError + QsFrame) list" where
  "HdlcDecoder_push_bytes input d = feed_all hdlc_feed input d"

section \<open>Sending commands\<close>

record CommandSender =
  cs_written :: "u8 list"
  cs_seq :: u8

definition CommandSender_new :: CommandSender where
  "CommandSender_new = \<lparr>cs_written = [], cs_seq = 0\<rparr>"

definition cmd_build_frame :: "u8 \<Rightarrow> u8 \<Rightarrow> u8 list \<Rightarrow> u8 list" where
  "cmd_build_frame sq record_id payload =
     (let raw = [sq, record_id] @ payload; raw' = raw @ [not (wrapping_sum raw)]
      in [FLAG] @ concat (map (\<lambda>b. if b = FLAG \<or> b = ESC then [ESC, xor b ESC_XOR] else [b]) raw') @ [FLAG])"

text \<open>The writer is the byte stream to the target; a write that fails is a stream that ends.\<close>

definition CommandSender_send :: "u8 \<Rightarrow> u8 list \<Rightarrow> CommandSender \<Rightarrow> CommandSender" where
  "CommandSender_send record_id payload c =
     c\<lparr>cs_written := cs_written c @ cmd_build_frame (cs_seq c) record_id payload, cs_seq := cs_seq c + 1\<rparr>"

definition send_info :: "CommandSender \<Rightarrow> CommandSender" where
  "send_info = CommandSender_send 0 []"

definition send_reset :: "CommandSender \<Rightarrow> CommandSender" where
  "send_reset = CommandSender_send 2 []"

definition send_tick :: "u8 \<Rightarrow> CommandSender \<Rightarrow> CommandSender" where
  "send_tick rate = CommandSender_send 3 [rate]"

definition send_raw :: "u8 \<Rightarrow> u8 list \<Rightarrow> CommandSender \<Rightarrow> CommandSender" where
  "send_raw record_id payload = CommandSender_send record_id payload"

definition send_test_setup :: "CommandSender \<Rightarrow> CommandSender" where
  "send_test_setup = CommandSender_send 7 []"

definition send_test_teardown :: "CommandSender \<Rightarrow> CommandSender" where
  "send_test_teardown = CommandSender_send 8 []"

definition send_continue :: "CommandSender \<Rightarrow> CommandSender" where
  "send_continue = CommandSender_send 14 []"

definition send_ao_filter :: "u8 \<Rightarrow> CommandSender \<Rightarrow> CommandSender" where
  "send_ao_filter prio = CommandSender_send 12 [prio]"

definition send_query_curr :: "u8 \<Rightarrow> CommandSender \<Rightarrow> CommandSender" where
  "send_query_curr kind = CommandSender_send 15 [kind]"

definition send_command :: "u8 \<Rightarrow> u32 \<Rightarrow> u32 \<Rightarrow> u32 \<Rightarrow> CommandSender \<Rightarrow> CommandSender" where
  "send_command i p1 p2 p3 = CommandSender_send 1 ([i] @ le32 p1 @ le32 p2 @ le32 p3)"

definition send_glb_filter :: "u8 list \<Rightarrow> CommandSender \<Rightarrow> CommandSender" where
  "send_glb_filter msk = CommandSender_send 10 ([16] @ msk)"

definition send_loc_filter :: "u8 list \<Rightarrow> CommandSender \<Rightarrow> CommandSender" where
  "send_loc_filter msk = CommandSender_send 11 ([16] @ msk)"

section \<open>The payload cursor\<close>

record Cursor =
  cu_data :: "u8 list"
  cu_pos :: nat

definition Cursor_new :: "u8 list \<Rightarrow> Cursor" where
  "Cursor_new data = \<lparr>cu_data = data, cu_pos = 0\<rparr>"

definition read_bytes :: "nat \<Rightarrow> Cursor \<Rightarrow> u8 list option \<times> Cursor" where
  "read_bytes n c =
     (if cu_pos c + n > length (cu_data c) then (None, c)
      else (Some (take n (drop (cu_pos c) (cu_data c))), c\<lparr>cu_pos := cu_pos c + n\<rparr>))"

definition read_u8 :: "Cursor \<Rightarrow> u8 option \<times> Cursor" where
  "read_u8 c = (let (r, c') = read_bytes 1 c in (map_option (\<lambda>b. b ! 0) r, c'))"

definition read_u16 :: "Cursor \<Rightarrow> u16 option \<times> Cursor" where
  "read_u16 c = (let (r, c') = read_bytes 2 c in (map_option of_le r, c'))"

definition read_u32 :: "Cursor \<Rightarrow> u32 option \<times> Cursor" where
  "read_u32 c = (let (r, c') = read_bytes 4 c in (map_option of_le r, c'))"

definition read_u64 :: "Cursor \<Rightarrow> u64 option \<times> Cursor" where
  "read_u64 c = (let (r, c') = read_bytes 8 c in (map_option of_le r, c'))"

definition read_sized :: "u8 \<Rightarrow> Cursor \<Rightarrow> u64 option \<times> Cursor" where
  "read_sized n c =
     (if n = 1 then let (r, c') = read_u8 c in (map_option ucast r, c')
      else if n = 2 then let (r, c') = read_u16 c in (map_option ucast r, c')
      else if n = 4 then let (r, c') = read_u32 c in (map_option ucast r, c')
      else if n = 8 then read_u64 c
      else (None, c))"

text \<open>The bytes of the string, before the lossy conversion to text.\<close>

definition read_c_string :: "Cursor \<Rightarrow> u8 list option \<times> Cursor" where
  "read_c_string c =
     (let remaining = drop (cu_pos c) (cu_data c)
      in if 0 \<in> set remaining
         then let s = takeWhile (\<lambda>b. b \<noteq> 0) remaining in (Some s, c\<lparr>cu_pos := cu_pos c + length s + 1\<rparr>)
         else (None, c))"

definition Cursor_remaining :: "Cursor \<Rightarrow> nat" where
  "Cursor_remaining c = length (cu_data c) - cu_pos c"

definition Cursor_is_empty :: "Cursor \<Rightarrow> bool" where
  "Cursor_is_empty c \<longleftrightarrow> cu_pos c \<ge> length (cu_data c)"

section \<open>Target sizes\<close>

record TargetSizes =
  ts_time_size :: u8
  ts_obj_ptr_size :: u8
  ts_fun_ptr_size :: u8
  ts_signal_size :: u8
  ts_event_size :: u8
  ts_equeue_ctr :: u8
  ts_timeevt_ctr :: u8
  ts_mpool_siz :: u8
  ts_mpool_ctr :: u8

definition TargetSizes_default :: TargetSizes where
  "TargetSizes_default = \<lparr>ts_time_size = 4, ts_obj_ptr_size = 4, ts_fun_ptr_size = 4, ts_signal_size = 2,
     ts_event_size = 2, ts_equeue_ctr = 1, ts_timeevt_ctr = 2, ts_mpool_siz = 2, ts_mpool_ctr = 2\<rparr>"

definition valid_size :: "u8 \<Rightarrow> u8 \<Rightarrow> u8" where
  "valid_size v fallback = (if v = 1 \<or> v = 2 \<or> v = 4 \<or> v = 8 then v else fallback)"

definition low_nibble :: "u8 \<Rightarrow> u8" where
  "low_nibble b = and b 0x0F"

definition high_nibble :: "u8 \<Rightarrow> u8" where
  "high_nibble b = and (drop_bit 4 b) 0x0F"

definition update_from_target_info :: "u8 list \<Rightarrow> TargetSizes \<Rightarrow> TargetSizes" where
  "update_from_target_info p t =
     (if length p < 8 then t
      else \<lparr>ts_time_size = valid_size (p ! 7) (ts_time_size t),
            ts_obj_ptr_size = valid_size (low_nibble (p ! 6)) (ts_obj_ptr_size t),
            ts_fun_ptr_size = valid_size (high_nibble (p ! 6)) (ts_fun_ptr_size t),
            ts_signal_size = valid_size (low_nibble (p ! 3)) (ts_signal_size t),
            ts_event_size = valid_size (high_nibble (p ! 3)) (ts_event_size t),
            ts_equeue_ctr = valid_size (low_nibble (p ! 4)) (ts_equeue_ctr t),
            ts_timeevt_ctr = valid_size (high_nibble (p ! 4)) (ts_timeevt_ctr t),
            ts_mpool_siz = valid_size (low_nibble (p ! 5)) (ts_mpool_siz t),
            ts_mpool_ctr = valid_size (high_nibble (p ! 5)) (ts_mpool_ctr t)\<rparr>)"

section \<open>Lemmas\<close>

definition hd_within :: "u8 list \<Rightarrow> HdlcDecoder" where
  "hd_within buf = \<lparr>hd_buffer = buf, hd_escape_next = False\<rparr>"

interpretation hd: destuffer hdlc_feed hd_within
proof
  fix b :: u8 and buf
  show "hdlc_feed b (hd_within buf) = (hd_within (buf @ [b]), [])" if "b \<noteq> FLAG" "b \<noteq> ESC"
    using that by (simp add: hdlc_feed_def hd_within_def)
  show "feed_all hdlc_feed [ESC, b] (hd_within buf) = (hd_within (buf @ [xor b ESC_XOR]), [])" if "b \<noteq> FLAG"
    using that by (simp add: hdlc_feed_def hd_within_def)
qed

lemma hd_flag:
  "hdlc_feed FLAG d = (hd_within [], if hd_buffer d = [] then [] else [decode_frame (hd_buffer d)])"
  by (simp add: hdlc_feed_def hd_within_def)

lemma decode_frame_checked:
  "decode_frame ([sq, rt] @ p @ [not (wrapping_sum ([sq, rt] @ p))]) = Inr \<lparr>qf_seq = sq, qf_record_type = rt, qf_payload = p\<rparr>"
  by (simp add: decode_frame_def butlast_append Let_def)

lemma cmd_build_frame_eq:
  "cmd_build_frame sq i p = [FLAG] @ stuff ([sq, i] @ p @ [not (wrapping_sum ([sq, i] @ p))]) @ [FLAG]"
  by (simp add: cmd_build_frame_def stuff_def stuff_byte_def [abs_def] Let_def)

lemma nibbles:
  assumes "x < 16" "y < (16 :: u8)"
  shows "low_nibble (or x (push_bit 4 y)) = x" "high_nibble (or x (push_bit 4 y)) = y"
proof -
  have b: "\<not> bit w n" if "w < 16" "4 \<le> n" for w :: u8 and n
  proof
    assume "bit w n"
    then have "bit (unat w) n" by (simp add: bit_unsigned_iff)
    moreover have "unat w < 2 ^ n"
      using that power_increasing [of 4 n "2 :: nat"] by (simp add: word_less_nat_alt)
    ultimately show False by (simp add: bit_iff_odd)
  qed
  have m: "(0x0F :: u8) = mask 4" by (simp add: mask_eq_exp_minus_1)
  have bx: "bit x n \<Longrightarrow> n < 4" and by': "bit y n \<Longrightarrow> n < 4" for n
    using b [OF assms(1), of n] b [OF assms(2), of n] by (auto simp: not_le [symmetric])
  show "low_nibble (or x (push_bit 4 y)) = x"
    by (rule bit_word_eqI) (use bx in \<open>auto simp: low_nibble_def m bit_simps\<close>)
  show "high_nibble (or x (push_bit 4 y)) = y"
    by (rule bit_word_eqI) (use bx [of "_ + 4"] by' in \<open>auto simp: high_nibble_def m bit_simps add.commute\<close>)
qed

end
