(* ===== verification/Text.thy ===== *)
theory Text
  imports Prelude "HOL-Library.Monad_Syntax"
begin

text \<open>
  What the host tool uses of Rust's strings: a \<open>String\<close> is the list of the bytes of its UTF-8
  encoding, written as characters; formatting and parsing of integers (\<open>{:010}\<close>, \<open>{:#04X}\<close>,
  \<open>from_str_radix\<close>), of floats with six decimals, the lossy conversion of bytes to text, trimming
  and splitting.
\<close>

section \<open>Bytes and characters\<close>

definition chars :: "u8 list \<Rightarrow> string" where
  "chars bs = map (\<lambda>b. char_of (unat b)) bs"

definition bytes :: "string \<Rightarrow> u8 list" where
  "bytes s = map (\<lambda>c. of_nat (of_char c)) s"

lemma bytes_chars [simp]: "bytes (chars bs) = bs"
proof -
  have "of_nat (of_char (char_of (unat b) :: char)) = b" for b :: u8
    using unsigned_less [of b, where ?'a = nat] by (simp add: of_char_of)
  then show ?thesis by (simp add: bytes_def chars_def comp_def map_idI)
qed

lemma chars_bytes [simp]: "chars (bytes s) = s"
proof -
  have "char_of (unat (of_nat (of_char c) :: u8)) = c" for c :: char
    by (simp add: unat_of_nat)
  then show ?thesis by (simp add: bytes_def chars_def comp_def map_idI)
qed

lemma chars_append [simp]: "chars (xs @ ys) = chars xs @ chars ys"
  and bytes_append [simp]: "bytes (s @ t) = bytes s @ bytes t"
  by (simp_all add: chars_def bytes_def)

lemma length_chars [simp]: "length (chars bs) = length bs" "length (bytes s) = length s"
  by (simp_all add: chars_def bytes_def)

lemma chars_eq_iff [simp]: "chars bs = chars cs \<longleftrightarrow> bs = cs"
  by (metis bytes_chars)

section \<open>Integers\<close>

definition digit :: "nat \<Rightarrow> char" where
  "digit d = char_of (if d < 10 then 48 + d else 55 + d)"

function digits :: "nat \<Rightarrow> nat \<Rightarrow> string" where
  "digits b n = (if b < 2 \<or> n < b then [digit n] else digits b (n div b) @ [digit (n mod b)])"
  by pat_completeness auto
termination
  by (relation "measure snd") (auto intro: div_less_dividend)

declare digits.simps [simp del]

definition dec :: "nat \<Rightarrow> string" where
  "dec n = digits 10 n"

definition dec_int :: "int \<Rightarrow> string" where
  "dec_int i = (if i < 0 then ''-'' @ dec (nat (- i)) else dec (nat i))"

definition zero_pad :: "nat \<Rightarrow> string \<Rightarrow> string" where
  "zero_pad w s = replicate (w - length s) CHR ''0'' @ s"

text \<open>\<open>{:0w}\<close>, \<open>{:0wX}\<close> and \<open>{:#0wX}\<close>, whose width counts the prefix.\<close>

definition dec_w :: "nat \<Rightarrow> nat \<Rightarrow> string" where
  "dec_w w n = zero_pad w (dec n)"

definition hex_w :: "nat \<Rightarrow> nat \<Rightarrow> string" where
  "hex_w w n = zero_pad w (digits 16 n)"

definition hex_alt :: "nat \<Rightarrow> nat \<Rightarrow> string" where
  "hex_alt w n = ''0x'' @ hex_w (w - 2) n"

text \<open>Parsing with \<open>from_str_radix\<close> for an unsigned type.\<close>

definition to_digit :: "nat \<Rightarrow> char \<Rightarrow> nat option" where
  "to_digit radix c =
     (let n = (of_char c :: nat);
          d = (if 48 \<le> n \<and> n \<le> 57 then n - 48 else if 97 \<le> n \<and> n \<le> 122 then n - 87
               else if 65 \<le> n \<and> n \<le> 90 then n - 55 else radix)
      in if d < radix then Some d else None)"

fun digits_value :: "nat \<Rightarrow> nat \<Rightarrow> string \<Rightarrow> nat option" where
  "digits_value radix acc [] = Some acc"
| "digits_value radix acc (c # cs) =
     (case to_digit radix c of None \<Rightarrow> None | Some d \<Rightarrow> digits_value radix (acc * radix + d) cs)"

definition from_str_radix :: "nat \<Rightarrow> string \<Rightarrow> 'a::len word option" where
  "from_str_radix radix s =
     (let ds = (if s \<noteq> [] \<and> hd s = CHR ''+'' then tl s else s)
      in if ds = [] then None
         else case digits_value radix 0 ds of
           None \<Rightarrow> None
         | Some n \<Rightarrow> if n < 2 ^ LENGTH('a) then Some (of_nat n) else None)"

lemma digit_0: "digit 0 = CHR ''0''"
  by (simp add: digit_def char_of_def bit_Suc_0_iff)

lemma to_digit_digit:
  assumes "d < radix" "radix \<le> 16"
  shows "to_digit radix (digit d) = Some d"
  using assms by (simp add: to_digit_def digit_def of_char_of)

lemma digits_value_append:
  "digits_value r acc (s @ t) = (case digits_value r acc s of None \<Rightarrow> None | Some a \<Rightarrow> digits_value r a t)"
  by (induction s arbitrary: acc) (auto split: option.splits)

lemma digits_value_digits:
  assumes "2 \<le> r" "r \<le> 16"
  shows "digits_value r 0 (digits r n) = Some n"
proof (induction n rule: less_induct)
  case (less n)
  show ?case
  proof (cases "n < r")
    case True
    with assms show ?thesis by (subst digits.simps) (simp add: to_digit_digit)
  next
    case False
    with assms have "n div r < n" by (intro div_less_dividend) auto
    from less.IH [OF this] assms False show ?thesis
      by (subst digits.simps) (simp add: digits_value_append to_digit_digit)
  qed
qed

lemma digits_value_pad:
  assumes "2 \<le> r" "r \<le> 16"
  shows "digits_value r 0 (zero_pad w (digits r n)) = Some n"
proof -
  have z: "to_digit r (CHR ''0'') = Some 0" using to_digit_digit [of 0 r] assms by (simp add: digit_0)
  have "digits_value r 0 (replicate k (CHR ''0'')) = Some 0" for k by (induction k) (simp_all add: z)
  then show ?thesis by (simp add: zero_pad_def digits_value_append digits_value_digits assms)
qed

lemma digit_neq:
  assumes "d < 16"
  shows "digit d \<noteq> CHR ''+''" "digit d \<noteq> CHR '' ''" "digit d \<noteq> CHR 0x0A"
proof -
  have "of_char (digit d) = (if d < 10 then 48 + d else 55 + d)" using assms by (simp add: digit_def of_char_of)
  then show "digit d \<noteq> CHR ''+''" "digit d \<noteq> CHR '' ''" "digit d \<noteq> CHR 0x0A" by (auto split: if_splits)
qed

lemma digits_nonempty [simp]: "digits b n \<noteq> []"
  by (subst digits.simps) simp

lemma set_digits:
  assumes "2 \<le> b" "b \<le> 16"
  shows "set (digits b n) \<subseteq> digit ` {..<b}"
proof (induction n rule: less_induct)
  case (less n)
  show ?case
  proof (cases "n < b")
    case True
    with assms show ?thesis by (subst digits.simps) auto
  next
    case False
    with assms have "n div b < n" by (intro div_less_dividend) auto
    from less.IH [OF this] assms False show ?thesis by (subst digits.simps) auto
  qed
qed

lemma set_zero_pad:
  assumes "2 \<le> b" "b \<le> 16"
  shows "set (zero_pad w (digits b n)) \<subseteq> digit ` {..<16}"
proof -
  have "digit ` {..<b} \<subseteq> digit ` {..<16}" using assms by (intro image_mono) auto
  moreover have "digit 0 \<in> digit ` {..<16}" by simp
  ultimately show ?thesis using set_digits [OF assms, of n] by (auto simp: zero_pad_def digit_0)
qed

lemma number_chars:
  assumes "2 \<le> b" "b \<le> 16" "c \<in> set (zero_pad w (digits b n))"
  shows "c \<noteq> CHR ''+''" "c \<noteq> CHR '' ''" "c \<noteq> CHR 0x0A"
proof -
  from set_zero_pad [OF assms(1,2), of w n] assms(3) obtain d where "d < 16" "c = digit d" by blast
  then show "c \<noteq> CHR ''+''" "c \<noteq> CHR '' ''" "c \<noteq> CHR 0x0A" by (simp_all add: digit_neq)
qed

lemma from_str_radix_pad:
  assumes "2 \<le> r" "r \<le> 16"
  shows "from_str_radix r (zero_pad w (digits r (unat v))) = Some (v :: 'a::len word)"
proof -
  let ?s = "zero_pad w (digits r (unat v))"
  have ne: "?s \<noteq> []" by (simp add: zero_pad_def)
  then have "hd ?s \<noteq> CHR ''+''" using number_chars(1) [OF assms] by (meson hd_in_set)
  with ne show ?thesis
    using unsigned_less [of v, where ?'a = nat] by (simp add: from_str_radix_def digits_value_pad [OF assms])
qed

lemma zero_pad_0: "zero_pad 0 s = s"
  by (simp add: zero_pad_def)

lemma from_str_radix_dec: "from_str_radix 10 (dec (unat v)) = Some (v :: 'a::len word)"
  using from_str_radix_pad [of 10 0 v] by (simp add: zero_pad_0 dec_def)

section \<open>UTF-8\<close>

text \<open>
  The next character of a byte sequence: whether it is well formed and how many bytes it, or the
  malformed prefix that one replacement character stands for, takes.
\<close>

definition safe_get :: "u8 list \<Rightarrow> nat \<Rightarrow> u8" where
  "safe_get bs i = (if i < length bs then bs ! i else 0)"

definition utf8_cont :: "u8 \<Rightarrow> bool" where
  "utf8_cont b \<longleftrightarrow> and b 0xC0 = 0x80"

definition utf8_second3 :: "u8 \<Rightarrow> u8 \<Rightarrow> bool" where
  "utf8_second3 a b \<longleftrightarrow>
     a = 0xE0 \<and> 0xA0 \<le> b \<and> b \<le> 0xBF \<or> 0xE1 \<le> a \<and> a \<le> 0xEC \<and> 0x80 \<le> b \<and> b \<le> 0xBF \<or>
     a = 0xED \<and> 0x80 \<le> b \<and> b \<le> 0x9F \<or> 0xEE \<le> a \<and> 0x80 \<le> b \<and> b \<le> 0xBF"

definition utf8_second4 :: "u8 \<Rightarrow> u8 \<Rightarrow> bool" where
  "utf8_second4 a b \<longleftrightarrow>
     a = 0xF0 \<and> 0x90 \<le> b \<and> b \<le> 0xBF \<or> 0xF1 \<le> a \<and> a \<le> 0xF3 \<and> 0x80 \<le> b \<and> b \<le> 0xBF \<or>
     a = 0xF4 \<and> 0x80 \<le> b \<and> b \<le> 0x8F"

definition utf8_step :: "u8 \<Rightarrow> u8 list \<Rightarrow> bool \<times> nat" where
  "utf8_step b bs =
     (if b < 0x80 then (True, 1)
      else if 0xC2 \<le> b \<and> b \<le> 0xDF then (if utf8_cont (safe_get bs 0) then (True, 2) else (False, 1))
      else if 0xE0 \<le> b \<and> b \<le> 0xEF
      then (if \<not> utf8_second3 b (safe_get bs 0) then (False, 1)
            else if utf8_cont (safe_get bs 1) then (True, 3) else (False, 2))
      else if 0xF0 \<le> b \<and> b \<le> 0xF4
      then (if \<not> utf8_second4 b (safe_get bs 0) then (False, 1)
            else if \<not> utf8_cont (safe_get bs 1) then (False, 2)
            else if utf8_cont (safe_get bs 2) then (True, 4) else (False, 3))
      else (False, 1))"

function from_utf8_lossy :: "u8 list \<Rightarrow> u8 list" where
  "from_utf8_lossy [] = []"
| "from_utf8_lossy (b # bs) =
     (let (ok, n) = utf8_step b bs
      in (if ok then b # take (n - 1) bs else [0xEF, 0xBF, 0xBD]) @ from_utf8_lossy (drop (n - 1) bs))"
  by pat_completeness auto
termination
  by (relation "measure length") auto

function utf8_valid :: "u8 list \<Rightarrow> bool" where
  "utf8_valid [] = True"
| "utf8_valid (b # bs) = (let (ok, n) = utf8_step b bs in ok \<and> utf8_valid (drop (n - 1) bs))"
  by pat_completeness auto
termination
  by (relation "measure length") auto

lemma from_utf8_lossy_valid: "utf8_valid bs \<Longrightarrow> from_utf8_lossy bs = bs"
  by (induction bs rule: from_utf8_lossy.induct) (auto split: prod.splits)

lemma utf8_valid_ascii_Cons [simp]: "b < 0x80 \<Longrightarrow> utf8_valid (b # bs) \<longleftrightarrow> utf8_valid bs"
  by (simp add: utf8_step_def)

declare utf8_valid.simps(2) [simp del]

lemma utf8_valid_ascii_append:
  "list_all (\<lambda>b. b < 0x80) bs \<Longrightarrow> utf8_valid (bs @ cs) \<longleftrightarrow> utf8_valid cs"
  by (induction bs) simp_all

section \<open>Floats with six decimals\<close>

text \<open>
  The fixed-point rendering of \<open>m * 2 ^ e\<close> (with the exponent split into a positive and a negative
  part), exact up to the sixth decimal and rounded half to even there.
\<close>

definition round_half_even :: "nat \<Rightarrow> nat \<Rightarrow> nat" where
  "round_half_even n k =
     (let q = n div 2 ^ k; r = n mod 2 ^ k
      in if 2 * r < 2 ^ k \<or> 2 * r = 2 ^ k \<and> even q then q else q + 1)"

definition fixed6 :: "nat \<Rightarrow> nat \<Rightarrow> nat \<Rightarrow> string" where
  "fixed6 m up down =
     (let n = round_half_even (m * 2 ^ up * 10 ^ 6) down
      in dec (n div 10 ^ 6) @ ''.'' @ dec_w 6 (n mod 10 ^ 6))"

text \<open>
  An IEEE 754 value with \<open>w\<close> exponent bits and \<open>p\<close> mantissa bits, \<open>{:.6}\<close>.
\<close>

definition fmt_float :: "nat \<Rightarrow> nat \<Rightarrow> nat \<Rightarrow> string" where
  "fmt_float w p bits =
     (let mantissa = bits mod 2 ^ p; ex = bits div 2 ^ p mod 2 ^ w; neg = odd (bits div 2 ^ (p + w));
          bias = 2 ^ (w - 1) - 1; sgn = (if neg then ''-'' else [])
      in if ex = 2 ^ w - 1 then (if mantissa = 0 then sgn @ ''inf'' else ''NaN'')
         else let m = (if ex = 0 then mantissa else mantissa + 2 ^ p); e = max 1 ex
              in sgn @ fixed6 m (e - (bias + p)) (bias + p - e))"

definition fmt_f32 :: "u32 \<Rightarrow> string" where
  "fmt_f32 v = fmt_float 8 23 (unat v)"

definition fmt_f64 :: "u64 \<Rightarrow> string" where
  "fmt_f64 v = fmt_float 11 52 (unat v)"

section \<open>Lines and words\<close>

text \<open>The encodings of the characters Unicode calls white space.\<close>

definition white_spaces :: "u8 list list" where
  "white_spaces = map (\<lambda>b. [b]) [0x09, 0x0A, 0x0B, 0x0C, 0x0D, 0x20] @
     [[0xC2, 0x85], [0xC2, 0xA0], [0xE1, 0x9A, 0x80]] @
     map (\<lambda>b. [0xE2, 0x80, b]) [0x80, 0x81, 0x82, 0x83, 0x84, 0x85, 0x86, 0x87, 0x88, 0x89, 0x8A, 0xA8, 0xA9, 0xAF] @
     [[0xE2, 0x81, 0x9F], [0xE3, 0x80, 0x80]]"

definition white_prefix :: "string list \<Rightarrow> string \<Rightarrow> nat" where
  "white_prefix ws s = (case find (\<lambda>w. w \<noteq> [] \<and> take (length w) s = w) ws of None \<Rightarrow> 0 | Some w \<Rightarrow> length w)"

function trim_with :: "string list \<Rightarrow> string \<Rightarrow> string" where
  "trim_with ws s = (if white_prefix ws s = 0 \<or> s = [] then s else trim_with ws (drop (white_prefix ws s) s))"
  by pat_completeness auto
termination
  by (relation "measure (length \<circ> snd)") auto

declare trim_with.simps [simp del]

definition trim :: "string \<Rightarrow> string" where
  "trim s = (let ws = map chars white_spaces in rev (trim_with (map rev ws) (rev (trim_with ws s))))"

text \<open>\<open>splitn\<close> at spaces, and the lines of a file with their terminators removed.\<close>

fun splitn :: "nat \<Rightarrow> string \<Rightarrow> string list" where
  "splitn 0 s = []"
| "splitn (Suc 0) s = [s]"
| "splitn (Suc (Suc n)) s =
     (if CHR '' '' \<in> set s
      then takeWhile (\<lambda>c. c \<noteq> CHR '' '') s # splitn (Suc n) (tl (dropWhile (\<lambda>c. c \<noteq> CHR '' '') s))
      else [s])"

definition strip_cr :: "string \<Rightarrow> string" where
  "strip_cr l = (if l \<noteq> [] \<and> last l = CHR 0x0D then butlast l else l)"

function file_lines :: "string \<Rightarrow> string list" where
  "file_lines s =
     (if s = [] then []
      else if CHR 0x0A \<in> set s
      then strip_cr (takeWhile (\<lambda>c. c \<noteq> CHR 0x0A) s) # file_lines (tl (dropWhile (\<lambda>c. c \<noteq> CHR 0x0A) s))
      else [s])"
  by pat_completeness auto
termination
proof (relation "measure length")
  fix s :: string
  assume "s \<noteq> []"
  then show "(tl (dropWhile (\<lambda>c. c \<noteq> CHR 0x0A) s), s) \<in> measure length"
    using length_dropWhile_le [of "\<lambda>c. c \<noteq> CHR 0x0A" s] by (cases s) (auto intro: le_less_trans)
qed simp

declare file_lines.simps [simp del]

lemma splitn_hit:
  "CHR '' '' \<notin> set w \<Longrightarrow> splitn (Suc (Suc n)) (w @ CHR '' '' # s) = w # splitn (Suc n) s"
  by (simp add: takeWhile_append dropWhile_append)

lemma splitn_miss:
  "CHR '' '' \<notin> set w \<Longrightarrow> splitn (Suc n) w = [w]"
  by (cases n) simp_all

declare splitn.simps(3) [simp del]

lemma file_lines_line:
  "CHR 0x0A \<notin> set l \<Longrightarrow> file_lines (l @ CHR 0x0A # s) = strip_cr l # file_lines s"
  by (subst file_lines.simps) (simp add: takeWhile_append dropWhile_append)

lemma file_lines_Nil [simp]: "file_lines [] = []"
  by (simp add: file_lines.simps)

end
