(* ===== verification/Records.thy ===== *)
theory Records
  imports Prelude
begin

text \<open>
  The QS record identifiers shared by target and host (\<open>crates/qs/src/records.rs\<close> and
  \<open>predefined.rs\<close>), prefixed with their module.
\<close>

section \<open>Record identifiers\<close>

definition ENUM_DICT :: u8 where "ENUM_DICT = 54"
definition SIG_DICT :: u8 where "SIG_DICT = 60"
definition OBJ_DICT :: u8 where "OBJ_DICT = 61"
definition FUN_DICT :: u8 where "FUN_DICT = 62"
definition USR_DICT :: u8 where "USR_DICT = 63"
definition TARGET_INFO :: u8 where "TARGET_INFO = 64"
definition qep_STATE_ENTRY :: u8 where "qep_STATE_ENTRY = 1"
definition qep_STATE_EXIT :: u8 where "qep_STATE_EXIT = 2"
definition qep_STATE_INIT :: u8 where "qep_STATE_INIT = 3"
definition qep_INIT_TRAN :: u8 where "qep_INIT_TRAN = 4"
definition qep_INTERN_TRAN :: u8 where "qep_INTERN_TRAN = 5"
definition qep_TRAN :: u8 where "qep_TRAN = 6"
definition qep_IGNORED :: u8 where "qep_IGNORED = 7"
definition qep_DISPATCH :: u8 where "qep_DISPATCH = 8"
definition qep_UNHANDLED :: u8 where "qep_UNHANDLED = 9"
definition qep_TRAN_HIST :: u8 where "qep_TRAN_HIST = 55"
definition qf_ACTIVE_DEFER :: u8 where "qf_ACTIVE_DEFER = 10"
definition qf_ACTIVE_RECALL :: u8 where "qf_ACTIVE_RECALL = 11"
definition qf_ACTIVE_SUBSCRIBE :: u8 where "qf_ACTIVE_SUBSCRIBE = 12"
definition qf_ACTIVE_UNSUBSCRIBE :: u8 where "qf_ACTIVE_UNSUBSCRIBE = 13"
definition qf_ACTIVE_POST :: u8 where "qf_ACTIVE_POST = 14"
definition qf_ACTIVE_POST_LIFO :: u8 where "qf_ACTIVE_POST_LIFO = 15"
definition qf_ACTIVE_GET :: u8 where "qf_ACTIVE_GET = 16"
definition qf_ACTIVE_GET_LAST :: u8 where "qf_ACTIVE_GET_LAST = 17"
definition qf_ACTIVE_RECALL_ATTEMPT :: u8 where "qf_ACTIVE_RECALL_ATTEMPT = 18"
definition qf_EQUEUE_INIT :: u8 where "qf_EQUEUE_INIT = 19"
definition qf_EQUEUE_POST :: u8 where "qf_EQUEUE_POST = 20"
definition qf_EQUEUE_POST_LIFO :: u8 where "qf_EQUEUE_POST_LIFO = 21"
definition qf_EQUEUE_GET :: u8 where "qf_EQUEUE_GET = 22"
definition qf_MPOOL_INIT :: u8 where "qf_MPOOL_INIT = 23"
definition qf_MPOOL_GET :: u8 where "qf_MPOOL_GET = 24"
definition qf_MPOOL_PUT :: u8 where "qf_MPOOL_PUT = 25"
definition qf_PUBLISH :: u8 where "qf_PUBLISH = 26"
definition qf_NEW_REF :: u8 where "qf_NEW_REF = 27"
definition qf_NEW :: u8 where "qf_NEW = 28"
definition qf_GC_ATTEMPT :: u8 where "qf_GC_ATTEMPT = 29"
definition qf_GC :: u8 where "qf_GC = 30"
definition qf_TICK :: u8 where "qf_TICK = 31"
definition time_evt_ARM :: u8 where "time_evt_ARM = 32"
definition time_evt_AUTO_DISARM :: u8 where "time_evt_AUTO_DISARM = 33"
definition time_evt_DISARM_ATTEMPT :: u8 where "time_evt_DISARM_ATTEMPT = 34"
definition time_evt_DISARM :: u8 where "time_evt_DISARM = 35"
definition time_evt_REARM :: u8 where "time_evt_REARM = 36"
definition time_evt_POST :: u8 where "time_evt_POST = 37"
definition qf_DELETE_REF :: u8 where "qf_DELETE_REF = 38"
definition qf_CRIT_ENTRY :: u8 where "qf_CRIT_ENTRY = 39"
definition qf_CRIT_EXIT :: u8 where "qf_CRIT_EXIT = 40"
definition qf_ISR_ENTRY :: u8 where "qf_ISR_ENTRY = 41"
definition qf_ISR_EXIT :: u8 where "qf_ISR_EXIT = 42"
definition qf_ACTIVE_POST_ATTEMPT :: u8 where "qf_ACTIVE_POST_ATTEMPT = 45"
definition qf_EQUEUE_POST_ATTEMPT :: u8 where "qf_EQUEUE_POST_ATTEMPT = 46"
definition qf_MPOOL_GET_ATTEMPT :: u8 where "qf_MPOOL_GET_ATTEMPT = 47"
definition qf_ACTIVE_DEFER_ATTEMPT :: u8 where "qf_ACTIVE_DEFER_ATTEMPT = 81"
definition sched_LOCK :: u8 where "sched_LOCK = 50"
definition sched_UNLOCK :: u8 where "sched_UNLOCK = 51"
definition sched_NEXT :: u8 where "sched_NEXT = 52"
definition sched_IDLE :: u8 where "sched_IDLE = 53"
definition infra_TEST_PAUSED :: u8 where "infra_TEST_PAUSED = 58"
definition infra_TEST_PROBE :: u8 where "infra_TEST_PROBE = 59"
definition infra_TARGET_DONE :: u8 where "infra_TARGET_DONE = 65"
definition infra_RX_STATUS :: u8 where "infra_RX_STATUS = 66"
definition infra_QUERY_DATA :: u8 where "infra_QUERY_DATA = 67"
definition infra_PEEK_DATA :: u8 where "infra_PEEK_DATA = 68"
definition infra_ASSERT_FAIL :: u8 where "infra_ASSERT_FAIL = 69"
definition infra_QF_RUN :: u8 where "infra_QF_RUN = 70"
definition qxk_SEM_TAKE :: u8 where "qxk_SEM_TAKE = 71"
definition qxk_SEM_BLOCK :: u8 where "qxk_SEM_BLOCK = 72"
definition qxk_SEM_SIGNAL :: u8 where "qxk_SEM_SIGNAL = 73"
definition qxk_SEM_BLOCK_ATTEMPT :: u8 where "qxk_SEM_BLOCK_ATTEMPT = 74"
definition qxk_MTX_LOCK :: u8 where "qxk_MTX_LOCK = 75"
definition qxk_MTX_BLOCK :: u8 where "qxk_MTX_BLOCK = 76"
definition qxk_MTX_UNLOCK :: u8 where "qxk_MTX_UNLOCK = 77"
definition qxk_MTX_LOCK_ATTEMPT :: u8 where "qxk_MTX_LOCK_ATTEMPT = 78"
definition qxk_MTX_BLOCK_ATTEMPT :: u8 where "qxk_MTX_BLOCK_ATTEMPT = 79"
definition qxk_MTX_UNLOCK_ATTEMPT :: u8 where "qxk_MTX_UNLOCK_ATTEMPT = 80"

lemmas record_ids =
  ENUM_DICT_def SIG_DICT_def OBJ_DICT_def FUN_DICT_def USR_DICT_def
  TARGET_INFO_def qep_STATE_ENTRY_def qep_STATE_EXIT_def qep_STATE_INIT_def qep_INIT_TRAN_def
  qep_INTERN_TRAN_def qep_TRAN_def qep_IGNORED_def qep_DISPATCH_def qep_UNHANDLED_def
  qep_TRAN_HIST_def qf_ACTIVE_DEFER_def qf_ACTIVE_RECALL_def qf_ACTIVE_SUBSCRIBE_def qf_ACTIVE_UNSUBSCRIBE_def
  qf_ACTIVE_POST_def qf_ACTIVE_POST_LIFO_def qf_ACTIVE_GET_def qf_ACTIVE_GET_LAST_def qf_ACTIVE_RECALL_ATTEMPT_def
  qf_EQUEUE_INIT_def qf_EQUEUE_POST_def qf_EQUEUE_POST_LIFO_def qf_EQUEUE_GET_def qf_MPOOL_INIT_def
  qf_MPOOL_GET_def qf_MPOOL_PUT_def qf_PUBLISH_def qf_NEW_REF_def qf_NEW_def
  qf_GC_ATTEMPT_def qf_GC_def qf_TICK_def time_evt_ARM_def time_evt_AUTO_DISARM_def
  time_evt_DISARM_ATTEMPT_def time_evt_DISARM_def time_evt_REARM_def time_evt_POST_def qf_DELETE_REF_def
  qf_CRIT_ENTRY_def qf_CRIT_EXIT_def qf_ISR_ENTRY_def qf_ISR_EXIT_def qf_ACTIVE_POST_ATTEMPT_def
  qf_EQUEUE_POST_ATTEMPT_def qf_MPOOL_GET_ATTEMPT_def qf_ACTIVE_DEFER_ATTEMPT_def sched_LOCK_def sched_UNLOCK_def
  sched_NEXT_def sched_IDLE_def infra_TEST_PAUSED_def infra_TEST_PROBE_def infra_TARGET_DONE_def
  infra_RX_STATUS_def infra_QUERY_DATA_def infra_PEEK_DATA_def infra_ASSERT_FAIL_def infra_QF_RUN_def
  qxk_SEM_TAKE_def qxk_SEM_BLOCK_def qxk_SEM_SIGNAL_def qxk_SEM_BLOCK_ATTEMPT_def qxk_MTX_LOCK_def
  qxk_MTX_BLOCK_def qxk_MTX_UNLOCK_def qxk_MTX_LOCK_ATTEMPT_def qxk_MTX_BLOCK_ATTEMPT_def qxk_MTX_UNLOCK_ATTEMPT_def

end
