(* ===== verification/Interp.thy ===== *)
theory Interp
  imports Qspy QsTx Text Records
begin

text \<open>
  The host tool's interpreter (\<open>tools/qspy/src/interpreter.rs\<close>): it turns decoded frames into lines
  of text and keeps the dictionaries of names the target sends. A dictionary maps a key to the
  name a record gave it; a \<open>HashMap\<close> is a finite map, whose iteration order only saving depends on.
\<close>

section \<open>State\<close>

record Dictionaries =
  di_objects :: "u64 \<rightharpoonup> string"
  di_functions :: "u64 \<rightharpoonup> string"
  di_signals :: "u32 \<times> u64 \<rightharpoonup> string"
  di_users :: "u8 \<rightharpoonup> string"
  di_enums :: "u8 \<times> u8 \<rightharpoonup> string"

definition Dictionaries_default :: Dictionaries where
  "Dictionaries_default = \<lparr>di_objects = Map.empty, di_functions = Map.empty, di_signals = Map.empty,
     di_users = Map.empty, di_enums = Map.empty\<rparr>"

type_synonym UserRecordFormatter = "string \<Rightarrow> string list \<Rightarrow> string option"

record FrameInterpreter =
  fi_dict :: Dictionaries
  fi_sizes :: TargetSizes
  fi_qs_version :: u16
  fi_user_formatters :: "UserRecordFormatter list"

definition FrameInterpreter_with_sizes :: "TargetSizes \<Rightarrow> FrameInterpreter" where
  "FrameInterpreter_with_sizes t =
     \<lparr>fi_dict = Dictionaries_default, fi_sizes = t, fi_qs_version = 700, fi_user_formatters = []\<rparr>"

definition FrameInterpreter_new :: FrameInterpreter where
  "FrameInterpreter_new =
     \<lparr>fi_dict = Dictionaries_default, fi_sizes = TargetSizes_default, fi_qs_version = 700, fi_user_formatters = []\<rparr>"

definition set_sizes :: "TargetSizes \<Rightarrow> FrameInterpreter \<Rightarrow> FrameInterpreter" where
  "set_sizes t fi = fi\<lparr>fi_sizes := t\<rparr>"

definition set_qs_version :: "u16 \<Rightarrow> FrameInterpreter \<Rightarrow> FrameInterpreter" where
  "set_qs_version v fi = fi\<lparr>fi_qs_version := v\<rparr>"

definition add_user_formatter :: "UserRecordFormatter \<Rightarrow> FrameInterpreter \<Rightarrow> FrameInterpreter" where
  "add_user_formatter f fi = fi\<lparr>fi_user_formatters := fi_user_formatters fi @ [f]\<rparr>"

section \<open>Reading fields\<close>

text \<open>
  A handler reads all its fields and prints nothing when one is missing: \<open>field\<close> threads the cursor
  through the successful reads.
\<close>

definition field :: "(Cursor \<Rightarrow> 'a option \<times> Cursor) \<Rightarrow> Cursor \<Rightarrow> ('a \<times> Cursor) option" where
  "field rd c = (case rd c of (Some x, c') \<Rightarrow> Some (x, c') | (None, c') \<Rightarrow> None)"

abbreviation rd_u8 :: "Cursor \<Rightarrow> (u8 \<times> Cursor) option" where "rd_u8 \<equiv> field read_u8"
abbreviation rd_u16 :: "Cursor \<Rightarrow> (u16 \<times> Cursor) option" where "rd_u16 \<equiv> field read_u16"
abbreviation rd_u32 :: "Cursor \<Rightarrow> (u32 \<times> Cursor) option" where "rd_u32 \<equiv> field read_u32"
abbreviation rd_u64 :: "Cursor \<Rightarrow> (u64 \<times> Cursor) option" where "rd_u64 \<equiv> field read_u64"
abbreviation rd_sized :: "u8 \<Rightarrow> Cursor \<Rightarrow> (u64 \<times> Cursor) option" where "rd_sized n \<equiv> field (read_sized n)"
abbreviation rd_time :: "FrameInterpreter \<Rightarrow> Cursor \<Rightarrow> (u64 \<times> Cursor) option" where
  "rd_time fi \<equiv> rd_sized (ts_time_size (fi_sizes fi))"
abbreviation rd_obj :: "FrameInterpreter \<Rightarrow> Cursor \<Rightarrow> (u64 \<times> Cursor) option" where
  "rd_obj fi \<equiv> rd_sized (ts_obj_ptr_size (fi_sizes fi))"
abbreviation rd_fun :: "FrameInterpreter \<Rightarrow> Cursor \<Rightarrow> (u64 \<times> Cursor) option" where
  "rd_fun fi \<equiv> rd_sized (ts_fun_ptr_size (fi_sizes fi))"
abbreviation rd_sig :: "FrameInterpreter \<Rightarrow> Cursor \<Rightarrow> (u64 \<times> Cursor) option" where
  "rd_sig fi \<equiv> rd_sized (ts_signal_size (fi_sizes fi))"
abbreviation rd_eq :: "FrameInterpreter \<Rightarrow> Cursor \<Rightarrow> (u64 \<times> Cursor) option" where
  "rd_eq fi \<equiv> rd_sized (ts_equeue_ctr (fi_sizes fi))"
abbreviation rd_mp :: "FrameInterpreter \<Rightarrow> Cursor \<Rightarrow> (u64 \<times> Cursor) option" where
  "rd_mp fi \<equiv> rd_sized (ts_mpool_ctr (fi_sizes fi))"
abbreviation rd_te :: "FrameInterpreter \<Rightarrow> Cursor \<Rightarrow> (u64 \<times> Cursor) option" where
  "rd_te fi \<equiv> rd_sized (ts_timeevt_ctr (fi_sizes fi))"

text \<open>A string field is the text its bytes stand for, malformed sequences replaced.\<close>

definition rd_text :: "Cursor \<Rightarrow> (string \<times> Cursor) option" where
  "rd_text c = map_option (apfst (\<lambda>bs. chars (from_utf8_lossy bs))) (field read_c_string c)"

definition lines_of :: "string list option \<Rightarrow> string list" where
  "lines_of r = (case r of None \<Rightarrow> [] | Some ls \<Rightarrow> ls)"

section \<open>Formatting\<close>

definition fmt_addr :: "u64 \<Rightarrow> u8 \<Rightarrow> string" where
  "fmt_addr addr sz = ''0x'' @ hex_w (if sz = 1 then 2 else if sz = 2 then 4 else if sz = 4 then 8 else 16) (unat addr)"

definition hex_bytes :: "u8 list \<Rightarrow> string" where
  "hex_bytes bs = concat (map (\<lambda>b. hex_w 2 (unat b)) bs)"

abbreviation decw :: "'a::len word \<Rightarrow> string" where "decw v \<equiv> dec (unat v)"
abbreviation blank :: string where "blank \<equiv> ''           ''"

definition stamp :: "u64 \<Rightarrow> string" where
  "stamp ts = dec_w 10 (unat ts) @ '' ''"

definition obj_str :: "FrameInterpreter \<Rightarrow> u64 \<Rightarrow> string" where
  "obj_str fi addr =
     (case di_objects (fi_dict fi) addr of Some name \<Rightarrow> name | None \<Rightarrow> fmt_addr addr (ts_obj_ptr_size (fi_sizes fi)))"

definition fun_str :: "FrameInterpreter \<Rightarrow> u64 \<Rightarrow> string" where
  "fun_str fi addr =
     (case di_functions (fi_dict fi) addr of Some name \<Rightarrow> name | None \<Rightarrow> fmt_addr addr (ts_fun_ptr_size (fi_sizes fi)))"

definition sig_str :: "FrameInterpreter \<Rightarrow> u64 \<Rightarrow> u64 \<Rightarrow> string" where
  "sig_str fi sig obj =
     (case di_signals (fi_dict fi) (ucast sig, obj) of
        Some name \<Rightarrow> name
      | None \<Rightarrow> (case di_signals (fi_dict fi) (ucast sig, 0) of
           Some name \<Rightarrow> name
         | None \<Rightarrow> fmt_addr sig (ts_signal_size (fi_sizes fi))))"

section \<open>Dictionaries and target information\<close>

definition handle_sig_dict :: "u8 list \<Rightarrow> FrameInterpreter \<Rightarrow> FrameInterpreter \<times> string list" where
  "handle_sig_dict p fi =
     (case do {
        (sig, c) \<leftarrow> rd_sig fi (Cursor_new p);
        (object, c) \<leftarrow> rd_obj fi c;
        (name, c) \<leftarrow> rd_text c;
        Some (sig, object, name) } of
        None \<Rightarrow> (fi, [])
      | Some (sig, object, name) \<Rightarrow>
          (fi\<lparr>fi_dict := (fi_dict fi)\<lparr>di_signals := (di_signals (fi_dict fi))((ucast sig, object) \<mapsto> name)\<rparr>\<rparr>,
           [blank @ ''Sig-Dict '' @ hex_alt 10 (unat sig) @ '',Obj='' @
            fmt_addr object (ts_obj_ptr_size (fi_sizes fi)) @ ''->'' @ name]))"

definition handle_obj_dict :: "u8 list \<Rightarrow> FrameInterpreter \<Rightarrow> FrameInterpreter \<times> string list" where
  "handle_obj_dict p fi =
     (case do {
        (addr, c) \<leftarrow> rd_obj fi (Cursor_new p);
        (name, c) \<leftarrow> rd_text c;
        Some (addr, name) } of
        None \<Rightarrow> (fi, [])
      | Some (addr, name) \<Rightarrow>
          (fi\<lparr>fi_dict := (fi_dict fi)\<lparr>di_objects := (di_objects (fi_dict fi))(addr \<mapsto> name)\<rparr>\<rparr>,
           [blank @ ''Obj-Dict '' @ fmt_addr addr (ts_obj_ptr_size (fi_sizes fi)) @ ''->'' @ name]))"

definition handle_fun_dict :: "u8 list \<Rightarrow> FrameInterpreter \<Rightarrow> FrameInterpreter \<times> string list" where
  "handle_fun_dict p fi =
     (case do {
        (addr, c) \<leftarrow> rd_fun fi (Cursor_new p);
        (name, c) \<leftarrow> rd_text c;
        Some (addr, name) } of
        None \<Rightarrow> (fi, [])
      | Some (addr, name) \<Rightarrow>
          (fi\<lparr>fi_dict := (fi_dict fi)\<lparr>di_functions := (di_functions (fi_dict fi))(addr \<mapsto> name)\<rparr>\<rparr>,
           [blank @ ''Fun-Dict '' @ fmt_addr addr (ts_fun_ptr_size (fi_sizes fi)) @ ''->'' @ name]))"

definition handle_usr_dict :: "u8 list \<Rightarrow> FrameInterpreter \<Rightarrow> FrameInterpreter \<times> string list" where
  "handle_usr_dict p fi =
     (case do {
        (i, c) \<leftarrow> rd_u8 (Cursor_new p);
        (name, c) \<leftarrow> rd_text c;
        Some (i, name) } of
        None \<Rightarrow> (fi, [])
      | Some (i, name) \<Rightarrow>
          (fi\<lparr>fi_dict := (fi_dict fi)\<lparr>di_users := (di_users (fi_dict fi))(i \<mapsto> name)\<rparr>\<rparr>,
           [blank @ ''Usr-Dict '' @ dec_w 3 (unat i) @ ''->'' @ name]))"

definition handle_enum_dict :: "u8 list \<Rightarrow> FrameInterpreter \<Rightarrow> FrameInterpreter \<times> string list" where
  "handle_enum_dict p fi =
     (case do {
        (val, c) \<leftarrow> rd_u8 (Cursor_new p);
        (grp, c) \<leftarrow> rd_u8 c;
        (name, c) \<leftarrow> rd_text c;
        Some (val, grp, name) } of
        None \<Rightarrow> (fi, [])
      | Some (val, grp, name) \<Rightarrow>
          (fi\<lparr>fi_dict := (fi_dict fi)\<lparr>di_enums := (di_enums (fi_dict fi))((grp, val) \<mapsto> name)\<rparr>\<rparr>,
           [blank @ ''Enum-Dict grp='' @ decw grp @ '' '' @ decw val @ ''->'' @ name]))"

definition handle_target_info :: "u8 list \<Rightarrow> FrameInterpreter \<Rightarrow> FrameInterpreter \<times> string list" where
  "handle_target_info p fi =
     (case do {
        (reset, c) \<leftarrow> rd_u8 (Cursor_new p);
        (version, c) \<leftarrow> rd_u16 c;
        (sig_evt, c) \<leftarrow> rd_u8 c;
        (eq_te, c) \<leftarrow> rd_u8 c;
        (mp_sizes, c) \<leftarrow> rd_u8 c;
        (ptr_sizes, c) \<leftarrow> rd_u8 c;
        (time_size, c) \<leftarrow> rd_u8 c;
        (max_active, c) \<leftarrow> rd_u8 c;
        (max_pool_tick, c) \<leftarrow> rd_u8 c;
        (second, c) \<leftarrow> rd_u8 c;
        (minute, c) \<leftarrow> rd_u8 c;
        (hour, c) \<leftarrow> rd_u8 c;
        (day, c) \<leftarrow> rd_u8 c;
        (month, c) \<leftarrow> rd_u8 c;
        (year, c) \<leftarrow> rd_u8 c;
        Some
          [''########## Trg-'' @ (if reset = 0xFF then ''RST'' else ''INF'') @ ''  QP-Ver='' @ decw version @ '',Build='' @
           dec_w 2 (unat day) @ dec_w 2 (unat month) @ dec_w 2 (unat year) @ ''_'' @
           dec_w 2 (unat hour) @ dec_w 2 (unat minute) @ dec_w 2 (unat second),
           blank @ ''Cfg Sig/Evt='' @ hex_alt 4 (unat sig_evt) @ '' Eq/Te='' @ hex_alt 4 (unat eq_te) @
           '' Mp='' @ hex_alt 4 (unat mp_sizes) @ '' Ptr='' @ hex_alt 4 (unat ptr_sizes) @
           '' Time='' @ hex_alt 4 (unat time_size) @ '' Active='' @ decw max_active @
           '' Pools/Ticks='' @ hex_alt 4 (unat max_pool_tick)] } of
        None \<Rightarrow> (fi, [])
      | Some ls \<Rightarrow> (fi\<lparr>fi_sizes := update_from_target_info p (fi_sizes fi)\<rparr>, ls))"

definition handle_rx_status :: "u8 list \<Rightarrow> string list" where
  "handle_rx_status p =
     (case p of
        [] \<Rightarrow> []
      | b # _ \<Rightarrow> if and b 0x80 \<noteq> 0 then [blank @ ''QS-RX Err='' @ hex_alt 4 (unat (and b 0x7F))]
                else [blank @ ''QS-RX Ack rec='' @ decw b])"

section \<open>State machine records\<close>

definition handle_state_entry :: "u8 list \<Rightarrow> FrameInterpreter \<Rightarrow> string list" where
  "handle_state_entry p fi = lines_of (do {
     (obj, c) \<leftarrow> rd_obj fi (Cursor_new p);
     (st, c) \<leftarrow> rd_fun fi c;
     Some [''===RTC===> St-Entry Obj='' @ obj_str fi obj @ '',State='' @ fun_str fi st] })"

definition handle_state_exit :: "u8 list \<Rightarrow> FrameInterpreter \<Rightarrow> string list" where
  "handle_state_exit p fi = lines_of (do {
     (obj, c) \<leftarrow> rd_obj fi (Cursor_new p);
     (st, c) \<leftarrow> rd_fun fi c;
     Some [''===RTC===> St-Exit  Obj='' @ obj_str fi obj @ '',State='' @ fun_str fi st] })"

definition handle_state_init :: "u8 list \<Rightarrow> FrameInterpreter \<Rightarrow> string list" where
  "handle_state_init p fi = lines_of (do {
     (obj, c) \<leftarrow> rd_obj fi (Cursor_new p);
     (src, c) \<leftarrow> rd_fun fi c;
     (tgt, c) \<leftarrow> rd_fun fi c;
     Some [''===RTC===> St-Init  Obj='' @ obj_str fi obj @ '',State='' @ fun_str fi src @ ''->'' @ fun_str fi tgt] })"

definition handle_init_tran :: "u8 list \<Rightarrow> FrameInterpreter \<Rightarrow> string list" where
  "handle_init_tran p fi = lines_of (do {
     (ts, c) \<leftarrow> rd_time fi (Cursor_new p);
     (obj, c) \<leftarrow> rd_obj fi c;
     (tgt, c) \<leftarrow> rd_fun fi c;
     Some [stamp ts @ ''Init===> Obj='' @ obj_str fi obj @ '',State='' @ fun_str fi tgt] })"

definition handle_intern_tran :: "u8 list \<Rightarrow> FrameInterpreter \<Rightarrow> string list" where
  "handle_intern_tran p fi = lines_of (do {
     (ts, c) \<leftarrow> rd_time fi (Cursor_new p);
     (sig, c) \<leftarrow> rd_sig fi c;
     (obj, c) \<leftarrow> rd_obj fi c;
     (st, c) \<leftarrow> rd_fun fi c;
     Some [stamp ts @ ''=>Intern Obj='' @ obj_str fi obj @ '',Sig='' @ sig_str fi sig obj @ '',State='' @ fun_str fi st] })"

definition handle_tran :: "u8 list \<Rightarrow> FrameInterpreter \<Rightarrow> string list" where
  "handle_tran p fi = lines_of (do {
     (ts, c) \<leftarrow> rd_time fi (Cursor_new p);
     (sig, c) \<leftarrow> rd_sig fi c;
     (obj, c) \<leftarrow> rd_obj fi c;
     (src, c) \<leftarrow> rd_fun fi c;
     (tgt, c) \<leftarrow> rd_fun fi c;
     Some [stamp ts @ ''===>Tran Obj='' @ obj_str fi obj @ '',Sig='' @ sig_str fi sig obj @ '',State='' @
           fun_str fi src @ ''->'' @ fun_str fi tgt] })"

definition handle_ignored :: "u8 list \<Rightarrow> FrameInterpreter \<Rightarrow> string list" where
  "handle_ignored p fi = lines_of (do {
     (ts, c) \<leftarrow> rd_time fi (Cursor_new p);
     (sig, c) \<leftarrow> rd_sig fi c;
     (obj, c) \<leftarrow> rd_obj fi c;
     (st, c) \<leftarrow> rd_fun fi c;
     Some [stamp ts @ ''=>Ignore Obj='' @ obj_str fi obj @ '',Sig='' @ sig_str fi sig obj @ '',State='' @ fun_str fi st] })"

definition handle_dispatch :: "u8 list \<Rightarrow> FrameInterpreter \<Rightarrow> string list" where
  "handle_dispatch p fi = lines_of (do {
     (ts, c) \<leftarrow> rd_time fi (Cursor_new p);
     (sig, c) \<leftarrow> rd_sig fi c;
     (obj, c) \<leftarrow> rd_obj fi c;
     (st, c) \<leftarrow> rd_fun fi c;
     Some [stamp ts @ ''Disp===> Obj='' @ obj_str fi obj @ '',Sig='' @ sig_str fi sig obj @ '',State='' @ fun_str fi st] })"

definition handle_unhandled :: "u8 list \<Rightarrow> FrameInterpreter \<Rightarrow> string list" where
  "handle_unhandled p fi = lines_of (do {
     (sig, c) \<leftarrow> rd_sig fi (Cursor_new p);
     (obj, c) \<leftarrow> rd_obj fi c;
     (st, c) \<leftarrow> rd_fun fi c;
     Some [''===RTC===> =>UnHndl Obj='' @ obj_str fi obj @ '',Sig='' @ sig_str fi sig obj @ '',State='' @ fun_str fi st] })"

definition handle_tran_hist :: "u8 list \<Rightarrow> FrameInterpreter \<Rightarrow> string list" where
  "handle_tran_hist p fi = lines_of (do {
     (obj, c) \<leftarrow> rd_obj fi (Cursor_new p);
     (src, c) \<leftarrow> rd_fun fi c;
     (tgt, c) \<leftarrow> rd_fun fi c;
     Some [''===RTC===> St-Hist  Obj='' @ obj_str fi obj @ '',State='' @ fun_str fi src @ ''->'' @ fun_str fi tgt] })"

section \<open>Active objects\<close>

definition evt_str :: "FrameInterpreter \<Rightarrow> u64 \<Rightarrow> u64 \<Rightarrow> u8 \<Rightarrow> u8 \<Rightarrow> string" where
  "evt_str fi sig obj pool rref = ''Evt<Sig='' @ sig_str fi sig obj @ '',Pool='' @ decw pool @ '',Ref='' @ decw rref @ ''>''"

definition handle_ao_defer_recall :: "u8 list \<Rightarrow> string \<Rightarrow> FrameInterpreter \<Rightarrow> string list" where
  "handle_ao_defer_recall p label fi = lines_of (do {
     (ts, c) \<leftarrow> rd_time fi (Cursor_new p);
     (ao, c) \<leftarrow> rd_obj fi c;
     (eq, c) \<leftarrow> rd_obj fi c;
     (sig, c) \<leftarrow> rd_sig fi c;
     (pool, c) \<leftarrow> rd_u8 c;
     (rref, c) \<leftarrow> rd_u8 c;
     Some [stamp ts @ label @ '' Obj='' @ obj_str fi ao @ '',Que='' @ obj_str fi eq @ '','' @ evt_str fi sig ao pool rref] })"

definition handle_ao_subscribe :: "u8 list \<Rightarrow> FrameInterpreter \<Rightarrow> string list" where
  "handle_ao_subscribe p fi = lines_of (do {
     (ts, c) \<leftarrow> rd_time fi (Cursor_new p);
     (sig, c) \<leftarrow> rd_sig fi c;
     (ao, c) \<leftarrow> rd_obj fi c;
     Some [stamp ts @ ''AO-Subsc Obj='' @ obj_str fi ao @ '',Sig='' @ sig_str fi sig ao] })"

definition handle_ao_unsubscribe :: "u8 list \<Rightarrow> FrameInterpreter \<Rightarrow> string list" where
  "handle_ao_unsubscribe p fi = lines_of (do {
     (ts, c) \<leftarrow> rd_time fi (Cursor_new p);
     (sig, c) \<leftarrow> rd_sig fi c;
     (ao, c) \<leftarrow> rd_obj fi c;
     Some [stamp ts @ ''AO-Unsub Obj='' @ obj_str fi ao @ '',Sig='' @ sig_str fi sig ao] })"

definition handle_ao_post :: "u8 list \<Rightarrow> string \<Rightarrow> FrameInterpreter \<Rightarrow> string list" where
  "handle_ao_post p label fi = lines_of (do {
     (ts, c) \<leftarrow> rd_time fi (Cursor_new p);
     (sig, c) \<leftarrow> rd_sig fi c;
     (sdr, c) \<leftarrow> rd_obj fi c;
     (ao, c) \<leftarrow> rd_obj fi c;
     (pool, c) \<leftarrow> rd_u8 c;
     (rref, c) \<leftarrow> rd_u8 c;
     (free, c) \<leftarrow> rd_eq fi c;
     (min, c) \<leftarrow> rd_eq fi c;
     Some [stamp ts @ label @ '' Sdr='' @ obj_str fi sdr @ '',Obj='' @ obj_str fi ao @ '','' @ evt_str fi sig ao pool rref @
           '',Que<Free='' @ decw free @ '',Min='' @ decw min @ ''>''] })"

definition handle_ao_get :: "u8 list \<Rightarrow> FrameInterpreter \<Rightarrow> string list" where
  "handle_ao_get p fi = lines_of (do {
     (ts, c) \<leftarrow> rd_time fi (Cursor_new p);
     (sig, c) \<leftarrow> rd_sig fi c;
     (ao, c) \<leftarrow> rd_obj fi c;
     (pool, c) \<leftarrow> rd_u8 c;
     (rref, c) \<leftarrow> rd_u8 c;
     (free, c) \<leftarrow> rd_eq fi c;
     Some [stamp ts @ ''AO-Get   Obj='' @ obj_str fi ao @ '','' @ evt_str fi sig ao pool rref @ '',Que<Free='' @ decw free @ ''>''] })"

definition handle_ao_get_last :: "u8 list \<Rightarrow> FrameInterpreter \<Rightarrow> string list" where
  "handle_ao_get_last p fi = lines_of (do {
     (ts, c) \<leftarrow> rd_time fi (Cursor_new p);
     (sig, c) \<leftarrow> rd_sig fi c;
     (ao, c) \<leftarrow> rd_obj fi c;
     (pool, c) \<leftarrow> rd_u8 c;
     (rref, c) \<leftarrow> rd_u8 c;
     Some [stamp ts @ ''AO-GetL  Obj='' @ obj_str fi ao @ '','' @ evt_str fi sig ao pool rref] })"

section \<open>Event queues and memory pools\<close>

definition unused_line :: "Cursor \<Rightarrow> u8 \<Rightarrow> string list" where
  "unused_line c rec =
     (if Cursor_is_empty c then []
      else [blank @ ''!! '' @ dec (Cursor_remaining c) @ '' bytes unused in rec='' @ hex_alt 4 (unat rec)])"

definition handle_equeue_init :: "u8 list \<Rightarrow> FrameInterpreter \<Rightarrow> string list" where
  "handle_equeue_init p fi = lines_of (do {
     (ts, c) \<leftarrow> rd_time fi (Cursor_new p);
     (eq, c) \<leftarrow> rd_obj fi c;
     (len, c) \<leftarrow> rd_eq fi c;
     Some ([stamp ts @ ''EQ-Init  Obj='' @ obj_str fi eq @ '',Len='' @ decw len] @ unused_line c 19) })"

definition handle_mpool_init :: "u8 list \<Rightarrow> FrameInterpreter \<Rightarrow> string list" where
  "handle_mpool_init p fi = lines_of (do {
     (ts, c) \<leftarrow> rd_time fi (Cursor_new p);
     (mp, c) \<leftarrow> rd_obj fi c;
     (n_free, c) \<leftarrow> rd_mp fi c;
     (n_min, c) \<leftarrow> rd_mp fi c;
     Some ([stamp ts @ ''MP-Init  Obj='' @ obj_str fi mp @ '',NFree='' @ decw n_free @ '',NMin='' @ decw n_min] @ unused_line c 23) })"

definition handle_equeue_post :: "u8 list \<Rightarrow> string \<Rightarrow> FrameInterpreter \<Rightarrow> string list" where
  "handle_equeue_post p label fi = lines_of (do {
     (ts, c) \<leftarrow> rd_time fi (Cursor_new p);
     (sig, c) \<leftarrow> rd_sig fi c;
     (eq, c) \<leftarrow> rd_obj fi c;
     (pool, c) \<leftarrow> rd_u8 c;
     (rref, c) \<leftarrow> rd_u8 c;
     (free, c) \<leftarrow> rd_eq fi c;
     (min, c) \<leftarrow> rd_eq fi c;
     Some [stamp ts @ label @ '' Obj='' @ obj_str fi eq @ '','' @ evt_str fi sig eq pool rref @
           '',Que<Free='' @ decw free @ '',Min='' @ decw min @ ''>''] })"

definition handle_equeue_get :: "u8 list \<Rightarrow> string \<Rightarrow> FrameInterpreter \<Rightarrow> string list" where
  "handle_equeue_get p label fi = lines_of (do {
     (ts, c) \<leftarrow> rd_time fi (Cursor_new p);
     (sig, c) \<leftarrow> rd_sig fi c;
     (eq, c) \<leftarrow> rd_obj fi c;
     (pool, c) \<leftarrow> rd_u8 c;
     (rref, c) \<leftarrow> rd_u8 c;
     (free, c) \<leftarrow> rd_eq fi c;
     Some [stamp ts @ label @ '' Obj='' @ obj_str fi eq @ '','' @ evt_str fi sig eq pool rref @ '',Que<Free='' @ decw free @ ''>''] })"

definition handle_mpool_get_labeled :: "u8 list \<Rightarrow> string \<Rightarrow> FrameInterpreter \<Rightarrow> string list" where
  "handle_mpool_get_labeled p label fi = lines_of (do {
     (ts, c) \<leftarrow> rd_time fi (Cursor_new p);
     (mp, c) \<leftarrow> rd_obj fi c;
     (free, c) \<leftarrow> rd_mp fi c;
     (min, c) \<leftarrow> rd_mp fi c;
     Some [stamp ts @ label @ '' Obj='' @ obj_str fi mp @ '',Free='' @ decw free @ '',Min='' @ decw min] })"

definition handle_mpool_get :: "u8 list \<Rightarrow> FrameInterpreter \<Rightarrow> string list" where
  "handle_mpool_get p fi = handle_mpool_get_labeled p ''MP-Get  '' fi"

definition handle_mpool_put :: "u8 list \<Rightarrow> FrameInterpreter \<Rightarrow> string list" where
  "handle_mpool_put p fi = lines_of (do {
     (ts, c) \<leftarrow> rd_time fi (Cursor_new p);
     (mp, c) \<leftarrow> rd_obj fi c;
     (free, c) \<leftarrow> rd_mp fi c;
     Some [stamp ts @ ''MP-Put   Obj='' @ obj_str fi mp @ '',Free='' @ decw free] })"

section \<open>Events, critical sections and interrupts\<close>

definition handle_qf_publish :: "u8 list \<Rightarrow> FrameInterpreter \<Rightarrow> string list" where
  "handle_qf_publish p fi = lines_of (do {
     (ts, c) \<leftarrow> rd_time fi (Cursor_new p);
     (sdr, c) \<leftarrow> rd_obj fi c;
     (sig, c) \<leftarrow> rd_sig fi c;
     (pool, c) \<leftarrow> rd_u8 c;
     (rref, c) \<leftarrow> rd_u8 c;
     Some [stamp ts @ ''QF-Pub   Sdr='' @ obj_str fi sdr @ '','' @ evt_str fi sig 0 pool rref] })"

definition handle_qf_new :: "u8 list \<Rightarrow> FrameInterpreter \<Rightarrow> string list" where
  "handle_qf_new p fi = lines_of (do {
     (ts, c) \<leftarrow> rd_time fi (Cursor_new p);
     (sz, c) \<leftarrow> rd_sized (ts_event_size (fi_sizes fi)) c;
     (sig, c) \<leftarrow> rd_sig fi c;
     Some [stamp ts @ ''QF-New   Sig='' @ sig_str fi sig 0 @ '',Size='' @ decw sz] })"

definition handle_qf_gc :: "u8 list \<Rightarrow> string \<Rightarrow> FrameInterpreter \<Rightarrow> string list" where
  "handle_qf_gc p label fi = lines_of (do {
     (ts, c) \<leftarrow> rd_time fi (Cursor_new p);
     (sig, c) \<leftarrow> rd_sig fi c;
     (pool, c) \<leftarrow> rd_u8 c;
     (rref, c) \<leftarrow> rd_u8 c;
     Some [stamp ts @ label @ '' '' @ evt_str fi sig 0 pool rref] })"

definition handle_qf_tick :: "u8 list \<Rightarrow> FrameInterpreter \<Rightarrow> string list" where
  "handle_qf_tick p fi = lines_of (do {
     (ts, c) \<leftarrow> rd_time fi (Cursor_new p);
     (rate, c) \<leftarrow> rd_u8 c;
     Some [stamp ts @ ''QF-Tick  Rate='' @ decw rate] })"

definition handle_qf_evt_ref :: "u8 list \<Rightarrow> string \<Rightarrow> FrameInterpreter \<Rightarrow> string list" where
  "handle_qf_evt_ref p label fi = lines_of (do {
     (ts, c) \<leftarrow> rd_time fi (Cursor_new p);
     (sig, c) \<leftarrow> rd_sig fi c;
     (pool, c) \<leftarrow> rd_u8 c;
     (rref, c) \<leftarrow> rd_u8 c;
     Some [stamp ts @ label @ '' '' @ evt_str fi sig 0 pool rref] })"

definition handle_crit :: "u8 list \<Rightarrow> string \<Rightarrow> FrameInterpreter \<Rightarrow> string list" where
  "handle_crit p label fi = lines_of (do {
     (ts, c) \<leftarrow> rd_time fi (Cursor_new p);
     (nesting, c) \<leftarrow> rd_u8 c;
     Some [stamp ts @ label @ '' Nesting='' @ decw nesting] })"

definition handle_isr :: "u8 list \<Rightarrow> string \<Rightarrow> FrameInterpreter \<Rightarrow> string list" where
  "handle_isr p label fi = lines_of (do {
     (ts, c) \<leftarrow> rd_time fi (Cursor_new p);
     (nesting, c) \<leftarrow> rd_u8 c;
     (prio, c) \<leftarrow> rd_u8 c;
     Some [stamp ts @ label @ '' Nesting='' @ decw nesting @ '',Pri='' @ decw prio] })"

section \<open>Semaphores, mutexes, time events\<close>

definition handle_sem :: "u8 list \<Rightarrow> string \<Rightarrow> FrameInterpreter \<Rightarrow> string list" where
  "handle_sem p label fi = lines_of (do {
     (ts, c) \<leftarrow> rd_time fi (Cursor_new p);
     (sem, c) \<leftarrow> rd_u64 c;
     (prio, c) \<leftarrow> rd_u8 c;
     (cnt, c) \<leftarrow> rd_u16 c;
     Some [stamp ts @ label @ '' Obj='' @ obj_str fi sem @ '',Pri='' @ decw prio @ '',Cnt='' @ decw cnt] })"

definition handle_mtx :: "u8 list \<Rightarrow> string \<Rightarrow> FrameInterpreter \<Rightarrow> string list" where
  "handle_mtx p label fi = lines_of (do {
     (ts, c) \<leftarrow> rd_time fi (Cursor_new p);
     (mtx, c) \<leftarrow> rd_u64 c;
     (prio, c) \<leftarrow> rd_u8 c;
     Some [stamp ts @ label @ '' Obj='' @ obj_str fi mtx @ '',Pri='' @ decw prio] })"

definition handle_time_evt_arm :: "u8 list \<Rightarrow> FrameInterpreter \<Rightarrow> string list" where
  "handle_time_evt_arm p fi = lines_of (do {
     (ts, c) \<leftarrow> rd_time fi (Cursor_new p);
     (timer, c) \<leftarrow> rd_obj fi c;
     (target, c) \<leftarrow> rd_obj fi c;
     (timeout, c) \<leftarrow> rd_te fi c;
     (interval, c) \<leftarrow> rd_te fi c;
     (rate, c) \<leftarrow> rd_u8 c;
     Some [stamp ts @ ''TE'' @ decw rate @ ''-Arm  Obj='' @ obj_str fi timer @ '',AO='' @ obj_str fi target @
           '',Tim='' @ decw timeout @ '',Int='' @ decw interval] })"

definition handle_time_evt_auto_disarm :: "u8 list \<Rightarrow> FrameInterpreter \<Rightarrow> string list" where
  "handle_time_evt_auto_disarm p fi = lines_of (do {
     (timer, c) \<leftarrow> rd_obj fi (Cursor_new p);
     (target, c) \<leftarrow> rd_obj fi c;
     (rate, c) \<leftarrow> rd_u8 c;
     Some [blank @ ''TE'' @ decw rate @ ''-ADis Obj='' @ obj_str fi timer @ '',AO='' @ obj_str fi target] })"

definition handle_time_evt_disarm_attempt :: "u8 list \<Rightarrow> FrameInterpreter \<Rightarrow> string list" where
  "handle_time_evt_disarm_attempt p fi = lines_of (do {
     (ts, c) \<leftarrow> rd_time fi (Cursor_new p);
     (timer, c) \<leftarrow> rd_obj fi c;
     (target, c) \<leftarrow> rd_obj fi c;
     (rate, c) \<leftarrow> rd_u8 c;
     Some [stamp ts @ ''TE'' @ decw rate @ ''-DisA Obj='' @ obj_str fi timer @ '',AO='' @ obj_str fi target] })"

definition handle_time_evt_disarm :: "u8 list \<Rightarrow> FrameInterpreter \<Rightarrow> string list" where
  "handle_time_evt_disarm p fi = lines_of (do {
     (ts, c) \<leftarrow> rd_time fi (Cursor_new p);
     (timer, c) \<leftarrow> rd_obj fi c;
     (target, c) \<leftarrow> rd_obj fi c;
     (remaining, c) \<leftarrow> rd_te fi c;
     (interval, c) \<leftarrow> rd_te fi c;
     (rate, c) \<leftarrow> rd_u8 c;
     Some [stamp ts @ ''TE'' @ decw rate @ ''-Dis  Obj='' @ obj_str fi timer @ '',AO='' @ obj_str fi target @
           '',Tim='' @ decw remaining @ '',Int='' @ decw interval] })"

definition handle_time_evt_rearm :: "u8 list \<Rightarrow> FrameInterpreter \<Rightarrow> string list" where
  "handle_time_evt_rearm p fi = lines_of (do {
     (ts, c) \<leftarrow> rd_time fi (Cursor_new p);
     (timer, c) \<leftarrow> rd_obj fi c;
     (target, c) \<leftarrow> rd_obj fi c;
     (remaining, c) \<leftarrow> rd_te fi c;
     (interval, c) \<leftarrow> rd_te fi c;
     (rate, c) \<leftarrow> rd_u8 c;
     Some [stamp ts @ ''TE'' @ decw rate @ ''-Rarm Obj='' @ obj_str fi timer @ '',AO='' @ obj_str fi target @
           '',Tim='' @ decw remaining @ '',Int='' @ decw interval] })"

definition handle_time_evt_post :: "u8 list \<Rightarrow> FrameInterpreter \<Rightarrow> string list" where
  "handle_time_evt_post p fi = lines_of (do {
     (ts, c) \<leftarrow> rd_time fi (Cursor_new p);
     (timer, c) \<leftarrow> rd_obj fi c;
     (sig, c) \<leftarrow> rd_sig fi c;
     (target, c) \<leftarrow> rd_obj fi c;
     (rate, c) \<leftarrow> rd_u8 c;
     Some [stamp ts @ ''TE'' @ decw rate @ ''-Post Obj='' @ obj_str fi timer @ '',Sig='' @ sig_str fi sig target @
           '',AO='' @ obj_str fi target] })"

section \<open>Scheduler\<close>

definition handle_sched_lock :: "u8 list \<Rightarrow> FrameInterpreter \<Rightarrow> string list" where
  "handle_sched_lock p fi = lines_of (do {
     (ts, c) \<leftarrow> rd_time fi (Cursor_new p);
     (prev, c) \<leftarrow> rd_u8 c;
     (new, c) \<leftarrow> rd_u8 c;
     Some [stamp ts @ ''Sch-Lock Ceil='' @ decw prev @ ''->'' @ decw new] })"

definition handle_sched_unlock :: "u8 list \<Rightarrow> FrameInterpreter \<Rightarrow> string list" where
  "handle_sched_unlock p fi = lines_of (do {
     (ts, c) \<leftarrow> rd_time fi (Cursor_new p);
     (prev, c) \<leftarrow> rd_u8 c;
     (new, c) \<leftarrow> rd_u8 c;
     Some [stamp ts @ ''Sch-Unlk Ceil='' @ decw new @ ''->'' @ decw prev] })"

definition handle_sched_next :: "u8 list \<Rightarrow> FrameInterpreter \<Rightarrow> string list" where
  "handle_sched_next p fi = lines_of (do {
     (ts, c) \<leftarrow> rd_time fi (Cursor_new p);
     (cur_prio, c) \<leftarrow> rd_u8 c;
     (prev_prio, c) \<leftarrow> rd_u8 c;
     Some [stamp ts @ ''Sch-Next Pri='' @ decw prev_prio @ ''->'' @ decw cur_prio] })"

definition handle_sched_idle :: "u8 list \<Rightarrow> FrameInterpreter \<Rightarrow> string list" where
  "handle_sched_idle p fi = lines_of (do {
     (ts, c) \<leftarrow> rd_time fi (Cursor_new p);
     (prev, c) \<leftarrow> rd_u8 c;
     Some [stamp ts @ ''Sch-Idle Pri='' @ decw prev @ ''->0''] })"

section \<open>Tests and infrastructure\<close>

definition handle_test_probe :: "u8 list \<Rightarrow> FrameInterpreter \<Rightarrow> string list" where
  "handle_test_probe p fi = lines_of (do {
     (ts, c) \<leftarrow> rd_time fi (Cursor_new p);
     (api, c) \<leftarrow> rd_fun fi c;
     (dat, c) \<leftarrow> rd_u32 c;
     Some [stamp ts @ ''TstProbe Fun='' @ fun_str fi api @ '',Data='' @ hex_alt 10 (unat dat)] })"

definition kind_str :: "u8 \<Rightarrow> string" where
  "kind_str kind =
     (if kind = 0 then ''SM'' else if kind = 1 then ''AO'' else if kind = 2 then ''MP''
      else if kind = 3 then ''EQ'' else if kind = 4 then ''TE'' else if kind = 5 then ''AP'' else ''??'')"

definition handle_query_data :: "u8 list \<Rightarrow> FrameInterpreter \<Rightarrow> string list" where
  "handle_query_data p fi = lines_of (do {
     (ts, c) \<leftarrow> rd_time fi (Cursor_new p);
     (kind, c) \<leftarrow> rd_u8 c;
     (obj, c) \<leftarrow> rd_obj fi c;
     Some [stamp ts @ ''Query-'' @ kind_str kind @ '' Obj='' @ obj_str fi obj] })"

definition handle_peek_data :: "u8 list \<Rightarrow> string list" where
  "handle_peek_data p = lines_of (do {
     (offset, c) \<leftarrow> rd_u16 (Cursor_new p);
     (sz, c) \<leftarrow> rd_u8 c;
     let dat = (case fst (read_bytes (unat sz) c) of Some d \<Rightarrow> d | None \<Rightarrow> []);
     Some [blank @ ''Trg-Peek Offset='' @ decw offset @ '',Size='' @ decw sz @ '',Data='' @ hex_bytes dat] })"

definition handle_assert_fail :: "u8 list \<Rightarrow> FrameInterpreter \<Rightarrow> string list" where
  "handle_assert_fail p fi = lines_of (do {
     (ts, c) \<leftarrow> rd_time fi (Cursor_new p);
     (i, c) \<leftarrow> rd_u16 c;
     (module, c) \<leftarrow> rd_text c;
     Some [stamp ts @ ''=ASSERT= Mod='' @ module @ '',Loc='' @ decw i] })"

section \<open>User records\<close>

text \<open>One field after its format byte, unless it is the hexadecimal prefix.\<close>

definition user_field :: "FrameInterpreter \<Rightarrow> bool \<Rightarrow> u8 \<Rightarrow> Cursor \<Rightarrow> (string \<times> Cursor) option" where
  "user_field fi hex base c =
     (if base = FMT_I8_ENUM then do { (v, c) \<leftarrow> rd_u8 c; Some (if hex then hex_alt 4 (unat v) else dec_int (sint v), c) }
      else if base = FMT_U8 then do { (v, c) \<leftarrow> rd_u8 c; Some (if hex then hex_alt 4 (unat v) else decw v, c) }
      else if base = FMT_I16 then do { (v, c) \<leftarrow> rd_u16 c; Some (if hex then hex_alt 6 (unat v) else dec_int (sint v), c) }
      else if base = FMT_U16 then do { (v, c) \<leftarrow> rd_u16 c; Some (if hex then hex_alt 6 (unat v) else decw v, c) }
      else if base = FMT_I32 then do { (v, c) \<leftarrow> rd_u32 c; Some (if hex then hex_alt 10 (unat v) else dec_int (sint v), c) }
      else if base = FMT_U32 then do { (v, c) \<leftarrow> rd_u32 c; Some (if hex then hex_alt 10 (unat v) else decw v, c) }
      else if base = FMT_F32 then do { (bs, c) \<leftarrow> field (read_bytes 4) c; Some (fmt_f32 (of_le bs), c) }
      else if base = FMT_F64 then do { (bs, c) \<leftarrow> field (read_bytes 8) c; Some (fmt_f64 (of_le bs), c) }
      else if base = FMT_STR then rd_text c
      else if base = FMT_MEM then do {
        (len, c) \<leftarrow> rd_u8 c;
        (bs, c) \<leftarrow> field (read_bytes (unat len)) c;
        Some (''mem:'' @ hex_bytes bs, c) }
      else if base = FMT_SIG then do { (v, c) \<leftarrow> rd_sig fi c; Some (sig_str fi v 0, c) }
      else if base = FMT_OBJ then do { (v, c) \<leftarrow> rd_obj fi c; Some (obj_str fi v, c) }
      else if base = FMT_FUN then do { (v, c) \<leftarrow> rd_fun fi c; Some (fun_str fi v, c) }
      else if base = FMT_I64 then do { (v, c) \<leftarrow> rd_u64 c; Some (if hex then hex_alt 18 (unat v) else dec_int (sint v), c) }
      else do { (v, c) \<leftarrow> rd_u64 c; Some (if hex then hex_alt 18 (unat v) else decw v, c) })"

text \<open>
  The four bits of a format byte name one of the sixteen formats, so the source's branch for other
  values is never taken.
\<close>

lemma field_Some: "field rd c = Some (x, c') \<longleftrightarrow> rd c = (Some x, c')"
  by (auto simp: field_def split: prod.splits option.splits)

lemma read_bytes_remaining: "read_bytes n c = (r, c') \<Longrightarrow> Cursor_remaining c' \<le> Cursor_remaining c"
  by (auto simp: read_bytes_def Cursor_remaining_def split: if_splits)

lemma read_u8_remaining: "read_u8 c = (Some b, c') \<Longrightarrow> Cursor_remaining c' < Cursor_remaining c"
  by (auto simp: read_u8_def read_bytes_def Cursor_remaining_def split: if_splits prod.splits)

lemma read_words_remaining:
  "read_u8 c = (r1, c') \<Longrightarrow> Cursor_remaining c' \<le> Cursor_remaining c"
  "read_u16 c = (r2, c') \<Longrightarrow> Cursor_remaining c' \<le> Cursor_remaining c"
  "read_u32 c = (r4, c') \<Longrightarrow> Cursor_remaining c' \<le> Cursor_remaining c"
  "read_u64 c = (r8, c') \<Longrightarrow> Cursor_remaining c' \<le> Cursor_remaining c"
  by (auto simp: read_u8_def read_u16_def read_u32_def read_u64_def dest: read_bytes_remaining split: prod.splits)

lemma read_sized_remaining: "read_sized n c = (r, c') \<Longrightarrow> Cursor_remaining c' \<le> Cursor_remaining c"
  by (auto simp: read_sized_def dest: read_words_remaining split: if_splits prod.splits)

lemma read_c_string_remaining: "read_c_string c = (r, c') \<Longrightarrow> Cursor_remaining c' \<le> Cursor_remaining c"
  by (auto simp: read_c_string_def Cursor_remaining_def Let_def split: if_splits)

lemmas remaining_le = read_bytes_remaining read_words_remaining read_sized_remaining read_c_string_remaining

lemma user_field_remaining:
  assumes "user_field fi hex base c = Some (v, c')"
  shows "Cursor_remaining c' \<le> Cursor_remaining c"
proof -
  have mem: "Cursor_remaining c2 \<le> Cursor_remaining c"
    if "read_u8 c = (Some l, c1)" "read_bytes n c1 = (Some bs, c2)" for l n bs c1 c2
    using remaining_le(1) [OF that(2)] remaining_le(2) [OF that(1)] by simp
  from assms show ?thesis
    unfolding user_field_def
    by (auto simp: field_Some rd_text_def bind_eq_Some_conv dest: remaining_le mem split: if_split_asm)
qed

function user_fields :: "FrameInterpreter \<Rightarrow> bool \<Rightarrow> Cursor \<Rightarrow> string list \<Rightarrow> string list" where
  "user_fields fi hex c vs =
     (case rd_u8 c of
        None \<Rightarrow> vs
      | Some (fmt, c) \<Rightarrow>
          let base = and fmt 0x0F
          in if base = FMT_HEX then user_fields fi True c vs
             else case user_field fi hex base c of
               None \<Rightarrow> vs
             | Some (v, c) \<Rightarrow> user_fields fi False c (vs @ [v]))"
  by pat_completeness auto
termination
  by (relation "measure (\<lambda>(fi, hex, c, vs). Cursor_remaining c)")
    (auto simp: field_Some dest: read_u8_remaining intro: le_less_trans [OF user_field_remaining read_u8_remaining])

declare user_fields.simps [simp del]

definition user_name :: "FrameInterpreter \<Rightarrow> u8 \<Rightarrow> string" where
  "user_name fi rec = (case di_users (fi_dict fi) rec of Some n \<Rightarrow> n | None \<Rightarrow> ''USR('' @ decw rec @ '')'')"

fun first_formatted :: "UserRecordFormatter list \<Rightarrow> string \<Rightarrow> string list \<Rightarrow> string option" where
  "first_formatted [] name vs = None"
| "first_formatted (f # fs) name vs = (case f name vs of Some l \<Rightarrow> Some l | None \<Rightarrow> first_formatted fs name vs)"

fun join :: "string list \<Rightarrow> string" where
  "join [] = []"
| "join [v] = v"
| "join (v # vs) = v @ '' '' @ join vs"

definition handle_user_record :: "u8 \<Rightarrow> u8 list \<Rightarrow> FrameInterpreter \<Rightarrow> string list" where
  "handle_user_record rec p fi =
     (let name = user_name fi rec
      in case rd_time fi (Cursor_new p) of
           None \<Rightarrow> [blank @ name @ '' payload='' @ hex_bytes p]
         | Some (ts, c) \<Rightarrow>
             let vs = user_fields fi False c []
             in case first_formatted (fi_user_formatters fi) name vs of
                  Some l \<Rightarrow> [stamp ts @ l]
                | None \<Rightarrow> [stamp ts @ name @ '' '' @ join vs])"

section \<open>Interpreting a frame\<close>

definition fallback_line :: "QsFrame \<Rightarrow> string" where
  "fallback_line fr = blank @ ''rec='' @ hex_alt 4 (unat (qf_record_type fr)) @ '' len='' @
     dec (length (qf_payload fr)) @ '' payload='' @ hex_bytes (qf_payload fr)"

text \<open>The records that change the interpreter, and the lines of all the others.\<close>

definition dictionary_lines :: "u8 \<Rightarrow> u8 list \<Rightarrow> FrameInterpreter \<Rightarrow> (FrameInterpreter \<times> string list) option" where
  "dictionary_lines r p fi =
     (if r = ENUM_DICT then Some (handle_enum_dict p fi)
      else if r = SIG_DICT then Some (handle_sig_dict p fi)
      else if r = OBJ_DICT then Some (handle_obj_dict p fi)
      else if r = FUN_DICT then Some (handle_fun_dict p fi)
      else if r = USR_DICT then Some (handle_usr_dict p fi)
      else if r = TARGET_INFO then Some (handle_target_info p fi)
      else None)"

definition qep_lines :: "u8 \<Rightarrow> u8 list \<Rightarrow> FrameInterpreter \<Rightarrow> string list option" where
  "qep_lines r p fi =
     (if r = qep_STATE_ENTRY then Some (handle_state_entry p fi)
      else if r = qep_STATE_EXIT then Some (handle_state_exit p fi)
      else if r = qep_STATE_INIT then Some (handle_state_init p fi)
      else if r = qep_INIT_TRAN then Some (handle_init_tran p fi)
      else if r = qep_INTERN_TRAN then Some (handle_intern_tran p fi)
      else if r = qep_TRAN then Some (handle_tran p fi)
      else if r = qep_IGNORED then Some (handle_ignored p fi)
      else if r = qep_DISPATCH then Some (handle_dispatch p fi)
      else if r = qep_UNHANDLED then Some (handle_unhandled p fi)
      else if r = qep_TRAN_HIST then Some (handle_tran_hist p fi)
      else None)"

definition qf_lines :: "u8 \<Rightarrow> u8 list \<Rightarrow> FrameInterpreter \<Rightarrow> string list option" where
  "qf_lines r p fi =
     (if r = qf_ACTIVE_DEFER then Some (handle_ao_defer_recall p ''AO-Defer '' fi)
      else if r = qf_ACTIVE_RECALL then Some (handle_ao_defer_recall p ''AO-Rcall '' fi)
      else if r = qf_ACTIVE_SUBSCRIBE then Some (handle_ao_subscribe p fi)
      else if r = qf_ACTIVE_UNSUBSCRIBE then Some (handle_ao_unsubscribe p fi)
      else if r = qf_ACTIVE_POST then Some (handle_ao_post p ''AO-Post '' fi)
      else if r = qf_ACTIVE_POST_LIFO then Some (handle_ao_post p ''AO-PostL'' fi)
      else if r = qf_ACTIVE_GET then Some (handle_ao_get p fi)
      else if r = qf_ACTIVE_GET_LAST then Some (handle_ao_get_last p fi)
      else if r = qf_ACTIVE_POST_ATTEMPT then Some (handle_ao_post p ''AO-PostA'' fi)
      else if r = qf_EQUEUE_INIT then Some (handle_equeue_init p fi)
      else if r = qf_EQUEUE_POST then Some (handle_equeue_post p ''EQ-Post '' fi)
      else if r = qf_EQUEUE_POST_LIFO then Some (handle_equeue_post p ''EQ-PostL'' fi)
      else if r = qf_EQUEUE_GET then Some (handle_equeue_get p ''EQ-Get  '' fi)
      else if r = qf_EQUEUE_POST_ATTEMPT then Some (handle_equeue_post p ''EQ-PostA'' fi)
      else if r = qf_MPOOL_INIT then Some (handle_mpool_init p fi)
      else if r = qf_MPOOL_GET then Some (handle_mpool_get p fi)
      else if r = qf_MPOOL_PUT then Some (handle_mpool_put p fi)
      else if r = qf_MPOOL_GET_ATTEMPT then Some (handle_mpool_get_labeled p ''MP-GetA '' fi)
      else if r = qf_PUBLISH then Some (handle_qf_publish p fi)
      else if r = qf_NEW_REF then Some (handle_qf_evt_ref p ''New-Ref '' fi)
      else if r = qf_NEW then Some (handle_qf_new p fi)
      else if r = qf_GC_ATTEMPT then Some (handle_qf_gc p ''QF-gcA  '' fi)
      else if r = qf_GC then Some (handle_qf_gc p ''QF-gc   '' fi)
      else if r = qf_TICK then Some (handle_qf_tick p fi)
      else if r = qf_DELETE_REF then Some (handle_qf_evt_ref p ''QF-DelRf'' fi)
      else if r = qf_CRIT_ENTRY then Some (handle_crit p ''QF-CritE'' fi)
      else if r = qf_CRIT_EXIT then Some (handle_crit p ''QF-CritX'' fi)
      else if r = qf_ISR_ENTRY then Some (handle_isr p ''QF-IsrE '' fi)
      else if r = qf_ISR_EXIT then Some (handle_isr p ''QF-IsrX '' fi)
      else None)"

definition kernel_lines :: "u8 \<Rightarrow> u8 list \<Rightarrow> FrameInterpreter \<Rightarrow> string list option" where
  "kernel_lines r p fi =
     (if r = time_evt_ARM then Some (handle_time_evt_arm p fi)
      else if r = time_evt_AUTO_DISARM then Some (handle_time_evt_auto_disarm p fi)
      else if r = time_evt_DISARM_ATTEMPT then Some (handle_time_evt_disarm_attempt p fi)
      else if r = time_evt_DISARM then Some (handle_time_evt_disarm p fi)
      else if r = time_evt_REARM then Some (handle_time_evt_rearm p fi)
      else if r = time_evt_POST then Some (handle_time_evt_post p fi)
      else if r = sched_LOCK then Some (handle_sched_lock p fi)
      else if r = sched_UNLOCK then Some (handle_sched_unlock p fi)
      else if r = sched_NEXT then Some (handle_sched_next p fi)
      else if r = sched_IDLE then Some (handle_sched_idle p fi)
      else if r = qxk_SEM_TAKE then Some (handle_sem p ''Sem-Take '' fi)
      else if r = qxk_SEM_BLOCK then Some (handle_sem p ''Sem-Blk  '' fi)
      else if r = qxk_SEM_SIGNAL then Some (handle_sem p ''Sem-Sig  '' fi)
      else if r = qxk_SEM_BLOCK_ATTEMPT then Some (handle_sem p ''Sem-BlkA '' fi)
      else if r = qxk_MTX_LOCK then Some (handle_mtx p ''Mtx-Lock '' fi)
      else if r = qxk_MTX_BLOCK then Some (handle_mtx p ''Mtx-Blk  '' fi)
      else if r = qxk_MTX_UNLOCK then Some (handle_mtx p ''Mtx-Unlk '' fi)
      else if r = qxk_MTX_LOCK_ATTEMPT then Some (handle_mtx p ''Mtx-LockA'' fi)
      else if r = qxk_MTX_BLOCK_ATTEMPT then Some (handle_mtx p ''Mtx-BlkA '' fi)
      else if r = qxk_MTX_UNLOCK_ATTEMPT then Some (handle_mtx p ''Mtx-UnlkA'' fi)
      else None)"

definition infra_lines :: "u8 \<Rightarrow> u8 list \<Rightarrow> FrameInterpreter \<Rightarrow> string list option" where
  "infra_lines r p fi =
     (if r = infra_TEST_PAUSED then Some [blank @ ''TstPause'']
      else if r = infra_TEST_PROBE then Some (handle_test_probe p fi)
      else if r = infra_QUERY_DATA then Some (handle_query_data p fi)
      else if r = infra_PEEK_DATA then Some (handle_peek_data p)
      else if r = infra_ASSERT_FAIL then Some (handle_assert_fail p fi)
      else if r = infra_QF_RUN then Some [blank @ ''QF RUN'']
      else if r = infra_TARGET_DONE then Some [blank @ ''Trg-Done rec='' @ decw (case p of [] \<Rightarrow> 0 | b # _ \<Rightarrow> b)]
      else if r = infra_RX_STATUS then Some (handle_rx_status p)
      else None)"

definition orelse :: "'a option \<Rightarrow> 'a option \<Rightarrow> 'a option" where
  "orelse a b = (case a of None \<Rightarrow> b | Some _ \<Rightarrow> a)"

definition record_lines :: "u8 \<Rightarrow> u8 list \<Rightarrow> FrameInterpreter \<Rightarrow> string list" where
  "record_lines r p fi =
     lines_of (orelse (qep_lines r p fi) (orelse (qf_lines r p fi) (orelse (kernel_lines r p fi) (orelse (infra_lines r p fi)
       (if r \<ge> 100 \<or> r \<in> dom (di_users (fi_dict fi)) then Some (handle_user_record r p fi) else None)))))"

definition interpret_frame :: "QsFrame \<Rightarrow> FrameInterpreter \<Rightarrow> FrameInterpreter \<times> string list" where
  "interpret_frame fr fi =
     (let r = qf_record_type fr; p = qf_payload fr;
          (fi', ls) = (case dictionary_lines r p fi of Some x \<Rightarrow> x | None \<Rightarrow> (fi, record_lines r p fi))
      in (fi', if ls = [] then [fallback_line fr] else ls))"

end
