(* ===== verification/InterpSpec.thy ===== *)
theory InterpSpec
  imports Interp
begin

text \<open>
  Properties of the interpreter: the host's readers are inverse to the target's little-endian
  encodings, user records built field by field are printed field by field, and the records of the
  dictionaries and of the target's widths change the interpreter as meant.
\<close>

section \<open>Readers and encodings\<close>

text \<open>A cursor that has consumed \<open>pre\<close> and is about to read \<open>s\<close>.\<close>

definition cursor_at :: "u8 list \<Rightarrow> u8 list \<Rightarrow> Cursor" where
  "cursor_at pre s = \<lparr>cu_data = pre @ s, cu_pos = length pre\<rparr>"

lemma Cursor_new_at: "Cursor_new p = cursor_at [] p"
  by (simp add: Cursor_new_def cursor_at_def)

lemma read_bytes_at [simp]: "length bs = n \<Longrightarrow> read_bytes n (cursor_at pre (bs @ s)) = (Some bs, cursor_at (pre @ bs) s)"
  by (auto simp: read_bytes_def cursor_at_def)

lemma read_bytes_short [simp]: "length s < n \<Longrightarrow> read_bytes n (cursor_at pre s) = (None, cursor_at pre s)"
  by (auto simp: read_bytes_def cursor_at_def)

lemma field_bytes_at [simp]:
  "length bs = n \<Longrightarrow> field (read_bytes n) (cursor_at pre (bs @ s)) = Some (bs, cursor_at (pre @ bs) s)"
  by (simp add: field_Some)

lemma Cursor_is_empty_at [simp]: "Cursor_is_empty (cursor_at pre s) \<longleftrightarrow> s = []"
  by (auto simp: Cursor_is_empty_def cursor_at_def)

locale wire_field =
  fixes enc :: "'a \<Rightarrow> u8 list" and rd :: "Cursor \<Rightarrow> ('b \<times> Cursor) option" and val :: "'a \<Rightarrow> 'b" and width :: nat
  assumes enc_length: "length (enc v) = width"
    and read_at: "rd (cursor_at pre (enc v @ s)) = Some (val v, cursor_at (pre @ enc v) s)"
    and read_short: "length s < width \<Longrightarrow> rd (cursor_at pre s) = None"
begin

lemma read_all: "rd (cursor_at pre (enc v)) = Some (val v, cursor_at (pre @ enc v) [])"
  using read_at [of pre v "[]"] by simp

lemma read_first: "rd (Cursor_new (enc v @ s)) = Some (val v, cursor_at (enc v) s)"
  using read_at [of "[]" v s] by (simp add: Cursor_new_at)

lemma read_first_all: "rd (Cursor_new (enc v)) = Some (val v, cursor_at (enc v) [])"
  using read_first [of v "[]"] by simp

lemma read_first_short: "length p < width \<Longrightarrow> rd (Cursor_new p) = None"
  by (simp add: Cursor_new_at read_short)

lemmas reads = read_at read_short read_all read_first read_first_all read_first_short

end

interpretation w8: wire_field "\<lambda>b. [b]" rd_u8 "\<lambda>b. b" 1
proof
  show "rd_u8 (cursor_at pre ([b] @ s)) = Some (b, cursor_at (pre @ [b]) s)" for pre s and b :: u8
    by (simp add: field_Some read_u8_def read_bytes_at [of "[b]" 1 pre s, simplified])
qed (simp_all add: field_def read_u8_def)

interpretation w16: wire_field le16 rd_u16 "\<lambda>v. v" 2
  by unfold_locales (simp_all add: field_def read_u16_def)

interpretation w32: wire_field le32 rd_u32 "\<lambda>v. v" 4
  by unfold_locales (simp_all add: field_def read_u32_def)

interpretation w64: wire_field le64 rd_u64 "\<lambda>v. v" 8
  by unfold_locales (simp_all add: field_def read_u64_def)

interpretation s1: wire_field "\<lambda>b. [b]" "rd_sized 1" ucast 1
proof
  show "rd_sized 1 (cursor_at pre ([b] @ s)) = Some (ucast b, cursor_at (pre @ [b]) s)" for pre s and b :: u8
    using w8.read_at [of pre b s] by (simp add: field_Some read_sized_def)
  show "rd_sized 1 (cursor_at pre s) = None" if "length s < 1" for pre s
    using that by (simp add: field_def read_sized_def read_u8_def)
qed simp

interpretation s2: wire_field le16 "rd_sized 2" ucast 2
  by unfold_locales (simp_all add: field_def read_sized_def read_u16_def)

interpretation s4: wire_field le32 "rd_sized 4" ucast 4
  by unfold_locales (simp_all add: field_def read_sized_def read_u32_def)

interpretation s8: wire_field le64 "rd_sized 8" "\<lambda>v. v" 8
  by unfold_locales (simp_all add: field_def read_sized_def read_u64_def)

lemma rd_u8_Cons:
  "rd_u8 (cursor_at pre (b # s)) = Some (b, cursor_at (pre @ [b]) s)"
  "rd_u8 (Cursor_new (b # s)) = Some (b, cursor_at [b] s)"
  using w8.read_at [of pre b s] w8.read_first [of b s] by simp_all

lemmas wire_reads = w8.reads w16.reads w32.reads w64.reads s1.reads s2.reads s4.reads s8.reads rd_u8_Cons

text \<open>A name the target can send: UTF-8 without a zero byte.\<close>

definition name_ok :: "u8 list \<Rightarrow> bool" where
  "name_ok n \<longleftrightarrow> utf8_valid n \<and> 0 \<notin> set n"

lemma rd_text_at:
  assumes "name_ok n"
  shows "rd_text (cursor_at pre (n @ 0 # s)) = Some (chars n, cursor_at (pre @ n @ [0]) s)"
    "rd_text (cursor_at pre (n @ [0])) = Some (chars n, cursor_at (pre @ n @ [0]) [])"
proof -
  have t: "takeWhile (\<lambda>b. b \<noteq> 0) (n @ 0 # s) = n" for s :: "u8 list"
    using assms by (auto simp: name_ok_def takeWhile_append)
  show "rd_text (cursor_at pre (n @ 0 # s)) = Some (chars n, cursor_at (pre @ n @ [0]) s)" for s
    using assms by (simp add: rd_text_def field_def read_c_string_def cursor_at_def t name_ok_def from_utf8_lossy_valid Let_def)
  from this [of "[]"]
  show "rd_text (cursor_at pre (n @ [0])) = Some (chars n, cursor_at (pre @ n @ [0]) [])" .
qed

section \<open>User records\<close>

text \<open>The fields a target can push, with their width hints, and the text each stands for.\<close>

datatype UserField =
  FieldU8 u8 u8 | FieldU16 u8 u16 | FieldU32 u8 u32 | FieldU64 u8 u64 |
  FieldI8 u8 | FieldI16 u8 u16 | FieldI32 u8 u32 | FieldI64 u8 u64 |
  FieldF32 u32 | FieldF64 u64 | FieldMem "u8 list" | FieldStr "u8 list"

fun push_field :: "UserField \<Rightarrow> u8 list \<Rightarrow> u8 list result" where
  "push_field (FieldU8 w v) bs = Inr (push_u8 w v bs)"
| "push_field (FieldU16 w v) bs = Inr (push_u16 w v bs)"
| "push_field (FieldU32 w v) bs = Inr (push_u32 w v bs)"
| "push_field (FieldU64 w v) bs = Inr (push_u64 w v bs)"
| "push_field (FieldI8 v) bs = Inr (push_i8_enum v bs)"
| "push_field (FieldI16 w v) bs = Inr (push_i16 w v bs)"
| "push_field (FieldI32 w v) bs = Inr (push_i32 w v bs)"
| "push_field (FieldI64 w v) bs = Inr (push_i64 w v bs)"
| "push_field (FieldF32 v) bs = Inr (push_f32 v bs)"
| "push_field (FieldF64 v) bs = Inr (push_f64 v bs)"
| "push_field (FieldMem d) bs = push_mem d bs"
| "push_field (FieldStr n) bs = Inr (push_str n bs)"

fun push_fields :: "UserField list \<Rightarrow> u8 list \<Rightarrow> u8 list result" where
  "push_fields [] bs = Inr bs"
| "push_fields (f # fs) bs = rbind (push_field f bs) (push_fields fs)"

fun field_text :: "UserField \<Rightarrow> string" where
  "field_text (FieldU8 w v) = decw v"
| "field_text (FieldU16 w v) = decw v"
| "field_text (FieldU32 w v) = decw v"
| "field_text (FieldU64 w v) = decw v"
| "field_text (FieldI8 v) = dec_int (sint v)"
| "field_text (FieldI16 w v) = dec_int (sint v)"
| "field_text (FieldI32 w v) = dec_int (sint v)"
| "field_text (FieldI64 w v) = dec_int (sint v)"
| "field_text (FieldF32 v) = fmt_f32 v"
| "field_text (FieldF64 v) = fmt_f64 v"
| "field_text (FieldMem d) = ''mem:'' @ hex_bytes d"
| "field_text (FieldStr n) = chars n"

fun field_ok :: "UserField \<Rightarrow> bool" where
  "field_ok (FieldMem d) \<longleftrightarrow> length d \<le> 255"
| "field_ok (FieldStr n) \<longleftrightarrow> name_ok n"
| "field_ok _ \<longleftrightarrow> True"

lemma make_format_base: "and (make_format w b) 0x0F = and b 0x0F"
proof -
  have "and (or (push_bit 4 x) y) (mask 4) = and y (mask 4)" for x y :: u8
    by (rule bit_word_eqI) (auto simp: bit_simps)
  from this [of "and w 0x0F" "and b 0x0F"] show ?thesis
    by (simp add: make_format_def mask_eq_exp_minus_1 and.assoc)
qed

text \<open>A field is its format byte and its bytes, which the host reads as the field's text.\<close>

lemma user_field_push:
  assumes "field_ok f"
  shows "\<exists>fmt body. push_field f bs = Inr (bs @ [fmt] @ body) \<and> and fmt 0x0F \<noteq> FMT_HEX \<and>
    (\<forall>pre s. user_field fi False (and fmt 0x0F) (cursor_at pre (body @ s)) = Some (field_text f, cursor_at (pre @ body) s))"
proof (cases f)
  case (FieldMem d)
  with assms have "unat (of_nat (length d) :: u8) = length d" by (simp add: unat_of_nat)
  with FieldMem assms show ?thesis
    by (simp add: push_mem_def make_format_base format_codes user_field_def wire_reads)
qed (use assms in \<open>simp_all add: push_u8_def push_u16_def push_u32_def push_u64_def push_i8_enum_def push_i16_def
    push_i32_def push_i64_def push_f32_def push_f64_def push_str_def make_format_base format_codes user_field_def
    wire_reads rd_text_at\<close>)

lemma user_fields_push:
  assumes "list_all field_ok fs"
  shows "\<exists>body. push_fields fs bs = Inr (bs @ body) \<and>
    (\<forall>pre vs. user_fields fi False (cursor_at pre body) vs = vs @ map field_text fs)"
  using assms
proof (induction fs arbitrary: bs)
  case Nil
  then show ?case by (subst user_fields.simps) (simp add: wire_reads)
next
  case (Cons f fs)
  then have "field_ok f" by simp
  from user_field_push [OF this, of bs fi] obtain fmt body where
    f: "push_field f bs = Inr (bs @ [fmt] @ body)" "and fmt 0x0F \<noteq> FMT_HEX"
      "\<And>pre s. user_field fi False (and fmt 0x0F) (cursor_at pre (body @ s)) = Some (field_text f, cursor_at (pre @ body) s)"
    by blast
  from Cons.IH [of "bs @ [fmt] @ body"] Cons.prems obtain rest where
    r: "push_fields fs (bs @ [fmt] @ body) = Inr ((bs @ [fmt] @ body) @ rest)"
      "\<And>pre vs. user_fields fi False (cursor_at pre rest) vs = vs @ map field_text fs" by auto
  have "user_fields fi False (cursor_at pre ([fmt] @ body @ rest)) vs = vs @ map field_text (f # fs)" for pre vs
    using f(2,3) r(2) by (subst user_fields.simps) (simp add: rd_u8_Cons Let_def)
  then show ?case using f(1) r(1) by (intro exI [of _ "[fmt] @ body @ rest"]) simp
qed

lemma small_ids:
  assumes "100 \<le> (r :: u8)" "n < (100 :: u8)"
  shows "r \<noteq> n"
  using assms by (auto simp: not_le [symmetric])

lemma user_record_dispatch:
  assumes "100 \<le> r"
  shows "dictionary_lines r p fi = None" "record_lines r p fi = handle_user_record r p fi"
  using small_ids [OF assms] assms
  by (simp_all add: dictionary_lines_def record_lines_def qep_lines_def qf_lines_def kernel_lines_def infra_lines_def
      record_ids orelse_def lines_of_def)

lemma handle_user_record_nonempty: "handle_user_record r p fi \<noteq> []"
  by (auto simp: handle_user_record_def Let_def split: option.splits)

text \<open>
  C31: User records survive the trip to the host: whatever fields an application pushes into a user
  record (memory blocks of at most 255 bytes, strings of text without a zero byte), building it
  never panics, and the host prints one line with the time stamp, the record's name and the fields
  in order, each as its decimal value, its text, its float with six decimals or its bytes; a
  registered formatter that accepts the fields replaces the line's body.
\<close>

theorem user_record_rendered:
  assumes "list_all field_ok fs" "100 \<le> r" "ts_time_size (fi_sizes fi) = 4"
  shows "\<exists>p. push_fields fs [] = Inr p \<and>
    interpret_frame \<lparr>qf_seq = sq, qf_record_type = r, qf_payload = le32 us @ p\<rparr> fi =
      (fi, [stamp (ucast us) @
        (case first_formatted (fi_user_formatters fi) (user_name fi r) (map field_text fs) of
           Some l \<Rightarrow> l
         | None \<Rightarrow> user_name fi r @ '' '' @ join (map field_text fs))])"
proof -
  from user_fields_push [OF assms(1), of "[]" fi] obtain p where
    p: "push_fields fs [] = Inr p" "\<And>pre. user_fields fi False (cursor_at pre p) [] = map field_text fs" by auto
  have "handle_user_record r (le32 us @ p) fi =
      [stamp (ucast us) @
        (case first_formatted (fi_user_formatters fi) (user_name fi r) (map field_text fs) of
           Some l \<Rightarrow> l
         | None \<Rightarrow> user_name fi r @ '' '' @ join (map field_text fs))]"
    using assms(3) p(2) by (simp add: handle_user_record_def wire_reads Let_def split: option.splits)
  with p(1) show ?thesis
    by (simp add: interpret_frame_def user_record_dispatch [OF assms(2)] Let_def)
qed

text \<open>A record 101 named PHILO with a signed byte, a string and a memory block.\<close>

definition demo_interpreter :: FrameInterpreter where
  "demo_interpreter = FrameInterpreter_new\<lparr>fi_dict := Dictionaries_default\<lparr>di_users := [101 \<mapsto> ''PHILO'']\<rparr>\<rparr>"

definition demo_fields :: "UserField list" where
  "demo_fields = [FieldI8 0xFE, FieldStr [0x68, 0x69], FieldMem [0xAB, 0x0C]]"

lemma demo_fields_text: "join (map field_text demo_fields) = ''-2 hi mem:AB0C''"
  by code_simp

theorem user_record_rendered_witness:
  "\<exists>p. push_fields demo_fields [] = Inr p \<and>
    interpret_frame \<lparr>qf_seq = 1, qf_record_type = 101, qf_payload = le32 7 @ p\<rparr> demo_interpreter =
      (demo_interpreter, [''0000000007 PHILO -2 hi mem:AB0C''])"
proof -
  have "list_all field_ok demo_fields"
    by (simp add: demo_fields_def name_ok_def)
  moreover have "ts_time_size (fi_sizes demo_interpreter) = 4"
    by (simp add: demo_interpreter_def FrameInterpreter_new_def TargetSizes_default_def)
  moreover have "fi_user_formatters demo_interpreter = []" "user_name demo_interpreter 101 = ''PHILO''"
    by (simp_all add: demo_interpreter_def FrameInterpreter_new_def user_name_def)
  moreover have "stamp (ucast (7 :: u32)) = ''0000000007 ''" by code_simp
  ultimately show ?thesis
    using user_record_rendered [of demo_fields 101 demo_interpreter 1 7] demo_fields_text by simp
qed

section \<open>Target information and dictionaries\<close>

definition valid_width :: "u8 \<Rightarrow> bool" where
  "valid_width v \<longleftrightarrow> v = 1 \<or> v = 2 \<or> v = 4 \<or> v = 8"

lemma target_info_sizes:
  assumes "list_all valid_width [ti_time_size i, ti_obj_ptr_size i, ti_fun_ptr_size i, ti_signal_size i,
     ti_event_size i, ti_equeue_ctr_size i, ti_time_evt_ctr_size i, ti_mpool_size_size i, ti_mpool_ctr_size i]"
  shows "update_from_target_info (target_info_payload i) t =
    \<lparr>ts_time_size = ti_time_size i, ts_obj_ptr_size = ti_obj_ptr_size i, ts_fun_ptr_size = ti_fun_ptr_size i,
     ts_signal_size = ti_signal_size i, ts_event_size = ti_event_size i, ts_equeue_ctr = ti_equeue_ctr_size i,
     ts_timeevt_ctr = ti_time_evt_ctr_size i, ts_mpool_siz = ti_mpool_size_size i, ts_mpool_ctr = ti_mpool_ctr_size i\<rparr>"
proof -
  have v: "valid_size v d = v" "v < 16" if "valid_width v" for v d
    using that by (auto simp: valid_width_def valid_size_def)
  let ?p = "target_info_payload i"
  have p: "?p ! 3 = or (ti_signal_size i) (push_bit 4 (ti_event_size i))"
    "?p ! 4 = or (ti_equeue_ctr_size i) (push_bit 4 (ti_time_evt_ctr_size i))"
    "?p ! 5 = or (ti_mpool_size_size i) (push_bit 4 (ti_mpool_ctr_size i))"
    "?p ! 6 = or (ti_obj_ptr_size i) (push_bit 4 (ti_fun_ptr_size i))"
    "?p ! 7 = ti_time_size i" "\<not> length ?p < 8"
    by (simp_all add: target_info_payload_def le16_def)
  show ?thesis
    using assms p(6) unfolding update_from_target_info_def p(1-5)
    by (simp add: v nibbles)
qed

lemma handle_target_info_state:
  "fst (handle_target_info (target_info_payload i) fi) =
     fi\<lparr>fi_sizes := update_from_target_info (target_info_payload i) (fi_sizes fi)\<rparr>"
proof -
  obtain h m s where t: "ti_build_time i = (h, m, s)" by (cases "ti_build_time i")
  obtain d mo y where d: "ti_build_date i = (d, mo, y)" by (cases "ti_build_date i")
  show ?thesis
    unfolding handle_target_info_def target_info_payload_def t d
    by (simp add: wire_reads)
qed

text \<open>The widths of the eight-byte \<open>usize\<close> target: those its records are built with.\<close>

definition usize_widths :: "TargetSizes \<Rightarrow> bool" where
  "usize_widths t \<longleftrightarrow> ts_time_size t = 4 \<and> ts_obj_ptr_size t = 8 \<and> ts_fun_ptr_size t = 8 \<and>
     ts_signal_size t = 2 \<and> ts_event_size t = 2 \<and> ts_equeue_ctr t = 2 \<and> ts_timeevt_ctr t = 2 \<and> ts_mpool_ctr t = 2"

lemma handle_dict_state:
  assumes "usize_widths (fi_sizes fi)" "name_ok n"
  shows "fst (handle_obj_dict (obj_dict_payload a n) fi) =
      fi\<lparr>fi_dict := (fi_dict fi)\<lparr>di_objects := (di_objects (fi_dict fi))(a \<mapsto> chars n)\<rparr>\<rparr>"
    and "fst (handle_fun_dict (fun_dict_payload a n) fi) =
      fi\<lparr>fi_dict := (fi_dict fi)\<lparr>di_functions := (di_functions (fi_dict fi))(a \<mapsto> chars n)\<rparr>\<rparr>"
    and "fst (handle_sig_dict (sig_dict_payload s a n) fi) =
      fi\<lparr>fi_dict := (fi_dict fi)\<lparr>di_signals := (di_signals (fi_dict fi))((ucast s, a) \<mapsto> chars n)\<rparr>\<rparr>"
    and "fst (handle_usr_dict (usr_dict_payload r n) fi) =
      fi\<lparr>fi_dict := (fi_dict fi)\<lparr>di_users := (di_users (fi_dict fi))(r \<mapsto> chars n)\<rparr>\<rparr>"
proof -
  have u: "ucast (ucast s :: u64) = (ucast s :: u32)" by (rule bit_word_eqI) (auto simp: bit_simps dest: bit_imp_le_length)
  show "fst (handle_obj_dict (obj_dict_payload a n) fi) =
      fi\<lparr>fi_dict := (fi_dict fi)\<lparr>di_objects := (di_objects (fi_dict fi))(a \<mapsto> chars n)\<rparr>\<rparr>"
    "fst (handle_fun_dict (fun_dict_payload a n) fi) =
      fi\<lparr>fi_dict := (fi_dict fi)\<lparr>di_functions := (di_functions (fi_dict fi))(a \<mapsto> chars n)\<rparr>\<rparr>"
    "fst (handle_sig_dict (sig_dict_payload s a n) fi) =
      fi\<lparr>fi_dict := (fi_dict fi)\<lparr>di_signals := (di_signals (fi_dict fi))((ucast s, a) \<mapsto> chars n)\<rparr>\<rparr>"
    "fst (handle_usr_dict (usr_dict_payload r n) fi) =
      fi\<lparr>fi_dict := (fi_dict fi)\<lparr>di_users := (di_users (fi_dict fi))(r \<mapsto> chars n)\<rparr>\<rparr>"
    using assms u by (simp_all add: usize_widths_def handle_obj_dict_def handle_fun_dict_def handle_sig_dict_def
        handle_usr_dict_def obj_dict_payload_def fun_dict_payload_def sig_dict_payload_def usr_dict_payload_def
        push_c_string_def wire_reads rd_text_at)
qed

text \<open>The interpreter after a frame.\<close>

definition after :: "u8 \<Rightarrow> u8 list \<Rightarrow> FrameInterpreter \<Rightarrow> FrameInterpreter" where
  "after r p fi = fst (interpret_frame \<lparr>qf_seq = 0, qf_record_type = r, qf_payload = p\<rparr> fi)"

lemma after_dictionary: "dictionary_lines r p fi = Some x \<Longrightarrow> after r p fi = fst x"
  by (simp add: after_def interpret_frame_def split_beta Let_def)

lemma after_records:
  "after OBJ_DICT p fi = fst (handle_obj_dict p fi)" "after FUN_DICT p fi = fst (handle_fun_dict p fi)"
  "after SIG_DICT p fi = fst (handle_sig_dict p fi)" "after USR_DICT p fi = fst (handle_usr_dict p fi)"
  "after TARGET_INFO p fi = fst (handle_target_info p fi)"
  by (simp_all add: after_dictionary dictionary_lines_def record_ids)

text \<open>
  The host learns from the target: the target information record replaces the host's widths by
  the target's, whatever they were; a dictionary record for an object, a function, a signal or a
  user record makes the host print the name it gives instead of the address, and changes how no
  other object, function or record is printed. A signal's name for object 0 is the one printed for
  objects without a name of their own for the signal.
\<close>

theorem dictionary_records_learned:
  assumes "list_all valid_width [ti_time_size i, ti_obj_ptr_size i, ti_fun_ptr_size i, ti_signal_size i,
     ti_event_size i, ti_equeue_ctr_size i, ti_time_evt_ctr_size i, ti_mpool_size_size i, ti_mpool_ctr_size i]"
    "usize_widths (fi_sizes fi)" "name_ok n"
  shows "after TARGET_INFO (target_info_payload i) fi0 = fi0\<lparr>fi_sizes :=
      \<lparr>ts_time_size = ti_time_size i, ts_obj_ptr_size = ti_obj_ptr_size i, ts_fun_ptr_size = ti_fun_ptr_size i,
       ts_signal_size = ti_signal_size i, ts_event_size = ti_event_size i, ts_equeue_ctr = ti_equeue_ctr_size i,
       ts_timeevt_ctr = ti_time_evt_ctr_size i, ts_mpool_siz = ti_mpool_size_size i, ts_mpool_ctr = ti_mpool_ctr_size i\<rparr>\<rparr> \<and>
    obj_str (after OBJ_DICT (obj_dict_payload a n) fi) b = (if b = a then chars n else obj_str fi b) \<and>
    fun_str (after FUN_DICT (fun_dict_payload a n) fi) b = (if b = a then chars n else fun_str fi b) \<and>
    user_name (after USR_DICT (usr_dict_payload r n) fi) q = (if q = r then chars n else user_name fi q) \<and>
    sig_str (after SIG_DICT (sig_dict_payload s a n) fi) (ucast s') b =
      (if s' = s \<and> (b = a \<or> a = 0 \<and> di_signals (fi_dict fi) (ucast s, b) = None) then chars n
       else sig_str fi (ucast s') b)"
proof -
  have d: "ucast (ucast x :: u32) = x" for x :: u16
    by (rule bit_word_eqI) (auto simp: bit_simps)
  have u: "ucast (ucast x :: u64) = (ucast x :: u32)" for x :: u16
    by (rule bit_word_eqI) (auto simp: bit_simps dest: bit_imp_le_length)
  have j: "ucast x = (ucast y :: u32) \<longleftrightarrow> x = y" for x y :: u16
    using d [of x] d [of y] by metis
  show ?thesis
    unfolding after_records handle_dict_state [OF assms(2,3)] handle_target_info_state target_info_sizes [OF assms(1)]
    by (simp add: obj_str_def fun_str_def user_name_def sig_str_def u j split: option.splits)
qed

definition usize_interpreter :: FrameInterpreter where
  "usize_interpreter = FrameInterpreter_with_sizes (update_from_target_info (target_info_payload TargetInfo_default) TargetSizes_default)"

lemma usize_interpreter_widths: "usize_widths (fi_sizes usize_interpreter)"
  using target_info_sizes [of TargetInfo_default TargetSizes_default]
  by (simp add: usize_interpreter_def FrameInterpreter_with_sizes_def usize_widths_def TargetInfo_default_def valid_width_def)

theorem dictionary_records_learned_witness:
  "obj_str (after OBJ_DICT (obj_dict_payload 32 [0x41, 0x4F]) usize_interpreter) 32 = ''AO'' \<and>
   sig_str (after SIG_DICT (sig_dict_payload 4 0 [0x41, 0x4F]) usize_interpreter) (ucast (4 :: u16)) 32 = ''AO''"
proof -
  have n: "name_ok [0x41, 0x4F]" by (simp add: name_ok_def)
  have t: "list_all valid_width [ti_time_size i, ti_obj_ptr_size i, ti_fun_ptr_size i, ti_signal_size i,
     ti_event_size i, ti_equeue_ctr_size i, ti_time_evt_ctr_size i, ti_mpool_size_size i, ti_mpool_ctr_size i]"
    if "i = TargetInfo_default" for i using that by (simp add: TargetInfo_default_def valid_width_def)
  have c: "chars [0x41, 0x4F] = ''AO''" by (simp add: chars_def char_of_def bit_simps)
  have "di_signals (fi_dict usize_interpreter) x = None" for x
    by (simp add: usize_interpreter_def FrameInterpreter_with_sizes_def Dictionaries_default_def)
  then show ?thesis
    using dictionary_records_learned [OF t usize_interpreter_widths n, of TargetInfo_default usize_interpreter 32 32 0 0 4 4]
      dictionary_records_learned [OF t usize_interpreter_widths n, of TargetInfo_default usize_interpreter 0 32 0 0 4 4]
    by (simp add: c)
qed

end
