(* ===== verification/TraceView.thy ===== *)
theory TraceView
  imports InterpSpec TimeEvents StateTree QkScheduler QxkPrims EventPool
begin

text \<open>
  The framework's own trace records seen by the host: which lines the interpreter prints for the
  records of time events, of the schedulers, of the blocking primitives, of the state machines, of
  publish-subscribe and of the event pools.
\<close>

section \<open>Records at the host\<close>

text \<open>A record with its time stamp, as the decoder delivers it.\<close>

definition received :: "u32 \<Rightarrow> trace_rec \<Rightarrow> QsFrame" where
  "received us = (\<lambda>(r, p, ts). \<lparr>qf_seq = 0, qf_record_type = r, qf_payload = (if ts then le32 us else []) @ p\<rparr>)"

definition host_lines :: "FrameInterpreter \<Rightarrow> u32 \<Rightarrow> trace_rec \<Rightarrow> string list" where
  "host_lines fi us rec = snd (interpret_frame (received us rec) fi)"

text \<open>The host prints the raw bytes of a record it cannot read.\<close>

definition raw_line :: "FrameInterpreter \<Rightarrow> u32 \<Rightarrow> trace_rec \<Rightarrow> bool" where
  "raw_line fi us rec \<longleftrightarrow> host_lines fi us rec = [fallback_line (received us rec)]"

lemmas interpret_defs = host_lines_def received_def interpret_frame_def dictionary_lines_def record_lines_def
  qep_lines_def qf_lines_def kernel_lines_def infra_lines_def record_ids orelse_def lines_of_def Let_def

lemmas te_records = emit_arm_def emit_disarm_def emit_rearm_def emit_timed_def emit_disarm_attempt_def
  emit_auto_disarm_def emit_post_def QS_QF_TIMEEVT_ARM_def QS_QF_TIMEEVT_AUTO_DISARM_def
  QS_QF_TIMEEVT_DISARM_ATTEMPT_def QS_QF_TIMEEVT_DISARM_def QS_QF_TIMEEVT_REARM_def QS_QF_TIMEEVT_POST_def

lemmas te_handlers = handle_time_evt_arm_def handle_time_evt_disarm_def handle_time_evt_rearm_def
  handle_time_evt_disarm_attempt_def handle_time_evt_auto_disarm_def handle_time_evt_post_def

lemma truncate_u16_unat: "unat (ucast (truncate_u16 n) :: u64) = min (unat n) 65535"
proof -
  have m: "unat (min n 0xFFFF) = min (unat n) 65535" by (simp add: min_def word_le_nat_alt)
  then have "unat (truncate_u16 n) = min (unat n) 65535"
    unfolding truncate_u16_def unsigned_ucast_eq m by (simp add: take_bit_nat_eq_self_iff)
  then show ?thesis unfolding unsigned_ucast_eq by (simp add: take_bit_nat_eq_self_iff)
qed

text \<open>
  The host understands the records of time events: with the target's widths it prints for every
  arming, disarming, rearming, attempt and expiry of a time event one line with the time stamp,
  the tick rate, the names (or addresses) of the time event and its target, and the counters, which
  the target saturates at 65535.
\<close>

theorem time_event_records_rendered:
  assumes "usize_widths (fi_sizes fi)" "TimeEvent_obtain_trace t = Some i"
  shows
    "map (host_lines fi us) (emit_arm n k t) = [[stamp (ucast us) @ ''TE'' @ decw (ti_tick_rate i) @ ''-Arm  Obj='' @
       obj_str fi (ti_time_event_addr i) @ '',AO='' @ obj_str fi (ti_target_addr i) @
       '',Tim='' @ dec (min (unat n) 65535) @ '',Int='' @ dec (min (unat k) 65535)]] \<and>
     map (host_lines fi us) (emit_disarm n k t) = [[stamp (ucast us) @ ''TE'' @ decw (ti_tick_rate i) @ ''-Dis  Obj='' @
       obj_str fi (ti_time_event_addr i) @ '',AO='' @ obj_str fi (ti_target_addr i) @
       '',Tim='' @ dec (min (unat n) 65535) @ '',Int='' @ dec (min (unat k) 65535)]] \<and>
     map (host_lines fi us) (emit_rearm n k t) = [[stamp (ucast us) @ ''TE'' @ decw (ti_tick_rate i) @ ''-Rarm Obj='' @
       obj_str fi (ti_time_event_addr i) @ '',AO='' @ obj_str fi (ti_target_addr i) @
       '',Tim='' @ dec (min (unat n) 65535) @ '',Int='' @ dec (min (unat k) 65535)]] \<and>
     map (host_lines fi us) (emit_disarm_attempt t) = [[stamp (ucast us) @ ''TE'' @ decw (ti_tick_rate i) @ ''-DisA Obj='' @
       obj_str fi (ti_time_event_addr i) @ '',AO='' @ obj_str fi (ti_target_addr i)]] \<and>
     map (host_lines fi us) (emit_auto_disarm t) = [[blank @ ''TE'' @ decw (ti_tick_rate i) @ ''-ADis Obj='' @
       obj_str fi (ti_time_event_addr i) @ '',AO='' @ obj_str fi (ti_target_addr i)]] \<and>
     map (host_lines fi us) (emit_post s t) = [[stamp (ucast us) @ ''TE'' @ decw (ti_tick_rate i) @ ''-Post Obj='' @
       obj_str fi (ti_time_event_addr i) @ '',Sig='' @ sig_str fi (ucast s) (ti_target_addr i) @
       '',AO='' @ obj_str fi (ti_target_addr i)]]"
  using assms unfolding te_records te_handlers
  by (intro conjI) (simp_all add: usize_widths_def interpret_defs te_handlers wire_reads truncate_u16_unat)

text \<open>A time event of rate 1 at address 16 for the object at 32, whose name the host knows.\<close>

definition demo_time_event :: TimeEvent where
  "demo_time_event = TimeEvent_set_trace True (TimeEvent_set_trace_meta
     \<lparr>ti_time_event_addr = 16, ti_target_addr = 32, ti_tick_rate = 0\<rparr>
     (TimeEvent_new 3 (TimeEventConfig_with_tick_rate 1 (TimeEventConfig_new 5))))"

definition named_interpreter :: FrameInterpreter where
  "named_interpreter = usize_interpreter\<lparr>fi_dict := Dictionaries_default\<lparr>di_objects := [32 \<mapsto> ''l_blinky'']\<rparr>\<rparr>"

lemma named_interpreter_widths: "usize_widths (fi_sizes named_interpreter)"
  using usize_interpreter_widths by (simp add: named_interpreter_def)

theorem time_event_records_rendered_witness:
  "map (host_lines named_interpreter 7) (emit_arm 70000 0 demo_time_event) =
     [[''0000000007 TE1-Arm  Obj=0x0000000000000010,AO=l_blinky,Tim=65535,Int=0'']]"
proof -
  have t: "TimeEvent_obtain_trace demo_time_event = Some \<lparr>ti_time_event_addr = 16, ti_target_addr = 32, ti_tick_rate = 1\<rparr>"
    by (simp add: demo_time_event_def TimeEvent_obtain_trace_def TimeEvent_set_trace_def TimeEvent_set_trace_meta_def
        TimeEvent_new_def TimeEventConfig_with_tick_rate_def TimeEventConfig_new_def)
  have "dec 65535 = ''65535''"
    by (simp add: dec_def digits.simps digit_def char_of_def bit_simps)
  moreover have "stamp (ucast (7 :: u32)) = ''0000000007 ''" "dec 1 = ''1''" "dec 0 = ''0''"
    by code_simp+
  moreover have "obj_str named_interpreter 16 = ''0x0000000000000010''" "obj_str named_interpreter 32 = ''l_blinky''"
    by code_simp+
  ultimately show ?thesis
    using time_event_records_rendered [OF named_interpreter_widths t, of 7 70000 0] by (simp add: min_def)
qed

section \<open>Scheduler and blocking primitives\<close>

text \<open>The lines the host prints for the records added to a trace.\<close>

definition new_lines :: "FrameInterpreter \<Rightarrow> u32 \<Rightarrow> trace \<Rightarrow> trace \<Rightarrow> string list" where
  "new_lines fi us t t' =
     (case (t, t') of
        (Some l, Some l') \<Rightarrow> concat (map (host_lines fi us) (drop (length l) l'))
      | _ \<Rightarrow> [])"

lemma new_lines_append: "new_lines fi us (Some log) (Some (log @ [rec])) = host_lines fi us rec"
  by (simp add: new_lines_def)

lemmas sync_handlers = handle_sched_lock_def handle_sched_unlock_def handle_sched_next_def handle_sem_def handle_mtx_def

lemmas sync_ids = SCHED_LOCK_def SCHED_UNLOCK_def SCHED_NEXT_def SEM_TAKE_def SEM_BLOCK_def SEM_SIGNAL_def
  MTX_LOCK_def MTX_BLOCK_def MTX_UNLOCK_def

lemma sched_lines:
  assumes "usize_widths (fi_sizes fi)"
  shows "host_lines fi us (SCHED_LOCK, [a, b], True) = [stamp (ucast us) @ ''Sch-Lock Ceil='' @ decw a @ ''->'' @ decw b]"
    "host_lines fi us (SCHED_UNLOCK, [a, b], True) = [stamp (ucast us) @ ''Sch-Unlk Ceil='' @ decw b @ ''->'' @ decw a]"
    "host_lines fi us (SCHED_NEXT, [a, b], True) = [stamp (ucast us) @ ''Sch-Next Pri='' @ decw b @ ''->'' @ decw a]"
  using assms by (simp_all add: usize_widths_def interpret_defs sync_ids sync_handlers wire_reads)

lemma sem_lines:
  assumes "usize_widths (fi_sizes fi)"
  shows "host_lines fi us (SEM_TAKE, le64 a @ [prio] @ le16 n, True) =
      [stamp (ucast us) @ ''Sem-Take  Obj='' @ obj_str fi a @ '',Pri='' @ decw prio @ '',Cnt='' @ decw n]"
    "host_lines fi us (SEM_BLOCK, le64 a @ [prio] @ le16 n, True) =
      [stamp (ucast us) @ ''Sem-Blk   Obj='' @ obj_str fi a @ '',Pri='' @ decw prio @ '',Cnt='' @ decw n]"
    "host_lines fi us (SEM_SIGNAL, le64 a @ [prio] @ le16 n, True) =
      [stamp (ucast us) @ ''Sem-Sig   Obj='' @ obj_str fi a @ '',Pri='' @ decw prio @ '',Cnt='' @ decw n]"
  using assms by (simp_all add: usize_widths_def interpret_defs sync_ids sync_handlers wire_reads)

lemma mtx_lines:
  assumes "usize_widths (fi_sizes fi)"
  shows "host_lines fi us (MTX_LOCK, le64 a @ [prio], True) =
      [stamp (ucast us) @ ''Mtx-Lock  Obj='' @ obj_str fi a @ '',Pri='' @ decw prio]"
    "host_lines fi us (MTX_BLOCK, le64 a @ [prio], True) =
      [stamp (ucast us) @ ''Mtx-Blk   Obj='' @ obj_str fi a @ '',Pri='' @ decw prio]"
    "host_lines fi us (MTX_UNLOCK, le64 a @ [prio], True) =
      [stamp (ucast us) @ ''Mtx-Unlk  Obj='' @ obj_str fi a @ '',Pri='' @ decw prio]"
  using assms by (simp_all add: usize_widths_def interpret_defs sync_ids sync_handlers wire_reads)

lemma unat_count: "unat (of_nat (min n 65535) :: u16) = min n 65535"
  by (simp add: unat_of_nat)

text \<open>
  The host shows what the scheduler and a semaphore did: locking the scheduler prints the ceiling
  before and after, a wait prints the semaphore, the thread's priority and the remaining count
  (saturated at 65535) under a label that tells whether the thread took a permit or blocked. But
  unlocking, which lowers the ceiling from \<open>d\<close> to \<open>v\<close>, is printed the wrong way round, as a change
  from \<open>v\<close> to \<open>d\<close>.
\<close>

theorem sync_records_rendered:
  assumes "usize_widths (fi_sizes fi)" "sc_trace s = Some log" "sc_lock_ceiling s < c"
    "sc_trace s' = Some log'" "v < sc_lock_ceiling s'" "sem_trace m = Some log2"
  shows
    "new_lines fi us (sc_trace s) (sc_trace (snd (QkScheduler_lock c s))) =
       [stamp (ucast us) @ ''Sch-Lock Ceil='' @ decw (sc_lock_ceiling s) @ ''->'' @ decw c] \<and>
     new_lines fi us (sc_trace s') (sc_trace (QkScheduler_unlock (Locked v) s')) =
       [stamp (ucast us) @ ''Sch-Unlk Ceil='' @ decw v @ ''->'' @ decw (sc_lock_ceiling s')] \<and>
     new_lines fi us (sem_trace m) (sem_trace (fst (snd (Semaphore_wait tid prio (m, x))))) =
       [stamp (ucast us) @ (if sem_count m > 0 then ''Sem-Take '' else ''Sem-Blk  '') @ '' Obj='' @ obj_str fi (sem_ptr m) @
        '',Pri='' @ decw prio @ '',Cnt='' @ dec (min (sem_count m - 1) 65535)]"
  using assms(2-)
  by (auto simp: QkScheduler_lock_def QkScheduler_unlock_def QkScheduler_emit_record_def new_lines_append
      sched_lines [OF assms(1)] Semaphore_wait_def Semaphore_wait_enter_def Semaphore_emit_def unat_count Let_def
      sem_lines [OF assms(1), simplified])

definition demo_sched :: QkScheduler where
  "demo_sched = (QkScheduler_new (Some []))\<lparr>sc_lock_ceiling := 5\<rparr>"

theorem sync_records_rendered_witness:
  "new_lines usize_interpreter 7 (sc_trace demo_sched) (sc_trace (QkScheduler_unlock (Locked 0) demo_sched)) =
     [''0000000007 Sch-Unlk Ceil=0->5''] \<and>
   new_lines usize_interpreter 7 (Some []) (sem_trace (fst (snd (Semaphore_wait 1 9
     (Semaphore_set_trace (Some []) (Semaphore_new 16 3), QxkScheduler_new None))))) =
     [''0000000007 Sem-Take  Obj=0x0000000000000010,Pri=9,Cnt=2'']"
proof -
  have t: "stamp 7 = ''0000000007 ''" "dec 0 = ''0''" "dec 2 = ''2''" "dec 5 = ''5''" "dec 9 = ''9''"
    "obj_str usize_interpreter 16 = ''0x0000000000000010''"
    by code_simp+
  show ?thesis
    using sync_records_rendered [OF usize_interpreter_widths, of demo_sched "[]" 6 demo_sched "[]" 0
        "Semaphore_set_trace (Some []) (Semaphore_new 16 3)" "[]" 7 1 9 "QxkScheduler_new None"]
    by (simp add: demo_sched_def QkScheduler_new_def Semaphore_set_trace_def Semaphore_new_def Semaphore_with_max_def t)
qed

section \<open>Records the host cannot read\<close>

text \<open>The records of the state machines, of the kernels' publish-subscribe and of the event pools.\<close>

definition qep_trace :: "signal \<Rightarrow> u64 \<Rightarrow> u64 \<Rightarrow> trace" where
  "qep_trace sg a b = (emit_state_entry a \<circ> emit_state_exit a \<circ> emit_state_init a \<circ> emit_init_tran a \<circ> emit_dispatch sg a \<circ>
     emit_intern_tran sg a \<circ> emit_ignored sg a \<circ> emit_tran sg a b \<circ> emit_tran_hist sg a b) (Some [])"

definition pool_trace :: "u16 \<Rightarrow> u8 \<Rightarrow> u16 \<Rightarrow> u16 \<Rightarrow> trace" where
  "pool_trace sz pid free tot = (emit_new sz pid \<circ> emit_new_attempt sz pid free tot \<circ> emit_gc pid \<circ>
     emit_mpool_get pid free tot \<circ> emit_mpool_put pid free tot) (Some [])"

definition pubsub_trace :: "u8 \<Rightarrow> signal \<Rightarrow> trace" where
  "pubsub_trace p sg = (emit 26 (le16 sg) True \<circ> emit 12 (p # le16 sg) True \<circ> emit 13 (p # le16 sg) True) (Some [])"

lemmas qep_handlers = handle_state_entry_def handle_state_exit_def handle_state_init_def
  handle_intern_tran_def handle_tran_def handle_ignored_def handle_dispatch_def

lemmas qf_handlers = handle_qf_new_def handle_mpool_init_def handle_qf_gc_def handle_mpool_get_def
  handle_mpool_get_labeled_def handle_mpool_put_def handle_qf_publish_def

lemmas pool_ids = QS_QF_NEW_def QS_QF_GC_def QS_QF_MPOOL_GET_def QS_QF_MPOOL_PUT_def QS_QF_NEW_ATTEMPT_def
  emit_new_def emit_new_attempt_def emit_gc_def emit_mpool_get_def emit_mpool_put_def

text \<open>A handler prints nothing for a payload shorter than its fields, wherever the fields end.\<close>

lemma rd_sized_at:
  "rd_sized 2 (cursor_at pre s) =
     (if length s < 2 then None else Some (ucast (of_le (take 2 s) :: u16), cursor_at (pre @ take 2 s) (drop 2 s)))"
  "rd_sized 4 (cursor_at pre s) =
     (if length s < 4 then None else Some (ucast (of_le (take 4 s) :: u32), cursor_at (pre @ take 4 s) (drop 4 s)))"
  "rd_sized 8 (cursor_at pre s) =
     (if length s < 8 then None else Some (of_le (take 8 s), cursor_at (pre @ take 8 s) (drop 8 s)))"
  by (simp_all add: field_def read_sized_def read_u16_def read_u32_def read_u64_def read_bytes_def cursor_at_def)

lemma short_payloads:
  assumes "usize_widths (fi_sizes fi)"
  shows "length p < 24 \<Longrightarrow> handle_tran_hist p fi = []"
    "length p < 20 \<Longrightarrow> handle_init_tran p fi = []"
    "length p < 14 \<Longrightarrow> handle_ao_subscribe p fi = []"
    "length p < 14 \<Longrightarrow> handle_ao_unsubscribe p fi = []"
  using assms by (simp_all add: usize_widths_def handle_tran_hist_def handle_init_tran_def handle_ao_subscribe_def
      handle_ao_unsubscribe_def lines_of_def Cursor_new_at rd_sized_at)

text \<open>
  None of the records of the state machines, of the event pools and of publish-subscribe can be
  read by the host, because the target leaves out fields the host expects (the object of a state
  machine record, the sender, the pool and reference count of a published event, the address of a
  pool): with the target's own widths the host prints only the record's raw bytes.
\<close>

theorem framework_records_unreadable:
  assumes "usize_widths (fi_sizes fi)"
  shows "list_all (raw_line fi us) (the (qep_trace sg a b)) \<and>
    list_all (raw_line fi us) (the (pool_trace sz pid free tot)) \<and>
    list_all (raw_line fi us) (the (pubsub_trace p sg))"
  using assms short_payloads [OF assms]
  by (intro conjI)
    (simp_all add: qep_trace_def pool_trace_def pubsub_trace_def raw_line_def usize_widths_def emit_defs qep_records pool_ids
      interpret_defs qep_handlers qf_handlers wire_reads)

theorem framework_records_unreadable_witness:
  "raw_line usize_interpreter 7 (QS_QEP_STATE_ENTRY, le64 4096, False)"
  using framework_records_unreadable [OF usize_interpreter_widths, of 7 0 4096 0 0 0 0 0 0]
  by (simp add: qep_trace_def emit_defs)

end
