(* ===== verification/DictFile.thy ===== *)
theory DictFile
  imports Interp
begin

text \<open>
  Saving and loading the interpreter's dictionaries (\<open>save_dictionaries\<close>, \<open>load_dictionaries\<close> and
  \<open>parse_addr\<close> of \<open>tools/qspy/src/interpreter.rs\<close>). A file is its text; failures of the file system
  are left out. Saving iterates over hash maps, so the order of the entries is an argument.
\<close>

section \<open>Saving\<close>

definition newline :: string where
  "newline = [CHR 0x0A]"

definition obj_line :: "u64 \<times> string \<Rightarrow> string" where
  "obj_line = (\<lambda>(addr, name). ''OBJ 0x'' @ hex_w 16 (unat addr) @ '' '' @ name)"

definition fun_line :: "u64 \<times> string \<Rightarrow> string" where
  "fun_line = (\<lambda>(addr, name). ''FUN 0x'' @ hex_w 16 (unat addr) @ '' '' @ name)"

definition sig_line :: "(u32 \<times> u64) \<times> string \<Rightarrow> string" where
  "sig_line = (\<lambda>((sig, obj), name). ''SIG '' @ decw sig @ '' 0x'' @ hex_w 16 (unat obj) @ '' '' @ name)"

definition usr_line :: "u8 \<times> string \<Rightarrow> string" where
  "usr_line = (\<lambda>(i, name). ''USR '' @ decw i @ '' '' @ name)"

definition enum_line :: "(u8 \<times> u8) \<times> string \<Rightarrow> string" where
  "enum_line = (\<lambda>((grp, val), name). ''ENUM '' @ decw grp @ '' '' @ decw val @ '' '' @ name)"

text \<open>The entries of a dictionary in the order a hash map yields them.\<close>

record DictEntries =
  de_objects :: "(u64 \<times> string) list"
  de_functions :: "(u64 \<times> string) list"
  de_signals :: "((u32 \<times> u64) \<times> string) list"
  de_users :: "(u8 \<times> string) list"
  de_enums :: "((u8 \<times> u8) \<times> string) list"

definition file_of :: "string list \<Rightarrow> string" where
  "file_of ls = concat (map (\<lambda>l. l @ newline) ls)"

definition save_dictionaries :: "DictEntries \<Rightarrow> string" where
  "save_dictionaries d =
     file_of ([''# qspy dictionary''] @ map obj_line (de_objects d) @ map fun_line (de_functions d) @
       map sig_line (de_signals d) @ map usr_line (de_users d) @ map enum_line (de_enums d))"

section \<open>Loading\<close>

definition parse_addr :: "string \<Rightarrow> u64 option" where
  "parse_addr s = from_str_radix 16 (if take 2 s = ''0x'' \<or> take 2 s = ''0X'' then drop 2 s else s)"

definition add_object :: "u64 \<times> string \<Rightarrow> Dictionaries \<Rightarrow> Dictionaries" where
  "add_object = (\<lambda>(a, n) d. d\<lparr>di_objects := (di_objects d)(a \<mapsto> n)\<rparr>)"

definition add_function :: "u64 \<times> string \<Rightarrow> Dictionaries \<Rightarrow> Dictionaries" where
  "add_function = (\<lambda>(a, n) d. d\<lparr>di_functions := (di_functions d)(a \<mapsto> n)\<rparr>)"

definition add_signal :: "(u32 \<times> u64) \<times> string \<Rightarrow> Dictionaries \<Rightarrow> Dictionaries" where
  "add_signal = (\<lambda>(k, n) d. d\<lparr>di_signals := (di_signals d)(k \<mapsto> n)\<rparr>)"

definition add_user :: "u8 \<times> string \<Rightarrow> Dictionaries \<Rightarrow> Dictionaries" where
  "add_user = (\<lambda>(i, n) d. d\<lparr>di_users := (di_users d)(i \<mapsto> n)\<rparr>)"

definition add_enum :: "(u8 \<times> u8) \<times> string \<Rightarrow> Dictionaries \<Rightarrow> Dictionaries" where
  "add_enum = (\<lambda>(k, n) d. d\<lparr>di_enums := (di_enums d)(k \<mapsto> n)\<rparr>)"

definition load_parts :: "string list \<Rightarrow> Dictionaries \<Rightarrow> Dictionaries" where
  "load_parts parts d =
     (case parts of
        [k, a, name] \<Rightarrow>
          (if k = ''OBJ'' then (case parse_addr a of Some x \<Rightarrow> add_object (x, name) d | None \<Rightarrow> d)
           else if k = ''FUN'' then (case parse_addr a of Some x \<Rightarrow> add_function (x, name) d | None \<Rightarrow> d)
           else if k = ''USR'' then (case from_str_radix 10 a of Some i \<Rightarrow> add_user (i, name) d | None \<Rightarrow> d)
           else d)
      | [k, a, b, name] \<Rightarrow>
          (if k = ''SIG'' then (case (from_str_radix 10 a, parse_addr b) of
             (Some s, Some o') \<Rightarrow> add_signal ((s, o'), name) d | _ \<Rightarrow> d)
           else if k = ''ENUM'' then (case (from_str_radix 10 a, from_str_radix 10 b) of
             (Some g, Some v) \<Rightarrow> add_enum ((g, v), name) d | _ \<Rightarrow> d)
           else d)
      | _ \<Rightarrow> d)"

definition load_line :: "string \<Rightarrow> Dictionaries \<Rightarrow> Dictionaries" where
  "load_line l d =
     (let line = trim l
      in if line = [] \<or> hd line = CHR ''#'' then d else load_parts (splitn 4 line) d)"

text \<open>A line that is not UTF-8 ends the loading with an error; the lines before it stay loaded.\<close>

fun load_lines :: "string list \<Rightarrow> Dictionaries \<Rightarrow> bool \<times> Dictionaries" where
  "load_lines [] d = (True, d)"
| "load_lines (l # ls) d = (if utf8_valid (bytes l) then load_lines ls (load_line l d) else (False, d))"

definition load_dictionaries :: "string \<Rightarrow> FrameInterpreter \<Rightarrow> bool \<times> FrameInterpreter" where
  "load_dictionaries file fi =
     (let (ok, d) = load_lines (file_lines file) (fi_dict fi) in (ok, fi\<lparr>fi_dict := d\<rparr>))"

section \<open>Trimming a line\<close>

definition trailing_white :: "string \<Rightarrow> bool" where
  "trailing_white n \<longleftrightarrow> white_prefix (map (rev \<circ> chars) white_spaces) (rev n) \<noteq> 0"

lemma white_prefix_0: "white_prefix ws s = 0 \<longleftrightarrow> (\<forall>w\<in>set ws. w = [] \<or> take (length w) s \<noteq> w)"
  by (auto simp: white_prefix_def find_None_iff find_Some_iff split: option.splits)

lemma white_first: "w \<in> set (map chars white_spaces) \<Longrightarrow> w \<noteq> [] \<and> hd w \<notin> {CHR ''#'', CHR ''O'', CHR ''F'', CHR ''S'', CHR ''U'', CHR ''E''}"
  by (auto simp: white_spaces_def chars_def char_of_def bit_simps)

lemma white_space_inside: "w \<in> set (map chars white_spaces) \<Longrightarrow> length w = 1 \<or> CHR '' '' \<notin> set w"
  by (auto simp: white_spaces_def chars_def char_of_def bit_simps)

lemma trim_none:
  assumes "s \<noteq> []" "hd s \<in> {CHR ''#'', CHR ''O'', CHR ''F'', CHR ''S'', CHR ''U'', CHR ''E''}"
    "\<not> trailing_white s"
  shows "trim s = s"
proof -
  have "white_prefix (map chars white_spaces) s = 0"
    unfolding white_prefix_0
  proof (intro ballI disjI2 notI)
    fix w assume w: "w \<in> set (map chars white_spaces)" and t: "take (length w) s = w"
    with white_first [OF w] have "hd w = hd s" by (metis hd_take length_greater_0_conv)
    with white_first [OF w] assms(2) show False by simp
  qed
  then show ?thesis
    using assms(3) by (simp add: trim_def trim_with.simps trailing_white_def Let_def comp_def)
qed

lemma trailing_white_append:
  assumes "n \<noteq> []" "\<not> trailing_white n"
  shows "\<not> trailing_white (pre @ CHR '' '' # n)"
  unfolding trailing_white_def not_not white_prefix_0
proof (intro ballI disjI2 notI)
  fix w' assume w': "w' \<in> set (map (rev \<circ> chars) white_spaces)"
    and t: "take (length w') (rev (pre @ CHR '' '' # n)) = w'"
  then obtain w where w: "w \<in> set (map chars white_spaces)" "w' = rev w" by auto
  show False
  proof (cases "length w' \<le> length n")
    case True
    with t have "take (length w') (rev n) = w'" by simp
    with assms(2) w' white_first [OF w(1)] w(2) show False
      unfolding trailing_white_def not_not white_prefix_0 by force
  next
    case False
    have "rev (pre @ CHR '' '' # n) ! length n = CHR '' ''" by (simp add: nth_append)
    moreover have "length n < length w'" using False by simp
    ultimately have "w' ! length n = CHR '' ''" using t by (metis nth_take)
    with \<open>length n < length w'\<close> have "CHR '' '' \<in> set w'" by (metis nth_mem)
    with white_space_inside [OF w(1)] w(2) have "length w' = 1" by simp
    with False assms(1) show False by (cases n) auto
  qed
qed

section \<open>Names that survive\<close>

text \<open>A name fit for a line, and one without a space.\<close>

definition name_line :: "string \<Rightarrow> bool" where
  "name_line n \<longleftrightarrow> n \<noteq> [] \<and> utf8_valid (bytes n) \<and> CHR 0x0A \<notin> set n \<and> \<not> trailing_white n"

definition name_word :: "string \<Rightarrow> bool" where
  "name_word n \<longleftrightarrow> name_line n \<and> CHR '' '' \<notin> set n"

definition ascii :: "string \<Rightarrow> bool" where
  "ascii s \<longleftrightarrow> (\<forall>c\<in>set s. (of_char c :: nat) < 128)"

lemma ascii_simps [simp]: "ascii []" "ascii (c # s) \<longleftrightarrow> (of_char c :: nat) < 128 \<and> ascii s"
  "ascii (s @ t) \<longleftrightarrow> ascii s \<and> ascii t"
  by (auto simp: ascii_def)

lemma utf8_valid_ascii_text: "ascii s \<Longrightarrow> utf8_valid (bytes (s @ t)) \<longleftrightarrow> utf8_valid (bytes t)"
proof -
  assume "ascii s"
  then have "list_all (\<lambda>b. b < 0x80) (bytes s)"
    by (auto simp: bytes_def ascii_def list_all_iff word_less_nat_alt unat_of_nat)
  then show ?thesis by (simp add: utf8_valid_ascii_append)
qed

lemma name_line_ascii: "ascii n \<Longrightarrow> name_line n \<longleftrightarrow> n \<noteq> [] \<and> CHR 0x0A \<notin> set n \<and> \<not> trailing_white n"
  using utf8_valid_ascii_text [of n "[]"] by (auto simp: name_line_def bytes_def)

lemma number_ascii: "2 \<le> b \<Longrightarrow> b \<le> 16 \<Longrightarrow> ascii (zero_pad w (digits b n))"
proof -
  assume "2 \<le> b" "b \<le> 16"
  from set_zero_pad [OF this, of w n] show ?thesis by (auto simp: ascii_def digit_def)
qed

lemma hex_text: "ascii (hex_w w n)" "CHR '' '' \<notin> set (hex_w w n)" "CHR 0x0A \<notin> set (hex_w w n)"
  using number_chars(2,3) [of 16 _ w n] number_ascii [of 16 w n] by (auto simp: hex_w_def)

lemma dec_text: "ascii (dec n)" "CHR '' '' \<notin> set (dec n)" "CHR 0x0A \<notin> set (dec n)"
  using number_chars(2,3) [of 10 _ 0 n] number_ascii [of 10 0 n] by (auto simp: dec_def zero_pad_0)

lemma parse_addr_hex: "parse_addr (''0x'' @ hex_w w (unat a)) = Some a"
  by (simp add: parse_addr_def hex_w_def from_str_radix_pad)

lemma trailing_cr: "n \<noteq> [] \<Longrightarrow> last n = CHR 0x0D \<Longrightarrow> trailing_white n"
proof -
  assume n: "n \<noteq> []" "last n = CHR 0x0D"
  have "[CHR 0x0D] = (rev \<circ> chars) [0x0D]" by (simp add: chars_def char_of_def bit_simps)
  moreover have "[0x0D] \<in> set white_spaces" by (simp add: white_spaces_def)
  ultimately have "[CHR 0x0D] \<in> set (map (rev \<circ> chars) white_spaces)" by (metis image_eqI set_map)
  moreover have "take (length [CHR 0x0D]) (rev n) = [CHR 0x0D]"
    using n by (cases n rule: rev_cases) auto
  ultimately show ?thesis unfolding trailing_white_def white_prefix_0 by blast
qed

lemma white_last: "w \<in> set (map chars white_spaces) \<Longrightarrow> (of_char (last w) :: nat) \<le> 32 \<or> 127 < (of_char (last w) :: nat)"
  by (auto simp: white_spaces_def chars_def)

lemma graphic_end:
  assumes "n \<noteq> []" "32 < (of_char (last n) :: nat)" "(of_char (last n) :: nat) < 127"
  shows "\<not> trailing_white n"
  unfolding trailing_white_def not_not white_prefix_0
proof (intro ballI disjI2 notI)
  fix w' assume w': "w' \<in> set (map (rev \<circ> chars) white_spaces)" and t: "take (length w') (rev n) = w'"
  then obtain w where w: "w \<in> set (map chars white_spaces)" "w' = rev w" by auto
  with t white_first [OF w(1)] have "hd (rev n) = hd (rev w)" by (metis hd_take length_greater_0_conv rev_is_Nil_conv)
  then have "last n = last w" by (simp add: hd_rev)
  with white_last [OF w(1)] assms show False by auto
qed

lemma white_first_byte: "w \<in> set (map chars white_spaces) \<Longrightarrow> (of_char (hd w) :: nat) \<le> 32 \<or> 127 < (of_char (hd w) :: nat)"
  by (auto simp: white_spaces_def chars_def)

definition graphic :: "char \<Rightarrow> bool" where
  "graphic c \<longleftrightarrow> 32 < (of_char c :: nat) \<and> (of_char c :: nat) < 127"

lemma trim_graphic:
  assumes "s \<noteq> []" "graphic (hd s)" "graphic (last s)"
  shows "trim s = s"
proof -
  have "white_prefix (map chars white_spaces) s = 0"
    unfolding white_prefix_0
  proof (intro ballI disjI2 notI)
    fix w assume w: "w \<in> set (map chars white_spaces)" and t: "take (length w) s = w"
    with white_first [OF w] have "hd w = hd s" by (metis hd_take length_greater_0_conv)
    with white_first_byte [OF w] assms(2) show False by (auto simp: graphic_def)
  qed
  moreover have "\<not> trailing_white s" using graphic_end assms by (simp add: graphic_def)
  ultimately show ?thesis by (simp add: trim_def trim_with.simps trailing_white_def Let_def comp_def)
qed

text \<open>A line is a prefix of printable characters that ends with a space, and a name.\<close>

lemma entry_line:
  assumes "name_line n" "ascii pre" "CHR 0x0A \<notin> set pre" "pre \<noteq> []" "hd pre \<in> {CHR ''#'', CHR ''O'', CHR ''F'', CHR ''S'', CHR ''U'', CHR ''E''}"
  shows "trim (pre @ CHR '' '' # n) = pre @ CHR '' '' # n" "utf8_valid (bytes (pre @ CHR '' '' # n))"
    "CHR 0x0A \<notin> set (pre @ CHR '' '' # n)" "strip_cr (pre @ CHR '' '' # n) = pre @ CHR '' '' # n"
proof -
  note n = assms(1) [unfolded name_line_def]
  have w: "\<not> trailing_white (pre @ CHR '' '' # n)" using trailing_white_append n by blast
  show "trim (pre @ CHR '' '' # n) = pre @ CHR '' '' # n"
    using trim_none [OF _ _ w] assms(4,5) by simp
  show "utf8_valid (bytes (pre @ CHR '' '' # n))"
    using utf8_valid_ascii_text [of "pre @ '' ''" n] assms(2) n by simp
  show "CHR 0x0A \<notin> set (pre @ CHR '' '' # n)" using assms(3) n by simp
  have "last (pre @ CHR '' '' # n) \<noteq> CHR 0x0D" using trailing_cr [of "pre @ CHR '' '' # n"] w by blast
  then show "strip_cr (pre @ CHR '' '' # n) = pre @ CHR '' '' # n" by (simp add: strip_cr_def)
qed

section \<open>Sections of the file\<close>

locale dict_section =
  fixes line :: "'k \<times> string \<Rightarrow> string" and ins :: "'k \<times> string \<Rightarrow> Dictionaries \<Rightarrow> Dictionaries"
    and ok :: "string \<Rightarrow> bool"
  assumes load: "ok n \<Longrightarrow> load_line (line (k, n)) d = ins (k, n) d"
    and valid: "ok n \<Longrightarrow> utf8_valid (bytes (line (k, n)))"
    and one_line: "ok n \<Longrightarrow> CHR 0x0A \<notin> set (line (k, n))"
    and no_cr: "ok n \<Longrightarrow> strip_cr (line (k, n)) = line (k, n)"
begin

lemma load_section:
  "list_all (ok \<circ> snd) es \<Longrightarrow> load_lines (map line es @ ls) d = load_lines ls (fold ins es d)"
proof (induction es arbitrary: d)
  case (Cons e es)
  then show ?case by (cases e) (simp add: load valid)
qed simp

lemma section_lines:
  "list_all (ok \<circ> snd) es \<Longrightarrow> file_lines (file_of (map line es) @ s) = map line es @ file_lines s"
proof (induction es)
  case (Cons e es)
  obtain k n where e: "e = (k, n)" by (cases e)
  with Cons.prems have n: "ok n" by simp
  have "file_lines (line e @ CHR 0x0A # (file_of (map line es) @ s)) = line e # file_lines (file_of (map line es) @ s)"
    using file_lines_line [OF one_line [OF n]] no_cr [OF n] e by simp
  with Cons show ?case by (simp add: file_of_def newline_def)
qed (simp add: file_of_def)

end

text \<open>The parts of a line with a word as its name, and of one with any name.\<close>

lemma split_word:
  assumes "CHR '' '' \<notin> set k" "CHR '' '' \<notin> set a" "CHR '' '' \<notin> set n"
  shows "splitn 4 (k @ CHR '' '' # a @ CHR '' '' # n) = [k, a, n]"
  using assms by (simp add: eval_nat_numeral splitn_hit splitn_miss)

lemma split_name:
  assumes "CHR '' '' \<notin> set k" "CHR '' '' \<notin> set a" "CHR '' '' \<notin> set b"
  shows "splitn 4 (k @ CHR '' '' # a @ CHR '' '' # b @ CHR '' '' # n) = [k, a, b, n]"
  using assms by (simp add: eval_nat_numeral splitn_hit)

lemma load_word_line:
  assumes "name_line n" "hd k \<in> {CHR ''O'', CHR ''F'', CHR ''S'', CHR ''U'', CHR ''E''}" "k \<noteq> []" "ascii (k @ a)"
    "CHR 0x0A \<notin> set (k @ a)"
  shows "load_line (k @ CHR '' '' # a @ CHR '' '' # n) d = load_parts (splitn 4 (k @ CHR '' '' # a @ CHR '' '' # n)) d"
    "utf8_valid (bytes (k @ CHR '' '' # a @ CHR '' '' # n))" "CHR 0x0A \<notin> set (k @ CHR '' '' # a @ CHR '' '' # n)"
    "strip_cr (k @ CHR '' '' # a @ CHR '' '' # n) = k @ CHR '' '' # a @ CHR '' '' # n"
proof -
  have h: "hd (k @ CHR '' '' # a) \<in> {CHR ''#'', CHR ''O'', CHR ''F'', CHR ''S'', CHR ''U'', CHR ''E''}"
    using assms(2,3) by auto
  note e = entry_line [OF assms(1), of "k @ CHR '' '' # a", OF _ _ _ h]
  show "load_line (k @ CHR '' '' # a @ CHR '' '' # n) d = load_parts (splitn 4 (k @ CHR '' '' # a @ CHR '' '' # n)) d"
    using e(1) assms by (auto simp: load_line_def Let_def)
  show "utf8_valid (bytes (k @ CHR '' '' # a @ CHR '' '' # n))" "CHR 0x0A \<notin> set (k @ CHR '' '' # a @ CHR '' '' # n)"
    "strip_cr (k @ CHR '' '' # a @ CHR '' '' # n) = k @ CHR '' '' # a @ CHR '' '' # n"
    using e(2-4) assms by simp_all
qed

text \<open>The five kinds of lines as a keyword, its keys and the name.\<close>

lemma line_shapes:
  "obj_line (a, n) = ''OBJ'' @ CHR '' '' # (''0x'' @ hex_w 16 (unat a)) @ CHR '' '' # n"
  "fun_line (a, n) = ''FUN'' @ CHR '' '' # (''0x'' @ hex_w 16 (unat a)) @ CHR '' '' # n"
  "usr_line (i, n) = ''USR'' @ CHR '' '' # decw i @ CHR '' '' # n"
  "sig_line ((s, a), n) = ''SIG'' @ CHR '' '' # (decw s @ CHR '' '' # ''0x'' @ hex_w 16 (unat a)) @ CHR '' '' # n"
  "enum_line ((g, v), n) = ''ENUM'' @ CHR '' '' # (decw g @ CHR '' '' # decw v) @ CHR '' '' # n"
  by (simp_all add: obj_line_def fun_line_def usr_line_def sig_line_def enum_line_def)

lemma line_prefixes:
  "ascii (''OBJ'' @ ''0x'' @ hex_w w x) \<and> CHR 0x0A \<notin> set (''OBJ'' @ ''0x'' @ hex_w w x)"
  "ascii (''FUN'' @ ''0x'' @ hex_w w x) \<and> CHR 0x0A \<notin> set (''FUN'' @ ''0x'' @ hex_w w x)"
  "ascii (''USR'' @ dec y) \<and> CHR 0x0A \<notin> set (''USR'' @ dec y)"
  "ascii (''SIG'' @ dec y @ CHR '' '' # ''0x'' @ hex_w w x) \<and> CHR 0x0A \<notin> set (''SIG'' @ dec y @ CHR '' '' # ''0x'' @ hex_w w x)"
  "ascii (''ENUM'' @ dec y @ CHR '' '' # dec z) \<and> CHR 0x0A \<notin> set (''ENUM'' @ dec y @ CHR '' '' # dec z)"
  by (simp_all add: hex_text dec_text)

lemma dict_sectionI:
  assumes "\<And>k n. line (k, n) = kw @ CHR '' '' # key k @ CHR '' '' # n"
    "hd kw \<in> {CHR ''O'', CHR ''F'', CHR ''S'', CHR ''U'', CHR ''E''}" "kw \<noteq> []"
    "\<And>k. ascii (kw @ key k) \<and> CHR 0x0A \<notin> set (kw @ key k)"
    "\<And>n. ok n \<Longrightarrow> name_line n"
    "\<And>k n d. ok n \<Longrightarrow> load_parts (splitn 4 (kw @ CHR '' '' # key k @ CHR '' '' # n)) d = ins (k, n) d"
  shows "dict_section line ins ok"
proof
  fix n k d
  assume n: "ok n"
  note l = load_word_line [OF assms(5) [OF n] assms(2,3), of "key k"]
  show "load_line (line (k, n)) d = ins (k, n) d" using l(1) assms(1,4,6) n by simp
  show "utf8_valid (bytes (line (k, n)))" "CHR 0x0A \<notin> set (line (k, n))" "strip_cr (line (k, n)) = line (k, n)"
    using l(2-4) assms(1,4) by simp_all
qed

interpretation od: dict_section obj_line add_object name_word
  by (rule dict_sectionI [of _ "''OBJ''" "\<lambda>a. ''0x'' @ hex_w 16 (unat a)"])
    (simp_all add: line_shapes line_prefixes name_word_def hex_text
      split_word [of "''OBJ''" "''0x'' @ hex_w 16 (unat _)", simplified] load_parts_def parse_addr_hex [simplified])

interpretation fd: dict_section fun_line add_function name_word
  by (rule dict_sectionI [of _ "''FUN''" "\<lambda>a. ''0x'' @ hex_w 16 (unat a)"])
    (simp_all add: line_shapes line_prefixes name_word_def hex_text
      split_word [of "''FUN''" "''0x'' @ hex_w 16 (unat _)", simplified] load_parts_def parse_addr_hex [simplified])

interpretation ud: dict_section usr_line add_user name_word
  by (rule dict_sectionI [of _ "''USR''" decw])
    (simp_all add: line_shapes line_prefixes name_word_def dec_text
      split_word [of "''USR''" "decw _", simplified] load_parts_def from_str_radix_dec)

interpretation sd: dict_section sig_line add_signal name_line
  by (rule dict_sectionI [of _ "''SIG''" "\<lambda>(s, a). decw s @ CHR '' '' # ''0x'' @ hex_w 16 (unat a)"])
    (auto simp: line_shapes line_prefixes [simplified] dec_text hex_text
      split_name [of "''SIG''" "decw _" "''0x'' @ hex_w 16 (unat _)", simplified] load_parts_def
      parse_addr_hex [simplified] from_str_radix_dec)

interpretation ed: dict_section enum_line add_enum name_line
  by (rule dict_sectionI [of _ "''ENUM''" "\<lambda>(g, v). decw g @ CHR '' '' # decw v"])
    (auto simp: line_shapes line_prefixes [simplified] dec_text
      split_name [of "''ENUM''" "decw _" "decw _", simplified] load_parts_def from_str_radix_dec)

section \<open>Round trip\<close>

definition enumerates :: "('k \<times> 'v) list \<Rightarrow> ('k \<rightharpoonup> 'v) \<Rightarrow> bool" where
  "enumerates es m \<longleftrightarrow> distinct (map fst es) \<and> map_of es = m"

definition entries_of :: "Dictionaries \<Rightarrow> DictEntries \<Rightarrow> bool" where
  "entries_of d e \<longleftrightarrow> enumerates (de_objects e) (di_objects d) \<and> enumerates (de_functions e) (di_functions d) \<and>
     enumerates (de_signals e) (di_signals d) \<and> enumerates (de_users e) (di_users d) \<and> enumerates (de_enums e) (di_enums d)"

definition names_ok :: "DictEntries \<Rightarrow> bool" where
  "names_ok e \<longleftrightarrow> list_all (name_word \<circ> snd) (de_objects e) \<and> list_all (name_word \<circ> snd) (de_functions e) \<and>
     list_all (name_line \<circ> snd) (de_signals e) \<and> list_all (name_word \<circ> snd) (de_users e) \<and>
     list_all (name_line \<circ> snd) (de_enums e)"

lemma fold_updates:
  "distinct (map fst es) \<Longrightarrow> fold (\<lambda>(k, v) m. m(k \<mapsto> v)) es m = m ++ map_of es"
proof (induction es arbitrary: m)
  case (Cons e es)
  obtain k v where e: "e = (k, v)" by (cases e)
  with Cons.prems have "map_of es k = None" by (simp add: map_of_eq_None_iff)
  then have "m(k \<mapsto> v) ++ map_of es = m ++ map_of (e # es)" by (auto simp: e fun_eq_iff map_add_def split: option.splits)
  with Cons e show ?case by (simp del: fun_upd_apply map_of.simps)
qed simp

lemma fold_add:
  "fold add_object os d = d\<lparr>di_objects := fold (\<lambda>(k, v) m. m(k \<mapsto> v)) os (di_objects d)\<rparr>"
  "fold add_function fs d = d\<lparr>di_functions := fold (\<lambda>(k, v) m. m(k \<mapsto> v)) fs (di_functions d)\<rparr>"
  "fold add_signal ss d = d\<lparr>di_signals := fold (\<lambda>(k, v) m. m(k \<mapsto> v)) ss (di_signals d)\<rparr>"
  "fold add_user us d = d\<lparr>di_users := fold (\<lambda>(k, v) m. m(k \<mapsto> v)) us (di_users d)\<rparr>"
  "fold add_enum es d = d\<lparr>di_enums := fold (\<lambda>(k, v) m. m(k \<mapsto> v)) es (di_enums d)\<rparr>"
proof -
  show "fold add_object os d = d\<lparr>di_objects := fold (\<lambda>(k, v) m. m(k \<mapsto> v)) os (di_objects d)\<rparr>"
    by (induction os arbitrary: d) (auto simp: add_object_def)
  show "fold add_function fs d = d\<lparr>di_functions := fold (\<lambda>(k, v) m. m(k \<mapsto> v)) fs (di_functions d)\<rparr>"
    by (induction fs arbitrary: d) (auto simp: add_function_def)
  show "fold add_signal ss d = d\<lparr>di_signals := fold (\<lambda>(k, v) m. m(k \<mapsto> v)) ss (di_signals d)\<rparr>"
    by (induction ss arbitrary: d) (auto simp: add_signal_def)
  show "fold add_user us d = d\<lparr>di_users := fold (\<lambda>(k, v) m. m(k \<mapsto> v)) us (di_users d)\<rparr>"
    by (induction us arbitrary: d) (auto simp: add_user_def)
  show "fold add_enum es d = d\<lparr>di_enums := fold (\<lambda>(k, v) m. m(k \<mapsto> v)) es (di_enums d)\<rparr>"
    by (induction es arbitrary: d) (auto simp: add_enum_def)
qed

lemma file_of_append: "file_of (xs @ ys) = file_of xs @ file_of ys"
  by (simp add: file_of_def)

lemma header_line:
  "load_lines (file_lines (file_of [''# qspy dictionary''] @ s)) d = load_lines (file_lines s) d"
proof -
  have "\<not> trailing_white ''dictionary''" by (simp add: graphic_end)
  then have n: "name_line ''dictionary''" by (simp add: name_line_ascii)
  have h: "''# qspy dictionary'' = ''# qspy'' @ CHR '' '' # ''dictionary''" by simp
  note e = entry_line [OF n, of "''# qspy''", folded h]
  have "file_lines (file_of [''# qspy dictionary''] @ s) = ''# qspy dictionary'' # file_lines s"
    using file_lines_line [of "''# qspy dictionary''" s] e(3,4) by (simp add: file_of_def newline_def)
  then show ?thesis using e(1,2) by (simp add: load_line_def Let_def)
qed

lemma load_saved:
  assumes "names_ok e"
  shows "load_lines (file_lines (save_dictionaries e)) d =
    (True, fold add_enum (de_enums e) (fold add_user (de_users e) (fold add_signal (de_signals e)
       (fold add_function (de_functions e) (fold add_object (de_objects e) d)))))"
proof -
  note n = assms [unfolded names_ok_def]
  have "file_lines (file_of (map obj_line (de_objects e) @ map fun_line (de_functions e) @
      map sig_line (de_signals e) @ map usr_line (de_users e) @ map enum_line (de_enums e)) @ []) =
    map obj_line (de_objects e) @ map fun_line (de_functions e) @ map sig_line (de_signals e) @
      map usr_line (de_users e) @ map enum_line (de_enums e)"
    unfolding file_of_append append.assoc
    using n ed.section_lines [of "de_enums e" "[]"] by (simp only: od.section_lines fd.section_lines sd.section_lines ud.section_lines
        ed.section_lines file_lines_Nil append_Nil2)
  then show ?thesis
    using n unfolding save_dictionaries_def file_of_append [of "[_]"] header_line append_Nil2
    by (simp add: od.load_section fd.load_section sd.load_section ud.load_section
        ed.load_section [where ls = "[]", simplified])
qed

text \<open>
  C32: Dictionaries survive a restart of the host: whatever order the hash maps are saved in, loading
  the saved file into an interpreter without names gives back every dictionary, for names that are
  not empty, hold no line break and do not end with white space, and for objects, functions and
  user records hold no space either; nothing else of the interpreter changes.
\<close>

theorem dictionary_file_round_trip:
  assumes "entries_of d e" "names_ok e" "fi_dict fi = Dictionaries_default"
  shows "load_dictionaries (save_dictionaries e) fi = (True, fi\<lparr>fi_dict := d\<rparr>)"
  using assms(1) unfolding load_dictionaries_def load_saved [OF assms(2)] assms(3)
  by (simp add: entries_of_def enumerates_def fold_add fold_updates Dictionaries_default_def)

definition demo_entries :: DictEntries where
  "demo_entries = \<lparr>de_objects = [(32, ''l_blinky'')], de_functions = [], de_signals = [((4, 0), ''TIME OUT'')],
     de_users = [(101, ''PHILO'')], de_enums = []\<rparr>"

definition demo_dict :: Dictionaries where
  "demo_dict = \<lparr>di_objects = [32 \<mapsto> ''l_blinky''], di_functions = Map.empty, di_signals = [(4, 0) \<mapsto> ''TIME OUT''],
     di_users = [101 \<mapsto> ''PHILO''], di_enums = Map.empty\<rparr>"

lemma demo_names_ok: "names_ok demo_entries"
  by (simp add: names_ok_def demo_entries_def name_word_def name_line_ascii graphic_end)

lemma demo_entries_of: "entries_of demo_dict demo_entries"
  by (simp add: entries_of_def enumerates_def demo_dict_def demo_entries_def)

theorem dictionary_file_round_trip_witness:
  "load_dictionaries (save_dictionaries demo_entries) FrameInterpreter_new = (True, FrameInterpreter_new\<lparr>fi_dict := demo_dict\<rparr>)"
  by (rule dictionary_file_round_trip [OF demo_entries_of demo_names_ok]) (simp add: FrameInterpreter_new_def)

text \<open>
  The restriction is real: a name with a space splits into four parts, no arm of the match takes
  them, and the object is forgotten.
\<close>

lemma object_name_with_space_lost:
  assumes "name_line (u @ CHR '' '' # v)" "CHR '' '' \<notin> set u"
  shows "load_line (obj_line (a, u @ CHR '' '' # v)) d = d"
  using load_word_line(1) [OF assms(1), of "''OBJ''" "''0x'' @ hex_w 16 (unat a)" d] line_prefixes(1) assms(2)
    split_name [of "''OBJ''" "''0x'' @ hex_w 16 (unat a)" u v]
  by (simp add: line_shapes hex_text load_parts_def)

end
