(* ===== verification/Console.thy ===== *)
theory Console
  imports DictFile QsRx
begin

text \<open>
  The host tool around the decoder and the interpreter: the output sinks (\<open>tools/qspy/src/output.rs\<close>),
  the front-end server for attached viewers (\<open>frontend.rs\<close>), and the console's input loop, command
  parser and dispatcher (\<open>runtime.rs\<close>). Sockets, files and the terminal are their contents: what was
  written to a file or printed, which datagrams were sent, what a read returned. Threads only feed the
  queues the loop drains. The command line and the opening of devices are left out.
\<close>

section \<open>Output\<close>

text \<open>An open file is what was written to it since it was opened.\<close>

record OutputSinks =
  os_quiet :: bool
  os_color :: bool
  os_text_out :: "string option"
  os_bin_out :: "u8 list option"

definition OutputSinks_new :: "bool \<Rightarrow> bool \<Rightarrow> OutputSinks" where
  "OutputSinks_new quiet color = \<lparr>os_quiet = quiet, os_color = color, os_text_out = None, os_bin_out = None\<rparr>"

definition ansi :: "string \<Rightarrow> string" where
  "ansi code = CHR 0x1B # ''['' @ code @ ''m''"

definition starts_with :: "string \<Rightarrow> string \<Rightarrow> bool" where
  "starts_with p s \<longleftrightarrow> take (length p) s = p"

definition keyword_color :: "string \<Rightarrow> string" where
  "keyword_color kw =
     (if list_ex (\<lambda>p. starts_with p kw) [''=>Intern'', ''===>Tran'', ''Init===>'', ''=>Ignore'', ''=>UnHndl''] then ansi ''32''
      else if list_ex (\<lambda>p. starts_with p kw) [''Disp===>'', ''AO-''] then ansi ''33''
      else if starts_with ''Sch-'' kw then ansi ''34''
      else if list_ex (\<lambda>p. starts_with p kw) [''TE'', ''QF-'', ''MP-'', ''EP-'', ''QS-'', ''New-Ref'', ''EQ-''] then ansi ''35''
      else if list_ex (\<lambda>p. starts_with p kw) [''=ASSERT='', ''rec=''] then ansi ''31''
      else ansi ''97'')"

definition trim_start :: "string \<Rightarrow> string" where
  "trim_start s = trim_with (map chars white_spaces) s"

definition is_ascii_digit :: "char \<Rightarrow> bool" where
  "is_ascii_digit c \<longleftrightarrow> 48 \<le> (of_char c :: nat) \<and> (of_char c :: nat) \<le> 57"

definition colorize_line :: "string \<Rightarrow> string" where
  "colorize_line l =
     (if starts_with ''===RTC===>'' l then ansi ''1'' @ ansi ''36'' @ take 10 l @ ansi ''0'' @ drop 10 l
      else if starts_with blank l \<or> starts_with ''########## '' l then ansi ''2'' @ l @ ansi ''0''
      else if length l \<ge> 11 \<and> list_all is_ascii_digit (take 10 l) \<and> l ! 10 = CHR '' ''
      then ansi ''36'' @ take 10 l @ ansi ''0'' @ keyword_color (trim_start (drop 10 l)) @ drop 10 l @ ansi ''0''
      else l)"

text \<open>The line printed on the console, if any, and the sinks with the line in the text file.\<close>

definition write_line :: "string \<Rightarrow> OutputSinks \<Rightarrow> string list \<times> OutputSinks" where
  "write_line l s =
     (if os_quiet s then [] else [if os_color s then colorize_line l else l],
      s\<lparr>os_text_out := map_option (\<lambda>f. f @ l @ newline) (os_text_out s)\<rparr>)"

definition write_raw :: "u8 list \<Rightarrow> OutputSinks \<Rightarrow> OutputSinks" where
  "write_raw bs s = s\<lparr>os_bin_out := map_option (\<lambda>f. f @ bs) (os_bin_out s)\<rparr>"

text \<open>\<open>ok\<close> says whether the file can be opened.\<close>

definition open_text :: "bool \<Rightarrow> OutputSinks \<Rightarrow> bool \<times> OutputSinks" where
  "open_text ok s = (ok, if ok then s\<lparr>os_text_out := Some []\<rparr> else s)"

definition open_binary :: "bool \<Rightarrow> OutputSinks \<Rightarrow> bool \<times> OutputSinks" where
  "open_binary ok s = (ok, if ok then s\<lparr>os_bin_out := Some []\<rparr> else s)"

definition toggle_text :: "bool \<Rightarrow> OutputSinks \<Rightarrow> OutputSinks" where
  "toggle_text ok s = (if os_text_out s \<noteq> None then s\<lparr>os_text_out := None\<rparr> else snd (open_text ok s))"

definition toggle_quiet :: "OutputSinks \<Rightarrow> bool \<times> OutputSinks" where
  "toggle_quiet s = (\<not> os_quiet s, s\<lparr>os_quiet := \<not> os_quiet s\<rparr>)"

definition toggle_binary :: "bool \<Rightarrow> OutputSinks \<Rightarrow> OutputSinks" where
  "toggle_binary ok s = (if os_bin_out s \<noteq> None then s\<lparr>os_bin_out := None\<rparr> else snd (open_binary ok s))"

fun month_of :: "nat list \<Rightarrow> nat \<Rightarrow> nat \<Rightarrow> nat \<times> nat" where
  "month_of [] doy month = (month, doy)"
| "month_of (d # ds) doy month = (if doy < d then (month, doy) else month_of ds (doy - d) (month + 1))"

definition timestamped_name :: "nat \<Rightarrow> string \<Rightarrow> string" where
  "timestamped_name secs ext =
     (let s = secs mod 60; m = secs div 60 mod 60; h = secs div 3600 mod 24; days = secs div 86400;
          year400 = days div 146097; r1 = days mod 146097; year100 = r1 div 36524; r2 = r1 mod 36524;
          year4 = r2 div 1461; r3 = r2 mod 1461; year1 = r3 div 365;
          year = 1970 + year400 * 400 + year100 * 100 + year4 * 4 + year1;
          is_leap = (4 dvd year \<and> \<not> 100 dvd year \<or> 400 dvd year);
          (month, doy) = month_of [31, if is_leap then 29 else 28, 31, 30, 31, 30, 31, 31, 30, 31, 30, 31] (r3 mod 365) 1
      in ''qspy'' @ dec_w 2 (year mod 100) @ dec_w 2 month @ dec_w 2 (doy + 1) @ ''_'' @ dec_w 2 h @ dec_w 2 m @ dec_w 2 s @
         ''.'' @ ext)"

section \<open>Front ends\<close>

definition QSPY_ATTACH :: u8 where "QSPY_ATTACH = 128"
definition QSPY_DETACH :: u8 where "QSPY_DETACH = 129"
definition QSPY_SAVE_DICT :: u8 where "QSPY_SAVE_DICT = 130"
definition QSPY_TEXT_OUT :: u8 where "QSPY_TEXT_OUT = 131"
definition QSPY_BIN_OUT :: u8 where "QSPY_BIN_OUT = 132"
definition QSPY_SEND_EVENT :: u8 where "QSPY_SEND_EVENT = 135"
definition QSPY_SEND_AO_FILTER :: u8 where "QSPY_SEND_AO_FILTER = 136"
definition QSPY_SEND_CURR_OBJ :: u8 where "QSPY_SEND_CURR_OBJ = 137"
definition QSPY_SEND_COMMAND :: u8 where "QSPY_SEND_COMMAND = 138"
definition QSPY_SEND_TEST_PROBE :: u8 where "QSPY_SEND_TEST_PROBE = 139"
definition QSPY_CLEAR_SCREEN :: u8 where "QSPY_CLEAR_SCREEN = 140"
definition QSPY_SHOW_NOTE :: u8 where "QSPY_SHOW_NOTE = 141"
definition CHANNEL_BINARY :: u8 where "CHANNEL_BINARY = 0x01"
definition CHANNEL_TEXT :: u8 where "CHANNEL_TEXT = 0x02"

lemmas qspy_ids = QSPY_ATTACH_def QSPY_DETACH_def QSPY_SAVE_DICT_def QSPY_TEXT_OUT_def QSPY_BIN_OUT_def
  QSPY_SEND_EVENT_def QSPY_SEND_AO_FILTER_def QSPY_SEND_CURR_OBJ_def QSPY_SEND_COMMAND_def QSPY_SEND_TEST_PROBE_def
  QSPY_CLEAR_SCREEN_def QSPY_SHOW_NOTE_def CHANNEL_BINARY_def CHANNEL_TEXT_def

datatype FrontendCmd =
  FeCommand u8 u32 u32 u32 | FeSaveDict | FeClearScreen | FeInfo | FeToggleTextOut | FeToggleBinOut |
  FeShowNote string | FeRawQsRx u8 "u8 list"

record 'a Client =
  cl_addr :: 'a
  cl_channels :: u8
  cl_seq :: u8

text \<open>The socket is the datagrams sent on it.\<close>

record 'a FrontendServer =
  fe_clients :: "'a Client list"
  fe_sent :: "('a \<times> u8 list) list"

definition FrontendServer_bind :: "'a FrontendServer" where
  "FrontendServer_bind = \<lparr>fe_clients = [], fe_sent = []\<rparr>"

text \<open>\<open>up\<close> says to which addresses a datagram can be sent; a client it fails for is removed.\<close>

fun forward_loop :: "('a \<Rightarrow> bool) \<Rightarrow> u8 \<Rightarrow> (u8 \<Rightarrow> u8 list) \<Rightarrow> 'a Client list \<Rightarrow> 'a Client list \<times> ('a \<times> u8 list) list" where
  "forward_loop up channel pkt [] = ([], [])"
| "forward_loop up channel pkt (c # cs) =
     (let (cs', sent) = forward_loop up channel pkt cs
      in if and (cl_channels c) channel = 0 then (c # cs', sent)
         else if up (cl_addr c) then (c\<lparr>cl_seq := cl_seq c + 1\<rparr> # cs', (cl_addr c, pkt (cl_seq c)) # sent)
         else (cs', sent))"

definition forward_frame :: "('a \<Rightarrow> bool) \<Rightarrow> u8 \<Rightarrow> u8 list \<Rightarrow> 'a FrontendServer \<Rightarrow> 'a FrontendServer" where
  "forward_frame up record_type payload fe =
     (let (cs, sent) = forward_loop up CHANNEL_BINARY (\<lambda>sq. [sq, record_type] @ payload) (fe_clients fe)
      in fe\<lparr>fe_clients := cs, fe_sent := fe_sent fe @ sent\<rparr>)"

definition forward_text :: "('a \<Rightarrow> bool) \<Rightarrow> string \<Rightarrow> 'a FrontendServer \<Rightarrow> 'a FrontendServer" where
  "forward_text up l fe =
     (let (cs, sent) = forward_loop up CHANNEL_TEXT (\<lambda>sq. [sq, 0x00] @ bytes l @ [0x0A]) (fe_clients fe)
      in fe\<lparr>fe_clients := cs, fe_sent := fe_sent fe @ sent\<rparr>)"

fun attach :: "'a \<Rightarrow> u8 \<Rightarrow> 'a Client list \<Rightarrow> 'a Client list" where
  "attach peer ch [] = [\<lparr>cl_addr = peer, cl_channels = ch, cl_seq = 0\<rparr>]"
| "attach peer ch (c # cs) = (if cl_addr c = peer then c\<lparr>cl_channels := ch\<rparr> # cs else c # attach peer ch cs)"

definition trim_nul :: "string \<Rightarrow> string" where
  "trim_nul s = rev (dropWhile (\<lambda>c. c = CHR 0x00) (rev s))"

definition handle_packet :: "('a \<Rightarrow> bool) \<Rightarrow> u8 list \<Rightarrow> 'a \<Rightarrow> 'a FrontendServer \<Rightarrow> FrontendCmd list \<times> 'a FrontendServer" where
  "handle_packet up dat peer fe =
     (if length dat < 2 then ([], fe)
      else let fe_seq = dat ! 0; rec = dat ! 1; payload = drop 2 dat
           in if rec = QSPY_ATTACH
              then ([FeInfo],
                    fe\<lparr>fe_clients := attach peer (case payload of [] \<Rightarrow> CHANNEL_BINARY | b # _ \<Rightarrow> b) (fe_clients fe),
                       fe_sent := fe_sent fe @ (if up peer then [(peer, [fe_seq, QSPY_ATTACH])] else [])\<rparr>)
              else if rec = QSPY_DETACH then ([], fe\<lparr>fe_clients := filter (\<lambda>c. cl_addr c \<noteq> peer) (fe_clients fe)\<rparr>)
              else if rec = QSPY_SAVE_DICT then ([FeSaveDict], fe)
              else if rec = QSPY_CLEAR_SCREEN then ([FeClearScreen], fe)
              else if rec = QSPY_TEXT_OUT then ([FeToggleTextOut], fe)
              else if rec = QSPY_BIN_OUT then ([FeToggleBinOut], fe)
              else if rec = QSPY_SHOW_NOTE then ([FeShowNote (trim_nul (chars (from_utf8_lossy payload)))], fe)
              else if rec = QSPY_SEND_EVENT then ([FeRawQsRx 16 payload], fe)
              else if rec = QSPY_SEND_AO_FILTER then ([FeRawQsRx 12 payload], fe)
              else if rec = QSPY_SEND_CURR_OBJ then ([FeRawQsRx 13 payload], fe)
              else if rec = QSPY_SEND_TEST_PROBE then ([FeRawQsRx 9 payload], fe)
              else if rec = QSPY_SEND_COMMAND \<and> length payload \<ge> 13
              then ([FeCommand (payload ! 0) (of_le (take 4 (drop 1 payload))) (of_le (take 4 (drop 5 payload)))
                       (of_le (take 4 (drop 9 payload)))], fe)
              else if rec < 128 then ([FeRawQsRx rec payload], fe)
              else ([], fe))"

text \<open>The datagrams waiting on the socket.\<close>

fun FrontendServer_poll :: "('a \<Rightarrow> bool) \<Rightarrow> ('a \<times> u8 list) list \<Rightarrow> 'a FrontendServer \<Rightarrow> FrontendCmd list \<times> 'a FrontendServer" where
  "FrontendServer_poll up [] fe = ([], fe)"
| "FrontendServer_poll up ((peer, dat) # ds) fe =
     (let (cs, fe1) = handle_packet up dat peer fe; (cs', fe2) = FrontendServer_poll up ds fe1 in (cs @ cs', fe2))"

section \<open>Commands\<close>

datatype UserCmd =
  UInfo | UReset | UTick u8 | USendCommand u8 u32 u32 u32 | USaveDict string | UClearScreen | UToggleQuiet | UHelp |
  UToggleTextOut | UToggleBinOut | UCustom string | UQuit

text \<open>A key in raw mode; the clock names a saved dictionary.\<close>

definition key :: "char list \<Rightarrow> u8 \<Rightarrow> bool" where
  "key cs b \<longleftrightarrow> char_of (unat b) \<in> set cs"

text \<open>A byte as a character, encoded in UTF-8.\<close>

definition latin1 :: "u8 \<Rightarrow> string" where
  "latin1 b = chars (if b < 0x80 then [b] else [or 0xC0 (drop_bit 6 b), or 0x80 (and b 0x3F)])"

definition map_raw_key :: "nat \<Rightarrow> u8 \<Rightarrow> bool \<Rightarrow> UserCmd option" where
  "map_raw_key secs b has_custom =
     (if key ''Xx'' b \<or> b = 0x1B then Some UQuit
      else if key ''Q'' b then Some UToggleQuiet
      else if key ''Cc'' b then Some UClearScreen
      else if key ''Hh?'' b then Some UHelp
      else if key ''Oo'' b then Some UToggleTextOut
      else if key ''SsBb'' b then Some UToggleBinOut
      else if key ''Rr'' b then Some UReset
      else if key ''Ee'' b then Some (UCustom (latin1 b))
      else if key ''Ii'' b then Some UInfo
      else if key ''Tt'' b then Some (UTick 0)
      else if key ''Uu'' b then Some (UTick 1)
      else if key ''Dd'' b then Some (USaveDict (timestamped_name secs ''dic''))
      else if has_custom then Some (UCustom (latin1 b))
      else None)"

definition parse_or_0 :: "string list \<Rightarrow> 'a::len word" where
  "parse_or_0 ps = (case ps of [] \<Rightarrow> 0 | s # _ \<Rightarrow> (case from_str_radix 10 s of Some v \<Rightarrow> v | None \<Rightarrow> 0))"

definition parse_keyboard_cmd :: "nat \<Rightarrow> string \<Rightarrow> (string \<times> u8) list \<Rightarrow> bool \<Rightarrow> UserCmd option" where
  "parse_keyboard_cmd secs l cmd_aliases has_custom =
     (let parts = splitn 5 l; word = hd parts; args = tl parts
      in case find (\<lambda>(alias, i). alias = word) cmd_aliases of
           Some (_, i) \<Rightarrow> Some (USendCommand i 0 0 0)
         | None \<Rightarrow>
             if word = ''r'' \<or> word = ''reset'' then Some UReset
             else if (word = ''er'' \<or> word = ''esp-reset'' \<or> word = ''board-reset'' \<or> word = ''hard-reset'') \<and> has_custom
             then Some (UCustom word)
             else if word = ''i'' \<or> word = ''info'' then Some UInfo
             else if word = ''t'' \<or> word = ''tick'' then Some (UTick (parse_or_0 args))
             else if word = ''u'' then Some (UTick 1)
             else if word = ''d'' \<or> word = ''dict'' then
               (let p = (case args of [] \<Rightarrow> [] | s # _ \<Rightarrow> trim s)
                in Some (USaveDict (if p = [] then timestamped_name secs ''dic'' else p)))
             else if word = ''c'' \<or> word = ''cmd'' then
               (case args of
                  [] \<Rightarrow> None
                | s # ps \<Rightarrow> map_option (\<lambda>i. USendCommand i (parse_or_0 ps) (parse_or_0 (drop 1 ps)) (parse_or_0 (drop 2 ps)))
                             (from_str_radix 10 s))
             else if word = ''cls'' then Some UClearScreen
             else if word = ''quiet'' then Some UToggleQuiet
             else if word = ''help'' then Some UHelp
             else if word = ''text'' then Some UToggleTextOut
             else if word = ''bin'' then Some UToggleBinOut
             else if word = ''q'' \<or> word = ''quit'' then Some UQuit
             else if word = [] then None
             else if has_custom then Some (UCustom word) else None)"

text \<open>The commands the keyboard thread passes on for the lines, or in raw mode the keys, it reads.\<close>

fun keyboard_loop_line :: "nat \<Rightarrow> (string \<times> u8) list \<Rightarrow> bool \<Rightarrow> string list \<Rightarrow> UserCmd list" where
  "keyboard_loop_line secs aliases custom [] = []"
| "keyboard_loop_line secs aliases custom (l # ls) =
     (case parse_keyboard_cmd secs (trim l) aliases custom of
        Some UQuit \<Rightarrow> [UQuit]
      | Some c \<Rightarrow> c # keyboard_loop_line secs aliases custom ls
      | None \<Rightarrow> keyboard_loop_line secs aliases custom ls)"

fun keyboard_loop_raw :: "nat \<Rightarrow> bool \<Rightarrow> u8 list \<Rightarrow> UserCmd list" where
  "keyboard_loop_raw secs custom [] = []"
| "keyboard_loop_raw secs custom (b # bs) =
     (case map_raw_key secs b custom of
        Some UQuit \<Rightarrow> [UQuit]
      | Some c \<Rightarrow> c # keyboard_loop_raw secs custom bs
      | None \<Rightarrow> keyboard_loop_raw secs custom bs)"

section \<open>The console\<close>

text \<open>
  What the console depends on: which front ends can be reached, whether the write to the target
  and the opening of a file succeed, the clock, the order a hash map is saved in, and the project's
  own command handler.
\<close>

record 'a Env =
  en_up :: "'a \<Rightarrow> bool"
  en_write :: bool
  en_open :: bool
  en_secs :: nat
  en_entries :: "Dictionaries \<Rightarrow> DictEntries"
  en_custom :: "(string \<Rightarrow> CommandSender option \<Rightarrow> bool \<times> CommandSender option) option"

text \<open>Messages about the console itself are left out of what it prints.\<close>

record 'a Host =
  ho_decoder :: HdlcDecoder
  ho_interp :: FrameInterpreter
  ho_sinks :: OutputSinks
  ho_frontend :: "'a FrontendServer option"
  ho_sender :: "CommandSender option"
  ho_console :: "string list"
  ho_saved :: "(string \<times> string) list"

definition try_send :: "bool \<Rightarrow> (CommandSender \<Rightarrow> CommandSender) \<Rightarrow> CommandSender option \<Rightarrow> CommandSender option" where
  "try_send ok f s = (case s of None \<Rightarrow> None | Some c \<Rightarrow> if ok then Some (f c) else None)"

definition on_sender :: "'a Env \<Rightarrow> (CommandSender \<Rightarrow> CommandSender) \<Rightarrow> 'a Host \<Rightarrow> 'a Host" where
  "on_sender en f h = h\<lparr>ho_sender := try_send (en_write en) f (ho_sender h)\<rparr>"

definition print_line :: "string \<Rightarrow> 'a Host \<Rightarrow> 'a Host" where
  "print_line l h =
     (let (out, s) = write_line l (ho_sinks h) in h\<lparr>ho_sinks := s, ho_console := ho_console h @ out\<rparr>)"

definition show_line :: "('a \<Rightarrow> bool) \<Rightarrow> string \<Rightarrow> 'a Host \<Rightarrow> 'a Host" where
  "show_line up l h = (print_line l h)\<lparr>ho_frontend := map_option (forward_text up l) (ho_frontend h)\<rparr>"

definition process_frame :: "('a \<Rightarrow> bool) \<Rightarrow> QsFrame \<Rightarrow> 'a Host \<Rightarrow> 'a Host" where
  "process_frame up fr h =
     (let (fi, ls) = interpret_frame fr (ho_interp h);
          h1 = fold (show_line up) ls (h\<lparr>ho_interp := fi\<rparr>)
      in h1\<lparr>ho_frontend := map_option (forward_frame up (qf_record_type fr) (qf_payload fr)) (ho_frontend h1)\<rparr>)"

definition process_result :: "('a \<Rightarrow> bool) \<Rightarrow> DecodeError + QsFrame \<Rightarrow> 'a Host \<Rightarrow> 'a Host" where
  "process_result up r h = (case r of Inl e \<Rightarrow> h | Inr fr \<Rightarrow> process_frame up fr h)"

definition process_chunk :: "('a \<Rightarrow> bool) \<Rightarrow> u8 list \<Rightarrow> 'a Host \<Rightarrow> 'a Host" where
  "process_chunk up raw h =
     (let (d, rs) = HdlcDecoder_push_bytes raw (ho_decoder h)
      in fold (process_result up) rs (h\<lparr>ho_sinks := write_raw raw (ho_sinks h), ho_decoder := d\<rparr>))"

text \<open>A user's command, and whether the console quits.\<close>

definition dispatch_cmd :: "'a Env \<Rightarrow> UserCmd \<Rightarrow> 'a Host \<Rightarrow> bool \<times> 'a Host" where
  "dispatch_cmd en c h =
     (case c of
        UInfo \<Rightarrow> (False, on_sender en send_info h)
      | UReset \<Rightarrow> (False, on_sender en send_reset h)
      | UTick n \<Rightarrow> (False, on_sender en (send_tick n) h)
      | USendCommand i p1 p2 p3 \<Rightarrow> (False, on_sender en (send_command i p1 p2 p3) h)
      | USaveDict p \<Rightarrow>
          (False, if en_open en then h\<lparr>ho_saved := ho_saved h @ [(p, save_dictionaries (en_entries en (fi_dict (ho_interp h))))]\<rparr>
                  else h)
      | UClearScreen \<Rightarrow> (False, h)
      | UToggleQuiet \<Rightarrow> (False, h\<lparr>ho_sinks := snd (toggle_quiet (ho_sinks h))\<rparr>)
      | UHelp \<Rightarrow> (False, h)
      | UToggleTextOut \<Rightarrow> (False, h\<lparr>ho_sinks := toggle_text (en_open en) (ho_sinks h)\<rparr>)
      | UToggleBinOut \<Rightarrow> (False, h\<lparr>ho_sinks := toggle_binary (en_open en) (ho_sinks h)\<rparr>)
      | UCustom l \<Rightarrow> (False, case en_custom en of None \<Rightarrow> h | Some f \<Rightarrow> h\<lparr>ho_sender := snd (f l (ho_sender h))\<rparr>)
      | UQuit \<Rightarrow> (True, h))"

definition dispatch_fe_cmd :: "'a Env \<Rightarrow> FrontendCmd \<Rightarrow> 'a Host \<Rightarrow> 'a Host" where
  "dispatch_fe_cmd en c h =
     (case c of
        FeCommand i p1 p2 p3 \<Rightarrow> on_sender en (send_command i p1 p2 p3) h
      | FeRawQsRx i payload \<Rightarrow> on_sender en (send_raw i payload) h
      | FeInfo \<Rightarrow> on_sender en send_info h
      | FeToggleTextOut \<Rightarrow> h\<lparr>ho_sinks := toggle_text (en_open en) (ho_sinks h)\<rparr>
      | FeToggleBinOut \<Rightarrow> h\<lparr>ho_sinks := toggle_binary (en_open en) (ho_sinks h)\<rparr>
      | FeShowNote note \<Rightarrow> print_line (blank @ note) h
      | FeSaveDict \<Rightarrow> h
      | FeClearScreen \<Rightarrow> h)"

fun drain_keyboard :: "'a Env \<Rightarrow> UserCmd list \<Rightarrow> 'a Host \<Rightarrow> bool \<times> 'a Host" where
  "drain_keyboard en [] h = (False, h)"
| "drain_keyboard en (c # cs) h =
     (let (quit, h') = dispatch_cmd en c h in if quit then (True, h') else drain_keyboard en cs h')"

definition poll_commands :: "'a Env \<Rightarrow> UserCmd list \<Rightarrow> ('a \<times> u8 list) list \<Rightarrow> 'a Host \<Rightarrow> bool \<times> 'a Host" where
  "poll_commands en kbd dgrams h =
     (let (quit, h1) = drain_keyboard en kbd h
      in if quit then (True, h1)
         else case ho_frontend h1 of
                None \<Rightarrow> (False, h1)
              | Some fe \<Rightarrow>
                  let (cs, fe') = FrontendServer_poll (en_up en) dgrams fe
                  in (False, fold (dispatch_fe_cmd en) cs (h1\<lparr>ho_frontend := Some fe'\<rparr>)))"

text \<open>
  One pass of the input loop: what the read returned, the commands typed and the datagrams that
  arrived meanwhile.
\<close>

datatype ReadResult = ReadBytes "u8 list" | ReadEof | ReadInterrupted | ReadError

fun reader_loop :: "'a Env \<Rightarrow> (ReadResult \<times> UserCmd list \<times> ('a \<times> u8 list) list) list \<Rightarrow> 'a Host \<Rightarrow> 'a Host" where
  "reader_loop en [] h = h"
| "reader_loop en ((r, kbd, dgrams) # rest) h =
     (case r of
        ReadEof \<Rightarrow> h
      | ReadError \<Rightarrow> h
      | ReadInterrupted \<Rightarrow> reader_loop en rest h
      | ReadBytes bs \<Rightarrow>
          (let (quit, h') = poll_commands en kbd dgrams (process_chunk (en_up en) bs h)
           in if quit then h' else reader_loop en rest h'))"

definition run_reader :: "'a Env \<Rightarrow> (ReadResult \<times> UserCmd list \<times> ('a \<times> u8 list) list) list \<Rightarrow> 'a Host \<Rightarrow> 'a Host" where
  "run_reader en ins h = reader_loop en ins (h\<lparr>ho_decoder := HdlcDecoder_new\<rparr>)"

text \<open>Telemetry over UDP: a read that times out still polls the commands.\<close>

datatype UdpResult = UdpDatagram "u8 list" | UdpTimeout | UdpInterrupted | UdpError

fun udp_loop :: "'a Env \<Rightarrow> (UdpResult \<times> UserCmd list \<times> ('a \<times> u8 list) list) list \<Rightarrow> 'a Host \<Rightarrow> 'a Host" where
  "udp_loop en [] h = h"
| "udp_loop en ((r, kbd, dgrams) # rest) h =
     (case r of
        UdpError \<Rightarrow> h
      | UdpInterrupted \<Rightarrow> udp_loop en rest h
      | _ \<Rightarrow>
          (let h1 = (case r of UdpDatagram bs \<Rightarrow> process_chunk (en_up en) bs h | _ \<Rightarrow> h);
               (quit, h') = poll_commands en kbd dgrams h1
           in if quit then h' else udp_loop en rest h'))"

definition run_udp :: "'a Env \<Rightarrow> (UdpResult \<times> UserCmd list \<times> ('a \<times> u8 list) list) list \<Rightarrow> 'a Host \<Rightarrow> 'a Host" where
  "run_udp en ins h = udp_loop en ins (h\<lparr>ho_decoder := HdlcDecoder_new\<rparr>)"

end
