(* ===== verification/ConsoleSpec.thy ===== *)
theory ConsoleSpec
  imports Console
begin

text \<open>
  Properties of the console: how a byte stream is cut into reads does not matter, the saved stream
  replays to the same session, the text file holds exactly the interpreter's lines, attached front
  ends receive numbered datagrams, and colours never change a line's text.
\<close>

section \<open>Streams and chunks\<close>

text \<open>The raw bytes and the decoder of a host do not influence how a decoded frame is shown.\<close>

definition with_raw :: "u8 list \<Rightarrow> HdlcDecoder \<Rightarrow> 'a Host \<Rightarrow> 'a Host" where
  "with_raw bs d h = h\<lparr>ho_sinks := write_raw bs (ho_sinks h), ho_decoder := d\<rparr>"

lemma print_line_raw: "print_line l (with_raw bs d h) = with_raw bs d (print_line l h)"
  by (simp add: print_line_def write_line_def with_raw_def write_raw_def)

lemma show_line_raw: "show_line up l (with_raw bs d h) = with_raw bs d (show_line up l h)"
  unfolding show_line_def print_line_raw by (simp add: with_raw_def)

lemma show_lines_raw: "fold (show_line up) ls (with_raw bs d h) = with_raw bs d (fold (show_line up) ls h)"
  by (induction ls arbitrary: h) (simp_all add: show_line_raw)

lemma process_result_raw: "process_result up r (with_raw bs d h) = with_raw bs d (process_result up r h)"
proof (cases r)
  case (Inr fr)
  obtain fi ls where i: "interpret_frame fr (ho_interp h) = (fi, ls)" by fastforce
  have e: "ho_interp (with_raw bs d h) = ho_interp h"
    "(with_raw bs d h)\<lparr>ho_interp := fi\<rparr> = with_raw bs d (h\<lparr>ho_interp := fi\<rparr>)" by (simp_all add: with_raw_def)
  show ?thesis
    unfolding process_result_def process_frame_def Inr e(1) i Let_def prod.case sum.case e(2) show_lines_raw
    by (simp add: with_raw_def)
qed (simp add: process_result_def)

lemma process_results_raw:
  "fold (process_result up) rs (with_raw bs d h) = with_raw bs d (fold (process_result up) rs h)"
  by (induction rs arbitrary: h) (simp_all add: process_result_raw)

lemma process_chunk_eq:
  "process_chunk up raw h =
     (let (d, rs) = HdlcDecoder_push_bytes raw (ho_decoder h) in with_raw raw d (fold (process_result up) rs h))"
  by (simp add: process_chunk_def with_raw_def [symmetric] process_results_raw split_beta Let_def)

lemma with_raw_twice: "with_raw ys d' (with_raw xs d h) = with_raw (xs @ ys) d' h"
  by (cases "os_bin_out (ho_sinks h)") (simp_all add: with_raw_def write_raw_def)

lemma process_chunk_append: "process_chunk up (xs @ ys) h = process_chunk up ys (process_chunk up xs h)"
proof -
  obtain d rs where x: "HdlcDecoder_push_bytes xs (ho_decoder h) = (d, rs)" by fastforce
  obtain d' rs' where y: "HdlcDecoder_push_bytes ys d = (d', rs')" by fastforce
  have "HdlcDecoder_push_bytes (xs @ ys) (ho_decoder h) = (d', rs @ rs')"
    using x y by (simp add: HdlcDecoder_push_bytes_def feed_all_append)
  moreover have "ho_decoder (with_raw xs d k) = d" for k :: "'a Host" by (simp add: with_raw_def)
  ultimately show ?thesis
    unfolding process_chunk_eq [of up xs] process_chunk_eq [of up ys] process_chunk_eq [of up "xs @ ys"]
    by (simp add: x y process_results_raw with_raw_twice)
qed

lemma process_chunk_Nil: "process_chunk up [] h = h"
  by (cases "os_bin_out (ho_sinks h)") (simp_all add: process_chunk_eq HdlcDecoder_push_bytes_def with_raw_def write_raw_def)

lemma process_chunks: "fold (process_chunk up) cs h = process_chunk up (concat cs) h"
  by (induction cs arbitrary: h) (simp_all add: process_chunk_Nil process_chunk_append)

section \<open>The text file\<close>

text \<open>The lines of a sequence of frames, interpreted one after the other.\<close>

fun interpret_frames :: "QsFrame list \<Rightarrow> FrameInterpreter \<Rightarrow> FrameInterpreter \<times> string list" where
  "interpret_frames [] fi = (fi, [])"
| "interpret_frames (fr # frs) fi =
     (let (fi1, ls) = interpret_frame fr fi; (fi2, ls') = interpret_frames frs fi1 in (fi2, ls @ ls'))"

definition ok_frames :: "(DecodeError + QsFrame) list \<Rightarrow> QsFrame list" where
  "ok_frames rs = concat (map (\<lambda>r. case r of Inl e \<Rightarrow> [] | Inr fr \<Rightarrow> [fr]) rs)"

definition console_view :: "OutputSinks \<Rightarrow> string list \<Rightarrow> string list" where
  "console_view s ls = (if os_quiet s then [] else map (\<lambda>l. if os_color s then colorize_line l else l) ls)"

definition shown :: "string list \<Rightarrow> 'a Host \<Rightarrow> 'a Host \<Rightarrow> bool" where
  "shown ls h h' \<longleftrightarrow> os_text_out (ho_sinks h') = map_option (\<lambda>t. t @ file_of ls) (os_text_out (ho_sinks h)) \<and>
     ho_console h' = ho_console h @ console_view (ho_sinks h) ls \<and>
     os_quiet (ho_sinks h') = os_quiet (ho_sinks h) \<and> os_color (ho_sinks h') = os_color (ho_sinks h)"

lemma shown_trans: "shown ls h h' \<Longrightarrow> shown ls' h' h'' \<Longrightarrow> shown (ls @ ls') h h''"
  by (cases "os_text_out (ho_sinks h)") (auto simp: shown_def console_view_def file_of_append)

lemma shown_Nil: "shown [] h h"
  by (cases "os_text_out (ho_sinks h)") (simp_all add: shown_def console_view_def file_of_def)

lemma show_line_shown: "shown [l] h (show_line up l h)"
  by (simp add: shown_def show_line_def print_line_def write_line_def console_view_def file_of_def)

lemma show_lines_shown: "shown ls h (fold (show_line up) ls h)" "ho_interp (fold (show_line up) ls h) = ho_interp h"
proof -
  show "shown ls h (fold (show_line up) ls h)"
  proof (induction ls arbitrary: h)
    case (Cons l ls)
    from shown_trans [OF show_line_shown Cons] show ?case by simp
  qed (simp add: shown_Nil)
  show "ho_interp (fold (show_line up) ls h) = ho_interp h"
    by (induction ls arbitrary: h) (simp_all add: show_line_def print_line_def write_line_def)
qed

lemma process_frame_shown:
  "ho_interp (process_frame up fr h) = fst (interpret_frame fr (ho_interp h)) \<and>
   shown (snd (interpret_frame fr (ho_interp h))) h (process_frame up fr h)"
proof -
  obtain fi ls where i: "interpret_frame fr (ho_interp h) = (fi, ls)" by fastforce
  have "shown ls (h\<lparr>ho_interp := fi\<rparr>) (fold (show_line up) ls (h\<lparr>ho_interp := fi\<rparr>))" by (rule show_lines_shown)
  then show ?thesis by (simp add: process_frame_def i shown_def show_lines_shown(2) Let_def)
qed

lemma process_results_shown:
  "ho_interp (fold (process_result up) rs h) = fst (interpret_frames (ok_frames rs) (ho_interp h)) \<and>
   shown (snd (interpret_frames (ok_frames rs) (ho_interp h))) h (fold (process_result up) rs h)"
proof (induction rs arbitrary: h)
  case Nil
  then show ?case by (simp add: ok_frames_def shown_Nil)
next
  case (Cons r rs)
  show ?case
  proof (cases r)
    case (Inl e)
    with Cons [of h] show ?thesis by (simp add: ok_frames_def process_result_def)
  next
    case (Inr fr)
    let ?h = "process_frame up fr h"
    from Cons [of ?h] process_frame_shown [of up fr h] Inr show ?thesis
      by (auto simp: ok_frames_def process_result_def split_beta Let_def intro: shown_trans)
  qed
qed

lemma process_chunk_shown:
  assumes "HdlcDecoder_push_bytes raw (ho_decoder h) = (d, rs)"
  shows "ho_interp (process_chunk up raw h) = fst (interpret_frames (ok_frames rs) (ho_interp h))"
    "shown (snd (interpret_frames (ok_frames rs) (ho_interp h))) h (process_chunk up raw h)"
    "os_bin_out (ho_sinks (process_chunk up raw h)) = map_option (\<lambda>f. f @ raw) (os_bin_out (ho_sinks h))"
proof -
  let ?k = "fold (process_result up) rs h"
  have e: "process_chunk up raw h = with_raw raw d ?k" by (simp add: process_chunk_eq assms)
  show "ho_interp (process_chunk up raw h) = fst (interpret_frames (ok_frames rs) (ho_interp h))"
    "shown (snd (interpret_frames (ok_frames rs) (ho_interp h))) h (process_chunk up raw h)"
    using process_results_shown [of up rs h] unfolding e by (simp_all add: with_raw_def write_raw_def shown_def)
  have "os_bin_out (ho_sinks ?k) = os_bin_out (ho_sinks h)"
  proof (induction rs arbitrary: h)
    case (Cons r rs)
    have s: "os_bin_out (ho_sinks (fold (show_line up) ls k)) = os_bin_out (ho_sinks k)" for ls and k :: "'a Host"
      by (induction ls arbitrary: k) (simp_all add: show_line_def print_line_def write_line_def)
    have "os_bin_out (ho_sinks (process_result up r h)) = os_bin_out (ho_sinks h)"
      by (simp add: process_result_def process_frame_def s split_beta Let_def split: sum.splits)
    with Cons show ?case by simp
  qed simp
  then show "os_bin_out (ho_sinks (process_chunk up raw h)) = map_option (\<lambda>f. f @ raw) (os_bin_out (ho_sinks h))"
    unfolding e by (simp add: with_raw_def write_raw_def)
qed

section \<open>Front ends\<close>

text \<open>The addresses of the clients are distinct: attaching twice changes the channels only.\<close>

definition clients_ok :: "'a Client list \<Rightarrow> bool" where
  "clients_ok cs \<longleftrightarrow> distinct (map cl_addr cs)"

lemma attach_addrs: "set (map cl_addr (attach peer ch cs)) = insert peer (set (map cl_addr cs))"
  by (induction cs) auto

lemma attach_ok: "clients_ok cs \<Longrightarrow> clients_ok (attach peer ch cs)"
proof (induction cs)
  case (Cons c cs)
  then show ?case using attach_addrs [of peer ch cs] by (auto simp: clients_ok_def)
qed (simp add: clients_ok_def)

lemma forward_loop_addrs: "set (map cl_addr (fst (forward_loop up ch pkt cs))) \<subseteq> set (map cl_addr cs)"
  by (induction cs) (auto simp: split_beta Let_def)

lemma forward_loop_ok: "clients_ok cs \<Longrightarrow> clients_ok (fst (forward_loop up ch pkt cs))"
proof (induction cs)
  case (Cons c cs)
  then show ?case
    using forward_loop_addrs [of up ch pkt cs] by (auto simp: clients_ok_def split_beta Let_def)
qed (simp add: clients_ok_def)

definition fe_ok :: "'a FrontendServer \<Rightarrow> bool" where
  "fe_ok fe \<longleftrightarrow> clients_ok (fe_clients fe)"

lemma forward_fe_ok: "fe_ok fe \<Longrightarrow> fe_ok (forward_frame up r p fe)" "fe_ok fe \<Longrightarrow> fe_ok (forward_text up l fe)"
  using forward_loop_ok [of "fe_clients fe" up] by (simp_all add: fe_ok_def forward_frame_def forward_text_def split_beta Let_def)

lemma handle_packet_ok: "fe_ok fe \<Longrightarrow> fe_ok (snd (handle_packet up dat peer fe))"
  using attach_ok [of "fe_clients fe" peer]
  by (simp add: fe_ok_def handle_packet_def clients_ok_def distinct_map_filter Let_def)

text \<open>The client of an address, and the datagrams sent to an address.\<close>

definition client_of :: "'a \<Rightarrow> 'a Client list \<Rightarrow> 'a Client option" where
  "client_of a cs = find (\<lambda>c. cl_addr c = a) cs"

definition sent_to :: "'a \<Rightarrow> ('a \<times> u8 list) list \<Rightarrow> u8 list list" where
  "sent_to a ps = map snd (filter (\<lambda>p. fst p = a) ps)"

lemma sent_to_append: "sent_to a (ps @ qs) = sent_to a ps @ sent_to a qs"
  by (simp add: sent_to_def)

lemma forward_loop_none: "a \<notin> set (map cl_addr cs) \<Longrightarrow> sent_to a (snd (forward_loop up ch pkt cs)) = []"
  by (induction cs) (auto simp: sent_to_def split_beta Let_def)

lemma forward_loop_client:
  assumes "clients_ok cs" "client_of a cs = Some c" "up a"
  shows "client_of a (fst (forward_loop up ch pkt cs)) =
      Some (if and (cl_channels c) ch = 0 then c else c\<lparr>cl_seq := cl_seq c + 1\<rparr>) \<and>
    sent_to a (snd (forward_loop up ch pkt cs)) = (if and (cl_channels c) ch = 0 then [] else [pkt (cl_seq c)])"
  using assms(1,2)
proof (induction cs)
  case (Cons x cs)
  show ?case
  proof (cases "cl_addr x = a")
    case True
    with Cons.prems have "x = c" "a \<notin> set (map cl_addr cs)" by (auto simp: client_of_def clients_ok_def)
    then show ?thesis
      using True assms(3) forward_loop_none [of a cs up ch pkt]
      by (auto simp: client_of_def sent_to_def split_beta Let_def)
  next
    case False
    with Cons have "client_of a cs = Some c" "clients_ok cs" by (auto simp: client_of_def clients_ok_def)
    with Cons.IH False show ?thesis by (auto simp: client_of_def sent_to_def split_beta Let_def)
  qed
qed (simp add: client_of_def)

text \<open>
  A reachable client subscribed to text receives every line shown while it is attached, in order,
  in a datagram with the next sequence number, whatever happens to the other clients.
\<close>

fun text_packets :: "u8 \<Rightarrow> string list \<Rightarrow> u8 list list" where
  "text_packets sq [] = []"
| "text_packets sq (l # ls) = ([sq, 0x00] @ bytes l @ [0x0A]) # text_packets (sq + 1) ls"

lemma front_end_text:
  assumes "fe_ok fe" "client_of a (fe_clients fe) = Some c" "up a" "and (cl_channels c) CHANNEL_TEXT \<noteq> 0"
  shows "sent_to a (fe_sent (fold (forward_text up) ls fe)) = sent_to a (fe_sent fe) @ text_packets (cl_seq c) ls"
  using assms(1,2,4)
proof (induction ls arbitrary: fe c)
  case (Cons l ls)
  note f = forward_loop_client [of "fe_clients fe" a c up CHANNEL_TEXT "\<lambda>sq. [sq, 0x00] @ bytes l @ [0x0A]",
      OF Cons.prems(1) [unfolded fe_ok_def] Cons.prems(2) assms(3)]
  have "client_of a (fe_clients (forward_text up l fe)) = Some (c\<lparr>cl_seq := cl_seq c + 1\<rparr>)"
    "sent_to a (fe_sent (forward_text up l fe)) = sent_to a (fe_sent fe) @ [[cl_seq c, 0x00] @ bytes l @ [0x0A]]"
    using f Cons.prems(3) by (simp_all add: forward_text_def sent_to_append split_beta Let_def)
  with Cons.IH [OF forward_fe_ok(2) [OF Cons.prems(1)], of up l] Cons.prems(3) show ?case by simp
qed simp

section \<open>Colours\<close>

text \<open>What a terminal shows of a line: escape sequences removed.\<close>

fun visible :: "bool \<Rightarrow> string \<Rightarrow> string" where
  "visible esc [] = []"
| "visible True (c # s) = visible (c \<noteq> CHR ''m'') s"
| "visible False (c # s) = (if c = CHR 0x1B then visible True s else c # visible False s)"

lemma visible_plain: "CHR 0x1B \<notin> set s \<Longrightarrow> visible False (s @ t) = s @ visible False t"
  by (induction s) auto

definition color_codes :: "string set" where
  "color_codes = {''0'', ''1'', ''2'', ''31'', ''32'', ''33'', ''34'', ''35'', ''36'', ''97''}"

lemma visible_code: "CHR ''m'' \<notin> set code \<Longrightarrow> visible True (code @ CHR ''m'' # t) = visible False t"
  by (induction code) auto

lemma color_code_m: "code \<in> color_codes \<Longrightarrow> CHR ''m'' \<notin> set code"
  by (auto simp: color_codes_def)

lemma visible_ansi: "code \<in> color_codes \<Longrightarrow> visible False (ansi code @ t) = visible False t"
  using visible_code [OF color_code_m, of code t] by (simp add: ansi_def)

lemma codes: "''0'' \<in> color_codes" "''1'' \<in> color_codes" "''2'' \<in> color_codes" "''31'' \<in> color_codes"
  "''32'' \<in> color_codes" "''33'' \<in> color_codes" "''34'' \<in> color_codes" "''35'' \<in> color_codes"
  "''36'' \<in> color_codes" "''97'' \<in> color_codes"
  by (simp_all add: color_codes_def)

lemma if_in: "x \<in> S \<Longrightarrow> y \<in> S \<Longrightarrow> (if b then x else y) \<in> S"
  by simp

lemma keyword_color_ansi: "keyword_color kw \<in> ansi ` color_codes"
  unfolding keyword_color_def by (intro if_in imageI codes)

lemma colorize_visible:
  assumes "CHR 0x1B \<notin> set l"
  shows "visible False (colorize_line l) = l"
proof -
  have p: "CHR 0x1B \<notin> set (take n l)" "CHR 0x1B \<notin> set (drop n l)" for n
    using assms by (auto dest: in_set_takeD in_set_dropD)
  have k: "visible False (keyword_color kw @ t) = visible False t" for kw t
    using keyword_color_ansi [of kw] visible_ansi by auto
  have e: "visible False (ansi ''0'') = []" "visible False s = s" if "CHR 0x1B \<notin> set s" for s
    using visible_ansi [OF codes(1), of "[]"] visible_plain [OF that, of "[]"] by simp_all
  show ?thesis
    unfolding colorize_line_def
    using assms by (simp add: visible_ansi codes visible_plain p k e)
qed

end
