(* ===== verification/Frames.thy ===== *)
theory Frames
  imports Prelude
begin

text \<open>
  Frame buffers of the communication stack (\<open>crates/comms/src/buf.rs\<close>), its error type
  (\<open>error.rs\<close>) and the frame pool. A frame is a 256-byte buffer with two eight-bit cursors; the
  abstraction \<open>content\<close> is the byte sequence between them, and each operation is shown to act on it
  as on a list. An operation returns a \<open>CommsError\<close> where the source returns \<open>Err\<close>, with the frame
  unchanged, and a fault where a slice is out of range or eight-bit arithmetic overflows.
\<close>

section \<open>Errors\<close>

datatype HalError =
    InvalidParameter | NotSupported | Busy | HalTimeout | HardwareError | ConfigurationError
  | EventPostFailed | VendorError u32

datatype FotaError = ChunkOutOfRange | ChecksumMismatch | NotStarted

datatype CommsError =
    NothingReceived | BufferTooSmall | MacError | Hardware HalError | Fota FotaError | TableFull

section \<open>Frames\<close>

definition MAX_FRAME :: nat where "MAX_FRAME = 256"
definition FRAME_HEADROOM :: nat where "FRAME_HEADROOM = 32"

record Frame =
  fr_buf :: "u8 list"
  fr_start :: u8
  fr_end :: u8

definition Frame_new :: Frame where
  "Frame_new = \<lparr>fr_buf = replicate MAX_FRAME 0, fr_start = of_nat FRAME_HEADROOM, fr_end = of_nat FRAME_HEADROOM\<rparr>"

text \<open>\<open>buf[s..s + xs.len()].copy_from_slice(xs)\<close>, for a range inside the buffer.\<close>

definition copy_at :: "nat \<Rightarrow> 'a list \<Rightarrow> 'a list \<Rightarrow> 'a list" where
  "copy_at s xs buf = take s buf @ xs @ drop (s + length xs) buf"

definition Frame_write_payload :: "u8 list \<Rightarrow> Frame \<Rightarrow> CommsError + Frame" where
  "Frame_write_payload bytes f =
     (if length bytes > MAX_FRAME - FRAME_HEADROOM then Inl BufferTooSmall
      else let s = FRAME_HEADROOM; e = s + length bytes
           in Inr (f\<lparr>fr_buf := copy_at s bytes (fr_buf f), fr_start := of_nat s, fr_end := of_nat e\<rparr>))"

text \<open>
  \<open>prepend_header\<close> moves the cursor and lends the caller the \<open>n\<close> bytes below the old one;
  \<open>Frame_prepend\<close> is that call followed by the caller's writes of a whole header.
\<close>

definition Frame_prepend_header :: "nat \<Rightarrow> Frame \<Rightarrow> CommsError + Frame" where
  "Frame_prepend_header n f =
     (if unat (fr_start f) < n then Inl BufferTooSmall
      else Inr (f\<lparr>fr_start := fr_start f - of_nat n\<rparr>))"

definition Frame_prepend :: "u8 list \<Rightarrow> Frame \<Rightarrow> CommsError + Frame" where
  "Frame_prepend hdr f =
     rbind (Frame_prepend_header (length hdr) f) (\<lambda>f.
       Inr (f\<lparr>fr_buf := copy_at (unat (fr_start f)) hdr (fr_buf f)\<rparr>))"

definition Frame_append_trailer :: "u8 list \<Rightarrow> Frame \<Rightarrow> (CommsError + Frame) result" where
  "Frame_append_trailer trailer f =
     (let n = length trailer; e = unat (fr_end f) in
      if e + n > MAX_FRAME then Inr (Inl BufferTooSmall)
      else if e + unat (of_nat n :: u8) > 255 then Inl Panic
      else Inr (Inr (f\<lparr>fr_buf := copy_at e trailer (fr_buf f), fr_end := fr_end f + of_nat n\<rparr>)))"

text \<open>\<open>self.end - self.start\<close> in eight bits: a panic of checked builds when it is negative.\<close>

definition Frame_len :: "Frame \<Rightarrow> nat result" where
  "Frame_len f = (if fr_start f \<le> fr_end f then Inr (unat (fr_end f - fr_start f)) else Inl Panic)"

definition Frame_is_empty :: "Frame \<Rightarrow> bool" where
  "Frame_is_empty f \<longleftrightarrow> fr_start f = fr_end f"

definition Frame_strip_header :: "nat \<Rightarrow> Frame \<Rightarrow> (CommsError + u8 list \<times> Frame) result" where
  "Frame_strip_header n f =
     rbind (Frame_len f) (\<lambda>len.
       if len < n then Inr (Inl MacError)
       else Inr (Inr (take n (drop (unat (fr_start f)) (fr_buf f)), f\<lparr>fr_start := fr_start f + of_nat n\<rparr>)))"

definition Frame_trim_trailer :: "nat \<Rightarrow> Frame \<Rightarrow> (CommsError + u8 list \<times> Frame) result" where
  "Frame_trim_trailer n f =
     rbind (Frame_len f) (\<lambda>len.
       if len < n then Inr (Inl MacError)
       else let e = fr_end f - of_nat n
            in Inr (Inr (take n (drop (unat e) (fr_buf f)), f\<lparr>fr_end := e\<rparr>)))"

text \<open>\<open>buf[start..end]\<close>: a panic in every build when the range is decreasing.\<close>

definition Frame_payload :: "Frame \<Rightarrow> u8 list result" where
  "Frame_payload f =
     (if fr_start f \<le> fr_end f
      then Inr (take (unat (fr_end f) - unat (fr_start f)) (drop (unat (fr_start f)) (fr_buf f)))
      else Inl Panic)"

text \<open>A caller's in-place update of the bytes lent by \<open>payload_mut\<close>.\<close>

definition Frame_payload_mut :: "(u8 list \<Rightarrow> u8 list) \<Rightarrow> Frame \<Rightarrow> Frame result" where
  "Frame_payload_mut upd f =
     rbind (Frame_payload f) (\<lambda>p. Inr (f\<lparr>fr_buf := copy_at (unat (fr_start f)) (upd p) (fr_buf f)\<rparr>))"

definition Frame_phy_bytes :: "Frame \<Rightarrow> u8 list result" where
  "Frame_phy_bytes f = Frame_payload f"

definition Frame_set_received_len :: "nat \<Rightarrow> Frame \<Rightarrow> Frame" where
  "Frame_set_received_len n f = f\<lparr>fr_start := 0, fr_end := of_nat (min n MAX_FRAME)\<rparr>"

section \<open>Frame pool\<close>

definition FRAME_POOL_SIZE :: nat where "FRAME_POOL_SIZE = 8"

record FramePool =
  fp_frames :: "Frame list"
  fp_free_mask :: u8

definition FramePool_new :: FramePool where
  "FramePool_new = \<lparr>fp_frames = replicate FRAME_POOL_SIZE Frame_new, fp_free_mask = 0xFF\<rparr>"

definition trailing_zeros :: "u8 \<Rightarrow> nat" where
  "trailing_zeros m = length (takeWhile (\<lambda>i. \<not> bit m i) [0..<8])"

text \<open>The successful iteration of the compare-exchange loop.\<close>

definition FramePool_alloc :: "FramePool \<Rightarrow> u8 option \<times> FramePool" where
  "FramePool_alloc p =
     (if fp_free_mask p = 0 then (None, p)
      else let b = trailing_zeros (fp_free_mask p)
           in (Some (of_nat b), p\<lparr>fp_free_mask := and (fp_free_mask p) (not (push_bit b 1))\<rparr>))"

definition FramePool_free :: "u8 \<Rightarrow> FramePool \<Rightarrow> FramePool" where
  "FramePool_free i p = p\<lparr>fp_free_mask := or (fp_free_mask p) (push_bit (unat i) 1)\<rparr>"

definition FramePool_get :: "u8 \<Rightarrow> FramePool \<Rightarrow> Frame result" where
  "FramePool_get i p = (if unat i < length (fp_frames p) then Inr (fp_frames p ! unat i) else Inl Panic)"

definition FramePool_get_mut :: "(Frame \<Rightarrow> Frame) \<Rightarrow> u8 \<Rightarrow> FramePool \<Rightarrow> FramePool result" where
  "FramePool_get_mut upd i p =
     (if unat i < length (fp_frames p)
      then Inr (p\<lparr>fp_frames := (fp_frames p)[unat i := upd (fp_frames p ! unat i)]\<rparr>)
      else Inl Panic)"

section \<open>Frames as byte sequences\<close>

definition frame_wf :: "Frame \<Rightarrow> bool" where
  "frame_wf f \<longleftrightarrow> length (fr_buf f) = MAX_FRAME \<and> fr_start f \<le> fr_end f"

definition content :: "Frame \<Rightarrow> u8 list" where
  "content f = take (unat (fr_end f) - unat (fr_start f)) (drop (unat (fr_start f)) (fr_buf f))"

lemma u8_bound: "unat (x :: u8) \<le> 255"
proof -
  have "unat x < 2 ^ LENGTH(8)" by (rule unsigned_less)
  then show ?thesis by simp
qed

lemma u8_le: "(x :: u8) \<le> y \<longleftrightarrow> unat x \<le> unat y"
  by (simp add: word_le_nat_alt)

lemma unat_u8_of_nat [simp]: "n \<le> 255 \<Longrightarrow> unat (of_nat n :: u8) = n"
  by (simp add: unat_of_nat)

lemma unat_u8_add: "unat x + n \<le> 255 \<Longrightarrow> unat (x + of_nat n :: u8) = unat x + n"
  by (simp add: unat_word_ariths unat_of_nat)

lemma unat_u8_sub: "n \<le> unat x \<Longrightarrow> unat (x - of_nat n :: u8) = unat x - n"
  using u8_bound [of x] by (simp add: unat_sub u8_le)

lemma unat_u8_diff: "x \<le> y \<Longrightarrow> unat (y - x :: u8) = unat y - unat x"
  by (simp add: unat_sub)

lemma length_copy_at [simp]:
  "s + length xs \<le> length buf \<Longrightarrow> length (copy_at s xs buf) = length buf"
  by (simp add: copy_at_def)

lemma copy_at_window:
  assumes "s + length xs \<le> length buf"
  shows "take (length xs) (drop s (copy_at s xs buf)) = xs"
  using assms by (simp add: copy_at_def)

lemma length_content: "frame_wf f \<Longrightarrow> length (content f) = unat (fr_end f) - unat (fr_start f)"
  using u8_bound [of "fr_end f"] by (auto simp: content_def frame_wf_def MAX_FRAME_def)

lemma length_content_le: "frame_wf f \<Longrightarrow> length (content f) \<le> 255"
  using length_content [of f] u8_bound [of "fr_end f"] by simp

lemma Frame_payload_wf [simp]: "frame_wf f \<Longrightarrow> Frame_payload f = Inr (content f)"
  by (simp add: Frame_payload_def content_def frame_wf_def)

lemma Frame_len_wf [simp]: "frame_wf f \<Longrightarrow> Frame_len f = Inr (length (content f))"
  by (simp add: Frame_len_def length_content frame_wf_def unat_u8_diff)

lemma frame_wf_new [simp]: "frame_wf Frame_new"
  and content_new [simp]: "content Frame_new = []"
  by (simp_all add: frame_wf_def Frame_new_def content_def)

lemma Frame_write_payload_ok:
  assumes "frame_wf f" "length bytes < MAX_FRAME - FRAME_HEADROOM"
  shows "\<exists>f'. Frame_write_payload bytes f = Inr f' \<and> frame_wf f' \<and> content f' = bytes \<and>
    fr_start f' = of_nat FRAME_HEADROOM \<and> unat (fr_end f') = FRAME_HEADROOM + length bytes"
proof -
  have e: "unat (of_nat (32 + length bytes) :: u8) = 32 + length bytes"
    using assms(2) by (intro unat_u8_of_nat) (simp add: MAX_FRAME_def FRAME_HEADROOM_def)
  with assms show ?thesis
    using copy_at_window [of 32 bytes "fr_buf f"]
    by (simp add: Frame_write_payload_def Let_def frame_wf_def content_def MAX_FRAME_def FRAME_HEADROOM_def u8_le
        del: of_nat_add)
qed

lemma Frame_prepend_ok:
  assumes "frame_wf f" "length hdr \<le> unat (fr_start f)"
  shows "\<exists>f'. Frame_prepend hdr f = Inr f' \<and> frame_wf f' \<and> content f' = hdr @ content f \<and>
    unat (fr_start f') = unat (fr_start f) - length hdr \<and> fr_end f' = fr_end f"
proof -
  let ?s = "unat (fr_start f)" and ?e = "unat (fr_end f)" and ?n = "length hdr"
  have le: "?s \<le> ?e" "?e \<le> 255" using assms(1) u8_bound by (auto simp: frame_wf_def u8_le)
  have s: "unat (fr_start f - of_nat ?n) = ?s - ?n" by (rule unat_u8_sub [OF assms(2)])
  have "take (?e - (?s - ?n)) (drop (?s - ?n) (copy_at (?s - ?n) hdr (fr_buf f))) =
      hdr @ take (?e - ?s) (drop ?s (fr_buf f))"
    using assms le by (simp add: copy_at_def frame_wf_def MAX_FRAME_def)
  with assms le s show ?thesis
    by (auto simp: Frame_prepend_def Frame_prepend_header_def frame_wf_def content_def u8_le MAX_FRAME_def)
qed

lemma Frame_prepend_too_long:
  "unat (fr_start f) < length hdr \<Longrightarrow> Frame_prepend hdr f = Inl BufferTooSmall"
  by (simp add: Frame_prepend_def Frame_prepend_header_def)

lemma Frame_append_trailer_ok:
  assumes "frame_wf f" "unat (fr_end f) + length t \<le> 255"
  shows "\<exists>f'. Frame_append_trailer t f = Inr (Inr f') \<and> frame_wf f' \<and> content f' = content f @ t \<and>
    fr_start f' = fr_start f \<and> unat (fr_end f') = unat (fr_end f) + length t"
proof -
  let ?s = "unat (fr_start f)" and ?e = "unat (fr_end f)" and ?n = "length t"
  have le: "?s \<le> ?e" using assms(1) by (simp add: frame_wf_def u8_le)
  have e: "unat (fr_end f + of_nat ?n) = ?e + ?n" by (rule unat_u8_add [OF assms(2)])
  have "take (?e + ?n - ?s) (drop ?s (copy_at ?e t (fr_buf f))) = take (?e - ?s) (drop ?s (fr_buf f)) @ t"
    using assms le by (simp add: copy_at_def frame_wf_def MAX_FRAME_def drop_take)
  with assms le e show ?thesis
    by (auto simp: Frame_append_trailer_def Let_def frame_wf_def content_def u8_le MAX_FRAME_def)
qed

lemma Frame_strip_header_ok:
  assumes "frame_wf f" "n \<le> length (content f)"
  shows "\<exists>f'. Frame_strip_header n f = Inr (Inr (take n (content f), f')) \<and> frame_wf f' \<and>
    content f' = drop n (content f)"
proof -
  let ?s = "unat (fr_start f)" and ?e = "unat (fr_end f)"
  have le: "?s + n \<le> ?e" "?e \<le> 255"
    using assms u8_bound by (auto simp: length_content frame_wf_def u8_le)
  then have s: "unat (fr_start f + of_nat n) = ?s + n" by (intro unat_u8_add) simp
  have "take (?e - (?s + n)) (drop (?s + n) (fr_buf f)) = drop n (content f)"
    and "take n (content f) = take n (drop ?s (fr_buf f))"
    using le by (simp_all add: content_def drop_take min_def add.commute)
  with assms le s show ?thesis
    by (auto simp: Frame_strip_header_def frame_wf_def content_def [of "f\<lparr>fr_start := _\<rparr>"] u8_le)
qed

lemma Frame_trim_trailer_ok:
  assumes "frame_wf f" "n \<le> length (content f)"
  shows "\<exists>f'. Frame_trim_trailer n f = Inr (Inr (drop (length (content f) - n) (content f), f')) \<and>
    frame_wf f' \<and> content f' = take (length (content f) - n) (content f)"
proof -
  let ?s = "unat (fr_start f)" and ?e = "unat (fr_end f)"
  have le: "?s + n \<le> ?e" "?e \<le> 255" "length (content f) = ?e - ?s"
    using assms u8_bound by (auto simp: length_content frame_wf_def u8_le)
  then have e: "unat (fr_end f - of_nat n) = ?e - n" by (intro unat_u8_sub) simp
  have "drop (?e - ?s - n) (take (?e - ?s) (drop ?s (fr_buf f))) = take n (drop (?e - n) (fr_buf f))"
    using le by (simp add: drop_take)
  with assms le e show ?thesis
    by (auto simp: Frame_trim_trailer_def frame_wf_def content_def u8_le Let_def add.commute)
qed

lemma Frame_payload_mut_ok:
  assumes "frame_wf f" "length (upd (content f)) = length (content f)"
  shows "\<exists>f'. Frame_payload_mut upd f = Inr f' \<and> frame_wf f' \<and> content f' = upd (content f) \<and>
    fr_start f' = fr_start f \<and> fr_end f' = fr_end f"
proof -
  let ?s = "unat (fr_start f)" and ?e = "unat (fr_end f)"
  have le: "?s \<le> ?e" "?e \<le> 255" "length (content f) = ?e - ?s"
    using assms(1) u8_bound by (auto simp: length_content frame_wf_def u8_le)
  then have "take (?e - ?s) (drop ?s (copy_at ?s (upd (content f)) (fr_buf f))) = upd (content f)"
    using copy_at_window [of ?s "upd (content f)" "fr_buf f"] assms by (simp add: frame_wf_def MAX_FRAME_def)
  with assms le show ?thesis
    by (auto simp: Frame_payload_mut_def frame_wf_def MAX_FRAME_def content_def [of "f\<lparr>fr_buf := _\<rparr>"])
qed

text \<open>A received frame: the radio's bytes in the buffer and the length set.\<close>

lemma frame_received:
  assumes "length bytes \<le> 255" "length (fr_buf f) = MAX_FRAME" "take (length bytes) (fr_buf f) = bytes"
  shows "frame_wf (Frame_set_received_len (length bytes) f) \<and>
    content (Frame_set_received_len (length bytes) f) = bytes"
  using assms by (simp add: Frame_set_received_len_def frame_wf_def content_def min_def MAX_FRAME_def)

lemma Frame_write_payload_cases:
  assumes "frame_wf f"
  shows "case Frame_write_payload bytes f of
      Inl e \<Rightarrow> e = BufferTooSmall \<and> length bytes > 224
    | Inr f' \<Rightarrow> length bytes \<le> 224 \<and>
        (if length bytes = 224 then Frame_payload f' = Inl Panic \<and> Frame_len f' = Inl Panic
         else frame_wf f' \<and> content f' = bytes)"
proof -
  consider "length bytes > 224" | "length bytes = 224" | "length bytes < 224" by linarith
  then show ?thesis
  proof cases
    case 3
    with Frame_write_payload_ok [OF assms, of bytes] show ?thesis
      by (auto simp: MAX_FRAME_def FRAME_HEADROOM_def)
  qed (simp_all add: Frame_write_payload_def Let_def Frame_payload_def Frame_len_def MAX_FRAME_def FRAME_HEADROOM_def)
qed

text \<open>
  (payload limit) A payload of at most 223 bytes is stored and read back; one of more than 224 is
  refused; one of exactly 224 bytes is accepted although the eight-bit end cursor wraps to zero, and
  every later read of the frame panics.
\<close>

theorem Frame_write_payload_limit:
  assumes "frame_wf f"
  shows "case Frame_write_payload bytes f of
      Inl e \<Rightarrow> e = BufferTooSmall \<and> length bytes > 224
    | Inr f' \<Rightarrow> length bytes \<le> 224 \<and>
        Frame_payload f' = (if length bytes = 224 then Inl Panic else Inr bytes) \<and>
        Frame_len f' = (if length bytes = 224 then Inl Panic else Inr (length bytes))"
  using Frame_write_payload_cases [OF assms, of bytes] by (auto split: sum.splits)

theorem Frame_write_payload_limit_witness:
  "frame_wf Frame_new \<and>
   (case Frame_write_payload (replicate 224 7) Frame_new of Inl e \<Rightarrow> False | Inr f' \<Rightarrow> Frame_payload f' = Inl Panic)"
  using Frame_write_payload_limit [OF frame_wf_new, of "replicate 224 7"]
  by (auto split: sum.splits)

section \<open>Exclusive ownership of pool frames\<close>

text \<open>
  Clients of a pool: each allocates a frame or gives back one it owns (named by its position in the
  list of indices handed out and not yet returned).
\<close>

datatype pool_op = PoolAlloc | PoolFree nat

fun pool_step :: "pool_op \<Rightarrow> FramePool \<times> u8 list \<Rightarrow> FramePool \<times> u8 list" where
  "pool_step PoolAlloc (p, own) =
     (case FramePool_alloc p of (None, p') \<Rightarrow> (p', own) | (Some i, p') \<Rightarrow> (p', own @ [i]))"
| "pool_step (PoolFree n) (p, own) =
     (if n < length own then (FramePool_free (own ! n) p, take n own @ drop (Suc n) own) else (p, own))"

definition pool_inv :: "FramePool \<times> u8 list \<Rightarrow> bool" where
  "pool_inv = (\<lambda>(p, own). distinct own \<and> (\<forall>i\<in>set own. unat i < 8) \<and>
     (\<forall>i<8. bit (fp_free_mask p) i \<longleftrightarrow> of_nat i \<notin> set own))"

lemma length_takeWhile_less: "x \<in> set xs \<Longrightarrow> \<not> P x \<Longrightarrow> length (takeWhile P xs) < length xs"
  by (induction xs) auto

lemma trailing_zeros_bit:
  assumes "m \<noteq> 0"
  shows "trailing_zeros m < 8 \<and> bit m (trailing_zeros m)"
proof -
  have "\<exists>i<8. bit m i"
  proof (rule ccontr)
    assume "\<not> (\<exists>i<8. bit m i)"
    then have "m = 0" by (intro bit_word_eqI) auto
    with assms show False by simp
  qed
  then obtain i where "i \<in> set [0..<8]" "bit m i" by auto
  then have "trailing_zeros m < length [0..<8]"
    unfolding trailing_zeros_def by (intro length_takeWhile_less) auto
  with nth_length_takeWhile [of "\<lambda>i. \<not> bit m i" "[0..<8]"] show ?thesis
    by (simp add: trailing_zeros_def)
qed

lemma of_nat_u8_eq:
  assumes "i < 8" "j < 8"
  shows "(of_nat i :: u8) = of_nat j \<longleftrightarrow> i = j"
proof
  assume "(of_nat i :: u8) = of_nat j"
  then have "unat (of_nat i :: u8) = unat (of_nat j :: u8)" by simp
  with assms show "i = j" by simp
qed simp

lemma pool_inv_alloc:
  assumes "pool_inv (p, own)"
  shows "pool_inv (pool_step PoolAlloc (p, own))"
proof (cases "fp_free_mask p = 0")
  case False
  let ?b = "trailing_zeros (fp_free_mask p)"
  have b: "?b < 8" "bit (fp_free_mask p) ?b" using trailing_zeros_bit [OF False] by auto
  have eq: "(of_nat i :: u8) = of_nat ?b \<longleftrightarrow> i = ?b" if "i < 8" for i
    using of_nat_u8_eq [OF that b(1)] .
  have "pool_step PoolAlloc (p, own) =
      (p\<lparr>fp_free_mask := and (fp_free_mask p) (not (push_bit ?b 1))\<rparr>, own @ [of_nat ?b])"
    using False by (simp add: FramePool_alloc_def Let_def)
  moreover have "unat (of_nat ?b :: u8) < 8" using b(1) by (simp add: unat_of_nat)
  moreover have "of_nat ?b \<notin> set own" using assms b by (simp add: pool_inv_def)
  ultimately show ?thesis
    using assms by (auto simp: pool_inv_def bit_simps eq)
qed (use assms in \<open>simp add: FramePool_alloc_def\<close>)

lemma pool_inv_free:
  assumes "pool_inv (p, own)"
  shows "pool_inv (pool_step (PoolFree n) (p, own))"
proof (cases "n < length own")
  case True
  let ?x = "own ! n" and ?rest = "take n own @ drop (Suc n) own"
  have d: "distinct (take n own @ ?x # drop (Suc n) own)"
    using assms by (simp add: pool_inv_def id_take_nth_drop [OF True, symmetric])
  have own: "set own = insert ?x (set ?rest)"
    using id_take_nth_drop [OF True] by (metis Un_insert_right list.simps(15) set_append)
  have x: "unat ?x < 8" using assms True by (simp add: pool_inv_def)
  have eq: "of_nat i = ?x \<longleftrightarrow> unat ?x = i" if "i < 8" for i
    using of_nat_u8_eq [OF that x] by auto
  have "?x \<notin> set ?rest" using d by auto
  moreover have "\<forall>i\<in>set ?rest. unat i < 8" using assms own by (auto simp: pool_inv_def)
  moreover have "\<forall>i<8. bit (or (fp_free_mask p) (push_bit (unat ?x) 1)) i \<longleftrightarrow> of_nat i \<notin> set ?rest"
    using assms own eq x \<open>?x \<notin> set ?rest\<close> by (auto simp: pool_inv_def bit_simps)
  ultimately show ?thesis using True d by (simp add: pool_inv_def FramePool_free_def)
qed (use assms in simp)

lemma pool_inv_run: "pool_inv (fold pool_step ops (FramePool_new, []))"
proof (induction ops rule: rev_induct)
  case Nil
  have "bit (0xFF :: u8) i" if "i < 8" for i
  proof -
    have "(0xFF :: u8) = - 1" by simp
    with that show ?thesis by (simp only: bit_minus_1_iff) simp
  qed
  then show ?case by (simp add: pool_inv_def FramePool_new_def)
next
  case (snoc op ops)
  obtain p own where r: "fold pool_step ops (FramePool_new, []) = (p, own)" by fastforce
  with snoc have "pool_inv (pool_step op (p, own))"
    by (cases op) (simp_all only: pool_inv_alloc pool_inv_free)
  with r show ?case by simp
qed

text \<open>
  (frame ownership) Over every sequence of allocations and returns of owned frames, no frame is
  owned twice, and allocation fails exactly when all eight are owned.
\<close>

theorem FramePool_exclusive:
  "case fold pool_step ops (FramePool_new, []) of (p, own) \<Rightarrow>
     distinct own \<and> (fst (FramePool_alloc p) = None \<longleftrightarrow> length own = 8) \<and> length own \<le> 8"
proof -
  obtain p own where r: "fold pool_step ops (FramePool_new, []) = (p, own)" by fastforce
  with pool_inv_run [of ops] have i: "pool_inv (p, own)" by simp
  let ?all = "of_nat ` {..<8} :: u8 set"
  have sub: "set own \<subseteq> ?all"
  proof
    fix x assume "x \<in> set own"
    with i have "unat x < 8" by (simp add: pool_inv_def)
    then show "x \<in> ?all" by (intro image_eqI [of _ _ "unat x"]) simp_all
  qed
  have "inj_on (of_nat :: nat \<Rightarrow> u8) {..<8}" by (rule inj_onI) (simp add: of_nat_u8_eq)
  then have card: "card ?all = 8" by (simp add: card_image)
  have len: "length own = card (set own)" using i by (simp add: pool_inv_def distinct_card)
  have "fst (FramePool_alloc p) = None \<longleftrightarrow> (\<forall>i<8. \<not> bit (fp_free_mask p) i)"
    using trailing_zeros_bit [of "fp_free_mask p"] by (auto simp: FramePool_alloc_def Let_def)
  also have "\<dots> \<longleftrightarrow> set own = ?all" using i sub by (auto simp: pool_inv_def)
  also have "\<dots> \<longleftrightarrow> length own = 8"
    using card_subset_eq [of ?all "set own"] sub card len by auto
  finally show ?thesis using r i card_mono [OF _ sub] card len by (simp add: pool_inv_def)
qed

end
