(* ===== verification/Layers.thy ===== *)
theory Layers
  imports Frames
begin

text \<open>
  Protocol layers of the communication stack: the \<open>Layer\<close> trait (\<open>crates/comms/src/stack.rs\<close>), the
  reliable and unreliable transports (\<open>transport.rs\<close>), the addressing network layer and its no-op
  (\<open>net.rs\<close>), the no-op MAC (\<open>mac/noop.rs\<close>) and the BLE stub (\<open>mac/ble_l2cap.rs\<close>). The trait is a
  dictionary of operations. Two interfaces say what a stack relies on: \<open>layer_robust\<close>, that no
  received bytes make a layer fault, and \<open>layer_codec\<close>, that a peer undoes the encapsulation.
\<close>

section \<open>The Layer trait\<close>

datatype TransportAction = Nothing | TxComplete | ShouldRetransmit | GiveUp

record 's Layer =
  l_down :: "'s \<Rightarrow> Frame \<Rightarrow> ((CommsError + unit) \<times> 's \<times> Frame) result"
  l_up :: "'s \<Rightarrow> Frame \<Rightarrow> ((CommsError + bool) \<times> 's \<times> Frame) result"
  l_on_timeout :: "'s \<Rightarrow> TransportAction \<times> 's"
  l_set_tx_meta :: "u16 \<Rightarrow> u8 \<Rightarrow> 's \<Rightarrow> 's"
  l_last_rx_meta :: "'s \<Rightarrow> u16 \<times> u8"

text \<open>The default methods of the trait.\<close>

definition Layer_on_timeout :: "'s \<Rightarrow> TransportAction \<times> 's" where
  "Layer_on_timeout s = (Nothing, s)"

definition Layer_set_tx_meta :: "u16 \<Rightarrow> u8 \<Rightarrow> 's \<Rightarrow> 's" where
  "Layer_set_tx_meta dst kind s = s"

definition Layer_last_rx_meta :: "'s \<Rightarrow> u16 \<times> u8" where
  "Layer_last_rx_meta s = (0, 0)"

text \<open>Encapsulation by a header and an update of the layer, propagating a lack of headroom.\<close>

definition prepend_or_err ::
    "u8 list \<Rightarrow> 's \<Rightarrow> 's \<Rightarrow> Frame \<Rightarrow> ((CommsError + unit) \<times> 's \<times> Frame) result" where
  "prepend_or_err hdr s_ok s_err f =
     (case Frame_prepend hdr f of
        Inl e \<Rightarrow> Inr (Inl e, s_err, f)
      | Inr f' \<Rightarrow> Inr (Inr (), s_ok, f'))"

text \<open>Stripping a header of \<open>n\<close> bytes and looking at it; shorter frames are dropped.\<close>

definition strip_or_drop ::
    "nat \<Rightarrow> (u8 list \<Rightarrow> bool \<times> 's) \<Rightarrow> 's \<Rightarrow> Frame \<Rightarrow> ((CommsError + bool) \<times> 's \<times> Frame) result" where
  "strip_or_drop n look s f =
     rbind (Frame_len f) (\<lambda>len.
       if len < n then Inr (Inr False, s, f)
       else rbind (Frame_strip_header n f) (\<lambda>r.
         case r of
           Inl e \<Rightarrow> Inr (Inl e, s, f)
         | Inr (raw, f') \<Rightarrow> (case look raw of (keep, s') \<Rightarrow> Inr (Inr keep, s', f'))))"

section \<open>Reliable transport\<close>

datatype TransportState = TransportIdle | TransportWaitingAck

record ReliableTransport =
  rt_seq :: u8
  rt_acked :: u8
  rt_retries :: u8
  rt_max_retries :: u8
  rt_state :: TransportState

definition FIRST_FRAG :: u8 where "FIRST_FRAG = 0x01"
definition LAST_FRAG :: u8 where "LAST_FRAG = 0x02"
definition ACK_REQ :: u8 where "ACK_REQ = 0x04"
definition IS_ACK :: u8 where "IS_ACK = 0x08"

definition ReliableTransport_new :: "u8 \<Rightarrow> ReliableTransport" where
  "ReliableTransport_new n =
     \<lparr>rt_seq = 0, rt_acked = 0, rt_retries = 0, rt_max_retries = n, rt_state = TransportIdle\<rparr>"

definition ReliableTransport_on_timeout :: "ReliableTransport \<Rightarrow> TransportAction \<times> ReliableTransport" where
  "ReliableTransport_on_timeout t =
     (if rt_state t = TransportWaitingAck
      then if rt_retries t > 0 then (ShouldRetransmit, t\<lparr>rt_retries := rt_retries t - 1\<rparr>)
           else (GiveUp, t\<lparr>rt_state := TransportIdle\<rparr>)
      else (Nothing, t))"

definition ReliableTransport_on_ack_received :: "u8 \<Rightarrow> ReliableTransport \<Rightarrow> TransportAction \<times> ReliableTransport" where
  "ReliableTransport_on_ack_received ack_seq t =
     (if ack_seq = rt_seq t - 1 then (TxComplete, t\<lparr>rt_state := TransportIdle\<rparr>) else (Nothing, t))"

definition ReliableTransport_header :: "nat \<Rightarrow> ReliableTransport \<Rightarrow> u8 list" where
  "ReliableTransport_header payload_len t =
     [rt_seq t, rt_acked t, or (or FIRST_FRAG LAST_FRAG) ACK_REQ, of_nat payload_len, 0]"

definition ReliableTransport_down ::
    "ReliableTransport \<Rightarrow> Frame \<Rightarrow> ((CommsError + unit) \<times> ReliableTransport \<times> Frame) result" where
  "ReliableTransport_down t f =
     rbind (Frame_len f) (\<lambda>payload_len.
       prepend_or_err (ReliableTransport_header payload_len t)
         (t\<lparr>rt_retries := rt_max_retries t, rt_state := TransportWaitingAck, rt_seq := rt_seq t + 1\<rparr>) t f)"

text \<open>What \<open>up\<close> does with a stripped header: an acknowledgement, a duplicate, or data to deliver.\<close>

definition ReliableTransport_look :: "ReliableTransport \<Rightarrow> u8 list \<Rightarrow> bool \<times> ReliableTransport" where
  "ReliableTransport_look t raw =
     (let seq = raw ! 0; flags = raw ! 2 in
      if and flags IS_ACK \<noteq> 0 then (False, snd (ReliableTransport_on_ack_received seq t))
      else if seq = rt_acked t \<and> rt_state t \<noteq> TransportIdle then (False, t)
      else (True, t\<lparr>rt_acked := seq\<rparr>))"

definition ReliableTransport_up ::
    "ReliableTransport \<Rightarrow> Frame \<Rightarrow> ((CommsError + bool) \<times> ReliableTransport \<times> Frame) result" where
  "ReliableTransport_up t f = strip_or_drop 5 (ReliableTransport_look t) t f"

definition reliable_layer :: "ReliableTransport Layer" where
  "reliable_layer = \<lparr>l_down = ReliableTransport_down, l_up = ReliableTransport_up,
     l_on_timeout = ReliableTransport_on_timeout, l_set_tx_meta = Layer_set_tx_meta,
     l_last_rx_meta = Layer_last_rx_meta\<rparr>"

section \<open>Unreliable transport\<close>

record UnreliableTransport =
  ut_seq :: u8

definition UnreliableTransport_new :: UnreliableTransport where
  "UnreliableTransport_new = \<lparr>ut_seq = 0\<rparr>"

definition UnreliableTransport_header :: "nat \<Rightarrow> UnreliableTransport \<Rightarrow> u8 list" where
  "UnreliableTransport_header n t =
     (let len = (of_nat n :: u16)
      in [ut_seq t, 0, or FIRST_FRAG LAST_FRAG, ucast len, ucast (drop_bit 8 len)])"

definition UnreliableTransport_down ::
    "UnreliableTransport \<Rightarrow> Frame \<Rightarrow> ((CommsError + unit) \<times> UnreliableTransport \<times> Frame) result" where
  "UnreliableTransport_down t f =
     rbind (Frame_len f) (\<lambda>n.
       prepend_or_err (UnreliableTransport_header n t) (t\<lparr>ut_seq := ut_seq t + 1\<rparr>) t f)"

definition UnreliableTransport_up ::
    "UnreliableTransport \<Rightarrow> Frame \<Rightarrow> ((CommsError + bool) \<times> UnreliableTransport \<times> Frame) result" where
  "UnreliableTransport_up t f = strip_or_drop 5 (\<lambda>raw. (True, t)) t f"

definition unreliable_layer :: "UnreliableTransport Layer" where
  "unreliable_layer = \<lparr>l_down = UnreliableTransport_down, l_up = UnreliableTransport_up,
     l_on_timeout = Layer_on_timeout, l_set_tx_meta = Layer_set_tx_meta, l_last_rx_meta = Layer_last_rx_meta\<rparr>"

section \<open>Network layer\<close>

definition MAX_PORT_BINDINGS :: nat where "MAX_PORT_BINDINGS = 8"
definition BROADCAST_ADDR :: u16 where "BROADCAST_ADDR = 0xFFFF"

record PortBinding =
  pb_port :: u8
  pb_signal :: u16

record Network =
  nw_bindings :: "PortBinding option list"
  nw_address :: u16
  nw_pending_dst :: u16
  nw_pending_kind :: u8
  nw_last_rx_src :: u16
  nw_last_rx_kind :: u8

definition Network_new :: "u16 \<Rightarrow> Network" where
  "Network_new a =
     \<lparr>nw_bindings = replicate MAX_PORT_BINDINGS None, nw_address = a, nw_pending_dst = BROADCAST_ADDR,
      nw_pending_kind = 0, nw_last_rx_src = 0, nw_last_rx_kind = 0\<rparr>"

fun bind_first_free :: "PortBinding \<Rightarrow> PortBinding option list \<Rightarrow> PortBinding option list option" where
  "bind_first_free b [] = None"
| "bind_first_free b (None # bs) = Some (Some b # bs)"
| "bind_first_free b (Some x # bs) = map_option (\<lambda>bs'. Some x # bs') (bind_first_free b bs)"

definition Network_bind :: "u8 \<Rightarrow> u16 \<Rightarrow> Network \<Rightarrow> (CommsError + unit) \<times> Network" where
  "Network_bind port sig n =
     (case bind_first_free \<lparr>pb_port = port, pb_signal = sig\<rparr> (nw_bindings n) of
        Some bs \<Rightarrow> (Inr (), n\<lparr>nw_bindings := bs\<rparr>)
      | None \<Rightarrow> (Inl TableFull, n))"

fun find_binding :: "u8 \<Rightarrow> PortBinding option list \<Rightarrow> u16 option" where
  "find_binding port [] = None"
| "find_binding port (None # bs) = find_binding port bs"
| "find_binding port (Some b # bs) = (if pb_port b = port then Some (pb_signal b) else find_binding port bs)"

definition Network_resolve :: "u8 \<Rightarrow> Network \<Rightarrow> u16 option" where
  "Network_resolve port n = find_binding port (nw_bindings n)"

definition Network_header :: "Network \<Rightarrow> u8 list" where
  "Network_header n = le16 (nw_address n) @ le16 (nw_pending_dst n) @ [nw_pending_kind n]"

definition Network_down :: "Network \<Rightarrow> Frame \<Rightarrow> ((CommsError + unit) \<times> Network \<times> Frame) result" where
  "Network_down n f =
     (let n' = n\<lparr>nw_pending_dst := BROADCAST_ADDR, nw_pending_kind := 0\<rparr> in
      prepend_or_err (Network_header n) n' n' f)"

definition Network_look :: "Network \<Rightarrow> u8 list \<Rightarrow> bool \<times> Network" where
  "Network_look n hdr =
     (let src = of_le [hdr ! 0, hdr ! 1]; dst = of_le [hdr ! 2, hdr ! 3]; kind = hdr ! 4 in
      if dst \<noteq> nw_address n \<and> dst \<noteq> BROADCAST_ADDR then (False, n)
      else (True, n\<lparr>nw_last_rx_src := src, nw_last_rx_kind := kind\<rparr>))"

definition Network_up :: "Network \<Rightarrow> Frame \<Rightarrow> ((CommsError + bool) \<times> Network \<times> Frame) result" where
  "Network_up n f = strip_or_drop 5 (Network_look n) n f"

definition Network_set_tx_meta :: "u16 \<Rightarrow> u8 \<Rightarrow> Network \<Rightarrow> Network" where
  "Network_set_tx_meta dst kind n = n\<lparr>nw_pending_dst := dst, nw_pending_kind := kind\<rparr>"

definition Network_last_rx_meta :: "Network \<Rightarrow> u16 \<times> u8" where
  "Network_last_rx_meta n = (nw_last_rx_src n, nw_last_rx_kind n)"

definition network_layer :: "Network Layer" where
  "network_layer = \<lparr>l_down = Network_down, l_up = Network_up, l_on_timeout = Layer_on_timeout,
     l_set_tx_meta = Network_set_tx_meta, l_last_rx_meta = Network_last_rx_meta\<rparr>"

section \<open>No-op layers and the BLE stub\<close>

definition Noop_down :: "unit \<Rightarrow> Frame \<Rightarrow> ((CommsError + unit) \<times> unit \<times> Frame) result" where
  "Noop_down s f = Inr (Inr (), s, f)"

definition Noop_up :: "unit \<Rightarrow> Frame \<Rightarrow> ((CommsError + bool) \<times> unit \<times> Frame) result" where
  "Noop_up s f = Inr (Inr True, s, f)"

definition noop_layer :: "unit Layer" where
  "noop_layer = \<lparr>l_down = Noop_down, l_up = Noop_up, l_on_timeout = Layer_on_timeout,
     l_set_tx_meta = Layer_set_tx_meta, l_last_rx_meta = Layer_last_rx_meta\<rparr>"

record BleL2capMac =
  ble_cid :: u16

text \<open>The stub writes its header and then fails.\<close>

definition BleL2capMac_down :: "BleL2capMac \<Rightarrow> Frame \<Rightarrow> ((CommsError + unit) \<times> BleL2capMac \<times> Frame) result" where
  "BleL2capMac_down b f =
     rbind (Frame_len f) (\<lambda>n. let len = (of_nat n :: u16) in
       case Frame_prepend [ucast len, ucast (drop_bit 8 len), ucast (ble_cid b), ucast (drop_bit 8 (ble_cid b))] f of
         Inl e \<Rightarrow> Inr (Inl e, b, f)
       | Inr f' \<Rightarrow> Inr (Inl MacError, b, f'))"

definition BleL2capMac_up :: "BleL2capMac \<Rightarrow> Frame \<Rightarrow> ((CommsError + bool) \<times> BleL2capMac \<times> Frame) result" where
  "BleL2capMac_up b f = Inr (Inl MacError, b, f)"

definition ble_layer :: "BleL2capMac Layer" where
  "ble_layer = \<lparr>l_down = BleL2capMac_down, l_up = BleL2capMac_up, l_on_timeout = Layer_on_timeout,
     l_set_tx_meta = Layer_set_tx_meta, l_last_rx_meta = Layer_last_rx_meta\<rparr>"

section \<open>Interfaces\<close>

text \<open>
  No received frame makes the layer fault, and what it passes on is a frame that is shorter by the
  \<open>k\<close> bytes the layer strips.
\<close>

locale layer_robust =
  fixes L :: "'s Layer" and k :: nat
  assumes up_total: "frame_wf g \<Longrightarrow> \<exists>r s' g'. l_up L s g = Inr (r, s', g') \<and> frame_wf g' \<and>
      (r = Inr True \<longrightarrow> length (content g) = k + length (content g'))"

text \<open>
  A layer that adds \<open>hdr\<close> bytes in front and \<open>trl\<close> bytes behind, which a receiver whose state
  \<open>accepts\<close> the sender's strips again, \<open>after\<close> which its own state is the given one.
\<close>

locale layer_codec =
  fixes L :: "'s Layer" and hdr trl :: nat and accepts :: "'s \<Rightarrow> 's \<Rightarrow> bool" and after :: "'s \<Rightarrow> 's \<Rightarrow> 's"
  assumes down_fits: "frame_wf f \<Longrightarrow> hdr \<le> unat (fr_start f) \<Longrightarrow> unat (fr_end f) + trl \<le> 255 \<Longrightarrow>
      \<exists>s' f'. l_down L s f = Inr (Inr (), s', f') \<and> frame_wf f' \<and>
        unat (fr_start f') = unat (fr_start f) - hdr \<and> unat (fr_end f') = unat (fr_end f) + trl"
    and up_down: "frame_wf f \<Longrightarrow> l_down L s f = Inr (Inr (), s', f') \<Longrightarrow> accepts s r \<Longrightarrow>
      frame_wf g \<Longrightarrow> content g = content f' \<Longrightarrow>
      \<exists>g'. l_up L r g = Inr (Inr True, after s r, g') \<and> frame_wf g' \<and> content g' = content f"

section \<open>Lemmas\<close>

lemma strip_or_drop_short:
  "frame_wf g \<Longrightarrow> length (content g) < n \<Longrightarrow> strip_or_drop n look s g = Inr (Inr False, s, g)"
  by (simp add: strip_or_drop_def)

lemma strip_or_drop_long:
  assumes "frame_wf g" "content g = h @ rest" "length h = n"
  shows "\<exists>g'. strip_or_drop n look s g = Inr (Inr (fst (look h)), snd (look h), g') \<and> frame_wf g' \<and> content g' = rest"
  using Frame_strip_header_ok [OF assms(1), of n] assms(2,3)
  by (auto simp: strip_or_drop_def assms(1) split: prod.splits)

lemma strip_or_drop_total:
  assumes "frame_wf g"
  shows "\<exists>r s' g'. strip_or_drop n look s g = Inr (r, s', g') \<and> frame_wf g' \<and>
    (r = Inr True \<longrightarrow> length (content g) = n + length (content g'))"
proof (cases "length (content g) < n")
  case False
  then have "content g = take n (content g) @ drop n (content g)" "length (take n (content g)) = n" by simp_all
  from strip_or_drop_long [OF assms this, of look s] False show ?thesis by fastforce
next
  case True
  from strip_or_drop_short [OF assms True, of look s] assms show ?thesis by auto
qed

lemma prepend_or_err_fits:
  assumes "frame_wf f" "length h \<le> unat (fr_start f)"
  shows "\<exists>f'. prepend_or_err h s s' f = Inr (Inr (), s, f') \<and> frame_wf f' \<and> content f' = h @ content f \<and>
    unat (fr_start f') = unat (fr_start f) - length h \<and> fr_end f' = fr_end f"
  using Frame_prepend_ok [OF assms] by (auto simp: prepend_or_err_def)

lemma prepend_or_err_content:
  assumes "prepend_or_err h s s' f = Inr (Inr (), t, f')" "frame_wf f"
  shows "content f' = h @ content f"
proof (cases "length h \<le> unat (fr_start f)")
  case True
  with prepend_or_err_fits [OF assms(2) True, of s s'] assms(1) show ?thesis by auto
qed (use assms in \<open>simp add: prepend_or_err_def Frame_prepend_too_long\<close>)

lemmas layer_defs = reliable_layer_def unreliable_layer_def network_layer_def noop_layer_def ble_layer_def

text \<open>A receiver that is busy sending takes a sequence number equal to the last one for a duplicate.\<close>

definition rt_accepts :: "ReliableTransport \<Rightarrow> ReliableTransport \<Rightarrow> bool" where
  "rt_accepts s r \<longleftrightarrow> rt_state r = TransportIdle \<or> rt_acked r \<noteq> rt_seq s"

definition nw_accepts :: "Network \<Rightarrow> Network \<Rightarrow> bool" where
  "nw_accepts s r \<longleftrightarrow> nw_pending_dst s = nw_address r \<or> nw_pending_dst s = BROADCAST_ADDR"

lemma length_header [simp]:
  "length (ReliableTransport_header n t) = 5" "length (UnreliableTransport_header n u) = 5"
  "length (Network_header w) = 5"
  by (simp_all add: ReliableTransport_header_def UnreliableTransport_header_def Network_header_def Let_def)

lemma ReliableTransport_look_header:
  "rt_accepts s r \<Longrightarrow> ReliableTransport_look r (ReliableTransport_header n s) = (True, r\<lparr>rt_acked := rt_seq s\<rparr>)"
  by (auto simp: ReliableTransport_look_def ReliableTransport_header_def rt_accepts_def Let_def
      FIRST_FRAG_def LAST_FRAG_def ACK_REQ_def IS_ACK_def)

lemma Network_look_header:
  assumes "nw_accepts s r"
  shows "Network_look r (Network_header s) = (True, r\<lparr>nw_last_rx_src := nw_address s, nw_last_rx_kind := nw_pending_kind s\<rparr>)"
proof -
  have "of_le [Network_header s ! 0, Network_header s ! 1] = nw_address s"
    "of_le [Network_header s ! 2, Network_header s ! 3] = nw_pending_dst s"
    "Network_header s ! 4 = nw_pending_kind s"
    using of_le_le16 [of "nw_address s"] of_le_le16 [of "nw_pending_dst s"]
    unfolding le16_def Network_header_def by (simp_all del: of_le_le16)
  with assms show ?thesis by (auto simp: Network_look_def Let_def nw_accepts_def)
qed

text \<open>
  Every layer that prepends a header of fixed length and looks at it when receiving is a codec, if
  the receiver's look keeps the frames of the senders it accepts.
\<close>

locale header_layer =
  fixes L :: "'s Layer" and header :: "nat \<Rightarrow> 's \<Rightarrow> u8 list" and sent failed :: "'s \<Rightarrow> 's"
    and look :: "'s \<Rightarrow> u8 list \<Rightarrow> bool \<times> 's" and n :: nat
    and accepts :: "'s \<Rightarrow> 's \<Rightarrow> bool" and after :: "'s \<Rightarrow> 's \<Rightarrow> 's"
  assumes down_eq: "frame_wf f \<Longrightarrow> l_down L s f = prepend_or_err (header (length (content f)) s) (sent s) (failed s) f"
    and up_eq: "l_up L s f = strip_or_drop n (look s) s f"
    and length_header: "length (header m s) = n"
    and look_keeps: "accepts s r \<Longrightarrow> look r (header m s) = (True, after s r)"
begin

lemma down_result:
  assumes "frame_wf f" "n \<le> unat (fr_start f)"
  shows "\<exists>f'. l_down L s f = Inr (Inr (), sent s, f') \<and> frame_wf f' \<and>
    content f' = header (length (content f)) s @ content f \<and>
    unat (fr_start f') = unat (fr_start f) - n \<and> fr_end f' = fr_end f"
  using prepend_or_err_fits [OF assms(1), of "header (length (content f)) s" "sent s" "failed s"] assms
  by (simp add: down_eq length_header)

lemma up_result:
  assumes "frame_wf g" "content g = h @ rest" "length h = n"
  shows "\<exists>g'. l_up L r g = Inr (Inr (fst (look r h)), snd (look r h), g') \<and> frame_wf g' \<and> content g' = rest"
  unfolding up_eq using strip_or_drop_long [OF assms] .

lemma codec: "layer_codec L n 0 accepts after"
proof
  fix f s assume "frame_wf f" "n \<le> unat (fr_start f)"
  from down_result [OF this, of s]
  show "\<exists>s' f'. l_down L s f = Inr (Inr (), s', f') \<and> frame_wf f' \<and>
      unat (fr_start f') = unat (fr_start f) - n \<and> unat (fr_end f') = unat (fr_end f) + 0"
    by auto
next
  fix f s s' f' r g
  assume f: "frame_wf f" and d: "l_down L s f = Inr (Inr (), s', f')" and a: "accepts s r"
    and g: "frame_wf g" "content g = content f'"
  from d have "content f' = header (length (content f)) s @ content f"
    unfolding down_eq [OF f] using f by (rule prepend_or_err_content)
  with g(2) have "content g = header (length (content f)) s @ content f" by simp
  from up_result [OF g(1) this length_header, of r] look_keeps [OF a]
  show "\<exists>g'. l_up L r g = Inr (Inr True, after s r, g') \<and> frame_wf g' \<and> content g' = content f"
    by auto
qed

lemma robust: "layer_robust L n"
  by unfold_locales (simp add: up_eq strip_or_drop_total)

end

sublocale header_layer \<subseteq> layer_codec L n 0 accepts after
  by (rule codec)

sublocale header_layer \<subseteq> layer_robust L n
  by (rule robust)

interpretation rt: header_layer reliable_layer ReliableTransport_header
  "\<lambda>t. t\<lparr>rt_retries := rt_max_retries t, rt_state := TransportWaitingAck, rt_seq := rt_seq t + 1\<rparr>" "\<lambda>t. t"
  ReliableTransport_look 5 rt_accepts "\<lambda>s r. r\<lparr>rt_acked := rt_seq s\<rparr>"
  by unfold_locales (simp_all add: layer_defs ReliableTransport_down_def ReliableTransport_up_def
      ReliableTransport_look_header)

interpretation ut: header_layer unreliable_layer UnreliableTransport_header
  "\<lambda>t. t\<lparr>ut_seq := ut_seq t + 1\<rparr>" "\<lambda>t. t" "\<lambda>t raw. (True, t)" 5 "\<lambda>s r. True" "\<lambda>s r. r"
  by unfold_locales (simp_all add: layer_defs UnreliableTransport_down_def UnreliableTransport_up_def)

interpretation nw: header_layer network_layer "\<lambda>m. Network_header"
  "\<lambda>w. w\<lparr>nw_pending_dst := BROADCAST_ADDR, nw_pending_kind := 0\<rparr>"
  "\<lambda>w. w\<lparr>nw_pending_dst := BROADCAST_ADDR, nw_pending_kind := 0\<rparr>" Network_look 5
  nw_accepts "\<lambda>s r. r\<lparr>nw_last_rx_src := nw_address s, nw_last_rx_kind := nw_pending_kind s\<rparr>"
  by unfold_locales (simp_all add: layer_defs Network_down_def Network_up_def Network_look_header Let_def)

interpretation noc: layer_codec noop_layer 0 0 "\<lambda>s r. True" "\<lambda>s r. r"
  by unfold_locales (auto simp: layer_defs Noop_down_def Noop_up_def)

interpretation no: layer_robust noop_layer 0
  by unfold_locales (simp add: layer_defs Noop_up_def)

interpretation bl: layer_robust ble_layer 0
  by unfold_locales (simp add: layer_defs BleL2capMac_up_def)

text \<open>Until the table is full a port resolves to the signal it was bound to first.\<close>

fun bind_all :: "(u8 \<times> u16) list \<Rightarrow> Network \<Rightarrow> Network" where
  "bind_all [] n = n"
| "bind_all ((p, s) # bs) n = bind_all bs (snd (Network_bind p s n))"

lemma bind_first_free_prefix:
  "bind_first_free b (map Some bs @ replicate k None) =
     (case k of 0 \<Rightarrow> None | Suc j \<Rightarrow> Some (map Some (bs @ [b]) @ replicate j None))"
  by (induction bs) (auto split: nat.splits)

lemma find_binding_prefix:
  "find_binding p (map Some bs @ replicate k None) =
     map_option pb_signal (find (\<lambda>b. pb_port b = p) bs)"
proof (induction bs)
  case Nil
  show ?case by (induction k) simp_all
qed simp

definition as_binding :: "u8 \<times> u16 \<Rightarrow> PortBinding" where
  "as_binding b = \<lparr>pb_port = fst b, pb_signal = snd b\<rparr>"

lemma bind_all_table:
  "nw_bindings n = map Some bs @ replicate k None \<Longrightarrow>
   nw_bindings (bind_all ps n) = map Some (bs @ map as_binding (take k ps)) @ replicate (k - length ps) None"
proof (induction ps n arbitrary: bs k rule: bind_all.induct)
  case (2 p s ps n)
  show ?case
  proof (cases k)
    case 0
    with "2.prems" bind_first_free_prefix [of _ bs 0] have "snd (Network_bind p s n) = n"
      by (simp add: Network_bind_def)
    with 0 "2.IH" [of bs 0] "2.prems" show ?thesis by simp
  next
    case (Suc j)
    with "2.prems" have "nw_bindings (snd (Network_bind p s n)) = map Some (bs @ [as_binding (p, s)]) @ replicate j None"
      using bind_first_free_prefix [of _ bs "Suc j"] by (simp add: Network_bind_def as_binding_def)
    from "2.IH" [OF this] Suc show ?thesis by simp
  qed
qed simp

lemma Network_resolve_bind_all:
  "Network_resolve p (bind_all ps (Network_new a)) =
     map_option snd (find (\<lambda>b. fst b = p) (take MAX_PORT_BINDINGS ps))"
proof -
  have "nw_bindings (Network_new a) = map Some [] @ replicate MAX_PORT_BINDINGS None"
    by (simp add: Network_new_def)
  from bind_all_table [OF this, of ps]
  have t: "nw_bindings (bind_all ps (Network_new a)) =
      map Some (map as_binding (take MAX_PORT_BINDINGS ps)) @ replicate (MAX_PORT_BINDINGS - length ps) None"
    by simp
  have "map_option pb_signal (find (\<lambda>b. pb_port b = p) (map as_binding xs)) =
      map_option snd (find (\<lambda>b. fst b = p) xs)" for xs
    by (induction xs) (auto simp: as_binding_def)
  with t show ?thesis by (simp only: Network_resolve_def find_binding_prefix)
qed

end
