(* ===== verification/LoRaWan.thy ===== *)
theory LoRaWan
  imports Layers
begin

text \<open>
  The LoRaWAN MAC layer (\<open>crates/comms/src/mac/lorawan.rs\<close>, \<open>session.rs\<close>). The block cipher and the
  CMAC of the \<open>aes\<close> and \<open>cmac\<close> crates are parameters: functions of a key and a block or message. All
  the layer relies on is that both return sixteen bytes (\<open>crypto_ok\<close>).
\<close>

section \<open>Sessions and keys\<close>

record LoRaSession =
  ls_dev_addr :: "u8 list"
  ls_nwk_skey :: "u8 list"
  ls_app_skey :: "u8 list"
  ls_fcnt_up :: u32

definition LoRaSession_new :: "u8 list \<Rightarrow> u8 list \<Rightarrow> u8 list \<Rightarrow> LoRaSession" where
  "LoRaSession_new d n a = \<lparr>ls_dev_addr = d, ls_nwk_skey = n, ls_app_skey = a, ls_fcnt_up = 0\<rparr>"

definition LoRaSession_test_abp :: LoRaSession where
  "LoRaSession_test_abp = LoRaSession_new [0x04, 0x03, 0x02, 0x01] (replicate 16 0) (replicate 16 0)"

record LoRaWanMac =
  lm_dev_addr :: "u8 list"
  lm_nwk_skey :: "u8 list"
  lm_app_skey :: "u8 list"
  lm_fcnt_up :: u32
  lm_fcnt_dn :: u32
  lm_fport :: u8

definition LoRaWanMac_new :: "LoRaSession \<Rightarrow> u8 \<Rightarrow> LoRaWanMac" where
  "LoRaWanMac_new s port =
     \<lparr>lm_dev_addr = ls_dev_addr s, lm_nwk_skey = ls_nwk_skey s, lm_app_skey = ls_app_skey s,
      lm_fcnt_up = ls_fcnt_up s, lm_fcnt_dn = 0, lm_fport = port\<rparr>"

section \<open>Payload encryption and message integrity code\<close>

text \<open>The sixteen bytes of the counter block \<open>A_i\<close> and of the block \<open>B0\<close>.\<close>

definition crypto_block :: "u8 \<Rightarrow> u8 \<Rightarrow> u8 list \<Rightarrow> u32 \<Rightarrow> u8 \<Rightarrow> u8 list" where
  "crypto_block tag dir dev fcnt lst = [tag, 0, 0, 0, 0, dir] @ dev @ le32 fcnt @ [0, lst]"

definition keystream :: "(u8 list \<Rightarrow> u8 list \<Rightarrow> u8 list) \<Rightarrow> nat \<Rightarrow> u8 list \<Rightarrow> u8 list \<Rightarrow> u32 \<Rightarrow> u8 \<Rightarrow> u8 list" where
  "keystream aes num_blocks key dev fcnt dir =
     concat (map (\<lambda>i. aes key (crypto_block 0x01 dir dev fcnt (of_nat i))) [1..<Suc num_blocks]) @
     replicate (256 - 16 * num_blocks) 0"

text \<open>
  A key that is not sixteen bytes long is an error of the cipher; more than sixteen blocks do not fit
  the key stream's array.
\<close>

definition encrypt_frm_payload ::
    "(u8 list \<Rightarrow> u8 list \<Rightarrow> u8 list) \<Rightarrow> u8 list \<Rightarrow> u8 list \<Rightarrow> u8 list \<Rightarrow> u32 \<Rightarrow> u8 \<Rightarrow> (CommsError + u8 list) result" where
  "encrypt_frm_payload aes bytes key dev fcnt dir =
     (if length key \<noteq> 16 then Inr (Inl MacError)
      else let num_blocks = (length bytes + 15) div 16 in
        if num_blocks > 16 then Inl Panic
        else Inr (Inr (map2 xor bytes (keystream aes num_blocks key dev fcnt dir))))"

definition compute_mic ::
    "(u8 list \<Rightarrow> u8 list \<Rightarrow> u8 list) \<Rightarrow> u8 list \<Rightarrow> u8 list \<Rightarrow> u8 list \<Rightarrow> u32 \<Rightarrow> u8 \<Rightarrow> CommsError + u8 list" where
  "compute_mic cmac msg key dev fcnt dir =
     (if length key \<noteq> 16 then Inl MacError
      else Inr (take 4 (cmac key (crypto_block 0x49 dir dev fcnt (of_nat (length msg)) @ msg))))"

section \<open>The layer\<close>

definition mac_header :: "LoRaWanMac \<Rightarrow> u8 list" where
  "mac_header m = [0x40] @ lm_dev_addr m @ [0x00, ucast (lm_fcnt_up m), ucast (drop_bit 8 (lm_fcnt_up m)), lm_fport m]"

definition LoRaWanMac_down ::
    "(u8 list \<Rightarrow> u8 list \<Rightarrow> u8 list) \<Rightarrow> (u8 list \<Rightarrow> u8 list \<Rightarrow> u8 list) \<Rightarrow> LoRaWanMac \<Rightarrow> Frame \<Rightarrow>
     ((CommsError + unit) \<times> LoRaWanMac \<times> Frame) result" where
  "LoRaWanMac_down aes cmac m f0 =
     rbind (Frame_payload f0) (\<lambda>p.
     rbind (encrypt_frm_payload aes p (lm_app_skey m) (lm_dev_addr m) (lm_fcnt_up m) 0) (\<lambda>r. case r of
       Inl e \<Rightarrow> Inr (Inl e, m, f0)
     | Inr enc \<Rightarrow>
     rbind (Frame_payload_mut (\<lambda>_. enc) f0) (\<lambda>f1. case Frame_prepend (mac_header m) f1 of
       Inl e \<Rightarrow> Inr (Inl e, m, f1)
     | Inr f2 \<Rightarrow>
     rbind (Frame_payload f2) (\<lambda>msg. case compute_mic cmac msg (lm_nwk_skey m) (lm_dev_addr m) (lm_fcnt_up m) 0 of
       Inl e \<Rightarrow> Inr (Inl e, m, f2)
     | Inr mic \<Rightarrow>
     rbind (Frame_append_trailer mic f2) (\<lambda>r. case r of
       Inl e \<Rightarrow> Inr (Inl e, m, f2)
     | Inr f3 \<Rightarrow> Inr (Inr (), m\<lparr>lm_fcnt_up := lm_fcnt_up m + 1\<rparr>, f3))))))"

text \<open>The received counter: sixteen bits, extended with zeros.\<close>

definition rx_fcnt :: "u8 list \<Rightarrow> u32" where
  "rx_fcnt p = ucast (of_le [p ! 6, p ! 7] :: u16)"

definition rx_dev_addr :: "u8 list \<Rightarrow> u8 list" where
  "rx_dev_addr p = [p ! 1, p ! 2, p ! 3, p ! 4]"

definition LoRaWanMac_up ::
    "(u8 list \<Rightarrow> u8 list \<Rightarrow> u8 list) \<Rightarrow> (u8 list \<Rightarrow> u8 list \<Rightarrow> u8 list) \<Rightarrow> LoRaWanMac \<Rightarrow> Frame \<Rightarrow>
     ((CommsError + bool) \<times> LoRaWanMac \<times> Frame) result" where
  "LoRaWanMac_up aes cmac m f0 =
     rbind (Frame_len f0) (\<lambda>len. if len < 13 then Inr (Inr False, m, f0) else
     rbind (Frame_trim_trailer 4 f0) (\<lambda>r. case r of
       Inl e \<Rightarrow> Inr (Inl e, m, f0)
     | Inr (mic_recv, f1) \<Rightarrow>
     rbind (Frame_payload f1) (\<lambda>p. let fcnt = rx_fcnt p in
     if rx_dev_addr p \<noteq> lm_dev_addr m then Inr (Inr False, m, f1) else
     case compute_mic cmac p (lm_nwk_skey m) (lm_dev_addr m) fcnt 1 of
       Inl e \<Rightarrow> Inr (Inl e, m, f1)
     | Inr mic_calc \<Rightarrow>
     if mic_recv \<noteq> mic_calc then Inr (Inr False, m, f1) else
     rbind (Frame_strip_header 9 f1) (\<lambda>r. case r of
       Inl e \<Rightarrow> Inr (Inl e, m, f1)
     | Inr (_, f2) \<Rightarrow>
     rbind (Frame_payload f2) (\<lambda>q.
     rbind (encrypt_frm_payload aes q (lm_app_skey m) (lm_dev_addr m) fcnt 1) (\<lambda>r. case r of
       Inl e \<Rightarrow> Inr (Inl e, m, f2)
     | Inr dec \<Rightarrow>
     rbind (Frame_payload_mut (\<lambda>_. dec) f2) (\<lambda>f3. Inr (Inr True, m\<lparr>lm_fcnt_dn := fcnt + 1\<rparr>, f3))))))))"

definition lorawan_layer ::
    "(u8 list \<Rightarrow> u8 list \<Rightarrow> u8 list) \<Rightarrow> (u8 list \<Rightarrow> u8 list \<Rightarrow> u8 list) \<Rightarrow> LoRaWanMac Layer" where
  "lorawan_layer aes cmac = \<lparr>l_down = LoRaWanMac_down aes cmac, l_up = LoRaWanMac_up aes cmac,
     l_on_timeout = Layer_on_timeout, l_set_tx_meta = Layer_set_tx_meta, l_last_rx_meta = Layer_last_rx_meta\<rparr>"

section \<open>Encryption\<close>

definition crypto_ok :: "(u8 list \<Rightarrow> u8 list \<Rightarrow> u8 list) \<Rightarrow> (u8 list \<Rightarrow> u8 list \<Rightarrow> u8 list) \<Rightarrow> bool" where
  "crypto_ok aes cmac \<longleftrightarrow> (\<forall>k b. length (aes k b) = 16) \<and> (\<forall>k m. length (cmac k m) = 16)"

lemma length_keystream:
  assumes "crypto_ok aes cmac" "nb \<le> 16"
  shows "length (keystream aes nb key dev fcnt dir) = 256"
proof -
  have "length (concat (map (\<lambda>i. aes key (crypto_block 0x01 dir dev fcnt (of_nat i))) xs)) = 16 * length xs" for xs :: "nat list"
    using assms(1) by (induction xs) (simp_all add: crypto_ok_def)
  with assms(2) show ?thesis by (cases nb) (simp_all add: keystream_def del: upt_Suc)
qed

lemma map2_xor_twice: "length xs \<le> length ks \<Longrightarrow> map2 xor (map2 xor xs ks) ks = (xs :: 'a::len word list)"
proof (induction xs arbitrary: ks)
  case (Cons x xs)
  then show ?case by (cases ks) (simp_all add: xor.assoc)
qed simp

lemma encrypt_ok:
  assumes "crypto_ok aes cmac" "length key = 16" "length bytes \<le> 255"
  shows "\<exists>enc. encrypt_frm_payload aes bytes key dev fcnt dir = Inr (Inr enc) \<and> length enc = length bytes \<and>
    encrypt_frm_payload aes enc key dev fcnt dir = Inr (Inr bytes)"
proof -
  let ?nb = "(length bytes + 15) div 16"
  have nb: "?nb \<le> 16" using assms(3) by simp
  have l: "length (keystream aes ?nb key dev fcnt dir) = 256" by (rule length_keystream [OF assms(1) nb])
  with assms nb map2_xor_twice [of bytes "keystream aes ?nb key dev fcnt dir"] show ?thesis
    by (simp add: encrypt_frm_payload_def Let_def not_less)
qed

lemma encrypt_cases:
  assumes "crypto_ok aes cmac" "length bytes \<le> 255"
  obtains (err) "length key \<noteq> 16" "encrypt_frm_payload aes bytes key dev fcnt dir = Inr (Inl MacError)"
  | (ok) enc where "length key = 16" "encrypt_frm_payload aes bytes key dev fcnt dir = Inr (Inr enc)"
      "length enc = length bytes"
  using encrypt_ok [OF assms(1) _ assms(2), of key dev fcnt dir]
  by (cases "length key = 16") (auto simp: encrypt_frm_payload_def)

section \<open>Receiving\<close>

text \<open>What makes a received byte sequence a valid downlink for a device.\<close>

definition valid_downlink :: "(u8 list \<Rightarrow> u8 list \<Rightarrow> u8 list) \<Rightarrow> LoRaWanMac \<Rightarrow> u8 list \<Rightarrow> bool" where
  "valid_downlink cmac m c \<longleftrightarrow> 13 \<le> length c \<and>
     (let p = take (length c - 4) c in rx_dev_addr p = lm_dev_addr m \<and>
        compute_mic cmac p (lm_nwk_skey m) (lm_dev_addr m) (rx_fcnt p) 1 = Inr (drop (length c - 4) c))"

definition mac_keys_ok :: "LoRaWanMac \<Rightarrow> bool" where
  "mac_keys_ok m \<longleftrightarrow> length (lm_dev_addr m) = 4 \<and> length (lm_nwk_skey m) = 16 \<and> length (lm_app_skey m) = 16"

lemma LoRaWanMac_up_total:
  assumes c: "crypto_ok aes cmac" and g: "frame_wf g"
  shows "\<exists>r m' g'. LoRaWanMac_up aes cmac m g = Inr (r, m', g') \<and> frame_wf g' \<and>
    (r = Inr True \<longrightarrow> valid_downlink cmac m (content g) \<and>
       encrypt_frm_payload aes (drop 9 (take (length (content g) - 4) (content g))) (lm_app_skey m) (lm_dev_addr m)
         (rx_fcnt (take (length (content g) - 4) (content g))) 1 = Inr (Inr (content g')) \<and>
       m' = m\<lparr>lm_fcnt_dn := rx_fcnt (take (length (content g) - 4) (content g)) + 1\<rparr>) \<and>
    (r \<noteq> Inr True \<longrightarrow> m' = m) \<and>
    (mac_keys_ok m \<longrightarrow> r = Inr (valid_downlink cmac m (content g)))"
proof (cases "length (content g) < 13")
  case False
  let ?n = "length (content g)"
  let ?p = "take (?n - 4) (content g)" and ?mic = "drop (?n - 4) (content g)"
  obtain f1 where f1: "Frame_trim_trailer 4 g = Inr (Inr (?mic, f1))" "frame_wf f1" "content f1 = ?p"
    using Frame_trim_trailer_ok [OF g, of 4] False by auto
  show ?thesis
  proof (cases "rx_dev_addr ?p = lm_dev_addr m \<and> compute_mic cmac ?p (lm_nwk_skey m) (lm_dev_addr m) (rx_fcnt ?p) 1 = Inr ?mic")
    case no: False
    then have "\<not> valid_downlink cmac m (content g)" by (simp add: valid_downlink_def Let_def)
    with no False f1 g show ?thesis
      by (auto simp: LoRaWanMac_up_def Let_def compute_mic_def mac_keys_ok_def)
  next
    case yes: True
    then have v: "valid_downlink cmac m (content g)" using False by (simp add: valid_downlink_def Let_def)
    have "9 \<le> length (content f1)" using False f1(3) by simp
    from Frame_strip_header_ok [OF f1(2) this] obtain f2 where
      f2: "Frame_strip_header 9 f1 = Inr (Inr (take 9 ?p, f2))" "frame_wf f2" "content f2 = drop 9 ?p"
      using f1(3) by auto
    note up = LoRaWanMac_up_def [of aes cmac m g] Let_def False yes f1 f2 g
    show ?thesis
      using c length_content_le [OF f2(2)]
    proof (cases rule: encrypt_cases [where key = "lm_app_skey m" and dev = "lm_dev_addr m" and fcnt = "rx_fcnt ?p" and dir = 1])
      case err
      with up f2 show ?thesis by (simp add: mac_keys_ok_def)
    next
      case (ok dec)
      obtain f3 where "Frame_payload_mut (\<lambda>_. dec) f2 = Inr f3" "frame_wf f3" "content f3 = dec"
        using Frame_payload_mut_ok [OF f2(2), of "\<lambda>_. dec"] ok(3) by auto
      with up ok v f2(3) show ?thesis by simp
    qed
  qed
qed (use g in \<open>simp add: LoRaWanMac_up_def valid_downlink_def\<close>)

lemma encrypt_length:
  assumes "crypto_ok aes cmac" "encrypt_frm_payload aes bytes key dev fcnt dir = Inr (Inr enc)"
  shows "length enc = length bytes"
  using assms length_keystream [OF assms(1)]
  by (auto simp: encrypt_frm_payload_def Let_def not_less split: if_splits)

lemma lorawan_robust:
  assumes "crypto_ok aes cmac"
  shows "layer_robust (lorawan_layer aes cmac) 13"
proof
  fix g and s :: LoRaWanMac
  assume "frame_wf g"
  from LoRaWanMac_up_total [OF assms this, of s] obtain r m' g' where
    u: "LoRaWanMac_up aes cmac s g = Inr (r, m', g')" "frame_wf g'"
    and v: "r = Inr True \<Longrightarrow> valid_downlink cmac s (content g) \<and>
       encrypt_frm_payload aes (drop 9 (take (length (content g) - 4) (content g))) (lm_app_skey s) (lm_dev_addr s)
         (rx_fcnt (take (length (content g) - 4) (content g))) 1 = Inr (Inr (content g'))"
    by metis
  have "length (content g) = 13 + length (content g')" if "r = Inr True"
    using v [OF that] encrypt_length [OF assms] by (force simp: valid_downlink_def)
  with u show "\<exists>r s' g'. l_up (lorawan_layer aes cmac) s g = Inr (r, s', g') \<and> frame_wf g' \<and>
      (r = Inr True \<longrightarrow> length (content g) = 13 + length (content g'))"
    by (auto simp: lorawan_layer_def)
qed

section \<open>Sending\<close>

lemma length_mac_header: "mac_keys_ok m \<Longrightarrow> length (mac_header m) = 9"
  by (simp add: mac_header_def mac_keys_ok_def)

text \<open>An uplink is the header, the encrypted payload and the code over both; the counter advances.\<close>

lemma LoRaWanMac_down_ok:
  assumes "crypto_ok aes cmac" "mac_keys_ok m" "frame_wf f" "9 \<le> unat (fr_start f)" "unat (fr_end f) + 4 \<le> 255"
  shows "\<exists>enc mic f'. encrypt_frm_payload aes (content f) (lm_app_skey m) (lm_dev_addr m) (lm_fcnt_up m) 0 = Inr (Inr enc) \<and>
    compute_mic cmac (mac_header m @ enc) (lm_nwk_skey m) (lm_dev_addr m) (lm_fcnt_up m) 0 = Inr mic \<and>
    LoRaWanMac_down aes cmac m f = Inr (Inr (), m\<lparr>lm_fcnt_up := lm_fcnt_up m + 1\<rparr>, f') \<and> frame_wf f' \<and>
    content f' = mac_header m @ enc @ mic \<and> length enc = length (content f) \<and> length mic = 4 \<and>
    unat (fr_start f') = unat (fr_start f) - 9 \<and> unat (fr_end f') = unat (fr_end f) + 4"
proof -
  from assms(2) have k: "length (lm_app_skey m) = 16" "length (lm_nwk_skey m) = 16" by (simp_all add: mac_keys_ok_def)
  obtain enc where e: "encrypt_frm_payload aes (content f) (lm_app_skey m) (lm_dev_addr m) (lm_fcnt_up m) 0 = Inr (Inr enc)"
    "length enc = length (content f)"
    using encrypt_ok [OF assms(1) k(1) length_content_le [OF assms(3)], of "lm_dev_addr m" "lm_fcnt_up m" 0] by auto
  obtain f1 where f1: "Frame_payload_mut (\<lambda>_. enc) f = Inr f1" "frame_wf f1" "content f1 = enc"
    "fr_start f1 = fr_start f" "fr_end f1 = fr_end f"
    using Frame_payload_mut_ok [OF assms(3), of "\<lambda>_. enc"] e(2) by auto
  obtain f2 where f2: "Frame_prepend (mac_header m) f1 = Inr f2" "frame_wf f2" "content f2 = mac_header m @ enc"
    "unat (fr_start f2) = unat (fr_start f) - 9" "fr_end f2 = fr_end f"
    using Frame_prepend_ok [OF f1(2), of "mac_header m"] length_mac_header [OF assms(2)] assms(4) f1(3-5) by auto
  obtain mic where mic: "compute_mic cmac (mac_header m @ enc) (lm_nwk_skey m) (lm_dev_addr m) (lm_fcnt_up m) 0 = Inr mic"
    "length mic = 4"
    using k(2) assms(1) by (auto simp: compute_mic_def crypto_ok_def)
  obtain f3 where f3: "Frame_append_trailer mic f2 = Inr (Inr f3)" "frame_wf f3" "content f3 = (mac_header m @ enc) @ mic"
    "fr_start f3 = fr_start f2" "unat (fr_end f3) = unat (fr_end f) + 4"
    using Frame_append_trailer_ok [OF f2(2), of mic] mic(2) assms(5) f2(3,5) by auto
  have "LoRaWanMac_down aes cmac m f = Inr (Inr (), m\<lparr>lm_fcnt_up := lm_fcnt_up m + 1\<rparr>, f3)"
    by (simp add: LoRaWanMac_down_def assms(3) e(1) f1(1) f2(1,2,3) mic(1) f3(1))
  with e f2(4) f3 mic show ?thesis by auto
qed

text \<open>
  A network server's downlink: the LoRaWAN data message to the device with a sixteen-bit frame
  counter, encrypted and signed with the session's keys for the downlink direction.
\<close>

definition server_downlink ::
    "(u8 list \<Rightarrow> u8 list \<Rightarrow> u8 list) \<Rightarrow> (u8 list \<Rightarrow> u8 list \<Rightarrow> u8 list) \<Rightarrow> LoRaWanMac \<Rightarrow> u8 \<Rightarrow> u16 \<Rightarrow> u8 list \<Rightarrow> u8 list" where
  "server_downlink aes cmac m port fcnt payload =
     (case encrypt_frm_payload aes payload (lm_app_skey m) (lm_dev_addr m) (ucast fcnt) 1 of
        Inr (Inr enc) \<Rightarrow>
          let msg = [0x60] @ lm_dev_addr m @ [0x00] @ le16 fcnt @ [port] @ enc in
          (case compute_mic cmac msg (lm_nwk_skey m) (lm_dev_addr m) (ucast fcnt) 1 of
             Inr mic \<Rightarrow> msg @ mic
           | Inl _ \<Rightarrow> [])
      | _ \<Rightarrow> [])"

lemma list_of_4: "length xs = 4 \<Longrightarrow> xs = [xs ! 0, xs ! 1, xs ! 2, xs ! 3]"
  by (auto intro!: nth_equalityI simp: less_Suc_eq numeral_eq_Suc)

lemma server_downlink_parts:
  assumes "crypto_ok aes cmac" "mac_keys_ok m" "length payload \<le> 242"
  shows "\<exists>enc msg mic. server_downlink aes cmac m port fcnt payload = msg @ mic \<and> length mic = 4 \<and>
    length msg = 9 + length payload \<and> rx_dev_addr msg = lm_dev_addr m \<and> rx_fcnt msg = ucast fcnt \<and> drop 9 msg = enc \<and>
    compute_mic cmac msg (lm_nwk_skey m) (lm_dev_addr m) (ucast fcnt) 1 = Inr mic \<and>
    encrypt_frm_payload aes enc (lm_app_skey m) (lm_dev_addr m) (ucast fcnt) 1 = Inr (Inr payload)"
proof -
  from assms(2) have k: "length (lm_app_skey m) = 16" "length (lm_nwk_skey m) = 16" "length (lm_dev_addr m) = 4"
    by (simp_all add: mac_keys_ok_def)
  obtain enc where e: "encrypt_frm_payload aes payload (lm_app_skey m) (lm_dev_addr m) (ucast fcnt) 1 = Inr (Inr enc)"
    "length enc = length payload" "encrypt_frm_payload aes enc (lm_app_skey m) (lm_dev_addr m) (ucast fcnt) 1 = Inr (Inr payload)"
    using encrypt_ok [OF assms(1) k(1), of payload "lm_dev_addr m" "ucast fcnt" 1] assms(3) by auto
  define msg where "msg = [0x60] @ lm_dev_addr m @ [0x00] @ le16 fcnt @ [port] @ enc"
  obtain mic where mic: "compute_mic cmac msg (lm_nwk_skey m) (lm_dev_addr m) (ucast fcnt) 1 = Inr mic" "length mic = 4"
    using k(2) assms(1) by (auto simp: compute_mic_def crypto_ok_def)
  obtain a b c d where dev: "lm_dev_addr m = [a, b, c, d]" using list_of_4 [OF k(3)] by blast
  have "of_le [ucast fcnt, ucast (drop_bit 8 fcnt)] = fcnt" using of_le_le16 [of fcnt] unfolding le16_def .
  then have "rx_dev_addr msg = lm_dev_addr m" "rx_fcnt msg = ucast fcnt" "drop 9 msg = enc" "length msg = 9 + length payload"
    using e(2) by (simp_all add: msg_def dev rx_dev_addr_def rx_fcnt_def le16_def del: of_le.simps)
  moreover have "server_downlink aes cmac m port fcnt payload = msg @ mic"
    using e(1) mic(1) by (simp add: server_downlink_def Let_def msg_def)
  ultimately show ?thesis using e(3) mic by blast
qed

section \<open>Properties\<close>

text \<open>
  C21: (authenticity) Whatever bytes are received, the layer returns without a fault; it accepts a frame
  exactly when it is long enough, carries the device's address and its integrity code verifies under
  the network session key, and only its downlink counter changes. The counter plays no part in the
  decision: the same frame is accepted again.
\<close>

theorem LoRaWanMac_up_authentic:
  assumes "crypto_ok aes cmac" "mac_keys_ok m" "frame_wf g"
  shows "\<exists>m' g'. LoRaWanMac_up aes cmac m g = Inr (Inr (valid_downlink cmac m (content g)), m', g') \<and> frame_wf g' \<and>
    m'\<lparr>lm_fcnt_dn := lm_fcnt_dn m\<rparr> = m \<and>
    (\<exists>m'' g''. LoRaWanMac_up aes cmac m' g = Inr (Inr (valid_downlink cmac m (content g)), m'', g''))"
proof -
  from LoRaWanMac_up_total [OF assms(1,3), of m] assms(2) obtain m' g' where
    1: "LoRaWanMac_up aes cmac m g = Inr (Inr (valid_downlink cmac m (content g)), m', g')" "frame_wf g'"
    and m': "m' = m \<or> (\<exists>n. m' = m\<lparr>lm_fcnt_dn := n\<rparr>)" by metis
  then have "mac_keys_ok m'" "valid_downlink cmac m' (content g) = valid_downlink cmac m (content g)"
    using assms(2) by (auto simp: mac_keys_ok_def valid_downlink_def Let_def)
  with LoRaWanMac_up_total [OF assms(1,3), of m']
  have "\<exists>m'' g''. LoRaWanMac_up aes cmac m' g = Inr (Inr (valid_downlink cmac m (content g)), m'', g'')" by metis
  with 1 m' show ?thesis by auto
qed

text \<open>
  C22: (downlink round trip) A downlink of at most 242 bytes that a server with the session's keys builds
  for the device, with any sixteen-bit frame counter, is accepted by the device and decrypts to the
  server's payload.
\<close>

theorem LoRaWanMac_downlink_round_trip:
  assumes "crypto_ok aes cmac" "mac_keys_ok m" "length payload \<le> 242"
    "frame_wf g" "content g = server_downlink aes cmac m port fcnt payload"
  shows "\<exists>g'. LoRaWanMac_up aes cmac m g = Inr (Inr True, m\<lparr>lm_fcnt_dn := ucast fcnt + 1\<rparr>, g') \<and>
    frame_wf g' \<and> content g' = payload"
proof -
  obtain enc msg mic where d: "server_downlink aes cmac m port fcnt payload = msg @ mic" "length mic = 4"
    "length msg = 9 + length payload" "rx_dev_addr msg = lm_dev_addr m" "rx_fcnt msg = ucast fcnt" "drop 9 msg = enc"
    "compute_mic cmac msg (lm_nwk_skey m) (lm_dev_addr m) (ucast fcnt) 1 = Inr mic"
    "encrypt_frm_payload aes enc (lm_app_skey m) (lm_dev_addr m) (ucast fcnt) 1 = Inr (Inr payload)"
    using server_downlink_parts [OF assms(1-3), of port fcnt] by blast
  with assms(5) have c: "content g = msg @ mic" by simp
  have "valid_downlink cmac m (content g)" using c d by (simp add: valid_downlink_def Let_def)
  with LoRaWanMac_up_total [OF assms(1,4), of m] assms(2) c d show ?thesis by auto
qed

text \<open>A stand-in cipher and code for the witnesses: bytes folded into sixteen.\<close>

definition demo_aes :: "u8 list \<Rightarrow> u8 list \<Rightarrow> u8 list" where
  "demo_aes k b = map (\<lambda>i. foldr xor b (of_nat i)) [0..<16]"

definition demo_mac :: LoRaWanMac where
  "demo_mac = LoRaWanMac_new LoRaSession_test_abp 1"

lemma demo_crypto_ok: "crypto_ok demo_aes demo_aes"
  by (simp add: crypto_ok_def demo_aes_def)

lemma demo_keys_ok: "mac_keys_ok demo_mac"
  by (simp add: mac_keys_ok_def demo_mac_def LoRaWanMac_new_def LoRaSession_test_abp_def LoRaSession_new_def)

theorem LoRaWanMac_up_authentic_witness:
  "\<exists>m' g'. LoRaWanMac_up demo_aes demo_aes demo_mac Frame_new =
     Inr (Inr (valid_downlink demo_aes demo_mac []), m', g')"
  using LoRaWanMac_up_authentic [OF demo_crypto_ok demo_keys_ok frame_wf_new] by auto

theorem LoRaWanMac_downlink_round_trip_witness:
  "\<exists>g g'. frame_wf g \<and> content g = server_downlink demo_aes demo_aes demo_mac 2 7 [10, 20, 30] \<and>
     LoRaWanMac_up demo_aes demo_aes demo_mac g = Inr (Inr True, demo_mac\<lparr>lm_fcnt_dn := 8\<rparr>, g') \<and>
     content g' = [10, 20, 30]"
proof -
  let ?c = "server_downlink demo_aes demo_aes demo_mac 2 7 [10, 20, 30]"
  have "length ?c = 16"
    using server_downlink_parts [OF demo_crypto_ok demo_keys_ok, of "[10, 20, 30]" 2 7] by auto
  then obtain g where g: "frame_wf g" "content g = ?c"
    using Frame_write_payload_ok [OF frame_wf_new, of ?c] by (auto simp: MAX_FRAME_def FRAME_HEADROOM_def)
  from LoRaWanMac_downlink_round_trip [OF demo_crypto_ok demo_keys_ok _ g] g show ?thesis by auto
qed

end
