(* ===== verification/RfPhy.thy ===== *)
theory RfPhy
  imports LoRaWan
begin

text \<open>
  The radio interface of the stack (\<open>hal/src/rf.rs\<close>) as a dictionary of operations on a radio's state,
  the two radios of the crate that need no hardware (\<open>crates/comms/src/phy/loopback.rs\<close>,
  \<open>null_rf.rs\<close>), and the composition of layers over a radio, \<open>RfStack\<close> (\<open>crates/comms/src/stack.rs\<close>).
\<close>

section \<open>Radios\<close>

datatype RadioMode = Sleep | Standby | RxMode "u32 option" | TxMode | Cad

record RxMetadata =
  rm_rssi_dbm :: "16 word"
  rm_snr_db_x10 :: "16 word"
  rm_timestamp :: u32
  rm_pkt_len :: u8

datatype PhyEvent = TxDone | RxDone RxMetadata | RxTimeout | CrcError | CadDone bool | PreambleDetected

definition RxMetadata_default :: RxMetadata where
  "RxMetadata_default = \<lparr>rm_rssi_dbm = 0, rm_snr_db_x10 = 0, rm_timestamp = 0, rm_pkt_len = 0\<rparr>"

datatype SpreadingFactor = SF7 | SF8 | SF9 | SF10 | SF11 | SF12
datatype Bandwidth = Bw125 | Bw250 | Bw500
datatype CodingRate = Cr45 | Cr46 | Cr47 | Cr48

record LoRaModulation =
  mod_sf :: SpreadingFactor
  mod_bw :: Bandwidth
  mod_cr :: CodingRate
  mod_preamble :: u16

record FskModulation =
  fsk_bitrate_bps :: u32
  fsk_deviation_hz :: u32
  fsk_rx_bandwidth :: u32

datatype RadioParams = LoRaParams LoRaModulation | FskParams FskModulation

record RfTxConfig =
  tx_frequency_hz :: u32
  tx_power_dbm :: u8
  tx_params :: RadioParams

record RfRxConfig =
  rx_frequency_hz :: u32
  rx_timeout_ms :: "u32 option"
  rx_params :: RadioParams

text \<open>
  \<open>read_rx\<close> writes into the buffer it is lent, of unchanged length; \<open>set_mode\<close> may panic, because a chip's
  driver converts the time-out to its own unit in checked arithmetic.
\<close>

record 'h RfPhy =
  phy_init :: "'h \<Rightarrow> (HalError + unit) \<times> 'h"
  phy_set_mode :: "RadioMode \<Rightarrow> 'h \<Rightarrow> ((HalError + unit) \<times> 'h) result"
  phy_configure_tx :: "RfTxConfig \<Rightarrow> 'h \<Rightarrow> (HalError + unit) \<times> 'h"
  phy_configure_rx :: "RfRxConfig \<Rightarrow> 'h \<Rightarrow> (HalError + unit) \<times> 'h"
  phy_transmit :: "u8 list \<Rightarrow> 'h \<Rightarrow> (HalError + unit) \<times> 'h"
  phy_read_rx :: "u8 list \<Rightarrow> RxMetadata \<Rightarrow> 'h \<Rightarrow> (HalError + unit) \<times> u8 list \<times> 'h"
  phy_poll_irq :: "'h \<Rightarrow> (HalError + PhyEvent option) \<times> 'h"
  phy_clear_irq :: "'h \<Rightarrow> (HalError + unit) \<times> 'h"
  phy_rssi :: "'h \<Rightarrow> (HalError + 16 word) \<times> 'h"
  phy_chip_name :: string

section \<open>Loopback radio\<close>

record LoopbackPhy =
  lb_rx_queue :: "(u8 list \<times> RxMetadata) list"
  lb_pending_rx :: "u8 list option"

definition LoopbackPhy_new :: LoopbackPhy where
  "LoopbackPhy_new = \<lparr>lb_rx_queue = [], lb_pending_rx = None\<rparr>"

definition LoopbackPhy_inject :: "u8 list \<Rightarrow> LoopbackPhy \<Rightarrow> LoopbackPhy" where
  "LoopbackPhy_inject bytes h = h\<lparr>lb_rx_queue := lb_rx_queue h @ [(bytes, RxMetadata_default)]\<rparr>"

definition LoopbackPhy_transmit :: "u8 list \<Rightarrow> LoopbackPhy \<Rightarrow> (HalError + unit) \<times> LoopbackPhy" where
  "LoopbackPhy_transmit bytes h = (Inr (), h\<lparr>lb_rx_queue := lb_rx_queue h @ [(bytes, RxMetadata_default)]\<rparr>)"

definition LoopbackPhy_read_rx ::
    "u8 list \<Rightarrow> RxMetadata \<Rightarrow> LoopbackPhy \<Rightarrow> (HalError + unit) \<times> u8 list \<times> LoopbackPhy" where
  "LoopbackPhy_read_rx buf meta h =
     (case lb_pending_rx h of
        Some bytes \<Rightarrow>
          let len = min (length bytes) (length buf)
          in (Inr (), copy_at 0 (take len bytes) buf, h\<lparr>lb_pending_rx := None\<rparr>)
      | None \<Rightarrow> (Inr (), buf, h))"

definition LoopbackPhy_poll_irq :: "LoopbackPhy \<Rightarrow> (HalError + PhyEvent option) \<times> LoopbackPhy" where
  "LoopbackPhy_poll_irq h =
     (case lb_rx_queue h of
        (bytes, meta) # q \<Rightarrow>
          (Inr (Some (RxDone (meta\<lparr>rm_pkt_len := of_nat (length bytes)\<rparr>))),
           h\<lparr>lb_rx_queue := q, lb_pending_rx := Some bytes\<rparr>)
      | [] \<Rightarrow> (Inr None, h))"

definition loopback_phy :: "LoopbackPhy RfPhy" where
  "loopback_phy = \<lparr>phy_init = (\<lambda>h. (Inr (), h)), phy_set_mode = (\<lambda>_ h. Inr (Inr (), h)),
     phy_configure_tx = (\<lambda>_ h. (Inr (), h)), phy_configure_rx = (\<lambda>_ h. (Inr (), h)),
     phy_transmit = LoopbackPhy_transmit, phy_read_rx = LoopbackPhy_read_rx, phy_poll_irq = LoopbackPhy_poll_irq,
     phy_clear_irq = (\<lambda>h. (Inr (), h)), phy_rssi = (\<lambda>h. (Inr (- 50), h)), phy_chip_name = ''Loopback''\<rparr>"

section \<open>Null radio\<close>

text \<open>Its print-out of each transmission is the list of transmitted byte strings.\<close>

record NullRf =
  nr_tx_done_pending :: bool
  nr_printed :: "u8 list list"

definition NullRf_new :: NullRf where
  "NullRf_new = \<lparr>nr_tx_done_pending = False, nr_printed = []\<rparr>"

definition NullRf_transmit :: "u8 list \<Rightarrow> NullRf \<Rightarrow> (HalError + unit) \<times> NullRf" where
  "NullRf_transmit bytes h = (Inr (), h\<lparr>nr_printed := nr_printed h @ [bytes], nr_tx_done_pending := True\<rparr>)"

definition NullRf_poll_irq :: "NullRf \<Rightarrow> (HalError + PhyEvent option) \<times> NullRf" where
  "NullRf_poll_irq h =
     (if nr_tx_done_pending h then (Inr (Some TxDone), h\<lparr>nr_tx_done_pending := False\<rparr>) else (Inr None, h))"

definition null_phy :: "NullRf RfPhy" where
  "null_phy = \<lparr>phy_init = (\<lambda>h. (Inr (), h)), phy_set_mode = (\<lambda>_ h. Inr (Inr (), h)),
     phy_configure_tx = (\<lambda>_ h. (Inr (), h)), phy_configure_rx = (\<lambda>_ h. (Inr (), h)),
     phy_transmit = NullRf_transmit, phy_read_rx = (\<lambda>buf _ h. (Inr (), buf, h)), phy_poll_irq = NullRf_poll_irq,
     phy_clear_irq = (\<lambda>h. (Inr (), h)), phy_rssi = (\<lambda>h. (Inr (- 50), h)), phy_chip_name = ''NullRf''\<rparr>"

section \<open>The stack\<close>

record ('t, 'n, 'm, 'h) RfStack =
  st_transport :: 't
  st_network :: 'n
  st_mac :: 'm
  st_phy :: 'h

text \<open>The code of the stack's type parameters: three layers and a radio.\<close>

record ('t, 'n, 'm, 'h) StackImpl =
  im_transport :: "'t Layer"
  im_network :: "'n Layer"
  im_mac :: "'m Layer"
  im_phy :: "'h RfPhy"

definition RfStack_new :: "'t \<Rightarrow> 'n \<Rightarrow> 'm \<Rightarrow> 'h \<Rightarrow> ('t, 'n, 'm, 'h) RfStack" where
  "RfStack_new t n m h = \<lparr>st_transport = t, st_network = n, st_mac = m, st_phy = h\<rparr>"

definition RfStack_build_frame ::
    "('t, 'n, 'm, 'h) StackImpl \<Rightarrow> u8 list \<Rightarrow> ('t, 'n, 'm, 'h) RfStack \<Rightarrow>
     ((CommsError + Frame) \<times> ('t, 'n, 'm, 'h) RfStack) result" where
  "RfStack_build_frame I payload st =
     (case Frame_write_payload payload Frame_new of
        Inl e \<Rightarrow> Inr (Inl e, st)
      | Inr f0 \<Rightarrow>
     rbind (l_down (im_transport I) (st_transport st) f0) (\<lambda>(r, t, f1).
       let st = st\<lparr>st_transport := t\<rparr> in case r of Inl e \<Rightarrow> Inr (Inl e, st) | Inr _ \<Rightarrow>
     rbind (l_down (im_network I) (st_network st) f1) (\<lambda>(r, n, f2).
       let st = st\<lparr>st_network := n\<rparr> in case r of Inl e \<Rightarrow> Inr (Inl e, st) | Inr _ \<Rightarrow>
     rbind (l_down (im_mac I) (st_mac st) f2) (\<lambda>(r, m, f3).
       let st = st\<lparr>st_mac := m\<rparr> in case r of Inl e \<Rightarrow> Inr (Inl e, st) | Inr _ \<Rightarrow> Inr (Inr f3, st)))))"

text \<open>\<open>transmit\<close> repeats the same three steps and hands the frame to the radio.\<close>

definition RfStack_transmit ::
    "('t, 'n, 'm, 'h) StackImpl \<Rightarrow> u8 list \<Rightarrow> RfTxConfig \<Rightarrow> ('t, 'n, 'm, 'h) RfStack \<Rightarrow>
     ((CommsError + unit) \<times> ('t, 'n, 'm, 'h) RfStack) result" where
  "RfStack_transmit I payload cfg st =
     rbind (RfStack_build_frame I payload st) (\<lambda>(r, st). case r of
       Inl e \<Rightarrow> Inr (Inl e, st)
     | Inr f \<Rightarrow> (case phy_configure_tx (im_phy I) cfg (st_phy st) of
         (Inl e, h) \<Rightarrow> Inr (Inl (Hardware e), st\<lparr>st_phy := h\<rparr>)
       | (Inr _, h) \<Rightarrow>
           rbind (Frame_phy_bytes f) (\<lambda>bytes. case phy_transmit (im_phy I) bytes h of
             (Inl e, h) \<Rightarrow> Inr (Inl (Hardware e), st\<lparr>st_phy := h\<rparr>)
           | (Inr _, h) \<Rightarrow> Inr (Inr (), st\<lparr>st_phy := h\<rparr>))))"

definition RfStack_receive_raw ::
    "('t, 'n, 'm, 'h) StackImpl \<Rightarrow> Frame \<Rightarrow> ('t, 'n, 'm, 'h) RfStack \<Rightarrow>
     ((CommsError + Frame option) \<times> Frame \<times> ('t, 'n, 'm, 'h) RfStack) result" where
  "RfStack_receive_raw I f st =
     rbind (l_up (im_mac I) (st_mac st) f) (\<lambda>(r, m, f).
       let st = st\<lparr>st_mac := m\<rparr> in
       case r of Inl e \<Rightarrow> Inr (Inl e, f, st) | Inr False \<Rightarrow> Inr (Inr None, f, st) | Inr True \<Rightarrow>
     rbind (l_up (im_network I) (st_network st) f) (\<lambda>(r, n, f).
       let st = st\<lparr>st_network := n\<rparr> in
       case r of Inl e \<Rightarrow> Inr (Inl e, f, st) | Inr False \<Rightarrow> Inr (Inr None, f, st) | Inr True \<Rightarrow>
     rbind (l_up (im_transport I) (st_transport st) f) (\<lambda>(r, t, f).
       let st = st\<lparr>st_transport := t\<rparr> in
       case r of Inl e \<Rightarrow> Inr (Inl e, f, st) | Inr False \<Rightarrow> Inr (Inr None, f, st) | Inr True \<Rightarrow>
     rbind (Frame_payload f) (\<lambda>p. case Frame_write_payload p Frame_new of
       Inl e \<Rightarrow> Inr (Inl e, f, st)
     | Inr out \<Rightarrow> Inr (Inr (Some out), f, st)))))"

section \<open>Stacks of codecs\<close>

text \<open>Three codecs whose headers fit the headroom of a frame.\<close>

locale codec_stack =
  T: layer_codec T ht tt aT fT + N: layer_codec N hn tn aN fN + M: layer_codec M hm tm aM fM
  for T :: "'t Layer" and ht tt aT fT and N :: "'n Layer" and hn tn aN fN
    and M :: "'m Layer" and hm tm aM fM +
  assumes headroom: "ht + hn + hm \<le> FRAME_HEADROOM"
begin

lemma build_frame_parts:
  assumes "im_transport I = T" "im_network I = N" "im_mac I = M"
    and "length payload + tt + tn + tm < MAX_FRAME - FRAME_HEADROOM"
  shows "\<exists>t n m f0 f1 f2 f3. frame_wf f0 \<and> frame_wf f1 \<and> frame_wf f2 \<and> frame_wf f3 \<and> content f0 = payload \<and>
    l_down T (st_transport s) f0 = Inr (Inr (), t, f1) \<and> l_down N (st_network s) f1 = Inr (Inr (), n, f2) \<and>
    l_down M (st_mac s) f2 = Inr (Inr (), m, f3) \<and>
    RfStack_build_frame I payload s = Inr (Inr f3, s\<lparr>st_transport := t, st_network := n, st_mac := m\<rparr>)"
proof -
  from assms(4) have len: "length payload + tt + tn + tm < 224" "length payload < MAX_FRAME - FRAME_HEADROOM"
    by (simp_all add: MAX_FRAME_def FRAME_HEADROOM_def)
  obtain f0 where f0: "Frame_write_payload payload Frame_new = Inr f0" "frame_wf f0" "content f0 = payload"
    "unat (fr_start f0) = 32" "unat (fr_end f0) = 32 + length payload"
    using Frame_write_payload_ok [OF frame_wf_new len(2)] by (auto simp: FRAME_HEADROOM_def)
  have h: "ht \<le> 32" "hn \<le> 32 - ht" "hm \<le> 32 - ht - hn" using headroom by (auto simp: FRAME_HEADROOM_def)
  obtain t f1 where f1: "l_down T (st_transport s) f0 = Inr (Inr (), t, f1)" "frame_wf f1"
    "unat (fr_start f1) = 32 - ht" "unat (fr_end f1) = 32 + length payload + tt"
    using T.down_fits [OF f0(2), of "st_transport s"] f0(4,5) h len(1) by auto
  obtain n f2 where f2: "l_down N (st_network s) f1 = Inr (Inr (), n, f2)" "frame_wf f2"
    "unat (fr_start f2) = 32 - ht - hn" "unat (fr_end f2) = 32 + length payload + tt + tn"
    using N.down_fits [OF f1(2), of "st_network s"] f1(3,4) h len(1) by auto
  obtain m f3 where f3: "l_down M (st_mac s) f2 = Inr (Inr (), m, f3)" "frame_wf f3"
    using M.down_fits [OF f2(2), of "st_mac s"] f2(3,4) h len(1) by auto
  have "RfStack_build_frame I payload s = Inr (Inr f3, s\<lparr>st_transport := t, st_network := n, st_mac := m\<rparr>)"
    by (simp add: RfStack_build_frame_def f0(1) f1(1) f2(1) f3(1) assms(1-3) Let_def)
  with f0(2,3) f1(1,2) f2(1,2) f3 show ?thesis by blast
qed

lemma round_trip:
  assumes I: "im_transport I = T" "im_network I = N" "im_mac I = M"
    and len: "length payload + tt + tn + tm < MAX_FRAME - FRAME_HEADROOM"
    and acc: "aT (st_transport s) (st_transport r)" "aN (st_network s) (st_network r)" "aM (st_mac s) (st_mac r)"
  shows "\<exists>f s'. RfStack_build_frame I payload s = Inr (Inr f, s') \<and> frame_wf f \<and>
    (\<forall>g. frame_wf g \<and> content g = content f \<longrightarrow>
      (\<exists>out g'. RfStack_receive_raw I g r = Inr (Inr (Some out), g',
          r\<lparr>st_transport := fT (st_transport s) (st_transport r), st_network := fN (st_network s) (st_network r),
            st_mac := fM (st_mac s) (st_mac r)\<rparr>) \<and>
        frame_wf out \<and> content out = payload))"
proof -
  obtain t n m f0 f1 f2 f3 where f: "frame_wf f0" "frame_wf f1" "frame_wf f2" "frame_wf f3" "content f0 = payload"
    "l_down T (st_transport s) f0 = Inr (Inr (), t, f1)" "l_down N (st_network s) f1 = Inr (Inr (), n, f2)"
    "l_down M (st_mac s) f2 = Inr (Inr (), m, f3)"
    "RfStack_build_frame I payload s = Inr (Inr f3, s\<lparr>st_transport := t, st_network := n, st_mac := m\<rparr>)"
    using build_frame_parts [OF I len, of s] by blast
  have "\<exists>out g'. RfStack_receive_raw I g r = Inr (Inr (Some out), g',
      r\<lparr>st_transport := fT (st_transport s) (st_transport r), st_network := fN (st_network s) (st_network r),
        st_mac := fM (st_mac s) (st_mac r)\<rparr>) \<and> frame_wf out \<and> content out = payload"
    if g: "frame_wf g" "content g = content f3" for g
  proof -
    obtain g1 where g1: "l_up M (st_mac r) g = Inr (Inr True, fM (st_mac s) (st_mac r), g1)" "frame_wf g1"
      "content g1 = content f2" using M.up_down [OF f(3,8) acc(3) g] by blast
    obtain g2 where g2: "l_up N (st_network r) g1 = Inr (Inr True, fN (st_network s) (st_network r), g2)" "frame_wf g2"
      "content g2 = content f1" using N.up_down [OF f(2,7) acc(2) g1(2,3)] by blast
    obtain g3 where g3: "l_up T (st_transport r) g2 = Inr (Inr True, fT (st_transport s) (st_transport r), g3)"
      "frame_wf g3" "content g3 = payload" using T.up_down [OF f(1,6) acc(1) g2(2,3)] f(5) by auto
    from len have "length payload < MAX_FRAME - FRAME_HEADROOM" by simp
    from Frame_write_payload_ok [OF frame_wf_new this] obtain out where
      "Frame_write_payload payload Frame_new = Inr out" "frame_wf out" "content out = payload" by blast
    then show ?thesis by (simp add: RfStack_receive_raw_def Let_def I g1(1) g2(1) g3)
  qed
  with f(4,9) show ?thesis by blast
qed

end

interpretation rnn: codec_stack reliable_layer 5 0 rt_accepts "\<lambda>s r. r\<lparr>rt_acked := rt_seq s\<rparr>"
  network_layer 5 0 nw_accepts "\<lambda>s r. r\<lparr>nw_last_rx_src := nw_address s, nw_last_rx_kind := nw_pending_kind s\<rparr>"
  noop_layer 0 0 "\<lambda>s r. True" "\<lambda>s r. r"
  by unfold_locales (simp add: FRAME_HEADROOM_def)

interpretation unn: codec_stack unreliable_layer 5 0 "\<lambda>s r. True" "\<lambda>s r. r"
  noop_layer 0 0 "\<lambda>s r. True" "\<lambda>s r. r" noop_layer 0 0 "\<lambda>s r. True" "\<lambda>s r. r"
  by unfold_locales (simp add: FRAME_HEADROOM_def)

section \<open>Receiving arbitrary bytes\<close>

locale robust_stack =
  T: layer_robust T kt + N: layer_robust N kn + M: layer_robust M km
  for T :: "'t Layer" and kt and N :: "'n Layer" and kn and M :: "'m Layer" and km
begin

text \<open>
  A received frame is delivered intact, dropped or refused, unless exactly 224 bytes are left of it:
  then the frame handed up cannot be read.
\<close>

lemma receive_raw_total:
  assumes I: "im_transport I = T" "im_network I = N" "im_mac I = M" and g: "frame_wf g"
  shows "\<exists>r g' st'. RfStack_receive_raw I g st = Inr (r, g', st') \<and> st_phy st' = st_phy st \<and>
    (\<forall>f. r = Inr (Some f) \<longrightarrow> (if length (content g) = km + kn + kt + 224 then Frame_payload f = Inl Panic
       else frame_wf f \<and> length (content g) = km + kn + kt + length (content f) \<and> length (content f) < 224))"
proof -
  obtain r1 m g1 where 1: "l_up M (st_mac st) g = Inr (r1, m, g1)" "frame_wf g1"
    "r1 = Inr True \<Longrightarrow> length (content g) = km + length (content g1)" using M.up_total [OF g] by blast
  obtain r2 n g2 where 2: "l_up N (st_network st) g1 = Inr (r2, n, g2)" "frame_wf g2"
    "r2 = Inr True \<Longrightarrow> length (content g1) = kn + length (content g2)" using N.up_total [OF 1(2)] by blast
  obtain r3 t g3 where 3: "l_up T (st_transport st) g2 = Inr (r3, t, g3)" "frame_wf g3"
    "r3 = Inr True \<Longrightarrow> length (content g2) = kt + length (content g3)" using T.up_total [OF 2(2)] by blast
  note w = Frame_write_payload_cases [OF frame_wf_new, of "content g3"]
  show ?thesis
  proof (cases "r1 = Inr True \<and> r2 = Inr True \<and> r3 = Inr True")
    case True
    with 1(3) 2(3) 3(3) have "length (content g) = km + kn + kt + length (content g3)" by simp
    with True w show ?thesis
      by (auto simp: RfStack_receive_raw_def Let_def I 1(1) 2(1) 3(1,2) split: sum.splits)
  next
    case False
    then show ?thesis
      by (auto simp: RfStack_receive_raw_def Let_def I 1(1) 2(1) 3(1) split: sum.splits bool.splits)
  qed
qed

end

interpretation rnr: robust_stack reliable_layer 5 network_layer 5 noop_layer 0
  by unfold_locales

interpretation unr: robust_stack unreliable_layer 5 noop_layer 0 noop_layer 0
  by unfold_locales

lemma lorawan_stack_robust: "crypto_ok aes cmac \<Longrightarrow> robust_stack reliable_layer 5 network_layer 5 (lorawan_layer aes cmac) 13"
  by (intro robust_stack.intro lorawan_robust) unfold_locales

section \<open>Properties\<close>

text \<open>
  (stack round trip) For a reliable transport over the addressing network layer: every payload of
  at most 223 bytes is encapsulated without an error, and a peer that the frame is addressed to (or
  any, for a broadcast) and that is not waiting for an acknowledgement with the same sequence number
  delivers exactly the payload, the sender's address and the kind tag. Sequence numbers wrap at
  eight bits.
\<close>

theorem RfStack_round_trip:
  assumes "length payload < 224" "rt_accepts (st_transport s) (st_transport r)" "nw_accepts (st_network s) (st_network r)"
  shows "\<exists>f s'. RfStack_build_frame \<lparr>im_transport = reliable_layer, im_network = network_layer, im_mac = noop_layer, im_phy = phy\<rparr>
      payload s = Inr (Inr f, s') \<and> frame_wf f \<and>
    (\<forall>g. frame_wf g \<and> content g = content f \<longrightarrow> (\<exists>out g' r'.
      RfStack_receive_raw \<lparr>im_transport = reliable_layer, im_network = network_layer, im_mac = noop_layer, im_phy = phy\<rparr>
        g r = Inr (Inr (Some out), g', r') \<and>
      Frame_payload out = Inr payload \<and> rt_acked (st_transport r') = rt_seq (st_transport s) \<and>
      Network_last_rx_meta (st_network r') = (nw_address (st_network s), nw_pending_kind (st_network s))))"
proof -
  let ?I = "\<lparr>im_transport = reliable_layer, im_network = network_layer, im_mac = noop_layer, im_phy = phy\<rparr>"
  have len: "length payload + 0 + 0 + 0 < MAX_FRAME - FRAME_HEADROOM"
    using assms(1) by (simp add: MAX_FRAME_def FRAME_HEADROOM_def)
  obtain f s' where b: "RfStack_build_frame ?I payload s = Inr (Inr f, s')" "frame_wf f"
    and r: "\<And>g. frame_wf g \<and> content g = content f \<Longrightarrow> \<exists>out g'. RfStack_receive_raw ?I g r = Inr (Inr (Some out), g',
      r\<lparr>st_transport := (st_transport r)\<lparr>rt_acked := rt_seq (st_transport s)\<rparr>,
        st_network := (st_network r)\<lparr>nw_last_rx_src := nw_address (st_network s), nw_last_rx_kind := nw_pending_kind (st_network s)\<rparr>,
        st_mac := st_mac r\<rparr>) \<and> frame_wf out \<and> content out = payload"
    using rnn.round_trip [of ?I payload s r, OF _ _ _ len assms(2,3)] by auto
  have "\<exists>out g' r'. RfStack_receive_raw ?I g r = Inr (Inr (Some out), g', r') \<and>
      Frame_payload out = Inr payload \<and> rt_acked (st_transport r') = rt_seq (st_transport s) \<and>
      Network_last_rx_meta (st_network r') = (nw_address (st_network s), nw_pending_kind (st_network s))"
    if "frame_wf g \<and> content g = content f" for g
    using r [OF that] by (auto simp: Network_last_rx_meta_def)
  with b show ?thesis by blast
qed

definition demo_stack :: "u16 \<Rightarrow> (ReliableTransport, Network, unit, NullRf) RfStack" where
  "demo_stack a = RfStack_new (ReliableTransport_new 3) (Network_new a) () NullRf_new"

theorem RfStack_round_trip_witness:
  "\<exists>f s'. RfStack_build_frame \<lparr>im_transport = reliable_layer, im_network = network_layer, im_mac = noop_layer, im_phy = null_phy\<rparr>
     [1, 2, 3] (demo_stack 7) = Inr (Inr f, s') \<and> frame_wf f"
  using RfStack_round_trip [of "[1, 2, 3]" "demo_stack 7" "demo_stack 9" null_phy]
  by (auto simp: demo_stack_def RfStack_new_def rt_accepts_def ReliableTransport_new_def nw_accepts_def Network_new_def)

end
