(* ===== verification/RadioBus.thy ===== *)
theory RadioBus
  imports RfPhy "HOL-Library.Signed_Division"
begin

text \<open>
  What the radio drivers (\<open>hal/src/drivers/radio\<close>) share: the embedded-hal bus and pins they are generic
  over, as a dictionary of operations on the state \<open>'w\<close> of everything behind them (bus, pins, chip), the
  sequencing of fallible driver calls, signed sixteen-bit arithmetic, the LoRa configuration of
  \<open>hal/src/lora.rs\<close>, and scripts: lists of bus writes that stop at the first error.
\<close>

section \<open>Bus and pins\<close>

text \<open>
  The Boolean of an operation tells whether it returned \<open>Ok\<close>. A transfer is given the read buffer and the
  bytes to write, and says which byte each position of the read buffer holds afterwards: a slice keeps its
  length. \<open>is_low\<close> of a pin returns \<open>None\<close> for an error.
\<close>

record 'w HalPins =
  spi_write :: "u8 list \<Rightarrow> 'w \<Rightarrow> bool \<times> 'w"
  spi_transfer :: "u8 list \<Rightarrow> u8 list \<Rightarrow> 'w \<Rightarrow> bool \<times> (nat \<Rightarrow> u8) \<times> 'w"
  reset_set_low :: "'w \<Rightarrow> bool \<times> 'w"
  reset_set_high :: "'w \<Rightarrow> bool \<times> 'w"

type_synonym 'w is_low = "'w \<Rightarrow> bool option \<times> 'w"

section \<open>Sequencing\<close>

type_synonym ('w, 'a) hal_op = "'w \<Rightarrow> (HalError + 'a) \<times> 'w"

text \<open>The question-mark operator: an error ends the function, keeping what was done before it.\<close>

definition hbind :: "('w, 'a) hal_op \<Rightarrow> ('a \<Rightarrow> ('w, 'b) hal_op) \<Rightarrow> ('w, 'b) hal_op" where
  "hbind m f w = (case m w of (Inl e, w') \<Rightarrow> (Inl e, w') | (Inr x, w') \<Rightarrow> f x w')"

definition hseq :: "('w, unit) hal_op \<Rightarrow> ('w, 'b) hal_op \<Rightarrow> ('w, 'b) hal_op" where
  "hseq m k = hbind m (\<lambda>_. k)"

definition hreturn :: "'a \<Rightarrow> ('w, 'a) hal_op" where
  "hreturn x w = (Inr x, w)"

definition hfail :: "HalError \<Rightarrow> ('w, 'a) hal_op" where
  "hfail e w = (Inl e, w)"

text \<open>The mapping of a bus or pin error to \<open>HardwareError\<close>.\<close>

definition hw_op :: "('w \<Rightarrow> bool \<times> 'w) \<Rightarrow> ('w, unit) hal_op" where
  "hw_op f w = (case f w of (ok, w') \<Rightarrow> (if ok then Inr () else Inl HardwareError, w'))"

definition hw_transfer :: "'w HalPins \<Rightarrow> u8 list \<Rightarrow> u8 list \<Rightarrow> ('w, u8 list) hal_op" where
  "hw_transfer E rx tx w =
     (case spi_transfer E rx tx w of (ok, f, w') \<Rightarrow>
        (if ok then Inr (map f [0..<length rx]) else Inl HardwareError, w'))"

lemma hbind_simps [simp]:
  "hbind (hreturn x) f = f x"
  "hbind (hfail e) f = hfail e"
  "hbind m hreturn = m"
  by (auto simp: fun_eq_iff hbind_def hreturn_def hfail_def split: prod.splits sum.splits)

lemma hbind_assoc: "hbind (hbind m f) g = hbind m (\<lambda>x. hbind (f x) g)"
  by (auto simp: fun_eq_iff hbind_def split: prod.splits sum.splits)

lemma hseq_assoc: "hseq (hseq m k) j = hseq m (hseq k j)"
  by (simp add: hseq_def hbind_assoc)

lemma hseq_return [simp]: "hseq m (hreturn ()) = m" "hseq (hreturn ()) k = k" "hseq (hfail e) k = hfail e"
  by (simp_all add: hseq_def)

lemma hw_transfer_length: "hw_transfer E rx tx w = (Inr bs, w') \<Longrightarrow> length bs = length rx"
  by (auto simp: hw_transfer_def split: prod.splits if_splits)

section \<open>Signed arithmetic\<close>

text \<open>Division of \<open>i16\<close> values truncates towards zero; a byte read as \<open>i8\<close> and widened keeps its sign.\<close>

definition i16_div :: "16 word \<Rightarrow> 16 word \<Rightarrow> 16 word" where
  "i16_div a b = word_of_int (sint a sdiv sint b)"

definition i8_to_i16 :: "u8 \<Rightarrow> 16 word" where
  "i8_to_i16 b = scast b"

definition be32 :: "u32 \<Rightarrow> u8 list" where
  "be32 w = rev (le32 w)"

lemma length_be32 [simp]: "length (be32 w) = 4"
  by (simp add: be32_def)

text \<open>A frequency scaled by a power of two and divided by the crystal's frequency does not overflow 64 bits.\<close>

lemma ucast_u64 [simp]: "unat (ucast (f :: u32) :: u64) = unat f"
  by (simp add: unsigned_ucast_eq take_bit_nat_eq_self_iff order.strict_trans2 [OF unsigned_less])

lemma scaled_div:
  assumes "k < 32"
  shows "unat ((ucast (f :: u32) * push_bit k 1 :: u64) div 32000000) = (unat f * 2 ^ k) div 32000000"
proof -
  have "unat f < 2 ^ 32" using unsigned_less [of f] by simp
  moreover have "(2 :: nat) ^ k \<le> 2 ^ 31" using assms by (intro power_increasing) auto
  ultimately have "unat f * 2 ^ k < 2 ^ 32 * 2 ^ 31" by (intro mult_less_le_imp_less) auto
  moreover have "unat (of_nat (2 ^ k) :: u64) = 2 ^ k"
    using assms by (simp only: unsigned_of_nat take_bit_nat_eq_self_iff) (simp add: power_strict_increasing)
  then have "unat (push_bit k 1 :: u64) = 2 ^ k" by simp
  ultimately have "unat (ucast f * push_bit k 1 :: u64) = unat f * 2 ^ k"
    by (simp add: unat_mult_lem [THEN iffD1])
  then show ?thesis by (simp add: unat_div_distrib)
qed

section \<open>LoRa configuration\<close>

record LoRaChannel =
  ch_frequency_hz :: u32

record LoRaTxConfig =
  lt_channel :: LoRaChannel
  lt_modulation :: LoRaModulation
  lt_tx_power_dbm :: u8

definition LoRaModulation_default :: LoRaModulation where
  "LoRaModulation_default = \<lparr>mod_sf = SF7, mod_bw = Bw125, mod_cr = Cr45, mod_preamble = 8\<rparr>"

definition LoRaTxConfig_eu868_default :: LoRaTxConfig where
  "LoRaTxConfig_eu868_default = \<lparr>lt_channel = \<lparr>ch_frequency_hz = 868100000\<rparr>,
     lt_modulation = LoRaModulation_default, lt_tx_power_dbm = 14\<rparr>"

text \<open>The discriminant of a spreading factor.\<close>

fun SpreadingFactor_as_u8 :: "SpreadingFactor \<Rightarrow> u8" where
  "SpreadingFactor_as_u8 SF7 = 7"
| "SpreadingFactor_as_u8 SF8 = 8"
| "SpreadingFactor_as_u8 SF9 = 9"
| "SpreadingFactor_as_u8 SF10 = 10"
| "SpreadingFactor_as_u8 SF11 = 11"
| "SpreadingFactor_as_u8 SF12 = 12"

definition lora_tx_config :: "LoRaTxConfig \<Rightarrow> RfTxConfig" where
  "lora_tx_config cfg = \<lparr>tx_frequency_hz = ch_frequency_hz (lt_channel cfg), tx_power_dbm = lt_tx_power_dbm cfg,
     tx_params = LoRaParams (lt_modulation cfg)\<rparr>"

text \<open>The older driver trait: initialisation, a transmission with its configuration, and the name.\<close>

record 'h RfDriver =
  drv_init :: "'h \<Rightarrow> (HalError + unit) \<times> 'h"
  drv_transmit :: "LoRaTxConfig \<Rightarrow> u8 list \<Rightarrow> 'h \<Rightarrow> (HalError + unit) \<times> 'h"
  drv_chip_name :: string

definition RfDriver_of_phy :: "'h RfPhy \<Rightarrow> 'h RfDriver" where
  "RfDriver_of_phy P = \<lparr>drv_init = phy_init P,
     drv_transmit = (\<lambda>cfg payload. hseq (phy_configure_tx P (lora_tx_config cfg)) (phy_transmit P payload)),
     drv_chip_name = phy_chip_name P\<rparr>"

section \<open>Scripts\<close>

text \<open>
  \<open>run_script op xs\<close> performs the operation for each element of a list until one fails.
\<close>

fun run_script :: "('c \<Rightarrow> ('w, unit) hal_op) \<Rightarrow> 'c list \<Rightarrow> ('w, unit) hal_op" where
  "run_script op [] = hreturn ()"
| "run_script op (c # cs) = hseq (op c) (run_script op cs)"

lemma run_script_append: "run_script op (xs @ ys) = hseq (run_script op xs) (run_script op ys)"
  by (induction xs) (simp_all add: hseq_assoc)

lemma run_script_single [simp]: "run_script op [c] = op c"
  by simp

text \<open>A script that fails has performed a prefix of its elements, each successfully, and failed at the next.\<close>

lemma run_script_failed:
  assumes "run_script op cs w = (Inl e, w')"
  shows "\<exists>xs c ys w0. cs = xs @ c # ys \<and> run_script op xs w = (Inr (), w0) \<and> op c w0 = (Inl e, w')"
  using assms
proof (induction cs arbitrary: w)
  case (Cons c cs)
  obtain r w1 where c: "op c w = (r, w1)" by fastforce
  show ?case
  proof (cases r)
    case (Inl e')
    with Cons.prems c have "op c w = (Inl e, w')" by (simp add: hseq_def hbind_def)
    moreover have "run_script op [] w = (Inr (), w)" by (simp add: hreturn_def)
    ultimately show ?thesis by (intro exI [of _ "[]"]) auto
  next
    case (Inr u)
    with Cons.prems c have "run_script op cs w1 = (Inl e, w')" by (simp add: hseq_def hbind_def)
    from Cons.IH [OF this] obtain xs d ys w0 where
      "cs = xs @ d # ys" "run_script op xs w1 = (Inr (), w0)" "op d w0 = (Inl e, w')" by blast
    then show ?thesis
      by (intro exI [of _ "c # xs"] exI [of _ d] exI [of _ ys] exI [of _ w0]) (simp add: c Inr hseq_def hbind_def)
  qed
qed (simp add: hreturn_def)

end
