(* ===== verification/RfAo.thy ===== *)
theory RfAo
  imports RfPhy TimeEvents
begin

text \<open>
  The active object that drives a radio stack (\<open>RfStackAO\<close> in \<open>crates/comms/src/stack.rs\<close>, with the
  signals and payloads of \<open>events.rs\<close> and the record identifiers of \<open>records.rs\<close>). A handler returns
  the new object and its effects in order: trace records through its context and posts to the
  application object, the calls of the effect type. The retransmission timer is the time event the
  object creates for itself. Messages printed for debugging are left out.
\<close>

section \<open>Signals and payloads\<close>

definition RF_TX_REQ_SIG :: signal where "RF_TX_REQ_SIG = 20"
definition RF_RX_START_SIG :: signal where "RF_RX_START_SIG = 21"
definition RF_PHY_IRQ_SIG :: signal where "RF_PHY_IRQ_SIG = 22"
definition RF_PHY_TX_DONE_SIG :: signal where "RF_PHY_TX_DONE_SIG = 23"
definition RF_PHY_RX_DONE_SIG :: signal where "RF_PHY_RX_DONE_SIG = 24"
definition RF_PHY_RX_TIMEOUT_SIG :: signal where "RF_PHY_RX_TIMEOUT_SIG = 25"
definition RF_PHY_CRC_ERROR_SIG :: signal where "RF_PHY_CRC_ERROR_SIG = 26"
definition RF_TX_DONE_SIG :: signal where "RF_TX_DONE_SIG = 27"
definition RF_TX_FAIL_SIG :: signal where "RF_TX_FAIL_SIG = 28"
definition RF_RX_FRAME_SIG :: signal where "RF_RX_FRAME_SIG = 29"
definition RF_TRANSPORT_TIMEOUT_SIG :: signal where "RF_TRANSPORT_TIMEOUT_SIG = 30"

definition RF_RX_ARMED :: u8 where "RF_RX_ARMED = 109"
definition RF_PHY_TX :: u8 where "RF_PHY_TX = 110"
definition RF_PHY_TX_DONE :: u8 where "RF_PHY_TX_DONE = 111"
definition RF_PHY_RX :: u8 where "RF_PHY_RX = 112"
definition RF_NET_ROUTE :: u8 where "RF_NET_ROUTE = 115"

lemmas rf_sigs = RF_TX_REQ_SIG_def RF_RX_START_SIG_def RF_PHY_IRQ_SIG_def RF_PHY_TX_DONE_SIG_def
  RF_PHY_RX_DONE_SIG_def RF_PHY_RX_TIMEOUT_SIG_def RF_PHY_CRC_ERROR_SIG_def RF_TX_DONE_SIG_def
  RF_TX_FAIL_SIG_def RF_RX_FRAME_SIG_def RF_TRANSPORT_TIMEOUT_SIG_def

record RfTxReqPayload =
  tq_data :: "u8 list"
  tq_fport :: u8
  tq_reliable :: bool
  tq_dst :: u16
  tq_kind :: u8

definition RfTxReqPayload_new :: "u8 list \<Rightarrow> u8 \<Rightarrow> RfTxReqPayload" where
  "RfTxReqPayload_new bytes port =
     \<lparr>tq_data = bytes, tq_fport = port, tq_reliable = False, tq_dst = BROADCAST_ADDR, tq_kind = 0\<rparr>"

definition RfTxReqPayload_with_reliability :: "u8 list \<Rightarrow> u8 \<Rightarrow> bool \<Rightarrow> RfTxReqPayload" where
  "RfTxReqPayload_with_reliability bytes port rel =
     \<lparr>tq_data = bytes, tq_fport = port, tq_reliable = rel, tq_dst = BROADCAST_ADDR, tq_kind = 0\<rparr>"

definition RfTxReqPayload_with_dst_kind :: "u8 list \<Rightarrow> u8 \<Rightarrow> bool \<Rightarrow> u16 \<Rightarrow> u8 \<Rightarrow> RfTxReqPayload" where
  "RfTxReqPayload_with_dst_kind bytes port rel dst kind =
     \<lparr>tq_data = bytes, tq_fport = port, tq_reliable = rel, tq_dst = dst, tq_kind = kind\<rparr>"

record RfRxFramePayload =
  rx_data :: "u8 list"
  rx_port :: u8
  rx_rssi :: "16 word"
  rx_snr :: "16 word"
  rx_src :: u16
  rx_kind :: u8

text \<open>What a dynamic event can carry to or from the object; a downcast is a case analysis.\<close>

datatype RfPayload = NoPayload | TxReq RfTxReqPayload | RxFrame RfRxFramePayload | PhyIrq PhyEvent RxMetadata

type_synonym rf_event = "RfPayload Event"
type_synonym rf_effect = "rf_event effect"

definition app_post :: "signal \<Rightarrow> RfPayload \<Rightarrow> rf_effect" where
  "app_post s p = Call (Event_new s p)"

section \<open>The object\<close>

datatype AoState = AoIdle | AoTransmitting | AoWaitingAck | AoListening | AoProcessingRx

definition RETRANSMIT_TIMEOUT_TICKS :: u64 where "RETRANSMIT_TIMEOUT_TICKS = 10"
definition TX_WATCHDOG_TICKS :: u64 where "TX_WATCHDOG_TICKS = 25"

record ('t, 'n, 'm, 'h) RfStackAO =
  ra_stack :: "('t, 'n, 'm, 'h) RfStack"
  ra_tx_cfg :: RfTxConfig
  ra_rx_cfg :: RfRxConfig
  ra_retransmit_timer :: "TimeEvent option"
  ra_retransmit_frame :: "u8 list option"
  ra_retransmit_len :: nat
  ra_pending_tx :: "RfTxReqPayload option"
  ra_rx_frame :: Frame
  ra_state :: AoState

type_synonym ('t, 'n, 'm, 'h) ao_result = "(('t, 'n, 'm, 'h) RfStackAO \<times> rf_effect list) result"

definition RfStackAO_new ::
    "('t, 'n, 'm, 'h) RfStack \<Rightarrow> RfTxConfig \<Rightarrow> RfRxConfig \<Rightarrow> ('t, 'n, 'm, 'h) RfStackAO" where
  "RfStackAO_new st tc rc =
     \<lparr>ra_stack = st, ra_tx_cfg = tc, ra_rx_cfg = rc, ra_retransmit_timer = None, ra_retransmit_frame = None,
      ra_retransmit_len = 0, ra_pending_tx = None, ra_rx_frame = Frame_new, ra_state = AoIdle\<rparr>"

text \<open>\<open>timer.arm(n, None)\<close> and \<open>timer.disarm()\<close>, when there is a timer.\<close>

definition arm_timer :: "u64 \<Rightarrow> ('t, 'n, 'm, 'h) RfStackAO \<Rightarrow> ('t, 'n, 'm, 'h) RfStackAO" where
  "arm_timer n ao = ao\<lparr>ra_retransmit_timer := map_option (\<lambda>t. fst (TimeEvent_arm n None t)) (ra_retransmit_timer ao)\<rparr>"

definition disarm_timer :: "('t, 'n, 'm, 'h) RfStackAO \<Rightarrow> ('t, 'n, 'm, 'h) RfStackAO" where
  "disarm_timer ao = ao\<lparr>ra_retransmit_timer := map_option (\<lambda>t. fst (TimeEvent_disarm t)) (ra_retransmit_timer ao)\<rparr>"

definition set_phy :: "'h \<Rightarrow> ('t, 'n, 'm, 'h) RfStackAO \<Rightarrow> ('t, 'n, 'm, 'h) RfStackAO" where
  "set_phy h ao = ao\<lparr>ra_stack := (ra_stack ao)\<lparr>st_phy := h\<rparr>\<rparr>"

definition prefix_effects :: "rf_effect list \<Rightarrow> ('t, 'n, 'm, 'h) ao_result \<Rightarrow> ('t, 'n, 'm, 'h) ao_result" where
  "prefix_effects es r = map_sum id (\<lambda>(ao, es'). (ao, es @ es')) r"

definition RfStackAO_do_retransmit ::
    "('t, 'n, 'm, 'h) StackImpl \<Rightarrow> ('t, 'n, 'm, 'h) RfStackAO \<Rightarrow> ('t, 'n, 'm, 'h) RfStackAO result" where
  "RfStackAO_do_retransmit I ao =
     (case ra_retransmit_frame ao of
        Some buf \<Rightarrow>
          if ra_retransmit_len ao \<le> length buf
          then Inr (set_phy (snd (phy_transmit (im_phy I) (take (ra_retransmit_len ao) buf) (st_phy (ra_stack ao)))) ao)
          else Inl Panic
      | None \<Rightarrow> Inr ao)"

definition ao_busy :: "('t, 'n, 'm, 'h) RfStackAO \<Rightarrow> bool" where
  "ao_busy ao \<longleftrightarrow> ra_state ao = AoTransmitting \<or> ra_state ao = AoWaitingAck"

text \<open>
  \<open>start_tx\<close> and \<open>drain_pending_tx\<close> call each other; a request that fails at the radio is followed by
  the queued one, of which there is at most one.
\<close>

function (sequential) RfStackAO_start_tx ::
    "('t, 'n, 'm, 'h) StackImpl \<Rightarrow> RfTxReqPayload \<Rightarrow> ('t, 'n, 'm, 'h) RfStackAO \<Rightarrow> ('t, 'n, 'm, 'h) ao_result"
  and RfStackAO_drain_pending_tx ::
    "('t, 'n, 'm, 'h) StackImpl \<Rightarrow> ('t, 'n, 'm, 'h) RfStackAO \<Rightarrow> ('t, 'n, 'm, 'h) ao_result" where
  "RfStackAO_start_tx I req ao =
     (let st = (ra_stack ao)\<lparr>st_network :=
            l_set_tx_meta (im_network I) (tq_dst req) (tq_kind req) (st_network (ra_stack ao))\<rparr> in
      case RfStack_build_frame I (tq_data req) st of
        Inl flt \<Rightarrow> Inl flt
      | Inr (Inl e, st) \<Rightarrow> Inr (ao\<lparr>ra_stack := st\<rparr>, [])
      | Inr (Inr f, st) \<Rightarrow>
          (case Frame_phy_bytes f of
             Inl flt \<Rightarrow> Inl flt
           | Inr bytes \<Rightarrow>
               let len = min (length bytes) MAX_FRAME;
                   buf = copy_at 0 (take len bytes) (replicate MAX_FRAME 0) in
               (case phy_configure_tx (im_phy I) (ra_tx_cfg ao) (st_phy st) of
                  (Inl e, h) \<Rightarrow>
                    prefix_effects [app_post RF_TX_FAIL_SIG NoPayload]
                      (RfStackAO_drain_pending_tx I
                        (ao\<lparr>ra_stack := st\<lparr>st_phy := h\<rparr>, ra_retransmit_frame := None, ra_retransmit_len := len\<rparr>))
                | (Inr _, h) \<Rightarrow>
                    (case phy_transmit (im_phy I) bytes h of
                       (Inr _, h) \<Rightarrow>
                         Inr (arm_timer TX_WATCHDOG_TICKS
                               (ao\<lparr>ra_stack := st\<lparr>st_phy := h\<rparr>, ra_retransmit_frame := Some buf, ra_retransmit_len := len,
                                  ra_state := (if tq_reliable req then AoWaitingAck else AoTransmitting)\<rparr>),
                              [Trace RF_PHY_TX [1, ucast (tq_dst req)] True,
                               Trace RF_PHY_TX_DONE [1, ucast (tq_dst req)] True])
                     | (Inl e, h) \<Rightarrow>
                         prefix_effects [Trace RF_PHY_TX [1, ucast (tq_dst req)] True, app_post RF_TX_FAIL_SIG NoPayload]
                           (RfStackAO_drain_pending_tx I
                             (ao\<lparr>ra_stack := st\<lparr>st_phy := h\<rparr>, ra_retransmit_frame := None, ra_retransmit_len := len\<rparr>))))))"
| "RfStackAO_drain_pending_tx I ao =
     (if ao_busy ao then Inr (ao, [])
      else case ra_pending_tx ao of
             Some req \<Rightarrow> RfStackAO_start_tx I req (ao\<lparr>ra_pending_tx := None\<rparr>)
           | None \<Rightarrow> Inr (ao, []))"
  by pat_completeness auto

termination
  by (relation "measure (\<lambda>x. case x of
        Inl (I, req, ao) \<Rightarrow> (if ra_pending_tx ao = None then 1 else 3)
      | Inr (I, ao) \<Rightarrow> (if ra_pending_tx ao = None then 0 else 2))") auto

declare RfStackAO_start_tx.simps [simp del] RfStackAO_drain_pending_tx.simps [simp del]

section \<open>Signal handlers\<close>

definition RfStackAO_handle_tx_req ::
    "('t, 'n, 'm, 'h) StackImpl \<Rightarrow> rf_event \<Rightarrow> ('t, 'n, 'm, 'h) RfStackAO \<Rightarrow> ('t, 'n, 'm, 'h) ao_result" where
  "RfStackAO_handle_tx_req I e ao =
     (case ev_payload e of
        TxReq req \<Rightarrow>
          if ao_busy ao
          then Inr (if ra_pending_tx ao = None then ao\<lparr>ra_pending_tx := Some req\<rparr> else ao, [])
          else RfStackAO_start_tx I req ao
      | _ \<Rightarrow> Inr (ao, []))"

definition RfStackAO_handle_tx_done ::
    "('t, 'n, 'm, 'h) StackImpl \<Rightarrow> ('t, 'n, 'm, 'h) RfStackAO \<Rightarrow> ('t, 'n, 'm, 'h) ao_result" where
  "RfStackAO_handle_tx_done I ao0 =
     (let ao = disarm_timer ao0 in
      if ra_state ao = AoWaitingAck then Inr (arm_timer RETRANSMIT_TIMEOUT_TICKS ao, [])
      else
        rbind (phy_set_mode (im_phy I) (RxMode (Some 1000)) (st_phy (ra_stack ao))) (\<lambda>(_, h).
          prefix_effects [Trace RF_PHY_TX_DONE [2, 0] True, app_post RF_TX_DONE_SIG NoPayload]
            (RfStackAO_drain_pending_tx I ((set_phy h ao)\<lparr>ra_state := AoListening\<rparr>))))"

definition RfStackAO_handle_transport_timeout ::
    "('t, 'n, 'm, 'h) StackImpl \<Rightarrow> ('t, 'n, 'm, 'h) RfStackAO \<Rightarrow> ('t, 'n, 'm, 'h) ao_result" where
  "RfStackAO_handle_transport_timeout I ao0 =
     (case l_on_timeout (im_transport I) (st_transport (ra_stack ao0)) of (act, t) \<Rightarrow>
      let ao = ao0\<lparr>ra_stack := (ra_stack ao0)\<lparr>st_transport := t\<rparr>\<rparr> in
      case act of
        ShouldRetransmit \<Rightarrow>
          rbind (RfStackAO_do_retransmit I ao) (\<lambda>ao. Inr (arm_timer RETRANSMIT_TIMEOUT_TICKS ao, []))
      | GiveUp \<Rightarrow>
          prefix_effects [app_post RF_TX_FAIL_SIG NoPayload]
            (RfStackAO_drain_pending_tx I
              (ao\<lparr>ra_retransmit_frame := None, ra_retransmit_len := 0, ra_state := AoIdle\<rparr>))
      | TxComplete \<Rightarrow>
          prefix_effects [app_post RF_TX_DONE_SIG NoPayload]
            (RfStackAO_drain_pending_tx I (ao\<lparr>ra_retransmit_frame := None, ra_state := AoIdle\<rparr>))
      | Nothing \<Rightarrow> Inr (ao, []))"

text \<open>The acceptance of a delivered frame: the end of a wait for an acknowledgement, and the post of the payload.\<close>

definition RfStackAO_deliver ::
    "('t, 'n, 'm, 'h) StackImpl \<Rightarrow> RxMetadata \<Rightarrow> Frame \<Rightarrow> ('t, 'n, 'm, 'h) RfStackAO \<Rightarrow> ('t, 'n, 'm, 'h) ao_result" where
  "RfStackAO_deliver I meta f ao =
     (let waiting = ra_state ao = AoWaitingAck;
          ao1 = (if waiting then (disarm_timer (ao\<lparr>ra_retransmit_frame := None\<rparr>))\<lparr>ra_state := AoIdle\<rparr> else ao);
          es1 = (if waiting then [app_post RF_TX_DONE_SIG NoPayload] else [])
      in rbind (Frame_payload f) (\<lambda>bytes.
           let (src, kind) = l_last_rx_meta (im_network I) (st_network (ra_stack ao1));
               es2 = (if length bytes \<le> 242
                 then [app_post RF_RX_FRAME_SIG (RxFrame \<lparr>rx_data = bytes, rx_port = 1, rx_rssi = rm_rssi_dbm meta,
                         rx_snr = rm_snr_db_x10 meta, rx_src = src, rx_kind = kind\<rparr>)]
                 else [])
           in Inr (ao1, es1 @ es2 @ [Trace RF_NET_ROUTE [ucast (rm_rssi_dbm meta)] True])))"

definition RfStackAO_handle_rx_done ::
    "('t, 'n, 'm, 'h) StackImpl \<Rightarrow> rf_event \<Rightarrow> ('t, 'n, 'm, 'h) RfStackAO \<Rightarrow> ('t, 'n, 'm, 'h) ao_result" where
  "RfStackAO_handle_rx_done I e ao =
     (case ev_payload e of
        PhyIrq _ meta \<Rightarrow>
          let es0 = [Trace RF_PHY_RX [1, ucast (rm_rssi_dbm meta)] True] in
          (case phy_read_rx (im_phy I) (fr_buf Frame_new) meta (st_phy (ra_stack ao)) of
             (Inl err, buf, h) \<Rightarrow> Inr ((set_phy h ao)\<lparr>ra_rx_frame := Frame_new\<lparr>fr_buf := buf\<rparr>\<rparr>, es0)
           | (Inr _, buf, h) \<Rightarrow>
               let f0 = Frame_set_received_len (unat (rm_pkt_len meta)) (Frame_new\<lparr>fr_buf := buf\<rparr>) in
               rbind (RfStack_receive_raw I f0 ((ra_stack ao)\<lparr>st_phy := h\<rparr>)) (\<lambda>(r, f1, st).
                 let ao1 = ao\<lparr>ra_stack := st, ra_rx_frame := f1\<rparr> in
                 rbind (case r of
                          Inr (Some f) \<Rightarrow> RfStackAO_deliver I meta f ao1
                        | _ \<Rightarrow> Inr (ao1, [])) (\<lambda>(ao2, es1).
                   let ao3 = (if ra_state ao2 = AoListening \<or> ra_state ao2 = AoProcessingRx
                              then ao2\<lparr>ra_state := AoIdle\<rparr> else ao2)
                   in prefix_effects (es0 @ es1) (RfStackAO_drain_pending_tx I ao3))))
      | _ \<Rightarrow> Inr (ao, []))"

definition RfStackAO_handle_rx_start ::
    "('t, 'n, 'm, 'h) StackImpl \<Rightarrow> ('t, 'n, 'm, 'h) RfStackAO \<Rightarrow> ('t, 'n, 'm, 'h) ao_result" where
  "RfStackAO_handle_rx_start I ao =
     (if ra_state ao \<noteq> AoIdle then Inr (ao, [Trace RF_RX_ARMED [0] True])
      else
        let h = snd (phy_configure_rx (im_phy I) (ra_rx_cfg ao) (st_phy (ra_stack ao)))
        in rbind (phy_set_mode (im_phy I) (RxMode None) h) (\<lambda>r. case r of
             (Inr _, h) \<Rightarrow> Inr ((set_phy h ao)\<lparr>ra_state := AoListening\<rparr>, [Trace RF_RX_ARMED [1] True])
           | (Inl _, h) \<Rightarrow> Inr (set_phy h ao, [])))"

definition RfStackAO_on_start ::
    "('t, 'n, 'm, 'h) StackImpl \<Rightarrow> u8 \<Rightarrow> ('t, 'n, 'm, 'h) RfStackAO \<Rightarrow> ('t, 'n, 'm, 'h) ao_result" where
  "RfStackAO_on_start I self_id ao =
     (case phy_init (im_phy I) (st_phy (ra_stack ao)) of
        (Inl _, _) \<Rightarrow> Inl Panic
      | (Inr _, h) \<Rightarrow> rbind (phy_set_mode (im_phy I) Standby h) (\<lambda>r. case r of
          (Inl _, _) \<Rightarrow> Inl Panic
        | (Inr _, h) \<Rightarrow> Inr ((set_phy h ao)\<lparr>
            ra_retransmit_timer := Some (TimeEvent_new self_id (TimeEventConfig_new RF_TRANSPORT_TIMEOUT_SIG)),
            ra_state := AoIdle\<rparr>, [])))"

definition RfStackAO_on_event ::
    "('t, 'n, 'm, 'h) StackImpl \<Rightarrow> rf_event \<Rightarrow> ('t, 'n, 'm, 'h) RfStackAO \<Rightarrow> ('t, 'n, 'm, 'h) ao_result" where
  "RfStackAO_on_event I e ao =
     (let s = Event_signal e in
      if s = RF_TX_REQ_SIG then RfStackAO_handle_tx_req I e ao
      else if s = RF_RX_START_SIG then RfStackAO_handle_rx_start I ao
      else if s = RF_PHY_IRQ_SIG then Inr (ao, [])
      else if s = RF_PHY_RX_DONE_SIG then RfStackAO_handle_rx_done I e ao
      else if s = RF_PHY_TX_DONE_SIG then RfStackAO_handle_tx_done I ao
      else if s = RF_PHY_RX_TIMEOUT_SIG then Inr (ao\<lparr>ra_state := AoIdle\<rparr>, [])
      else if s = RF_PHY_CRC_ERROR_SIG then Inr (ao\<lparr>ra_state := AoIdle\<rparr>, [])
      else if s = RF_TRANSPORT_TIMEOUT_SIG then RfStackAO_handle_transport_timeout I ao
      else Inr (ao, []))"

fun pump_event :: "PhyEvent \<Rightarrow> rf_event" where
  "pump_event TxDone = Event_new RF_PHY_TX_DONE_SIG NoPayload"
| "pump_event (RxDone meta) = Event_new RF_PHY_RX_DONE_SIG (PhyIrq (RxDone meta) meta)"
| "pump_event RxTimeout = Event_new RF_PHY_RX_TIMEOUT_SIG NoPayload"
| "pump_event CrcError = Event_new RF_PHY_CRC_ERROR_SIG NoPayload"
| "pump_event _ = Event_new RF_PHY_IRQ_SIG NoPayload"

definition RfStackAO_pump ::
    "('t, 'n, 'm, 'h) StackImpl \<Rightarrow> ('t, 'n, 'm, 'h) RfStackAO \<Rightarrow> (bool \<times> ('t, 'n, 'm, 'h) RfStackAO \<times> rf_effect list) result" where
  "RfStackAO_pump I ao =
     (case phy_poll_irq (im_phy I) (st_phy (ra_stack ao)) of
        (Inr (Some ev), h) \<Rightarrow>
          rbind (RfStackAO_on_event I (pump_event ev) (set_phy h ao)) (\<lambda>(ao, es). Inr (True, ao, es))
      | (_, h) \<Rightarrow> Inr (False, set_phy h ao, []))"

end
