(* ===== verification/RfAoSpec.thy ===== *)
theory RfAoSpec
  imports RfAo
begin

text \<open>
  Behaviour of the radio stack's active object: it never faults on frames and requests of admissible
  size, gives up a reliable transmission after the configured number of retransmissions, echoes
  through the loopback radio, and the inputs at which it panics or waits for ever.
\<close>

section \<open>Runs\<close>

fun run_events ::
    "('t, 'n, 'm, 'h) StackImpl \<Rightarrow> rf_event list \<Rightarrow> ('t, 'n, 'm, 'h) RfStackAO \<Rightarrow> ('t, 'n, 'm, 'h) ao_result" where
  "run_events I [] ao = Inr (ao, [])"
| "run_events I (e # es) ao =
     rbind (RfStackAO_on_event I e ao) (\<lambda>(ao', fx). prefix_effects fx (run_events I es ao'))"

definition timeout_event :: rf_event where
  "timeout_event = Event_new RF_TRANSPORT_TIMEOUT_SIG NoPayload"

definition request_event :: "RfTxReqPayload \<Rightarrow> rf_event" where
  "request_event req = Event_new RF_TX_REQ_SIG (TxReq req)"

definition received_event :: "RxMetadata \<Rightarrow> rf_event" where
  "received_event meta = pump_event (RxDone meta)"

lemma Event_signal_new [simp]: "Event_signal (Event_new s p) = s" "ev_payload (Event_new s p) = p"
  by (simp_all add: Event_signal_def Event_new_def EventHeader_new_def)

lemma prefix_effects_simps [simp]:
  "prefix_effects es (Inl f) = Inl f"
  "prefix_effects es (Inr (ao, fx)) = Inr (ao, es @ fx)"
  by (simp_all add: prefix_effects_def)

lemma prefix_effects_Inr: "(\<exists>ao fx. prefix_effects es r = Inr (ao, fx) \<and> P ao) \<longleftrightarrow> (\<exists>ao fx. r = Inr (ao, fx) \<and> P ao)"
  by (cases r) auto

lemma on_event_signals:
  "RfStackAO_on_event I timeout_event ao = RfStackAO_handle_transport_timeout I ao"
  "RfStackAO_on_event I (request_event req) ao = RfStackAO_handle_tx_req I (request_event req) ao"
  "RfStackAO_on_event I (received_event meta) ao = RfStackAO_handle_rx_done I (received_event meta) ao"
  "ev_payload (request_event req) = TxReq req"
  "ev_payload (received_event meta) = PhyIrq (RxDone meta) meta"
  by (simp_all add: RfStackAO_on_event_def timeout_event_def request_event_def received_event_def Let_def rf_sigs)

lemma ao_parts [simp]:
  "ra_stack (arm_timer n ao) = ra_stack ao" "ra_state (arm_timer n ao) = ra_state ao"
  "ra_pending_tx (arm_timer n ao) = ra_pending_tx ao" "ra_retransmit_frame (arm_timer n ao) = ra_retransmit_frame ao"
  "ra_retransmit_len (arm_timer n ao) = ra_retransmit_len ao"
  "ra_stack (disarm_timer ao) = ra_stack ao" "ra_state (disarm_timer ao) = ra_state ao"
  "ra_pending_tx (disarm_timer ao) = ra_pending_tx ao" "ra_retransmit_frame (disarm_timer ao) = ra_retransmit_frame ao"
  "ra_retransmit_len (disarm_timer ao) = ra_retransmit_len ao"
  "ra_stack (set_phy h ao) = (ra_stack ao)\<lparr>st_phy := h\<rparr>" "ra_state (set_phy h ao) = ra_state ao"
  "ra_pending_tx (set_phy h ao) = ra_pending_tx ao" "ra_retransmit_frame (set_phy h ao) = ra_retransmit_frame ao"
  "ra_retransmit_len (set_phy h ao) = ra_retransmit_len ao"
  by (simp_all add: arm_timer_def disarm_timer_def set_phy_def)

lemma drain_none: "ra_pending_tx ao = None \<Longrightarrow> RfStackAO_drain_pending_tx I ao = Inr (ao, [])"
  by (simp add: RfStackAO_drain_pending_tx.simps)

text \<open>A reception, once the radio has delivered its bytes and the layers have decided.\<close>

definition rx_idle :: "('t, 'n, 'm, 'h) RfStackAO \<Rightarrow> ('t, 'n, 'm, 'h) RfStackAO" where
  "rx_idle ao = (if ra_state ao = AoListening \<or> ra_state ao = AoProcessingRx then ao\<lparr>ra_state := AoIdle\<rparr> else ao)"

definition rx_input :: "('t, 'n, 'm, 'h) StackImpl \<Rightarrow> RxMetadata \<Rightarrow> ('t, 'n, 'm, 'h) RfStackAO \<Rightarrow> u8 list \<Rightarrow> 'h \<Rightarrow> bool" where
  "rx_input I meta ao buf h \<longleftrightarrow>
     phy_read_rx (im_phy I) (fr_buf Frame_new) meta (st_phy (ra_stack ao)) = (Inr (), buf, h) \<and> length buf = MAX_FRAME"

definition rx_raw :: "RxMetadata \<Rightarrow> u8 list \<Rightarrow> Frame" where
  "rx_raw meta buf = Frame_set_received_len (unat (rm_pkt_len meta)) (Frame_new\<lparr>fr_buf := buf\<rparr>)"

lemma rx_raw_content:
  assumes "length buf = MAX_FRAME"
  shows "frame_wf (rx_raw meta buf)" "content (rx_raw meta buf) = take (unat (rm_pkt_len meta)) buf"
    "length (content (rx_raw meta buf)) = unat (rm_pkt_len meta)"
proof -
  let ?n = "unat (rm_pkt_len meta)"
  have n: "length (take ?n buf) = ?n" using assms u8_bound [of "rm_pkt_len meta"] by (simp add: MAX_FRAME_def)
  then show 1: "frame_wf (rx_raw meta buf)" and 2: "content (rx_raw meta buf) = take ?n buf"
    using frame_received [of "take ?n buf" "Frame_new\<lparr>fr_buf := buf\<rparr>"] assms u8_bound [of "rm_pkt_len meta"]
    by (simp_all add: rx_raw_def)
  from 2 n show "length (content (rx_raw meta buf)) = ?n" by simp
qed

lemma received_eq:
  assumes "rx_input I meta ao buf h"
    and "RfStack_receive_raw I (rx_raw meta buf) ((ra_stack ao)\<lparr>st_phy := h\<rparr>) = Inr (r, f1, st)"
  shows "RfStackAO_on_event I (received_event meta) ao =
    rbind (case r of Inr (Some f) \<Rightarrow> RfStackAO_deliver I meta f (ao\<lparr>ra_stack := st, ra_rx_frame := f1\<rparr>)
           | _ \<Rightarrow> Inr (ao\<lparr>ra_stack := st, ra_rx_frame := f1\<rparr>, []))
      (\<lambda>(ao2, es). prefix_effects (Trace RF_PHY_RX [1, ucast (rm_rssi_dbm meta)] True # es)
        (RfStackAO_drain_pending_tx I (rx_idle ao2)))"
  using assms by (simp add: on_event_signals RfStackAO_handle_rx_done_def rx_input_def rx_raw_def rx_idle_def Let_def)

lemma received_dropped:
  assumes "rx_input I meta ao buf h"
    and "RfStack_receive_raw I (rx_raw meta buf) ((ra_stack ao)\<lparr>st_phy := h\<rparr>) = Inr (r, f1, st)"
    and "ra_pending_tx ao = None" "r = Inl e \<or> r = Inr None"
  shows "RfStackAO_on_event I (received_event meta) ao =
    Inr (rx_idle (ao\<lparr>ra_stack := st, ra_rx_frame := f1\<rparr>), [Trace RF_PHY_RX [1, ucast (rm_rssi_dbm meta)] True])"
proof -
  have "ra_pending_tx (rx_idle (ao\<lparr>ra_stack := st, ra_rx_frame := f1\<rparr>)) = None" using assms(3) by (simp add: rx_idle_def)
  from drain_none [OF this, of I] assms(4) show ?thesis unfolding received_eq [OF assms(1,2)] by auto
qed

lemma deliver_eq:
  assumes "Frame_payload f = Inr bytes" "length bytes \<le> 242"
    and "l_last_rx_meta (im_network I) (st_network (ra_stack ao)) = (src, kind)"
  shows "RfStackAO_deliver I meta f ao =
    Inr (if ra_state ao = AoWaitingAck then (disarm_timer (ao\<lparr>ra_retransmit_frame := None\<rparr>))\<lparr>ra_state := AoIdle\<rparr> else ao,
      (if ra_state ao = AoWaitingAck then [app_post RF_TX_DONE_SIG NoPayload] else []) @
      [app_post RF_RX_FRAME_SIG (RxFrame \<lparr>rx_data = bytes, rx_port = 1, rx_rssi = rm_rssi_dbm meta,
         rx_snr = rm_snr_db_x10 meta, rx_src = src, rx_kind = kind\<rparr>),
       Trace RF_NET_ROUTE [ucast (rm_rssi_dbm meta)] True])"
  using assms by (cases "ra_state ao = AoWaitingAck") (simp_all add: RfStackAO_deliver_def Let_def)

lemma received_delivered:
  assumes "rx_input I meta ao buf h"
    and "RfStack_receive_raw I (rx_raw meta buf) ((ra_stack ao)\<lparr>st_phy := h\<rparr>) = Inr (Inr (Some f), f1, st)"
    and "ra_pending_tx ao = None" "Frame_payload f = Inr bytes" "length bytes \<le> 242"
    and "l_last_rx_meta (im_network I) (st_network st) = (src, kind)" "ra_state ao \<noteq> AoWaitingAck"
  shows "RfStackAO_on_event I (received_event meta) ao =
    Inr (rx_idle (ao\<lparr>ra_stack := st, ra_rx_frame := f1\<rparr>),
      [Trace RF_PHY_RX [1, ucast (rm_rssi_dbm meta)] True,
       app_post RF_RX_FRAME_SIG (RxFrame \<lparr>rx_data = bytes, rx_port = 1, rx_rssi = rm_rssi_dbm meta,
         rx_snr = rm_snr_db_x10 meta, rx_src = src, rx_kind = kind\<rparr>),
       Trace RF_NET_ROUTE [ucast (rm_rssi_dbm meta)] True])"
proof -
  have "ra_pending_tx (rx_idle (ao\<lparr>ra_stack := st, ra_rx_frame := f1\<rparr>)) = None" using assms(3) by (simp add: rx_idle_def)
  from drain_none [OF this, of I] deliver_eq [OF assms(4,5), of I "ao\<lparr>ra_stack := st, ra_rx_frame := f1\<rparr>" src kind meta] assms(6,7)
  show ?thesis unfolding received_eq [OF assms(1,2)] by simp
qed

section \<open>What the object relies on\<close>

text \<open>
  A radio fills the buffer it is lent and does not change its length, and changes to the three modes the
  object asks for without a panic.
\<close>

locale radio =
  fixes P :: "'h RfPhy"
  assumes read_rx_length: "phy_read_rx P buf meta h = (r, buf', h') \<Longrightarrow> length buf' = length buf"
    and set_mode_ok: "m \<in> set [Standby, RxMode None, RxMode (Some 1000)] \<Longrightarrow> \<exists>r h'. phy_set_mode P m h = Inr (r, h')"

interpretation lb: radio loopback_phy
  by unfold_locales (auto simp: loopback_phy_def LoopbackPhy_read_rx_def Let_def split: option.splits)

interpretation nrf: radio null_phy
  by unfold_locales (simp_all add: null_phy_def)

text \<open>
  The layers and the radio of an object: payloads shorter than \<open>lim\<close> are encapsulated, longer than 224
  bytes refused, and received frames of any length but \<open>bad\<close> never fault.
\<close>

definition payload_ok :: "nat \<Rightarrow> u8 list \<Rightarrow> bool" where
  "payload_ok lim bytes \<longleftrightarrow> length bytes < lim \<or> length bytes > 224"

text \<open>Requests of admissible size and receptions that do not have the length \<open>bad\<close>.\<close>

definition event_ok :: "nat \<Rightarrow> nat \<Rightarrow> rf_event \<Rightarrow> bool" where
  "event_ok lim bad e \<longleftrightarrow>
     (case ev_payload e of
        TxReq req \<Rightarrow> payload_ok lim (tq_data req)
      | PhyIrq _ meta \<Rightarrow> unat (rm_pkt_len meta) \<noteq> bad
      | _ \<Rightarrow> True)"

definition ao_inv :: "nat \<Rightarrow> ('t, 'n, 'm, 'h) RfStackAO \<Rightarrow> bool" where
  "ao_inv lim ao \<longleftrightarrow>
     (\<forall>buf. ra_retransmit_frame ao = Some buf \<longrightarrow> length buf = MAX_FRAME) \<and> ra_retransmit_len ao \<le> MAX_FRAME \<and>
     (\<forall>req. ra_pending_tx ao = Some req \<longrightarrow> payload_ok lim (tq_data req))"

locale rf_object = radio "im_phy I" for I :: "('t, 'n, 'm, 'h) StackImpl" +
  fixes lim bad :: nat
  assumes build_ok: "payload_ok lim bytes \<Longrightarrow>
      \<exists>r st'. RfStack_build_frame I bytes st = Inr (r, st') \<and> (\<forall>f. r = Inr f \<longrightarrow> frame_wf f)"
    and receive_ok: "frame_wf g \<Longrightarrow> length (content g) \<noteq> bad \<Longrightarrow>
      \<exists>r g' st'. RfStack_receive_raw I g st = Inr (r, g', st') \<and> (\<forall>f. r = Inr (Some f) \<longrightarrow> frame_wf f)"
begin

lemma start_tx_ok:
  "payload_ok lim (tq_data req) \<Longrightarrow> ao_inv lim ao \<Longrightarrow>
     \<exists>ao' fx. RfStackAO_start_tx I req ao = Inr (ao', fx) \<and> ao_inv lim ao'"
  and drain_ok: "ao_inv lim ao \<Longrightarrow> \<exists>ao' fx. RfStackAO_drain_pending_tx I ao = Inr (ao', fx) \<and> ao_inv lim ao'"
proof -
  have none: "\<exists>ao' fx. RfStackAO_drain_pending_tx I ao = Inr (ao', fx) \<and> ao_inv lim ao'"
    if "ao_inv lim ao" "ra_pending_tx ao = None" for ao
    using that by (simp add: drain_none)
  have start: "\<exists>ao' fx. RfStackAO_start_tx I req ao = Inr (ao', fx) \<and> ao_inv lim ao'"
    if p: "payload_ok lim (tq_data req)" and a: "ao_inv lim ao"
      and d: "\<And>ao'. ra_pending_tx ao' = ra_pending_tx ao \<Longrightarrow> ao_inv lim ao' \<Longrightarrow>
        \<exists>ao'' fx. RfStackAO_drain_pending_tx I ao' = Inr (ao'', fx) \<and> ao_inv lim ao''" for req ao
  proof -
    let ?st = "(ra_stack ao)\<lparr>st_network := l_set_tx_meta (im_network I) (tq_dst req) (tq_kind req) (st_network (ra_stack ao))\<rparr>"
    obtain r st' where b: "RfStack_build_frame I (tq_data req) ?st = Inr (r, st')" "\<And>f. r = Inr f \<Longrightarrow> frame_wf f"
      using build_ok [OF p, of ?st] by blast
    show ?thesis
    proof (cases r)
      case (Inl e)
      with b a show ?thesis by (simp add: RfStackAO_start_tx.simps Let_def ao_inv_def)
    next
      case (Inr f)
      with b have f: "Frame_phy_bytes f = Inr (content f)" by (simp add: Frame_phy_bytes_def)
      let ?bytes = "content f"
      let ?fail = "\<lambda>h. ao\<lparr>ra_stack := st'\<lparr>st_phy := h\<rparr>, ra_retransmit_frame := None,
          ra_retransmit_len := min (length ?bytes) MAX_FRAME\<rparr>"
      have fl: "\<exists>ao'' fx. prefix_effects es (RfStackAO_drain_pending_tx I (?fail h)) = Inr (ao'', fx) \<and> ao_inv lim ao''" for es h
        unfolding prefix_effects_Inr by (rule d) (use a in \<open>simp_all add: ao_inv_def\<close>)
      obtain r1 h1 where h1: "phy_configure_tx (im_phy I) (ra_tx_cfg ao) (st_phy st') = (r1, h1)" by fastforce
      obtain r2 h2 where h2: "phy_transmit (im_phy I) ?bytes h1 = (r2, h2)" by fastforce
      have cp: "length (copy_at 0 (take (min (length ?bytes) MAX_FRAME) ?bytes) (replicate MAX_FRAME 0)) = MAX_FRAME"
        by (simp add: copy_at_def)
      show ?thesis
        by (cases r1; cases r2)
          (use a b Inr f h1 h2 fl cp in \<open>auto simp: RfStackAO_start_tx.simps Let_def ao_inv_def\<close>)
    qed
  qed
  have drain: "\<exists>ao' fx. RfStackAO_drain_pending_tx I ao = Inr (ao', fx) \<and> ao_inv lim ao'" if "ao_inv lim ao" for ao
  proof (cases "ra_pending_tx ao")
    case (Some req)
    have "\<exists>ao' fx. RfStackAO_start_tx I req (ao\<lparr>ra_pending_tx := None\<rparr>) = Inr (ao', fx) \<and> ao_inv lim ao'"
      by (rule start) (use that Some none in \<open>auto simp: ao_inv_def\<close>)
    with Some that show ?thesis by (simp add: RfStackAO_drain_pending_tx.simps)
  qed (use none that in blast)
  show "\<exists>ao' fx. RfStackAO_drain_pending_tx I ao = Inr (ao', fx) \<and> ao_inv lim ao'" if "ao_inv lim ao"
    using drain [OF that] .
  show "\<exists>ao' fx. RfStackAO_start_tx I req ao = Inr (ao', fx) \<and> ao_inv lim ao'"
    if "payload_ok lim (tq_data req)" "ao_inv lim ao"
    using that drain by (rule start)
qed

lemma prefix_drain_ok:
  "ao_inv lim ao \<Longrightarrow> \<exists>ao' fx. prefix_effects es (RfStackAO_drain_pending_tx I ao) = Inr (ao', fx) \<and> ao_inv lim ao'"
  unfolding prefix_effects_Inr by (rule drain_ok)

lemma timeout_ok:
  assumes "ao_inv lim ao"
  shows "\<exists>ao' fx. RfStackAO_handle_transport_timeout I ao = Inr (ao', fx) \<and> ao_inv lim ao'"
proof -
  obtain act t where t: "l_on_timeout (im_transport I) (st_transport (ra_stack ao)) = (act, t)" by fastforce
  let ?ao = "ao\<lparr>ra_stack := (ra_stack ao)\<lparr>st_transport := t\<rparr>\<rparr>"
  have "\<exists>ao'. RfStackAO_do_retransmit I ?ao = Inr ao' \<and> ao_inv lim ao'"
    using assms by (auto simp: RfStackAO_do_retransmit_def ao_inv_def split: option.splits)
  then have re: "\<exists>ao' fx. rbind (RfStackAO_do_retransmit I ?ao) (\<lambda>ao. Inr (arm_timer RETRANSMIT_TIMEOUT_TICKS ao, [])) =
      Inr (ao', fx) \<and> ao_inv lim ao'"
    by (auto simp: ao_inv_def)
  show ?thesis
  proof (cases act)
    case TxComplete
    with t assms prefix_drain_ok show ?thesis
      by (simp add: RfStackAO_handle_transport_timeout_def Let_def ao_inv_def)
  next
    case GiveUp
    with t assms prefix_drain_ok show ?thesis
      by (simp add: RfStackAO_handle_transport_timeout_def Let_def ao_inv_def)
  qed (use t re assms in \<open>simp_all add: RfStackAO_handle_transport_timeout_def Let_def ao_inv_def\<close>)
qed

lemma deliver_ok:
  assumes "ao_inv lim ao" "frame_wf f"
  shows "\<exists>ao' fx. RfStackAO_deliver I meta f ao = Inr (ao', fx) \<and> ao_inv lim ao'"
  using assms by (cases "l_last_rx_meta (im_network I) (st_network (ra_stack ao))")
    (auto simp: RfStackAO_deliver_def Let_def ao_inv_def split: prod.splits)

lemma rx_done_ok:
  assumes a: "ao_inv lim ao" and e: "event_ok lim bad e"
  shows "\<exists>ao' fx. RfStackAO_handle_rx_done I e ao = Inr (ao', fx) \<and> ao_inv lim ao'"
proof (cases "ev_payload e")
  case (PhyIrq ev meta)
  obtain r buf h where rd: "phy_read_rx (im_phy I) (fr_buf Frame_new) meta (st_phy (ra_stack ao)) = (r, buf, h)"
    by (metis prod_cases3)
  have lb: "length buf = MAX_FRAME" using read_rx_length [OF rd] by (simp add: Frame_new_def)
  let ?n = "unat (rm_pkt_len meta)"
  let ?f0 = "Frame_set_received_len ?n (Frame_new\<lparr>fr_buf := buf\<rparr>)"
  have n: "length (take ?n buf) = ?n" using lb u8_bound [of "rm_pkt_len meta"] by (simp add: MAX_FRAME_def)
  have f0: "frame_wf ?f0" "length (content ?f0) = ?n"
    using frame_received [of "take ?n buf" "Frame_new\<lparr>fr_buf := buf\<rparr>"] n lb u8_bound [of "rm_pkt_len meta"] by simp_all
  show ?thesis
  proof (cases r)
    case (Inl err)
    with PhyIrq rd a show ?thesis by (simp add: RfStackAO_handle_rx_done_def Let_def ao_inv_def)
  next
    case (Inr u)
    have "length (content ?f0) \<noteq> bad" using e PhyIrq f0(2) by (simp add: event_ok_def)
    from receive_ok [OF f0(1) this] obtain r' f1 st where
      rc: "RfStack_receive_raw I ?f0 ((ra_stack ao)\<lparr>st_phy := h\<rparr>) = Inr (r', f1, st)" "\<And>f. r' = Inr (Some f) \<Longrightarrow> frame_wf f"
      by metis
    let ?ao1 = "ao\<lparr>ra_stack := st, ra_rx_frame := f1\<rparr>"
    have "\<exists>ao2 es. (case r' of Inr (Some f) \<Rightarrow> RfStackAO_deliver I meta f ?ao1 | _ \<Rightarrow> Inr (?ao1, [])) = Inr (ao2, es) \<and> ao_inv lim ao2"
      using deliver_ok rc(2) a by (auto simp: ao_inv_def split: sum.splits option.splits)
    then obtain ao2 es where d: "(case r' of Inr (Some f) \<Rightarrow> RfStackAO_deliver I meta f ?ao1 | _ \<Rightarrow> Inr (?ao1, [])) = Inr (ao2, es)"
      "ao_inv lim ao2" by blast
    have "ao_inv lim (if ra_state ao2 = AoListening \<or> ra_state ao2 = AoProcessingRx then ao2\<lparr>ra_state := AoIdle\<rparr> else ao2)"
      using d(2) by (simp add: ao_inv_def)
    from prefix_drain_ok [OF this] show ?thesis
      by (simp add: RfStackAO_handle_rx_done_def Let_def PhyIrq rd Inr rc(1) d(1))
  qed
qed (use a in \<open>simp_all add: RfStackAO_handle_rx_done_def\<close>)

lemma on_event_ok:
  assumes "ao_inv lim ao" "event_ok lim bad e"
  shows "\<exists>ao' fx. RfStackAO_on_event I e ao = Inr (ao', fx) \<and> ao_inv lim ao'"
proof -
  have "\<exists>ao' fx. RfStackAO_handle_tx_req I e ao = Inr (ao', fx) \<and> ao_inv lim ao'"
    using assms start_tx_ok by (auto simp: RfStackAO_handle_tx_req_def event_ok_def ao_inv_def split: RfPayload.splits)
  moreover obtain r h where "phy_set_mode (im_phy I) (RxMode (Some 1000)) (st_phy (ra_stack ao)) = Inr (r, h)"
    using set_mode_ok [of "RxMode (Some 1000)" "st_phy (ra_stack ao)"] by auto
  then have "\<exists>ao' fx. RfStackAO_handle_tx_done I ao = Inr (ao', fx) \<and> ao_inv lim ao'"
    using assms(1) prefix_drain_ok by (auto simp: RfStackAO_handle_tx_done_def Let_def ao_inv_def)
  moreover obtain r h where "phy_set_mode (im_phy I) (RxMode None)
      (snd (phy_configure_rx (im_phy I) (ra_rx_cfg ao) (st_phy (ra_stack ao)))) = Inr (r, h)"
    using set_mode_ok [of "RxMode None" "snd (phy_configure_rx (im_phy I) (ra_rx_cfg ao) (st_phy (ra_stack ao)))"] by auto
  then have "\<exists>ao' fx. RfStackAO_handle_rx_start I ao = Inr (ao', fx) \<and> ao_inv lim ao'"
    using assms(1) by (auto simp: RfStackAO_handle_rx_start_def Let_def ao_inv_def split: sum.splits)
  moreover have "ao_inv lim (ao\<lparr>ra_state := AoIdle\<rparr>)" using assms(1) by (simp add: ao_inv_def)
  ultimately show ?thesis
    using assms timeout_ok [OF assms(1)] rx_done_ok [OF assms] by (simp add: RfStackAO_on_event_def Let_def)
qed

lemma run_events_ok:
  "ao_inv lim ao \<Longrightarrow> list_all (event_ok lim bad) es \<Longrightarrow> \<exists>ao' fx. run_events I es ao = Inr (ao', fx) \<and> ao_inv lim ao'"
proof (induction es arbitrary: ao)
  case (Cons e es)
  then obtain ao1 fx where 1: "RfStackAO_on_event I e ao = Inr (ao1, fx)" "ao_inv lim ao1"
    using on_event_ok by force
  with Cons obtain ao' fx' where "run_events I es ao1 = Inr (ao', fx')" "ao_inv lim ao'" by force
  with 1 show ?case by simp
qed simp

end

section \<open>The stacks of the crate\<close>

context codec_stack
begin

lemma build_total:
  assumes "im_transport I = T" "im_network I = N" "im_mac I = M" "payload_ok (224 - (tt + tn + tm)) bytes"
  shows "\<exists>r st'. RfStack_build_frame I bytes st = Inr (r, st') \<and> (\<forall>f. r = Inr f \<longrightarrow> frame_wf f)"
proof (cases "length bytes > 224")
  case True
  then have "Frame_write_payload bytes Frame_new = Inl BufferTooSmall"
    by (simp add: Frame_write_payload_def MAX_FRAME_def FRAME_HEADROOM_def)
  then show ?thesis by (simp add: RfStack_build_frame_def)
next
  case False
  with assms(4) have "length bytes + tt + tn + tm < MAX_FRAME - FRAME_HEADROOM"
    by (auto simp: payload_ok_def MAX_FRAME_def FRAME_HEADROOM_def)
  from build_frame_parts [OF assms(1-3) this, of st] show ?thesis by auto
qed

end

text \<open>A reliable transport over the network layer, and an unreliable one alone, with any radio.\<close>

abbreviation reliable_impl :: "'h RfPhy \<Rightarrow> (ReliableTransport, Network, unit, 'h) StackImpl" where
  "reliable_impl P \<equiv> \<lparr>im_transport = reliable_layer, im_network = network_layer, im_mac = noop_layer, im_phy = P\<rparr>"

abbreviation unreliable_impl :: "'h RfPhy \<Rightarrow> (UnreliableTransport, unit, unit, 'h) StackImpl" where
  "unreliable_impl P \<equiv> \<lparr>im_transport = unreliable_layer, im_network = noop_layer, im_mac = noop_layer, im_phy = P\<rparr>"

lemma reliable_object: "radio P \<Longrightarrow> rf_object (reliable_impl P) 224 234"
proof (intro rf_object.intro rf_object_axioms.intro)
  fix bytes and st :: "(ReliableTransport, Network, unit, 'a) RfStack"
  assume "payload_ok 224 bytes"
  then show "\<exists>r st'. RfStack_build_frame (reliable_impl P) bytes st = Inr (r, st') \<and> (\<forall>f. r = Inr f \<longrightarrow> frame_wf f)"
    using rnn.build_total [of "reliable_impl P" bytes st] by simp
next
  fix g and st :: "(ReliableTransport, Network, unit, 'a) RfStack"
  assume "frame_wf g" "length (content g) \<noteq> 234"
  then show "\<exists>r g' st'. RfStack_receive_raw (reliable_impl P) g st = Inr (r, g', st') \<and> (\<forall>f. r = Inr (Some f) \<longrightarrow> frame_wf f)"
    using rnr.receive_raw_total [of "reliable_impl P" g st] by auto
qed simp

lemma unreliable_object: "radio P \<Longrightarrow> rf_object (unreliable_impl P) 224 229"
proof (intro rf_object.intro rf_object_axioms.intro)
  fix bytes and st :: "(UnreliableTransport, unit, unit, 'a) RfStack"
  assume "payload_ok 224 bytes"
  then show "\<exists>r st'. RfStack_build_frame (unreliable_impl P) bytes st = Inr (r, st') \<and> (\<forall>f. r = Inr f \<longrightarrow> frame_wf f)"
    using unn.build_total [of "unreliable_impl P" bytes st] by simp
next
  fix g and st :: "(UnreliableTransport, unit, unit, 'a) RfStack"
  assume "frame_wf g" "length (content g) \<noteq> 229"
  then show "\<exists>r g' st'. RfStack_receive_raw (unreliable_impl P) g st = Inr (r, g', st') \<and> (\<forall>f. r = Inr (Some f) \<longrightarrow> frame_wf f)"
    using unr.receive_raw_total [of "unreliable_impl P" g st] by auto
qed simp

interpretation rlo: rf_object "reliable_impl loopback_phy" 224 234
  by (rule reliable_object) unfold_locales

interpretation rno: rf_object "reliable_impl null_phy" 224 234
  by (rule reliable_object) unfold_locales

interpretation ulo: rf_object "unreliable_impl loopback_phy" 224 229
  by (rule unreliable_object) unfold_locales

lemma ao_inv_new: "ao_inv lim (RfStackAO_new st tc rc)"
  by (simp add: ao_inv_def RfStackAO_new_def)

section \<open>Properties\<close>

text \<open>
  C19: (no panic on admissible traffic) A radio object with a reliable transport and the addressing
  layer, over any radio, started anew and driven by any sequence of events (requests, receptions of
  arbitrary bytes, time-outs, radio interrupts, in any order), never panics, provided that no request
  carries exactly 224 bytes and no received frame is exactly 234 bytes long.
\<close>

theorem RfStackAO_never_panics:
  assumes "radio P" "list_all (event_ok 224 234) es"
  shows "\<exists>ao' fx. run_events (reliable_impl P) es (RfStackAO_new st tc rc) = Inr (ao', fx)"
  using rf_object.run_events_ok [OF reliable_object [OF assms(1)] ao_inv_new assms(2)] by blast

definition demo_tx_cfg :: RfTxConfig where
  "demo_tx_cfg = \<lparr>tx_frequency_hz = 868100000, tx_power_dbm = 14,
     tx_params = LoRaParams \<lparr>mod_sf = SF7, mod_bw = Bw125, mod_cr = Cr45, mod_preamble = 8\<rparr>\<rparr>"

definition demo_rx_cfg :: RfRxConfig where
  "demo_rx_cfg = \<lparr>rx_frequency_hz = 868100000, rx_timeout_ms = None,
     rx_params = LoRaParams \<lparr>mod_sf = SF7, mod_bw = Bw125, mod_cr = Cr45, mod_preamble = 8\<rparr>\<rparr>"

theorem RfStackAO_never_panics_witness:
  "\<exists>ao' fx. run_events (reliable_impl null_phy)
     [request_event (RfTxReqPayload_new [1, 2, 3] 1), timeout_event, received_event RxMetadata_default]
     (RfStackAO_new (demo_stack 7) demo_tx_cfg demo_rx_cfg) = Inr (ao', fx)"
  by (rule RfStackAO_never_panics)
    (auto simp: event_ok_def payload_ok_def on_event_signals RfTxReqPayload_new_def timeout_event_def
      RxMetadata_default_def intro: nrf.radio_axioms)

text \<open>A frame of 229 bytes passes the unreliable transport's header and leaves 224 bytes to store.\<close>

lemma unreliable_accepts_229:
  assumes "length buf = MAX_FRAME" "unat (rm_pkt_len meta) = 229"
    "RfStack_receive_raw (unreliable_impl P) (rx_raw meta buf) st = Inr (r, f1, st')"
  shows "\<exists>f. r = Inr (Some f)"
proof -
  note f0 = rx_raw_content [OF assms(1), of meta]
  have "content (rx_raw meta buf) = take 5 (content (rx_raw meta buf)) @ drop 5 (content (rx_raw meta buf))"
    "length (take 5 (content (rx_raw meta buf))) = 5" using f0(3) assms(2) by simp_all
  from ut.up_result [OF f0(1) this, of "st_transport st"] obtain g where
    g: "l_up unreliable_layer (st_transport st) (rx_raw meta buf) = Inr (Inr True, st_transport st, g)"
      "frame_wf g" "length (content g) = 224" using f0(3) assms(2) by auto
  with assms(3) show ?thesis
    using Frame_write_payload_cases [OF frame_wf_new, of "content g"]
    by (auto simp: RfStack_receive_raw_def noop_layer_def Noop_up_def Let_def split: sum.splits)
qed

text \<open>
  (remote panic) With an unreliable transport, whatever the radio and whatever the bytes, a received
  frame makes the object panic exactly when it is 229 bytes long: 224 bytes are left after the header,
  the copy handed to the application has a wrapped end cursor, and reading it fails.
\<close>

theorem RfStackAO_rx_panics_iff:
  assumes "radio P" "fst (phy_read_rx P (fr_buf Frame_new) meta (st_phy (ra_stack ao))) = Inr ()" "ra_pending_tx ao = None"
  shows "RfStackAO_on_event (unreliable_impl P) (received_event meta) ao = Inl Panic \<longleftrightarrow> rm_pkt_len meta = 229"
proof -
  obtain buf h where rd: "phy_read_rx P (fr_buf Frame_new) meta (st_phy (ra_stack ao)) = (Inr (), buf, h)"
    using assms(2) by (metis prod.collapse)
  have lb: "length buf = MAX_FRAME" using radio.read_rx_length [OF assms(1) rd] by (simp add: Frame_new_def)
  have i: "rx_input (unreliable_impl P) meta ao buf h" using rd lb by (simp add: rx_input_def)
  let ?st = "(ra_stack ao)\<lparr>st_phy := h\<rparr>"
  note f0 = rx_raw_content [OF lb, of meta]
  have eq: "rm_pkt_len meta = 229 \<longleftrightarrow> unat (rm_pkt_len meta) = 229"
    by (simp add: word_unat_eq_iff)
  obtain r f1 st where rc: "RfStack_receive_raw (unreliable_impl P) (rx_raw meta buf) ?st = Inr (r, f1, st)"
    and f: "\<And>f. r = Inr (Some f) \<Longrightarrow> if unat (rm_pkt_len meta) = 229 then Frame_payload f = Inl Panic
      else frame_wf f \<and> length (content f) < 224"
    using unr.receive_raw_total [of "unreliable_impl P" "rx_raw meta buf" ?st] f0(1,3) by (auto cong: if_cong)
  have some: "\<exists>f. r = Inr (Some f)" if n: "unat (rm_pkt_len meta) = 229"
    using unreliable_accepts_229 [OF lb n rc] .
  show ?thesis
  proof (cases "unat (rm_pkt_len meta) = 229")
    case True
    from some [OF True] obtain f' where "r = Inr (Some f')" by blast
    with True f have "RfStackAO_deliver (unreliable_impl P) meta f' (ao\<lparr>ra_stack := st, ra_rx_frame := f1\<rparr>) = Inl Panic"
      by (simp add: RfStackAO_deliver_def Let_def)
    with True eq \<open>r = Inr (Some f')\<close> received_eq [OF i rc] show ?thesis by simp
  next
    case False
    have "RfStackAO_on_event (unreliable_impl P) (received_event meta) ao \<noteq> Inl Panic"
    proof (cases "\<exists>f'. r = Inr (Some f')")
      case True
      then obtain f' where f': "r = Inr (Some f')" by blast
      obtain src kind where m: "l_last_rx_meta (im_network (unreliable_impl P)) (st_network st) = (src, kind)" by fastforce
      have w: "frame_wf f'" "length (content f') \<le> 242" using f [OF f'] False by auto
      note d = deliver_eq [OF Frame_payload_wf [OF w(1)] w(2), of "unreliable_impl P" "ao\<lparr>ra_stack := st, ra_rx_frame := f1\<rparr>" src kind meta]
      show ?thesis
        using d m assms(3) unfolding received_eq [OF i rc] f' by (simp add: drain_none rx_idle_def)
    next
      case none: False
      then have "\<exists>e. r = Inl e \<or> r = Inr None" by (cases r) auto
      then obtain e where "r = Inl e \<or> r = Inr None" by blast
      from received_dropped [OF i rc assms(3) this] show ?thesis by simp
    qed
    with False eq show ?thesis by simp
  qed
qed

theorem RfStackAO_rx_panics_iff_witness:
  "RfStackAO_on_event (unreliable_impl null_phy) (received_event (RxMetadata_default\<lparr>rm_pkt_len := 229\<rparr>))
     (RfStackAO_new (RfStack_new UnreliableTransport_new () () NullRf_new) demo_tx_cfg demo_rx_cfg) = Inl Panic"
  by (subst RfStackAO_rx_panics_iff [OF nrf.radio_axioms])
    (simp_all add: null_phy_def RfStackAO_new_def RxMetadata_default_def)

section \<open>Giving up\<close>

lemma timeouts_give_up:
  assumes "im_transport I = reliable_layer" "rt_state (st_transport (ra_stack ao)) = TransportWaitingAck"
    "ra_retransmit_frame ao = Some buf" "ra_retransmit_len ao \<le> length buf" "ra_pending_tx ao = None"
    "unat (rt_retries (st_transport (ra_stack ao))) = n"
  shows "\<exists>ao'. run_events I (replicate (Suc n) timeout_event) ao = Inr (ao', [app_post RF_TX_FAIL_SIG NoPayload]) \<and>
    ra_state ao' = AoIdle \<and> rt_state (st_transport (ra_stack ao')) = TransportIdle \<and> ra_retransmit_frame ao' = None \<and>
    st_phy (ra_stack ao') =
      ((\<lambda>h. snd (phy_transmit (im_phy I) (take (ra_retransmit_len ao) buf) h)) ^^ n) (st_phy (ra_stack ao))"
  using assms
proof (induction n arbitrary: ao)
  case 0
  then have "rt_retries (st_transport (ra_stack ao)) = 0" by (simp add: unat_eq_0)
  with 0 show ?case
    by (simp add: on_event_signals RfStackAO_handle_transport_timeout_def reliable_layer_def
        ReliableTransport_on_timeout_def Let_def drain_none)
next
  case (Suc n)
  let ?t = "st_transport (ra_stack ao)"
  let ?ao = "arm_timer RETRANSMIT_TIMEOUT_TICKS (set_phy (snd (phy_transmit (im_phy I) (take (ra_retransmit_len ao) buf)
      (st_phy (ra_stack ao)))) (ao\<lparr>ra_stack := (ra_stack ao)\<lparr>st_transport := ?t\<lparr>rt_retries := rt_retries ?t - 1\<rparr>\<rparr>\<rparr>))"
  have r: "rt_retries ?t > 0" "unat (rt_retries ?t - 1) = n"
    using Suc.prems(6) unat_u8_sub [of 1 "rt_retries ?t"] by (auto simp: word_gt_0)
  have "RfStackAO_on_event I timeout_event ao = Inr (?ao, [])"
    using Suc.prems r(1) by (simp add: on_event_signals RfStackAO_handle_transport_timeout_def reliable_layer_def
        ReliableTransport_on_timeout_def Let_def RfStackAO_do_retransmit_def)
  moreover obtain ao' where "run_events I (replicate (Suc n) timeout_event) ?ao = Inr (ao', [app_post RF_TX_FAIL_SIG NoPayload])"
    "ra_state ao' = AoIdle" "rt_state (st_transport (ra_stack ao')) = TransportIdle" "ra_retransmit_frame ao' = None"
    "st_phy (ra_stack ao') = ((\<lambda>h. snd (phy_transmit (im_phy I) (take (ra_retransmit_len ao) buf) h)) ^^ n) (st_phy (ra_stack ?ao))"
    using Suc.IH [of ?ao] Suc.prems r(2) by auto
  ultimately show ?case by (simp add: funpow_Suc_right del: funpow.simps)
qed

lemma reliable_build:
  assumes "length bytes < 224"
  shows "\<exists>f. RfStack_build_frame (reliable_impl P) bytes st = Inr (Inr f,
      st\<lparr>st_transport := (st_transport st)\<lparr>rt_retries := rt_max_retries (st_transport st), rt_state := TransportWaitingAck,
           rt_seq := rt_seq (st_transport st) + 1\<rparr>,
         st_network := (st_network st)\<lparr>nw_pending_dst := BROADCAST_ADDR, nw_pending_kind := 0\<rparr>\<rparr>) \<and> frame_wf f \<and>
    content f = Network_header (st_network st) @ ReliableTransport_header (length bytes) (st_transport st) @ bytes"
proof -
  have "length bytes < MAX_FRAME - FRAME_HEADROOM" using assms by (simp add: MAX_FRAME_def FRAME_HEADROOM_def)
  from Frame_write_payload_ok [OF frame_wf_new this] obtain f0 where
    f0: "Frame_write_payload bytes Frame_new = Inr f0" "frame_wf f0" "content f0 = bytes" "unat (fr_start f0) = 32"
    by (auto simp: FRAME_HEADROOM_def)
  obtain f1 where f1: "l_down reliable_layer (st_transport st) f0 = Inr (Inr (),
      (st_transport st)\<lparr>rt_retries := rt_max_retries (st_transport st), rt_state := TransportWaitingAck,
        rt_seq := rt_seq (st_transport st) + 1\<rparr>, f1)" "frame_wf f1"
    "content f1 = ReliableTransport_header (length bytes) (st_transport st) @ bytes" "unat (fr_start f1) = 27"
    using rt.down_result [OF f0(2), of "st_transport st"] f0(3,4) by auto
  obtain f2 where f2: "l_down network_layer (st_network st) f1 = Inr (Inr (),
      (st_network st)\<lparr>nw_pending_dst := BROADCAST_ADDR, nw_pending_kind := 0\<rparr>, f2)" "frame_wf f2"
    "content f2 = Network_header (st_network st) @ content f1"
    using nw.down_result [OF f1(2), of "st_network st"] f1(4) by auto
  show ?thesis
    using f2(2,3) f1(3) by (simp add: RfStack_build_frame_def f0(1) f1(1) f2(1) noop_layer_def Noop_down_def Let_def)
qed

text \<open>
  C20: (bounded retransmission) A reliable request to an object that is not busy, over a radio that
  accepts every frame, is transmitted, and with no acknowledgement it is retransmitted, byte for byte,
  at each of the next \<open>max_retries\<close> time-outs; the time-out after them reports the failure to the
  application, once, and leaves the object idle. The frame carries the request's bytes behind the
  network and transport headers.
\<close>

theorem RfStackAO_gives_up:
  assumes "length (tq_data req) < 224" "tq_reliable req" "\<not> ao_busy ao" "ra_pending_tx ao = None"
    and "\<forall>cfg h. fst (phy_configure_tx P cfg h) = Inr ()" "\<forall>bytes h. fst (phy_transmit P bytes h) = Inr ()"
  shows "\<exists>bytes ao'. run_events (reliable_impl P)
      (request_event req # replicate (Suc (unat (rt_max_retries (st_transport (ra_stack ao))))) timeout_event) ao =
      Inr (ao', [Trace RF_PHY_TX [1, ucast (tq_dst req)] True, Trace RF_PHY_TX_DONE [1, ucast (tq_dst req)] True,
        app_post RF_TX_FAIL_SIG NoPayload]) \<and>
    ra_state ao' = AoIdle \<and> rt_state (st_transport (ra_stack ao')) = TransportIdle \<and> ra_retransmit_frame ao' = None \<and>
    drop 10 bytes = tq_data req \<and>
    st_phy (ra_stack ao') = ((\<lambda>h. snd (phy_transmit P bytes h)) ^^ Suc (unat (rt_max_retries (st_transport (ra_stack ao)))))
      (snd (phy_configure_tx P (ra_tx_cfg ao) (st_phy (ra_stack ao))))"
proof -
  let ?I = "reliable_impl P" and ?t = "st_transport (ra_stack ao)"
  let ?st = "(ra_stack ao)\<lparr>st_network := l_set_tx_meta network_layer (tq_dst req) (tq_kind req) (st_network (ra_stack ao))\<rparr>"
  let ?t' = "?t\<lparr>rt_retries := rt_max_retries ?t, rt_state := TransportWaitingAck, rt_seq := rt_seq ?t + 1\<rparr>"
  obtain f st' where b: "RfStack_build_frame ?I (tq_data req) ?st = Inr (Inr f, st')" "frame_wf f"
    "st_transport st' = ?t'" "st_phy st' = st_phy (ra_stack ao)"
    "content f = Network_header (st_network ?st) @ ReliableTransport_header (length (tq_data req)) ?t @ tq_data req"
    using reliable_build [OF assms(1), of P ?st] by auto
  let ?bytes = "content f"
  have len: "min (length ?bytes) MAX_FRAME = length ?bytes"
    using length_content_le [OF b(2)] by (simp add: MAX_FRAME_def)
  obtain h1 where h1: "phy_configure_tx P (ra_tx_cfg ao) (st_phy (ra_stack ao)) = (Inr (), h1)"
    using assms(5) by (metis prod.collapse)
  obtain h2 where h2: "phy_transmit P ?bytes h1 = (Inr (), h2)" using assms(6) by (metis prod.collapse)
  let ?buf = "copy_at 0 ?bytes (replicate MAX_FRAME 0)"
  let ?ao = "arm_timer TX_WATCHDOG_TICKS (ao\<lparr>ra_stack := st'\<lparr>st_phy := h2\<rparr>, ra_retransmit_frame := Some ?buf,
      ra_retransmit_len := length ?bytes, ra_state := AoWaitingAck\<rparr>)"
  have s: "RfStackAO_on_event ?I (request_event req) ao = Inr (?ao,
      [Trace RF_PHY_TX [1, ucast (tq_dst req)] True, Trace RF_PHY_TX_DONE [1, ucast (tq_dst req)] True])"
    using assms(2,3) b(1,2,4) h1 h2
    by (simp add: on_event_signals RfStackAO_handle_tx_req_def RfStackAO_start_tx.simps Let_def Frame_phy_bytes_def len)
  have buf: "take (length ?bytes) ?buf = ?bytes" "length ?bytes \<le> length ?buf" by (simp_all add: copy_at_def)
  obtain ao' where ao': "run_events ?I (replicate (Suc (unat (rt_max_retries ?t))) timeout_event) ?ao =
      Inr (ao', [app_post RF_TX_FAIL_SIG NoPayload])"
    "ra_state ao' = AoIdle" "rt_state (st_transport (ra_stack ao')) = TransportIdle" "ra_retransmit_frame ao' = None"
    "st_phy (ra_stack ao') = ((\<lambda>h. snd (phy_transmit P ?bytes h)) ^^ unat (rt_max_retries ?t)) h2"
    using timeouts_give_up [of ?I ?ao ?buf "unat (rt_max_retries ?t)"] b(3) assms(4) buf by auto
  have "run_events ?I (request_event req # replicate (Suc (unat (rt_max_retries ?t))) timeout_event) ao =
      Inr (ao', [Trace RF_PHY_TX [1, ucast (tq_dst req)] True, Trace RF_PHY_TX_DONE [1, ucast (tq_dst req)] True,
        app_post RF_TX_FAIL_SIG NoPayload])"
    by (simp only: run_events.simps s rbind_simps prod.case ao'(1) prefix_effects_simps append.simps)
  moreover have "drop 10 ?bytes = tq_data req" using b(5) by simp
  moreover have "st_phy (ra_stack ao') = ((\<lambda>h. snd (phy_transmit P ?bytes h)) ^^ Suc (unat (rt_max_retries ?t)))
      (snd (phy_configure_tx P (ra_tx_cfg ao) (st_phy (ra_stack ao))))"
    using ao'(5) h1 h2 by (simp add: funpow_Suc_right del: funpow.simps)
  ultimately show ?thesis using ao'(2-4) by blast
qed

theorem RfStackAO_gives_up_witness:
  "\<exists>bytes ao'. run_events (reliable_impl null_phy)
      (request_event (RfTxReqPayload_with_reliability [5, 6] 1 True) # replicate 4 timeout_event)
      (RfStackAO_new (demo_stack 7) demo_tx_cfg demo_rx_cfg) =
      Inr (ao', [Trace RF_PHY_TX [1, 0xFF] True, Trace RF_PHY_TX_DONE [1, 0xFF] True, app_post RF_TX_FAIL_SIG NoPayload]) \<and>
    ra_state ao' = AoIdle \<and> nr_printed (st_phy (ra_stack ao')) = replicate 4 bytes \<and> drop 10 bytes = [5, 6]"
proof -
  let ?ao = "RfStackAO_new (demo_stack 7) demo_tx_cfg demo_rx_cfg"
  let ?req = "RfTxReqPayload_with_reliability [5, 6] 1 True"
  have p: "((\<lambda>h. snd (phy_transmit null_phy bytes h)) ^^ k) NullRf_new =
      (if k = 0 then NullRf_new else \<lparr>nr_tx_done_pending = True, nr_printed = replicate k bytes\<rparr>)" for bytes k
    by (induction k) (auto simp: null_phy_def NullRf_transmit_def NullRf_new_def replicate_append_same)
  have m: "unat (rt_max_retries (st_transport (ra_stack ?ao))) = 3"
    by (simp add: RfStackAO_new_def demo_stack_def RfStack_new_def ReliableTransport_new_def)
  have "tq_data ?req = [5, 6]" "tq_reliable ?req" "tq_dst ?req = 0xFFFF" "\<not> ao_busy ?ao" "ra_pending_tx ?ao = None"
    "st_phy (ra_stack ?ao) = NullRf_new"
    by (simp_all add: RfTxReqPayload_with_reliability_def BROADCAST_ADDR_def ao_busy_def RfStackAO_new_def demo_stack_def RfStack_new_def)
  note req = this
  have four: "Suc (unat (rt_max_retries (st_transport (ra_stack ?ao)))) = 4" unfolding m by simp
  have c: "ucast (0xFFFF :: u16) = (0xFF :: u8)" by simp
  have phy: "\<forall>c h. fst (phy_configure_tx null_phy c h) = Inr ()" "\<forall>bytes h. fst (phy_transmit null_phy bytes h) = Inr ()"
    "\<And>c h. snd (phy_configure_tx null_phy c h) = h"
    by (simp_all add: null_phy_def NullRf_transmit_def)
  have "length (tq_data ?req) < 224" unfolding req(1) by simp
  from RfStackAO_gives_up [OF this req(2,4,5) phy(1,2)] obtain bytes ao' where
    "run_events (reliable_impl null_phy) (request_event ?req # replicate 4 timeout_event) ?ao =
      Inr (ao', [Trace RF_PHY_TX [1, 0xFF] True, Trace RF_PHY_TX_DONE [1, 0xFF] True, app_post RF_TX_FAIL_SIG NoPayload])"
    "ra_state ao' = AoIdle" "drop 10 bytes = [5, 6]"
    "st_phy (ra_stack ao') = ((\<lambda>h. snd (phy_transmit null_phy bytes h)) ^^ 4) NullRf_new"
    unfolding four req(1,3,6) c phy(3) by blast
  moreover from this(4) have "nr_printed (st_phy (ra_stack ao')) = replicate 4 bytes" unfolding p by simp
  ultimately show ?thesis by blast
qed

section \<open>Waiting for ever\<close>

text \<open>
  The signals that do not bring a waiting object on once its transport is idle again: time-outs find
  the transport idle, requests are queued or dropped, the radio's transmission interrupt re-arms the
  timer, and arming the receiver is refused.
\<close>

definition stuck_signal :: "signal \<Rightarrow> bool" where
  "stuck_signal s \<longleftrightarrow> s \<in> {RF_TRANSPORT_TIMEOUT_SIG, RF_TX_REQ_SIG, RF_PHY_TX_DONE_SIG, RF_RX_START_SIG}"

definition no_app_post :: "rf_effect list \<Rightarrow> bool" where
  "no_app_post fx \<longleftrightarrow> list_all (\<lambda>x. case x of Trace _ _ _ \<Rightarrow> True | Call _ \<Rightarrow> False) fx"

definition stuck :: "'h \<Rightarrow> (ReliableTransport, Network, unit, 'h) RfStackAO \<Rightarrow> bool" where
  "stuck h ao \<longleftrightarrow> ra_state ao = AoWaitingAck \<and> rt_state (st_transport (ra_stack ao)) = TransportIdle \<and> st_phy (ra_stack ao) = h"

lemma stuck_step:
  assumes "stuck h ao" "stuck_signal (Event_signal e)"
  shows "\<exists>ao' fx. RfStackAO_on_event (reliable_impl P) e ao = Inr (ao', fx) \<and> stuck h ao' \<and> no_app_post fx"
proof -
  have "RfStackAO_handle_transport_timeout (reliable_impl P) ao = Inr (ao, [])"
    using assms(1) by (simp add: RfStackAO_handle_transport_timeout_def reliable_layer_def ReliableTransport_on_timeout_def stuck_def Let_def)
  moreover have "\<exists>ao'. RfStackAO_handle_tx_req (reliable_impl P) e ao = Inr (ao', []) \<and> stuck h ao'"
    using assms(1) by (auto simp: RfStackAO_handle_tx_req_def ao_busy_def stuck_def split: RfPayload.splits)
  moreover have "\<exists>ao'. RfStackAO_handle_tx_done (reliable_impl P) ao = Inr (ao', []) \<and> stuck h ao'"
    using assms(1) by (simp add: RfStackAO_handle_tx_done_def stuck_def Let_def)
  moreover have "RfStackAO_handle_rx_start (reliable_impl P) ao = Inr (ao, [Trace RF_RX_ARMED [0] True])"
    using assms(1) by (simp add: RfStackAO_handle_rx_start_def stuck_def)
  ultimately show ?thesis
    using assms unfolding stuck_signal_def no_app_post_def
    by (auto simp: RfStackAO_on_event_def Let_def rf_sigs)
qed

lemma stuck_run:
  "stuck h ao \<Longrightarrow> list_all (\<lambda>e. stuck_signal (Event_signal e)) es \<Longrightarrow>
     \<exists>ao' fx. run_events (reliable_impl P) es ao = Inr (ao', fx) \<and> stuck h ao' \<and> no_app_post fx"
proof (induction es arbitrary: ao)
  case Nil
  then show ?case by (simp add: no_app_post_def)
next
  case (Cons e es)
  then obtain ao1 fx where "RfStackAO_on_event (reliable_impl P) e ao = Inr (ao1, fx)" "stuck h ao1" "no_app_post fx"
    using stuck_step by force
  moreover with Cons obtain ao' fx' where "run_events (reliable_impl P) es ao1 = Inr (ao', fx')" "stuck h ao'" "no_app_post fx'"
    by force
  ultimately show ?case by (simp add: no_app_post_def)
qed

text \<open>
  (an acknowledgement is not acted on) While the object waits for the acknowledgement of a reliable
  transmission, the peer's acknowledgement of it makes the transport idle but is not delivered, and
  the object keeps waiting: after any further time-outs, requests, transmission interrupts and
  requests to listen, in any order and number, nothing has been transmitted and the application has
  been told neither of success nor of failure.
\<close>

theorem RfStackAO_ack_not_acted_on:
  assumes "rx_input (reliable_impl P) meta ao buf h"
    and "take (unat (rm_pkt_len meta)) buf = Network_header peer @ [rt_seq (st_transport (ra_stack ao)) - 1, a, fl, l, u] @ rest"
    and "nw_accepts peer (st_network (ra_stack ao))" "and fl IS_ACK \<noteq> 0"
    and "ra_state ao = AoWaitingAck" "ra_pending_tx ao = None"
    and "list_all (\<lambda>e. stuck_signal (Event_signal e)) es"
  shows "\<exists>ao' fx. run_events (reliable_impl P) (received_event meta # es) ao = Inr (ao', fx) \<and>
    ra_state ao' = AoWaitingAck \<and> rt_state (st_transport (ra_stack ao')) = TransportIdle \<and>
    st_phy (ra_stack ao') = h \<and> no_app_post fx"
proof -
  let ?st = "(ra_stack ao)\<lparr>st_phy := h\<rparr>" and ?t = "st_transport (ra_stack ao)"
  let ?ack = "[rt_seq ?t - 1, a, fl, l, u]"
  note f0 = rx_raw_content [of buf meta]
  have lb: "length buf = MAX_FRAME" using assms(1) by (simp add: rx_input_def)
  have c: "content (rx_raw meta buf) = Network_header peer @ ?ack @ rest" using f0(2) [OF lb] assms(2) by simp
  obtain n g1 where g1: "l_up network_layer (st_network (ra_stack ao)) (rx_raw meta buf) = Inr (Inr True, n, g1)"
    "frame_wf g1" "content g1 = ?ack @ rest"
    using nw.up_result [OF f0(1) [OF lb] c, of "st_network (ra_stack ao)"] Network_look_header [OF assms(3)] by auto
  have look: "ReliableTransport_look ?t ?ack = (False, ?t\<lparr>rt_state := TransportIdle\<rparr>)"
    using assms(4) by (simp add: ReliableTransport_look_def ReliableTransport_on_ack_received_def Let_def)
  obtain g2 where g2: "l_up reliable_layer ?t g1 = Inr (Inr False, ?t\<lparr>rt_state := TransportIdle\<rparr>, g2)"
    using rt.up_result [OF g1(2,3), of ?t] look by auto
  define st where "st = ?st\<lparr>st_network := n, st_transport := ?t\<lparr>rt_state := TransportIdle\<rparr>\<rparr>"
  have rc: "RfStack_receive_raw (reliable_impl P) (rx_raw meta buf) ?st = Inr (Inr None, g2, st)"
    "st_transport st = ?t\<lparr>rt_state := TransportIdle\<rparr>" "st_phy st = h"
    using g1(1) g2 by (simp_all add: RfStack_receive_raw_def noop_layer_def Noop_up_def Let_def st_def)
  let ?ao = "ao\<lparr>ra_stack := st, ra_rx_frame := g2\<rparr>"
  have idle: "rx_idle ?ao = ?ao" using assms(5) by (simp add: rx_idle_def)
  have "stuck h ?ao" using assms(5) rc(2,3) by (simp add: stuck_def)
  from stuck_run [OF this assms(7), of P] obtain ao' fx where
    run: "run_events (reliable_impl P) es ?ao = Inr (ao', fx)" "stuck h ao'" "no_app_post fx" by blast
  have "RfStackAO_on_event (reliable_impl P) (received_event meta) ao =
      Inr (?ao, [Trace RF_PHY_RX [1, ucast (rm_rssi_dbm meta)] True])"
    using received_dropped [OF assms(1) rc(1) assms(6), of undefined] unfolding idle by simp
  with run(1) have "run_events (reliable_impl P) (received_event meta # es) ao =
      Inr (ao', [Trace RF_PHY_RX [1, ucast (rm_rssi_dbm meta)] True] @ fx)"
    by (simp only: run_events.simps rbind_simps prod.case prefix_effects_simps)
  moreover have "no_app_post ([Trace RF_PHY_RX [1, ucast (rm_rssi_dbm meta)] True] @ fx)"
    using run(3) by (simp add: no_app_post_def)
  ultimately show ?thesis using run(2) unfolding stuck_def by blast
qed

text \<open>
  The watchdog armed for an unreliable transmission has no effect when it expires: the object stays
  in its state, whatever that is.
\<close>

lemma RfStackAO_watchdog_ineffective:
  "run_events (unreliable_impl P) (replicate n timeout_event) ao = Inr (ao, [])"
proof (induction n)
  case (Suc n)
  have "RfStackAO_on_event (unreliable_impl P) timeout_event ao = Inr (ao, [])"
    by (simp add: on_event_signals RfStackAO_handle_transport_timeout_def unreliable_layer_def Layer_on_timeout_def Let_def)
  with Suc show ?case by simp
qed simp

section \<open>The loopback radio\<close>

lemma loopback_rx_input:
  assumes "im_phy I = loopback_phy" "lb_pending_rx (st_phy (ra_stack ao)) = Some bytes" "length bytes \<le> 255"
  shows "rx_input I meta ao (copy_at 0 bytes (replicate MAX_FRAME 0)) ((st_phy (ra_stack ao))\<lparr>lb_pending_rx := None\<rparr>)"
  using assms by (simp add: rx_input_def loopback_phy_def LoopbackPhy_read_rx_def Frame_new_def MAX_FRAME_def Let_def)

lemma take_copy_at: "take (length bytes) (copy_at 0 bytes buf) = bytes"
  by (simp add: copy_at_def)

theorem RfStackAO_ack_not_acted_on_witness:
  "\<exists>ao' fx. run_events (reliable_impl loopback_phy)
     [received_event (RxMetadata_default\<lparr>rm_pkt_len := 10\<rparr>), timeout_event, request_event (RfTxReqPayload_new [1] 1)]
     ((RfStackAO_new (RfStack_new (ReliableTransport_new 3) (Network_new 7) ()
        \<lparr>lb_rx_queue = [], lb_pending_rx = Some (Network_header (Network_new 9) @ [255, 0, 8, 0, 0])\<rparr>)
        demo_tx_cfg demo_rx_cfg)\<lparr>ra_state := AoWaitingAck\<rparr>) = Inr (ao', fx) \<and>
   ra_state ao' = AoWaitingAck \<and> no_app_post fx"
proof -
  let ?bytes = "Network_header (Network_new 9) @ [255, 0, 8, 0, 0]"
  let ?phy = "\<lparr>lb_rx_queue = [], lb_pending_rx = Some ?bytes\<rparr>"
  let ?ao = "(RfStackAO_new (RfStack_new (ReliableTransport_new 3) (Network_new 7) () ?phy)
     demo_tx_cfg demo_rx_cfg)\<lparr>ra_state := AoWaitingAck\<rparr>"
  let ?meta = "RxMetadata_default\<lparr>rm_pkt_len := 10\<rparr>"
  let ?buf = "copy_at 0 ?bytes (replicate MAX_FRAME 0)"
  have ao: "lb_pending_rx (st_phy (ra_stack ?ao)) = Some ?bytes" "rt_seq (st_transport (ra_stack ?ao)) - 1 = 255"
    "nw_accepts (Network_new 9) (st_network (ra_stack ?ao))" "ra_pending_tx ?ao = None" "ra_state ?ao = AoWaitingAck"
    by (simp_all add: RfStackAO_new_def RfStack_new_def ReliableTransport_new_def nw_accepts_def Network_new_def)
  have i: "rx_input (reliable_impl loopback_phy) ?meta ?ao ?buf ((st_phy (ra_stack ?ao))\<lparr>lb_pending_rx := None\<rparr>)"
    by (rule loopback_rx_input) (simp_all add: RfStackAO_new_def RfStack_new_def)
  have t: "take (unat (rm_pkt_len ?meta)) ?buf =
      Network_header (Network_new 9) @ [rt_seq (st_transport (ra_stack ?ao)) - 1, 0, 8, 0, 0] @ []"
    using take_copy_at [of ?bytes "replicate MAX_FRAME 0"] unfolding ao(2) by (simp add: RxMetadata_default_def)
  have a: "and (8 :: u8) IS_ACK \<noteq> 0" by (simp add: IS_ACK_def)
  have es: "list_all (\<lambda>e. stuck_signal (Event_signal e)) [timeout_event, request_event (RfTxReqPayload_new [1] 1)]"
    by (simp add: stuck_signal_def timeout_event_def request_event_def)
  show ?thesis using RfStackAO_ack_not_acted_on [OF i t ao(3) a ao(5,4) es] by blast
qed

lemma unreliable_build:
  assumes "length bytes < 224"
  shows "\<exists>f. RfStack_build_frame (unreliable_impl P) bytes st = Inr (Inr f,
      st\<lparr>st_transport := (st_transport st)\<lparr>ut_seq := ut_seq (st_transport st) + 1\<rparr>\<rparr>) \<and> frame_wf f \<and>
    content f = UnreliableTransport_header (length bytes) (st_transport st) @ bytes"
proof -
  have "length bytes < MAX_FRAME - FRAME_HEADROOM" using assms by (simp add: MAX_FRAME_def FRAME_HEADROOM_def)
  from Frame_write_payload_ok [OF frame_wf_new this] obtain f0 where
    f0: "Frame_write_payload bytes Frame_new = Inr f0" "frame_wf f0" "content f0 = bytes" "unat (fr_start f0) = 32"
    by (auto simp: FRAME_HEADROOM_def)
  obtain f1 where f1: "l_down unreliable_layer (st_transport st) f0 = Inr (Inr (),
      (st_transport st)\<lparr>ut_seq := ut_seq (st_transport st) + 1\<rparr>, f1)" "frame_wf f1"
    "content f1 = UnreliableTransport_header (length bytes) (st_transport st) @ bytes"
    using ut.down_result [OF f0(2), of "st_transport st"] f0(3,4) by auto
  show ?thesis
    using f1(2,3) by (simp add: RfStack_build_frame_def f0(1) f1(1) noop_layer_def Noop_down_def Let_def)
qed

lemma unreliable_receive:
  assumes "frame_wf g" "content g = UnreliableTransport_header n t @ bytes" "length bytes < 224"
  shows "\<exists>f g'. RfStack_receive_raw (unreliable_impl P) g st = Inr (Inr (Some f), g', st) \<and> Frame_payload f = Inr bytes"
proof -
  obtain g' where g: "l_up unreliable_layer (st_transport st) g = Inr (Inr True, st_transport st, g')"
    "frame_wf g'" "content g' = bytes"
    using ut.up_result [OF assms(1,2), of "st_transport st"] by auto
  obtain f where "Frame_write_payload bytes Frame_new = Inr f" "Frame_payload f = Inr bytes"
    using Frame_write_payload_cases [OF frame_wf_new, of bytes] assms(3) by (auto split: sum.splits)
  with g show ?thesis by (simp add: RfStack_receive_raw_def noop_layer_def Noop_up_def Let_def)
qed

text \<open>An object over the loopback radio, before and after it has transmitted.\<close>

lemma loopback_transmit:
  assumes "\<not> ao_busy ao" "lb_rx_queue (st_phy (ra_stack ao)) = []" "length (tq_data req) < 224" "\<not> tq_reliable req"
  shows "\<exists>ao1 fx bytes t. RfStackAO_on_event (unreliable_impl loopback_phy) (request_event req) ao = Inr (ao1, fx) \<and>
    ra_state ao1 = AoTransmitting \<and> ra_pending_tx ao1 = ra_pending_tx ao \<and> length bytes \<le> 255 \<and>
    bytes = UnreliableTransport_header (length (tq_data req)) t @ tq_data req \<and>
    lb_rx_queue (st_phy (ra_stack ao1)) = [(bytes, RxMetadata_default)]"
proof -
  let ?st = "(ra_stack ao)\<lparr>st_network := l_set_tx_meta noop_layer (tq_dst req) (tq_kind req) (st_network (ra_stack ao))\<rparr>"
  obtain f st' where b: "RfStack_build_frame (unreliable_impl loopback_phy) (tq_data req) ?st = Inr (Inr f, st')" "frame_wf f"
    "st_phy st' = st_phy (ra_stack ao)"
    "content f = UnreliableTransport_header (length (tq_data req)) (st_transport ?st) @ tq_data req"
    using unreliable_build [OF assms(3), of loopback_phy ?st] by auto
  have "\<exists>ao1 fx. RfStackAO_on_event (unreliable_impl loopback_phy) (request_event req) ao = Inr (ao1, fx) \<and>
    ra_state ao1 = AoTransmitting \<and> ra_pending_tx ao1 = ra_pending_tx ao \<and>
    lb_rx_queue (st_phy (ra_stack ao1)) = [(content f, RxMetadata_default)]"
    using b(1-3) assms(1,2,4)
    by (simp add: on_event_signals RfStackAO_handle_tx_req_def RfStackAO_start_tx.simps Let_def
        Frame_phy_bytes_def loopback_phy_def LoopbackPhy_transmit_def)
  with b(4) length_content_le [OF b(2)] show ?thesis by blast
qed

lemma loopback_pump:
  assumes "lb_rx_queue (st_phy (ra_stack ao)) = [(bytes, RxMetadata_default)]" "length bytes \<le> 255"
    "bytes = UnreliableTransport_header n t @ payload" "length payload < 224"
    "ra_pending_tx ao = None" "ra_state ao \<noteq> AoWaitingAck"
  shows "\<exists>ao'. RfStackAO_pump (unreliable_impl loopback_phy) ao = Inr (True, ao',
      [Trace RF_PHY_RX [1, 0] True,
       app_post RF_RX_FRAME_SIG (RxFrame \<lparr>rx_data = payload, rx_port = 1, rx_rssi = 0, rx_snr = 0, rx_src = 0, rx_kind = 0\<rparr>),
       Trace RF_NET_ROUTE [0] True])"
proof -
  let ?I = "unreliable_impl loopback_phy" and ?buf = "copy_at 0 bytes (replicate MAX_FRAME 0)"
  let ?meta = "RxMetadata_default\<lparr>rm_pkt_len := of_nat (length bytes)\<rparr>"
  let ?ao = "set_phy ((st_phy (ra_stack ao))\<lparr>lb_rx_queue := [], lb_pending_rx := Some bytes\<rparr>) ao"
  have pump: "RfStackAO_pump ?I ao = rbind (RfStackAO_on_event ?I (received_event ?meta) ?ao) (\<lambda>(ao, es). Inr (True, ao, es))"
    using assms(1) by (simp add: RfStackAO_pump_def loopback_phy_def LoopbackPhy_poll_irq_def received_event_def)
  have lb: "length ?buf = MAX_FRAME" using assms(2) by (simp add: MAX_FRAME_def)
  have n: "unat (rm_pkt_len ?meta) = length bytes" using assms(2) by simp
  have i: "rx_input ?I ?meta ?ao ?buf ((st_phy (ra_stack ?ao))\<lparr>lb_pending_rx := None\<rparr>)"
    by (rule loopback_rx_input) (use assms(2) in simp_all)
  have c: "content (rx_raw ?meta ?buf) = bytes" using rx_raw_content(2) [OF lb, of ?meta] unfolding n take_copy_at .
  let ?st = "(ra_stack ?ao)\<lparr>st_phy := (st_phy (ra_stack ?ao))\<lparr>lb_pending_rx := None\<rparr>\<rparr>"
  obtain f g where r: "RfStack_receive_raw ?I (rx_raw ?meta ?buf) ?st = Inr (Inr (Some f), g, ?st)" "Frame_payload f = Inr payload"
    using unreliable_receive [OF rx_raw_content(1) [OF lb] trans [OF c assms(3)] assms(4)] by blast
  have p: "ra_pending_tx ?ao = None" "length payload \<le> 242" "ra_state ?ao \<noteq> AoWaitingAck"
    "l_last_rx_meta (im_network ?I) (st_network ?st) = (0, 0)"
    using assms(4-6) by (simp_all add: noop_layer_def Layer_last_rx_meta_def)
  have meta: "rm_rssi_dbm ?meta = 0" "rm_snr_db_x10 ?meta = 0" "ucast (0 :: 16 word) = (0 :: u8)"
    by (simp_all add: RxMetadata_default_def)
  show ?thesis
    unfolding pump received_delivered [OF i r(1) p(1) r(2) p(2,4,3)] meta rbind_simps prod.case by blast
qed

text \<open>
  (loopback round trip) An idle object over the loopback radio that is told to listen and then asked
  to transmit up to 223 bytes delivers, when the radio is polled, exactly these bytes to the
  application: the request pre-empts listening, and encoding, radio and decoding lose nothing.
\<close>

theorem RfStackAO_loopback_echo:
  assumes "ra_state ao = AoIdle" "ra_pending_tx ao = None" "lb_rx_queue (st_phy (ra_stack ao)) = []"
    and "length (tq_data req) < 224" "\<not> tq_reliable req"
  shows "\<exists>ao1 fx ao2. run_events (unreliable_impl loopback_phy) [Event_new RF_RX_START_SIG NoPayload, request_event req] ao = Inr (ao1, fx) \<and>
    ra_state ao1 = AoTransmitting \<and>
    RfStackAO_pump (unreliable_impl loopback_phy) ao1 = Inr (True, ao2,
      [Trace RF_PHY_RX [1, 0] True,
       app_post RF_RX_FRAME_SIG (RxFrame \<lparr>rx_data = tq_data req, rx_port = 1, rx_rssi = 0, rx_snr = 0, rx_src = 0, rx_kind = 0\<rparr>),
       Trace RF_NET_ROUTE [0] True])"
proof -
  let ?I = "unreliable_impl loopback_phy"
  let ?ao0 = "(set_phy (st_phy (ra_stack ao)) ao)\<lparr>ra_state := AoListening\<rparr>"
  have 0: "RfStackAO_on_event ?I (Event_new RF_RX_START_SIG NoPayload) ao = Inr (?ao0, [Trace RF_RX_ARMED [1] True])"
    using assms(1) by (simp add: RfStackAO_on_event_def RfStackAO_handle_rx_start_def rf_sigs Let_def loopback_phy_def)
  have "\<not> ao_busy ?ao0" "lb_rx_queue (st_phy (ra_stack ?ao0)) = []" "ra_pending_tx ?ao0 = None"
    using assms(2,3) by (simp_all add: ao_busy_def)
  with loopback_transmit [OF this(1,2) assms(4,5)] obtain ao1 fx bytes t where
    1: "RfStackAO_on_event ?I (request_event req) ?ao0 = Inr (ao1, fx)" "ra_state ao1 = AoTransmitting" "ra_pending_tx ao1 = None"
    "length bytes \<le> 255" "bytes = UnreliableTransport_header (length (tq_data req)) t @ tq_data req"
    "lb_rx_queue (st_phy (ra_stack ao1)) = [(bytes, RxMetadata_default)]" by metis
  have "\<exists>fx. run_events ?I [Event_new RF_RX_START_SIG NoPayload, request_event req] ao = Inr (ao1, fx)"
    unfolding run_events.simps 0 1(1) rbind_simps prod.case prefix_effects_simps by blast
  with loopback_pump [OF 1(6,4,5) assms(4) 1(3)] 1(2) show ?thesis by auto
qed

theorem RfStackAO_loopback_echo_witness:
  "\<exists>ao1 fx ao2. run_events (unreliable_impl loopback_phy)
     [Event_new RF_RX_START_SIG NoPayload, request_event (RfTxReqPayload_new [0xA5, 0x5A, 0x10, 0x20] 1)]
     (RfStackAO_new (RfStack_new UnreliableTransport_new () () LoopbackPhy_new) demo_tx_cfg demo_rx_cfg) = Inr (ao1, fx) \<and>
   RfStackAO_pump (unreliable_impl loopback_phy) ao1 = Inr (True, ao2,
      [Trace RF_PHY_RX [1, 0] True,
       app_post RF_RX_FRAME_SIG (RxFrame \<lparr>rx_data = [0xA5, 0x5A, 0x10, 0x20], rx_port = 1, rx_rssi = 0, rx_snr = 0,
         rx_src = 0, rx_kind = 0\<rparr>),
       Trace RF_NET_ROUTE [0] True])"
proof -
  let ?ao = "RfStackAO_new (RfStack_new UnreliableTransport_new () () LoopbackPhy_new) demo_tx_cfg demo_rx_cfg"
  let ?req = "RfTxReqPayload_new [0xA5, 0x5A, 0x10, 0x20] 1"
  have "ra_state ?ao = AoIdle" "ra_pending_tx ?ao = None" "lb_rx_queue (st_phy (ra_stack ?ao)) = []"
    "length (tq_data ?req) < 224" "\<not> tq_reliable ?req" and d: "tq_data ?req = [0xA5, 0x5A, 0x10, 0x20]"
    by (simp_all add: RfStackAO_new_def RfStack_new_def LoopbackPhy_new_def RfTxReqPayload_new_def)
  from RfStackAO_loopback_echo [OF this(1-5)] show ?thesis unfolding d by blast
qed

end
