(* ===== verification/Radio1262.thy ===== *)
theory Radio1262
  imports RadioBus RfAoSpec
begin

text \<open>
  The driver of the SX1262 transceiver (\<open>hal/src/drivers/radio/sx1262.rs\<close>) over any bus and pins: commands
  with a wait for the chip's BUSY line, configuration, transmission, reception and interrupt status. The
  spinning loops that only pass time are left out.
\<close>

section \<open>Commands and encodings\<close>

definition CMD_SET_SLEEP :: u8 where "CMD_SET_SLEEP = 0x84"
definition CMD_SET_STANDBY :: u8 where "CMD_SET_STANDBY = 0x80"
definition CMD_SET_RX :: u8 where "CMD_SET_RX = 0x82"
definition CMD_SET_TX :: u8 where "CMD_SET_TX = 0x83"
definition CMD_SET_CAD :: u8 where "CMD_SET_CAD = 0xC5"
definition CMD_SET_RF_FREQUENCY :: u8 where "CMD_SET_RF_FREQUENCY = 0x86"
definition CMD_SET_TX_PARAMS :: u8 where "CMD_SET_TX_PARAMS = 0x8E"
definition CMD_SET_MODULATION :: u8 where "CMD_SET_MODULATION = 0x8B"
definition CMD_SET_PKT_PARAMS :: u8 where "CMD_SET_PKT_PARAMS = 0x8C"
definition CMD_SET_BUF_BASE_ADDR :: u8 where "CMD_SET_BUF_BASE_ADDR = 0x8F"
definition CMD_WRITE_BUFFER :: u8 where "CMD_WRITE_BUFFER = 0x0E"
definition CMD_READ_BUFFER :: u8 where "CMD_READ_BUFFER = 0x1E"
definition CMD_GET_STATUS :: u8 where "CMD_GET_STATUS = 0xC0"
definition CMD_CLEAR_IRQ_STATUS :: u8 where "CMD_CLEAR_IRQ_STATUS = 0x97"
definition CMD_GET_IRQ_STATUS :: u8 where "CMD_GET_IRQ_STATUS = 0x12"
definition CMD_GET_RSSI_INST :: u8 where "CMD_GET_RSSI_INST = 0x15"
definition CMD_GET_PACKET_STATUS :: u8 where "CMD_GET_PACKET_STATUS = 0x14"

lemmas sx1262_commands =
  CMD_SET_SLEEP_def CMD_SET_STANDBY_def CMD_SET_RX_def CMD_SET_TX_def CMD_SET_CAD_def CMD_SET_RF_FREQUENCY_def
  CMD_SET_TX_PARAMS_def CMD_SET_MODULATION_def CMD_SET_PKT_PARAMS_def CMD_SET_BUF_BASE_ADDR_def
  CMD_WRITE_BUFFER_def CMD_READ_BUFFER_def CMD_GET_STATUS_def CMD_CLEAR_IRQ_STATUS_def CMD_GET_IRQ_STATUS_def
  CMD_GET_RSSI_INST_def CMD_GET_PACKET_STATUS_def

fun sx1262_bw :: "Bandwidth \<Rightarrow> u8" where
  "sx1262_bw Bw125 = 0x04"
| "sx1262_bw Bw250 = 0x05"
| "sx1262_bw Bw500 = 0x06"

fun sx1262_cr :: "CodingRate \<Rightarrow> u8" where
  "sx1262_cr Cr45 = 0x01"
| "sx1262_cr Cr46 = 0x02"
| "sx1262_cr Cr47 = 0x03"
| "sx1262_cr Cr48 = 0x04"

definition sx1262_ldo :: "SpreadingFactor \<Rightarrow> u8" where
  "sx1262_ldo sf = (if SpreadingFactor_as_u8 sf \<ge> 11 then 0x01 else 0x00)"

section \<open>The driver\<close>

record 'w Sx1262 =
  sx_hal :: "'w HalPins"
  sx_busy :: "'w is_low option"

definition Sx1262_new :: "'w HalPins \<Rightarrow> 'w Sx1262" where
  "Sx1262_new hal = \<lparr>sx_hal = hal, sx_busy = None\<rparr>"

definition Sx1262_with_busy :: "'w HalPins \<Rightarrow> 'w is_low \<Rightarrow> 'w Sx1262" where
  "Sx1262_with_busy hal busy = \<lparr>sx_hal = hal, sx_busy = Some busy\<rparr>"

primrec poll_busy :: "'w is_low \<Rightarrow> nat \<Rightarrow> ('w, unit) hal_op" where
  "poll_busy busy 0 = hfail HalTimeout"
| "poll_busy busy (Suc n) = (\<lambda>w. case busy w of
     (Some True, w') \<Rightarrow> (Inr (), w')
   | (Some False, w') \<Rightarrow> poll_busy busy n w'
   | (None, w') \<Rightarrow> (Inl HardwareError, w'))"

definition Sx1262_wait_busy :: "'w Sx1262 \<Rightarrow> ('w, unit) hal_op" where
  "Sx1262_wait_busy S = (case sx_busy S of None \<Rightarrow> hreturn () | Some busy \<Rightarrow> poll_busy busy 200000)"

definition Sx1262_xfer :: "'w Sx1262 \<Rightarrow> u8 list \<Rightarrow> u8 list \<Rightarrow> ('w, u8 list) hal_op" where
  "Sx1262_xfer S rx tx = hw_transfer (sx_hal S) rx tx"

definition Sx1262_write_cmd :: "'w Sx1262 \<Rightarrow> u8 \<Rightarrow> u8 list \<Rightarrow> ('w, unit) hal_op" where
  "Sx1262_write_cmd S cmd params =
     hseq (Sx1262_wait_busy S)
       (let n = min (length params) 7;
            buf = copy_at 1 (take n params) ((replicate 8 0)[0 := cmd])
        in hw_op (spi_write (sx_hal S) (take (n + 1) buf)))"

definition Sx1262_write_buffer_cmd :: "'w Sx1262 \<Rightarrow> u8 \<Rightarrow> u8 list \<Rightarrow> ('w, unit) hal_op" where
  "Sx1262_write_buffer_cmd S offset data =
     hseq (Sx1262_wait_busy S)
       (let n = min (length data) 255;
            buf = copy_at 2 (take n data) ((replicate 257 0)[0 := CMD_WRITE_BUFFER, 1 := offset])
        in hw_op (spi_write (sx_hal S) (take (2 + n) buf)))"

definition Sx1262_hard_reset :: "'w Sx1262 \<Rightarrow> ('w, unit) hal_op" where
  "Sx1262_hard_reset S = hseq (hw_op (reset_set_low (sx_hal S))) (hw_op (reset_set_high (sx_hal S)))"

definition sx1262_rf_freq :: "u32 \<Rightarrow> u32" where
  "sx1262_rf_freq freq_hz = ucast ((ucast freq_hz * push_bit 25 1 :: u64) div 32000000)"

definition Sx1262_set_rf_frequency :: "'w Sx1262 \<Rightarrow> u32 \<Rightarrow> ('w, unit) hal_op" where
  "Sx1262_set_rf_frequency S freq_hz = Sx1262_write_cmd S CMD_SET_RF_FREQUENCY (be32 (sx1262_rf_freq freq_hz))"

definition Sx1262_init :: "'w Sx1262 \<Rightarrow> ('w, unit) hal_op" where
  "Sx1262_init S =
     hseq (Sx1262_hard_reset S)
    (hseq (Sx1262_wait_busy S)
    (hbind (Sx1262_xfer S [0, 0] [CMD_GET_STATUS, 0x00]) (\<lambda>rx.
       let chip_mode = and (drop_bit 4 (rx ! 1)) 0x07 in
       if chip_mode = 0 then hfail HardwareError
       else hseq (Sx1262_write_cmd S CMD_SET_STANDBY [0x00])
              (Sx1262_write_cmd S CMD_SET_BUF_BASE_ADDR [0x00, 0x80]))))"

text \<open>The time-out in ticks, \<open>ms * 64\<close> in a \<open>u32\<close>: \<open>None\<close> is the overflow panic of a checked build.\<close>

definition rx_ticks :: "u32 option \<Rightarrow> u32 option" where
  "rx_ticks timeout_ms = (case timeout_ms of
       None \<Rightarrow> Some 0xFFFFFF
     | Some ms \<Rightarrow> if unat ms * 64 < 2 ^ 32 then Some (ms * 64) else None)"

definition Sx1262_set_mode :: "'w Sx1262 \<Rightarrow> RadioMode \<Rightarrow> 'w \<Rightarrow> ((HalError + unit) \<times> 'w) result" where
  "Sx1262_set_mode S mode w = (case mode of
       Sleep \<Rightarrow> Inr (Sx1262_write_cmd S CMD_SET_SLEEP [0x04] w)
     | Standby \<Rightarrow> Inr (Sx1262_write_cmd S CMD_SET_STANDBY [0x00] w)
     | RxMode timeout_ms \<Rightarrow> (case rx_ticks timeout_ms of
           None \<Rightarrow> Inl Panic
         | Some ticks \<Rightarrow>
             Inr (Sx1262_write_cmd S CMD_SET_RX [ucast (drop_bit 16 ticks), ucast (drop_bit 8 ticks), ucast ticks] w))
     | TxMode \<Rightarrow> Inr (Sx1262_write_cmd S CMD_SET_TX [0x00, 0x00, 0x00] w)
     | Cad \<Rightarrow> Inr (Sx1262_write_cmd S CMD_SET_CAD [] w))"

text \<open>The mode and packet parameters both configurations write, with the payload length they differ in.\<close>

definition Sx1262_modulation :: "'w Sx1262 \<Rightarrow> RadioParams \<Rightarrow> u8 \<Rightarrow> ('w, unit) hal_op" where
  "Sx1262_modulation S params payload_len = (case params of
       LoRaParams lora \<Rightarrow>
         hseq (Sx1262_write_cmd S CMD_SET_MODULATION
                [SpreadingFactor_as_u8 (mod_sf lora), sx1262_bw (mod_bw lora), sx1262_cr (mod_cr lora),
                 sx1262_ldo (mod_sf lora)])
           (Sx1262_write_cmd S CMD_SET_PKT_PARAMS
             [ucast (drop_bit 8 (mod_preamble lora)), ucast (mod_preamble lora), 0x00, payload_len, 0x01, 0x00])
     | FskParams _ \<Rightarrow> hfail NotSupported)"

definition Sx1262_configure_tx :: "'w Sx1262 \<Rightarrow> RfTxConfig \<Rightarrow> ('w, unit) hal_op" where
  "Sx1262_configure_tx S cfg =
     hseq (Sx1262_write_cmd S CMD_SET_STANDBY [0x00])
    (hseq (Sx1262_set_rf_frequency S (tx_frequency_hz cfg))
    (hseq (let pwr = word_of_int (min (max (sint (tx_power_dbm cfg)) (- 9)) 22)
           in Sx1262_write_cmd S CMD_SET_TX_PARAMS [pwr, 0x04])
     (Sx1262_modulation S (tx_params cfg) 0x00)))"

definition Sx1262_configure_rx :: "'w Sx1262 \<Rightarrow> RfRxConfig \<Rightarrow> ('w, unit) hal_op" where
  "Sx1262_configure_rx S cfg =
     hseq (Sx1262_write_cmd S CMD_SET_STANDBY [0x00])
    (hseq (Sx1262_set_rf_frequency S (rx_frequency_hz cfg))
     (Sx1262_modulation S (rx_params cfg) 255))"

definition Sx1262_transmit :: "'w Sx1262 \<Rightarrow> u8 list \<Rightarrow> ('w, unit) hal_op" where
  "Sx1262_transmit S payload =
     (let len = of_nat (min (length payload) 255) in
      hseq (Sx1262_write_cmd S CMD_SET_PKT_PARAMS [0x00, 0x08, 0x00, len, 0x01, 0x00])
     (hseq (Sx1262_write_buffer_cmd S 0x00 payload)
      (Sx1262_write_cmd S CMD_SET_TX [0x00, 0x00, 0x00])))"

definition Sx1262_read_rx :: "'w Sx1262 \<Rightarrow> u8 list \<Rightarrow> RxMetadata \<Rightarrow> 'w \<Rightarrow> (HalError + unit) \<times> u8 list \<times> 'w" where
  "Sx1262_read_rx S buf meta w =
     (let len = min (unat (rm_pkt_len meta)) (length buf);
          tx_buf = copy_at 0 [CMD_READ_BUFFER, 0x80, 0x00] (replicate 258 0);
          rx_buf = replicate 258 0
      in case hseq (Sx1262_wait_busy S) (Sx1262_xfer S (take (3 + len) rx_buf) (take (3 + len) tx_buf)) w of
           (Inl e, w') \<Rightarrow> (Inl e, buf, w')
         | (Inr rx, w') \<Rightarrow> (Inr (), copy_at 0 (take len (drop 3 rx)) buf, w'))"

definition Sx1262_poll_irq :: "'w Sx1262 \<Rightarrow> ('w, PhyEvent option) hal_op" where
  "Sx1262_poll_irq S =
     hseq (Sx1262_wait_busy S)
    (hbind (Sx1262_xfer S [0, 0, 0, 0] [CMD_GET_IRQ_STATUS, 0x00, 0x00, 0x00]) (\<lambda>rx.
       let status = or (push_bit 8 (ucast (rx ! 2))) (ucast (rx ! 3)) :: u16 in
       if status = 0 then hreturn None
       else if and status 0x0004 \<noteq> 0 then hreturn (Some CrcError)
       else if and status 0x0040 \<noteq> 0 then hreturn (Some RxTimeout)
       else if and status 0x0002 \<noteq> 0 then
         hbind (Sx1262_xfer S [0, 0, 0, 0] [CMD_GET_PACKET_STATUS, 0x00, 0x00, 0x00]) (\<lambda>status_rx.
           let rssi = i16_div (- ucast (status_rx ! 2)) 2;
               snr = i8_to_i16 (status_rx ! 3)
           in hbind (Sx1262_xfer S [0, 0, 0, 0] [0x13, 0x00, 0x00, 0x00]) (\<lambda>len_rx.
                let pkt_len = len_rx ! 2
                in hreturn (Some (RxDone \<lparr>rm_rssi_dbm = rssi, rm_snr_db_x10 = snr * 10, rm_timestamp = 0,
                     rm_pkt_len = pkt_len\<rparr>))))
       else if and status 0x0001 \<noteq> 0 then hreturn (Some TxDone)
       else if and status 0x0008 \<noteq> 0 then hreturn (Some (CadDone True))
       else if and status 0x0200 \<noteq> 0 then hreturn (Some PreambleDetected)
       else hreturn None))"

definition Sx1262_clear_irq :: "'w Sx1262 \<Rightarrow> ('w, unit) hal_op" where
  "Sx1262_clear_irq S = Sx1262_write_cmd S CMD_CLEAR_IRQ_STATUS [0x03, 0xFF]"

definition Sx1262_rssi :: "'w Sx1262 \<Rightarrow> ('w, 16 word) hal_op" where
  "Sx1262_rssi S =
     hseq (Sx1262_wait_busy S)
    (hbind (Sx1262_xfer S [0, 0, 0] [CMD_GET_RSSI_INST, 0x00, 0x00]) (\<lambda>rx.
       hreturn (i16_div (- ucast (rx ! 2)) 2)))"

definition sx1262_phy :: "'w Sx1262 \<Rightarrow> 'w RfPhy" where
  "sx1262_phy S = \<lparr>phy_init = Sx1262_init S, phy_set_mode = Sx1262_set_mode S,
     phy_configure_tx = Sx1262_configure_tx S, phy_configure_rx = Sx1262_configure_rx S,
     phy_transmit = Sx1262_transmit S, phy_read_rx = Sx1262_read_rx S, phy_poll_irq = Sx1262_poll_irq S,
     phy_clear_irq = Sx1262_clear_irq S, phy_rssi = Sx1262_rssi S, phy_chip_name = ''SX1262''\<rparr>"

definition sx1262_driver :: "'w Sx1262 \<Rightarrow> 'w RfDriver" where
  "sx1262_driver S = RfDriver_of_phy (sx1262_phy S)"

section \<open>Commands as bus writes\<close>

text \<open>One command as the driver issues it: the wait for the chip and the bytes on the bus.\<close>

definition sx1262_send :: "'w Sx1262 \<Rightarrow> u8 list \<Rightarrow> ('w, unit) hal_op" where
  "sx1262_send S bytes = hseq (Sx1262_wait_busy S) (hw_op (spi_write (sx_hal S) bytes))"

lemma write_cmd_send: "length params \<le> 7 \<Longrightarrow> Sx1262_write_cmd S cmd params = sx1262_send S (cmd # params)"
  by (simp add: Sx1262_write_cmd_def sx1262_send_def copy_at_def Let_def min_def numeral_eq_Suc)

lemma write_buffer_send:
  "Sx1262_write_buffer_cmd S off data = sx1262_send S ([CMD_WRITE_BUFFER, off] @ take 255 data)"
proof -
  have "replicate 257 (0 :: u8) = 0 # 0 # replicate 255 0" by (simp add: numeral_eq_Suc)
  then show ?thesis
    by (simp add: Sx1262_write_buffer_cmd_def sx1262_send_def copy_at_def Let_def min_def numeral_eq_Suc)
qed

text \<open>What the configurations and a transmission put on the bus.\<close>

definition sx1262_config_script :: "u32 \<Rightarrow> u8 list list \<Rightarrow> LoRaModulation \<Rightarrow> u8 \<Rightarrow> u8 list list" where
  "sx1262_config_script freq pwr lora len =
     [[0x80, 0x00], 0x86 # be32 (sx1262_rf_freq freq)] @ pwr @
     [[0x8B, SpreadingFactor_as_u8 (mod_sf lora), sx1262_bw (mod_bw lora), sx1262_cr (mod_cr lora), sx1262_ldo (mod_sf lora)],
      [0x8C, ucast (drop_bit 8 (mod_preamble lora)), ucast (mod_preamble lora), 0x00, len, 0x01, 0x00]]"

definition sx1262_power_script :: "u8 \<Rightarrow> u8 list list" where
  "sx1262_power_script p = [[0x8E, word_of_int (min (max (sint p) (- 9)) 22), 0x04]]"

definition sx1262_transmit_script :: "u8 list \<Rightarrow> u8 list list" where
  "sx1262_transmit_script bytes =
     [[0x8C, 0x00, 0x08, 0x00, of_nat (min (length bytes) 255), 0x01, 0x00], [0x0E, 0x00] @ take 255 bytes,
      [0x83, 0x00, 0x00, 0x00]]"

lemma configure_tx_script:
  "tx_params cfg = LoRaParams lora \<Longrightarrow> Sx1262_configure_tx S cfg =
     run_script (sx1262_send S)
       (sx1262_config_script (tx_frequency_hz cfg) (sx1262_power_script (tx_power_dbm cfg)) lora 0)"
  by (simp add: Sx1262_configure_tx_def Sx1262_set_rf_frequency_def Sx1262_modulation_def write_cmd_send Let_def
      sx1262_config_script_def sx1262_power_script_def sx1262_commands)

lemma configure_rx_script:
  "rx_params cfg = LoRaParams lora \<Longrightarrow> Sx1262_configure_rx S cfg =
     run_script (sx1262_send S) (sx1262_config_script (rx_frequency_hz cfg) [] lora 255)"
  by (simp add: Sx1262_configure_rx_def Sx1262_set_rf_frequency_def Sx1262_modulation_def write_cmd_send
      sx1262_config_script_def sx1262_commands)

lemma transmit_script: "Sx1262_transmit S payload = run_script (sx1262_send S) (sx1262_transmit_script payload)"
  by (simp add: Sx1262_transmit_def write_cmd_send write_buffer_send sx1262_transmit_script_def sx1262_commands Let_def)

text \<open>FSK is refused after the carrier has been set, and \<open>transmit\<close> ends with the change to TX mode.\<close>

lemma configure_fsk:
  "tx_params cfg = FskParams fsk \<Longrightarrow> Sx1262_configure_tx S cfg =
     hseq (run_script (sx1262_send S) ([[0x80, 0x00], 0x86 # be32 (sx1262_rf_freq (tx_frequency_hz cfg))] @
       sx1262_power_script (tx_power_dbm cfg))) (hfail NotSupported)"
  by (simp add: Sx1262_configure_tx_def Sx1262_set_rf_frequency_def Sx1262_modulation_def write_cmd_send Let_def
      sx1262_power_script_def sx1262_commands hseq_assoc)

lemma set_mode_tx: "Sx1262_set_mode S TxMode w = Inr (Sx1262_write_cmd S CMD_SET_TX [0x00, 0x00, 0x00] w)"
  by (simp add: Sx1262_set_mode_def)

section \<open>The driver as a radio\<close>

lemma set_mode_panics:
  "Sx1262_set_mode S m w = Inl Panic \<longleftrightarrow> (\<exists>ms. m = RxMode (Some ms) \<and> 2 ^ 26 \<le> unat ms)"
  by (auto simp: Sx1262_set_mode_def rx_ticks_def split: RadioMode.splits option.splits)

lemma read_rx_length:
  assumes "Sx1262_read_rx S buf meta w = (r, buf', w')"
  shows "length buf' = length buf"
proof -
  have "length (copy_at 0 (take (min (unat (rm_pkt_len meta)) (length buf)) xs) buf) = length buf" for xs :: "u8 list"
    by (rule length_copy_at) simp
  then show ?thesis using assms by (auto simp: Sx1262_read_rx_def Let_def split: prod.splits sum.splits)
qed

interpretation sx62: radio "sx1262_phy S" for S :: "'w Sx1262"
proof
  fix m :: RadioMode and h :: 'w
  assume "m \<in> set [Standby, RxMode None, RxMode (Some 1000)]"
  then show "\<exists>r h'. phy_set_mode (sx1262_phy S) m h = Inr (r, h')"
    by (cases "Sx1262_set_mode S m h")
      (auto simp: sx1262_phy_def Sx1262_set_mode_def rx_ticks_def split: option.splits if_splits)
qed (auto simp: sx1262_phy_def dest: read_rx_length)

text \<open>
  A successful read: the chip's answer, after the three bytes of the command, fills the first bytes of the
  buffer; the others stay.
\<close>

definition sx1262_read_bytes :: "nat \<Rightarrow> u8 list" where
  "sx1262_read_bytes n = [0x1E, 0x80, 0x00] @ replicate n 0"

lemma read_rx_fills:
  assumes w: "Sx1262_wait_busy S w = (Inr (), w1)" and len: "unat (rm_pkt_len meta) \<le> length buf"
    and t: "spi_transfer (sx_hal S) (replicate (3 + unat (rm_pkt_len meta)) 0) (sx1262_read_bytes (unat (rm_pkt_len meta))) w1 =
      (True, f, w2)"
  shows "Sx1262_read_rx S buf meta w =
    (Inr (), copy_at 0 (map (\<lambda>i. f (3 + i)) [0..<unat (rm_pkt_len meta)]) buf, w2)"
proof -
  let ?n = "unat (rm_pkt_len meta)"
  have n: "?n < 256" using unsigned_less [of "rm_pkt_len meta"] by simp
  then have r: "take (3 + ?n) (replicate 258 (0 :: u8)) = replicate (3 + ?n) 0" by simp
  have "copy_at 0 [CMD_READ_BUFFER, 0x80, 0x00] (replicate 258 0) = [0x1E, 0x80, 0x00] @ replicate 255 (0 :: u8)"
    by (simp add: copy_at_def CMD_READ_BUFFER_def numeral_eq_Suc)
  with n have q: "take (3 + ?n) (copy_at 0 [CMD_READ_BUFFER, 0x80, 0x00] (replicate 258 0)) = sx1262_read_bytes ?n"
    by (simp add: sx1262_read_bytes_def numeral_3_eq_3)
  have m: "take ?n (drop 3 (map f [0..<3 + ?n])) = map (\<lambda>i. f (3 + i)) [0..<?n]"
    by (rule nth_equalityI) auto
  have "hseq (Sx1262_wait_busy S) (Sx1262_xfer S (replicate (3 + ?n) 0) (sx1262_read_bytes ?n)) w =
      (Inr (map f [0..<3 + ?n]), w2)"
    using t by (simp add: hseq_def hbind_def w Sx1262_xfer_def hw_transfer_def del: upt_Suc)
  with len show ?thesis unfolding Sx1262_read_rx_def Let_def min_absorb1 [OF len] r q by (simp add: m)
qed

end
