(* ===== verification/Radio1276.thy ===== *)
theory Radio1276
  imports RadioBus RfAoSpec
begin

text \<open>
  The driver of the SX1276 transceiver (\<open>hal/src/drivers/radio/sx1276.rs\<close>) over any bus and reset pin: a
  register is written by its address with the top bit set and the value, and read by a transfer of two bytes.
\<close>

section \<open>Registers and encodings\<close>

definition REG_FIFO :: u8 where "REG_FIFO = 0x00"
definition REG_OP_MODE :: u8 where "REG_OP_MODE = 0x01"
definition REG_FR_MSB :: u8 where "REG_FR_MSB = 0x06"
definition REG_FR_MID :: u8 where "REG_FR_MID = 0x07"
definition REG_FR_LSB :: u8 where "REG_FR_LSB = 0x08"
definition REG_PA_CONFIG :: u8 where "REG_PA_CONFIG = 0x09"
definition REG_FIFO_ADDR_PTR :: u8 where "REG_FIFO_ADDR_PTR = 0x0D"
definition REG_FIFO_TX_BASE :: u8 where "REG_FIFO_TX_BASE = 0x0E"
definition REG_FIFO_RX_BASE :: u8 where "REG_FIFO_RX_BASE = 0x0F"
definition REG_FIFO_RX_CURRENT_ADDR :: u8 where "REG_FIFO_RX_CURRENT_ADDR = 0x10"
definition REG_IRQ_FLAGS :: u8 where "REG_IRQ_FLAGS = 0x12"
definition REG_RX_NB_BYTES :: u8 where "REG_RX_NB_BYTES = 0x13"
definition REG_PKT_SNR_VALUE :: u8 where "REG_PKT_SNR_VALUE = 0x19"
definition REG_PKT_RSSI_VALUE :: u8 where "REG_PKT_RSSI_VALUE = 0x1A"
definition REG_RSSI_VALUE :: u8 where "REG_RSSI_VALUE = 0x1B"
definition REG_MODEM_CFG1 :: u8 where "REG_MODEM_CFG1 = 0x1D"
definition REG_MODEM_CFG2 :: u8 where "REG_MODEM_CFG2 = 0x1E"
definition REG_PREAMBLE_MSB :: u8 where "REG_PREAMBLE_MSB = 0x20"
definition REG_PREAMBLE_LSB :: u8 where "REG_PREAMBLE_LSB = 0x21"
definition REG_PAYLOAD_LENGTH :: u8 where "REG_PAYLOAD_LENGTH = 0x22"
definition REG_MODEM_CFG3 :: u8 where "REG_MODEM_CFG3 = 0x26"
definition REG_DIO_MAPPING1 :: u8 where "REG_DIO_MAPPING1 = 0x40"
definition REG_VERSION :: u8 where "REG_VERSION = 0x42"

definition LORA_MODE :: u8 where "LORA_MODE = 0x80"
definition MODE_SLEEP :: u8 where "MODE_SLEEP = 0x00"
definition MODE_STDBY :: u8 where "MODE_STDBY = 0x01"
definition MODE_TX :: u8 where "MODE_TX = 0x03"
definition MODE_RX_CONTINUOUS :: u8 where "MODE_RX_CONTINUOUS = 0x05"
definition MODE_CAD :: u8 where "MODE_CAD = 0x07"
definition PA_BOOST :: u8 where "PA_BOOST = 0x80"
definition EXPECTED_VERSION :: u8 where "EXPECTED_VERSION = 0x12"

lemmas sx1276_registers =
  REG_FIFO_def REG_OP_MODE_def REG_FR_MSB_def REG_FR_MID_def REG_FR_LSB_def REG_PA_CONFIG_def REG_FIFO_ADDR_PTR_def
  REG_FIFO_TX_BASE_def REG_FIFO_RX_BASE_def REG_FIFO_RX_CURRENT_ADDR_def REG_IRQ_FLAGS_def REG_RX_NB_BYTES_def
  REG_PKT_SNR_VALUE_def REG_PKT_RSSI_VALUE_def REG_RSSI_VALUE_def REG_MODEM_CFG1_def REG_MODEM_CFG2_def
  REG_PREAMBLE_MSB_def REG_PREAMBLE_LSB_def REG_PAYLOAD_LENGTH_def REG_MODEM_CFG3_def REG_DIO_MAPPING1_def
  REG_VERSION_def LORA_MODE_def MODE_SLEEP_def MODE_STDBY_def MODE_TX_def MODE_RX_CONTINUOUS_def MODE_CAD_def
  PA_BOOST_def EXPECTED_VERSION_def

fun sx1276_bw_bits :: "Bandwidth \<Rightarrow> u8" where
  "sx1276_bw_bits Bw125 = 0x70"
| "sx1276_bw_bits Bw250 = 0x80"
| "sx1276_bw_bits Bw500 = 0x90"

fun sx1276_cr_bits :: "CodingRate \<Rightarrow> u8" where
  "sx1276_cr_bits Cr45 = 0x02"
| "sx1276_cr_bits Cr46 = 0x04"
| "sx1276_cr_bits Cr47 = 0x06"
| "sx1276_cr_bits Cr48 = 0x08"

section \<open>The driver\<close>

definition Sx1276_write_reg :: "'w HalPins \<Rightarrow> u8 \<Rightarrow> u8 \<Rightarrow> ('w, unit) hal_op" where
  "Sx1276_write_reg S addr value = hw_op (spi_write S [or addr 0x80, value])"

definition Sx1276_read_reg :: "'w HalPins \<Rightarrow> u8 \<Rightarrow> ('w, u8) hal_op" where
  "Sx1276_read_reg S addr =
     hbind (hw_transfer S [0, 0] [and addr 0x7F, 0x00]) (\<lambda>buf. hreturn (buf ! 1))"

definition Sx1276_write_fifo :: "'w HalPins \<Rightarrow> u8 list \<Rightarrow> ('w, unit) hal_op" where
  "Sx1276_write_fifo S data =
     (let n = min (length data) 255;
          buf = copy_at 1 (take n data) ((replicate 256 0)[0 := or REG_FIFO 0x80])
      in hw_op (spi_write S (take (n + 1) buf)))"

definition sx1276_frf :: "u32 \<Rightarrow> u64" where
  "sx1276_frf freq_hz = push_bit 19 (ucast freq_hz) div 32000000"

definition Sx1276_set_frequency :: "'w HalPins \<Rightarrow> u32 \<Rightarrow> ('w, unit) hal_op" where
  "Sx1276_set_frequency S freq_hz =
     (let frf = sx1276_frf freq_hz in
      hseq (Sx1276_write_reg S REG_FR_MSB (ucast (drop_bit 16 frf)))
     (hseq (Sx1276_write_reg S REG_FR_MID (ucast (drop_bit 8 frf)))
      (Sx1276_write_reg S REG_FR_LSB (ucast frf))))"

definition Sx1276_hard_reset :: "'w HalPins \<Rightarrow> ('w, unit) hal_op" where
  "Sx1276_hard_reset S = hseq (hw_op (reset_set_low S)) (hw_op (reset_set_high S))"

definition Sx1276_init :: "'w HalPins \<Rightarrow> ('w, unit) hal_op" where
  "Sx1276_init S =
     hseq (Sx1276_hard_reset S)
    (hbind (Sx1276_read_reg S REG_VERSION) (\<lambda>ver.
       if ver \<noteq> EXPECTED_VERSION then hfail HardwareError
       else hseq (Sx1276_write_reg S REG_OP_MODE MODE_SLEEP)
           (hseq (Sx1276_write_reg S REG_OP_MODE (or LORA_MODE MODE_SLEEP))
           (hseq (Sx1276_write_reg S REG_FIFO_TX_BASE 0x00)
           (hseq (Sx1276_write_reg S REG_FIFO_RX_BASE 0x00)
            (Sx1276_write_reg S REG_DIO_MAPPING1 0x40))))))"

definition Sx1276_set_mode :: "'w HalPins \<Rightarrow> RadioMode \<Rightarrow> ('w, unit) hal_op" where
  "Sx1276_set_mode S mode = (case mode of
       Sleep \<Rightarrow> Sx1276_write_reg S REG_OP_MODE (or LORA_MODE MODE_SLEEP)
     | Standby \<Rightarrow> Sx1276_write_reg S REG_OP_MODE (or LORA_MODE MODE_STDBY)
     | RxMode _ \<Rightarrow> Sx1276_write_reg S REG_OP_MODE (or LORA_MODE MODE_RX_CONTINUOUS)
     | TxMode \<Rightarrow> Sx1276_write_reg S REG_OP_MODE (or LORA_MODE MODE_TX)
     | Cad \<Rightarrow> Sx1276_write_reg S REG_OP_MODE (or LORA_MODE MODE_CAD))"

text \<open>The modem registers, which both configurations write alike.\<close>

definition Sx1276_modem :: "'w HalPins \<Rightarrow> RadioParams \<Rightarrow> ('w, unit) hal_op" where
  "Sx1276_modem S params = (case params of
       LoRaParams lora \<Rightarrow>
         hseq (Sx1276_write_reg S REG_MODEM_CFG1 (or (sx1276_bw_bits (mod_bw lora)) (sx1276_cr_bits (mod_cr lora))))
        (hseq (let sf_bits = push_bit 4 (SpreadingFactor_as_u8 (mod_sf lora))
               in Sx1276_write_reg S REG_MODEM_CFG2 (or sf_bits 0x04))
        (hseq (let ldo = (if SpreadingFactor_as_u8 (mod_sf lora) \<ge> 11 then 0x08 else 0x00)
               in Sx1276_write_reg S REG_MODEM_CFG3 (or 0x04 ldo))
        (hseq (Sx1276_write_reg S REG_PREAMBLE_MSB (ucast (drop_bit 8 (mod_preamble lora))))
         (Sx1276_write_reg S REG_PREAMBLE_LSB (ucast (mod_preamble lora))))))
     | FskParams _ \<Rightarrow> hfail NotSupported)"

definition Sx1276_configure_tx :: "'w HalPins \<Rightarrow> RfTxConfig \<Rightarrow> ('w, unit) hal_op" where
  "Sx1276_configure_tx S cfg =
     hseq (Sx1276_set_mode S Standby)
    (hseq (Sx1276_set_frequency S (tx_frequency_hz cfg))
    (hseq (Sx1276_modem S (tx_params cfg))
     (let pwr = word_of_int (min (max (sint (tx_power_dbm cfg)) 2) 17) - 2
      in Sx1276_write_reg S REG_PA_CONFIG (or PA_BOOST pwr))))"

definition Sx1276_configure_rx :: "'w HalPins \<Rightarrow> RfRxConfig \<Rightarrow> ('w, unit) hal_op" where
  "Sx1276_configure_rx S cfg =
     hseq (Sx1276_set_mode S Standby)
    (hseq (Sx1276_set_frequency S (rx_frequency_hz cfg))
     (Sx1276_modem S (rx_params cfg)))"

definition Sx1276_transmit :: "'w HalPins \<Rightarrow> u8 list \<Rightarrow> ('w, unit) hal_op" where
  "Sx1276_transmit S payload =
     hseq (Sx1276_write_reg S REG_FIFO_ADDR_PTR 0x00)
    (hseq (Sx1276_write_fifo S payload)
    (hseq (Sx1276_write_reg S REG_PAYLOAD_LENGTH (of_nat (min (length payload) 255)))
     (Sx1276_set_mode S TxMode)))"

text \<open>The loop over the received bytes, from index \<open>i\<close>; an error leaves the bytes read so far in the buffer.\<close>

primrec Sx1276_read_fifo :: "'w HalPins \<Rightarrow> nat \<Rightarrow> nat \<Rightarrow> u8 list \<Rightarrow> 'w \<Rightarrow> (HalError + unit) \<times> u8 list \<times> 'w" where
  "Sx1276_read_fifo S 0 i buf w = (Inr (), buf, w)"
| "Sx1276_read_fifo S (Suc n) i buf w =
     (case Sx1276_read_reg S REG_FIFO w of
        (Inl e, w') \<Rightarrow> (Inl e, buf, w')
      | (Inr b, w') \<Rightarrow> Sx1276_read_fifo S n (i + 1) (buf[i := b]) w')"

definition Sx1276_read_rx :: "'w HalPins \<Rightarrow> u8 list \<Rightarrow> RxMetadata \<Rightarrow> 'w \<Rightarrow> (HalError + unit) \<times> u8 list \<times> 'w" where
  "Sx1276_read_rx S buf meta w =
     (case hbind (Sx1276_read_reg S REG_FIFO_RX_CURRENT_ADDR) (Sx1276_write_reg S REG_FIFO_ADDR_PTR) w of
        (Inl e, w') \<Rightarrow> (Inl e, buf, w')
      | (Inr _, w') \<Rightarrow> Sx1276_read_fifo S (min (unat (rm_pkt_len meta)) (length buf)) 0 buf w')"

definition Sx1276_poll_irq :: "'w HalPins \<Rightarrow> ('w, PhyEvent option) hal_op" where
  "Sx1276_poll_irq S =
     hbind (Sx1276_read_reg S REG_IRQ_FLAGS) (\<lambda>irq_flags.
       if irq_flags = 0 then hreturn None
       else hseq (Sx1276_write_reg S REG_IRQ_FLAGS irq_flags)
        (if and irq_flags 0x20 \<noteq> 0 then hreturn (Some CrcError)
         else if and irq_flags 0x80 \<noteq> 0 then hreturn (Some RxTimeout)
         else if and irq_flags 0x40 \<noteq> 0 then
           hbind (Sx1276_read_reg S REG_RX_NB_BYTES) (\<lambda>pkt_len.
           hbind (Sx1276_read_reg S REG_PKT_SNR_VALUE) (\<lambda>snr_reg.
           let snr = i16_div (i8_to_i16 snr_reg * 10) 4 in
           hbind (Sx1276_read_reg S REG_PKT_RSSI_VALUE) (\<lambda>rssi_val.
           let rssi_reg = ucast rssi_val;
               rssi = (if sint snr < 0 then - 157 + rssi_reg + i16_div snr 10 else - 157 + rssi_reg)
           in hreturn (Some (RxDone \<lparr>rm_rssi_dbm = rssi, rm_snr_db_x10 = snr, rm_timestamp = 0,
                rm_pkt_len = pkt_len\<rparr>)))))
         else if and irq_flags 0x08 \<noteq> 0 then hreturn (Some TxDone)
         else if and irq_flags 0x04 \<noteq> 0 then hreturn (Some (CadDone True))
         else hreturn None))"

definition Sx1276_clear_irq :: "'w HalPins \<Rightarrow> ('w, unit) hal_op" where
  "Sx1276_clear_irq S = Sx1276_write_reg S REG_IRQ_FLAGS 0xFF"

definition Sx1276_rssi :: "'w HalPins \<Rightarrow> ('w, 16 word) hal_op" where
  "Sx1276_rssi S = hbind (Sx1276_read_reg S REG_RSSI_VALUE) (\<lambda>rssi_reg. hreturn (- 157 + ucast rssi_reg))"

definition sx1276_phy :: "'w HalPins \<Rightarrow> 'w RfPhy" where
  "sx1276_phy S = \<lparr>phy_init = Sx1276_init S, phy_set_mode = (\<lambda>m w. Inr (Sx1276_set_mode S m w)),
     phy_configure_tx = Sx1276_configure_tx S, phy_configure_rx = Sx1276_configure_rx S,
     phy_transmit = Sx1276_transmit S, phy_read_rx = Sx1276_read_rx S, phy_poll_irq = Sx1276_poll_irq S,
     phy_clear_irq = Sx1276_clear_irq S, phy_rssi = Sx1276_rssi S, phy_chip_name = ''SX1276''\<rparr>"

definition sx1276_driver :: "'w HalPins \<Rightarrow> 'w RfDriver" where
  "sx1276_driver S = RfDriver_of_phy (sx1276_phy S)"

section \<open>Register writes as bus writes\<close>

definition sx1276_send :: "'w HalPins \<Rightarrow> u8 list \<Rightarrow> ('w, unit) hal_op" where
  "sx1276_send S bytes = hw_op (spi_write S bytes)"

lemma write_reg_send: "Sx1276_write_reg S addr v = sx1276_send S [or addr 0x80, v]"
  by (simp add: Sx1276_write_reg_def sx1276_send_def)

lemma write_fifo_send: "Sx1276_write_fifo S data = sx1276_send S (0x80 # take 255 data)"
proof -
  have "replicate 256 (0 :: u8) = 0 # replicate 255 0" by (simp add: numeral_eq_Suc)
  then show ?thesis
    by (simp add: Sx1276_write_fifo_def sx1276_send_def copy_at_def Let_def REG_FIFO_def min_def)
qed

definition sx1276_config_script :: "u32 \<Rightarrow> LoRaModulation \<Rightarrow> u8 list list" where
  "sx1276_config_script freq lora =
     [[0x81, 0x81], [0x86, ucast (drop_bit 16 (sx1276_frf freq))], [0x87, ucast (drop_bit 8 (sx1276_frf freq))],
      [0x88, ucast (sx1276_frf freq)],
      [0x9D, or (sx1276_bw_bits (mod_bw lora)) (sx1276_cr_bits (mod_cr lora))],
      [0x9E, or (push_bit 4 (SpreadingFactor_as_u8 (mod_sf lora))) 0x04],
      [0xA6, if SpreadingFactor_as_u8 (mod_sf lora) \<ge> 11 then 0x0C else 0x04],
      [0xA0, ucast (drop_bit 8 (mod_preamble lora))], [0xA1, ucast (mod_preamble lora)]]"

definition sx1276_power_script :: "u8 \<Rightarrow> u8 list list" where
  "sx1276_power_script p = [[0x89, or 0x80 (word_of_int (min (max (sint p) 2) 17) - 2)]]"

definition sx1276_transmit_script :: "u8 list \<Rightarrow> u8 list list" where
  "sx1276_transmit_script bytes =
     [[0x8D, 0x00], 0x80 # take 255 bytes, [0xA2, of_nat (min (length bytes) 255)], [0x81, 0x83]]"

lemmas sx1276_scripts =
  sx1276_config_script_def sx1276_power_script_def sx1276_transmit_script_def write_reg_send write_fifo_send
  sx1276_registers Sx1276_set_mode_def Sx1276_set_frequency_def Sx1276_modem_def

lemma sx1276_configure_tx_script:
  "tx_params cfg = LoRaParams lora \<Longrightarrow> Sx1276_configure_tx S cfg =
     run_script (sx1276_send S) (sx1276_config_script (tx_frequency_hz cfg) lora @ sx1276_power_script (tx_power_dbm cfg))"
  by (simp add: Sx1276_configure_tx_def sx1276_scripts hseq_assoc Let_def)

lemma sx1276_configure_rx_script:
  "rx_params cfg = LoRaParams lora \<Longrightarrow> Sx1276_configure_rx S cfg =
     run_script (sx1276_send S) (sx1276_config_script (rx_frequency_hz cfg) lora)"
  by (simp add: Sx1276_configure_rx_def sx1276_scripts hseq_assoc Let_def)

lemma sx1276_transmit_script:
  "Sx1276_transmit S payload = run_script (sx1276_send S) (sx1276_transmit_script payload)"
  by (simp add: Sx1276_transmit_def sx1276_scripts hseq_assoc)

section \<open>The driver as a radio\<close>

lemma read_fifo_length: "Sx1276_read_fifo S n i buf w = (r, buf', w') \<Longrightarrow> length buf' = length buf"
  by (induction n arbitrary: i buf w) (auto split: prod.splits sum.splits dest!: meta_spec)

interpretation sx76: radio "sx1276_phy S" for S :: "'w HalPins"
  by unfold_locales
    (auto simp: sx1276_phy_def Sx1276_read_rx_def split: prod.splits sum.splits dest: read_fifo_length)

end
