(* ===== verification/RadioLink.thy ===== *)
theory RadioLink
  imports Radio1262 Radio1276
begin

text \<open>
  The radio stack over the two transceiver drivers: a driver whose configuration and transmission are
  scripts of bus writes as an interface with both drivers as its providers, the path of a payload from the
  stack's interface to the bus of the sender and from the receiver's chip to the application, the accuracy
  of the carrier frequency and the limits of the drivers' encodings.
\<close>

section \<open>Scripted radios\<close>

locale scripted_radio = radio P for P :: "'w RfPhy" +
  fixes send :: "u8 list \<Rightarrow> ('w, unit) hal_op"
    and conf :: "RfTxConfig \<Rightarrow> LoRaModulation \<Rightarrow> u8 list list"
    and trans :: "u8 list \<Rightarrow> u8 list list"
  assumes configure: "tx_params cfg = LoRaParams lora \<Longrightarrow> phy_configure_tx P cfg = run_script send (conf cfg lora)"
    and transmit: "phy_transmit P bytes = run_script send (trans bytes)"
begin

text \<open>A transmission of the stack is one script: the configuration and then the frame.\<close>

lemma stack_transmit:
  assumes "im_phy I = P" "tx_params cfg = LoRaParams lora" "frame_wf f"
    and "RfStack_build_frame I payload st = Inr (Inr f, st')"
  shows "RfStack_transmit I payload cfg st =
    Inr (case run_script send (conf cfg lora @ trans (content f)) (st_phy st') of
      (r, w) \<Rightarrow> (map_sum Hardware id r, st'\<lparr>st_phy := w\<rparr>))"
proof -
  have "Frame_phy_bytes f = Inr (content f)" using assms(3) by (simp add: Frame_phy_bytes_def)
  then show ?thesis
    by (auto simp: RfStack_transmit_def assms(1,4) configure [OF assms(2)] transmit run_script_append hseq_def hbind_def
        split: prod.splits sum.splits)
qed

text \<open>The same through the older driver trait.\<close>

lemma driver_transmit:
  "drv_transmit (RfDriver_of_phy P) cfg payload = run_script send (conf (lora_tx_config cfg) (lt_modulation cfg) @ trans payload)"
proof -
  have "tx_params (lora_tx_config cfg) = LoRaParams (lt_modulation cfg)" by (simp add: lora_tx_config_def)
  from configure [OF this] show ?thesis by (simp add: RfDriver_of_phy_def transmit run_script_append)
qed

end

abbreviation sx1262_conf :: "RfTxConfig \<Rightarrow> LoRaModulation \<Rightarrow> u8 list list" where
  "sx1262_conf cfg lora \<equiv> sx1262_config_script (tx_frequency_hz cfg) (sx1262_power_script (tx_power_dbm cfg)) lora 0"

abbreviation sx1276_conf :: "RfTxConfig \<Rightarrow> LoRaModulation \<Rightarrow> u8 list list" where
  "sx1276_conf cfg lora \<equiv> sx1276_config_script (tx_frequency_hz cfg) lora @ sx1276_power_script (tx_power_dbm cfg)"

interpretation s62: scripted_radio "sx1262_phy S" "sx1262_send S" sx1262_conf sx1262_transmit_script for S :: "'w Sx1262"
  by unfold_locales (simp_all add: sx1262_phy_def configure_tx_script transmit_script)

interpretation s76: scripted_radio "sx1276_phy S" "sx1276_send S" sx1276_conf sx1276_transmit_script for S :: "'w HalPins"
  by unfold_locales (simp_all add: sx1276_phy_def sx1276_configure_tx_script sx1276_transmit_script)

section \<open>Frames of the reliable stack\<close>

lemma reliable_receive:
  assumes "length payload < 224" "rt_accepts t (st_transport r)" "nw_accepts n (st_network r)" "frame_wf g"
    and g: "content g = Network_header n @ ReliableTransport_header (length payload) t @ payload"
  shows "\<exists>out g'. RfStack_receive_raw (reliable_impl Q) g r = Inr (Inr (Some out), g',
      r\<lparr>st_transport := (st_transport r)\<lparr>rt_acked := rt_seq t\<rparr>,
        st_network := (st_network r)\<lparr>nw_last_rx_src := nw_address n, nw_last_rx_kind := nw_pending_kind n\<rparr>\<rparr>) \<and>
    Frame_payload out = Inr payload"
proof -
  let ?s = "\<lparr>st_transport = t, st_network = n, st_mac = (), st_phy = st_phy r\<rparr>"
  have len: "length payload + 0 + 0 + 0 < MAX_FRAME - FRAME_HEADROOM"
    using assms(1) by (simp add: MAX_FRAME_def FRAME_HEADROOM_def)
  obtain f s' where b: "RfStack_build_frame (reliable_impl Q) payload ?s = Inr (Inr f, s')"
    and rr: "\<And>g. frame_wf g \<and> content g = content f \<Longrightarrow> \<exists>out g'. RfStack_receive_raw (reliable_impl Q) g r = Inr (Inr (Some out), g',
      r\<lparr>st_transport := (st_transport r)\<lparr>rt_acked := rt_seq t\<rparr>,
        st_network := (st_network r)\<lparr>nw_last_rx_src := nw_address n, nw_last_rx_kind := nw_pending_kind n\<rparr>,
        st_mac := st_mac r\<rparr>) \<and> frame_wf out \<and> content out = payload"
    using rnn.round_trip [of "reliable_impl Q" payload ?s r, OF _ _ _ len] assms(2,3) by auto
  from reliable_build [OF assms(1), of Q ?s] b g have "content g = content f" by auto
  with rr [of g] assms(4) show ?thesis by auto
qed

text \<open>
  What an object does for its application when a frame of a sender with transport \<open>t\<close> and network layer
  \<open>n\<close> arrives, and an object that is ready for it.
\<close>

definition delivery :: "RxMetadata \<Rightarrow> u8 list \<Rightarrow> Network \<Rightarrow> rf_effect list" where
  "delivery meta payload n =
     [Trace RF_PHY_RX [1, ucast (rm_rssi_dbm meta)] True,
      app_post RF_RX_FRAME_SIG (RxFrame \<lparr>rx_data = payload, rx_port = 1, rx_rssi = rm_rssi_dbm meta,
        rx_snr = rm_snr_db_x10 meta, rx_src = nw_address n, rx_kind = nw_pending_kind n\<rparr>),
      Trace RF_NET_ROUTE [ucast (rm_rssi_dbm meta)] True]"

definition ready_for :: "ReliableTransport \<Rightarrow> Network \<Rightarrow> (ReliableTransport, Network, unit, 'h) RfStackAO \<Rightarrow> bool" where
  "ready_for t n ao \<longleftrightarrow> rt_accepts t (st_transport (ra_stack ao)) \<and> nw_accepts n (st_network (ra_stack ao)) \<and>
     ra_state ao \<noteq> AoWaitingAck \<and> ra_pending_tx ao = None"

lemma ready_for_set_phy [simp]: "ready_for t n (set_phy w ao) = ready_for t n ao"
  by (simp add: ready_for_def)

text \<open>
  A reception of the stack's object, whatever the radio: the bytes it reads are a peer's frame, and the
  application gets the payload, the sender's address and the kind tag. An object whose transport is idle stays
  ready for the same frame.
\<close>

lemma reliable_delivers:
  assumes "length payload < 224" and ready: "ready_for t n ao"
    and rx: "phy_read_rx Q (fr_buf Frame_new) meta (st_phy (ra_stack ao)) = (Inr (), buf, h)" "radio Q"
    and bytes: "take (unat (rm_pkt_len meta)) buf = Network_header n @ ReliableTransport_header (length payload) t @ payload"
  shows "\<exists>ao'. RfStackAO_on_event (reliable_impl Q) (received_event meta) ao = Inr (ao', delivery meta payload n) \<and>
    st_phy (ra_stack ao') = h \<and> rt_state (st_transport (ra_stack ao')) = rt_state (st_transport (ra_stack ao)) \<and>
    (rt_state (st_transport (ra_stack ao)) = TransportIdle \<longrightarrow> ready_for t n ao')"
proof -
  have buf: "length buf = MAX_FRAME" using radio.read_rx_length [OF rx(2,1)] by (simp add: Frame_new_def)
  then have i: "rx_input (reliable_impl Q) meta ao buf h" using rx(1) by (simp add: rx_input_def)
  have g: "frame_wf (rx_raw meta buf)"
    "content (rx_raw meta buf) = Network_header n @ ReliableTransport_header (length payload) t @ payload"
    using rx_raw_content [OF buf, of meta] bytes by simp_all
  let ?st = "(ra_stack ao)\<lparr>st_phy := h\<rparr>\<lparr>st_transport := (st_transport (ra_stack ao))\<lparr>rt_acked := rt_seq t\<rparr>,
        st_network := (st_network (ra_stack ao))\<lparr>nw_last_rx_src := nw_address n, nw_last_rx_kind := nw_pending_kind n\<rparr>\<rparr>"
  obtain out g' where r: "RfStack_receive_raw (reliable_impl Q) (rx_raw meta buf) ((ra_stack ao)\<lparr>st_phy := h\<rparr>) =
      Inr (Inr (Some out), g', ?st)" "Frame_payload out = Inr payload"
    using reliable_receive [where r = "(ra_stack ao)\<lparr>st_phy := h\<rparr>" and Q = Q, OF assms(1) _ _ g] ready
    by (auto simp: ready_for_def)
  have "RfStackAO_on_event (reliable_impl Q) (received_event meta) ao =
      Inr (rx_idle (ao\<lparr>ra_stack := ?st, ra_rx_frame := g'\<rparr>), delivery meta payload n)"
    using received_delivered [OF i r(1) _ r(2)] ready assms(1)
    by (simp add: network_layer_def Network_last_rx_meta_def ready_for_def delivery_def)
  then show ?thesis using ready by (simp add: rx_idle_def ready_for_def rt_accepts_def nw_accepts_def)
qed

section \<open>Reception through the drivers\<close>

text \<open>What the chips answer when a packet of the given bytes is read from them.\<close>

definition sx1262_answers :: "'w Sx1262 \<Rightarrow> u8 list \<Rightarrow> 'w \<Rightarrow> bool" where
  "sx1262_answers R bytes w = (case Sx1262_wait_busy R w of
       (Inl _, _) \<Rightarrow> False
     | (Inr _, w1) \<Rightarrow>
         (case spi_transfer (sx_hal R) (replicate (3 + length bytes) 0) (sx1262_read_bytes (length bytes)) w1 of
            (ok, f, _) \<Rightarrow> ok \<and> map (\<lambda>i. f (3 + i)) [0..<length bytes] = bytes))"

primrec fifo_yields :: "'w HalPins \<Rightarrow> u8 list \<Rightarrow> 'w \<Rightarrow> bool" where
  "fifo_yields R [] w = True"
| "fifo_yields R (b # bs) w = (case Sx1276_read_reg R REG_FIFO w of
     (Inl _, _) \<Rightarrow> False | (Inr c, w') \<Rightarrow> c = b \<and> fifo_yields R bs w')"

definition sx1276_answers :: "'w HalPins \<Rightarrow> u8 list \<Rightarrow> 'w \<Rightarrow> bool" where
  "sx1276_answers R bytes w =
     (case hbind (Sx1276_read_reg R REG_FIFO_RX_CURRENT_ADDR) (Sx1276_write_reg R REG_FIFO_ADDR_PTR) w of
        (Inl _, _) \<Rightarrow> False | (Inr _, w1) \<Rightarrow> fifo_yields R bytes w1)"

lemma sx1262_reads:
  assumes "sx1262_answers R bytes w" "unat (rm_pkt_len meta) = length bytes" "length bytes \<le> length buf"
  shows "\<exists>w'. Sx1262_read_rx R buf meta w = (Inr (), copy_at 0 bytes buf, w')"
proof -
  from assms(1) obtain w1 f w2 where w1: "Sx1262_wait_busy R w = (Inr (), w1)"
    and t: "spi_transfer (sx_hal R) (replicate (3 + unat (rm_pkt_len meta)) 0) (sx1262_read_bytes (unat (rm_pkt_len meta))) w1 =
      (True, f, w2)" and m: "map (\<lambda>i. f (3 + i)) [0..<unat (rm_pkt_len meta)] = bytes"
    unfolding assms(2) by (auto simp: sx1262_answers_def split: prod.splits sum.splits)
  from assms(2,3) have "unat (rm_pkt_len meta) \<le> length buf" by simp
  from read_rx_fills [OF w1 this t] show ?thesis by (simp add: m)
qed

lemma copy_at_step: "i < length buf \<Longrightarrow> i + length bs < length buf \<Longrightarrow> copy_at (Suc i) bs (buf[i := b]) = copy_at i (b # bs) buf"
  by (simp add: copy_at_def take_Suc_conv_app_nth)

lemma read_fifo_yields:
  "fifo_yields R bs w \<Longrightarrow> i + length bs \<le> length buf \<Longrightarrow>
     \<exists>w'. Sx1276_read_fifo R (length bs) i buf w = (Inr (), copy_at i bs buf, w')"
proof (induction bs arbitrary: i buf w)
  case Nil
  then show ?case by (simp add: copy_at_def)
next
  case (Cons b bs)
  then obtain w1 where "Sx1276_read_reg R REG_FIFO w = (Inr b, w1)" "fifo_yields R bs w1"
    by (auto split: prod.splits sum.splits)
  with Cons.IH [of w1 "Suc i" "buf[i := b]"] Cons.prems(2) show ?case by (simp add: copy_at_step)
qed

lemma sx1276_reads:
  assumes "sx1276_answers R bytes w" "unat (rm_pkt_len meta) = length bytes" "length bytes \<le> length buf"
  shows "\<exists>w'. Sx1276_read_rx R buf meta w = (Inr (), copy_at 0 bytes buf, w')"
  using assms read_fifo_yields [of R bytes _ 0 buf]
  by (auto simp: sx1276_answers_def Sx1276_read_rx_def split: prod.splits sum.splits)

text \<open>The whole path from a chip's interrupt status to the application, for a driver that reads what the chip answers.\<close>

lemma pump_delivers:
  assumes "length payload < 224" "ready_for t n ao" "radio Q"
    and "phy_poll_irq Q (st_phy (ra_stack ao)) = (Inr (Some (RxDone meta)), w)"
    and rd: "phy_read_rx Q (fr_buf Frame_new) meta w = (Inr (), copy_at 0 bytes (fr_buf Frame_new), w')"
    and bytes: "bytes = Network_header n @ ReliableTransport_header (length payload) t @ payload"
      "unat (rm_pkt_len meta) = length bytes"
  shows "\<exists>ao'. RfStackAO_pump (reliable_impl Q) ao = Inr (True, ao', delivery meta payload n) \<and>
    st_phy (ra_stack ao') = w' \<and> rt_state (st_transport (ra_stack ao')) = rt_state (st_transport (ra_stack ao)) \<and>
    (rt_state (st_transport (ra_stack ao)) = TransportIdle \<longrightarrow> ready_for t n ao')"
proof -
  have t: "take (unat (rm_pkt_len meta)) (copy_at 0 bytes (fr_buf Frame_new)) = bytes"
    unfolding bytes(2) by (rule take_copy_at)
  show ?thesis
    using reliable_delivers [of payload t n "set_phy w ao" Q meta, OF assms(1) _ _ assms(3)] rd assms(2) t bytes(1)
    by (auto simp: RfStackAO_pump_def assms(4) received_event_def)
qed

lemma frame_fits:
  assumes "length payload < 224" "bytes = Network_header n @ ReliableTransport_header (length payload) t @ payload"
  shows "length bytes = length payload + 10" "length bytes \<le> length (fr_buf Frame_new)"
  using assms by (simp_all add: Network_header_def ReliableTransport_header_def Frame_new_def MAX_FRAME_def)

lemma sx1276_delivers:
  assumes "length payload < 224" "ready_for t n ao"
    and "Sx1276_poll_irq R (st_phy (ra_stack ao)) = (Inr (Some (RxDone meta)), w)"
      "unat (rm_pkt_len meta) = length bytes" "sx1276_answers R bytes w"
    and "bytes = Network_header n @ ReliableTransport_header (length payload) t @ payload"
  shows "\<exists>ao'. RfStackAO_pump (reliable_impl (sx1276_phy R)) ao = Inr (True, ao', delivery meta payload n)"
proof -
  obtain w' where "Sx1276_read_rx R (fr_buf Frame_new) meta w = (Inr (), copy_at 0 bytes (fr_buf Frame_new), w')"
    using sx1276_reads [OF assms(5,4) frame_fits(2) [OF assms(1,6)]] by blast
  then show ?thesis
    using pump_delivers [OF assms(1,2) sx76.radio_axioms _ _ assms(6,4), of R w w'] assms(3) by (auto simp: sx1276_phy_def)
qed

section \<open>Carrier frequency\<close>

lemma floor_div: "(0 :: nat) < c \<Longrightarrow> x div c * c \<le> x \<and> x < (x div c + 1) * c"
  using dividend_less_div_times [of c x] by (simp add: algebra_simps)

lemma sx1262_freq_exact:
  assumes "unat f < 4096000000"
  shows "unat (sx1262_rf_freq f) = unat f * 2 ^ 25 div 32000000"
proof -
  have "unat f * 2 ^ 25 div 32000000 < 2 ^ 32" using assms by (simp add: div_less_iff_less_mult)
  then show ?thesis
    by (simp add: sx1262_rf_freq_def unsigned_ucast_eq scaled_div [of 25, simplified] take_bit_nat_eq_self_iff)
qed

lemma sx1276_frf_exact: "unat (sx1276_frf f) = unat f * 2 ^ 19 div 32000000"
  using scaled_div [of 19 f] by (simp add: sx1276_frf_def push_bit_eq_mult)

lemma low_bytes:
  fixes x :: u64
  assumes "unat x < 2 ^ 24"
  shows "unat (ucast (drop_bit 16 x) :: u8) * 65536 + unat (ucast (drop_bit 8 x) :: u8) * 256 + unat (ucast x :: u8) = unat x"
proof -
  have b: "unat (ucast (drop_bit k x) :: u8) = unat x div 2 ^ k mod 256" for k
    using assms by (simp add: unsigned_ucast_eq unsigned_drop_bit_eq take_bit_eq_mod) (simp add: drop_bit_eq_div)
  have "unat x div 65536 < 256" using assms by simp
  moreover have "unat x div 65536 = unat x div 256 div 256" by (simp add: div_mult2_eq [symmetric])
  moreover have "q * 65536 + r * 256 = (q * 256 + r) * 256" for q r :: nat by simp
  ultimately show ?thesis using b [of 16] b [of 8] b [of 0] by (simp only: div_mult_mod_eq) simp
qed

section \<open>Signal quality and waiting\<close>

lemma sint_small: "- 32768 \<le> k \<Longrightarrow> k < 32768 \<Longrightarrow> sint (word_of_int k :: 16 word) = k"
  by (simp add: signed_of_int signed_take_bit_int_eq_self_iff)

text \<open>
  The chips report the signal-to-noise ratio in quarters of a decibel. The SX1276 driver converts it to
  tenths, the SX1262 driver multiplies it by ten only: its figure is four times too large.
\<close>

lemma snr_encodings:
  "sint (i16_div (i8_to_i16 r * 10) 4) = (10 * sint r) sdiv 4" "sint (i8_to_i16 r * 10) = 10 * sint r"
proof -
  have r: "- 128 \<le> sint r" "sint r < 128" using sint_greater_eq [of r] sint_lt [of r] by simp_all
  have "i8_to_i16 r * 10 = word_of_int (sint r * 10)" by (simp add: i8_to_i16_def)
  also have "sint (word_of_int (sint r * 10) :: 16 word) = sint r * 10" using r by (intro sint_small) simp_all
  finally show m: "sint (i8_to_i16 r * 10) = 10 * sint r" by simp
  have "- 320 \<le> (10 * sint r) sdiv 4" "(10 * sint r) sdiv 4 < 320"
    using r by (auto simp: signed_divide_int_def sgn_if)
  then show "sint (i16_div (i8_to_i16 r * 10) 4) = (10 * sint r) sdiv 4" by (simp add: i16_div_def m sint_small)
qed

text \<open>A chip that stays busy makes every command time out after 200000 polls, with nothing written to the bus.\<close>

lemma poll_busy_timeout:
  "(\<And>w. fst (busy w) = Some False) \<Longrightarrow> poll_busy busy n w = (Inl HalTimeout, ((\<lambda>w. snd (busy w)) ^^ n) w)"
proof (induction n arbitrary: w)
  case (Suc n)
  obtain w' where "busy w = (Some False, w')" using Suc.prems [of w] by (cases "busy w") auto
  with Suc.IH [OF Suc.prems, of w'] show ?case by (simp add: funpow_Suc_right del: funpow.simps)
qed (simp add: hfail_def)

lemma send_busy_timeout:
  assumes "sx_busy S = Some busy" "\<And>w. fst (busy w) = Some False"
  shows "sx1262_send S bytes w = (Inl HalTimeout, ((\<lambda>w. snd (busy w)) ^^ 200000) w)"
  using poll_busy_timeout [of busy 200000 w, OF assms(2)] by (simp add: sx1262_send_def Sx1262_wait_busy_def assms(1) hseq_def hbind_def)

section \<open>Properties\<close>

text \<open>
  C25: (radio link) A stack with a reliable transport over the SX1262 driver sends a payload of at most 223
  bytes as one script of bus writes, stopping at the first error: standby, carrier, power, modulation and
  packet parameters, the length and the whole frame, and the change to transmit mode. If the chip of a
  peer with the SX1276 driver reports a packet of that length and yields these bytes, the peer's radio
  object delivers exactly the payload with the sender's address and kind tag to its application.
\<close>

theorem radio_link_round_trip:
  assumes "length payload < 224" "tx_params cfg = LoRaParams lora"
    and "ready_for (st_transport s) (st_network s) ao"
    and "bytes = Network_header (st_network s) @ ReliableTransport_header (length payload) (st_transport s) @ payload"
  shows "(\<exists>s'. RfStack_transmit (reliable_impl (sx1262_phy S)) payload cfg s =
      Inr (case run_script (sx1262_send S)
          ([[0x80, 0x00], 0x86 # be32 (sx1262_rf_freq (tx_frequency_hz cfg)),
            [0x8E, word_of_int (min (max (sint (tx_power_dbm cfg)) (- 9)) 22), 0x04],
            [0x8B, SpreadingFactor_as_u8 (mod_sf lora), sx1262_bw (mod_bw lora), sx1262_cr (mod_cr lora), sx1262_ldo (mod_sf lora)],
            [0x8C, ucast (drop_bit 8 (mod_preamble lora)), ucast (mod_preamble lora), 0x00, 0x00, 0x01, 0x00],
            [0x8C, 0x00, 0x08, 0x00, of_nat (length bytes), 0x01, 0x00], [0x0E, 0x00] @ bytes, [0x83, 0x00, 0x00, 0x00]])
          (st_phy s) of (r, w) \<Rightarrow> (map_sum Hardware id r, s'\<lparr>st_phy := w\<rparr>))) \<and>
    (\<forall>meta w. Sx1276_poll_irq R (st_phy (ra_stack ao)) = (Inr (Some (RxDone meta)), w) \<and>
        unat (rm_pkt_len meta) = length bytes \<and> sx1276_answers R bytes w \<longrightarrow>
      (\<exists>ao'. RfStackAO_pump (reliable_impl (sx1276_phy R)) ao = Inr (True, ao', delivery meta payload (st_network s))))"
proof -
  obtain f s' where b: "RfStack_build_frame (reliable_impl (sx1262_phy S)) payload s = Inr (Inr f, s')" "frame_wf f"
    "content f = bytes" "st_phy s' = st_phy s"
    using reliable_build [OF assms(1), of "sx1262_phy S" s] assms(4) by auto
  note p = sx1276_delivers [OF assms(1,3) _ _ _ assms(4)]
  have "min (length bytes) 255 = length bytes" "take 255 bytes = bytes"
    using assms(1) frame_fits(1) [OF assms(1,4)] by simp_all
  then have "sx1262_conf cfg lora @ sx1262_transmit_script bytes =
     [[0x80, 0x00], 0x86 # be32 (sx1262_rf_freq (tx_frequency_hz cfg)),
      [0x8E, word_of_int (min (max (sint (tx_power_dbm cfg)) (- 9)) 22), 0x04],
      [0x8B, SpreadingFactor_as_u8 (mod_sf lora), sx1262_bw (mod_bw lora), sx1262_cr (mod_cr lora), sx1262_ldo (mod_sf lora)],
      [0x8C, ucast (drop_bit 8 (mod_preamble lora)), ucast (mod_preamble lora), 0x00, 0x00, 0x01, 0x00],
      [0x8C, 0x00, 0x08, 0x00, of_nat (length bytes), 0x01, 0x00], [0x0E, 0x00] @ bytes, [0x83, 0x00, 0x00, 0x00]]"
    unfolding sx1262_transmit_script_def sx1262_config_script_def sx1262_power_script_def by (simp only: append.simps)
  with s62.stack_transmit [OF _ assms(2) b(2,1)] b(3,4) p show ?thesis by auto
qed

text \<open>A bus that accepts everything and keeps what is written, and a chip with a packet in its FIFO.\<close>

definition logging_pins :: "u8 list list HalPins" where
  "logging_pins = \<lparr>spi_write = (\<lambda>bs w. (True, w @ [bs])), spi_transfer = (\<lambda>rx tx w. (True, (\<lambda>_. 0), w)),
     reset_set_low = (\<lambda>w. (True, w)), reset_set_high = (\<lambda>w. (True, w))\<rparr>"

definition demo_chip :: "u8 list HalPins" where
  "demo_chip = \<lparr>spi_write = (\<lambda>bs w. (True, w)), spi_transfer = (\<lambda>rx tx w.
       (True, (\<lambda>_. if hd tx = 0x12 then 0x40 else if hd tx = 0x13 then of_nat (length w)
          else if hd tx = 0 then (case w of [] \<Rightarrow> 0 | b # _ \<Rightarrow> b) else 0), if hd tx = 0 then tl w else w)),
     reset_set_low = (\<lambda>w. (True, w)), reset_set_high = (\<lambda>w. (True, w))\<rparr>"

lemma demo_chip_reads:
  "Sx1276_read_reg demo_chip REG_IRQ_FLAGS w = (Inr 0x40, w)"
  "Sx1276_read_reg demo_chip REG_RX_NB_BYTES w = (Inr (of_nat (length w)), w)"
  "Sx1276_read_reg demo_chip REG_FIFO (b # w) = (Inr b, w)"
  "Sx1276_read_reg demo_chip REG_PKT_SNR_VALUE w = (Inr 0, w)"
  "Sx1276_read_reg demo_chip REG_PKT_RSSI_VALUE w = (Inr 0, w)"
  "Sx1276_read_reg demo_chip REG_FIFO_RX_CURRENT_ADDR w = (Inr 0, w)"
  "Sx1276_write_reg demo_chip r v w = (Inr (), w)"
  by (simp_all add: Sx1276_read_reg_def Sx1276_write_reg_def hbind_def hreturn_def hw_transfer_def hw_op_def demo_chip_def
      sx1276_registers)

lemma demo_chip_fifo: "fifo_yields demo_chip bs bs"
  by (induction bs) (simp_all add: demo_chip_reads)

lemma demo_chip_received:
  "Sx1276_poll_irq demo_chip w =
     (Inr (Some (RxDone \<lparr>rm_rssi_dbm = - 157, rm_snr_db_x10 = 0, rm_timestamp = 0, rm_pkt_len = of_nat (length w)\<rparr>)), w)"
  "sx1276_answers demo_chip w w"
  by (simp_all add: Sx1276_poll_irq_def sx1276_answers_def hseq_def hbind_def hreturn_def demo_chip_reads demo_chip_fifo
      i16_div_def i8_to_i16_def)

theorem radio_link_round_trip_witness:
  "\<exists>ao'. RfStackAO_pump (reliable_impl (sx1276_phy demo_chip))
      (RfStackAO_new (RfStack_new (ReliableTransport_new 3) (Network_new 9) ()
        (Network_header (Network_new 7) @ ReliableTransport_header 2 (ReliableTransport_new 3) @ [5, 6])) demo_tx_cfg demo_rx_cfg) =
    Inr (True, ao',
      [Trace RF_PHY_RX [1, ucast (- 157 :: 16 word)] True,
       app_post RF_RX_FRAME_SIG (RxFrame \<lparr>rx_data = [5, 6], rx_port = 1, rx_rssi = - 157, rx_snr = 0, rx_src = 7, rx_kind = 0\<rparr>),
       Trace RF_NET_ROUTE [ucast (- 157 :: 16 word)] True])"
proof -
  let ?bytes = "Network_header (Network_new 7) @ ReliableTransport_header 2 (ReliableTransport_new 3) @ [5, 6]"
  let ?s = "RfStack_new (ReliableTransport_new 3) (Network_new 7) () [] :: (ReliableTransport, Network, unit, u8 list list) RfStack"
  let ?ao = "RfStackAO_new (RfStack_new (ReliableTransport_new 3) (Network_new 9) () ?bytes) demo_tx_cfg demo_rx_cfg"
  have h: "length [5, 6 :: u8] < 224" "tx_params demo_tx_cfg = LoRaParams LoRaModulation_default"
    "ready_for (st_transport ?s) (st_network ?s) ?ao"
    "?bytes = Network_header (st_network ?s) @ ReliableTransport_header (length [5, 6 :: u8]) (st_transport ?s) @ [5, 6]"
    "unat (of_nat (length ?bytes) :: u8) = length ?bytes" "st_phy (ra_stack ?ao) = ?bytes"
    "nw_address (st_network ?s) = 7" "nw_pending_kind (st_network ?s) = 0"
    by (simp_all add: demo_tx_cfg_def LoRaModulation_default_def RfStackAO_new_def RfStack_new_def rt_accepts_def nw_accepts_def ready_for_def
        ReliableTransport_new_def Network_new_def BROADCAST_ADDR_def Network_header_def ReliableTransport_header_def)
  show ?thesis
    using conjunct2 [OF radio_link_round_trip [OF h(1-4), of "Sx1262_new logging_pins" demo_chip]]
    unfolding delivery_def h(6-8) by (simp only: demo_chip_received h(5)) (simp add: demo_chip_received h(5))
qed

text \<open>Repeated calls of the object's pump, and their effects.\<close>

primrec pumps :: "('t, 'n, 'm, 'h) StackImpl \<Rightarrow> nat \<Rightarrow> ('t, 'n, 'm, 'h) RfStackAO \<Rightarrow> (bool list \<times> ('t, 'n, 'm, 'h) RfStackAO \<times> rf_effect list) result" where
  "pumps I 0 ao = Inr ([], ao, [])"
| "pumps I (Suc k) ao = rbind (RfStackAO_pump I ao) (\<lambda>(b, ao, fx).
     rbind (pumps I k ao) (\<lambda>(bs, ao, fx'). Inr (b # bs, ao, fx @ fx')))"

text \<open>
  (the SX1262 interrupt is never cleared) The driver's poll_irq only reads the status, and nothing in
  the stack calls clear_irq. If the chip keeps reporting a packet until it is told to clear the flag, an
  object with an idle transport delivers the same packet to its application again at every pump, and
  pump never returns false: a loop that pumps while it returns true does not end.
\<close>

theorem Sx1262_packet_repeated:
  assumes "length payload < 224" "ready_for t n ao" "rt_state (st_transport (ra_stack ao)) = TransportIdle"
    and "Sx1262_poll_irq R (st_phy (ra_stack ao)) = (Inr (Some (RxDone meta)), st_phy (ra_stack ao))"
    and "Sx1262_read_rx R (fr_buf Frame_new) meta (st_phy (ra_stack ao)) =
      (Inr (), copy_at 0 bytes (fr_buf Frame_new), st_phy (ra_stack ao))"
    and "bytes = Network_header n @ ReliableTransport_header (length payload) t @ payload"
      "unat (rm_pkt_len meta) = length bytes"
  shows "\<exists>ao'. pumps (reliable_impl (sx1262_phy R)) k ao =
    Inr (replicate k True, ao', concat (replicate k (delivery meta payload n)))"
  using assms(2-5)
proof (induction k arbitrary: ao)
  case (Suc k)
  obtain ao' where p: "RfStackAO_pump (reliable_impl (sx1262_phy R)) ao = Inr (True, ao', delivery meta payload n)"
    "st_phy (ra_stack ao') = st_phy (ra_stack ao)" "rt_state (st_transport (ra_stack ao')) = TransportIdle" "ready_for t n ao'"
    using pump_delivers [OF assms(1) Suc.prems(1) sx62.radio_axioms _ _ assms(6,7), of R "st_phy (ra_stack ao)" "st_phy (ra_stack ao)"]
      Suc.prems(2-4) by (auto simp: sx1262_phy_def)
  from Suc.IH [OF p(4,3)] p(2) Suc.prems(3,4) obtain ao'' where
    "pumps (reliable_impl (sx1262_phy R)) k ao' = Inr (replicate k True, ao'', concat (replicate k (delivery meta payload n)))" by auto
  with p(1) show ?case by simp
qed simp

text \<open>A chip that holds a packet and its receive flag until it is cleared.\<close>

definition demo_chip62 :: "u8 list HalPins" where
  "demo_chip62 = \<lparr>spi_write = (\<lambda>bs w. (True, w)), spi_transfer = (\<lambda>rx tx w.
       (True, (\<lambda>i. if hd tx = 0x12 then (if i = 3 then 0x02 else 0) else if hd tx = 0x13 then of_nat (length w)
          else if hd tx = 0x1E \<and> 3 \<le> i then w ! (i - 3) else 0), w)),
     reset_set_low = (\<lambda>w. (True, w)), reset_set_high = (\<lambda>w. (True, w))\<rparr>"

lemma demo_chip62_transfers:
  "Sx1262_xfer (Sx1262_new demo_chip62) [0, 0, 0, 0] [0x12, 0, 0, 0] w = (Inr [0, 0, 0, 2], w)"
  "Sx1262_xfer (Sx1262_new demo_chip62) [0, 0, 0, 0] [0x14, 0, 0, 0] w = (Inr [0, 0, 0, 0], w)"
  "Sx1262_xfer (Sx1262_new demo_chip62) [0, 0, 0, 0] [0x13, 0, 0, 0] w = (Inr (replicate 4 (of_nat (length w))), w)"
  by (simp_all add: Sx1262_xfer_def Sx1262_new_def hw_transfer_def demo_chip62_def upt_rec, simp_all add: eval_nat_numeral)

lemma demo_chip62_received:
  "Sx1262_poll_irq (Sx1262_new demo_chip62) w =
     (Inr (Some (RxDone \<lparr>rm_rssi_dbm = 0, rm_snr_db_x10 = 0, rm_timestamp = 0, rm_pkt_len = of_nat (length w)\<rparr>)), w)"
proof -
  have "Sx1262_wait_busy (Sx1262_new demo_chip62) = hreturn ()" by (simp add: Sx1262_wait_busy_def Sx1262_new_def)
  then show ?thesis
    by (simp add: Sx1262_poll_irq_def hbind_def hreturn_def demo_chip62_transfers sx1262_commands i16_div_def i8_to_i16_def Let_def)
qed

lemma demo_chip62_read:
  assumes "unat (rm_pkt_len meta) = length w" "length w \<le> length buf"
  shows "Sx1262_read_rx (Sx1262_new demo_chip62) buf meta w = (Inr (), copy_at 0 w buf, w)"
proof -
  have "map (\<lambda>i. w ! (3 + i - 3)) [0..<length w] = w" by (simp add: map_nth)
  moreover have "Sx1262_wait_busy (Sx1262_new demo_chip62) w = (Inr (), w)"
    by (simp add: Sx1262_wait_busy_def Sx1262_new_def hreturn_def)
  moreover have "spi_transfer (sx_hal (Sx1262_new demo_chip62)) (replicate (3 + unat (rm_pkt_len meta)) 0)
      (sx1262_read_bytes (unat (rm_pkt_len meta))) w = (True, (\<lambda>i. if 3 \<le> i then w ! (i - 3) else 0), w)"
    by (simp add: Sx1262_new_def demo_chip62_def sx1262_read_bytes_def)
  ultimately show ?thesis using read_rx_fills [of "Sx1262_new demo_chip62" w w meta buf] assms by simp
qed

theorem Sx1262_packet_repeated_witness:
  "\<exists>ao' fx. pumps (reliable_impl (sx1262_phy (Sx1262_new demo_chip62))) 3
      (RfStackAO_new (RfStack_new (ReliableTransport_new 3) (Network_new 9) ()
        (Network_header (Network_new 7) @ ReliableTransport_header 2 (ReliableTransport_new 3) @ [5, 6])) demo_tx_cfg demo_rx_cfg) =
    Inr ([True, True, True], ao', fx)"
proof -
  let ?bytes = "Network_header (Network_new 7) @ ReliableTransport_header 2 (ReliableTransport_new 3) @ [5, 6]"
  let ?ao = "RfStackAO_new (RfStack_new (ReliableTransport_new 3) (Network_new 9) () ?bytes) demo_tx_cfg demo_rx_cfg"
  let ?meta = "\<lparr>rm_rssi_dbm = 0, rm_snr_db_x10 = 0, rm_timestamp = 0, rm_pkt_len = of_nat (length ?bytes)\<rparr>"
  have h: "length [5, 6 :: u8] < 224" "ready_for (ReliableTransport_new 3) (Network_new 7) ?ao"
    "rt_state (st_transport (ra_stack ?ao)) = TransportIdle"
    "?bytes = Network_header (Network_new 7) @ ReliableTransport_header (length [5, 6 :: u8]) (ReliableTransport_new 3) @ [5, 6]"
    "unat (rm_pkt_len ?meta) = length ?bytes" "st_phy (ra_stack ?ao) = ?bytes" "length ?bytes \<le> length (fr_buf Frame_new)"
    by (simp_all add: RfStackAO_new_def RfStack_new_def rt_accepts_def nw_accepts_def ready_for_def ReliableTransport_new_def
        Network_new_def BROADCAST_ADDR_def Network_header_def ReliableTransport_header_def Frame_new_def MAX_FRAME_def)
  show ?thesis
    using Sx1262_packet_repeated [OF h(1-3), unfolded h(6), OF demo_chip62_received demo_chip62_read [OF h(5,7)] h(4,5), of 3]
    by (simp add: numeral_3_eq_3) blast
qed

text \<open>
  C26: (carrier accuracy) The frequency word of the SX1262, of which 32 MHz / 2^25 is one step, is the
  requested frequency rounded down to a step, for every request below 4.096 GHz, and so is what the three
  frequency registers of the SX1276 hold together, in steps of 32 MHz / 2^19, below 1.024 GHz.
\<close>

theorem radio_carrier_accuracy:
  "(unat f < 4096000000 \<longrightarrow>
      unat (sx1262_rf_freq f) * 32000000 \<le> unat f * 2 ^ 25 \<and> unat f * 2 ^ 25 < (unat (sx1262_rf_freq f) + 1) * 32000000) \<and>
   (unat f < 1024000000 \<longrightarrow>
      (let v = unat (ucast (drop_bit 16 (sx1276_frf f)) :: u8) * 65536 + unat (ucast (drop_bit 8 (sx1276_frf f)) :: u8) * 256 +
          unat (ucast (sx1276_frf f) :: u8)
       in v * 32000000 \<le> unat f * 2 ^ 19 \<and> unat f * 2 ^ 19 < (v + 1) * 32000000))"
proof (intro conjI [where P = "_ \<longrightarrow> _"] impI)
  assume "unat f < 4096000000"
  from sx1262_freq_exact [OF this] floor_div [of 32000000 "unat f * 2 ^ 25"]
  show "unat (sx1262_rf_freq f) * 32000000 \<le> unat f * 2 ^ 25 \<and> unat f * 2 ^ 25 < (unat (sx1262_rf_freq f) + 1) * 32000000"
    by simp
next
  assume "unat f < 1024000000"
  then have "unat (sx1276_frf f) < 2 ^ 24" by (simp add: sx1276_frf_exact div_less_iff_less_mult)
  from low_bytes [OF this] floor_div [of 32000000 "unat f * 2 ^ 19"]
  show "let v = unat (ucast (drop_bit 16 (sx1276_frf f)) :: u8) * 65536 + unat (ucast (drop_bit 8 (sx1276_frf f)) :: u8) * 256 +
          unat (ucast (sx1276_frf f) :: u8)
       in v * 32000000 \<le> unat f * 2 ^ 19 \<and> unat f * 2 ^ 19 < (v + 1) * 32000000"
    by (simp add: sx1276_frf_exact Let_def)
qed

theorem radio_carrier_accuracy_witness:
  "unat (sx1262_rf_freq 868100000) * 32000000 \<le> 868100000 * 2 ^ 25 \<and>
   868100000 * 2 ^ 25 < (unat (sx1262_rf_freq 868100000) + 1) * 32000000"
  using radio_carrier_accuracy [of 868100000] by simp

end
