(* ===== verification/RadioIsr.thy ===== *)
theory RadioIsr
  imports RadioLink
begin

text \<open>
  The interrupt handlers of the two radio boards, \<open>ports/esp32-c6/src/rf_isr.rs\<close> (SX1262 on DIO1) and
  \<open>ports/esp32-s3/src/rf_isr.rs\<close> (SX1276 on DIO0): they read and clear the chip's interrupt status over a
  registered polled transfer function, and post a typed event to the registered radio object. The object
  that is posted to is the result; the kernel calls around the post are those of the QK scheduler.
\<close>

section \<open>The handlers\<close>

text \<open>The registered transfer function: \<open>None\<close> before it is registered. It says which byte each position of the read buffer holds.\<close>

type_synonym 'w isr_spi = "(u8 list \<Rightarrow> 'w \<Rightarrow> bool \<times> (nat \<Rightarrow> u8) \<times> 'w) option"

record 'w rf_isr =
  RF_AO :: bool
  RF_SPI_FN :: "'w isr_spi"

definition rf_isr_reset :: "'w rf_isr" where
  "rf_isr_reset = \<lparr>RF_AO = False, RF_SPI_FN = None\<rparr>"

definition register_rf_ao :: "'w rf_isr \<Rightarrow> 'w rf_isr" where
  "register_rf_ao st = st\<lparr>RF_AO := True\<rparr>"

definition register_rf_spi_fn :: "(u8 list \<Rightarrow> 'w \<Rightarrow> bool \<times> (nat \<Rightarrow> u8) \<times> 'w) \<Rightarrow> 'w rf_isr \<Rightarrow> 'w rf_isr" where
  "register_rf_spi_fn f st = st\<lparr>RF_SPI_FN := Some f\<rparr>"

definition parse_sx1262_irq :: "u16 \<Rightarrow> PhyEvent \<times> RxMetadata" where
  "parse_sx1262_irq status =
     (let meta = RxMetadata_default in
      if and status 0x0004 \<noteq> 0 then (CrcError, meta)
      else if and status 0x0040 \<noteq> 0 then (RxTimeout, meta)
      else if and status 0x0002 \<noteq> 0 then (RxDone meta, meta)
      else if and status 0x0001 \<noteq> 0 then (TxDone, meta)
      else if and status 0x0008 \<noteq> 0 then (CadDone True, meta)
      else if and status 0x0200 \<noteq> 0 then (PreambleDetected, meta)
      else (TxDone, meta))"

definition read_sx1262_irq_status :: "'w isr_spi \<Rightarrow> 'w \<Rightarrow> (PhyEvent \<times> RxMetadata) \<times> 'w" where
  "read_sx1262_irq_status spi w = (case spi of
       None \<Rightarrow> ((TxDone, RxMetadata_default), w)
     | Some f \<Rightarrow> (case f [0x12, 0x00, 0x00, 0x00] w of (ok, irq_rx, w1) \<Rightarrow>
         if \<not> ok then ((TxDone, RxMetadata_default), w1)
         else let irq_status = or (push_bit 8 (ucast (irq_rx 2))) (ucast (irq_rx 3));
                  w2 = snd (snd (f [0x97, 0x03, 0xFF] w1))
              in (parse_sx1262_irq irq_status, w2)))"

definition parse_sx1276_irq :: "u8 \<Rightarrow> PhyEvent \<times> RxMetadata" where
  "parse_sx1276_irq status =
     (let meta = RxMetadata_default in
      if and status 0x20 \<noteq> 0 then (CrcError, meta)
      else if and status 0x80 \<noteq> 0 then (RxTimeout, meta)
      else if and status 0x40 \<noteq> 0 then (RxDone meta, meta)
      else if and status 0x08 \<noteq> 0 then (TxDone, meta)
      else if and status 0x04 \<noteq> 0 then (CadDone True, meta)
      else (TxDone, meta))"

definition read_sx1276_irq_status :: "'w isr_spi \<Rightarrow> 'w \<Rightarrow> (PhyEvent \<times> RxMetadata) \<times> 'w" where
  "read_sx1276_irq_status spi w = (case spi of
       None \<Rightarrow> ((TxDone, RxMetadata_default), w)
     | Some f \<Rightarrow> (case f [and 0x12 0x7F, 0x00] w of (ok, irq_rx, w1) \<Rightarrow>
         if \<not> ok then ((TxDone, RxMetadata_default), w1)
         else let irq_status = irq_rx 1;
                  w2 = snd (snd (f [0x92, irq_status] w1))
              in (parse_sx1276_irq irq_status, w2)))"

text \<open>The signal of an event, and the event that is posted.\<close>

fun isr_signal :: "PhyEvent \<Rightarrow> signal" where
  "isr_signal TxDone = RF_PHY_TX_DONE_SIG"
| "isr_signal (RxDone _) = RF_PHY_RX_DONE_SIG"
| "isr_signal CrcError = RF_PHY_CRC_ERROR_SIG"
| "isr_signal _ = RF_PHY_IRQ_SIG"

definition isr_event :: "PhyEvent \<times> RxMetadata \<Rightarrow> rf_event" where
  "isr_event p = (case p of (event, meta) \<Rightarrow> Event_new (isr_signal event) (PhyIrq event meta))"

definition DIO1_IRQHandler :: "'w rf_isr \<Rightarrow> 'w \<Rightarrow> rf_event option \<times> 'w" where
  "DIO1_IRQHandler st w =
     (if \<not> RF_AO st then (None, w)
      else case read_sx1262_irq_status (RF_SPI_FN st) w of (p, w') \<Rightarrow> (Some (isr_event p), w'))"

definition DIO0_IRQHandler :: "'w rf_isr \<Rightarrow> 'w \<Rightarrow> rf_event option \<times> 'w" where
  "DIO0_IRQHandler st w =
     (if \<not> RF_AO st then (None, w)
      else case read_sx1276_irq_status (RF_SPI_FN st) w of (p, w') \<Rightarrow> (Some (isr_event p), w'))"

section \<open>What the handlers post\<close>

text \<open>Both handlers give the default metadata with every event.\<close>

definition default_meta :: "PhyEvent \<times> RxMetadata \<Rightarrow> bool" where
  "default_meta p \<longleftrightarrow> snd p = RxMetadata_default \<and> (\<forall>m. fst p = RxDone m \<longrightarrow> m = RxMetadata_default)"

lemma parse_meta: "default_meta (parse_sx1262_irq status)" "default_meta (parse_sx1276_irq flags)"
  by (simp_all add: default_meta_def parse_sx1262_irq_def parse_sx1276_irq_def Let_def)

lemma read_status_meta: "default_meta (fst (read_sx1262_irq_status spi w))" "default_meta (fst (read_sx1276_irq_status spi w))"
proof -
  have "default_meta (TxDone, RxMetadata_default)" by (simp add: default_meta_def)
  then show "default_meta (fst (read_sx1262_irq_status spi w))" "default_meta (fst (read_sx1276_irq_status spi w))"
    by (simp_all add: read_sx1262_irq_status_def read_sx1276_irq_status_def Let_def parse_meta split: option.splits prod.splits)
qed

lemma isr_signal_rx: "isr_signal ev = RF_PHY_RX_DONE_SIG \<longleftrightarrow> (\<exists>m. ev = RxDone m)"
  by (cases ev) (simp_all add: rf_sigs)

lemma isr_reception:
  assumes "fst (DIO1_IRQHandler st w) = Some e \<or> fst (DIO0_IRQHandler st w) = Some e"
    and "Event_signal e = RF_PHY_RX_DONE_SIG"
  shows "e = received_event RxMetadata_default"
proof -
  obtain p where e: "e = isr_event p" "default_meta p"
    using assms(1) read_status_meta [of "RF_SPI_FN st" w]
    by (auto simp: DIO1_IRQHandler_def DIO0_IRQHandler_def split: prod.splits if_splits)
  from assms(2) e(1) obtain m where "fst p = RxDone m" by (auto simp: isr_event_def isr_signal_rx split: prod.splits)
  with e show ?thesis by (cases p) (simp add: default_meta_def isr_event_def received_event_def)
qed

section \<open>Properties\<close>

text \<open>
  (interrupt-driven reception loses every packet) Whatever the chip reports and holds, the event that
  the interrupt handler of either board posts for a received packet makes the radio object read zero bytes:
  the handlers leave the length at its default, and neither driver's read_rx reads it from the chip. A
  reliable stack over any radio then delivers nothing to the application; the packet is lost.
\<close>

theorem isr_reception_lost:
  assumes "fst (DIO1_IRQHandler st w) = Some e \<or> fst (DIO0_IRQHandler st w) = Some e"
    and "Event_signal e = RF_PHY_RX_DONE_SIG" "radio Q" "ra_pending_tx ao = None"
  shows "\<exists>ao' fx. RfStackAO_on_event (reliable_impl Q) e ao = Inr (ao', fx) \<and> set fx \<subseteq> {Trace RF_PHY_RX [1, 0] True}"
proof -
  let ?meta = RxMetadata_default
  have e: "e = received_event ?meta" by (rule isr_reception [OF assms(1,2)])
  obtain r buf h where rd: "phy_read_rx Q (fr_buf Frame_new) ?meta (st_phy (ra_stack ao)) = (r, buf, h)"
    using prod_cases3 by blast
  have buf: "length buf = MAX_FRAME" using radio.read_rx_length [OF assms(3) rd] by (simp add: Frame_new_def)
  show ?thesis
  proof (cases r)
    case (Inl err)
    then show ?thesis
      using rd by (simp add: e on_event_signals RfStackAO_handle_rx_done_def RxMetadata_default_def)
  next
    case (Inr u)
    then have i: "rx_input (reliable_impl Q) ?meta ao buf h" using rd buf by (simp add: rx_input_def)
    note g = rx_raw_content [OF buf, of ?meta]
    obtain r' g' st' where rr: "RfStack_receive_raw (reliable_impl Q) (rx_raw ?meta buf) ((ra_stack ao)\<lparr>st_phy := h\<rparr>) = Inr (r', g', st')"
      and some: "\<And>f. r' = Inr (Some f) \<Longrightarrow> 10 \<le> length (content (rx_raw ?meta buf))"
      using rnr.receive_raw_total [of "reliable_impl Q" "rx_raw ?meta buf" "(ra_stack ao)\<lparr>st_phy := h\<rparr>"] g(1)
      by (fastforce split: if_splits)
    have "length (content (rx_raw ?meta buf)) = 0" using g(3) by (simp add: RxMetadata_default_def)
    with some have "r' = Inr None \<or> (\<exists>err. r' = Inl err)" by (cases r') (auto split: option.splits, metis not_Some_eq not_numeral_le_zero)
    then show ?thesis
      using received_dropped [OF i rr assms(4)] by (auto simp: e RxMetadata_default_def)
  qed
qed

definition demo_isr :: "u8 list rf_isr" where
  "demo_isr = register_rf_spi_fn (\<lambda>tx w. spi_transfer demo_chip62 [] tx w) (register_rf_ao rf_isr_reset)"

theorem isr_reception_lost_witness:
  "\<exists>e ao' fx. fst (DIO1_IRQHandler demo_isr [1, 2, 3]) = Some e \<and>
     RfStackAO_on_event (reliable_impl (sx1262_phy (Sx1262_new demo_chip62))) e
       (RfStackAO_new (RfStack_new (ReliableTransport_new 3) (Network_new 9) () [1, 2, 3]) demo_tx_cfg demo_rx_cfg) = Inr (ao', fx) \<and>
     set fx \<subseteq> {Trace RF_PHY_RX [1, 0] True}"
proof -
  let ?e = "isr_event (RxDone RxMetadata_default, RxMetadata_default)"
  have e: "fst (DIO1_IRQHandler demo_isr [1, 2, 3]) = Some ?e"
    by (simp add: DIO1_IRQHandler_def demo_isr_def register_rf_spi_fn_def register_rf_ao_def rf_isr_reset_def
        read_sx1262_irq_status_def demo_chip62_def parse_sx1262_irq_def Let_def)
  have "Event_signal ?e = RF_PHY_RX_DONE_SIG" by (simp add: isr_event_def)
  from isr_reception_lost [OF disjI1 [OF e] this sx62.radio_axioms, of
      "RfStackAO_new (RfStack_new (ReliableTransport_new 3) (Network_new 9) () [1, 2, 3]) demo_tx_cfg demo_rx_cfg"] e
  show ?thesis by (auto simp: RfStackAO_new_def)
qed

end
