(* ===== verification/FotaDrv.thy ===== *)
theory FotaDrv
  imports RfAo
begin

text \<open>
  The firmware update driver (\<open>crates/comms/src/fota.rs\<close>): it splits an image into chunks, posts one
  chunk per completed transmission and finally the image's length and CRC-32. An operation returns the
  events it posts to the radio object.
\<close>

section \<open>The driver\<close>

definition PKT_ANNOUNCE :: u8 where "PKT_ANNOUNCE = 0x00"
definition PKT_CHUNK :: u8 where "PKT_CHUNK = 0x01"
definition PKT_VERIFY :: u8 where "PKT_VERIFY = 0x03"
definition FOTA_CHUNK_BYTES :: nat where "FOTA_CHUNK_BYTES = 200"

record FotaDriver =
  fd_image :: "u8 list"
  fd_total_chunks :: u32
  fd_next :: u32
  fd_failed :: bool

datatype FotaStatus = Sending | Done | Failed

definition u32_div_ceil :: "u32 \<Rightarrow> u32 \<Rightarrow> u32" where
  "u32_div_ceil a b = (if a mod b > 0 then a div b + 1 else a div b)"

definition FotaDriver_new :: "u8 list \<Rightarrow> FotaDriver" where
  "FotaDriver_new img =
     \<lparr>fd_image = img, fd_total_chunks = u32_div_ceil (of_nat (length img)) (of_nat FOTA_CHUNK_BYTES),
      fd_next = 0, fd_failed = False\<rparr>"

definition FotaDriver_post_tx :: "u8 list \<Rightarrow> bool \<Rightarrow> (CommsError + unit) \<times> rf_event list" where
  "FotaDriver_post_tx payload reliable =
     (Inr (), [Event_new RF_TX_REQ_SIG (TxReq (RfTxReqPayload_with_reliability payload 2 reliable))])"

definition FotaDriver_start_announce :: "u32 \<Rightarrow> (CommsError + unit) \<times> rf_event list" where
  "FotaDriver_start_announce fw_version = FotaDriver_post_tx (PKT_ANNOUNCE # le32 fw_version) False"

definition FotaDriver_send_verify :: "u32 \<Rightarrow> u32 \<Rightarrow> (CommsError + unit) \<times> rf_event list" where
  "FotaDriver_send_verify image_size crc = FotaDriver_post_tx (PKT_VERIFY # le32 image_size @ le32 crc) True"

text \<open>One step of the inner loop over the bits of a byte.\<close>

definition crc_step :: "u32 \<Rightarrow> u32" where
  "crc_step c = (if and c 1 \<noteq> 0 then xor (drop_bit 1 c) 0xEDB88320 else drop_bit 1 c)"

definition FotaDriver_compute_crc32 :: "u8 list \<Rightarrow> u32" where
  "FotaDriver_compute_crc32 img =
     not (foldl (\<lambda>crc byte. (crc_step ^^ 8) (xor crc (ucast byte))) 0xFFFFFFFF img)"

definition FotaDriver_on_tx_done :: "FotaDriver \<Rightarrow> (FotaStatus \<times> rf_event list \<times> FotaDriver) result" where
  "FotaDriver_on_tx_done d =
     (if fd_failed d then Inr (Failed, [], d)
      else if fd_next d \<ge> fd_total_chunks d
      then Inr (Done, snd (FotaDriver_send_verify (of_nat (length (fd_image d))) (FotaDriver_compute_crc32 (fd_image d))), d)
      else
        let start = unat (fd_next d) * FOTA_CHUNK_BYTES;
            fin = min (start + FOTA_CHUNK_BYTES) (length (fd_image d)) in
        if start > fin then Inl Panic
        else
          let chunk = take (fin - start) (drop start (fd_image d));
              pkt = PKT_CHUNK # le32 (fd_next d) @ le32 (fd_total_chunks d) @ chunk in
          (case FotaDriver_post_tx pkt True of
             (Inl _, evs) \<Rightarrow> Inr (Failed, evs, d\<lparr>fd_failed := True\<rparr>)
           | (Inr _, evs) \<Rightarrow> Inr (Sending, evs, d\<lparr>fd_next := fd_next d + 1\<rparr>)))"

definition FotaDriver_on_tx_fail :: "FotaDriver \<Rightarrow> FotaDriver" where
  "FotaDriver_on_tx_fail d = d\<lparr>fd_failed := True\<rparr>"

definition FotaDriver_is_failed :: "FotaDriver \<Rightarrow> bool" where
  "FotaDriver_is_failed d = fd_failed d"

text \<open>The calls of an application that reports \<open>k\<close> completed transmissions.\<close>

fun fota_run :: "nat \<Rightarrow> FotaDriver \<Rightarrow> (FotaStatus list \<times> rf_event list \<times> FotaDriver) result" where
  "fota_run 0 d = Inr ([], [], d)"
| "fota_run (Suc k) d =
     rbind (FotaDriver_on_tx_done d) (\<lambda>(s, evs, d).
       rbind (fota_run k d) (\<lambda>(ss, evs', d). Inr (s # ss, evs @ evs', d)))"

section \<open>CRC-32 as a shift register\<close>

text \<open>
  The reference: the reflected CRC-32 register clocked once per message bit, least significant bit of
  each byte first, started at all ones and inverted at the end.
\<close>

definition lfsr_clock :: "u32 \<Rightarrow> bool \<Rightarrow> u32" where
  "lfsr_clock c b = (if bit c 0 \<noteq> b then xor (drop_bit 1 c) 0xEDB88320 else drop_bit 1 c)"

definition byte_bits :: "u8 \<Rightarrow> bool list" where
  "byte_bits b = map (bit b) [0..<8]"

definition crc32_ref :: "u8 list \<Rightarrow> u32" where
  "crc32_ref img = not (foldl lfsr_clock (- 1) (concat (map byte_bits img)))"

lemma crc_step_bit: "crc_step c = (if bit c 0 then xor (drop_bit 1 c) 0xEDB88320 else drop_bit 1 c)"
  by (simp add: crc_step_def and_one_eq bit_0 odd_iff_mod_2_eq_one)

lemma crc_steps_register:
  "(crc_step ^^ k) (xor c x) = xor (foldl lfsr_clock c (map (bit x) [0..<k])) (drop_bit k x)"
proof (induction k)
  case (Suc k)
  let ?y = "foldl lfsr_clock c (map (bit x) [0..<k])"
  have b: "bit (xor ?y (drop_bit k x)) 0 \<longleftrightarrow> bit ?y 0 \<noteq> bit x k" by (simp add: bit_simps)
  have d: "drop_bit 1 (xor ?y (drop_bit k x)) = xor (drop_bit 1 ?y) (drop_bit (Suc k) x)"
    by (simp add: drop_bit_xor)
  have "(crc_step ^^ Suc k) (xor c x) = crc_step (xor ?y (drop_bit k x))" using Suc by simp
  also have "\<dots> = xor (lfsr_clock ?y (bit x k)) (drop_bit (Suc k) x)"
    unfolding crc_step_bit lfsr_clock_def b d by (simp add: ac_simps)
  finally show ?case by simp
qed simp

lemma crc_byte: "(crc_step ^^ 8) (xor c (ucast b)) = foldl lfsr_clock c (byte_bits b)"
proof -
  have "\<not> bit b (8 + n)" for n using bit_imp_le_length [of b "8 + n"] by auto
  then have "drop_bit 8 (ucast b :: u32) = 0" by (intro bit_word_eqI) (simp add: bit_simps)
  moreover have "map (bit (ucast b :: u32)) [0..<8] = byte_bits b" by (simp add: byte_bits_def bit_simps)
  ultimately show ?thesis unfolding crc_steps_register by simp
qed

lemma crc32_eq: "FotaDriver_compute_crc32 img = crc32_ref img"
proof -
  have "foldl (\<lambda>crc byte. (crc_step ^^ 8) (xor crc (ucast byte))) c img = foldl lfsr_clock c (concat (map byte_bits img))" for c
    by (induction img arbitrary: c) (simp_all only: foldl_Nil foldl_Cons foldl_append concat.simps list.map crc_byte)
  moreover have "(0xFFFFFFFF :: u32) = - 1" by simp
  ultimately show ?thesis unfolding FotaDriver_compute_crc32_def crc32_ref_def by (simp only:)
qed

text \<open>
  C24: (CRC-32) The byte-wise loop computes the standard reflected CRC-32: the shift register with the
  IEEE 802.3 polynomial clocked over the bits of the image.
\<close>

theorem FotaDriver_crc32_reference: "FotaDriver_compute_crc32 img = crc32_ref img"
  by (rule crc32_eq)

section \<open>Detection of a changed byte\<close>

lemma xor_cancel:
  fixes a b :: "'a::len word"
  assumes "xor a p = xor b p"
  shows "a = b"
proof -
  have "xor (xor a p) p = xor (xor b p) p" using assms by simp
  then show ?thesis by (simp add: xor.assoc)
qed

lemma lfsr_clock_inj: "lfsr_clock c b = lfsr_clock d b \<Longrightarrow> c = d"
proof -
  assume eq: "lfsr_clock c b = lfsr_clock d b"
  have top: "bit (lfsr_clock x b) 31 \<longleftrightarrow> bit x 0 \<noteq> b" for x
  proof -
    have "\<not> bit x 32" using bit_imp_le_length [of x 32] by auto
    then have "\<not> bit (drop_bit 1 x) 31" by (simp add: bit_simps)
    moreover have "bit (0xEDB88320 :: u32) 31" by simp
    ultimately show ?thesis by (simp add: lfsr_clock_def bit_xor_iff)
  qed
  have b0: "bit c 0 = bit d 0" using top [of c] top [of d] eq by auto
  then have "drop_bit 1 c = drop_bit 1 d"
    using eq by (cases "bit d 0 \<noteq> b") (auto simp: lfsr_clock_def dest: xor_cancel)
  then have "bit c (Suc n) = bit d (Suc n)" for n by (metis bit_drop_bit_eq comp_apply plus_1_eq_Suc)
  with b0 show "c = d" by (intro bit_word_eqI) (metis not0_implies_Suc)
qed

lemma lfsr_fold_inj: "foldl lfsr_clock c bs = foldl lfsr_clock d bs \<Longrightarrow> c = d"
  by (induction bs arbitrary: c d) (auto dest: lfsr_clock_inj)

lemma crc_step_inj: "crc_step c = crc_step d \<Longrightarrow> c = d"
  using lfsr_clock_inj [of c False d] by (simp add: crc_step_bit lfsr_clock_def)

lemma crc_steps_inj: "(crc_step ^^ k) c = (crc_step ^^ k) d \<Longrightarrow> c = d"
  by (induction k) (auto dest: crc_step_inj)

lemma lfsr_byte_inj:
  assumes "foldl lfsr_clock c (byte_bits a) = foldl lfsr_clock c (byte_bits b)"
  shows "a = b"
proof -
  have "xor c (ucast a) = xor c (ucast b :: u32)"
    using assms unfolding crc_byte [symmetric] by (rule crc_steps_inj)
  then have "xor c (xor c (ucast a)) = xor c (xor c (ucast b :: u32))" by simp
  then have u: "(ucast a :: u32) = ucast b" by (simp add: xor.assoc [symmetric])
  have "bit a n = bit b n" if "n < 8" for n
    using arg_cong [OF u, of "\<lambda>w. bit w n"] that by (simp add: bit_simps)
  then show ?thesis by (intro bit_word_eqI) simp
qed

text \<open>
  (change detection) Two images that differ in exactly one byte have different CRC-32 values.
\<close>

theorem FotaDriver_crc32_detects_byte:
  "FotaDriver_compute_crc32 (xs @ [a] @ ys) = FotaDriver_compute_crc32 (xs @ [b] @ ys) \<longleftrightarrow> a = b"
proof
  assume eq: "FotaDriver_compute_crc32 (xs @ [a] @ ys) = FotaDriver_compute_crc32 (xs @ [b] @ ys)"
  let ?F = "foldl (\<lambda>crc byte. (crc_step ^^ 8) (xor crc (ucast byte)))"
  have fold: "?F c zs = foldl lfsr_clock c (concat (map byte_bits zs))" for c zs
    by (induction zs arbitrary: c) (simp_all only: foldl_Nil foldl_Cons foldl_append concat.simps list.map crc_byte)
  from eq have "?F 0xFFFFFFFF (xs @ [a] @ ys) = ?F 0xFFFFFFFF (xs @ [b] @ ys)"
    unfolding FotaDriver_compute_crc32_def by (simp only: bit.compl_eq_compl_iff)
  then have "foldl lfsr_clock (foldl lfsr_clock (?F 0xFFFFFFFF xs) (byte_bits a)) (concat (map byte_bits ys)) =
      foldl lfsr_clock (foldl lfsr_clock (?F 0xFFFFFFFF xs) (byte_bits b)) (concat (map byte_bits ys))"
    unfolding fold by simp
  from lfsr_byte_inj [OF lfsr_fold_inj [OF this]] show "a = b" .
qed simp

section \<open>The transfer\<close>

lemma div_ceil_200: "(m + 199) div 200 = (if m mod 200 > 0 then m div 200 + 1 else m div 200)" for m :: nat
proof -
  have "m + 199 = (m mod 200 + 199) + 200 * (m div 200)" by simp
  then have "(m + 199) div 200 = m div 200 + (m mod 200 + 199) div 200"
    by (simp only: div_mult_self2 [of 200] zero_neq_numeral simp_thms)
  moreover have "(m mod 200 + 199) div 200 = (if m mod 200 > 0 then 1 else 0)"
  proof (cases "m mod 200")
    case (Suc r)
    then have "r < 200" by (metis Suc_lessD mod_less_divisor zero_less_numeral)
    then have "(r + 200) div 200 = 1" by simp
    with Suc show ?thesis by (simp add: add.commute)
  qed simp
  ultimately show ?thesis by simp
qed

lemma chunk_count:
  assumes "length img < 2 ^ 32"
  shows "unat (fd_total_chunks (FotaDriver_new img)) = (length img + 199) div 200"
proof -
  let ?n = "length img"
  have n: "unat (of_nat ?n :: u32) = ?n" using assms by (simp add: unat_of_nat)
  have q: "unat (of_nat ?n div 200 :: u32) = ?n div 200" unfolding unat_div_distrib n by simp
  have r: "unat (of_nat ?n mod 200 :: u32) = ?n mod 200" unfolding unat_mod_distrib n by simp
  have "?n div 200 \<le> (2 ^ 32 - 1) div 200" using assms by (intro div_le_mono) linarith
  then have small: "?n div 200 + 1 < 2 ^ LENGTH(32)" by simp
  have "unat (of_nat ?n div 200 + 1 :: u32) = (unat (of_nat ?n div 200 :: u32) + unat (1 :: u32)) mod 2 ^ LENGTH(32)"
    by (rule unat_word_ariths(1))
  then have s: "unat (of_nat ?n div 200 + 1 :: u32) = ?n div 200 + 1"
    unfolding q unat_1 mod_less [OF small] .
  have z: "(of_nat ?n mod 200 :: u32) > 0 \<longleftrightarrow> ?n mod 200 > 0"
    unfolding word_gt_0 using r unat_eq_0 [of "of_nat ?n mod 200 :: u32"] by (metis bot_nat_0.not_eq_extremum)
  have t: "fd_total_chunks (FotaDriver_new img) =
      (if (of_nat ?n mod 200 :: u32) > 0 then of_nat ?n div 200 + 1 else of_nat ?n div 200)"
    by (simp add: FotaDriver_new_def u32_div_ceil_def FOTA_CHUNK_BYTES_def)
  show ?thesis unfolding t div_ceil_200 z using q s by (cases "?n mod 200 > 0") (simp_all only: if_True if_False)
qed

text \<open>The packets an application's run hands to the radio, and their reassembly.\<close>

definition packets :: "rf_event list \<Rightarrow> u8 list list" where
  "packets evs = map (\<lambda>e. case ev_payload e of TxReq req \<Rightarrow> tq_data req | _ \<Rightarrow> []) evs"

definition chunk_packet :: "u8 list \<Rightarrow> u32 \<Rightarrow> nat \<Rightarrow> u8 list" where
  "chunk_packet img tot i =
     PKT_CHUNK # le32 (of_nat i) @ le32 tot @ take FOTA_CHUNK_BYTES (drop (i * FOTA_CHUNK_BYTES) img)"

definition verify_packet :: "u8 list \<Rightarrow> u8 list" where
  "verify_packet img = PKT_VERIFY # le32 (of_nat (length img)) @ le32 (FotaDriver_compute_crc32 img)"

definition reliable_request :: "u8 list \<Rightarrow> rf_event" where
  "reliable_request pkt = Event_new RF_TX_REQ_SIG (TxReq (RfTxReqPayload_with_reliability pkt 2 True))"

lemma packets_request: "packets (map reliable_request ps) = ps"
  by (induction ps) (simp_all add: packets_def reliable_request_def Event_new_def RfTxReqPayload_with_reliability_def)

lemma on_tx_done_chunk:
  assumes "length img < 2 ^ 32" "i < (length img + 199) div 200"
    "d = (FotaDriver_new img)\<lparr>fd_next := of_nat i\<rparr>"
  shows "FotaDriver_on_tx_done d = Inr (Sending, [reliable_request (chunk_packet img (fd_total_chunks d) i)],
    (FotaDriver_new img)\<lparr>fd_next := of_nat (Suc i)\<rparr>)"
proof -
  have t: "unat (fd_total_chunks d) = (length img + 199) div 200" using chunk_count [OF assms(1)] assms(3) by simp
  have "(length img + 199) div 200 \<le> length img" by (cases "length img") simp_all
  then have i: "unat (of_nat i :: u32) = i" using assms(1,2) by (simp add: unat_of_nat)
  have nx: "\<not> fd_next d \<ge> fd_total_chunks d" using t i assms(2,3) by (simp add: word_le_nat_alt)
  have "i * 200 < length img"
  proof -
    have "Suc i * 200 \<le> length img + 199" 
      using assms(2) less_eq_div_iff_mult_less_eq [of 200 "Suc i" "length img + 199"] by simp
    then show ?thesis by simp
  qed
  then have s: "\<not> i * FOTA_CHUNK_BYTES > min (i * FOTA_CHUNK_BYTES + FOTA_CHUNK_BYTES) (length img)"
    by (simp add: FOTA_CHUNK_BYTES_def)
  have c: "take (min (i * FOTA_CHUNK_BYTES + FOTA_CHUNK_BYTES) (length img) - i * FOTA_CHUNK_BYTES) (drop (i * FOTA_CHUNK_BYTES) img) =
      take FOTA_CHUNK_BYTES (drop (i * FOTA_CHUNK_BYTES) img)"
    by (cases "i * FOTA_CHUNK_BYTES + FOTA_CHUNK_BYTES \<le> length img") (simp_all add: min_def)
  have f: "\<not> fd_failed d" "fd_image d = img" "unat (fd_next d) = i" "fd_next d = of_nat i"
    using assms(3) i by (simp_all add: FotaDriver_new_def)
  show ?thesis
    unfolding FotaDriver_on_tx_done_def Let_def using f(1) nx s
    by (simp only: f(2,3) c if_False FotaDriver_post_tx_def prod.case sum.case)
      (simp add: f(4) chunk_packet_def reliable_request_def assms(3))
qed

lemma on_tx_done_verify:
  assumes "\<not> fd_failed d" "fd_next d \<ge> fd_total_chunks d"
  shows "FotaDriver_on_tx_done d = Inr (Done, [reliable_request (verify_packet (fd_image d))], d)"
  using assms by (simp add: FotaDriver_on_tx_done_def FotaDriver_send_verify_def FotaDriver_post_tx_def
      verify_packet_def reliable_request_def)

lemma fota_run_from:
  assumes "length img < 2 ^ 32" "i + k = (length img + 199) div 200" "d = (FotaDriver_new img)\<lparr>fd_next := of_nat i\<rparr>"
  shows "\<exists>d'. fota_run (Suc k) d = Inr (replicate k Sending @ [Done],
    map (\<lambda>j. reliable_request (chunk_packet img (fd_total_chunks (FotaDriver_new img)) j)) [i..<i + k] @
    [reliable_request (verify_packet img)], d') \<and> fd_next d' = fd_total_chunks d'"
  using assms(2,3)
proof (induction k arbitrary: i d)
  case 0
  have "unat (fd_total_chunks (FotaDriver_new img)) = i" using chunk_count [OF assms(1)] 0 by simp
  moreover have "of_nat (unat (fd_total_chunks (FotaDriver_new img))) = fd_total_chunks (FotaDriver_new img)" by simp
  ultimately have e: "fd_next d = fd_total_chunks d" using 0 by (simp only:) (simp add: FotaDriver_new_def)
  have "\<not> fd_failed d" "fd_image d = img" using 0 by (simp_all add: FotaDriver_new_def)
  with on_tx_done_verify [of d] e show ?case by simp
next
  case (Suc k)
  have i: "i < (length img + 199) div 200" using Suc.prems by simp
  from Suc.IH [of "Suc i" "(FotaDriver_new img)\<lparr>fd_next := of_nat (Suc i)\<rparr>"] Suc.prems obtain d' where
    "fota_run (Suc k) ((FotaDriver_new img)\<lparr>fd_next := of_nat (Suc i)\<rparr>) = Inr (replicate k Sending @ [Done],
      map (\<lambda>j. reliable_request (chunk_packet img (fd_total_chunks (FotaDriver_new img)) j)) [Suc i..<Suc i + k] @
      [reliable_request (verify_packet img)], d')" "fd_next d' = fd_total_chunks d'" by auto
  moreover have "[i..<i + Suc k] = i # [Suc i..<Suc i + k]" by (simp add: upt_rec)
  ultimately show ?case
    using on_tx_done_chunk [OF assms(1) i Suc.prems(2)] Suc.prems(2) by (simp only: fota_run.simps(2) [of "Suc k"]) simp
qed

lemma concat_chunks:
  "0 < w \<Longrightarrow> concat (map (\<lambda>i. take w (drop (i * w) xs)) [0..<n]) = take (n * w) xs"
proof (induction n)
  case (Suc n)
  have "Suc n * w = n * w + w" by simp
  with Suc show ?case by (simp only: take_add upt_Suc map_append concat_append) simp
qed simp

text \<open>
  C23: (firmware transfer) For an image of less than four gibibytes, reporting one completed transmission
  per chunk and one more makes the driver post reliable requests whose packets are numbered in order,
  carry at most 200 bytes each and concatenate to the image, and then one packet with the image's
  length and CRC-32; the status is \<open>Sending\<close> until the last report and \<open>Done\<close> after it.
\<close>

theorem FotaDriver_transfer:
  assumes "length img < 2 ^ 32"
  shows "\<exists>chunks d'. fota_run (Suc ((length img + 199) div 200)) (FotaDriver_new img) =
      Inr (replicate ((length img + 199) div 200) Sending @ [Done],
        map reliable_request (chunks @ [PKT_VERIFY # le32 (of_nat (length img)) @ le32 (crc32_ref img)]), d') \<and>
    length chunks = (length img + 199) div 200 \<and> concat (map (drop 9) chunks) = img \<and>
    (\<forall>i<length chunks. take 9 (chunks ! i) = PKT_CHUNK # le32 (of_nat i) @ le32 (of_nat (length chunks)) \<and>
      length (chunks ! i) \<le> 209)"
proof -
  let ?n = "(length img + 199) div 200" and ?t = "fd_total_chunks (FotaDriver_new img)"
  let ?cs = "map (chunk_packet img ?t) [0..<?n]"
  have d: "FotaDriver_new img = (FotaDriver_new img)\<lparr>fd_next := of_nat 0\<rparr>" by (simp add: FotaDriver_new_def)
  obtain d' where run: "fota_run (Suc ?n) (FotaDriver_new img) = Inr (replicate ?n Sending @ [Done],
      map (\<lambda>j. reliable_request (chunk_packet img ?t j)) [0..<0 + ?n] @ [reliable_request (verify_packet img)], d')"
    using fota_run_from [OF assms _ d, of ?n] by auto
  have "of_nat (unat ?t) = ?t" by simp
  then have t: "?t = of_nat ?n" unfolding chunk_count [OF assms] by (rule sym)
  have dr: "drop 9 (chunk_packet img ?t i) = take 200 (drop (i * 200) img)" for i
    by (simp add: chunk_packet_def FOTA_CHUNK_BYTES_def)
  have "length img \<le> ?n * 200"
    using less_eq_div_iff_mult_less_eq [of 200 "Suc ?n" "length img + 199"] by simp
  then have "concat (map (drop 9) ?cs) = img"
    using concat_chunks [of 200 img ?n] by (simp add: dr comp_def del: upt_Suc)
  moreover have "take 9 (?cs ! i) = PKT_CHUNK # le32 (of_nat i) @ le32 (of_nat ?n) \<and> length (?cs ! i) \<le> 209" if "i < ?n" for i
    using that by (simp add: chunk_packet_def FOTA_CHUNK_BYTES_def t)
  moreover have "fota_run (Suc ?n) (FotaDriver_new img) = Inr (replicate ?n Sending @ [Done],
      map reliable_request (?cs @ [PKT_VERIFY # le32 (of_nat (length img)) @ le32 (crc32_ref img)]), d')"
    unfolding run by (simp add: verify_packet_def crc32_eq comp_def)
  ultimately show ?thesis by (intro exI [of _ ?cs] exI [of _ d']) simp
qed

theorem FotaDriver_transfer_witness:
  "\<exists>chunks d'. fota_run 3 (FotaDriver_new (replicate 201 7)) = Inr ([Sending, Sending, Done],
     map reliable_request (chunks @ [PKT_VERIFY # le32 201 @ le32 (crc32_ref (replicate 201 7))]), d') \<and>
   concat (map (drop 9) chunks) = replicate 201 7"
proof -
  have n: "(length (replicate 201 (7 :: u8)) + 199) div 200 = 2" "Suc 2 = 3" "length (replicate 201 (7 :: u8)) < 2 ^ 32"
    "of_nat (length (replicate 201 (7 :: u8))) = (201 :: u32)" unfolding length_replicate by simp_all
  have r: "replicate 2 Sending @ [Done] = [Sending, Sending, Done]" by (simp add: numeral_2_eq_2)
  from FotaDriver_transfer [OF n(3)] show ?thesis unfolding n(1,2,4) r by blast
qed

end
