(* ===== verification/PortSwitch.thy ===== *)
theory PortSwitch
  imports QxkSched
begin

text \<open>
  Context switching of the QXK ports: the stack-pointer table and \<open>qxk_schedule\<close>, which the ports share word
  for word, initial thread stacks and the exception handlers of \<open>ports/cortex-m\<close> (\<open>lib.rs\<close>, \<open>context.rs\<close>)
  and \<open>ports/riscv\<close> (\<open>lib.rs\<close>, \<open>context.rs\<close>), built with their feature \<open>hw\<close>. Memory is a function from
  aligned byte addresses to words, a group of registers the list of their values in the order of the source.
\<close>

section \<open>Memory\<close>

type_synonym mem = "u32 \<Rightarrow> u32"

fun store_words :: "u32 \<Rightarrow> u32 list \<Rightarrow> mem \<Rightarrow> mem" where
  "store_words a [] m = m"
| "store_words a (w # ws) m = store_words (a + 4) ws (m(a := w))"

definition load_words :: "nat \<Rightarrow> u32 \<Rightarrow> mem \<Rightarrow> u32 list" where
  "load_words n a m = map (\<lambda>i. m (a + of_nat (4 * i))) [0..<n]"

lemma of_nat_u32_inj: "x < 2 ^ 32 \<Longrightarrow> y < 2 ^ 32 \<Longrightarrow> (of_nat x :: u32) = of_nat y \<longleftrightarrow> x = y"
  by (auto simp: word_unat_eq_iff unsigned_of_nat take_bit_nat_eq_self)

lemma store_words_other:
  "(\<And>i. i < length ws \<Longrightarrow> x \<noteq> a + of_nat (4 * i)) \<Longrightarrow> store_words a ws m x = m x"
proof (induction ws arbitrary: a m)
  case (Cons w ws)
  have "x \<noteq> a" using Cons.prems [of 0] by simp
  moreover have "store_words (a + 4) ws (m(a := w)) x = (m(a := w)) x"
  proof (rule Cons.IH)
    fix i assume "i < length ws"
    then show "x \<noteq> a + 4 + of_nat (4 * i)" using Cons.prems [of "Suc i"] by (simp add: algebra_simps)
  qed
  ultimately show ?case by simp
qed simp

lemma store_words_nth:
  "4 * length ws < 2 ^ 32 \<Longrightarrow> i < length ws \<Longrightarrow> store_words a ws m (a + of_nat (4 * i)) = ws ! i"
proof (induction ws arbitrary: a m i)
  case (Cons w ws)
  show ?case
  proof (cases i)
    case 0
    have "a \<noteq> a + 4 + of_nat (4 * j)" if "j < length ws" for j
    proof
      assume "a = a + 4 + of_nat (4 * j)"
      then have "(of_nat (4 + 4 * j) :: u32) = of_nat 0" by (simp add: algebra_simps)
      moreover have "4 + 4 * j < 2 ^ 32" using Cons.prems(1) that by simp
      ultimately show False using of_nat_u32_inj [of "4 + 4 * j" 0] by (simp only:)
    qed
    then have "store_words (a + 4) ws (m(a := w)) a = w" by (subst store_words_other) auto
    with 0 show ?thesis by simp
  next
    case (Suc j)
    then have "a + of_nat (4 * i) = a + 4 + of_nat (4 * j)" by (simp add: algebra_simps)
    moreover have "store_words (a + 4) ws (m(a := w)) (a + 4 + of_nat (4 * j)) = ws ! j"
      using Cons.prems Suc by (intro Cons.IH) simp_all
    ultimately show ?thesis by (simp only: Suc nth_Cons_Suc store_words.simps)
  qed
qed simp

lemma load_store: "4 * length ws < 2 ^ 32 \<Longrightarrow> load_words (length ws) a (store_words a ws m) = ws"
  by (rule nth_equalityI) (simp_all add: load_words_def store_words_nth [simplified])

text \<open>Loading above or below a stored block.\<close>

lemma load_store_apart:
  assumes "b = a + of_nat d" "d + 4 * n \<le> 2 ^ 32" "4 * length ws \<le> d"
  shows "load_words n b (store_words a ws m) = load_words n b m"
proof -
  have "store_words a ws m (b + of_nat (4 * i)) = m (b + of_nat (4 * i))" if "i < n" for i
  proof (rule store_words_other)
    fix j assume "j < length ws"
    with assms(2,3) that have "d + 4 * i < 2 ^ 32" "4 * j < d + 4 * i" by simp_all
    then have "(of_nat (d + 4 * i) :: u32) \<noteq> of_nat (4 * j)" using of_nat_u32_inj [of "d + 4 * i" "4 * j"] by simp
    then show "b + of_nat (4 * i) \<noteq> a + of_nat (4 * j)" by (simp add: assms(1) add.assoc)
  qed
  then show ?thesis by (simp add: load_words_def)
qed

section \<open>The stack-pointer table\<close>

definition MAX_THREADS :: nat where "MAX_THREADS = 32"

text \<open>The statics of a port; \<open>KERNEL_PTR\<close> is the scheduler of the kernel it points to.\<close>

record switch_state =
  CURRENT_THREAD_SP :: u32
  NEXT_THREAD_SP :: u32
  KERNEL_PTR :: "QxkScheduler option"
  THREAD_SPS :: "u32 list"

definition switch_reset :: switch_state where
  "switch_reset = \<lparr>CURRENT_THREAD_SP = 0, NEXT_THREAD_SP = 0, KERNEL_PTR = None, THREAD_SPS = replicate MAX_THREADS 0\<rparr>"

definition register_thread_sp :: "u8 \<Rightarrow> u32 \<Rightarrow> switch_state \<Rightarrow> switch_state" where
  "register_thread_sp tid sp st =
     (let i = unat tid in
      if i < MAX_THREADS
      then let st1 = st\<lparr>THREAD_SPS := (THREAD_SPS st)[i := sp]\<rparr>
           in if CURRENT_THREAD_SP st1 = 0 then st1\<lparr>CURRENT_THREAD_SP := sp\<rparr> else st1
      else st)"

definition qxk_schedule :: "switch_state \<Rightarrow> switch_state" where
  "qxk_schedule st = (case KERNEL_PTR st of
       None \<Rightarrow> st
     | Some sched \<Rightarrow>
         let (next_mode, sched1) = QxkScheduler_plan_next sched;
             st1 = st\<lparr>KERNEL_PTR := Some (QxkScheduler_set_active next_mode sched1)\<rparr>
         in case next_mode of
              ExtendedThreadMode tid _ \<Rightarrow>
                (if unat tid < MAX_THREADS then st1\<lparr>NEXT_THREAD_SP := THREAD_SPS st ! unat tid\<rparr> else st1)
            | _ \<Rightarrow> st1)"

text \<open>The stack pointer a switch goes to: the registered one of a planned thread, otherwise the previous target.\<close>

definition switch_target :: "switch_state \<Rightarrow> u32" where
  "switch_target st = NEXT_THREAD_SP (qxk_schedule st)"

lemma qxk_schedule_keeps [simp]: "THREAD_SPS (qxk_schedule st) = THREAD_SPS st"
  by (simp add: qxk_schedule_def Let_def split: option.splits prod.splits ScheduleMode.splits)

lemma switch_target_thread:
  assumes "KERNEL_PTR st = Some sched" "fst (QxkScheduler_plan_next sched) = ExtendedThreadMode tid prio" "unat tid < MAX_THREADS"
  shows "switch_target st = THREAD_SPS st ! unat tid"
  using assms by (cases "QxkScheduler_plan_next sched") (simp add: switch_target_def qxk_schedule_def)

section \<open>Cortex-M\<close>

subsection \<open>Initial stacks\<close>

record CmContextFrame =
  cf_r0 :: u32
  cf_r1 :: u32
  cf_r2 :: u32
  cf_r3 :: u32
  cf_r12 :: u32
  cf_lr :: u32
  cf_pc :: u32
  cf_xpsr :: u32

definition CmContextFrame_new :: "u32 \<Rightarrow> u32 \<Rightarrow> CmContextFrame" where
  "CmContextFrame_new entry arg = \<lparr>cf_r0 = arg, cf_r1 = 0, cf_r2 = 0, cf_r3 = 0, cf_r12 = 0,
     cf_lr = 0xFFFFFFFF, cf_pc = entry, cf_xpsr = 0x01000000\<rparr>"

text \<open>The layout of the frame in memory, lowest address first.\<close>

definition cm_frame_words :: "CmContextFrame \<Rightarrow> u32 list" where
  "cm_frame_words f = [cf_r0 f, cf_r1 f, cf_r2 f, cf_r3 f, cf_r12 f, cf_lr f, cf_pc f, cf_xpsr f]"

text \<open>The storage is given by its address and length; the subtractions panic on overflow in a checked build.\<close>

definition CmThreadStack_init :: "u32 \<Rightarrow> nat \<Rightarrow> u32 \<Rightarrow> u32 \<Rightarrow> mem \<Rightarrow> (u32 \<times> mem) result" where
  "CmThreadStack_init base len entry arg m =
     (let top = base + of_nat len in
      rbind (ensure Panic (32 \<le> unat top)) (\<lambda>_.
      let frame_start = and (top - 32) (not 7);
          m1 = store_words frame_start (cm_frame_words (CmContextFrame_new entry arg)) m in
      rbind (ensure Panic (8 * 4 \<le> unat frame_start)) (\<lambda>_.
      let sw_save_start = frame_start - 8 * 4;
          m2 = store_words sw_save_start (replicate 8 0) m1
      in Inr (sw_save_start, m2))))"

subsection \<open>PendSV\<close>

text \<open>
  The registers an exception entry stacks (\<open>r0\<close>-\<open>r3\<close>, \<open>r12\<close>, \<open>lr\<close>, \<open>pc\<close>, \<open>xpsr\<close>) and the callee-saved ones
  the handler saves, with the process stack pointer.
\<close>

record cm_cpu =
  cm_psp :: u32
  cm_stacked :: "u32 list"
  cm_r4_r11 :: "u32 list"

text \<open>
  The processor with \<open>STKALIGN\<close> set, as it is by default: an entry aligns the frame to eight bytes, skipping a word if the stack pointer
  is not a multiple of eight, and notes that in bit 9 of the stacked \<open>xpsr\<close>, which is otherwise zero; the return skips the word again.
\<close>

definition cm_frame :: "cm_cpu \<Rightarrow> u32" where
  "cm_frame c = and (cm_psp c - 32) (not 4)"

definition cm_entry_words :: "cm_cpu \<Rightarrow> u32 list" where
  "cm_entry_words c = (cm_stacked c)[7 := or (and (cm_stacked c ! 7) (not 0x200)) (if bit (cm_psp c) 2 then 0x200 else 0)]"

definition cm_exception_entry :: "cm_cpu \<times> mem \<Rightarrow> cm_cpu \<times> mem" where
  "cm_exception_entry = (\<lambda>(c, m). (c\<lparr>cm_psp := cm_frame c\<rparr>, store_words (cm_frame c) (cm_entry_words c) m))"

definition cm_exception_return :: "cm_cpu \<times> mem \<Rightarrow> cm_cpu \<times> mem" where
  "cm_exception_return = (\<lambda>(c, m).
     let ws = load_words 8 (cm_psp c) m
     in (c\<lparr>cm_psp := or (cm_psp c + 32) (if bit (ws ! 7) 9 then 4 else 0), cm_stacked := ws[7 := and (ws ! 7) (not 0x200)]\<rparr>, m))"

definition PendSV_Handler :: "cm_cpu \<times> mem \<times> switch_state \<Rightarrow> cm_cpu \<times> mem \<times> switch_state" where
  "PendSV_Handler = (\<lambda>(c, m, st).
     let r0 = cm_psp c - 32;
         m1 = store_words r0 (cm_r4_r11 c) m;
         st1 = qxk_schedule (st\<lparr>CURRENT_THREAD_SP := r0\<rparr>);
         r0' = NEXT_THREAD_SP st1
     in (c\<lparr>cm_r4_r11 := load_words 8 r0' m1, cm_psp := r0' + 32\<rparr>, m1, st1\<lparr>CURRENT_THREAD_SP := r0'\<rparr>))"

text \<open>A context switch: the exception is taken, the handler runs and returns.\<close>

definition cm_switch :: "cm_cpu \<times> mem \<times> switch_state \<Rightarrow> cm_cpu \<times> mem \<times> switch_state" where
  "cm_switch = (\<lambda>(c, m, st).
     let (c1, m1) = cm_exception_entry (c, m);
         (c2, m2, st2) = PendSV_Handler (c1, m1, st);
         (c3, m3) = cm_exception_return (c2, m2)
     in (c3, m3, st2))"

text \<open>The immediate of an \<open>SVC\<close> instruction before the stacked program counter, and the request to pend PendSV.\<close>

definition rust_svc_handler :: "(u32 \<Rightarrow> u16) \<Rightarrow> CmContextFrame \<Rightarrow> bool result" where
  "rust_svc_handler code frame =
     rbind (ensure Panic (2 \<le> unat (cf_pc frame))) (\<lambda>_.
     let svc_instr = code (cf_pc frame - 2);
         svc_num = ucast (and svc_instr 0xFF) :: u8
     in Inr (svc_num = 0))"

section \<open>RISC-V\<close>

subsection \<open>Initial stacks\<close>

text \<open>The frame of a thread: \<open>ra\<close>, \<open>t0\<close>-\<open>t2\<close>, \<open>a0\<close>-\<open>a7\<close>, \<open>t3\<close>-\<open>t6\<close>, \<open>mepc\<close>, \<open>mstatus\<close>, lowest address first.\<close>

definition RvContextFrame_new :: "u32 \<Rightarrow> u32 \<Rightarrow> u32 list" where
  "RvContextFrame_new entry arg =
     [0xFFFFFFFF, 0, 0, 0, arg, 0, 0, 0, 0, 0, 0, 0, 0, 0, 0, 0, entry, 0x1880]"

definition RvThreadStack_init :: "u32 \<Rightarrow> nat \<Rightarrow> u32 \<Rightarrow> u32 \<Rightarrow> mem \<Rightarrow> (u32 \<times> mem) result" where
  "RvThreadStack_init base len entry arg m =
     (let top = base + of_nat len in
      rbind (ensure Panic (72 \<le> unat top)) (\<lambda>_.
      let frame_start = and (top - 72) (not 15);
          m1 = store_words frame_start (RvContextFrame_new entry arg) m in
      rbind (ensure Panic (12 * 4 \<le> unat frame_start)) (\<lambda>_.
      let sw_save_start = frame_start - 12 * 4;
          m2 = store_words sw_save_start (replicate 12 0) m1
      in Inr (sw_save_start, m2))))"

subsection \<open>The trap handler\<close>

text \<open>
  The caller-saved registers in the order of the frame, \<open>s0\<close>-\<open>s11\<close>, and the machine registers. \<open>mepc\<close> is
  where the trap was taken and where \<open>mret\<close> goes.
\<close>

record rv_cpu =
  rv_sp :: u32
  rv_caller :: "u32 list"
  rv_callee :: "u32 list"
  rv_mepc :: u32
  rv_mstatus :: u32
  rv_mcause :: u32

text \<open>
  The end of the handler, from label 1: the registers are loaded from the frame, then \<open>t0\<close> is used again to
  move the saved \<open>mepc\<close> and \<open>mstatus\<close> into the machine registers.
\<close>

definition trap_restore :: "rv_cpu \<Rightarrow> mem \<Rightarrow> rv_cpu" where
  "trap_restore c m =
     (let frame = load_words 18 (rv_sp c) m;
          t0_mepc = frame ! 16;
          t0_mstatus = frame ! 17
      in c\<lparr>rv_caller := (take 16 frame)[1 := t0_mstatus], rv_mepc := t0_mepc, rv_mstatus := t0_mstatus,
           rv_sp := rv_sp c + 72\<rparr>)"

definition TrapHandler :: "rv_cpu \<times> mem \<times> switch_state \<Rightarrow> rv_cpu \<times> mem \<times> switch_state" where
  "TrapHandler = (\<lambda>(c, m, st).
     let sp1 = rv_sp c - 72;
         m1 = store_words sp1 (rv_caller c @ [rv_mepc c, rv_mstatus c]) m
     in if rv_mcause c \<noteq> 0x80000003
        then (trap_restore (c\<lparr>rv_sp := sp1\<rparr>) m1, m1, st)
        else let m2 = m1(0x02000000 := 0);
                 sp2 = sp1 - 48;
                 m3 = store_words sp2 (rv_callee c) m2;
                 st1 = qxk_schedule (st\<lparr>CURRENT_THREAD_SP := sp2\<rparr>);
                 sp3 = NEXT_THREAD_SP st1;
                 st2 = st1\<lparr>CURRENT_THREAD_SP := sp3\<rparr>
             in (trap_restore (c\<lparr>rv_callee := load_words 12 sp3 m3, rv_sp := sp3 + 48\<rparr>) m3, m3, st2))"

section \<open>Switches\<close>

lemma switch_target_current [simp]: "switch_target (st\<lparr>CURRENT_THREAD_SP := x\<rparr>) = switch_target st"
  by (simp add: switch_target_def qxk_schedule_def Let_def split: option.splits prod.splits ScheduleMode.splits)

lemma next_schedule_current [simp]:
  "NEXT_THREAD_SP (qxk_schedule (st\<lparr>CURRENT_THREAD_SP := x\<rparr>)) = switch_target st"
  using switch_target_current [where st = st and x = x] by (simp only: switch_target_def)

text \<open>An interrupted program that nothing disturbs is resumed with its registers and its stack pointer, aligned or not.\<close>

lemma bit_4_iff: "bit (4 :: u32) n \<longleftrightarrow> n = 2"
proof -
  have "(4 :: u32) = push_bit 2 1" by simp
  then show ?thesis by (auto simp only: bit_simps) (auto simp: bit_simps)
qed

lemmas stack_bits = bit_and_iff bit_or_iff bit_not_iff possible_bit_word bit_4_iff

lemma clear_bit_2: "and x (not 4) = (if bit x 2 then x - 4 else (x :: u32))"
proof (cases "bit x 2")
  case True
  then have "x - 4 = and x (not 4)" by (intro disjunctive_diff) (simp only: bit_4_iff)
  with True show ?thesis by simp
next
  case False
  then have "and x (not 4) = x" by (intro bit_word_eqI) (auto simp only: stack_bits)
  with False show ?thesis by simp
qed

lemma bit_2_below: "bit (v - 32) 2 = bit (v :: u32) 2"
proof -
  have "bit (uint v - 32) 2 = bit (uint v) 2"
    by (simp add: bit_iff_odd) presburger
  moreover have "uint (v - 32) = take_bit 32 (uint v - 32)" by (simp add: uint_word_ariths take_bit_eq_mod)
  ultimately have "bit (uint (v - 32)) 2 = bit (uint v) 2" by (simp add: bit_take_bit_iff)
  then show ?thesis by (simp add: bit_uint_iff)
qed

lemma cm_exception_round_trip:
  assumes "length (cm_stacked c) = 8" "\<not> bit (cm_stacked c ! 7) 9" "cm_exception_entry (c, m) = (c1, m1)"
  shows "cm_exception_return (c1, m1) = (c, m1)"
proof -
  have "and (cm_psp c - 32) (not 4) + 32 = and (cm_psp c) (not 4)"
    unfolding clear_bit_2 bit_2_below by simp
  moreover have "or (and v (not 4)) (if bit v 2 then 4 else 0) = v" for v :: u32
  proof (rule bit_word_eqI)
    fix n assume "n < LENGTH(32)"
    then show "bit (or (and v (not 4)) (if bit v 2 then 4 else 0)) n = bit v n"
      by (cases "bit v 2") (auto simp only: if_True if_False or.right_neutral stack_bits)
  qed
  ultimately have sp: "or (cm_frame c + 32) (if bit (cm_psp c) 2 then 4 else 0) = cm_psp c"
    by (simp add: cm_frame_def)
  have l: "load_words 8 (cm_frame c) (store_words (cm_frame c) (cm_entry_words c) m) = cm_entry_words c"
    using load_store [of "cm_entry_words c" "cm_frame c" m] assms(1) by (simp add: cm_entry_words_def)
  have nine: "bit (0x200 :: u32) n \<longleftrightarrow> n = 9" for n
  proof -
    have "(0x200 :: u32) = push_bit 9 1" by simp
    then show ?thesis by (auto simp only: bit_simps) (auto simp: bit_simps)
  qed
  let ?x = "cm_stacked c ! 7"
  have e: "cm_entry_words c ! 7 = or (and ?x (not 0x200)) (if bit (cm_psp c) 2 then 0x200 else 0)"
    using assms(1) by (simp add: cm_entry_words_def)
  have w: "bit (cm_entry_words c ! 7) 9 = bit (cm_psp c) 2"
    unfolding e by (cases "bit (cm_psp c) 2") (simp_all only: if_True if_False or.right_neutral stack_bits nine, simp_all)
  have "and (cm_entry_words c ! 7) (not 0x200) = ?x"
  proof (rule bit_word_eqI)
    fix n assume "n < LENGTH(32)"
    then show "bit (and (cm_entry_words c ! 7) (not 0x200)) n = bit ?x n"
      unfolding e using assms(2) by (cases "bit (cm_psp c) 2") (auto simp only: if_True if_False or.right_neutral stack_bits nine)
  qed
  then have "(cm_entry_words c)[7 := and (cm_entry_words c ! 7) (not 0x200)] = cm_stacked c"
    using assms(1) by (simp add: cm_entry_words_def)
  with assms(3) sp l w show ?thesis
    by (auto simp: cm_exception_entry_def cm_exception_return_def Let_def)
qed

text \<open>The memory after the suspended thread's registers have been pushed.\<close>

definition cm_pushed :: "cm_cpu \<Rightarrow> mem \<Rightarrow> mem" where
  "cm_pushed c m = store_words (cm_frame c - 32) (cm_r4_r11 c) (store_words (cm_frame c) (cm_entry_words c) m)"

text \<open>The stack pointer after the sixteen words of a suspended context at \<open>a\<close> have been taken off the stack.\<close>

definition cm_popped :: "mem \<Rightarrow> u32 \<Rightarrow> u32" where
  "cm_popped m a = or (a + 64) (if bit (m (a + 60)) 9 then 4 else 0)"

lemma cm_switch_cpu:
  assumes "cm_switch (c, m, st) = (c', m', st')"
  shows "c' = \<lparr>cm_psp = cm_popped m' (switch_target st),
      cm_stacked = (load_words 8 (switch_target st + 32) m')[7 := and (m' (switch_target st + 60)) (not 0x200)],
      cm_r4_r11 = load_words 8 (switch_target st) m'\<rparr>"
    "m' = cm_pushed c m" "THREAD_SPS st' = THREAD_SPS st"
proof -
  have "load_words 8 (switch_target st + 32) x ! 7 = x (switch_target st + 60)" for x
    by (simp add: load_words_def add.commute)
  note w7 = this
  show "c' = \<lparr>cm_psp = cm_popped m' (switch_target st),
      cm_stacked = (load_words 8 (switch_target st + 32) m')[7 := and (m' (switch_target st + 60)) (not 0x200)],
      cm_r4_r11 = load_words 8 (switch_target st) m'\<rparr>" "m' = cm_pushed c m" "THREAD_SPS st' = THREAD_SPS st"
    using assms w7
    by (cases c; auto simp: cm_switch_def cm_exception_entry_def PendSV_Handler_def cm_exception_return_def cm_pushed_def cm_popped_def
        Let_def add.commute [of 64])+
qed

definition rv_pushed :: "rv_cpu \<Rightarrow> mem \<Rightarrow> mem" where
  "rv_pushed c m = store_words (rv_sp c - 120) (rv_callee c)
     ((store_words (rv_sp c - 72) (rv_caller c @ [rv_mepc c, rv_mstatus c]) m)(0x02000000 := 0))"

lemma trap_switch_cpu:
  assumes "TrapHandler (c, m, st) = (c', m', st')" "rv_mcause c = 0x80000003"
  shows "rv_sp c' = switch_target st + 120" "rv_callee c' = load_words 12 (switch_target st) (rv_pushed c m)"
    "rv_mepc c' = load_words 18 (switch_target st + 48) (rv_pushed c m) ! 16"
    "rv_caller c' = (take 16 (load_words 18 (switch_target st + 48) (rv_pushed c m)))
       [1 := load_words 18 (switch_target st + 48) (rv_pushed c m) ! 17]"
    "m' = rv_pushed c m" "THREAD_SPS st' = THREAD_SPS st"
  using assms by (auto simp: TrapHandler_def trap_restore_def rv_pushed_def Let_def)

end
