(* ===== verification/PortSwitchSpec.thy ===== *)
theory PortSwitchSpec
  imports PortSwitch
begin

text \<open>
  What context switching of the ports does: a new thread starts at its entry point with its argument, on a
  stack inside its storage; but no switch remembers where it suspended a thread, and the RISC-V trap
  handler does not restore every register.
\<close>

section \<open>Memory of a suspended context\<close>

text \<open>Two blocks of memory, given by their addresses and sizes in bytes, that do not overlap on the ring of addresses.\<close>

definition apart :: "u32 \<Rightarrow> nat \<Rightarrow> u32 \<Rightarrow> nat \<Rightarrow> bool" where
  "apart a n b k \<longleftrightarrow> k \<le> unat (a - b) \<and> n \<le> unat (b - a)"

lemma ring_distance: "a \<noteq> (b :: u32) \<Longrightarrow> unat (a - b) = 4294967296 - unat (b - a)"
  using u32_bound [of a] u32_bound [of b] by (auto simp: unat_sub_if' word_unat_eq_iff)

lemma load_apart:
  assumes "apart a (4 * length ws) b (4 * n)" "0 < n"
  shows "load_words n b (store_words a ws m) = load_words n b m"
proof (cases "ws = []")
  case False
  let ?d = "unat (b - a)"
  have ne: "b \<noteq> a" using assms by (auto simp: apart_def)
  note ring_distance [OF ne [symmetric]]
  with assms have "?d + 4 * n \<le> 2 ^ 32" "4 * length ws \<le> ?d"
    using u32_bound [of "b - a"] by (auto simp: apart_def)
  moreover have "b = a + of_nat ?d" by simp
  ultimately show ?thesis by (intro load_store_apart) simp_all
qed simp

section \<open>Initial stacks\<close>

lemma store_load_stack:
  assumes "length ws < 2 ^ 20" "length vs < 2 ^ 20" "b = a + of_nat (4 * length vs)"
  shows "load_words (length vs) a (store_words a vs (store_words b ws m)) = vs"
    "load_words (length ws) b (store_words a vs (store_words b ws m)) = ws"
proof -
  show "load_words (length vs) a (store_words a vs (store_words b ws m)) = vs" using assms by (intro load_store) simp
  have "load_words (length ws) b (store_words a vs (store_words b ws m)) = load_words (length ws) b (store_words b ws m)"
    by (rule load_store_apart [OF assms(3)]) (use assms in simp_all)
  also have "\<dots> = ws" using assms by (intro load_store) simp
  finally show "load_words (length ws) b (store_words a vs (store_words b ws m)) = ws" .
qed

lemma cm_init_stack:
  assumes "CmThreadStack_init base len entry arg m = Inr (sp, m')"
  shows "load_words 8 sp m' = replicate 8 0" "load_words 8 (sp + 32) m' = cm_frame_words (CmContextFrame_new entry arg)"
proof -
  let ?f = "cm_frame_words (CmContextFrame_new entry arg)" and ?fs = "and (base + of_nat len - 32) (not 7) :: u32"
  have m: "m' = store_words sp (replicate 8 0) (store_words (sp + 32) ?f m)"
    using assms by (auto simp: CmThreadStack_init_def Let_def res_simps)
  have "length ?f = 8" by (simp add: cm_frame_words_def)
  with store_load_stack [of ?f "replicate 8 0" "sp + 32" sp m]
  show "load_words 8 sp m' = replicate 8 0" "load_words 8 (sp + 32) m' = ?f" by (simp_all add: m)
qed

lemma rv_init_stack:
  assumes "RvThreadStack_init base len entry arg m = Inr (sp, m')"
  shows "load_words 12 sp m' = replicate 12 0" "load_words 18 (sp + 48) m' = RvContextFrame_new entry arg"
proof -
  let ?f = "RvContextFrame_new entry arg"
  have m: "m' = store_words sp (replicate 12 0) (store_words (sp + 48) ?f m)"
    using assms by (auto simp: RvThreadStack_init_def Let_def res_simps)
  have "length ?f = 18" by (simp add: RvContextFrame_new_def)
  with store_load_stack [of ?f "replicate 12 0" "sp + 48" sp m]
  show "load_words 12 sp m' = replicate 12 0" "load_words 18 (sp + 48) m' = ?f" by (simp_all add: m)
qed

lemma apart_upper: "apart a (n + i) b k \<Longrightarrow> 0 < n \<Longrightarrow> apart (a + of_nat i) n b k"
proof -
  assume a: "apart a (n + i) b k" "0 < n"
  let ?d = "unat (b - a)"
  have d: "n + i \<le> ?d" "?d < 4294967296" using a(1) u32_bound by (simp_all add: apart_def)
  then have i: "unat (of_nat i :: u32) = i" by (simp add: unsigned_of_nat take_bit_nat_eq_self)
  have "unat (b - (a + of_nat i)) = ?d - i"
    using d i by (simp add: diff_diff_eq [symmetric] unat_sub word_le_nat_alt)
  moreover have "unat (a - b) \<le> unat (a + of_nat i - b)"
  proof -
    have "a \<noteq> b" using d a(2) by auto
    then have "unat (a - b) + unat (of_nat i :: u32) < 2 ^ LENGTH(32)"
      using ring_distance [of a b] d i a(2) by simp
    then have "unat (a - b + of_nat i) = unat (a - b) + unat (of_nat i :: u32)"
      by (rule unat_add_lem [THEN iffD1])
    then show ?thesis by (simp add: algebra_simps)
  qed
  ultimately show ?thesis using a(1) d by (simp add: apart_def)
qed

text \<open>A block that is apart from the memory a switch pushes to is not changed by it.\<close>

lemma cm_pushed_apart:
  assumes "apart (cm_frame c - 32) 64 b (4 * n)" "0 < n" "length (cm_stacked c) = 8" "length (cm_r4_r11 c) = 8"
  shows "load_words n b (cm_pushed c m) = load_words n b m"
proof -
  have "apart (cm_frame c) 32 b (4 * n)"
    using apart_upper [of "cm_frame c - 32" 32 32 b "4 * n"] assms(1) by simp
  moreover have "apart (cm_frame c - 32) 32 b (4 * n)" using assms(1) by (simp add: apart_def)
  moreover have "length (cm_entry_words c) = 8" using assms(3) by (simp add: cm_entry_words_def)
  ultimately show ?thesis using assms(2,4) by (simp add: cm_pushed_def load_apart)
qed

lemma load_words_add: "load_words (n + k) a m = load_words n a m @ load_words k (a + of_nat (4 * n)) m"
  by (rule nth_equalityI) (auto simp: load_words_def nth_append algebra_simps)

lemma load_16: "load_words 16 a m = load_words 16 a m' \<Longrightarrow>
    load_words 8 a m = load_words 8 a m' \<and> load_words 8 (a + 32) m = load_words 8 (a + 32) m'"
proof -
  have "length (load_words n b x) = n" for n b x by (simp add: load_words_def)
  then show "load_words 16 a m = load_words 16 a m' \<Longrightarrow> ?thesis"
    using load_words_add [of 8 8 a m] load_words_add [of 8 8 a m'] by simp
qed

section \<open>Switches forget where they suspend a thread\<close>

text \<open>
  Runs of a port: threads, interrupt handlers and the kernel change the processor, memory and the
  scheduler in any way, and context switches happen in between. Stack pointers are registered before.
\<close>

inductive switching ::
    "('c \<times> mem \<times> switch_state \<Rightarrow> 'c \<times> mem \<times> switch_state) \<Rightarrow> 'c \<times> mem \<times> switch_state \<Rightarrow> 'c \<times> mem \<times> switch_state \<Rightarrow> bool"
  for sw where
  runs: "switching sw (c, m, st) (c', m', st\<lparr>KERNEL_PTR := k\<rparr>)"
| switches: "sw (c, m, st) = (c', m', st') \<Longrightarrow> switching sw (c, m, st) (c', m', st')"

inductive_cases switchingE: "switching sw (c, m, st) (c', m', st')"

locale port_switch =
  fixes sw :: "'c \<times> mem \<times> switch_state \<Rightarrow> 'c \<times> mem \<times> switch_state"
    and sp :: "'c \<Rightarrow> u32" and popped :: "mem \<Rightarrow> u32 \<Rightarrow> u32" and regs :: "'c \<Rightarrow> u32 list" and n :: nat
  assumes sp_target: "sw (c, m, st) = (c', m', st') \<Longrightarrow> sp c' = popped m' (switch_target st)"
    and regs_target: "sw (c, m, st) = (c', m', st') \<Longrightarrow> regs c' = load_words n (switch_target st) m'"
    and table_kept: "sw (c, m, st) = (c', m', st') \<Longrightarrow> THREAD_SPS st' = THREAD_SPS st"
begin

lemma runs_keep_table:
  assumes "(switching sw)\<^sup>*\<^sup>* (c, m, st) (c', m', st')"
  shows "THREAD_SPS st' = THREAD_SPS st"
  using assms
proof (induction "(c', m', st')" arbitrary: c' m' st' rule: rtranclp_induct)
  case (step y)
  obtain c1 m1 st1 where y: "y = (c1, m1, st1)" by (cases y)
  have "THREAD_SPS st' = THREAD_SPS st1"
    using step.hyps(2) unfolding y by (auto elim!: switchingE dest: table_kept)
  with step.hyps(3) [OF y] show ?case by simp
qed simp

lemma resumes_at_registered:
  assumes "(switching sw)\<^sup>*\<^sup>* (c0, m0, st0) (c, m, st)"
    and "KERNEL_PTR st = Some sched" "fst (QxkScheduler_plan_next sched) = ExtendedThreadMode tid prio" "unat tid < MAX_THREADS"
  shows "case sw (c, m, st) of (c', m', st') \<Rightarrow>
    sp c' = popped m' (THREAD_SPS st0 ! unat tid) \<and> regs c' = load_words n (THREAD_SPS st0 ! unat tid) m'"
proof -
  obtain c' m' st' where s: "sw (c, m, st) = (c', m', st')" by (cases "sw (c, m, st)")
  with sp_target [OF s] regs_target [OF s] switch_target_thread [OF assms(2-4)] runs_keep_table [OF assms(1)]
  show ?thesis by simp
qed

end

text \<open>A switch of the RISC-V port: the software interrupt is taken.\<close>

definition rv_switch :: "rv_cpu \<times> mem \<times> switch_state \<Rightarrow> rv_cpu \<times> mem \<times> switch_state" where
  "rv_switch = (\<lambda>(c, m, st). TrapHandler (c\<lparr>rv_mcause := 0x80000003\<rparr>, m, st))"

interpretation cm: port_switch cm_switch cm_psp cm_popped cm_r4_r11 8
proof
  fix c m st c' m' st'
  assume s: "cm_switch (c, m, st) = (c', m', st')"
  show "cm_psp c' = cm_popped m' (switch_target st)" "cm_r4_r11 c' = load_words 8 (switch_target st) m'"
    "THREAD_SPS st' = THREAD_SPS st"
    by (simp_all add: cm_switch_cpu(1) [OF s] cm_switch_cpu(3) [OF s])
qed

interpretation rv: port_switch rv_switch rv_sp "\<lambda>m a. a + 120" rv_callee 12
proof
  fix c m st c' m' st'
  assume "rv_switch (c, m, st) = (c', m', st')"
  then have s: "TrapHandler (c\<lparr>rv_mcause := 0x80000003\<rparr>, m, st) = (c', m', st')" by (simp add: rv_switch_def)
  show "rv_sp c' = switch_target st + 120" "rv_callee c' = load_words 12 (switch_target st) m'" "THREAD_SPS st' = THREAD_SPS st"
    using trap_switch_cpu [OF s] by simp_all
qed

section \<open>Properties\<close>

text \<open>
  C27: (a new thread starts) On Cortex-M, after ThreadStack::init on any storage and the registration of its
  result, a context switch to the thread starts it at its entry point with its argument in r0, the fault
  address in lr, the Thumb bit set and zeroed registers, on the stack directly below the aligned top of
  its storage, wherever the interrupted thread has its stack, if the two do not overlap.
\<close>

theorem cm_thread_starts:
  assumes "CmThreadStack_init base len entry arg m = Inr (sp, m1)"
    and "KERNEL_PTR st = Some sched" "fst (QxkScheduler_plan_next sched) = ExtendedThreadMode tid prio"
      "unat tid < MAX_THREADS" "length (THREAD_SPS st) = MAX_THREADS"
    and "apart (cm_frame c - 32) 64 sp 64" "length (cm_stacked c) = 8" "length (cm_r4_r11 c) = 8"
  shows "fst (cm_switch (c, m1, register_thread_sp tid sp st)) =
    \<lparr>cm_psp = sp + 64, cm_stacked = [arg, 0, 0, 0, 0, 0xFFFFFFFF, entry, 0x01000000], cm_r4_r11 = replicate 8 0\<rparr>"
proof -
  let ?st = "register_thread_sp tid sp st"
  have "switch_target ?st = THREAD_SPS ?st ! unat tid"
    using assms(2-4) by (intro switch_target_thread) (simp_all add: register_thread_sp_def Let_def)
  then have t: "switch_target ?st = sp" using assms(4,5) by (simp add: register_thread_sp_def Let_def)
  have "load_words 16 sp (cm_pushed c m1) = load_words 16 sp m1" using assms(6-8) by (intro cm_pushed_apart) simp_all
  from load_16 [OF this] cm_init_stack [OF assms(1)]
  have l: "load_words 8 sp (cm_pushed c m1) = replicate 8 0"
    "load_words 8 (sp + 32) (cm_pushed c m1) = [arg, 0, 0, 0, 0, 0xFFFFFFFF, entry, 0x01000000]"
    by (simp_all add: cm_frame_words_def CmContextFrame_new_def)
  obtain c' m' st' where s: "cm_switch (c, m1, ?st) = (c', m', st')" by (cases "cm_switch (c, m1, ?st)")
  have "m' = cm_pushed c m1" by (rule cm_switch_cpu(2) [OF s])
  moreover have "load_words 8 (sp + 32) (cm_pushed c m1) ! 7 = cm_pushed c m1 (sp + 60)" by (simp add: load_words_def add.commute)
  then have "cm_pushed c m1 (sp + 60) = 0x01000000" by (simp add: l)
  ultimately show ?thesis using cm_switch_cpu(1) [OF s] t l unfolding s by (simp add: cm_popped_def)
qed

definition demo_sched :: QxkScheduler where
  "demo_sched = (QxkScheduler_new None)\<lparr>xs_thread_ready := [(3, 5)]\<rparr>"

definition demo_cm :: cm_cpu where
  "demo_cm = \<lparr>cm_psp = 0x20001000, cm_stacked = replicate 8 1, cm_r4_r11 = replicate 8 2\<rparr>"

lemma demo_sched_plan: "fst (QxkScheduler_plan_next demo_sched) = ExtendedThreadMode 3 5"
  by code_simp

theorem cm_thread_starts_witness:
  "\<exists>m1. CmThreadStack_init 0x20000000 256 0x08000101 7 (\<lambda>_. 0) = Inr (0x200000C0, m1) \<and>
     fst (cm_switch (demo_cm, m1, register_thread_sp 3 0x200000C0 (switch_reset\<lparr>KERNEL_PTR := Some demo_sched\<rparr>))) =
       \<lparr>cm_psp = 0x20000100, cm_stacked = [7, 0, 0, 0, 0, 0xFFFFFFFF, 0x08000101, 0x01000000], cm_r4_r11 = replicate 8 0\<rparr>"
proof -
  obtain m1 where i: "CmThreadStack_init 0x20000000 256 0x08000101 7 (\<lambda>_. 0) = Inr (0x200000C0, m1)"
    by (simp add: CmThreadStack_init_def)
  have "apart (cm_frame demo_cm - 32) 64 0x200000C0 64" "length (cm_stacked demo_cm) = 8" "length (cm_r4_r11 demo_cm) = 8"
    by (simp_all add: apart_def cm_frame_def demo_cm_def)
  from cm_thread_starts [OF i _ demo_sched_plan _ _ this, of "switch_reset\<lparr>KERNEL_PTR := Some demo_sched\<rparr>"] i
  show ?thesis by (simp add: switch_reset_def MAX_THREADS_def)
qed

text \<open>
  C28: (suspended contexts are lost) On Cortex-M and on RISC-V, in every run, a context switch to a thread
  resumes it from the stack pointer that was registered for it before the run, wherever it was suspended: the
  callee-saved registers are loaded from there and the stack pointer afterwards is the end of the context there
  (on Cortex-M a word further if the frame says that it was padded). The handlers store the suspended thread's
  stack pointer in CURRENT_THREAD_SP only, overwrite that with the next thread's, and never update the table that
  qxk_schedule reads. A thread that was switched out cannot continue where it was.
\<close>

theorem suspended_context_lost:
  assumes "KERNEL_PTR st = Some sched" "fst (QxkScheduler_plan_next sched) = ExtendedThreadMode tid prio" "unat tid < MAX_THREADS"
  shows "((switching cm_switch)\<^sup>*\<^sup>* (c0, m0, st0) (c, m, st) \<longrightarrow>
      (case cm_switch (c, m, st) of (c', m', st') \<Rightarrow>
         cm_psp c' = cm_popped m' (THREAD_SPS st0 ! unat tid) \<and> cm_r4_r11 c' = load_words 8 (THREAD_SPS st0 ! unat tid) m')) \<and>
    ((switching rv_switch)\<^sup>*\<^sup>* (r0, m0, st0) (r, m, st) \<longrightarrow>
      (case rv_switch (r, m, st) of (r', m', st') \<Rightarrow>
         rv_sp r' = THREAD_SPS st0 ! unat tid + 120 \<and> rv_callee r' = load_words 12 (THREAD_SPS st0 ! unat tid) m'))"
  by (intro conjI impI cm.resumes_at_registered [OF _ assms] rv.resumes_at_registered [OF _ assms])

definition demo_switch :: switch_state where
  "demo_switch = (register_thread_sp 3 0x200000C0 switch_reset)\<lparr>KERNEL_PTR := Some demo_sched\<rparr>"

theorem suspended_context_lost_witness:
  "cm_psp (fst (cm_switch (demo_cm, (\<lambda>_. 0), demo_switch))) = 0x20000100"
proof -
  have k: "demo_switch = demo_switch\<lparr>KERNEL_PTR := Some demo_sched\<rparr>" by (simp add: demo_switch_def)
  have "switching cm_switch (demo_cm\<lparr>cm_psp := 0x20000040\<rparr>, \<lambda>_. 1, demo_switch) (demo_cm, \<lambda>_. 0, demo_switch)"
    by (subst (2) k) (rule runs)
  then have r: "(switching cm_switch)\<^sup>*\<^sup>* (demo_cm\<lparr>cm_psp := 0x20000040\<rparr>, \<lambda>_. 1, demo_switch) (demo_cm, \<lambda>_. 0, demo_switch)"
    by (rule r_into_rtranclp)
  have st: "KERNEL_PTR demo_switch = Some demo_sched" "THREAD_SPS demo_switch ! 3 = 0x200000C0"
    by (simp_all add: demo_switch_def register_thread_sp_def switch_reset_def MAX_THREADS_def)
  obtain c' m' st' where s: "cm_switch (demo_cm, \<lambda>_. 0, demo_switch) = (c', m', st')" by (cases "cm_switch (demo_cm, \<lambda>_. 0, demo_switch)")
  have "apart (cm_frame demo_cm - 32) 64 0x200000FC 4" "length (cm_stacked demo_cm) = 8" "length (cm_r4_r11 demo_cm) = 8"
    by (simp_all add: apart_def cm_frame_def demo_cm_def)
  then have "m' 0x200000FC = 0"
    using cm_pushed_apart [of demo_cm "0x200000FC" 1 "\<lambda>_. 0"] cm_switch_cpu(2) [OF s] by (simp add: load_words_def)
  then show ?thesis
    using suspended_context_lost [OF st(1) demo_sched_plan, THEN conjunct1, THEN mp, OF _ r] st(2) s
    by (simp add: MAX_THREADS_def cm_popped_def)
qed

text \<open>
  (RISC-V traps corrupt t0) A trap that is not the software interrupt of a context switch changes no
  register of the interrupted program but t0, which it replaces by the value of mstatus: the handler reloads
  t0 from the frame and then uses it to restore mepc and mstatus.
\<close>

theorem trap_corrupts_t0:
  assumes "rv_mcause c \<noteq> 0x80000003" "length (rv_caller c) = 16"
  shows "\<exists>m'. TrapHandler (c, m, st) = (c\<lparr>rv_caller := (rv_caller c)[1 := rv_mstatus c]\<rparr>, m', st)"
proof -
  let ?f = "rv_caller c @ [rv_mepc c, rv_mstatus c]"
  have "length ?f = 18" using assms(2) by simp
  with load_store [of ?f "rv_sp c - 72" m]
  have l: "load_words 18 (rv_sp c - 72) (store_words (rv_sp c - 72) ?f m) = ?f" by simp
  have "?f ! 16 = rv_mepc c" "?f ! 17 = rv_mstatus c" using assms(2) by (simp_all add: nth_append)
  then show ?thesis
    using assms by (simp add: TrapHandler_def trap_restore_def Let_def l)
qed

definition demo_rv :: rv_cpu where
  "demo_rv = \<lparr>rv_sp = 0x3FC90000, rv_caller = [0, 1, 2, 3, 4, 5, 6, 7, 8, 9, 10, 11, 12, 13, 14, 15], rv_callee = replicate 12 0,
     rv_mepc = 0x42000100, rv_mstatus = 0x1880, rv_mcause = 0x80000007\<rparr>"

theorem trap_corrupts_t0_witness:
  "\<exists>m'. TrapHandler (demo_rv, (\<lambda>_. 0), switch_reset) =
     (demo_rv\<lparr>rv_caller := [0, 0x1880, 2, 3, 4, 5, 6, 7, 8, 9, 10, 11, 12, 13, 14, 15]\<rparr>, m', switch_reset)"
  using trap_corrupts_t0 [of demo_rv "\<lambda>_. 0" switch_reset] by (simp add: demo_rv_def)

end
