(* ===== verification/Mmio.thy ===== *)
theory Mmio
  imports Frames
begin

text \<open>
  Memory-mapped peripherals as the drivers of \<open>hal/\<close> see them: volatile reads and writes of device registers
  (\<open>hal/src/mmio.rs\<close>), the layout of a \<open>repr(C)\<close> register block, driver calls that may fail, panic
  or spin for ever, and the generic facts on polling loops.
\<close>

section \<open>Devices and special registers\<close>

text \<open>
  A device is a state \<open>'s\<close> with volatile accesses; every access may change the state, so the device also moves on
  while a driver polls it. Addresses are those of the 32-bit targets.
\<close>

record 's Mmio =
  io_read :: "u32 \<Rightarrow> 's \<Rightarrow> u32 \<times> 's"
  io_write :: "u32 \<Rightarrow> u32 \<Rightarrow> 's \<Rightarrow> 's"
  io_write8 :: "u32 \<Rightarrow> u8 \<Rightarrow> 's \<Rightarrow> 's"

text \<open>Registers of the processor that have no address (control and status registers), by name.\<close>

record 's Special =
  sr_read :: "string \<Rightarrow> 's \<Rightarrow> u32 \<times> 's"
  sr_write :: "string \<Rightarrow> u32 \<Rightarrow> 's \<Rightarrow> 's"

section \<open>Driver calls\<close>

text \<open>
  What ends a driver call early: an \<open>Err\<close> that the caller returns at once, or a panic. \<open>None\<close> is a call that never
  returns.
\<close>

datatype stop = Err HalError | Abort fault

type_synonym ('s, 'a) dev = "'s \<Rightarrow> ((stop + 'a) \<times> 's) option"

definition dreturn :: "'a \<Rightarrow> ('s, 'a) dev" where
  "dreturn x s = Some (Inr x, s)"

definition dstop :: "stop \<Rightarrow> ('s, 'a) dev" where
  "dstop e s = Some (Inl e, s)"

definition dbind :: "('s, 'a) dev \<Rightarrow> ('a \<Rightarrow> ('s, 'b) dev) \<Rightarrow> ('s, 'b) dev" where
  "dbind m f s = (case m s of None \<Rightarrow> None | Some (Inl e, s') \<Rightarrow> Some (Inl e, s') | Some (Inr x, s') \<Rightarrow> f x s')"

definition dseq :: "('s, 'a) dev \<Rightarrow> ('s, 'b) dev \<Rightarrow> ('s, 'b) dev" where
  "dseq m k = dbind m (\<lambda>_. k)"

definition RW_read :: "'s Mmio \<Rightarrow> u32 \<Rightarrow> ('s, u32) dev" where
  "RW_read M a s = (case io_read M a s of (v, s') \<Rightarrow> Some (Inr v, s'))"

definition RW_write :: "'s Mmio \<Rightarrow> u32 \<Rightarrow> u32 \<Rightarrow> ('s, unit) dev" where
  "RW_write M a v s = Some (Inr (), io_write M a v s)"

definition RW_modify :: "'s Mmio \<Rightarrow> u32 \<Rightarrow> (u32 \<Rightarrow> ('s, u32) dev) \<Rightarrow> ('s, unit) dev" where
  "RW_modify M a f = dbind (RW_read M a) (\<lambda>v. dbind (f v) (RW_write M a))"

definition RO_read :: "'s Mmio \<Rightarrow> u32 \<Rightarrow> ('s, u32) dev" where
  "RO_read M a s = (case io_read M a s of (v, s') \<Rightarrow> Some (Inr v, s'))"

definition WO_write :: "'s Mmio \<Rightarrow> u32 \<Rightarrow> u32 \<Rightarrow> ('s, unit) dev" where
  "WO_write M a v s = Some (Inr (), io_write M a v s)"

definition RW8_write :: "'s Mmio \<Rightarrow> u32 \<Rightarrow> u8 \<Rightarrow> ('s, unit) dev" where
  "RW8_write M a v s = Some (Inr (), io_write8 M a v s)"

text \<open>The RISC-V instructions on control and status registers (\<open>hal-rvsis/src/csr.rs\<close>).\<close>

definition csrr :: "'s Special \<Rightarrow> string \<Rightarrow> ('s, u32) dev" where
  "csrr C r s = (case sr_read C r s of (v, s') \<Rightarrow> Some (Inr v, s'))"

definition csrw :: "'s Special \<Rightarrow> string \<Rightarrow> u32 \<Rightarrow> ('s, unit) dev" where
  "csrw C r v s = Some (Inr (), sr_write C r v s)"

definition csrrs :: "'s Special \<Rightarrow> string \<Rightarrow> u32 \<Rightarrow> ('s, u32) dev" where
  "csrrs C r m s = (case sr_read C r s of (v, s') \<Rightarrow> Some (Inr v, sr_write C r (or v m) s'))"

definition csrrc :: "'s Special \<Rightarrow> string \<Rightarrow> u32 \<Rightarrow> ('s, u32) dev" where
  "csrrc C r m s = (case sr_read C r s of (v, s') \<Rightarrow> Some (Inr v, sr_write C r (and v (not m)) s'))"

text \<open>Shifts, divisions and subtractions of \<open>u32\<close> values panic out of range in a checked build.\<close>

definition shl32 :: "u32 \<Rightarrow> nat \<Rightarrow> ('s, u32) dev" where
  "shl32 v n = (if n < 32 then dreturn (push_bit n v) else dstop (Abort Panic))"

definition div32 :: "u32 \<Rightarrow> u32 \<Rightarrow> ('s, u32) dev" where
  "div32 a b = (if b = 0 then dstop (Abort Panic) else dreturn (a div b))"

definition mul32 :: "u32 \<Rightarrow> u32 \<Rightarrow> ('s, u32) dev" where
  "mul32 a b = (if unat a * unat b < 2 ^ 32 then dreturn (a * b) else dstop (Abort Panic))"

section \<open>Loops\<close>

text \<open>A loop whose condition and body are one call: it goes on while the call returns \<open>True\<close>.\<close>

partial_function (option) dloop :: "('s, bool) dev \<Rightarrow> ('s, unit) dev" where
  "dloop body s =
     (case body s of
        None \<Rightarrow> None
      | Some (Inl e, s') \<Rightarrow> Some (Inl e, s')
      | Some (Inr b, s') \<Rightarrow> if b then dloop body s' else Some (Inr (), s'))"

text \<open>A loop that only polls a register: \<open>while p(reg.read()) {}\<close>.\<close>

definition spin_while :: "'s Mmio \<Rightarrow> u32 \<Rightarrow> (u32 \<Rightarrow> bool) \<Rightarrow> ('s, unit) dev" where
  "spin_while M a p = dloop (dbind (RW_read M a) (\<lambda>v. dreturn (p v)))"

text \<open>A \<open>for\<close> loop over a slice, and one that replaces each element.\<close>

fun dfor :: "('a \<Rightarrow> ('s, unit) dev) \<Rightarrow> 'a list \<Rightarrow> ('s, unit) dev" where
  "dfor f [] = dreturn ()"
| "dfor f (x # xs) = dseq (f x) (dfor f xs)"

fun dmap :: "('a \<Rightarrow> ('s, 'b) dev) \<Rightarrow> 'a list \<Rightarrow> ('s, 'b list) dev" where
  "dmap f [] = dreturn []"
| "dmap f (x # xs) = dbind (f x) (\<lambda>y. dbind (dmap f xs) (\<lambda>ys. dreturn (y # ys)))"

section \<open>Register blocks\<close>

text \<open>
  A \<open>repr(C)\<close> block is the list of its fields with their sizes in words, padding included; a field stands
  after the fields before it.
\<close>

type_synonym layout = "(string \<times> nat) list"

fun field_word :: "string \<Rightarrow> layout \<Rightarrow> nat" where
  "field_word f [] = 0"
| "field_word f ((g, n) # fs) = (if f = g then 0 else n + field_word f fs)"

definition reg :: "u32 \<Rightarrow> layout \<Rightarrow> string \<Rightarrow> u32" where
  "reg base L f = base + of_nat (4 * field_word f L)"

definition reg_at :: "u32 \<Rightarrow> layout \<Rightarrow> string \<Rightarrow> nat \<Rightarrow> u32" where
  "reg_at base L f i = base + of_nat (4 * (field_word f L + i))"

section \<open>Rules\<close>

named_theorems dev_eval \<open>driver calls applied to a state\<close>

lemma dev_done [dev_eval]:
  "dreturn x s = Some (Inr x, s)"
  "dstop e s = Some (Inl e, s)"
  by (simp_all add: dreturn_def dstop_def)

lemma dev_run [simp]:
  "dbind (dreturn x) f = f x"
  "dbind (dstop e) f = dstop e"
  "dseq (dreturn x) k = k"
  "dseq (dstop e) k = dstop e"
  by (auto simp: fun_eq_iff dreturn_def dstop_def dbind_def dseq_def)

lemma dbind_Some:
  "m s = Some (Inr x, s') \<Longrightarrow> dbind m f s = f x s'"
  "m s = Some (Inl e, s') \<Longrightarrow> dbind m f s = Some (Inl e, s')"
  by (simp_all add: dbind_def)

lemma dseq_Some:
  "m s = Some (Inr x, s') \<Longrightarrow> dseq m k s = k s'"
  by (simp add: dseq_def dbind_def)

lemma dbind_assoc: "dbind (dbind m f) g = dbind m (\<lambda>x. dbind (f x) g)"
  by (auto simp: fun_eq_iff dbind_def split: option.splits prod.splits sum.splits)

lemma dseq_assoc: "dseq (dseq m k) j = dseq m (dseq k j)"
  by (simp add: dseq_def dbind_assoc)

lemma dseq_dbind: "dseq (dbind m f) k = dbind m (\<lambda>x. dseq (f x) k)"
  by (simp add: dseq_def dbind_assoc)

lemma reg_run [simp]:
  "dseq (RW_write M a v) k s = k (io_write M a v s)"
  "dseq (WO_write M a v) k s = k (io_write M a v s)"
  "dbind (RW_read M a) f s = (case io_read M a s of (w, s') \<Rightarrow> f w s')"
  "dbind (RO_read M a) f s = (case io_read M a s of (w, s') \<Rightarrow> f w s')"
  by (simp_all add: dseq_def dbind_def RW_write_def WO_write_def RW_read_def RO_read_def
      split: prod.splits)

lemma last_run [dev_eval]:
  "RW_write M a v s = Some (Inr (), io_write M a v s)"
  "WO_write M a v s = Some (Inr (), io_write M a v s)"
  by (simp_all add: RW_write_def WO_write_def)

lemma RW_modify_run:
  "RW_modify M a f s = (case io_read M a s of (v, s') \<Rightarrow> dbind (f v) (RW_write M a) s')"
  by (simp add: RW_modify_def)

lemma shl32_run [simp]: "n < 32 \<Longrightarrow> shl32 v n = dreturn (push_bit n v)"
  "\<not> n < 32 \<Longrightarrow> shl32 v n = dstop (Abort Panic)"
  by (simp_all add: shl32_def)

lemma dfor_append: "dfor f (xs @ ys) = dseq (dfor f xs) (dfor f ys)"
  by (induction xs) (simp_all add: dseq_assoc)

text \<open>
  A polling loop ends in the first state whose register no longer satisfies the condition. \<open>polled M a\<close> is the
  state after one read.
\<close>

definition polled :: "'s Mmio \<Rightarrow> u32 \<Rightarrow> 's \<Rightarrow> 's" where
  "polled M a s = snd (io_read M a s)"

lemma spin_while_run:
  "spin_while M a p s =
     (if p (fst (io_read M a s)) then spin_while M a p (polled M a s) else Some (Inr (), polled M a s))"
  unfolding spin_while_def by (subst dloop.simps) (simp add: polled_def dev_eval split: prod.splits)

lemma spin_while_ends:
  assumes "\<not> p (fst (io_read M a ((polled M a ^^ n) s)))"
  shows "\<exists>k \<le> n. spin_while M a p s = Some (Inr (), (polled M a ^^ Suc k) s) \<and>
     \<not> p (fst (io_read M a ((polled M a ^^ k) s)))"
  using assms
proof (induction n arbitrary: s)
  case 0
  then show ?case by (simp add: spin_while_run [of M a p s])
next
  case (Suc n)
  show ?case
  proof (cases "p (fst (io_read M a s))")
    case True
    from Suc.prems have "\<not> p (fst (io_read M a ((polled M a ^^ n) (polled M a s))))" by (simp add: funpow_swap1)
    from Suc.IH [OF this] obtain k where "k \<le> n"
      "spin_while M a p (polled M a s) = Some (Inr (), (polled M a ^^ Suc k) (polled M a s))"
      "\<not> p (fst (io_read M a ((polled M a ^^ k) (polled M a s))))" by blast
    with True show ?thesis
      by (intro exI [of _ "Suc k"]) (simp add: spin_while_run [of M a p s] funpow_swap1)
  next
    case False
    then show ?thesis by (intro exI [of _ 0]) (simp add: spin_while_run [of M a p s])
  qed
qed

text \<open>Tests of a single bit.\<close>

lemma bit_test:
  "and (drop_bit p v) 1 \<noteq> 0 \<longleftrightarrow> bit (v :: u32) p" "and v (2 ^ p) \<noteq> 0 \<longleftrightarrow> bit v p" "and v (push_bit p 1) \<noteq> 0 \<longleftrightarrow> bit v p"
proof -
  show "and (drop_bit p v) 1 \<noteq> 0 \<longleftrightarrow> bit v p" by (simp add: and_one_eq bit_iff_odd_drop_bit odd_iff_mod_2_eq_one)
  have "and v (2 ^ p) = (if bit v p then 2 ^ p else 0)"
    by (rule bit_word_eqI) (auto simp: bit_simps)
  then show "and v (2 ^ p) \<noteq> 0 \<longleftrightarrow> bit v p" using bit_imp_le_length [of v p] by (auto simp: exp_eq_zero_iff)
  then show "and v (push_bit p 1) \<noteq> 0 \<longleftrightarrow> bit v p" by (simp only: push_bit_of_1)
qed

text \<open>Fields of a register that do not overlap add up.\<close>

lemma unat_push:
  fixes y :: u32
  assumes "unat y * 2 ^ k < 2 ^ 32"
  shows "unat (push_bit k y) = unat y * 2 ^ k"
  using assms by (simp only: unsigned_push_bit_eq) (simp add: push_bit_eq_mult take_bit_nat_eq_self)

lemma unat_or_push:
  fixes x y :: u32
  assumes "unat x < 2 ^ k" "unat y * 2 ^ k < 2 ^ 32"
  shows "unat (or x (push_bit k y)) = unat x + unat y * 2 ^ k"
proof -
  have "and (unat x) (push_bit k (unat y)) = 0"
  proof (rule bit_eqI)
    fix n
    have "take_bit k (unat x) = unat x" using assms(1) by (simp add: take_bit_nat_eq_self)
    then have "bit (unat x) n \<Longrightarrow> n < k" by (metis bit_take_bit_iff)
    then show "bit (and (unat x) (push_bit k (unat y))) n = bit (0 :: nat) n" by (auto simp: bit_simps)
  qed
  then have "or (unat x) (push_bit k (unat y)) = unat x + push_bit k (unat y)" by (simp add: disjunctive_add_eq_or)
  moreover have "unat (or x (push_bit k y)) = or (unat x) (unat (push_bit k y))" by (simp only: unsigned_or_eq)
  ultimately show ?thesis by (simp only: unat_push [OF assms(2)] push_bit_eq_mult [of k "unat y"])
qed

lemma funpow_keeps: "(\<And>s. g (f s) = g s) \<Longrightarrow> g ((f ^^ n) s) = g s"
  by (induction n) simp_all

end
