(* ===== verification/Registers.thy ===== *)
theory Registers
  imports Mmio
begin

text \<open>
  The register blocks of the supported chips (\<open>regs.rs\<close> of each chip, and the blocks declared by the I2C, NVIC and
  SysTick drivers), their base addresses, and the comparison of every field's offset with the one its comment gives.
\<close>

section \<open>Register blocks\<close>

definition stm32f4_GpioRegs :: layout where
  "stm32f4_GpioRegs =
    [(''moder'', 1), (''otyper'', 1), (''ospeedr'', 1), (''pupdr'', 1), (''idr'', 1), (''odr'', 1),
     (''bsrr'', 1), (''lckr'', 1), (''afrl'', 1), (''afrh'', 1)]"

definition stm32f4_SpiRegs :: layout where
  "stm32f4_SpiRegs =
    [(''cr1'', 1), (''cr2'', 1), (''sr'', 1), (''dr'', 1), (''crcpr'', 1), (''rxcrchr'', 1),
     (''txcrchr'', 1), (''i2scfgr'', 1), (''i2spr'', 1)]"

definition stm32f4_UsartRegs :: layout where
  "stm32f4_UsartRegs =
    [(''sr'', 1), (''dr'', 1), (''brr'', 1), (''cr1'', 1), (''cr2'', 1), (''cr3'', 1), (''gtpr'', 1)]"

definition stm32f4_I2cRegs :: layout where
  "stm32f4_I2cRegs =
    [(''cr1'', 1), (''cr2'', 1), (''oar1'', 1), (''oar2'', 1), (''dr'', 1), (''sr1'', 1),
     (''sr2'', 1), (''ccr'', 1), (''trise'', 1), (''fltr'', 1)]"

definition nrf52_GpioRegs :: layout where
  "nrf52_GpioRegs =
    [(''_r0'', 321), (''out'', 1), (''outset'', 1), (''outclr'', 1), (''in'', 1), (''dir'', 1),
     (''dirset'', 1), (''dirclr'', 1), (''_r1'', 120), (''pin_cnf'', 32)]"

definition nrf52_SpiRegs :: layout where
  "nrf52_SpiRegs =
    [(''tasks_start'', 1), (''tasks_stop'', 1), (''_r0'', 64), (''events_ready'', 1),
     (''_r1'', 126), (''intenset'', 1), (''intenclr'', 1), (''_r2'', 125), (''enable'', 1),
     (''_r3'', 1), (''psel.sck'', 1), (''psel.mosi'', 1), (''psel.miso'', 1), (''_r4'', 4),
     (''frequency'', 1), (''_r5'', 7), (''rxd.ptr'', 1), (''rxd.maxcnt'', 1), (''rxd.amount'', 1),
     (''txd.ptr'', 1), (''txd.maxcnt'', 1), (''txd.amount'', 1), (''_r6'', 26), (''config'', 1)]"

definition nrf52_UarteRegs :: layout where
  "nrf52_UarteRegs =
    [(''tasks_startrx'', 1), (''tasks_stoprx'', 1), (''tasks_starttx'', 1), (''tasks_stoptx'', 1),
     (''_r0'', 62), (''events_rxdrdy'', 1), (''_r1'', 1), (''events_endrx'', 1), (''_r2'', 2),
     (''events_txdrdy'', 1), (''events_endtx'', 1), (''events_error'', 1), (''_r3'', 246),
     (''enable'', 1), (''_r4'', 1), (''psel.rts'', 1), (''psel.txd'', 1), (''psel.cts'', 1),
     (''psel.rxd'', 1), (''_r5'', 3), (''baudrate'', 1), (''_r6'', 3), (''rxd.ptr'', 1),
     (''rxd.maxcnt'', 1), (''rxd.amount'', 1), (''_r7'', 1), (''txd.ptr'', 1), (''txd.maxcnt'', 1),
     (''txd.amount'', 1), (''_r8'', 7), (''config'', 1)]"

definition nrf52_TwimRegs :: layout where
  "nrf52_TwimRegs =
    [(''tasks_startrx'', 1), (''_pad0'', 1), (''tasks_starttx'', 1), (''_pad1'', 2),
     (''tasks_stop'', 1), (''_pad2'', 1), (''tasks_suspend'', 1), (''tasks_resume'', 1),
     (''_pad3'', 56), (''events_stopped'', 1), (''_pad4'', 1), (''events_error'', 1),
     (''_pad5'', 8), (''events_rxstarted'', 1), (''events_txstarted'', 1), (''_pad6'', 2),
     (''events_lastrx'', 1), (''events_lasttx'', 1), (''_pad7'', 175), (''shorts'', 1),
     (''_pad8'', 56), (''intenset'', 1), (''intenclr'', 1), (''_pad9'', 110), (''errorsrc'', 1),
     (''_pad10'', 14), (''enable'', 1), (''_pad11'', 1), (''psel_scl'', 1), (''psel_sda'', 1),
     (''_pad12'', 5), (''frequency'', 1), (''_pad13'', 3), (''rxd.ptr'', 1), (''rxd.maxcnt'', 1),
     (''rxd.amount'', 1), (''rxd.list'', 1), (''txd.ptr'', 1), (''txd.maxcnt'', 1),
     (''txd.amount'', 1), (''txd.list'', 1), (''_pad14'', 13), (''address'', 1)]"

definition lpc17_GpioPortRegs :: layout where
  "lpc17_GpioPortRegs =
    [(''dir'', 1), (''_r0'', 3), (''mask'', 1), (''pin'', 1), (''set'', 1), (''clr'', 1)]"

definition lpc17_SspRegs :: layout where
  "lpc17_SspRegs =
    [(''cr0'', 1), (''cr1'', 1), (''dr'', 1), (''sr'', 1), (''cpsr'', 1), (''imsc'', 1),
     (''ris'', 1), (''mis'', 1), (''icr'', 1), (''dmacr'', 1)]"

definition lpc17_UartRegs :: layout where
  "lpc17_UartRegs =
    [(''rbr_thr_dll'', 1), (''dlm_ier'', 1), (''iir_fcr'', 1), (''lcr'', 1), (''mcr'', 1),
     (''lsr'', 1), (''msr'', 1), (''scr'', 1), (''acr'', 1), (''_r0'', 1), (''fdr'', 1),
     (''_r1'', 1), (''ter'', 1)]"

definition gd32vf_GpioRegs :: layout where
  "gd32vf_GpioRegs =
    [(''ctl0'', 1), (''ctl1'', 1), (''istat'', 1), (''ostat'', 1), (''bop'', 1), (''bc'', 1),
     (''lock'', 1)]"

definition gd32vf_SpiRegs :: layout where
  "gd32vf_SpiRegs =
    [(''ctl0'', 1), (''ctl1'', 1), (''stat'', 1), (''data'', 1), (''crcpoly'', 1), (''rcrc'', 1),
     (''tcrc'', 1)]"

definition gd32vf_UsartRegs :: layout where
  "gd32vf_UsartRegs =
    [(''stat'', 1), (''data'', 1), (''baud'', 1), (''ctl0'', 1), (''ctl1'', 1), (''ctl2'', 1),
     (''gp'', 1)]"

definition esp32_GpioRegs :: layout where
  "esp32_GpioRegs =
    [(''bt_select'', 1), (''out'', 1), (''out_w1ts'', 1), (''out_w1tc'', 1), (''out1'', 1),
     (''out1_w1ts'', 1), (''out1_w1tc'', 1), (''_reserved0'', 1), (''enable'', 1),
     (''enable_w1ts'', 1), (''enable_w1tc'', 1), (''enable1'', 1), (''enable1_w1ts'', 1),
     (''enable1_w1tc'', 1), (''_reserved1'', 1), (''in'', 1), (''in1'', 1)]"

definition esp32_SpiRegs :: layout where
  "esp32_SpiRegs =
    [(''cmd'', 1), (''addr'', 1), (''ctrl'', 1), (''ctrl1'', 1), (''ctrl2'', 1), (''clock'', 1),
     (''_r0'', 1), (''user'', 1), (''user1'', 1), (''user2'', 1), (''mosi_dlen'', 1),
     (''miso_dlen'', 1), (''_r1'', 20), (''w'', 16)]"

definition esp32_UartRegs :: layout where
  "esp32_UartRegs =
    [(''fifo'', 1), (''int_raw'', 1), (''int_st'', 1), (''int_ena'', 1), (''int_clr'', 1),
     (''clkdiv'', 1), (''autobaud'', 1), (''status'', 1), (''conf0'', 1), (''conf1'', 1)]"

definition esp32s2_GpioRegs :: layout where
  "esp32s2_GpioRegs =
    [(''bt_select'', 1), (''out'', 1), (''out_w1ts'', 1), (''out_w1tc'', 1), (''out1'', 1),
     (''out1_w1ts'', 1), (''out1_w1tc'', 1), (''_reserved0'', 1), (''enable'', 1),
     (''enable_w1ts'', 1), (''enable_w1tc'', 1), (''enable1'', 1), (''enable1_w1ts'', 1),
     (''enable1_w1tc'', 1), (''_reserved1'', 1), (''in'', 1), (''in1'', 1)]"

definition esp32s2_SpiRegs :: layout where
  "esp32s2_SpiRegs =
    [(''cmd'', 1), (''addr'', 1), (''ctrl'', 1), (''ctrl1'', 1), (''ctrl2'', 1), (''clock'', 1),
     (''_r0'', 1), (''user'', 1), (''user1'', 1), (''user2'', 1), (''mosi_dlen'', 1),
     (''miso_dlen'', 1), (''_r1'', 20), (''w'', 16)]"

definition esp32s2_UartRegs :: layout where
  "esp32s2_UartRegs =
    [(''fifo'', 1), (''int_raw'', 1), (''int_st'', 1), (''int_ena'', 1), (''int_clr'', 1),
     (''clkdiv'', 1), (''autobaud'', 1), (''status'', 1), (''conf0'', 1), (''conf1'', 1)]"

definition esp32s3_GpioRegs :: layout where
  "esp32s3_GpioRegs =
    [(''bt_select'', 1), (''out'', 1), (''out_w1ts'', 1), (''out_w1tc'', 1), (''out1'', 1),
     (''out1_w1ts'', 1), (''out1_w1tc'', 1), (''_reserved0'', 1), (''enable'', 1),
     (''enable_w1ts'', 1), (''enable_w1tc'', 1), (''enable1'', 1), (''enable1_w1ts'', 1),
     (''enable1_w1tc'', 1), (''_reserved1'', 1), (''in'', 1), (''in1'', 1)]"

definition esp32s3_SpiRegs :: layout where
  "esp32s3_SpiRegs =
    [(''cmd'', 1), (''addr'', 1), (''ctrl'', 1), (''ctrl1'', 1), (''ctrl2'', 1), (''clock'', 1),
     (''_r0'', 1), (''user'', 1), (''user1'', 1), (''user2'', 1), (''mosi_dlen'', 1),
     (''miso_dlen'', 1), (''_r1'', 20), (''w'', 16)]"

definition esp32s3_UartRegs :: layout where
  "esp32s3_UartRegs =
    [(''fifo'', 1), (''int_raw'', 1), (''int_st'', 1), (''int_ena'', 1), (''int_clr'', 1),
     (''clkdiv'', 1), (''autobaud'', 1), (''status'', 1), (''conf0'', 1), (''conf1'', 1)]"

definition esp32c3_GpioRegs :: layout where
  "esp32c3_GpioRegs =
    [(''bt_select'', 1), (''out'', 1), (''out_w1ts'', 1), (''out_w1tc'', 1), (''out1'', 1),
     (''out1_w1ts'', 1), (''out1_w1tc'', 1), (''_reserved0'', 1), (''enable'', 1),
     (''enable_w1ts'', 1), (''enable_w1tc'', 1), (''enable1'', 1), (''enable1_w1ts'', 1),
     (''enable1_w1tc'', 1), (''_reserved1'', 1), (''in'', 1), (''in1'', 1)]"

definition esp32c3_SpiRegs :: layout where
  "esp32c3_SpiRegs =
    [(''cmd'', 1), (''addr'', 1), (''ctrl'', 1), (''ctrl1'', 1), (''ctrl2'', 1), (''clock'', 1),
     (''_r0'', 1), (''user'', 1), (''user1'', 1), (''user2'', 1), (''mosi_dlen'', 1),
     (''miso_dlen'', 1), (''_r1'', 20), (''w'', 16)]"

definition esp32c3_UartRegs :: layout where
  "esp32c3_UartRegs =
    [(''fifo'', 1), (''int_raw'', 1), (''int_st'', 1), (''int_ena'', 1), (''int_clr'', 1),
     (''clkdiv'', 1), (''autobaud'', 1), (''status'', 1), (''conf0'', 1), (''conf1'', 1)]"

definition esp32c6_GpioRegs :: layout where
  "esp32c6_GpioRegs =
    [(''bt_select'', 1), (''out'', 1), (''out_w1ts'', 1), (''out_w1tc'', 1), (''out1'', 1),
     (''out1_w1ts'', 1), (''out1_w1tc'', 1), (''_reserved0'', 1), (''enable'', 1),
     (''enable_w1ts'', 1), (''enable_w1tc'', 1), (''enable1'', 1), (''enable1_w1ts'', 1),
     (''enable1_w1tc'', 1), (''_reserved1'', 1), (''in'', 1), (''in1'', 1)]"

definition esp32c6_SpiRegs :: layout where
  "esp32c6_SpiRegs =
    [(''cmd'', 1), (''addr'', 1), (''ctrl'', 1), (''ctrl1'', 1), (''ctrl2'', 1), (''clock'', 1),
     (''_r0'', 1), (''user'', 1), (''user1'', 1), (''user2'', 1), (''mosi_dlen'', 1),
     (''miso_dlen'', 1), (''_r1'', 20), (''w'', 16)]"

definition esp32c6_UartRegs :: layout where
  "esp32c6_UartRegs =
    [(''fifo'', 1), (''int_raw'', 1), (''int_st'', 1), (''int_ena'', 1), (''int_clr'', 1),
     (''clkdiv'', 1), (''autobaud'', 1), (''status'', 1), (''conf0'', 1), (''conf1'', 1)]"

definition rv_PlicRegs :: layout where
  "rv_PlicRegs =
    [(''priority'', 1024), (''pending'', 32), (''_r0'', 992), (''enable'', 32 * 15872), (''_r1'', 0x1FC000 div 4)]"

definition cm_NvicRegs :: layout where
  "cm_NvicRegs =
    [(''iser'', 8), (''_r0'', 24), (''icer'', 8), (''_r1'', 24), (''ispr'', 8), (''_r2'', 24),
     (''icpr'', 8), (''_r3'', 24), (''iabr'', 8), (''_r4'', 56), (''ipr'', 60)]"

definition cm_SysTickRegs :: layout where
  "cm_SysTickRegs =
    [(''csr'', 1), (''rvr'', 1), (''cvr'', 1), (''calib'', 1)]"

section \<open>Base addresses\<close>

text \<open>The address of the GPIO block (\<open>gpio()\<close>) of each ESP chip, and of a port of the LPC1768.\<close>

definition esp32_gpio :: u32 where
  "esp32_gpio = 0x3FF44000"

definition esp32s2_gpio :: u32 where
  "esp32s2_gpio = 0x60044000"

definition esp32s3_gpio :: u32 where
  "esp32s3_gpio = 0x60004000"

definition esp32c3_gpio :: u32 where
  "esp32c3_gpio = 0x60004000"

definition esp32c6_gpio :: u32 where
  "esp32c6_gpio = 0x60091000"

definition lpc17_gpio_port :: "u8 \<Rightarrow> u32" where
  "lpc17_gpio_port port = 0x2009C000 + ucast port * 0x20"

definition cm_nvic :: u32 where
  "cm_nvic = 0xE000E100"

definition cm_systick :: u32 where
  "cm_systick = 0xE000E010"

section \<open>Documented offsets\<close>

text \<open>The offsets in bytes that the comments beside the fields give.\<close>

definition stm32f4_GpioRegs_doc :: "(string \<times> nat) list" where
  "stm32f4_GpioRegs_doc =
    [(''moder'', 0x0), (''otyper'', 0x4), (''ospeedr'', 0x8), (''pupdr'', 0xC), (''idr'', 0x10),
     (''odr'', 0x14), (''bsrr'', 0x18), (''lckr'', 0x1C), (''afrl'', 0x20), (''afrh'', 0x24)]"

definition stm32f4_SpiRegs_doc :: "(string \<times> nat) list" where
  "stm32f4_SpiRegs_doc =
    [(''cr1'', 0x0), (''cr2'', 0x4), (''sr'', 0x8), (''dr'', 0xC), (''crcpr'', 0x10),
     (''rxcrchr'', 0x14), (''txcrchr'', 0x18), (''i2scfgr'', 0x1C), (''i2spr'', 0x20)]"

definition stm32f4_UsartRegs_doc :: "(string \<times> nat) list" where
  "stm32f4_UsartRegs_doc =
    [(''sr'', 0x0), (''dr'', 0x4), (''brr'', 0x8), (''cr1'', 0xC), (''cr2'', 0x10),
     (''cr3'', 0x14), (''gtpr'', 0x18)]"

definition stm32f4_I2cRegs_doc :: "(string \<times> nat) list" where
  "stm32f4_I2cRegs_doc =
    [(''cr1'', 0x0), (''cr2'', 0x4), (''oar1'', 0x8), (''oar2'', 0xC), (''dr'', 0x10),
     (''sr1'', 0x14), (''sr2'', 0x18), (''ccr'', 0x1C), (''trise'', 0x20), (''fltr'', 0x24)]"

definition nrf52_GpioRegs_doc :: "(string \<times> nat) list" where
  "nrf52_GpioRegs_doc =
    [(''out'', 0x504), (''outset'', 0x508), (''outclr'', 0x50C), (''in'', 0x510), (''dir'', 0x514),
     (''dirset'', 0x518), (''dirclr'', 0x51C), (''pin_cnf'', 0x700)]"

definition nrf52_SpiRegs_doc :: "(string \<times> nat) list" where
  "nrf52_SpiRegs_doc =
    [(''tasks_start'', 0x0), (''tasks_stop'', 0x4), (''events_ready'', 0x108),
     (''intenset'', 0x304), (''intenclr'', 0x308), (''enable'', 0x500), (''psel.sck'', 0x508),
     (''frequency'', 0x524), (''rxd.ptr'', 0x544), (''txd.ptr'', 0x550), (''config'', 0x5C4)]"

definition nrf52_UarteRegs_doc :: "(string \<times> nat) list" where
  "nrf52_UarteRegs_doc =
    [(''tasks_startrx'', 0x0), (''tasks_stoprx'', 0x4), (''tasks_starttx'', 0x8),
     (''tasks_stoptx'', 0xC), (''events_rxdrdy'', 0x108), (''events_endrx'', 0x110),
     (''events_txdrdy'', 0x11C), (''events_endtx'', 0x120), (''events_error'', 0x124),
     (''enable'', 0x500), (''psel.rts'', 0x508), (''baudrate'', 0x524), (''rxd.ptr'', 0x534),
     (''txd.ptr'', 0x544), (''config'', 0x56C)]"

definition nrf52_TwimRegs_doc :: "(string \<times> nat) list" where
  "nrf52_TwimRegs_doc =
    [(''tasks_startrx'', 0x0), (''tasks_starttx'', 0x8), (''tasks_stop'', 0x14),
     (''tasks_suspend'', 0x1C), (''tasks_resume'', 0x20), (''events_stopped'', 0x104),
     (''events_error'', 0x10C), (''events_rxstarted'', 0x12C), (''events_txstarted'', 0x130),
     (''events_lastrx'', 0x13C), (''events_lasttx'', 0x140), (''shorts'', 0x200),
     (''intenset'', 0x304), (''intenclr'', 0x308), (''errorsrc'', 0x4C4), (''enable'', 0x500),
     (''psel_scl'', 0x508), (''psel_sda'', 0x50C), (''frequency'', 0x524), (''rxd.ptr'', 0x534),
     (''txd.ptr'', 0x544), (''address'', 0x588)]"

definition lpc17_GpioPortRegs_doc :: "(string \<times> nat) list" where
  "lpc17_GpioPortRegs_doc =
    [(''dir'', 0x0), (''mask'', 0x10), (''pin'', 0x14), (''set'', 0x18), (''clr'', 0x1C)]"

definition lpc17_SspRegs_doc :: "(string \<times> nat) list" where
  "lpc17_SspRegs_doc =
    [(''cr0'', 0x0), (''cr1'', 0x4), (''dr'', 0x8), (''sr'', 0xC), (''cpsr'', 0x10),
     (''imsc'', 0x14), (''ris'', 0x18), (''mis'', 0x1C), (''icr'', 0x20), (''dmacr'', 0x24)]"

definition lpc17_UartRegs_doc :: "(string \<times> nat) list" where
  "lpc17_UartRegs_doc =
    [(''rbr_thr_dll'', 0x0), (''dlm_ier'', 0x4), (''iir_fcr'', 0x8), (''lcr'', 0xC),
     (''mcr'', 0x10), (''lsr'', 0x14), (''msr'', 0x18), (''scr'', 0x1C), (''acr'', 0x20),
     (''fdr'', 0x28), (''ter'', 0x30)]"

definition gd32vf_GpioRegs_doc :: "(string \<times> nat) list" where
  "gd32vf_GpioRegs_doc =
    [(''ctl0'', 0x0), (''ctl1'', 0x4), (''istat'', 0x8), (''ostat'', 0xC), (''bop'', 0x10),
     (''bc'', 0x14), (''lock'', 0x18)]"

definition gd32vf_SpiRegs_doc :: "(string \<times> nat) list" where
  "gd32vf_SpiRegs_doc =
    [(''ctl0'', 0x0), (''ctl1'', 0x4), (''stat'', 0x8), (''data'', 0xC), (''crcpoly'', 0x10),
     (''rcrc'', 0x14), (''tcrc'', 0x18)]"

definition gd32vf_UsartRegs_doc :: "(string \<times> nat) list" where
  "gd32vf_UsartRegs_doc =
    [(''stat'', 0x0), (''data'', 0x4), (''baud'', 0x8), (''ctl0'', 0xC), (''ctl1'', 0x10),
     (''ctl2'', 0x14), (''gp'', 0x18)]"

definition esp32_GpioRegs_doc :: "(string \<times> nat) list" where
  "esp32_GpioRegs_doc =
    [(''bt_select'', 0x0), (''out'', 0x4), (''out_w1ts'', 0x8), (''out_w1tc'', 0xC),
     (''out1'', 0x10), (''out1_w1ts'', 0x14), (''out1_w1tc'', 0x18), (''enable'', 0x20),
     (''enable_w1ts'', 0x24), (''enable_w1tc'', 0x28), (''enable1'', 0x2C),
     (''enable1_w1ts'', 0x30), (''enable1_w1tc'', 0x34), (''in'', 0x3C), (''in1'', 0x40)]"

definition esp32_SpiRegs_doc :: "(string \<times> nat) list" where
  "esp32_SpiRegs_doc =
    [(''cmd'', 0x0), (''addr'', 0x4), (''ctrl'', 0x8), (''ctrl1'', 0xC), (''ctrl2'', 0x10),
     (''clock'', 0x14), (''user'', 0x1C), (''user1'', 0x20), (''user2'', 0x24),
     (''mosi_dlen'', 0x28), (''miso_dlen'', 0x2C), (''w'', 0x80)]"

definition esp32_UartRegs_doc :: "(string \<times> nat) list" where
  "esp32_UartRegs_doc =
    [(''fifo'', 0x0), (''int_raw'', 0x4), (''int_st'', 0x8), (''int_ena'', 0xC),
     (''int_clr'', 0x10), (''clkdiv'', 0x14), (''autobaud'', 0x18), (''status'', 0x1C),
     (''conf0'', 0x20), (''conf1'', 0x24)]"

definition esp32s2_GpioRegs_doc :: "(string \<times> nat) list" where
  "esp32s2_GpioRegs_doc =
    [(''bt_select'', 0x0), (''out'', 0x4), (''out_w1ts'', 0x8), (''out_w1tc'', 0xC),
     (''out1'', 0x10), (''out1_w1ts'', 0x14), (''out1_w1tc'', 0x18), (''enable'', 0x20),
     (''enable_w1ts'', 0x24), (''enable_w1tc'', 0x28), (''enable1'', 0x2C),
     (''enable1_w1ts'', 0x30), (''enable1_w1tc'', 0x34), (''in'', 0x3C), (''in1'', 0x40)]"

definition esp32s2_SpiRegs_doc :: "(string \<times> nat) list" where
  "esp32s2_SpiRegs_doc =
    [(''cmd'', 0x0), (''addr'', 0x4), (''ctrl'', 0x8), (''ctrl1'', 0xC), (''ctrl2'', 0x10),
     (''clock'', 0x14), (''user'', 0x1C), (''user1'', 0x20), (''user2'', 0x24),
     (''mosi_dlen'', 0x28), (''miso_dlen'', 0x2C), (''w'', 0x80)]"

definition esp32s2_UartRegs_doc :: "(string \<times> nat) list" where
  "esp32s2_UartRegs_doc =
    [(''fifo'', 0x0), (''int_raw'', 0x4), (''int_st'', 0x8), (''int_ena'', 0xC),
     (''int_clr'', 0x10), (''clkdiv'', 0x14), (''autobaud'', 0x18), (''status'', 0x1C),
     (''conf0'', 0x20), (''conf1'', 0x24)]"

definition esp32s3_GpioRegs_doc :: "(string \<times> nat) list" where
  "esp32s3_GpioRegs_doc =
    [(''bt_select'', 0x0), (''out'', 0x4), (''out_w1ts'', 0x8), (''out_w1tc'', 0xC),
     (''out1'', 0x10), (''out1_w1ts'', 0x14), (''out1_w1tc'', 0x18), (''enable'', 0x20),
     (''enable_w1ts'', 0x24), (''enable_w1tc'', 0x28), (''enable1'', 0x2C),
     (''enable1_w1ts'', 0x30), (''enable1_w1tc'', 0x34), (''in'', 0x3C), (''in1'', 0x40)]"

definition esp32s3_SpiRegs_doc :: "(string \<times> nat) list" where
  "esp32s3_SpiRegs_doc =
    [(''cmd'', 0x0), (''addr'', 0x4), (''ctrl'', 0x8), (''ctrl1'', 0xC), (''ctrl2'', 0x10),
     (''clock'', 0x14), (''user'', 0x1C), (''user1'', 0x20), (''user2'', 0x24),
     (''mosi_dlen'', 0x28), (''miso_dlen'', 0x2C), (''w'', 0x80)]"

definition esp32s3_UartRegs_doc :: "(string \<times> nat) list" where
  "esp32s3_UartRegs_doc =
    [(''fifo'', 0x0), (''int_raw'', 0x4), (''int_st'', 0x8), (''int_ena'', 0xC),
     (''int_clr'', 0x10), (''clkdiv'', 0x14), (''autobaud'', 0x18), (''status'', 0x1C),
     (''conf0'', 0x20), (''conf1'', 0x24)]"

definition esp32c3_GpioRegs_doc :: "(string \<times> nat) list" where
  "esp32c3_GpioRegs_doc =
    [(''bt_select'', 0x0), (''out'', 0x4), (''out_w1ts'', 0x8), (''out_w1tc'', 0xC),
     (''out1'', 0x10), (''out1_w1ts'', 0x14), (''out1_w1tc'', 0x18), (''enable'', 0x20),
     (''enable_w1ts'', 0x24), (''enable_w1tc'', 0x28), (''enable1'', 0x2C),
     (''enable1_w1ts'', 0x30), (''enable1_w1tc'', 0x34), (''in'', 0x3C), (''in1'', 0x40)]"

definition esp32c3_SpiRegs_doc :: "(string \<times> nat) list" where
  "esp32c3_SpiRegs_doc =
    [(''cmd'', 0x0), (''addr'', 0x4), (''ctrl'', 0x8), (''ctrl1'', 0xC), (''ctrl2'', 0x10),
     (''clock'', 0x14), (''user'', 0x1C), (''user1'', 0x20), (''user2'', 0x24),
     (''mosi_dlen'', 0x28), (''miso_dlen'', 0x2C), (''w'', 0x80)]"

definition esp32c3_UartRegs_doc :: "(string \<times> nat) list" where
  "esp32c3_UartRegs_doc =
    [(''fifo'', 0x0), (''int_raw'', 0x4), (''int_st'', 0x8), (''int_ena'', 0xC),
     (''int_clr'', 0x10), (''clkdiv'', 0x14), (''autobaud'', 0x18), (''status'', 0x1C),
     (''conf0'', 0x20), (''conf1'', 0x24)]"

definition esp32c6_GpioRegs_doc :: "(string \<times> nat) list" where
  "esp32c6_GpioRegs_doc =
    [(''bt_select'', 0x0), (''out'', 0x4), (''out_w1ts'', 0x8), (''out_w1tc'', 0xC),
     (''out1'', 0x10), (''out1_w1ts'', 0x14), (''out1_w1tc'', 0x18), (''enable'', 0x20),
     (''enable_w1ts'', 0x24), (''enable_w1tc'', 0x28), (''enable1'', 0x2C),
     (''enable1_w1ts'', 0x30), (''enable1_w1tc'', 0x34), (''in'', 0x3C), (''in1'', 0x40)]"

definition esp32c6_SpiRegs_doc :: "(string \<times> nat) list" where
  "esp32c6_SpiRegs_doc =
    [(''cmd'', 0x0), (''addr'', 0x4), (''ctrl'', 0x8), (''ctrl1'', 0xC), (''ctrl2'', 0x10),
     (''clock'', 0x14), (''user'', 0x1C), (''user1'', 0x20), (''user2'', 0x24),
     (''mosi_dlen'', 0x28), (''miso_dlen'', 0x2C), (''w'', 0x80)]"

definition esp32c6_UartRegs_doc :: "(string \<times> nat) list" where
  "esp32c6_UartRegs_doc =
    [(''fifo'', 0x0), (''int_raw'', 0x4), (''int_st'', 0x8), (''int_ena'', 0xC),
     (''int_clr'', 0x10), (''clkdiv'', 0x14), (''autobaud'', 0x18), (''status'', 0x1C),
     (''conf0'', 0x20), (''conf1'', 0x24)]"

definition cm_NvicRegs_doc :: "(string \<times> nat) list" where
  "cm_NvicRegs_doc =
    [(''iser'', 0x0), (''icer'', 0x80), (''ispr'', 0x100), (''icpr'', 0x180), (''iabr'', 0x200),
     (''ipr'', 0x300)]"

definition rv_PlicRegs_doc :: "(string \<times> nat) list" where
  "rv_PlicRegs_doc = [(''priority'', 0x0), (''pending'', 0x1000), (''enable'', 0x2000)]"

definition documented :: "layout \<Rightarrow> (string \<times> nat) list \<Rightarrow> bool" where
  "documented L ds = list_all (\<lambda>(f, off). 4 * field_word f L = off) ds"

definition chip_maps :: "(layout \<times> (string \<times> nat) list) list" where
  "chip_maps =
     [(stm32f4_GpioRegs, stm32f4_GpioRegs_doc),
      (stm32f4_SpiRegs, stm32f4_SpiRegs_doc),
      (stm32f4_UsartRegs, stm32f4_UsartRegs_doc),
      (stm32f4_I2cRegs, stm32f4_I2cRegs_doc),
      (nrf52_GpioRegs, nrf52_GpioRegs_doc),
      (nrf52_SpiRegs, nrf52_SpiRegs_doc),
      (nrf52_UarteRegs, nrf52_UarteRegs_doc),
      (lpc17_GpioPortRegs, lpc17_GpioPortRegs_doc),
      (lpc17_SspRegs, lpc17_SspRegs_doc),
      (lpc17_UartRegs, lpc17_UartRegs_doc),
      (gd32vf_GpioRegs, gd32vf_GpioRegs_doc),
      (gd32vf_SpiRegs, gd32vf_SpiRegs_doc),
      (gd32vf_UsartRegs, gd32vf_UsartRegs_doc),
      (esp32_GpioRegs, esp32_GpioRegs_doc),
      (esp32_SpiRegs, esp32_SpiRegs_doc),
      (esp32_UartRegs, esp32_UartRegs_doc),
      (esp32s2_GpioRegs, esp32s2_GpioRegs_doc),
      (esp32s2_SpiRegs, esp32s2_SpiRegs_doc),
      (esp32s2_UartRegs, esp32s2_UartRegs_doc),
      (esp32s3_GpioRegs, esp32s3_GpioRegs_doc),
      (esp32s3_SpiRegs, esp32s3_SpiRegs_doc),
      (esp32s3_UartRegs, esp32s3_UartRegs_doc),
      (esp32c3_GpioRegs, esp32c3_GpioRegs_doc),
      (esp32c3_SpiRegs, esp32c3_SpiRegs_doc),
      (esp32c3_UartRegs, esp32c3_UartRegs_doc),
      (esp32c6_GpioRegs, esp32c6_GpioRegs_doc),
      (esp32c6_SpiRegs, esp32c6_SpiRegs_doc),
      (esp32c6_UartRegs, esp32c6_UartRegs_doc),
      (cm_NvicRegs, cm_NvicRegs_doc)]"

definition register_maps :: "(layout \<times> (string \<times> nat) list) list" where
  "register_maps = chip_maps @ [(rv_PlicRegs, rv_PlicRegs_doc)]"

lemma register_maps_documented: "list_all (\<lambda>(L, ds). documented L ds) register_maps"
proof -
  have "list_all (\<lambda>(L, ds). documented L ds) chip_maps" by code_simp
  moreover have "documented rv_PlicRegs rv_PlicRegs_doc"
    by (simp add: documented_def rv_PlicRegs_def rv_PlicRegs_doc_def)
  ultimately show ?thesis by (simp add: register_maps_def)
qed

text \<open>The fields of the TWIM block after \<open>events_error\<close> are not where the comments say.\<close>

lemma twim_misplaced:
  "documented nrf52_TwimRegs (take 7 nrf52_TwimRegs_doc)"
  "list_all (\<lambda>(f, off). 4 * field_word f nrf52_TwimRegs \<noteq> off) (drop 7 nrf52_TwimRegs_doc)"
  by code_simp+

end
