(* ===== verification/GpioDrv.thy ===== *)
theory GpioDrv
  imports Registers
begin

text \<open>
  The GPIO drivers of the supported chips (\<open>gpio.rs\<close> of STM32F4, nRF52840, LPC1768, GD32VF103 and the ESP32
  family): direction, level and sensing of one pin. Each driver is a dictionary of the digital-pin operations; a
  driver of a conforming port drives and senses exactly its own pin.
\<close>

section \<open>Pins\<close>

datatype PinMode = Input | InputPullUp | InputPullDown | Output | OutputOpenDrain | Alternate u8

record 's PinDriver =
  pin_set_mode :: "PinMode \<Rightarrow> ('s, unit) dev"
  pin_set_high :: "('s, unit) dev"
  pin_set_low :: "('s, unit) dev"
  pin_is_high :: "('s, bool) dev"
  pin_is_low :: "('s, bool) dev"
  pin_number :: u32

text \<open>One bit of a register, as the drivers test it: shifted down or masked.\<close>

definition bit_shifted :: "'s Mmio \<Rightarrow> u32 \<Rightarrow> nat \<Rightarrow> ('s, bool) dev" where
  "bit_shifted M a p =
     dbind (RO_read M a) (\<lambda>v. if p < 32 then dreturn (and (drop_bit p v) 1 \<noteq> 0) else dstop (Abort Panic))"

definition bit_masked :: "'s Mmio \<Rightarrow> u32 \<Rightarrow> nat \<Rightarrow> ('s, bool) dev" where
  "bit_masked M a p = dbind (RO_read M a) (\<lambda>v. dbind (shl32 1 p) (\<lambda>m. dreturn (and v m \<noteq> 0)))"

definition dnot :: "('s, bool) dev \<Rightarrow> ('s, bool) dev" where
  "dnot m = dbind m (\<lambda>b. dreturn (\<not> b))"

text \<open>Replacing a field of a register: \<open>(v & !(mask << shift)) | (x << shift)\<close>.\<close>

definition field_update :: "u32 \<Rightarrow> u32 \<Rightarrow> nat \<Rightarrow> u32 \<Rightarrow> ('s, u32) dev" where
  "field_update fm x shift v =
     dbind (shl32 fm shift) (\<lambda>m. dbind (shl32 x shift) (\<lambda>y. dreturn (or (and v (not m)) y)))"

section \<open>STM32F4\<close>

fun stm32f4_moder :: "PinMode \<Rightarrow> u32" where
  "stm32f4_moder Output = 1"
| "stm32f4_moder OutputOpenDrain = 1"
| "stm32f4_moder (Alternate _) = 2"
| "stm32f4_moder _ = 0"

fun stm32f4_pupdr :: "PinMode \<Rightarrow> u32" where
  "stm32f4_pupdr InputPullUp = 1"
| "stm32f4_pupdr InputPullDown = 2"
| "stm32f4_pupdr _ = 0"

definition Stm32F4Pin_set_mode :: "'s Mmio \<Rightarrow> u32 \<Rightarrow> u8 \<Rightarrow> PinMode \<Rightarrow> ('s, unit) dev" where
  "Stm32F4Pin_set_mode M regs pin mode =
     (let shift = unat pin * 2 in
      dseq (RW_modify M (reg regs stm32f4_GpioRegs ''moder'') (field_update 3 (stm32f4_moder mode) shift))
     (dseq (RW_modify M (reg regs stm32f4_GpioRegs ''pupdr'') (field_update 3 (stm32f4_pupdr mode) shift))
           (RW_modify M (reg regs stm32f4_GpioRegs ''otyper'')
              (field_update 1 (if mode = OutputOpenDrain then 1 else 0) (unat pin)))))"

definition Stm32F4Pin_set_high :: "'s Mmio \<Rightarrow> u32 \<Rightarrow> u8 \<Rightarrow> ('s, unit) dev" where
  "Stm32F4Pin_set_high M regs pin = dbind (shl32 1 (unat pin)) (WO_write M (reg regs stm32f4_GpioRegs ''bsrr''))"

definition Stm32F4Pin_set_low :: "'s Mmio \<Rightarrow> u32 \<Rightarrow> u8 \<Rightarrow> ('s, unit) dev" where
  "Stm32F4Pin_set_low M regs pin =
     (if unat pin + 16 < 256
      then dbind (shl32 1 (unat pin + 16)) (WO_write M (reg regs stm32f4_GpioRegs ''bsrr''))
      else dstop (Abort Panic))"

definition Stm32F4Pin_is_high :: "'s Mmio \<Rightarrow> u32 \<Rightarrow> u8 \<Rightarrow> ('s, bool) dev" where
  "Stm32F4Pin_is_high M regs pin = bit_shifted M (reg regs stm32f4_GpioRegs ''idr'') (unat pin)"

definition Stm32F4Pin_is_set_high :: "'s Mmio \<Rightarrow> u32 \<Rightarrow> u8 \<Rightarrow> ('s, bool) dev" where
  "Stm32F4Pin_is_set_high M regs pin = bit_shifted M (reg regs stm32f4_GpioRegs ''odr'') (unat pin)"

definition Stm32F4Pin :: "'s Mmio \<Rightarrow> u32 \<Rightarrow> u8 \<Rightarrow> 's PinDriver" where
  "Stm32F4Pin M regs pin = \<lparr>pin_set_mode = Stm32F4Pin_set_mode M regs pin,
     pin_set_high = Stm32F4Pin_set_high M regs pin, pin_set_low = Stm32F4Pin_set_low M regs pin,
     pin_is_high = Stm32F4Pin_is_high M regs pin, pin_is_low = dnot (Stm32F4Pin_is_high M regs pin),
     pin_number = ucast pin\<rparr>"

section \<open>nRF52840\<close>

fun nrf52_pin_cnf :: "PinMode \<Rightarrow> u32" where
  "nrf52_pin_cnf Input = 0"
| "nrf52_pin_cnf InputPullUp = or (push_bit 2 1) (push_bit 4 3)"
| "nrf52_pin_cnf InputPullDown = or (push_bit 2 1) (push_bit 4 1)"
| "nrf52_pin_cnf Output = or 1 (push_bit 8 3)"
| "nrf52_pin_cnf OutputOpenDrain = or 1 (push_bit 8 6)"
| "nrf52_pin_cnf (Alternate _) = 0"

text \<open>The index into the 32 configuration registers is checked.\<close>

definition Nrf52Pin_set_mode :: "'s Mmio \<Rightarrow> u32 \<Rightarrow> u8 \<Rightarrow> PinMode \<Rightarrow> ('s, unit) dev" where
  "Nrf52Pin_set_mode M regs pin mode =
     (if unat pin < 32 then RW_write M (reg_at regs nrf52_GpioRegs ''pin_cnf'' (unat pin)) (nrf52_pin_cnf mode)
      else dstop (Abort Panic))"

definition Nrf52Pin_set_high :: "'s Mmio \<Rightarrow> u32 \<Rightarrow> u8 \<Rightarrow> ('s, unit) dev" where
  "Nrf52Pin_set_high M regs pin = dbind (shl32 1 (unat pin)) (WO_write M (reg regs nrf52_GpioRegs ''outset''))"

definition Nrf52Pin_set_low :: "'s Mmio \<Rightarrow> u32 \<Rightarrow> u8 \<Rightarrow> ('s, unit) dev" where
  "Nrf52Pin_set_low M regs pin = dbind (shl32 1 (unat pin)) (WO_write M (reg regs nrf52_GpioRegs ''outclr''))"

definition Nrf52Pin_is_high :: "'s Mmio \<Rightarrow> u32 \<Rightarrow> u8 \<Rightarrow> ('s, bool) dev" where
  "Nrf52Pin_is_high M regs pin = bit_masked M (reg regs nrf52_GpioRegs ''in'') (unat pin)"

definition Nrf52Pin_is_set_high :: "'s Mmio \<Rightarrow> u32 \<Rightarrow> u8 \<Rightarrow> ('s, bool) dev" where
  "Nrf52Pin_is_set_high M regs pin = bit_masked M (reg regs nrf52_GpioRegs ''out'') (unat pin)"

definition Nrf52Pin :: "'s Mmio \<Rightarrow> u32 \<Rightarrow> u8 \<Rightarrow> 's PinDriver" where
  "Nrf52Pin M regs pin = \<lparr>pin_set_mode = Nrf52Pin_set_mode M regs pin,
     pin_set_high = Nrf52Pin_set_high M regs pin, pin_set_low = Nrf52Pin_set_low M regs pin,
     pin_is_high = Nrf52Pin_is_high M regs pin, pin_is_low = dnot (Nrf52Pin_is_high M regs pin),
     pin_number = ucast pin\<rparr>"

section \<open>LPC1768\<close>

definition Lpc17Pin_set_mode :: "'s Mmio \<Rightarrow> u8 \<Rightarrow> u8 \<Rightarrow> PinMode \<Rightarrow> ('s, unit) dev" where
  "Lpc17Pin_set_mode M port pin mode =
     dbind (shl32 1 (unat pin)) (\<lambda>mask.
       RW_modify M (reg (lpc17_gpio_port port) lpc17_GpioPortRegs ''dir'')
         (\<lambda>v. dreturn (if mode = Output \<or> mode = OutputOpenDrain then or v mask else and v (not mask))))"

definition Lpc17Pin_set_high :: "'s Mmio \<Rightarrow> u8 \<Rightarrow> u8 \<Rightarrow> ('s, unit) dev" where
  "Lpc17Pin_set_high M port pin =
     dbind (shl32 1 (unat pin)) (WO_write M (reg (lpc17_gpio_port port) lpc17_GpioPortRegs ''set''))"

definition Lpc17Pin_set_low :: "'s Mmio \<Rightarrow> u8 \<Rightarrow> u8 \<Rightarrow> ('s, unit) dev" where
  "Lpc17Pin_set_low M port pin =
     dbind (shl32 1 (unat pin)) (WO_write M (reg (lpc17_gpio_port port) lpc17_GpioPortRegs ''clr''))"

definition Lpc17Pin_is_high :: "'s Mmio \<Rightarrow> u8 \<Rightarrow> u8 \<Rightarrow> ('s, bool) dev" where
  "Lpc17Pin_is_high M port pin = bit_masked M (reg (lpc17_gpio_port port) lpc17_GpioPortRegs ''pin'') (unat pin)"

definition Lpc17Pin :: "'s Mmio \<Rightarrow> u8 \<Rightarrow> u8 \<Rightarrow> 's PinDriver" where
  "Lpc17Pin M port pin = \<lparr>pin_set_mode = Lpc17Pin_set_mode M port pin,
     pin_set_high = Lpc17Pin_set_high M port pin, pin_set_low = Lpc17Pin_set_low M port pin,
     pin_is_high = Lpc17Pin_is_high M port pin, pin_is_low = dnot (Lpc17Pin_is_high M port pin),
     pin_number = ucast port * 32 + ucast pin\<rparr>"

section \<open>GD32VF103\<close>

fun gd32vf_ctl :: "PinMode \<Rightarrow> u32 \<times> u32" where
  "gd32vf_ctl Input = (0, 1)"
| "gd32vf_ctl InputPullUp = (0, 2)"
| "gd32vf_ctl InputPullDown = (0, 2)"
| "gd32vf_ctl Output = (3, 0)"
| "gd32vf_ctl OutputOpenDrain = (3, 1)"
| "gd32vf_ctl (Alternate _) = (3, 2)"

text \<open>The pull direction of an input is the pin's bit of the output register.\<close>

definition gd32vf_pull :: "'s Mmio \<Rightarrow> u32 \<Rightarrow> u8 \<Rightarrow> PinMode \<Rightarrow> ('s, unit) dev" where
  "gd32vf_pull M regs pin mode =
     (if mode = InputPullUp then
        RW_modify M (reg regs gd32vf_GpioRegs ''ostat'') (\<lambda>v. dbind (shl32 1 (unat pin)) (\<lambda>m. dreturn (or v m)))
      else if mode = InputPullDown then
        RW_modify M (reg regs gd32vf_GpioRegs ''ostat'') (\<lambda>v. dbind (shl32 1 (unat pin)) (\<lambda>m. dreturn (and v (not m))))
      else dreturn ())"

definition Gd32VfPin_set_mode :: "'s Mmio \<Rightarrow> u32 \<Rightarrow> u8 \<Rightarrow> PinMode \<Rightarrow> ('s, unit) dev" where
  "Gd32VfPin_set_mode M regs pin mode =
     dseq (gd32vf_pull M regs pin mode)
       (case gd32vf_ctl mode of (md, ctl) \<Rightarrow>
          let val = or (push_bit 2 ctl) md in
          if unat pin < 8
          then RW_modify M (reg regs gd32vf_GpioRegs ''ctl0'') (field_update 15 val (unat pin * 4))
          else RW_modify M (reg regs gd32vf_GpioRegs ''ctl1'') (field_update 15 val ((unat pin - 8) * 4)))"

definition Gd32VfPin_set_high :: "'s Mmio \<Rightarrow> u32 \<Rightarrow> u8 \<Rightarrow> ('s, unit) dev" where
  "Gd32VfPin_set_high M regs pin = dbind (shl32 1 (unat pin)) (WO_write M (reg regs gd32vf_GpioRegs ''bop''))"

definition Gd32VfPin_set_low :: "'s Mmio \<Rightarrow> u32 \<Rightarrow> u8 \<Rightarrow> ('s, unit) dev" where
  "Gd32VfPin_set_low M regs pin =
     (if unat pin + 16 < 256
      then dbind (shl32 1 (unat pin + 16)) (WO_write M (reg regs gd32vf_GpioRegs ''bop''))
      else dstop (Abort Panic))"

definition Gd32VfPin_is_set_high :: "'s Mmio \<Rightarrow> u32 \<Rightarrow> u8 \<Rightarrow> ('s, bool) dev" where
  "Gd32VfPin_is_set_high M regs pin = bit_shifted M (reg regs gd32vf_GpioRegs ''istat'') (unat pin)"

definition Gd32VfPin :: "'s Mmio \<Rightarrow> u32 \<Rightarrow> u8 \<Rightarrow> 's PinDriver" where
  "Gd32VfPin M regs pin = \<lparr>pin_set_mode = Gd32VfPin_set_mode M regs pin,
     pin_set_high = Gd32VfPin_set_high M regs pin, pin_set_low = Gd32VfPin_set_low M regs pin,
     pin_is_high = Gd32VfPin_is_set_high M regs pin, pin_is_low = dnot (Gd32VfPin_is_set_high M regs pin),
     pin_number = ucast pin\<rparr>"

section \<open>ESP32 family\<close>

text \<open>
  The five drivers differ in the address and the declaration of the register block only: the code is stated
  once over them. Each operation picks one of two banks of 32 pins.
\<close>

definition esp_bank_write :: "'s Mmio \<Rightarrow> u32 \<Rightarrow> layout \<Rightarrow> string \<Rightarrow> string \<Rightarrow> u8 \<Rightarrow> ('s, unit) dev" where
  "esp_bank_write M gpio L r0 r1 pin =
     (if unat pin < 32 then dbind (shl32 1 (unat pin)) (WO_write M (reg gpio L r0))
      else dbind (shl32 1 (unat pin - 32)) (WO_write M (reg gpio L r1)))"

definition EspPin_set_mode :: "'s Mmio \<Rightarrow> u32 \<Rightarrow> layout \<Rightarrow> u8 \<Rightarrow> PinMode \<Rightarrow> ('s, unit) dev" where
  "EspPin_set_mode M gpio L pin mode =
     (if mode = Output \<or> mode = OutputOpenDrain
      then esp_bank_write M gpio L ''enable_w1ts'' ''enable1_w1ts'' pin
      else esp_bank_write M gpio L ''enable_w1tc'' ''enable1_w1tc'' pin)"

definition EspPin_is_set_high :: "'s Mmio \<Rightarrow> u32 \<Rightarrow> layout \<Rightarrow> u8 \<Rightarrow> ('s, bool) dev" where
  "EspPin_is_set_high M gpio L pin =
     (if unat pin < 32 then bit_shifted M (reg gpio L ''in'') (unat pin)
      else bit_shifted M (reg gpio L ''in1'') (unat pin - 32))"

definition EspPin_set_high :: "'s Mmio \<Rightarrow> u32 \<Rightarrow> layout \<Rightarrow> u8 \<Rightarrow> ('s, unit) dev" where
  "EspPin_set_high M gpio L pin = esp_bank_write M gpio L ''out_w1ts'' ''out1_w1ts'' pin"

definition EspPin_set_low :: "'s Mmio \<Rightarrow> u32 \<Rightarrow> layout \<Rightarrow> u8 \<Rightarrow> ('s, unit) dev" where
  "EspPin_set_low M gpio L pin = esp_bank_write M gpio L ''out_w1tc'' ''out1_w1tc'' pin"

definition EspPin :: "'s Mmio \<Rightarrow> u32 \<Rightarrow> layout \<Rightarrow> u8 \<Rightarrow> 's PinDriver" where
  "EspPin M gpio L pin = \<lparr>pin_set_mode = EspPin_set_mode M gpio L pin,
     pin_set_high = EspPin_set_high M gpio L pin, pin_set_low = EspPin_set_low M gpio L pin,
     pin_is_high = EspPin_is_set_high M gpio L pin, pin_is_low = dnot (EspPin_is_set_high M gpio L pin),
     pin_number = ucast pin\<rparr>"

definition Esp32Pin :: "'s Mmio \<Rightarrow> u8 \<Rightarrow> 's PinDriver" where
  "Esp32Pin M = EspPin M esp32_gpio esp32_GpioRegs"

definition Esp32S2Pin :: "'s Mmio \<Rightarrow> u8 \<Rightarrow> 's PinDriver" where
  "Esp32S2Pin M = EspPin M esp32s2_gpio esp32s2_GpioRegs"

definition Esp32S3Pin :: "'s Mmio \<Rightarrow> u8 \<Rightarrow> 's PinDriver" where
  "Esp32S3Pin M = EspPin M esp32s3_gpio esp32s3_GpioRegs"

definition Esp32C3Pin :: "'s Mmio \<Rightarrow> u8 \<Rightarrow> 's PinDriver" where
  "Esp32C3Pin M = EspPin M esp32c3_gpio esp32c3_GpioRegs"

definition Esp32C6Pin :: "'s Mmio \<Rightarrow> u8 \<Rightarrow> 's PinDriver" where
  "Esp32C6Pin M = EspPin M esp32c6_gpio esp32c6_GpioRegs"

section \<open>Conforming ports\<close>

text \<open>
  What the chips document. \<open>lv s p\<close> is the driven level of pin \<open>p\<close> and \<open>inp s p\<close> the sensed one. A register that
  sets (or clears) the pins of a bank whose bit is written as one; the set and reset register of STM32 and GD32VF,
  where the lower half sets, the upper half resets and setting wins; an input register.
\<close>

type_synonym 's levels = "'s \<Rightarrow> nat \<Rightarrow> bool"

definition bank_register :: "'s Mmio \<Rightarrow> 's levels \<Rightarrow> u32 \<Rightarrow> bool \<Rightarrow> nat \<Rightarrow> bool" where
  "bank_register M lv a b lo \<longleftrightarrow>
     (\<forall>v s. lv (io_write M a v s) = (\<lambda>p. if lo \<le> p \<and> p < lo + 32 \<and> bit v (p - lo) then b else lv s p))"

definition set_reset_register :: "'s Mmio \<Rightarrow> 's levels \<Rightarrow> u32 \<Rightarrow> bool" where
  "set_reset_register M lv a \<longleftrightarrow>
     (\<forall>v s. lv (io_write M a v s) =
        (\<lambda>p. if p < 16 \<and> bit v p then True else if p < 16 \<and> bit v (p + 16) then False else lv s p))"

definition input_register :: "'s Mmio \<Rightarrow> 's levels \<Rightarrow> u32 \<Rightarrow> nat \<Rightarrow> nat \<Rightarrow> bool" where
  "input_register M inp a lo n \<longleftrightarrow> (\<forall>s p. p < n \<longrightarrow> bit (fst (io_read M a s)) p = inp s (lo + p))"

definition stm32f4_port :: "u32 \<Rightarrow> 's Mmio \<Rightarrow> 's levels \<Rightarrow> 's levels \<Rightarrow> bool" where
  "stm32f4_port regs M lv inp \<longleftrightarrow> set_reset_register M lv (reg regs stm32f4_GpioRegs ''bsrr'') \<and>
     input_register M inp (reg regs stm32f4_GpioRegs ''idr'') 0 16"

definition nrf52_port :: "u32 \<Rightarrow> 's Mmio \<Rightarrow> 's levels \<Rightarrow> 's levels \<Rightarrow> bool" where
  "nrf52_port regs M lv inp \<longleftrightarrow> bank_register M lv (reg regs nrf52_GpioRegs ''outset'') True 0 \<and>
     bank_register M lv (reg regs nrf52_GpioRegs ''outclr'') False 0 \<and>
     input_register M inp (reg regs nrf52_GpioRegs ''in'') 0 32"

definition lpc17_port :: "u8 \<Rightarrow> 's Mmio \<Rightarrow> 's levels \<Rightarrow> 's levels \<Rightarrow> bool" where
  "lpc17_port port M lv inp \<longleftrightarrow>
     bank_register M lv (reg (lpc17_gpio_port port) lpc17_GpioPortRegs ''set'') True 0 \<and>
     bank_register M lv (reg (lpc17_gpio_port port) lpc17_GpioPortRegs ''clr'') False 0 \<and>
     input_register M inp (reg (lpc17_gpio_port port) lpc17_GpioPortRegs ''pin'') 0 32"

definition gd32vf_port :: "u32 \<Rightarrow> 's Mmio \<Rightarrow> 's levels \<Rightarrow> 's levels \<Rightarrow> bool" where
  "gd32vf_port regs M lv inp \<longleftrightarrow> set_reset_register M lv (reg regs gd32vf_GpioRegs ''bop'') \<and>
     input_register M inp (reg regs gd32vf_GpioRegs ''istat'') 0 16"

definition esp_port :: "u32 \<Rightarrow> layout \<Rightarrow> 's Mmio \<Rightarrow> 's levels \<Rightarrow> 's levels \<Rightarrow> bool" where
  "esp_port gpio L M lv inp \<longleftrightarrow>
     bank_register M lv (reg gpio L ''out_w1ts'') True 0 \<and> bank_register M lv (reg gpio L ''out_w1tc'') False 0 \<and>
     bank_register M lv (reg gpio L ''out1_w1ts'') True 32 \<and> bank_register M lv (reg gpio L ''out1_w1tc'') False 32 \<and>
     input_register M inp (reg gpio L ''in'') 0 32 \<and> input_register M inp (reg gpio L ''in1'') 32 32"

section \<open>The contract of a pin driver\<close>

locale gpio_chip =
  fixes conforms :: "'s Mmio \<Rightarrow> 's levels \<Rightarrow> 's levels \<Rightarrow> bool"
    and driver :: "'s Mmio \<Rightarrow> u8 \<Rightarrow> 's PinDriver"
    and pins :: nat
  assumes set_high: "conforms M lv inp \<Longrightarrow> unat p < pins \<Longrightarrow>
      \<exists>s'. pin_set_high (driver M p) s = Some (Inr (), s') \<and> lv s' = (lv s)(unat p := True)"
    and set_low: "conforms M lv inp \<Longrightarrow> unat p < pins \<Longrightarrow>
      \<exists>s'. pin_set_low (driver M p) s = Some (Inr (), s') \<and> lv s' = (lv s)(unat p := False)"
    and is_high: "conforms M lv inp \<Longrightarrow> unat p < pins \<Longrightarrow>
      \<exists>s'. pin_is_high (driver M p) s = Some (Inr (inp s (unat p)), s')"
    and is_low: "pin_is_low (driver M p) = dnot (pin_is_high (driver M p))"
begin

text \<open>Driving a pin to a level, and a sequence of such calls to any pins of the port.\<close>

definition drive :: "'s Mmio \<Rightarrow> u8 \<times> bool \<Rightarrow> ('s, unit) dev" where
  "drive M = (\<lambda>(p, b). if b then pin_set_high (driver M p) else pin_set_low (driver M p))"

lemma drive_sets:
  assumes "conforms M lv inp" "unat p < pins"
  shows "\<exists>s'. drive M (p, b) s = Some (Inr (), s') \<and> lv s' = (lv s)(unat p := b)"
  using set_high [OF assms, of s] set_low [OF assms, of s] by (cases b) (simp_all add: drive_def)

lemma drive_all:
  assumes "conforms M lv inp" "\<forall>(p, b)\<in>set ds. unat p < pins"
  shows "\<exists>s'. dfor (drive M) ds s = Some (Inr (), s') \<and>
     lv s' = fold (\<lambda>(p, b) l. l(unat p := b)) ds (lv s)"
  using assms(2)
proof (induction ds arbitrary: s)
  case (Cons d ds)
  obtain p b where d: "d = (p, b)" by fastforce
  with Cons.prems have "unat p < pins" by simp
  from drive_sets [OF assms(1) this] obtain s1 where
    s1: "drive M (p, b) s = Some (Inr (), s1)" "lv s1 = (lv s)(unat p := b)" by blast
  from Cons.IH [of s1] Cons.prems obtain s2 where
    "dfor (drive M) ds s1 = Some (Inr (), s2)" "lv s2 = fold (\<lambda>(p, b) l. l(unat p := b)) ds (lv s1)"
    by (metis list.set_intros(2))
  with s1 show ?case by (simp add: d dseq_Some dev_eval del: fun_upd_apply)
qed (simp add: dev_eval)

lemma senses:
  assumes "conforms M lv inp" "unat p < pins"
  shows "\<exists>s'. pin_is_high (driver M p) s = Some (Inr (inp s (unat p)), s')"
    "\<exists>s'. pin_is_low (driver M p) s = Some (Inr (\<not> inp s (unat p)), s')"
  using is_high [OF assms, of s] by (auto simp: is_low dnot_def dbind_Some dev_eval)

end

section \<open>The drivers meet the contract\<close>

lemma bank_register_one:
  "bank_register M lv a b lo \<Longrightarrow> lo \<le> p \<Longrightarrow> p < lo + 32 \<Longrightarrow> lv (io_write M a (2 ^ (p - lo)) s) = (lv s)(p := b)"
  by (auto simp: bank_register_def fun_eq_iff bit_simps)

lemma set_reset_one:
  assumes "set_reset_register M lv a" "p < 16"
  shows "lv (io_write M a (2 ^ p) s) = (lv s)(p := True)"
    "lv (io_write M a (2 ^ (p + 16)) s) = (lv s)(p := False)"
  using assms by (auto simp: set_reset_register_def fun_eq_iff bit_simps)

lemma bit_read:
  assumes "input_register M inp a lo n" "p < n" "n \<le> 32"
  shows "\<exists>s'. bit_shifted M a p s = Some (Inr (inp s (lo + p)), s')"
    "\<exists>s'. bit_masked M a p s = Some (Inr (inp s (lo + p)), s')"
proof -
  obtain v s' where r: "io_read M a s = (v, s')" by fastforce
  with assms have "bit v p = inp s (lo + p)" unfolding input_register_def by (metis fst_conv)
  then show "\<exists>s'. bit_shifted M a p s = Some (Inr (inp s (lo + p)), s')"
    "\<exists>s'. bit_masked M a p s = Some (Inr (inp s (lo + p)), s')"
    using assms(2,3) by (simp_all add: bit_shifted_def bit_masked_def r bit_test dev_eval)
qed

interpretation stm32_pin: gpio_chip "stm32f4_port regs" "\<lambda>M. Stm32F4Pin M regs" 16
proof
  fix M :: "'a Mmio" and lv inp p s
  assume c: "stm32f4_port regs M lv inp" "unat (p :: u8) < 16"
  then show "\<exists>s'. pin_set_high (Stm32F4Pin M regs p) s = Some (Inr (), s') \<and> lv s' = (lv s)(unat p := True)"
    "\<exists>s'. pin_set_low (Stm32F4Pin M regs p) s = Some (Inr (), s') \<and> lv s' = (lv s)(unat p := False)"
    by (simp_all add: Stm32F4Pin_def Stm32F4Pin_set_high_def Stm32F4Pin_set_low_def stm32f4_port_def set_reset_one fun_eq_iff dev_eval)
  from c show "\<exists>s'. pin_is_high (Stm32F4Pin M regs p) s = Some (Inr (inp s (unat p)), s')"
    using bit_read(1) [of M inp _ 0 16 "unat p" s] by (simp add: Stm32F4Pin_def Stm32F4Pin_is_high_def stm32f4_port_def)
qed (simp add: Stm32F4Pin_def)

interpretation gd32_pin: gpio_chip "gd32vf_port regs" "\<lambda>M. Gd32VfPin M regs" 16
proof
  fix M :: "'a Mmio" and lv inp p s
  assume c: "gd32vf_port regs M lv inp" "unat (p :: u8) < 16"
  then show "\<exists>s'. pin_set_high (Gd32VfPin M regs p) s = Some (Inr (), s') \<and> lv s' = (lv s)(unat p := True)"
    "\<exists>s'. pin_set_low (Gd32VfPin M regs p) s = Some (Inr (), s') \<and> lv s' = (lv s)(unat p := False)"
    by (simp_all add: Gd32VfPin_def Gd32VfPin_set_high_def Gd32VfPin_set_low_def gd32vf_port_def set_reset_one fun_eq_iff dev_eval)
  from c show "\<exists>s'. pin_is_high (Gd32VfPin M regs p) s = Some (Inr (inp s (unat p)), s')"
    using bit_read(1) [of M inp _ 0 16 "unat p" s] by (simp add: Gd32VfPin_def Gd32VfPin_is_set_high_def gd32vf_port_def)
qed (simp add: Gd32VfPin_def)

interpretation nrf_pin: gpio_chip "nrf52_port regs" "\<lambda>M. Nrf52Pin M regs" 32
proof
  fix M :: "'a Mmio" and lv inp p s
  assume c: "nrf52_port regs M lv inp" "unat (p :: u8) < 32"
  then show "\<exists>s'. pin_set_high (Nrf52Pin M regs p) s = Some (Inr (), s') \<and> lv s' = (lv s)(unat p := True)"
    "\<exists>s'. pin_set_low (Nrf52Pin M regs p) s = Some (Inr (), s') \<and> lv s' = (lv s)(unat p := False)"
    by (simp_all add: Nrf52Pin_def Nrf52Pin_set_high_def Nrf52Pin_set_low_def nrf52_port_def bank_register_one [of _ _ _ _ 0, simplified] dev_eval)
  from c show "\<exists>s'. pin_is_high (Nrf52Pin M regs p) s = Some (Inr (inp s (unat p)), s')"
    using bit_read(2) [of M inp _ 0 32 "unat p" s] by (simp add: Nrf52Pin_def Nrf52Pin_is_high_def nrf52_port_def)
qed (simp add: Nrf52Pin_def)

interpretation lpc_pin: gpio_chip "lpc17_port port" "\<lambda>M. Lpc17Pin M port" 32
proof
  fix M :: "'a Mmio" and lv inp p s
  assume c: "lpc17_port port M lv inp" "unat (p :: u8) < 32"
  then show "\<exists>s'. pin_set_high (Lpc17Pin M port p) s = Some (Inr (), s') \<and> lv s' = (lv s)(unat p := True)"
    "\<exists>s'. pin_set_low (Lpc17Pin M port p) s = Some (Inr (), s') \<and> lv s' = (lv s)(unat p := False)"
    by (simp_all add: Lpc17Pin_def Lpc17Pin_set_high_def Lpc17Pin_set_low_def lpc17_port_def bank_register_one [of _ _ _ _ 0, simplified] dev_eval)
  from c show "\<exists>s'. pin_is_high (Lpc17Pin M port p) s = Some (Inr (inp s (unat p)), s')"
    using bit_read(2) [of M inp _ 0 32 "unat p" s] by (simp add: Lpc17Pin_def Lpc17Pin_is_high_def lpc17_port_def)
qed (simp add: Lpc17Pin_def)

interpretation esp_pin: gpio_chip "esp_port gpio L" "\<lambda>M. EspPin M gpio L" 64
proof
  fix M :: "'a Mmio" and lv inp p s
  assume c: "esp_port gpio L M lv inp" "unat (p :: u8) < 64"
  note bank = bank_register_one [of _ _ _ _ 0, simplified] bank_register_one [of _ _ _ _ 32]
  show "\<exists>s'. pin_set_high (EspPin M gpio L p) s = Some (Inr (), s') \<and> lv s' = (lv s)(unat p := True)"
    "\<exists>s'. pin_set_low (EspPin M gpio L p) s = Some (Inr (), s') \<and> lv s' = (lv s)(unat p := False)"
    using c by (auto simp: EspPin_def EspPin_set_high_def EspPin_set_low_def esp_bank_write_def esp_port_def bank dev_eval)
  show "\<exists>s'. pin_is_high (EspPin M gpio L p) s = Some (Inr (inp s (unat p)), s')"
    using c bit_read(1) [of M inp "reg gpio L ''in''" 0 32 "unat p" s]
      bit_read(1) [of M inp "reg gpio L ''in1''" 32 32 "unat p - 32" s]
    by (auto simp: EspPin_def EspPin_is_set_high_def esp_port_def)
qed (simp add: EspPin_def)

end
