(* ===== verification/UartDrv.thy ===== *)
theory UartDrv
  imports Registers "HOL-Library.Sublist"
begin

text \<open>
  The serial-port drivers (\<open>uart.rs\<close> of each chip): configuration, blocking writes and reads by polling, and the
  nRF52840's transfers by DMA. A polling driver of a conforming port sends every byte once and in order, and
  a read returns the next bytes of the line.
\<close>

section \<open>Configuration\<close>

datatype DataBits = Five | Six | Seven | Eight
datatype StopBits = One | Two
datatype Parity = NoParity | Even | Odd
datatype FlowControl = NoFlow | RtsCts

record UartConfig =
  baud_rate :: u32
  data_bits :: DataBits
  stop_bits :: StopBits
  uc_parity :: Parity
  flow_control :: FlowControl

definition UartConfig_default :: UartConfig where
  "UartConfig_default = \<lparr>baud_rate = 115200, data_bits = Eight, stop_bits = One, uc_parity = NoParity,
     flow_control = NoFlow\<rparr>"

section \<open>Polling\<close>

text \<open>
  The loops the drivers share. \<open>send_polled\<close> waits until the status register lets a byte be written.
  \<open>drain\<close> takes bytes while the status register shows one and the buffer has room; it returns the bytes taken.
\<close>

definition send_polled :: "'s Mmio \<Rightarrow> u32 \<Rightarrow> u32 \<Rightarrow> (u32 \<Rightarrow> bool) \<Rightarrow> u8 list \<Rightarrow> ('s, nat) dev" where
  "send_polled M stat dat full buf =
     dseq (dfor (\<lambda>b. dseq (spin_while M stat full) (RW_write M dat (ucast b))) buf) (dreturn (length buf))"

fun drain :: "'s Mmio \<Rightarrow> u32 \<Rightarrow> u32 \<Rightarrow> (u32 \<Rightarrow> bool) \<Rightarrow> nat \<Rightarrow> ('s, u8 list) dev" where
  "drain M stat dat nodata 0 = dreturn []"
| "drain M stat dat nodata (Suc n) =
     dbind (RW_read M stat) (\<lambda>v.
       if nodata v then dreturn []
       else dbind (RW_read M dat) (\<lambda>b. dbind (drain M stat dat nodata n) (\<lambda>bs. dreturn (ucast b # bs))))"

text \<open>A read returns the number of bytes and the buffer, overwritten from its start.\<close>

definition recv_polled :: "'s Mmio \<Rightarrow> u32 \<Rightarrow> u32 \<Rightarrow> (u32 \<Rightarrow> bool) \<Rightarrow> u8 list \<Rightarrow> ('s, nat \<times> u8 list) dev" where
  "recv_polled M stat dat nodata buf =
     (if buf = [] then dreturn (0, [])
      else dseq (spin_while M stat nodata)
        (dbind (drain M stat dat nodata (length buf)) (\<lambda>bs. dreturn (length bs, bs @ drop (length bs) buf))))"

record 's UartDriver =
  uart_configure :: "UartConfig \<Rightarrow> ('s, unit) dev"
  uart_available :: "('s, nat) dev"
  uart_write :: "u8 list \<Rightarrow> ('s, nat) dev"
  uart_flush :: "('s, unit) dev"
  uart_read :: "u8 list \<Rightarrow> ('s, nat \<times> u8 list) dev"

text \<open>A status bit.\<close>

abbreviation clear_bit :: "nat \<Rightarrow> u32 \<Rightarrow> bool" where
  "clear_bit n v \<equiv> and v (push_bit n 1) = 0"

section \<open>STM32F4\<close>

definition stm32f4_uart_cr1 :: "UartConfig \<Rightarrow> u32" where
  "stm32f4_uart_cr1 config =
     (let cr1 = or (push_bit 3 1) (push_bit 2 1) in
      case uc_parity config of
        NoParity \<Rightarrow> cr1 | Even \<Rightarrow> or cr1 (push_bit 10 1) | Odd \<Rightarrow> or cr1 (or (push_bit 10 1) (push_bit 9 1)))"

definition Stm32F4Uart_configure :: "'s Mmio \<Rightarrow> u32 \<Rightarrow> UartConfig \<Rightarrow> ('s, unit) dev" where
  "Stm32F4Uart_configure M regs config =
     (if data_bits config \<noteq> Eight then dstop (Err NotSupported)
      else
        let cr1 = stm32f4_uart_cr1 config;
            cr2 = (case stop_bits config of One \<Rightarrow> 0 | Two \<Rightarrow> push_bit 12 2)
        in dbind (div32 16000000 (baud_rate config)) (\<lambda>brr.
           dseq (RW_write M (reg regs stm32f4_UsartRegs ''brr'') brr)
          (dseq (RW_write M (reg regs stm32f4_UsartRegs ''cr2'') cr2)
          (dseq (RW_write M (reg regs stm32f4_UsartRegs ''cr1'') cr1)
                (RW_modify M (reg regs stm32f4_UsartRegs ''cr1'') (\<lambda>v. dreturn (or v (push_bit 13 1))))))))"

definition Stm32F4Uart_available :: "'s Mmio \<Rightarrow> u32 \<Rightarrow> ('s, nat) dev" where
  "Stm32F4Uart_available M regs =
     dbind (RW_read M (reg regs stm32f4_UsartRegs ''sr'')) (\<lambda>v. dreturn (if \<not> clear_bit 5 v then 1 else 0))"

definition Stm32F4Uart_write :: "'s Mmio \<Rightarrow> u32 \<Rightarrow> u8 list \<Rightarrow> ('s, nat) dev" where
  "Stm32F4Uart_write M regs = send_polled M (reg regs stm32f4_UsartRegs ''sr'') (reg regs stm32f4_UsartRegs ''dr'') (clear_bit 7)"

definition Stm32F4Uart_flush :: "'s Mmio \<Rightarrow> u32 \<Rightarrow> ('s, unit) dev" where
  "Stm32F4Uart_flush M regs = spin_while M (reg regs stm32f4_UsartRegs ''sr'') (clear_bit 6)"

definition Stm32F4Uart_read :: "'s Mmio \<Rightarrow> u32 \<Rightarrow> u8 list \<Rightarrow> ('s, nat \<times> u8 list) dev" where
  "Stm32F4Uart_read M regs = recv_polled M (reg regs stm32f4_UsartRegs ''sr'') (reg regs stm32f4_UsartRegs ''dr'') (clear_bit 5)"

definition Stm32F4Uart :: "'s Mmio \<Rightarrow> u32 \<Rightarrow> 's UartDriver" where
  "Stm32F4Uart M regs = \<lparr>uart_configure = Stm32F4Uart_configure M regs, uart_available = Stm32F4Uart_available M regs,
     uart_write = Stm32F4Uart_write M regs, uart_flush = Stm32F4Uart_flush M regs, uart_read = Stm32F4Uart_read M regs\<rparr>"

section \<open>GD32VF103\<close>

definition gd32vf_uart_ctl0 :: "UartConfig \<Rightarrow> u32" where
  "gd32vf_uart_ctl0 config =
     (let ctl0 = or (push_bit 3 1) (push_bit 2 1) in
      case uc_parity config of
        NoParity \<Rightarrow> ctl0 | Even \<Rightarrow> or ctl0 (push_bit 10 1) | Odd \<Rightarrow> or ctl0 (or (push_bit 10 1) (push_bit 9 1)))"

definition Gd32VfUart_configure :: "'s Mmio \<Rightarrow> u32 \<Rightarrow> UartConfig \<Rightarrow> ('s, unit) dev" where
  "Gd32VfUart_configure M regs config =
     (if data_bits config \<noteq> Eight then dstop (Err NotSupported)
      else
        let ctl0 = gd32vf_uart_ctl0 config;
            ctl1 = (case stop_bits config of One \<Rightarrow> 0 | Two \<Rightarrow> push_bit 12 2)
        in dbind (div32 108000000 (baud_rate config)) (\<lambda>baud_val.
           dseq (RW_write M (reg regs gd32vf_UsartRegs ''baud'') baud_val)
          (dseq (RW_write M (reg regs gd32vf_UsartRegs ''ctl1'') ctl1)
          (dseq (RW_write M (reg regs gd32vf_UsartRegs ''ctl0'') ctl0)
                (RW_modify M (reg regs gd32vf_UsartRegs ''ctl0'') (\<lambda>v. dreturn (or v (push_bit 13 1))))))))"

definition Gd32VfUart_available :: "'s Mmio \<Rightarrow> u32 \<Rightarrow> ('s, nat) dev" where
  "Gd32VfUart_available M regs =
     dbind (RO_read M (reg regs gd32vf_UsartRegs ''stat'')) (\<lambda>v. dreturn (if \<not> clear_bit 5 v then 1 else 0))"

definition Gd32VfUart_write :: "'s Mmio \<Rightarrow> u32 \<Rightarrow> u8 list \<Rightarrow> ('s, nat) dev" where
  "Gd32VfUart_write M regs = send_polled M (reg regs gd32vf_UsartRegs ''stat'') (reg regs gd32vf_UsartRegs ''data'') (clear_bit 7)"

definition Gd32VfUart_flush :: "'s Mmio \<Rightarrow> u32 \<Rightarrow> ('s, unit) dev" where
  "Gd32VfUart_flush M regs = spin_while M (reg regs gd32vf_UsartRegs ''stat'') (clear_bit 6)"

definition Gd32VfUart_read :: "'s Mmio \<Rightarrow> u32 \<Rightarrow> u8 list \<Rightarrow> ('s, nat \<times> u8 list) dev" where
  "Gd32VfUart_read M regs = recv_polled M (reg regs gd32vf_UsartRegs ''stat'') (reg regs gd32vf_UsartRegs ''data'') (clear_bit 5)"

definition Gd32VfUart :: "'s Mmio \<Rightarrow> u32 \<Rightarrow> 's UartDriver" where
  "Gd32VfUart M regs = \<lparr>uart_configure = Gd32VfUart_configure M regs, uart_available = Gd32VfUart_available M regs,
     uart_write = Gd32VfUart_write M regs, uart_flush = Gd32VfUart_flush M regs, uart_read = Gd32VfUart_read M regs\<rparr>"

section \<open>LPC1768\<close>

definition lpc17_lcr :: "UartConfig \<Rightarrow> u32" where
  "lpc17_lcr config =
     (let db = (case data_bits config of Five \<Rightarrow> 0 | Six \<Rightarrow> 1 | Seven \<Rightarrow> 2 | Eight \<Rightarrow> 3);
          stop = (case stop_bits config of One \<Rightarrow> 0 | Two \<Rightarrow> 1);
          (par_en, par_sel) = (case uc_parity config of NoParity \<Rightarrow> (0, 0) | Odd \<Rightarrow> (1, 0) | Even \<Rightarrow> (1, 1))
      in or (or (or db (push_bit 2 stop)) (push_bit 3 par_en)) (push_bit 4 par_sel))"

definition Lpc17Uart_configure :: "'s Mmio \<Rightarrow> u32 \<Rightarrow> UartConfig \<Rightarrow> ('s, unit) dev" where
  "Lpc17Uart_configure M regs config =
     (let lcr_base = lpc17_lcr config in
      dseq (RW_write M (reg regs lpc17_UartRegs ''iir_fcr'') 7)
     (dseq (RW_write M (reg regs lpc17_UartRegs ''lcr'') (or lcr_base (push_bit 7 1)))
     (dbind (mul32 16 (baud_rate config)) (\<lambda>m.
      dbind (div32 25000000 m) (\<lambda>q.
      let dl = max q 1 in
      dseq (RW_write M (reg regs lpc17_UartRegs ''rbr_thr_dll'') (and dl 0xFF))
     (dseq (RW_write M (reg regs lpc17_UartRegs ''dlm_ier'') (and (drop_bit 8 dl) 0xFF))
     (dseq (RW_write M (reg regs lpc17_UartRegs ''lcr'') lcr_base)
           (RW_write M (reg regs lpc17_UartRegs ''ter'') (push_bit 7 1)))))))))"

definition Lpc17Uart_available :: "'s Mmio \<Rightarrow> u32 \<Rightarrow> ('s, nat) dev" where
  "Lpc17Uart_available M regs =
     dbind (RO_read M (reg regs lpc17_UartRegs ''lsr'')) (\<lambda>v. dreturn (if \<not> clear_bit 0 v then 1 else 0))"

definition Lpc17Uart_write :: "'s Mmio \<Rightarrow> u32 \<Rightarrow> u8 list \<Rightarrow> ('s, nat) dev" where
  "Lpc17Uart_write M regs = send_polled M (reg regs lpc17_UartRegs ''lsr'') (reg regs lpc17_UartRegs ''rbr_thr_dll'') (clear_bit 5)"

definition Lpc17Uart_flush :: "'s Mmio \<Rightarrow> u32 \<Rightarrow> ('s, unit) dev" where
  "Lpc17Uart_flush M regs = spin_while M (reg regs lpc17_UartRegs ''lsr'') (clear_bit 5)"

definition Lpc17Uart_read :: "'s Mmio \<Rightarrow> u32 \<Rightarrow> u8 list \<Rightarrow> ('s, nat \<times> u8 list) dev" where
  "Lpc17Uart_read M regs = recv_polled M (reg regs lpc17_UartRegs ''lsr'') (reg regs lpc17_UartRegs ''rbr_thr_dll'') (clear_bit 0)"

definition Lpc17Uart :: "'s Mmio \<Rightarrow> u32 \<Rightarrow> 's UartDriver" where
  "Lpc17Uart M regs = \<lparr>uart_configure = Lpc17Uart_configure M regs, uart_available = Lpc17Uart_available M regs,
     uart_write = Lpc17Uart_write M regs, uart_flush = Lpc17Uart_flush M regs, uart_read = Lpc17Uart_read M regs\<rparr>"

section \<open>ESP32 family\<close>

text \<open>As for the pins, the five drivers differ in the declaration of their register block only.\<close>

definition esp_clkdiv :: "u32 \<Rightarrow> ('s, u32) dev" where
  "esp_clkdiv baud =
     dbind (div32 80000000 baud) (\<lambda>clk_div.
     dbind (mul32 (80000000 mod baud) 16) (\<lambda>m.
     dbind (div32 m baud) (\<lambda>clk_div_frac. dreturn (or clk_div (push_bit 20 clk_div_frac)))))"

definition esp_conf0 :: "UartConfig \<Rightarrow> u32" where
  "esp_conf0 config =
     (let db = (case data_bits config of Five \<Rightarrow> 0 | Six \<Rightarrow> 1 | Seven \<Rightarrow> 2 | Eight \<Rightarrow> 3);
          par = (case uc_parity config of NoParity \<Rightarrow> 0 | Even \<Rightarrow> push_bit 1 1 | Odd \<Rightarrow> or (push_bit 1 1) (push_bit 0 1));
          stp = (case stop_bits config of One \<Rightarrow> push_bit 4 1 | Two \<Rightarrow> push_bit 4 3)
      in or (or (push_bit 2 db) par) stp)"

definition EspUart_configure :: "'s Mmio \<Rightarrow> u32 \<Rightarrow> layout \<Rightarrow> UartConfig \<Rightarrow> ('s, unit) dev" where
  "EspUart_configure M regs L config =
     dbind (esp_clkdiv (baud_rate config)) (\<lambda>d.
     dseq (RW_write M (reg regs L ''clkdiv'') d)
    (dseq (RW_write M (reg regs L ''conf0'') (or (or (esp_conf0 config) (push_bit 17 1)) (push_bit 18 1)))
          (RW_write M (reg regs L ''conf0'') (esp_conf0 config))))"

definition EspUart_available :: "'s Mmio \<Rightarrow> u32 \<Rightarrow> layout \<Rightarrow> ('s, nat) dev" where
  "EspUart_available M regs L = dbind (RO_read M (reg regs L ''status'')) (\<lambda>v. dreturn (unat (and v 0xFF)))"

definition esp_tx_full :: "u32 \<Rightarrow> bool" where
  "esp_tx_full v \<longleftrightarrow> 128 \<le> and (drop_bit 16 v) 0xFF"

definition EspUart_write :: "'s Mmio \<Rightarrow> u32 \<Rightarrow> layout \<Rightarrow> u8 list \<Rightarrow> ('s, nat) dev" where
  "EspUart_write M regs L = send_polled M (reg regs L ''status'') (reg regs L ''fifo'') esp_tx_full"

definition EspUart_flush :: "'s Mmio \<Rightarrow> u32 \<Rightarrow> layout \<Rightarrow> ('s, unit) dev" where
  "EspUart_flush M regs L = spin_while M (reg regs L ''status'') (\<lambda>v. and (drop_bit 16 v) 0xFF \<noteq> 0)"

definition EspUart_read :: "'s Mmio \<Rightarrow> u32 \<Rightarrow> layout \<Rightarrow> u8 list \<Rightarrow> ('s, nat \<times> u8 list) dev" where
  "EspUart_read M regs L = recv_polled M (reg regs L ''status'') (reg regs L ''fifo'') (\<lambda>v. and v 0xFF = 0)"

definition EspUart :: "'s Mmio \<Rightarrow> u32 \<Rightarrow> layout \<Rightarrow> 's UartDriver" where
  "EspUart M regs L = \<lparr>uart_configure = EspUart_configure M regs L, uart_available = EspUart_available M regs L,
     uart_write = EspUart_write M regs L, uart_flush = EspUart_flush M regs L, uart_read = EspUart_read M regs L\<rparr>"

definition Esp32Uart :: "'s Mmio \<Rightarrow> u32 \<Rightarrow> 's UartDriver" where
  "Esp32Uart M regs = EspUart M regs esp32_UartRegs"

definition Esp32S2Uart :: "'s Mmio \<Rightarrow> u32 \<Rightarrow> 's UartDriver" where
  "Esp32S2Uart M regs = EspUart M regs esp32s2_UartRegs"

definition Esp32S3Uart :: "'s Mmio \<Rightarrow> u32 \<Rightarrow> 's UartDriver" where
  "Esp32S3Uart M regs = EspUart M regs esp32s3_UartRegs"

definition Esp32C3Uart :: "'s Mmio \<Rightarrow> u32 \<Rightarrow> 's UartDriver" where
  "Esp32C3Uart M regs = EspUart M regs esp32c3_UartRegs"

definition Esp32C6Uart :: "'s Mmio \<Rightarrow> u32 \<Rightarrow> 's UartDriver" where
  "Esp32C6Uart M regs = EspUart M regs esp32c6_UartRegs"

section \<open>nRF52840\<close>

text \<open>
  The transfers are done by DMA: the driver passes the address and the length of the buffer, which the device reads
  or fills.
\<close>

definition nrf52_baud :: "u32 \<Rightarrow> u32" where
  "nrf52_baud b =
     (if b = 115200 then 0x01D7E000 else if b = 57600 then 0x00EB7000 else if b = 38400 then 0x009D5000
      else if b = 19200 then 0x004EA000 else if b = 9600 then 0x00275000 else 0x01D7E000)"

definition Nrf52Uart_configure :: "'s Mmio \<Rightarrow> u32 \<Rightarrow> UartConfig \<Rightarrow> ('s, unit) dev" where
  "Nrf52Uart_configure M regs config =
     dseq (RW_write M (reg regs nrf52_UarteRegs ''baudrate'') (nrf52_baud (baud_rate config)))
    (dseq (RW_write M (reg regs nrf52_UarteRegs ''config'')
        (or (case uc_parity config of NoParity \<Rightarrow> 0 | _ \<Rightarrow> push_bit 1 7)
            (case flow_control config of NoFlow \<Rightarrow> 0 | RtsCts \<Rightarrow> 1)))
          (RW_write M (reg regs nrf52_UarteRegs ''enable'') 8))"

definition Nrf52Uart_available :: "'s Mmio \<Rightarrow> u32 \<Rightarrow> ('s, nat) dev" where
  "Nrf52Uart_available M regs =
     dbind (RW_read M (reg regs nrf52_UarteRegs ''events_rxdrdy'')) (\<lambda>v. dreturn (if v \<noteq> 0 then 1 else 0))"

definition Nrf52Uart_write :: "'s Mmio \<Rightarrow> u32 \<Rightarrow> u32 \<Rightarrow> nat \<Rightarrow> ('s, nat) dev" where
  "Nrf52Uart_write M regs ptr len =
     (if len = 0 then dreturn 0
      else
      dseq (RW_write M (reg regs nrf52_UarteRegs ''txd.ptr'') ptr)
     (dseq (RW_write M (reg regs nrf52_UarteRegs ''txd.maxcnt'') (of_nat len))
     (dseq (RW_write M (reg regs nrf52_UarteRegs ''events_endtx'') 0)
     (dseq (WO_write M (reg regs nrf52_UarteRegs ''tasks_starttx'') 1)
     (dseq (spin_while M (reg regs nrf52_UarteRegs ''events_endtx'') (\<lambda>v. v = 0))
     (dseq (WO_write M (reg regs nrf52_UarteRegs ''tasks_stoptx'') 1)
           (dreturn len)))))))"

definition Nrf52Uart_read :: "'s Mmio \<Rightarrow> u32 \<Rightarrow> u32 \<Rightarrow> nat \<Rightarrow> ('s, nat) dev" where
  "Nrf52Uart_read M regs ptr len =
     (if len = 0 then dreturn 0
      else
      dseq (RW_write M (reg regs nrf52_UarteRegs ''rxd.ptr'') ptr)
     (dseq (RW_write M (reg regs nrf52_UarteRegs ''rxd.maxcnt'') (of_nat len))
     (dseq (RW_write M (reg regs nrf52_UarteRegs ''events_endrx'') 0)
     (dseq (WO_write M (reg regs nrf52_UarteRegs ''tasks_startrx'') 1)
     (dseq (spin_while M (reg regs nrf52_UarteRegs ''events_endrx'') (\<lambda>v. v = 0))
     (dbind (RO_read M (reg regs nrf52_UarteRegs ''rxd.amount'')) (\<lambda>n. dreturn (unat n))))))))"

section \<open>Conforming ports\<close>

text \<open>
  What the chips document. Transmitter: reading the status sends nothing, a byte written right after a status that
  shows room is appended to what the port sends, and room appears again. Receiver: \<open>arrived s\<close> are the bytes that came
  in on the line so far and \<open>taken s\<close> how many of them were read; a status shows data exactly if there is a byte not
  taken, and reading the data register takes the oldest.
\<close>

definition uart_tx :: "'s Mmio \<Rightarrow> u32 \<Rightarrow> u32 \<Rightarrow> (u32 \<Rightarrow> bool) \<Rightarrow> ('s \<Rightarrow> u8 list) \<Rightarrow> bool" where
  "uart_tx M stat dat full sent \<longleftrightarrow>
     (\<forall>s. sent (polled M stat s) = sent s) \<and>
     (\<forall>s b. \<not> full (fst (io_read M stat s)) \<longrightarrow> sent (io_write M dat (ucast b) (polled M stat s)) = sent s @ [b]) \<and>
     (\<forall>s. \<exists>n. \<not> full (fst (io_read M stat ((polled M stat ^^ n) s))))"

definition uart_rx :: "'s Mmio \<Rightarrow> u32 \<Rightarrow> u32 \<Rightarrow> (u32 \<Rightarrow> bool) \<Rightarrow> ('s \<Rightarrow> u8 list) \<Rightarrow> ('s \<Rightarrow> nat) \<Rightarrow> bool" where
  "uart_rx M stat dat nodata arrived taken \<longleftrightarrow>
     (\<forall>s. prefix (arrived s) (arrived (polled M stat s)) \<and> taken (polled M stat s) = taken s \<and>
        (nodata (fst (io_read M stat s)) \<longleftrightarrow> length (arrived (polled M stat s)) \<le> taken s)) \<and>
     (\<forall>s. taken s < length (arrived s) \<longrightarrow>
        ucast (fst (io_read M dat s)) = arrived s ! taken s \<and> prefix (arrived s) (arrived (polled M dat s)) \<and>
        taken (polled M dat s) = Suc (taken s))"

lemma send_polled_sends:
  assumes hw: "uart_tx M stat dat full sent"
  shows "\<exists>s'. send_polled M stat dat full bs s = Some (Inr (length bs), s') \<and> sent s' = sent s @ bs"
proof -
  let ?put = "\<lambda>b. dseq (spin_while M stat full) (RW_write M dat (ucast b))"
  have put: "\<exists>s'. ?put b s = Some (Inr (), s') \<and> sent s' = sent s @ [b]" for b s
  proof -
    from hw obtain n where "\<not> full (fst (io_read M stat ((polled M stat ^^ n) s)))" unfolding uart_tx_def by blast
    from spin_while_ends [of full, OF this] obtain k where
      k: "spin_while M stat full s = Some (Inr (), (polled M stat ^^ Suc k) s)"
      "\<not> full (fst (io_read M stat ((polled M stat ^^ k) s)))" by blast
    moreover have "sent ((polled M stat ^^ k) s) = sent s"
      by (rule funpow_keeps) (use hw in \<open>simp add: uart_tx_def\<close>)
    ultimately show ?thesis using hw by (simp add: uart_tx_def dseq_Some dev_eval)
  qed
  have "\<exists>s'. dfor ?put bs s = Some (Inr (), s') \<and> sent s' = sent s @ bs"
  proof (induction bs arbitrary: s)
    case (Cons b bs)
    from put obtain s1 where s1: "?put b s = Some (Inr (), s1)" "sent s1 = sent s @ [b]" by blast
    from Cons.IH obtain s2 where "dfor ?put bs s1 = Some (Inr (), s2)" "sent s2 = sent s1 @ bs" by blast
    with s1(2) show ?case by (simp add: dseq_Some [where m = "?put b", OF s1(1)])
  qed (simp add: dev_eval)
  then show ?thesis by (auto simp: send_polled_def dseq_Some dev_eval)
qed

text \<open>The bytes taken between two states.\<close>

definition took :: "('s \<Rightarrow> u8 list) \<Rightarrow> ('s \<Rightarrow> nat) \<Rightarrow> 's \<Rightarrow> u8 list \<Rightarrow> 's \<Rightarrow> bool" where
  "took arrived taken s bs s' \<longleftrightarrow> prefix (arrived s) (arrived s') \<and> taken s' = taken s + length bs \<and>
     taken s' \<le> length (arrived s') \<and> bs = take (length bs) (drop (taken s) (arrived s'))"

lemma took_Cons:
  assumes "taken s < length (arrived s)" "taken s1 = Suc (taken s)" "prefix (arrived s) (arrived s1)"
    "took arrived taken s1 bs s2"
  shows "took arrived taken s (arrived s ! taken s # bs) s2"
proof -
  from assms have p: "prefix (arrived s) (arrived s2)" unfolding took_def by (meson prefix_order.trans)
  with assms(1) have "taken s < length (arrived s2)" "arrived s2 ! taken s = arrived s ! taken s"
    by (auto simp: prefix_def nth_append)
  then have "drop (taken s) (arrived s2) = arrived s ! taken s # drop (Suc (taken s)) (arrived s2)"
    by (metis Cons_nth_drop_Suc)
  with assms(2,4) p show ?thesis by (simp add: took_def)
qed

lemma drain_takes:
  assumes hw: "uart_rx M stat dat nodata arrived taken" and "taken s \<le> length (arrived s)"
  shows "\<exists>bs s'. drain M stat dat nodata n s = Some (Inr bs, s') \<and> length bs \<le> n \<and> took arrived taken s bs s' \<and>
     (taken s < length (arrived s) \<and> 0 < n \<longrightarrow> bs \<noteq> [])"
  using assms(2)
proof (induction n arbitrary: s)
  case 0
  then show ?case by (simp add: took_def dev_eval)
next
  case (Suc n)
  obtain v s1 where r: "io_read M stat s = (v, s1)" by fastforce
  then have s: "s1 = polled M stat s" "v = fst (io_read M stat s)" by (simp_all add: polled_def)
  with hw have s1: "prefix (arrived s) (arrived s1)" "taken s1 = taken s" "nodata v \<longleftrightarrow> length (arrived s1) \<le> taken s1"
    by (simp_all add: uart_rx_def)
  show ?case
  proof (cases "nodata v")
    case True
    with r s1 Suc.prems prefix_length_le [OF s1(1)] show ?thesis by (simp add: took_def dev_eval)
  next
    case False
    then have lt: "taken s1 < length (arrived s1)" using s1(3) by simp
    obtain b s2 where d: "io_read M dat s1 = (b, s2)" by fastforce
    then have "s2 = polled M dat s1" "b = fst (io_read M dat s1)" by (simp_all add: polled_def)
    with hw lt have s2: "ucast b = arrived s1 ! taken s1" "prefix (arrived s1) (arrived s2)" "taken s2 = Suc (taken s1)"
      by (simp_all add: uart_rx_def)
    with lt prefix_length_le [OF s2(2)] have "taken s2 \<le> length (arrived s2)" by simp
    from Suc.IH [OF this] obtain bs s3 where
      s3: "drain M stat dat nodata n s2 = Some (Inr bs, s3)" "length bs \<le> n" "took arrived taken s2 bs s3" by blast
    have "took arrived taken s1 (ucast b # bs) s3"
      unfolding s2(1) by (rule took_Cons [OF lt s2(3,2) s3(3)])
    with s1 have "took arrived taken s (ucast b # bs) s3" unfolding took_def by (auto intro: prefix_order.trans)
    with s3 show ?thesis by (simp add: r d False dbind_Some dev_eval)
  qed
qed

text \<open>
  If data comes in at all, a read returns at least one byte, and exactly the next bytes of the line.
\<close>

lemma recv_polled_takes:
  assumes hw: "uart_rx M stat dat nodata arrived taken" and le: "taken s \<le> length (arrived s)"
    and data: "\<not> nodata (fst (io_read M stat ((polled M stat ^^ n) s)))" and "buf \<noteq> []"
  shows "\<exists>bs s'. recv_polled M stat dat nodata buf s = Some (Inr (length bs, bs @ drop (length bs) buf), s') \<and>
     0 < length bs \<and> length bs \<le> length buf \<and> took arrived taken s bs s'"
proof -
  from spin_while_ends [of nodata, OF data] obtain k where
    k: "spin_while M stat nodata s = Some (Inr (), (polled M stat ^^ Suc k) s)"
      "\<not> nodata (fst (io_read M stat ((polled M stat ^^ k) s)))" by blast
  let ?s = "(polled M stat ^^ Suc k) s"
  have step: "prefix (arrived t) (arrived (polled M stat t))" "taken (polled M stat t) = taken t" for t
    using hw by (simp_all add: uart_rx_def)
  have p: "prefix (arrived s) (arrived ((polled M stat ^^ m) s)) \<and> taken ((polled M stat ^^ m) s) = taken s" for m
    by (induction m) (auto simp: step intro: prefix_order.trans)
  then have "taken ?s \<le> length (arrived ?s)" using le prefix_length_le by (metis le_trans)
  moreover have "taken ?s < length (arrived ?s)" using hw k(2) by (simp add: uart_rx_def)
  ultimately obtain bs s' where
    d: "drain M stat dat nodata (length buf) ?s = Some (Inr bs, s')" "length bs \<le> length buf" "took arrived taken ?s bs s'" "bs \<noteq> []"
    using drain_takes [OF hw] assms(4) by blast
  moreover have "took arrived taken s bs s'"
    using d(3) p [of "Suc k"] unfolding took_def by (auto intro: prefix_order.trans)
  ultimately show ?thesis using assms(4) k(1) by (auto simp: recv_polled_def dseq_Some dbind_Some dev_eval)
qed

section \<open>The contract of a serial driver\<close>

locale uart_chip =
  fixes tx_hw :: "'s Mmio \<Rightarrow> ('s \<Rightarrow> u8 list) \<Rightarrow> bool"
    and rx_hw :: "'s Mmio \<Rightarrow> ('s \<Rightarrow> u8 list) \<Rightarrow> ('s \<Rightarrow> nat) \<Rightarrow> bool"
    and data_comes :: "'s Mmio \<Rightarrow> 's \<Rightarrow> bool"
    and driver :: "'s Mmio \<Rightarrow> 's UartDriver"
  assumes write_sends: "tx_hw M sent \<Longrightarrow>
      \<exists>s'. uart_write (driver M) bs s = Some (Inr (length bs), s') \<and> sent s' = sent s @ bs"
    and read_takes: "rx_hw M arrived taken \<Longrightarrow> taken s \<le> length (arrived s) \<Longrightarrow> data_comes M s \<Longrightarrow> buf \<noteq> [] \<Longrightarrow>
      \<exists>bs s'. uart_read (driver M) buf s = Some (Inr (length bs, bs @ drop (length bs) buf), s') \<and>
        0 < length bs \<and> length bs \<le> length buf \<and> took arrived taken s bs s'"
    and read_empty: "uart_read (driver M) [] s = Some (Inr (0, []), s)"
begin

text \<open>Messages written one after the other leave the port in that order, each whole.\<close>

lemma messages_sent:
  assumes "tx_hw M sent"
  shows "\<exists>s'. dmap (uart_write (driver M)) ms s = Some (Inr (map length ms), s') \<and> sent s' = sent s @ concat ms"
proof (induction ms arbitrary: s)
  case (Cons m ms)
  from write_sends [OF assms, of m s] obtain s1 where
    s1: "uart_write (driver M) m s = Some (Inr (length m), s1)" "sent s1 = sent s @ m" by blast
  from Cons.IH [of s1] obtain s2 where
    "dmap (uart_write (driver M)) ms s1 = Some (Inr (map length ms), s2)" "sent s2 = sent s1 @ concat ms" by blast
  with s1 show ?case by (simp add: dbind_Some dev_eval)
qed (simp add: dev_eval)

text \<open>Two reads in a row return adjacent pieces of the line.\<close>

lemma reads_adjacent:
  assumes hw: "rx_hw M arrived taken" "taken s \<le> length (arrived s)" "data_comes M s" "buf \<noteq> []"
    and next_data: "\<And>s'. data_comes M s'" and "buf' \<noteq> []"
  shows "\<exists>bs bs' s1 s2. uart_read (driver M) buf s = Some (Inr (length bs, bs @ drop (length bs) buf), s1) \<and>
     uart_read (driver M) buf' s1 = Some (Inr (length bs', bs' @ drop (length bs') buf'), s2) \<and>
     bs @ bs' = take (length bs + length bs') (drop (taken s) (arrived s2))"
proof -
  from read_takes [OF hw] obtain bs s1 where
    r1: "uart_read (driver M) buf s = Some (Inr (length bs, bs @ drop (length bs) buf), s1)" "took arrived taken s bs s1" by blast
  then have "taken s1 \<le> length (arrived s1)" by (simp add: took_def)
  from read_takes [OF hw(1) this next_data assms(6)] obtain bs' s2 where
    r2: "uart_read (driver M) buf' s1 = Some (Inr (length bs', bs' @ drop (length bs') buf'), s2)" "took arrived taken s1 bs' s2" by blast
  have t1: "taken s1 = taken s + length bs" "bs = take (length bs) (drop (taken s) (arrived s1))" "taken s1 \<le> length (arrived s1)"
    using r1(2) unfolding took_def by blast+
  have t2: "prefix (arrived s1) (arrived s2)" "bs' = take (length bs') (drop (taken s1) (arrived s2))"
    using r2(2) unfolding took_def by blast+
  have "take (length bs) (drop (taken s) (arrived s2)) = bs"
    using t1 t2(1) by (auto simp: prefix_def)
  moreover have "take (length bs') (drop (length bs) (drop (taken s) (arrived s2))) = bs'"
    using t1(1) t2(2) by (simp add: add.commute)
  ultimately have "bs @ bs' = take (length bs + length bs') (drop (taken s) (arrived s2))" by (simp add: take_add)
  with r1(1) r2(1) show ?thesis by blast
qed

end

text \<open>Data that shows after some number of polls.\<close>

definition shows_data :: "u32 \<Rightarrow> (u32 \<Rightarrow> bool) \<Rightarrow> 's Mmio \<Rightarrow> 's \<Rightarrow> bool" where
  "shows_data stat nodata M s \<longleftrightarrow> (\<exists>n. \<not> nodata (fst (io_read M stat ((polled M stat ^^ n) s))))"

lemma polled_driver:
  assumes "\<And>M. uart_write (driver M) = send_polled M stat dat full" "\<And>M. uart_read (driver M) = recv_polled M stat dat nodata"
  shows "uart_chip (\<lambda>M. uart_tx M stat dat full) (\<lambda>M. uart_rx M stat dat nodata) (shows_data stat nodata) driver"
proof
  fix M :: "'a Mmio" and sent bs s
  assume "uart_tx M stat dat full sent"
  then show "\<exists>s'. uart_write (driver M) bs s = Some (Inr (length bs), s') \<and> sent s' = sent s @ bs"
    unfolding assms by (rule send_polled_sends)
next
  fix M :: "'a Mmio" and arrived taken s buf
  assume "uart_rx M stat dat nodata arrived taken" "taken s \<le> length (arrived s)" "shows_data stat nodata M s" "buf \<noteq> ([] :: u8 list)"
  then show "\<exists>bs s'. uart_read (driver M) buf s = Some (Inr (length bs, bs @ drop (length bs) buf), s') \<and>
      0 < length bs \<and> length bs \<le> length buf \<and> took arrived taken s bs s'"
    unfolding assms shows_data_def by (blast intro: recv_polled_takes)
qed (simp add: assms recv_polled_def dev_eval)

interpretation stm32_uart: uart_chip
  "\<lambda>M. uart_tx M (reg regs stm32f4_UsartRegs ''sr'') (reg regs stm32f4_UsartRegs ''dr'') (clear_bit 7)"
  "\<lambda>M. uart_rx M (reg regs stm32f4_UsartRegs ''sr'') (reg regs stm32f4_UsartRegs ''dr'') (clear_bit 5)"
  "shows_data (reg regs stm32f4_UsartRegs ''sr'') (clear_bit 5)" "\<lambda>M. Stm32F4Uart M regs"
  by (rule polled_driver) (simp_all add: Stm32F4Uart_def Stm32F4Uart_write_def Stm32F4Uart_read_def)

interpretation gd32_uart: uart_chip
  "\<lambda>M. uart_tx M (reg regs gd32vf_UsartRegs ''stat'') (reg regs gd32vf_UsartRegs ''data'') (clear_bit 7)"
  "\<lambda>M. uart_rx M (reg regs gd32vf_UsartRegs ''stat'') (reg regs gd32vf_UsartRegs ''data'') (clear_bit 5)"
  "shows_data (reg regs gd32vf_UsartRegs ''stat'') (clear_bit 5)" "\<lambda>M. Gd32VfUart M regs"
  by (rule polled_driver) (simp_all add: Gd32VfUart_def Gd32VfUart_write_def Gd32VfUart_read_def)

interpretation lpc_uart: uart_chip
  "\<lambda>M. uart_tx M (reg regs lpc17_UartRegs ''lsr'') (reg regs lpc17_UartRegs ''rbr_thr_dll'') (clear_bit 5)"
  "\<lambda>M. uart_rx M (reg regs lpc17_UartRegs ''lsr'') (reg regs lpc17_UartRegs ''rbr_thr_dll'') (clear_bit 0)"
  "shows_data (reg regs lpc17_UartRegs ''lsr'') (clear_bit 0)" "\<lambda>M. Lpc17Uart M regs"
  by (rule polled_driver) (simp_all add: Lpc17Uart_def Lpc17Uart_write_def Lpc17Uart_read_def)

interpretation esp_uart: uart_chip
  "\<lambda>M. uart_tx M (reg regs L ''status'') (reg regs L ''fifo'') esp_tx_full"
  "\<lambda>M. uart_rx M (reg regs L ''status'') (reg regs L ''fifo'') (\<lambda>v. and v 0xFF = 0)"
  "shows_data (reg regs L ''status'') (\<lambda>v. and v 0xFF = 0)" "\<lambda>M. EspUart M regs L"
  by (rule polled_driver) (simp_all add: EspUart_def EspUart_write_def EspUart_read_def)

section \<open>Baud rates\<close>

text \<open>
  The divider of the ESP chips has a whole part of 20 bits and a fraction in sixteenths: from 77 baud on, the register
  holds the exact quotient rounded down to a sixteenth. A rate of zero panics.
\<close>

lemma esp_clkdiv_run:
  assumes "b \<noteq> 0"
  shows "esp_clkdiv b s = Some (Inr (or (80000000 div b) (push_bit 20 ((80000000 mod b * 16) div b))), s)"
proof -
  have "unat (80000000 mod b) \<le> 80000000" by (simp add: unat_mod_distrib)
  then have "unat (80000000 mod b) * unat (16 :: u32) < 2 ^ 32" by simp
  with assms show ?thesis by (simp add: esp_clkdiv_def div32_def mul32_def dev_eval)
qed

lemma esp_clkdiv_accuracy:
  assumes "77 \<le> unat b"
  shows "\<exists>d. esp_clkdiv b s = Some (Inr d, s) \<and>
     16 * (unat d mod 2 ^ 20) + unat d div 2 ^ 20 = (16 * 80000000) div unat b"
proof -
  let ?q = "80000000 div b :: u32" and ?m = "80000000 mod b :: u32"
  let ?f = "?m * 16 div b"
  have b: "b \<noteq> 0" using assms by auto
  have q: "unat ?q = 80000000 div unat b" by (simp add: unat_div_distrib)
  then have ql: "unat ?q < 2 ^ 20" using assms div_le_mono2 [of 77 "unat b" 80000000] by simp
  have m: "unat ?m = 80000000 mod unat b" by (simp add: unat_mod_distrib)
  have "80000000 mod unat b < 268435456" by (rule le_less_trans [of _ 80000000]) simp_all
  then have m16: "unat (?m * 16) = 80000000 mod unat b * 16"
    using m unat_mult_lem [of ?m 16] by simp
  then have f: "unat ?f = (80000000 mod unat b * 16) div unat b" by (simp add: unat_div_distrib)
  have fl: "unat ?f < 16" unfolding f using assms by (intro less_mult_imp_div_less) simp
  with ql have "unat (or ?q (push_bit 20 ?f)) = unat ?q + unat ?f * 2 ^ 20" by (intro unat_or_push) simp_all
  moreover have "16 * unat ?q + unat ?f = (16 * 80000000) div unat b"
  proof -
    have "16 * 80000000 = 80000000 mod unat b * 16 + unat b * (16 * (80000000 div unat b))"
      using mod_mult_div_eq [of 80000000 "unat b"] by (simp only: algebra_simps)
    then show ?thesis unfolding q f using assms by (simp only: div_mult_self2)
  qed
  ultimately show ?thesis
    using ql by (intro exI [of _ "or ?q (push_bit 20 ?f)"]) (simp add: esp_clkdiv_run [OF b])
qed

end
