(* ===== verification/SpiDrv.thy ===== *)
theory SpiDrv
  imports Registers
begin

text \<open>
  The SPI master drivers (\<open>spi.rs\<close> of each chip): configuration of mode, bit order and clock, byte-wise transfers by
  polling (STM32F4, GD32VF103, LPC1768), transfers in chunks of 64 bytes through the data buffer (ESP32 family)
  and by DMA (nRF52840).
\<close>

section \<open>Configuration\<close>

datatype SpiMode = Mode0 | Mode1 | Mode2 | Mode3
datatype BitOrder = MsbFirst | LsbFirst

record SpiConfig =
  frequency :: u32
  spi_mode :: SpiMode
  bit_order :: BitOrder

definition SpiConfig_default :: SpiConfig where
  "SpiConfig_default = \<lparr>frequency = 1000000, spi_mode = Mode0, bit_order = MsbFirst\<rparr>"

text \<open>The bus operations; \<open>transfer\<close> is given the read and the write buffer and returns the read buffer.\<close>

record 's SpiDriver =
  spi_configure :: "SpiConfig \<Rightarrow> ('s, unit) dev"
  bus_read :: "u8 list \<Rightarrow> ('s, u8 list) dev"
  bus_write :: "u8 list \<Rightarrow> ('s, unit) dev"
  bus_transfer :: "u8 list \<Rightarrow> u8 list \<Rightarrow> ('s, u8 list) dev"
  bus_transfer_in_place :: "u8 list \<Rightarrow> ('s, u8 list) dev"
  bus_flush :: "('s, unit) dev"

abbreviation clear_at :: "nat \<Rightarrow> u32 \<Rightarrow> bool" where
  "clear_at n v \<equiv> and v (push_bit n 1) = 0"

section \<open>Byte-wise transfers\<close>

text \<open>One byte: wait for room, write it, wait for the answer, read it.\<close>

definition byte_exchange :: "'s Mmio \<Rightarrow> u32 \<Rightarrow> u32 \<Rightarrow> (u32 \<Rightarrow> bool) \<Rightarrow> (u32 \<Rightarrow> bool) \<Rightarrow> u8 \<Rightarrow> ('s, u8) dev" where
  "byte_exchange M stat dat full nodata tx =
     dseq (spin_while M stat full)
    (dseq (RW_write M dat (ucast tx))
    (dseq (spin_while M stat nodata)
          (dbind (RW_read M dat) (\<lambda>v. dreturn (ucast v)))))"

text \<open>The four loops over the buffers, for a given exchange of one byte.\<close>

definition bytes_read :: "(u8 \<Rightarrow> ('s, u8) dev) \<Rightarrow> u8 list \<Rightarrow> ('s, u8 list) dev" where
  "bytes_read xch words = dmap (\<lambda>_. xch 0xFF) words"

definition bytes_write :: "(u8 \<Rightarrow> ('s, u8) dev) \<Rightarrow> u8 list \<Rightarrow> ('s, unit) dev" where
  "bytes_write xch words = dfor (\<lambda>b. dbind (xch b) (\<lambda>_. dreturn ())) words"

definition bytes_transfer :: "(u8 \<Rightarrow> ('s, u8) dev) \<Rightarrow> u8 list \<Rightarrow> u8 list \<Rightarrow> ('s, u8 list) dev" where
  "bytes_transfer xch rd wr =
     (let len = min (length rd) (length wr) in
      dbind (dmap xch (take len wr)) (\<lambda>bs. dreturn (bs @ drop len rd)))"

section \<open>STM32F4\<close>

definition spi_cpol_cpha :: "SpiMode \<Rightarrow> u32" where
  "spi_cpol_cpha m =
     (case m of Mode0 \<Rightarrow> 0 | Mode1 \<Rightarrow> push_bit 0 1 | Mode2 \<Rightarrow> push_bit 1 1 | Mode3 \<Rightarrow> or (push_bit 1 1) (push_bit 0 1))"

definition stm32f4_spi_br :: "u32 \<Rightarrow> u32" where
  "stm32f4_spi_br f =
     (if 8000000 \<le> f then 0 else if 4000000 \<le> f then 1 else if 2000000 \<le> f then 2 else if 1000000 \<le> f then 3
      else if 500000 \<le> f then 4 else if 250000 \<le> f then 5 else if 125000 \<le> f then 6 else 7)"

definition Stm32F4Spi_configure :: "'s Mmio \<Rightarrow> u32 \<Rightarrow> SpiConfig \<Rightarrow> ('s, unit) dev" where
  "Stm32F4Spi_configure M regs config =
     (let cr1 = or (or (push_bit 2 1) (push_bit 9 1)) (push_bit 8 1);
          cr1 = or cr1 (spi_cpol_cpha (spi_mode config));
          cr1 = (if bit_order config = LsbFirst then or cr1 (push_bit 7 1) else cr1);
          cr1 = or cr1 (push_bit 3 (stm32f4_spi_br (frequency config)))
      in dseq (RW_write M (reg regs stm32f4_SpiRegs ''cr1'') cr1)
              (RW_modify M (reg regs stm32f4_SpiRegs ''cr1'') (\<lambda>v. dreturn (or v (push_bit 6 1)))))"

definition Stm32F4Spi_transfer_word :: "'s Mmio \<Rightarrow> u32 \<Rightarrow> u8 \<Rightarrow> ('s, u8) dev" where
  "Stm32F4Spi_transfer_word M regs =
     byte_exchange M (reg regs stm32f4_SpiRegs ''sr'') (reg regs stm32f4_SpiRegs ''dr'') (clear_at 1) (clear_at 0)"

definition Stm32F4Spi :: "'s Mmio \<Rightarrow> u32 \<Rightarrow> 's SpiDriver" where
  "Stm32F4Spi M regs = \<lparr>spi_configure = Stm32F4Spi_configure M regs,
     bus_read = bytes_read (Stm32F4Spi_transfer_word M regs),
     bus_write = bytes_write (Stm32F4Spi_transfer_word M regs),
     bus_transfer = bytes_transfer (Stm32F4Spi_transfer_word M regs),
     bus_transfer_in_place = dmap (Stm32F4Spi_transfer_word M regs),
     bus_flush = spin_while M (reg regs stm32f4_SpiRegs ''sr'') (\<lambda>v. \<not> clear_at 7 v)\<rparr>"

section \<open>GD32VF103\<close>

definition gd32vf_spi_psc :: "u32 \<Rightarrow> u32" where
  "gd32vf_spi_psc f =
     (if 54000000 \<le> f then 0 else if 27000000 \<le> f then 1 else if 13500000 \<le> f then 2 else if 6750000 \<le> f then 3
      else if 3375000 \<le> f then 4 else if 1687500 \<le> f then 5 else if 843750 \<le> f then 6 else 7)"

definition Gd32VfSpi_configure :: "'s Mmio \<Rightarrow> u32 \<Rightarrow> SpiConfig \<Rightarrow> ('s, unit) dev" where
  "Gd32VfSpi_configure M regs config =
     (let ctl0 = or (or (push_bit 2 1) (push_bit 9 1)) (push_bit 8 1);
          ctl0 = or ctl0 (spi_cpol_cpha (spi_mode config));
          ctl0 = (if bit_order config = LsbFirst then or ctl0 (push_bit 7 1) else ctl0);
          ctl0 = or ctl0 (push_bit 3 (gd32vf_spi_psc (frequency config)))
      in dseq (RW_write M (reg regs gd32vf_SpiRegs ''ctl0'') ctl0)
              (RW_modify M (reg regs gd32vf_SpiRegs ''ctl0'') (\<lambda>v. dreturn (or v (push_bit 6 1)))))"

text \<open>The four loops contain the same exchange of one byte.\<close>

definition gd32vf_exchange :: "'s Mmio \<Rightarrow> u32 \<Rightarrow> u8 \<Rightarrow> ('s, u8) dev" where
  "gd32vf_exchange M regs =
     byte_exchange M (reg regs gd32vf_SpiRegs ''stat'') (reg regs gd32vf_SpiRegs ''data'') (clear_at 1) (clear_at 0)"

definition Gd32VfSpi :: "'s Mmio \<Rightarrow> u32 \<Rightarrow> 's SpiDriver" where
  "Gd32VfSpi M regs = \<lparr>spi_configure = Gd32VfSpi_configure M regs,
     bus_read = bytes_read (gd32vf_exchange M regs), bus_write = bytes_write (gd32vf_exchange M regs),
     bus_transfer = bytes_transfer (gd32vf_exchange M regs), bus_transfer_in_place = dmap (gd32vf_exchange M regs),
     bus_flush = dreturn ()\<rparr>"

section \<open>LPC1768\<close>

definition lpc17_spi_scr :: "u32 \<Rightarrow> ('s, u32) dev" where
  "lpc17_spi_scr f =
     dbind (mul32 2 f) (\<lambda>m. dbind (div32 25000000 m) (\<lambda>q. dreturn (min (if q = 0 then 0 else q - 1) 255)))"

definition lpc17_cpol_cpha :: "SpiMode \<Rightarrow> u32 \<times> u32" where
  "lpc17_cpol_cpha m = (case m of Mode0 \<Rightarrow> (0, 0) | Mode1 \<Rightarrow> (0, 1) | Mode2 \<Rightarrow> (1, 0) | Mode3 \<Rightarrow> (1, 1))"

text \<open>The clock rate is computed before the frequency is tested for zero.\<close>

definition Lpc17Spi_configure :: "'s Mmio \<Rightarrow> u32 \<Rightarrow> SpiConfig \<Rightarrow> ('s, unit) dev" where
  "Lpc17Spi_configure M regs config =
     dseq (RW_write M (reg regs lpc17_SspRegs ''cr1'') 0)
     (case lpc17_cpol_cpha (spi_mode config) of (cpol, cpha) \<Rightarrow>
      dbind (lpc17_spi_scr (frequency config)) (\<lambda>scr.
      let lsbfirst = (if bit_order config = LsbFirst then 1 else 0);
          cr0 = or (or (or (or 7 (push_bit 6 cpol)) (push_bit 7 cpha)) (push_bit 8 scr)) (push_bit 16 lsbfirst)
      in if frequency config = 0 then dstop (Err InvalidParameter)
         else dseq (RW_write M (reg regs lpc17_SspRegs ''cpsr'') 2)
             (dseq (RW_write M (reg regs lpc17_SspRegs ''cr0'') cr0)
                   (RW_write M (reg regs lpc17_SspRegs ''cr1'') (push_bit 1 1)))))"

definition Lpc17Spi_transfer_byte :: "'s Mmio \<Rightarrow> u32 \<Rightarrow> u8 \<Rightarrow> ('s, u8) dev" where
  "Lpc17Spi_transfer_byte M regs =
     byte_exchange M (reg regs lpc17_SspRegs ''sr'') (reg regs lpc17_SspRegs ''dr'') (clear_at 1) (clear_at 2)"

definition Lpc17Spi_wait_idle :: "'s Mmio \<Rightarrow> u32 \<Rightarrow> ('s, unit) dev" where
  "Lpc17Spi_wait_idle M regs = spin_while M (reg regs lpc17_SspRegs ''sr'') (\<lambda>v. \<not> clear_at 4 v)"

definition then_idle :: "'s Mmio \<Rightarrow> u32 \<Rightarrow> ('s, 'a) dev \<Rightarrow> ('s, 'a) dev" where
  "then_idle M regs m = dbind m (\<lambda>x. dseq (Lpc17Spi_wait_idle M regs) (dreturn x))"

definition Lpc17Spi :: "'s Mmio \<Rightarrow> u32 \<Rightarrow> 's SpiDriver" where
  "Lpc17Spi M regs = \<lparr>spi_configure = Lpc17Spi_configure M regs,
     bus_read = (\<lambda>ws. then_idle M regs (bytes_read (Lpc17Spi_transfer_byte M regs) ws)),
     bus_write = (\<lambda>ws. then_idle M regs (bytes_write (Lpc17Spi_transfer_byte M regs) ws)),
     bus_transfer = (\<lambda>rd wr. then_idle M regs (bytes_transfer (Lpc17Spi_transfer_byte M regs) rd wr)),
     bus_transfer_in_place = (\<lambda>ws. then_idle M regs (dmap (Lpc17Spi_transfer_byte M regs) ws)),
     bus_flush = Lpc17Spi_wait_idle M regs\<rparr>"

section \<open>ESP32 family\<close>

text \<open>
  The code of the five drivers is the same; it is stated once over the register block. A subtraction that would
  underflow does not occur: \<open>div\<close> is at least two where its half is decremented.
\<close>

definition esp_spi_clock :: "u32 \<Rightarrow> ('s, u32) dev" where
  "esp_spi_clock f =
     dbind (div32 80000000 f) (\<lambda>q.
     let d = max q 1 in
     dreturn (if d \<le> 1 then push_bit 31 1
       else let cnt_n = and (d - 1) 0x3F; cnt_h = and (d div 2 - 1) 0x3F
            in or (or cnt_n (push_bit 6 cnt_h)) (push_bit 12 cnt_n)))"

definition esp_ctrl2 :: "SpiMode \<Rightarrow> u32" where
  "esp_ctrl2 m = (case m of Mode2 \<Rightarrow> push_bit 24 1 | Mode3 \<Rightarrow> push_bit 24 1 | _ \<Rightarrow> 0)"

definition esp_user :: "SpiConfig \<Rightarrow> u32" where
  "esp_user config =
     (let user = or (push_bit 27 1) (push_bit 28 1);
          user = (case spi_mode config of Mode1 \<Rightarrow> or user (push_bit 29 1) | Mode2 \<Rightarrow> or user (push_bit 29 1) | _ \<Rightarrow> user)
      in if bit_order config = LsbFirst then or user (or (push_bit 16 1) (push_bit 17 1)) else user)"

definition EspSpi_configure :: "'s Mmio \<Rightarrow> u32 \<Rightarrow> layout \<Rightarrow> SpiConfig \<Rightarrow> ('s, unit) dev" where
  "EspSpi_configure M regs L config =
     dbind (esp_spi_clock (frequency config)) (\<lambda>clock_val.
     dseq (RW_write M (reg regs L ''clock'') clock_val)
    (dseq (RW_write M (reg regs L ''ctrl2'') (esp_ctrl2 (spi_mode config)))
          (RW_write M (reg regs L ''user'') (esp_user config))))"

text \<open>The \<open>i\<close>-th word of a chunk, the bytes of a chunk from its words, and the number of words.\<close>

definition esp_word :: "u8 list \<Rightarrow> nat \<Rightarrow> u32" where
  "esp_word chunk i =
     fold (\<lambda>b word. if i * 4 + b < length chunk then or word (push_bit (b * 8) (ucast (chunk ! (i * 4 + b)))) else word)
       [0..<4] 0"

definition esp_bytes :: "nat \<Rightarrow> (nat \<Rightarrow> u32) \<Rightarrow> u8 list" where
  "esp_bytes n w = map (\<lambda>idx. ucast (drop_bit (idx mod 4 * 8) (w (idx div 4)))) [0..<n]"

definition esp_words :: "nat \<Rightarrow> nat" where
  "esp_words n = (n + 3) div 4"

definition esp_set_len :: "'s Mmio \<Rightarrow> u32 \<Rightarrow> layout \<Rightarrow> u32 \<Rightarrow> u32 \<Rightarrow> ('s, unit) dev" where
  "esp_set_len M regs L mo mi = dseq (RW_write M (reg regs L ''mosi_dlen'') mo) (RW_write M (reg regs L ''miso_dlen'') mi)"

definition esp_load :: "'s Mmio \<Rightarrow> u32 \<Rightarrow> layout \<Rightarrow> u8 list \<Rightarrow> ('s, unit) dev" where
  "esp_load M regs L chunk =
     dfor (\<lambda>i. RW_write M (reg_at regs L ''w'' i) (esp_word chunk i)) [0..<esp_words (length chunk)]"

definition esp_run :: "'s Mmio \<Rightarrow> u32 \<Rightarrow> layout \<Rightarrow> ('s, unit) dev" where
  "esp_run M regs L =
     dseq (RW_modify M (reg regs L ''cmd'') (\<lambda>v. dreturn (or v (push_bit 18 1))))
          (spin_while M (reg regs L ''cmd'') (\<lambda>v. \<not> clear_at 18 v))"

definition esp_unload :: "'s Mmio \<Rightarrow> u32 \<Rightarrow> layout \<Rightarrow> nat \<Rightarrow> ('s, u8 list) dev" where
  "esp_unload M regs L n =
     dbind (dmap (\<lambda>i. RW_read M (reg_at regs L ''w'' i)) [0..<esp_words n]) (\<lambda>ws. dreturn (esp_bytes n ((!) ws)))"

definition esp_bits :: "nat \<Rightarrow> u32" where
  "esp_bits n = of_nat (n * 8) - 1"

text \<open>The loops over chunks of at most 64 bytes: exchange, send only, receive only.\<close>

fun esp_exchange_chunks :: "'s Mmio \<Rightarrow> u32 \<Rightarrow> layout \<Rightarrow> u8 list \<Rightarrow> ('s, u8 list) dev" where
  "esp_exchange_chunks M regs L ws =
     (if ws = [] then dreturn []
      else
        let chunk = take 64 ws; n = length chunk in
        dseq (esp_set_len M regs L (esp_bits n) (esp_bits n))
       (dseq (esp_load M regs L chunk)
       (dseq (esp_run M regs L)
       (dbind (esp_unload M regs L n) (\<lambda>bs.
        dbind (esp_exchange_chunks M regs L (drop 64 ws)) (\<lambda>rest. dreturn (bs @ rest)))))))"

fun esp_write_chunks :: "'s Mmio \<Rightarrow> u32 \<Rightarrow> layout \<Rightarrow> u8 list \<Rightarrow> ('s, unit) dev" where
  "esp_write_chunks M regs L ws =
     (if ws = [] then dreturn ()
      else
        let chunk = take 64 ws; n = length chunk in
        dseq (esp_set_len M regs L (esp_bits n) 0)
       (dseq (esp_load M regs L chunk)
       (dseq (esp_run M regs L)
             (esp_write_chunks M regs L (drop 64 ws)))))"

fun esp_read_chunks :: "'s Mmio \<Rightarrow> u32 \<Rightarrow> layout \<Rightarrow> u8 list \<Rightarrow> ('s, u8 list) dev" where
  "esp_read_chunks M regs L ws =
     (if ws = [] then dreturn []
      else
        let n = length (take 64 ws) in
        dseq (esp_set_len M regs L 0 (esp_bits n))
       (dseq (esp_run M regs L)
       (dbind (esp_unload M regs L n) (\<lambda>bs.
        dbind (esp_read_chunks M regs L (drop 64 ws)) (\<lambda>rest. dreturn (bs @ rest))))))"

definition EspSpi_transfer :: "'s Mmio \<Rightarrow> u32 \<Rightarrow> layout \<Rightarrow> u8 list \<Rightarrow> u8 list \<Rightarrow> ('s, u8 list) dev" where
  "EspSpi_transfer M regs L rx_buffer tx_data =
     (let total_len = min (length tx_data) (length rx_buffer) in
      dbind (esp_exchange_chunks M regs L (take total_len tx_data)) (\<lambda>bs. dreturn (bs @ drop total_len rx_buffer)))"

definition EspSpi :: "'s Mmio \<Rightarrow> u32 \<Rightarrow> layout \<Rightarrow> 's SpiDriver" where
  "EspSpi M regs L = \<lparr>spi_configure = EspSpi_configure M regs L, bus_read = esp_read_chunks M regs L,
     bus_write = esp_write_chunks M regs L, bus_transfer = EspSpi_transfer M regs L,
     bus_transfer_in_place = esp_exchange_chunks M regs L, bus_flush = dreturn ()\<rparr>"

definition Esp32Spi :: "'s Mmio \<Rightarrow> u32 \<Rightarrow> 's SpiDriver" where
  "Esp32Spi M regs = EspSpi M regs esp32_SpiRegs"

definition Esp32S2Spi :: "'s Mmio \<Rightarrow> u32 \<Rightarrow> 's SpiDriver" where
  "Esp32S2Spi M regs = EspSpi M regs esp32s2_SpiRegs"

definition Esp32S3Spi :: "'s Mmio \<Rightarrow> u32 \<Rightarrow> 's SpiDriver" where
  "Esp32S3Spi M regs = EspSpi M regs esp32s3_SpiRegs"

definition Esp32C3Spi :: "'s Mmio \<Rightarrow> u32 \<Rightarrow> 's SpiDriver" where
  "Esp32C3Spi M regs = EspSpi M regs esp32c3_SpiRegs"

definition Esp32C6Spi :: "'s Mmio \<Rightarrow> u32 \<Rightarrow> 's SpiDriver" where
  "Esp32C6Spi M regs = EspSpi M regs esp32c6_SpiRegs"

section \<open>nRF52840\<close>

text \<open>Buffers are given by address and length; a zero length is no transfer.\<close>

definition nrf52_spi_freq :: "u32 \<Rightarrow> u32" where
  "nrf52_spi_freq f =
     (if 8000000 \<le> f then 0x08000000 else if 4000000 \<le> f then 0x04000000 else if 2000000 \<le> f then 0x02000000
      else 0x01800000)"

definition Nrf52Spi_configure :: "'s Mmio \<Rightarrow> u32 \<Rightarrow> SpiConfig \<Rightarrow> ('s, unit) dev" where
  "Nrf52Spi_configure M regs config =
     (let cfg = spi_cpol_cpha (spi_mode config);
          cfg = (if bit_order config = LsbFirst then or cfg (push_bit 2 1) else cfg)
      in dseq (RW_write M (reg regs nrf52_SpiRegs ''frequency'') (nrf52_spi_freq (frequency config)))
        (dseq (RW_write M (reg regs nrf52_SpiRegs ''config'') cfg)
              (RW_write M (reg regs nrf52_SpiRegs ''enable'') 7)))"

definition nrf52_spi_dma :: "'s Mmio \<Rightarrow> u32 \<Rightarrow> u32 \<times> nat \<Rightarrow> u32 \<times> nat \<Rightarrow> ('s, unit) dev" where
  "nrf52_spi_dma M regs tx rx =
     dseq (RW_write M (reg regs nrf52_SpiRegs ''txd.ptr'') (fst tx))
    (dseq (RW_write M (reg regs nrf52_SpiRegs ''txd.maxcnt'') (of_nat (snd tx)))
    (dseq (RW_write M (reg regs nrf52_SpiRegs ''rxd.ptr'') (fst rx))
    (dseq (RW_write M (reg regs nrf52_SpiRegs ''rxd.maxcnt'') (of_nat (snd rx)))
    (dseq (RW_write M (reg regs nrf52_SpiRegs ''events_ready'') 0)
    (dseq (WO_write M (reg regs nrf52_SpiRegs ''tasks_start'') 1)
    (dseq (spin_while M (reg regs nrf52_SpiRegs ''events_ready'') (\<lambda>v. v = 0))
          (WO_write M (reg regs nrf52_SpiRegs ''tasks_stop'') 1)))))))"

definition Nrf52Spi_read :: "'s Mmio \<Rightarrow> u32 \<Rightarrow> u32 \<times> nat \<Rightarrow> ('s, unit) dev" where
  "Nrf52Spi_read M regs words = (if snd words = 0 then dreturn () else nrf52_spi_dma M regs (0, 0) words)"

text \<open>A write programs the transmit buffer first and then the receive buffer, like the other calls.\<close>

definition Nrf52Spi_write :: "'s Mmio \<Rightarrow> u32 \<Rightarrow> u32 \<times> nat \<Rightarrow> ('s, unit) dev" where
  "Nrf52Spi_write M regs words = (if snd words = 0 then dreturn () else nrf52_spi_dma M regs words (0, 0))"

definition Nrf52Spi_transfer :: "'s Mmio \<Rightarrow> u32 \<Rightarrow> u32 \<times> nat \<Rightarrow> u32 \<times> nat \<Rightarrow> ('s, unit) dev" where
  "Nrf52Spi_transfer M regs rd wr =
     (let len = min (snd rd) (snd wr) in
      if len = 0 then dreturn () else nrf52_spi_dma M regs (fst wr, len) (fst rd, len))"

definition Nrf52Spi_transfer_in_place :: "'s Mmio \<Rightarrow> u32 \<Rightarrow> u32 \<times> nat \<Rightarrow> ('s, unit) dev" where
  "Nrf52Spi_transfer_in_place M regs words = (if snd words = 0 then dreturn () else nrf52_spi_dma M regs words words)"

end
