(* ===== verification/SpiSpec.thy ===== *)
theory SpiSpec
  imports SpiDrv
begin

text \<open>
  What the SPI drivers do on conforming peripherals: a transfer of any length exchanges exactly the given bytes with
  the slave, in order, whether byte by byte or in chunks; and the clock rates the configurations give.
\<close>

section \<open>A slave\<close>

text \<open>
  A slave answers each byte shifted to it with one, and changes its state.
\<close>

type_synonym 'x slave = "'x \<Rightarrow> u8 \<Rightarrow> u8 \<times> 'x"

fun answers :: "'x slave \<Rightarrow> 'x \<Rightarrow> u8 list \<Rightarrow> u8 list \<times> 'x" where
  "answers sl x [] = ([], x)"
| "answers sl x (b # bs) = (case sl x b of (a, y) \<Rightarrow> case answers sl y bs of (as, z) \<Rightarrow> (a # as, z))"

lemma answers_append:
  "answers sl x (bs @ cs) = (case answers sl x bs of (as, y) \<Rightarrow> case answers sl y cs of (as', z) \<Rightarrow> (as @ as', z))"
  by (induction bs arbitrary: x) (auto split: prod.splits)

lemma length_answers: "length (fst (answers sl x bs)) = length bs"
  by (induction bs arbitrary: x) (auto split: prod.splits, metis fst_conv)

section \<open>Conforming peripherals\<close>

text \<open>
  What the chips document, with \<open>at s\<close> the slave's state and \<open>ready s\<close> that no transfer is going on. Byte-wise
  peripheral: room appears; a byte written then is exchanged, after which the status shows an answer and the data register
  yields it. The idle test ends and changes nothing.
\<close>

definition spi_byte_hw ::
    "'s Mmio \<Rightarrow> u32 \<Rightarrow> u32 \<Rightarrow> (u32 \<Rightarrow> bool) \<Rightarrow> (u32 \<Rightarrow> bool) \<Rightarrow> (u32 \<Rightarrow> bool) \<Rightarrow> 'x slave \<Rightarrow> ('s \<Rightarrow> 'x) \<Rightarrow> ('s \<Rightarrow> bool) \<Rightarrow> bool" where
  "spi_byte_hw M stat dat full nodata busy sl at ready \<longleftrightarrow>
     (\<forall>s. ready s \<longrightarrow> (\<exists>n. \<not> full (fst (io_read M stat ((polled M stat ^^ n) s))))) \<and>
     (\<forall>s b n. ready s \<and> \<not> full (fst (io_read M stat ((polled M stat ^^ n) s))) \<longrightarrow>
        (let s1 = io_write M dat (ucast b) ((polled M stat ^^ Suc n) s) in
         (\<exists>m. \<not> nodata (fst (io_read M stat ((polled M stat ^^ m) s1)))) \<and>
         (\<forall>m. \<not> nodata (fst (io_read M stat ((polled M stat ^^ m) s1))) \<longrightarrow>
            (let s2 = (polled M stat ^^ Suc m) s1 in
             (ucast (fst (io_read M dat s2)), at (polled M dat s2)) = sl (at s) b \<and> ready (polled M dat s2))))) \<and>
     (\<forall>s. ready s \<longrightarrow> ready (polled M stat s) \<and> at (polled M stat s) = at s \<and>
        (\<exists>n. \<not> busy (fst (io_read M stat ((polled M stat ^^ n) s)))))"

text \<open>
  Buffered peripheral: the length registers and the data words keep what is written; setting the start bit shifts out as many
  bytes of the data words as the outgoing length says, after which the bit reads as zero and, if the incoming length is the
  same, the data words hold the answers. The bytes are shifted in the order of the words and, within a word, from the least
  to the most significant one.
\<close>

fun word_octets :: "nat \<Rightarrow> nat \<Rightarrow> u8 list" where
  "word_octets 0 v = []"
| "word_octets (Suc k) v = of_nat (v mod 256) # word_octets k (v div 256)"

definition shifted_bytes :: "nat \<Rightarrow> (nat \<Rightarrow> u32) \<Rightarrow> u8 list" where
  "shifted_bytes n w = take n (concat (map (\<lambda>i. word_octets 4 (unat (w i))) [0..<n]))"

record 's EspPort =
  mosi :: "'s \<Rightarrow> u32"
  miso :: "'s \<Rightarrow> u32"
  esp_data :: "'s \<Rightarrow> nat \<Rightarrow> u32"
  esp_idle :: "'s \<Rightarrow> bool"

definition same_regs :: "'s EspPort \<Rightarrow> 's \<Rightarrow> 's \<Rightarrow> bool" where
  "same_regs P s s' \<longleftrightarrow> mosi P s' = mosi P s \<and> miso P s' = miso P s \<and> esp_data P s' = esp_data P s \<and> (esp_idle P s \<longrightarrow> esp_idle P s')"

definition esp_hw :: "u32 \<Rightarrow> layout \<Rightarrow> 's Mmio \<Rightarrow> 's EspPort \<Rightarrow> 'x slave \<Rightarrow> ('s \<Rightarrow> 'x) \<Rightarrow> bool" where
  "esp_hw regs L M P sl at \<longleftrightarrow>
     (\<forall>s v. let s' = io_write M (reg regs L ''mosi_dlen'') v s in
        mosi P s' = v \<and> miso P s' = miso P s \<and> esp_data P s' = esp_data P s \<and> at s' = at s \<and> (esp_idle P s \<longrightarrow> esp_idle P s')) \<and>
     (\<forall>s v. let s' = io_write M (reg regs L ''miso_dlen'') v s in
        mosi P s' = mosi P s \<and> miso P s' = v \<and> esp_data P s' = esp_data P s \<and> at s' = at s \<and> (esp_idle P s \<longrightarrow> esp_idle P s')) \<and>
     (\<forall>s v i. i < 16 \<longrightarrow> (let s' = io_write M (reg_at regs L ''w'' i) v s in
        mosi P s' = mosi P s \<and> miso P s' = miso P s \<and> esp_data P s' = (esp_data P s)(i := v) \<and> at s' = at s \<and> (esp_idle P s \<longrightarrow> esp_idle P s'))) \<and>
     (\<forall>s i. i < 16 \<and> esp_idle P s \<longrightarrow> fst (io_read M (reg_at regs L ''w'' i) s) = esp_data P s i \<and>
        same_regs P s (polled M (reg_at regs L ''w'' i) s) \<and> at (polled M (reg_at regs L ''w'' i) s) = at s) \<and>
     (\<forall>s. esp_idle P s \<longrightarrow> same_regs P s (polled M (reg regs L ''cmd'') s) \<and> at (polled M (reg regs L ''cmd'') s) = at s) \<and>
     (\<forall>s v n. esp_idle P s \<and> bit v 18 \<and> n \<le> 64 \<and> unat (mosi P s) + 1 = 8 * n \<longrightarrow>
        (let s1 = io_write M (reg regs L ''cmd'') v s in
         (\<exists>m. \<not> bit (fst (io_read M (reg regs L ''cmd'') ((polled M (reg regs L ''cmd'') ^^ m) s1))) 18) \<and>
         (\<forall>m. \<not> bit (fst (io_read M (reg regs L ''cmd'') ((polled M (reg regs L ''cmd'') ^^ m) s1))) 18 \<longrightarrow>
            (let s2 = (polled M (reg regs L ''cmd'') ^^ Suc m) s1;
                 (as, y) = answers sl (at s) (shifted_bytes n (esp_data P s)) in
             esp_idle P s2 \<and> mosi P s2 = mosi P s \<and> miso P s2 = miso P s \<and> at s2 = y \<and>
             (miso P s = mosi P s \<longrightarrow> shifted_bytes n (esp_data P s2) = as)))))"

text \<open>The bytes the driver packs and unpacks are those the peripheral shifts.\<close>

lemma byte_of_nat: "(of_nat (unat (v :: u32) div 2 ^ k mod 256) :: u8) = ucast (drop_bit k v)"
proof -
  have "unat v < 2 ^ LENGTH(32)" by (rule unsigned_less)
  then have "unat v div 2 ^ k mod 256 = take_bit 8 (unat (drop_bit k v))"
    by (simp only: unsigned_drop_bit_eq take_bit_eq_mod) (simp add: drop_bit_eq_div)
  then show ?thesis by (rule_tac bit_word_eqI) (simp add: bit_simps)
qed

lemma word_octets_bytes:
  "word_octets 4 (unat (v :: u32)) = map (\<lambda>b. ucast (drop_bit (b * 8) v)) [0, 1, 2, 3]"
proof -
  let ?u = "unat v"
  have "word_octets (Suc (Suc (Suc (Suc 0)))) ?u =
      [of_nat (?u mod 256), of_nat (?u div 256 mod 256), of_nat (?u div 65536 mod 256), of_nat (?u div 16777216 mod 256)]"
    by (simp only: word_octets.simps div_mult2_eq [symmetric]) simp
  also have "Suc (Suc (Suc (Suc 0))) = 4" by simp
  finally show ?thesis
    using byte_of_nat [of v 0] byte_of_nat [of v 8] byte_of_nat [of v 16] byte_of_nat [of v 24] by simp
qed

lemma shifted_bytes_eq: "shifted_bytes n w = esp_bytes n w"
proof -
  have "concat (map (\<lambda>i. word_octets 4 (unat (w i))) [0..<k]) = esp_bytes (4 * k) w" for k
  proof (induction k)
    case (Suc k)
    have "[0..<4 * Suc k] = [0..<4 * k] @ [4 * k, 4 * k + 1, 4 * k + 2, 4 * k + 3]"
      by (simp add: numeral_eq_Suc)
    moreover have "(4 * k + b) mod 4 = b" "(4 * k + b) div 4 = k" if "b < 4" for b using that by simp_all
    ultimately show ?case using Suc by (simp add: esp_bytes_def word_octets_bytes del: add_Suc_right add_2_eq_Suc')
  qed (simp add: esp_bytes_def)
  then show ?thesis by (simp add: shifted_bytes_def esp_bytes_def take_map)
qed
lemmas esp_hw_bytes = esp_hw_def [unfolded shifted_bytes_eq]

section \<open>The contract of a bus\<close>

text \<open>\<open>conforms M sl at ready\<close>: the peripheral behind \<open>M\<close> is connected to the slave \<open>sl\<close>.\<close>

locale spi_chip =
  fixes conforms :: "'s Mmio \<Rightarrow> 'x slave \<Rightarrow> ('s \<Rightarrow> 'x) \<Rightarrow> ('s \<Rightarrow> bool) \<Rightarrow> bool"
    and driver :: "'s Mmio \<Rightarrow> 's SpiDriver"
  assumes in_place: "conforms M sl at ready \<Longrightarrow> ready s \<Longrightarrow> \<exists>rs s'. bus_transfer_in_place (driver M) ws s = Some (Inr rs, s') \<and>
      ready s' \<and> answers sl (at s) ws = (rs, at s')"
    and bus_writes: "conforms M sl at ready \<Longrightarrow> ready s \<Longrightarrow> \<exists>s'. bus_write (driver M) ws s = Some (Inr (), s') \<and>
      ready s' \<and> at s' = snd (answers sl (at s) ws)"
    and transfers: "conforms M sl at ready \<Longrightarrow> ready s \<Longrightarrow> \<exists>rs s'. bus_transfer (driver M) rd wr s = Some (Inr (rs @ drop (length rs) rd), s') \<and>
      ready s' \<and> answers sl (at s) (take (length rd) wr) = (rs, at s')"
begin

text \<open>A command and its data may be sent in pieces: the slave sees the concatenation.\<close>

lemma pieces:
  assumes hw: "conforms M sl at ready"
  shows "ready s \<Longrightarrow> \<exists>rss s'. dmap (bus_transfer_in_place (driver M)) wss s = Some (Inr rss, s') \<and> ready s' \<and>
     answers sl (at s) (concat wss) = (concat rss, at s')"
proof (induction wss arbitrary: s)
  case (Cons ws wss)
  from in_place [OF hw Cons.prems] obtain rs s1 where
    s1: "bus_transfer_in_place (driver M) ws s = Some (Inr rs, s1)" "ready s1" "answers sl (at s) ws = (rs, at s1)" by blast
  from Cons.IH [OF s1(2)] obtain rss s2 where
    "dmap (bus_transfer_in_place (driver M)) wss s1 = Some (Inr rss, s2)" "ready s2"
    "answers sl (at s1) (concat wss) = (concat rss, at s2)" by blast
  with s1 show ?case by (simp add: dbind_Some answers_append dev_eval)
qed (simp add: dev_eval)

text \<open>A write followed by a transfer, the way a register of the slave is read.\<close>

lemma write_then_transfer:
  assumes hw: "conforms M sl at ready" and "ready s"
  shows "\<exists>rs s'. dseq (bus_write (driver M) cmd) (bus_transfer_in_place (driver M) ws) s = Some (Inr rs, s') \<and>
     drop (length cmd) (fst (answers sl (at s) (cmd @ ws))) = rs"
proof -
  obtain as x where a: "answers sl (at s) cmd = (as, x)" by fastforce
  from bus_writes [OF assms] obtain s1 where
    s1: "bus_write (driver M) cmd s = Some (Inr (), s1)" "ready s1" "at s1 = x" by (metis a snd_conv)
  from in_place [OF hw s1(2)] obtain rs s2 where
    "bus_transfer_in_place (driver M) ws s1 = Some (Inr rs, s2)" "answers sl x ws = (rs, at s2)" by (metis s1(3))
  moreover have "length as = length cmd" using length_answers [of sl "at s" cmd] a by simp
  ultimately show ?thesis using s1(1) a by (simp add: dseq_Some answers_append)
qed

end

section \<open>Byte-wise drivers\<close>

lemma byte_exchange_answers:
  assumes hw: "spi_byte_hw M stat dat full nodata busy sl at ready" and "ready s"
  shows "\<exists>r s'. byte_exchange M stat dat full nodata b s = Some (Inr r, s') \<and> ready s' \<and> sl (at s) b = (r, at s')"
proof -
  from assms obtain n where "\<not> full (fst (io_read M stat ((polled M stat ^^ n) s)))" unfolding spi_byte_hw_def by blast
  from spin_while_ends [of full, OF this] obtain k where
    k: "spin_while M stat full s = Some (Inr (), (polled M stat ^^ Suc k) s)"
      "\<not> full (fst (io_read M stat ((polled M stat ^^ k) s)))" by blast
  let ?s1 = "io_write M dat (ucast b) ((polled M stat ^^ Suc k) s)"
  note x = hw [unfolded spi_byte_hw_def Let_def, THEN conjunct2, THEN conjunct1, rule_format, OF conjI, OF assms(2) k(2), of b]
  from x obtain m where "\<not> nodata (fst (io_read M stat ((polled M stat ^^ m) ?s1)))" by blast
  from spin_while_ends [of nodata, OF this] obtain j where
    j: "spin_while M stat nodata ?s1 = Some (Inr (), (polled M stat ^^ Suc j) ?s1)"
      "\<not> nodata (fst (io_read M stat ((polled M stat ^^ j) ?s1)))" by blast
  let ?s2 = "(polled M stat ^^ Suc j) ?s1"
  from x j(2) have "(ucast (fst (io_read M dat ?s2)), at (polled M dat ?s2)) = sl (at s) b" "ready (polled M dat ?s2)" by blast+
  moreover have "byte_exchange M stat dat full nodata b s = Some (Inr (ucast (fst (io_read M dat ?s2))), polled M dat ?s2)"
    by (simp add: byte_exchange_def dseq_Some [where m = "spin_while M stat full", OF k(1)]
        dseq_Some [where m = "spin_while M stat nodata", OF j(1)] polled_def [of M dat] dev_eval split: prod.splits del: funpow.simps)
  ultimately show ?thesis by metis
qed

lemma bytes_answer:
  assumes one: "\<And>s b. ready s \<Longrightarrow> \<exists>r s'. xch b s = Some (Inr r, s') \<and> ready s' \<and> sl (at s) b = (r, at s')" and "ready s"
  shows "\<exists>rs s'. dmap xch ws s = Some (Inr rs, s') \<and> ready s' \<and> answers sl (at s) ws = (rs, at s')"
    "\<exists>s'. bytes_write xch ws s = Some (Inr (), s') \<and> ready s' \<and> at s' = snd (answers sl (at s) ws)"
proof -
  show "\<exists>rs s'. dmap xch ws s = Some (Inr rs, s') \<and> ready s' \<and> answers sl (at s) ws = (rs, at s')"
    using assms(2)
  proof (induction ws arbitrary: s)
    case (Cons w ws)
    from one [OF Cons.prems] obtain r s1 where
      s1: "xch w s = Some (Inr r, s1)" "ready s1" "sl (at s) w = (r, at s1)" by blast
    from Cons.IH [OF s1(2)] show ?case using s1 by (auto simp: dbind_Some dev_eval)
  qed (simp add: dev_eval)
  show "\<exists>s'. bytes_write xch ws s = Some (Inr (), s') \<and> ready s' \<and> at s' = snd (answers sl (at s) ws)"
    unfolding bytes_write_def using assms(2)
  proof (induction ws arbitrary: s)
    case (Cons w ws)
    from one [OF Cons.prems] obtain r s1 where
      s1: "xch w s = Some (Inr r, s1)" "ready s1" "sl (at s) w = (r, at s1)" by blast
    from Cons.IH [OF s1(2)] show ?case using s1 by (auto simp: dseq_dbind dbind_Some split: prod.splits)
  qed (simp add: dev_eval)
qed

lemma bytes_transfer_answers:
  assumes "dmap xch (take (length rd) wr) s = Some (Inr rs, s')" "answers sl (at s) (take (length rd) wr) = (rs, at s')"
  shows "bytes_transfer xch rd wr s = Some (Inr (rs @ drop (length rs) rd), s')"
proof -
  have "length rs = min (length rd) (length wr)" using length_answers [of sl "at s" "take (length rd) wr"] assms(2) by simp
  moreover have "take (min (length rd) (length wr)) wr = take (length rd) wr" by (simp add: min_def)
  ultimately show ?thesis using assms(1) by (simp add: bytes_transfer_def Let_def dbind_Some dev_eval)
qed

lemma byte_driver:
  assumes "\<And>M. bus_transfer_in_place (driver M) = dmap (byte_exchange M stat dat full nodata)"
    "\<And>M. bus_write (driver M) = bytes_write (byte_exchange M stat dat full nodata)"
    "\<And>M. bus_transfer (driver M) = bytes_transfer (byte_exchange M stat dat full nodata)"
  shows "spi_chip (\<lambda>M. spi_byte_hw M stat dat full nodata busy) driver"
proof
  fix M :: "'a Mmio" and sl :: "'b slave" and at ready s and ws rd wr :: "u8 list"
  assume hw: "spi_byte_hw M stat dat full nodata busy sl at ready" and r: "ready s"
  note xch = bytes_answer [of ready "byte_exchange M stat dat full nodata" sl at, OF byte_exchange_answers [OF hw] r]
  show "\<exists>rs s'. bus_transfer_in_place (driver M) ws s = Some (Inr rs, s') \<and> ready s' \<and> answers sl (at s) ws = (rs, at s')"
    "\<exists>s'. bus_write (driver M) ws s = Some (Inr (), s') \<and> ready s' \<and> at s' = snd (answers sl (at s) ws)"
    unfolding assms using xch [of ws] by simp_all
  show "\<exists>rs s'. bus_transfer (driver M) rd wr s = Some (Inr (rs @ drop (length rs) rd), s') \<and> ready s' \<and>
      answers sl (at s) (take (length rd) wr) = (rs, at s')"
    unfolding assms using xch(1) [of "take (length rd) wr"] bytes_transfer_answers by metis
qed

interpretation stm32_spi: spi_chip
  "\<lambda>M. spi_byte_hw M (reg regs stm32f4_SpiRegs ''sr'') (reg regs stm32f4_SpiRegs ''dr'') (clear_at 1) (clear_at 0) (\<lambda>v. \<not> clear_at 7 v)"
  "\<lambda>M. Stm32F4Spi M regs"
  by (rule byte_driver) (simp_all add: Stm32F4Spi_def Stm32F4Spi_transfer_word_def)

interpretation gd32_spi: spi_chip
  "\<lambda>M. spi_byte_hw M (reg regs gd32vf_SpiRegs ''stat'') (reg regs gd32vf_SpiRegs ''data'') (clear_at 1) (clear_at 0) (\<lambda>v. \<not> clear_at 7 v)"
  "\<lambda>M. Gd32VfSpi M regs"
  by (rule byte_driver) (simp_all add: Gd32VfSpi_def gd32vf_exchange_def)

text \<open>The LPC1768 driver waits for the bus to be idle after each call.\<close>

lemma wait_idle_ends:
  assumes hw: "spi_byte_hw M stat dat full nodata busy sl at ready" and "ready s"
  shows "\<exists>s'. spin_while M stat busy s = Some (Inr (), s') \<and> ready s' \<and> at s' = at s"
proof -
  have step: "ready t \<Longrightarrow> ready (polled M stat t) \<and> at (polled M stat t) = at t" for t
    using hw unfolding spi_byte_hw_def by blast
  have "ready ((polled M stat ^^ n) s) \<and> at ((polled M stat ^^ n) s) = at s" for n
    by (induction n) (use assms(2) step in auto)
  moreover from assms obtain n where "\<not> busy (fst (io_read M stat ((polled M stat ^^ n) s)))"
    unfolding spi_byte_hw_def by blast
  from spin_while_ends [of busy, OF this] obtain k where
    "spin_while M stat busy s = Some (Inr (), (polled M stat ^^ Suc k) s)" by blast
  ultimately show ?thesis by blast
qed

lemma then_idle_run:
  assumes "spi_byte_hw M (reg regs lpc17_SspRegs ''sr'') dat full nodata (\<lambda>v. \<not> clear_at 4 v) sl at ready"
    and "m s = Some (Inr x, s')" "ready s'"
  shows "\<exists>s''. then_idle M regs m s = Some (Inr x, s'') \<and> ready s'' \<and> at s'' = at s'"
  using wait_idle_ends [OF assms(1,3), folded Lpc17Spi_wait_idle_def] assms(2)
  by (auto simp: then_idle_def dbind_Some dseq_Some dev_eval)

interpretation lpc_spi: spi_chip
  "\<lambda>M. spi_byte_hw M (reg regs lpc17_SspRegs ''sr'') (reg regs lpc17_SspRegs ''dr'') (clear_at 1) (clear_at 2) (\<lambda>v. \<not> clear_at 4 v)"
  "\<lambda>M. Lpc17Spi M regs"
proof
  fix M :: "'a Mmio" and sl :: "'b slave" and at ready s and ws rd wr :: "u8 list"
  let ?x = "Lpc17Spi_transfer_byte M regs"
  assume hw: "spi_byte_hw M (reg regs lpc17_SspRegs ''sr'') (reg regs lpc17_SspRegs ''dr'') (clear_at 1) (clear_at 2)
    (\<lambda>v. \<not> clear_at 4 v) sl at ready" and r: "ready s"
  note xch = bytes_answer [of ready ?x sl at, OF byte_exchange_answers [OF hw, folded Lpc17Spi_transfer_byte_def] r]
  note esp_idle = then_idle_run [OF hw]
  from xch(1) [of ws] obtain rs s1 where a: "dmap ?x ws s = Some (Inr rs, s1)" "ready s1" "answers sl (at s) ws = (rs, at s1)"
    by blast
  from esp_idle [where m = "dmap ?x ws", OF a(1,2)] a(3)
  show "\<exists>rs s'. bus_transfer_in_place (Lpc17Spi M regs) ws s = Some (Inr rs, s') \<and> ready s' \<and> answers sl (at s) ws = (rs, at s')"
    by (auto simp: Lpc17Spi_def)
  from xch(2) [of ws] obtain s2 where b: "bytes_write ?x ws s = Some (Inr (), s2)" "ready s2" "at s2 = snd (answers sl (at s) ws)"
    by blast
  from esp_idle [where m = "bytes_write ?x ws", OF b(1,2)] b(3)
  show "\<exists>s'. bus_write (Lpc17Spi M regs) ws s = Some (Inr (), s') \<and> ready s' \<and> at s' = snd (answers sl (at s) ws)"
    by (auto simp: Lpc17Spi_def)
  from xch(1) [of "take (length rd) wr"] obtain qs s3 where
    c: "dmap ?x (take (length rd) wr) s = Some (Inr qs, s3)" "ready s3" "answers sl (at s) (take (length rd) wr) = (qs, at s3)" by blast
  from esp_idle [where m = "bytes_transfer ?x rd wr", OF bytes_transfer_answers [OF c(1), of sl at, OF c(3)] c(2)] c(3)
  show "\<exists>rs s'. bus_transfer (Lpc17Spi M regs) rd wr s = Some (Inr (rs @ drop (length rs) rd), s') \<and> ready s' \<and>
      answers sl (at s) (take (length rd) wr) = (rs, at s')"
    by (auto simp: Lpc17Spi_def)
qed

section \<open>ESP32 family\<close>

declare esp_exchange_chunks.simps [simp del] esp_write_chunks.simps [simp del] esp_read_chunks.simps [simp del]

text \<open>Packing a chunk into words and back.\<close>

lemma bit_byte: "bit (b :: u8) n \<Longrightarrow> n < 8"
  using bit_imp_le_length [of b n] by simp

lemma esp_word_byte:
  assumes "i * 4 + b < length chunk" "b < 4"
  shows "ucast (drop_bit (b * 8) (esp_word chunk i)) = chunk ! (i * 4 + b)"
proof -
  have four: "[0..<4] = [0, 1, 2, 3 :: nat]" by (simp add: upt_rec)
  from assms(2) consider "b = 0" | "b = 1" | "b = 2" | "b = 3" by linarith
  then show ?thesis
    using assms(1) by cases
      (rule bit_word_eqI, auto simp: esp_word_def four bit_simps simp del: upt_rec_numeral dest: bit_byte)+
qed

lemma esp_bytes_words:
  assumes "\<And>i. i < esp_words (length chunk) \<Longrightarrow> w i = esp_word chunk i"
  shows "esp_bytes (length chunk) w = chunk"
proof (rule nth_equalityI)
  fix idx assume "idx < length (esp_bytes (length chunk) w)"
  then have l: "idx < length chunk" by (simp add: esp_bytes_def)
  then have "idx div 4 < esp_words (length chunk)" by (simp add: esp_words_def)
  with l show "esp_bytes (length chunk) w ! idx = chunk ! idx"
    using esp_word_byte [of "idx div 4" "idx mod 4" chunk] assms [of "idx div 4"] by (simp add: esp_bytes_def)
qed (simp add: esp_bytes_def)

lemma esp_bytes_cong:
  "(\<And>i. i < esp_words n \<Longrightarrow> w i = w' i) \<Longrightarrow> esp_bytes n w = esp_bytes n w'"
  by (auto simp: esp_bytes_def esp_words_def)

lemma esp_words_16: "n \<le> 64 \<Longrightarrow> esp_words n \<le> 16"
  by (simp add: esp_words_def)

lemma unat_esp_bits: "0 < n \<Longrightarrow> n \<le> 64 \<Longrightarrow> unat (esp_bits n) + 1 = 8 * n"
proof -
  assume n: "0 < n" "n \<le> 64"
  have "unat (of_nat (n * 8) :: u32) = n * 8" using n by (simp only: unsigned_of_nat) (simp add: take_bit_nat_eq_self)
  moreover have "unat (of_nat (n * 8) - 1 :: u32) = n * 8 - 1"
    using n calculation by (simp add: unat_sub_if' word_le_nat_alt)
  ultimately show ?thesis using n by (simp add: esp_bits_def)
qed

text \<open>The steps of one chunk on a conforming port.\<close>

lemma set_len_run:
  assumes "esp_hw regs L M P sl at" "esp_idle P s"
  shows "\<exists>s'. esp_set_len M regs L a b s = Some (Inr (), s') \<and> mosi P s' = a \<and> miso P s' = b \<and>
     esp_idle P s' \<and> at s' = at s"
  using assms by (simp add: esp_set_len_def esp_hw_bytes Let_def dev_eval)

lemma load_run:
  assumes hw: "esp_hw regs L M P sl at"
  shows "esp_idle P s \<Longrightarrow> k \<le> 16 \<Longrightarrow> \<exists>s'. dfor (\<lambda>i. RW_write M (reg_at regs L ''w'' i) (f i)) [0..<k] s = Some (Inr (), s') \<and>
     mosi P s' = mosi P s \<and> miso P s' = miso P s \<and> esp_idle P s' \<and> at s' = at s \<and> (\<forall>i < k. esp_data P s' i = f i)"
proof (induction k)
  case (Suc k)
  let ?w = "\<lambda>i. RW_write M (reg_at regs L ''w'' i) (f i)"
  from Suc obtain s1 where
    s1: "dfor ?w [0..<k] s = Some (Inr (), s1)" "mosi P s1 = mosi P s" "miso P s1 = miso P s" "esp_idle P s1" "at s1 = at s"
    "\<forall>i < k. esp_data P s1 i = f i" by auto
  let ?s2 = "io_write M (reg_at regs L ''w'' k) (f k) s1"
  from hw Suc.prems have "mosi P ?s2 = mosi P s1" "miso P ?s2 = miso P s1" "esp_data P ?s2 = (esp_data P s1)(k := f k)" "at ?s2 = at s1"
    "esp_idle P s1 \<Longrightarrow> esp_idle P ?s2" by (simp_all add: esp_hw_bytes Let_def)
  moreover have "dfor ?w [0..<Suc k] s = dreturn () ?s2"
    by (simp add: dfor_append dseq_Some [where m = "dfor ?w [0..<k]", OF s1(1)])
  ultimately show ?case using s1 by (intro exI [of _ ?s2]) (auto simp: less_Suc_eq dev_done)
qed (simp add: dev_eval)

lemma unload_run:
  assumes hw: "esp_hw regs L M P sl at" and "esp_idle P s" "n \<le> 64"
  shows "\<exists>s'. esp_unload M regs L n s = Some (Inr (esp_bytes n (esp_data P s)), s') \<and> esp_idle P s' \<and> at s' = at s"
proof -
  let ?r = "\<lambda>i. RW_read M (reg_at regs L ''w'' i)"
  have "\<exists>s'. dmap ?r is s = Some (Inr (map (esp_data P s) is), s') \<and> esp_idle P s' \<and> at s' = at s"
    if "\<forall>i\<in>set is. i < 16" "esp_idle P s" for "is" s
    using that
  proof (induction "is" arbitrary: s)
    case (Cons i "is")
    let ?s1 = "polled M (reg_at regs L ''w'' i) s"
    from hw Cons.prems have r: "?r i s = Some (Inr (esp_data P s i), ?s1)" "same_regs P s ?s1" "at ?s1 = at s"
      by (auto simp: esp_hw_bytes RW_read_def polled_def split: prod.splits) (metis fst_conv)
    then have "esp_data P ?s1 = esp_data P s" "esp_idle P ?s1" using Cons.prems by (simp_all add: same_regs_def)
    with Cons.IH [of ?s1] Cons.prems r show ?case by (auto simp: dbind_Some dev_eval simp del: reg_run)
  qed (simp add: dev_eval)
  from this [of "[0..<esp_words n]" s] assms(2,3) esp_words_16 obtain s' where
    "dmap ?r [0..<esp_words n] s = Some (Inr (map (esp_data P s) [0..<esp_words n]), s')" "esp_idle P s'" "at s' = at s" by fastforce
  moreover have "esp_bytes n ((!) (map (esp_data P s) [0..<esp_words n])) = esp_bytes n (esp_data P s)"
    by (rule esp_bytes_cong) simp
  ultimately show ?thesis by (simp add: esp_unload_def dbind_Some dev_eval)
qed

lemmas esp_hw_start = esp_hw_bytes [THEN iffD1, THEN conjunct2, THEN conjunct2, THEN conjunct2, THEN conjunct2, THEN conjunct2,
  THEN spec, THEN spec, THEN spec, THEN mp]

lemma run_run:
  assumes hw: "esp_hw regs L M P sl at" and i: "esp_idle P s" and n: "unat (mosi P s) + 1 = 8 * n" "n \<le> 64"
  shows "\<exists>s'. esp_run M regs L s = Some (Inr (), s') \<and> esp_idle P s' \<and>
     at s' = snd (answers sl (at s) (esp_bytes n (esp_data P s))) \<and>
     (miso P s = mosi P s \<longrightarrow> esp_bytes n (esp_data P s') = fst (answers sl (at s) (esp_bytes n (esp_data P s))))"
proof -
  let ?c = "reg regs L ''cmd''"
  obtain v s0 where r: "io_read M ?c s = (v, s0)" by fastforce
  then have "s0 = polled M ?c s" by (simp add: polled_def)
  with hw i have s0: "same_regs P s s0" "at s0 = at s" by (simp_all add: esp_hw_bytes)
  then have i0: "esp_idle P s0" "mosi P s0 = mosi P s" "miso P s0 = miso P s" "esp_data P s0 = esp_data P s"
    using i by (simp_all add: same_regs_def)
  let ?v = "or v (push_bit 18 1)"
  have "bit ?v 18" by (simp add: bit_simps)
  with i0 n have "esp_idle P s0 \<and> bit ?v 18 \<and> n \<le> 64 \<and> unat (mosi P s0) + 1 = 8 * n" by simp
  note fin = esp_hw_start [OF hw this]
  let ?s1 = "io_write M ?c ?v s0"
  have test: "(\<not> clear_at 18 w) = bit w 18" for w :: u32
    by (rule bit_test)
  from fin obtain m where "\<not> bit (fst (io_read M ?c ((polled M ?c ^^ m) ?s1))) 18" by (auto simp: Let_def)
  from spin_while_ends [of "\<lambda>w. bit w 18", OF this] obtain k where
    k: "spin_while M ?c (\<lambda>w. bit w 18) ?s1 = Some (Inr (), (polled M ?c ^^ Suc k) ?s1)"
      "\<not> bit (fst (io_read M ?c ((polled M ?c ^^ k) ?s1))) 18" by blast
  have "esp_run M regs L s = Some (Inr (), (polled M ?c ^^ Suc k) ?s1)"
    unfolding esp_run_def test using k(1)
    by (simp add: dseq_Some [where m = "RW_modify M ?c _" and s' = ?s1 and x = "()"] RW_modify_run r dev_eval del: funpow.simps push_bit_of_1)
  moreover obtain as y where a: "answers sl (at s0) (esp_bytes n (esp_data P s0)) = (as, y)" by fastforce
  moreover have "esp_idle P ((polled M ?c ^^ Suc k) ?s1) \<and> at ((polled M ?c ^^ Suc k) ?s1) = y \<and>
      (miso P s0 = mosi P s0 \<longrightarrow> esp_bytes n (esp_data P ((polled M ?c ^^ Suc k) ?s1)) = as)"
    using fin k(2) unfolding Let_def a prod.case by blast
  ultimately show ?thesis using s0(2) i0(2-4) by (intro exI [of _ "(polled M ?c ^^ Suc k) ?s1"]) (simp del: funpow.simps)
qed

text \<open>All chunks together.\<close>

lemma chunk_steps:
  assumes hw: "esp_hw regs L M P sl at" and i: "esp_idle P s" and n: "0 < length chunk" "length chunk \<le> 64"
  shows "\<exists>s'. (\<forall>k. dseq (esp_set_len M regs L (esp_bits (length chunk)) b)
        (dseq (esp_load M regs L chunk) (dseq (esp_run M regs L) k)) s = k s') \<and> esp_idle P s' \<and>
     at s' = snd (answers sl (at s) chunk) \<and>
     (b = esp_bits (length chunk) \<longrightarrow> esp_bytes (length chunk) (esp_data P s') = fst (answers sl (at s) chunk))"
proof -
  let ?n = "length chunk"
  from set_len_run [OF hw i] obtain s1 where
    s1: "esp_set_len M regs L (esp_bits ?n) b s = Some (Inr (), s1)" "mosi P s1 = esp_bits ?n" "miso P s1 = b" "esp_idle P s1" "at s1 = at s"
    by blast
  from load_run [OF hw s1(4) esp_words_16 [OF n(2)], of "esp_word chunk", folded esp_load_def] obtain s2 where
    s2: "esp_load M regs L chunk s1 = Some (Inr (), s2)" "mosi P s2 = mosi P s1" "miso P s2 = miso P s1" "esp_idle P s2" "at s2 = at s1"
      "\<forall>i < esp_words ?n. esp_data P s2 i = esp_word chunk i" by blast
  then have c: "esp_bytes ?n (esp_data P s2) = chunk" by (intro esp_bytes_words) simp
  have "unat (mosi P s2) + 1 = 8 * ?n" using s1(2) s2(2) unat_esp_bits [OF n] by simp
  from run_run [OF hw s2(4) this n(2)] obtain s3 where
    "esp_run M regs L s2 = Some (Inr (), s3)" "esp_idle P s3" "at s3 = snd (answers sl (at s2) chunk)"
      "miso P s2 = mosi P s2 \<longrightarrow> esp_bytes ?n (esp_data P s3) = fst (answers sl (at s2) chunk)"
    unfolding c by blast
  with s1 s2 show ?thesis by (intro exI [of _ s3]) (simp add: dseq_Some)
qed

lemma exchange_chunks_run:
  assumes hw: "esp_hw regs L M P sl at"
  shows "esp_idle P s \<Longrightarrow> \<exists>rs s'. esp_exchange_chunks M regs L ws s = Some (Inr rs, s') \<and> esp_idle P s' \<and>
     answers sl (at s) ws = (rs, at s')"
proof (induction ws arbitrary: s rule: length_induct)
  case (1 ws)
  show ?case
  proof (cases "ws = []")
    case False
    let ?c = "take 64 ws"
    have "0 < length ?c" "length ?c \<le> 64" using False by simp_all
    from chunk_steps [OF hw "1.prems" this] obtain s1 where
      s1: "\<forall>k :: (_, u8 list) dev. dseq (esp_set_len M regs L (esp_bits (length ?c)) (esp_bits (length ?c)))
        (dseq (esp_load M regs L ?c) (dseq (esp_run M regs L) k)) s = k s1" "esp_idle P s1"
      "at s1 = snd (answers sl (at s) ?c)" "esp_bytes (length ?c) (esp_data P s1) = fst (answers sl (at s) ?c)" by metis
    from unload_run [OF hw s1(2), of "length ?c"] obtain s2 where
      s2: "esp_unload M regs L (length ?c) s1 = Some (Inr (fst (answers sl (at s) ?c)), s2)" "esp_idle P s2" "at s2 = at s1"
      unfolding s1(4) by auto
    from False have "length (drop 64 ws) < length ws" by (cases ws) auto
    with "1.IH" s2(2) obtain rs s3 where
      s3: "esp_exchange_chunks M regs L (drop 64 ws) s2 = Some (Inr rs, s3)" "esp_idle P s3" "answers sl (at s2) (drop 64 ws) = (rs, at s3)"
      by blast
    have "answers sl (at s) ws = (fst (answers sl (at s) ?c) @ rs, at s3)"
      using answers_append [of sl "at s" ?c "drop 64 ws"] s3(3) s2(3) s1(3) by (simp split: prod.splits)
    moreover have "esp_exchange_chunks M regs L ws s = Some (Inr (fst (answers sl (at s) ?c) @ rs), s3)"
      unfolding esp_exchange_chunks.simps [of M regs L ws] Let_def
      using False s1(1) s2(1) s3(1) by (simp add: dbind_Some dev_done)
    ultimately show ?thesis using s3(2) by blast
  qed (use "1.prems" in \<open>simp add: esp_exchange_chunks.simps dev_eval\<close>)
qed

lemma write_chunks_run:
  assumes hw: "esp_hw regs L M P sl at"
  shows "esp_idle P s \<Longrightarrow> \<exists>s'. esp_write_chunks M regs L ws s = Some (Inr (), s') \<and> esp_idle P s' \<and>
     at s' = snd (answers sl (at s) ws)"
proof (induction ws arbitrary: s rule: length_induct)
  case (1 ws)
  show ?case
  proof (cases "ws = []")
    case False
    let ?c = "take 64 ws"
    have "0 < length ?c" "length ?c \<le> 64" using False by simp_all
    from chunk_steps [OF hw "1.prems" this] obtain s1 where
      s1: "\<forall>k :: (_, unit) dev. dseq (esp_set_len M regs L (esp_bits (length ?c)) 0)
        (dseq (esp_load M regs L ?c) (dseq (esp_run M regs L) k)) s = k s1" "esp_idle P s1" "at s1 = snd (answers sl (at s) ?c)" by metis
    from False have "length (drop 64 ws) < length ws" by (cases ws) auto
    with "1.IH" s1(2) obtain s2 where
      s2: "esp_write_chunks M regs L (drop 64 ws) s1 = Some (Inr (), s2)" "esp_idle P s2" "at s2 = snd (answers sl (at s1) (drop 64 ws))"
      by blast
    have "snd (answers sl (at s) ws) = at s2"
      using answers_append [of sl "at s" ?c "drop 64 ws"] s2(3) s1(3) by (simp split: prod.splits)
    moreover have "esp_write_chunks M regs L ws s = Some (Inr (), s2)"
      unfolding esp_write_chunks.simps [of M regs L ws] Let_def using False s1(1) s2(1) by simp
    ultimately show ?thesis using s2(2) by metis
  qed (use "1.prems" in \<open>simp add: esp_write_chunks.simps dev_eval\<close>)
qed

text \<open>The observers of a port are part of what conforms.\<close>

definition esp_conforms :: "u32 \<Rightarrow> layout \<Rightarrow> 's Mmio \<Rightarrow> 'x slave \<Rightarrow> ('s \<Rightarrow> 'x) \<Rightarrow> ('s \<Rightarrow> bool) \<Rightarrow> bool" where
  "esp_conforms regs L M sl at ready \<longleftrightarrow> (\<exists>P. esp_idle P = ready \<and> esp_hw regs L M P sl at)"

interpretation esp_spi: spi_chip "esp_conforms regs L" "\<lambda>M. EspSpi M regs L"
proof
  fix M :: "'a Mmio" and sl :: "'b slave" and at ready s and ws rd wr :: "u8 list"
  assume "esp_conforms regs L M sl at ready" and r: "ready s"
  then obtain P where P: "esp_idle P = ready" and hw: "esp_hw regs L M P sl at" by (auto simp: esp_conforms_def)
  note x = exchange_chunks_run [OF hw, unfolded P, OF r] and w = write_chunks_run [OF hw, unfolded P, OF r]
  show "\<exists>rs s'. bus_transfer_in_place (EspSpi M regs L) ws s = Some (Inr rs, s') \<and> ready s' \<and> answers sl (at s) ws = (rs, at s')"
    "\<exists>s'. bus_write (EspSpi M regs L) ws s = Some (Inr (), s') \<and> ready s' \<and> at s' = snd (answers sl (at s) ws)"
    using x [of ws] w [of ws] by (simp_all add: EspSpi_def)
  let ?t = "take (min (length wr) (length rd)) wr"
  have t: "?t = take (length rd) wr" by (simp add: min_def)
  from x [of ?t] obtain rs s' where
    rs: "esp_exchange_chunks M regs L ?t s = Some (Inr rs, s')" "ready s'" "answers sl (at s) ?t = (rs, at s')" by blast
  then have "length rs = min (length wr) (length rd)" using length_answers [of sl "at s" ?t] by simp
  with rs show "\<exists>rs s'. bus_transfer (EspSpi M regs L) rd wr s = Some (Inr (rs @ drop (length rs) rd), s') \<and> ready s' \<and>
      answers sl (at s) (take (length rd) wr) = (rs, at s')"
    unfolding t by (simp add: EspSpi_def EspSpi_transfer_def Let_def t dbind_Some dev_done)
qed

section \<open>A transfer of any length\<close>

text \<open>
  C36: on a conforming peripheral of the ESP32 family a transfer of a buffer of any length, cut into chunks of 64 bytes
  packed into words, returns and exchanges exactly the bytes of the buffer with the slave, in order; the buffer holds the slave's
  answers.
\<close>

theorem esp_transfer_any_length:
  assumes "esp_hw regs L M P sl at" "esp_idle P s"
  shows "\<exists>rs s'. bus_transfer_in_place (EspSpi M regs L) ws s = Some (Inr rs, s') \<and> esp_idle P s' \<and>
     answers sl (at s) ws = (rs, at s')"
  using esp_spi.in_place [of regs L M sl at "esp_idle P" s ws] assms by (auto simp: esp_conforms_def)

text \<open>A port at address 0 whose transfers end at once, and a slave that answers with the byte it got before.\<close>

type_synonym echo_port = "u32 \<times> u32 \<times> (nat \<Rightarrow> u32) \<times> u8"

definition echo :: "u8 slave" where
  "echo x b = (x, b)"

definition echo_write :: "u32 \<Rightarrow> u32 \<Rightarrow> echo_port \<Rightarrow> echo_port" where
  "echo_write a v = (\<lambda>(mo, mi, d, x).
     if a = 0x28 then (v, mi, d, x) else if a = 0x2C then (mo, v, d, x)
     else if 0x80 \<le> unat a \<and> unat a < 0xC0 then (mo, mi, d((unat a - 0x80) div 4 := v), x)
     else if a = 0 \<and> bit v 18 then
       (case answers echo x (esp_bytes ((unat mo + 1) div 8) d) of
          (as, y) \<Rightarrow> (mo, mi, (if mi = mo then esp_word as else d), y))
     else (mo, mi, d, x))"

definition echo_io :: "echo_port Mmio" where
  "echo_io = \<lparr>io_read = (\<lambda>a s. (if 0x80 \<le> unat a \<and> unat a < 0xC0 then fst (snd (snd s)) ((unat a - 0x80) div 4) else 0, s)),
     io_write = echo_write, io_write8 = (\<lambda>_ _ s. s)\<rparr>"

definition echo_obs :: "echo_port EspPort" where
  "echo_obs = \<lparr>mosi = fst, miso = (\<lambda>s. fst (snd s)), esp_data = (\<lambda>s. fst (snd (snd s))), esp_idle = (\<lambda>_. True)\<rparr>"

lemma c6_regs:
  "reg 0 esp32c6_SpiRegs ''cmd'' = 0" "reg 0 esp32c6_SpiRegs ''mosi_dlen'' = 0x28" "reg 0 esp32c6_SpiRegs ''miso_dlen'' = 0x2C"
  "i < 16 \<Longrightarrow> unat (reg_at 0 esp32c6_SpiRegs ''w'' i) = 0x80 + 4 * i"
proof -
  have w: "field_word ''w'' esp32c6_SpiRegs = 32" by code_simp
  show "i < 16 \<Longrightarrow> unat (reg_at 0 esp32c6_SpiRegs ''w'' i) = 0x80 + 4 * i"
    unfolding reg_at_def w by (simp only: add_0 unsigned_of_nat) (simp add: take_bit_nat_eq_self)
qed code_simp+

lemma echo_hw: "esp_hw 0 esp32c6_SpiRegs echo_io echo_obs echo (\<lambda>s. snd (snd (snd s)))"
proof -
  let ?w = "\<lambda>i. reg_at 0 esp32c6_SpiRegs ''w'' i"
  have ne: "?w i \<noteq> 0x28 \<and> ?w i \<noteq> 0x2C" if "i < 16" for i
    using c6_regs(4) [OF that] by (auto dest: arg_cong [of _ _ unat])
  have same: "(polled echo_io a ^^ m) s = s" for a m s
    by (induction m) (simp_all add: polled_def echo_io_def)
  have "esp_bytes n (esp_word (fst (answers echo x (esp_bytes n d)))) = fst (answers echo x (esp_bytes n d))" for n x d
    using esp_bytes_words [of "fst (answers echo x (esp_bytes n d))" "esp_word (fst (answers echo x (esp_bytes n d)))"]
    by (simp add: length_answers esp_bytes_def)
  then show ?thesis
    unfolding esp_hw_bytes same c6_regs
    by (auto simp: echo_obs_def echo_io_def echo_write_def polled_def same_regs_def c6_regs(4) ne Let_def split: prod.splits)
      (metis fst_conv)+
qed

lemma esp_transfer_any_length_witness:
  "\<exists>rs s'. bus_transfer_in_place (EspSpi echo_io 0 esp32c6_SpiRegs) (replicate 70 1 @ [2, 3]) (0, 0, \<lambda>_. 0, 7) = Some (Inr rs, s') \<and>
     rs = [7] @ replicate 70 1 @ [2]"
proof -
  have a: "answers echo x (replicate n y @ [2, 3]) = (if n = 0 then [x, 2] else x # replicate n y @ [2], 3)" for x y n
    by (induction n arbitrary: x) (auto simp: echo_def split: prod.splits)
  show ?thesis
    using esp_transfer_any_length [OF echo_hw, of "(0, 0, \<lambda>_. 0, 7)" "replicate 70 1 @ [2, 3]"]
    unfolding snd_conv a by (auto simp: echo_obs_def)
qed

section \<open>Clock rates\<close>

text \<open>The divider of the 80 MHz clock that the register of an ESP chip stands for.\<close>

definition esp_divider :: "u32 \<Rightarrow> nat" where
  "esp_divider c = (if bit c 31 then 1 else unat (and (drop_bit 12 c) 0x3F) + 1)"

lemma unat_low6: "unat (and (x :: u32) 0x3F) = unat x mod 64"
proof -
  have "and x 0x3F = take_bit 6 x" by (simp add: take_bit_eq_mask mask_eq_exp_minus_1)
  then show ?thesis by (simp add: unsigned_take_bit_eq) (simp add: take_bit_eq_mod)
qed

lemma esp_divider_fields:
  fixes n h :: u32
  assumes "unat n < 64" "unat h < 64"
  shows "esp_divider (or (or n (push_bit 6 h)) (push_bit 12 n)) = unat n + 1"
proof -
  let ?c = "or (or n (push_bit 6 h)) (push_bit 12 n)"
  have i: "unat (or n (push_bit 6 h)) = unat n + unat h * 2 ^ 6" by (rule unat_or_push) (use assms in simp_all)
  have c: "unat ?c = unat n + unat h * 2 ^ 6 + unat n * 2 ^ 12"
    unfolding i [symmetric] by (rule unat_or_push) (use assms i in simp_all)
  then have "take_bit 31 (unat ?c) = unat ?c" using assms by (simp add: take_bit_nat_eq_self)
  then have "\<not> bit (unat ?c) 31" by (metis bit_take_bit_iff less_irrefl)
  then have "\<not> bit ?c 31" by (simp only: bit_unsigned_iff) simp
  moreover have "unat (drop_bit 12 ?c) = unat ?c div 2 ^ 12"
    by (simp add: drop_bit_eq_div unat_div_distrib)
  ultimately show ?thesis using assms c by (simp add: esp_divider_def unat_low6)
qed

lemma esp_spi_clock_run:
  assumes "f \<noteq> 0"
  shows "\<exists>c. esp_spi_clock f s = Some (Inr c, s) \<and> esp_divider c = (max (80000000 div unat f) 1 - 1) mod 64 + 1"
proof -
  define d where "d = max (80000000 div f) 1"
  have d: "unat d = max (80000000 div unat f) 1"
    by (simp add: d_def max_def word_le_nat_alt unat_div_distrib)
  show ?thesis
  proof (cases "d \<le> 1")
    case True
    then have "max (80000000 div unat f) 1 \<le> 1" using d by (simp add: word_le_nat_alt)
    moreover have "esp_spi_clock f s = Some (Inr (push_bit 31 1), s)"
      using assms True unfolding d_def by (simp add: esp_spi_clock_def div32_def Let_def dev_eval del: push_bit_of_1)
    moreover have "esp_divider (push_bit 31 1) = 1" by (simp add: esp_divider_def bit_simps del: push_bit_of_1)
    ultimately show ?thesis by (intro exI [of _ "push_bit 31 1"]) simp
  next
    case False
    let ?n = "and (d - 1) 0x3F :: u32" and ?h = "and (d div 2 - 1) 0x3F :: u32"
    let ?c = "or (or ?n (push_bit 6 ?h)) (push_bit 12 ?n)"
    have "unat (d - 1) = unat d - 1" using False by (simp add: unat_sub_if' word_le_nat_alt)
    then have un: "unat ?n = (max (80000000 div unat f) 1 - 1) mod 64" by (simp only: unat_low6 d)
    have "esp_divider ?c = unat ?n + 1" by (rule esp_divider_fields) (simp_all add: unat_low6)
    moreover have "esp_spi_clock f s = Some (Inr ?c, s)"
      using assms False unfolding d_def by (simp add: esp_spi_clock_def div32_def Let_def dev_eval)
    ultimately show ?thesis unfolding un by blast
  qed
qed




lemma esp_spi_default_clock:
  "\<exists>c. esp_spi_clock (frequency SpiConfig_default) s = Some (Inr c, s) \<and> 80000000 div esp_divider c = 5000000"
  using esp_spi_clock_run [of "frequency SpiConfig_default" s] by (auto simp: SpiConfig_default_def)

text \<open>
  The prescalers of STM32F4 and GD32VF103, down to the lowest frequency they can give, never exceed the frequency asked for;
  the divider of the LPC1768 never goes below it, and a frequency of zero panics instead of returning an error.
\<close>

lemma stm32f4_spi_clock: "62500 \<le> f \<Longrightarrow> 16000000 div 2 ^ (unat (stm32f4_spi_br f) + 1) \<le> unat f"
  by (simp add: stm32f4_spi_br_def word_le_nat_alt)

lemma gd32vf_spi_clock: "421875 \<le> f \<Longrightarrow> 108000000 div 2 ^ (unat (gd32vf_spi_psc f) + 1) \<le> unat f"
  by (simp add: gd32vf_spi_psc_def word_le_nat_alt)

lemma Lpc17Spi_zero_panics:
  "frequency config = 0 \<Longrightarrow>
     Lpc17Spi_configure M regs config s = Some (Inl (Abort Panic), io_write M (reg regs lpc17_SspRegs ''cr1'') 0 s)"
  by (simp add: Lpc17Spi_configure_def lpc17_spi_scr_def mul32_def div32_def split: prod.splits) (simp add: dev_done)

end
