(* ===== verification/IrqDrv.thy ===== *)
theory IrqDrv
  imports Registers
begin

text \<open>
  The interrupt controllers (\<open>hal-cmsis/src/nvic.rs\<close>, \<open>hal-rvsis/src/plic.rs\<close>, the ESP interrupt matrices and
  \<open>hal-lxsis/src/intenable.rs\<close>) and the interrupt locks of the processors (\<open>mstatus.rs\<close>, \<open>intlevel.rs\<close>,
  \<open>basepri.rs\<close>). A controller enables and disables exactly the interrupt it is told to, and rejects numbers out of range.
\<close>

section \<open>NVIC\<close>

definition irq_bit :: "u32 \<Rightarrow> u32" where
  "irq_bit irq = push_bit (unat irq mod 32) 1"

definition NvicController_enable_interrupt :: "'s Mmio \<Rightarrow> u32 \<Rightarrow> ('s, unit) dev" where
  "NvicController_enable_interrupt M irq =
     (if 240 \<le> irq then dstop (Err InvalidParameter)
      else RW_write M (reg_at cm_nvic cm_NvicRegs ''iser'' (unat irq div 32)) (irq_bit irq))"

definition NvicController_disable_interrupt :: "'s Mmio \<Rightarrow> u32 \<Rightarrow> ('s, unit) dev" where
  "NvicController_disable_interrupt M irq =
     (if 240 \<le> irq then dstop (Err InvalidParameter)
      else RW_write M (reg_at cm_nvic cm_NvicRegs ''icer'' (unat irq div 32)) (irq_bit irq))"

definition NvicController_set_priority :: "'s Mmio \<Rightarrow> u32 \<Rightarrow> u8 \<Rightarrow> ('s, unit) dev" where
  "NvicController_set_priority M irq priority =
     (if 240 \<le> irq then dstop (Err InvalidParameter)
      else RW8_write M (reg cm_nvic cm_NvicRegs ''ipr'' + irq) priority)"

definition NvicController_is_pending :: "'s Mmio \<Rightarrow> u32 \<Rightarrow> ('s, bool) dev" where
  "NvicController_is_pending M irq =
     (if 240 \<le> irq then dreturn False
      else dbind (RW_read M (reg_at cm_nvic cm_NvicRegs ''ispr'' (unat irq div 32)))
        (\<lambda>v. dreturn (and (drop_bit (unat irq mod 32) v) 1 \<noteq> 0)))"

definition NvicController_clear_pending :: "'s Mmio \<Rightarrow> u32 \<Rightarrow> ('s, unit) dev" where
  "NvicController_clear_pending M irq =
     (if 240 \<le> irq then dstop (Err InvalidParameter)
      else RW_write M (reg_at cm_nvic cm_NvicRegs ''icpr'' (unat irq div 32)) (irq_bit irq))"

section \<open>PLIC\<close>

record PlicController =
  pl_base :: u32
  pl_context :: u32

definition PlicController_priority_reg :: "PlicController \<Rightarrow> u32 \<Rightarrow> u32" where
  "PlicController_priority_reg pl irq = pl_base pl + 4 * irq"

definition PlicController_enable_reg :: "PlicController \<Rightarrow> u32 \<Rightarrow> u32" where
  "PlicController_enable_reg pl irq = pl_base pl + 0x2000 + pl_context pl * 0x80 + 4 * (irq div 32)"

definition PlicController_threshold_reg :: "PlicController \<Rightarrow> u32" where
  "PlicController_threshold_reg pl = pl_base pl + 0x200000 + pl_context pl * 0x1000"

definition PlicController_claim_reg :: "PlicController \<Rightarrow> u32" where
  "PlicController_claim_reg pl = pl_base pl + 0x200004 + pl_context pl * 0x1000"

definition PlicController_claim :: "'s Mmio \<Rightarrow> PlicController \<Rightarrow> ('s, u32) dev" where
  "PlicController_claim M pl = RW_read M (PlicController_claim_reg pl)"

definition PlicController_complete :: "'s Mmio \<Rightarrow> PlicController \<Rightarrow> u32 \<Rightarrow> ('s, unit) dev" where
  "PlicController_complete M pl irq = RW_write M (PlicController_claim_reg pl) irq"

definition plic_bad :: "u32 \<Rightarrow> bool" where
  "plic_bad irq \<longleftrightarrow> irq = 0 \<or> 1024 \<le> irq"

definition PlicController_enable_interrupt :: "'s Mmio \<Rightarrow> PlicController \<Rightarrow> u32 \<Rightarrow> ('s, unit) dev" where
  "PlicController_enable_interrupt M pl irq =
     (if plic_bad irq then dstop (Err InvalidParameter)
      else dbind (RW_read M (PlicController_enable_reg pl irq))
        (\<lambda>cur. RW_write M (PlicController_enable_reg pl irq) (or cur (irq_bit irq))))"

definition PlicController_disable_interrupt :: "'s Mmio \<Rightarrow> PlicController \<Rightarrow> u32 \<Rightarrow> ('s, unit) dev" where
  "PlicController_disable_interrupt M pl irq =
     (if plic_bad irq then dstop (Err InvalidParameter)
      else dbind (RW_read M (PlicController_enable_reg pl irq))
        (\<lambda>cur. RW_write M (PlicController_enable_reg pl irq) (and cur (not (irq_bit irq)))))"

definition PlicController_set_priority :: "'s Mmio \<Rightarrow> PlicController \<Rightarrow> u32 \<Rightarrow> u8 \<Rightarrow> ('s, unit) dev" where
  "PlicController_set_priority M pl irq priority =
     (if plic_bad irq then dstop (Err InvalidParameter)
      else RW_write M (PlicController_priority_reg pl irq) (ucast priority))"

definition PlicController_is_pending :: "'s Mmio \<Rightarrow> PlicController \<Rightarrow> u32 \<Rightarrow> ('s, bool) dev" where
  "PlicController_is_pending M pl irq =
     (if plic_bad irq then dreturn False
      else dbind (RO_read M (pl_base pl + 0x1000 + 4 * (irq div 32)))
        (\<lambda>v. dreturn (and (drop_bit (unat irq mod 32) v) 1 \<noteq> 0)))"

text \<open>Pending interrupts are cleared by claiming and completing them.\<close>

definition PlicController_clear_pending :: "u32 \<Rightarrow> ('s, unit) dev" where
  "PlicController_clear_pending irq = dreturn ()"

text \<open>The addresses the controller computes are those of the fields of its register block.\<close>

lemma plic_regs_agree:
  "PlicController_priority_reg pl irq = reg_at (pl_base pl) rv_PlicRegs ''priority'' (unat irq)"
  "PlicController_enable_reg pl irq = reg_at (pl_base pl) rv_PlicRegs ''enable'' (32 * unat (pl_context pl) + unat irq div 32)"
  "pl_base pl + 0x1000 + 4 * (irq div 32) = reg_at (pl_base pl) rv_PlicRegs ''pending'' (unat irq div 32)"
proof -
  have "unat irq < 2 ^ LENGTH(32)" by (rule unsigned_less)
  then have "unat irq div 32 < 2 ^ 32" by simp
  then have d: "(of_nat (unat irq div 32) :: u32) = irq div 32"
    by (simp add: word_unat_eq_iff unat_div unsigned_of_nat take_bit_nat_eq_self)
  show "PlicController_priority_reg pl irq = reg_at (pl_base pl) rv_PlicRegs ''priority'' (unat irq)"
    by (simp add: PlicController_priority_reg_def reg_at_def rv_PlicRegs_def)
  show "PlicController_enable_reg pl irq = reg_at (pl_base pl) rv_PlicRegs ''enable'' (32 * unat (pl_context pl) + unat irq div 32)"
    "pl_base pl + 0x1000 + 4 * (irq div 32) = reg_at (pl_base pl) rv_PlicRegs ''pending'' (unat irq div 32)"
    by (simp_all add: PlicController_enable_reg_def reg_at_def rv_PlicRegs_def d)
qed

section \<open>Interrupt matrix of ESP32-C3 and ESP32-C6\<close>

text \<open>
  The two drivers differ in the addresses and the number of sources: a matrix is given by them.
\<close>

record IntMatrix =
  im_map :: u32
  im_pri :: u32
  im_sources :: u32

definition Esp32C3IntMatrix :: IntMatrix where
  "Esp32C3IntMatrix = \<lparr>im_map = 0x600C2000, im_pri = 0x600C2000 + 0x0118, im_sources = 62\<rparr>"

definition Esp32C6IntMatrix :: IntMatrix where
  "Esp32C6IntMatrix = \<lparr>im_map = 0x60010000, im_pri = 0x600C5000 + 0x0010, im_sources = 128\<rparr>"

definition IntMatrix_map_reg :: "IntMatrix \<Rightarrow> u32 \<Rightarrow> u32" where
  "IntMatrix_map_reg im irq = im_map im + 4 * irq"

definition IntMatrix_pri_reg :: "IntMatrix \<Rightarrow> u32 \<Rightarrow> u32" where
  "IntMatrix_pri_reg im cpu_int = im_pri im + 4 * (cpu_int - 1)"

definition cpu_int :: "u32 \<Rightarrow> u32" where
  "cpu_int irq = irq mod 31 + 1"

definition IntMatrix_enable_interrupt :: "'s Mmio \<Rightarrow> IntMatrix \<Rightarrow> u32 \<Rightarrow> ('s, unit) dev" where
  "IntMatrix_enable_interrupt M im irq =
     (if im_sources im \<le> irq then dstop (Err InvalidParameter)
      else RW_write M (IntMatrix_map_reg im irq) (cpu_int irq))"

definition IntMatrix_disable_interrupt :: "'s Mmio \<Rightarrow> IntMatrix \<Rightarrow> u32 \<Rightarrow> ('s, unit) dev" where
  "IntMatrix_disable_interrupt M im irq =
     (if im_sources im \<le> irq then dstop (Err InvalidParameter)
      else RW_write M (IntMatrix_map_reg im irq) 0)"

definition IntMatrix_set_priority :: "'s Mmio \<Rightarrow> IntMatrix \<Rightarrow> u32 \<Rightarrow> u8 \<Rightarrow> ('s, unit) dev" where
  "IntMatrix_set_priority M im irq priority =
     (if im_sources im \<le> irq then dstop (Err InvalidParameter)
      else RW_write M (IntMatrix_pri_reg im (cpu_int irq)) (ucast priority))"

definition IntMatrix_is_pending :: "'s Special \<Rightarrow> IntMatrix \<Rightarrow> u32 \<Rightarrow> ('s, bool) dev" where
  "IntMatrix_is_pending C im irq =
     (if im_sources im \<le> irq then dreturn False
      else dbind (csrr C ''mip'') (\<lambda>mip. dreturn (and (drop_bit (unat (cpu_int irq)) mip) 1 \<noteq> 0)))"

definition IntMatrix_clear_pending :: "u32 \<Rightarrow> ('s, unit) dev" where
  "IntMatrix_clear_pending irq = dreturn ()"

section \<open>INTENABLE of Xtensa\<close>

definition read_intenable :: "'s Special \<Rightarrow> ('s, u32) dev" where
  "read_intenable C = csrr C ''intenable''"

definition write_intenable :: "'s Special \<Rightarrow> u32 \<Rightarrow> ('s, unit) dev" where
  "write_intenable C = csrw C ''intenable''"

definition IntenableController_enable_interrupt :: "'s Special \<Rightarrow> u32 \<Rightarrow> ('s, unit) dev" where
  "IntenableController_enable_interrupt C irq =
     (if 32 \<le> irq then dstop (Err InvalidParameter)
      else dbind (read_intenable C) (\<lambda>cur. write_intenable C (or cur (push_bit (unat irq) 1))))"

definition IntenableController_disable_interrupt :: "'s Special \<Rightarrow> u32 \<Rightarrow> ('s, unit) dev" where
  "IntenableController_disable_interrupt C irq =
     (if 32 \<le> irq then dstop (Err InvalidParameter)
      else dbind (read_intenable C) (\<lambda>cur. write_intenable C (and cur (not (push_bit (unat irq) 1)))))"

definition IntenableController_set_priority :: "u32 \<Rightarrow> u8 \<Rightarrow> ('s, unit) dev" where
  "IntenableController_set_priority irq priority = dreturn ()"

definition IntenableController_is_pending :: "'s Special \<Rightarrow> u32 \<Rightarrow> ('s, bool) dev" where
  "IntenableController_is_pending C irq =
     (if 32 \<le> irq then dreturn False
      else dbind (csrr C ''interrupt'') (\<lambda>v. dreturn (and (drop_bit (unat irq) v) 1 \<noteq> 0)))"

definition IntenableController_clear_pending :: "'s Special \<Rightarrow> u32 \<Rightarrow> ('s, unit) dev" where
  "IntenableController_clear_pending C irq =
     (if 32 \<le> irq then dstop (Err InvalidParameter) else csrw C ''intclear'' (push_bit (unat irq) 1))"

section \<open>Interrupt locks\<close>

text \<open>The machine-mode interrupt enable of RISC-V, and the saved and restored processor state of Xtensa.\<close>

definition MSTATUS_MIE :: u32 where
  "MSTATUS_MIE = push_bit 3 1"

definition qk_lock :: "'s Special \<Rightarrow> ('s, u32) dev" where
  "qk_lock C = csrrc C ''mstatus'' MSTATUS_MIE"

definition qk_unlock :: "'s Special \<Rightarrow> u32 \<Rightarrow> ('s, unit) dev" where
  "qk_unlock C prev =
     (if and prev MSTATUS_MIE \<noteq> 0 then dbind (csrrs C ''mstatus'' MSTATUS_MIE) (\<lambda>_. dreturn ()) else dreturn ())"

text \<open>\<open>rsil\<close> replaces the four bits of the interrupt level.\<close>

definition rsil :: "'s Special \<Rightarrow> u32 \<Rightarrow> ('s, u32) dev" where
  "rsil C level = dbind (csrr C ''ps'') (\<lambda>ps.
     dseq (csrw C ''ps'' (or (and ps (not 0xF)) (and level 0xF))) (dreturn ps))"

definition wsr_ps :: "'s Special \<Rightarrow> u32 \<Rightarrow> ('s, unit) dev" where
  "wsr_ps C = csrw C ''ps''"

definition basepri_read :: "'s Special \<Rightarrow> ('s, u8) dev" where
  "basepri_read C = dbind (csrr C ''basepri'') (\<lambda>v. dreturn (ucast v))"

definition basepri_write :: "'s Special \<Rightarrow> u8 \<Rightarrow> ('s, unit) dev" where
  "basepri_write C v = csrw C ''basepri'' (ucast v)"

section \<open>The contract of a controller\<close>

text \<open>\<open>en s n\<close>: interrupt \<open>n\<close> is enabled (or routed) in the device state.\<close>

type_synonym 's enabled = "'s \<Rightarrow> nat \<Rightarrow> bool"

locale interrupt_controller =
  fixes conforms :: "'s enabled \<Rightarrow> bool"
    and enable disable :: "u32 \<Rightarrow> ('s, unit) dev"
    and valid :: "u32 \<Rightarrow> bool"
  assumes enables: "conforms en \<Longrightarrow> valid irq \<Longrightarrow>
      \<exists>s'. enable irq s = Some (Inr (), s') \<and> en s' = (en s)(unat irq := True)"
    and disables: "conforms en \<Longrightarrow> valid irq \<Longrightarrow>
      \<exists>s'. disable irq s = Some (Inr (), s') \<and> en s' = (en s)(unat irq := False)"
    and rejects: "\<not> valid irq \<Longrightarrow> enable irq s = Some (Inl (Err InvalidParameter), s)"
      "\<not> valid irq \<Longrightarrow> disable irq s = Some (Inl (Err InvalidParameter), s)"
begin

definition request :: "u32 \<times> bool \<Rightarrow> ('s, unit) dev" where
  "request = (\<lambda>(irq, b). if b then enable irq else disable irq)"

text \<open>
  A sequence of requests takes effect one by one and stops at the first number out of range, changing nothing for it.
\<close>

lemma requests:
  assumes "conforms en"
  shows "\<exists>r s'. dfor request qs s = Some (r, s') \<and>
     en s' = fold (\<lambda>(irq, b) e. e(unat irq := b)) (takeWhile (\<lambda>q. valid (fst q)) qs) (en s) \<and>
     (r = Inr () \<longleftrightarrow> (\<forall>q\<in>set qs. valid (fst q)))"
proof (induction qs arbitrary: s)
  case (Cons q qs)
  obtain irq b where q: "q = (irq, b)" by fastforce
  show ?case
  proof (cases "valid irq")
    case True
    from enables [OF assms True, of s] disables [OF assms True, of s] obtain s1 where
      s1: "request q s = Some (Inr (), s1)" "en s1 = (en s)(unat irq := b)" by (cases b) (auto simp: request_def q)
    from Cons.IH [of s1] obtain r s2 where
      "dfor request qs s1 = Some (r, s2)"
      "en s2 = fold (\<lambda>(irq, b) e. e(unat irq := b)) (takeWhile (\<lambda>q. valid (fst q)) qs) (en s1)"
      "r = Inr () \<longleftrightarrow> (\<forall>q\<in>set qs. valid (fst q))" by blast
    with s1 True show ?thesis by (simp add: q dseq_Some del: fun_upd_apply)
  next
    case False
    then have "request q s = Some (Inl (Err InvalidParameter), s)" using rejects by (simp add: request_def q)
    with False show ?thesis by (simp add: q dseq_def dbind_Some)
  qed
qed (simp add: dev_eval)

end

section \<open>Conforming devices\<close>

text \<open>
  What the devices document: the set-enable and clear-enable words of the NVIC act on the bits written as one; the enable
  words of the PLIC and the INTENABLE register keep what is written; a source of the matrix is routed unless its
  register holds zero.
\<close>

definition nvic_hw :: "'s Mmio \<Rightarrow> 's enabled \<Rightarrow> bool" where
  "nvic_hw M en \<longleftrightarrow> (\<forall>i < 8. \<forall>v s.
     en (io_write M (reg_at cm_nvic cm_NvicRegs ''iser'' i) v s) = (\<lambda>n. n div 32 = i \<and> bit v (n mod 32) \<or> en s n) \<and>
     en (io_write M (reg_at cm_nvic cm_NvicRegs ''icer'' i) v s) = (\<lambda>n. \<not> (n div 32 = i \<and> bit v (n mod 32)) \<and> en s n))"

definition plic_hw :: "'s Mmio \<Rightarrow> PlicController \<Rightarrow> 's enabled \<Rightarrow> bool" where
  "plic_hw M pl en \<longleftrightarrow> (\<forall>irq s. irq < 1024 \<longrightarrow>
     en (polled M (PlicController_enable_reg pl irq) s) = en s \<and>
     (\<forall>k < 32. bit (fst (io_read M (PlicController_enable_reg pl irq) s)) k = en s (unat irq div 32 * 32 + k)) \<and>
     (\<forall>v. en (io_write M (PlicController_enable_reg pl irq) v s) =
        (\<lambda>n. if n div 32 = unat irq div 32 then bit v (n mod 32) else en s n)))"

definition intmtx_hw :: "'s Mmio \<Rightarrow> IntMatrix \<Rightarrow> 's enabled \<Rightarrow> bool" where
  "intmtx_hw M im en \<longleftrightarrow> (\<forall>irq v s. irq < im_sources im \<longrightarrow>
     en (io_write M (IntMatrix_map_reg im irq) v s) = (en s)(unat irq := v \<noteq> 0))"

definition intenable_hw :: "'s Special \<Rightarrow> 's enabled \<Rightarrow> bool" where
  "intenable_hw C en \<longleftrightarrow> (\<forall>s. en (snd (sr_read C ''intenable'' s)) = en s \<and>
     (\<forall>k < 32. bit (fst (sr_read C ''intenable'' s)) k = en s k) \<and>
     (\<forall>v. en (sr_write C ''intenable'' v s) = (\<lambda>n. if n < 32 then bit v n else en s n)))"

lemma bit_irq_bit: "bit (irq_bit irq) n \<longleftrightarrow> n = unat irq mod 32"
  by (auto simp: irq_bit_def bit_simps)

lemma same_word: "n div 32 = m div 32 \<and> n mod 32 = m mod 32 \<longleftrightarrow> n = (m :: nat)"
  by (metis div_mult_mod_eq)

lemma csr_run:
  "csrr C r s = Some (Inr (fst (sr_read C r s)), snd (sr_read C r s))"
  "csrw C r v s = Some (Inr (), sr_write C r v s)"
  by (simp_all add: csrr_def csrw_def split: prod.splits)

interpretation nvic: interrupt_controller "nvic_hw M" "NvicController_enable_interrupt M" "NvicController_disable_interrupt M" "\<lambda>irq. irq < 240"
proof
  fix en irq s
  assume "nvic_hw M en" and v: "irq < (240 :: u32)"
  moreover have "unat irq < 240" using v by (simp add: word_less_nat_alt)
  then have "unat irq div 32 < 8" by simp
  ultimately have w: "en (io_write M (reg_at cm_nvic cm_NvicRegs ''iser'' (unat irq div 32)) (irq_bit irq) s) = (en s)(unat irq := True)"
    "en (io_write M (reg_at cm_nvic cm_NvicRegs ''icer'' (unat irq div 32)) (irq_bit irq) s) = (en s)(unat irq := False)"
    by (auto simp: nvic_hw_def bit_irq_bit fun_eq_iff dest: same_word [THEN iffD1, OF conjI])
  from v w show "\<exists>s'. NvicController_enable_interrupt M irq s = Some (Inr (), s') \<and> en s' = (en s)(unat irq := True)"
    "\<exists>s'. NvicController_disable_interrupt M irq s = Some (Inr (), s') \<and> en s' = (en s)(unat irq := False)"
    by (auto simp: NvicController_enable_interrupt_def NvicController_disable_interrupt_def dev_eval not_le)
qed (simp_all add: NvicController_enable_interrupt_def NvicController_disable_interrupt_def dev_eval not_less)

interpretation plic: interrupt_controller "plic_hw M pl" "PlicController_enable_interrupt M pl" "PlicController_disable_interrupt M pl" "\<lambda>irq. \<not> plic_bad irq"
proof
  fix en irq s
  let ?a = "PlicController_enable_reg pl irq"
  assume hw: "plic_hw M pl en" and v: "\<not> plic_bad irq"
  obtain cur s1 where r: "io_read M ?a s = (cur, s1)" by fastforce
  from v have "irq < 1024" by (simp add: plic_bad_def not_le)
  with hw have h: "en (polled M ?a s) = en s" "\<forall>k < 32. bit (fst (io_read M ?a s)) k = en s (unat irq div 32 * 32 + k)"
    "\<And>v s. en (io_write M ?a v s) = (\<lambda>n. if n div 32 = unat irq div 32 then bit v (n mod 32) else en s n)"
    unfolding plic_hw_def by blast+
  from h(1,2) r have e1: "en s1 = en s" and c: "\<And>k. k < 32 \<Longrightarrow> bit cur k = en s (unat irq div 32 * 32 + k)"
    by (simp_all add: polled_def)
  have n: "n div 32 = unat irq div 32 \<Longrightarrow> bit cur (n mod 32) = en s n" for n
    using c [of "n mod 32"] div_mult_mod_eq [of n 32] by simp
  have w: "en (io_write M ?a (or cur (irq_bit irq)) s1) = (en s)(unat irq := True)"
    "en (io_write M ?a (and cur (not (irq_bit irq))) s1) = (en s)(unat irq := False)"
    unfolding h(3) e1 by (auto simp: fun_eq_iff bit_simps bit_irq_bit n dest: same_word [THEN iffD1, OF conjI])
  from v w show "\<exists>s'. PlicController_enable_interrupt M pl irq s = Some (Inr (), s') \<and> en s' = (en s)(unat irq := True)"
    "\<exists>s'. PlicController_disable_interrupt M pl irq s = Some (Inr (), s') \<and> en s' = (en s)(unat irq := False)"
    by (auto simp: PlicController_enable_interrupt_def PlicController_disable_interrupt_def r dev_eval)
qed (simp_all add: PlicController_enable_interrupt_def PlicController_disable_interrupt_def dev_eval)

interpretation intmtx: interrupt_controller "intmtx_hw M im" "IntMatrix_enable_interrupt M im" "IntMatrix_disable_interrupt M im" "\<lambda>irq. irq < im_sources im"
proof
  fix en irq s
  assume hw: "intmtx_hw M im en" and v: "irq < im_sources im"
  have "unat (irq mod 31) \<le> 30" by (simp add: unat_mod_distrib)
  then have "unat (irq mod 31 + 1) = unat (irq mod 31) + 1" by (simp add: unat_add_lem [THEN iffD1])
  then have "cpu_int irq \<noteq> 0" by (auto simp: cpu_int_def)
  with hw v show "\<exists>s'. IntMatrix_enable_interrupt M im irq s = Some (Inr (), s') \<and> en s' = (en s)(unat irq := True)"
    "\<exists>s'. IntMatrix_disable_interrupt M im irq s = Some (Inr (), s') \<and> en s' = (en s)(unat irq := False)"
    by (auto simp: IntMatrix_enable_interrupt_def IntMatrix_disable_interrupt_def intmtx_hw_def dev_eval not_le fun_eq_iff)
qed (simp_all add: IntMatrix_enable_interrupt_def IntMatrix_disable_interrupt_def dev_eval not_less)

interpretation intenable: interrupt_controller "intenable_hw C" "IntenableController_enable_interrupt C" "IntenableController_disable_interrupt C" "\<lambda>irq. irq < 32"
proof
  fix en irq s
  assume hw: "intenable_hw C en" and v: "irq < (32 :: u32)"
  have u: "unat irq < 32" using v by (simp add: word_less_nat_alt)
  let ?cur = "fst (sr_read C ''intenable'' s)" and ?s1 = "snd (sr_read C ''intenable'' s)"
  from hw have c: "en ?s1 = en s" "\<And>k. k < 32 \<Longrightarrow> bit ?cur k = en s k"
    "\<And>v s. en (sr_write C ''intenable'' v s) = (\<lambda>n. if n < 32 then bit v n else en s n)"
    by (simp_all add: intenable_hw_def)
  have w: "en (sr_write C ''intenable'' (or ?cur (2 ^ unat irq)) ?s1) = (en s)(unat irq := True)"
    "en (sr_write C ''intenable'' (and ?cur (not (2 ^ unat irq))) ?s1) = (en s)(unat irq := False)"
    unfolding c(3) c(1) using u by (auto simp: fun_eq_iff bit_simps c(2))
  from v w show "\<exists>s'. IntenableController_enable_interrupt C irq s = Some (Inr (), s') \<and> en s' = (en s)(unat irq := True)"
    "\<exists>s'. IntenableController_disable_interrupt C irq s = Some (Inr (), s') \<and> en s' = (en s)(unat irq := False)"
    by (auto simp: IntenableController_enable_interrupt_def IntenableController_disable_interrupt_def read_intenable_def write_intenable_def
        dbind_Some(1) [where m = "csrr C _", OF csr_run(1)] csr_run(2) not_le)
qed (simp_all add: IntenableController_enable_interrupt_def IntenableController_disable_interrupt_def dev_eval not_less)

section \<open>Shared lines of the interrupt matrix\<close>

text \<open>
  Sources whose numbers are equal modulo 31 share a processor interrupt: setting the priority of one sets that of the other, and
  one is reported pending whenever the other is.
\<close>

lemma intmtx_shared:
  assumes "irq mod 31 = irq' mod 31" "irq < im_sources im" "irq' < im_sources im"
  shows "IntMatrix_set_priority M im irq p = IntMatrix_set_priority M im irq' p"
    "IntMatrix_is_pending C im irq = IntMatrix_is_pending C im irq'"
  using assms by (simp_all add: IntMatrix_set_priority_def IntMatrix_is_pending_def cpu_int_def linorder_not_le [symmetric])

lemma intmtx_shared_example:
  "(3 :: u32) mod 31 = 34 mod 31" "3 < im_sources Esp32C6IntMatrix" "34 < im_sources Esp32C6IntMatrix"
  by (simp_all add: Esp32C6IntMatrix_def)

section \<open>Nested locks\<close>

text \<open>
  On a processor whose status register keeps what is written, locks nest: after the inner section has restored the interrupt enable
  it found, unlocking with the outer value gives back the enable of before the lock.
\<close>

definition keeps :: "'s Special \<Rightarrow> string \<Rightarrow> ('s \<Rightarrow> u32) \<Rightarrow> bool" where
  "keeps C r val \<longleftrightarrow> (\<forall>s. fst (sr_read C r s) = val s \<and> val (snd (sr_read C r s)) = val s) \<and> (\<forall>s v. val (sr_write C r v s) = v)"

lemma lock_unlock:
  assumes k: "keeps C ''mstatus'' val" and body: "\<And>s. \<exists>s'. body s = Some (Inr (), s') \<and> (\<not> bit (val s) 3 \<longrightarrow> \<not> bit (val s') 3)"
  shows "\<exists>s'. dbind (qk_lock C) (\<lambda>prev. dseq body (qk_unlock C prev)) s = Some (Inr (), s') \<and> bit (val s') 3 = bit (val s) 3"
proof -
  obtain v s1 where r: "sr_read C ''mstatus'' s = (v, s1)" by fastforce
  let ?s2 = "sr_write C ''mstatus'' (and v (not MSTATUS_MIE)) s1"
  have l: "qk_lock C s = Some (Inr v, ?s2)" by (simp add: qk_lock_def csrrc_def r)
  have v: "v = val s" using k r unfolding keeps_def by (metis fst_conv)
  from k have "\<not> bit (val ?s2) 3" by (simp add: keeps_def MSTATUS_MIE_def bit_simps)
  with body [of ?s2] obtain s3 where b: "body ?s2 = Some (Inr (), s3)" "\<not> bit (val s3) 3" by blast
  obtain w s4 where r3: "sr_read C ''mstatus'' s3 = (w, s4)" by fastforce
  have "bit (val (sr_write C ''mstatus'' (or w MSTATUS_MIE) s4)) 3"
    using k by (simp add: keeps_def MSTATUS_MIE_def bit_simps)
  moreover have "and v MSTATUS_MIE \<noteq> 0 \<longleftrightarrow> bit v 3" unfolding MSTATUS_MIE_def by (rule bit_test(3))
  moreover have "dbind (qk_lock C) (\<lambda>prev. dseq body (qk_unlock C prev)) s = qk_unlock C v s3"
    by (simp only: dbind_Some(1) [where m = "qk_lock C", OF l] dseq_Some [where m = body, OF b(1)])
  moreover have "qk_unlock C v s3 = (if bit v 3 then Some (Inr (), sr_write C ''mstatus'' (or w MSTATUS_MIE) s4) else Some (Inr (), s3))"
    using calculation(2) by (simp add: qk_unlock_def csrrs_def dbind_def r3 dev_done)
  ultimately show ?thesis using b(2) v by simp
qed

end
