(* ===== verification/TimerDrv.thy ===== *)
theory TimerDrv
  imports Registers
begin

text \<open>
  The hardware timers (\<open>hal-cmsis/src/systick.rs\<close>, \<open>hal-rvsis/src/clint.rs\<close>, \<open>hal-lxsis/src/ccompare.rs\<close>) and the cache
  maintenance of \<open>hal-cmsis/src/scb.rs\<close>: which periods they program, when their compare registers fire, and which
  cache lines are written back.
\<close>

section \<open>Timers\<close>

datatype TimerMode = OneShot | Periodic

text \<open>A product or sum of \<open>u64\<close> values panics on overflow in a checked build.\<close>

definition mul64 :: "u64 \<Rightarrow> u64 \<Rightarrow> ('s, u64) dev" where
  "mul64 a b = (if unat a * unat b < 2 ^ 64 then dreturn (a * b) else dstop (Abort Panic))"

definition add64 :: "u64 \<Rightarrow> u64 \<Rightarrow> ('s, u64) dev" where
  "add64 a b = (if unat a + unat b < 2 ^ 64 then dreturn (a + b) else dstop (Abort Panic))"

section \<open>SysTick\<close>

definition SysTickTimer_start :: "'s Mmio \<Rightarrow> u32 \<Rightarrow> u64 \<Rightarrow> TimerMode \<Rightarrow> ('s, unit) dev" where
  "SysTickTimer_start M core_mhz period_us mode =
     dbind (mul64 period_us (ucast core_mhz)) (\<lambda>p.
     let t = (ucast p :: u32); ticks = (if t = 0 then 0 else t - 1) in
     if ticks = 0 \<or> 0x00FFFFFF < ticks then dstop (Err InvalidParameter)
     else dseq (RW_write M (reg cm_systick cm_SysTickRegs ''csr'') 0)
         (dseq (RW_write M (reg cm_systick cm_SysTickRegs ''rvr'') ticks)
         (dseq (RW_write M (reg cm_systick cm_SysTickRegs ''cvr'') 0)
               (RW_write M (reg cm_systick cm_SysTickRegs ''csr'') (or (or (push_bit 0 1) (push_bit 1 1)) (push_bit 2 1))))))"

definition SysTickTimer_stop :: "'s Mmio \<Rightarrow> ('s, unit) dev" where
  "SysTickTimer_stop M = RW_write M (reg cm_systick cm_SysTickRegs ''csr'') 0"

definition SysTickTimer_counter :: "'s Mmio \<Rightarrow> ('s, u64) dev" where
  "SysTickTimer_counter M = dbind (RW_read M (reg cm_systick cm_SysTickRegs ''cvr'')) (\<lambda>v. dreturn (ucast v))"

definition SysTickTimer_enable_interrupt :: "'s Mmio \<Rightarrow> ('s, unit) dev" where
  "SysTickTimer_enable_interrupt M = RW_modify M (reg cm_systick cm_SysTickRegs ''csr'') (\<lambda>v. dreturn (or v (push_bit 1 1)))"

definition SysTickTimer_disable_interrupt :: "'s Mmio \<Rightarrow> ('s, unit) dev" where
  "SysTickTimer_disable_interrupt M =
     RW_modify M (reg cm_systick cm_SysTickRegs ''csr'') (\<lambda>v. dreturn (and v (not (push_bit 1 1))))"

definition SysTickTimer_clear_interrupt :: "'s Mmio \<Rightarrow> ('s, unit) dev" where
  "SysTickTimer_clear_interrupt M = dbind (RW_read M (reg cm_systick cm_SysTickRegs ''csr'')) (\<lambda>_. dreturn ())"

section \<open>CLINT\<close>

record ClintTimer =
  cl_base :: u32
  cl_hz :: u64
  cl_period_cy :: u64
  cl_periodic :: bool

definition ClintTimer_new :: "u32 \<Rightarrow> u64 \<Rightarrow> ClintTimer" where
  "ClintTimer_new base hz = \<lparr>cl_base = base, cl_hz = hz, cl_period_cy = 0, cl_periodic = False\<rparr>"

definition ClintTimer_mtime :: "'s Mmio \<Rightarrow> ClintTimer \<Rightarrow> ('s, u64) dev" where
  "ClintTimer_mtime M t =
     dbind (RO_read M (cl_base t + 0xBFF8)) (\<lambda>lo.
     dbind (RO_read M (cl_base t + 0xBFF8 + 4)) (\<lambda>hi. dreturn (or (push_bit 32 (ucast hi)) (ucast lo))))"

definition ClintTimer_set_mtimecmp :: "'s Mmio \<Rightarrow> ClintTimer \<Rightarrow> u64 \<Rightarrow> ('s, unit) dev" where
  "ClintTimer_set_mtimecmp M t val =
     dseq (RW_write M (cl_base t + 0x4000 + 4) 0xFFFFFFFF)
    (dseq (RW_write M (cl_base t + 0x4000) (ucast val))
          (RW_write M (cl_base t + 0x4000 + 4) (ucast (drop_bit 32 val))))"

definition ClintTimer_start :: "'s Mmio \<Rightarrow> u64 \<Rightarrow> TimerMode \<Rightarrow> ClintTimer \<Rightarrow> ('s, ClintTimer) dev" where
  "ClintTimer_start M period_us mode t =
     dbind (mul64 period_us (cl_hz t)) (\<lambda>p.
     let cycles = p div 1000000 in
     if cycles = 0 then dstop (Err InvalidParameter)
     else let t' = t\<lparr>cl_period_cy := cycles, cl_periodic := (mode = Periodic)\<rparr> in
       dbind (ClintTimer_mtime M t') (\<lambda>now.
       dbind (add64 now cycles) (\<lambda>v.
       dseq (ClintTimer_set_mtimecmp M t' v) (dreturn t'))))"

definition ClintTimer_stop :: "'s Mmio \<Rightarrow> ClintTimer \<Rightarrow> ('s, unit) dev" where
  "ClintTimer_stop M t = ClintTimer_set_mtimecmp M t (- 1)"

definition ClintTimer_clear_interrupt :: "'s Mmio \<Rightarrow> ClintTimer \<Rightarrow> ('s, unit) dev" where
  "ClintTimer_clear_interrupt M t =
     (if cl_periodic t
      then dbind (ClintTimer_mtime M t) (\<lambda>now. dbind (add64 now (cl_period_cy t)) (ClintTimer_set_mtimecmp M t))
      else dreturn ())"

section \<open>CCOMPARE\<close>

record CcompareTimer =
  cc_core_mhz :: u32
  cc_period_cy :: u32
  cc_periodic :: bool

definition CcompareTimer_new :: "u32 \<Rightarrow> CcompareTimer" where
  "CcompareTimer_new core_mhz = \<lparr>cc_core_mhz = core_mhz, cc_period_cy = 0, cc_periodic = False\<rparr>"

definition read_ccount :: "'s Special \<Rightarrow> ('s, u32) dev" where
  "read_ccount C = csrr C ''ccount''"

definition read_ccompare0 :: "'s Special \<Rightarrow> ('s, u32) dev" where
  "read_ccompare0 C = csrr C ''ccompare0''"

definition write_ccompare0 :: "'s Special \<Rightarrow> u32 \<Rightarrow> ('s, unit) dev" where
  "write_ccompare0 C = csrw C ''ccompare0''"

definition CcompareTimer_start :: "'s Special \<Rightarrow> u64 \<Rightarrow> TimerMode \<Rightarrow> CcompareTimer \<Rightarrow> ('s, CcompareTimer) dev" where
  "CcompareTimer_start C period_us mode t =
     dbind (mul64 period_us (ucast (cc_core_mhz t))) (\<lambda>p.
     let cycles = ucast p in
     if cycles = 0 then dstop (Err InvalidParameter)
     else dbind (read_ccount C) (\<lambda>now.
       dseq (write_ccompare0 C (now + cycles)) (dreturn (t\<lparr>cc_period_cy := cycles, cc_periodic := (mode = Periodic)\<rparr>))))"

definition CcompareTimer_stop :: "'s Special \<Rightarrow> ('s, unit) dev" where
  "CcompareTimer_stop C = dbind (read_ccount C) (\<lambda>now. write_ccompare0 C (now + 0x7FFFFFFF))"

definition CcompareTimer_clear_interrupt :: "'s Special \<Rightarrow> CcompareTimer \<Rightarrow> ('s, unit) dev" where
  "CcompareTimer_clear_interrupt C t =
     (if cc_periodic t then dbind (read_ccompare0 C) (\<lambda>cur. write_ccompare0 C (cur + cc_period_cy t)) else dreturn ())"

section \<open>Cache maintenance\<close>

text \<open>
  The address of every line from the one holding the first byte to the end of the buffer is written to a maintenance register;
  \<open>addr += 32\<close> panics at the end of the address space.
\<close>

function cache_lines :: "'s Mmio \<Rightarrow> u32 \<Rightarrow> nat \<Rightarrow> nat \<Rightarrow> ('s, unit) dev" where
  "cache_lines M r addr end =
     (if addr < end
      then dseq (RW_write M r (of_nat addr))
        (if addr + 32 < 2 ^ 32 then cache_lines M r (addr + 32) end else dstop (Abort Panic))
      else dreturn ())"
  by pat_completeness auto

termination by (relation "measure (\<lambda>(M, r, addr, end). end - addr)") auto

declare cache_lines.simps [simp del]

definition clean_dcache :: "'s Mmio \<Rightarrow> u32 \<Rightarrow> nat \<Rightarrow> ('s, unit) dev" where
  "clean_dcache M ptr len = cache_lines M 0xE000ED68 (unat (and ptr (not 0x1F))) (unat ptr + len)"

definition invalidate_dcache :: "'s Mmio \<Rightarrow> u32 \<Rightarrow> nat \<Rightarrow> ('s, unit) dev" where
  "invalidate_dcache M ptr len = cache_lines M 0xE000ED6C (unat (and ptr (not 0x1F))) (unat ptr + len)"

section \<open>Periods of SysTick\<close>

text \<open>
  The number of ticks is cut to 32 bits before it is checked: a start succeeds exactly if the lower half of the product is
  between 2 and \<open>2 ^ 24\<close>, and programs it, whatever the upper half is.
\<close>

lemma SysTickTimer_start_reload:
  assumes n: "n = unat period_us * unat core_mhz" "n < 2 ^ 64"
  shows "SysTickTimer_start M core_mhz period_us mode s =
     (if 2 \<le> n mod 2 ^ 32 \<and> n mod 2 ^ 32 \<le> 2 ^ 24
      then Some (Inr (), io_write M (reg cm_systick cm_SysTickRegs ''csr'') 7 (io_write M (reg cm_systick cm_SysTickRegs ''cvr'') 0
        (io_write M (reg cm_systick cm_SysTickRegs ''rvr'') (of_nat (n mod 2 ^ 32 - 1))
        (io_write M (reg cm_systick cm_SysTickRegs ''csr'') 0 s))))
      else Some (Inl (Err InvalidParameter), s))"
proof -
  have mhz: "unat (ucast core_mhz :: u64) = unat core_mhz"
    by (simp add: unsigned_ucast_eq take_bit_nat_eq_self_iff order.strict_trans2 [OF unsigned_less])
  define t :: u32 where "t = ucast (period_us * ucast core_mhz)"
  have "unat (period_us * ucast core_mhz :: u64) = n"
    using n mhz by (simp add: unat_mult_lem [THEN iffD1])
  then have t: "unat t = n mod 2 ^ 32" unfolding t_def by (simp add: unsigned_ucast_eq take_bit_eq_mod)
  define ticks where "ticks = (if t = 0 then 0 else t - 1)"
  have ticks: "unat ticks = n mod 2 ^ 32 - 1"
  proof (cases "t = 0")
    case False
    then have "1 \<le> unat t" by (simp add: Suc_le_eq unat_gt_0)
    with False t show ?thesis by (simp add: ticks_def unat_sub_if' word_le_nat_alt)
  qed (use t in \<open>simp add: ticks_def\<close>)
  have r: "ticks = of_nat (n mod 2 ^ 32 - 1)" unfolding ticks [symmetric] by simp
  have "(ticks = 0 \<or> 0x00FFFFFF < ticks) = (\<not> (2 \<le> n mod 2 ^ 32 \<and> n mod 2 ^ 32 \<le> 2 ^ 24))"
    unfolding word_unat_eq_iff word_less_nat_alt ticks by auto
  moreover have "SysTickTimer_start M core_mhz period_us mode s =
     (if ticks = 0 \<or> 0x00FFFFFF < ticks then Some (Inl (Err InvalidParameter), s)
      else Some (Inr (), io_write M (reg cm_systick cm_SysTickRegs ''csr'') 7 (io_write M (reg cm_systick cm_SysTickRegs ''cvr'') 0
        (io_write M (reg cm_systick cm_SysTickRegs ''rvr'') ticks (io_write M (reg cm_systick cm_SysTickRegs ''csr'') 0 s)))))"
    using n mhz unfolding SysTickTimer_start_def mul64_def
    by (simp add: Let_def dev_done(2) flip: t_def) (simp add: ticks_def dev_eval)
  ultimately show ?thesis unfolding r [symmetric] by simp
qed

text \<open>A period of more than four minutes at 16 MHz is accepted and ticks every microsecond.\<close>

lemma SysTick_period_truncated:
  "SysTickTimer_start M 16 268435457 mode s =
     Some (Inr (), io_write M (reg cm_systick cm_SysTickRegs ''csr'') 7 (io_write M (reg cm_systick cm_SysTickRegs ''cvr'') 0
        (io_write M (reg cm_systick cm_SysTickRegs ''rvr'') 15 (io_write M (reg cm_systick cm_SysTickRegs ''csr'') 0 s))))"
  by (subst SysTickTimer_start_reload [of 4294967312]) simp_all

section \<open>The compare register of CLINT\<close>

text \<open>The 64-bit compare value behind its two registers, which keep what is written.\<close>

definition clint_cmp :: "'s Mmio \<Rightarrow> ClintTimer \<Rightarrow> ('s \<Rightarrow> u64) \<Rightarrow> bool" where
  "clint_cmp M t cmp \<longleftrightarrow> (\<forall>s v.
     cmp (io_write M (cl_base t + 0x4000) v s) = or (push_bit 32 (drop_bit 32 (cmp s))) (ucast v) \<and>
     cmp (io_write M (cl_base t + 0x4004) v s) = or (push_bit 32 (ucast v)) (take_bit 32 (cmp s)))"

lemma halves:
  fixes x y v :: u64
  shows "push_bit 32 (drop_bit 32 (or (push_bit 32 y) (take_bit 32 x))) = push_bit 32 y"
    "take_bit 32 (or (push_bit 32 y) (take_bit 32 x)) = take_bit 32 x"
    "ucast (ucast v :: u32) = take_bit 32 v"
  by (rule bit_word_eqI, auto simp: bit_simps)+

lemma join_halves: "or (push_bit 32 (take_bit 32 (drop_bit 32 v))) (take_bit 32 v) = (v :: u64)"
  by (rule bit_word_eqI) (auto simp: bit_simps)

lemma or_halves: "or (push_bit 32 y) (take_bit 32 x) = push_bit 32 y + (take_bit 32 x :: u64)"
  by (rule disjunctive_add_eq_or [symmetric], rule bit_word_eqI) (auto simp: bit_simps)

lemma high_half: "2 ^ 64 - 2 ^ 32 \<le> unat (or (push_bit 32 0xFFFFFFFF) (take_bit 32 x) :: u64)"
proof -
  have "unat (push_bit 32 0xFFFFFFFF :: u64) = 2 ^ 64 - 2 ^ 32" by simp
  moreover have "unat (take_bit 32 x) < 2 ^ 32"
    by (simp only: unsigned_take_bit_eq) (metis take_bit_nat_less_exp)
  ultimately show ?thesis unfolding or_halves by (simp add: unat_plus_if')
qed

text \<open>The device states a compare value is written through.\<close>

definition mtimecmp_steps :: "'s Mmio \<Rightarrow> ClintTimer \<Rightarrow> u64 \<Rightarrow> 's \<Rightarrow> 's list" where
  "mtimecmp_steps M t val s =
     (let s1 = io_write M (cl_base t + 0x4004) 0xFFFFFFFF s;
          s2 = io_write M (cl_base t + 0x4000) (ucast val) s1;
          s3 = io_write M (cl_base t + 0x4004) (ucast (drop_bit 32 val)) s2
      in [s1, s2, s3])"

lemma set_mtimecmp_run:
  "ClintTimer_set_mtimecmp M t val s = Some (Inr (), last (mtimecmp_steps M t val s))"
  by (simp add: ClintTimer_set_mtimecmp_def mtimecmp_steps_def Let_def add.assoc dev_eval)

text \<open>
  C38: programming the 64-bit compare register of the RISC-V timer by three 32-bit writes never makes it fire early: in
  every state in between, and at the end, the compare value is above the current time, for a deadline after the current time
  and a time that is not in the last \<open>2 ^ 32\<close> ticks of the counter; the final value is the deadline.
\<close>

theorem set_mtimecmp_never_early:
  assumes hw: "clint_cmp M t cmp" and now: "now < unat val" "now < 2 ^ 64 - 2 ^ 32"
  shows "ClintTimer_set_mtimecmp M t val s = Some (Inr (), last (mtimecmp_steps M t val s)) \<and>
     (\<forall>s'\<in>set (mtimecmp_steps M t val s). now < unat (cmp s')) \<and> cmp (last (mtimecmp_steps M t val s)) = val"
proof -
  let ?s1 = "io_write M (cl_base t + 0x4004) 0xFFFFFFFF s"
  let ?s2 = "io_write M (cl_base t + 0x4000) (ucast val) ?s1"
  let ?s3 = "io_write M (cl_base t + 0x4004) (ucast (drop_bit 32 val)) ?s2"
  from hw have c1: "cmp ?s1 = or (push_bit 32 0xFFFFFFFF) (take_bit 32 (cmp s))"
    and c2: "cmp ?s2 = or (push_bit 32 (drop_bit 32 (cmp ?s1))) (ucast (ucast val :: u32))"
    and c3: "cmp ?s3 = or (push_bit 32 (ucast (ucast (drop_bit 32 val) :: u32))) (take_bit 32 (cmp ?s2))"
    by (simp_all add: clint_cmp_def)
  have c2': "cmp ?s2 = or (push_bit 32 0xFFFFFFFF) (take_bit 32 val)"
    unfolding c2 c1 halves ..
  have "cmp ?s3 = val" unfolding c3 c2' halves by (rule join_halves)
  then show ?thesis
    using high_half [of "cmp s"] high_half [of val] now
    by (simp add: mtimecmp_steps_def Let_def set_mtimecmp_run c1 c2' del: push_bit_numeral)
qed

definition cmp_device :: "u64 Mmio" where
  "cmp_device = \<lparr>io_read = (\<lambda>_ s. (0, s)),
     io_write = (\<lambda>a v s. if a = 0x4000 then or (push_bit 32 (drop_bit 32 s)) (ucast v)
       else if a = 0x4004 then or (push_bit 32 (ucast v)) (take_bit 32 s) else s),
     io_write8 = (\<lambda>_ _ s. s)\<rparr>"

lemma set_mtimecmp_never_early_witness:
  "\<exists>s'. ClintTimer_set_mtimecmp cmp_device (ClintTimer_new 0 1000000) 0x500000001 7 = Some (Inr (), s') \<and> s' = 0x500000001"
proof -
  let ?t = "ClintTimer_new 0 1000000"
  have "clint_cmp cmp_device ?t id" by (simp add: clint_cmp_def cmp_device_def ClintTimer_new_def)
  from set_mtimecmp_never_early [OF this, of 3 "0x500000001" 7] show ?thesis by simp
qed

text \<open>
  The two halves of the time are read one after the other, the lower first: if the counter carries in between, the time
  read is \<open>2 ^ 32\<close> ticks ahead, and a timer started then is that much late.
\<close>

definition counting :: "u64 Mmio" where
  "counting = \<lparr>io_read = (\<lambda>a s. (if a = 0xBFF8 then ucast s else if a = 0xBFFC then ucast (drop_bit 32 s) else 0, s + 1)),
     io_write = (\<lambda>_ _ s. s), io_write8 = (\<lambda>_ _ s. s)\<rparr>"

lemma mtime_torn:
  "ClintTimer_mtime counting (ClintTimer_new 0 hz) 0xFFFFFFFF = Some (Inr 0x1FFFFFFFF, 0x100000001)"
  by (simp add: ClintTimer_mtime_def ClintTimer_new_def counting_def dev_eval)

section \<open>Periods of CCOMPARE\<close>

text \<open>
  On a processor whose compare register keeps what is written, the deadlines of a periodic timer are exactly one period apart,
  however late the interrupts are served: \<open>k\<close> acknowledgements move the first deadline by \<open>k\<close> periods.
\<close>

definition ccompare_hw :: "'s Special \<Rightarrow> ('s \<Rightarrow> u32) \<Rightarrow> bool" where
  "ccompare_hw C cmp \<longleftrightarrow> (\<forall>s. fst (sr_read C ''ccompare0'' s) = cmp s) \<and> (\<forall>s v. cmp (sr_write C ''ccompare0'' v s) = v)"

lemma clear_moves_deadline:
  assumes "ccompare_hw C cmp" "cc_periodic t"
  shows "\<exists>s'. CcompareTimer_clear_interrupt C t s = Some (Inr (), s') \<and> cmp s' = cmp s + cc_period_cy t"
  using assms by (simp add: CcompareTimer_clear_interrupt_def read_ccompare0_def write_ccompare0_def dbind_def csrr_def csrw_def
      ccompare_hw_def split: prod.splits) (metis fst_conv)

text \<open>
  The deadlines of a periodic Xtensa timer do not drift: after a start at counter value \<open>c\<close> and \<open>k\<close> acknowledged interrupts,
  at whatever times (\<open>later\<close> are arbitrary moves of the processor that leave the compare register alone), the compare register
  holds \<open>c\<close> plus \<open>k + 1\<close> periods, modulo \<open>2 ^ 32\<close>.
\<close>

theorem CcompareTimer_no_drift:
  assumes hw: "ccompare_hw C cmp" and start: "CcompareTimer_start C period_us Periodic t0 s0 = Some (Inr t, s1)"
    and later: "\<And>i s. cmp (later i s) = cmp s"
    and c: "c = fst (sr_read C ''ccount'' s0)" and p: "p = ucast (period_us * ucast (cc_core_mhz t0))"
  shows "\<exists>s'. dfor (\<lambda>i. dseq (\<lambda>s. Some (Inr (), later i s)) (CcompareTimer_clear_interrupt C t)) [0..<k] s1 = Some (Inr (), s') \<and>
     cmp s' = c + of_nat (Suc k) * p"
proof -
  let ?m = "mul64 period_us (ucast (cc_core_mhz t0)) :: ('a, u64) dev"
  have m: "?m s0 = Some (Inr (period_us * ucast (cc_core_mhz t0)), s0)"
    using start by (auto simp: CcompareTimer_start_def dbind_def mul64_def dev_eval split: if_splits)
  have "cc_periodic t \<and> cc_period_cy t = p \<and> cmp s1 = c + p"
    using start hw unfolding CcompareTimer_start_def dbind_Some(1) [where m = ?m, OF m]
    by (auto simp: Let_def p c read_ccount_def write_ccompare0_def dbind_def dseq_def csrr_def csrw_def ccompare_hw_def dev_eval
        split: if_splits prod.splits)
  then have t: "cc_periodic t" "cc_period_cy t = p" "cmp s1 = c + p" by blast+
  show ?thesis
  proof (induction k)
    case (Suc k)
    let ?step = "\<lambda>i. dseq (\<lambda>s. Some (Inr (), later i s)) (CcompareTimer_clear_interrupt C t)"
    from Suc obtain s2 where s2: "dfor ?step [0..<k] s1 = Some (Inr (), s2)" "cmp s2 = c + of_nat (Suc k) * p" by blast
    from clear_moves_deadline [OF hw t(1), of "later k s2"] obtain s3 where
      s3: "CcompareTimer_clear_interrupt C t (later k s2) = Some (Inr (), s3)" "cmp s3 = cmp (later k s2) + p" unfolding t(2) by blast
    have "?step k s2 = Some (Inr (), s3)" using s3(1) by (simp add: dseq_Some)
    then have "dfor ?step [0..<Suc k] s1 = Some (Inr (), s3)"
      by (simp add: dfor_append dseq_Some [where m = "dfor ?step [0..<k]", OF s2(1)] dseq_Some [where m = "?step k"] dev_done)
    with s3(2) s2(2) show ?case by (simp add: later algebra_simps)
  qed (simp add: t(3) dev_done)
qed

definition xtensa :: "(u32 \<times> u32) Special" where
  "xtensa = \<lparr>sr_read = (\<lambda>r (c, m). (if r = ''ccount'' then c else m, (c + 1, m))),
     sr_write = (\<lambda>r v (c, m). (c, v))\<rparr>"

lemma CcompareTimer_no_drift_witness:
  "\<exists>s'. dfor (\<lambda>i. dseq (\<lambda>s. Some (Inr (), (fst s + 100 * of_nat i, snd s)))
       (CcompareTimer_clear_interrupt xtensa \<lparr>cc_core_mhz = 240, cc_period_cy = 240000, cc_periodic = True\<rparr>)) [0..<3] (6, 240005) =
       Some (Inr (), s') \<and> snd s' = 5 + of_nat (Suc 3) * 240000"
proof -
  have hw: "ccompare_hw xtensa snd" by (auto simp: ccompare_hw_def xtensa_def)
  have st: "CcompareTimer_start xtensa 1000 Periodic (CcompareTimer_new 240) (5, 9) =
      Some (Inr \<lparr>cc_core_mhz = 240, cc_period_cy = 240000, cc_periodic = True\<rparr>, (6, 240005))"
    by (simp add: CcompareTimer_start_def CcompareTimer_new_def mul64_def read_ccount_def write_ccompare0_def dbind_def dseq_def csrr_def
        csrw_def xtensa_def dev_eval)
  show ?thesis
    using CcompareTimer_no_drift [OF hw st, of "\<lambda>i s. (fst s + 100 * of_nat i, snd s)" 5 240000 3]
    by (simp add: xtensa_def CcompareTimer_new_def)
qed

section \<open>Cache lines\<close>

text \<open>
  A buffer that does not reach the last line of the address space: exactly the lines that hold one of its bytes are written back.
\<close>

lemma cache_lines_run:
  assumes "addr + 32 * k < 2 ^ 32" "addr + 32 * k < e + 32" "e \<le> addr + 32 * k"
  shows "cache_lines M r addr e s = Some (Inr (), fold (\<lambda>i. io_write M r (of_nat (addr + 32 * i))) [0..<k] s)"
  using assms
proof (induction k arbitrary: addr s)
  case 0
  then show ?case by (simp add: cache_lines.simps dev_done)
next
  case (Suc k)
  let ?f = "\<lambda>a i. io_write M r (of_nat (a + 32 * i))"
  have "fold (?f addr) [0..<Suc k] s = fold (?f (addr + 32)) [0..<k] (io_write M r (of_nat addr) s)"
    by (simp add: upt_conv_Cons map_Suc_upt [symmetric] fold_map comp_def algebra_simps del: upt_Suc)
  with Suc.IH [of "addr + 32" "io_write M r (of_nat addr) s"] Suc.prems show ?case
    by (subst cache_lines.simps) (simp add: algebra_simps)
qed

lemma clean_dcache_covers:
  assumes "unat ptr + len + 32 \<le> 2 ^ 32" "0 < len"
  shows "\<exists>k. clean_dcache M ptr len s =
       Some (Inr (), fold (\<lambda>i. io_write M 0xE000ED68 (of_nat (unat ptr div 32 * 32 + 32 * i))) [0..<k] s) \<and>
     {unat ptr div 32 + i | i. i < k} = {b div 32 | b. unat ptr \<le> b \<and> b < unat ptr + len}"
proof -
  define a e where "a = unat ptr div 32" and "e = unat ptr + len"
  define k where "k = (e - a * 32 + 31) div 32"
  have a: "unat (and ptr (not 0x1F)) = a * 32" using unat_clear_low [of ptr 5] by (simp add: a_def mask_eq_exp_minus_1)
  have "a * 32 \<le> unat ptr" by (simp add: a_def)
  then have k: "a * 32 + 32 * k < e + 32" "e \<le> a * 32 + 32 * k" using assms(2) unfolding k_def e_def by linarith+
  then have "a * 32 + 32 * k < 2 ^ 32" using assms(1) e_def by linarith
  from cache_lines_run [OF this k] have
    "clean_dcache M ptr len s = Some (Inr (), fold (\<lambda>i. io_write M 0xE000ED68 (of_nat (a * 32 + 32 * i))) [0..<k] s)"
    unfolding clean_dcache_def a e_def [symmetric] by this
  moreover have "{a + i | i. i < k} = {b div 32 | b. unat ptr \<le> b \<and> b < e}"
  proof (intro equalityI subsetI)
    fix x assume "x \<in> {a + i | i. i < k}"
    then obtain i where i: "x = a + i" "i < k" by blast
    from i(2) have "32 * i + 32 \<le> 32 * k" by simp
    then have "32 * (a + i) < e" using k(1) by (simp add: algebra_simps)
    then have "max (unat ptr) (32 * x) < e" "unat ptr \<le> max (unat ptr) (32 * x)" using i(1) assms(2) by (simp_all add: e_def)
    moreover have "max (unat ptr) (32 * x) div 32 = x" using i(1) by (auto simp: max_def a_def)
    ultimately show "x \<in> {b div 32 | b. unat ptr \<le> b \<and> b < e}" by (intro CollectI exI [of _ "max (unat ptr) (32 * x)"]) simp
  next
    fix x assume "x \<in> {b div 32 | b. unat ptr \<le> b \<and> b < e}"
    then obtain b where b: "x = b div 32" "unat ptr \<le> b" "b < e" by blast
    then have "a \<le> x" by (simp add: a_def div_le_mono)
    moreover have "x < a + k" using b k(2) by (simp add: less_mult_imp_div_less algebra_simps)
    ultimately show "x \<in> {a + i | i. i < k}" by (intro CollectI exI [of _ "x - a"]) simp
  qed
  ultimately show ?thesis unfolding a_def e_def by blast
qed

end
