(* ===== verification/MpuDrv.thy ===== *)
theory MpuDrv
  imports Mmio
begin

text \<open>
  The memory protection unit of the Cortex-M port (\<open>ports/cortex-m/src/mpu.rs\<close>) and the fault hook of the framework
  (\<open>crates/qf/src/fusa.rs\<close>): region descriptors decode to exactly the requested region, and a programmed unit denies exactly
  the accesses the regions forbid.
\<close>

section \<open>The fault hook\<close>

text \<open>
  The installed handler, if any; handlers and the default never return. A fault is reported with the place it was detected.
\<close>

datatype 'h outcome = Handled 'h string u32 | DefaultFault string u32

type_synonym 'h HANDLER = "'h option"

definition set_error_handler :: "'h \<Rightarrow> 'h HANDLER \<Rightarrow> 'h HANDLER" where
  "set_error_handler h H = Some h"

definition clear_error_handler :: "'h HANDLER \<Rightarrow> 'h HANDLER" where
  "clear_error_handler H = None"

definition on_error :: "'h HANDLER \<Rightarrow> string \<Rightarrow> u32 \<Rightarrow> 'h outcome" where
  "on_error H m i = (case H of Some h \<Rightarrow> Handled h m i | None \<Rightarrow> DefaultFault m i)"

text \<open>The assertion macros: nothing happens for a true condition.\<close>

definition q_require :: "'h HANDLER \<Rightarrow> bool \<Rightarrow> string \<Rightarrow> u32 \<Rightarrow> 'h outcome option" where
  "q_require H c m i = (if \<not> c then Some (on_error H m i) else None)"

lemma handler_routing:
  "on_error (set_error_handler h H) m i = Handled h m i"
  "on_error (clear_error_handler H) m i = DefaultFault m i"
  "q_require H c m i = None \<longleftrightarrow> c"
  by (simp_all add: on_error_def set_error_handler_def clear_error_handler_def q_require_def)

section \<open>Region descriptors\<close>

datatype Access = NoAccess | ReadOnly | ReadWrite

fun Access_ap_bits :: "Access \<Rightarrow> u32" where
  "Access_ap_bits NoAccess = 0"
| "Access_ap_bits ReadWrite = 3"
| "Access_ap_bits ReadOnly = 6"

record RegionConfig =
  rbar :: u32
  rasr :: u32

definition is_power_of_two :: "u32 \<Rightarrow> bool" where
  "is_power_of_two x \<longleftrightarrow> length (filter (bit x) [0..<32]) = 1"

definition trailing_zeros :: "u32 \<Rightarrow> nat" where
  "trailing_zeros x = length (takeWhile (\<lambda>i. \<not> bit x i) [0..<32])"

definition RegionConfig_new :: "u8 \<Rightarrow> u32 \<Rightarrow> u32 \<Rightarrow> Access \<Rightarrow> bool \<Rightarrow> RegionConfig result" where
  "RegionConfig_new region base size_bytes access execute_never =
     rbind (ensure OnError (is_power_of_two size_bytes \<and> 32 \<le> size_bytes)) (\<lambda>_.
     let size_field = of_nat (trailing_zeros size_bytes) - 1 :: u32 in
     rbind (ensure OnError (and base (size_bytes - 1) = 0)) (\<lambda>_.
     Inr \<lparr>rbar = or (or (and base 0xFFFFFFE0) (push_bit 4 1)) (and (ucast region) 0xF),
          rasr = or (or (or 1 (push_bit 1 size_field)) (push_bit 24 (Access_ap_bits access)))
            (push_bit 28 (if execute_never then 1 else 0))\<rparr>))"

definition RegionConfig_stack_guard :: "u8 \<Rightarrow> u32 \<Rightarrow> RegionConfig result" where
  "RegionConfig_stack_guard region stack_limit = RegionConfig_new region stack_limit 32 NoAccess True"

definition RegionConfig_read_only :: "u8 \<Rightarrow> u32 \<Rightarrow> u32 \<Rightarrow> RegionConfig result" where
  "RegionConfig_read_only region base size_bytes = RegionConfig_new region base size_bytes ReadOnly True"

section \<open>Programming the unit\<close>

definition MPU_CTRL :: u32 where "MPU_CTRL = 0xE000ED94"

definition MPU_RNR :: u32 where "MPU_RNR = 0xE000ED98"

definition MPU_RBAR :: u32 where "MPU_RBAR = 0xE000ED9C"

definition MPU_RASR :: u32 where "MPU_RASR = 0xE000EDA0"

definition SCB_SHCSR :: u32 where "SCB_SHCSR = 0xE000ED24"

definition Mpu_configure :: "'s Mmio \<Rightarrow> RegionConfig list \<Rightarrow> ('s, unit) dev" where
  "Mpu_configure M regions =
     dseq (RW_write M MPU_CTRL 0)
    (dseq (dfor (\<lambda>r. dseq (RW_write M MPU_RBAR (rbar r)) (RW_write M MPU_RASR (rasr r))) regions)
    (dbind (RW_read M SCB_SHCSR) (\<lambda>shcsr.
     dseq (RW_write M SCB_SHCSR (or shcsr (push_bit 16 1)))
          (RW_write M MPU_CTRL 5))))"

definition Mpu_disable :: "'s Mmio \<Rightarrow> ('s, unit) dev" where
  "Mpu_disable M = RW_write M MPU_CTRL 0"

definition Mpu_select_region :: "'s Mmio \<Rightarrow> u8 \<Rightarrow> ('s, unit) dev" where
  "Mpu_select_region M n = RW_write M MPU_RNR (ucast n)"

section \<open>What a descriptor means\<close>

text \<open>
  The fields of the two registers as the architecture documents them: number, base, size in bytes, access code, execute-never, enable.
\<close>

definition region_number :: "RegionConfig \<Rightarrow> nat" where
  "region_number r = unat (rbar r) mod 16"

definition region_base :: "RegionConfig \<Rightarrow> nat" where
  "region_base r = unat (rbar r) div 32 * 32"

definition region_size :: "RegionConfig \<Rightarrow> nat" where
  "region_size r = 2 ^ (unat (rasr r) div 2 mod 32 + 1)"

definition region_access :: "RegionConfig \<Rightarrow> nat" where
  "region_access r = unat (rasr r) div 2 ^ 24 mod 8"

text \<open>
  Which accesses each access code permits, as the architecture tabulates them: for privileged code reading is permitted by the codes
  1, 2, 3, 5, 6, 7 and writing by 1, 2, 3, for unprivileged code reading by 2, 3, 6, 7 and writing by 3; code 4 is reserved.
\<close>

definition ap_permits :: "nat \<Rightarrow> bool \<Rightarrow> bool \<Rightarrow> bool" where
  "ap_permits ap privileged writes =
     (if privileged then (if writes then ap \<in> {1, 2, 3} else ap \<in> {1, 2, 3, 5, 6, 7})
      else (if writes then ap = 3 else ap \<in> {2, 3, 6, 7}))"

definition region_permits :: "RegionConfig \<Rightarrow> bool \<Rightarrow> bool \<Rightarrow> bool" where
  "region_permits r = ap_permits (region_access r)"

text \<open>What the variants of \<open>Access\<close> are documented to permit, at any privilege level.\<close>

fun Access_permits :: "Access \<Rightarrow> bool \<Rightarrow> bool" where
  "Access_permits NoAccess writes = False"
| "Access_permits ReadOnly writes = (\<not> writes)"
| "Access_permits ReadWrite writes = True"

definition region_xn :: "RegionConfig \<Rightarrow> bool" where
  "region_xn r = bit (rasr r) 28"

definition region_enabled :: "RegionConfig \<Rightarrow> bool" where
  "region_enabled r = bit (rasr r) 0"

definition region_valid :: "RegionConfig \<Rightarrow> bool" where
  "region_valid r = bit (rbar r) 4"

lemma power_of_twoD:
  assumes "is_power_of_two x"
  shows "\<exists>k < 32. x = 2 ^ k"
proof -
  from assms obtain k where f: "filter (bit x) [0..<32] = [k]"
    unfolding is_power_of_two_def by (metis One_nat_def length_0_conv length_Suc_conv)
  then have "{n \<in> {0..<32}. bit x n} = {k}" by (metis list.set(1,2) set_filter set_upt)
  then have "k < 32" and b: "n < 32 \<Longrightarrow> bit x n \<longleftrightarrow> n = k" for n by auto
  then have "x = 2 ^ k" by (intro bit_word_eqI) (auto simp: bit_simps)
  with \<open>k < 32\<close> show ?thesis by blast
qed

lemma unat_exp:
  assumes "k < 32"
  shows "unat (2 ^ k :: u32) = 2 ^ k"
proof -
  have "unat (of_nat (2 ^ k) :: u32) = 2 ^ k"
    using assms by (simp only: unsigned_of_nat take_bit_nat_eq_self_iff) (simp add: power_strict_increasing)
  then show ?thesis by simp
qed

lemma bit_exp: "bit (2 ^ k :: u32) n \<longleftrightarrow> n = k \<and> k < 32"
  by (auto simp: bit_simps)

lemma upt_split:
  assumes "k < 32"
  shows "[0..<32] = [0..<k] @ k # [Suc k..<32]"
  using assms upt_add_eq_append [of 0 k "32 - k"] by (simp add: upt_conv_Cons)

lemma trailing_zeros_exp:
  assumes "k < 32"
  shows "trailing_zeros (2 ^ k) = k"
proof -
  have "takeWhile (\<lambda>i. i \<noteq> k) ([0..<k] @ k # [Suc k..<32]) = [0..<k]"
    by (subst takeWhile_append2) simp_all
  then show ?thesis using assms unfolding trailing_zeros_def bit_exp upt_split [OF assms] by simp
qed

lemma is_power_of_two_exp:
  assumes "k < 32"
  shows "is_power_of_two (2 ^ k)"
proof -
  have "filter (\<lambda>n. n = k) [0..<32] = [k]"
    unfolding upt_split [OF assms] by (simp add: filter_False)
  moreover have "bit (2 ^ k :: u32) = (\<lambda>n. n = k)" using assms by (simp add: fun_eq_iff bit_exp)
  ultimately show ?thesis by (simp add: is_power_of_two_def)
qed

text \<open>A base is aligned to a power of two if the bits below it are zero.\<close>

lemma aligned_iff:
  assumes "k < 32"
  shows "and base (2 ^ k - 1 :: u32) = 0 \<longleftrightarrow> unat base mod 2 ^ k = 0"
proof -
  have "and base (2 ^ k - 1) = take_bit k base" by (simp add: take_bit_eq_mask mask_eq_exp_minus_1)
  moreover have "unat (take_bit k base) = unat base mod 2 ^ k" by (simp only: unsigned_take_bit_eq) (simp only: take_bit_eq_mod)
  ultimately show ?thesis by (simp add: word_unat_eq_iff)
qed

lemma rbar_value:
  fixes base :: u32
  assumes "unat base mod 32 = 0"
  shows "unat (or (or (and base 0xFFFFFFE0) (push_bit 4 1)) (and (ucast (region :: u8)) 0xF)) = unat base + 16 + unat region mod 16"
proof -
  define q c :: u32 where "q = drop_bit 5 base" and "c = and (ucast region) 0xF"
  have m: "(0xFFFFFFE0 :: u32) = not (mask 5)" by (simp add: mask_eq_exp_minus_1)
  have "and base (not (mask 5)) = push_bit 5 q"
    unfolding q_def by (rule bit_word_eqI) (auto simp: bit_simps)
  then have "or (or (and base 0xFFFFFFE0) (push_bit 4 1)) c = or (or c (push_bit 4 1)) (push_bit 5 q)"
    unfolding m by (simp only: or.assoc or.commute or.left_commute)
  moreover have c: "unat c = unat region mod 16"
  proof -
    have "c = take_bit 4 (ucast region)" by (simp add: c_def take_bit_eq_mask mask_eq_exp_minus_1)
    moreover have "unat (ucast region :: u32) = unat region"
      by (simp add: unsigned_ucast_eq take_bit_nat_eq_self_iff order.strict_trans2 [OF unsigned_less])
    ultimately show ?thesis by (simp add: take_bit_eq_mod unat_mod_distrib)
  qed
  moreover have c4: "unat (or c (push_bit 4 1)) = unat c + unat (1 :: u32) * 2 ^ 4" by (rule unat_or_push) (simp_all add: c)
  moreover have q: "unat q * 2 ^ 5 = unat base"
    using assms div_mult_mod_eq [of "unat base" 32] by (simp add: q_def drop_bit_eq_div unat_div_distrib)
  moreover have "unat (or (or c (push_bit 4 1)) (push_bit 5 q)) = unat (or c (push_bit 4 1)) + unat q * 2 ^ 5"
    by (rule unat_or_push) (use c4 c q u32_bound [of base] in simp_all)
  ultimately show ?thesis unfolding c_def [symmetric] by simp
qed

lemma rasr_value:
  assumes "unat sf < 32" "unat ap < 8" "unat xn < 2"
  shows "unat (or (or (or 1 (push_bit 1 sf)) (push_bit 24 ap)) (push_bit 28 xn) :: u32) =
     1 + unat sf * 2 + unat ap * 2 ^ 24 + unat xn * 2 ^ 28"
proof -
  have a: "unat (or 1 (push_bit 1 sf) :: u32) = unat (1 :: u32) + unat sf * 2 ^ 1" by (rule unat_or_push) (use assms in simp_all)
  have b: "unat (or (or 1 (push_bit 1 sf)) (push_bit 24 ap)) = unat (or 1 (push_bit 1 sf)) + unat ap * 2 ^ 24"
    by (rule unat_or_push) (use assms a in simp_all)
  have "unat (or (or (or 1 (push_bit 1 sf)) (push_bit 24 ap)) (push_bit 28 xn)) =
      unat (or (or 1 (push_bit 1 sf)) (push_bit 24 ap)) + unat xn * 2 ^ 28"
    by (rule unat_or_push) (use assms a b in simp_all)
  with a b show ?thesis by simp
qed

section \<open>Descriptors decode to the requested region\<close>

lemma rbar_fields:
  fixes c q :: nat
  assumes "c < 16"
  shows "(32 * q + 16 + c) div 16 = 2 * q + 1" "(32 * q + 16 + c) mod 16 = c" "(32 * q + 16 + c) div 32 * 32 = 32 * q"
proof -
  have e: "32 * q + 16 + c = c + (2 * q + 1) * 16" by simp
  show "(32 * q + 16 + c) div 16 = 2 * q + 1" "(32 * q + 16 + c) mod 16 = c"
    unfolding e using assms by (simp_all only: div_mult_self1 mod_mult_self1, simp_all)
  show "(32 * q + 16 + c) div 32 * 32 = 32 * q" using assms by simp
qed

lemma rasr_fields:
  fixes f a x :: nat
  assumes "f < 32" "a < 8"
  defines "v \<equiv> 1 + f * 2 + a * 2 ^ 24 + x * 2 ^ 28"
  shows "v div 2 mod 32 = f" "v div 2 ^ 24 mod 8 = a" "v div 2 ^ 28 = x" "odd v"
proof -
  have "v div 2 = f + (a * 2 ^ 18 + x * 2 ^ 22) * 32" by (simp add: v_def)
  then show "v div 2 mod 32 = f" using assms(1) by (simp only: mod_mult_self1) simp
  have "v = (1 + f * 2) + (a + (x * 2) * 8) * 2 ^ 24" by (simp add: v_def)
  then have "v div 2 ^ 24 = a + (x * 2) * 8" using assms(1) by (simp only: div_mult_self1) simp
  then show "v div 2 ^ 24 mod 8 = a" using assms(2) by (simp only: mod_mult_self1) simp
  have "1 + f * 2 + a * 2 ^ 24 < 2 ^ 28" using assms(1,2) by simp
  then show "v div 2 ^ 28 = x" unfolding v_def by simp
  show "odd v" by (simp add: v_def)
qed

lemma ap_bits_small: "unat (Access_ap_bits a) < 8"
  by (cases a) simp_all

lemma region_new_good:
  assumes k: "5 \<le> k" "k < 32" and al: "unat base mod 2 ^ k = 0"
  shows "\<exists>r. RegionConfig_new region base (2 ^ k) access xn = Inr r \<and> region_valid r \<and> region_number r = unat region mod 16 \<and>
     region_base r = unat base \<and> region_size r = 2 ^ k \<and> region_access r = unat (Access_ap_bits access) \<and>
     region_xn r = xn \<and> region_enabled r"
proof -
  let ?rbar = "or (or (and base 0xFFFFFFE0) (push_bit 4 1)) (and (ucast region) 0xF) :: u32"
  define sf x where "sf = (of_nat k - 1 :: u32)" and "x = (if xn then 1 else 0 :: u32)"
  let ?ap = "Access_ap_bits access"
  let ?rasr = "or (or (or 1 (push_bit 1 sf)) (push_bit 24 ?ap)) (push_bit 28 x)"
  have "unat (of_nat k :: u32) = k" using k(2) by (simp add: unsigned_of_nat take_bit_nat_eq_self)
  then have sf: "unat sf = k - 1" using k(1) by (simp add: sf_def unat_sub_if' word_le_nat_alt)
  have x: "unat x = of_bool xn" by (simp add: x_def)
  have a: "unat ?rasr = 1 + unat sf * 2 + unat ?ap * 2 ^ 24 + unat x * 2 ^ 28"
    by (rule rasr_value) (use sf k x ap_bits_small in auto)
  have "(2 :: nat) ^ 5 dvd 2 ^ k" using k(1) by (rule le_imp_power_dvd)
  also have "2 ^ k dvd unat base" using al by (rule mod_0_imp_dvd)
  finally have al32: "unat base mod 32 = 0" by simp
  note b = rbar_value [OF al32, of region]
  have "32 \<le> (2 ^ k :: u32)"
  proof -
    have "(2 :: nat) ^ 5 \<le> 2 ^ k" using k(1) by (intro power_increasing) auto
    then show ?thesis by (simp add: word_le_nat_alt unat_exp [OF k(2)])
  qed
  then have new: "RegionConfig_new region base (2 ^ k) access xn = Inr \<lparr>rbar = ?rbar, rasr = ?rasr\<rparr>"
    using k al by (simp add: RegionConfig_new_def is_power_of_two_exp trailing_zeros_exp aligned_iff Let_def sf_def x_def del: push_bit_of_1)
  have bits: "bit (v :: u32) n \<longleftrightarrow> odd (unat v div 2 ^ n)" for v n
  proof -
    have "bit (unat v) n \<longleftrightarrow> bit v n" by (simp add: bit_unsigned_iff)
    then show ?thesis by (simp only: bit_iff_odd [of "unat v" n])
  qed
  obtain q where q: "unat base = 32 * q" using al32 by (auto elim: dvdE dest: mod_0_imp_dvd)
  have ap: "unat ?ap < 8" by (rule ap_bits_small)
  let ?r = "\<lparr>rbar = ?rbar, rasr = ?rasr\<rparr>"
  have "region_valid ?r" "region_number ?r = unat region mod 16" "region_base ?r = unat base"
    unfolding region_valid_def region_number_def region_base_def bits RegionConfig.select_convs b q
    using rbar_fields [of "unat region mod 16" q] by simp_all
  moreover have "region_size ?r = 2 ^ k" "region_access ?r = unat ?ap" "region_xn ?r = xn" "region_enabled ?r"
    unfolding region_size_def region_access_def region_xn_def region_enabled_def bits RegionConfig.select_convs a sf x
    using rasr_fields [of "k - 1" "unat ?ap" "of_bool xn"] k ap by simp_all
  ultimately show ?thesis using new by blast
qed

lemma ap_bits_permit: "ap_permits (unat (Access_ap_bits access)) = (\<lambda>privileged writes. Access_permits access writes)"
  by (intro ext) (cases access; simp add: ap_permits_def)

text \<open>
  C37: a region descriptor is built exactly for sizes that are a power of two of at least 32 bytes and bases aligned to the
  size, and faults otherwise; decoded as the architecture documents it, the descriptor is valid and enabled, names the requested
  region (its number modulo 16: the field has four bits and the constructor masks the number), has the requested base, size and
  execute-never flag, and permits, to privileged and to unprivileged code alike, no access for \<open>NoAccess\<close>, exactly the reads for
  \<open>ReadOnly\<close> and every access for \<open>ReadWrite\<close>.
\<close>

theorem region_new_decodes:
  "case RegionConfig_new region base sz access xn of
     Inl f \<Rightarrow> f = OnError \<and> \<not> (is_power_of_two sz \<and> 32 \<le> sz \<and> unat base mod unat sz = 0)
   | Inr r \<Rightarrow> (is_power_of_two sz \<and> 32 \<le> sz \<and> unat base mod unat sz = 0) \<and>
       region_valid r \<and> region_enabled r \<and> region_number r = unat region mod 16 \<and> region_base r = unat base \<and>
       region_size r = unat sz \<and> region_permits r = (\<lambda>privileged writes. Access_permits access writes) \<and> region_xn r = xn"
proof (cases "is_power_of_two sz \<and> 32 \<le> sz")
  case True
  then obtain k where k: "k < 32" "sz = 2 ^ k" using power_of_twoD by blast
  have u: "unat sz = 2 ^ k" unfolding k(2) by (rule unat_exp [OF k(1)])
  have k5: "5 \<le> k"
  proof (rule ccontr)
    assume "\<not> 5 \<le> k"
    then have "(2 :: nat) ^ k < 2 ^ 5" by (intro power_strict_increasing) auto
    with True u show False by (simp add: word_le_nat_alt)
  qed
  show ?thesis
  proof (cases "unat base mod 2 ^ k = 0")
    case al: True
    from region_new_good [OF k5 k(1) al, of region access xn] True al u show ?thesis
      by (auto simp: k(2) region_permits_def ap_bits_permit)
  next
    case False
    then have "RegionConfig_new region base sz access xn = Inl OnError"
      using True k aligned_iff [OF k(1)] by (simp add: RegionConfig_new_def Let_def)
    with False u show ?thesis by simp
  qed
next
  case False
  then show ?thesis by (auto simp: RegionConfig_new_def)
qed

section \<open>A programmed unit\<close>

text \<open>
  What the architecture documents of the unit's registers: a base register written with the valid bit selects the region and
  sets its base, the attribute register is that of the selected region, the others keep what is written.
\<close>

record MpuState =
  ms_ctrl :: u32
  ms_shcsr :: u32
  ms_sel :: nat
  ms_region :: "nat \<Rightarrow> RegionConfig"

definition mpu_hw :: "'s Mmio \<Rightarrow> ('s \<Rightarrow> MpuState) \<Rightarrow> bool" where
  "mpu_hw M view \<longleftrightarrow>
     (\<forall>s v. view (io_write M MPU_CTRL v s) = (view s)\<lparr>ms_ctrl := v\<rparr>) \<and>
     (\<forall>s v. view (io_write M SCB_SHCSR v s) = (view s)\<lparr>ms_shcsr := v\<rparr>) \<and>
     (\<forall>s v. bit v 4 \<longrightarrow> view (io_write M MPU_RBAR v s) = (view s)\<lparr>ms_sel := unat v mod 16,
        ms_region := (ms_region (view s))(unat v mod 16 := (ms_region (view s) (unat v mod 16))\<lparr>rbar := v\<rparr>)\<rparr>) \<and>
     (\<forall>s v. view (io_write M MPU_RASR v s) = (view s)\<lparr>ms_region := (ms_region (view s))
        (ms_sel (view s) := (ms_region (view s) (ms_sel (view s)))\<lparr>rasr := v\<rparr>)\<rparr>) \<and>
     (\<forall>s. fst (io_read M SCB_SHCSR s) = ms_shcsr (view s) \<and> view (polled M SCB_SHCSR s) = view s)"

lemma install_region:
  assumes hw: "mpu_hw M view" and v: "region_valid r"
  shows "\<exists>s'. dseq (RW_write M MPU_RBAR (rbar r)) (RW_write M MPU_RASR (rasr r)) s = Some (Inr (), s') \<and>
     ms_region (view s') = (ms_region (view s))(region_number r := r) \<and> ms_shcsr (view s') = ms_shcsr (view s)"
proof -
  let ?s1 = "io_write M MPU_RBAR (rbar r) s" and ?n = "region_number r"
  from hw v have "view ?s1 = (view s)\<lparr>ms_sel := ?n,
      ms_region := (ms_region (view s))(?n := (ms_region (view s) ?n)\<lparr>rbar := rbar r\<rparr>)\<rparr>"
    by (simp add: mpu_hw_def region_valid_def region_number_def)
  moreover from hw have "view (io_write M MPU_RASR (rasr r) ?s1) = (view ?s1)\<lparr>ms_region := (ms_region (view ?s1))
      (ms_sel (view ?s1) := (ms_region (view ?s1) (ms_sel (view ?s1)))\<lparr>rasr := rasr r\<rparr>)\<rparr>"
    by (simp add: mpu_hw_def)
  ultimately show ?thesis by (auto simp: dev_eval)
qed

lemma fold_update_distinct:
  assumes "distinct (map k rs)"
  shows "r \<in> set rs \<Longrightarrow> fold (\<lambda>r f. f(k r := r)) rs f (k r) = r"
    "n \<notin> k ` set rs \<Longrightarrow> fold (\<lambda>r f. f(k r := r)) rs f n = f n"
proof -
  show out: "n \<notin> k ` set rs \<Longrightarrow> fold (\<lambda>r f. f(k r := r)) rs f n = f n" for n f rs
    by (induction rs arbitrary: f) auto
  show "r \<in> set rs \<Longrightarrow> fold (\<lambda>r f. f(k r := r)) rs f (k r) = r"
    using assms by (induction rs arbitrary: f) (auto simp: out)
qed

text \<open>
  Programming the memory protection unit with valid descriptors of distinct region numbers returns with the unit enabled over
  the default map, the memory-management fault enabled, every given region installed and every other region as it was.
\<close>

theorem Mpu_configure_installs:
  assumes hw: "mpu_hw M view" and v: "\<forall>r\<in>set rs. region_valid r" and d: "distinct (map region_number rs)"
  shows "\<exists>s'. Mpu_configure M rs s = Some (Inr (), s') \<and> ms_ctrl (view s') = 5 \<and> bit (ms_shcsr (view s')) 16 \<and>
     (\<forall>r\<in>set rs. ms_region (view s') (region_number r) = r) \<and>
     (\<forall>n. n \<notin> region_number ` set rs \<longrightarrow> ms_region (view s') n = ms_region (view s) n)"
proof -
  let ?put = "\<lambda>r. dseq (RW_write M MPU_RBAR (rbar r)) (RW_write M MPU_RASR (rasr r))"
  let ?s0 = "io_write M MPU_CTRL 0 s"
  have all: "\<exists>s'. dfor ?put rs s = Some (Inr (), s') \<and> ms_region (view s') = fold (\<lambda>r f. f(region_number r := r)) rs (ms_region (view s))"
    if "\<forall>r\<in>set rs. region_valid r" for rs s
    using that
  proof (induction rs arbitrary: s)
    case (Cons r rs)
    from install_region [OF hw, of r s] Cons.prems obtain s1 where
      s1: "?put r s = Some (Inr (), s1)" "ms_region (view s1) = (ms_region (view s))(region_number r := r)" by auto
    from Cons.IH [of s1] Cons.prems show ?case
      by (auto simp: dseq_Some [where m = "?put r", OF s1(1)] s1(2) simp del: fun_upd_apply reg_run)
  qed (simp add: dev_eval)
  from all [OF v, of ?s0] obtain s1 where
    s1: "dfor ?put rs ?s0 = Some (Inr (), s1)" "ms_region (view s1) = fold (\<lambda>r f. f(region_number r := r)) rs (ms_region (view ?s0))"
    by blast
  obtain w s2 where r: "io_read M SCB_SHCSR s1 = (w, s2)" by fastforce
  then have "s2 = polled M SCB_SHCSR s1" by (simp add: polled_def)
  with hw have v2: "view s2 = view s1" by (simp add: mpu_hw_def)
  let ?s4 = "io_write M MPU_CTRL 5 (io_write M SCB_SHCSR (or w (push_bit 16 1)) s2)"
  have "Mpu_configure M rs s = Some (Inr (), ?s4)"
    by (simp add: Mpu_configure_def dseq_Some [where m = "dfor ?put rs", OF s1(1)] r) (simp add: dev_eval)
  moreover have "view ?s4 = (view s1)\<lparr>ms_shcsr := or w (push_bit 16 1), ms_ctrl := 5\<rparr>"
    using hw v2 by (simp add: mpu_hw_def del: push_bit_of_1)
  moreover have "ms_region (view ?s0) = ms_region (view s)" using hw by (simp add: mpu_hw_def)
  ultimately show ?thesis
    using s1(2) fold_update_distinct [OF d] by (auto simp: bit_simps)
qed

text \<open>A unit that is nothing but its registers.\<close>

definition plain_mpu :: "MpuState Mmio" where
  "plain_mpu = \<lparr>io_read = (\<lambda>a s. (if a = SCB_SHCSR then ms_shcsr s else 0, s)),
     io_write = (\<lambda>a v s.
       if a = MPU_CTRL then s\<lparr>ms_ctrl := v\<rparr> else if a = SCB_SHCSR then s\<lparr>ms_shcsr := v\<rparr>
       else if a = MPU_RBAR then s\<lparr>ms_sel := unat v mod 16,
         ms_region := (ms_region s)(unat v mod 16 := (ms_region s (unat v mod 16))\<lparr>rbar := v\<rparr>)\<rparr>
       else s\<lparr>ms_region := (ms_region s)(ms_sel s := (ms_region s (ms_sel s))\<lparr>rasr := v\<rparr>)\<rparr>),
     io_write8 = (\<lambda>_ _ s. s)\<rparr>"

lemma plain_mpu_hw: "mpu_hw plain_mpu id"
  by (simp add: mpu_hw_def plain_mpu_def polled_def MPU_CTRL_def SCB_SHCSR_def MPU_RBAR_def MPU_RASR_def)

lemma Mpu_configure_installs_witness:
  "\<exists>s'. Mpu_configure plain_mpu [\<lparr>rbar = 0x20008015, rasr = 0x10000009\<rparr>]
       \<lparr>ms_ctrl = 0, ms_shcsr = 0, ms_sel = 0, ms_region = \<lambda>_. \<lparr>rbar = 0, rasr = 0\<rparr>\<rparr> = Some (Inr (), s') \<and>
     ms_region s' 5 = \<lparr>rbar = 0x20008015, rasr = 0x10000009\<rparr> \<and> ms_region s' 6 = \<lparr>rbar = 0, rasr = 0\<rparr>"
  using Mpu_configure_installs [OF plain_mpu_hw, of "[\<lparr>rbar = 0x20008015, rasr = 0x10000009\<rparr>]"
      "\<lparr>ms_ctrl = 0, ms_shcsr = 0, ms_sel = 0, ms_region = \<lambda>_. \<lparr>rbar = 0, rasr = 0\<rparr>\<rparr>"]
  by (auto simp: region_valid_def region_number_def)

end
