(* ===== verification/I2cDrv.thy ===== *)
theory I2cDrv
  imports Registers
begin

text \<open>
  The I2C master drivers of STM32F4 (\<open>stm32f4/i2c.rs\<close>, byte by byte) and nRF52840 (\<open>nrf52/i2c.rs\<close>, by DMA), what a failed
  transfer leaves behind, and where the nRF52840 driver's registers lie.
\<close>

section \<open>STM32F4\<close>

text \<open>The status and control bits.\<close>

abbreviation SR1_SB :: u32 where "SR1_SB \<equiv> push_bit 0 1"
abbreviation SR1_ADDR :: u32 where "SR1_ADDR \<equiv> push_bit 1 1"
abbreviation SR1_BTF :: u32 where "SR1_BTF \<equiv> push_bit 2 1"
abbreviation SR1_RXNE :: u32 where "SR1_RXNE \<equiv> push_bit 6 1"
abbreviation SR1_TXE :: u32 where "SR1_TXE \<equiv> push_bit 7 1"
abbreviation SR1_BERR :: u32 where "SR1_BERR \<equiv> push_bit 8 1"
abbreviation SR1_ARLO :: u32 where "SR1_ARLO \<equiv> push_bit 9 1"
abbreviation SR1_AF :: u32 where "SR1_AF \<equiv> push_bit 10 1"
abbreviation CR1_PE :: u32 where "CR1_PE \<equiv> push_bit 0 1"
abbreviation CR1_START :: u32 where "CR1_START \<equiv> push_bit 8 1"
abbreviation CR1_STOP :: u32 where "CR1_STOP \<equiv> push_bit 9 1"
abbreviation CR1_ACK :: u32 where "CR1_ACK \<equiv> push_bit 10 1"

abbreviation i2c_reg :: "u32 \<Rightarrow> string \<Rightarrow> u32" where
  "i2c_reg regs \<equiv> reg regs stm32f4_I2cRegs"

definition Stm32F4I2c_configure_clock :: "'s Mmio \<Rightarrow> u32 \<Rightarrow> u32 \<Rightarrow> u32 \<Rightarrow> ('s, unit) dev" where
  "Stm32F4I2c_configure_clock M regs pclk_hz freq_hz =
     dseq (RW_modify M (i2c_reg regs ''cr1'') (\<lambda>v. dreturn (and v (not CR1_PE))))
    (let freq_mhz = min (max (pclk_hz div 1000000) 2) 50 in
     dseq (RW_write M (i2c_reg regs ''cr2'') freq_mhz)
    (dbind (if freq_hz \<le> 100000 then mul32 2 freq_hz else mul32 3 freq_hz) (\<lambda>m.
     dbind (div32 pclk_hz m) (\<lambda>ccr_val.
     dseq (RW_write M (i2c_reg regs ''ccr'') (or ccr_val (if freq_hz \<le> 100000 then 0 else push_bit 15 1)))
    (dseq (RW_write M (i2c_reg regs ''trise'') (if freq_hz \<le> 100000 then freq_mhz + 1 else freq_mhz * 3 div 10 + 1))
          (RW_write M (i2c_reg regs ''cr1'') (or CR1_PE CR1_ACK)))))))"

definition Stm32F4I2c_check_errors :: "'s Mmio \<Rightarrow> u32 \<Rightarrow> ('s, unit) dev" where
  "Stm32F4I2c_check_errors M regs =
     dbind (RW_read M (i2c_reg regs ''sr1'')) (\<lambda>sr1.
       if and sr1 SR1_AF \<noteq> 0 then dstop (Err HardwareError)
       else if and sr1 SR1_ARLO \<noteq> 0 then dstop (Err Busy)
       else if and sr1 SR1_BERR \<noteq> 0 then dstop (Err HardwareError)
       else dreturn ())"

text \<open>The loop \<open>while sr1 & flag == 0 { check_errors()? }\<close>.\<close>

definition i2c_wait :: "'s Mmio \<Rightarrow> u32 \<Rightarrow> u32 \<Rightarrow> ('s, unit) dev" where
  "i2c_wait M regs flag =
     dloop (dbind (RW_read M (i2c_reg regs ''sr1'')) (\<lambda>v.
       if and v flag = 0 then dseq (Stm32F4I2c_check_errors M regs) (dreturn True) else dreturn False))"

definition Stm32F4I2c_start :: "'s Mmio \<Rightarrow> u32 \<Rightarrow> ('s, unit) dev" where
  "Stm32F4I2c_start M regs =
     dseq (RW_modify M (i2c_reg regs ''cr1'') (\<lambda>v. dreturn (or v CR1_START))) (i2c_wait M regs SR1_SB)"

definition Stm32F4I2c_send_addr :: "'s Mmio \<Rightarrow> u32 \<Rightarrow> u8 \<Rightarrow> bool \<Rightarrow> ('s, unit) dev" where
  "Stm32F4I2c_send_addr M regs addr rd =
     dseq (RW_write M (i2c_reg regs ''dr'') (or (push_bit 1 (ucast addr)) (if rd then 1 else 0)))
    (dseq (i2c_wait M regs SR1_ADDR)
    (dbind (RW_read M (i2c_reg regs ''sr1'')) (\<lambda>_.
     dbind (RW_read M (i2c_reg regs ''sr2'')) (\<lambda>_. dreturn ()))))"

definition Stm32F4I2c_stop :: "'s Mmio \<Rightarrow> u32 \<Rightarrow> ('s, unit) dev" where
  "Stm32F4I2c_stop M regs = RW_modify M (i2c_reg regs ''cr1'') (\<lambda>v. dreturn (or v CR1_STOP))"

definition i2c_send :: "'s Mmio \<Rightarrow> u32 \<Rightarrow> u8 list \<Rightarrow> ('s, unit) dev" where
  "i2c_send M regs bytes =
     dseq (dfor (\<lambda>b. dseq (i2c_wait M regs SR1_TXE) (RW_write M (i2c_reg regs ''dr'') (ucast b))) bytes)
          (i2c_wait M regs SR1_BTF)"

text \<open>The bytes of a read; before the last one the acknowledgement is switched off and \<open>last_byte\<close> is done.\<close>

fun i2c_recv :: "'s Mmio \<Rightarrow> u32 \<Rightarrow> ('s, unit) dev \<Rightarrow> nat \<Rightarrow> ('s, u8 list) dev" where
  "i2c_recv M regs last_byte 0 = dreturn []"
| "i2c_recv M regs last_byte (Suc n) =
     dseq (if n = 0 then dseq (RW_modify M (i2c_reg regs ''cr1'') (\<lambda>v. dreturn (and v (not CR1_ACK)))) last_byte else dreturn ())
    (dseq (i2c_wait M regs SR1_RXNE)
    (dbind (RW_read M (i2c_reg regs ''dr'')) (\<lambda>b.
     dbind (i2c_recv M regs last_byte n) (\<lambda>bs. dreturn (ucast b # bs)))))"

definition i2c_ack_on :: "'s Mmio \<Rightarrow> u32 \<Rightarrow> ('s, unit) dev" where
  "i2c_ack_on M regs = RW_modify M (i2c_reg regs ''cr1'') (\<lambda>v. dreturn (or v CR1_ACK))"

definition Stm32F4I2c_write :: "'s Mmio \<Rightarrow> u32 \<Rightarrow> u8 \<Rightarrow> u8 list \<Rightarrow> ('s, unit) dev" where
  "Stm32F4I2c_write M regs address bytes =
     dseq (Stm32F4I2c_start M regs)
    (dseq (Stm32F4I2c_send_addr M regs address False)
    (dseq (i2c_send M regs bytes)
          (Stm32F4I2c_stop M regs)))"

definition Stm32F4I2c_read :: "'s Mmio \<Rightarrow> u32 \<Rightarrow> u8 \<Rightarrow> nat \<Rightarrow> ('s, u8 list) dev" where
  "Stm32F4I2c_read M regs address len =
     dseq (Stm32F4I2c_start M regs)
    (dseq (Stm32F4I2c_send_addr M regs address True)
    (dbind (i2c_recv M regs (Stm32F4I2c_stop M regs) len) (\<lambda>bs.
     dseq (i2c_ack_on M regs) (dreturn bs))))"

definition Stm32F4I2c_write_read :: "'s Mmio \<Rightarrow> u32 \<Rightarrow> u8 \<Rightarrow> u8 list \<Rightarrow> nat \<Rightarrow> ('s, u8 list) dev" where
  "Stm32F4I2c_write_read M regs address bytes len =
     dseq (Stm32F4I2c_start M regs)
    (dseq (Stm32F4I2c_send_addr M regs address False)
    (dseq (i2c_send M regs bytes)
          (Stm32F4I2c_read M regs address len)))"

text \<open>The operations of a transaction: bytes to write, or the length of a buffer to fill. Only the first write sends the address.\<close>

datatype Operation = OpWrite "u8 list" | OpRead nat

fun i2c_ops :: "'s Mmio \<Rightarrow> u32 \<Rightarrow> u8 \<Rightarrow> bool \<Rightarrow> Operation list \<Rightarrow> ('s, u8 list list) dev" where
  "i2c_ops M regs address is_first [] = dreturn []"
| "i2c_ops M regs address is_first (OpWrite bytes # ops) =
     dseq (if is_first then dseq (Stm32F4I2c_start M regs) (Stm32F4I2c_send_addr M regs address False) else dreturn ())
    (dseq (i2c_send M regs bytes)
          (i2c_ops M regs address False ops))"
| "i2c_ops M regs address is_first (OpRead len # ops) =
     dseq (Stm32F4I2c_start M regs)
    (dseq (Stm32F4I2c_send_addr M regs address True)
    (dbind (i2c_recv M regs (dreturn ()) len) (\<lambda>bs.
     dseq (i2c_ack_on M regs)
    (dbind (i2c_ops M regs address False ops) (\<lambda>rest. dreturn (bs # rest))))))"

definition Stm32F4I2c_transaction :: "'s Mmio \<Rightarrow> u32 \<Rightarrow> u8 \<Rightarrow> Operation list \<Rightarrow> ('s, u8 list list) dev" where
  "Stm32F4I2c_transaction M regs address ops =
     dbind (i2c_ops M regs address True ops) (\<lambda>bufs. dseq (Stm32F4I2c_stop M regs) (dreturn bufs))"

section \<open>nRF52840\<close>

definition Nrf52I2c_configure :: "'s Mmio \<Rightarrow> u32 \<Rightarrow> u32 \<Rightarrow> ('s, unit) dev" where
  "Nrf52I2c_configure M regs freq =
     dseq (RW_write M (reg regs nrf52_TwimRegs ''enable'') 0)
    (dseq (RW_write M (reg regs nrf52_TwimRegs ''frequency'')
        (if freq \<le> 100000 then 0x01980000 else if freq \<le> 250000 then 0x04000000 else 0x06400000))
          (RW_write M (reg regs nrf52_TwimRegs ''enable'') 6))"

text \<open>One transfer by DMA, from or to the buffer at \<open>ptr\<close>.\<close>

definition nrf52_twim_run :: "'s Mmio \<Rightarrow> u32 \<Rightarrow> string \<Rightarrow> string \<Rightarrow> string \<Rightarrow> u8 \<Rightarrow> u32 \<Rightarrow> nat \<Rightarrow> ('s, unit) dev" where
  "nrf52_twim_run M regs pr mr task addr ptr len =
     dseq (RW_write M (reg regs nrf52_TwimRegs ''address'') (ucast addr))
    (dseq (RW_write M (reg regs nrf52_TwimRegs pr) ptr)
    (dseq (RW_write M (reg regs nrf52_TwimRegs mr) (of_nat len))
    (dseq (RW_write M (reg regs nrf52_TwimRegs ''events_stopped'') 0)
    (dseq (RW_write M (reg regs nrf52_TwimRegs ''events_error'') 0)
    (dseq (RW_write M (reg regs nrf52_TwimRegs task) 1)
    (dseq (RW_write M (reg regs nrf52_TwimRegs ''tasks_stop'') 1)
    (dseq (spin_while M (reg regs nrf52_TwimRegs ''events_stopped'') (\<lambda>v. v = 0))
    (dbind (RW_read M (reg regs nrf52_TwimRegs ''errorsrc'')) (\<lambda>v.
       if v \<noteq> 0 then dstop (Err HardwareError) else dreturn ())))))))))"

definition Nrf52I2c_do_write :: "'s Mmio \<Rightarrow> u32 \<Rightarrow> u8 \<Rightarrow> u32 \<Rightarrow> nat \<Rightarrow> ('s, unit) dev" where
  "Nrf52I2c_do_write M regs = nrf52_twim_run M regs ''txd.ptr'' ''txd.maxcnt'' ''tasks_starttx''"

definition Nrf52I2c_do_read :: "'s Mmio \<Rightarrow> u32 \<Rightarrow> u8 \<Rightarrow> u32 \<Rightarrow> nat \<Rightarrow> ('s, unit) dev" where
  "Nrf52I2c_do_read M regs = nrf52_twim_run M regs ''rxd.ptr'' ''rxd.maxcnt'' ''tasks_startrx''"

definition Nrf52I2c_write_read :: "'s Mmio \<Rightarrow> u32 \<Rightarrow> u8 \<Rightarrow> u32 \<times> nat \<Rightarrow> u32 \<times> nat \<Rightarrow> ('s, unit) dev" where
  "Nrf52I2c_write_read M regs address bytes buffer =
     dseq (Nrf52I2c_do_write M regs address (fst bytes) (snd bytes)) (Nrf52I2c_do_read M regs address (fst buffer) (snd buffer))"

text \<open>An operation of a transaction: whether it reads, with the address and length of its buffer.\<close>

definition Nrf52I2c_transaction :: "'s Mmio \<Rightarrow> u32 \<Rightarrow> u8 \<Rightarrow> (bool \<times> u32 \<times> nat) list \<Rightarrow> ('s, unit) dev" where
  "Nrf52I2c_transaction M regs address ops =
     dfor (\<lambda>(rd, ptr, len). if rd then Nrf52I2c_do_read M regs address ptr len else Nrf52I2c_do_write M regs address ptr len) ops"

section \<open>Transfers without a stop condition\<close>

text \<open>
  A slave that does not acknowledge its address: the start condition is reported, the address never is, and the
  acknowledge failure is. \<open>c\<close> is what the control register reads as.
\<close>

definition i2c_nack :: "'s Mmio \<Rightarrow> u32 \<Rightarrow> u32 \<Rightarrow> bool" where
  "i2c_nack M regs c \<longleftrightarrow>
     (\<forall>s. \<exists>v. io_read M (i2c_reg regs ''sr1'') s = (v, s) \<and> bit v 0 \<and> \<not> bit v 1 \<and> bit v 10) \<and>
     (\<forall>s. io_read M (i2c_reg regs ''cr1'') s = (c, s))"

lemma i2c_wait_done:
  assumes "io_read M (i2c_reg regs ''sr1'') s = (v, s)" "bit v n"
  shows "i2c_wait M regs (push_bit n 1) s = Some (Inr (), s)"
  using assms bit_test(3) [of v n] unfolding i2c_wait_def
  by (subst dloop.simps) (simp add: dev_eval)

lemma i2c_wait_nack:
  assumes "io_read M (i2c_reg regs ''sr1'') s = (v, s)" "\<not> bit v n" "bit v 10"
  shows "i2c_wait M regs (push_bit n 1) s = Some (Inl (Err HardwareError), s)"
proof -
  have e: "Stm32F4I2c_check_errors M regs s = Some (Inl (Err HardwareError), s)"
    using assms bit_test(3) [of v 10] by (simp add: Stm32F4I2c_check_errors_def dev_eval)
  show ?thesis using assms(1,2) bit_test(3) [of v n] e unfolding i2c_wait_def
    by (subst dloop.simps) (simp add: dseq_def dbind_Some(2) [where m = "Stm32F4I2c_check_errors M regs", OF e])
qed

text \<open>
  An address that is not acknowledged ends every transfer with an error after exactly two register writes, the start
  condition and the address: no stop condition is generated, so the bus stays claimed.
\<close>

lemma Stm32F4I2c_nack_no_stop:
  fixes M :: "'s Mmio" and address :: u8 and s :: 's
  assumes hw: "i2c_nack M regs c"
  defines "claimed \<equiv> \<lambda>rd. io_write M (i2c_reg regs ''dr'') (or (push_bit 1 (ucast address)) (if rd then 1 else 0))
     (io_write M (i2c_reg regs ''cr1'') (or c CR1_START) s)"
  shows "Stm32F4I2c_write M regs address bytes s = Some (Inl (Err HardwareError), claimed False)"
    "Stm32F4I2c_read M regs address len s = Some (Inl (Err HardwareError), claimed True)"
    "Stm32F4I2c_write_read M regs address bytes len s = Some (Inl (Err HardwareError), claimed False)"
proof -
  let ?s1 = "io_write M (i2c_reg regs ''cr1'') (or c CR1_START) s"
  have sr1: "\<exists>v. io_read M (i2c_reg regs ''sr1'') s' = (v, s') \<and> bit v 0 \<and> \<not> bit v 1 \<and> bit v 10" for s'
    using hw by (simp add: i2c_nack_def)
  have cr1: "io_read M (i2c_reg regs ''cr1'') s' = (c, s')" for s' using hw by (simp add: i2c_nack_def)
  from sr1 [of ?s1] have "i2c_wait M regs SR1_SB ?s1 = Some (Inr (), ?s1)" by (elim exE conjE) (rule i2c_wait_done)
  then have start: "Stm32F4I2c_start M regs s = Some (Inr (), ?s1)"
    by (simp add: Stm32F4I2c_start_def RW_modify_def dseq_def dbind_def RW_read_def RW_write_def dreturn_def cr1)
  have addr: "Stm32F4I2c_send_addr M regs address rd ?s1 = Some (Inl (Err HardwareError), claimed rd)" for rd
  proof -
    from sr1 [of "claimed rd"] have w: "i2c_wait M regs SR1_ADDR (claimed rd) = Some (Inl (Err HardwareError), claimed rd)"
      by (elim exE conjE) (rule i2c_wait_nack)
    have c: "io_write M (i2c_reg regs ''dr'') (or (push_bit 1 (ucast address)) (if rd then 1 else 0)) ?s1 = claimed rd"
      unfolding claimed_def ..
    show ?thesis unfolding Stm32F4I2c_send_addr_def reg_run(1) c dseq_def [of "i2c_wait M regs SR1_ADDR"]
      by (rule dbind_Some(2) [where m = "i2c_wait M regs SR1_ADDR", OF w])
  qed
  note step = dseq_Some [where m = "Stm32F4I2c_start M regs", OF start]
  have stop: "dseq (Stm32F4I2c_send_addr M regs address rd) k ?s1 = Some (Inl (Err HardwareError), claimed rd)" for rd k
    unfolding dseq_def by (rule dbind_Some(2) [where m = "Stm32F4I2c_send_addr M regs address rd", OF addr])
  show "Stm32F4I2c_write M regs address bytes s = Some (Inl (Err HardwareError), claimed False)"
    unfolding Stm32F4I2c_write_def step by (rule stop)
  show "Stm32F4I2c_read M regs address len s = Some (Inl (Err HardwareError), claimed True)"
    unfolding Stm32F4I2c_read_def step by (rule stop)
  show "Stm32F4I2c_write_read M regs address bytes len s = Some (Inl (Err HardwareError), claimed False)"
    unfolding Stm32F4I2c_write_read_def step by (rule stop)
qed

section \<open>Misplaced registers\<close>

text \<open>
  The fields of the TWIM block of the nRF52840 after \<open>events_error\<close> do not lie where their comments say (\<open>twim_misplaced\<close>), so
  enabling the peripheral and setting its frequency write offsets 0x6E4 and 0x708 instead of the documented 0x500 and 0x524: a device
  on which only a write to the documented enable register changes whether the peripheral is enabled is never enabled by \<open>configure\<close>.
\<close>

lemma Nrf52I2c_configure_run:
  "Nrf52I2c_configure M regs freq s = Some (Inr (), io_write M (regs + 0x6E4) 6 (io_write M (regs + 0x708)
     (if freq \<le> 100000 then 0x01980000 else if freq \<le> 250000 then 0x04000000 else 0x06400000) (io_write M (regs + 0x6E4) 0 s)))"
proof -
  have "field_word ''enable'' nrf52_TwimRegs = 441" "field_word ''frequency'' nrf52_TwimRegs = 450" by code_simp+
  then have "reg regs nrf52_TwimRegs ''enable'' = regs + 0x6E4" "reg regs nrf52_TwimRegs ''frequency'' = regs + 0x708"
    by (simp_all add: reg_def)
  then show ?thesis by (simp add: Nrf52I2c_configure_def dev_eval)
qed

lemma Nrf52I2c_never_enabled:
  assumes "\<And>a v s. a \<noteq> regs + 0x500 \<Longrightarrow> enabled (io_write M a v s) = enabled s"
  shows "\<exists>s'. Nrf52I2c_configure M regs freq s = Some (Inr (), s') \<and> enabled s' = enabled s"
  using assms by (simp add: Nrf52I2c_configure_run)

end
