(* ===== verification/XtensaPort.thy ===== *)
theory XtensaPort
  imports PortSwitchSpec
begin

text \<open>
  The Xtensa port (\<open>ports/xtensa\<close>): initial stacks and the window exception handlers of \<open>lib.rs\<close>, which spill registers of a
  call frame to the stack (overflow) and bring them back (underflow). An overflow handler and its underflow handler have to agree
  on the save area; here they do not.
\<close>

section \<open>Initial stacks\<close>

text \<open>The frame: \<open>pc\<close>, \<open>ps\<close>, \<open>a0\<close>-\<open>a15\<close>, \<open>sar\<close>, lowest address first; \<open>a1\<close> is the stack pointer.\<close>

definition XtContextFrame_new :: "u32 \<Rightarrow> u32 \<Rightarrow> u32 list" where
  "XtContextFrame_new entry arg = [entry, 0x00040000, 0, 0, arg] @ replicate 13 0 @ [0]"

definition XtThreadStack_init :: "u32 \<Rightarrow> nat \<Rightarrow> u32 \<Rightarrow> u32 \<Rightarrow> mem \<Rightarrow> (u32 \<times> mem) result" where
  "XtThreadStack_init base len entry arg m =
     (let top = base + of_nat len in
      rbind (ensure Panic (76 \<le> unat top)) (\<lambda>_.
      let frame_start = and (top - 76) (not 15);
          frame = (XtContextFrame_new entry arg)[3 := frame_start]
      in Inr (frame_start, store_words frame_start frame m)))"

text \<open>
  The initial stack of a thread holds its entry point, its argument in \<open>a2\<close> and its own address as stack pointer, is aligned to 16
  bytes, and the frame ends at or below the top of the storage.
\<close>

lemma XtThreadStack_init_frame:
  assumes "XtThreadStack_init base len entry arg m = Inr (sp, m')"
  shows "load_words 19 sp m' = [entry, 0x00040000, 0, sp, arg] @ replicate 14 0"
    "and sp 15 = 0" "unat sp + 76 \<le> unat (base + of_nat len)"
proof -
  let ?top = "base + of_nat len :: u32" and ?f = "(XtContextFrame_new entry arg)[3 := sp]"
  from assms have sp: "sp = and (?top - 76) (not 15)" and m: "m' = store_words sp ?f m" and t: "76 \<le> unat ?top"
    by (auto simp: XtThreadStack_init_def Let_def res_simps)
  have f: "?f = [entry, 0x00040000, 0, sp, arg] @ replicate 14 0"
    by (simp add: XtContextFrame_new_def eval_nat_numeral)
  with load_store [of ?f sp m] show "load_words 19 sp m' = [entry, 0x00040000, 0, sp, arg] @ replicate 14 0" by (simp add: m)
  show "and sp 15 = 0" unfolding sp by (simp add: and.assoc)
  have "unat sp \<le> unat (?top - 76)" unfolding sp by (simp add: word_le_nat_alt [symmetric] word_and_le2)
  moreover have "unat (?top - 76) = unat ?top - 76" using t by (simp add: unat_sub word_le_nat_alt)
  ultimately show "unat sp + 76 \<le> unat ?top" using t by simp
qed

section \<open>Window handlers\<close>

text \<open>
  The instructions of the handlers on the sixteen registers of the current window: store or load register \<open>t\<close> at \<open>off\<close> bytes
  below the address in register \<open>s\<close>. \<open>rfwo\<close> and \<open>rfwu\<close> end a handler and change neither registers nor memory.
\<close>

datatype winstr = S32e nat nat u32 | L32e nat nat u32

fun wstep :: "winstr \<Rightarrow> u32 list \<times> mem \<Rightarrow> u32 list \<times> mem" where
  "wstep (S32e t s off) (rs, m) = (rs, m(rs ! s - off := rs ! t))"
| "wstep (L32e t s off) (rs, m) = (rs[t := m (rs ! s - off)], m)"

definition wrun :: "winstr list \<Rightarrow> u32 list \<times> mem \<Rightarrow> u32 list \<times> mem" where
  "wrun = fold wstep"

definition WindowOverflow4 :: "winstr list" where
  "WindowOverflow4 = [S32e 0 9 16, S32e 1 9 12, S32e 2 9 8, S32e 3 9 4]"

definition WindowUnderflow4 :: "winstr list" where
  "WindowUnderflow4 = [L32e 0 5 16, L32e 1 5 12, L32e 2 5 8, L32e 3 5 4]"

definition WindowOverflow8 :: "winstr list" where
  "WindowOverflow8 = [S32e 0 13 16, S32e 1 13 12, S32e 2 13 8, S32e 3 13 4,
     S32e 4 9 32, S32e 5 9 28, S32e 6 9 24, S32e 7 9 20]"

definition WindowUnderflow8 :: "winstr list" where
  "WindowUnderflow8 = [L32e 0 9 16, L32e 1 9 12, L32e 2 9 8, L32e 3 9 4,
     L32e 4 5 32, L32e 5 5 28, L32e 6 5 24, L32e 7 5 20]"

definition WindowOverflow12 :: "winstr list" where
  "WindowOverflow12 = [S32e 0 13 16, S32e 1 13 12, S32e 2 13 8, S32e 3 13 4,
     S32e 4 9 32, S32e 5 9 28, S32e 6 9 24, S32e 7 9 20,
     S32e 8 9 48, S32e 9 9 44, S32e 10 9 40, S32e 11 9 36]"

definition WindowUnderflow12 :: "winstr list" where
  "WindowUnderflow12 = [L32e 0 13 16, L32e 1 13 12, L32e 2 13 8, L32e 3 13 4,
     L32e 4 9 32, L32e 5 9 28, L32e 6 9 24, L32e 7 9 20,
     L32e 8 5 48, L32e 9 5 44, L32e 10 5 40, L32e 11 5 36]"

text \<open>Spilling four registers below the address in register \<open>b\<close>, and loading them back.\<close>

lemma wrun_append: "wrun (xs @ ys) x = wrun ys (wrun xs x)"
  by (simp add: wrun_def)

lemma take4: "4 \<le> length rs \<Longrightarrow> take 4 rs = [rs ! 0, rs ! 1, rs ! 2, rs ! 3]"
  by (rule nth_equalityI) (auto simp: less_Suc_eq numeral_eq_Suc)

lemma spill4:
  assumes "t + 4 \<le> length rs"
  shows "wrun [S32e t b off, S32e (t + 1) b (off - 4), S32e (t + 2) b (off - 8), S32e (t + 3) b (off - 12)] (rs, m) =
    (rs, store_words (rs ! b - off) (take 4 (drop t rs)) m)"
  using assms by (simp add: wrun_def take4 algebra_simps)

lemma reload4:
  assumes "length rs = 16" "4 \<le> b" "b < 16"
  shows "wrun [L32e 0 b 16, L32e 1 b 12, L32e 2 b 8, L32e 3 b 4] (rs, m) = (load_words 4 (rs ! b - 16) m @ drop 4 rs, m)"
proof -
  from assms have "[load_words 4 (rs ! b - 16) m ! 0, load_words 4 (rs ! b - 16) m ! 1, load_words 4 (rs ! b - 16) m ! 2,
      load_words 4 (rs ! b - 16) m ! 3] = [m (rs ! b - 16), m (rs ! b - 12), m (rs ! b - 8), m (rs ! b - 4)]"
    by (simp add: load_words_def)
  then have l: "load_words 4 (rs ! b - 16) m = [m (rs ! b - 16), m (rs ! b - 12), m (rs ! b - 8), m (rs ! b - 4)]"
    using take4 [of "load_words 4 (rs ! b - 16) m"] by (simp add: load_words_def)
  from assms(1) obtain a0 a1 a2 a3 rest where rs: "rs = a0 # a1 # a2 # a3 # rest" by (auto simp: numeral_eq_Suc length_Suc_conv)
  from assms(2) obtain k where "b = Suc (Suc (Suc (Suc k)))" using le_Suc_ex [OF assms(2)] by (auto simp: numeral_eq_Suc)
  then show ?thesis unfolding l by (simp add: wrun_def rs)
qed

lemma overflow_run:
  assumes "length rs = 16"
  shows "wrun WindowOverflow4 (rs, m) = (rs, store_words (rs ! 9 - 16) (take 4 rs) m)"
    "wrun WindowOverflow8 (rs, m) = (rs, store_words (rs ! 9 - 32) (take 4 (drop 4 rs)) (store_words (rs ! 13 - 16) (take 4 rs) m))"
proof -
  show "wrun WindowOverflow4 (rs, m) = (rs, store_words (rs ! 9 - 16) (take 4 rs) m)"
    using spill4 [of 0 rs 9 16 m] assms by (simp add: WindowOverflow4_def numeral_eq_Suc)
  have s1: "wrun [S32e 0 13 16, S32e 1 13 12, S32e 2 13 8, S32e 3 13 4] (rs, m) = (rs, store_words (rs ! 13 - 16) (take 4 rs) m)"
    using spill4 [of 0 rs 13 16 m] assms by (simp add: numeral_eq_Suc)
  have s2: "wrun [S32e 4 9 32, S32e 5 9 28, S32e 6 9 24, S32e 7 9 20] (rs, x) =
      (rs, store_words (rs ! 9 - 32) (take 4 (drop 4 rs)) x)" for x
    using spill4 [of 4 rs 9 32 x] assms by simp
  have o8: "WindowOverflow8 = [S32e 0 13 16, S32e 1 13 12, S32e 2 13 8, S32e 3 13 4] @ [S32e 4 9 32, S32e 5 9 28, S32e 6 9 24, S32e 7 9 20]"
    by (simp add: WindowOverflow8_def)
  show "wrun WindowOverflow8 (rs, m) =
      (rs, store_words (rs ! 9 - 32) (take 4 (drop 4 rs)) (store_words (rs ! 13 - 16) (take 4 rs) m))"
    unfolding o8 wrun_append s1 s2 ..
qed

text \<open>
  A frame spilled by \<open>WindowOverflow4\<close> (or \<open>WindowOverflow8\<close>) does not come back: the handler saves \<open>a0\<close>-\<open>a3\<close> below the address in \<open>a9\<close>
  (\<open>a13\<close>), the matching underflow handler loads them from below \<open>a5\<close> (\<open>a9\<close>). Unless the two registers happen to hold the same
  address the caller continues with whatever memory held below the latter before the spill, whatever its registers were, for
  save areas that do not overlap; with equal addresses the four-register pair does restore the caller's registers.
\<close>

lemma window_frames_lost:
  assumes "length rs = 16" "length rs' = 16"
  shows "rs' ! 5 = rs ! 9 \<Longrightarrow> take 4 (fst (wrun WindowUnderflow4 (rs', snd (wrun WindowOverflow4 (rs, m))))) = take 4 rs"
    and "apart (rs ! 9 - 16) 16 (rs' ! 5 - 16) 16 \<Longrightarrow>
      take 4 (fst (wrun WindowUnderflow4 (rs', snd (wrun WindowOverflow4 (rs, m))))) = load_words 4 (rs' ! 5 - 16) m"
    and "rs' ! 9 = rs ! 9 \<Longrightarrow> apart (rs ! 13 - 16) 16 (rs' ! 9 - 16) 16 \<Longrightarrow>
      take 4 (fst (wrun WindowUnderflow8 (rs', snd (wrun WindowOverflow8 (rs, m))))) = load_words 4 (rs' ! 9 - 16) m"
proof -
  have u4: "take 4 (fst (wrun WindowUnderflow4 (rs', x))) = load_words 4 (rs' ! 5 - 16) x" for x
    using reload4 [of rs' 5 x] assms(2) by (simp add: WindowUnderflow4_def load_words_def)
  show "take 4 (fst (wrun WindowUnderflow4 (rs', snd (wrun WindowOverflow4 (rs, m))))) = take 4 rs" if "rs' ! 5 = rs ! 9"
    using load_store [of "take 4 rs" "rs ! 9 - 16" m] assms(1) that by (simp add: u4 overflow_run)
  show "take 4 (fst (wrun WindowUnderflow4 (rs', snd (wrun WindowOverflow4 (rs, m))))) = load_words 4 (rs' ! 5 - 16) m"
    if "apart (rs ! 9 - 16) 16 (rs' ! 5 - 16) 16"
    using load_apart [of "rs ! 9 - 16" "take 4 rs" "rs' ! 5 - 16" 4 m] that assms(1) by (simp add: u4 overflow_run)
  have r: "wrun [L32e 0 9 16, L32e 1 9 12, L32e 2 9 8, L32e 3 9 4] (rs', x) = (load_words 4 (rs' ! 9 - 16) x @ drop 4 rs', x)" for x
    using reload4 [of rs' 9 x] assms(2) by simp
  have u: "WindowUnderflow8 = [L32e 0 9 16, L32e 1 9 12, L32e 2 9 8, L32e 3 9 4] @ [L32e 4 5 32, L32e 5 5 28, L32e 6 5 24, L32e 7 5 20]"
    by (simp add: WindowUnderflow8_def)
  have "wrun WindowUnderflow8 (rs', x) =
      wrun [L32e 4 5 32, L32e 5 5 28, L32e 6 5 24, L32e 7 5 20] (load_words 4 (rs' ! 9 - 16) x @ drop 4 rs', x)" for x
    unfolding u wrun_append r ..
  then have u8: "take 4 (fst (wrun WindowUnderflow8 (rs', x))) = load_words 4 (rs' ! 9 - 16) x" for x
    by (simp add: wrun_def load_words_def)
  show "take 4 (fst (wrun WindowUnderflow8 (rs', snd (wrun WindowOverflow8 (rs, m))))) = load_words 4 (rs' ! 9 - 16) m"
    if "rs' ! 9 = rs ! 9" "apart (rs ! 13 - 16) 16 (rs' ! 9 - 16) 16"
  proof -
    have "load_words 4 (rs ! 9 - 16) (store_words (rs ! 9 - 32) (take 4 (drop 4 rs)) x) = load_words 4 (rs ! 9 - 16) x" for x
      using assms(1) by (intro load_store_apart [of _ _ 16]) simp_all
    with load_apart [of "rs ! 13 - 16" "take 4 rs" "rs' ! 9 - 16" 4 m] that assms(1) show ?thesis by (simp add: u8 overflow_run)
  qed
qed

end
