(* ===== verification/PortLocks.thy ===== *)
theory PortLocks
  imports IrqDrv
begin

text \<open>
  The scheduler locks of the ports (\<open>ports/cortex-m/src/nvic_cfg.rs\<close>, \<open>ports/riscv/src/mstatus_cfg.rs\<close>,
  \<open>ports/xtensa/src/intlevel_cfg.rs\<close>, built with their feature \<open>hw\<close>) behind one contract: critical sections nest to any depth. Memory
  barriers have no effect on the model.
\<close>

section \<open>The locks\<close>

definition QK_BASEPRI :: u8 where "QK_BASEPRI = 0x50"

definition cm_qk_lock :: "'s Special \<Rightarrow> ('s, u8) dev" where
  "cm_qk_lock C = dbind (basepri_read C) (\<lambda>prev. dseq (basepri_write C QK_BASEPRI) (dreturn prev))"

definition cm_qk_unlock :: "'s Special \<Rightarrow> u8 \<Rightarrow> ('s, unit) dev" where
  "cm_qk_unlock C prev = basepri_write C prev"

definition rv_qk_lock :: "'s Special \<Rightarrow> ('s, u32) dev" where
  "rv_qk_lock C = csrrc C ''mstatus'' MSTATUS_MIE"

definition rv_qk_unlock :: "'s Special \<Rightarrow> u32 \<Rightarrow> ('s, unit) dev" where
  "rv_qk_unlock C prev =
     (if and prev MSTATUS_MIE \<noteq> 0 then dbind (csrrs C ''mstatus'' MSTATUS_MIE) (\<lambda>_. dreturn ()) else dreturn ())"

definition QK_INTLEVEL :: u32 where "QK_INTLEVEL = 3"

definition xt_qk_lock :: "'s Special \<Rightarrow> ('s, u32) dev" where
  "xt_qk_lock C = rsil C QK_INTLEVEL"

definition xt_qk_unlock :: "'s Special \<Rightarrow> u32 \<Rightarrow> ('s, unit) dev" where
  "xt_qk_unlock C prev = wsr_ps C prev"

section \<open>Critical sections\<close>

text \<open>
  On a conforming processor, whose status register has the value \<open>val\<close>, locking returns a token; unlocking with it in a state with
  the same mask (\<open>view\<close> of the register) gives back the mask of before the lock.
\<close>

locale critical_section =
  fixes conforms :: "('s \<Rightarrow> u32) \<Rightarrow> bool" and lock :: "('s, 'v) dev" and unlock :: "'v \<Rightarrow> ('s, unit) dev" and view :: "u32 \<Rightarrow> 'l"
  assumes bracket: "conforms val \<Longrightarrow> \<exists>prev s'. lock s = Some (Inr prev, s') \<and>
    (\<forall>s''. view (val s'') = view (val s') \<longrightarrow> (\<exists>s3. unlock prev s'' = Some (Inr (), s3) \<and> view (val s3) = view (val s)))"
begin

text \<open>A call inside a section, and sections nested to depth \<open>n\<close>.\<close>

fun nested :: "('s, unit) dev \<Rightarrow> nat \<Rightarrow> ('s, unit) dev" where
  "nested body 0 = body"
| "nested body (Suc n) = dbind lock (\<lambda>prev. dseq (nested body n) (unlock prev))"

lemma nested_restores:
  assumes "conforms val" and body: "\<And>s. \<exists>s'. body s = Some (Inr (), s') \<and> view (val s') = view (val s)"
  shows "\<exists>s'. nested body n s = Some (Inr (), s') \<and> view (val s') = view (val s)"
proof (induction n arbitrary: s)
  case (Suc n)
  from bracket [OF assms(1), of s] obtain prev s1 where l: "lock s = Some (Inr prev, s1)"
    and u: "\<And>s''. view (val s'') = view (val s1) \<Longrightarrow> \<exists>s3. unlock prev s'' = Some (Inr (), s3) \<and> view (val s3) = view (val s)"
    by blast
  from Suc.IH [of s1] obtain s2 where b: "nested body n s1 = Some (Inr (), s2)" "view (val s2) = view (val s1)" by blast
  with u [of s2] show ?case
    by (simp add: dbind_Some(1) [where m = lock, OF l] dseq_Some [where m = "nested body n", OF b(1)])
qed (use body in simp)

end

lemma keepsD:
  assumes "keeps C r val"
  shows "\<exists>s1. sr_read C r s = (val s, s1) \<and> val s1 = val s" "val (sr_write C r v s) = v"
  using assms by (auto simp: keeps_def intro!: exI [of _ "snd (sr_read C r s)"] prod_eqI)

lemma byte_through: "(ucast (ucast (v :: u8) :: u32) :: u8) = v"
  by (rule bit_word_eqI) (simp add: bit_simps)

interpretation cm_section: critical_section "keeps C ''basepri''" "cm_qk_lock C" "cm_qk_unlock C" "\<lambda>v. ucast v :: u8"
  for C :: "'s Special"
proof
  fix val :: "'s \<Rightarrow> u32" and s
  assume k: "keeps C ''basepri'' val"
  from keepsD(1) [OF k, of s] obtain s1 where r: "sr_read C ''basepri'' s = (val s, s1)" by blast
  have "cm_qk_lock C s = Some (Inr (ucast (val s)), sr_write C ''basepri'' (ucast QK_BASEPRI) s1)"
    by (simp add: cm_qk_lock_def basepri_read_def basepri_write_def csrr_def csrw_def dbind_def dseq_def dreturn_def r)
  then show "\<exists>prev s'. cm_qk_lock C s = Some (Inr prev, s') \<and>
      (\<forall>s''. (ucast (val s'') :: u8) = ucast (val s') \<longrightarrow>
        (\<exists>s3. cm_qk_unlock C prev s'' = Some (Inr (), s3) \<and> (ucast (val s3) :: u8) = ucast (val s)))"
    by (simp add: cm_qk_unlock_def basepri_write_def csrw_def keepsD(2) [OF k] byte_through)
qed

interpretation rv_section: critical_section "keeps C ''mstatus''" "rv_qk_lock C" "rv_qk_unlock C" "\<lambda>v. bit v 3"
  for C :: "'s Special"
proof
  fix val :: "'s \<Rightarrow> u32" and s
  assume k: "keeps C ''mstatus'' val"
  from keepsD(1) [OF k, of s] obtain s1 where r: "sr_read C ''mstatus'' s = (val s, s1)" by blast
  let ?s2 = "sr_write C ''mstatus'' (and (val s) (not MSTATUS_MIE)) s1"
  have "rv_qk_lock C s = Some (Inr (val s), ?s2)" by (simp add: rv_qk_lock_def csrrc_def r)
  moreover have "\<not> bit (val ?s2) 3" by (simp add: keepsD(2) [OF k] MSTATUS_MIE_def bit_simps)
  moreover have "\<exists>s3. rv_qk_unlock C (val s) s'' = Some (Inr (), s3) \<and> bit (val s3) 3 = bit (val s) 3" if "\<not> bit (val s'') 3" for s''
  proof -
    from keepsD(1) [OF k, of s''] obtain s4 where "sr_read C ''mstatus'' s'' = (val s'', s4)" by blast
    moreover have "and (val s) MSTATUS_MIE \<noteq> 0 \<longleftrightarrow> bit (val s) 3" unfolding MSTATUS_MIE_def by (rule bit_test(3))
    moreover have "bit (or w MSTATUS_MIE) 3" for w by (simp add: MSTATUS_MIE_def bit_simps)
    ultimately show ?thesis using that
      by (simp add: rv_qk_unlock_def csrrs_def dbind_def dev_done keepsD(2) [OF k])
  qed
  ultimately show "\<exists>prev s'. rv_qk_lock C s = Some (Inr prev, s') \<and>
      (\<forall>s''. bit (val s'') 3 = bit (val s') 3 \<longrightarrow> (\<exists>s3. rv_qk_unlock C prev s'' = Some (Inr (), s3) \<and> bit (val s3) 3 = bit (val s) 3))"
    by auto
qed

interpretation xt_section: critical_section "keeps C ''ps''" "xt_qk_lock C" "xt_qk_unlock C" "\<lambda>v. v"
  for C :: "'s Special"
proof
  fix val :: "'s \<Rightarrow> u32" and s
  assume k: "keeps C ''ps'' val"
  from keepsD(1) [OF k, of s] obtain s1 where r: "sr_read C ''ps'' s = (val s, s1)" by blast
  have "xt_qk_lock C s = Some (Inr (val s), sr_write C ''ps'' (or (and (val s) (not 0xF)) (and QK_INTLEVEL 0xF)) s1)"
    by (simp add: xt_qk_lock_def rsil_def csrr_def csrw_def dbind_def dseq_def dreturn_def r)
  then show "\<exists>prev s'. xt_qk_lock C s = Some (Inr prev, s') \<and>
      (\<forall>s''. val s'' = val s' \<longrightarrow> (\<exists>s3. xt_qk_unlock C prev s'' = Some (Inr (), s3) \<and> val s3 = val s))"
    by (simp add: xt_qk_unlock_def wsr_ps_def csrw_def keepsD(2) [OF k])
qed

section \<open>A lock may unmask\<close>

text \<open>
  The Cortex-M and the Xtensa lock set their level whatever the level was: taken by code that already runs at a more restrictive
  level (a lower non-zero \<open>BASEPRI\<close>, a higher interrupt level), the lock lets interrupts in that were masked.
\<close>

lemma lock_sets_level:
  "keeps C ''basepri'' val \<Longrightarrow> \<exists>prev s'. cm_qk_lock C s = Some (Inr prev, s') \<and> val s' = 0x50"
  "keeps C ''ps'' val \<Longrightarrow> \<exists>prev s'. xt_qk_lock C s = Some (Inr prev, s') \<and> and (val s') 0xF = 3"
proof -
  assume k: "keeps C ''basepri'' val"
  from keepsD(1) [OF k, of s] obtain s1 where "sr_read C ''basepri'' s = (val s, s1)" by blast
  then show "\<exists>prev s'. cm_qk_lock C s = Some (Inr prev, s') \<and> val s' = 0x50"
    by (simp add: cm_qk_lock_def basepri_read_def basepri_write_def csrr_def csrw_def dbind_def dseq_def dreturn_def
        keepsD(2) [OF k] QK_BASEPRI_def)
next
  assume k: "keeps C ''ps'' val"
  from keepsD(1) [OF k, of s] obtain s1 where "sr_read C ''ps'' s = (val s, s1)" by blast
  moreover have "and (or (and v (not 0xF)) (and 3 0xF)) 0xF = (3 :: u32)" for v
    by (simp add: bit.conj_disj_distrib2 and.assoc)
  ultimately show "\<exists>prev s'. xt_qk_lock C s = Some (Inr prev, s') \<and> and (val s') 0xF = 3"
    by (simp add: xt_qk_lock_def rsil_def csrr_def csrw_def dbind_def dseq_def dreturn_def keepsD(2) [OF k] QK_INTLEVEL_def)
qed

text \<open>Sections on the three ports, nested to any depth around calls that keep the mask, return and leave the mask as it was.\<close>

lemma port_sections_nest:
  "keeps C ''basepri'' val \<Longrightarrow> (\<And>s. \<exists>s'. body s = Some (Inr (), s') \<and> (ucast (val s') :: u8) = ucast (val s)) \<Longrightarrow>
    \<exists>s'. cm_section.nested C body n s = Some (Inr (), s') \<and> (ucast (val s') :: u8) = ucast (val s)"
  "keeps C ''mstatus'' val \<Longrightarrow> (\<And>s. \<exists>s'. body s = Some (Inr (), s') \<and> bit (val s') 3 = bit (val s) 3) \<Longrightarrow>
    \<exists>s'. rv_section.nested C body n s = Some (Inr (), s') \<and> bit (val s') 3 = bit (val s) 3"
  "keeps C ''ps'' val \<Longrightarrow> (\<And>s. \<exists>s'. body s = Some (Inr (), s') \<and> val s' = val s) \<Longrightarrow>
    \<exists>s'. xt_section.nested C body n s = Some (Inr (), s') \<and> val s' = val s"
  by (rule cm_section.nested_restores rv_section.nested_restores xt_section.nested_restores; assumption)+

end
