(* ===== verification/PortRuntime.thy ===== *)
theory PortRuntime
  imports TimeEvt IrqDrv TimerDrv
begin

text \<open>
  What the ports put around the kernels: the interrupt controller, system timer and configuration of the ESP32 boards
  (\<open>interrupts.rs\<close>, \<open>timer.rs\<close>, \<open>lib.rs\<close> of \<open>ports/esp32-c6\<close> and \<open>ports/esp32-s3\<close>, feature \<open>rt\<close>), and the runtimes that own a kernel and its timer wheel
  (\<open>runtime.rs\<close> of the boards, \<open>lib.rs\<close> of \<open>ports/posix\<close>, \<open>ports/cortex-m\<close> and \<open>ports/riscv\<close>).
\<close>

section \<open>The boards\<close>

record InterruptController =
  ic_scheduler_locked :: bool

definition InterruptController_new :: InterruptController where
  "InterruptController_new = \<lparr>ic_scheduler_locked = False\<rparr>"

text \<open>The lock is taken by a swap and must not be held already; dropping the guard stores \<open>false\<close>.\<close>

definition InterruptController_lock_scheduler :: "InterruptController \<Rightarrow> InterruptController result" where
  "InterruptController_lock_scheduler ic =
     rbind (ensure Panic (\<not> ic_scheduler_locked ic)) (\<lambda>_. Inr (ic\<lparr>ic_scheduler_locked := True\<rparr>))"

definition SchedulerGuard_drop :: "InterruptController \<Rightarrow> InterruptController" where
  "SchedulerGuard_drop ic = ic\<lparr>ic_scheduler_locked := False\<rparr>"

record Esp32Port =
  ep_interrupts :: InterruptController
  ep_tick_hz :: u32

definition Esp32Port_new :: Esp32Port where
  "Esp32Port_new = \<lparr>ep_interrupts = InterruptController_new, ep_tick_hz = 0\<rparr>"

record PortConfig =
  pc_enable_trace :: bool
  pc_tick_hz :: u32

definition PortConfig_new :: PortConfig where
  "PortConfig_new = \<lparr>pc_enable_trace = True, pc_tick_hz = 1000\<rparr>"

text \<open>\<open>let _ = call;\<close> drops an error and lets a panic through.\<close>

definition ignore_err :: "('s, 'a) dev \<Rightarrow> ('s, unit) dev" where
  "ignore_err m s = (case m s of
       None \<Rightarrow> None
     | Some (Inl (Abort f), s') \<Rightarrow> Some (Inl (Abort f), s')
     | Some (_, s') \<Rightarrow> Some (Inr (), s'))"

definition c6_configure_priorities :: "'s Mmio \<Rightarrow> ('s, unit) dev" where
  "c6_configure_priorities M = ignore_err (PlicController_set_priority M \<lparr>pl_base = 0x20400000, pl_context = 0\<rparr> 7 1)"

definition s3_configure_priorities :: "'s Special \<Rightarrow> ('s, unit) dev" where
  "s3_configure_priorities C = ignore_err (IntenableController_enable_interrupt C 6)"

text \<open>The period in microseconds; the division panics on zero.\<close>

definition tick_period_us :: "u32 \<Rightarrow> ('s, u64) dev" where
  "tick_period_us tick_hz = (if tick_hz = 0 then dstop (Abort Panic) else dreturn (1000000 div ucast tick_hz))"

definition c6_configure_periodic :: "'s Mmio \<Rightarrow> u32 \<Rightarrow> ('s, unit) dev" where
  "c6_configure_periodic M tick_hz =
     dbind (tick_period_us tick_hz) (\<lambda>period_us.
       ignore_err (ClintTimer_start M period_us Periodic (ClintTimer_new 0x20000000 40000000)))"

definition s3_configure_periodic :: "'s Special \<Rightarrow> u32 \<Rightarrow> ('s, unit) dev" where
  "s3_configure_periodic C tick_hz =
     dbind (tick_period_us tick_hz) (\<lambda>period_us.
       ignore_err (CcompareTimer_start C period_us Periodic (CcompareTimer_new 240)))"

definition Esp32Port_init_system_timer :: "(u32 \<Rightarrow> ('s, unit) dev) \<Rightarrow> u32 \<Rightarrow> Esp32Port \<Rightarrow> ('s, Esp32Port) dev" where
  "Esp32Port_init_system_timer configure_periodic tick_hz port =
     dseq (configure_periodic tick_hz) (dreturn (port\<lparr>ep_tick_hz := tick_hz\<rparr>))"

definition Esp32C6Port_init_system_timer :: "'s Mmio \<Rightarrow> u32 \<Rightarrow> Esp32Port \<Rightarrow> ('s, Esp32Port) dev" where
  "Esp32C6Port_init_system_timer M = Esp32Port_init_system_timer (c6_configure_periodic M)"

definition Esp32S3Port_init_system_timer :: "'s Special \<Rightarrow> u32 \<Rightarrow> Esp32Port \<Rightarrow> ('s, Esp32Port) dev" where
  "Esp32S3Port_init_system_timer C = Esp32Port_init_system_timer (s3_configure_periodic C)"

section \<open>Runtimes\<close>

text \<open>The time events registered with the wheel live in a store.\<close>

record ('p, 'b) QkRuntime =
  rt_kernel :: "('p, 'b) QkKernel"
  rt_timers :: TimerWheel
  rt_events :: "nat \<Rightarrow> TimeEvent"

definition QkRuntime_new :: "(nat \<Rightarrow> TimeEvent) \<Rightarrow> ('p, 'b) QkKernel \<Rightarrow> ('p, 'b) QkRuntime" where
  "QkRuntime_new st k =
     \<lparr>rt_kernel = k, rt_timers = QkTimerWheel_new (sc_trace (qk_sched k) \<noteq> None), rt_events = st\<rparr>"

definition QkRuntime_with_builder ::
    "nat \<Rightarrow> ('p, 'b) QkBehavior \<Rightarrow> (nat \<Rightarrow> TimeEvent) \<Rightarrow> ('p, 'b) QkKernelBuilder \<Rightarrow>
     (QkKernelError + ('p, 'b) QkRuntime) result option" where
  "QkRuntime_with_builder n bh st b =
     (case QkKernelBuilder_build b of
        Inl f \<Rightarrow> Some (Inl f)
      | Inr (Inl e) \<Rightarrow> Some (Inr (Inl e))
      | Inr (Inr k) \<Rightarrow> orbind (QkKernel_start n bh k) (\<lambda>k'. Some (Inr (Inr (QkRuntime_new st k')))))"

definition PosixQkRuntime_with_port ::
    "nat \<Rightarrow> ('p, 'b) QkBehavior \<Rightarrow> (nat \<Rightarrow> TimeEvent) \<Rightarrow> ('p, 'b) QkKernelBuilder \<Rightarrow>
     (QkKernelError + ('p, 'b) QkRuntime) result option" where
  "PosixQkRuntime_with_port n bh st b = QkRuntime_with_builder n bh st (QkKernelBuilder_with_trace_hook b)"

definition QkRuntime_register_time_event :: "nat \<Rightarrow> ('p, 'b) QkRuntime \<Rightarrow> ('p, 'b) QkRuntime" where
  "QkRuntime_register_time_event x rt =
     (let (st, w) = TimerWheel_register x (rt_events rt) (rt_timers rt) in rt\<lparr>rt_events := st, rt_timers := w\<rparr>)"

definition QkRuntime_tick ::
    "nat \<Rightarrow> ('p, 'b) QkBehavior \<Rightarrow> 'p \<Rightarrow> ('p, 'b) QkRuntime \<Rightarrow> ((QkKernelError + unit) \<times> ('p, 'b) QkRuntime) result option" where
  "QkRuntime_tick n bh pl rt =
     orbind (QkTimerWheel_tick_rate n bh pl 0 (rt_timers rt) (rt_events rt) (rt_kernel rt)) (\<lambda>(r, st, k).
       Some (Inr (r, rt\<lparr>rt_events := st, rt_kernel := k\<rparr>)))"

definition QkRuntime_tick_from_isr ::
    "u8 \<Rightarrow> nat \<Rightarrow> ('p, 'b) QkBehavior \<Rightarrow> 'p \<Rightarrow> ('p, 'b) QkRuntime \<Rightarrow> ((QkKernelError + unit) \<times> ('p, 'b) QkRuntime) result option" where
  "QkRuntime_tick_from_isr nesting n bh pl rt =
     orbind (Some (ensure Panic (in_isr nesting))) (\<lambda>_. QkRuntime_tick n bh pl rt)"

definition QkRuntime_run_until_idle ::
    "nat \<Rightarrow> ('p, 'b) QkBehavior \<Rightarrow> ('p, 'b) QkRuntime \<Rightarrow> ('p, 'b) QkRuntime result option" where
  "QkRuntime_run_until_idle n bh rt =
     orbind (QkKernel_run_until_idle n bh (rt_kernel rt)) (\<lambda>k. Some (Inr (rt\<lparr>rt_kernel := k\<rparr>)))"

definition QkRuntime_has_pending_work :: "('p, 'b) QkRuntime \<Rightarrow> bool" where
  "QkRuntime_has_pending_work rt = QkKernel_has_pending_work (rt_kernel rt)"

record ('p, 'b) QfRuntime =
  qf_kernel :: "('p, 'b) QvKernel"
  qf_timers :: TimerWheel
  qf_events :: "nat \<Rightarrow> TimeEvent"

definition QfRuntime_new :: "u8 \<Rightarrow> (nat \<Rightarrow> TimeEvent) \<Rightarrow> ('p, 'b) QvKernel \<Rightarrow> ('p, 'b) QfRuntime" where
  "QfRuntime_new max_tick_rate st k =
     \<lparr>qf_kernel = k, qf_timers = TimerWheel_new max_tick_rate (k_trace k \<noteq> None), qf_events = st\<rparr>"

definition QfRuntime_tick ::
    "'p \<Rightarrow> ('p, 'b) QfRuntime \<Rightarrow> ((KernelError + unit) \<times> ('p, 'b) QfRuntime) result option" where
  "QfRuntime_tick pl rt =
     orbind (TimerWheel_tick pl (qf_timers rt) (qf_events rt) (qf_kernel rt)) (\<lambda>(r, st, k).
       Some (Inr (r, rt\<lparr>qf_events := st, qf_kernel := k\<rparr>)))"

definition QfRuntime_run_until_idle ::
    "('p, 'b) QvBehavior \<Rightarrow> ('p, 'b) QfRuntime \<Rightarrow> ('p, 'b) QfRuntime result option" where
  "QfRuntime_run_until_idle bh rt =
     orbind (QvKernel_run_until_idle bh (qf_kernel rt)) (\<lambda>k. Some (Inr (rt\<lparr>qf_kernel := k\<rparr>)))"

definition QfRuntime_start :: "('p, 'b) QvBehavior \<Rightarrow> ('p, 'b) QfRuntime \<Rightarrow> ('p, 'b) QfRuntime result" where
  "QfRuntime_start bh rt = rbind (QvKernel_start bh (qf_kernel rt)) (\<lambda>k. Inr (rt\<lparr>qf_kernel := k\<rparr>))"

definition QfRuntime_register_time_event :: "nat \<Rightarrow> ('p, 'b) QfRuntime \<Rightarrow> ('p, 'b) QfRuntime" where
  "QfRuntime_register_time_event x rt =
     (let (st, w) = TimerWheel_register x (qf_events rt) (qf_timers rt) in rt\<lparr>qf_events := st, qf_timers := w\<rparr>)"

definition QfRuntime_tick_from_isr ::
    "u8 \<Rightarrow> 'p \<Rightarrow> ('p, 'b) QfRuntime \<Rightarrow> ((KernelError + unit) \<times> ('p, 'b) QfRuntime) result option" where
  "QfRuntime_tick_from_isr nesting pl rt = orbind (Some (ensure Panic (in_isr nesting))) (\<lambda>_. QfRuntime_tick pl rt)"

definition QfRuntime_has_pending_work :: "('p, 'b) QfRuntime \<Rightarrow> bool" where
  "QfRuntime_has_pending_work rt = QvKernel_has_pending_work (qf_kernel rt)"

definition QkRuntime_start ::
    "nat \<Rightarrow> ('p, 'b) QkBehavior \<Rightarrow> ('p, 'b) QkRuntime \<Rightarrow> ('p, 'b) QkRuntime result option" where
  "QkRuntime_start n bh rt =
     orbind (QkKernel_start n bh (rt_kernel rt)) (\<lambda>k. Some (Inr (rt\<lparr>rt_kernel := k\<rparr>)))"

text \<open>The boards' runtimes initialise the port first: interrupts, then the timer.\<close>

definition Esp32C6QkRuntime_new ::
    "'s Mmio \<Rightarrow> (nat \<Rightarrow> TimeEvent) \<Rightarrow> ('p, 'b) QkKernel \<Rightarrow> Esp32Port \<Rightarrow> PortConfig \<Rightarrow>
     ('s, ('p, 'b) QkRuntime \<times> Esp32Port \<times> PortConfig) dev" where
  "Esp32C6QkRuntime_new M st k port config =
     dseq (c6_configure_priorities M) (dbind (Esp32C6Port_init_system_timer M (pc_tick_hz config) port) (\<lambda>port'.
       dreturn (QkRuntime_new st k, port', config)))"

definition Esp32S3QkRuntime_new ::
    "'s Special \<Rightarrow> (nat \<Rightarrow> TimeEvent) \<Rightarrow> ('p, 'b) QkKernel \<Rightarrow> Esp32Port \<Rightarrow> PortConfig \<Rightarrow>
     ('s, ('p, 'b) QkRuntime \<times> Esp32Port \<times> PortConfig) dev" where
  "Esp32S3QkRuntime_new C st k port config =
     dseq (s3_configure_priorities C) (dbind (Esp32S3Port_init_system_timer C (pc_tick_hz config) port) (\<lambda>port'.
       dreturn (QkRuntime_new st k, port', config)))"

section \<open>The tick of the boards\<close>

text \<open>A timer that stands at \<open>now\<close> while it is programmed.\<close>

definition clint_time :: "'s Mmio \<Rightarrow> u64 \<Rightarrow> bool" where
  "clint_time M now \<longleftrightarrow> (\<forall>s. io_read M 0x2000BFF8 s = (ucast now, s) \<and> io_read M 0x2000BFFC s = (ucast (drop_bit 32 now), s))"

abbreviation c6_timer :: ClintTimer where
  "c6_timer \<equiv> ClintTimer_new 0x20000000 40000000"

lemma set_mtimecmp_value:
  assumes "clint_cmp M t cmp"
  shows "\<exists>s'. ClintTimer_set_mtimecmp M t val s = Some (Inr (), s') \<and> cmp s' = val"
proof -
  have "cmp (last (mtimecmp_steps M t val s)) = val"
    using assms by (simp add: mtimecmp_steps_def Let_def clint_cmp_def) (rule bit_word_eqI, auto simp: bit_simps)
  then show ?thesis using set_mtimecmp_run [of M t val s] by blast
qed

lemma period_value:
  fixes hz :: u32
  assumes "hz \<noteq> 0"
  shows "unat (1000000 div ucast hz :: u64) = 1000000 div unat hz"
  by (simp add: unat_div unsigned_ucast_eq take_bit_nat_eq_self order.strict_trans [OF unsigned_less])

lemma clint_mtime_now:
  assumes "clint_time M now"
  shows "ClintTimer_mtime M (c6_timer\<lparr>cl_period_cy := c, cl_periodic := b\<rparr>) s = Some (Inr now, s)"
proof -
  have "or (push_bit 32 (ucast (ucast (drop_bit 32 now) :: u32))) (ucast (ucast now :: u32)) = now"
    unfolding halves by (rule join_halves)
  then show ?thesis using assms by (simp add: ClintTimer_mtime_def ClintTimer_new_def clint_time_def dev_eval)
qed

lemma c6_start_run:
  fixes M :: "'s Mmio"
  assumes "unat p \<le> 1000000"
  shows "\<exists>cy. unat cy = 40 * unat p \<and> ClintTimer_start M p Periodic c6_timer s =
    (if p = 0 then Some (Inl (Err InvalidParameter), s)
     else let t = c6_timer\<lparr>cl_period_cy := cy, cl_periodic := True\<rparr> in
       dbind (ClintTimer_mtime M t) (\<lambda>now. dbind (add64 now cy) (\<lambda>v. dseq (ClintTimer_set_mtimecmp M t v) (dreturn t))) s)"
proof -
  let ?cy = "p * 40000000 div 1000000 :: u64"
  have b: "unat p * 40000000 < 2 ^ 64" using assms by simp
  then have "unat (p * 40000000) = unat p * 40000000" by (simp add: unat_mult_lem [THEN iffD1])
  then have u: "unat ?cy = 40 * unat p" by (simp add: unat_div)
  then have z: "?cy = 0 \<longleftrightarrow> p = 0" by (simp add: unat_eq_zero [symmetric])
  have "(mul64 p (cl_hz c6_timer) :: ('s, u64) dev) = dreturn (p * 40000000)"
    using b by (simp add: mul64_def ClintTimer_new_def)
  note m = this
  show ?thesis using u z unfolding ClintTimer_start_def m dev_run
    by (intro exI [of _ ?cy]) (simp add: Let_def dev_done)
qed

text \<open>
  The tick of the ESP32-C6: for a rate of at most one million ticks a second the first deadline is exactly the requested number of
  whole microseconds away; a rate of zero panics; for a higher rate the timer refuses the period of zero, the error is dropped,
  and no tick is ever programmed although the port reports the rate.
\<close>

lemma c6_tick_deadline:
  fixes M :: "'s Mmio"
  assumes hw: "clint_cmp M c6_timer cmp" "clint_time M now"
  shows "c6_configure_periodic M 0 s = Some (Inl (Abort Panic), s)"
    and "hz \<noteq> 0 \<Longrightarrow> unat hz \<le> 1000000 \<Longrightarrow> unat now + 40 * (1000000 div unat hz) < 2 ^ 64 \<Longrightarrow>
      \<exists>s'. c6_configure_periodic M hz s = Some (Inr (), s') \<and> unat (cmp s') = unat now + 40 * (1000000 div unat hz)"
    and "1000000 < unat hz \<Longrightarrow>
      Esp32C6Port_init_system_timer M hz port s = Some (Inr (port\<lparr>ep_tick_hz := hz\<rparr>), s)"
proof -
  show "c6_configure_periodic M 0 s = Some (Inl (Abort Panic), s)"
    by (simp add: c6_configure_periodic_def tick_period_us_def dev_eval)
  let ?p = "1000000 div ucast hz :: u64"
  have run: "c6_configure_periodic M hz s = ignore_err (ClintTimer_start M ?p Periodic c6_timer) s" if "hz \<noteq> 0"
    using that by (simp add: c6_configure_periodic_def tick_period_us_def)
  show "\<exists>s'. c6_configure_periodic M hz s = Some (Inr (), s') \<and> unat (cmp s') = unat now + 40 * (1000000 div unat hz)"
    if h: "hz \<noteq> 0" "unat hz \<le> 1000000" "unat now + 40 * (1000000 div unat hz) < 2 ^ 64"
  proof -
    have q: "0 < 1000000 div unat hz" using h(1,2) by (simp add: div_greater_zero_iff unat_gt_0)
    then have p: "?p \<noteq> 0" using period_value [OF h(1)] by (auto simp: unat_eq_zero [symmetric])
    obtain cy where cy: "unat cy = 40 * unat ?p" and st: "ClintTimer_start M ?p Periodic c6_timer s =
       (let t = c6_timer\<lparr>cl_period_cy := cy, cl_periodic := True\<rparr> in
       dbind (ClintTimer_mtime M t) (\<lambda>now. dbind (add64 now cy) (\<lambda>v. dseq (ClintTimer_set_mtimecmp M t v) (dreturn t))) s)"
      using c6_start_run [of ?p M s] p period_value [OF h(1)] by auto
    let ?t = "c6_timer\<lparr>cl_period_cy := cy, cl_periodic := True\<rparr>"
    have fit: "unat now + unat cy < 2 ^ 64" using h(3) by (simp add: cy period_value [OF h(1)])
    then have add: "(add64 now cy :: ('s, u64) dev) = dreturn (now + cy)" by (simp add: add64_def)
    have "clint_cmp M ?t cmp" using hw(1) by (simp add: clint_cmp_def ClintTimer_new_def)
    from set_mtimecmp_value [OF this, of "now + cy" s] obtain s' where
      s': "ClintTimer_set_mtimecmp M ?t (now + cy) s = Some (Inr (), s')" "cmp s' = now + cy" by blast
    have "ClintTimer_start M ?p Periodic c6_timer s = Some (Inr ?t, s')"
      unfolding st Let_def dbind_Some(1) [where m = "ClintTimer_mtime M ?t", OF clint_mtime_now [OF hw(2)]] add dev_run
        dseq_Some [where m = "ClintTimer_set_mtimecmp M ?t (now + cy)", OF s'(1)] by (rule dev_done)
    then have "c6_configure_periodic M hz s = Some (Inr (), s')" using run [OF h(1)] by (simp add: ignore_err_def)
    moreover have "unat (now + cy) = unat now + unat cy" using fit by (simp add: unat_add_lem [THEN iffD1])
    ultimately show ?thesis using s'(2) cy period_value [OF h(1)] by simp
  qed
  show "Esp32C6Port_init_system_timer M hz port s = Some (Inr (port\<lparr>ep_tick_hz := hz\<rparr>), s)" if h: "1000000 < unat hz"
  proof -
    have z: "hz \<noteq> 0" using h by auto
    have "unat ?p = 0" using period_value [OF z] h by simp
    then have p: "?p = 0" by (simp add: unat_eq_zero)
    then have "ClintTimer_start M ?p Periodic c6_timer s = Some (Inl (Err InvalidParameter), s)"
      using c6_start_run [of ?p M s] by auto
    with run [OF z] have "c6_configure_periodic M hz s = Some (Inr (), s)" by (simp add: ignore_err_def)
    then show ?thesis
      by (simp add: Esp32C6Port_init_system_timer_def Esp32Port_init_system_timer_def dseq_Some [where m = "c6_configure_periodic M hz"] dev_done)
  qed
qed

text \<open>
  The start-up of the ESP32-C6 sets the priority of the timer interrupt and nothing else: it is not enabled, contrary to the
  comment.
\<close>

lemma c6_priorities_only: "c6_configure_priorities M s = Some (Inr (), io_write M 0x2040001C 1 s)"
  by (simp add: c6_configure_priorities_def ignore_err_def PlicController_set_priority_def plic_bad_def
      PlicController_priority_reg_def dev_eval)

text \<open>
  A board with the default configuration starts with its first tick 40000 timer cycles, one millisecond, away, and reports the
  configured rate.
\<close>

lemma Esp32C6QkRuntime_new_default:
  assumes "clint_cmp M c6_timer cmp" "clint_time M now" "unat now + 40000 < 2 ^ 64"
  shows "\<exists>s'. Esp32C6QkRuntime_new M st k Esp32Port_new PortConfig_new s =
      Some (Inr (QkRuntime_new st k, Esp32Port_new\<lparr>ep_tick_hz := 1000\<rparr>, PortConfig_new), s') \<and> unat (cmp s') = unat now + 40000"
proof -
  from c6_tick_deadline(2) [OF assms(1,2), of 1000] assms(3) obtain s' where
    c: "c6_configure_periodic M 1000 (io_write M 0x2040001C 1 s) = Some (Inr (), s')" "unat (cmp s') = unat now + 40000" by force
  have "Esp32C6Port_init_system_timer M 1000 Esp32Port_new (io_write M 0x2040001C 1 s) =
      Some (Inr (Esp32Port_new\<lparr>ep_tick_hz := 1000\<rparr>), s')"
    by (simp add: Esp32C6Port_init_system_timer_def Esp32Port_init_system_timer_def dseq_Some [where m = "c6_configure_periodic M 1000", OF c(1)] dev_done)
  note i = dbind_Some(1) [where m = "Esp32C6Port_init_system_timer M 1000 Esp32Port_new", OF this]
  have "Esp32C6QkRuntime_new M st k Esp32Port_new PortConfig_new s =
      Some (Inr (QkRuntime_new st k, Esp32Port_new\<lparr>ep_tick_hz := 1000\<rparr>, PortConfig_new), s')"
    by (simp add: Esp32C6QkRuntime_new_def PortConfig_new_def dseq_Some [where m = "c6_configure_priorities M", OF c6_priorities_only] i dev_done)
  with c(2) show ?thesis by blast
qed

section \<open>The tick of a runtime\<close>

text \<open>
  A tick of a runtime on a well-formed kernel whose time events aim at registered objects, if its handlers come to an end, reports
  success, has polled every registered event once and leaves the kernel well-formed.
\<close>

lemma QkRuntime_tick_ok:
  assumes "qk_ok bh (rt_kernel rt)" "tw_events (rt_timers rt) = xs # rates"
    "\<forall>(t, s)\<in>set (expired xs (rt_events rt)). qk_id_to_prio (rt_kernel rt) t \<noteq> None"
    "QkRuntime_tick n bh pl rt = Some res"
  shows "\<exists>rt'. res = Inr (Inr (), rt') \<and> rt_events rt' = poll_all xs (rt_events rt) \<and> qk_ok bh (rt_kernel rt') \<and> rt_timers rt' = rt_timers rt"
proof -
  let ?w = "tick_bucket (QkKernel_post_and_run n bh) qk_log pl xs (rt_events rt) (rt_kernel rt)"
  have w: "QkTimerWheel_tick_rate n bh pl 0 (rt_timers rt) (rt_events rt) (rt_kernel rt) = ?w"
    using assms(2) by (simp add: QkTimerWheel_tick_rate_def)
  with assms(4) obtain r where r: "?w = Some r" by (cases ?w) (auto simp: QkRuntime_tick_def orbind_def)
  from qkw.tick_all [OF assms(1) assms(3) r] obtain k' where
    k': "r = Inr (Inr (), poll_all xs (rt_events rt), k')" "qk_ok bh k'" by blast
  with assms(4) w r show ?thesis by (auto simp: QkRuntime_tick_def)
qed

end
