(* ===== verification/PosixPort.thy ===== *)
theory PosixPort
  imports InterpSpec
begin

text \<open>
  The trace side of the POSIX port (\<open>ports/posix/src/lib.rs\<close>): a tracer over one of three transports, and the records that announce the
  names of objects, functions, signals and user records to the host. The transport is the operation that sends a frame.
\<close>

section \<open>The port\<close>

datatype 'b BackendHandle = Stdout "'b Tracer" | Tcp "'b Tracer" | Udp "'b Tracer"

record 'b PosixPort =
  pp_backend :: "'b BackendHandle"

definition PosixPort_new :: "'b \<Rightarrow> 'b PosixPort" where
  "PosixPort_new b = \<lparr>pp_backend = Stdout (Tracer_new QsConfig_default b)\<rparr>"

definition PosixPort_connect :: "'b option \<Rightarrow> 'b PosixPort option" where
  "PosixPort_connect conn = map_option (\<lambda>b. \<lparr>pp_backend = Tcp (Tracer_new QsConfig_default b)\<rparr>) conn"

definition PosixPort_connect_udp :: "'b option \<Rightarrow> 'b PosixPort option" where
  "PosixPort_connect_udp conn = map_option (\<lambda>b. \<lparr>pp_backend = Udp (Tracer_new QsConfig_default b)\<rparr>) conn"

fun handle_tracer :: "'b BackendHandle \<Rightarrow> 'b Tracer" where
  "handle_tracer (Stdout t) = t"
| "handle_tracer (Tcp t) = t"
| "handle_tracer (Udp t) = t"

fun handle_set :: "'b Tracer \<Rightarrow> 'b BackendHandle \<Rightarrow> 'b BackendHandle" where
  "handle_set t (Stdout _) = Stdout t"
| "handle_set t (Tcp _) = Tcp t"
| "handle_set t (Udp _) = Udp t"

definition PosixPort_emit_record ::
    "(u8 list \<Rightarrow> 'b \<Rightarrow> bool \<times> 'b) \<Rightarrow> nat \<Rightarrow> u8 \<Rightarrow> u8 list \<Rightarrow> bool \<Rightarrow> 'b PosixPort \<Rightarrow> (TraceError + unit) \<times> 'b PosixPort" where
  "PosixPort_emit_record wr us record_type payload with_timestamp port =
     (let (r, t) = Tracer_record wr us record_type payload with_timestamp (handle_tracer (pp_backend port))
      in (case r of Inl e \<Rightarrow> Inl e | Inr _ \<Rightarrow> Inr (), port\<lparr>pp_backend := handle_set t (pp_backend port)\<rparr>))"

definition PosixPort_emit_dictionary ::
    "(u8 list \<Rightarrow> 'b \<Rightarrow> bool \<times> 'b) \<Rightarrow> nat \<Rightarrow> u8 \<Rightarrow> u8 list \<Rightarrow> 'b PosixPort \<Rightarrow> (TraceError + unit) \<times> 'b PosixPort" where
  "PosixPort_emit_dictionary wr us record_type payload = PosixPort_emit_record wr us record_type payload False"

definition PosixPort_emit_target_info ::
    "(u8 list \<Rightarrow> 'b \<Rightarrow> bool \<times> 'b) \<Rightarrow> nat \<Rightarrow> TargetInfo \<Rightarrow> 'b PosixPort \<Rightarrow> (TraceError + unit) \<times> 'b PosixPort" where
  "PosixPort_emit_target_info wr us info = PosixPort_emit_dictionary wr us TARGET_INFO (target_info_payload info)"

definition PosixPort_emit_obj_dict ::
    "(u8 list \<Rightarrow> 'b \<Rightarrow> bool \<times> 'b) \<Rightarrow> nat \<Rightarrow> u64 \<Rightarrow> u8 list \<Rightarrow> 'b PosixPort \<Rightarrow> (TraceError + unit) \<times> 'b PosixPort" where
  "PosixPort_emit_obj_dict wr us address name = PosixPort_emit_dictionary wr us OBJ_DICT (obj_dict_payload address name)"

definition PosixPort_emit_fun_dict ::
    "(u8 list \<Rightarrow> 'b \<Rightarrow> bool \<times> 'b) \<Rightarrow> nat \<Rightarrow> u64 \<Rightarrow> u8 list \<Rightarrow> 'b PosixPort \<Rightarrow> (TraceError + unit) \<times> 'b PosixPort" where
  "PosixPort_emit_fun_dict wr us address name = PosixPort_emit_dictionary wr us FUN_DICT (fun_dict_payload address name)"

definition PosixPort_emit_usr_dict ::
    "(u8 list \<Rightarrow> 'b \<Rightarrow> bool \<times> 'b) \<Rightarrow> nat \<Rightarrow> u8 \<Rightarrow> u8 list \<Rightarrow> 'b PosixPort \<Rightarrow> (TraceError + unit) \<times> 'b PosixPort" where
  "PosixPort_emit_usr_dict wr us record_id name = PosixPort_emit_dictionary wr us USR_DICT (usr_dict_payload record_id name)"

definition PosixPort_emit_sig_dict ::
    "(u8 list \<Rightarrow> 'b \<Rightarrow> bool \<times> 'b) \<Rightarrow> nat \<Rightarrow> u16 \<Rightarrow> u64 \<Rightarrow> u8 list \<Rightarrow> 'b PosixPort \<Rightarrow> (TraceError + unit) \<times> 'b PosixPort" where
  "PosixPort_emit_sig_dict wr us sig object name = PosixPort_emit_dictionary wr us SIG_DICT (sig_dict_payload sig object name)"

definition PosixPort_set_filter :: "GlbFilter \<Rightarrow> 'b PosixPort \<Rightarrow> 'b PosixPort" where
  "PosixPort_set_filter g port =
     port\<lparr>pp_backend := handle_set (Tracer_set_filter g (handle_tracer (pp_backend port))) (pp_backend port)\<rparr>"

section \<open>Announcements\<close>

text \<open>An application announces names; each announcement is one record, and what the host learns from it.\<close>

datatype announcement = AObj u64 "u8 list" | AFun u64 "u8 list" | AUsr u8 "u8 list" | ASig u16 u64 "u8 list"

fun announce :: "(u8 list \<Rightarrow> 'b \<Rightarrow> bool \<times> 'b) \<Rightarrow> nat \<Rightarrow> announcement \<Rightarrow> 'b PosixPort \<Rightarrow> 'b PosixPort" where
  "announce wr us (AObj a n) port = snd (PosixPort_emit_obj_dict wr us a n port)"
| "announce wr us (AFun a n) port = snd (PosixPort_emit_fun_dict wr us a n port)"
| "announce wr us (AUsr r n) port = snd (PosixPort_emit_usr_dict wr us r n port)"
| "announce wr us (ASig s a n) port = snd (PosixPort_emit_sig_dict wr us s a n port)"

fun ann_name :: "announcement \<Rightarrow> u8 list" where
  "ann_name (AObj _ n) = n" | "ann_name (AFun _ n) = n" | "ann_name (AUsr _ n) = n" | "ann_name (ASig _ _ n) = n"

fun ann_record :: "announcement \<Rightarrow> u8 \<times> u8 list" where
  "ann_record (AObj a n) = (OBJ_DICT, obj_dict_payload a n)"
| "ann_record (AFun a n) = (FUN_DICT, fun_dict_payload a n)"
| "ann_record (AUsr r n) = (USR_DICT, usr_dict_payload r n)"
| "ann_record (ASig s a n) = (SIG_DICT, sig_dict_payload s a n)"

fun learn :: "announcement \<Rightarrow> Dictionaries \<Rightarrow> Dictionaries" where
  "learn (AObj a n) d = d\<lparr>di_objects := (di_objects d)(a \<mapsto> chars n)\<rparr>"
| "learn (AFun a n) d = d\<lparr>di_functions := (di_functions d)(a \<mapsto> chars n)\<rparr>"
| "learn (AUsr r n) d = d\<lparr>di_users := (di_users d)(r \<mapsto> chars n)\<rparr>"
| "learn (ASig s a n) d = d\<lparr>di_signals := (di_signals d)((ucast s, a) \<mapsto> chars n)\<rparr>"

text \<open>A name of at most 53 bytes fits every record under the port's configuration.\<close>

definition ann_ok :: "announcement \<Rightarrow> bool" where
  "ann_ok a \<longleftrightarrow> name_ok (ann_name a) \<and> length (ann_name a) \<le> 53"

lemma announce_tracer:
  "handle_tracer (pp_backend (announce wr us a port)) =
     snd (Tracer_record wr us (fst (ann_record a)) (snd (ann_record a)) False (handle_tracer (pp_backend port)))"
proof -
  have "handle_tracer (handle_set t h) = t" for t :: "'a Tracer" and h by (cases h) simp_all
  then show ?thesis
    by (cases a) (simp_all add: PosixPort_emit_obj_dict_def PosixPort_emit_fun_dict_def PosixPort_emit_usr_dict_def
        PosixPort_emit_sig_dict_def PosixPort_emit_dictionary_def PosixPort_emit_record_def split_beta)
qed

lemma ann_record_fits: "ann_ok a \<Longrightarrow> length (snd (ann_record a)) \<le> max_record_len QsConfig_default"
  by (cases a) (simp_all add: ann_ok_def obj_dict_payload_def fun_dict_payload_def usr_dict_payload_def sig_dict_payload_def
      push_c_string_def QsConfig_default_def le16_def)

lemma after_announcement:
  assumes "usize_widths (fi_sizes fi)" "ann_ok a"
  shows "after (fst (ann_record a)) (snd (ann_record a)) fi = fi\<lparr>fi_dict := learn a (fi_dict fi)\<rparr>"
proof -
  have "name_ok (ann_name a)" using assms(2) by (simp add: ann_ok_def)
  from handle_dict_state [OF assms(1) this] show ?thesis by (cases a) (simp_all add: after_records)
qed

text \<open>The widths the target information record announces.\<close>

definition usize_sizes :: TargetSizes where
  "usize_sizes = \<lparr>ts_time_size = 4, ts_obj_ptr_size = 8, ts_fun_ptr_size = 8, ts_signal_size = 2, ts_event_size = 2,
     ts_equeue_ctr = 2, ts_timeevt_ctr = 2, ts_mpool_siz = 2, ts_mpool_ctr = 2\<rparr>"

lemma emit_target_info_tracer:
  "handle_tracer (pp_backend (snd (PosixPort_emit_target_info wr us info (PosixPort_new b)))) =
     snd (Tracer_record wr us TARGET_INFO (target_info_payload info) False (Tracer_new QsConfig_default b))"
  by (simp add: PosixPort_emit_target_info_def PosixPort_emit_dictionary_def PosixPort_emit_record_def PosixPort_new_def split_beta)

lemma target_info_fits: "length (target_info_payload TargetInfo_default) \<le> max_record_len QsConfig_default"
  by (simp add: target_info_payload_def TargetInfo_default_def QsConfig_default_def le16_def)

lemma after_target_info:
  "after TARGET_INFO (target_info_payload TargetInfo_default) fi = fi\<lparr>fi_sizes := usize_sizes\<rparr>"
proof -
  have "update_from_target_info (target_info_payload TargetInfo_default) t = usize_sizes" for t
    by (subst target_info_sizes) (simp_all add: TargetInfo_default_def valid_width_def usize_sizes_def)
  then show ?thesis by (simp add: after_records handle_target_info_state)
qed

lemma usize_sizes_widths: "usize_widths usize_sizes"
  by (simp add: usize_widths_def usize_sizes_def)

end
