(* ===== verification/Spec2Isabelle.thy ===== *)
theory Spec2Isabelle
  imports QvSmp QkKernel QxkKernel QxkSmp TimeEvt QMsm EventPool QsTx QsRx Qspy TraceView ConsoleSpec RadioIsr FotaDrv PortSwitchSpec GpioDrv UartDrv SpiSpec IrqDrv TimerDrv MpuDrv I2cDrv XtensaPort PortLocks PortRuntime PosixPort
begin

text \<open>
  A verification library for qp-rs, a Rust port of the QP real-time event framework with its kernels, trace tooling,
  radio stack, hardware abstraction and ports.

  \<^bold>\<open>The program and its parts.\<close> Applications consist of active objects: hierarchical state machines with a priority and an
  event queue. A kernel (cooperative QV, preemptive QK, dual-mode QXK with blocking threads) picks the next object, takes an
  event from its queue and runs its handler to completion; handlers post and publish further events. Time events and memory
  pools feed the queues. Every component writes records to the QS tracer, whose byte stream the host tool \<open>qspy\<close> decodes and
  prints, and the host sends commands back to a parser on the target. The communication stack is one active object that runs
  protocol layers over a radio driver; interrupt handlers post to it. The drivers of \<open>hal/\<close> access peripherals through
  volatile registers; the ports switch contexts and program the protection unit.

  \<^bold>\<open>Conventions.\<close> A struct is a record, an enum a datatype, a method \<open>Type::method\<close> the definition \<open>Type_method\<close>. Integers are words
  of their width, \<open>usize\<close> a natural number (addresses in the drivers are 32-bit words). A panic, a failed assertion and an
  arithmetic overflow of the checked build are values \<open>Inl\<close> of \<open>fault\<close> (theory Prelude); \<open>Err\<close> results are sums of their own. A
  mutable object is passed and returned; a mutex makes an operation atomic, and where a lock is released between two steps
  the steps are separate definitions. Trace records are appended to a log. Application handlers, radios, clocks, ciphers and
  devices are arguments: handlers return the calls they make, devices are dictionaries of accesses to their state. What the
  code relies on in them is a named predicate (\<open>\<dots>_hw\<close>, \<open>\<dots>_port\<close>, a locale's assumptions), and every witness instantiates it with
  a concrete one. The build is the default one: \<open>std\<close> and \<open>qs\<close> on, \<open>static-alloc\<close> off; the multi-core schedulers are
  modelled beside the single-core ones.

  \<^bold>\<open>Shared theories.\<close> Prelude: words, faults, little-endian encodings, the trace log, generic lemmas. Dis
  (\<open>crates/qf/src/dis.rs\<close>): duplicated storage and the packed reference count; what is stored is read back, and what verifies was stored. ReadySet
  (\<open>priospec.rs\<close> and the 64-bit ready set): an interface \<open>priority_set\<close> of finite sets with a maximum. Hdlc: byte stuffing and
  checksums, with an interface \<open>destuffer\<close> that both decoders provide. Text: the UTF-8 strings and number formatting of Rust. Records:
  the record identifiers that target and host share.

  \<^bold>\<open>Framework\<close> (\<open>crates/qf\<close>). EQueue (\<open>equeue.rs\<close>): both queues implement \<open>bounded_queue\<close>, and the inline queue refines the
  heap-backed one. Active (\<open>active.rs\<close>, \<open>event.rs\<close>, \<open>pubsub.rs\<close>, \<open>isr.rs\<close>): posting, publishing, deferral, dispatch of one event. QvKernel
  (\<open>kernel.rs\<close>): the highest-priority object above the ceiling is served, the registry invariant is kept, running until idle
  returns. QvSmp (its multi-core build): no object is executed by two cores, and a core alone behaves as the single-core build. MPool (\<open>pool.rs\<close>): the free list lives in the memory it manages; under arbitrary writes of the clients to their own
  blocks no block is handed out twice. EventPool (\<open>event_pool.rs\<close>, \<open>pool_arc.rs\<close>): size classes over an interface
  \<open>block_allocator\<close>, and reference-counted payloads freed exactly with their last handle. TimeEvents and TimeEvt (\<open>time.rs\<close> of QF and QK): time
  events expire on the reference schedule, and the wheels deliver exactly the expired events through either kernel
  (\<open>expiry_target\<close>). StateTree, QHsm and QMsm (\<open>hsm/\<close>): every dispatch returns, the reported exits and entries lead from the old to the new
  active configuration, and a transition implements a reference transition through the lowest common ancestor.

  \<^bold>\<open>Kernels\<close> (\<open>crates/qk\<close>, \<open>crates/qxk\<close>). QkScheduler: ceiling, nested activation, and the multi-core scheduler as a step relation in
  whose reachable states no priority executes twice. QkKernel: registration, posting, and activation with handlers that call back
  into the kernel to any depth; no run faults, runs of applications with a decreasing work measure end idle; a wake-up lost
  between two critical sections is exhibited. QxkSched, QxkSmp, QxkPrims, QxkKernel: the thread queue, the multi-core scheduler, semaphores,
  mutexes, message queues and condition variables with their invariants over all call sequences, and the dual-mode kernel's policy and
  termination.

  \<^bold>\<open>Tracing\<close> (\<open>crates/qs\<close>, \<open>tools/qspy\<close>). QsTx: filters, sequence numbers, frames, user records. QsRx: the command parser as a byte
  state machine. Qspy: the host's decoder, cursor and command sender. Interp, DictFile (\<open>interpreter.rs\<close>): every record handler,
  dictionaries and their file; InterpSpec and TraceView show which lines the target's records give. Console, ConsoleSpec
  (\<open>runtime.rs\<close>, \<open>frontend.rs\<close>, \<open>output.rs\<close>): input loops, typed commands, the front-end protocol and the output sinks. The present
  theory composes them: the host decodes exactly the allowed records in order whatever the chunking; the target's
  parser yields exactly the commands sent or typed, apart from the masks of the filter commands, whose layouts differ; a saved stream replays to the same text.

  \<^bold>\<open>Communication\<close> (\<open>crates/comms\<close>, \<open>hal/src/rf.rs\<close>, \<open>hal/src/drivers/radio\<close>). Frames (\<open>buf.rs\<close>): buffers with headroom. Layers: transports, network and
  no-op layers as \<open>layer_codec\<close> and \<open>layer_robust\<close>. LoRaWan: accepted downlinks are exactly the authentic ones; a downlink round trip.
  RfPhy, RfAo, RfAoSpec (\<open>stack.rs\<close>): stacks over any radio, and the active object, which never panics apart from two frame sizes and
  gives up after the configured retransmissions. FotaDrv (\<open>fota.rs\<close>): the posted packets are the image and its CRC-32, the shift-register
  one. RadioBus, Radio1262, Radio1276, RadioLink: both transceiver drivers as scripts of bus writes, end to end from a payload to the
  receiving application. RadioIsr (\<open>ports/esp32-*/src/rf_isr.rs\<close>): what the interrupt handlers post.

  \<^bold>\<open>Hardware\<close> (\<open>hal/\<close>, \<open>ports/\<close>). Mmio (\<open>hal/src/mmio.rs\<close>, \<open>csr.rs\<close>): accesses, driver calls that fail, panic or spin, and polling loops. Registers
  (\<open>regs.rs\<close> of nine chips): every block's fields with their documented offsets. GpioDrv, UartDrv, SpiDrv: the drivers as
  dictionaries, stated once for the five ESP32 chips; on a conforming port (interfaces \<open>gpio_chip\<close>, \<open>uart_chip\<close>, \<open>spi_chip\<close> in
  GpioDrv, UartDrv, SpiSpec; what the peripherals do is stated without the drivers' own packing functions) a pin driver affects its own pin only, serial writes arrive in order, and transfers of
  any length exchange exactly the given bytes. I2cDrv: both I2C masters, the missing stop condition after an error and a peripheral that is never enabled because its block is misplaced. IrqDrv: four
  interrupt controllers behind \<open>interrupt_controller\<close>, and the critical sections. TimerDrv: SysTick, CLINT, CCOMPARE and cache
  maintenance. MpuDrv: region descriptors, decoded by the architecture's tables, the programming of the unit and the fault hook (\<open>fusa.rs\<close>). PortSwitch, PortSwitchSpec
  (\<open>ports/cortex-m\<close>, \<open>ports/riscv\<close>): the handlers' assembly as transformations of registers and memory; a new thread starts at its entry
  with its argument, and a suspended one is resumed from its initial stack pointer; exception entry and return are those of a processor
  with aligned frames and without a floating-point context. XtensaPort (\<open>ports/xtensa\<close>): initial stacks, and the
  window handlers, whose save areas do not agree. PortLocks: the scheduler locks of the three architectures behind \<open>critical_section\<close>;
  sections nest to any depth. PortRuntime: the runtimes that own a kernel and its timer wheel, and the start-up of the ESP32
  boards down to the first deadline in the timer's register. PosixPort (\<open>ports/posix\<close>): the tracer over its transports and the dictionary
  records; the present theory shows that exactly the announced names reach the host's dictionaries.

  \<^bold>\<open>Loops.\<close> Structural loops are structural recursions. The run loops of the kernels and the state machines' walks take fuel; the
  theorems state that some amount is enough and that more gives the same result, from a work measure of the application (kernels) or from
  the finite depth of the state tree. Polling loops are partial functions into \<open>option\<close>: \<open>None\<close> is a driver that spins for ever, and the
  theorems state that a call returns if the peripheral becomes ready after some number of polls.

  \<^bold>\<open>Not modelled.\<close> The command line of \<open>qspy\<close>, opening serial ports and sockets, and terminal modes: input and output only. Conversions of a payload handle into a
  heap pointer and raw-pointer accessors: they need the language's memory model. Mutex wrappers, re-exports, accessors and type aliases. \<open>hal-esp-idf\<close>:
  glue to an SDK that is not in the repository. Traits without an implementation. The QXK runtimes of RISC-V and Xtensa, which
  repeat the Cortex-M one. Memory barriers and delay loops, which change no modelled state. Example applications.
\<close>

section \<open>Trace stream: from the target's tracer to the host's decoder\<close>

text \<open>A request to a tracer: record type, payload, time stamp flag and clock reading.\<close>

type_synonym trace_request = "u8 \<times> u8 list \<times> bool \<times> nat"

text \<open>A backend that appends each frame to the byte stream towards the host.\<close>

definition stream_backend :: "u8 list \<Rightarrow> u8 list \<Rightarrow> bool \<times> u8 list" where
  "stream_backend frame stream = (True, stream @ frame)"

definition trace_all :: "trace_request list \<Rightarrow> u8 list Tracer \<Rightarrow> u8 list Tracer" where
  "trace_all reqs = fold (\<lambda>(rt, p, ts, us) t. snd (Tracer_record stream_backend us rt p ts t)) reqs"

text \<open>The requests a tracer sends, and the frame the host should see for the \<open>n\<close>-th of them.\<close>

definition sent :: "QsConfig \<Rightarrow> GlbFilter \<Rightarrow> trace_request \<Rightarrow> bool" where
  "sent cfg g = (\<lambda>(rt, p, ts, us). GlbFilter_is_allowed rt g \<and> length p \<le> max_record_len cfg)"

definition host_frame :: "QsConfig \<Rightarrow> u8 \<Rightarrow> trace_request \<Rightarrow> QsFrame" where
  "host_frame cfg sq = (\<lambda>(rt, p, ts, us). \<lparr>qf_seq = sq, qf_record_type = rt,
     qf_payload = (if include_timestamp cfg \<and> ts then le32 (of_nat us) else []) @ p\<rparr>)"

fun host_frames :: "QsConfig \<Rightarrow> u8 \<Rightarrow> trace_request list \<Rightarrow> QsFrame list" where
  "host_frames cfg sq [] = []"
| "host_frames cfg sq (q # qs) = host_frame cfg (sq + 1) q # host_frames cfg (sq + 1) qs"

lemma hd_new: "HdlcDecoder_new = hd_within []"
  by (simp add: HdlcDecoder_new_def hd_within_def)

lemma decode_one:
  "feed_all hdlc_feed (build_frame r) (hd_within []) =
     (hd_within [], [Inr \<lparr>qf_seq = qr_seq r, qf_record_type = qr_record_type r,
        qf_payload = timestamp_bytes (qr_timestamp r) @ qr_payload r\<rparr>])"
proof -
  let ?bs = "record_bytes r @ [not (wrapping_sum (record_bytes r))]"
  have "decode_frame ?bs = Inr \<lparr>qf_seq = qr_seq r, qf_record_type = qr_record_type r,
      qf_payload = timestamp_bytes (qr_timestamp r) @ qr_payload r\<rparr>"
    unfolding record_bytes_def append.assoc
    using decode_frame_checked [of "qr_seq r" "qr_record_type r" "timestamp_bytes (qr_timestamp r) @ qr_payload r"]
    by (simp only: append.assoc)
  moreover have "?bs \<noteq> []" by simp
  ultimately show ?thesis
    unfolding build_frame_eq feed_all_append hd.feed_stuff
    by (simp add: hd_flag hd_within_def [of "record_bytes r @ _"])
qed

lemma Tracer_record_stream:
  "snd (Tracer_record stream_backend us rt p ts t) =
     (if sent (tr_cfg t) (tr_filter t) (rt, p, ts, us)
      then t\<lparr>tr_seq := tr_seq t + 1, tr_backend := tr_backend t @ build_frame
        \<lparr>qr_seq = tr_seq t + 1, qr_record_type = rt,
         qr_timestamp = (if include_timestamp (tr_cfg t) \<and> ts then Some us else None), qr_payload = p\<rparr>\<rparr>
      else t)"
  by (simp add: Tracer_record_def sent_def stream_backend_def Let_def)

lemma trace_all_decode:
  "feed_all hdlc_feed bs (hd_within []) = (hd_within [], out) \<Longrightarrow> tr_backend t = bs \<Longrightarrow>
   feed_all hdlc_feed (tr_backend (trace_all reqs t)) (hd_within []) =
     (hd_within [], out @ map Inr (host_frames (tr_cfg t) (tr_seq t) (filter (sent (tr_cfg t) (tr_filter t)) reqs)))"
proof (induction reqs arbitrary: t bs out)
  case Nil
  then show ?case by (simp add: trace_all_def)
next
  case (Cons q reqs)
  obtain rt p ts us where q: "q = (rt, p, ts, us)" by (cases q)
  show ?case
  proof (cases "sent (tr_cfg t) (tr_filter t) q")
    case False
    then show ?thesis using Cons q by (simp add: trace_all_def Tracer_record_stream)
  next
    case True
    let ?r = "\<lparr>qr_seq = tr_seq t + 1, qr_record_type = rt,
         qr_timestamp = (if include_timestamp (tr_cfg t) \<and> ts then Some us else None), qr_payload = p\<rparr>"
    let ?t = "t\<lparr>tr_seq := tr_seq t + 1, tr_backend := tr_backend t @ build_frame ?r\<rparr>"
    have "trace_all (q # reqs) t = trace_all reqs ?t"
      using True q by (simp add: trace_all_def Tracer_record_stream)
    moreover have "feed_all hdlc_feed (tr_backend ?t) (hd_within []) =
        (hd_within [], out @ [Inr (host_frame (tr_cfg t) (tr_seq t + 1) q)])"
      using Cons.prems
      by (simp add: feed_all_append decode_one host_frame_def q timestamp_bytes_def)
    ultimately show ?thesis using Cons.IH [of _ _ ?t] True by simp
  qed
qed

text \<open>
  C9: Trace round trip: whatever records the application requests, whatever the filter and the
  configuration, the host decodes from the target's byte stream exactly the records that were
  allowed and short enough, in order, with their time stamps and payloads, and with sequence
  numbers that count up from one without a gap; no frame is rejected. The stream may be cut into
  chunks anywhere, and whatever bytes preceded a flag do not disturb the frames after it.
\<close>

theorem trace_stream_round_trip:
  "HdlcDecoder_push_bytes (tr_backend (trace_all reqs (Tracer_set_filter g (Tracer_new cfg [])))) HdlcDecoder_new =
     (HdlcDecoder_new, map Inr (host_frames cfg 0 (filter (sent cfg g) reqs))) \<and>
   HdlcDecoder_push_bytes (xs @ ys) d =
     (let (d1, r1) = HdlcDecoder_push_bytes xs d; (d2, r2) = HdlcDecoder_push_bytes ys d1 in (d2, r1 @ r2)) \<and>
   fst (HdlcDecoder_push_bytes (noise @ [FLAG]) d) = HdlcDecoder_new"
proof (intro conjI)
  show "HdlcDecoder_push_bytes (tr_backend (trace_all reqs (Tracer_set_filter g (Tracer_new cfg [])))) HdlcDecoder_new =
     (HdlcDecoder_new, map Inr (host_frames cfg 0 (filter (sent cfg g) reqs)))"
    using trace_all_decode [of "[]" "[]" "Tracer_set_filter g (Tracer_new cfg [])" reqs]
    by (simp add: HdlcDecoder_push_bytes_def hd_new Tracer_new_def Tracer_set_filter_def)
  show "HdlcDecoder_push_bytes (xs @ ys) d =
     (let (d1, r1) = HdlcDecoder_push_bytes xs d; (d2, r2) = HdlcDecoder_push_bytes ys d1 in (d2, r1 @ r2))"
    unfolding HdlcDecoder_push_bytes_def by (rule feed_all_append)
  show "fst (HdlcDecoder_push_bytes (noise @ [FLAG]) d) = HdlcDecoder_new"
    unfolding HdlcDecoder_push_bytes_def feed_all_append
    by (simp add: hd_flag hd_new split_def Let_def)
qed

text \<open>
  Error detection: a frame the host accepts is rejected with a checksum error when any one of
  its bytes, the checksum included, is replaced by a different one.
\<close>

theorem decoder_detects_one_corrupt_byte:
  assumes "decode_frame data = Inr f" "i < length data" "b \<noteq> data ! i"
  shows "\<exists>e c. decode_frame (data[i := b]) = Inl (InvalidChecksum e c)"
proof -
  from assms(1) have len: "\<not> length data < 3" and chk: "last data = not (wrapping_sum (butlast data))"
    by (auto simp: decode_frame_def Let_def split: if_splits)
  define ps where "ps = butlast data"
  have d: "data = ps @ [not (wrapping_sum ps)]"
    using len chk by (metis append_butlast_last_id le0 list.size(3) not_less ps_def zero_less_numeral)
  have "last (data[i := b]) \<noteq> not (wrapping_sum (butlast (data[i := b])))"
  proof (cases "i < length ps")
    case True
    then have "data[i := b] = ps[i := b] @ [not (wrapping_sum ps)]" using d by (simp add: list_update_append)
    moreover have "wrapping_sum (ps[i := b]) \<noteq> wrapping_sum ps"
      using True assms(3) d wrapping_sum_update [OF True, of b] by (simp add: nth_append)
    then have "not (wrapping_sum ps) \<noteq> not (wrapping_sum (ps[i := b]))" by (metis bit.double_compl)
    ultimately show ?thesis by simp
  next
    case False
    then have i: "i = length ps" using assms(2) d by simp
    then have "data[i := b] = ps @ [b]" using d by (metis list_update_length)
    moreover have "b \<noteq> not (wrapping_sum ps)" using assms(3) d i by (metis nth_append_length)
    ultimately show ?thesis by simp
  qed
  with len show ?thesis by (auto simp: decode_frame_def Let_def)
qed

theorem decoder_detects_one_corrupt_byte_witness:
  "\<exists>e c. decode_frame ([1, 64, 9, not (1 + (64 + 9))][2 := 8]) = Inl (InvalidChecksum e c)"
proof (rule decoder_detects_one_corrupt_byte)
  show "decode_frame [1, 64, 9, not (1 + (64 + 9))] = Inr \<lparr>qf_seq = 1, qf_record_type = 64, qf_payload = [9]\<rparr>"
    using decode_frame_checked [of 1 64 "[9]"] by simp
qed simp_all

section \<open>Command stream: from the host to the target's parser\<close>

definition send_all :: "(u8 \<times> u8 list) list \<Rightarrow> CommandSender \<Rightarrow> CommandSender" where
  "send_all cmds = fold (\<lambda>(i, p). CommandSender_send i p) cmds"

lemma rx_one:
  "feed_all rx_feed (cmd_build_frame sq i p) RxParser_new = (RxParser_new, [decode_cmd i p])"
proof -
  let ?raw = "[sq, i] @ p @ [not (wrapping_sum ([sq, i] @ p))]"
  have "feed_all rx_feed (stuff ?raw @ [FLAG]) (rx_within []) = (RxParser_new, [decode_cmd i p])"
    unfolding feed_all_append rx.feed_stuff using rx_try_decode_checked [of sq i p] by (simp add: rx_close)
  then show ?thesis unfolding cmd_build_frame_eq by (simp add: rx_open)
qed

lemma rx_many:
  "feed_all rx_feed (cs_written c) RxParser_new = (RxParser_new, out) \<Longrightarrow>
   feed_all rx_feed (cs_written (send_all cmds c)) RxParser_new =
     (RxParser_new, out @ map (\<lambda>(i, p). decode_cmd i p) cmds)"
proof (induction cmds arbitrary: c out)
  case Nil
  then show ?case by (simp add: send_all_def)
next
  case (Cons x cmds)
  obtain i p where x: "x = (i, p)" by (cases x)
  have "feed_all rx_feed (cs_written (CommandSender_send i p c)) RxParser_new = (RxParser_new, out @ [decode_cmd i p])"
    using Cons.prems by (simp add: CommandSender_send_def feed_all_append rx_one)
  from Cons.IH [OF this] x show ?case by (simp add: send_all_def)
qed

text \<open>
  The calls of the command sender, what they send, and the command that is expected to arrive for each of them: the same command
  with the same arguments, for a raw frame what its payload decodes to. The two filter calls are the exceptions: they put a length
  byte 16 before the sixteen mask bytes, where the parser takes the first sixteen bytes as the mask of the global filter, and the
  first nine as the kind and the object address of a local filter.
\<close>

datatype host_call =
    Send_info
  | Send_reset
  | Send_tick u8
  | Send_raw u8 "u8 list"
  | Send_test_setup
  | Send_test_teardown
  | Send_continue
  | Send_ao_filter u8
  | Send_query_curr u8
  | Send_command u8 u32 u32 u32
  | Send_glb_filter "u8 list"
  | Send_loc_filter "u8 list"

fun perform :: "host_call \<Rightarrow> CommandSender \<Rightarrow> CommandSender" where
  "perform Send_info = send_info"
| "perform Send_reset = send_reset"
| "perform (Send_tick rate) = send_tick rate"
| "perform (Send_raw i p) = send_raw i p"
| "perform Send_test_setup = send_test_setup"
| "perform Send_test_teardown = send_test_teardown"
| "perform Send_continue = send_continue"
| "perform (Send_ao_filter prio) = send_ao_filter prio"
| "perform (Send_query_curr kind) = send_query_curr kind"
| "perform (Send_command i p1 p2 p3) = send_command i p1 p2 p3"
| "perform (Send_glb_filter msk) = send_glb_filter msk"
| "perform (Send_loc_filter msk) = send_loc_filter msk"

fun arrives :: "host_call \<Rightarrow> RxCmd" where
  "arrives Send_info = RxInfo"
| "arrives Send_reset = RxReset"
| "arrives (Send_tick rate) = RxTick rate"
| "arrives (Send_raw i p) = decode_cmd i p"
| "arrives Send_test_setup = RxTestSetup"
| "arrives Send_test_teardown = RxTestTeardown"
| "arrives Send_continue = RxTestContinue"
| "arrives (Send_ao_filter prio) = RxAoFilter prio"
| "arrives (Send_query_curr kind) = RxQueryCurr kind"
| "arrives (Send_command i p1 p2 p3) = RxCommand i p1 p2 p3"
| "arrives (Send_glb_filter msk) = RxGlbFilter (16 # take 15 msk)"
| "arrives (Send_loc_filter msk) = RxLocFilter 16 (of_le (take 8 msk))"

text \<open>Masks are arrays of sixteen bytes.\<close>

fun call_typed :: "host_call \<Rightarrow> bool" where
  "call_typed (Send_glb_filter msk) = (length msk = 16)"
| "call_typed (Send_loc_filter msk) = (length msk = 16)"
| "call_typed _ = True"

text \<open>The record identifier and payload of the frame a call sends.\<close>

fun wire :: "host_call \<Rightarrow> u8 \<times> u8 list" where
  "wire Send_info = (0, [])"
| "wire Send_reset = (2, [])"
| "wire (Send_tick rate) = (3, [rate])"
| "wire (Send_raw i p) = (i, p)"
| "wire Send_test_setup = (7, [])"
| "wire Send_test_teardown = (8, [])"
| "wire Send_continue = (14, [])"
| "wire (Send_ao_filter prio) = (12, [prio])"
| "wire (Send_query_curr kind) = (15, [kind])"
| "wire (Send_command i p1 p2 p3) = (1, [i] @ le32 p1 @ le32 p2 @ le32 p3)"
| "wire (Send_glb_filter msk) = (10, [16] @ msk)"
| "wire (Send_loc_filter msk) = (11, [16] @ msk)"

lemma perform_wire: "perform c = (case wire c of (i, p) \<Rightarrow> CommandSender_send i p)"
  by (cases c) (simp_all add: send_info_def send_reset_def send_tick_def send_raw_def send_test_setup_def send_test_teardown_def
      send_continue_def send_ao_filter_def send_query_curr_def send_command_def send_glb_filter_def send_loc_filter_def)

lemma wire_arrives: "call_typed c \<Longrightarrow> (case wire c of (i, p) \<Rightarrow> decode_cmd i p) = arrives c"
proof (cases c)
  case (Send_raw i p)
  then show ?thesis by simp
qed (simp_all add: decode_cmd_def slice_def)

text \<open>
  C10: Command round trip: whatever calls of its command sender the host makes, the target's parser yields exactly one command per
  call, in order, and ends outside a frame. Information, reset, tick, test setup, teardown and continue, object filter, query
  and application commands arrive as the corresponding command with the same arguments, raw frames as what their payload decodes
  to. The two filter commands arrive, too, but not with the mask that was given: the global filter's is shifted by the length byte
  in front of it and loses its last byte, and the local filter's is read as kind 16 and an object address made of its first eight bytes.
\<close>

theorem command_stream_round_trip:
  assumes "list_all call_typed calls"
  shows "RxParser_push_slice (cs_written (fold perform calls CommandSender_new)) RxParser_new = (RxParser_new, map arrives calls)"
proof -
  have c: "fold perform calls c = send_all (map wire calls) c" for c
    by (induction calls arbitrary: c) (simp_all add: send_all_def perform_wire)
  have "map (\<lambda>(i, p). decode_cmd i p) (map wire calls) = map arrives calls"
    using assms wire_arrives by (auto simp: list_all_iff)
  with rx_many [of CommandSender_new "[]" "map wire calls"] show ?thesis
    unfolding c by (simp add: RxParser_push_slice_def CommandSender_new_def)
qed

theorem command_stream_round_trip_witness:
  "snd (RxParser_push_slice (cs_written (fold perform
       [Send_info, Send_tick 0x7E, Send_command 1 2 3 0x7D7E, Send_raw 13 [2], Send_glb_filter [1, 2, 3, 4, 5, 6, 7, 8, 9, 10, 11, 12, 13, 14, 15, 0x7D]]
       CommandSender_new)) RxParser_new) =
     [RxInfo, RxTick 0x7E, RxCommand 1 2 3 0x7D7E, RxUnknown 13 [2], RxGlbFilter [16, 1, 2, 3, 4, 5, 6, 7, 8, 9, 10, 11, 12, 13, 14, 15]]"
  using command_stream_round_trip [of "[Send_info, Send_tick 0x7E, Send_command 1 2 3 0x7D7E, Send_raw 13 [2],
      Send_glb_filter [1, 2, 3, 4, 5, 6, 7, 8, 9, 10, 11, 12, 13, 14, 15, 0x7D]]"]
  by (simp add: decode_cmd_def)

text \<open>
  The host's global filter command does not arrive as sent: the sender puts a length byte 16
  before the sixteen mask bytes, and the parser takes the first sixteen payload bytes as the mask,
  so the target applies the mask shifted by one byte with its last byte lost.
\<close>

theorem glb_filter_command_shifted:
  assumes "length m = 16"
  shows "snd (RxParser_push_slice (cs_written (send_glb_filter m CommandSender_new)) RxParser_new) =
    [RxGlbFilter (16 # butlast m)]"
proof -
  have "decode_cmd 10 (16 # m) = RxGlbFilter (16 # take 15 m)"
    using assms by (simp add: decode_cmd_def slice_def)
  moreover have "take 15 m = butlast m" using assms by (simp add: butlast_conv_take)
  ultimately show ?thesis
    using rx_many [of CommandSender_new "[]" "[(10, 16 # m)]"]
    by (simp add: RxParser_push_slice_def CommandSender_new_def send_glb_filter_def send_all_def)
qed

theorem glb_filter_command_shifted_witness:
  "snd (RxParser_push_slice (cs_written (send_glb_filter (replicate 16 255) CommandSender_new)) RxParser_new) =
    [RxGlbFilter (16 # butlast (replicate 16 255))]"
  by (rule glb_filter_command_shifted) simp

text \<open>
  One stray flag byte before the first command desynchronises the parser for good: it takes
  every opening flag for a closing one, and none of the commands that follow is ever decoded.
\<close>

theorem stray_flag_loses_all_commands:
  "snd (RxParser_push_slice (FLAG # cs_written (send_all cmds CommandSender_new)) RxParser_new) = []"
proof -
  have one: "feed_all rx_feed (cmd_build_frame sq i p) (rx_within []) = (rx_within [], [])" for sq i p
  proof -
    let ?body = "stuff ([sq, i] @ p @ [not (wrapping_sum ([sq, i] @ p))])"
    have "rx_feed FLAG (rx_within []) = (RxParser_new, [])"
      unfolding rx_close by (simp add: RxParser_try_decode_def rx_within_def)
    moreover have "feed_all rx_feed ?body RxParser_new = (RxParser_new, [])"
      by (rule rx_idle_skip [OF stuff_no_flag])
    ultimately show ?thesis
      unfolding cmd_build_frame_eq by (simp add: feed_all_append rx_open del: stuff_simps)
  qed
  have "feed_all rx_feed (cs_written c) (rx_within []) = (rx_within [], []) \<Longrightarrow>
      feed_all rx_feed (cs_written (send_all cs c)) (rx_within []) = (rx_within [], [])" for cs c
  proof (induction cs arbitrary: c)
    case Nil
    then show ?case by (simp add: send_all_def)
  next
    case (Cons x cs)
    obtain i p where x: "x = (i, p)" by (cases x)
    have "feed_all rx_feed (cs_written (CommandSender_send i p c)) (rx_within []) = (rx_within [], [])"
      using Cons.prems by (simp add: CommandSender_send_def feed_all_append one)
    from Cons.IH [OF this] x show ?case by (simp add: send_all_def)
  qed
  from this [of CommandSender_new cmds] show ?thesis
    by (simp add: RxParser_push_slice_def rx_open CommandSender_new_def)
qed

section \<open>A session of the host tool\<close>

text \<open>
  C29: From the application's trace requests to the files of the host: however the target's byte
  stream is cut into reads, the text file holds exactly the lines of the records that were allowed
  and short enough, in order, the interpreter has learnt what those records tell, the binary file
  holds the stream, and replaying that file, again in reads of any size, ends in the same state.
\<close>

theorem session_text_and_replay:
  assumes "ho_decoder h = HdlcDecoder_new" "os_text_out (ho_sinks h) = Some []" "os_bin_out (ho_sinks h) = Some []"
    "concat reads = tr_backend (trace_all reqs (Tracer_set_filter g (Tracer_new cfg [])))"
    "concat rereads = concat reads"
  shows "case interpret_frames (host_frames cfg 0 (filter (sent cfg g) reqs)) (ho_interp h) of (fi, ls) \<Rightarrow>
    ho_interp (fold (process_chunk up) reads h) = fi \<and>
    os_text_out (ho_sinks (fold (process_chunk up) reads h)) = Some (file_of ls) \<and>
    os_bin_out (ho_sinks (fold (process_chunk up) reads h)) = Some (concat rereads) \<and>
    fold (process_chunk up) rereads h = fold (process_chunk up) reads h"
proof -
  have "HdlcDecoder_push_bytes (concat reads) (ho_decoder h) =
      (HdlcDecoder_new, map Inr (host_frames cfg 0 (filter (sent cfg g) reqs)))"
    using trace_all_decode [of "[]" "[]" "Tracer_set_filter g (Tracer_new cfg [])" reqs] assms(1,4)
    by (simp add: HdlcDecoder_push_bytes_def hd_new Tracer_new_def Tracer_set_filter_def)
  note c = process_chunk_shown [OF this, of up]
  have "ok_frames (map Inr fs) = fs" for fs by (simp add: ok_frames_def comp_def)
  then show ?thesis
    using c assms(2,3,5) by (simp add: process_chunks shown_def split_beta)
qed

definition demo_host :: "u8 Host" where
  "demo_host = \<lparr>ho_decoder = HdlcDecoder_new, ho_interp = FrameInterpreter_new,
     ho_sinks = (OutputSinks_new True False)\<lparr>os_text_out := Some [], os_bin_out := Some []\<rparr>,
     ho_frontend = None, ho_sender = None, ho_console = [], ho_saved = []\<rparr>"

theorem session_text_and_replay_witness:
  "\<exists>stream. os_text_out (ho_sinks (fold (process_chunk (\<lambda>a. True)) (map (\<lambda>b. [b]) stream) demo_host)) =
      Some (file_of (snd (interpret_frames (host_frames QsConfig_default 0 (filter (sent QsConfig_default GlbFilter_allow_all)
        [(52, [3, 0], True, 7)])) FrameInterpreter_new)))"
proof -
  let ?s = "tr_backend (trace_all [(52, [3, 0], True, 7)] (Tracer_set_filter GlbFilter_allow_all (Tracer_new QsConfig_default [])))"
  have c: "concat (map (\<lambda>b. [b]) xs) = xs" for xs :: "u8 list" by (induction xs) auto
  show ?thesis
    using session_text_and_replay [of demo_host "map (\<lambda>b. [b]) ?s" "[(52, [3, 0], True, 7)]" GlbFilter_allow_all QsConfig_default
        "[?s]" "\<lambda>a. True"]
    by (intro exI [of _ ?s]) (simp add: demo_host_def OutputSinks_new_def c split_beta)
qed

section \<open>Names announced by the POSIX port\<close>











text \<open>The commands a user can type that go to the target, the line that is typed, and what arrives.\<close>

fun typed_line :: "UserCmd \<Rightarrow> string" where
  "typed_line UInfo = ''i''"
| "typed_line UReset = ''r''"
| "typed_line (UTick n) = ''t '' @ decw n"
| "typed_line (USendCommand i p1 p2 p3) = ''c '' @ decw i @ '' '' @ decw p1 @ '' '' @ decw p2 @ '' '' @ decw p3"
| "typed_line _ = []"

fun sent_frame :: "UserCmd \<Rightarrow> u8 \<times> u8 list" where
  "sent_frame UInfo = (0, [])"
| "sent_frame UReset = (2, [])"
| "sent_frame (UTick n) = (3, [n])"
| "sent_frame (USendCommand i p1 p2 p3) = (1, [i] @ le32 p1 @ le32 p2 @ le32 p3)"
| "sent_frame _ = (0, [])"

fun arrives_as :: "UserCmd \<Rightarrow> RxCmd" where
  "arrives_as UInfo = RxInfo"
| "arrives_as UReset = RxReset"
| "arrives_as (UTick n) = RxTick n"
| "arrives_as (USendCommand i p1 p2 p3) = RxCommand i p1 p2 p3"
| "arrives_as _ = RxInfo"

fun to_target :: "UserCmd \<Rightarrow> bool" where
  "to_target UInfo \<longleftrightarrow> True"
| "to_target UReset \<longleftrightarrow> True"
| "to_target (UTick n) \<longleftrightarrow> True"
| "to_target (USendCommand i p1 p2 p3) \<longleftrightarrow> True"
| "to_target _ \<longleftrightarrow> False"

lemma parse_typed_line:
  assumes "to_target c" "list_all (\<lambda>(alias, i). alias \<notin> {''i'', ''r'', ''t'', ''c''}) aliases"
  shows "parse_keyboard_cmd secs (typed_line c) aliases custom = Some c"
proof -
  have f: "find (\<lambda>(alias, i). alias = w) aliases = None" if "w \<in> {''i'', ''r'', ''t'', ''c''}" for w
    using assms(2) that by (auto simp: find_None_iff list_all_iff)
  have d: "CHR '' '' \<notin> set (dec n)" for n by (rule dec_text)
  have s1: "splitn 5 [w] = [[w]]" if "w \<noteq> CHR '' ''" for w using splitn_miss [of "[w]" 4] that by (simp add: eval_nat_numeral)
  have s2: "splitn 5 (w # CHR '' '' # dec n) = [[w], dec n]" if "w \<noteq> CHR '' ''" for w n
    using splitn_hit [of "[w]" 3 "dec n"] splitn_miss [OF d, of 3 n] that by (simp add: eval_nat_numeral)
  have s5: "splitn 5 (''c '' @ dec i @ '' '' @ dec a @ '' '' @ dec b @ '' '' @ dec e) = [''c'', dec i, dec a, dec b, dec e]" for i a b e
    using splitn_hit [of "''c''" 3] by (simp add: eval_nat_numeral splitn_hit d)
  show ?thesis
    using assms(1) f [of "''i''"] f [of "''r''"] f [of "''t''"] f [of "''c''"] s5
    by (cases c) (simp_all add: parse_keyboard_cmd_def s1 s2 parse_or_0_def from_str_radix_dec Let_def)
qed

lemma graphic_last_dec: "graphic (last (s @ dec n))"
proof -
  have "last (dec n) \<in> digit ` {..<10}" using set_digits [of 10 n] last_in_set [OF digits_nonempty, of 10 n] by (auto simp: dec_def)
  moreover have "graphic (digit d)" if "d < 10" for d using that by (simp add: graphic_def digit_def)
  ultimately show ?thesis by (auto simp: dec_def)
qed

lemma trim_typed_line: "to_target c \<Longrightarrow> trim (typed_line c) = typed_line c"
proof (rule trim_graphic)
  assume c: "to_target c"
  then show "typed_line c \<noteq> []" "graphic (hd (typed_line c))" by (cases c; simp add: graphic_def)+
  show "graphic (last (typed_line c))"
    using c graphic_last_dec [of "''t ''"] graphic_last_dec [of "''c '' @ _ @ '' '' @ _ @ '' '' @ _ @ '' ''"]
    by (cases c) (simp_all add: graphic_def)
qed

lemma keyboard_typed:
  assumes "list_all to_target cmds" "list_all (\<lambda>(alias, i). alias \<notin> {''i'', ''r'', ''t'', ''c''}) aliases"
  shows "keyboard_loop_line secs aliases custom (map typed_line cmds) = cmds"
  using assms(1)
proof (induction cmds)
  case (Cons c cmds)
  then show ?case using parse_typed_line [OF _ assms(2), of c] trim_typed_line [of c] by (cases c) simp_all
qed simp

lemma drain_to_target:
  assumes "list_all to_target cmds" "en_write en" "ho_sender h = Some c"
  shows "drain_keyboard en cmds h = (False, h\<lparr>ho_sender := Some (send_all (map sent_frame cmds) c)\<rparr>)"
  using assms(1,3)
proof (induction cmds arbitrary: h c)
  case Nil
  then show ?case by (simp add: send_all_def)
next
  case (Cons cmd cmds)
  have "dispatch_cmd en cmd h = (False, h\<lparr>ho_sender := Some (send_all [sent_frame cmd] c)\<rparr>)"
    using Cons.prems assms(2)
    by (cases cmd) (simp_all add: dispatch_cmd_def on_sender_def try_send_def send_all_def send_info_def send_reset_def
        send_tick_def send_command_def)
  with Cons show ?case by (simp add: send_all_def)
qed

text \<open>
  C30: What is typed at the console is what the target executes: every typed information, reset, tick
  and application command (with its numbers in decimal, under no project alias) is recognised, and
  while the link to the target is up the target's parser yields exactly these commands in the order
  typed, with their arguments; the console keeps running and nothing else of its state changes.
\<close>

theorem typed_commands_reach_target:
  assumes "list_all to_target cmds" "list_all (\<lambda>(alias, i). alias \<notin> {''i'', ''r'', ''t'', ''c''}) aliases"
    "en_write en" "ho_sender h = Some CommandSender_new"
  shows "\<exists>c. drain_keyboard en (keyboard_loop_line secs aliases custom (map typed_line cmds)) h =
      (False, h\<lparr>ho_sender := Some c\<rparr>) \<and>
    RxParser_push_slice (cs_written c) RxParser_new = (RxParser_new, map arrives_as cmds)"
proof -
  have a: "decode_cmd (fst (sent_frame c)) (snd (sent_frame c)) = arrives_as c" if "to_target c" for c
    using that by (cases c) (simp_all add: decode_cmd_def slice_def)
  have "map (\<lambda>(i, p). decode_cmd i p) (map sent_frame cmds) = map arrives_as cmds"
    using assms(1) a by (auto simp: list_all_iff split_beta)
  then have "RxParser_push_slice (cs_written (send_all (map sent_frame cmds) CommandSender_new)) RxParser_new =
      (RxParser_new, map arrives_as cmds)"
    using rx_many [of CommandSender_new "[]" "map sent_frame cmds"]
    by (simp add: RxParser_push_slice_def CommandSender_new_def)
  with drain_to_target [OF assms(1,3,4)] keyboard_typed [OF assms(1,2)] show ?thesis by auto
qed

definition demo_env :: "u8 Env" where
  "demo_env = \<lparr>en_up = (\<lambda>a. True), en_write = True, en_open = True, en_secs = 0,
     en_entries = (\<lambda>d. \<lparr>de_objects = [], de_functions = [], de_signals = [], de_users = [], de_enums = []\<rparr>), en_custom = None\<rparr>"

theorem typed_commands_reach_target_witness:
  "\<exists>c. drain_keyboard demo_env (keyboard_loop_line 0 [(''pause'', 4)] False
        [''t '' @ decw (2 :: u8), ''i'']) (demo_host\<lparr>ho_sender := Some CommandSender_new\<rparr>) =
      (False, demo_host\<lparr>ho_sender := Some c\<rparr>) \<and>
    RxParser_push_slice (cs_written c) RxParser_new = (RxParser_new, [RxTick 2, RxInfo])"
  using typed_commands_reach_target [of "[UTick 2, UInfo]" "[(''pause'', 4)]" demo_env
      "demo_host\<lparr>ho_sender := Some CommandSender_new\<rparr>" 0 False]
  by (simp add: demo_env_def)

end
